(* ===== verification/Prelude.thy ===== *)
theory Prelude
  imports Main "HOL-Library.Char_ord" "HOL-Library.List_Lexorder" "HOL-Library.Sublist"
    "HOL-Library.Word"
begin

text \<open>
  Shared vocabulary of the development: Go's strings and the \<open>strings\<close> functions the
  program uses, identifiers, instants and durations, and the \<open>cliproto.Error\<close> value.

  \<^item> A Go string is a list of bytes, here \<open>string\<close>; \<open><\<close> on strings is Go's bytewise order
    (the lexicographic order of \<open>List_Lexorder\<close> over \<open>Char_ord\<close>).
  \<^item> A \<open>uuid.UUID\<close> is represented by its canonical text (\<open>UUID.String()\<close>); comparing two
    UUIDs is comparing their texts. Freshly generated UUIDs are arguments of the operations.
  \<^item> A \<open>time.Time\<close> is the number of nanoseconds since Go's zero instant, so \<open>IsZero\<close> is
    \<open>t = 0\<close>; locations only affect printing. A \<open>time.Duration\<close> is an \<open>int\<close> held in the
    signed 64-bit range: \<open>Sub\<close> saturates and multiplication wraps, as in Go.
\<close>

section \<open>Collections of facts\<close>

named_theorems ppz_defs \<open>definitions of small operations, for unfolding in component proofs\<close>

section \<open>Types\<close>

type_synonym uuid = string
type_synonym instant = int
type_synonym duration = int

definition uuid_nil :: uuid where
  "uuid_nil = ''00000000-0000-0000-0000-000000000000''"

record cerror =
  Code :: string
  Message :: string

text \<open>
  Calls that can fail for a reason outside the model (a lost database connection, a NATS
  outage) are numbered per operation by a datatype of call sites; a fault oracle says which
  call fails and with what error text.
\<close>

type_synonym 'site faults = "'site \<Rightarrow> string option"

definition no_faults :: "'site faults" where
  "no_faults = (\<lambda>_. None)"

lemma no_faults_apply [simp]: "no_faults s = None"
  by (simp add: no_faults_def)

text \<open>The em dash of the Go source, as its UTF-8 bytes.\<close>

definition em_dash :: string where
  "em_dash = [CHR 0xE2, CHR 0x80, CHR 0x94]"

section \<open>Go's strings package\<close>

text \<open>\<open>strings.Split\<close> at a one-byte separator: splitting the empty string gives one empty part.\<close>

fun split_on :: "char \<Rightarrow> string \<Rightarrow> string list" where
  "split_on c [] = [[]]"
| "split_on c (x # xs) =
     (if x = c then [] # split_on c xs
      else case split_on c xs of [] \<Rightarrow> [[x]] | p # ps \<Rightarrow> (x # p) # ps)"

text \<open>\<open>strings.Join\<close>.\<close>

fun join_with :: "string \<Rightarrow> string list \<Rightarrow> string" where
  "join_with sep [] = []"
| "join_with sep [p] = p"
| "join_with sep (p # q # ps) = p @ sep @ join_with sep (q # ps)"

abbreviation split_dots :: "string \<Rightarrow> string list" where
  "split_dots \<equiv> split_on CHR ''.''"

abbreviation join_dots :: "string list \<Rightarrow> string" where
  "join_dots \<equiv> join_with ''.''"

text \<open>\<open>strings.ReplaceAll\<close> of one byte by another, and removal of a byte.\<close>

definition replace_char :: "char \<Rightarrow> char \<Rightarrow> string \<Rightarrow> string" where
  "replace_char a b s = map (\<lambda>c. if c = a then b else c) s"

definition remove_char :: "char \<Rightarrow> string \<Rightarrow> string" where
  "remove_char a s = filter (\<lambda>c. c \<noteq> a) s"

definition has_prefix :: "string \<Rightarrow> string \<Rightarrow> bool" where
  "has_prefix s p \<longleftrightarrow> take (length p) s = p"

definition trim_suffix :: "string \<Rightarrow> string \<Rightarrow> string" where
  "trim_suffix s p =
     (if length p \<le> length s \<and> drop (length s - length p) s = p
      then take (length s - length p) s else s)"

subsection \<open>Split and join\<close>

lemma split_on_nonempty [simp]: "split_on c s \<noteq> []"
  by (induction s) (auto split: list.splits)

lemma split_on_length_pos [simp]: "0 < length (split_on c s)"
  by simp

lemma split_on_no_sep: "c \<notin> set s \<Longrightarrow> split_on c s = [s]"
  by (induction s) auto

lemma split_on_parts_no_sep: "p \<in> set (split_on c s) \<Longrightarrow> c \<notin> set p"
  by (induction s arbitrary: p) (auto split: if_splits list.splits)

lemma split_on_append_sep: "c \<notin> set p \<Longrightarrow> split_on c (p @ c # s) = p # split_on c s"
  by (induction p) auto

lemma split_on_append: "split_on c (s @ c # t) = split_on c s @ split_on c t"
  by (induction s) (auto split: list.splits)

lemma split_join:
  "ps \<noteq> [] \<Longrightarrow> \<forall>p \<in> set ps. c \<notin> set p \<Longrightarrow> split_on c (join_with [c] ps) = ps"
proof (induction "[c]" ps rule: join_with.induct)
  case (2 p)
  then show ?case by (simp add: split_on_no_sep)
next
  case (3 p q ps)
  then show ?case by (simp add: split_on_append_sep)
qed simp

lemma join_with_Cons:
  "ps \<noteq> [] \<Longrightarrow> join_with sep (p # ps) = p @ sep @ join_with sep ps"
  by (cases ps) auto

lemma join_split [simp]: "join_with [c] (split_on c s) = s"
proof (induction s)
  case (Cons x s)
  obtain p ps where sp: "split_on c s = p # ps"
    by (cases "split_on c s") auto
  show ?case
  proof (cases "x = c")
    case True
    with Cons sp show ?thesis by (simp add: join_with_Cons)
  next
    case False
    with Cons sp show ?thesis by (cases ps) auto
  qed
qed simp

lemma split_on_inj: "split_on c s = split_on c t \<Longrightarrow> s = t"
  by (metis join_split)

lemma replace_char_length [simp]: "length (replace_char a b s) = length s"
  by (simp add: replace_char_def)

lemma replace_char_append [simp]:
  "replace_char a b (s @ t) = replace_char a b s @ replace_char a b t"
  by (simp add: replace_char_def)

lemma replace_char_id: "a \<notin> set s \<Longrightarrow> replace_char a b s = s"
  by (induction s) (auto simp: replace_char_def)

lemma has_prefix_append [simp]: "has_prefix (p @ s) p"
  by (simp add: has_prefix_def)

lemma has_prefix_iff: "has_prefix s p \<longleftrightarrow> (\<exists>t. s = p @ t)"
  by (metis append_eq_conv_conj append_take_drop_id has_prefix_append has_prefix_def)

section \<open>Durations\<close>

definition second :: duration where "second = 1000000000"
definition minute :: duration where "minute = 60 * second"
definition hour :: duration where "hour = 60 * minute"

lemmas duration_units = second_def minute_def hour_def

definition max_i64 :: int where "max_i64 = 2 ^ 63 - 1"
definition min_i64 :: int where "min_i64 = - (2 ^ 63)"

text \<open>Reduction of an unbounded result to a signed 64-bit value.\<close>

definition wrap64 :: "int \<Rightarrow> int" where
  "wrap64 x = (x + 2 ^ 63) mod 2 ^ 64 - 2 ^ 63"

text \<open>\<open>Time.Sub\<close> saturates at the ends of the \<open>Duration\<close> range.\<close>

definition time_sub :: "instant \<Rightarrow> instant \<Rightarrow> duration" where
  "time_sub t u = max min_i64 (min max_i64 (t - u))"

lemma wrap64_id: "min_i64 \<le> x \<Longrightarrow> x \<le> max_i64 \<Longrightarrow> wrap64 x = x"
  by (simp add: wrap64_def min_i64_def max_i64_def)

lemma time_sub_exact: "min_i64 \<le> t - u \<Longrightarrow> t - u \<le> max_i64 \<Longrightarrow> time_sub t u = t - u"
  by (simp add: time_sub_def)

lemma time_sub_pos_iff: "0 < time_sub t u \<longleftrightarrow> u < t"
  by (simp add: time_sub_def max_i64_def min_i64_def) linarith

text \<open>Integer division truncates toward zero.\<close>

definition go_div :: "int \<Rightarrow> int \<Rightarrow> int" where
  "go_div a b = (if (a < 0) = (b < 0) then \<bar>a\<bar> div \<bar>b\<bar> else - (\<bar>a\<bar> div \<bar>b\<bar>))"

lemma go_div_exact [simp]: "b \<noteq> 0 \<Longrightarrow> go_div (a * b) b = a"
  by (auto simp: go_div_def abs_mult mult_less_0_iff zero_le_mult_iff not_less)

lemma go_div_nonneg: "0 \<le> a \<Longrightarrow> 0 < b \<Longrightarrow> go_div a b = a div b"
  by (simp add: go_div_def)

section \<open>Searching lists\<close>

lemma find_None_all: "find P xs = None \<longleftrightarrow> (\<forall>x \<in> set xs. \<not> P x)"
  by (induction xs) auto

lemma find_SomeD: "find P xs = Some x \<Longrightarrow> x \<in> set xs \<and> P x"
  by (induction xs) (auto split: if_splits)

lemma find_append: "find P (xs @ ys) = (case find P xs of Some x \<Rightarrow> Some x | None \<Rightarrow> find P ys)"
  by (induction xs) auto

lemma find_distinct_key: "distinct (map f xs) \<Longrightarrow> x \<in> set xs \<Longrightarrow> find (\<lambda>y. f y = f x) xs = Some x"
  by (induction xs) (auto simp: image_iff)

lemma map_update_absent: "(\<And>x. x \<in> set xs \<Longrightarrow> \<not> P x) \<Longrightarrow> map (\<lambda>x. if P x then f x else x) xs = xs"
  by (rule map_idI) auto

end
