(* ===== verification/Wildcards.thy ===== *)
theory Wildcards
  imports Prelude
begin

text \<open>
  Token-wise wildcard matching, the interface both sides of the access control share. NATS
  subjects and ACL selectors are sequences of tokens in which one wildcard stands for any
  single token and another, in last position, for one or more remaining tokens. The NATS
  server is not part of the repository: its matcher is a parameter of everything that speaks
  about permissions, and the locale \<open>token_matcher\<close> states the documented behaviour those
  results rely on. The ACL's own matcher (\<open>internal/acl/selector.go\<close>) is shown in theory
  \<open>Acl\<close> to satisfy the same laws with its own wildcards.
\<close>

locale token_matcher =
  fixes any_tok :: string and rest_tok :: string
    and m :: "string list \<Rightarrow> string list \<Rightarrow> bool"
  assumes wildcards_distinct: "any_tok \<noteq> rest_tok"
    and nil_nil: "m [] []"
    and nil_cons: "\<not> m [] (t # ts)"
    and cons_nil: "\<not> m (p # ps) []"
    and rest_matches: "m [rest_tok] (t # ts)"
    and step: "p \<noteq> rest_tok \<Longrightarrow> m (p # ps) (t # ts) \<longleftrightarrow> (p = any_tok \<or> p = t) \<and> m ps ts"
begin

lemmas matcher_simps [simp] = nil_nil nil_cons cons_nil rest_matches

lemma nil_iff [simp]: "m [] ts \<longleftrightarrow> ts = []"
  by (cases ts) auto

lemma rest_iff [simp]: "m [rest_tok] ts \<longleftrightarrow> ts \<noteq> []"
  by (cases ts) simp_all

lemma step_literal:
  "p \<noteq> any_tok \<Longrightarrow> p \<noteq> rest_tok \<Longrightarrow> m (p # ps) (t # ts) \<longleftrightarrow> p = t \<and> m ps ts"
  by (simp add: step)

lemma literal_prefix_iff:
  "any_tok \<notin> set ps \<Longrightarrow> rest_tok \<notin> set ps \<Longrightarrow>
   m (ps @ qs) ts \<longleftrightarrow> (\<exists>us. ts = ps @ us \<and> m qs us)"
proof (induction ps arbitrary: ts)
  case (Cons p ps)
  then have p: "p \<noteq> any_tok" "p \<noteq> rest_tok" and ps: "any_tok \<notin> set ps" "rest_tok \<notin> set ps"
    by auto
  show ?case
  proof (cases ts)
    case Nil
    then show ?thesis by simp
  next
    fix t us
    assume ts: "ts = t # us"
    then have "m ((p # ps) @ qs) ts \<longleftrightarrow> p = t \<and> m (ps @ qs) us"
      using p by (simp add: step_literal)
    also have "\<dots> \<longleftrightarrow> p = t \<and> (\<exists>vs. us = ps @ vs \<and> m qs vs)"
      by (simp only: Cons.IH [OF ps])
    finally show ?thesis using ts by (simp only: append_Cons list.inject) blast
  qed
qed simp

lemma literal_iff:
  "any_tok \<notin> set ps \<Longrightarrow> rest_tok \<notin> set ps \<Longrightarrow> m ps ts \<longleftrightarrow> ts = ps"
  using literal_prefix_iff [of ps "[]" ts] by simp

lemma prefix_rest_iff:
  "any_tok \<notin> set ps \<Longrightarrow> rest_tok \<notin> set ps \<Longrightarrow>
   m (ps @ [rest_tok]) ts \<longleftrightarrow> (\<exists>us. us \<noteq> [] \<and> ts = ps @ us)"
  by (auto simp: literal_prefix_iff)

text \<open>Two matchers agree on every pattern after exchanging their wildcards.\<close>

lemma matchers_agree:
  assumes "token_matcher any' rest' m'"
    and "rest_tok \<notin> set (butlast ps)"
    and "any' \<notin> set ps - {any_tok}" and "rest' \<notin> set ps - {rest_tok}"
  shows "m ps ts \<longleftrightarrow>
    m' (map (\<lambda>p. if p = any_tok then any' else if p = rest_tok then rest' else p) ps) ts"
  using assms
proof (induction ps arbitrary: ts)
  case Nil
  then show ?case
    by (cases ts) (auto simp: token_matcher.nil_nil token_matcher.nil_cons)
next
  case (Cons p ps)
  note M' = Cons.prems(1)
  show ?case
  proof (cases ts)
    case Nil
    then show ?thesis by (simp add: token_matcher.cons_nil [OF M'])
  next
    case (Cons t us)
    show ?thesis
    proof (cases "p = rest_tok")
      case True
      with Cons.prems(2) have "ps = []" by (cases ps) auto
      with True Cons show ?thesis
        using wildcards_distinct by (auto simp: token_matcher.rest_matches [OF M'])
    next
      case False
      have "rest_tok \<notin> set (butlast ps)"
        using Cons.prems(2) by (auto split: if_splits)
      with Cons.prems have "m ps us \<longleftrightarrow>
          m' (map (\<lambda>p. if p = any_tok then any' else if p = rest_tok then rest' else p) ps) us"
        by (intro Cons.IH [OF M']) auto
      then show ?thesis
        using False Cons Cons.prems token_matcher.wildcards_distinct [OF M']
        by (auto simp: step token_matcher.step [OF M'])
    qed
  qed
qed

end

text \<open>
  The documented NATS rule written out, used to instantiate the parameter in witnesses.
\<close>

fun nats_match :: "string list \<Rightarrow> string list \<Rightarrow> bool" where
  "nats_match [] ts = (ts = [])"
| "nats_match (p # ps) [] = False"
| "nats_match (p # ps) (t # ts) =
     (if p = ''>'' \<and> ps = [] then True
      else (p = ''*'' \<or> p = t) \<and> nats_match ps ts)"

interpretation nats: token_matcher "''*''" "''>''" nats_match
  by unfold_locales auto

abbreviation nats_matcher :: "(string list \<Rightarrow> string list \<Rightarrow> bool) \<Rightarrow> bool" where
  "nats_matcher \<equiv> token_matcher ''*'' ''>''"

lemma nats_match_is_matcher: "nats_matcher nats_match"
  by (rule nats.token_matcher_axioms)

end
