(* ===== verification/Acl.thy ===== *)
theory Acl
  imports Wildcards
begin

text \<open>
  The access-control evaluator of \<open>internal/acl\<close>: capabilities (\<open>Perm\<close>), roles, selectors
  (\<open>selector.go\<close>), grants, reasons and \<open>Evaluate\<close> (\<open>acl.go\<close>), and the provenance labels of
  \<open>render.go\<close>. \<open>Why\<close>, a Go map whose nil value reads as empty, is a partial map; the map that
  \<open>defaultsFor\<close> returns is an association list with distinct keys.

  The lemmas reduce \<open>Evaluate\<close> to one run of \<open>allow\<close> over the list of everything that confers
  access, followed by one run of \<open>deny\<close>; the properties state what a principal may do, that
  grants only widen, and that the reason reported for a capability is always one of the
  sources that confers it, and the most specific one.
\<close>

unbundle bit_operations_syntax

section \<open>Capabilities\<close>

type_synonym perm = "8 word"

definition Read :: perm where "Read = 1"
definition Write :: perm where "Write = 2"
definition Admin :: perm where "Admin = 4"

definition all_perms :: "perm list" where "all_perms = [Read, Write, Admin]"

definition perm_String :: "perm \<Rightarrow> string" where
  "perm_String p =
     (if p = 0 then ''none''
      else join_with ''+''
             (map snd (filter (\<lambda>c. p AND fst c \<noteq> 0)
                [(Read, ''read''), (Write, ''write''), (Admin, ''admin'')])))"

definition EveryoneID :: uuid where
  "EveryoneID = ''00000000-0000-0000-0000-000000000002''"

definition Effective :: "perm \<Rightarrow> perm" where
  "Effective p = (if p AND Admin \<noteq> 0 then Read OR Write OR Admin else p)"

definition expand :: "perm \<Rightarrow> perm list" where
  "expand p =
     (if p AND Admin \<noteq> 0 then [Read, Write, Admin]
      else (if p AND Read \<noteq> 0 then [Read] else []) @ (if p AND Write \<noteq> 0 then [Write] else []))"

section \<open>Roles, principals, subjects, grants\<close>

text \<open>\<open>OrgRole\<close> is a string type; unknown values are possible and rank 0.\<close>

type_synonym orgrole = string

definition OrgNone :: orgrole where "OrgNone = ''''"
definition OrgMember :: orgrole where "OrgMember = ''member''"
definition OrgAdmin :: orgrole where "OrgAdmin = ''admin''"
definition OrgOwner :: orgrole where "OrgOwner = ''owner''"

definition role_rank :: "orgrole \<Rightarrow> nat" where
  "role_rank r =
     (if r = OrgOwner then 3 else if r = OrgAdmin then 2 else if r = OrgMember then 1 else 0)"

definition AtLeast :: "orgrole \<Rightarrow> orgrole \<Rightarrow> bool" where
  "AtLeast r mn = (if role_rank r = 0 then False else role_rank r \<ge> role_rank mn)"

definition CanAdministerOrg :: "orgrole \<Rightarrow> bool" where
  "CanAdministerOrg r \<longleftrightarrow> r = OrgOwner \<or> r = OrgAdmin"

record principal =
  pr_ID :: uuid
  pr_Name :: string
  pr_OrgRole :: orgrole

record subject =
  sj_Path :: string
  sj_Collar :: string
  sj_Name :: string
  sj_Owner :: uuid

type_synonym selector = string

record grant =
  gr_PrincipalID :: uuid
  gr_Principal :: string
  gr_Selector :: selector
  gr_Perm :: perm
  gr_GrantedBy :: string
  gr_CreatedAt :: instant

section \<open>Selectors\<close>

definition tokenAny :: string where "tokenAny = ''*''"
definition tokenRest :: string where "tokenRest = ''**''"

fun matchParts :: "string list \<Rightarrow> string list \<Rightarrow> bool" where
  "matchParts [] path = (path = [])"
| "matchParts (s # sel) path =
     (if s = tokenRest then path \<noteq> []
      else case path of
        [] \<Rightarrow> False
      | p # ps \<Rightarrow> (if s \<noteq> tokenAny \<and> s \<noteq> p then False else matchParts sel ps))"

definition hasEmpty :: "string list \<Rightarrow> bool" where
  "hasEmpty parts = list_ex (\<lambda>p. p = '''') parts"

text \<open>The scan for a \<^verbatim>\<open>**\<close> anywhere but in last position.\<close>

fun rest_misplaced :: "string list \<Rightarrow> bool" where
  "rest_misplaced [] = False"
| "rest_misplaced (s # ss) = (if s = tokenRest \<and> ss \<noteq> [] then True else rest_misplaced ss)"

definition Match :: "selector \<Rightarrow> string \<Rightarrow> bool" where
  "Match sel path =
     (if sel = '''' \<or> path = '''' then False
      else let selParts = split_dots sel; pathParts = split_dots path
           in if hasEmpty selParts \<or> hasEmpty pathParts then False
              else if rest_misplaced selParts then False
              else matchParts selParts pathParts)"

fun valid_parts :: "string list \<Rightarrow> bool" where
  "valid_parts [] = True"
| "valid_parts (p # ps) =
     (if p = '''' then False else if p = tokenRest \<and> ps \<noteq> [] then False else valid_parts ps)"

definition ValidSelector :: "selector \<Rightarrow> bool" where
  "ValidSelector sel = (if sel = '''' then False else valid_parts (split_dots sel))"

section \<open>Reasons and decisions\<close>

datatype reasonkind =
  ReasonNone | ReasonDefault | ReasonGrant | ReasonHandleOwner | ReasonOrgRole | ReasonKeyScope

definition kind_rank :: "reasonkind \<Rightarrow> nat" where
  "kind_rank k =
     (case k of ReasonOrgRole \<Rightarrow> 4 | ReasonGrant \<Rightarrow> 3 | ReasonHandleOwner \<Rightarrow> 2
      | ReasonDefault \<Rightarrow> 1 | _ \<Rightarrow> 0)"

record reason =
  rs_Kind :: reasonkind
  rs_Grant :: "grant option"
  rs_Detail :: string

definition zero_reason :: reason where
  "zero_reason = \<lparr>rs_Kind = ReasonNone, rs_Grant = None, rs_Detail = ''''\<rparr>"

definition reason_Label :: "reason \<Rightarrow> string" where
  "reason_Label r =
     (case rs_Kind r of
        ReasonDefault \<Rightarrow> ''default''
      | ReasonGrant \<Rightarrow> ''grant''
      | ReasonHandleOwner \<Rightarrow> ''handle owner''
      | ReasonOrgRole \<Rightarrow> ''org role''
      | ReasonKeyScope \<Rightarrow> ''key scope''
      | ReasonNone \<Rightarrow> '''')"

record decision =
  dc_Perm :: perm
  dc_Why :: "perm \<rightharpoonup> reason"

definition zero_decision :: decision where
  "zero_decision = \<lparr>dc_Perm = 0, dc_Why = Map.empty\<rparr>"

definition Has :: "decision \<Rightarrow> perm \<Rightarrow> bool" where
  "Has d p \<longleftrightarrow> dc_Perm d AND p \<noteq> 0"

definition Reason :: "decision \<Rightarrow> perm \<Rightarrow> reason" where
  "Reason d p = (case dc_Why d p of None \<Rightarrow> zero_reason | Some r \<Rightarrow> r)"

definition allow :: "decision \<Rightarrow> perm \<Rightarrow> reason \<Rightarrow> decision" where
  "allow d p r =
     (let d1 = d\<lparr>dc_Perm := dc_Perm d OR p\<rparr>
      in case dc_Why d p of
           Some existing \<Rightarrow>
             (if kind_rank (rs_Kind existing) \<ge> kind_rank (rs_Kind r) then d1
              else d1\<lparr>dc_Why := (dc_Why d)(p \<mapsto> r)\<rparr>)
         | None \<Rightarrow> d1\<lparr>dc_Why := (dc_Why d)(p \<mapsto> r)\<rparr>)"

definition deny :: "decision \<Rightarrow> perm \<Rightarrow> string \<Rightarrow> decision" where
  "deny d p detail =
     (if dc_Perm d AND p \<noteq> 0 then d
      else d\<lparr>dc_Why := (dc_Why d)(p \<mapsto>
             \<lparr>rs_Kind = ReasonNone, rs_Grant = None, rs_Detail = detail\<rparr>)\<rparr>)"

definition CanSeeRoster :: "decision \<Rightarrow> bool" where
  "CanSeeRoster d \<longleftrightarrow> dc_Perm d \<noteq> 0"

section \<open>Defaults and denial texts\<close>

definition defaultsFor :: "subject \<Rightarrow> (perm \<times> string) list" where
  "defaultsFor s =
     (if sj_Collar s = '''' then
        [(Read, ''default '' @ em_dash @ '' org-shared space''),
         (Write, ''default '' @ em_dash @ '' org-shared space'')]
      else if sj_Name s = ''inbox'' then [(Write, ''default '' @ em_dash @ '' inbox is write-open'')]
      else if sj_Name s = ''heartbeat'' then
        [(Read, ''default '' @ em_dash @ '' presence is read-open'')]
      else [])"

definition denialDetail :: "subject \<Rightarrow> perm \<Rightarrow> string" where
  "denialDetail s p =
     (if sj_Collar s = '''' then ''no grant''
      else if sj_Name s = ''inbox'' \<and> p = Read then
        ''no grant; only the handle owner may read an inbox''
      else if sj_Name s = ''heartbeat'' \<and> p = Write then
        ''no grant; only the handle owner may publish its heartbeat''
      else if p = Admin then ''not the handle owner, not an org admin''
      else ''no grant; pipes under a handle are owner-only by default'')"

section \<open>Evaluate\<close>

definition allow_perms :: "reason \<Rightarrow> perm list \<Rightarrow> decision \<Rightarrow> decision" where
  "allow_perms r ps d = foldl (\<lambda>d p. allow d p r) d ps"

definition grant_reason :: "grant \<Rightarrow> reason" where
  "grant_reason g =
     \<lparr>rs_Kind = ReasonGrant, rs_Grant = Some g, rs_Detail = ''grant by '' @ gr_GrantedBy g\<rparr>"

text \<open>One iteration of the loop over the grants: the two \<open>continue\<close> guards, then the allows.\<close>

definition apply_grant :: "principal \<Rightarrow> subject \<Rightarrow> decision \<Rightarrow> grant \<Rightarrow> decision" where
  "apply_grant p s d g =
     (if gr_PrincipalID g \<noteq> pr_ID p \<and> gr_PrincipalID g \<noteq> EveryoneID then d
      else if \<not> Match (gr_Selector g) (sj_Path s) then d
      else allow_perms (grant_reason g) (expand (gr_Perm g)) d)"

definition is_handle_owner :: "principal \<Rightarrow> subject \<Rightarrow> bool" where
  "is_handle_owner p s \<longleftrightarrow>
     sj_Collar s \<noteq> '''' \<and> sj_Owner s \<noteq> uuid_nil \<and> sj_Owner s = pr_ID p"

definition Evaluate :: "principal \<Rightarrow> subject \<Rightarrow> grant list \<Rightarrow> decision" where
  "Evaluate p s grants =
     (if pr_OrgRole p = OrgNone then
        foldl (\<lambda>d q. deny d q ''not a member of this org'') zero_decision all_perms
      else if CanAdministerOrg (pr_OrgRole p) then
        allow_perms \<lparr>rs_Kind = ReasonOrgRole, rs_Grant = None, rs_Detail = ''org '' @ pr_OrgRole p\<rparr>
          all_perms zero_decision
      else
        let d1 = (if is_handle_owner p s then
                    allow_perms \<lparr>rs_Kind = ReasonHandleOwner, rs_Grant = None,
                                 rs_Detail = ''handle owner''\<rparr> all_perms zero_decision
                  else foldl (\<lambda>d (q, detail). allow d q
                         \<lparr>rs_Kind = ReasonDefault, rs_Grant = None, rs_Detail = detail\<rparr>)
                       zero_decision (defaultsFor s));
            d2 = foldl (apply_grant p s) d1 grants
        in foldl (\<lambda>d q. deny d q (denialDetail s q)) d2 all_perms)"

section \<open>Provenance labels\<close>

definition ViaLabel :: "decision \<Rightarrow> string" where
  "ViaLabel d =
     (case find (Has d) [Admin, Write, Read] of
        Some p \<Rightarrow> reason_Label (Reason d p)
      | None \<Rightarrow> '''')"

text \<open>
  The table cell of \<open>render.go\<close>; the date printer \<open>Time.Format("2006-01-02")\<close> is the argument
  \<open>fmt_date\<close>, and the four bytes before it are the source's separator (a middle dot).
\<close>

definition via :: "(instant \<Rightarrow> string) \<Rightarrow> decision \<Rightarrow> string" where
  "via fmt_date d =
     (case find (Has d) [Admin, Write, Read] of
        None \<Rightarrow> ''''
      | Some p \<Rightarrow>
          let r = Reason d p
          in case (rs_Kind r, rs_Grant r) of
               (ReasonGrant, Some g) \<Rightarrow>
                 ''grant by '' @ gr_GrantedBy g
                 @ (if gr_CreatedAt g \<noteq> 0
                    then [CHR '' '', CHR 0xC2, CHR 0xB7, CHR '' ''] @ fmt_date (gr_CreatedAt g) else '''')
             | (ReasonDefault, _) \<Rightarrow> rs_Detail r
             | _ \<Rightarrow> reason_Label r)"

section \<open>Capability bits\<close>

lemmas perm_defs = Read_def Write_def Admin_def

lemma or_and_nonzero:
  "(a OR b) AND (q :: perm) \<noteq> 0 \<longleftrightarrow> a AND q \<noteq> 0 \<or> b AND q \<noteq> 0"
  by (simp add: bit.conj_disj_distrib2 or_eq_0_iff)

lemma single_and_iff:
  "p \<in> set all_perms \<Longrightarrow> q \<in> set all_perms \<Longrightarrow> p AND q \<noteq> 0 \<longleftrightarrow> p = q"
  by (auto simp: all_perms_def perm_defs)

lemma perm_distinct [simp]:
  "Read \<noteq> Write" "Read \<noteq> Admin" "Write \<noteq> Read" "Write \<noteq> Admin" "Admin \<noteq> Read" "Admin \<noteq> Write"
  by (simp_all add: perm_defs)

lemma single_perms [simp]: "Read \<in> set all_perms" "Write \<in> set all_perms" "Admin \<in> set all_perms"
  by (simp_all add: all_perms_def)

lemma all_perms_distinct [simp]: "distinct all_perms"
  by (simp add: all_perms_def perm_defs)

lemma expand_single: "set (expand p) \<subseteq> set all_perms"
  by (auto simp: expand_def all_perms_def)

lemma expand_Effective:
  "q \<in> set all_perms \<Longrightarrow> q \<in> set (expand p) \<longleftrightarrow> Effective p AND q \<noteq> 0"
  by (auto simp: expand_def Effective_def all_perms_def perm_defs)

section \<open>Runs of allow and deny\<close>

definition allow_all :: "(perm \<times> reason) list \<Rightarrow> decision \<Rightarrow> decision" where
  "allow_all prs d = foldl (\<lambda>d (p, r). allow d p r) d prs"

lemma allow_all_Nil [simp]: "allow_all [] d = d"
  by (simp add: allow_all_def)

lemma allow_all_Cons [simp]: "allow_all ((p, r) # prs) d = allow_all prs (allow d p r)"
  by (simp add: allow_all_def)

lemma allow_all_append: "allow_all (xs @ ys) d = allow_all ys (allow_all xs d)"
  by (simp add: allow_all_def)

lemma allow_perms_allow_all: "allow_perms r ps d = allow_all (map (\<lambda>p. (p, r)) ps) d"
  by (induction ps arbitrary: d) (simp_all add: allow_perms_def)

lemma allow_Perm [simp]: "dc_Perm (allow d p r) = dc_Perm d OR p"
  by (simp add: allow_def Let_def split: option.splits)

lemma allow_Why:
  "dc_Why (allow d p r) q =
     (if q = p then
        (case dc_Why d p of
           None \<Rightarrow> Some r
         | Some e \<Rightarrow> Some (if kind_rank (rs_Kind e) \<ge> kind_rank (rs_Kind r) then e else r))
      else dc_Why d q)"
  by (simp add: allow_def Let_def split: option.splits)

lemma allow_all_Has:
  "Has (allow_all prs d) q \<longleftrightarrow> Has d q \<or> (\<exists>(p, r) \<in> set prs. p AND q \<noteq> 0)"
proof (induction prs arbitrary: d)
  case (Cons pr prs)
  obtain p r where pr: "pr = (p, r)" by (cases pr)
  have "Has (allow d p r) q \<longleftrightarrow> Has d q \<or> p AND q \<noteq> 0"
    by (simp only: Has_def allow_Perm or_and_nonzero)
  then show ?case by (auto simp: pr Cons.IH)
qed simp

text \<open>
  The surviving explanation: it is one of those offered (or was there before), every offered
  capability has one, and no offered explanation ranks higher.
\<close>

lemma allow_all_Why_cases:
  "dc_Why (allow_all prs d) q = Some r \<Longrightarrow> (q, r) \<in> set prs \<or> dc_Why d q = Some r"
proof (induction prs arbitrary: d)
  case (Cons pr prs)
  obtain p r' where pr: "pr = (p, r')" by (cases pr)
  from Cons.prems have "dc_Why (allow_all prs (allow d p r')) q = Some r" by (simp add: pr)
  then have "(q, r) \<in> set prs \<or> dc_Why (allow d p r') q = Some r" by (rule Cons.IH)
  then show ?case
    by (auto simp: pr allow_Why split: if_splits option.splits)
qed simp

lemma allow_all_Why_kept:
  "dc_Why d q = Some e \<Longrightarrow>
   \<exists>r. dc_Why (allow_all prs d) q = Some r \<and> kind_rank (rs_Kind e) \<le> kind_rank (rs_Kind r)"
proof (induction prs arbitrary: d e)
  case (Cons pr prs)
  obtain p r' where pr: "pr = (p, r')" by (cases pr)
  have "\<exists>e'. dc_Why (allow d p r') q = Some e' \<and> kind_rank (rs_Kind e) \<le> kind_rank (rs_Kind e')"
    using Cons.prems by (cases "q = p") (auto simp: allow_Why)
  then obtain e' where "dc_Why (allow d p r') q = Some e'"
    and le: "kind_rank (rs_Kind e) \<le> kind_rank (rs_Kind e')" by blast
  with Cons.IH [of "allow d p r'" e'] le show ?case by (force simp: pr)
qed simp

lemma allow_all_Why_max:
  "(q, r') \<in> set prs \<Longrightarrow>
   \<exists>r. dc_Why (allow_all prs d) q = Some r \<and> kind_rank (rs_Kind r') \<le> kind_rank (rs_Kind r)"
proof (induction prs arbitrary: d)
  case (Cons pr prs)
  show ?case
  proof (cases "pr = (q, r')")
    case True
    have "\<exists>e. dc_Why (allow d q r') q = Some e \<and> kind_rank (rs_Kind r') \<le> kind_rank (rs_Kind e)"
      by (auto simp: allow_Why split: option.splits)
    then obtain e where "dc_Why (allow d q r') q = Some e"
      and "kind_rank (rs_Kind r') \<le> kind_rank (rs_Kind e)" by blast
    with allow_all_Why_kept [of "allow d q r'" q e prs] True show ?thesis by force
  next
    case False
    with Cons show ?thesis by (cases pr) auto
  qed
qed simp

definition deny_all :: "(perm \<Rightarrow> string) \<Rightarrow> decision \<Rightarrow> decision" where
  "deny_all f d = foldl (\<lambda>d q. deny d q (f q)) d all_perms"

lemma deny_Perm [simp]: "dc_Perm (deny d p x) = dc_Perm d"
  by (simp add: deny_def)

lemma deny_all_Perm [simp]: "dc_Perm (deny_all f d) = dc_Perm d"
  by (simp add: deny_all_def all_perms_def)

lemma deny_all_Has [simp]: "Has (deny_all f d) q = Has d q"
  by (simp add: Has_def)

lemma deny_all_Why:
  assumes "q \<in> set all_perms"
  shows "dc_Why (deny_all f d) q =
    (if Has d q then dc_Why d q
     else Some \<lparr>rs_Kind = ReasonNone, rs_Grant = None, rs_Detail = f q\<rparr>)"
  using assms
  by (auto simp: deny_all_def all_perms_def deny_def Has_def perm_defs)

section \<open>Evaluate as one run of allow and one of deny\<close>

definition grant_applies :: "principal \<Rightarrow> subject \<Rightarrow> grant \<Rightarrow> bool" where
  "grant_applies p s g \<longleftrightarrow>
     (gr_PrincipalID g = pr_ID p \<or> gr_PrincipalID g = EveryoneID) \<and> Match (gr_Selector g) (sj_Path s)"

definition base_pairs :: "principal \<Rightarrow> subject \<Rightarrow> (perm \<times> reason) list" where
  "base_pairs p s =
     (if is_handle_owner p s then
        map (\<lambda>q. (q, \<lparr>rs_Kind = ReasonHandleOwner, rs_Grant = None, rs_Detail = ''handle owner''\<rparr>))
          all_perms
      else map (\<lambda>(q, detail). (q, \<lparr>rs_Kind = ReasonDefault, rs_Grant = None, rs_Detail = detail\<rparr>))
             (defaultsFor s))"

definition grant_pairs :: "principal \<Rightarrow> subject \<Rightarrow> grant \<Rightarrow> (perm \<times> reason) list" where
  "grant_pairs p s g =
     (if grant_applies p s g then map (\<lambda>q. (q, grant_reason g)) (expand (gr_Perm g)) else [])"

definition conferred :: "principal \<Rightarrow> subject \<Rightarrow> grant list \<Rightarrow> (perm \<times> reason) list" where
  "conferred p s grants =
     (if pr_OrgRole p = OrgNone then []
      else if CanAdministerOrg (pr_OrgRole p) then
        map (\<lambda>q. (q, \<lparr>rs_Kind = ReasonOrgRole, rs_Grant = None, rs_Detail = ''org '' @ pr_OrgRole p\<rparr>))
          all_perms
      else base_pairs p s @ concat (map (grant_pairs p s) grants))"

definition denial_text :: "principal \<Rightarrow> subject \<Rightarrow> perm \<Rightarrow> string" where
  "denial_text p s q =
     (if pr_OrgRole p = OrgNone then ''not a member of this org'' else denialDetail s q)"

lemma apply_grant_allow_all: "apply_grant p s d g = allow_all (grant_pairs p s g) d"
  by (auto simp: apply_grant_def grant_pairs_def grant_applies_def allow_perms_allow_all)

lemma apply_grants_allow_all:
  "foldl (apply_grant p s) d grants = allow_all (concat (map (grant_pairs p s) grants)) d"
  by (induction grants arbitrary: d) (simp_all add: apply_grant_allow_all allow_all_append)

lemma base_allow_all:
  "(if is_handle_owner p s then
      allow_perms \<lparr>rs_Kind = ReasonHandleOwner, rs_Grant = None, rs_Detail = ''handle owner''\<rparr>
        all_perms zero_decision
    else foldl (\<lambda>d (q, detail). allow d q
           \<lparr>rs_Kind = ReasonDefault, rs_Grant = None, rs_Detail = detail\<rparr>)
         zero_decision (defaultsFor s))
   = allow_all (base_pairs p s) zero_decision"
proof -
  have "foldl (\<lambda>d (q, detail). allow d q
           \<lparr>rs_Kind = ReasonDefault, rs_Grant = None, rs_Detail = detail\<rparr>) d xs
     = allow_all (map (\<lambda>(q, detail). (q, \<lparr>rs_Kind = ReasonDefault, rs_Grant = None, rs_Detail = detail\<rparr>)) xs) d"
    for xs d
    by (induction xs arbitrary: d) auto
  then show ?thesis by (simp add: base_pairs_def allow_perms_allow_all)
qed

lemma conferred_single: "(q, r) \<in> set (conferred p s grants) \<Longrightarrow> q \<in> set all_perms"
  using expand_single
  by (fastforce simp: conferred_def base_pairs_def grant_pairs_def defaultsFor_def all_perms_def
      split: if_splits)

lemma allow_all_perms_full:
  "q \<in> set all_perms \<Longrightarrow> Has (allow_all (map (\<lambda>q. (q, r)) all_perms) d) q"
  by (auto simp: allow_all_Has single_and_iff)

lemma admin_is_member: "CanAdministerOrg r \<Longrightarrow> r \<noteq> OrgNone"
  by (auto simp: CanAdministerOrg_def OrgNone_def OrgOwner_def OrgAdmin_def)

lemma Evaluate_shape:
  assumes "\<not> CanAdministerOrg (pr_OrgRole p)"
  shows "Evaluate p s grants
         = deny_all (denial_text p s) (allow_all (conferred p s grants) zero_decision)"
proof (cases "pr_OrgRole p = OrgNone")
  case True
  then show ?thesis
    by (simp add: Evaluate_def conferred_def deny_all_def denial_text_def)
next
  case False
  have "denial_text p s = denialDetail s"
    using False by (simp add: denial_text_def fun_eq_iff)
  with False assms show ?thesis
    by (simp add: Evaluate_def Let_def base_allow_all apply_grants_allow_all conferred_def
        allow_all_append deny_all_def)
qed

lemma Evaluate_admin:
  assumes "CanAdministerOrg (pr_OrgRole p)"
  shows "Evaluate p s grants = allow_all (conferred p s grants) zero_decision"
proof -
  from assms show ?thesis
    using admin_is_member by (simp add: Evaluate_def conferred_def allow_perms_allow_all)
qed

lemma Has_zero [simp]: "\<not> Has zero_decision q"
  by (simp add: Has_def zero_decision_def)

lemma Evaluate_Has:
  assumes "q \<in> set all_perms"
  shows "Has (Evaluate p s grants) q \<longleftrightarrow> (\<exists>r. (q, r) \<in> set (conferred p s grants))"
proof -
  have "(\<exists>(q', r) \<in> set (conferred p s grants). q' AND q \<noteq> 0)
        \<longleftrightarrow> (\<exists>r. (q, r) \<in> set (conferred p s grants))"
    using assms conferred_single single_and_iff by fastforce
  then have "Has (allow_all (conferred p s grants) zero_decision) q
      \<longleftrightarrow> (\<exists>r. (q, r) \<in> set (conferred p s grants))"
    by (simp add: allow_all_Has)
  then show ?thesis
    by (cases "CanAdministerOrg (pr_OrgRole p)") (simp_all add: Evaluate_admin Evaluate_shape)
qed

lemma Evaluate_Why_granted:
  assumes "q \<in> set all_perms" and "Has (Evaluate p s grants) q"
  shows "\<exists>r. dc_Why (Evaluate p s grants) q = Some r \<and> (q, r) \<in> set (conferred p s grants)
             \<and> (\<forall>r'. (q, r') \<in> set (conferred p s grants)
                      \<longrightarrow> kind_rank (rs_Kind r') \<le> kind_rank (rs_Kind r))"
proof -
  let ?d = "allow_all (conferred p s grants) zero_decision"
  from assms obtain r0 where "(q, r0) \<in> set (conferred p s grants)"
    by (auto simp: Evaluate_Has)
  then obtain r where r: "dc_Why ?d q = Some r"
    using allow_all_Why_max by blast
  have "dc_Why (Evaluate p s grants) q = dc_Why ?d q"
    using assms
    by (cases "CanAdministerOrg (pr_OrgRole p)")
      (simp_all add: Evaluate_admin Evaluate_shape deny_all_Why)
  moreover have "(q, r) \<in> set (conferred p s grants)"
    using allow_all_Why_cases [OF r] by (simp add: zero_decision_def)
  moreover have "kind_rank (rs_Kind r') \<le> kind_rank (rs_Kind r)"
    if "(q, r') \<in> set (conferred p s grants)" for r'
    using allow_all_Why_max [OF that, of zero_decision] r by auto
  ultimately show ?thesis using r by auto
qed

section \<open>Selectors match token by token\<close>

interpretation sel: token_matcher tokenAny tokenRest matchParts
  by unfold_locales (auto simp: tokenAny_def tokenRest_def)

lemma rest_misplaced_iff: "rest_misplaced ss \<longleftrightarrow> tokenRest \<in> set (butlast ss)"
  by (induction ss) auto

lemma valid_parts_iff: "valid_parts ps \<longleftrightarrow> \<not> hasEmpty ps \<and> \<not> rest_misplaced ps"
  by (induction ps) (auto simp: hasEmpty_def)

lemma ValidSelector_iff: "ValidSelector sel \<longleftrightarrow> valid_parts (split_dots sel)"
  by (auto simp: ValidSelector_def)

lemma Match_iff:
  "Match sel path \<longleftrightarrow>
   ValidSelector sel \<and> \<not> hasEmpty (split_dots path) \<and> matchParts (split_dots sel) (split_dots path)"
  by (auto simp: Match_def Let_def ValidSelector_iff valid_parts_iff hasEmpty_def)

lemma matchParts_self: "\<not> rest_misplaced ps \<Longrightarrow> matchParts ps ps"
  by (induction ps) (auto split: if_splits)

text \<open>The NATS spelling of a selector: \<^verbatim>\<open>**\<close> becomes the terminal wildcard.\<close>

definition nats_tokens :: "selector \<Rightarrow> string list" where
  "nats_tokens sel =
     map (\<lambda>p. if p = tokenAny then ''*'' else if p = tokenRest then ''>'' else p) (split_dots sel)"

section \<open>Properties\<close>

lemma Evaluate_Has_rule:
  assumes "q \<in> set all_perms"
  shows "Has (Evaluate p s grants) q \<longleftrightarrow>
    pr_OrgRole p \<noteq> OrgNone \<and>
    (CanAdministerOrg (pr_OrgRole p)
     \<or> is_handle_owner p s
     \<or> (sj_Collar s = '''' \<and> q \<noteq> Admin)
     \<or> (sj_Collar s \<noteq> '''' \<and> sj_Name s = ''inbox'' \<and> q = Write)
     \<or> (sj_Collar s \<noteq> '''' \<and> sj_Name s = ''heartbeat'' \<and> q = Read)
     \<or> (\<exists>g \<in> set grants. grant_applies p s g \<and> Effective (gr_Perm g) AND q \<noteq> 0))"
proof -
  have owner: "(\<exists>r. (q, r) \<in> set (base_pairs p s)) \<longleftrightarrow>
      is_handle_owner p s
      \<or> (sj_Collar s = '''' \<and> q \<noteq> Admin)
      \<or> (sj_Collar s \<noteq> '''' \<and> sj_Name s = ''inbox'' \<and> q = Write)
      \<or> (sj_Collar s \<noteq> '''' \<and> sj_Name s = ''heartbeat'' \<and> q = Read)"
    using assms by (auto simp: base_pairs_def defaultsFor_def all_perms_def perm_defs is_handle_owner_def)
  have grants: "(\<exists>r. (q, r) \<in> set (concat (map (grant_pairs p s) grants))) \<longleftrightarrow>
      (\<exists>g \<in> set grants. grant_applies p s g \<and> Effective (gr_Perm g) AND q \<noteq> 0)"
    using expand_Effective [OF assms] by (auto simp: grant_pairs_def split: if_splits)
  have "(\<exists>r. (q, r) \<in> set (conferred p s grants)) \<longleftrightarrow>
      pr_OrgRole p \<noteq> OrgNone \<and>
      (CanAdministerOrg (pr_OrgRole p) \<or> (\<exists>r. (q, r) \<in> set (base_pairs p s))
       \<or> (\<exists>r. (q, r) \<in> set (concat (map (grant_pairs p s) grants))))"
    using assms by (auto simp: conferred_def)
  then show ?thesis
    unfolding Evaluate_Has [OF assms] owner grants by blast
qed

text \<open>C1: \<open>Evaluate\<close> computes exactly this access rule: nobody outside the org holds anything;
  org owners and admins hold everything; otherwise a capability is held by the handle's owner,
  by the derived default table, or through a grant to the principal or to everyone whose
  selector covers the path and whose capability (admin carrying read and write) includes it.\<close>

theorem Evaluate_access_rule:
  assumes "q \<in> set all_perms"
  shows "Has (Evaluate p s grants) q \<longleftrightarrow>
    pr_OrgRole p \<noteq> OrgNone \<and>
    (CanAdministerOrg (pr_OrgRole p)
     \<or> is_handle_owner p s
     \<or> (sj_Collar s = '''' \<and> q \<noteq> Admin)
     \<or> (sj_Collar s \<noteq> '''' \<and> sj_Name s = ''inbox'' \<and> q = Write)
     \<or> (sj_Collar s \<noteq> '''' \<and> sj_Name s = ''heartbeat'' \<and> q = Read)
     \<or> (\<exists>g \<in> set grants. grant_applies p s g \<and> Effective (gr_Perm g) AND q \<noteq> 0))"
  by (rule Evaluate_Has_rule [OF assms])

definition bob :: principal where
  "bob = \<lparr>pr_ID = ''b'', pr_Name = ''bob'', pr_OrgRole = OrgMember\<rparr>"

definition alice_inbox :: subject where
  "alice_inbox = \<lparr>sj_Path = ''alice.inbox'', sj_Collar = ''alice'', sj_Name = ''inbox'', sj_Owner = ''a''\<rparr>"

definition bob_admin_grant :: grant where
  "bob_admin_grant = \<lparr>gr_PrincipalID = ''b'', gr_Principal = ''bob'', gr_Selector = ''alice.*'',
     gr_Perm = Admin, gr_GrantedBy = ''alice'', gr_CreatedAt = 7\<rparr>"

lemma fixture_simps [simp]:
  "pr_OrgRole bob = ''member''" "sj_Collar alice_inbox = ''alice''" "sj_Name alice_inbox = ''inbox''"
  "gr_Perm bob_admin_grant = Admin" "\<not> is_handle_owner bob alice_inbox"
  "\<not> CanAdministerOrg ''member''" "''member'' \<noteq> OrgNone"
  by (simp_all add: bob_def alice_inbox_def bob_admin_grant_def is_handle_owner_def
      CanAdministerOrg_def OrgNone_def OrgMember_def OrgAdmin_def OrgOwner_def)

lemma Effective_Admin [simp]: "q \<in> set all_perms \<Longrightarrow> Effective Admin AND q \<noteq> 0"
  by (auto simp: Effective_def all_perms_def perm_defs)

lemma bob_grant_applies [simp]: "grant_applies bob alice_inbox bob_admin_grant"
  by (simp add: grant_applies_def bob_def alice_inbox_def bob_admin_grant_def Match_def hasEmpty_def
      tokenAny_def tokenRest_def)

theorem Evaluate_access_rule_witness:
  "Has (Evaluate bob alice_inbox [bob_admin_grant]) Read \<and> \<not> Has (Evaluate bob alice_inbox []) Read"
  using Evaluate_access_rule [of Read bob alice_inbox "[bob_admin_grant]"]
    Evaluate_access_rule [of Read bob alice_inbox "[]"]
  by simp

text \<open>Grants only widen: whatever the order or the repetitions, a principal evaluated against
  a larger set of grants keeps every capability it had.\<close>

theorem Evaluate_monotone:
  assumes "set grants \<subseteq> set grants'" and "Has (Evaluate p s grants) q"
  shows "Has (Evaluate p s grants') q"
proof -
  have "set (conferred p s grants) \<subseteq> set (conferred p s grants')"
    using assms(1) by (auto simp: conferred_def)
  moreover have "Has (Evaluate p s gs) q
      \<longleftrightarrow> (\<exists>(q', r) \<in> set (conferred p s gs). q' AND q \<noteq> 0)" for gs
    by (cases "CanAdministerOrg (pr_OrgRole p)")
      (simp_all add: Evaluate_admin Evaluate_shape allow_all_Has)
  ultimately show ?thesis using assms(2) by blast
qed

theorem Evaluate_monotone_witness:
  "Has (Evaluate bob alice_inbox [bob_admin_grant, bob_admin_grant]) Write"
proof (rule Evaluate_monotone)
  show "set [bob_admin_grant] \<subseteq> set [bob_admin_grant, bob_admin_grant]" by simp
  show "Has (Evaluate bob alice_inbox [bob_admin_grant]) Write"
    by (auto simp: Evaluate_Has conferred_def base_pairs_def defaultsFor_def)
qed

text \<open>Provenance is sound and as specific as possible: a held capability is explained by a
  source that really confers it, and no conferring source ranks above the one reported; a
  missing capability is explained by a denial text.\<close>

theorem Evaluate_provenance:
  assumes "q \<in> set all_perms"
  shows "(Has (Evaluate p s grants) q \<longrightarrow>
           (q, Reason (Evaluate p s grants) q) \<in> set (conferred p s grants) \<and>
           (\<forall>r. (q, r) \<in> set (conferred p s grants) \<longrightarrow>
                kind_rank (rs_Kind r) \<le> kind_rank (rs_Kind (Reason (Evaluate p s grants) q)))) \<and>
         (\<not> Has (Evaluate p s grants) q \<longrightarrow>
           Reason (Evaluate p s grants) q
             = \<lparr>rs_Kind = ReasonNone, rs_Grant = None, rs_Detail = denial_text p s q\<rparr>)"
proof (intro conjI impI)
  assume "Has (Evaluate p s grants) q"
  from Evaluate_Why_granted [OF assms this]
  show "(q, Reason (Evaluate p s grants) q) \<in> set (conferred p s grants)"
    and "\<forall>r. (q, r) \<in> set (conferred p s grants) \<longrightarrow>
        kind_rank (rs_Kind r) \<le> kind_rank (rs_Kind (Reason (Evaluate p s grants) q))"
    by (auto simp: Reason_def)
next
  assume not: "\<not> Has (Evaluate p s grants) q"
  then have "\<not> CanAdministerOrg (pr_OrgRole p)"
    using assms admin_is_member by (auto simp: Evaluate_Has conferred_def image_iff)
  with not assms show "Reason (Evaluate p s grants) q
      = \<lparr>rs_Kind = ReasonNone, rs_Grant = None, rs_Detail = denial_text p s q\<rparr>"
    by (simp add: Evaluate_shape Reason_def deny_all_Why)
qed

theorem Evaluate_provenance_witness:
  "Reason (Evaluate bob alice_inbox []) Read
   = \<lparr>rs_Kind = ReasonNone, rs_Grant = None,
      rs_Detail = ''no grant; only the handle owner may read an inbox''\<rparr>"
proof -
  have "\<not> Has (Evaluate bob alice_inbox []) Read"
    by (auto simp: Evaluate_Has conferred_def base_pairs_def defaultsFor_def)
  then show ?thesis
    using Evaluate_provenance [of Read bob alice_inbox "[]"]
    by (simp add: denial_text_def denialDetail_def)
qed

text \<open>A grant that confers a capability to a plain member is what the surfaces report for it,
  even where a default or the ownership of the handle would also confer it, so revoking the
  grant is visible.\<close>

theorem Evaluate_grant_reported:
  assumes "pr_OrgRole p = OrgMember" and "g \<in> set grants" and "grant_applies p s g"
    and "q \<in> set all_perms" and "Effective (gr_Perm g) AND q \<noteq> 0"
  shows "rs_Kind (Reason (Evaluate p s grants) q) = ReasonGrant \<and>
         (\<exists>g' \<in> set grants. rs_Grant (Reason (Evaluate p s grants) q) = Some g' \<and>
            grant_applies p s g' \<and> Effective (gr_Perm g') AND q \<noteq> 0)"
proof -
  let ?r = "Reason (Evaluate p s grants) q"
  have member: "conferred p s grants = base_pairs p s @ concat (map (grant_pairs p s) grants)"
    using assms(1)
    by (simp add: conferred_def CanAdministerOrg_def OrgMember_def OrgNone_def OrgOwner_def OrgAdmin_def)
  have "q \<in> set (expand (gr_Perm g))"
    using assms(4,5) by (simp add: expand_Effective)
  then have "(q, grant_reason g) \<in> set (grant_pairs p s g)"
    using assms(3) by (simp add: grant_pairs_def)
  then have c: "(q, grant_reason g) \<in> set (conferred p s grants)"
    using assms(2) by (auto simp: member)
  then have has: "Has (Evaluate p s grants) q"
    using assms(4) by (auto simp: Evaluate_Has)
  obtain r where r: "dc_Why (Evaluate p s grants) q = Some r" "(q, r) \<in> set (conferred p s grants)"
      "kind_rank (rs_Kind (grant_reason g)) \<le> kind_rank (rs_Kind r)"
    using Evaluate_Why_granted [OF assms(4) has] c by blast
  have base: "kind_rank (rs_Kind r') \<le> 2" if "(q, r') \<in> set (base_pairs p s)" for r'
    using that by (auto simp: base_pairs_def kind_rank_def split: if_splits)
  from r(3) have "3 \<le> kind_rank (rs_Kind r)"
    by (simp add: grant_reason_def kind_rank_def)
  with base r(2) have "(q, r) \<in> set (concat (map (grant_pairs p s) grants))"
    unfolding member by fastforce
  then obtain g' where "g' \<in> set grants" "grant_applies p s g'" "q \<in> set (expand (gr_Perm g'))"
      "r = grant_reason g'"
    by (auto simp: grant_pairs_def split: if_splits)
  with r(1) assms(4) show ?thesis
    by (auto simp: Reason_def grant_reason_def expand_Effective)
qed

theorem Evaluate_grant_reported_witness:
  "rs_Kind (Reason (Evaluate bob alice_inbox [bob_admin_grant]) Write) = ReasonGrant"
  using Evaluate_grant_reported [of bob bob_admin_grant "[bob_admin_grant]" alice_inbox Write]
  by (simp add: OrgMember_def)

text \<open>Selector validation and matching agree: a selector accepted for storage matches at least
  its own text read as a path, and a malformed one matches nothing at all.\<close>

theorem ValidSelector_iff_matches: "ValidSelector sel \<longleftrightarrow> (\<exists>path. Match sel path)"
proof
  assume "ValidSelector sel"
  then have "Match sel sel"
    by (simp add: Match_iff ValidSelector_iff valid_parts_iff matchParts_self)
  then show "\<exists>path. Match sel path" ..
next
  assume "\<exists>path. Match sel path"
  then show "ValidSelector sel" by (auto simp: Match_iff)
qed

text \<open>The two wildcards of a selector mean what they mean to NATS: for any server matcher with
  the documented behaviour, a valid selector covers a path exactly when its NATS spelling
  matches the path's tokens.\<close>

theorem Match_is_nats:
  assumes "nats_matcher nm" and "ValidSelector sel" and "''>'' \<notin> set (split_dots sel)"
    and "\<not> hasEmpty (split_dots path)"
  shows "Match sel path \<longleftrightarrow> nm (nats_tokens sel) (split_dots path)"
proof -
  have "tokenRest \<notin> set (butlast (split_dots sel))"
    using assms(2) by (simp add: ValidSelector_iff valid_parts_iff rest_misplaced_iff)
  moreover have "''*'' \<notin> set (split_dots sel) - {tokenAny}"
    by (simp add: tokenAny_def)
  ultimately have "matchParts (split_dots sel) (split_dots path)
      \<longleftrightarrow> nm (nats_tokens sel) (split_dots path)"
    unfolding nats_tokens_def using assms(3) by (intro sel.matchers_agree [OF assms(1)]) auto
  with assms show ?thesis by (simp add: Match_iff)
qed

theorem Match_is_nats_witness:
  "Match ''alice.**'' ''alice.log.deep'' \<longleftrightarrow>
   nats_match (nats_tokens ''alice.**'') (split_dots ''alice.log.deep'')"
  by (rule Match_is_nats [OF nats_match_is_matcher])
    (simp_all add: ValidSelector_def hasEmpty_def tokenRest_def)

end
