(* ===== verification/Subjects.thy ===== *)
theory Subjects
  imports Prelude
begin

text \<open>
  The subject grammar of \<open>internal/natsubj\<close>: name validation (\<open>subjects.go\<close>), the builders of
  NATS subjects and JetStream stream names, and the presence and system families
  (\<open>presence.go\<close>). The lemmas say which subjects and stream names can coincide: the presence
  and system segments are outside the grammar of names, and two pipes share a stream name
  only if they share a subject path.
\<close>

section \<open>Names\<close>

definition name_char :: "char \<Rightarrow> bool" where
  "name_char c \<longleftrightarrow> c \<in> set ''abcdefghijklmnopqrstuvwxyz0123456789''"

definition name_char_hyphen :: "char \<Rightarrow> bool" where
  "name_char_hyphen c \<longleftrightarrow> name_char c \<or> c = CHR ''-''"

text \<open>\<open>HandleRegex\<close>: \<^verbatim>\<open>^[a-z0-9]([a-z0-9-]{0,30}[a-z0-9])?$\<close>.\<close>

fun HandleRegex :: "string \<Rightarrow> bool" where
  "HandleRegex [] = False"
| "HandleRegex (c # rest) =
     (name_char c \<and>
      (rest = [] \<or>
       (list_all name_char_hyphen (butlast rest) \<and> length (butlast rest) \<le> 30 \<and>
        name_char (last rest))))"

definition Reserved :: "string list" where
  "Reserved = [''broadcast'', ''inbox'', ''stdin'', ''stdout'', ''stdctrl'', ''system'', ''db'']"

definition ValidPipes :: "string list" where
  "ValidPipes = [''broadcast'', ''inbox'', ''stdin'', ''stdout'', ''stdctrl'']"

definition AutoProvisionedPipes :: "string list" where
  "AutoProvisionedPipes =
     [''broadcast'', ''inbox'', ''stdin'', ''stdout'', ''stdctrl'', ''system'', ''heartbeat'']"

definition ReservedPipeNames :: "string list" where
  "ReservedPipeNames = [''system'', ''db'', ''inbox'', ''heartbeat'']"

text \<open>Each validator returns the error text, or \<open>None\<close> for Go's \<open>nil\<close>.\<close>

definition ValidateHandle :: "string \<Rightarrow> string option" where
  "ValidateHandle h =
     (if \<not> HandleRegex h then Some ''invalid handle''
      else if h \<in> set Reserved then Some ''reserved handle''
      else None)"

definition ValidatePipe :: "string \<Rightarrow> string option" where
  "ValidatePipe name = (if \<not> HandleRegex name then Some ''invalid pipe'' else None)"

definition ValidateUserPipeName :: "string \<Rightarrow> string option" where
  "ValidateUserPipeName name =
     (if \<not> HandleRegex name then Some ''invalid pipe name''
      else if name \<in> set ReservedPipeNames then Some ''name is reserved''
      else None)"

section \<open>Presence and system subjects\<close>

definition PresenceSegment :: string where "PresenceSegment = ''_presence''"
definition PresencePipe :: string where "PresencePipe = ''heartbeat''"
definition SystemSegment :: string where "SystemSegment = ''_system''"

definition SystemPrefix :: "uuid \<Rightarrow> string" where
  "SystemPrefix accountID = accountID @ ''.'' @ SystemSegment @ ''.>''"

definition SystemACLSubject :: "uuid \<Rightarrow> string" where
  "SystemACLSubject accountID = accountID @ ''.'' @ SystemSegment @ ''.acl''"

definition IsSystemACLSubject :: "string \<Rightarrow> bool" where
  "IsSystemACLSubject subject =
     (let parts = split_dots subject
      in length parts = 3 \<and> parts ! 1 = SystemSegment \<and> parts ! 2 = ''acl'')"

definition PresenceSubject :: "uuid \<Rightarrow> string \<Rightarrow> string \<Rightarrow> string" where
  "PresenceSubject accountID manifold handle =
     accountID @ ''.'' @ PresenceSegment
     @ (if manifold \<noteq> '''' then ''.'' @ manifold else '''')
     @ ''.'' @ handle"

definition PresencePrefix :: "uuid \<Rightarrow> string" where
  "PresencePrefix accountID = accountID @ ''.'' @ PresenceSegment @ ''.>''"

text \<open>
  \<open>uuid.Parse\<close> belongs to a third-party package: the parser takes it as the predicate
  \<open>uuid_ok\<close> that says which texts parse.
\<close>

definition ParsePresenceSubject :: "(string \<Rightarrow> bool) \<Rightarrow> string \<Rightarrow> string option" where
  "ParsePresenceSubject uuid_ok subject =
     (let parts = split_dots subject
      in if length parts < 3 \<or> parts ! 1 \<noteq> PresenceSegment then None
         else if \<not> uuid_ok (parts ! 0) then None
         else let handle = last parts
              in if handle = '''' then None else Some handle)"

text \<open>\<open>orgshort\<close>: the first eight hex digits of the account id, hyphens removed.\<close>

definition org_short :: "uuid \<Rightarrow> string" where
  "org_short accountID = take 8 (remove_char CHR ''-'' accountID)"

definition PresenceStreamName :: "uuid \<Rightarrow> string \<Rightarrow> string \<Rightarrow> string" where
  "PresenceStreamName accountID manifold handle =
     join_with ''_''
       ([''presence'', org_short accountID]
        @ (if manifold \<noteq> '''' then [replace_char CHR ''.'' CHR ''_'' manifold] else [])
        @ [handle])"

section \<open>Pipe subjects and stream names\<close>

definition Subject :: "uuid \<Rightarrow> string \<Rightarrow> string \<Rightarrow> string" where
  "Subject accountID handle pipe = accountID @ ''.'' @ handle @ ''.'' @ pipe"

definition BuildSubject :: "uuid \<Rightarrow> string \<Rightarrow> string \<Rightarrow> string \<Rightarrow> string" where
  "BuildSubject accountID manifold source pipe =
     (if pipe = PresencePipe then PresenceSubject accountID manifold source
      else accountID
           @ (if manifold \<noteq> '''' then ''.'' @ manifold else '''')
           @ (if source \<noteq> '''' then ''.'' @ source else '''')
           @ ''.'' @ pipe)"

definition StreamPrefixes :: "string list" where
  "StreamPrefixes = [''source_'', ''pipe_'', ''presence_'']"

definition IsPPZStream :: "string \<Rightarrow> bool" where
  "IsPPZStream name = list_ex (has_prefix name) StreamPrefixes"

definition StreamName :: "uuid \<Rightarrow> string \<Rightarrow> string \<Rightarrow> string" where
  "StreamName accountID handle pipe =
     ''source_'' @ org_short accountID @ ''_'' @ handle @ ''_'' @ pipe"

definition BuildStreamName :: "uuid \<Rightarrow> string \<Rightarrow> string \<Rightarrow> string \<Rightarrow> string" where
  "BuildStreamName accountID manifold source name =
     (if name = PresencePipe then PresenceStreamName accountID manifold source
      else join_with ''_''
             ([''pipe'', org_short accountID]
              @ (if manifold \<noteq> '''' then [replace_char CHR ''.'' CHR ''_'' manifold] else [])
              @ (if source \<noteq> '''' then [source] else [])
              @ [name]))"

definition OrgSubscription :: "uuid \<Rightarrow> string" where
  "OrgSubscription accountID = accountID @ ''.>''"

section \<open>Well-formed names and addresses\<close>

text \<open>
  A pipe is addressed by a manifold (a dotted path, empty at the root), a source handle
  (empty for an uncollared pipe) and a name. \<open>addr_tokens\<close> is the sequence of subject tokens
  of such an address.
\<close>

definition manifold_tokens :: "string \<Rightarrow> string list" where
  "manifold_tokens manifold = (if manifold = '''' then [] else split_dots manifold)"

definition addr_tokens :: "string \<Rightarrow> string \<Rightarrow> string \<Rightarrow> string list" where
  "addr_tokens manifold source name =
     manifold_tokens manifold @ (if source = '''' then [] else [source]) @ [name]"

definition valid_manifold :: "string \<Rightarrow> bool" where
  "valid_manifold manifold \<longleftrightarrow> list_all HandleRegex (manifold_tokens manifold)"

definition valid_addr :: "string \<Rightarrow> string \<Rightarrow> string \<Rightarrow> bool" where
  "valid_addr manifold source name \<longleftrightarrow>
     valid_manifold manifold \<and> (source = '''' \<or> HandleRegex source) \<and> HandleRegex name \<and>
     (name = PresencePipe \<longrightarrow> source \<noteq> '''')"

text \<open>What the builders need of an account id: a non-empty text of hex digits and hyphens.\<close>

definition uuid_text :: "uuid \<Rightarrow> bool" where
  "uuid_text a \<longleftrightarrow> a \<noteq> '''' \<and> set a \<subseteq> set ''0123456789abcdef-''"

lemma name_char_no_special:
  "name_char c \<Longrightarrow> c \<noteq> CHR ''.'' \<and> c \<noteq> CHR ''_'' \<and> c \<noteq> CHR ''*'' \<and> c \<noteq> CHR ''>''"
  by (auto simp: name_char_def)

lemma HandleRegex_chars:
  assumes "HandleRegex h" and "c \<in> set h"
  shows "name_char_hyphen c"
proof (cases h)
  case Nil
  with assms show ?thesis by simp
next
  case (Cons d rest)
  show ?thesis
  proof (cases "rest = []")
    case True
    with Cons assms show ?thesis by (simp add: name_char_hyphen_def)
  next
    case False
    then have "set rest = set (butlast rest) \<union> {last rest}"
      by (metis append_butlast_last_id empty_set list.simps(15) set_append)
    with Cons False assms show ?thesis
      by (auto simp: list_all_iff name_char_hyphen_def)
  qed
qed

lemma HandleRegex_no_special:
  assumes "HandleRegex h"
  shows "CHR ''.'' \<notin> set h" and "CHR ''_'' \<notin> set h"
    and "CHR ''*'' \<notin> set h" and "CHR ''>'' \<notin> set h"
  using HandleRegex_chars [OF assms] name_char_no_special
  by (fastforce simp: name_char_hyphen_def)+

lemma HandleRegex_nonempty: "HandleRegex h \<Longrightarrow> h \<noteq> ''''"
  by auto

lemma HandleRegex_not_reserved_segment:
  "HandleRegex h \<Longrightarrow> h \<noteq> PresenceSegment \<and> h \<noteq> SystemSegment"
  using HandleRegex_no_special(2) by (auto simp: PresenceSegment_def SystemSegment_def name_char_def)

lemma HandleRegex_length: "HandleRegex h \<Longrightarrow> length h \<le> 32"
  by (cases h) auto

lemma ValidateHandle_None_iff [simp]:
  "ValidateHandle h = None \<longleftrightarrow> HandleRegex h \<and> h \<notin> set Reserved"
  by (simp add: ValidateHandle_def)

lemma ValidatePipe_None_iff [simp]: "ValidatePipe h = None \<longleftrightarrow> HandleRegex h"
  by (simp add: ValidatePipe_def)

lemma ValidateUserPipeName_None_iff [simp]:
  "ValidateUserPipeName h = None \<longleftrightarrow> HandleRegex h \<and> h \<notin> set ReservedPipeNames"
  by (simp add: ValidateUserPipeName_def)

lemma addr_tokens_regex: "valid_addr m s n \<Longrightarrow> t \<in> set (addr_tokens m s n) \<Longrightarrow> HandleRegex t"
  by (auto simp: valid_addr_def valid_manifold_def addr_tokens_def list_all_iff split: if_splits)

lemma addr_tokens_nonempty [simp]: "addr_tokens m s n \<noteq> []"
  by (simp add: addr_tokens_def)

lemma uuid_text_no_special:
  assumes "uuid_text a"
  shows "CHR ''.'' \<notin> set a" and "CHR ''_'' \<notin> set a"
  using assms by (auto simp: uuid_text_def)

lemma org_short_no_underscore: "uuid_text a \<Longrightarrow> CHR ''_'' \<notin> set (org_short a)"
  using uuid_text_no_special(2) [of a]
  by (auto simp: org_short_def remove_char_def dest: in_set_takeD)

section \<open>The builders as joins of tokens\<close>

lemma join_with_append:
  "ps \<noteq> [] \<Longrightarrow> qs \<noteq> [] \<Longrightarrow> join_with sep (ps @ qs) = join_with sep ps @ sep @ join_with sep qs"
  by (induction ps rule: induct_list012) (auto simp: join_with_Cons)

lemma replace_dots_join:
  "replace_char CHR ''.'' CHR ''_'' s = join_with ''_'' (split_dots s)"
proof (induction s)
  case Nil
  then show ?case by (simp add: replace_char_def)
next
  case (Cons x s)
  obtain p ps where sp: "split_dots s = p # ps"
    by (cases "split_dots s") auto
  from Cons sp show ?case
    by (cases ps) (auto simp: replace_char_def join_with_Cons)
qed

lemma BuildSubject_join:
  assumes "pipe \<noteq> PresencePipe"
  shows "BuildSubject a manifold source pipe = join_dots (a # addr_tokens manifold source pipe)"
  using assms
  by (simp add: BuildSubject_def addr_tokens_def manifold_tokens_def join_with_Cons join_with_append)

lemma PresenceSubject_join:
  "PresenceSubject a manifold handle
   = join_dots (a # PresenceSegment # manifold_tokens manifold @ [handle])"
  by (simp add: PresenceSubject_def manifold_tokens_def join_with_Cons join_with_append)

lemma BuildStreamName_join:
  assumes "name \<noteq> PresencePipe"
  shows "BuildStreamName a manifold source name
         = join_with ''_'' (''pipe'' # org_short a # addr_tokens manifold source name)"
  using assms
  by (simp add: BuildStreamName_def addr_tokens_def manifold_tokens_def replace_dots_join
      join_with_Cons join_with_append)

lemma PresenceStreamName_join:
  "PresenceStreamName a manifold handle
   = join_with ''_'' (''presence'' # org_short a # manifold_tokens manifold @ [handle])"
  by (simp add: PresenceStreamName_def manifold_tokens_def replace_dots_join
      join_with_Cons join_with_append)

subsection \<open>Reading the tokens back\<close>

lemma split_BuildSubject:
  assumes "uuid_text a" and "valid_addr m s n"
  shows "split_dots (BuildSubject a m s n) =
    (if n = PresencePipe then a # PresenceSegment # manifold_tokens m @ [s]
     else a # addr_tokens m s n)"
proof -
  have toks: "\<forall>t \<in> set (addr_tokens m s n). CHR ''.'' \<notin> set t"
    using addr_tokens_regex [OF assms(2)] HandleRegex_no_special(1) by blast
  have a: "CHR ''.'' \<notin> set a"
    by (rule uuid_text_no_special(1) [OF assms(1)])
  show ?thesis
  proof (cases "n = PresencePipe")
    case True
    with assms(2) have s: "s \<noteq> ''''" by (simp add: valid_addr_def)
    have "\<forall>t \<in> set (manifold_tokens m @ [s]). CHR ''.'' \<notin> set t"
      using toks s by (auto simp: addr_tokens_def)
    with True a show ?thesis
      using split_join [of "a # PresenceSegment # manifold_tokens m @ [s]" "CHR ''.''"]
      by (subst BuildSubject_def) (simp add: PresenceSubject_join, simp add: PresenceSegment_def)
  next
    case False
    with toks a show ?thesis by (simp add: BuildSubject_join split_join)
  qed
qed

lemma split_BuildStreamName:
  assumes "uuid_text a" and "valid_addr m s n"
  shows "split_on CHR ''_'' (BuildStreamName a m s n) =
    (if n = PresencePipe then ''presence'' # org_short a # manifold_tokens m @ [s]
     else ''pipe'' # org_short a # addr_tokens m s n)"
proof -
  have toks: "\<forall>t \<in> set (addr_tokens m s n). CHR ''_'' \<notin> set t"
    using addr_tokens_regex [OF assms(2)] HandleRegex_no_special(2) by blast
  have a: "CHR ''_'' \<notin> set (org_short a)"
    by (rule org_short_no_underscore [OF assms(1)])
  show ?thesis
  proof (cases "n = PresencePipe")
    case True
    with assms(2) have s: "s \<noteq> ''''" by (simp add: valid_addr_def)
    have "\<forall>t \<in> set (manifold_tokens m @ [s]). CHR ''_'' \<notin> set t"
      using toks s by (auto simp: addr_tokens_def)
    with True a show ?thesis
      using split_join [of "''presence'' # org_short a # manifold_tokens m @ [s]" "CHR ''_''"]
      by (subst BuildStreamName_def) (simp add: PresenceStreamName_join)
  next
    case False
    with toks a show ?thesis by (simp add: BuildStreamName_join split_join)
  qed
qed

lemma addr_hd_not_reserved:
  assumes "valid_addr m s n"
  shows "hd (addr_tokens m s n) \<noteq> PresenceSegment" and "hd (addr_tokens m s n) \<noteq> SystemSegment"
  using HandleRegex_not_reserved_segment [OF addr_tokens_regex [OF assms]]
  by (meson addr_tokens_nonempty hd_in_set)+

section \<open>Properties\<close>

text \<open>C28: Flattening dots to underscores loses nothing: within an account, two well-formed
  pipe addresses get the same JetStream stream name exactly when they get the same NATS
  subject, presence included.\<close>

theorem stream_name_iff_subject:
  assumes "uuid_text a" and "valid_addr m s n" and "valid_addr m' s' n'"
  shows "BuildStreamName a m s n = BuildStreamName a m' s' n'
         \<longleftrightarrow> BuildSubject a m s n = BuildSubject a m' s' n'"
proof -
  have "BuildStreamName a m s n = BuildStreamName a m' s' n' \<longleftrightarrow>
      split_on CHR ''_'' (BuildStreamName a m s n) = split_on CHR ''_'' (BuildStreamName a m' s' n')"
    using split_on_inj by metis
  moreover have "BuildSubject a m s n = BuildSubject a m' s' n' \<longleftrightarrow>
      split_dots (BuildSubject a m s n) = split_dots (BuildSubject a m' s' n')"
    using split_on_inj by metis
  moreover have "(addr_tokens m s n = PresenceSegment # ts) = False"
      "(PresenceSegment # ts = addr_tokens m' s' n') = False" for ts
    using addr_hd_not_reserved(1) assms(2,3) by (metis list.sel(1))+
  ultimately show ?thesis
    using assms by (auto simp: split_BuildSubject split_BuildStreamName)
qed

theorem stream_name_iff_subject_witness:
  "BuildStreamName ''ab-12'' ''ns'' ''alice'' ''inbox'' = BuildStreamName ''ab-12'' ''ns.alice'' '''' ''inbox''
   \<longleftrightarrow> BuildSubject ''ab-12'' ''ns'' ''alice'' ''inbox'' = BuildSubject ''ab-12'' ''ns.alice'' '''' ''inbox''"
  by (rule stream_name_iff_subject)
    (simp_all add: uuid_text_def valid_addr_def valid_manifold_def manifold_tokens_def
      name_char_def name_char_hyphen_def PresencePipe_def)

text \<open>Presence round trip and separation: parsing the subject of a well-formed pipe as a
  presence subject gives back the bare handle for a heartbeat and nothing for any other pipe.\<close>

theorem presence_roundtrip:
  assumes "uuid_text a" and "valid_addr m s n"
  shows "ParsePresenceSubject uuid_ok (BuildSubject a m s n)
         = (if n = PresencePipe \<and> uuid_ok a then Some s else None)"
proof (cases "n = PresencePipe")
  case True
  then have "s \<noteq> ''''" using assms(2) by (simp add: valid_addr_def)
  with True show ?thesis
    unfolding ParsePresenceSubject_def split_BuildSubject [OF assms] by simp
next
  case False
  obtain t ts where "addr_tokens m s n = t # ts"
    by (cases "addr_tokens m s n") auto
  with addr_hd_not_reserved(1) [OF assms(2)] False show ?thesis
    by (simp add: ParsePresenceSubject_def split_BuildSubject [OF assms] Let_def)
qed

theorem presence_roundtrip_witness:
  "ParsePresenceSubject (\<lambda>_. True) (BuildSubject ''ab-12'' ''ns'' ''agent-b'' ''heartbeat'')
   = Some ''agent-b''"
  by (subst presence_roundtrip)
    (simp_all add: uuid_text_def valid_addr_def valid_manifold_def manifold_tokens_def
      name_char_def name_char_hyphen_def PresencePipe_def)

text \<open>The invalidation signal is recognised for every account and no well-formed pipe can
  forge it.\<close>

theorem system_acl_subject_unforgeable:
  assumes "uuid_text a" and "valid_addr m s n"
  shows "IsSystemACLSubject (SystemACLSubject a) \<and> \<not> IsSystemACLSubject (BuildSubject a m s n)"
proof
  have "split_dots (SystemACLSubject a) = [a, SystemSegment, ''acl'']"
    using split_on_append_sep [OF uuid_text_no_special(1) [OF assms(1)], of "SystemSegment @ ''.acl''"]
    by (simp add: SystemACLSubject_def SystemSegment_def)
  then show "IsSystemACLSubject (SystemACLSubject a)"
    by (simp add: IsSystemACLSubject_def)
  show "\<not> IsSystemACLSubject (BuildSubject a m s n)"
  proof (cases "n = PresencePipe")
    case True
    then show ?thesis
      unfolding IsSystemACLSubject_def split_BuildSubject [OF assms]
      by (simp add: PresenceSegment_def SystemSegment_def)
  next
    case False
    obtain t ts where "addr_tokens m s n = t # ts"
      by (cases "addr_tokens m s n") auto
    with addr_hd_not_reserved(2) [OF assms(2)] False show ?thesis
      by (simp add: IsSystemACLSubject_def split_BuildSubject [OF assms] Let_def)
  qed
qed

theorem system_acl_subject_unforgeable_witness:
  "IsSystemACLSubject (SystemACLSubject ''ab-12'')
   \<and> \<not> IsSystemACLSubject (BuildSubject ''ab-12'' '''' ''alice'' ''acl'')"
  by (rule system_acl_subject_unforgeable)
    (simp_all add: uuid_text_def valid_addr_def valid_manifold_def manifold_tokens_def
      name_char_def name_char_hyphen_def PresencePipe_def)

end
