(* ===== verification/Tables.thy ===== *)
theory Tables
  imports Acl Subjects "HOL-Library.List_Lexorder" "HOL-Library.Char_ord" "HOL-Library.Product_Lexorder"
begin

text \<open>
  The tables of \<open>internal/db\<close>, shared by the theories that model its repositories: users, accounts, members, sources,
  pipes, grants and the audit trail. A table is the list of its rows in physical order; a query
  without \<open>ORDER BY\<close> that can match several rows returns the first of them, so a statement about
  all databases covers every choice the server may make. \<open>ORDER BY\<close> on text columns sorts by
  bytes. Each statement takes the error text of a failed round trip (\<open>None\<close> when it reaches the
  server); a statement that fails leaves the tables unchanged. Fresh identifiers (\<open>uuid.New\<close>) and
  the clock are arguments. The constraints are those of \<open>internal/db/migrations\<close>: primary keys,
  the unique indexes, the foreign keys and their cascades.
\<close>

section \<open>Rows\<close>

record user =
  us_ID :: uuid
  us_Username :: string
  us_Email :: string
  us_Mode :: string
  us_GitHubID :: "int option"
  us_AvatarURL :: string
  us_CreatedAt :: instant
  us_ServiceAccountID :: "uuid option"

record user_row = user +
  us_LastSelectedAccount :: "uuid option"

record account =
  acct_ID :: uuid
  acct_Name :: string
  acct_OwnerUserID :: uuid
  acct_CreatedAt :: instant
  acct_NATSAccountPub :: string
  acct_NATSAccountJWT :: string
  acct_NATSAccountSigningSeed :: string

record account_row = account +
  acct_acl_generation :: int
  acct_acl_enforced :: bool

record member =
  mb_AccountID :: uuid
  mb_UserID :: uuid
  mb_AddedAt :: instant

record member_row = member +
  mb_Role :: string

definition SourceKindMessage :: string where "SourceKindMessage = ''message''"
definition SourceKindPTY :: string where "SourceKindPTY = ''pty''"

record source =
  src_ID :: uuid
  src_AccountID :: uuid
  src_CreatedByUserID :: uuid
  src_Manifold :: string
  src_Handle :: string
  src_Kind :: string
  src_CreatedAt :: instant
  src_LastBroadcastAt :: "instant option"
  src_LastBroadcastPayload :: "string option"

record pipe =
  pp_ID :: uuid
  pp_AccountID :: uuid
  pp_Manifold :: string
  pp_SourceID :: "uuid option"
  pp_CreatedByUserID :: uuid
  pp_Name :: string
  pp_TTLSeconds :: "int option"
  pp_MaxMsgs :: "int option"
  pp_MaxBytes :: "int option"
  pp_CreatedAt :: instant

text \<open>A stored grant, and the joined shape (\<open>ACLGrant\<close>) the queries return.\<close>

record grant_row =
  ag_ID :: uuid
  ag_AccountID :: uuid
  ag_PrincipalID :: uuid
  ag_Selector :: string
  ag_Perm :: string
  ag_GrantedBy :: uuid
  ag_CreatedAt :: instant

record aclgrant = grant_row +
  ag_PrincipalName :: string
  ag_GrantedByName :: string

text \<open>The audit payloads, one constructor per JSON shape the writers marshal.\<close>

datatype audit_payload =
    RetentionSnapshot (rs_TTLSeconds: int) (rs_MaxMsgs: int) (rs_MaxBytes: int)
  | SourceSnapshot (ss_Kind: string) (ss_Pipes: "string list")
  | PurgeSnapshot (ps_Msgs: nat)
  | GrantDelta (gd_Principal: string) (gd_Perm: string)
  | EnforceDelta (ed_Enforced: bool)

record audit_event =
  ev_ID :: uuid
  ev_AccountID :: uuid
  ev_ActorUserID :: uuid
  ev_ActorAPIKeyID :: "uuid option"
  ev_Action :: string
  ev_TargetType :: string
  ev_Target :: string
  ev_Before :: "audit_payload option"
  ev_After :: "audit_payload option"
  ev_CreatedAt :: instant

record api_key =
  ak_ID :: uuid
  ak_AccountID :: uuid
  ak_CreatedByUserID :: uuid
  ak_PrincipalUserID :: uuid
  ak_KeyHash :: string
  ak_KeyPrefix :: string
  ak_Label :: string
  ak_CreatedAt :: instant
  ak_RevokedAt :: "instant option"

record invite =
  iv_ID :: uuid
  iv_AccountID :: uuid
  iv_InviteeUsername :: string
  iv_InviterUserID :: uuid
  iv_Status :: string
  iv_CreatedAt :: instant
  iv_DecidedAt :: "instant option"

text \<open>\<open>CreatorUsername\<close> is filled by the listing query and empty in a stored row.\<close>

record schedule =
  sd_ID :: uuid
  sd_AccountID :: uuid
  sd_Manifold :: string
  sd_SourceHandle :: string
  sd_Pipe :: string
  sd_Payload :: string
  sd_Sender :: string
  sd_Kind :: string
  sd_Spec :: string
  sd_TZ :: string
  sd_NextFireAt :: instant
  sd_LastFiredAt :: "instant option"
  sd_FailCount :: int
  sd_CreatedByUserID :: uuid
  sd_CreatedAt :: instant
  sd_CreatorUsername :: string

record database =
  users :: "user_row list"
  accounts :: "account_row list"
  members :: "member_row list"
  sources :: "source list"
  pipes :: "pipe list"
  grants :: "grant_row list"
  api_keys :: "api_key list"
  invites :: "invite list"
  schedules :: "schedule list"
  audit_events :: "audit_event list"

section \<open>Errors\<close>

datatype dberror =
    ErrNoRows | ErrNotFound | ErrHandleTaken | ErrPipeNameTaken | ErrServiceExists
  | ErrInvalidUserMode | ErrCannotRemoveOwner | ErrInviteNotPending | ErrDuplicatePendingInvite
  | ErrAlreadyMember | ErrScheduleIDAmbiguous | ErrText string | SQLState string

definition dberr_text :: "dberror \<Rightarrow> string" where
  "dberr_text e =
     (case e of
        ErrNoRows \<Rightarrow> ''no rows in result set''
      | ErrNotFound \<Rightarrow> ''not found''
      | ErrHandleTaken \<Rightarrow> ''handle taken''
      | ErrPipeNameTaken \<Rightarrow> ''pipe name taken''
      | ErrServiceExists \<Rightarrow> ''service account already exists''
      | ErrInvalidUserMode \<Rightarrow>
          ''user mode must be '' @ [CHR 0x27] @ ''github'' @ [CHR 0x27] @ '', '' @ [CHR 0x27] @ ''internal''
          @ [CHR 0x27] @ '' or '' @ [CHR 0x27] @ ''service'' @ [CHR 0x27]
      | ErrCannotRemoveOwner \<Rightarrow> ''cannot remove the account'' @ [CHR 0x27] @ ''s owner''
      | ErrInviteNotPending \<Rightarrow> ''invite is not pending''
      | ErrDuplicatePendingInvite \<Rightarrow> ''a pending invite for this user already exists''
      | ErrAlreadyMember \<Rightarrow> ''user is already a member of this account''
      | ErrScheduleIDAmbiguous \<Rightarrow> ''schedule short id is ambiguous (matches multiple schedules)''
      | ErrText t \<Rightarrow> t
      | SQLState c \<Rightarrow> ''SQLSTATE '' @ c)"

definition isUniqueViolation :: "dberror \<Rightarrow> bool" where
  "isUniqueViolation e \<longleftrightarrow> e = SQLState ''23505''"

abbreviation unique_violation :: dberror where "unique_violation \<equiv> SQLState ''23505''"
abbreviation foreign_key_violation :: dberror where "foreign_key_violation \<equiv> SQLState ''23503''"

text \<open>A query's answer, unless the round trip fails; a one-row query on an empty result.\<close>

definition query :: "string option \<Rightarrow> 'a \<Rightarrow> dberror + 'a" where
  "query flt x = (case flt of Some t \<Rightarrow> Inl (ErrText t) | None \<Rightarrow> Inr x)"

definition query_row :: "string option \<Rightarrow> 'a option \<Rightarrow> dberror + 'a" where
  "query_row flt x =
     (case flt of Some t \<Rightarrow> Inl (ErrText t)
      | None \<Rightarrow> (case x of None \<Rightarrow> Inl ErrNoRows | Some r \<Rightarrow> Inr r))"

text \<open>\<open>errors.Is(err, pgx.ErrNoRows)\<close> mapped to \<open>ErrNotFound\<close>, as several readers do.\<close>

definition no_rows_not_found :: "dberror + 'a \<Rightarrow> dberror + 'a" where
  "no_rows_not_found r = (case r of Inl ErrNoRows \<Rightarrow> Inl ErrNotFound | _ \<Rightarrow> r)"

lemma query_simps [simp]:
  "query None x = Inr x" "query (Some t) x = Inl (ErrText t)"
  "query_row None (Some r) = Inr r" "query_row None None = Inl ErrNoRows"
  "query_row (Some t) y = Inl (ErrText t)"
  by (simp_all add: query_def query_row_def)

lemma no_rows_not_found_simps [simp]:
  "no_rows_not_found (Inr r) = Inr r" "no_rows_not_found (Inl ErrNoRows) = Inl ErrNotFound"
  "no_rows_not_found (Inl (ErrText t)) = Inl (ErrText t)"
  by (simp_all add: no_rows_not_found_def)

section \<open>References between tables\<close>

definition has_user :: "database \<Rightarrow> uuid \<Rightarrow> bool" where
  "has_user D u \<longleftrightarrow> u \<in> us_ID ` set (users D)"

definition has_account :: "database \<Rightarrow> uuid \<Rightarrow> bool" where
  "has_account D a \<longleftrightarrow> a \<in> acct_ID ` set (accounts D)"

definition has_source :: "database \<Rightarrow> uuid \<Rightarrow> bool" where
  "has_source D s \<longleftrightarrow> s \<in> src_ID ` set (sources D)"

text \<open>
  The columns that reference \<open>users(id)\<close> without \<open>ON DELETE CASCADE\<close>: a row naming the user in
  one of them makes deleting the user fail.
\<close>

definition user_referenced :: "database \<Rightarrow> uuid \<Rightarrow> bool" where
  "user_referenced D u \<longleftrightarrow>
     u \<in> acct_OwnerUserID ` set (accounts D) \<or>
     u \<in> ak_CreatedByUserID ` set (api_keys D) \<or> u \<in> ak_PrincipalUserID ` set (api_keys D) \<or>
     u \<in> src_CreatedByUserID ` set (sources D) \<or> u \<in> pp_CreatedByUserID ` set (pipes D) \<or>
     u \<in> iv_InviterUserID ` set (invites D) \<or> u \<in> sd_CreatedByUserID ` set (schedules D) \<or>
     u \<in> ag_GrantedBy ` set (grants D)"

end
