(* ===== verification/DbPrincipals.thy ===== *)
theory DbPrincipals
  imports Tables
begin

text \<open>
  Users, accounts, membership, service accounts and API keys: \<open>internal/db/users.go\<close>,
  \<open>accounts.go\<close>, \<open>members.go\<close>, \<open>service_accounts.go\<close> and \<open>apikeys.go\<close>.
\<close>

section \<open>users.go\<close>

definition UserModeGithub :: string where "UserModeGithub = ''github''"
definition UserModeInternal :: string where "UserModeInternal = ''internal''"
definition UserModeService :: string where "UserModeService = ''service''"

definition ServiceNameSeparator :: char where "ServiceNameSeparator = CHR ''/''"

definition IsService :: "'a user_scheme \<Rightarrow> bool" where
  "IsService u \<longleftrightarrow> us_Mode u = UserModeService"

definition ServiceUsername :: "string \<Rightarrow> string \<Rightarrow> string" where
  "ServiceUsername orgName name = orgName @ [ServiceNameSeparator] @ name"

text \<open>\<open>strings.Cut\<close> at one byte: the parts before and after its first occurrence.\<close>

fun cut_at :: "char \<Rightarrow> string \<Rightarrow> (string \<times> string) option" where
  "cut_at c [] = None"
| "cut_at c (x # xs) =
     (if x = c then Some ([], xs)
      else case cut_at c xs of None \<Rightarrow> None | Some (a, b) \<Rightarrow> Some (x # a, b))"

definition ParseServiceUsername :: "string \<Rightarrow> (string \<times> string) option" where
  "ParseServiceUsername username =
     (case cut_at ServiceNameSeparator username of
        None \<Rightarrow> None
      | Some (org, name) \<Rightarrow>
          if org = '''' \<or> name = '''' then None
          else if ServiceNameSeparator \<in> set name then None
          else Some (org, name))"

definition ValidateServiceName :: "string \<Rightarrow> dberror + string" where
  "ValidateServiceName name =
     (case ValidateHandle name of
        Some e \<Rightarrow> Inl (ErrText (''service name '' @ [CHR 0x22] @ name @ [CHR 0x22] @ '': '' @ e))
      | None \<Rightarrow> Inr name)"

definition username_taken :: "database \<Rightarrow> string \<Rightarrow> bool" where
  "username_taken D n \<longleftrightarrow> n \<in> us_Username ` set (users D)"

definition InsertUser ::
  "string option \<Rightarrow> uuid \<Rightarrow> instant \<Rightarrow> string \<Rightarrow> string \<Rightarrow> string \<Rightarrow> database \<Rightarrow> (dberror + user) \<times> database"
where
  "InsertUser flt newID now username email mode D =
     (if mode \<noteq> UserModeGithub \<and> mode \<noteq> UserModeInternal then (Inl ErrInvalidUserMode, D)
      else let u = \<lparr>us_ID = newID, us_Username = username, us_Email = email, us_Mode = mode,
                    us_GitHubID = None, us_AvatarURL = '''', us_CreatedAt = now,
                    us_ServiceAccountID = None\<rparr>
           in case flt of Some t \<Rightarrow> (Inl (ErrText t), D)
              | None \<Rightarrow>
                  if has_user D newID \<or> username_taken D username then (Inl unique_violation, D)
                  else (Inr u, D\<lparr>users := users D @ [user.extend u \<lparr>us_LastSelectedAccount = None\<rparr>]\<rparr>))"

text \<open>The readers select the columns they name; the rest of the struct keeps its zero value.\<close>

definition GetUser :: "string option \<Rightarrow> uuid \<Rightarrow> database \<Rightarrow> dberror + user" where
  "GetUser flt i D =
     query_row flt (map_option (\<lambda>r. (user.truncate r)\<lparr>us_ServiceAccountID := None\<rparr>)
       (find (\<lambda>r. us_ID r = i) (users D)))"

definition GetUserByUsername :: "string option \<Rightarrow> string \<Rightarrow> database \<Rightarrow> dberror + user" where
  "GetUserByUsername flt username D =
     query_row flt (map_option
       (\<lambda>r. (user.truncate r)\<lparr>us_ServiceAccountID := None, us_GitHubID := None, us_AvatarURL := ''''\<rparr>)
       (find (\<lambda>r. us_Username r = username) (users D)))"

definition GetLastSelectedAccount :: "string option \<Rightarrow> uuid \<Rightarrow> database \<Rightarrow> dberror + uuid option" where
  "GetLastSelectedAccount flt userID D =
     no_rows_not_found (query_row flt
       (map_option us_LastSelectedAccount (find (\<lambda>r. us_ID r = userID) (users D))))"

definition SetLastSelectedAccount ::
  "string option \<Rightarrow> uuid \<Rightarrow> uuid \<Rightarrow> database \<Rightarrow> dberror option \<times> database"
where
  "SetLastSelectedAccount flt userID accountID D =
     (case flt of Some t \<Rightarrow> (Some (ErrText t), D)
      | None \<Rightarrow>
          if has_user D userID \<and> \<not> has_account D accountID then (Some foreign_key_violation, D)
          else (None, D\<lparr>users := map (\<lambda>r. if us_ID r = userID
                                  then r\<lparr>us_LastSelectedAccount := Some accountID\<rparr> else r) (users D)\<rparr>))"

definition DisplayName :: "'a user_scheme \<Rightarrow> string" where
  "DisplayName u =
     (case ParseServiceUsername (us_Username u) of
        Some (org, name) \<Rightarrow> if IsService u then name else us_Username u
      | None \<Rightarrow> us_Username u)"

definition UsernamesByIDs :: "string option \<Rightarrow> uuid list \<Rightarrow> database \<Rightarrow> dberror + (uuid \<rightharpoonup> string)" where
  "UsernamesByIDs flt ids D =
     (if ids = [] then Inr Map.empty
      else query flt (foldl (\<lambda>out r. out(us_ID r \<mapsto> DisplayName r)) Map.empty
                        (filter (\<lambda>r. us_ID r \<in> set ids) (users D))))"

text \<open>Three statements: the lookup, then the refresh of an existing row or the insert.\<close>

definition UpsertUserByGitHubID ::
  "string option \<Rightarrow> string option \<Rightarrow> uuid \<Rightarrow> instant \<Rightarrow> int \<Rightarrow> string \<Rightarrow> string \<Rightarrow> string \<Rightarrow> database
   \<Rightarrow> (dberror + user \<times> bool) \<times> database"
where
  "UpsertUserByGitHubID flt1 flt2 newID now githubID username email avatarURL D =
     (case query_row flt1 (find (\<lambda>r. us_GitHubID r = Some githubID) (users D)) of
        Inr r \<Rightarrow>
          (case flt2 of Some t \<Rightarrow> (Inl (ErrText t), D)
           | None \<Rightarrow>
               (Inr ((user.truncate r)\<lparr>us_ServiceAccountID := None, us_Email := email, us_AvatarURL := avatarURL\<rparr>, False),
                D\<lparr>users := map (\<lambda>q. if us_ID q = us_ID r
                     then q\<lparr>us_Email := email, us_AvatarURL := avatarURL\<rparr> else q) (users D)\<rparr>))
      | Inl e \<Rightarrow>
          if e \<noteq> ErrNoRows then (Inl e, D)
          else let u = \<lparr>us_ID = newID, us_Username = username, us_Email = email, us_Mode = UserModeGithub,
                        us_GitHubID = Some githubID, us_AvatarURL = avatarURL, us_CreatedAt = now,
                        us_ServiceAccountID = None\<rparr>
               in case flt2 of Some t \<Rightarrow> (Inl (ErrText t), D)
                  | None \<Rightarrow>
                      if has_user D newID \<or> username_taken D username then (Inl unique_violation, D)
                      else (Inr (u, True),
                            D\<lparr>users := users D @ [user.extend u \<lparr>us_LastSelectedAccount = None\<rparr>]\<rparr>))"

section \<open>accounts.go and members.go\<close>

definition IsMemberOrOwner :: "string option \<Rightarrow> uuid \<Rightarrow> uuid \<Rightarrow> database \<Rightarrow> bool" where
  "IsMemberOrOwner flt accountID userID D \<longleftrightarrow>
     flt = None \<and>
     (list_ex (\<lambda>a. acct_ID a = accountID \<and> acct_OwnerUserID a = userID) (accounts D) \<or>
      list_ex (\<lambda>m. mb_AccountID m = accountID \<and> mb_UserID m = userID) (members D))"

definition SetNATSAccount ::
  "string option \<Rightarrow> uuid \<Rightarrow> string \<Rightarrow> string \<Rightarrow> string \<Rightarrow> database \<Rightarrow> dberror option \<times> database"
where
  "SetNATSAccount flt accountID accountPub accountJWT signingSeed D =
     (case flt of Some t \<Rightarrow> (Some (ErrText t), D)
      | None \<Rightarrow> (None, D\<lparr>accounts := map (\<lambda>a. if acct_ID a = accountID
            then a\<lparr>acct_NATSAccountPub := accountPub, acct_NATSAccountJWT := accountJWT,
                   acct_NATSAccountSigningSeed := signingSeed\<rparr> else a) (accounts D)\<rparr>))"

definition InsertAccount ::
  "string option \<Rightarrow> string option \<Rightarrow> uuid \<Rightarrow> instant \<Rightarrow> string \<Rightarrow> uuid \<Rightarrow> database
   \<Rightarrow> (dberror + account) \<times> database"
where
  "InsertAccount flt1 flt2 newID now name ownerUserID D =
     (case (if ownerUserID = uuid_nil
            then query_row flt1 (map_option us_ID (find (\<lambda>u. us_Username u = ''unauthenticated'') (users D)))
            else Inr ownerUserID) of
        Inl e \<Rightarrow> (Inl (ErrText (''no owner_user_id and no unauthenticated user to fall back on: '' @ dberr_text e)), D)
      | Inr owner \<Rightarrow>
          let a = \<lparr>acct_ID = newID, acct_Name = name, acct_OwnerUserID = owner, acct_CreatedAt = now,
                   acct_NATSAccountPub = '''', acct_NATSAccountJWT = '''', acct_NATSAccountSigningSeed = ''''\<rparr>
          in case flt2 of Some t \<Rightarrow> (Inl (ErrText t), D)
             | None \<Rightarrow>
                 if has_account D newID \<or> name \<in> acct_Name ` set (accounts D) then (Inl unique_violation, D)
                 else if \<not> has_user D owner then (Inl foreign_key_violation, D)
                 else (Inr a, D\<lparr>accounts := accounts D @
                         [account.extend a \<lparr>acct_acl_generation = 0, acct_acl_enforced = False\<rparr>]\<rparr>))"

definition belongs_to :: "database \<Rightarrow> uuid \<Rightarrow> 'a account_scheme \<Rightarrow> bool" where
  "belongs_to D userID a \<longleftrightarrow>
     acct_OwnerUserID a = userID \<or>
     list_ex (\<lambda>m. mb_AccountID m = acct_ID a \<and> mb_UserID m = userID) (members D)"

definition ListAccounts :: "string option \<Rightarrow> database \<Rightarrow> dberror + account list" where
  "ListAccounts flt D = query flt (map account.truncate (sort_key acct_Name (accounts D)))"

definition ListAccountsForUser :: "string option \<Rightarrow> uuid \<Rightarrow> database \<Rightarrow> dberror + account list" where
  "ListAccountsForUser flt userID D =
     query flt (map account.truncate (sort_key acct_Name (filter (belongs_to D userID) (accounts D))))"

definition GetAccount :: "string option \<Rightarrow> uuid \<Rightarrow> database \<Rightarrow> dberror + account" where
  "GetAccount flt i D =
     query_row flt (map_option account.truncate (find (\<lambda>a. acct_ID a = i) (accounts D)))"

definition GetAccountByName :: "string option \<Rightarrow> string \<Rightarrow> database \<Rightarrow> dberror + account" where
  "GetAccountByName flt name D =
     query_row flt (map_option account.truncate (find (\<lambda>a. acct_Name a = name) (accounts D)))"

text \<open>\<open>ORDER BY (owner) DESC, created_at ASC LIMIT 1\<close>: owned accounts first, oldest first.\<close>

definition DefaultAccountFor :: "string option \<Rightarrow> uuid \<Rightarrow> database \<Rightarrow> dberror + account" where
  "DefaultAccountFor flt userID D =
     (case query_row flt
             (case sort_key (\<lambda>a. (acct_OwnerUserID a \<noteq> userID, acct_CreatedAt a))
                     (filter (belongs_to D userID) (accounts D)) of
                [] \<Rightarrow> None | a # _ \<Rightarrow> Some (account.truncate a)) of
        Inl e \<Rightarrow> Inl ErrNotFound
      | Inr a \<Rightarrow> Inr a)"

definition is_member :: "database \<Rightarrow> uuid \<Rightarrow> uuid \<Rightarrow> bool" where
  "is_member D accountID userID \<longleftrightarrow>
     list_ex (\<lambda>m. mb_AccountID m = accountID \<and> mb_UserID m = userID) (members D)"

text \<open>The insert both \<open>AddMember\<close> and \<open>AcceptInvite\<close> issue: \<open>ON CONFLICT DO NOTHING\<close>.\<close>

definition insert_member :: "instant \<Rightarrow> uuid \<Rightarrow> uuid \<Rightarrow> database \<Rightarrow> dberror option \<times> database" where
  "insert_member now accountID userID D =
     (if is_member D accountID userID then (None, D)
      else if \<not> has_account D accountID \<or> \<not> has_user D userID then (Some foreign_key_violation, D)
      else (None, D\<lparr>members := members D @
              [\<lparr>mb_AccountID = accountID, mb_UserID = userID, mb_AddedAt = now, mb_Role = ''member''\<rparr>]\<rparr>))"

definition AddMember ::
  "string option \<Rightarrow> instant \<Rightarrow> uuid \<Rightarrow> uuid \<Rightarrow> database \<Rightarrow> dberror option \<times> database"
where
  "AddMember flt now accountID userID D =
     (case flt of Some t \<Rightarrow> (Some (ErrText t), D) | None \<Rightarrow> insert_member now accountID userID D)"

definition RemoveMember ::
  "string option \<Rightarrow> string option \<Rightarrow> uuid \<Rightarrow> uuid \<Rightarrow> database \<Rightarrow> dberror option \<times> database"
where
  "RemoveMember flt1 flt2 accountID userID D =
     (case query_row flt1 (map_option acct_OwnerUserID (find (\<lambda>a. acct_ID a = accountID) (accounts D))) of
        Inl e \<Rightarrow> (Some ErrNotFound, D)
      | Inr ownerID \<Rightarrow>
          if ownerID = userID then (Some ErrCannotRemoveOwner, D)
          else case flt2 of Some t \<Rightarrow> (Some (ErrText t), D)
            | None \<Rightarrow>
                if \<not> is_member D accountID userID then (Some ErrNotFound, D)
                else (None, D\<lparr>members := filter (\<lambda>m. \<not> (mb_AccountID m = accountID \<and> mb_UserID m = userID))
                                          (members D)\<rparr>))"

text \<open>The join with \<open>users\<close> drops a member row whose user is missing.\<close>

definition ListMembers :: "string option \<Rightarrow> uuid \<Rightarrow> database \<Rightarrow> dberror + user list" where
  "ListMembers flt accountID D =
     query flt (concat (map (\<lambda>m. map (\<lambda>u. (user.truncate u)\<lparr>us_ServiceAccountID := None,
                                         us_GitHubID := None, us_AvatarURL := ''''\<rparr>)
                                     (filter (\<lambda>u. us_ID u = mb_UserID m) (users D)))
                       (sort_key mb_AddedAt (filter (\<lambda>m. mb_AccountID m = accountID) (members D)))))"

section \<open>service_accounts.go\<close>

definition InsertServiceAccount ::
  "string option \<Rightarrow> string option \<Rightarrow> uuid \<Rightarrow> instant \<Rightarrow> instant \<Rightarrow> uuid \<Rightarrow> string \<Rightarrow> string \<Rightarrow> database
   \<Rightarrow> (dberror + user) \<times> database"
where
  "InsertServiceAccount flt1 flt2 newID now now' accountID orgName name D =
     (case ValidateServiceName name of
        Inl e \<Rightarrow> (Inl e, D)
      | Inr _ \<Rightarrow>
          let u = \<lparr>us_ID = newID, us_Username = ServiceUsername orgName name,
                   us_Email = ServiceUsername orgName name @ ''@service.local'', us_Mode = UserModeService,
                   us_GitHubID = None, us_AvatarURL = '''', us_CreatedAt = now,
                   us_ServiceAccountID = Some accountID\<rparr>
          in case flt1 of Some t \<Rightarrow> (Inl (ErrText t), D)
             | None \<Rightarrow>
                 if has_user D newID \<or> username_taken D (us_Username u) then (Inl ErrServiceExists, D)
                 else if \<not> has_account D accountID then (Inl foreign_key_violation, D)
                 else let D1 = D\<lparr>users := users D @ [user.extend u \<lparr>us_LastSelectedAccount = None\<rparr>]\<rparr>
                      in case AddMember flt2 now' accountID newID D1 of
                           (Some e, D2) \<Rightarrow> (Inl (ErrText (''add service account to org: '' @ dberr_text e)), D2)
                         | (None, D2) \<Rightarrow> (Inr u, D2))"

definition is_service_of :: "uuid \<Rightarrow> 'a user_scheme \<Rightarrow> bool" where
  "is_service_of accountID r \<longleftrightarrow> us_ServiceAccountID r = Some accountID \<and> us_Mode r = UserModeService"

definition ListServiceAccounts :: "string option \<Rightarrow> uuid \<Rightarrow> database \<Rightarrow> dberror + user list" where
  "ListServiceAccounts flt accountID D =
     query flt (map (\<lambda>r. (user.truncate r)\<lparr>us_GitHubID := None, us_AvatarURL := ''''\<rparr>)
       (sort_key us_Username (filter (is_service_of accountID) (users D))))"

definition GetServiceAccount :: "string option \<Rightarrow> uuid \<Rightarrow> string \<Rightarrow> string \<Rightarrow> database \<Rightarrow> dberror + user" where
  "GetServiceAccount flt accountID orgName name D =
     no_rows_not_found (query_row flt
       (map_option (\<lambda>r. (user.truncate r)\<lparr>us_GitHubID := None, us_AvatarURL := ''''\<rparr>)
         (find (\<lambda>r. is_service_of accountID r \<and> us_Username r = ServiceUsername orgName name) (users D))))"

text \<open>
  Deleting a user cascades to its memberships and to the grants that name it; it is refused while
  a column without a cascade still references it.
\<close>

definition delete_user :: "uuid \<Rightarrow> database \<Rightarrow> database" where
  "delete_user u D =
     D\<lparr>users := filter (\<lambda>r. us_ID r \<noteq> u) (users D),
       members := filter (\<lambda>m. mb_UserID m \<noteq> u) (members D),
       grants := filter (\<lambda>g. ag_PrincipalID g \<noteq> u) (grants D)\<rparr>"

definition DeleteServiceAccount ::
  "string option \<Rightarrow> uuid \<Rightarrow> string \<Rightarrow> string \<Rightarrow> database \<Rightarrow> dberror option \<times> database"
where
  "DeleteServiceAccount flt accountID orgName name D =
     (case flt of Some t \<Rightarrow> (Some (ErrText t), D)
      | None \<Rightarrow>
          (case find (\<lambda>r. is_service_of accountID r \<and> us_Username r = ServiceUsername orgName name) (users D) of
             None \<Rightarrow> (Some ErrNotFound, D)
           | Some r \<Rightarrow>
               if user_referenced (delete_user (us_ID r) D) (us_ID r) then (Some foreign_key_violation, D)
               else (None, delete_user (us_ID r) D)))"

definition SetMemberRole ::
  "string option \<Rightarrow> uuid \<Rightarrow> uuid \<Rightarrow> string \<Rightarrow> database \<Rightarrow> dberror option \<times> database"
where
  "SetMemberRole flt accountID userID role D =
     (if role \<noteq> ''admin'' \<and> role \<noteq> ''member''
      then (Some (ErrText (''role must be '' @ [CHR 0x27] @ ''admin'' @ [CHR 0x27] @ '' or '' @ [CHR 0x27] @ ''member''
              @ [CHR 0x27] @ '', got '' @ [CHR 0x22] @ role @ [CHR 0x22])), D)
      else case flt of Some t \<Rightarrow> (Some (ErrText t), D)
        | None \<Rightarrow>
            if \<not> is_member D accountID userID then (Some ErrNotFound, D)
            else (None, D\<lparr>members := map (\<lambda>m. if mb_AccountID m = accountID \<and> mb_UserID m = userID
                                     then m\<lparr>mb_Role := role\<rparr> else m) (members D)\<rparr>))"

section \<open>apikeys.go\<close>

text \<open>The columns \<open>created_by_user_id\<close> and \<open>principal_user_id\<close>: who a key acts as.\<close>

definition Actor :: "api_key \<Rightarrow> uuid" where
  "Actor k = (if ak_PrincipalUserID k \<noteq> uuid_nil then ak_PrincipalUserID k else ak_CreatedByUserID k)"

definition Revoked :: "api_key \<Rightarrow> bool" where
  "Revoked k \<longleftrightarrow> ak_RevokedAt k \<noteq> None"

definition hex_digit :: "nat \<Rightarrow> char" where
  "hex_digit n = (if n < 10 then char_of (48 + n) else char_of (87 + n))"

definition EncodeToString :: "8 word list \<Rightarrow> string" where
  "EncodeToString bs = concat (map (\<lambda>b. [hex_digit (unat b div 16), hex_digit (unat b mod 16)]) bs)"

text \<open>The sixteen random bytes of \<open>rand.Read\<close>, or its error, are the argument.\<close>

definition GeneratePlaintextKey :: "string + 8 word list \<Rightarrow> dberror + string" where
  "GeneratePlaintextKey rnd =
     (case rnd of Inl e \<Rightarrow> Inl (ErrText e) | Inr raw \<Rightarrow> Inr (''ppz_'' @ EncodeToString (take 13 raw)))"

definition trim_prefix :: "string \<Rightarrow> string \<Rightarrow> string" where
  "trim_prefix s p = (if has_prefix s p then drop (length p) s else s)"

definition KeyPrefix :: "string \<Rightarrow> string" where
  "KeyPrefix plaintext =
     (let s = trim_prefix plaintext ''ppz_'' in if length s < 8 then s else take 8 s)"

text \<open>
  The argon2, base64 and scanning routines are not in the repository: \<open>idkey plaintext salt time
  memory threads len\<close>, \<open>dec64\<close> and \<open>scan\<close> (the parse of the parameter segment) are arguments.
\<close>

definition VerifyAPIKey ::
  "(string \<Rightarrow> string \<Rightarrow> nat \<Rightarrow> nat \<Rightarrow> nat \<Rightarrow> nat \<Rightarrow> string) \<Rightarrow> (string \<Rightarrow> string option) \<Rightarrow>
   (string \<Rightarrow> (nat \<times> nat \<times> nat) option) \<Rightarrow> string \<Rightarrow> string \<Rightarrow> bool"
where
  "VerifyAPIKey idkey dec64 scan plaintext stored =
     (let parts = split_on (CHR ''$'') stored
      in if length parts \<noteq> 6 \<or> parts ! 1 \<noteq> ''argon2id'' then False
         else case scan (parts ! 3) of None \<Rightarrow> False
           | Some (memory, time, threads) \<Rightarrow>
               (case dec64 (parts ! 4) of None \<Rightarrow> False
                | Some salt \<Rightarrow>
                    (case dec64 (parts ! 5) of None \<Rightarrow> False
                     | Some want \<Rightarrow> want = idkey plaintext salt time memory threads (length want))))"

text \<open>\<open>hash\<close> is the salted argon2 hash of the plaintext, or the error of making it.\<close>

definition InsertAPIKeyAs ::
  "string option \<Rightarrow> string + 8 word list \<Rightarrow> (string \<Rightarrow> dberror + string) \<Rightarrow> uuid \<Rightarrow> instant
   \<Rightarrow> uuid \<Rightarrow> uuid \<Rightarrow> uuid \<Rightarrow> string \<Rightarrow> database \<Rightarrow> (dberror + api_key \<times> string) \<times> database"
where
  "InsertAPIKeyAs flt rnd hash newID now accountID createdBy prin label D =
     (case GeneratePlaintextKey rnd of Inl e \<Rightarrow> (Inl e, D)
      | Inr plaintext \<Rightarrow>
          (case hash plaintext of Inl e \<Rightarrow> (Inl e, D)
           | Inr h \<Rightarrow>
               let key = \<lparr>ak_ID = newID, ak_AccountID = accountID, ak_CreatedByUserID = createdBy,
                          ak_PrincipalUserID = prin, ak_KeyHash = h, ak_KeyPrefix = KeyPrefix plaintext,
                          ak_Label = label, ak_CreatedAt = now, ak_RevokedAt = None\<rparr>
               in case flt of Some t \<Rightarrow> (Inl (ErrText t), D)
                  | None \<Rightarrow>
                      if newID \<in> ak_ID ` set (api_keys D) then (Inl unique_violation, D)
                      else if \<not> has_account D accountID \<or> \<not> has_user D createdBy \<or> \<not> has_user D prin
                        then (Inl foreign_key_violation, D)
                      else (Inr (key, plaintext), D\<lparr>api_keys := api_keys D @ [key]\<rparr>)))"

definition InsertAPIKey ::
  "string option \<Rightarrow> string + 8 word list \<Rightarrow> (string \<Rightarrow> dberror + string) \<Rightarrow> uuid \<Rightarrow> instant
   \<Rightarrow> uuid \<Rightarrow> uuid \<Rightarrow> string \<Rightarrow> database \<Rightarrow> (dberror + api_key \<times> string) \<times> database"
where
  "InsertAPIKey flt rnd hash newID now accountID createdBy label D =
     InsertAPIKeyAs flt rnd hash newID now accountID createdBy createdBy label D"

definition LookupAPIKey ::
  "string option \<Rightarrow> (string \<Rightarrow> string \<Rightarrow> bool) \<Rightarrow> string \<Rightarrow> database \<Rightarrow> dberror + api_key"
where
  "LookupAPIKey flt verify plaintext D =
     (case query flt (filter (\<lambda>k. ak_KeyPrefix k = KeyPrefix plaintext \<and> ak_RevokedAt k = None) (api_keys D)) of
        Inl e \<Rightarrow> Inl e
      | Inr rows \<Rightarrow>
          (case find (\<lambda>k. verify plaintext (ak_KeyHash k)) rows of
             Some k \<Rightarrow> Inr k | None \<Rightarrow> Inl ErrNotFound))"

definition ListAPIKeysForOrg :: "string option \<Rightarrow> uuid \<Rightarrow> database \<Rightarrow> dberror + api_key list" where
  "ListAPIKeysForOrg flt accountID D =
     query flt (sort_key (\<lambda>k. (ak_RevokedAt k \<noteq> None, ak_CreatedAt k))
       (filter (\<lambda>k. ak_AccountID k = accountID) (api_keys D)))"

definition APIKeyCreator :: "string option \<Rightarrow> uuid \<Rightarrow> uuid \<Rightarrow> database \<Rightarrow> dberror + uuid" where
  "APIKeyCreator flt accountID i D =
     no_rows_not_found (query_row flt (map_option ak_CreatedByUserID
       (find (\<lambda>k. ak_ID k = i \<and> ak_AccountID k = accountID) (api_keys D))))"

definition RevokeAPIKey ::
  "string option \<Rightarrow> string option \<Rightarrow> instant \<Rightarrow> uuid \<Rightarrow> uuid \<Rightarrow> database \<Rightarrow> dberror option \<times> database"
where
  "RevokeAPIKey flt1 flt2 now accountID i D =
     (let hit = (\<lambda>k. ak_ID k = i \<and> ak_AccountID k = accountID \<and> ak_RevokedAt k = None)
      in case flt1 of Some t \<Rightarrow> (Some (ErrText t), D)
         | None \<Rightarrow>
             let D' = D\<lparr>api_keys := map (\<lambda>k. if hit k then k\<lparr>ak_RevokedAt := Some now\<rparr> else k) (api_keys D)\<rparr>
             in if list_ex hit (api_keys D) then (None, D')
                else case flt2 of Some t \<Rightarrow> (Some (ErrText t), D')
                  | None \<Rightarrow>
                      (if list_ex (\<lambda>k. ak_ID k = i \<and> ak_AccountID k = accountID) (api_keys D)
                       then None else Some ErrNotFound, D'))"

section \<open>role.go\<close>

text \<open>\<open>RoleInOrg\<close> of \<open>internal/server\<close>; its two queries take the two fault texts.\<close>

definition RoleInOrg ::
  "string option \<Rightarrow> string option \<Rightarrow> uuid \<Rightarrow> uuid \<Rightarrow> database \<Rightarrow> dberror + orgrole"
where
  "RoleInOrg flt1 flt2 userID accountID D =
     (if userID = uuid_nil \<or> accountID = uuid_nil then Inr OrgNone
      else case query_row flt1 (map_option acct_OwnerUserID (find (\<lambda>a. acct_ID a = accountID) (accounts D))) of
        Inl e \<Rightarrow> if e = ErrNoRows then Inr OrgNone else Inl e
      | Inr ownerID \<Rightarrow>
          if ownerID = userID then Inr OrgOwner
          else case query_row flt2 (map_option mb_Role
                      (find (\<lambda>m. mb_AccountID m = accountID \<and> mb_UserID m = userID) (members D))) of
            Inl e \<Rightarrow> if e = ErrNoRows then Inr OrgNone else Inl e
          | Inr role \<Rightarrow>
              if role = OrgAdmin then Inr OrgAdmin
              else if role = OrgOwner then Inr OrgAdmin
              else Inr OrgMember)"

section \<open>Properties\<close>

lemma cut_at_append: "c \<notin> set a \<Longrightarrow> cut_at c (a @ c # b) = Some (a, b)"
  by (induction a) auto

text \<open>A service account's stored, org-scoped username is shown as the bare name everywhere: for
  an org name without the separator and a name that passes the handle rules, parsing the
  stored form gives both parts back, and the bare name is displayed exactly for service users.\<close>

theorem service_name_roundtrip:
  assumes "org \<noteq> ''''" and "CHR ''/'' \<notin> set org" and "ValidateServiceName name = Inr name"
    and "us_Username u = ServiceUsername org name"
  shows "ParseServiceUsername (us_Username u) = Some (org, name) \<and>
         DisplayName u = (if IsService u then name else us_Username u)"
proof -
  have h: "HandleRegex name"
    using assms(3) ValidateHandle_None_iff by (auto simp: ValidateServiceName_def split: option.splits)
  from HandleRegex_chars [OF h] HandleRegex_nonempty [OF h]
  have "name \<noteq> ''''" and "CHR ''/'' \<notin> set name"
    by (auto simp: name_char_hyphen_def name_char_def)
  then show ?thesis
    using assms(1,2,4) cut_at_append [of "CHR ''/''" org name]
    by (simp add: ParseServiceUsername_def ServiceUsername_def ServiceNameSeparator_def DisplayName_def)
qed

definition ex_principals :: database where
  "ex_principals =
     \<lparr>users = [\<lparr>us_ID = ''u1'', us_Username = ''ada'', us_Email = '''', us_Mode = UserModeGithub,
                us_GitHubID = Some 1, us_AvatarURL = '''', us_CreatedAt = 1, us_ServiceAccountID = None,
                us_LastSelectedAccount = None\<rparr>,
              \<lparr>us_ID = ''s1'', us_Username = ''acme/bot'', us_Email = '''', us_Mode = UserModeService,
                us_GitHubID = None, us_AvatarURL = '''', us_CreatedAt = 2, us_ServiceAccountID = Some ''a1'',
                us_LastSelectedAccount = None\<rparr>],
      accounts = [\<lparr>acct_ID = ''a1'', acct_Name = ''acme'', acct_OwnerUserID = ''u1'', acct_CreatedAt = 1,
                   acct_NATSAccountPub = '''', acct_NATSAccountJWT = '''', acct_NATSAccountSigningSeed = '''',
                   acct_acl_generation = 0, acct_acl_enforced = False\<rparr>],
      members = [\<lparr>mb_AccountID = ''a1'', mb_UserID = ''s1'', mb_AddedAt = 2, mb_Role = ''member''\<rparr>],
      sources = [], pipes = [], grants = [],
      api_keys = [\<lparr>ak_ID = ''k1'', ak_AccountID = ''a1'', ak_CreatedByUserID = ''u1'', ak_PrincipalUserID = ''s1'',
                   ak_KeyHash = ''h1'', ak_KeyPrefix = ''00000000'', ak_Label = ''bot'', ak_CreatedAt = 3,
                   ak_RevokedAt = None\<rparr>],
      invites = [], schedules = [], audit_events = []\<rparr>"

theorem service_name_roundtrip_witness:
  "DisplayName (users ex_principals ! 1) = ''bot''"
  using service_name_roundtrip [of "''acme''" "''bot''" "users ex_principals ! 1"]
  by (simp add: ex_principals_def ValidateServiceName_def ServiceUsername_def ServiceNameSeparator_def
      ValidateHandle_def name_char_def name_char_hyphen_def Reserved_def IsService_def)

text \<open>A service account that still has an API key cannot be deleted. The reference from
  \<open>api_keys.principal_user_id\<close> has no cascade, so the delete fails, nothing changes and the key
  keeps authenticating, although the function promises that the keys go with the account.\<close>

theorem service_with_key_undeletable:
  assumes "find (\<lambda>r. is_service_of accountID r \<and> us_Username r = ServiceUsername orgName name) (users D) = Some r"
    and "k \<in> set (api_keys D)" and "ak_PrincipalUserID k = us_ID r"
  shows "DeleteServiceAccount None accountID orgName name D = (Some foreign_key_violation, D)"
proof -
  have "us_ID r \<in> ak_PrincipalUserID ` set (api_keys (delete_user (us_ID r) D))"
    using assms(2,3) by (metis (no_types, lifting) delete_user_def image_eqI database.ext_inject
        database.surjective database.update_convs(1,3,6))
  with assms(1) show ?thesis by (simp add: DeleteServiceAccount_def user_referenced_def)
qed

theorem service_with_key_undeletable_witness:
  "DeleteServiceAccount None ''a1'' ''acme'' ''bot'' ex_principals = (Some foreign_key_violation, ex_principals)"
  by (rule service_with_key_undeletable [where r = "users ex_principals ! 1" and k = "api_keys ex_principals ! 0"])
    (simp_all add: ex_principals_def is_service_of_def ServiceUsername_def ServiceNameSeparator_def
      UserModeGithub_def UserModeService_def)

text \<open>The life of an API key: the plaintext handed out at minting authenticates as the minted
  key and as no other, and stops authenticating the moment the key is revoked. The hash routine
  enters by the two facts the code relies on: a hash verifies its own plaintext, and no stored
  hash of another key verifies it.\<close>

theorem api_key_lifecycle:
  assumes mint: "InsertAPIKeyAs None rnd hash newID now accountID createdBy prin label D = (Inr (key, plaintext), D1)"
    and own: "\<And>h. hash plaintext = Inr h \<Longrightarrow> verify plaintext h"
    and other: "\<forall>k \<in> set (api_keys D). \<not> verify plaintext (ak_KeyHash k)"
  shows "LookupAPIKey None verify plaintext D1 = Inr key \<and> Actor key \<in> {prin, createdBy} \<and>
         (\<exists>D2. RevokeAPIKey None flt later accountID (ak_ID key) D1 = (None, D2) \<and>
               LookupAPIKey None verify plaintext D2 = Inl ErrNotFound)"
proof -
  obtain h where key: "key = \<lparr>ak_ID = newID, ak_AccountID = accountID, ak_CreatedByUserID = createdBy,
        ak_PrincipalUserID = prin, ak_KeyHash = h, ak_KeyPrefix = KeyPrefix plaintext,
        ak_Label = label, ak_CreatedAt = now, ak_RevokedAt = None\<rparr>"
      and h: "hash plaintext = Inr h" and D1: "api_keys D1 = api_keys D @ [key]"
      and fresh: "newID \<notin> ak_ID ` set (api_keys D)"
    using mint by (auto simp: InsertAPIKeyAs_def Let_def split: sum.splits if_splits)
  have find_old: "find (\<lambda>k. verify plaintext (ak_KeyHash k)) (filter P (api_keys D)) = None" for P
    using other by (auto simp: find_None_all)
  have same: "map (\<lambda>k. if ak_ID k = newID \<and> ak_AccountID k = accountID \<and> ak_RevokedAt k = None
        then k\<lparr>ak_RevokedAt := Some later\<rparr> else k) (api_keys D) = api_keys D"
    using fresh by (auto intro!: map_idI)
  show ?thesis
    using own [OF h] find_old
    by (simp add: LookupAPIKey_def RevokeAPIKey_def Let_def D1 key find_append same Actor_def)
qed

theorem api_key_lifecycle_witness:
  "\<exists>key plaintext D1.
     InsertAPIKeyAs None (Inr (replicate 16 (7 :: 8 word))) (\<lambda>p. Inr (rev p)) ''k2'' 9 ''a1'' ''u1'' ''s1'' ''bot'' ex_principals
       = (Inr (key, plaintext), D1) \<and>
     LookupAPIKey None (\<lambda>p h. rev h = p) plaintext D1 = Inr key"
proof -
  let ?r = "InsertAPIKeyAs None (Inr (replicate 16 (7 :: 8 word))) (\<lambda>p. Inr (rev p)) ''k2'' 9 ''a1'' ''u1'' ''s1'' ''bot'' ex_principals"
  obtain key plaintext D1 where r: "?r = (Inr (key, plaintext), D1)" and p: "''1h'' \<noteq> plaintext"
    by (simp add: InsertAPIKeyAs_def GeneratePlaintextKey_def ex_principals_def has_account_def has_user_def Let_def)
  have "\<forall>k \<in> set (api_keys ex_principals). \<not> rev (ak_KeyHash k) = plaintext"
    using p by (auto simp: ex_principals_def)
  with api_key_lifecycle [OF r, of "\<lambda>p h. rev h = p"]
  show ?thesis using r by auto
qed

lemma role_names [simp]:
  "OrgOwner \<noteq> OrgNone" "OrgAdmin \<noteq> OrgNone" "OrgMember \<noteq> OrgNone" "OrgNone \<noteq> OrgOwner" "OrgNone \<noteq> OrgAdmin"
  "OrgOwner \<noteq> OrgAdmin" "OrgAdmin \<noteq> OrgOwner" "OrgMember \<noteq> OrgOwner" "OrgMember \<noteq> OrgAdmin"
  by (simp_all add: OrgOwner_def OrgAdmin_def OrgNone_def OrgMember_def)

lemma RoleInOrg_closed:
  assumes "userID \<noteq> uuid_nil" and "accountID \<noteq> uuid_nil"
    and "distinct (map acct_ID (accounts D))" and "a \<in> set (accounts D)" and "acct_ID a = accountID"
  shows "RoleInOrg None None userID accountID D =
    Inr (if acct_OwnerUserID a = userID then OrgOwner
         else case find (\<lambda>m. mb_AccountID m = accountID \<and> mb_UserID m = userID) (members D) of
                None \<Rightarrow> OrgNone
              | Some m \<Rightarrow> if mb_Role m = OrgAdmin \<or> mb_Role m = OrgOwner then OrgAdmin else OrgMember)"
  using find_distinct_key [OF assms(3,4)] assms(1,2,5)
  by (auto simp: RoleInOrg_def split: option.split)

lemma IsMemberOrOwner_closed:
  assumes "distinct (map acct_ID (accounts D))" and "a \<in> set (accounts D)" and "acct_ID a = accountID"
  shows "IsMemberOrOwner None accountID userID D \<longleftrightarrow>
    acct_OwnerUserID a = userID \<or> is_member D accountID userID"
  using assms by (auto simp: IsMemberOrOwner_def is_member_def list_ex_iff distinct_map inj_on_def)

text \<open>The role an account gives a user: \<open>owner\<close> exactly for the account's owner column,
  \<open>admin\<close> for a membership row marked admin or, stale, owner, \<open>member\<close> for any other membership
  row and none otherwise, so a role is held exactly by the users \<open>IsMemberOrOwner\<close> accepts.\<close>

theorem RoleInOrg_rule:
  assumes "userID \<noteq> uuid_nil" and "accountID \<noteq> uuid_nil"
    and "distinct (map acct_ID (accounts D))" and "a \<in> set (accounts D)" and "acct_ID a = accountID"
    and "\<forall>m \<in> set (members D). \<forall>m' \<in> set (members D).
           mb_AccountID m = mb_AccountID m' \<and> mb_UserID m = mb_UserID m' \<longrightarrow> m = m'"
  shows "\<exists>role. RoleInOrg None None userID accountID D = Inr role \<and>
    (role = OrgOwner \<longleftrightarrow> acct_OwnerUserID a = userID) \<and>
    (role = OrgAdmin \<longleftrightarrow> acct_OwnerUserID a \<noteq> userID \<and>
       (\<exists>m \<in> set (members D). mb_AccountID m = accountID \<and> mb_UserID m = userID \<and> mb_Role m \<in> {OrgAdmin, OrgOwner})) \<and>
    (role \<noteq> OrgNone \<longleftrightarrow> IsMemberOrOwner None accountID userID D)"
proof (cases "find (\<lambda>m. mb_AccountID m = accountID \<and> mb_UserID m = userID) (members D)")
  case None
  then have "\<forall>m \<in> set (members D). \<not> (mb_AccountID m = accountID \<and> mb_UserID m = userID)"
    by (simp only: find_None_all)
  then have "\<not> is_member D accountID userID"
    and "\<not> (\<exists>m \<in> set (members D). mb_AccountID m = accountID \<and> mb_UserID m = userID \<and> mb_Role m \<in> {OrgAdmin, OrgOwner})"
    by (auto simp: is_member_def list_ex_iff)
  then show ?thesis
    unfolding RoleInOrg_closed [OF assms(1-5)] IsMemberOrOwner_closed [OF assms(3-5)] None
    by (simp add: role_names)
next
  case (Some m)
  note m = find_SomeD [OF Some]
  then have only: "m' = m" if "m' \<in> set (members D)" "mb_AccountID m' = accountID" "mb_UserID m' = userID" for m'
    using assms(6) that by metis
  have "(\<exists>m' \<in> set (members D). mb_AccountID m' = accountID \<and> mb_UserID m' = userID \<and> mb_Role m' \<in> {OrgAdmin, OrgOwner})
      \<longleftrightarrow> mb_Role m = OrgAdmin \<or> mb_Role m = OrgOwner"
    using m only by blast
  moreover have "is_member D accountID userID" using m by (auto simp: is_member_def list_ex_iff)
  ultimately show ?thesis
    unfolding RoleInOrg_closed [OF assms(1-5)] IsMemberOrOwner_closed [OF assms(3-5)] Some
    by simp
qed

theorem RoleInOrg_rule_witness:
  "\<exists>role. RoleInOrg None None ''s1'' ''a1'' ex_principals = Inr role \<and> role \<noteq> OrgNone \<and> role \<noteq> OrgOwner"
  using RoleInOrg_rule [of "''s1''" "''a1''" ex_principals "accounts ex_principals ! 0"]
  by (auto simp: ex_principals_def uuid_nil_def IsMemberOrOwner_def)

end
