(* ===== verification/DbPipes.thy ===== *)
theory DbPipes
  imports Tables
begin

text \<open>
  Sources and pipes: \<open>internal/db/sources.go\<close> and \<open>pipes.go\<close>. A source reserves its handle in its
  manifold; a pipe row is collared (it names a source) or uncollared. The unique indexes of
  migration \<open>0002_manifold.sql\<close> are \<open>sources_unique\<close> and \<open>pipes_unique\<close>; the lemmas show that every
  statement keeps them, together with the references between the tables.
\<close>

section \<open>sources.go\<close>

definition source_Pipes :: "source \<Rightarrow> string list" where
  "source_Pipes s =
     (if src_Kind s = SourceKindPTY
      then [''stdin'', ''stdout'', ''stdctrl'', ''system'', ''inbox'', ''heartbeat'']
      else [''inbox''])"

definition IsAutoPipe :: "source \<Rightarrow> string \<Rightarrow> bool" where
  "IsAutoPipe s name \<longleftrightarrow> list_ex (\<lambda>p. p = name) (source_Pipes s)"

definition source_key :: "source \<Rightarrow> uuid \<times> string \<times> string" where
  "source_key s = (src_AccountID s, src_Manifold s, src_Handle s)"

definition InsertSource ::
  "string option \<Rightarrow> uuid \<Rightarrow> instant \<Rightarrow> uuid \<Rightarrow> uuid \<Rightarrow> string \<Rightarrow> string \<Rightarrow> string \<Rightarrow> database
   \<Rightarrow> (dberror + source) \<times> database"
where
  "InsertSource flt newID now accountID createdBy manifold handle kind D =
     (let s = \<lparr>src_ID = newID, src_AccountID = accountID, src_CreatedByUserID = createdBy,
               src_Manifold = manifold, src_Handle = handle,
               src_Kind = (if kind = '''' then SourceKindMessage else kind), src_CreatedAt = now,
               src_LastBroadcastAt = None, src_LastBroadcastPayload = None\<rparr>
      in case flt of Some t \<Rightarrow> (Inl (ErrText t), D)
         | None \<Rightarrow>
             if has_source D newID \<or> source_key s \<in> source_key ` set (sources D) then (Inl ErrHandleTaken, D)
             else if \<not> has_account D accountID \<or> \<not> has_user D createdBy then (Inl foreign_key_violation, D)
             else (Inr s, D\<lparr>sources := sources D @ [s]\<rparr>))"

definition GetSourceByHandle :: "string option \<Rightarrow> uuid \<Rightarrow> string \<Rightarrow> database \<Rightarrow> dberror + source" where
  "GetSourceByHandle flt accountID handle D =
     no_rows_not_found (query_row flt
       (find (\<lambda>s. src_AccountID s = accountID \<and> src_Handle s = handle) (sources D)))"

definition UpdateSourceKind ::
  "string option \<Rightarrow> uuid \<Rightarrow> string \<Rightarrow> string \<Rightarrow> database \<Rightarrow> dberror option \<times> database"
where
  "UpdateSourceKind flt accountID handle kind D =
     (let hit = (\<lambda>s. src_AccountID s = accountID \<and> src_Handle s = handle)
      in case flt of Some t \<Rightarrow> (Some (ErrText t), D)
         | None \<Rightarrow>
             if \<not> list_ex hit (sources D) then (Some ErrNotFound, D)
             else (None, D\<lparr>sources := map (\<lambda>s. if hit s then s\<lparr>src_Kind := kind\<rparr> else s) (sources D)\<rparr>))"

definition ListSourcesForOrg :: "string option \<Rightarrow> uuid \<Rightarrow> database \<Rightarrow> dberror + source list" where
  "ListSourcesForOrg flt accountID D =
     query flt (sort_key (\<lambda>s. (src_Manifold s, src_Handle s))
       (filter (\<lambda>s. src_AccountID s = accountID) (sources D)))"

definition GetSourceAt :: "string option \<Rightarrow> uuid \<Rightarrow> string \<Rightarrow> string \<Rightarrow> database \<Rightarrow> dberror + source" where
  "GetSourceAt flt accountID manifold handle D =
     no_rows_not_found (query_row flt
       (find (\<lambda>s. src_AccountID s = accountID \<and> src_Manifold s = manifold \<and> src_Handle s = handle) (sources D)))"

text \<open>Deleting source rows; the pipes that reference them go with them.\<close>

definition delete_sources :: "(source \<Rightarrow> bool) \<Rightarrow> database \<Rightarrow> database" where
  "delete_sources P D =
     D\<lparr>sources := filter (\<lambda>s. \<not> P s) (sources D),
       pipes := filter (\<lambda>p. case pp_SourceID p of None \<Rightarrow> True
                            | Some i \<Rightarrow> \<not> list_ex (\<lambda>s. P s \<and> src_ID s = i) (sources D)) (pipes D)\<rparr>"

definition DeleteSourceByID :: "string option \<Rightarrow> uuid \<Rightarrow> uuid \<Rightarrow> database \<Rightarrow> dberror option \<times> database" where
  "DeleteSourceByID flt accountID i D =
     (let hit = (\<lambda>s. src_AccountID s = accountID \<and> src_ID s = i)
      in case flt of Some t \<Rightarrow> (Some (ErrText t), D)
         | None \<Rightarrow> if \<not> list_ex hit (sources D) then (Some ErrNotFound, D)
                   else (None, delete_sources hit D))"

definition DeleteSource :: "string option \<Rightarrow> uuid \<Rightarrow> string \<Rightarrow> database \<Rightarrow> dberror option \<times> database" where
  "DeleteSource flt accountID handle D =
     (let hit = (\<lambda>s. src_AccountID s = accountID \<and> src_Handle s = handle)
      in case flt of Some t \<Rightarrow> (Some (ErrText t), D)
         | None \<Rightarrow> if \<not> list_ex hit (sources D) then (Some ErrNotFound, D)
                   else (None, delete_sources hit D))"

definition UpdateLastBroadcast ::
  "string option \<Rightarrow> uuid \<Rightarrow> string \<Rightarrow> instant \<Rightarrow> string \<Rightarrow> database \<Rightarrow> dberror option \<times> database"
where
  "UpdateLastBroadcast flt accountID handle at payload D =
     (case flt of Some t \<Rightarrow> (Some (ErrText t), D)
      | None \<Rightarrow> (None, D\<lparr>sources := map (\<lambda>s. if src_AccountID s = accountID \<and> src_Handle s = handle
            then s\<lparr>src_LastBroadcastAt := Some at, src_LastBroadcastPayload := Some payload\<rparr> else s) (sources D)\<rparr>))"

section \<open>pipes.go\<close>

text \<open>The two partial unique indexes: one key for collared rows, one for uncollared rows.\<close>

definition pipe_key :: "pipe \<Rightarrow> uuid \<times> string \<times> uuid option \<times> string" where
  "pipe_key p = (pp_AccountID p, pp_Manifold p, pp_SourceID p, pp_Name p)"

definition insert_pipe_row :: "pipe \<Rightarrow> database \<Rightarrow> dberror option \<times> database" where
  "insert_pipe_row p D =
     (if pp_ID p \<in> pp_ID ` set (pipes D) \<or> pipe_key p \<in> pipe_key ` set (pipes D) then (Some unique_violation, D)
      else if \<not> has_account D (pp_AccountID p) \<or> \<not> has_user D (pp_CreatedByUserID p) \<or>
              (case pp_SourceID p of None \<Rightarrow> False | Some i \<Rightarrow> \<not> has_source D i)
        then (Some foreign_key_violation, D)
      else (None, D\<lparr>pipes := pipes D @ [p]\<rparr>))"

definition InsertPipe ::
  "string option \<Rightarrow> uuid \<Rightarrow> instant \<Rightarrow> uuid \<Rightarrow> string \<Rightarrow> uuid option \<Rightarrow> uuid \<Rightarrow> string
   \<Rightarrow> int option \<Rightarrow> int option \<Rightarrow> int option \<Rightarrow> database \<Rightarrow> (dberror + pipe) \<times> database"
where
  "InsertPipe flt newID now accountID manifold sourceID createdBy name ttl maxMsgs maxBytes D =
     (let p = \<lparr>pp_ID = newID, pp_AccountID = accountID, pp_Manifold = manifold, pp_SourceID = sourceID,
               pp_CreatedByUserID = createdBy, pp_Name = name, pp_TTLSeconds = ttl, pp_MaxMsgs = maxMsgs,
               pp_MaxBytes = maxBytes, pp_CreatedAt = now\<rparr>
      in case flt of Some t \<Rightarrow> (Inl (ErrText t), D)
         | None \<Rightarrow>
             (case insert_pipe_row p D of
                (Some e, D') \<Rightarrow> (Inl (if isUniqueViolation e then ErrPipeNameTaken else e), D')
              | (None, D') \<Rightarrow> (Inr p, D')))"

definition ListPipesForSource :: "string option \<Rightarrow> uuid \<Rightarrow> database \<Rightarrow> dberror + pipe list" where
  "ListPipesForSource flt sourceID D =
     query flt (sort_key pp_Name (filter (\<lambda>p. pp_SourceID p = Some sourceID) (pipes D)))"

definition GetPipeByName :: "string option \<Rightarrow> uuid \<Rightarrow> string \<Rightarrow> database \<Rightarrow> dberror + pipe" where
  "GetPipeByName flt sourceID name D =
     no_rows_not_found (query_row flt
       (find (\<lambda>p. pp_SourceID p = Some sourceID \<and> pp_Name p = name) (pipes D)))"

definition is_uncollared :: "uuid \<Rightarrow> string \<Rightarrow> string \<Rightarrow> pipe \<Rightarrow> bool" where
  "is_uncollared accountID manifold name p \<longleftrightarrow>
     pp_AccountID p = accountID \<and> pp_Manifold p = manifold \<and> pp_Name p = name \<and> pp_SourceID p = None"

definition GetUncollaredPipeByName ::
  "string option \<Rightarrow> uuid \<Rightarrow> string \<Rightarrow> string \<Rightarrow> database \<Rightarrow> dberror + pipe"
where
  "GetUncollaredPipeByName flt accountID manifold name D =
     no_rows_not_found (query_row flt (find (is_uncollared accountID manifold name) (pipes D)))"

definition set_retention :: "int option \<Rightarrow> int option \<Rightarrow> int option \<Rightarrow> pipe \<Rightarrow> pipe" where
  "set_retention ttl maxMsgs maxBytes p =
     p\<lparr>pp_TTLSeconds := ttl, pp_MaxMsgs := maxMsgs, pp_MaxBytes := maxBytes\<rparr>"

definition update_pipes :: "(pipe \<Rightarrow> bool) \<Rightarrow> (pipe \<Rightarrow> pipe) \<Rightarrow> database \<Rightarrow> database" where
  "update_pipes P f D = D\<lparr>pipes := map (\<lambda>p. if P p then f p else p) (pipes D)\<rparr>"

definition UpdatePipeRetention ::
  "string option \<Rightarrow> uuid \<Rightarrow> int option \<Rightarrow> int option \<Rightarrow> int option \<Rightarrow> database \<Rightarrow> dberror option \<times> database"
where
  "UpdatePipeRetention flt i ttl maxMsgs maxBytes D =
     (case flt of Some t \<Rightarrow> (Some (ErrText t), D)
      | None \<Rightarrow> if \<not> list_ex (\<lambda>p. pp_ID p = i) (pipes D) then (Some ErrNotFound, D)
                else (None, update_pipes (\<lambda>p. pp_ID p = i) (set_retention ttl maxMsgs maxBytes) D))"

text \<open>Update first, insert when it matches nothing; the three statements take three fault texts.\<close>

definition UpsertPipeRetention ::
  "string option \<Rightarrow> string option \<Rightarrow> string option \<Rightarrow> uuid \<Rightarrow> instant \<Rightarrow> uuid \<Rightarrow> string \<Rightarrow> uuid option
   \<Rightarrow> uuid \<Rightarrow> string \<Rightarrow> int option \<Rightarrow> int option \<Rightarrow> int option \<Rightarrow> database \<Rightarrow> (dberror + pipe) \<times> database"
where
  "UpsertPipeRetention flt1 flt2 flt3 newID now accountID manifold sourceID createdBy name ttl maxMsgs maxBytes D =
     (let p = \<lparr>pp_ID = newID, pp_AccountID = accountID, pp_Manifold = manifold, pp_SourceID = sourceID,
               pp_CreatedByUserID = createdBy, pp_Name = name, pp_TTLSeconds = ttl, pp_MaxMsgs = maxMsgs,
               pp_MaxBytes = maxBytes, pp_CreatedAt = now\<rparr>;
          hit = (case sourceID of
                   Some s \<Rightarrow> (\<lambda>q. pp_SourceID q = Some s \<and> pp_Name q = name)
                 | None \<Rightarrow> is_uncollared accountID manifold name)
      in case flt1 of Some t \<Rightarrow> (Inl (ErrText t), D)
         | None \<Rightarrow>
             if list_ex hit (pipes D)
             then let D' = update_pipes hit (set_retention ttl maxMsgs maxBytes) D
                  in (case sourceID of
                        Some s \<Rightarrow> GetPipeByName flt2 s name D'
                      | None \<Rightarrow> GetUncollaredPipeByName flt2 accountID manifold name D', D')
             else case flt3 of Some t \<Rightarrow> (Inl (ErrText t), D)
               | None \<Rightarrow>
                   (case insert_pipe_row p D of
                      (Some e, D') \<Rightarrow> (Inl e, D') | (None, D') \<Rightarrow> (Inr p, D')))"

definition DeletePipe :: "string option \<Rightarrow> uuid \<Rightarrow> string \<Rightarrow> database \<Rightarrow> dberror option \<times> database" where
  "DeletePipe flt sourceID name D =
     (let hit = (\<lambda>p. pp_SourceID p = Some sourceID \<and> pp_Name p = name)
      in case flt of Some t \<Rightarrow> (Some (ErrText t), D)
         | None \<Rightarrow> if \<not> list_ex hit (pipes D) then (Some ErrNotFound, D)
                   else (None, D\<lparr>pipes := filter (\<lambda>p. \<not> hit p) (pipes D)\<rparr>))"

definition DeleteUncollaredPipe ::
  "string option \<Rightarrow> uuid \<Rightarrow> string \<Rightarrow> string \<Rightarrow> database \<Rightarrow> dberror option \<times> database"
where
  "DeleteUncollaredPipe flt accountID manifold name D =
     (let hit = is_uncollared accountID manifold name
      in case flt of Some t \<Rightarrow> (Some (ErrText t), D)
         | None \<Rightarrow> if \<not> list_ex hit (pipes D) then (Some ErrNotFound, D)
                   else (None, D\<lparr>pipes := filter (\<lambda>p. \<not> hit p) (pipes D)\<rparr>))"

definition UserHasAnyPipe :: "string option \<Rightarrow> uuid \<Rightarrow> database \<Rightarrow> dberror + bool" where
  "UserHasAnyPipe flt userID D =
     query flt (list_ex (\<lambda>p. list_ex (\<lambda>a. acct_ID a = pp_AccountID p \<and>
         (acct_OwnerUserID a = userID \<or>
          list_ex (\<lambda>m. mb_AccountID m = acct_ID a \<and> mb_UserID m = userID) (members D))) (accounts D)) (pipes D))"

definition UncollaredPipeExists :: "string option \<Rightarrow> uuid \<Rightarrow> string \<Rightarrow> string \<Rightarrow> database \<Rightarrow> dberror + bool" where
  "UncollaredPipeExists flt accountID manifold name D =
     query flt (list_ex (is_uncollared accountID manifold name) (pipes D))"

definition PipesExistAtManifold :: "string option \<Rightarrow> uuid \<Rightarrow> string \<Rightarrow> database \<Rightarrow> dberror + bool" where
  "PipesExistAtManifold flt accountID manifold D =
     query flt (list_ex (\<lambda>p. pp_AccountID p = accountID \<and> pp_Manifold p = manifold) (pipes D))"

definition SourceExistsAtManifold :: "string option \<Rightarrow> uuid \<Rightarrow> string \<Rightarrow> string \<Rightarrow> database \<Rightarrow> dberror + bool" where
  "SourceExistsAtManifold flt accountID manifold handle D =
     query flt (list_ex (\<lambda>s. src_AccountID s = accountID \<and> src_Manifold s = manifold \<and> src_Handle s = handle)
       (sources D))"

definition ListUncollaredPipesForAccount :: "string option \<Rightarrow> uuid \<Rightarrow> database \<Rightarrow> dberror + pipe list" where
  "ListUncollaredPipesForAccount flt accountID D =
     query flt (sort_key (\<lambda>p. (pp_Manifold p, pp_Name p))
       (filter (\<lambda>p. pp_AccountID p = accountID \<and> pp_SourceID p = None) (pipes D)))"

section \<open>The schema's invariant\<close>

definition schema_ok :: "database \<Rightarrow> bool" where
  "schema_ok D \<longleftrightarrow>
     distinct (map src_ID (sources D)) \<and> distinct (map source_key (sources D)) \<and>
     distinct (map pp_ID (pipes D)) \<and> distinct (map pipe_key (pipes D)) \<and>
     (\<forall>p \<in> set (pipes D). \<forall>i. pp_SourceID p = Some i \<longrightarrow> has_source D i) \<and>
     (\<forall>s \<in> set (sources D). has_account D (src_AccountID s) \<and> has_user D (src_CreatedByUserID s))"

text \<open>A statement of either file, with any arguments and any outcome.\<close>

inductive pipe_step :: "database \<Rightarrow> database \<Rightarrow> bool" where
  "pipe_step D (snd (InsertSource flt i now a c m h k D))"
| "pipe_step D (snd (UpdateSourceKind flt a h k D))"
| "pipe_step D (snd (DeleteSourceByID flt a i D))"
| "pipe_step D (snd (DeleteSource flt a h D))"
| "pipe_step D (snd (UpdateLastBroadcast flt a h t pl D))"
| "pipe_step D (snd (InsertPipe flt i now a m s c n ttl mm mb D))"
| "pipe_step D (snd (UpdatePipeRetention flt i ttl mm mb D))"
| "pipe_step D (snd (UpsertPipeRetention flt flt' flt'' i now a m s c n ttl mm mb D))"
| "pipe_step D (snd (DeletePipe flt i n D))"
| "pipe_step D (snd (DeleteUncollaredPipe flt a m n D))"

lemma schema_ok_sources_cong:
  assumes "schema_ok D" and "map src_ID S = map src_ID (sources D)" and "map source_key S = map source_key (sources D)"
    and "\<forall>s \<in> set S. has_account D (src_AccountID s) \<and> has_user D (src_CreatedByUserID s)"
  shows "schema_ok (D\<lparr>sources := S\<rparr>)"
proof -
  have "src_ID ` set S = src_ID ` set (sources D)" using assms(2) by (metis set_map)
  with assms show ?thesis by (simp add: schema_ok_def has_source_def has_account_def has_user_def)
qed

lemma schema_ok_sources_update:
  assumes "schema_ok D" and "\<And>s. src_ID (f s) = src_ID s" and "\<And>s. source_key (f s) = source_key s"
    and "\<And>s. src_AccountID (f s) = src_AccountID s" and "\<And>s. src_CreatedByUserID (f s) = src_CreatedByUserID s"
  shows "schema_ok (D\<lparr>sources := map (\<lambda>s. if P s then f s else s) (sources D)\<rparr>)"
  using assms by (intro schema_ok_sources_cong) (auto simp: schema_ok_def)

lemma schema_ok_pipes_update:
  assumes "schema_ok D" and "\<And>p. pp_ID (f p) = pp_ID p" and "\<And>p. pipe_key (f p) = pipe_key p"
    and "\<And>p. pp_SourceID (f p) = pp_SourceID p"
  shows "schema_ok (update_pipes P f D)"
proof -
  have "(\<lambda>p. pp_ID (if P p then f p else p)) = pp_ID"
    and "(\<lambda>p. pipe_key (if P p then f p else p)) = pipe_key"
    using assms(2,3) by auto
  then show ?thesis
    using assms by (auto simp: schema_ok_def update_pipes_def comp_def has_source_def has_account_def has_user_def)
qed

lemma set_retention_keys [simp]:
  "pp_ID (set_retention a b c p) = pp_ID p" "pipe_key (set_retention a b c p) = pipe_key p"
  "pp_SourceID (set_retention a b c p) = pp_SourceID p" "pp_Name (set_retention a b c p) = pp_Name p"
  "pp_AccountID (set_retention a b c p) = pp_AccountID p" "pp_Manifold (set_retention a b c p) = pp_Manifold p"
  by (simp_all add: set_retention_def pipe_key_def)

lemma schema_ok_pipes_filter:
  "schema_ok D \<Longrightarrow> schema_ok (D\<lparr>pipes := filter P (pipes D)\<rparr>)"
  by (auto simp: schema_ok_def distinct_map has_source_def has_account_def has_user_def inj_on_def)

lemma schema_ok_delete_sources: "schema_ok D \<Longrightarrow> schema_ok (delete_sources P D)"
  by (auto simp: schema_ok_def delete_sources_def distinct_map has_source_def has_account_def has_user_def
      inj_on_def list_ex_iff image_iff split: option.splits) blast

lemma schema_ok_insert_pipe_row: "schema_ok D \<Longrightarrow> schema_ok (snd (insert_pipe_row p D))"
  by (auto simp: insert_pipe_row_def schema_ok_def has_source_def has_account_def has_user_def split: option.splits)

lemma schema_ok_InsertSource: "schema_ok D \<Longrightarrow> schema_ok (snd (InsertSource flt i now a c m h k D))"
  by (auto simp: InsertSource_def Let_def schema_ok_def has_source_def has_account_def has_user_def
      split: option.splits)

lemmas schema_ok_intros =
  schema_ok_sources_update schema_ok_pipes_update schema_ok_pipes_filter schema_ok_delete_sources
  schema_ok_insert_pipe_row schema_ok_InsertSource

lemma pipe_step_schema_ok:
  assumes "pipe_step D D'" and "schema_ok D"
  shows "schema_ok D'"
  using assms
proof (induction rule: pipe_step.induct)
  case (6 D flt i now a m s c n ttl mm mb)
  then show ?case
    using schema_ok_insert_pipe_row [of D]
    by (auto simp: InsertPipe_def Let_def split: option.splits prod.splits dest: sym [of _ "snd _"]) (metis snd_conv)+
next
  case (8 D flt flt' flt'' i now a m s c n ttl mm mb)
  then show ?case
    using schema_ok_insert_pipe_row [of D]
    by (auto simp: UpsertPipeRetention_def Let_def intro: schema_ok_pipes_update split: option.splits prod.splits if_splits)
      (metis snd_conv)+
qed (auto simp: UpdateSourceKind_def DeleteSourceByID_def DeleteSource_def UpdateLastBroadcast_def
      UpdatePipeRetention_def DeletePipe_def DeleteUncollaredPipe_def Let_def source_key_def
      intro!: schema_ok_intros split: option.splits)

section \<open>Rows addressed by name\<close>

text \<open>
  What the operations above rely on: rows of one shape behave as a set of names. \<open>add\<close> and \<open>del\<close>
  are the statements with the error branch collapsed to \<open>None\<close>.
\<close>

locale named_rows =
  fixes ok :: "'d \<Rightarrow> bool" and present :: "'d \<Rightarrow> 'k \<Rightarrow> bool"
    and add :: "'k \<Rightarrow> 'd \<Rightarrow> 'd option" and del :: "'k \<Rightarrow> 'd \<Rightarrow> 'd option"
  assumes add_present: "ok d \<Longrightarrow> add k d = Some d' \<Longrightarrow>
      ok d' \<and> \<not> present d k \<and> (\<forall>k'. present d' k' \<longleftrightarrow> k' = k \<or> present d k')"
    and del_present: "ok d \<Longrightarrow> present d k \<Longrightarrow>
      \<exists>d'. del k d = Some d' \<and> ok d' \<and> (\<forall>k'. present d' k' \<longleftrightarrow> k' \<noteq> k \<and> present d k')"
    and del_absent: "ok d \<Longrightarrow> \<not> present d k \<Longrightarrow> del k d = None"
begin

lemma add_once: "ok d \<Longrightarrow> add k d = Some d1 \<Longrightarrow> add k d1 = None"
proof (rule ccontr)
  assume "ok d" "add k d = Some d1" "add k d1 \<noteq> None"
  then obtain d2 where "ok d1" "present d1 k" "add k d1 = Some d2" using add_present by blast
  with add_present show False by blast
qed

lemma add_then_del:
  assumes "ok d" and "add k d = Some d1"
  shows "\<exists>d2. del k d1 = Some d2 \<and> ok d2 \<and> (\<forall>k'. present d2 k' \<longleftrightarrow> present d k')"
  using add_present [OF assms] del_present [of d1 k] by blast

lemma del_once: "ok d \<Longrightarrow> del k d = Some d1 \<Longrightarrow> ok d1 \<and> del k d1 = None"
  using del_present del_absent by (metis option.distinct(1) option.inject)

end

definition has_uncollared :: "database \<Rightarrow> uuid \<times> string \<times> string \<Rightarrow> bool" where
  "has_uncollared D = (\<lambda>(a, m, n). list_ex (is_uncollared a m n) (pipes D))"

definition add_uncollared ::
  "uuid \<Rightarrow> instant \<Rightarrow> uuid \<Rightarrow> uuid \<times> string \<times> string \<Rightarrow> database \<Rightarrow> database option"
where
  "add_uncollared newID now creator = (\<lambda>(a, m, n) D.
     case InsertPipe None newID now a m None creator n None None None D of
       (Inr _, D') \<Rightarrow> Some D' | (Inl _, _) \<Rightarrow> None)"

definition del_uncollared :: "uuid \<times> string \<times> string \<Rightarrow> database \<Rightarrow> database option" where
  "del_uncollared = (\<lambda>(a, m, n) D.
     case DeleteUncollaredPipe None a m n D of (None, D') \<Rightarrow> Some D' | (Some _, _) \<Rightarrow> None)"

lemma has_uncollared_iff: "has_uncollared D (a, m, n) \<longleftrightarrow> (a, m, None, n) \<in> pipe_key ` set (pipes D)"
  by (force simp: has_uncollared_def list_ex_iff is_uncollared_def pipe_key_def image_iff)

interpretation uncollared: named_rows schema_ok has_uncollared "add_uncollared i now c" del_uncollared
proof
  fix D k D'
  assume ok: "schema_ok D" and add: "add_uncollared i now c k D = Some D'"
  obtain a m n where k: "k = (a, m, n)" by (cases k)
  let ?p = "\<lparr>pp_ID = i, pp_AccountID = a, pp_Manifold = m, pp_SourceID = None, pp_CreatedByUserID = c,
      pp_Name = n, pp_TTLSeconds = None, pp_MaxMsgs = None, pp_MaxBytes = None, pp_CreatedAt = now\<rparr>"
  have ins: "insert_pipe_row ?p D = (None, D')"
    using add by (auto simp: add_uncollared_def k InsertPipe_def Let_def split: prod.splits option.splits sum.splits)
  then have "pipes D' = pipes D @ [?p]" and "pipe_key ?p \<notin> pipe_key ` set (pipes D)"
    by (auto simp: insert_pipe_row_def split: if_splits)
  with schema_ok_insert_pipe_row [OF ok, of ?p] ins
  show "schema_ok D' \<and> \<not> has_uncollared D k \<and> (\<forall>k'. has_uncollared D' k' \<longleftrightarrow> k' = k \<or> has_uncollared D k')"
    by (auto simp: k has_uncollared_iff pipe_key_def)
next
  fix D k
  assume ok: "schema_ok D" and pr: "has_uncollared D k"
  obtain a m n where k: "k = (a, m, n)" by (cases k)
  let ?D' = "D\<lparr>pipes := filter (\<lambda>p. \<not> is_uncollared a m n p) (pipes D)\<rparr>"
  have "del_uncollared k D = Some ?D'"
    using pr by (simp add: k del_uncollared_def DeleteUncollaredPipe_def has_uncollared_def Let_def)
  moreover have "\<forall>k'. has_uncollared ?D' k' \<longleftrightarrow> k' \<noteq> k \<and> has_uncollared D k'"
    by (auto simp: k has_uncollared_def list_ex_iff is_uncollared_def)
  ultimately show "\<exists>D'. del_uncollared k D = Some D' \<and> schema_ok D' \<and>
      (\<forall>k'. has_uncollared D' k' \<longleftrightarrow> k' \<noteq> k \<and> has_uncollared D k')"
    using schema_ok_pipes_filter [OF ok] by blast
next
  fix D k
  assume "\<not> has_uncollared D k"
  then show "del_uncollared k D = None"
    by (cases k) (simp add: del_uncollared_def DeleteUncollaredPipe_def has_uncollared_def Let_def)
qed

text \<open>Source rows by full address, as \<open>sourceAt\<close> and \<open>destroySource\<close> use them.\<close>

definition has_source_at :: "database \<Rightarrow> uuid \<times> string \<times> string \<Rightarrow> bool" where
  "has_source_at D k \<longleftrightarrow> k \<in> source_key ` set (sources D)"

definition add_source ::
  "uuid \<Rightarrow> instant \<Rightarrow> uuid \<Rightarrow> string \<Rightarrow> uuid \<times> string \<times> string \<Rightarrow> database \<Rightarrow> database option"
where
  "add_source newID now creator kind = (\<lambda>(a, m, h) D.
     case InsertSource None newID now a creator m h kind D of (Inr _, D') \<Rightarrow> Some D' | (Inl _, _) \<Rightarrow> None)"

definition del_source :: "uuid \<times> string \<times> string \<Rightarrow> database \<Rightarrow> database option" where
  "del_source = (\<lambda>(a, m, h) D.
     case GetSourceAt None a m h D of Inl _ \<Rightarrow> None
     | Inr s \<Rightarrow> (case DeleteSourceByID None a (src_ID s) D of (None, D') \<Rightarrow> Some D' | (Some _, _) \<Rightarrow> None))"

interpretation addressed: named_rows schema_ok has_source_at "add_source i now c kind" del_source
proof
  fix D k D'
  assume ok: "schema_ok D" and add: "add_source i now c kind k D = Some D'"
  obtain a m h where k: "k = (a, m, h)" by (cases k)
  from add have "schema_ok D'"
    using schema_ok_InsertSource [OF ok, of None i now a c m h kind]
    by (auto simp: add_source_def k split: prod.splits sum.splits)
  with add show "schema_ok D' \<and> \<not> has_source_at D k \<and> (\<forall>k'. has_source_at D' k' \<longleftrightarrow> k' = k \<or> has_source_at D k')"
    by (auto simp: add_source_def k InsertSource_def Let_def has_source_at_def source_key_def
        split: prod.splits sum.splits if_splits)
next
  fix D k
  assume ok: "schema_ok D" and pr: "has_source_at D k"
  obtain a m h where k: "k = (a, m, h)" by (cases k)
  from pr obtain s where "s \<in> set (sources D)" "source_key s = k" by (auto simp: has_source_at_def)
  with k have s: "s \<in> set (sources D)" "src_AccountID s = a" "src_Manifold s = m" "src_Handle s = h"
    by (auto simp: source_key_def)
  let ?hit = "\<lambda>t. src_AccountID t = a \<and> src_ID t = src_ID s"
  have only: "t \<in> set (sources D) \<Longrightarrow> ?hit t \<longleftrightarrow> source_key t = k" for t
    using ok s k by (auto simp: schema_ok_def distinct_map inj_on_def source_key_def)
  have "find (\<lambda>t. src_AccountID t = a \<and> src_Manifold t = m \<and> src_Handle t = h) (sources D) = Some s"
    using find_distinct_key [of source_key "sources D" s] ok s by (simp add: schema_ok_def source_key_def)
  then have "del_source k D = Some (delete_sources ?hit D)"
    using s by (auto simp: del_source_def k GetSourceAt_def DeleteSourceByID_def Let_def list_ex_iff)
  moreover have "\<forall>k'. has_source_at (delete_sources ?hit D) k' \<longleftrightarrow> k' \<noteq> k \<and> has_source_at D k'"
  proof -
    have "set (sources (delete_sources ?hit D)) = {t \<in> set (sources D). source_key t \<noteq> k}"
      using only by (auto simp: delete_sources_def)
    then show ?thesis by (auto simp: has_source_at_def)
  qed
  ultimately show "\<exists>D'. del_source k D = Some D' \<and> schema_ok D' \<and>
      (\<forall>k'. has_source_at D' k' \<longleftrightarrow> k' \<noteq> k \<and> has_source_at D k')"
    using schema_ok_delete_sources [OF ok] by blast
next
  fix D k
  assume "\<not> has_source_at D k"
  then have "find (\<lambda>t. src_AccountID t = fst k \<and> src_Manifold t = fst (snd k) \<and> src_Handle t = snd (snd k)) (sources D) = None"
    unfolding find_None_all by (cases k) (auto simp: has_source_at_def source_key_def image_iff)
  then show "del_source k D = None"
    by (cases k) (simp add: del_source_def GetSourceAt_def)
qed

section \<open>Properties\<close>

text \<open>The schema's constraints hold in every database the repository can produce: starting
  from one that satisfies them, no sequence of statements of \<open>sources.go\<close> and \<open>pipes.go\<close>, with any
  arguments and any failed round trips, leaves two sources at one address, two pipes of one
  name in one place, or a pipe whose source is gone.\<close>

theorem schema_invariant:
  assumes "pipe_step\<^sup>*\<^sup>* D D'" and "schema_ok D"
  shows "schema_ok D'"
  using assms by (induction rule: rtranclp_induct) (auto intro: pipe_step_schema_ok)

definition ex_pipes :: database where
  "ex_pipes =
     \<lparr>users = [\<lparr>us_ID = ''u1'', us_Username = ''ada'', us_Email = '''', us_Mode = ''github'',
                us_GitHubID = Some 1, us_AvatarURL = '''', us_CreatedAt = 1, us_ServiceAccountID = None,
                us_LastSelectedAccount = None\<rparr>],
      accounts = [\<lparr>acct_ID = ''a1'', acct_Name = ''acme'', acct_OwnerUserID = ''u1'', acct_CreatedAt = 1,
                   acct_NATSAccountPub = '''', acct_NATSAccountJWT = '''', acct_NATSAccountSigningSeed = '''',
                   acct_acl_generation = 0, acct_acl_enforced = True\<rparr>],
      members = [],
      sources = [\<lparr>src_ID = ''s1'', src_AccountID = ''a1'', src_CreatedByUserID = ''u1'', src_Manifold = '''',
                  src_Handle = ''alice'', src_Kind = ''message'', src_CreatedAt = 1,
                  src_LastBroadcastAt = None, src_LastBroadcastPayload = None\<rparr>],
      pipes = [\<lparr>pp_ID = ''p1'', pp_AccountID = ''a1'', pp_Manifold = '''', pp_SourceID = Some ''s1'',
                pp_CreatedByUserID = ''u1'', pp_Name = ''log'', pp_TTLSeconds = None, pp_MaxMsgs = None,
                pp_MaxBytes = None, pp_CreatedAt = 2\<rparr>],
      grants = [], api_keys = [], invites = [], schedules = [], audit_events = []\<rparr>"

lemma ex_pipes_ok: "schema_ok ex_pipes"
  by (simp add: schema_ok_def ex_pipes_def source_key_def pipe_key_def has_source_def has_account_def has_user_def)

theorem schema_invariant_witness:
  "schema_ok (snd (DeleteSource None ''a1'' ''alice'' ex_pipes)) \<and>
   pipes (snd (DeleteSource None ''a1'' ''alice'' ex_pipes)) = []"
proof
  show "schema_ok (snd (DeleteSource None ''a1'' ''alice'' ex_pipes))"
    by (rule schema_invariant [OF _ ex_pipes_ok]) (rule r_into_rtranclp, rule pipe_step.intros(4))
  show "pipes (snd (DeleteSource None ''a1'' ''alice'' ex_pipes)) = []"
    by (simp add: DeleteSource_def delete_sources_def ex_pipes_def)
qed

text \<open>Create and destroy are inverse on names: an uncollared pipe or a source that was just
  created cannot be created again, can be destroyed, and destroying it leaves exactly the names
  that were there before, in that manifold and in every other.\<close>

theorem create_destroy_inverse:
  assumes "schema_ok D"
  shows "(add_uncollared i now c k D = Some D1 \<longrightarrow>
            add_uncollared i' now' c' k D1 = None \<and>
            (\<exists>D2. del_uncollared k D1 = Some D2 \<and> has_uncollared D2 = has_uncollared D)) \<and>
         (add_source i now c kind k D = Some D1 \<longrightarrow>
            add_source i now c kind k D1 = None \<and>
            (\<exists>D2. del_source k D1 = Some D2 \<and> has_source_at D2 = has_source_at D))"
proof (intro conjI impI)
  assume add: "add_uncollared i now c k D = Some D1"
  from uncollared.add_present [OF assms add] have D1: "schema_ok D1" "has_uncollared D1 k" by blast+
  show "add_uncollared i' now' c' k D1 = None"
    using uncollared.add_present [OF D1(1)] D1(2) by (metis not_None_eq)
  show "\<exists>D2. del_uncollared k D1 = Some D2 \<and> has_uncollared D2 = has_uncollared D"
    using uncollared.add_then_del [OF assms add] by (auto simp: fun_eq_iff)
next
  assume add: "add_source i now c kind k D = Some D1"
  show "add_source i now c kind k D1 = None" by (rule addressed.add_once [OF assms add])
  show "\<exists>D2. del_source k D1 = Some D2 \<and> has_source_at D2 = has_source_at D"
    using addressed.add_then_del [OF assms add] by (auto simp: fun_eq_iff)
qed

theorem create_destroy_inverse_witness:
  "\<exists>D1. add_uncollared ''p2'' 5 ''u1'' (''a1'', '''', ''room'') ex_pipes = Some D1 \<and>
        add_uncollared ''p3'' 6 ''u1'' (''a1'', '''', ''room'') D1 = None"
proof -
  have "\<exists>D1. add_uncollared ''p2'' 5 ''u1'' (''a1'', '''', ''room'') ex_pipes = Some D1"
    by (simp add: add_uncollared_def InsertPipe_def insert_pipe_row_def ex_pipes_def pipe_key_def
        has_account_def has_user_def Let_def)
  then show ?thesis using create_destroy_inverse [OF ex_pipes_ok] by blast
qed

end
