(* ===== verification/DbAcl.thy ===== *)
theory DbAcl
  imports DbPrincipals DbPipes
begin

text \<open>
  Stored grants, the enforcement switch and the audit trail: \<open>internal/db/acl.go\<close> and \<open>audit.go\<close>,
  with the writers of \<open>internal/server/audit.go\<close>.
\<close>

unbundle bit_operations_syntax

section \<open>acl.go\<close>

definition ToACL :: "aclgrant \<Rightarrow> grant" where
  "ToACL g =
     \<lparr>gr_PrincipalID = ag_PrincipalID g, gr_Principal = ag_PrincipalName g, gr_Selector = ag_Selector g,
      gr_Perm = (if ag_Perm g = ''read'' then Read else if ag_Perm g = ''write'' then Write
                 else if ag_Perm g = ''admin'' then Admin else 0),
      gr_GrantedBy = ag_GrantedByName g, gr_CreatedAt = ag_CreatedAt g\<rparr>"

text \<open>The inner join with the principal drops a row without one; the outer join with the granter
  gives the empty name.\<close>

definition join_grant :: "database \<Rightarrow> grant_row \<Rightarrow> aclgrant list" where
  "join_grant D g =
     map (\<lambda>p. grant_row.extend (grant_row.truncate g)
           \<lparr>ag_PrincipalName = us_Username p,
            ag_GrantedByName = (case find (\<lambda>b. us_ID b = ag_GrantedBy g) (users D) of
                                  Some b \<Rightarrow> us_Username b | None \<Rightarrow> '''')\<rparr>)
       (filter (\<lambda>p. us_ID p = ag_PrincipalID g) (users D))"

definition ListACLGrants :: "string option \<Rightarrow> uuid \<Rightarrow> database \<Rightarrow> dberror + aclgrant list" where
  "ListACLGrants flt accountID D =
     query flt (sort_key (\<lambda>g. (ag_Selector g, ag_PrincipalName g, ag_Perm g))
       (concat (map (join_grant D) (filter (\<lambda>g. ag_AccountID g = accountID) (grants D)))))"

definition ListACLGrantsForPrincipal :: "string option \<Rightarrow> uuid \<Rightarrow> uuid \<Rightarrow> database \<Rightarrow> dberror + aclgrant list" where
  "ListACLGrantsForPrincipal flt accountID principalID D =
     query flt (sort_key (\<lambda>g. (ag_Selector g, ag_Perm g))
       (concat (map (join_grant D)
          (filter (\<lambda>g. ag_AccountID g = accountID \<and> ag_PrincipalID g \<in> {principalID, EveryoneID}) (grants D)))))"

definition BumpACLGeneration :: "string option \<Rightarrow> uuid \<Rightarrow> database \<Rightarrow> dberror option \<times> database" where
  "BumpACLGeneration flt accountID D =
     (case flt of Some t \<Rightarrow> (Some (ErrText t), D)
      | None \<Rightarrow> (None, D\<lparr>accounts := map (\<lambda>a. if acct_ID a = accountID
                   then a\<lparr>acct_acl_generation := acct_acl_generation a + 1\<rparr> else a) (accounts D)\<rparr>))"

definition grant_key :: "grant_row \<Rightarrow> uuid \<times> uuid \<times> string \<times> string" where
  "grant_key g = (ag_AccountID g, ag_PrincipalID g, ag_Selector g, ag_Perm g)"

definition InsertACLGrant ::
  "string option \<Rightarrow> string option \<Rightarrow> uuid \<Rightarrow> instant \<Rightarrow> uuid \<Rightarrow> uuid \<Rightarrow> string \<Rightarrow> string \<Rightarrow> uuid \<Rightarrow> database
   \<Rightarrow> dberror option \<times> database"
where
  "InsertACLGrant flt1 flt2 newID now accountID principalID selector perm grantedBy D =
     (if perm \<noteq> ''read'' \<and> perm \<noteq> ''write'' \<and> perm \<noteq> ''admin''
      then (Some (ErrText ''perm must be read, write or admin''), D)
      else if \<not> ValidSelector selector then (Some (ErrText (''invalid selector: '' @ selector)), D)
      else case flt1 of Some t \<Rightarrow> (Some (ErrText t), D)
        | None \<Rightarrow>
            let g = \<lparr>ag_ID = newID, ag_AccountID = accountID, ag_PrincipalID = principalID,
                     ag_Selector = selector, ag_Perm = perm, ag_GrantedBy = grantedBy, ag_CreatedAt = now\<rparr>
            in if grant_key g \<in> grant_key ` set (grants D) then BumpACLGeneration flt2 accountID D
               else if newID \<in> ag_ID ` set (grants D) then (Some unique_violation, D)
               else if \<not> has_account D accountID \<or> \<not> has_user D principalID \<or> \<not> has_user D grantedBy
                 then (Some foreign_key_violation, D)
               else BumpACLGeneration flt2 accountID (D\<lparr>grants := grants D @ [g]\<rparr>))"

definition DeleteACLGrant ::
  "string option \<Rightarrow> string option \<Rightarrow> uuid \<Rightarrow> uuid \<Rightarrow> string \<Rightarrow> string \<Rightarrow> database \<Rightarrow> dberror option \<times> database"
where
  "DeleteACLGrant flt1 flt2 accountID principalID selector perm D =
     (case flt1 of Some t \<Rightarrow> (Some (ErrText t), D)
      | None \<Rightarrow> BumpACLGeneration flt2 accountID
          (D\<lparr>grants := filter (\<lambda>g. \<not> (ag_AccountID g = accountID \<and> ag_PrincipalID g = principalID \<and>
                ag_Selector g = selector \<and> (perm = '''' \<or> ag_Perm g = perm))) (grants D)\<rparr>))"

definition ACLGeneration :: "string option \<Rightarrow> uuid \<Rightarrow> database \<Rightarrow> dberror + int" where
  "ACLGeneration flt accountID D =
     query_row flt (map_option acct_acl_generation (find (\<lambda>a. acct_ID a = accountID) (accounts D)))"

definition ResolvePrincipal ::
  "string option \<Rightarrow> string option \<Rightarrow> uuid \<Rightarrow> string \<Rightarrow> string \<Rightarrow> database \<Rightarrow> dberror + user"
where
  "ResolvePrincipal flt1 flt2 accountID orgName name D =
     (if name = ''@everyone'' \<or> name = ''everyone'' then GetUser flt1 EveryoneID D
      else case GetServiceAccount flt1 accountID orgName name D of
        Inr svc \<Rightarrow> Inr svc
      | Inl _ \<Rightarrow>
          (case GetUserByUsername flt2 name D of Inl _ \<Rightarrow> Inl ErrNotFound | Inr u \<Rightarrow> Inr u))"

definition ACLEnforced :: "string option \<Rightarrow> uuid \<Rightarrow> database \<Rightarrow> dberror + bool" where
  "ACLEnforced flt accountID D =
     query_row flt (map_option acct_acl_enforced (find (\<lambda>a. acct_ID a = accountID) (accounts D)))"

definition SetACLEnforced ::
  "string option \<Rightarrow> string option \<Rightarrow> uuid \<Rightarrow> bool \<Rightarrow> database \<Rightarrow> dberror option \<times> database"
where
  "SetACLEnforced flt1 flt2 accountID on D =
     (case flt1 of Some t \<Rightarrow> (Some (ErrText t), D)
      | None \<Rightarrow> BumpACLGeneration flt2 accountID
          (D\<lparr>accounts := map (\<lambda>a. if acct_ID a = accountID then a\<lparr>acct_acl_enforced := on\<rparr> else a) (accounts D)\<rparr>))"

section \<open>audit.go\<close>

definition AuditActionPipeCreate :: string where "AuditActionPipeCreate = ''pipe.create''"
definition AuditActionPipeSet :: string where "AuditActionPipeSet = ''pipe.set''"
definition AuditActionPipeDestroy :: string where "AuditActionPipeDestroy = ''pipe.destroy''"
definition AuditActionPipePurge :: string where "AuditActionPipePurge = ''pipe.purge''"
definition AuditActionSourceCreate :: string where "AuditActionSourceCreate = ''source.create''"
definition AuditActionSourceDestroy :: string where "AuditActionSourceDestroy = ''source.destroy''"
definition AuditActionACLGrant :: string where "AuditActionACLGrant = ''acl.grant''"
definition AuditActionACLRevoke :: string where "AuditActionACLRevoke = ''acl.revoke''"
definition AuditActionACLEnforce :: string where "AuditActionACLEnforce = ''acl.enforce''"

definition AuditTargetPipe :: string where "AuditTargetPipe = ''pipe''"
definition AuditTargetSource :: string where "AuditTargetSource = ''source''"
definition AuditTargetOrg :: string where "AuditTargetOrg = ''org''"

text \<open>The callers leave the identifier and the time zero, so both are stamped here.\<close>

definition InsertAuditEvent ::
  "string option \<Rightarrow> uuid \<Rightarrow> instant \<Rightarrow> audit_event \<Rightarrow> database \<Rightarrow> dberror option \<times> database"
where
  "InsertAuditEvent flt newID now ev D =
     (let ev1 = (if ev_ID ev = uuid_nil then ev\<lparr>ev_ID := newID\<rparr> else ev);
          ev2 = (if ev_CreatedAt ev1 = 0 then ev1\<lparr>ev_CreatedAt := now\<rparr> else ev1)
      in case flt of Some t \<Rightarrow> (Some (ErrText t), D)
         | None \<Rightarrow>
             if ev_ID ev2 \<in> ev_ID ` set (audit_events D) then (Some unique_violation, D)
             else if \<not> has_account D (ev_AccountID ev2) then (Some foreign_key_violation, D)
             else (None, D\<lparr>audit_events := audit_events D @ [ev2]\<rparr>))"

definition ListAuditEventsForAccount :: "string option \<Rightarrow> uuid \<Rightarrow> int \<Rightarrow> database \<Rightarrow> dberror + audit_event list" where
  "ListAuditEventsForAccount flt accountID limit D =
     query flt (take (nat (if limit \<le> 0 then 200 else limit))
       (rev (sort_key (\<lambda>e. (ev_CreatedAt e, ev_ID e)) (filter (\<lambda>e. ev_AccountID e = accountID) (audit_events D)))))"

definition snapshotRetention :: "duration \<Rightarrow> int \<Rightarrow> int \<Rightarrow> audit_payload" where
  "snapshotRetention age msgs bytes = RetentionSnapshot (go_div age second) msgs bytes"

definition auditActorFromKey :: "api_key \<Rightarrow> uuid \<times> uuid option" where
  "auditActorFromKey key =
     (if ak_ID key = uuid_nil then (Actor key, None) else (Actor key, Some (ak_ID key)))"

text \<open>\<open>recordAudit\<close>: best effort, the error is logged and dropped.\<close>

definition recordAudit :: "string option \<Rightarrow> uuid \<Rightarrow> instant \<Rightarrow> audit_event \<Rightarrow> database \<Rightarrow> database" where
  "recordAudit flt newID now ev D = snd (InsertAuditEvent flt newID now ev D)"

definition auditSource ::
  "string option \<Rightarrow> uuid \<Rightarrow> instant \<Rightarrow> api_key \<Rightarrow> string \<Rightarrow> source \<Rightarrow> audit_payload option \<Rightarrow> audit_payload option
   \<Rightarrow> database \<Rightarrow> database"
where
  "auditSource flt newID now key action src before after D =
     recordAudit flt newID now
       \<lparr>ev_ID = uuid_nil, ev_AccountID = ak_AccountID key, ev_ActorUserID = fst (auditActorFromKey key),
        ev_ActorAPIKeyID = snd (auditActorFromKey key), ev_Action = action, ev_TargetType = AuditTargetSource,
        ev_Target = (if src_Manifold src \<noteq> '''' then src_Manifold src @ ''.'' @ src_Handle src else src_Handle src),
        ev_Before = before, ev_After = after, ev_CreatedAt = 0\<rparr> D"

definition auditPipe ::
  "string option \<Rightarrow> uuid \<Rightarrow> instant \<Rightarrow> api_key \<Rightarrow> string \<Rightarrow> string \<Rightarrow> audit_payload option \<Rightarrow> audit_payload option
   \<Rightarrow> database \<Rightarrow> database"
where
  "auditPipe flt newID now key action target before after D =
     recordAudit flt newID now
       \<lparr>ev_ID = uuid_nil, ev_AccountID = ak_AccountID key, ev_ActorUserID = fst (auditActorFromKey key),
        ev_ActorAPIKeyID = snd (auditActorFromKey key), ev_Action = action, ev_TargetType = AuditTargetPipe,
        ev_Target = target, ev_Before = before, ev_After = after, ev_CreatedAt = 0\<rparr> D"

text \<open>The authenticated caller of \<open>auth_bearer.go\<close>.\<close>

record authed_caller =
  cl_UserID :: uuid
  cl_APIKey :: "api_key option"
  cl_TokenID :: "uuid option"

definition callerFromAPIKey :: "api_key \<Rightarrow> authed_caller" where
  "callerFromAPIKey key = \<lparr>cl_UserID = ak_PrincipalUserID key, cl_APIKey = Some key, cl_TokenID = None\<rparr>"

definition auditACL ::
  "string option \<Rightarrow> uuid \<Rightarrow> instant \<Rightarrow> uuid \<Rightarrow> authed_caller \<Rightarrow> string \<Rightarrow> string \<Rightarrow> string
   \<Rightarrow> audit_payload option \<Rightarrow> audit_payload option \<Rightarrow> database \<Rightarrow> database"
where
  "auditACL flt newID now accountID caller action targetType target before after D =
     recordAudit flt newID now
       \<lparr>ev_ID = uuid_nil, ev_AccountID = accountID, ev_ActorUserID = cl_UserID caller,
        ev_ActorAPIKeyID = map_option ak_ID (cl_APIKey caller), ev_Action = action, ev_TargetType = targetType,
        ev_Target = target, ev_Before = before, ev_After = after, ev_CreatedAt = 0\<rparr> D"

definition aclGrantDelta :: "string \<Rightarrow> string \<Rightarrow> audit_payload" where
  "aclGrantDelta prin perm = GrantDelta prin perm"

definition aclEnforceDelta :: "bool \<Rightarrow> audit_payload" where
  "aclEnforceDelta on = EnforceDelta on"

section \<open>Properties\<close>

definition bumped :: "uuid \<Rightarrow> database \<Rightarrow> database" where
  "bumped a D = D\<lparr>accounts := map (\<lambda>x. if acct_ID x = a
     then x\<lparr>acct_acl_generation := acct_acl_generation x + 1\<rparr> else x) (accounts D)\<rparr>"

lemma Bump_ok: "BumpACLGeneration None a D = (None, bumped a D)"
  by (simp add: BumpACLGeneration_def bumped_def)

lemma bumped_grants [simp]: "grants (bumped a D) = grants D"
  by (simp add: bumped_def)

lemma bumped_generation:
  "map acct_acl_generation (filter (\<lambda>x. acct_ID x = a) (accounts (bumped a D))) =
   map (\<lambda>x. acct_acl_generation x + 1) (filter (\<lambda>x. acct_ID x = a) (accounts D))"
proof -
  have "map acct_acl_generation (filter (\<lambda>x. acct_ID x = a)
          (map (\<lambda>x. if acct_ID x = a then x\<lparr>acct_acl_generation := acct_acl_generation x + 1\<rparr> else x) xs))
      = map (\<lambda>x. acct_acl_generation x + 1) (filter (\<lambda>x. acct_ID x = a) xs)"
    for xs :: "account_row list"
    by (induction xs) auto
  then show ?thesis by (simp add: bumped_def)
qed

lemma bumped_others: "filter (\<lambda>x. acct_ID x \<noteq> a) (accounts (bumped a D)) = filter (\<lambda>x. acct_ID x \<noteq> a) (accounts D)"
proof -
  have "filter (\<lambda>x. acct_ID x \<noteq> a) (map (\<lambda>x. if acct_ID x = a then x\<lparr>acct_acl_generation := acct_acl_generation x + 1\<rparr> else x) xs)
      = filter (\<lambda>x. acct_ID x \<noteq> a) xs" for xs :: "account_row list"
    by (induction xs) auto
  then show ?thesis by (simp add: bumped_def)
qed

definition stored_grants :: "database \<Rightarrow> (uuid \<times> uuid \<times> string \<times> string) set" where
  "stored_grants D = grant_key ` set (grants D)"

text \<open>
  What the two statements of a change leave: \<open>S\<close> are the facts stored after the first. The second raises
  the generation; when it fails, the facts have changed all the same, the generation has not, and the
  call reports an error.
\<close>

definition changed_to :: "(uuid \<times> uuid \<times> string \<times> string) set \<Rightarrow> string option \<Rightarrow> uuid \<Rightarrow> database \<Rightarrow> dberror option \<times> database \<Rightarrow> bool" where
  "changed_to S flt2 a D r \<longleftrightarrow>
     stored_grants (snd r) = S \<and> (fst r = None \<longleftrightarrow> flt2 = None)
     \<and> map acct_acl_generation (filter (\<lambda>x. acct_ID x = a) (accounts (snd r)))
       = map (\<lambda>x. acct_acl_generation x + (if flt2 = None then 1 else 0)) (filter (\<lambda>x. acct_ID x = a) (accounts D))
     \<and> filter (\<lambda>x. acct_ID x \<noteq> a) (accounts (snd r)) = filter (\<lambda>x. acct_ID x \<noteq> a) (accounts D)"

lemma bump_changes:
  assumes "accounts D' = accounts D"
  shows "changed_to (stored_grants D') flt2 a D (BumpACLGeneration flt2 a D')"
proof (cases flt2)
  case None
  have "accounts (bumped a D') = accounts (bumped a D)" using assms by (simp add: bumped_def)
  with None show ?thesis
    by (simp add: changed_to_def Bump_ok bumped_generation bumped_others stored_grants_def)
qed (use assms in \<open>simp add: changed_to_def BumpACLGeneration_def\<close>)

text \<open>C27: The grant store refines a set of (account, principal, selector, permission) facts, for every outcome of
  its statements. A grant with an invalid permission or selector, and a call whose first statement
  fails, change nothing and report an error. Otherwise a grant adds exactly one fact, and none when it is
  there already, and a revoke removes exactly the named fact, or all permissions of that principal and
  selector when none is named. Then the account's generation is raised by one and the call succeeds, or,
  when that second statement fails, the call reports an error and leaves the facts changed with the
  generation as it was: the two statements are in no transaction. Other accounts are not touched.\<close>

theorem grant_store_refines_set:
  assumes "\<forall>g \<in> set (grants D). ag_ID g \<noteq> i" and "has_account D a" and "has_user D p" and "has_user D by"
  shows "(let r = InsertACLGrant flt1 flt2 i now a p sel perm by D
          in if perm \<in> {''read'', ''write'', ''admin''} \<and> ValidSelector sel \<and> flt1 = None
             then changed_to (insert (a, p, sel, perm) (stored_grants D)) flt2 a D r
             else fst r \<noteq> None \<and> snd r = D) \<and>
         (let r = DeleteACLGrant flt1 flt2 a p sel perm D
          in if flt1 = None
             then changed_to (stored_grants D - {(a, p, sel, q) | q. perm = '''' \<or> q = perm}) flt2 a D r
             else fst r \<noteq> None \<and> snd r = D)"
proof
  let ?g = "\<lparr>ag_ID = i, ag_AccountID = a, ag_PrincipalID = p, ag_Selector = sel, ag_Perm = perm,
      ag_GrantedBy = by, ag_CreatedAt = now\<rparr>"
  let ?D = "if grant_key ?g \<in> stored_grants D then D else D\<lparr>grants := grants D @ [?g]\<rparr>"
  have ins: "InsertACLGrant flt1 flt2 i now a p sel perm by D =
      (if perm \<notin> {''read'', ''write'', ''admin''} then (Some (ErrText ''perm must be read, write or admin''), D)
       else if \<not> ValidSelector sel then (Some (ErrText (''invalid selector: '' @ sel)), D)
       else case flt1 of Some t \<Rightarrow> (Some (ErrText t), D) | None \<Rightarrow> BumpACLGeneration flt2 a ?D)"
    using assms by (auto simp: InsertACLGrant_def stored_grants_def Let_def image_iff split: option.split)
  have "stored_grants ?D = insert (a, p, sel, perm) (stored_grants D)" "accounts ?D = accounts D"
    by (auto simp: stored_grants_def grant_key_def)
  with bump_changes [of ?D D flt2 a]
  have "changed_to (insert (a, p, sel, perm) (stored_grants D)) flt2 a D (BumpACLGeneration flt2 a ?D)" by simp
  then show "let r = InsertACLGrant flt1 flt2 i now a p sel perm by D
          in if perm \<in> {''read'', ''write'', ''admin''} \<and> ValidSelector sel \<and> flt1 = None
             then changed_to (insert (a, p, sel, perm) (stored_grants D)) flt2 a D r
             else fst r \<noteq> None \<and> snd r = D"
    unfolding ins Let_def by (cases flt1) auto
next
  let ?D = "D\<lparr>grants := filter (\<lambda>g. \<not> (ag_AccountID g = a \<and> ag_PrincipalID g = p \<and>
                ag_Selector g = sel \<and> (perm = '''' \<or> ag_Perm g = perm))) (grants D)\<rparr>"
  have "stored_grants ?D = stored_grants D - {(a, p, sel, q) | q. perm = '''' \<or> q = perm}"
    by (auto simp: stored_grants_def grant_key_def)
  with bump_changes [of ?D D flt2 a]
  show "let r = DeleteACLGrant flt1 flt2 a p sel perm D
          in if flt1 = None
             then changed_to (stored_grants D - {(a, p, sel, q) | q. perm = '''' \<or> q = perm}) flt2 a D r
             else fst r \<noteq> None \<and> snd r = D"
    by (cases flt1) (simp_all add: DeleteACLGrant_def)
qed

theorem grant_store_refines_set_witness:
  "let (e, D1) = InsertACLGrant None (Some ''timeout'') ''g1'' 5 ''a1'' ''u1'' ''team.*'' ''read'' ''u1'' ex_pipes
   in e \<noteq> None \<and> stored_grants D1 = {(''a1'', ''u1'', ''team.*'', ''read'')}"
proof -
  have "ValidSelector ''team.*''" by (simp add: ValidSelector_def tokenRest_def)
  then show ?thesis
    using grant_store_refines_set [of ex_pipes "''g1''" "''a1''" "''u1''" "''u1''" None "Some ''timeout''" 5 "''team.*''" "''read''"]
    by (auto simp: Let_def case_prod_beta changed_to_def ex_pipes_def stored_grants_def has_account_def has_user_def)
qed

end
