(* ===== verification/Streams.thy ===== *)
theory Streams
  imports DbAcl
begin

text \<open>
  The JetStream side of a pipe: \<open>internal/server/streams.go\<close> and \<open>account_pool.go\<close>. The server's
  world is the database, the pool of open organisation accounts, the account resolver, the
  streams of every NATS account (by the account's public key, so that a reprovisioned account
  starts empty), the streams that were purged and the invalidation signals that were published.
  NATS itself is not modelled: a call that can fail there is a site of the fault oracle, key
  material is an argument, and what is recorded of a stream is the configuration handed to it.
\<close>

section \<open>The server's world\<close>

record stream_config =
  cf_Name :: string
  cf_Subjects :: "string list"
  cf_Retention :: string
  cf_MaxAge :: duration
  cf_MaxMsgs :: int
  cf_MaxBytes :: int
  cf_Storage :: string
  cf_Discard :: string
  cf_Replicas :: int

type_synonym streams = "string \<rightharpoonup> stream_config"

record orgaccount =
  oa_AccountID :: uuid
  oa_AccountName :: string
  oa_AccountPub :: string

record server_world =
  aw_db :: database
  aw_pool :: "uuid \<rightharpoonup> orgaccount"
  aw_resolver :: "string \<rightharpoonup> string"
  aw_streams :: "string \<Rightarrow> streams"
  aw_purged :: "(string \<times> string) list"
  aw_nudged :: "uuid list"

text \<open>The calls of the pool and of stream provisioning that leave the process.\<close>

datatype pool_site =
    P_Account | P_Save | P_Resolver | P_Open | P_Reopen | P_Sources | P_Pipes uuid | P_Stream string | P_Publish

text \<open>
  What \<open>nkeys\<close> and \<open>natsauth\<close> produce when an account is provisioned: whether the operator key is
  loaded, and either the text of the failing step or the account key, its JWT and the signing seed.
\<close>

record minting =
  mt_Operator :: bool
  mt_Material :: "string + string \<times> string \<times> string"

section \<open>streams.go\<close>

definition defaultStreamMaxAge :: duration where "defaultStreamMaxAge = 24 * hour"
definition defaultStreamMaxMsgs :: int where "defaultStreamMaxMsgs = 5000"
definition defaultStreamMaxBytes :: int where "defaultStreamMaxBytes = 16 * 1024 * 1024"

definition stream_config_for ::
  "uuid \<Rightarrow> string \<Rightarrow> string \<Rightarrow> string \<Rightarrow> duration \<times> int \<times> int \<Rightarrow> stream_config"
where
  "stream_config_for accountID manifold handle pipe ret =
     \<lparr>cf_Name = BuildStreamName accountID manifold handle pipe,
      cf_Subjects = [BuildSubject accountID manifold handle pipe],
      cf_Retention = ''limits'', cf_MaxAge = fst ret, cf_MaxMsgs = fst (snd ret), cf_MaxBytes = snd (snd ret),
      cf_Storage = ''file'', cf_Discard = ''old'', cf_Replicas = 1\<rparr>"

text \<open>\<open>CreateOrUpdateStream\<close> sets the configuration under the name, whether or not it exists.\<close>

definition ensurePipeStreamWithRetention ::
  "pool_site faults \<Rightarrow> uuid \<Rightarrow> string \<Rightarrow> string \<Rightarrow> string \<Rightarrow> duration \<times> int \<times> int \<Rightarrow> streams \<Rightarrow> string option \<times> streams"
where
  "ensurePipeStreamWithRetention flt accountID manifold handle pipe ret js =
     (let cfg = stream_config_for accountID manifold handle pipe ret
      in case flt (P_Stream (cf_Name cfg)) of
           Some t \<Rightarrow> (Some (''ensure stream '' @ cf_Name cfg @ '': '' @ t), js)
         | None \<Rightarrow> (None, js(cf_Name cfg \<mapsto> cfg)))"

record retentionoverride =
  ro_TTLSeconds :: "int option"
  ro_MaxMsgs :: "int option"
  ro_MaxBytes :: "int option"

text \<open>The first layer with an opinion on a field.\<close>

fun first_set :: "('a \<Rightarrow> 'b option) \<Rightarrow> 'a list \<Rightarrow> 'b option" where
  "first_set f [] = None"
| "first_set f (l # ls) = (case f l of Some v \<Rightarrow> Some v | None \<Rightarrow> first_set f ls)"

definition resolveRetention :: "retentionoverride list \<Rightarrow> duration \<times> int \<times> int" where
  "resolveRetention layers =
     ((case first_set ro_TTLSeconds layers of Some t \<Rightarrow> wrap64 (t * second) | None \<Rightarrow> defaultStreamMaxAge),
      (case first_set ro_MaxMsgs layers of Some n \<Rightarrow> n | None \<Rightarrow> defaultStreamMaxMsgs),
      (case first_set ro_MaxBytes layers of Some n \<Rightarrow> n | None \<Rightarrow> defaultStreamMaxBytes))"

definition pipeLayer :: "pipe \<Rightarrow> retentionoverride" where
  "pipeLayer p = \<lparr>ro_TTLSeconds = pp_TTLSeconds p, ro_MaxMsgs = pp_MaxMsgs p, ro_MaxBytes = pp_MaxBytes p\<rparr>"

definition pipeRetention :: "pipe \<Rightarrow> duration \<times> int \<times> int" where
  "pipeRetention p = resolveRetention [pipeLayer p]"

text \<open>The two loops of \<open>ensureSourceStreams\<close>: the kind's own pipes, then the remaining rows.\<close>

fun ensure_auto ::
  "pool_site faults \<Rightarrow> uuid \<Rightarrow> source \<Rightarrow> (string \<rightharpoonup> pipe) \<Rightarrow> string list \<Rightarrow> streams \<Rightarrow> string option \<times> streams"
where
  "ensure_auto flt accountID src stored [] js = (None, js)"
| "ensure_auto flt accountID src stored (name # names) js =
     (let ret = (case stored name of Some row \<Rightarrow> pipeRetention row | None \<Rightarrow> resolveRetention [])
      in case ensurePipeStreamWithRetention flt accountID (src_Manifold src) (src_Handle src) name ret js of
           (Some e, js') \<Rightarrow> (Some (''ensure auto stream '' @ src_Handle src @ ''.'' @ name @ '': '' @ e), js')
         | (None, js') \<Rightarrow> ensure_auto flt accountID src stored names js')"

fun ensure_user ::
  "pool_site faults \<Rightarrow> uuid \<Rightarrow> source \<Rightarrow> string list \<Rightarrow> pipe list \<Rightarrow> streams \<Rightarrow> string option \<times> streams"
where
  "ensure_user flt accountID src finished [] js = (None, js)"
| "ensure_user flt accountID src finished (row # rows) js =
     (if pp_Name row \<in> set finished then ensure_user flt accountID src finished rows js
      else case ensurePipeStreamWithRetention flt accountID (pp_Manifold row) (src_Handle src) (pp_Name row)
                  (pipeRetention row) js of
             (Some e, js') \<Rightarrow> (Some (''ensure user stream '' @ src_Handle src @ ''.'' @ pp_Name row @ '': '' @ e), js')
           | (None, js') \<Rightarrow> ensure_user flt accountID src finished rows js')"

definition ensureSourceStreams ::
  "pool_site faults \<Rightarrow> uuid \<Rightarrow> source \<Rightarrow> database \<Rightarrow> streams \<Rightarrow> string option \<times> streams"
where
  "ensureSourceStreams flt accountID src D js =
     (case ListPipesForSource (flt (P_Pipes (src_ID src))) (src_ID src) D of
        Inl e \<Rightarrow> (Some (''list pipes for '' @ src_Handle src @ '': '' @ dberr_text e), js)
      | Inr rows \<Rightarrow>
          (let stored = foldl (\<lambda>m row. m(pp_Name row \<mapsto> row)) Map.empty rows
           in case ensure_auto flt accountID src stored (source_Pipes src) js of
                (Some e, js') \<Rightarrow> (Some e, js')
              | (None, js') \<Rightarrow> ensure_user flt accountID src (source_Pipes src) rows js'))"

text \<open>\<open>deletePipeStream\<close> and \<open>deleteUncollaredPipeStream\<close>: a missing stream is not an error.\<close>

definition deletePipeStream ::
  "pool_site faults \<Rightarrow> uuid \<Rightarrow> string \<Rightarrow> string \<Rightarrow> string \<Rightarrow> streams \<Rightarrow> string option \<times> streams"
where
  "deletePipeStream flt accountID manifold handle pipe js =
     (let name = BuildStreamName accountID manifold handle pipe
      in case flt (P_Stream name) of
           Some t \<Rightarrow> (Some (''delete stream '' @ name @ '': '' @ t), js)
         | None \<Rightarrow> (None, if js name = None then js else js(name := None)))"

definition deleteUncollaredPipeStream ::
  "pool_site faults \<Rightarrow> uuid \<Rightarrow> string \<Rightarrow> string \<Rightarrow> streams \<Rightarrow> string option \<times> streams"
where
  "deleteUncollaredPipeStream flt accountID manifold name js =
     (let streamName = BuildStreamName accountID manifold '''' name
      in case flt (P_Stream streamName) of
           Some t \<Rightarrow> (Some (''delete stream '' @ streamName @ '': '' @ t), js)
         | None \<Rightarrow> (None, if js streamName = None then js else js(streamName := None)))"

section \<open>account\_pool.go\<close>

definition contains_text :: "string \<Rightarrow> string \<Rightarrow> bool" where
  "contains_text s t \<longleftrightarrow> list_ex (\<lambda>n. has_prefix (drop n s) t) [0..<Suc (length s)]"

definition isAuthViolation :: "string \<Rightarrow> bool" where
  "isAuthViolation msg \<longleftrightarrow>
     contains_text msg ''Authorization Violation'' \<or> contains_text msg ''authorization violation''"

fun ensure_sources ::
  "pool_site faults \<Rightarrow> uuid \<Rightarrow> database \<Rightarrow> source list \<Rightarrow> streams \<Rightarrow> string option \<times> streams"
where
  "ensure_sources flt accountID D [] js = (None, js)"
| "ensure_sources flt accountID D (src # srcs) js =
     (case ensureSourceStreams flt accountID src D js of
        (Some e, js') \<Rightarrow> (Some e, js')
      | (None, js') \<Rightarrow> ensure_sources flt accountID D srcs js')"

definition ensureStreamsForOrg ::
  "pool_site faults \<Rightarrow> uuid \<Rightarrow> database \<Rightarrow> streams \<Rightarrow> string option \<times> streams"
where
  "ensureStreamsForOrg flt accountID D js =
     (case ListSourcesForOrg (flt P_Sources) accountID D of
        Inl e \<Rightarrow> (Some (''list sources: '' @ dberr_text e), js)
      | Inr srcs \<Rightarrow> ensure_sources flt accountID D srcs js)"

text \<open>The row is saved before the resolver learns of the account; a failing resolver leaves it saved.\<close>

definition provisionAccount ::
  "pool_site faults \<Rightarrow> minting \<Rightarrow> account \<Rightarrow> server_world \<Rightarrow> (string + account) \<times> server_world"
where
  "provisionAccount flt mint org W =
     (if \<not> mt_Operator mint then (Inl ''server operator key is not loaded'', W)
      else case mt_Material mint of
        Inl t \<Rightarrow> (Inl t, W)
      | Inr (accPub, accJWT, signSeed) \<Rightarrow>
          (case SetNATSAccount (flt P_Save) (acct_ID org) accPub accJWT signSeed (aw_db W) of
             (Some e, D') \<Rightarrow> (Inl (''save org account: '' @ dberr_text e), W\<lparr>aw_db := D'\<rparr>)
           | (None, D') \<Rightarrow>
               (case flt P_Resolver of
                  Some t \<Rightarrow> (Inl (''resolver store: '' @ t), W\<lparr>aw_db := D'\<rparr>)
                | None \<Rightarrow>
                    (Inr (org\<lparr>acct_NATSAccountPub := accPub, acct_NATSAccountJWT := accJWT,
                              acct_NATSAccountSigningSeed := signSeed\<rparr>),
                     W\<lparr>aw_db := D', aw_resolver := (aw_resolver W)(accPub \<mapsto> accJWT)\<rparr>))))"

definition openAccount :: "string option \<Rightarrow> account \<Rightarrow> string + orgaccount" where
  "openAccount flt org =
     (case flt of Some t \<Rightarrow> Inl t
      | None \<Rightarrow> Inr \<lparr>oa_AccountID = acct_ID org, oa_AccountName = acct_Name org,
                     oa_AccountPub = acct_NATSAccountPub org\<rparr>)"

text \<open>The streams of the account's open connection are rebuilt before it enters the pool.\<close>

definition pool_enter :: "pool_site faults \<Rightarrow> uuid \<Rightarrow> orgaccount \<Rightarrow> server_world \<Rightarrow> (string + orgaccount) \<times> server_world" where
  "pool_enter flt accountID oa W =
     (let pub = oa_AccountPub oa;
          js' = snd (ensureStreamsForOrg flt (oa_AccountID oa) (aw_db W) (aw_streams W pub))
      in (Inr oa, W\<lparr>aw_streams := (aw_streams W)(pub := js'), aw_pool := (aw_pool W)(accountID \<mapsto> oa)\<rparr>))"

definition Get ::
  "pool_site faults \<Rightarrow> minting \<Rightarrow> uuid \<Rightarrow> server_world \<Rightarrow> (string + orgaccount) \<times> server_world"
where
  "Get flt mint accountID W =
     (case aw_pool W accountID of Some oa \<Rightarrow> (Inr oa, W)
      | None \<Rightarrow>
     (case GetAccount (flt P_Account) accountID (aw_db W) of
        Inl e \<Rightarrow> (Inl (''org lookup: '' @ dberr_text e), W)
      | Inr org \<Rightarrow>
          (let provisioned = (acct_NATSAccountJWT org = '''')
           in case (if provisioned then provisionAccount flt mint org W else (Inr org, W)) of
                (Inl e, W1) \<Rightarrow> (Inl (''provision '' @ acct_Name org @ '': '' @ e), W1)
              | (Inr org1, W1) \<Rightarrow>
                  (case openAccount (flt P_Open) org1 of
                     Inr oa \<Rightarrow> pool_enter flt accountID oa W1
                   | Inl e \<Rightarrow>
                       if isAuthViolation e \<and> \<not> provisioned
                       then case provisionAccount flt mint org1 W1 of
                              (Inl pe, W2) \<Rightarrow>
                                (Inl (''reprovision '' @ acct_Name org @ '' after auth violation: '' @ pe), W2)
                            | (Inr org2, W2) \<Rightarrow>
                                (case openAccount (flt P_Reopen) org2 of
                                   Inr oa \<Rightarrow> pool_enter flt accountID oa W2
                                 | Inl e2 \<Rightarrow> (Inl (''open '' @ acct_Name org @ '': '' @ e2), W2))
                       else (Inl (''open '' @ acct_Name org @ '': '' @ e), W1)))))"

definition Drop :: "uuid \<Rightarrow> server_world \<Rightarrow> server_world" where
  "Drop accountID W = W\<lparr>aw_pool := (aw_pool W)(accountID := None)\<rparr>"

definition Forget :: "uuid \<Rightarrow> server_world \<Rightarrow> server_world" where
  "Forget accountID W = W\<lparr>aw_pool := (aw_pool W)(accountID := None)\<rparr>"

text \<open>\<open>JSFor\<close>: the JetStream client is the streams of the account's public key.\<close>

definition JSFor :: "pool_site faults \<Rightarrow> minting \<Rightarrow> uuid \<Rightarrow> server_world \<Rightarrow> (string + string) \<times> server_world" where
  "JSFor flt mint accountID W =
     (case Get flt mint accountID W of (Inl e, W') \<Rightarrow> (Inl e, W') | (Inr oa, W') \<Rightarrow> (Inr (oa_AccountPub oa), W'))"

text \<open>\<open>notifyACLChanged\<close> of \<open>acl_enforce.go\<close>: best effort; opening the account may provision it.\<close>

definition notifyACLChanged :: "pool_site faults \<Rightarrow> minting \<Rightarrow> uuid \<Rightarrow> server_world \<Rightarrow> server_world" where
  "notifyACLChanged flt mint accountID W =
     (case Get flt mint accountID W of
        (Inl _, W') \<Rightarrow> W'
      | (Inr _, W') \<Rightarrow>
          (case flt P_Publish of Some _ \<Rightarrow> W' | None \<Rightarrow> W'\<lparr>aw_nudged := aw_nudged W' @ [accountID]\<rparr>))"

section \<open>What opening an account can change\<close>

text \<open>Of the database, only the three NATS columns of the account rows.\<close>

definition sans_nats :: "account_row \<Rightarrow> account_row" where
  "sans_nats a = a\<lparr>acct_NATSAccountPub := '''', acct_NATSAccountJWT := '''', acct_NATSAccountSigningSeed := ''''\<rparr>"

definition nats_only :: "database \<Rightarrow> database \<Rightarrow> bool" where
  "nats_only D D' \<longleftrightarrow> D' = D\<lparr>accounts := accounts D'\<rparr> \<and> map sans_nats (accounts D') = map sans_nats (accounts D)"

lemma nats_only_refl [simp]: "nats_only D D"
  by (simp add: nats_only_def)

lemma nats_only_trans: "nats_only D D' \<Longrightarrow> nats_only D' D'' \<Longrightarrow> nats_only D D''"
  by (cases D, cases D', cases D'') (auto simp: nats_only_def)

lemma nats_only_tables:
  assumes "nats_only D D'"
  shows "users D' = users D" "members D' = members D" "sources D' = sources D" "pipes D' = pipes D"
    "grants D' = grants D" "api_keys D' = api_keys D" "audit_events D' = audit_events D"
    "schedules D' = schedules D" "invites D' = invites D"
  using assms by (cases D, cases D', simp add: nats_only_def)+

lemma nats_only_accounts:
  assumes "nats_only D D'" and "\<And>a. f (sans_nats a) = f a"
  shows "map f (accounts D') = map f (accounts D)"
proof -
  have "map f (accounts X) = map f (map sans_nats (accounts X))" for X
    using assms(2) by simp
  then show ?thesis using assms(1) by (metis nats_only_def)
qed

lemma SetNATSAccount_nats_only: "nats_only D (snd (SetNATSAccount f a p j s D))"
  by (simp add: SetNATSAccount_def nats_only_def sans_nats_def comp_def split: option.split)

lemma provisionAccount_nats_only: "nats_only (aw_db W) (aw_db (snd (provisionAccount flt mint org W)))"
proof -
  have "nats_only (aw_db W) D'" if "SetNATSAccount f a p j s (aw_db W) = (e, D')" for f a p j s e D'
    using SetNATSAccount_nats_only [of "aw_db W" f a p j s] that by simp
  then show ?thesis
    unfolding provisionAccount_def by (auto split: sum.split prod.split option.split)
qed

lemma Get_nats_only: "nats_only (aw_db W) (aw_db (snd (Get flt mint acc W)))"
proof -
  have prov: "nats_only (aw_db V) (aw_db V')" if "provisionAccount flt mint org V = (r, V')" for org V r V'
    using provisionAccount_nats_only [of V flt mint org] that by simp
  have "aw_db (snd (pool_enter flt acc oa V)) = aw_db V" for oa V
    by (simp add: pool_enter_def Let_def)
  with prov show ?thesis
    unfolding Get_def Let_def
    by (auto split: option.split sum.split prod.split if_splits intro: nats_only_trans)
qed

lemma notify_nats_only: "nats_only (aw_db W) (aw_db (notifyACLChanged flt mint acc W))"
  using Get_nats_only [of W flt mint acc]
  by (auto simp: notifyACLChanged_def split: sum.split prod.split option.split)

lemmas notify_tables [simp] = nats_only_tables [OF notify_nats_only]
lemmas Get_tables = nats_only_tables [OF Get_nats_only]

end
