(* ===== verification/AclCompile.thy ===== *)
theory AclCompile
  imports Acl Subjects
begin

text \<open>
  The credential compiler of \<open>internal/acl/compile.go\<close> (\<open>PipeRef\<close>, \<open>Access\<close>, \<open>Permissions\<close>,
  \<open>Compile\<close>, \<open>Unrestricted\<close>) and the switch in front of it (\<open>internal/server/credential.go\<close>).
  What a compiled credential allows is decided by the NATS server, which is not in the
  repository: the locale \<open>nats_authz\<close> states its documented rule (a subject is permitted when
  some allow entry matches it and no deny entry does) over any matcher of \<open>token_matcher\<close>.
  The properties compare what the server then permits with the permissions the compiler was
  given, for publishing, for the live tail and for the JetStream read API, in both of the
  shapes the compiler can choose.
\<close>

unbundle bit_operations_syntax

section \<open>Data\<close>

record piperef =
  pf_Path :: string
  pf_Subject :: string
  pf_Stream :: string

record access =
  ac_Pipe :: piperef
  ac_Perm :: perm

record permissions =
  PubAllow :: "string list"
  PubDeny :: "string list"
  SubAllow :: "string list"
  SubDeny :: "string list"

definition wireSubject :: "string \<Rightarrow> piperef \<Rightarrow> string" where
  "wireSubject accountID r =
     (if pf_Subject r \<noteq> '''' then pf_Subject r else accountID @ ''.'' @ pf_Path r)"

section \<open>Patterns\<close>

definition jsReadPatterns :: "string list" where
  "jsReadPatterns =
     [''$JS.API.STREAM.INFO.%s'',
      ''$JS.API.STREAM.MSG.GET.%s'',
      ''$JS.API.DIRECT.GET.%s'',
      ''$JS.API.CONSUMER.CREATE.%s.>'',
      ''$JS.API.CONSUMER.MSG.NEXT.%s.>'']"

definition alwaysAllowed :: "string list" where
  "alwaysAllowed = [''$JS.API.INFO'']"

definition alwaysDenied :: "string list" where
  "alwaysDenied =
     [''$JS.API.STREAM.LIST'',
      ''$JS.API.STREAM.NAMES'',
      ''$JS.API.STREAM.CREATE.>'',
      ''$JS.API.STREAM.UPDATE.>'',
      ''$JS.API.STREAM.DELETE.>'',
      ''$JS.API.STREAM.PURGE.>'']"

text \<open>\<open>strings.Replace\<close> with a count of one: the first occurrence only.\<close>

fun replace_first :: "string \<Rightarrow> string \<Rightarrow> string \<Rightarrow> string" where
  "replace_first old new [] = []"
| "replace_first old new (c # cs) =
     (if has_prefix (c # cs) old then new @ drop (length old) (c # cs)
      else c # replace_first old new cs)"

definition expandRead :: "string \<Rightarrow> string \<Rightarrow> string" where
  "expandRead pattern stream = replace_first ''%s'' stream pattern"

definition broadRead :: "string \<Rightarrow> string" where
  "broadRead pattern = replace_first ''%s'' ''>'' (trim_suffix pattern ''.>'')"

section \<open>Compile\<close>

text \<open>The state of the loop over the access list: the permission set being built, the readable
  and the excluded pipes.\<close>

record compile_state =
  cs_P :: permissions
  cs_readable :: "piperef list"
  cs_excluded :: "piperef list"

definition compile_init :: "string \<Rightarrow> compile_state" where
  "compile_init accountID =
     \<lparr>cs_P = \<lparr>PubAllow = alwaysAllowed, PubDeny = alwaysDenied,
              SubAllow = [''_INBOX.>'', accountID @ ''._presence.>'', accountID @ ''._system.>''],
              SubDeny = []\<rparr>,
      cs_readable = [], cs_excluded = []\<rparr>"

definition compile_step :: "string \<Rightarrow> compile_state \<Rightarrow> access \<Rightarrow> compile_state" where
  "compile_step accountID st a =
     (let perm = Effective (ac_Perm a);
          p1 = (if perm AND Write \<noteq> 0
                then (cs_P st)\<lparr>PubAllow := PubAllow (cs_P st) @ [wireSubject accountID (ac_Pipe a)]\<rparr>
                else cs_P st)
      in if perm AND Read \<noteq> 0
         then st\<lparr>cs_P := p1\<lparr>SubAllow := SubAllow p1 @ [wireSubject accountID (ac_Pipe a)]\<rparr>,
                 cs_readable := cs_readable st @ [ac_Pipe a]\<rparr>
         else st\<lparr>cs_P := p1, cs_excluded := cs_excluded st @ [ac_Pipe a]\<rparr>)"

definition read_entries :: "piperef list \<Rightarrow> string list" where
  "read_entries pipes = concat (map (\<lambda>pipe. map (\<lambda>pat. expandRead pat (pf_Stream pipe)) jsReadPatterns) pipes)"

definition Compile :: "string \<Rightarrow> access list \<Rightarrow> permissions" where
  "Compile accountID access =
     (let st = foldl (compile_step accountID) (compile_init accountID) access; p = cs_P st
      in if 1 + length (cs_excluded st) < length (cs_readable st)
         then p\<lparr>PubAllow := PubAllow p @ map broadRead jsReadPatterns,
                PubDeny := PubDeny p @ read_entries (cs_excluded st)\<rparr>
         else p\<lparr>PubAllow := PubAllow p @ read_entries (cs_readable st)\<rparr>)"

definition Unrestricted :: permissions where
  "Unrestricted = \<lparr>PubAllow = [''>''], PubDeny = [], SubAllow = [''>''], SubDeny = []\<rparr>"

definition credentialPermissions :: "bool \<Rightarrow> string \<Rightarrow> access list \<Rightarrow> permissions" where
  "credentialPermissions enforced accountID access =
     (if \<not> enforced then Unrestricted else Compile accountID access)"

section \<open>The compiled lists in closed form\<close>

definition can_read :: "access \<Rightarrow> bool" where
  "can_read a \<longleftrightarrow> Effective (ac_Perm a) AND Read \<noteq> 0"

definition can_write :: "access \<Rightarrow> bool" where
  "can_write a \<longleftrightarrow> Effective (ac_Perm a) AND Write \<noteq> 0"

abbreviation readable :: "access list \<Rightarrow> piperef list" where
  "readable access \<equiv> map ac_Pipe (filter can_read access)"

abbreviation excluded :: "access list \<Rightarrow> piperef list" where
  "excluded access \<equiv> map ac_Pipe (filter (\<lambda>a. \<not> can_read a) access)"

definition deny_shape :: "access list \<Rightarrow> bool" where
  "deny_shape access \<longleftrightarrow> 1 + length (excluded access) < length (readable access)"

lemma compile_fold:
  "foldl (compile_step acc) st access =
     \<lparr>cs_P = (cs_P st)
        \<lparr>PubAllow := PubAllow (cs_P st) @ map (wireSubject acc \<circ> ac_Pipe) (filter can_write access),
         SubAllow := SubAllow (cs_P st) @ map (wireSubject acc \<circ> ac_Pipe) (filter can_read access)\<rparr>,
      cs_readable = cs_readable st @ readable access,
      cs_excluded = cs_excluded st @ excluded access\<rparr>"
proof (induction access arbitrary: st)
  case (Cons a access)
  show ?case
    unfolding foldl_Cons Cons.IH
    by (simp add: compile_step_def Let_def can_read_def [symmetric] can_write_def [symmetric])
qed simp

lemma Compile_PubAllow:
  "PubAllow (Compile acc access) =
     alwaysAllowed @ map (wireSubject acc \<circ> ac_Pipe) (filter can_write access)
     @ (if deny_shape access then map broadRead jsReadPatterns else read_entries (readable access))"
  by (simp add: Compile_def Let_def compile_fold compile_init_def deny_shape_def)

lemma Compile_PubDeny:
  "PubDeny (Compile acc access) =
     alwaysDenied @ (if deny_shape access then read_entries (excluded access) else [])"
  by (simp add: Compile_def Let_def compile_fold compile_init_def deny_shape_def)

lemma Compile_Sub:
  "SubAllow (Compile acc access) =
     [''_INBOX.>'', acc @ ''._presence.>'', acc @ ''._system.>'']
     @ map (wireSubject acc \<circ> ac_Pipe) (filter can_read access)"
  "SubDeny (Compile acc access) = []"
  by (simp_all add: Compile_def Let_def compile_fold compile_init_def)

section \<open>The patterns as tokens\<close>

text \<open>The read API in token form: a fixed prefix, the stream, and whether more tokens follow.\<close>

definition read_api :: "(string list \<times> bool) list" where
  "read_api =
     [([''$JS'', ''API'', ''STREAM'', ''INFO''], False),
      ([''$JS'', ''API'', ''STREAM'', ''MSG'', ''GET''], False),
      ([''$JS'', ''API'', ''DIRECT'', ''GET''], False),
      ([''$JS'', ''API'', ''CONSUMER'', ''CREATE''], True),
      ([''$JS'', ''API'', ''CONSUMER'', ''MSG'', ''NEXT''], True)]"

lemma expandRead_tokens:
  assumes "CHR ''.'' \<notin> set S"
  shows "map (\<lambda>pat. split_dots (expandRead pat S)) jsReadPatterns
         = map (\<lambda>(pre, b). pre @ S # (if b then [''>''] else [])) read_api"
  using split_on_no_sep [OF assms] split_on_append_sep [OF assms, of "''>''"]
  by (simp add: jsReadPatterns_def read_api_def expandRead_def has_prefix_def)

lemma broadRead_tokens:
  "map (\<lambda>pat. split_dots (broadRead pat)) jsReadPatterns = map (\<lambda>(pre, b). pre @ [''>'']) read_api"
  by (simp add: jsReadPatterns_def read_api_def broadRead_def trim_suffix_def has_prefix_def)

lemma expandRead_token_set:
  assumes "CHR ''.'' \<notin> set S"
  shows "(\<lambda>pat. split_dots (expandRead pat S)) ` set jsReadPatterns
         = (\<lambda>(pre, b). pre @ S # (if b then [''>''] else [])) ` set read_api"
  using arg_cong [OF expandRead_tokens [OF assms], of set] by simp

lemma broadRead_token_set:
  "(\<lambda>pat. split_dots (broadRead pat)) ` set jsReadPatterns = (\<lambda>(pre, b). pre @ [''>'']) ` set read_api"
  using arg_cong [OF broadRead_tokens, of set] by simp

lemma read_api_unambiguous:
  "(pre, b) \<in> set read_api \<Longrightarrow> (pre', b') \<in> set read_api \<Longrightarrow>
   pre @ S # us = pre' @ S' # us' \<Longrightarrow> pre = pre' \<and> b = b' \<and> S = S' \<and> us = us'"
  by (auto simp: read_api_def)

lemma read_api_literal:
  "(pre, b) \<in> set read_api \<Longrightarrow> ''*'' \<notin> set pre \<and> ''>'' \<notin> set pre"
  by (auto simp: read_api_def)

lemma read_api_head: "(pre, b) \<in> set read_api \<Longrightarrow> \<exists>pre'. pre = ''$JS'' # pre'"
  by (auto simp: read_api_def)

end
