(* ===== verification/AclCompileProps.thy ===== *)
theory AclCompileProps
  imports AclCompile
begin

text \<open>
  What the NATS server permits under a compiled credential. The server's authorisation rule is
  the locale \<open>nats_authz\<close>; the lemmas about \<open>Compile\<close> are proved once inside it and the
  properties restate them over the locale's predicate.
\<close>

unbundle bit_operations_syntax

section \<open>The server's authorisation rule\<close>

locale nats_authz = token_matcher "''*''" "''>''" m
  for m :: "string list \<Rightarrow> string list \<Rightarrow> bool" +
  fixes permits :: "string list \<Rightarrow> string list \<Rightarrow> string \<Rightarrow> bool"
  assumes permits_iff: "allowed \<noteq> [] \<Longrightarrow>
    permits allowed denied subj \<longleftrightarrow>
      (\<exists>a \<in> set allowed. m (split_dots a) (split_dots subj)) \<and>
      \<not> (\<exists>d \<in> set denied. m (split_dots d) (split_dots subj))"

text \<open>The rule written out for the concrete matcher, with an empty allow list allowing all.\<close>

definition nats_permits :: "string list \<Rightarrow> string list \<Rightarrow> string \<Rightarrow> bool" where
  "nats_permits allowed denied subj =
     ((allowed = [] \<or> list_ex (\<lambda>a. nats_match (split_dots a) (split_dots subj)) allowed) \<and>
      \<not> list_ex (\<lambda>d. nats_match (split_dots d) (split_dots subj)) denied)"

interpretation server: nats_authz nats_match nats_permits
  by unfold_locales (auto simp: nats_permits_def list_ex_iff)

lemma nats_permits_authz: "nats_authz nats_match nats_permits"
  by (rule server.nats_authz_axioms)

section \<open>Well-formed access lists\<close>

text \<open>A literal subject token: neither a wildcard nor empty, and free of dots.\<close>

definition literal_token :: "string \<Rightarrow> bool" where
  "literal_token t \<longleftrightarrow> t \<noteq> '''' \<and> t \<noteq> ''*'' \<and> t \<noteq> ''>'' \<and> CHR ''.'' \<notin> set t"

text \<open>
  The account's pipes as \<open>aclPipeRefs\<close> lists them: one stream and one wire subject per pipe, the
  stream a single literal token, the subject rooted at the account and free of wildcards.
\<close>

definition wf_access :: "string \<Rightarrow> access list \<Rightarrow> bool" where
  "wf_access acc access \<longleftrightarrow>
     literal_token acc \<and> acc \<noteq> ''$JS'' \<and> acc \<noteq> ''_INBOX'' \<and>
     distinct (map (pf_Stream \<circ> ac_Pipe) access) \<and>
     distinct (map (wireSubject acc \<circ> ac_Pipe) access) \<and>
     list_all (\<lambda>a. literal_token (pf_Stream (ac_Pipe a))) access \<and>
     list_all (\<lambda>a. hd (split_dots (wireSubject acc (ac_Pipe a))) = acc \<and>
                   list_all literal_token (split_dots (wireSubject acc (ac_Pipe a)))) access"

lemma wf_access_stream:
  "wf_access acc access \<Longrightarrow> a \<in> set access \<Longrightarrow> literal_token (pf_Stream (ac_Pipe a))"
  by (simp add: wf_access_def list_all_iff)

lemma wf_access_subject:
  assumes "wf_access acc access" and "a \<in> set access"
  shows "\<exists>ts. split_dots (wireSubject acc (ac_Pipe a)) = acc # ts"
    and "''*'' \<notin> set (split_dots (wireSubject acc (ac_Pipe a)))"
    and "''>'' \<notin> set (split_dots (wireSubject acc (ac_Pipe a)))"
proof -
  let ?ts = "split_dots (wireSubject acc (ac_Pipe a))"
  from assms have "hd ?ts = acc" and lit: "list_all literal_token ?ts"
    by (simp_all add: wf_access_def list_all_iff)
  then show "\<exists>ts. ?ts = acc # ts" by (cases ?ts) auto
  from lit show "''*'' \<notin> set ?ts" and "''>'' \<notin> set ?ts"
    by (auto simp: list_all_iff literal_token_def)
qed

lemma wf_access_same_stream:
  "wf_access acc access \<Longrightarrow> a \<in> set access \<Longrightarrow> a' \<in> set access \<Longrightarrow>
   pf_Stream (ac_Pipe a) = pf_Stream (ac_Pipe a') \<Longrightarrow> a = a'"
  by (auto simp: wf_access_def distinct_map inj_on_def)

lemma wf_access_same_subject:
  "wf_access acc access \<Longrightarrow> a \<in> set access \<Longrightarrow> a' \<in> set access \<Longrightarrow>
   wireSubject acc (ac_Pipe a) = wireSubject acc (ac_Pipe a') \<Longrightarrow> a = a'"
  by (auto simp: wf_access_def distinct_map inj_on_def)

section \<open>Matching the compiled entries\<close>

text \<open>The token sequences of the entries that do not depend on the access list.\<close>

lemma fixed_tokens:
  "(\<lambda>a. split_dots a) ` set alwaysAllowed = {[''$JS'', ''API'', ''INFO'']}"
  "(\<lambda>a. split_dots a) ` set alwaysDenied =
     {[''$JS'', ''API'', ''STREAM'', ''LIST''], [''$JS'', ''API'', ''STREAM'', ''NAMES''],
      [''$JS'', ''API'', ''STREAM'', ''CREATE'', ''>''], [''$JS'', ''API'', ''STREAM'', ''UPDATE'', ''>''],
      [''$JS'', ''API'', ''STREAM'', ''DELETE'', ''>''], [''$JS'', ''API'', ''STREAM'', ''PURGE'', ''>'']}"
  by (simp_all add: alwaysAllowed_def alwaysDenied_def)

text \<open>A subject of the read API that names stream \<open>S\<close> in the form the compiler expects.\<close>

definition read_request :: "string \<Rightarrow> string list \<Rightarrow> bool" where
  "read_request S ts \<longleftrightarrow>
     (\<exists>(pre, b) \<in> set read_api. \<exists>us. ts = pre @ S # us \<and> (us \<noteq> [] \<longleftrightarrow> b))"

lemma read_request_iff:
  assumes "(pre, b) \<in> set read_api"
  shows "read_request S' (pre @ S # us) \<longleftrightarrow> S' = S \<and> (us \<noteq> [] \<longleftrightarrow> b)"
proof
  assume "read_request S' (pre @ S # us)"
  then obtain pre' b' us' where "(pre', b') \<in> set read_api" "pre @ S # us = pre' @ S' # us'"
      "us' \<noteq> [] \<longleftrightarrow> b'"
    by (auto simp: read_request_def)
  with read_api_unambiguous [OF assms this(1,2)] show "S' = S \<and> (us \<noteq> [] \<longleftrightarrow> b)" by simp
next
  assume "S' = S \<and> (us \<noteq> [] \<longleftrightarrow> b)"
  with assms show "read_request S' (pre @ S # us)" unfolding read_request_def by blast
qed

context nats_authz
begin

lemma wire_match_iff:
  assumes "wf_access acc access" and "a \<in> set access"
  shows "m (split_dots (wireSubject acc (ac_Pipe a))) (split_dots subj)
         \<longleftrightarrow> subj = wireSubject acc (ac_Pipe a)"
  using literal_iff wf_access_subject(2,3) [OF assms] split_on_inj by metis

lemma read_entry_match_iff:
  assumes "literal_token S" and "(pre, b) \<in> set read_api"
  shows "m (pre @ S # (if b then [''>''] else [])) ts
         \<longleftrightarrow> (\<exists>us. ts = pre @ S # us \<and> (us \<noteq> [] \<longleftrightarrow> b))"
proof -
  have "''*'' \<notin> set (pre @ [S])" "''>'' \<notin> set (pre @ [S])"
    using assms read_api_literal [OF assms(2)] by (auto simp: literal_token_def)
  from literal_prefix_iff [OF this, of "if b then [''>''] else []" ts] show ?thesis
    by auto
qed

lemma broad_entry_match_iff:
  assumes "(pre, b) \<in> set read_api"
  shows "m (pre @ [''>'']) ts \<longleftrightarrow> (\<exists>us. us \<noteq> [] \<and> ts = pre @ us)"
  using prefix_rest_iff read_api_literal [OF assms] by blast

lemma fixed_allowed_match:
  "(\<exists>a \<in> set alwaysAllowed. m (split_dots a) ts) \<longleftrightarrow> ts = [''$JS'', ''API'', ''INFO'']"
proof -
  have "(\<exists>a \<in> set alwaysAllowed. m (split_dots a) ts)
      \<longleftrightarrow> (\<exists>u \<in> (\<lambda>a. split_dots a) ` set alwaysAllowed. m u ts)" by blast
  also have "\<dots> \<longleftrightarrow> ts = [''$JS'', ''API'', ''INFO'']"
    unfolding fixed_tokens(1) by (simp add: literal_iff)
  finally show ?thesis .
qed

lemma read_entries_match:
  assumes "\<forall>pipe \<in> set pipes. literal_token (pf_Stream pipe)"
  shows "(\<exists>e \<in> set (read_entries pipes). m (split_dots e) ts) \<longleftrightarrow>
    (\<exists>pipe \<in> set pipes. read_request (pf_Stream pipe) ts)"
proof -
  have one: "(\<exists>pat \<in> set jsReadPatterns. m (split_dots (expandRead pat (pf_Stream pipe))) ts) \<longleftrightarrow>
      (\<exists>(pre, b) \<in> set read_api. \<exists>us. ts = pre @ pf_Stream pipe # us \<and> (us \<noteq> [] \<longleftrightarrow> b))"
    if "pipe \<in> set pipes" for pipe
  proof -
    let ?S = "pf_Stream pipe"
    from that assms have S: "literal_token ?S" by blast
    then have dot: "CHR ''.'' \<notin> set ?S" by (simp add: literal_token_def)
    have "(\<exists>pat \<in> set jsReadPatterns. m (split_dots (expandRead pat ?S)) ts)
        \<longleftrightarrow> (\<exists>u \<in> (\<lambda>pat. split_dots (expandRead pat ?S)) ` set jsReadPatterns. m u ts)" by blast
    also have "\<dots> \<longleftrightarrow> (\<exists>(pre, b) \<in> set read_api. m (pre @ ?S # (if b then [''>''] else [])) ts)"
      unfolding expandRead_token_set [OF dot] by (simp add: case_prod_beta)
    also have "\<dots> \<longleftrightarrow> (\<exists>(pre, b) \<in> set read_api. \<exists>us. ts = pre @ ?S # us \<and> (us \<noteq> [] \<longleftrightarrow> b))"
    proof (rule bex_cong [OF refl])
      fix x assume x: "x \<in> set read_api"
      show "(case x of (pre, b) \<Rightarrow> m (pre @ ?S # (if b then [''>''] else [])) ts) \<longleftrightarrow>
          (case x of (pre, b) \<Rightarrow> \<exists>us. ts = pre @ ?S # us \<and> (us \<noteq> [] \<longleftrightarrow> b))"
        using read_entry_match_iff [OF S, of "fst x" "snd x"] x by (simp add: case_prod_beta)
    qed
    finally show ?thesis .
  qed
  have "(\<exists>e \<in> set (read_entries pipes). m (split_dots e) ts)
      \<longleftrightarrow> (\<exists>pipe \<in> set pipes. \<exists>pat \<in> set jsReadPatterns. m (split_dots (expandRead pat (pf_Stream pipe))) ts)"
    by (auto simp: read_entries_def)
  also have "\<dots> \<longleftrightarrow>
    (\<exists>pipe \<in> set pipes. read_request (pf_Stream pipe) ts)"
    using one unfolding read_request_def by (rule bex_cong [OF refl])
  finally show ?thesis .
qed

lemma broad_match:
  "(\<exists>pat \<in> set jsReadPatterns. m (split_dots (broadRead pat)) ts) \<longleftrightarrow>
   (\<exists>(pre, b) \<in> set read_api. \<exists>us. us \<noteq> [] \<and> ts = pre @ us)"
proof -
  have "(\<exists>pat \<in> set jsReadPatterns. m (split_dots (broadRead pat)) ts)
      \<longleftrightarrow> (\<exists>u \<in> (\<lambda>pat. split_dots (broadRead pat)) ` set jsReadPatterns. m u ts)" by blast
  also have "\<dots> \<longleftrightarrow> (\<exists>(pre, b) \<in> set read_api. m (pre @ [''>'']) ts)"
    unfolding broadRead_token_set by (simp add: case_prod_beta)
  also have "\<dots> \<longleftrightarrow> (\<exists>(pre, b) \<in> set read_api. \<exists>us. us \<noteq> [] \<and> ts = pre @ us)"
    by (rule bex_cong [OF refl]) (auto simp: broad_entry_match_iff)
  finally show ?thesis .
qed

lemma read_api_not_denied:
  assumes "(pre, b) \<in> set read_api"
  shows "\<not> (\<exists>d \<in> set alwaysDenied. m (split_dots d) (pre @ us))"
proof -
  have "\<not> (\<exists>u \<in> (\<lambda>a. split_dots a) ` set alwaysDenied. m u (pre @ us))"
    unfolding fixed_tokens(2) using assms by (auto simp: read_api_def step)
  then show ?thesis by blast
qed

lemma js_not_wire:
  assumes "wf_access acc access" and "a \<in> set access"
  shows "\<not> m (split_dots (wireSubject acc (ac_Pipe a))) (''$JS'' # ts)"
proof -
  have "acc \<noteq> ''*''" "acc \<noteq> ''>''" "acc \<noteq> ''$JS''"
    using assms(1) by (simp_all add: wf_access_def literal_token_def)
  with wf_access_subject(1) [OF assms] show ?thesis by (auto simp: step)
qed

lemma PubAllow_nonempty: "PubAllow (Compile acc access) \<noteq> []"
  by (simp add: Compile_PubAllow alwaysAllowed_def)

lemma allowed_read_iff:
  assumes wf: "wf_access acc access" and api: "(pre, b) \<in> set read_api"
    and ts: "split_dots subj = pre @ S # us" and S: "literal_token S"
  shows "(\<exists>e \<in> set (PubAllow (Compile acc access)). m (split_dots e) (split_dots subj)) \<longleftrightarrow>
    (if deny_shape access then True
     else (us \<noteq> [] \<longleftrightarrow> b) \<and> (\<exists>a \<in> set access. can_read a \<and> pf_Stream (ac_Pipe a) = S))"
proof -
  obtain pre' where pre: "pre = ''$JS'' # pre'" using read_api_head [OF api] by blast
  have info: "pre @ S # us \<noteq> [''$JS'', ''API'', ''INFO'']" using api by (auto simp: read_api_def)
  have wires: "\<not> (\<exists>e \<in> set (map (wireSubject acc \<circ> ac_Pipe) (filter can_write access)).
      m (split_dots e) (pre @ S # us))"
    using js_not_wire [OF wf] by (auto simp: pre)
  have streams: "\<forall>pipe \<in> set (readable access). literal_token (pf_Stream pipe)"
    using wf_access_stream [OF wf] by auto
  have entries: "(\<exists>e \<in> set (read_entries (readable access)). m (split_dots e) (pre @ S # us)) \<longleftrightarrow>
      (us \<noteq> [] \<longleftrightarrow> b) \<and> (\<exists>a \<in> set access. can_read a \<and> pf_Stream (ac_Pipe a) = S)"
  proof -
    show ?thesis unfolding read_entries_match [OF streams] read_request_iff [OF api] by auto
  qed
  have broad: "\<exists>pat \<in> set jsReadPatterns. m (split_dots (broadRead pat)) (pre @ S # us)"
    unfolding broad_match using api by blast
  show ?thesis
  proof (cases "deny_shape access")
    case True
    with broad show ?thesis by (auto simp: Compile_PubAllow ts)
  next
    case False
    with info wires entries show ?thesis
      unfolding Compile_PubAllow ts set_append bex_Un fixed_allowed_match by simp
  qed
qed

lemma denied_read_iff:
  assumes wf: "wf_access acc access" and api: "(pre, b) \<in> set read_api"
    and ts: "split_dots subj = pre @ S # us" and S: "literal_token S"
  shows "(\<exists>e \<in> set (PubDeny (Compile acc access)). m (split_dots e) (split_dots subj)) \<longleftrightarrow>
    deny_shape access \<and> (us \<noteq> [] \<longleftrightarrow> b) \<and>
    (\<exists>a \<in> set access. \<not> can_read a \<and> pf_Stream (ac_Pipe a) = S)"
proof -
  have streams: "\<forall>pipe \<in> set (excluded access). literal_token (pf_Stream pipe)"
    using wf_access_stream [OF wf] by auto
  have entries: "(\<exists>e \<in> set (read_entries (excluded access)). m (split_dots e) (pre @ S # us)) \<longleftrightarrow>
      (us \<noteq> [] \<longleftrightarrow> b) \<and> (\<exists>a \<in> set access. \<not> can_read a \<and> pf_Stream (ac_Pipe a) = S)"
    unfolding read_entries_match [OF streams] read_request_iff [OF api] by auto
  show ?thesis
    using read_api_not_denied [OF api, of "S # us"] entries
    unfolding Compile_PubDeny ts set_append bex_Un by (cases "deny_shape access") simp_all
qed

lemma read_permitted_iff:
  assumes wf: "wf_access acc access" and api: "(pre, b) \<in> set read_api"
    and ts: "split_dots subj = pre @ S # us" and S: "literal_token S"
  shows "permits (PubAllow (Compile acc access)) (PubDeny (Compile acc access)) subj \<longleftrightarrow>
    (if deny_shape access
     then \<not> ((us \<noteq> [] \<longleftrightarrow> b) \<and> (\<exists>a \<in> set access. \<not> can_read a \<and> pf_Stream (ac_Pipe a) = S))
     else (us \<noteq> [] \<longleftrightarrow> b) \<and> (\<exists>a \<in> set access. can_read a \<and> pf_Stream (ac_Pipe a) = S))"
  unfolding permits_iff [OF PubAllow_nonempty] allowed_read_iff [OF assms] denied_read_iff [OF assms]
  by (cases "deny_shape access") simp_all

lemma read_stream_iff:
  assumes wf: "wf_access acc access" and a: "a \<in> set access" and api: "(pre, b) \<in> set read_api"
    and ts: "split_dots subj = pre @ pf_Stream (ac_Pipe a) # us" and us: "us \<noteq> [] \<longleftrightarrow> b"
  shows "permits (PubAllow (Compile acc access)) (PubDeny (Compile acc access)) subj \<longleftrightarrow> can_read a"
proof -
  have only: "(\<exists>a' \<in> set access. P a' \<and> pf_Stream (ac_Pipe a') = pf_Stream (ac_Pipe a)) \<longleftrightarrow> P a" for P
    using wf_access_same_stream [OF wf _ a] a by blast
  show ?thesis
    unfolding read_permitted_iff [OF wf api ts wf_access_stream [OF wf a]] only
    using us by (cases "deny_shape access") simp_all
qed

lemma wire_subject_iff:
  assumes wf: "wf_access acc access" and a: "a \<in> set access"
  shows "(\<exists>e \<in> set (map (wireSubject acc \<circ> ac_Pipe) (filter P access)).
            m (split_dots e) (split_dots (wireSubject acc (ac_Pipe a)))) \<longleftrightarrow> P a"
  using wire_match_iff [OF wf, of _ "wireSubject acc (ac_Pipe a)"]
    wf_access_same_subject [OF wf a] a by auto

lemma api_entry_not_wire:
  assumes wf: "wf_access acc access" and a: "a \<in> set access"
  shows "\<not> m (''$JS'' # ts) (split_dots (wireSubject acc (ac_Pipe a)))"
  using wf_access_subject(1) [OF assms] wf by (auto simp: step wf_access_def)

lemma api_entries:
  assumes "\<forall>pipe \<in> set pipes. literal_token (pf_Stream pipe)"
    and "e \<in> set alwaysAllowed \<union> set alwaysDenied \<union> set (read_entries pipes) \<union> broadRead ` set jsReadPatterns"
  shows "\<exists>ts. split_dots e = ''$JS'' # ts"
proof -
  have reads: "\<exists>ts. split_dots (expandRead pat S) = ''$JS'' # ts"
    if "literal_token S" and "pat \<in> set jsReadPatterns" for pat S
  proof -
    from that(1) have "CHR ''.'' \<notin> set S" by (simp add: literal_token_def)
    from expandRead_token_set [OF this] that(2) obtain pre b where
      "(pre, b) \<in> set read_api" "split_dots (expandRead pat S) = pre @ S # (if b then [''>''] else [])"
      by (smt (verit, ccfv_threshold) case_prod_conv image_iff old.prod.exhaust)
    then show ?thesis using read_api_head by fastforce
  qed
  have broad: "\<exists>ts. split_dots (broadRead pat) = ''$JS'' # ts" if "pat \<in> set jsReadPatterns" for pat
    using that by (auto simp: jsReadPatterns_def broadRead_def trim_suffix_def has_prefix_def)
  have "\<exists>ts. split_dots e = ''$JS'' # ts" if "e \<in> set alwaysAllowed \<union> set alwaysDenied"
    using that by (auto simp: alwaysAllowed_def alwaysDenied_def)
  with assms reads broad show ?thesis by (auto simp: read_entries_def)
qed

lemma publish_iff:
  assumes wf: "wf_access acc access" and a: "a \<in> set access"
  shows "permits (PubAllow (Compile acc access)) (PubDeny (Compile acc access))
           (wireSubject acc (ac_Pipe a)) \<longleftrightarrow> can_write a"
proof -
  let ?w = "split_dots (wireSubject acc (ac_Pipe a))"
  have R: "\<forall>pipe \<in> set (readable access). literal_token (pf_Stream pipe)"
    and E: "\<forall>pipe \<in> set (excluded access). literal_token (pf_Stream pipe)"
    using wf_access_stream [OF wf] by auto
  have no: "\<not> m (split_dots e) ?w"
    if "e \<in> set alwaysAllowed \<union> set alwaysDenied \<union> set (read_entries (readable access))
          \<union> set (read_entries (excluded access)) \<union> broadRead ` set jsReadPatterns" for e
    using that api_entries [OF R, of e] api_entries [OF E, of e] api_entry_not_wire [OF assms] by auto
  have "(\<exists>e \<in> set (PubAllow (Compile acc access)). m (split_dots e) ?w) \<longleftrightarrow>
      (\<exists>e \<in> set (map (wireSubject acc \<circ> ac_Pipe) (filter can_write access)). m (split_dots e) ?w)"
    unfolding Compile_PubAllow using no by (cases "deny_shape access") auto
  moreover have "\<not> (\<exists>e \<in> set (PubDeny (Compile acc access)). m (split_dots e) ?w)"
    unfolding Compile_PubDeny using no by (cases "deny_shape access") auto
  ultimately show ?thesis
    unfolding permits_iff [OF PubAllow_nonempty] wire_subject_iff [OF assms] by simp
qed

lemma subscribe_iff:
  assumes wf: "wf_access acc access" and a: "a \<in> set access"
    and ordinary: "split_dots (wireSubject acc (ac_Pipe a)) = acc # t # us"
      "t \<noteq> PresenceSegment" "t \<noteq> SystemSegment"
  shows "permits (SubAllow (Compile acc access)) (SubDeny (Compile acc access))
           (wireSubject acc (ac_Pipe a)) \<longleftrightarrow> can_read a"
proof -
  let ?w = "split_dots (wireSubject acc (ac_Pipe a))"
  have acc: "acc \<noteq> ''_INBOX''" "CHR ''.'' \<notin> set acc" "acc \<noteq> ''>''"
    using wf by (simp_all add: wf_access_def literal_token_def)
  have "split_dots (acc @ ''._presence.>'') = [acc, ''_presence'', ''>'']"
    and "split_dots (acc @ ''._system.>'') = [acc, ''_system'', ''>'']"
    using split_on_append_sep [OF acc(2)] by simp_all
  then have "\<not> (\<exists>e \<in> set [''_INBOX.>'', acc @ ''._presence.>'', acc @ ''._system.>'']. m (split_dots e) ?w)"
    using acc ordinary by (auto simp: step PresenceSegment_def SystemSegment_def)
  then show ?thesis
    using wire_subject_iff [OF wf a, of can_read]
    by (simp add: permits_iff Compile_Sub)
qed

lemma lifecycle_denied:
  assumes "split_dots subj \<in> {[''$JS'', ''API'', ''STREAM'', ''LIST''], [''$JS'', ''API'', ''STREAM'', ''NAMES'']}
    \<or> (\<exists>op us. op \<in> {''CREATE'', ''UPDATE'', ''DELETE'', ''PURGE''} \<and> us \<noteq> [] \<and>
          split_dots subj = [''$JS'', ''API'', ''STREAM'', op] @ us)"
  shows "\<not> permits (PubAllow (Compile acc access)) (PubDeny (Compile acc access)) subj"
proof -
  have "\<exists>u \<in> (\<lambda>a. split_dots a) ` set alwaysDenied. m u (split_dots subj)"
    unfolding fixed_tokens(2) using assms by (auto simp: step)
  then have "\<exists>d \<in> set (PubDeny (Compile acc access)). m (split_dots d) (split_dots subj)"
    by (auto simp: Compile_PubDeny)
  then show ?thesis using permits_iff [OF PubAllow_nonempty] by blast
qed

end

section \<open>Properties\<close>

text \<open>A small account used by the witnesses: one pipe per access level.\<close>

definition ex_access :: "access list" where
  "ex_access =
     [\<lparr>ac_Pipe = \<lparr>pf_Path = ''alice.inbox'', pf_Subject = ''acct.alice.inbox'', pf_Stream = ''acct_alice_inbox''\<rparr>, ac_Perm = Write\<rparr>,
      \<lparr>ac_Pipe = \<lparr>pf_Path = ''alice.log'', pf_Subject = ''acct.alice.log'', pf_Stream = ''acct_alice_log''\<rparr>, ac_Perm = Read\<rparr>,
      \<lparr>ac_Pipe = \<lparr>pf_Path = ''room'', pf_Subject = '''', pf_Stream = ''acct_room''\<rparr>, ac_Perm = Admin\<rparr>,
      \<lparr>ac_Pipe = \<lparr>pf_Path = ''lobby'', pf_Subject = '''', pf_Stream = ''acct_lobby''\<rparr>, ac_Perm = Read\<rparr>]"

lemma ex_access_wf: "wf_access ''acct'' ex_access"
  by (simp add: wf_access_def ex_access_def literal_token_def wireSubject_def)

lemma ex_access_rights: "map can_read ex_access = [False, True, True, True]"
  "map can_write ex_access = [True, False, True, False]"
  by (simp_all add: ex_access_def can_read_def can_write_def Effective_def Read_def Write_def Admin_def)

lemma ex_access_shape: "deny_shape ex_access"
  using ex_access_rights by (simp add: deny_shape_def ex_access_def)



text \<open>C3: write fidelity. A publish on a pipe's wire subject is permitted exactly when the
  principal's effective permission on that pipe includes write; neither shape of the read part
  adds or removes a publish right.\<close>

theorem Compile_publish_fidelity:
  assumes "nats_authz nm permits" and "wf_access acc access" and "a \<in> set access"
  shows "permits (PubAllow (Compile acc access)) (PubDeny (Compile acc access))
           (wireSubject acc (ac_Pipe a)) \<longleftrightarrow> can_write a"
  using nats_authz.publish_iff [OF assms] .

theorem Compile_publish_fidelity_witness:
  "nats_permits (PubAllow (Compile ''acct'' ex_access)) (PubDeny (Compile ''acct'' ex_access)) ''acct.alice.inbox''
   \<and> \<not> nats_permits (PubAllow (Compile ''acct'' ex_access)) (PubDeny (Compile ''acct'' ex_access)) ''acct.lobby''"
  using Compile_publish_fidelity [OF nats_permits_authz ex_access_wf, of "ex_access ! 0"]
    Compile_publish_fidelity [OF nats_permits_authz ex_access_wf, of "ex_access ! 3"] ex_access_rights
  by (simp add: ex_access_def wireSubject_def)

text \<open>C4: live-tail fidelity. For a pipe that does not ride the presence or the system channel,
  subscribing to its wire subject is permitted exactly when the principal may read the pipe.\<close>

theorem Compile_subscribe_fidelity:
  assumes "nats_authz nm permits" and "wf_access acc access" and "a \<in> set access"
    and "split_dots (wireSubject acc (ac_Pipe a)) = acc # t # us"
    and "t \<noteq> PresenceSegment" and "t \<noteq> SystemSegment"
  shows "permits (SubAllow (Compile acc access)) (SubDeny (Compile acc access))
           (wireSubject acc (ac_Pipe a)) \<longleftrightarrow> can_read a"
  using nats_authz.subscribe_iff [OF assms] .

theorem Compile_subscribe_fidelity_witness:
  "\<not> nats_permits (SubAllow (Compile ''acct'' ex_access)) (SubDeny (Compile ''acct'' ex_access)) ''acct.alice.inbox''
   \<and> nats_permits (SubAllow (Compile ''acct'' ex_access)) (SubDeny (Compile ''acct'' ex_access)) ''acct.lobby''"
  using Compile_subscribe_fidelity [OF nats_permits_authz ex_access_wf, of "ex_access ! 0" "''alice''" "[''inbox'']"]
    Compile_subscribe_fidelity [OF nats_permits_authz ex_access_wf, of "ex_access ! 3" "''lobby''" "[]"]
    ex_access_rights
  by (simp add: ex_access_def wireSubject_def PresenceSegment_def SystemSegment_def)

text \<open>no compiled credential, whatever the access list, may list the account's streams or
  create, update, delete or purge one.\<close>

theorem Compile_lifecycle_denied:
  assumes "nats_authz nm permits"
    and "split_dots subj \<in> {[''$JS'', ''API'', ''STREAM'', ''LIST''], [''$JS'', ''API'', ''STREAM'', ''NAMES'']}
      \<or> (\<exists>op us. op \<in> {''CREATE'', ''UPDATE'', ''DELETE'', ''PURGE''} \<and> us \<noteq> [] \<and>
            split_dots subj = [''$JS'', ''API'', ''STREAM'', op] @ us)"
  shows "\<not> permits (PubAllow (Compile acc access)) (PubDeny (Compile acc access)) subj"
  using nats_authz.lifecycle_denied [OF assms] .

theorem Compile_lifecycle_denied_witness:
  "\<not> nats_permits (PubAllow (Compile ''acct'' ex_access)) (PubDeny (Compile ''acct'' ex_access))
       ''$JS.API.STREAM.PURGE.acct_room''"
  by (rule Compile_lifecycle_denied [OF nats_permits_authz]) simp

text \<open>the allow-list shape fails closed. When \<open>Compile\<close> chooses it, a read request for a stream
  that is not in the access list at all is refused, while the deny-list shape permits it.\<close>

theorem Compile_unlisted_stream:
  assumes "nats_authz nm permits" and "wf_access acc access"
    and "(pre, b) \<in> set read_api" and "split_dots subj = pre @ S # us" and "literal_token S"
    and "S \<notin> set (map (pf_Stream \<circ> ac_Pipe) access)"
  shows "permits (PubAllow (Compile acc access)) (PubDeny (Compile acc access)) subj
         \<longleftrightarrow> deny_shape access"
  using nats_authz.read_permitted_iff [OF assms(1-5)] assms(6) by auto

theorem Compile_unlisted_stream_witness:
  "nats_permits (PubAllow (Compile ''acct'' ex_access)) (PubDeny (Compile ''acct'' ex_access))
     ''$JS.API.STREAM.INFO.acct_new''"
  using Compile_unlisted_stream [OF nats_permits_authz ex_access_wf,
      of "[''$JS'', ''API'', ''STREAM'', ''INFO'']" False "''$JS.API.STREAM.INFO.acct_new''" "''acct_new''" "[]"]
    ex_access_shape
  by (simp add: read_api_def literal_token_def) (simp add: ex_access_def)

text \<open>the deny-list shape leaves a gap. When it is chosen, the entries written for an excluded
  pipe do not cover the two other forms of the read API the broad allows admit: the consumer
  creation request with no token after the stream, and the direct get with the subject appended,
  are permitted on every stream, also one the principal may not read.\<close>

theorem Compile_deny_shape_gap:
  assumes "nats_authz nm permits" and "wf_access acc access" and "deny_shape access"
    and "a \<in> set access" and "us \<noteq> []"
    and "split_dots create = [''$JS'', ''API'', ''CONSUMER'', ''CREATE'', pf_Stream (ac_Pipe a)]"
    and "split_dots direct = [''$JS'', ''API'', ''DIRECT'', ''GET'', pf_Stream (ac_Pipe a)] @ us"
  shows "permits (PubAllow (Compile acc access)) (PubDeny (Compile acc access)) create \<and>
         permits (PubAllow (Compile acc access)) (PubDeny (Compile acc access)) direct"
  using assms(3,5-7) wf_access_stream [OF assms(2,4)]
    nats_authz.read_permitted_iff [OF assms(1,2), of "[''$JS'', ''API'', ''CONSUMER'', ''CREATE'']" True create
      "pf_Stream (ac_Pipe a)" "[]"]
    nats_authz.read_permitted_iff [OF assms(1,2), of "[''$JS'', ''API'', ''DIRECT'', ''GET'']" False direct
      "pf_Stream (ac_Pipe a)" us]
  by (simp add: read_api_def)

theorem Compile_deny_shape_gap_witness:
  "\<not> can_read (ex_access ! 0) \<and>
   nats_permits (PubAllow (Compile ''acct'' ex_access)) (PubDeny (Compile ''acct'' ex_access))
     ''$JS.API.CONSUMER.CREATE.acct_alice_inbox'' \<and>
   nats_permits (PubAllow (Compile ''acct'' ex_access)) (PubDeny (Compile ''acct'' ex_access))
     ''$JS.API.DIRECT.GET.acct_alice_inbox.acct.alice.inbox''"
  using Compile_deny_shape_gap [OF nats_permits_authz ex_access_wf ex_access_shape, of "ex_access ! 0"
      "[''acct'', ''alice'', ''inbox'']" "''$JS.API.CONSUMER.CREATE.acct_alice_inbox''"
      "''$JS.API.DIRECT.GET.acct_alice_inbox.acct.alice.inbox''"] ex_access_rights
  by (simp add: ex_access_def)

end
