(* ===== verification/AclPreview.thy ===== *)
theory AclPreview
  imports AclCompile "HOL-Library.List_Lexorder" "HOL-Library.Char_ord"
begin

text \<open>
  The enable preview of \<open>internal/acl/preview.go\<close>: what a plain member loses when an org turns
  enforcement on. The property compares the report with the evaluator itself.
\<close>

unbundle bit_operations_syntax

record sourceref =
  sr_Handle :: string
  sr_Kind :: string
  sr_OwnerID :: uuid
  sr_OwnerIsMember :: bool

record previewinput =
  pi_OrgOwnerID :: uuid
  pi_OrgOwnerIsPlaceholder :: bool
  pi_Members :: "principal list"
  pi_Sources :: "sourceref list"
  pi_Pipes :: "piperef list"

record orphanref =
  or_Handle :: string
  or_Owner :: string

record terminalref =
  tr_Handle :: string
  tr_Owner :: string

record pipeloss =
  pl_Pipe :: string
  pl_Owner :: string

record preview =
  OrphanedHandles :: "orphanref list"
  PlaceholderOwnedOrg :: bool
  SharedTerminals :: "terminalref list"
  InboxReadLoss :: "pipeloss list"
  CollaredUserPipes :: "pipeloss list"
  affected :: "string list"

definition preview_IsEmpty :: "preview \<Rightarrow> bool" where
  "preview_IsEmpty p \<longleftrightarrow>
     \<not> PlaceholderOwnedOrg p \<and> OrphanedHandles p = [] \<and> SharedTerminals p = [] \<and>
     InboxReadLoss p = [] \<and> CollaredUserPipes p = []"

text \<open>\<open>sort.Strings\<close> orders by bytes.\<close>

definition AllAffectedPipes :: "preview \<Rightarrow> string list" where
  "AllAffectedPipes p = sort (affected p)"

definition stdioPipes :: "string list" where
  "stdioPipes = [''stdin'', ''stdout'', ''stdctrl'', ''system'']"

text \<open>Go maps read with a missing key: the zero value.\<close>

definition name_of :: "(uuid \<rightharpoonup> string) \<Rightarrow> uuid \<Rightarrow> string" where
  "name_of names i = (case names i of Some n \<Rightarrow> n | None \<Rightarrow> '''')"

definition preview_source ::
  "(uuid \<rightharpoonup> string) \<Rightarrow> (string \<rightharpoonup> sourceref) \<times> preview \<Rightarrow> sourceref \<Rightarrow> (string \<rightharpoonup> sourceref) \<times> preview"
where
  "preview_source names st s =
     (let p = snd st;
          p1 = (if \<not> sr_OwnerIsMember s
                then p\<lparr>OrphanedHandles := OrphanedHandles p @
                        [\<lparr>or_Handle = sr_Handle s, or_Owner = name_of names (sr_OwnerID s)\<rparr>]\<rparr>
                else p);
          p2 = (if sr_Kind s = ''pty''
                then p1\<lparr>SharedTerminals := SharedTerminals p1 @
                        [\<lparr>tr_Handle = sr_Handle s, tr_Owner = name_of names (sr_OwnerID s)\<rparr>]\<rparr>
                else p1)
      in ((fst st)(sr_Handle s \<mapsto> s), p2))"

definition preview_pipe ::
  "(uuid \<rightharpoonup> string) \<Rightarrow> (string \<rightharpoonup> sourceref) \<Rightarrow> bool \<Rightarrow> preview \<Rightarrow> piperef \<Rightarrow> preview"
where
  "preview_pipe names sources othersExist p pipe =
     (let parts = split_dots (pf_Path pipe)
      in if length parts < 2 then p
         else case sources (hd parts) of None \<Rightarrow> p
           | Some src \<Rightarrow>
               (let name = last parts; owner = name_of names (sr_OwnerID src);
                    loss = \<lparr>pl_Pipe = pf_Path pipe, pl_Owner = owner\<rparr>;
                    mark = (\<lambda>p. p\<lparr>affected := affected p @ [pf_Path pipe]\<rparr>)
                in if name = PresencePipe then p
                   else if name = ''inbox'' then
                     (if othersExist then mark (p\<lparr>InboxReadLoss := InboxReadLoss p @ [loss]\<rparr>) else p)
                   else if name \<in> set stdioPipes then (if othersExist then mark p else p)
                   else if name \<notin> set AutoProvisionedPipes then
                     (if othersExist then mark (p\<lparr>CollaredUserPipes := CollaredUserPipes p @ [loss]\<rparr>) else p)
                   else p))"

definition BuildPreview :: "previewinput \<Rightarrow> preview" where
  "BuildPreview inp =
     (let p0 = \<lparr>OrphanedHandles = [], PlaceholderOwnedOrg = pi_OrgOwnerIsPlaceholder inp, SharedTerminals = [],
                InboxReadLoss = [], CollaredUserPipes = [], affected = []\<rparr>;
          names = foldl (\<lambda>m p. m(pr_ID p \<mapsto> pr_Name p)) Map.empty (pi_Members inp);
          st = foldl (preview_source names) (Map.empty, p0) (pi_Sources inp);
          othersExist = length (pi_Members inp) > 1
      in foldl (preview_pipe names (fst st) othersExist) (snd st) (pi_Pipes inp))"

section \<open>The report against the evaluator\<close>

text \<open>The last source listed under a handle, as the Go map keeps it.\<close>

definition source_map :: "sourceref list \<Rightarrow> string \<rightharpoonup> sourceref" where
  "source_map = foldl (\<lambda>m s. m(sr_Handle s \<mapsto> s)) Map.empty"

definition preview_marks :: "(string \<rightharpoonup> sourceref) \<Rightarrow> piperef \<Rightarrow> bool" where
  "preview_marks sources pipe \<longleftrightarrow>
     (let parts = split_dots (pf_Path pipe)
      in length parts \<ge> 2 \<and> sources (hd parts) \<noteq> None \<and> last parts \<noteq> PresencePipe \<and>
         (last parts \<in> set (''inbox'' # stdioPipes) \<or> last parts \<notin> set AutoProvisionedPipes))"

lemma preview_source_fold:
  "fst (foldl (preview_source names) st ss) = foldl (\<lambda>m s. m(sr_Handle s \<mapsto> s)) (fst st) ss \<and>
   affected (snd (foldl (preview_source names) st ss)) = affected (snd st)"
  by (induction ss arbitrary: st) (auto simp: preview_source_def Let_def)

lemma preview_pipe_affected:
  "affected (preview_pipe names sources others p pipe) =
     affected p @ (if others \<and> preview_marks sources pipe then [pf_Path pipe] else [])"
  by (auto simp: preview_pipe_def preview_marks_def Let_def PresencePipe_def split: option.splits)

lemma preview_pipe_fold:
  "affected (foldl (preview_pipe names sources others) p ps) =
     affected p @ map pf_Path (filter (\<lambda>x. others \<and> preview_marks sources x) ps)"
  by (induction ps arbitrary: p) (auto simp: preview_pipe_affected)

lemma BuildPreview_affected:
  "affected (BuildPreview inp) =
     map pf_Path (filter (\<lambda>x. length (pi_Members inp) > 1 \<and> preview_marks (source_map (pi_Sources inp)) x) (pi_Pipes inp))"
proof -
  note ps = preview_source_fold
  show ?thesis
    unfolding BuildPreview_def Let_def preview_pipe_fold ps [THEN conjunct1] ps [THEN conjunct2]
    by (simp add: source_map_def)
qed

text \<open>The subject the evaluator is given for a pipe, with the collar taken from the same map.\<close>

definition preview_subject :: "(string \<rightharpoonup> sourceref) \<Rightarrow> piperef \<Rightarrow> subject" where
  "preview_subject sources pipe =
     (let parts = split_dots (pf_Path pipe)
      in case (if length parts < 2 then None else sources (hd parts)) of
           Some s \<Rightarrow> \<lparr>sj_Path = pf_Path pipe, sj_Collar = sr_Handle s, sj_Name = last parts, sj_Owner = sr_OwnerID s\<rparr>
         | None \<Rightarrow> \<lparr>sj_Path = pf_Path pipe, sj_Collar = '''', sj_Name = last parts, sj_Owner = uuid_nil\<rparr>)"

lemma source_map_handle: "source_map ss h = Some s \<Longrightarrow> s \<in> set ss \<and> sr_Handle s = h"
proof -
  have "foldl (\<lambda>m s. m(sr_Handle s \<mapsto> s)) m ss h = Some s \<Longrightarrow> (s \<in> set ss \<and> sr_Handle s = h) \<or> m h = Some s" for m
    by (induction ss arbitrary: m) (fastforce split: if_splits)+
  then show "source_map ss h = Some s \<Longrightarrow> s \<in> set ss \<and> sr_Handle s = h"
    by (fastforce simp: source_map_def)
qed

section \<open>Property\<close>

text \<open>The preview is exact for reading. In an org with at least two members, a pipe is listed as
  affected exactly when a plain member who does not own it, and holds no grant, may not read it
  under the evaluator, with one exception: a user pipe named \<open>broadcast\<close>, which the creation
  rules allow, becomes unreadable and is never listed.\<close>

theorem preview_exact_for_read:
  assumes "length (pi_Members inp) > 1" and "pipe \<in> set (pi_Pipes inp)"
    and "pr_OrgRole m = OrgMember" and "\<forall>s \<in> set (pi_Sources inp). sr_Handle s \<noteq> '''' \<and> sr_OwnerID s \<noteq> pr_ID m"
  shows "pf_Path pipe \<in> set (AllAffectedPipes (BuildPreview inp)) \<longleftrightarrow>
    \<not> Has (Evaluate m (preview_subject (source_map (pi_Sources inp)) pipe) []) Read \<and>
    last (split_dots (pf_Path pipe)) \<noteq> ''broadcast''"
proof -
  let ?S = "source_map (pi_Sources inp)" and ?parts = "split_dots (pf_Path pipe)"
  have marks: "pf_Path pipe \<in> set (AllAffectedPipes (BuildPreview inp)) \<longleftrightarrow> preview_marks ?S pipe"
    using assms(1,2) by (auto simp: AllAffectedPipes_def BuildPreview_affected preview_marks_def Let_def)
  have role: "pr_OrgRole m \<noteq> OrgNone" "\<not> CanAdministerOrg (pr_OrgRole m)"
    using assms(3) by (simp_all add: OrgMember_def OrgNone_def CanAdministerOrg_def OrgOwner_def OrgAdmin_def)
  have has: "Has (Evaluate m s []) Read \<longleftrightarrow>
      is_handle_owner m s \<or> sj_Collar s = '''' \<or> sj_Name s = ''heartbeat''" for s
    using Evaluate_Has_rule [of Read m s "[]"] role by (auto simp: all_perms_def)
  show ?thesis
  proof (cases "length ?parts < 2 \<or> ?S (hd ?parts) = None")
    case True
    then show ?thesis
      unfolding marks has by (auto simp: preview_marks_def preview_subject_def Let_def)
  next
    case False
    then obtain s where s: "?S (hd ?parts) = Some s" and len: "\<not> length ?parts < 2" by auto
    with source_map_handle [OF s] assms(4) have "sr_Handle s \<noteq> ''''" "sr_OwnerID s \<noteq> pr_ID m" by auto
    then have "Has (Evaluate m (preview_subject ?S pipe) []) Read \<longleftrightarrow> last ?parts = ''heartbeat''"
      using s len unfolding has by (simp add: preview_subject_def Let_def is_handle_owner_def)
    moreover have "preview_marks ?S pipe \<longleftrightarrow> last ?parts \<noteq> ''heartbeat'' \<and> last ?parts \<noteq> ''broadcast''"
      using s len
      by (auto simp: preview_marks_def Let_def PresencePipe_def stdioPipes_def AutoProvisionedPipes_def)
    ultimately show ?thesis unfolding marks by blast
  qed
qed

definition ex_preview :: previewinput where
  "ex_preview =
     \<lparr>pi_OrgOwnerID = ''o'', pi_OrgOwnerIsPlaceholder = False,
      pi_Members = [\<lparr>pr_ID = ''a'', pr_Name = ''alice'', pr_OrgRole = OrgMember\<rparr>, bob],
      pi_Sources = [\<lparr>sr_Handle = ''alice'', sr_Kind = ''message'', sr_OwnerID = ''a'', sr_OwnerIsMember = True\<rparr>],
      pi_Pipes = [\<lparr>pf_Path = ''alice.inbox'', pf_Subject = '''', pf_Stream = ''s1''\<rparr>,
                  \<lparr>pf_Path = ''alice.broadcast'', pf_Subject = '''', pf_Stream = ''s2''\<rparr>]\<rparr>"

theorem preview_exact_for_read_witness:
  "(''alice.inbox'' \<in> set (AllAffectedPipes (BuildPreview ex_preview)) \<longleftrightarrow>
      \<not> Has (Evaluate bob (preview_subject (source_map (pi_Sources ex_preview)) (pi_Pipes ex_preview ! 0)) []) Read)
   \<and> ''alice.broadcast'' \<notin> set (AllAffectedPipes (BuildPreview ex_preview))"
  using preview_exact_for_read [of ex_preview "pi_Pipes ex_preview ! 0" bob]
    preview_exact_for_read [of ex_preview "pi_Pipes ex_preview ! 1" bob]
  by (simp add: ex_preview_def bob_def)

end
