(* ===== verification/AclServer.thy ===== *)
theory AclServer
  imports Streams AclCompileProps AclPreview
begin

text \<open>
  Access control as the server applies it: \<open>internal/server/acl_enforce.go\<close> and
  \<open>handlers_acl.go\<close>, with the organisation lookup of \<open>handlers_svc.go\<close>. Every database round
  trip is a call site of the datatype \<open>acl_site\<close>, and the fault oracle says which of them fail. A
  handler returns its HTTP status with either the error text or the value it encodes, and the
  server's world of \<open>Streams\<close>.
\<close>

unbundle bit_operations_syntax

datatype acl_site =
    S_Enforced | S_User | S_Role1 | S_Role2 | S_Grants | S_Sources | S_RefSources | S_RefPipes uuid
  | S_RefUncollared | S_Org | S_CallerRole1 | S_CallerRole2 | S_Source string | S_Members
  | S_MemberRole1 uuid | S_MemberRole2 uuid | S_OwnerAccount | S_OwnerUser | S_MemberGrants uuid
  | S_Resolve1 | S_Resolve2 | S_TargetRole1 | S_TargetRole2 | S_Mutate1 | S_Mutate2 | S_Audit
  | S_Was | S_Runner uuid | S_Pool pool_site

type_synonym acl_faults = "acl_site faults"

datatype 'a reply = Refused (status: int) (reason: string) | Replied (status: int) (body: 'a)

section \<open>Enumerating pipes\<close>

definition add_ref :: "uuid \<Rightarrow> string \<Rightarrow> string \<Rightarrow> string \<Rightarrow> piperef list \<Rightarrow> piperef list" where
  "add_ref accountID manifold handle name out =
     (let path1 = (if handle \<noteq> '''' then handle @ ''.'' @ name else name);
          path = (if manifold \<noteq> '''' then manifold @ ''.'' @ path1 else path1)
      in if path = '''' \<or> path \<in> pf_Path ` set out then out
         else out @ [\<lparr>pf_Path = path, pf_Subject = BuildSubject accountID manifold handle name,
                      pf_Stream = BuildStreamName accountID manifold handle name\<rparr>])"

fun source_refs :: "acl_faults \<Rightarrow> database \<Rightarrow> uuid \<Rightarrow> source list \<Rightarrow> piperef list \<Rightarrow> dberror + piperef list" where
  "source_refs flt D accountID [] out = Inr out"
| "source_refs flt D accountID (src # srcs) out =
     (let out1 = foldl (\<lambda>o' name. add_ref accountID (src_Manifold src) (src_Handle src) name o') out (source_Pipes src)
      in case ListPipesForSource (flt (S_RefPipes (src_ID src))) (src_ID src) D of
           Inl e \<Rightarrow> Inl e
         | Inr rows \<Rightarrow>
             source_refs flt D accountID srcs
               (foldl (\<lambda>o' row. add_ref accountID (src_Manifold src) (src_Handle src) (pp_Name row) o') out1 rows))"

definition aclPipeRefs :: "acl_faults \<Rightarrow> uuid \<Rightarrow> database \<Rightarrow> dberror + piperef list" where
  "aclPipeRefs flt accountID D =
     (case ListSourcesForOrg (flt S_RefSources) accountID D of
        Inl e \<Rightarrow> Inl e
      | Inr srcs \<Rightarrow>
          (case source_refs flt D accountID srcs [] of
             Inl e \<Rightarrow> Inl e
           | Inr out \<Rightarrow>
               (case ListUncollaredPipesForAccount (flt S_RefUncollared) accountID D of
                  Inl e \<Rightarrow> Inl e
                | Inr rows \<Rightarrow> Inr (foldl (\<lambda>o' row. add_ref accountID (pp_Manifold row) '''' (pp_Name row) o') out rows))))"

text \<open>The scan of \<open>splitPath\<close>: \<open>cur\<close> is the slice from the last separator to the current index.\<close>

fun splitPath_scan :: "string \<Rightarrow> string \<Rightarrow> string list \<Rightarrow> string list" where
  "splitPath_scan [] cur out = out @ [cur]"
| "splitPath_scan (c # cs) cur out =
     (if c = CHR ''.'' then splitPath_scan cs [] (out @ [cur]) else splitPath_scan cs (cur @ [c]) out)"

definition splitPath :: "string \<Rightarrow> string list" where
  "splitPath p = splitPath_scan p [] []"

lemma splitPath_scan_split:
  "splitPath_scan p cur out = (case split_dots p of q # qs \<Rightarrow> out @ (cur @ q) # qs | [] \<Rightarrow> [])"
  by (induction p cur out rule: splitPath_scan.induct) (auto split: list.splits)

lemma splitPath_split [simp]: "splitPath p = split_dots p"
  using split_on_nonempty [of "CHR ''.''" p]
  by (auto simp: splitPath_def splitPath_scan_split split: list.splits)

text \<open>The map from handle to source row the evaluator callers build: the last row listed wins.\<close>

definition handle_map :: "source list \<Rightarrow> string \<rightharpoonup> source" where
  "handle_map rows = foldl (\<lambda>m s. m(src_Handle s \<mapsto> s)) Map.empty rows"

definition subjectFor :: "string \<Rightarrow> (string \<rightharpoonup> source) \<Rightarrow> subject" where
  "subjectFor path srcs =
     (let parts = splitPath path;
          subj = \<lparr>sj_Path = path, sj_Collar = '''', sj_Name = last parts, sj_Owner = uuid_nil\<rparr>
      in if length parts < 2 then subj
         else case srcs (hd parts) of
                Some s \<Rightarrow> subj\<lparr>sj_Collar := src_Handle s, sj_Owner := src_CreatedByUserID s\<rparr>
              | None \<Rightarrow> subj)"

section \<open>Credentials\<close>

definition principal_of :: "uuid \<Rightarrow> user \<Rightarrow> orgrole \<Rightarrow> principal" where
  "principal_of i u role = \<lparr>pr_ID = i, pr_Name = DisplayName u, pr_OrgRole = role\<rparr>"

definition principalAccess :: "acl_faults \<Rightarrow> uuid \<Rightarrow> uuid \<Rightarrow> database \<Rightarrow> dberror + access list" where
  "principalAccess flt accountID principalID D =
     (case GetUser (flt S_User) principalID D of Inl e \<Rightarrow> Inl e
      | Inr u \<Rightarrow>
     (case RoleInOrg (flt S_Role1) (flt S_Role2) principalID accountID D of Inl e \<Rightarrow> Inl e
      | Inr role \<Rightarrow>
     (case ListACLGrantsForPrincipal (flt S_Grants) accountID principalID D of Inl e \<Rightarrow> Inl e
      | Inr stored \<Rightarrow>
     (case ListSourcesForOrg (flt S_Sources) accountID D of Inl e \<Rightarrow> Inl e
      | Inr srcRows \<Rightarrow>
     (case aclPipeRefs flt accountID D of Inl e \<Rightarrow> Inl e
      | Inr refs \<Rightarrow>
          Inr (map (\<lambda>ref. \<lparr>ac_Pipe = ref,
                 ac_Perm = dc_Perm (Evaluate (principal_of principalID u role)
                   (subjectFor (pf_Path ref) (handle_map srcRows)) (map ToACL stored))\<rparr>) refs))))))"

definition natsPermissionsFor :: "acl_faults \<Rightarrow> uuid \<Rightarrow> uuid \<Rightarrow> bool \<Rightarrow> database \<Rightarrow> dberror + permissions" where
  "natsPermissionsFor flt accountID principalID enforced D =
     (if \<not> enforced then Inr (credentialPermissions False accountID [])
      else case principalAccess flt accountID principalID D of Inl e \<Rightarrow> Inl e
        | Inr access \<Rightarrow> Inr (credentialPermissions True accountID access))"

section \<open>Decisions on one pipe\<close>

text \<open>The second component is \<open>enforced\<close>; \<open>have_pool\<close> is false for a server built without one.\<close>

definition pipeDecision ::
  "acl_faults \<Rightarrow> bool \<Rightarrow> uuid \<Rightarrow> uuid \<Rightarrow> string \<Rightarrow> database \<Rightarrow> decision \<times> bool \<times> dberror option"
where
  "pipeDecision flt have_pool accountID prin path D =
     (if \<not> have_pool then (zero_decision, False, None)
      else case ACLEnforced (flt S_Enforced) accountID D of
        Inl _ \<Rightarrow> (zero_decision, False, None)
      | Inr enforced \<Rightarrow>
          if \<not> enforced then (zero_decision, False, None)
          else
     (case GetUser (flt S_User) prin D of Inl _ \<Rightarrow> (zero_decision, True, Some (ErrText ''no principal''))
      | Inr u \<Rightarrow>
     (case RoleInOrg (flt S_Role1) (flt S_Role2) prin accountID D of Inl e \<Rightarrow> (zero_decision, True, Some e)
      | Inr role \<Rightarrow>
     (case ListSourcesForOrg (flt S_Sources) accountID D of Inl e \<Rightarrow> (zero_decision, True, Some e)
      | Inr srcRows \<Rightarrow>
     (case ListACLGrantsForPrincipal (flt S_Grants) accountID prin D of Inl e \<Rightarrow> (zero_decision, True, Some e)
      | Inr stored \<Rightarrow>
          (Evaluate (principal_of prin u role) (subjectFor path (handle_map srcRows)) (map ToACL stored), True, None))))))"

text \<open>\<open>errPipeForbidden\<close>, told apart from the other errors by \<open>errors.Is\<close>.\<close>

definition errPipeForbidden :: dberror where
  "errPipeForbidden = ErrText ''admin required on this pipe''"

definition requirePipeAdmin :: "acl_faults \<Rightarrow> bool \<Rightarrow> api_key \<Rightarrow> string \<Rightarrow> database \<Rightarrow> dberror option" where
  "requirePipeAdmin flt have_pool key path D =
     (case pipeDecision flt have_pool (ak_AccountID key) (Actor key) path D of
        (dec, enforced, Some e) \<Rightarrow> Some e
      | (dec, enforced, None) \<Rightarrow> if enforced \<and> \<not> Has dec Admin then Some errPipeForbidden else None)"

definition sessionCan :: "acl_faults \<Rightarrow> bool \<Rightarrow> uuid \<Rightarrow> uuid \<Rightarrow> string \<Rightarrow> perm \<Rightarrow> database \<Rightarrow> dberror + bool" where
  "sessionCan flt have_pool accountID userID path perm D =
     (case pipeDecision flt have_pool accountID userID path D of
        (dec, enforced, Some e) \<Rightarrow> Inl e
      | (dec, enforced, None) \<Rightarrow> Inr (\<not> enforced \<or> Has dec perm))"

section \<open>Handlers\<close>

text \<open>\<open>resolveCallerOrg\<close>: \<open>org\<close> is the query parameter, \<open>parse\<close> the identifier parser.\<close>

definition resolveCallerOrg ::
  "acl_faults \<Rightarrow> (string \<Rightarrow> uuid option) \<Rightarrow> authed_caller \<Rightarrow> string \<Rightarrow> database \<Rightarrow> dberror + account \<times> orgrole"
where
  "resolveCallerOrg flt parse caller org D =
     (if cl_UserID caller = uuid_nil then Inl (ErrText ''no principal'')
      else case (if org \<noteq> '''' then
                   (case parse org of None \<Rightarrow> Inl (ErrText ''org is not a valid uuid'')
                    | Some i \<Rightarrow> GetAccount (flt S_Org) i D)
                 else (case cl_APIKey caller of
                         Some key \<Rightarrow> GetAccount (flt S_Org) (ak_AccountID key) D
                       | None \<Rightarrow> DefaultAccountFor (flt S_Org) (cl_UserID caller) D)) of
        Inl e \<Rightarrow> Inl e
      | Inr a \<Rightarrow>
          (case RoleInOrg (flt S_CallerRole1) (flt S_CallerRole2) (cl_UserID caller) (acct_ID a) D of
             Inl e \<Rightarrow> Inl e
           | Inr role \<Rightarrow> Inr (a, role)))"

definition resolveSubject :: "acl_faults \<Rightarrow> uuid \<Rightarrow> string \<Rightarrow> database \<Rightarrow> dberror + subject" where
  "resolveSubject flt accountID path D =
     (if path = '''' then Inl (ErrText ''pipe is required'')
      else let parts = split_dots path;
               subj = \<lparr>sj_Path = path, sj_Collar = '''', sj_Name = last parts, sj_Owner = uuid_nil\<rparr>
           in if length parts < 2 then Inr subj
              else case GetSourceByHandle (flt (S_Source path)) accountID (hd parts) D of
                     Inl _ \<Rightarrow> Inr subj
                   | Inr s \<Rightarrow> Inr (subj\<lparr>sj_Collar := src_Handle s, sj_Owner := src_CreatedByUserID s\<rparr>))"

definition callerPrincipal :: "acl_faults \<Rightarrow> authed_caller \<Rightarrow> uuid \<Rightarrow> database \<Rightarrow> dberror + principal" where
  "callerPrincipal flt caller accountID D =
     (let i = cl_UserID caller
      in if i = uuid_nil then Inl (ErrText ''no principal'')
         else case GetUser (flt S_User) i D of Inl e \<Rightarrow> Inl e
           | Inr u \<Rightarrow>
               (case RoleInOrg (flt S_Role1) (flt S_Role2) i accountID D of Inl e \<Rightarrow> Inl e
                | Inr role \<Rightarrow> Inr (principal_of i u role)))"

fun member_principals :: "acl_faults \<Rightarrow> uuid \<Rightarrow> database \<Rightarrow> user list \<Rightarrow> dberror + principal list" where
  "member_principals flt accountID D [] = Inr []"
| "member_principals flt accountID D (m # ms) =
     (if us_ID m = EveryoneID then member_principals flt accountID D ms
      else case RoleInOrg (flt (S_MemberRole1 (us_ID m))) (flt (S_MemberRole2 (us_ID m))) (us_ID m) accountID D of
        Inl e \<Rightarrow> Inl e
      | Inr role \<Rightarrow>
          (case member_principals flt accountID D ms of Inl e \<Rightarrow> Inl e
           | Inr ps \<Rightarrow> Inr (principal_of (us_ID m) m role # ps)))"

definition orgPrincipals :: "acl_faults \<Rightarrow> uuid \<Rightarrow> database \<Rightarrow> dberror + principal list" where
  "orgPrincipals flt accountID D =
     (case ListMembers (flt S_Members) accountID D of Inl e \<Rightarrow> Inl e
      | Inr ms \<Rightarrow>
          (case member_principals flt accountID D ms of Inl e \<Rightarrow> Inl e
           | Inr out \<Rightarrow>
               (let out' =
                  (case GetAccount (flt S_OwnerAccount) accountID D of Inl _ \<Rightarrow> out
                   | Inr org \<Rightarrow>
                       if acct_OwnerUserID org = uuid_nil \<or> list_ex (\<lambda>p. pr_ID p = acct_OwnerUserID org) out then out
                       else case GetUser (flt S_OwnerUser) (acct_OwnerUserID org) D of
                              Inl _ \<Rightarrow> out
                            | Inr u \<Rightarrow> out @ [principal_of (us_ID u) u OrgOwner])
                in Inr (sort_key pr_Name out'))))"

record rosterrow =
  rr_Principal :: string
  rr_Decision :: decision

definition serveRoster ::
  "acl_faults \<Rightarrow> authed_caller \<Rightarrow> account \<Rightarrow> string \<Rightarrow> database \<Rightarrow> rosterrow list reply"
where
  "serveRoster flt caller org pipe D =
     (case resolveSubject flt (acct_ID org) pipe D of Inl e \<Rightarrow> Refused 400 (dberr_text e)
      | Inr subj \<Rightarrow>
     (case ListACLGrants (flt S_Grants) (acct_ID org) D of Inl e \<Rightarrow> Refused 500 (dberr_text e)
      | Inr stored \<Rightarrow>
     (case callerPrincipal flt caller (acct_ID org) D of Inl _ \<Rightarrow> Refused 403 ''no principal''
      | Inr me \<Rightarrow>
          if \<not> CanSeeRoster (Evaluate me subj (map ToACL stored))
          then Refused 403 (''E_PIPE_FORBIDDEN: no access to '' @ pipe)
          else case orgPrincipals flt (acct_ID org) D of Inl e \<Rightarrow> Refused 500 (dberr_text e)
            | Inr ps \<Rightarrow>
                Replied 200 (map (\<lambda>(p, d). \<lparr>rr_Principal = pr_Name p, rr_Decision = d\<rparr>)
                  (filter (\<lambda>(p, d). dc_Perm d \<noteq> 0)
                    (map (\<lambda>p. (p, Evaluate p subj (map ToACL stored))) ps))))))"

definition add_path :: "string list \<Rightarrow> string \<Rightarrow> string list" where
  "add_path out p = (if p \<noteq> '''' \<and> p \<notin> set out then out @ [p] else out)"

definition source_prefix :: "source \<Rightarrow> string" where
  "source_prefix s =
     (if src_Manifold s \<noteq> '''' then src_Manifold s @ ''.'' @ src_Handle s @ ''.'' else src_Handle s @ ''.'')"

fun user_paths :: "acl_faults \<Rightarrow> database \<Rightarrow> source list \<Rightarrow> string list \<Rightarrow> dberror + string list" where
  "user_paths flt D [] out = Inr out"
| "user_paths flt D (src # srcs) out =
     (case ListPipesForSource (flt (S_RefPipes (src_ID src))) (src_ID src) D of Inl e \<Rightarrow> Inl e
      | Inr rows \<Rightarrow> user_paths flt D srcs (foldl add_path out (map (\<lambda>row. source_prefix src @ pp_Name row) rows)))"

definition aclPipePaths :: "acl_faults \<Rightarrow> uuid \<Rightarrow> database \<Rightarrow> dberror + string list" where
  "aclPipePaths flt accountID D =
     (case ListSourcesForOrg (flt S_RefSources) accountID D of Inl e \<Rightarrow> Inl e
      | Inr srcs \<Rightarrow>
          (case user_paths flt D srcs
                  (foldl add_path [] (concat (map (\<lambda>s. map (\<lambda>p. source_prefix s @ p) (source_Pipes s)) srcs))) of
             Inl e \<Rightarrow> Inl e
           | Inr out \<Rightarrow>
               (case ListUncollaredPipesForAccount (flt S_RefUncollared) accountID D of Inl e \<Rightarrow> Inl e
                | Inr rows \<Rightarrow>
                    Inr (sort (foldl add_path out
                      (map (\<lambda>r. if pp_Manifold r \<noteq> '''' then pp_Manifold r @ ''.'' @ pp_Name r else pp_Name r) rows))))))"

record principalrow =
  pw_Pipe :: string
  pw_Decision :: decision

definition serveByPrincipal :: "acl_faults \<Rightarrow> account \<Rightarrow> string \<Rightarrow> database \<Rightarrow> principalrow list reply" where
  "serveByPrincipal flt org name D =
     (case ResolvePrincipal (flt S_Resolve1) (flt S_Resolve2) (acct_ID org) (acct_Name org) name D of
        Inl _ \<Rightarrow> Refused 404 (''no such principal: '' @ name)
      | Inr target \<Rightarrow>
     (case RoleInOrg (flt S_TargetRole1) (flt S_TargetRole2) (us_ID target) (acct_ID org) D of
        Inl e \<Rightarrow> Refused 500 (dberr_text e)
      | Inr role \<Rightarrow>
     (case ListACLGrantsForPrincipal (flt S_Grants) (acct_ID org) (us_ID target) D of
        Inl e \<Rightarrow> Refused 500 (dberr_text e)
      | Inr stored \<Rightarrow>
     (case aclPipePaths flt (acct_ID org) D of Inl e \<Rightarrow> Refused 500 (dberr_text e)
      | Inr paths \<Rightarrow>
          Replied 200 (concat (map (\<lambda>path.
            case resolveSubject flt (acct_ID org) path D of Inl _ \<Rightarrow> []
            | Inr subj \<Rightarrow>
                (let d = Evaluate (principal_of (us_ID target) target role) subj (map ToACL stored)
                 in if dc_Perm d = 0 then [] else [\<lparr>pw_Pipe = path, pw_Decision = d\<rparr>])) paths))))))"

definition handleAPIACL ::
  "acl_faults \<Rightarrow> (string \<Rightarrow> uuid option) \<Rightarrow> authed_caller \<Rightarrow> string \<Rightarrow> string \<Rightarrow> string \<Rightarrow> database
   \<Rightarrow> (principalrow list + rosterrow list) reply"
where
  "handleAPIACL flt parse caller orgParam principalParam pipeParam D =
     (case resolveCallerOrg flt parse caller orgParam D of
        Inl _ \<Rightarrow> Refused 404 ''org not found''
      | Inr (org, role) \<Rightarrow>
          if role = OrgNone then Refused 404 ''org not found''
          else if principalParam \<noteq> '''' then
            (case serveByPrincipal flt org principalParam D of
               Refused s r \<Rightarrow> Refused s r | Replied s b \<Rightarrow> Replied s (Inl b))
          else (case serveRoster flt caller org pipeParam D of
               Refused s r \<Rightarrow> Refused s r | Replied s b \<Rightarrow> Replied s (Inr b)))"

record remediation =
  rm_Command :: string
  rm_RunnableBy :: "string list"

text \<open>\<open>addRunner\<close>: a principal already listed, unknown or unreadable is skipped.\<close>

definition addRunner ::
  "acl_faults \<Rightarrow> database \<Rightarrow> uuid \<Rightarrow> string \<Rightarrow> uuid set \<times> string list \<Rightarrow> uuid set \<times> string list"
where
  "addRunner flt D i label st =
     (if i = uuid_nil \<or> i \<in> fst st then st
      else case GetUser (flt (S_Runner i)) i D of
             Inl _ \<Rightarrow> st
           | Inr u \<Rightarrow> (insert i (fst st), snd st @ [DisplayName u @ '' ('' @ label @ '')'']))"

definition remediationFor ::
  "acl_faults \<Rightarrow> account \<Rightarrow> subject \<Rightarrow> principal \<Rightarrow> decision \<Rightarrow> database \<Rightarrow> remediation option"
where
  "remediationFor flt org subj me d D =
     (if Has d Read \<and> Has d Write then None
      else let missing = (if \<not> Has d Read then ''read'' else ''write'');
               st1 = (if sj_Collar subj \<noteq> '''' then addRunner flt D (sj_Owner subj) ''handle owner'' ({}, []) else ({}, []));
               st2 = addRunner flt D (acct_OwnerUserID org) ''org owner'' st1
           in Some \<lparr>rm_Command = ''ppz pipe acl grant '' @ sj_Path subj @ '' '' @ pr_Name me @ '' '' @ missing,
                    rm_RunnableBy = snd st2\<rparr>)"

record whoamiview =
  wv_Pipe :: string
  wv_Principal :: string
  wv_Decision :: decision
  wv_Enforced :: bool
  wv_Remediation :: "remediation option"

definition handleAPIACLWhoami ::
  "acl_faults \<Rightarrow> (string \<Rightarrow> uuid option) \<Rightarrow> authed_caller \<Rightarrow> string \<Rightarrow> string \<Rightarrow> database \<Rightarrow> whoamiview reply"
where
  "handleAPIACLWhoami flt parse caller orgParam pipe D =
     (case resolveCallerOrg flt parse caller orgParam D of
        Inl _ \<Rightarrow> Refused 404 ''org not found''
      | Inr (org, role) \<Rightarrow>
          if role = OrgNone then Refused 404 ''org not found''
          else
     (case resolveSubject flt (acct_ID org) pipe D of Inl e \<Rightarrow> Refused 400 (dberr_text e)
      | Inr subj \<Rightarrow>
     (case callerPrincipal flt caller (acct_ID org) D of Inl _ \<Rightarrow> Refused 403 ''no principal''
      | Inr me \<Rightarrow>
     (case ListACLGrantsForPrincipal (flt S_Grants) (acct_ID org) (pr_ID me) D of
        Inl e \<Rightarrow> Refused 500 (dberr_text e)
      | Inr stored \<Rightarrow>
          (let d = Evaluate me subj (map ToACL stored)
           in case ACLEnforced (flt S_Enforced) (acct_ID org) D of
                Inl e \<Rightarrow> Refused 500 (dberr_text e)
              | Inr enforced \<Rightarrow>
                  Replied 200 \<lparr>wv_Pipe = pipe, wv_Principal = pr_Name me, wv_Decision = d,
                    wv_Enforced = enforced, wv_Remediation = remediationFor flt org subj me d D\<rparr>)))))"

record aclgrantrequest =
  rq_Pipe :: string
  rq_Principal :: string
  rq_Perm :: string

text \<open>\<open>mutateACL\<close> on a decoded request body (\<open>Inl\<close> the decoder's error text).\<close>

definition mutateACL ::
  "acl_faults \<Rightarrow> minting \<Rightarrow> (string \<Rightarrow> uuid option) \<Rightarrow> uuid \<Rightarrow> uuid \<Rightarrow> instant \<Rightarrow> authed_caller \<Rightarrow> string
   \<Rightarrow> string + aclgrantrequest \<Rightarrow> bool \<Rightarrow> server_world \<Rightarrow> aclgrantrequest reply \<times> server_world"
where
  "mutateACL flt mint parse newID auditID now caller orgParam decoded isGrant W =
     (let D = aw_db W in
      case decoded of Inl e \<Rightarrow> (Refused 400 e, W)
      | Inr req \<Rightarrow>
     (case resolveCallerOrg flt parse caller orgParam D of
        Inl _ \<Rightarrow> (Refused 404 ''org not found'', W)
      | Inr (org, role) \<Rightarrow>
          if role = OrgNone then (Refused 404 ''org not found'', W)
          else
     (case resolveSubject flt (acct_ID org) (rq_Pipe req) D of Inl e \<Rightarrow> (Refused 400 (dberr_text e), W)
      | Inr subj \<Rightarrow>
     (case callerPrincipal flt caller (acct_ID org) D of Inl _ \<Rightarrow> (Refused 403 ''no principal'', W)
      | Inr me \<Rightarrow>
     (case ListACLGrantsForPrincipal (flt S_Grants) (acct_ID org) (pr_ID me) D of
        Inl e \<Rightarrow> (Refused 500 (dberr_text e), W)
      | Inr stored \<Rightarrow>
          if \<not> Has (Evaluate me subj (map ToACL stored)) Admin
          then (Refused 403 (''E_PIPE_FORBIDDEN: admin required on '' @ rq_Pipe req), W)
          else
     (case ResolvePrincipal (flt S_Resolve1) (flt S_Resolve2) (acct_ID org) (acct_Name org) (rq_Principal req) D of
        Inl _ \<Rightarrow> (Refused 404 (''no such principal: '' @ rq_Principal req), W)
      | Inr target \<Rightarrow>
          (let (e, D1) =
             (if isGrant
              then InsertACLGrant (flt S_Mutate1) (flt S_Mutate2) newID now (acct_ID org) (us_ID target)
                     (rq_Pipe req) (rq_Perm req) (pr_ID me) D
              else DeleteACLGrant (flt S_Mutate1) (flt S_Mutate2) (acct_ID org) (us_ID target) (rq_Pipe req)
                     (if rq_Perm req = ''all'' then '''' else rq_Perm req) D)
           in case e of
                Some err \<Rightarrow> (Refused (if isGrant then 400 else 500) (dberr_text err), W\<lparr>aw_db := D1\<rparr>)
              | None \<Rightarrow>
                  (let delta = aclGrantDelta (DisplayName target) (rq_Perm req);
                       D2 = (if isGrant
                             then auditACL (flt S_Audit) auditID now (acct_ID org) caller AuditActionACLGrant
                                    AuditTargetPipe (rq_Pipe req) None (Some delta) D1
                             else auditACL (flt S_Audit) auditID now (acct_ID org) caller AuditActionACLRevoke
                                    AuditTargetPipe (rq_Pipe req) (Some delta) None D1)
                   in (Replied 200 \<lparr>rq_Pipe = rq_Pipe req, rq_Principal = DisplayName target, rq_Perm = rq_Perm req\<rparr>,
                       notifyACLChanged (\<lambda>p. flt (S_Pool p)) mint (acct_ID org) (W\<lparr>aw_db := D2\<rparr>))))))))))"

definition handleAPIACLGrant ::
  "acl_faults \<Rightarrow> minting \<Rightarrow> (string \<Rightarrow> uuid option) \<Rightarrow> uuid \<Rightarrow> uuid \<Rightarrow> instant \<Rightarrow> authed_caller \<Rightarrow> string
   \<Rightarrow> string + aclgrantrequest \<Rightarrow> server_world \<Rightarrow> aclgrantrequest reply \<times> server_world"
where
  "handleAPIACLGrant flt mint parse newID auditID now caller orgParam decoded W =
     mutateACL flt mint parse newID auditID now caller orgParam decoded True W"

definition handleAPIACLRevoke ::
  "acl_faults \<Rightarrow> minting \<Rightarrow> (string \<Rightarrow> uuid option) \<Rightarrow> uuid \<Rightarrow> uuid \<Rightarrow> instant \<Rightarrow> authed_caller \<Rightarrow> string
   \<Rightarrow> string + aclgrantrequest \<Rightarrow> server_world \<Rightarrow> aclgrantrequest reply \<times> server_world"
where
  "handleAPIACLRevoke flt mint parse newID auditID now caller orgParam decoded W =
     mutateACL flt mint parse newID auditID now caller orgParam decoded False W"

text \<open>The enforcement switch; \<open>post\<close> is the decoded body of a POST, \<open>None\<close> for a GET.\<close>

definition handleAPIACLEnforce ::
  "acl_faults \<Rightarrow> minting \<Rightarrow> (string \<Rightarrow> uuid option) \<Rightarrow> uuid \<Rightarrow> instant \<Rightarrow> authed_caller \<Rightarrow> string
   \<Rightarrow> (string + bool) option \<Rightarrow> server_world \<Rightarrow> bool reply \<times> server_world"
where
  "handleAPIACLEnforce flt mint parse auditID now caller orgParam post W =
     (let D = aw_db W in
      case resolveCallerOrg flt parse caller orgParam D of
        Inl _ \<Rightarrow> (Refused 404 ''org not found'', W)
      | Inr (org, role) \<Rightarrow>
          if role = OrgNone then (Refused 404 ''org not found'', W)
          else case post of
            None \<Rightarrow>
              (case ACLEnforced (flt S_Enforced) (acct_ID org) D of
                 Inl e \<Rightarrow> (Refused 500 (dberr_text e), W)
               | Inr on \<Rightarrow> (Replied 200 on, W))
          | Some decoded \<Rightarrow>
              if \<not> CanAdministerOrg role then (Refused 403 ''org admin only'', W)
              else case decoded of Inl e \<Rightarrow> (Refused 400 e, W)
                | Inr on \<Rightarrow>
                    (let was = (case ACLEnforced (flt S_Was) (acct_ID org) D of Inl _ \<Rightarrow> False | Inr b \<Rightarrow> b)
                     in case SetACLEnforced (flt S_Mutate1) (flt S_Mutate2) (acct_ID org) on D of
                          (Some e, D1) \<Rightarrow> (Refused 500 (dberr_text e), W\<lparr>aw_db := D1\<rparr>)
                        | (None, D1) \<Rightarrow>
                            (Replied 200 on,
                             notifyACLChanged (\<lambda>p. flt (S_Pool p)) mint (acct_ID org)
                               (W\<lparr>aw_db := auditACL (flt S_Audit) auditID now (acct_ID org) caller AuditActionACLEnforce
                                    AuditTargetOrg (acct_Name org) (Some (aclEnforceDelta was)) (Some (aclEnforceDelta on)) D1\<rparr>))))"

definition previewInput :: "acl_faults \<Rightarrow> account \<Rightarrow> database \<Rightarrow> dberror + previewinput" where
  "previewInput flt org D =
     (case ListMembers (flt S_Members) (acct_ID org) D of Inl e \<Rightarrow> Inl e
      | Inr ms \<Rightarrow>
     (case member_principals flt (acct_ID org) D ms of Inl e \<Rightarrow> Inl e
      | Inr ps \<Rightarrow>
          (let ids = set (map us_ID (filter (\<lambda>m. us_ID m \<noteq> EveryoneID) ms));
               hasOwner = acct_OwnerUserID org \<noteq> uuid_nil;
               ids' = (if hasOwner then insert (acct_OwnerUserID org) ids else ids);
               owner = (if hasOwner then GetUser (flt S_OwnerUser) (acct_OwnerUserID org) D else Inl ErrNoRows);
               placeholder = (case owner of Inl _ \<Rightarrow> False | Inr u \<Rightarrow> us_Username u = ''unauthenticated'');
               members' = (case owner of Inl _ \<Rightarrow> ps
                           | Inr u \<Rightarrow> if list_ex (\<lambda>m. pr_ID m = us_ID u) ps then ps
                                      else ps @ [principal_of (us_ID u) u OrgOwner])
           in case ListSourcesForOrg (flt S_Sources) (acct_ID org) D of Inl e \<Rightarrow> Inl e
              | Inr srcRows \<Rightarrow>
                  (case aclPipeRefs flt (acct_ID org) D of Inl e \<Rightarrow> Inl e
                   | Inr refs \<Rightarrow>
                       Inr \<lparr>pi_OrgOwnerID = acct_OwnerUserID org, pi_OrgOwnerIsPlaceholder = placeholder,
                            pi_Members = members',
                            pi_Sources = map (\<lambda>s. \<lparr>sr_Handle = src_Handle s, sr_Kind = src_Kind s,
                              sr_OwnerID = src_CreatedByUserID s, sr_OwnerIsMember = src_CreatedByUserID s \<in> ids'\<rparr>) srcRows,
                            pi_Pipes = refs\<rparr>))))"

record securityright =
  rt_Principal :: string
  rt_Pipe :: string
  rt_Read :: bool
  rt_Write :: bool
  rt_Admin :: bool
  rt_Via :: string

definition securityRights :: "acl_faults \<Rightarrow> account \<Rightarrow> database \<Rightarrow> securityright list" where
  "securityRights flt org D =
     (case ListMembers (flt S_Members) (acct_ID org) D of Inl _ \<Rightarrow> []
      | Inr ms \<Rightarrow>
     (case ListSourcesForOrg (flt S_Sources) (acct_ID org) D of Inl _ \<Rightarrow> []
      | Inr srcRows \<Rightarrow>
     (case aclPipeRefs flt (acct_ID org) D of Inl _ \<Rightarrow> []
      | Inr refs \<Rightarrow>
          concat (map (\<lambda>m.
            if us_ID m = EveryoneID then []
            else case RoleInOrg (flt (S_MemberRole1 (us_ID m))) (flt (S_MemberRole2 (us_ID m))) (us_ID m) (acct_ID org) D of
              Inl _ \<Rightarrow> []
            | Inr role \<Rightarrow>
                (case ListACLGrantsForPrincipal (flt (S_MemberGrants (us_ID m))) (acct_ID org) (us_ID m) D of
                   Inl _ \<Rightarrow> []
                 | Inr stored \<Rightarrow>
                     concat (map (\<lambda>ref.
                       let d = Evaluate (principal_of (us_ID m) m role)
                                 (subjectFor (pf_Path ref) (handle_map srcRows)) (map ToACL stored)
                       in if dc_Perm d = 0 then []
                          else [\<lparr>rt_Principal = DisplayName m, rt_Pipe = pf_Path ref, rt_Read = Has d Read,
                                 rt_Write = Has d Write, rt_Admin = Has d Admin, rt_Via = ViaLabel d\<rparr>]) refs))) ms))))"

end
