(* ===== verification/AclServerProps.thy ===== *)
theory AclServerProps
  imports AclServer
begin

text \<open>
  What the server's access control amounts to: the credential minted for NATS and the decisions
  the web surface takes agree on every pipe; what the decisions are for sources at the root and
  for sources under a manifold; what a failed lookup of the enforcement switch does; and how far
  an administrator of a selector can grant.
\<close>

unbundle bit_operations_syntax

section \<open>The enumerated pipes\<close>

definition names_ok :: "uuid \<Rightarrow> database \<Rightarrow> bool" where
  "names_ok acc D \<longleftrightarrow> uuid_text acc \<and>
     (\<forall>s \<in> set (sources D). src_AccountID s = acc \<longrightarrow> valid_manifold (src_Manifold s) \<and> HandleRegex (src_Handle s)) \<and>
     (\<forall>p \<in> set (pipes D). HandleRegex (pp_Name p) \<and>
        (pp_AccountID p = acc \<and> pp_SourceID p = None \<longrightarrow> valid_manifold (pp_Manifold p) \<and> pp_Name p \<noteq> PresencePipe))"

definition built_ref :: "uuid \<Rightarrow> piperef \<Rightarrow> bool" where
  "built_ref acc r \<longleftrightarrow>
     (\<exists>m h n. valid_addr m h n \<and>
        r = \<lparr>pf_Path = join_dots (addr_tokens m h n), pf_Subject = BuildSubject acc m h n,
             pf_Stream = BuildStreamName acc m h n\<rparr>)"

definition refs_ok :: "uuid \<Rightarrow> piperef list \<Rightarrow> bool" where
  "refs_ok acc refs \<longleftrightarrow> distinct (map pf_Path refs) \<and> list_all (built_ref acc) refs"

lemma path_tokens:
  "(if m \<noteq> '''' then m @ ''.'' @ (if h \<noteq> '''' then h @ ''.'' @ n else n)
    else (if h \<noteq> '''' then h @ ''.'' @ n else n)) = join_dots (addr_tokens m h n)"
  by (simp add: addr_tokens_def manifold_tokens_def join_with_Cons join_with_append)

lemma add_ref_ok:
  assumes "refs_ok acc out" and "valid_addr m h n"
  shows "refs_ok acc (add_ref acc m h n out)"
  using assms unfolding add_ref_def Let_def path_tokens
  by (auto simp: refs_ok_def built_ref_def)

lemma add_refs_ok:
  assumes "refs_ok acc out" and "\<And>x. x \<in> set xs \<Longrightarrow> valid_addr m h (f x)"
  shows "refs_ok acc (foldl (\<lambda>o' x. add_ref acc m h (f x) o') out xs)"
  using assms by (induction xs arbitrary: out) (auto intro: add_ref_ok)

lemma add_uncollared_refs_ok:
  assumes "refs_ok acc out" and "\<And>r. r \<in> set rows \<Longrightarrow> valid_addr (pp_Manifold r) '''' (pp_Name r)"
  shows "refs_ok acc (foldl (\<lambda>o' r. add_ref acc (pp_Manifold r) '''' (pp_Name r) o') out rows)"
  using assms by (induction rows arbitrary: out) (auto intro: add_ref_ok)

lemma source_Pipes_regex: "n \<in> set (source_Pipes s) \<Longrightarrow> HandleRegex n"
  by (auto simp: source_Pipes_def name_char_def name_char_hyphen_def split: if_splits)

lemma source_refs_ok:
  assumes "refs_ok acc out" and "source_refs flt D acc srcs out = Inr out'"
    and "\<And>s. s \<in> set srcs \<Longrightarrow> valid_manifold (src_Manifold s) \<and> HandleRegex (src_Handle s)"
    and "\<And>p. p \<in> set (pipes D) \<Longrightarrow> HandleRegex (pp_Name p)"
  shows "refs_ok acc out'"
  using assms
proof (induction flt D acc srcs out rule: source_refs.induct)
  case (2 flt D acc src srcs out)
  have addr: "valid_addr (src_Manifold src) (src_Handle src) n" if "HandleRegex n" for n
    using "2.prems"(3) [of src] that HandleRegex_nonempty by (auto simp: valid_addr_def)
  obtain rows where rows: "ListPipesForSource (flt (S_RefPipes (src_ID src))) (src_ID src) D = Inr rows"
    using "2.prems"(2) by (auto simp: Let_def split: sum.splits)
  then have "r \<in> set rows \<Longrightarrow> HandleRegex (pp_Name r)" for r
    using "2.prems"(4) by (auto simp: ListPipesForSource_def query_def split: option.splits)
  then have "refs_ok acc (foldl (\<lambda>o' row. add_ref acc (src_Manifold src) (src_Handle src) (pp_Name row) o')
      (foldl (\<lambda>o' name. add_ref acc (src_Manifold src) (src_Handle src) name o') out (source_Pipes src)) rows)"
    using "2.prems"(1) addr source_Pipes_regex by (intro add_refs_ok) blast+
  with "2.IH" [OF refl rows] "2.prems" rows show ?case by (auto simp: Let_def)
qed simp

lemma aclPipeRefs_ok:
  assumes "names_ok acc D" and "aclPipeRefs flt acc D = Inr refs"
  shows "refs_ok acc refs"
proof -
  obtain srcs out rows where
      srcs: "ListSourcesForOrg (flt S_RefSources) acc D = Inr srcs"
      and out: "source_refs flt D acc srcs [] = Inr out"
      and rows: "ListUncollaredPipesForAccount (flt S_RefUncollared) acc D = Inr rows"
      and refs: "refs = foldl (\<lambda>o' row. add_ref acc (pp_Manifold row) '''' (pp_Name row) o') out rows"
    using assms(2) by (auto simp: aclPipeRefs_def split: sum.splits)
  have "s \<in> set srcs \<Longrightarrow> valid_manifold (src_Manifold s) \<and> HandleRegex (src_Handle s)" for s
    using assms(1) srcs by (auto simp: names_ok_def ListSourcesForOrg_def query_def split: option.splits)
  moreover have "refs_ok acc []" by (simp add: refs_ok_def)
  ultimately have "refs_ok acc out"
    using source_refs_ok [OF _ out] assms(1) by (auto simp: names_ok_def)
  moreover have "r \<in> set rows \<Longrightarrow> valid_addr (pp_Manifold r) '''' (pp_Name r)" for r
    using assms(1) rows
    by (auto simp: names_ok_def valid_addr_def ListUncollaredPipesForAccount_def query_def split: option.splits)
  ultimately show ?thesis unfolding refs by (rule add_uncollared_refs_ok)
qed

section \<open>Their subjects and streams\<close>

lemma same_subject_same_path:
  assumes "uuid_text a" and "valid_addr m h n" and "valid_addr m' h' n'"
    and "BuildSubject a m h n = BuildSubject a m' h' n'"
  shows "addr_tokens m h n = addr_tokens m' h' n'"
proof -
  have "split_dots (BuildSubject a m h n) = split_dots (BuildSubject a m' h' n')" using assms(4) by simp
  moreover have "PresenceSegment # ts \<noteq> addr_tokens m h n" "PresenceSegment # ts \<noteq> addr_tokens m' h' n'"
      "addr_tokens m h n \<noteq> PresenceSegment # ts" "addr_tokens m' h' n' \<noteq> PresenceSegment # ts" for ts
    using addr_hd_not_reserved(1) assms(2,3) by (metis list.sel(1))+
  moreover have "h \<noteq> ''''" if "n = PresencePipe" using that assms(2) by (simp add: valid_addr_def)
  moreover have "h' \<noteq> ''''" if "n' = PresencePipe" using that assms(3) by (simp add: valid_addr_def)
  ultimately show ?thesis
    unfolding split_BuildSubject [OF assms(1,2)] split_BuildSubject [OF assms(1,3)]
    by (cases "n = PresencePipe"; cases "n' = PresencePipe") (simp_all, simp add: addr_tokens_def)
qed

lemma same_stream_same_subject:
  assumes "uuid_text a" and "valid_addr m h n" and "valid_addr m' h' n'"
    and "BuildStreamName a m h n = BuildStreamName a m' h' n'"
  shows "BuildSubject a m h n = BuildSubject a m' h' n'"
proof -
  have "split_on CHR ''_'' (BuildStreamName a m h n) = split_on CHR ''_'' (BuildStreamName a m' h' n')"
    using assms(4) by simp
  then have "split_dots (BuildSubject a m h n) = split_dots (BuildSubject a m' h' n')"
    using assms(1-3) by (auto simp: split_BuildSubject split_BuildStreamName split: if_splits)
  then show ?thesis by (rule split_on_inj)
qed

lemma split_on_covers: "c \<in> set s \<Longrightarrow> c \<noteq> sep \<Longrightarrow> \<exists>p \<in> set (split_on sep s). c \<in> set p"
  by (induction s) (auto split: list.splits)

lemma org_short_no_dot: "uuid_text a \<Longrightarrow> CHR ''.'' \<notin> set (org_short a)"
  using uuid_text_no_special(1) [of a] set_take_subset [of 8 "remove_char CHR ''-'' a"]
  by (auto simp: org_short_def remove_char_def)

lemma no_dot_stream:
  assumes "uuid_text a" and "valid_addr m h n"
  shows "CHR ''.'' \<notin> set (BuildStreamName a m h n)"
proof
  assume "CHR ''.'' \<in> set (BuildStreamName a m h n)"
  from split_on_covers [OF this, of "CHR ''_''"]
  obtain p where p: "p \<in> set (split_on CHR ''_'' (BuildStreamName a m h n))" "CHR ''.'' \<in> set p"
    by auto
  have toks: "\<forall>t \<in> set (addr_tokens m h n). CHR ''.'' \<notin> set t"
    using addr_tokens_regex [OF assms(2)] HandleRegex_no_special(1) by blast
  have a: "CHR ''.'' \<notin> set (org_short a)" by (rule org_short_no_dot [OF assms(1)])
  show False
  proof (cases "n = PresencePipe")
    case True
    then have "h \<noteq> ''''" using assms(2) by (simp add: valid_addr_def)
    then have "set (manifold_tokens m @ [h]) \<subseteq> set (addr_tokens m h n)" by (auto simp: addr_tokens_def)
    with p toks a True show False unfolding split_BuildStreamName [OF assms] by auto
  next
    case False
    with p toks a show False unfolding split_BuildStreamName [OF assms] by auto
  qed
qed

lemma literal_regex: "HandleRegex t \<Longrightarrow> literal_token t"
  using HandleRegex_no_special [of t] by (auto simp: literal_token_def)

lemma literal_account: "uuid_text a \<Longrightarrow> literal_token a \<and> a \<noteq> ''$JS'' \<and> a \<noteq> ''_INBOX''"
  by (auto simp: uuid_text_def literal_token_def)

lemma stream_literal:
  assumes "uuid_text a" and "valid_addr m h n"
  shows "literal_token (BuildStreamName a m h n)"
proof -
  have "\<exists>c cs. BuildStreamName a m h n = CHR ''p'' # c # cs"
    by (cases "n = PresencePipe")
      (auto simp: BuildStreamName_def PresenceStreamName_def join_with_Cons)
  with no_dot_stream [OF assms] show ?thesis by (auto simp: literal_token_def)
qed

lemma subject_literal:
  assumes "uuid_text a" and "valid_addr m h n"
  shows "hd (split_dots (BuildSubject a m h n)) = a \<and> list_all literal_token (split_dots (BuildSubject a m h n))"
proof -
  have "literal_token PresenceSegment" by (simp add: literal_token_def PresenceSegment_def)
  moreover have "t \<in> set (addr_tokens m h n) \<Longrightarrow> literal_token t" for t
    using addr_tokens_regex [OF assms(2)] literal_regex by blast
  ultimately show ?thesis
    unfolding split_BuildSubject [OF assms]
    using literal_account [OF assms(1)] assms(2)
    by (auto simp: list_all_iff addr_tokens_def valid_addr_def split: if_splits)
qed

lemma built_ref_facts:
  assumes "uuid_text acc" and "built_ref acc r"
  shows "literal_token (pf_Stream r)" and "pf_Subject r \<noteq> ''''"
    and "hd (split_dots (pf_Subject r)) = acc" and "list_all literal_token (split_dots (pf_Subject r))"
proof -
  obtain m h n where v: "valid_addr m h n" and r: "pf_Subject r = BuildSubject acc m h n" "pf_Stream r = BuildStreamName acc m h n"
    using assms(2) by (auto simp: built_ref_def)
  show "literal_token (pf_Stream r)" using stream_literal [OF assms(1) v] r by simp
  show "hd (split_dots (pf_Subject r)) = acc" "list_all literal_token (split_dots (pf_Subject r))"
    using subject_literal [OF assms(1) v] r by simp_all
  then show "pf_Subject r \<noteq> ''''" using assms(1) by (auto simp: uuid_text_def)
qed

lemma built_refs_injective:
  assumes "uuid_text acc" and "built_ref acc r" and "built_ref acc r'"
    and "pf_Subject r = pf_Subject r' \<or> pf_Stream r = pf_Stream r'"
  shows "pf_Path r = pf_Path r'"
proof -
  obtain m h n where v: "valid_addr m h n"
      and r: "pf_Path r = join_dots (addr_tokens m h n)" "pf_Subject r = BuildSubject acc m h n" "pf_Stream r = BuildStreamName acc m h n"
    using assms(2) by (auto simp: built_ref_def)
  obtain m' h' n' where v': "valid_addr m' h' n'"
      and r': "pf_Path r' = join_dots (addr_tokens m' h' n')" "pf_Subject r' = BuildSubject acc m' h' n'" "pf_Stream r' = BuildStreamName acc m' h' n'"
    using assms(3) by (auto simp: built_ref_def)
  have "BuildSubject acc m h n = BuildSubject acc m' h' n'"
    using assms(4) same_stream_same_subject [OF assms(1) v v'] by (auto simp: r r')
  then show ?thesis using same_subject_same_path [OF assms(1) v v'] by (simp add: r r')
qed

lemma distinct_map_via:
  assumes "distinct (map f xs)" and "\<And>x y. x \<in> set xs \<Longrightarrow> y \<in> set xs \<Longrightarrow> g x = g y \<Longrightarrow> f x = f y"
  shows "distinct (map g xs)"
proof -
  have "distinct xs" and f: "inj_on f (set xs)" using assms(1) by (simp_all add: distinct_map)
  moreover have "inj_on g (set xs)"
    by (rule inj_onI) (rule inj_onD [OF f assms(2)])
  ultimately show ?thesis by (simp add: distinct_map)
qed

lemma refs_wf_access:
  assumes "uuid_text acc" and "refs_ok acc refs"
  shows "wf_access acc (map (\<lambda>r. \<lparr>ac_Pipe = r, ac_Perm = f r\<rparr>) refs)"
proof -
  have built: "built_ref acc r" if "r \<in> set refs" for r
    using assms(2) that by (simp add: refs_ok_def list_all_iff)
  note facts = built_ref_facts [OF assms(1) built]
  have wire: "wireSubject acc r = pf_Subject r" if "r \<in> set refs" for r
    using facts(2) [OF that] by (simp add: wireSubject_def)
  have paths: "distinct (map pf_Path refs)" using assms(2) by (simp add: refs_ok_def)
  have "distinct (map pf_Stream refs)"
    using built_refs_injective [OF assms(1) built built] by (intro distinct_map_via [OF paths]) blast
  moreover have "distinct (map (wireSubject acc) refs)"
    using built_refs_injective [OF assms(1) built built] wire by (intro distinct_map_via [OF paths]) metis
  ultimately show ?thesis
    using literal_account [OF assms(1)] facts wire
    by (auto simp: wf_access_def comp_def list_all_iff)
qed

section \<open>One decision, two surfaces\<close>

lemma Evaluate_admin_all:
  assumes "Has (Evaluate p s gs) Admin" and "q \<in> set all_perms"
  shows "Has (Evaluate p s gs) q"
proof -
  have "Effective x AND Admin \<noteq> 0 \<Longrightarrow> Effective x AND q \<noteq> 0" for x
    using assms(2) by (auto simp: Effective_def all_perms_def perm_defs split: if_splits)
  then show ?thesis
    using assms Evaluate_Has_rule [of Admin p s gs] Evaluate_Has_rule [OF assms(2), of p s gs]
    by (auto simp: all_perms_def)
qed

lemma can_from_Evaluate:
  "can_read \<lparr>ac_Pipe = r, ac_Perm = dc_Perm (Evaluate p s gs)\<rparr> \<longleftrightarrow> Has (Evaluate p s gs) Read"
  "can_write \<lparr>ac_Pipe = r, ac_Perm = dc_Perm (Evaluate p s gs)\<rparr> \<longleftrightarrow> Has (Evaluate p s gs) Write"
  using Evaluate_admin_all [of p s gs Read] Evaluate_admin_all [of p s gs Write]
  by (auto simp: can_read_def can_write_def Effective_def Has_def all_perms_def perm_defs split: if_splits)

lemma principalAccess_inv:
  assumes "principalAccess flt acc prin D = Inr access"
  shows "\<exists>u role stored rows refs.
    GetUser (flt S_User) prin D = Inr u \<and> RoleInOrg (flt S_Role1) (flt S_Role2) prin acc D = Inr role \<and>
    ListACLGrantsForPrincipal (flt S_Grants) acc prin D = Inr stored \<and>
    ListSourcesForOrg (flt S_Sources) acc D = Inr rows \<and> aclPipeRefs flt acc D = Inr refs \<and>
    access = map (\<lambda>ref. \<lparr>ac_Pipe = ref, ac_Perm = dc_Perm (Evaluate (principal_of prin u role)
                   (subjectFor (pf_Path ref) (handle_map rows)) (map ToACL stored))\<rparr>) refs"
  using assms by (auto simp: principalAccess_def split: sum.splits)

text \<open>C5: The credential and the web surface enforce the same decision. For an enforcing account
  with well-formed names, the credential \<open>natsPermissionsFor\<close> mints lets the principal publish on a
  pipe, and issue the JetStream read requests for its stream, exactly when \<open>sessionCan\<close>, the
  check in front of the server-side reads and writes, grants write and read on that pipe's path.\<close>

theorem credential_agrees_with_sessionCan:
  assumes "nats_authz nm permits" and "names_ok acc D" and "ACLEnforced (flt S_Enforced) acc D = Inr True"
    and "natsPermissionsFor flt acc prin True D = Inr perms"
    and "aclPipeRefs flt acc D = Inr refs" and "ref \<in> set refs"
  shows "(permits (PubAllow perms) (PubDeny perms) (pf_Subject ref)
            \<longleftrightarrow> sessionCan flt True acc prin (pf_Path ref) Write D = Inr True) \<and>
         (\<forall>(pre, b) \<in> set read_api. \<forall>us subj. (us \<noteq> [] \<longleftrightarrow> b) \<and> split_dots subj = pre @ pf_Stream ref # us \<longrightarrow>
            (permits (PubAllow perms) (PubDeny perms) subj
               \<longleftrightarrow> sessionCan flt True acc prin (pf_Path ref) Read D = Inr True))"
proof -
  obtain access where access: "principalAccess flt acc prin D = Inr access" and perms: "perms = Compile acc access"
    using assms(4) by (auto simp: natsPermissionsFor_def credentialPermissions_def split: sum.splits)
  obtain u role stored rows where env:
      "GetUser (flt S_User) prin D = Inr u" "RoleInOrg (flt S_Role1) (flt S_Role2) prin acc D = Inr role"
      "ListACLGrantsForPrincipal (flt S_Grants) acc prin D = Inr stored"
      "ListSourcesForOrg (flt S_Sources) acc D = Inr rows"
      and list: "access = map (\<lambda>ref. \<lparr>ac_Pipe = ref, ac_Perm = dc_Perm (Evaluate (principal_of prin u role)
                   (subjectFor (pf_Path ref) (handle_map rows)) (map ToACL stored))\<rparr>) refs"
    using principalAccess_inv [OF access] assms(5) by auto
  let ?d = "Evaluate (principal_of prin u role) (subjectFor (pf_Path ref) (handle_map rows)) (map ToACL stored)"
  let ?a = "\<lparr>ac_Pipe = ref, ac_Perm = dc_Perm ?d\<rparr>"
  have can: "sessionCan flt True acc prin (pf_Path ref) q D = Inr (Has ?d q)" for q
    using assms(3) env by (simp add: sessionCan_def pipeDecision_def)
  have acc: "uuid_text acc" using assms(2) by (simp add: names_ok_def)
  have ok: "refs_ok acc refs" by (rule aclPipeRefs_ok [OF assms(2,5)])
  have wf: "wf_access acc access" unfolding list by (rule refs_wf_access [OF acc ok])
  have a: "?a \<in> set access" using assms(6) list by auto
  have "built_ref acc ref" using ok assms(6) by (auto simp: refs_ok_def list_all_iff)
  then have "wireSubject acc ref = pf_Subject ref"
    using built_ref_facts(2) [OF acc] by (simp add: wireSubject_def)
  then have "permits (PubAllow perms) (PubDeny perms) (pf_Subject ref) \<longleftrightarrow> Has ?d Write"
    using nats_authz.publish_iff [OF assms(1) wf a] by (simp add: perms can_from_Evaluate)
  moreover have "permits (PubAllow perms) (PubDeny perms) subj \<longleftrightarrow> Has ?d Read"
    if "(pre, b) \<in> set read_api" "us \<noteq> [] \<longleftrightarrow> b" "split_dots subj = pre @ pf_Stream ref # us" for pre b us subj
    using nats_authz.read_stream_iff [OF assms(1) wf a that(1) _ that(2)] that(3)
    by (simp add: perms can_from_Evaluate)
  ultimately show ?thesis unfolding can by fastforce
qed

definition ex_org :: database where
  "ex_org =
     \<lparr>users = [\<lparr>us_ID = ''0a'', us_Username = ''ada'', us_Email = '''', us_Mode = UserModeGithub,
                us_GitHubID = Some 1, us_AvatarURL = '''', us_CreatedAt = 1, us_ServiceAccountID = None,
                us_LastSelectedAccount = None\<rparr>,
              \<lparr>us_ID = ''0b'', us_Username = ''bob'', us_Email = '''', us_Mode = UserModeGithub,
                us_GitHubID = Some 2, us_AvatarURL = '''', us_CreatedAt = 2, us_ServiceAccountID = None,
                us_LastSelectedAccount = None\<rparr>],
      accounts = [\<lparr>acct_ID = ''ab-12'', acct_Name = ''acme'', acct_OwnerUserID = ''0f'', acct_CreatedAt = 1,
                   acct_NATSAccountPub = '''', acct_NATSAccountJWT = '''', acct_NATSAccountSigningSeed = '''',
                   acct_acl_generation = 0, acct_acl_enforced = True\<rparr>],
      members = [\<lparr>mb_AccountID = ''ab-12'', mb_UserID = ''0a'', mb_AddedAt = 2, mb_Role = ''member''\<rparr>,
                 \<lparr>mb_AccountID = ''ab-12'', mb_UserID = ''0b'', mb_AddedAt = 2, mb_Role = ''member''\<rparr>],
      sources = [\<lparr>src_ID = ''51'', src_AccountID = ''ab-12'', src_CreatedByUserID = ''0a'', src_Manifold = '''',
                  src_Handle = ''alice'', src_Kind = ''message'', src_CreatedAt = 3,
                  src_LastBroadcastAt = None, src_LastBroadcastPayload = None\<rparr>],
      pipes = [],
      grants = [\<lparr>ag_ID = ''61'', ag_AccountID = ''ab-12'', ag_PrincipalID = ''0b'', ag_Selector = ''team.*'',
                 ag_Perm = ''admin'', ag_GrantedBy = ''0a'', ag_CreatedAt = 4\<rparr>],
      api_keys = [], invites = [], schedules = [], audit_events = []\<rparr>"

lemma ex_org_reads:
  "ACLEnforced None ''ab-12'' ex_org = Inr True"
  "\<exists>u. GetUser None ''0a'' ex_org = Inr u" "\<exists>u. GetUser None ''0b'' ex_org = Inr u"
  "RoleInOrg None None ''0a'' ''ab-12'' ex_org = Inr OrgMember"
  "RoleInOrg None None ''0b'' ''ab-12'' ex_org = Inr OrgMember"
  "ListSourcesForOrg None ''ab-12'' ex_org = Inr (sources ex_org)"
  by (simp_all add: ex_org_def ACLEnforced_def GetUser_def RoleInOrg_def uuid_nil_def ListSourcesForOrg_def
      OrgAdmin_def OrgOwner_def)

lemma ex_org_refs:
  "aclPipeRefs no_faults ''ab-12'' ex_org =
     Inr [\<lparr>pf_Path = ''alice.inbox'', pf_Subject = ''ab-12.alice.inbox'', pf_Stream = ''pipe_ab12_alice_inbox''\<rparr>]"
  by (simp add: aclPipeRefs_def ex_org_def ListSourcesForOrg_def ListPipesForSource_def
      ListUncollaredPipesForAccount_def add_ref_def source_Pipes_def SourceKindPTY_def BuildSubject_def
      BuildStreamName_def PresencePipe_def org_short_def remove_char_def)

lemma ex_org_names: "names_ok ''ab-12'' ex_org"
  by (simp add: names_ok_def ex_org_def uuid_text_def valid_manifold_def manifold_tokens_def name_char_def
      name_char_hyphen_def)

theorem credential_agrees_with_sessionCan_witness:
  "\<exists>perms. natsPermissionsFor no_faults ''ab-12'' ''0b'' True ex_org = Inr perms \<and>
     (nats_permits (PubAllow perms) (PubDeny perms) ''ab-12.alice.inbox''
        \<longleftrightarrow> sessionCan no_faults True ''ab-12'' ''0b'' ''alice.inbox'' Write ex_org = Inr True)"
proof -
  have "\<exists>perms. natsPermissionsFor no_faults ''ab-12'' ''0b'' True ex_org = Inr perms"
    using ex_org_reads ex_org_refs
    by (auto simp: natsPermissionsFor_def principalAccess_def ListACLGrantsForPrincipal_def)
  then obtain perms where p: "natsPermissionsFor no_faults ''ab-12'' ''0b'' True ex_org = Inr perms" ..
  from credential_agrees_with_sessionCan [OF nats_permits_authz ex_org_names _ p ex_org_refs, of
      "\<lparr>pf_Path = ''alice.inbox'', pf_Subject = ''ab-12.alice.inbox'', pf_Stream = ''pipe_ab12_alice_inbox''\<rparr>"]
  show ?thesis using p ex_org_reads(1) by simp
qed

section \<open>Who owns a path\<close>

lemma handle_map_find: "handle_map rows h = find (\<lambda>s. src_Handle s = h) (rev rows)"
proof -
  have "foldl (\<lambda>m s. m(src_Handle s \<mapsto> s)) m rows h =
      (case find (\<lambda>s. src_Handle s = h) (rev rows) of Some s \<Rightarrow> Some s | None \<Rightarrow> m h)" for m
    by (induction rows arbitrary: m) (auto simp: find_append split: option.splits)
  then show ?thesis by (auto simp: handle_map_def split: option.splits)
qed

lemma handle_map_None: "handle_map rows h = None \<longleftrightarrow> (\<forall>s \<in> set rows. src_Handle s \<noteq> h)"
  by (auto simp: handle_map_find find_None_all)

lemma split_dots_prefixed:
  assumes "m \<noteq> ''''" and "CHR ''.'' \<notin> set h" and "CHR ''.'' \<notin> set n"
  shows "split_dots (m @ ''.'' @ h @ ''.'' @ n) = split_dots m @ [h, n]"
  using split_on_append [of "CHR ''.''" m "h @ ''.'' @ n"] split_on_append_sep [OF assms(2), of n]
    split_on_no_sep [OF assms(3)] by simp

definition decided_by :: "database \<Rightarrow> uuid \<Rightarrow> uuid \<Rightarrow> string \<Rightarrow> decision \<Rightarrow> bool" where
  "decided_by D acc u path d \<longleftrightarrow> pipeDecision no_faults True acc u path D = (d, True, None)"

lemma sessionCan_decided:
  "decided_by D acc u path d \<Longrightarrow> sessionCan no_faults True acc u path q D = Inr (Has d q)"
  by (simp add: decided_by_def sessionCan_def)

lemma decided:
  assumes "ACLEnforced None acc D = Inr True" and "GetUser None u D = Inr usr"
    and "RoleInOrg None None u acc D = Inr role" and "ListSourcesForOrg None acc D = Inr rows"
    and "ListACLGrantsForPrincipal None acc u D = Inr stored"
  shows "decided_by D acc u path
    (Evaluate (principal_of u usr role) (subjectFor path (handle_map rows)) (map ToACL stored))"
  using assms by (simp add: decided_by_def pipeDecision_def)

lemma grants_total: "\<exists>stored. ListACLGrantsForPrincipal None acc u D = Inr stored"
  by (simp add: ListACLGrantsForPrincipal_def)

text \<open>A source under a manifold is not protected. The evaluator's subject takes its collar from
  the first segment of the path only, so in an enforcing account every member may read and write
  every pipe of a source that lives under a manifold, the inbox and the terminal included, unless
  the manifold's first segment happens to be a handle itself.\<close>

theorem namespaced_source_is_open:
  assumes "ACLEnforced None acc D = Inr True" and "GetUser None u D = Inr usr"
    and "RoleInOrg None None u acc D = Inr role" and "role \<noteq> OrgNone"
    and "ListSourcesForOrg None acc D = Inr rows" and "s \<in> set rows" and "src_Manifold s \<noteq> ''''"
    and "CHR ''.'' \<notin> set (src_Handle s)" and "CHR ''.'' \<notin> set n"
    and "\<forall>t \<in> set rows. src_Handle t \<noteq> hd (split_dots (src_Manifold s))"
  shows "sessionCan no_faults True acc u (src_Manifold s @ ''.'' @ src_Handle s @ ''.'' @ n) Read D = Inr True \<and>
         sessionCan no_faults True acc u (src_Manifold s @ ''.'' @ src_Handle s @ ''.'' @ n) Write D = Inr True"
proof -
  let ?path = "src_Manifold s @ ''.'' @ src_Handle s @ ''.'' @ n"
  obtain stored where stored: "ListACLGrantsForPrincipal None acc u D = Inr stored" using grants_total by blast
  have "hd (split_dots ?path) = hd (split_dots (src_Manifold s))"
    unfolding split_dots_prefixed [OF assms(7-9)] by simp
  then have "handle_map rows (hd (split_dots ?path)) = None" using assms(10) by (simp add: handle_map_None)
  then have collar: "sj_Collar (subjectFor ?path (handle_map rows)) = ''''"
    by (simp add: subjectFor_def Let_def)
  have "Has (Evaluate (principal_of u usr role) (subjectFor ?path (handle_map rows)) (map ToACL stored)) q"
    if "q \<in> {Read, Write}" for q
    using Evaluate_Has_rule [of q "principal_of u usr role" "subjectFor ?path (handle_map rows)" "map ToACL stored"]
      that collar assms(4) by (auto simp: all_perms_def principal_of_def)
  then show ?thesis
    using sessionCan_decided [OF decided [OF assms(1-3,5) stored]] by simp
qed

text \<open>A handle is owned by whoever holds it last. The map from handle to source is filled in
  the order of the manifolds, so when two sources of an account share a handle the one in the
  later manifold decides the owner: its creator holds every right on the pipes of the other one
  at the root.\<close>

theorem handle_shadowing:
  assumes "ACLEnforced None acc D = Inr True" and "GetUser None u D = Inr usr"
    and "RoleInOrg None None u acc D = Inr role" and "role \<noteq> OrgNone"
    and "ListSourcesForOrg None acc D = Inr (before @ s' # after)" and "s \<in> set before"
    and "src_Handle s = src_Handle s'" and "\<forall>t \<in> set after. src_Handle t \<noteq> src_Handle s'"
    and "src_CreatedByUserID s' = u" and "u \<noteq> uuid_nil" and "src_Handle s' \<noteq> ''''"
    and "CHR ''.'' \<notin> set (src_Handle s')" and "q \<in> set all_perms"
  shows "sessionCan no_faults True acc u (src_Handle s @ ''.'' @ n) q D = Inr True"
proof -
  let ?path = "src_Handle s @ ''.'' @ n"
  obtain stored where stored: "ListACLGrantsForPrincipal None acc u D = Inr stored" using grants_total by blast
  have "handle_map (before @ s' # after) (src_Handle s') = Some s'"
    using assms(8) by (auto simp: handle_map_find find_append find_None_all split: option.splits dest: find_SomeD)
  moreover have "split_dots ?path = src_Handle s' # split_dots n"
    using split_on_append_sep [OF assms(12), of n] assms(7) by simp
  ultimately have "is_handle_owner (principal_of u usr role) (subjectFor ?path (handle_map (before @ s' # after)))"
    using assms(9-11) by (simp add: subjectFor_def Let_def is_handle_owner_def principal_of_def Suc_le_eq not_less)
  then have "Has (Evaluate (principal_of u usr role) (subjectFor ?path (handle_map (before @ s' # after))) (map ToACL stored)) q"
    using Evaluate_Has_rule [OF assms(13)] assms(4) by (simp add: principal_of_def)
  then show ?thesis
    using sessionCan_decided [OF decided [OF assms(1-3,5) stored]] by simp
qed

definition ex_source :: "uuid \<Rightarrow> uuid \<Rightarrow> string \<Rightarrow> source" where
  "ex_source i creator manifold =
     \<lparr>src_ID = i, src_AccountID = ''ab-12'', src_CreatedByUserID = creator, src_Manifold = manifold,
      src_Handle = ''alice'', src_Kind = ''message'', src_CreatedAt = 3,
      src_LastBroadcastAt = None, src_LastBroadcastPayload = None\<rparr>"

lemma ex_org_sources_reads:
  fixes S :: "source list"
  defines "D \<equiv> ex_org\<lparr>sources := S\<rparr>"
  shows "ACLEnforced None ''ab-12'' D = Inr True" and "\<exists>u. GetUser None ''0b'' D = Inr u"
    and "RoleInOrg None None ''0b'' ''ab-12'' D = Inr OrgMember"
  by (simp_all add: D_def ex_org_def ACLEnforced_def GetUser_def RoleInOrg_def uuid_nil_def OrgAdmin_def OrgOwner_def)

theorem namespaced_source_is_open_witness:
  "sessionCan no_faults True ''ab-12'' ''0b'' ''ns.alice.inbox'' Read
     (ex_org\<lparr>sources := [ex_source ''51'' ''0a'' ''ns'']\<rparr>) = Inr True"
proof -
  obtain u where u: "GetUser None ''0b'' (ex_org\<lparr>sources := [ex_source ''51'' ''0a'' ''ns'']\<rparr>) = Inr u"
    using ex_org_sources_reads(2) by blast
  from namespaced_source_is_open [OF ex_org_sources_reads(1) u ex_org_sources_reads(3), of
      "[ex_source ''51'' ''0a'' ''ns'']" "ex_source ''51'' ''0a'' ''ns''" "''inbox''"]
  show ?thesis by (simp add: ListSourcesForOrg_def ex_source_def OrgMember_def OrgNone_def)
qed

theorem handle_shadowing_witness:
  "sessionCan no_faults True ''ab-12'' ''0b'' ''alice.inbox'' Read
     (ex_org\<lparr>sources := [ex_source ''52'' ''0b'' ''zz'', ex_source ''51'' ''0a'' '''']\<rparr>) = Inr True"
proof -
  let ?D = "ex_org\<lparr>sources := [ex_source ''52'' ''0b'' ''zz'', ex_source ''51'' ''0a'' '''']\<rparr>"
  obtain u where u: "GetUser None ''0b'' ?D = Inr u"
    using ex_org_sources_reads(2) by blast
  have "ListSourcesForOrg None ''ab-12'' ?D = Inr ([ex_source ''51'' ''0a'' ''''] @ ex_source ''52'' ''0b'' ''zz'' # [])"
    by (simp add: ListSourcesForOrg_def ex_source_def)
  from handle_shadowing [OF ex_org_sources_reads(1) u ex_org_sources_reads(3) _ this, of
      "ex_source ''51'' ''0a'' ''''" Read "''inbox''"]
  show ?thesis by (simp add: ex_source_def OrgMember_def OrgNone_def uuid_nil_def all_perms_def)
qed

text \<open>At the root the protection is the documented one. When all sources of an enforcing
  account live at the root, a plain member without grants who did not create a source may write
  its inbox, read its heartbeat, and do nothing else with its pipes; its creator may do
  everything.\<close>

theorem root_source_protected:
  assumes "ACLEnforced None acc D = Inr True" and "GetUser None u D = Inr usr"
    and "RoleInOrg None None u acc D = Inr OrgMember"
    and "ListACLGrantsForPrincipal None acc u D = Inr []"
    and "schema_ok D" and "\<forall>t \<in> set (sources D). src_AccountID t = acc \<longrightarrow> src_Manifold t = ''''"
    and "s \<in> set (sources D)" and "src_AccountID s = acc"
    and "HandleRegex (src_Handle s)" and "CHR ''.'' \<notin> set n" and "u \<noteq> uuid_nil" and "q \<in> set all_perms"
  shows "sessionCan no_faults True acc u (src_Handle s @ ''.'' @ n) q D
    = Inr (src_CreatedByUserID s = u \<or> (n = ''inbox'' \<and> q = Write) \<or> (n = ''heartbeat'' \<and> q = Read))"
proof -
  let ?path = "src_Handle s @ ''.'' @ n"
  obtain rows where rows: "ListSourcesForOrg None acc D = Inr rows"
      and set_rows: "set rows = {t \<in> set (sources D). src_AccountID t = acc}"
    by (simp add: ListSourcesForOrg_def)
  have "s = t" if "t \<in> set rows" "src_Handle t = src_Handle s" for t
    using that set_rows assms(5-8) by (auto simp: schema_ok_def distinct_map source_key_def inj_on_def)
  moreover have "handle_map rows (src_Handle s) \<noteq> None"
    using assms(7,8) set_rows by (auto simp: handle_map_None)
  moreover obtain t where "handle_map rows (src_Handle s) = Some t" using calculation(2) by blast
  moreover have "t \<in> set rows \<and> src_Handle t = src_Handle s"
    using find_SomeD [OF calculation(3) [unfolded handle_map_find]] by simp
  ultimately have map: "handle_map rows (src_Handle s) = Some s" by blast
  have h: "src_Handle s \<noteq> ''''" "CHR ''.'' \<notin> set (src_Handle s)"
    using assms(9) HandleRegex_no_special(1) by auto
  have "subjectFor ?path (handle_map rows)
      = \<lparr>sj_Path = ?path, sj_Collar = src_Handle s, sj_Name = n, sj_Owner = src_CreatedByUserID s\<rparr>"
    using map split_on_append_sep [OF h(2), of n] split_on_no_sep [OF assms(10)] by (simp add: subjectFor_def)
  note subj = this
  have "Has (Evaluate (principal_of u usr OrgMember) (subjectFor ?path (handle_map rows)) []) q \<longleftrightarrow>
      is_handle_owner (principal_of u usr OrgMember) (subjectFor ?path (handle_map rows))
      \<or> (n = ''inbox'' \<and> q = Write) \<or> (n = ''heartbeat'' \<and> q = Read)"
    unfolding Evaluate_Has_rule [OF assms(12)] subj
    using h(1) by (simp add: principal_of_def CanAdministerOrg_def)
  moreover have "is_handle_owner (principal_of u usr OrgMember) (subjectFor ?path (handle_map rows))
      \<longleftrightarrow> src_CreatedByUserID s = u"
    unfolding subj using h(1) assms(11) by (auto simp: principal_of_def is_handle_owner_def)
  ultimately have "Has (Evaluate (principal_of u usr OrgMember) (subjectFor ?path (handle_map rows)) []) q \<longleftrightarrow>
      src_CreatedByUserID s = u \<or> (n = ''inbox'' \<and> q = Write) \<or> (n = ''heartbeat'' \<and> q = Read)"
    by blast
  then show ?thesis
    using sessionCan_decided [OF decided [OF assms(1-3) rows assms(4)], of ?path q] by simp
qed

theorem root_source_protected_witness:
  "sessionCan no_faults True ''ab-12'' ''0b'' ''alice.inbox'' Read (ex_org\<lparr>grants := []\<rparr>) = Inr False"
proof -
  let ?D = "ex_org\<lparr>grants := []\<rparr>"
  obtain u where u: "GetUser None ''0b'' ?D = Inr u" by (auto simp: GetUser_def ex_org_def)
  have ok: "schema_ok ?D"
    by (simp add: schema_ok_def ex_org_def source_key_def has_account_def has_user_def)
  have reads: "ACLEnforced None ''ab-12'' ?D = Inr True" "RoleInOrg None None ''0b'' ''ab-12'' ?D = Inr OrgMember"
      "ListACLGrantsForPrincipal None ''ab-12'' ''0b'' ?D = Inr []"
    by (simp_all add: ex_org_def ACLEnforced_def RoleInOrg_def uuid_nil_def OrgAdmin_def OrgOwner_def
        ListACLGrantsForPrincipal_def)
  from root_source_protected [OF reads(1) u reads(2,3) ok, of "sources ?D ! 0" "''inbox''" Read]
  show ?thesis
    by (simp add: ex_org_def name_char_def name_char_hyphen_def uuid_nil_def all_perms_def)
qed

section \<open>Failures and mutations\<close>

text \<open>The checks fail open. When the lookup of the enforcement switch itself fails, an enforcing
  account is treated as one that never opted in: pipe management is allowed to every caller and
  the web surface grants every permission on every path.\<close>

theorem enforcement_lookup_fails_open:
  assumes "flt S_Enforced = Some t"
  shows "requirePipeAdmin flt True key path D = None \<and> sessionCan flt True acc u path q D = Inr True"
  using assms by (simp add: requirePipeAdmin_def sessionCan_def pipeDecision_def ACLEnforced_def)

theorem enforcement_lookup_fails_open_witness:
  "ACLEnforced None ''ab-12'' ex_org = Inr True \<and>
   sessionCan (no_faults(S_Enforced := Some ''timeout'')) True ''ab-12'' ''0b'' ''alice.inbox'' Read ex_org = Inr True"
  using ex_org_reads(1) enforcement_lookup_fails_open [of "no_faults(S_Enforced := Some ''timeout'')" "''timeout''"]
  by simp

text \<open>Only an administrator of the named target changes grants. Whatever fails, when a grant or
  revoke request leaves the stored grants different from before, the caller is a member of the
  organisation it acts in and the evaluator gave it admin on the request's text, against its own
  stored grants.\<close>

theorem mutateACL_requires_admin:
  assumes "mutateACL flt mint parse newID auditID now caller orgParam decoded isGrant W = (r, W')"
    and "grants (aw_db W') \<noteq> grants (aw_db W)"
  shows "\<exists>req org role subj me stored.
    decoded = Inr req \<and> resolveCallerOrg flt parse caller orgParam (aw_db W) = Inr (org, role) \<and> role \<noteq> OrgNone \<and>
    resolveSubject flt (acct_ID org) (rq_Pipe req) (aw_db W) = Inr subj \<and>
    callerPrincipal flt caller (acct_ID org) (aw_db W) = Inr me \<and>
    ListACLGrantsForPrincipal (flt S_Grants) (acct_ID org) (pr_ID me) (aw_db W) = Inr stored \<and>
    Has (Evaluate me subj (map ToACL stored)) Admin"
  using assms by (auto simp: mutateACL_def Let_def split: sum.splits prod.splits if_splits)

text \<open>The selector of a request is judged as if it were a path: what an administrator of a
  one-level selector can then grant.\<close>

lemma team_selectors:
  "Match ''team.*'' ''team.**''" "ValidSelector ''team.**''"
  "Match ''team.**'' ''team.a.b''" "\<not> Match ''team.*'' ''team.a.b''"
  by (simp_all add: Match_def ValidSelector_def hasEmpty_def tokenAny_def tokenRest_def)

lemma auditACL_grants [simp]: "grants (auditACL flt i now a c x y z b e D) = grants D"
  by (simp add: auditACL_def recordAudit_def InsertAuditEvent_def Let_def split: option.split)

lemma grant_subtree_run:
  assumes org: "resolveCallerOrg no_faults parse caller orgParam (aw_db W) = Inr (org, role)" and "role \<noteq> OrgNone"
    and me: "callerPrincipal no_faults caller (acct_ID org) (aw_db W) = Inr me" and "pr_OrgRole me \<noteq> OrgNone"
    and stored: "ListACLGrantsForPrincipal None (acct_ID org) (pr_ID me) (aw_db W) = Inr stored"
    and g: "g \<in> set stored" "ag_PrincipalID g = pr_ID me" "ag_Selector g = ''team.*''" "ag_Perm g = ''admin''"
    and target: "ResolvePrincipal None None (acct_ID org) (acct_Name org) prin (aw_db W) = Inr tgt"
    and fresh: "\<forall>g \<in> set (grants (aw_db W)). ag_ID g \<noteq> newID" and acct: "has_account (aw_db W) (acct_ID org)"
    and known: "has_user (aw_db W) (us_ID tgt)" "has_user (aw_db W) (pr_ID me)"
  shows "\<exists>b W'. handleAPIACLGrant no_faults mint parse newID auditID now caller orgParam
                  (Inr \<lparr>rq_Pipe = ''team.**'', rq_Principal = prin, rq_Perm = ''admin''\<rparr>) W = (Replied 200 b, W') \<and>
           (acct_ID org, us_ID tgt, ''team.**'', ''admin'') \<in> stored_grants (aw_db W') \<and>
           Match ''team.**'' ''team.a.b'' \<and> \<not> Match ''team.*'' ''team.a.b''"
proof -
  let ?D = "aw_db W"
  have "\<exists>subj. resolveSubject no_faults (acct_ID org) ''team.**'' ?D = Inr subj \<and> sj_Path subj = ''team.**''"
    by (cases "GetSourceByHandle None (acct_ID org) ''team'' ?D") (simp_all add: resolveSubject_def Let_def)
  then obtain subj where subj: "resolveSubject no_faults (acct_ID org) ''team.**'' ?D = Inr subj"
      and path: "sj_Path subj = ''team.**''" by blast
  have "grant_applies me subj (ToACL g)"
    using g path team_selectors(1) by (simp add: grant_applies_def ToACL_def)
  moreover have "Effective (gr_Perm (ToACL g)) AND Admin \<noteq> 0"
    using g(4) by (simp add: ToACL_def Effective_def perm_defs)
  ultimately have admin: "Has (Evaluate me subj (map ToACL stored)) Admin"
    using Evaluate_Has_rule [of Admin me subj "map ToACL stored"] g(1) assms(4) by (auto simp: all_perms_def)
  have fresh': "newID \<notin> ag_ID ` set (grants ?D)" using fresh by auto
  have "\<exists>D1. InsertACLGrant None None newID now (acct_ID org) (us_ID tgt) ''team.**'' ''admin'' (pr_ID me) ?D = (None, D1) \<and>
      (acct_ID org, us_ID tgt, ''team.**'', ''admin'') \<in> stored_grants D1"
    using fresh' acct known team_selectors(2)
    by (simp add: InsertACLGrant_def Let_def Bump_ok stored_grants_def grant_key_def)
  then obtain D1 where ins: "InsertACLGrant None None newID now (acct_ID org) (us_ID tgt) ''team.**'' ''admin'' (pr_ID me) ?D = (None, D1)"
      and D1: "(acct_ID org, us_ID tgt, ''team.**'', ''admin'') \<in> stored_grants D1" by blast
  from org me stored target subj admin assms(2) ins D1 team_selectors show ?thesis
    by (auto simp: handleAPIACLGrant_def mutateACL_def stored_grants_def)
qed

text \<open>An administrator of one level can take the whole subtree. Because the request's selector
  is matched as a path and a one-token wildcard matches the text of the multi-token wildcard, a
  member whose only right is admin on \<open>team.*\<close> can have admin on \<open>team.**\<close> granted to any
  principal, itself included, and so on pipes its own grant does not cover.\<close>

theorem selector_admin_escalates:
  assumes "resolveCallerOrg no_faults parse caller orgParam (aw_db W) = Inr (org, role)" and "role \<noteq> OrgNone"
    and "callerPrincipal no_faults caller (acct_ID org) (aw_db W) = Inr me" and "pr_OrgRole me \<noteq> OrgNone"
    and "ListACLGrantsForPrincipal None (acct_ID org) (pr_ID me) (aw_db W) = Inr stored"
    and "g \<in> set stored" and "ag_PrincipalID g = pr_ID me" and "ag_Selector g = ''team.*''" and "ag_Perm g = ''admin''"
    and "ResolvePrincipal None None (acct_ID org) (acct_Name org) prin (aw_db W) = Inr tgt"
    and "\<forall>g \<in> set (grants (aw_db W)). ag_ID g \<noteq> newID" and "has_account (aw_db W) (acct_ID org)"
    and "has_user (aw_db W) (us_ID tgt)" and "has_user (aw_db W) (pr_ID me)"
  shows "\<exists>b W'. handleAPIACLGrant no_faults mint parse newID auditID now caller orgParam
                  (Inr \<lparr>rq_Pipe = ''team.**'', rq_Principal = prin, rq_Perm = ''admin''\<rparr>) W = (Replied 200 b, W') \<and>
           (acct_ID org, us_ID tgt, ''team.**'', ''admin'') \<in> stored_grants (aw_db W') \<and>
           Match ''team.**'' ''team.a.b'' \<and> \<not> Match ''team.*'' ''team.a.b''"
  by (rule grant_subtree_run [OF assms])

definition ex_world :: server_world where
  "ex_world = \<lparr>aw_db = ex_org, aw_pool = Map.empty, aw_resolver = Map.empty, aw_streams = (\<lambda>_. Map.empty),
     aw_purged = [], aw_nudged = []\<rparr>"

definition ex_minting :: minting where
  "ex_minting = \<lparr>mt_Operator = True, mt_Material = Inr (''ACC'', ''jwt'', ''SEED'')\<rparr>"

definition ex_caller :: authed_caller where
  "ex_caller = \<lparr>cl_UserID = ''0b'', cl_APIKey = None, cl_TokenID = Some ''71''\<rparr>"

lemma ex_world_reads:
  "resolveCallerOrg no_faults parse ex_caller '''' (aw_db ex_world) = Inr (account.truncate (accounts ex_org ! 0), OrgMember)"
  "callerPrincipal no_faults ex_caller ''ab-12'' (aw_db ex_world) = Inr bob_in_org \<longleftrightarrow>
     bob_in_org = \<lparr>pr_ID = ''0b'', pr_Name = ''bob'', pr_OrgRole = OrgMember\<rparr>"
  "\<exists>g. ListACLGrantsForPrincipal None ''ab-12'' ''0b'' (aw_db ex_world) = Inr [g] \<and>
     ag_PrincipalID g = ''0b'' \<and> ag_Selector g = ''team.*'' \<and> ag_Perm g = ''admin''"
  "\<exists>t. ResolvePrincipal None None ''ab-12'' ''acme'' ''bob'' (aw_db ex_world) = Inr t \<and> us_ID t = ''0b''"
  by (auto simp: ex_world_def ex_org_def ex_caller_def resolveCallerOrg_def DefaultAccountFor_def belongs_to_def
      RoleInOrg_def uuid_nil_def OrgAdmin_def OrgOwner_def callerPrincipal_def GetUser_def principal_of_def DisplayName_def
      ParseServiceUsername_def ServiceNameSeparator_def ListACLGrantsForPrincipal_def join_grant_def EveryoneID_def
      ResolvePrincipal_def GetServiceAccount_def is_service_of_def GetUserByUsername_def account.defs user.defs grant_row.defs)

lemma ex_world_grants:
  "\<forall>g \<in> set (grants (aw_db ex_world)). ag_ID g \<noteq> ''62''" "has_account (aw_db ex_world) ''ab-12''"
  "has_user (aw_db ex_world) ''0b''"
  "acct_ID (account.truncate (accounts ex_org ! 0)) = ''ab-12''" "acct_Name (account.truncate (accounts ex_org ! 0)) = ''acme''"
  "(''ab-12'', ''0b'', ''team.**'', ''admin'') \<notin> stored_grants (aw_db ex_world)"
  by (simp_all add: ex_world_def ex_org_def has_account_def has_user_def stored_grants_def grant_key_def account.defs)

lemma ex_world_principal:
  "callerPrincipal no_faults ex_caller ''ab-12'' (aw_db ex_world) = Inr \<lparr>pr_ID = ''0b'', pr_Name = ''bob'', pr_OrgRole = OrgMember\<rparr>"
  using ex_world_reads(2) by blast

theorem selector_admin_escalates_witness:
  "\<exists>b W'. handleAPIACLGrant no_faults ex_minting (\<lambda>_. None) ''62'' ''72'' 9 ex_caller ''''
             (Inr \<lparr>rq_Pipe = ''team.**'', rq_Principal = ''bob'', rq_Perm = ''admin''\<rparr>) ex_world = (Replied 200 b, W') \<and>
          (''ab-12'', ''0b'', ''team.**'', ''admin'') \<in> stored_grants (aw_db W')"
proof -
  obtain g where g: "ListACLGrantsForPrincipal None ''ab-12'' ''0b'' (aw_db ex_world) = Inr [g]"
      "ag_PrincipalID g = ''0b''" "ag_Selector g = ''team.*''" "ag_Perm g = ''admin''"
    using ex_world_reads(3) by blast
  obtain t where t: "ResolvePrincipal None None ''ab-12'' ''acme'' ''bob'' (aw_db ex_world) = Inr t" "us_ID t = ''0b''"
    using ex_world_reads(4) by blast
  show ?thesis
    using selector_admin_escalates [OF ex_world_reads(1), of
        "\<lparr>pr_ID = ''0b'', pr_Name = ''bob'', pr_OrgRole = OrgMember\<rparr>" "[g]" g "''bob''" t "''62''" ex_minting "\<lambda>_. None" "''72''" 9]
      ex_world_principal ex_world_grants g t
    by (auto simp: OrgMember_def OrgNone_def)
qed

theorem mutateACL_requires_admin_witness:
  "\<exists>r W' me stored. mutateACL no_faults ex_minting (\<lambda>_. None) ''62'' ''72'' 9 ex_caller ''''
             (Inr \<lparr>rq_Pipe = ''team.**'', rq_Principal = ''bob'', rq_Perm = ''admin''\<rparr>) True ex_world = (r, W') \<and>
     grants (aw_db W') \<noteq> grants (aw_db ex_world) \<and>
     callerPrincipal no_faults ex_caller ''ab-12'' (aw_db ex_world) = Inr me \<and>
     ListACLGrantsForPrincipal None ''ab-12'' (pr_ID me) (aw_db ex_world) = Inr stored \<and>
     Has (Evaluate me \<lparr>sj_Path = ''team.**'', sj_Collar = '''', sj_Name = ''**'', sj_Owner = uuid_nil\<rparr> (map ToACL stored)) Admin"
proof -
  obtain g where g: "ListACLGrantsForPrincipal None ''ab-12'' ''0b'' (aw_db ex_world) = Inr [g]"
      "ag_PrincipalID g = ''0b''" "ag_Selector g = ''team.*''" "ag_Perm g = ''admin''"
    using ex_world_reads(3) by blast
  obtain t where t: "ResolvePrincipal None None ''ab-12'' ''acme'' ''bob'' (aw_db ex_world) = Inr t" "us_ID t = ''0b''"
    using ex_world_reads(4) by blast
  obtain b W' where run: "handleAPIACLGrant no_faults ex_minting (\<lambda>_. None) ''62'' ''72'' 9 ex_caller ''''
             (Inr \<lparr>rq_Pipe = ''team.**'', rq_Principal = ''bob'', rq_Perm = ''admin''\<rparr>) ex_world = (Replied 200 b, W')"
      and new: "(''ab-12'', ''0b'', ''team.**'', ''admin'') \<in> stored_grants (aw_db W')"
    using grant_subtree_run [OF ex_world_reads(1), of
        "\<lparr>pr_ID = ''0b'', pr_Name = ''bob'', pr_OrgRole = OrgMember\<rparr>" "[g]" g "''bob''" t "''62''" ex_minting "\<lambda>_. None" "''72''" 9]
      ex_world_principal ex_world_grants g t
    by (auto simp: OrgMember_def OrgNone_def)
  have diff: "grants (aw_db W') \<noteq> grants (aw_db ex_world)"
    using new ex_world_grants(6) by (auto simp: stored_grants_def)
  have subj: "resolveSubject no_faults ''ab-12'' ''team.**'' (aw_db ex_world) =
      Inr \<lparr>sj_Path = ''team.**'', sj_Collar = '''', sj_Name = ''**'', sj_Owner = uuid_nil\<rparr>"
    by (simp add: resolveSubject_def ex_world_def ex_org_def GetSourceByHandle_def Let_def)
  from mutateACL_requires_admin [OF run [unfolded handleAPIACLGrant_def] diff] run diff subj ex_world_reads(1) ex_world_grants(4)
  show ?thesis by (auto simp: handleAPIACLGrant_def)
qed

end
