(* ===== verification/StreamsProps.thy ===== *)
theory StreamsProps
  imports Streams
begin

text \<open>
  What the account pool guarantees of the streams: opening an account that is not in the pool
  re-creates the stream of every source's pipe with the retention its row asks for. The streams a
  source needs are collected in \<open>source_streams\<close>; provisioning without faults is a sequence of map
  updates over that list, and the stream names of well-formed addresses do not collide.
\<close>

section \<open>Retention\<close>

definition source_rows :: "database \<Rightarrow> source \<Rightarrow> pipe list" where
  "source_rows D s = sort_key pp_Name (filter (\<lambda>p. pp_SourceID p = Some (src_ID s)) (pipes D))"

text \<open>The retention a source's pipe should have: its row's, or the built-in default.\<close>

definition wanted :: "database \<Rightarrow> source \<Rightarrow> string \<Rightarrow> duration \<times> int \<times> int" where
  "wanted D s name =
     (case find (\<lambda>p. pp_SourceID p = Some (src_ID s) \<and> pp_Name p = name) (pipes D) of
        Some row \<Rightarrow> pipeRetention row | None \<Rightarrow> resolveRetention [])"

definition source_streams :: "database \<Rightarrow> uuid \<Rightarrow> source \<Rightarrow> stream_config list" where
  "source_streams D acc s =
     (let names = source_Pipes s @ map pp_Name (filter (\<lambda>r. pp_Name r \<notin> set (source_Pipes s)) (source_rows D s))
      in map (\<lambda>n. stream_config_for acc (src_Manifold s) (src_Handle s) n (wanted D s n)) names)"

text \<open>A row of a source carries the source's account and manifold, as \<open>createCollaredPipe\<close> writes it.\<close>

definition collared_ok :: "database \<Rightarrow> bool" where
  "collared_ok D \<longleftrightarrow>
     (\<forall>p \<in> set (pipes D). \<forall>s \<in> set (sources D). pp_SourceID p = Some (src_ID s) \<longrightarrow>
        pp_Manifold p = src_Manifold s \<and> pp_AccountID p = src_AccountID s)"

definition put :: "streams \<Rightarrow> stream_config list \<Rightarrow> streams" where
  "put = foldl (\<lambda>m c. m(cf_Name c \<mapsto> c))"

lemma put_simps [simp]: "put js [] = js" "put js (c # cs) = put (js(cf_Name c \<mapsto> c)) cs"
  by (simp_all add: put_def)

lemma put_append [simp]: "put js (cs @ ds) = put (put js cs) ds"
  by (simp add: put_def)

lemma put_other: "k \<notin> cf_Name ` set cs \<Longrightarrow> put js cs k = js k"
  by (induction cs arbitrary: js) auto

lemma put_mem:
  "c \<in> set cs \<Longrightarrow> \<forall>d \<in> set cs. cf_Name d = cf_Name c \<longrightarrow> d = c \<Longrightarrow> put js cs (cf_Name c) = Some c"
proof (induction cs arbitrary: js)
  case (Cons d cs)
  show ?case
  proof (cases "c \<in> set cs")
    case False
    then have "cf_Name c \<notin> cf_Name ` set cs" using Cons.prems by auto
    with False Cons.prems show ?thesis by (simp add: put_other)
  qed (use Cons in auto)
qed simp

lemma config_name [simp]: "cf_Name (stream_config_for acc m h n ret) = BuildStreamName acc m h n"
  by (simp add: stream_config_for_def)

lemma row_map: "foldl (\<lambda>m row. m(pp_Name row \<mapsto> row)) M rows n =
    (case find (\<lambda>r. pp_Name r = n) (rev rows) of Some r \<Rightarrow> Some r | None \<Rightarrow> M n)"
  by (induction rows arbitrary: M) (auto simp: find_append split: option.splits)

lemma source_row_unique:
  assumes "schema_ok D" and "collared_ok D" and "s \<in> set (sources D)"
    and "p \<in> set (pipes D)" "pp_SourceID p = Some (src_ID s)" "q \<in> set (pipes D)" "pp_SourceID q = Some (src_ID s)"
    and "pp_Name p = pp_Name q"
  shows "p = q"
proof -
  have "pipe_key p = pipe_key q" using assms by (auto simp: pipe_key_def collared_ok_def)
  then show ?thesis using assms(1,4,6) by (auto simp: schema_ok_def distinct_map inj_on_def)
qed

lemma stored_row:
  assumes "schema_ok D" and "collared_ok D" and "s \<in> set (sources D)"
  shows "foldl (\<lambda>m row. m(pp_Name row \<mapsto> row)) Map.empty (source_rows D s) n =
         find (\<lambda>p. pp_SourceID p = Some (src_ID s) \<and> pp_Name p = n) (pipes D)"
proof (cases "find (\<lambda>p. pp_SourceID p = Some (src_ID s) \<and> pp_Name p = n) (pipes D)")
  case None
  then have "find (\<lambda>r. pp_Name r = n) (rev (source_rows D s)) = None"
    by (auto simp: find_None_all source_rows_def)
  with None show ?thesis by (simp add: row_map)
next
  case (Some p)
  from find_SomeD [OF Some] have p: "p \<in> set (pipes D)" "pp_SourceID p = Some (src_ID s)" "pp_Name p = n" by auto
  then have "find (\<lambda>r. pp_Name r = n) (rev (source_rows D s)) \<noteq> None"
    by (auto simp: find_None_all source_rows_def)
  then obtain q where q: "find (\<lambda>r. pp_Name r = n) (rev (source_rows D s)) = Some q" by blast
  from find_SomeD [OF q] have "q \<in> set (pipes D)" "pp_SourceID q = Some (src_ID s)" "pp_Name q = n"
    by (auto simp: source_rows_def)
  with p have "q = p" using source_row_unique [OF assms] by blast
  with Some q show ?thesis by (simp add: row_map)
qed

section \<open>Provisioning as a sequence of updates\<close>

lemma ensure_stream_ok:
  "ensurePipeStreamWithRetention no_faults acc m h n ret js =
     (None, js(BuildStreamName acc m h n \<mapsto> stream_config_for acc m h n ret))"
  by (simp add: ensurePipeStreamWithRetention_def Let_def)

lemma ensure_auto_ok:
  "ensure_auto no_faults acc s stored names js =
     (None, put js (map (\<lambda>n. stream_config_for acc (src_Manifold s) (src_Handle s) n
        (case stored n of Some row \<Rightarrow> pipeRetention row | None \<Rightarrow> resolveRetention [])) names))"
  by (induction names arbitrary: js) (simp_all add: ensure_stream_ok Let_def)

lemma ensure_user_ok:
  "ensure_user no_faults acc s fin rows js =
     (None, put js (map (\<lambda>r. stream_config_for acc (pp_Manifold r) (src_Handle s) (pp_Name r) (pipeRetention r))
        (filter (\<lambda>r. pp_Name r \<notin> set fin) rows)))"
  by (induction rows arbitrary: js) (simp_all add: ensure_stream_ok)

lemma ensureSourceStreams_ok:
  assumes "schema_ok D" and "collared_ok D" and "s \<in> set (sources D)"
  shows "ensureSourceStreams no_faults acc s D js = (None, put js (source_streams D acc s))"
proof -
  have row: "pipeRetention r = wanted D s (pp_Name r) \<and> pp_Manifold r = src_Manifold s" if "r \<in> set (source_rows D s)" for r
  proof -
    have r: "r \<in> set (pipes D)" "pp_SourceID r = Some (src_ID s)" using that by (auto simp: source_rows_def)
    then obtain q where q: "find (\<lambda>p. pp_SourceID p = Some (src_ID s) \<and> pp_Name p = pp_Name r) (pipes D) = Some q"
      by (cases "find (\<lambda>p. pp_SourceID p = Some (src_ID s) \<and> pp_Name p = pp_Name r) (pipes D)")
        (auto simp: find_None_all)
    from find_SomeD [OF q] r have "q = r" using source_row_unique [OF assms] by blast
    with q r assms(2,3) show ?thesis by (auto simp: wanted_def collared_ok_def)
  qed
  have "ensureSourceStreams no_faults acc s D js =
      ensure_user no_faults acc s (source_Pipes s) (source_rows D s)
        (put js (map (\<lambda>n. stream_config_for acc (src_Manifold s) (src_Handle s) n (wanted D s n)) (source_Pipes s)))"
    by (simp add: ensureSourceStreams_def ListPipesForSource_def source_rows_def [symmetric] stored_row [OF assms]
        ensure_auto_ok wanted_def)
  also have "\<dots> = (None, put js (source_streams D acc s))"
  proof -
    have "map (\<lambda>r. stream_config_for acc (pp_Manifold r) (src_Handle s) (pp_Name r) (pipeRetention r))
          (filter (\<lambda>r. pp_Name r \<notin> set (source_Pipes s)) (source_rows D s)) =
        map (\<lambda>r. stream_config_for acc (src_Manifold s) (src_Handle s) (pp_Name r) (wanted D s (pp_Name r)))
          (filter (\<lambda>r. pp_Name r \<notin> set (source_Pipes s)) (source_rows D s))"
      using row by (intro map_cong) auto
    then show ?thesis by (simp add: ensure_user_ok source_streams_def Let_def comp_def del: map_eq_conv)
  qed
  finally show ?thesis .
qed

lemma ensure_sources_ok:
  assumes "schema_ok D" and "collared_ok D" and "set srcs \<subseteq> set (sources D)"
  shows "ensure_sources no_faults acc D srcs js = (None, put js (concat (map (source_streams D acc) srcs)))"
  using assms(3) by (induction srcs arbitrary: js) (simp_all add: ensureSourceStreams_ok [OF assms(1,2)])

section \<open>Stream names of collared pipes\<close>

lemma source_Pipes_valid: "n \<in> set (source_Pipes s) \<Longrightarrow> HandleRegex n"
  by (auto simp: source_Pipes_def name_char_def name_char_hyphen_def split: if_splits)

lemma manifold_tokens_inj:
  assumes "manifold_tokens m = manifold_tokens m'"
  shows "m = m'"
proof -
  have "split_dots x \<noteq> []" for x by simp
  then show ?thesis
    using assms split_on_inj [of "CHR ''.''" m m'] unfolding manifold_tokens_def by metis
qed

lemma collared_stream_inj:
  assumes "uuid_text a" and "valid_addr m h n" and "valid_addr m' h' n'" and "h \<noteq> ''''" and "h' \<noteq> ''''"
    and "BuildStreamName a m h n = BuildStreamName a m' h' n'"
  shows "m = m' \<and> h = h' \<and> n = n'"
proof -
  have "split_on CHR ''_'' (BuildStreamName a m h n) = split_on CHR ''_'' (BuildStreamName a m' h' n')"
    using assms(6) by simp
  then show ?thesis
    using assms(4,5) unfolding split_BuildStreamName [OF assms(1,2)] split_BuildStreamName [OF assms(1,3)]
    by (auto simp: addr_tokens_def split: if_splits dest: manifold_tokens_inj)
qed

definition stored_names_ok :: "uuid \<Rightarrow> database \<Rightarrow> bool" where
  "stored_names_ok acc D \<longleftrightarrow> uuid_text acc \<and>
     (\<forall>s \<in> set (sources D). src_AccountID s = acc \<longrightarrow> valid_manifold (src_Manifold s) \<and> HandleRegex (src_Handle s)) \<and>
     (\<forall>p \<in> set (pipes D). HandleRegex (pp_Name p))"

lemma source_streams_form:
  assumes "stored_names_ok acc D" and "s \<in> set (sources D)" and "src_AccountID s = acc" and "c \<in> set (source_streams D acc s)"
  shows "\<exists>n. valid_addr (src_Manifold s) (src_Handle s) n \<and>
           c = stream_config_for acc (src_Manifold s) (src_Handle s) n (wanted D s n)"
  using assms source_Pipes_valid [of _ s] HandleRegex_nonempty
  by (fastforce simp: source_streams_def Let_def stored_names_ok_def valid_addr_def source_rows_def)

lemma org_streams_unique:
  assumes "schema_ok D" and "stored_names_ok acc D"
    and "s \<in> set (sources D)" "src_AccountID s = acc" "c \<in> set (source_streams D acc s)"
    and "s' \<in> set (sources D)" "src_AccountID s' = acc" "c' \<in> set (source_streams D acc s')"
    and "cf_Name c' = cf_Name c"
  shows "c' = c"
proof -
  obtain n where n: "valid_addr (src_Manifold s) (src_Handle s) n"
      "c = stream_config_for acc (src_Manifold s) (src_Handle s) n (wanted D s n)"
    using source_streams_form [OF assms(2-5)] by blast
  obtain n' where n': "valid_addr (src_Manifold s') (src_Handle s') n'"
      "c' = stream_config_for acc (src_Manifold s') (src_Handle s') n' (wanted D s' n')"
    using source_streams_form [OF assms(2,6-8)] by blast
  have h: "src_Handle s \<noteq> ''''" "src_Handle s' \<noteq> ''''" "uuid_text acc"
    using assms(2-4,6,7) HandleRegex_nonempty by (auto simp: stored_names_ok_def)
  have "BuildStreamName acc (src_Manifold s') (src_Handle s') n' = BuildStreamName acc (src_Manifold s) (src_Handle s) n"
    using assms(9) n(2) n'(2) by simp
  then have eq: "src_Manifold s' = src_Manifold s \<and> src_Handle s' = src_Handle s \<and> n' = n"
    by (rule collared_stream_inj [OF h(3) n'(1) n(1) h(2) h(1)])
  then have "source_key s' = source_key s" using assms(4,7) by (simp add: source_key_def)
  then have "s' = s" using assms(1,3,6) by (auto simp: schema_ok_def distinct_map inj_on_def)
  with eq n(2) n'(2) show ?thesis by simp
qed

section \<open>Opening an account\<close>

lemma Get_cold_streams:
  assumes "aw_pool W acc = None" and "Get no_faults mint acc W = (Inr oa, W')"
  shows "oa_AccountID oa = acc \<and> aw_pool W' acc = Some oa \<and> nats_only (aw_db W) (aw_db W') \<and>
    aw_streams W' (oa_AccountPub oa) =
      snd (ensureStreamsForOrg no_faults acc (aw_db W') (aw_streams W (oa_AccountPub oa)))"
proof -
  obtain org where org: "GetAccount None acc (aw_db W) = Inr org"
    using assms by (auto simp: Get_def split: sum.splits)
  then have acct: "acct_ID org = acc"
    by (auto simp: GetAccount_def query_row_def account.defs split: option.splits dest!: find_SomeD)
  have prov: "acct_ID org1 = acct_ID org \<and> aw_streams W1 = aw_streams W"
    if "provisionAccount no_faults mint org W = (Inr org1, W1)" for org1 W1
    using that by (auto simp: provisionAccount_def SetNATSAccount_def split: sum.splits if_splits)
  have "\<exists>(org1::account) W1. acct_ID org1 = acc \<and> aw_streams W1 = aw_streams W \<and>
      pool_enter no_faults acc \<lparr>oa_AccountID = acct_ID org1, oa_AccountName = acct_Name org1,
            oa_AccountPub = acct_NATSAccountPub org1\<rparr> W1 = (Inr oa, W')"
  proof (cases "acct_NATSAccountJWT org = ''''")
    case True
    then obtain org1 W1 where "provisionAccount no_faults mint org W = (Inr org1, W1)"
      using assms org by (auto simp: Get_def Let_def split: sum.splits prod.splits)
    with True assms org acct prov [OF this] show ?thesis
      by - (rule exI [of _ org1], rule exI [of _ W1], simp add: Get_def openAccount_def)
  next
    case False
    with assms org acct show ?thesis
      by - (rule exI [of _ org], rule exI [of _ W], simp add: Get_def openAccount_def)
  qed
  then show ?thesis
    using Get_nats_only [of W no_faults mint acc] assms(2) by (auto simp: pool_enter_def Let_def)
qed

definition org_sources :: "uuid \<Rightarrow> database \<Rightarrow> source list" where
  "org_sources acc D = sort_key (\<lambda>s. (src_Manifold s, src_Handle s)) (filter (\<lambda>s. src_AccountID s = acc) (sources D))"

definition org_streams :: "uuid \<Rightarrow> database \<Rightarrow> stream_config list" where
  "org_streams acc D = concat (map (source_streams D acc) (org_sources acc D))"

lemma org_streams_set: "set (org_streams acc D) = (\<Union>t \<in> {t \<in> set (sources D). src_AccountID t = acc}. set (source_streams D acc t))"
  by (auto simp: org_streams_def org_sources_def)

lemma ensureStreamsForOrg_ok:
  assumes "schema_ok D" and "collared_ok D" and "sources D' = sources D" and "pipes D' = pipes D"
  shows "snd (ensureStreamsForOrg no_faults acc D' js) = put js (org_streams acc D)"
proof -
  have "ListPipesForSource f i D' = ListPipesForSource f i D" for f i
    using assms(4) by (simp add: ListPipesForSource_def)
  then have "ensureSourceStreams no_faults acc t D' js = ensureSourceStreams no_faults acc t D js" for t js
    by (simp add: ensureSourceStreams_def)
  then have "ensure_sources no_faults acc D' srcs js = ensure_sources no_faults acc D srcs js" for srcs js
    by (induction srcs arbitrary: js) (auto split: prod.split option.split)
  moreover have "set (org_sources acc D) \<subseteq> set (sources D)" by (auto simp: org_sources_def)
  ultimately show ?thesis
    using ensure_sources_ok [OF assms(1,2), of "org_sources acc D" acc js] assms(3)
    by (simp add: ensureStreamsForOrg_def ListSourcesForOrg_def org_sources_def [symmetric] org_streams_def)
qed

lemma org_streams_lookup:
  assumes "schema_ok D" and "stored_names_ok acc D" and "s \<in> set (sources D)" and "src_AccountID s = acc"
    and "n \<in> set (source_Pipes s) \<union> pp_Name ` set (source_rows D s)"
  shows "put js (org_streams acc D) (BuildStreamName acc (src_Manifold s) (src_Handle s) n) =
    Some (stream_config_for acc (src_Manifold s) (src_Handle s) n (wanted D s n))"
proof -
  let ?c = "stream_config_for acc (src_Manifold s) (src_Handle s) n (wanted D s n)"
  have c: "?c \<in> set (source_streams D acc s)" using assms(5) by (auto simp: source_streams_def Let_def)
  have "\<forall>d \<in> set (org_streams acc D). cf_Name d = cf_Name ?c \<longrightarrow> d = ?c"
    using org_streams_unique [OF assms(1-4) c] by (auto simp: org_streams_set)
  moreover have "?c \<in> set (org_streams acc D)" using c assms(3,4) by (auto simp: org_streams_set)
  ultimately have "put js (org_streams acc D) (cf_Name ?c) = Some ?c" by (intro put_mem)
  then show ?thesis by simp
qed

text \<open>Opening an account rebuilds its streams from the database. When an account that is not in
  the pool is opened and nothing fails, the stream of every pipe of every source of the account
  exists with exactly the retention of its row, or the built-in default where there is no row;
  every other stream is left as it was, those of uncollared pipes included, so a lost stream of an
  uncollared pipe stays lost.\<close>

theorem Get_rebuilds_streams:
  assumes "aw_pool W acc = None" and "Get no_faults mint acc W = (Inr oa, W')"
    and "schema_ok (aw_db W)" and "collared_ok (aw_db W)" and "stored_names_ok acc (aw_db W)"
    and "s \<in> set (sources (aw_db W))" and "src_AccountID s = acc"
  shows "(\<forall>n. n \<in> set (source_Pipes s) \<union> pp_Name ` set (source_rows (aw_db W) s) \<longrightarrow>
            aw_streams W' (oa_AccountPub oa) (BuildStreamName acc (src_Manifold s) (src_Handle s) n) =
              Some (stream_config_for acc (src_Manifold s) (src_Handle s) n (wanted (aw_db W) s n))) \<and>
         (\<forall>k. (\<forall>t n. t \<in> set (sources (aw_db W)) \<and> src_AccountID t = acc \<and>
                   n \<in> set (source_Pipes t) \<union> pp_Name ` set (source_rows (aw_db W) t) \<longrightarrow>
                   k \<noteq> BuildStreamName acc (src_Manifold t) (src_Handle t) n) \<longrightarrow>
            aw_streams W' (oa_AccountPub oa) k = aw_streams W (oa_AccountPub oa) k)"
proof -
  let ?D = "aw_db W"
  have "nats_only ?D (aw_db W')" and
      streams: "aw_streams W' (oa_AccountPub oa) =
        snd (ensureStreamsForOrg no_faults acc (aw_db W') (aw_streams W (oa_AccountPub oa)))"
    using Get_cold_streams [OF assms(1,2)] by auto
  then have put: "aw_streams W' (oa_AccountPub oa) = put (aw_streams W (oa_AccountPub oa)) (org_streams acc ?D)"
    using ensureStreamsForOrg_ok [OF assms(3,4) nats_only_tables(3,4)] by simp
  have other: "put js (org_streams acc ?D) k = js k"
    if k: "\<forall>t n. t \<in> set (sources ?D) \<and> src_AccountID t = acc \<and>
           n \<in> set (source_Pipes t) \<union> pp_Name ` set (source_rows ?D t) \<longrightarrow>
           k \<noteq> BuildStreamName acc (src_Manifold t) (src_Handle t) n" for k js
  proof (rule put_other)
    show "k \<notin> cf_Name ` set (org_streams acc ?D)"
    proof
      assume "k \<in> cf_Name ` set (org_streams acc ?D)"
      then obtain t c where t: "t \<in> set (sources ?D)" "src_AccountID t = acc" "c \<in> set (source_streams ?D acc t)" "k = cf_Name c"
        unfolding org_streams_set by blast
      then have "\<exists>n \<in> set (source_Pipes t) \<union> pp_Name ` set (source_rows ?D t).
          k = BuildStreamName acc (src_Manifold t) (src_Handle t) n"
        by (auto simp: source_streams_def Let_def)
      with k t(1,2) show False by blast
    qed
  qed
  show ?thesis
    unfolding put using org_streams_lookup [OF assms(3,5-7)] other by blast
qed

definition ex_cold :: server_world where
  "ex_cold = \<lparr>aw_db = ex_pipes, aw_pool = Map.empty, aw_resolver = Map.empty, aw_streams = (\<lambda>_. Map.empty),
     aw_purged = [], aw_nudged = []\<rparr>"

definition ex_mint :: minting where
  "ex_mint = \<lparr>mt_Operator = True, mt_Material = Inr (''ACC'', ''jwt'', ''SEED'')\<rparr>"

lemma ex_cold_reads:
  "aw_pool ex_cold ''a1'' = None" "collared_ok (aw_db ex_cold)" "stored_names_ok ''a1'' (aw_db ex_cold)"
  "schema_ok (aw_db ex_cold)" "aw_db ex_cold = ex_pipes"
  using ex_pipes_ok
  by (simp_all add: ex_cold_def ex_pipes_def collared_ok_def stored_names_ok_def uuid_text_def valid_manifold_def
      manifold_tokens_def name_char_def name_char_hyphen_def)

lemma ex_cold_Get: "\<exists>W'. Get no_faults ex_mint ''a1'' ex_cold =
    (Inr \<lparr>oa_AccountID = ''a1'', oa_AccountName = ''acme'', oa_AccountPub = ''ACC''\<rparr>, W')"
  by (simp add: Get_def ex_cold_def ex_pipes_def ex_mint_def GetAccount_def provisionAccount_def SetNATSAccount_def
      openAccount_def pool_enter_def Let_def account.defs)

theorem Get_rebuilds_streams_witness:
  "\<exists>W'. Get no_faults ex_mint ''a1'' ex_cold =
      (Inr \<lparr>oa_AccountID = ''a1'', oa_AccountName = ''acme'', oa_AccountPub = ''ACC''\<rparr>, W') \<and>
      aw_streams W' ''ACC'' ''pipe_a1_alice_log'' =
        Some (stream_config_for ''a1'' '''' ''alice'' ''log'' (86400000000000, 5000, 16777216))"
proof -
  obtain W' where W': "Get no_faults ex_mint ''a1'' ex_cold =
      (Inr \<lparr>oa_AccountID = ''a1'', oa_AccountName = ''acme'', oa_AccountPub = ''ACC''\<rparr>, W')"
    using ex_cold_Get by blast
  let ?s = "sources ex_pipes ! 0"
  have s: "?s \<in> set (sources (aw_db ex_cold))" "src_AccountID ?s = ''a1''" "src_Manifold ?s = ''''" "src_Handle ?s = ''alice''"
    by (simp_all add: ex_cold_def ex_pipes_def)
  have n: "''log'' \<in> set (source_Pipes ?s) \<union> pp_Name ` set (source_rows (aw_db ex_cold) ?s)"
    by (simp add: ex_cold_def ex_pipes_def source_rows_def)
  have w: "wanted (aw_db ex_cold) ?s ''log'' = (86400000000000, 5000, 16777216)"
    by (simp add: ex_cold_def ex_pipes_def wanted_def pipeRetention_def pipeLayer_def resolveRetention_def
        defaultStreamMaxAge_def defaultStreamMaxMsgs_def defaultStreamMaxBytes_def duration_units)
  have b: "BuildStreamName ''a1'' '''' ''alice'' ''log'' = ''pipe_a1_alice_log''"
    by (simp add: BuildStreamName_def PresencePipe_def org_short_def remove_char_def)
  from Get_rebuilds_streams [OF ex_cold_reads(1) W' ex_cold_reads(4,2,3) s(1,2)] n
  have "aw_streams W' ''ACC'' (BuildStreamName ''a1'' '''' ''alice'' ''log'') =
      Some (stream_config_for ''a1'' '''' ''alice'' ''log'' (wanted (aw_db ex_cold) ?s ''log''))"
    unfolding s(3,4) by (simp only: orgaccount.simps)
  with W' show ?thesis unfolding w b by blast
qed

end
