(* ===== verification/Errors.thy ===== *)
theory Errors
  imports Prelude
begin

text \<open>
  The error contract of \<open>internal/cliproto/errors.go\<close>: the stable codes, the exit code the CLI
  leaves with, the HTTP status the server answers with, the standard messages and the
  constructors that thread a name into the message. \<open>Code\<close> is a string type in the source, so a
  value outside the list is possible and takes the default branches.
\<close>

section \<open>Codes\<close>

definition ENotLoggedIn :: string where "ENotLoggedIn = ''E_NOT_LOGGED_IN''"
definition EDaemonNotRunning :: string where "EDaemonNotRunning = ''E_DAEMON_NOT_RUNNING''"
definition EDaemonTimeout :: string where "EDaemonTimeout = ''E_DAEMON_TIMEOUT''"
definition EInvalidAPIKey :: string where "EInvalidAPIKey = ''E_INVALID_API_KEY''"
definition ESourceTaken :: string where "ESourceTaken = ''E_SOURCE_TAKEN''"
definition ESourceNotFound :: string where "ESourceNotFound = ''E_SOURCE_NOT_FOUND''"
definition EInvalidHandle :: string where "EInvalidHandle = ''E_INVALID_HANDLE''"
definition ENoCurrentSource :: string where "ENoCurrentSource = ''E_NO_CURRENT_SOURCE''"
definition EPayloadTooLarge :: string where "EPayloadTooLarge = ''E_PAYLOAD_TOO_LARGE''"
definition EServerUnreachable :: string where "EServerUnreachable = ''E_SERVER_UNREACHABLE''"
definition ENATSUnreachable :: string where "ENATSUnreachable = ''E_NATS_UNREACHABLE''"
definition EInvalidPipe :: string where "EInvalidPipe = ''E_INVALID_PIPE''"
definition EPipeTaken :: string where "EPipeTaken = ''E_PIPE_TAKEN''"
definition EPipeNotFound :: string where "EPipeNotFound = ''E_PIPE_NOT_FOUND''"
definition EPipeForbidden :: string where "EPipeForbidden = ''E_PIPE_FORBIDDEN''"
definition ECredentialTooLarge :: string where "ECredentialTooLarge = ''E_CREDENTIAL_TOO_LARGE''"
definition EInvalidSubject :: string where "EInvalidSubject = ''E_INVALID_SUBJECT''"
definition EInvalidManifold :: string where "EInvalidManifold = ''E_INVALID_MANIFOLD''"
definition EDeliveryUnconfirmed :: string where "EDeliveryUnconfirmed = ''E_DELIVERY_UNCONFIRMED''"
definition EInvalidSchedule :: string where "EInvalidSchedule = ''E_INVALID_SCHEDULE''"
definition EScheduleNotFound :: string where "EScheduleNotFound = ''E_SCHEDULE_NOT_FOUND''"
definition ELeaseHeld :: string where "ELeaseHeld = ''E_LEASE_HELD''"
definition ELeaseNoHost :: string where "ELeaseNoHost = ''E_LEASE_NO_HOST''"
definition ENameTaken :: string where "ENameTaken = ''E_NAME_TAKEN''"

lemmas code_defs =
  ENotLoggedIn_def EDaemonNotRunning_def EDaemonTimeout_def EInvalidAPIKey_def ESourceTaken_def ESourceNotFound_def EInvalidHandle_def ENoCurrentSource_def EPayloadTooLarge_def EServerUnreachable_def ENATSUnreachable_def EInvalidPipe_def EPipeTaken_def EPipeNotFound_def EPipeForbidden_def ECredentialTooLarge_def EInvalidSubject_def EInvalidManifold_def EDeliveryUnconfirmed_def EInvalidSchedule_def EScheduleNotFound_def ELeaseHeld_def ELeaseNoHost_def ENameTaken_def

section \<open>Exit codes, messages and statuses\<close>

definition ExitCode :: "string \<Rightarrow> int" where
  "ExitCode c =
     (if c = ENotLoggedIn then 10
      else if c = EDaemonNotRunning then 11
      else if c = EInvalidAPIKey then 12
      else if c = ESourceTaken then 13
      else if c = ESourceNotFound then 14
      else if c = EInvalidHandle then 15
      else if c = ENoCurrentSource then 16
      else if c = EPayloadTooLarge then 17
      else if c = EServerUnreachable then 18
      else if c = ENATSUnreachable then 19
      else if c = EInvalidPipe then 20
      else if c = EPipeTaken then 21
      else if c = EPipeNotFound then 22
      else if c = EInvalidSubject then 23
      else if c = EInvalidManifold then 24
      else if c = ENameTaken then 21
      else if c = EDeliveryUnconfirmed then 25
      else if c = EDaemonTimeout then 26
      else if c = ELeaseHeld then 27
      else if c = ELeaseNoHost then 28
      else if c = EPipeForbidden then 29
      else if c = ECredentialTooLarge then 30
      else 1)"

definition Message_of :: "string \<Rightarrow> string" where
  "Message_of c =
     (if c = ENotLoggedIn then ''not logged in; run '' @ [CHR 0x27] @ ''ppz daemon login URL -apikey K'' @ [CHR 0x27]
      else if c = EDaemonNotRunning then ''daemon not running; run '' @ [CHR 0x27] @ ''ppz daemon start'' @ [CHR 0x27]
      else if c = EInvalidAPIKey then ''invalid api key''
      else if c = ESourceTaken then ''source already exists in this account''
      else if c = ESourceNotFound then ''source not found''
      else if c = EInvalidHandle then ''invalid handle: must match [a-z0-9-] (max 32, no leading/trailing -, not reserved)''
      else if c = ENoCurrentSource then ''no current source for this shell session; run '' @ [CHR 0x27] @ ''ppz source create <handle>'' @ [CHR 0x27] @ '' (or '' @ [CHR 0x27] @ ''ppz set handle <handle>'' @ [CHR 0x27] @ '' to point at an existing one); if you'' @ [CHR 0x27] @ ''re driving ppz from agent subprocesses with no shared tty, export PPZ_SESSION=<id> consistently across calls so they share session state''
      else if c = EPayloadTooLarge then ''payload too large; max 64KiB encoded''
      else if c = EServerUnreachable then ''server unreachable''
      else if c = ENATSUnreachable then ''nats unreachable; common causes: expired credentials (try '' @ [CHR 0x27] @ ''ppz daemon logout'' @ [CHR 0x27] @ '' then re-login), or on non-docker setups missing PPZ_NATS_URL=nats://localhost:4222; if neither fixes it, run '' @ [CHR 0x27] @ ''ppz diagnostics --bundle'' @ [CHR 0x27] @ '' to capture a bug report''
      else if c = EInvalidPipe then ''invalid pipe; check for typos, or for custom pipes run '' @ [CHR 0x27] @ ''ppz pipe create <handle>.<name>'' @ [CHR 0x27] @ '' first''
      else if c = EPipeTaken then ''pipe with this name already exists on this source''
      else if c = EPipeForbidden then ''access denied by this org'' @ [CHR 0x27] @ ''s pipe ACLs; run '' @ [CHR 0x27] @ ''ppz acl whoami <pipe>'' @ [CHR 0x27] @ '' to see what you hold and who can grant more''
      else if c = ECredentialTooLarge then ''nats credential too large; this principal'' @ [CHR 0x27] @ ''s compiled ACL grants exceed the server'' @ [CHR 0x27] @ ''s max control line, so NATS refuses the connection before authenticating. Re-login cannot help '' @ em_dash @ '' the new credential is the same size. Raise max_control_line on ppz-server, or narrow this principal'' @ [CHR 0x27] @ ''s pipe grants''
      else if c = EPipeNotFound then ''pipe not found on this source''
      else if c = EInvalidSchedule then ''invalid schedule; kind must be at/every/cron with a parseable spec''
      else if c = EScheduleNotFound then ''schedule not found; run '' @ [CHR 0x27] @ ''ppz schedule ls'' @ [CHR 0x27] @ '' for live ids (fired one-offs leave the table)''
      else if c = EInvalidSubject then ''invalid subject; the '' @ [CHR 0x27] @ ''ack:'' @ [CHR 0x27] @ '' prefix is reserved for system-emitted protocol messages''
      else if c = EInvalidManifold then ''invalid manifold: each dot-separated segment must match [a-z0-9-] (max 32, no leading/trailing -, not reserved)''
      else if c = ENameTaken then ''name already taken by another resource at this manifold''
      else if c = EDeliveryUnconfirmed then ''delivery unconfirmed; the message was published but the server did not acknowledge it in time '' @ em_dash @ '' it may or may not have landed; retry if your workflow tolerates a possible duplicate''
      else if c = EDaemonTimeout then ''daemon did not respond in time; it may be busy or stuck (e.g. mid-restart) '' @ em_dash @ '' retry, or run '' @ [CHR 0x27] @ ''ppz daemon restart'' @ [CHR 0x27]
      else if c = ELeaseHeld then ''terminal write-lease is currently owned by another controller; retry after it releases or expires, or use '' @ [CHR 0x27] @ ''ppz terminal control'' @ [CHR 0x27] @ '' to attach read-only''
      else if c = ELeaseNoHost then ''no terminal host answered the lease request; the source'' @ [CHR 0x27] @ ''s '' @ [CHR 0x27] @ ''terminal share'' @ [CHR 0x27] @ '' process may be offline or running a ppz that predates terminal control '' @ em_dash @ '' check '' @ [CHR 0x27] @ ''ppz who'' @ [CHR 0x27] @ '' that the host is online and upgraded''
      else ''unknown error'')"

definition HTTPStatus :: "string \<Rightarrow> int" where
  "HTTPStatus c =
     (if c = EInvalidAPIKey then 401
      else if c = ESourceTaken then 409
      else if c = ESourceNotFound then 404
      else if c = EInvalidHandle then 400
      else if c = EPayloadTooLarge then 413
      else if c = EServerUnreachable then 502
      else if c = EInvalidPipe then 400
      else if c = EPipeTaken then 409
      else if c = EPipeNotFound then 404
      else if c = EInvalidSchedule then 400
      else if c = EScheduleNotFound then 404
      else if c = EInvalidSubject then 400
      else if c = EInvalidManifold then 400
      else if c = ENameTaken then 409
      else if c = EPipeForbidden then 403
      else 500)"

definition New_err :: "string \<Rightarrow> cerror" where
  "New_err c = \<lparr>Code = c, Message = Message_of c\<rparr>"

section \<open>Constructors\<close>

definition quoted :: "string \<Rightarrow> string" where
  "quoted s = [CHR 0x27] @ s @ [CHR 0x27]"

text \<open>The \<open>location\<close> text the sourceless constructors share.\<close>

definition location_of :: "string \<Rightarrow> string" where
  "location_of manifold = (if manifold = '''' then ''root'' else ''manifold '' @ quoted manifold)"

definition NewSourceNotFound :: "string \<Rightarrow> cerror" where
  "NewSourceNotFound handle =
     \<lparr>Code = ESourceNotFound,
      Message = ''source '' @ quoted handle @ '' not found''\<rparr>"

definition NewSourceTaken :: "string \<Rightarrow> cerror" where
  "NewSourceTaken handle =
     \<lparr>Code = ESourceTaken,
      Message = ''source '' @ quoted handle @ '' already exists in this account''\<rparr>"

definition NewPipeTaken :: "string \<Rightarrow> string \<Rightarrow> cerror" where
  "NewPipeTaken pipe handle =
     \<lparr>Code = EPipeTaken,
      Message = ''pipe '' @ quoted pipe @ '' already exists on source '' @ quoted handle\<rparr>"

definition NewPipeNotFound :: "string \<Rightarrow> string \<Rightarrow> cerror" where
  "NewPipeNotFound pipe handle =
     \<lparr>Code = EPipeNotFound,
      Message = ''pipe '' @ quoted pipe @ '' not found on source '' @ quoted handle\<rparr>"

definition NewScheduleNotFound :: "string \<Rightarrow> cerror" where
  "NewScheduleNotFound sid =
     \<lparr>Code = EScheduleNotFound,
      Message = ''schedule '' @ quoted sid @ '' not found; run '' @ [CHR 0x27] @ ''ppz schedule ls'' @ [CHR 0x27] @ '' for live ids (fired one-offs leave the table)''\<rparr>"

definition NewUncollaredPipeNotFound :: "string \<Rightarrow> string \<Rightarrow> cerror" where
  "NewUncollaredPipeNotFound name manifold =
     \<lparr>Code = EPipeNotFound,
      Message = ''uncollared pipe '' @ quoted name @ '' not found at '' @ location_of manifold\<rparr>"

definition NewUncollaredPipeTaken :: "string \<Rightarrow> string \<Rightarrow> cerror" where
  "NewUncollaredPipeTaken name manifold =
     \<lparr>Code = EPipeTaken,
      Message = ''uncollared pipe '' @ quoted name @ '' already exists at '' @ location_of manifold\<rparr>"

definition NewNameTakenBySource :: "string \<Rightarrow> string \<Rightarrow> cerror" where
  "NewNameTakenBySource name manifold =
     \<lparr>Code = ENameTaken,
      Message = ''name '' @ quoted name @ '' is already taken by source at '' @ location_of manifold\<rparr>"

definition NewNameTakenByUncollaredPipe :: "string \<Rightarrow> string \<Rightarrow> cerror" where
  "NewNameTakenByUncollaredPipe name manifold =
     \<lparr>Code = ENameTaken,
      Message = ''name '' @ quoted name @ '' is already taken by uncollared pipe at '' @ location_of manifold\<rparr>"

definition NewManifoldReservedBySource :: "string \<Rightarrow> string \<Rightarrow> string \<Rightarrow> cerror" where
  "NewManifoldReservedBySource pfx sourceHandle sourceManifold =
     \<lparr>Code = ENameTaken,
      Message = ''manifold path '' @ quoted pfx @ '' is reserved by source '' @ quoted sourceHandle @ '' at '' @ location_of sourceManifold\<rparr>"

definition NewInvalidPipeReserved :: "string \<Rightarrow> cerror" where
  "NewInvalidPipeReserved name =
     \<lparr>Code = EInvalidPipe,
      Message = ''pipe name '' @ quoted name @ '' is reserved''\<rparr>"

definition NewInvalidPipeName :: "string \<Rightarrow> cerror" where
  "NewInvalidPipeName name =
     \<lparr>Code = EInvalidPipe,
      Message = ''pipe name '' @ quoted name @ '' is invalid: must match [a-z0-9-] (max 32, no leading/trailing -)''\<rparr>"

definition NewLeaseNoHost :: "string \<Rightarrow> cerror" where
  "NewLeaseNoHost handle =
     \<lparr>Code = ELeaseNoHost,
      Message = ''no terminal host answered the lease request for '' @ quoted handle @ ''; its '' @ [CHR 0x27] @ ''terminal share'' @ [CHR 0x27] @ '' process may be offline or running a ppz that predates terminal control '' @ em_dash @ '' check '' @ [CHR 0x27] @ ''ppz who'' @ [CHR 0x27] @ '' that the host is online and upgraded''\<rparr>"

definition NewInvalidHandle :: "string \<Rightarrow> cerror" where
  "NewInvalidHandle handle =
     \<lparr>Code = EInvalidHandle,
      Message = ''invalid handle '' @ quoted handle @ '': must match [a-z0-9-] (max 32, no leading/trailing -, not reserved)''\<rparr>"

section \<open>Exit codes identify the error\<close>

text \<open>The assignment as a table.\<close>

definition exit_table :: "(string \<times> int) list" where
  "exit_table =
     [(ENotLoggedIn, 10), (EDaemonNotRunning, 11), (EInvalidAPIKey, 12), (ESourceTaken, 13),
      (ESourceNotFound, 14), (EInvalidHandle, 15), (ENoCurrentSource, 16), (EPayloadTooLarge,
      17), (EServerUnreachable, 18), (ENATSUnreachable, 19), (EInvalidPipe, 20), (EPipeTaken,
      21), (EPipeNotFound, 22), (EInvalidSubject, 23), (EInvalidManifold, 24), (ENameTaken, 21),
      (EDeliveryUnconfirmed, 25), (EDaemonTimeout, 26), (ELeaseHeld, 27), (ELeaseNoHost, 28),
      (EPipeForbidden, 29), (ECredentialTooLarge, 30)]"

lemma ExitCode_table: "ExitCode c = (case map_of exit_table c of Some n \<Rightarrow> n | None \<Rightarrow> 1)"
  unfolding ExitCode_def exit_table_def map_of.simps fst_conv snd_conv fun_upd_apply
    if_distrib [of "case_option 1 (\<lambda>n. n)"] option.case ..

lemma exit_table_distinct:
  "distinct (map snd (filter (\<lambda>(c, n). c \<noteq> ENameTaken) exit_table))"
  by (simp add: exit_table_def code_defs)

lemma exit_table_name_taken: "(ENameTaken, n) \<in> set exit_table \<longleftrightarrow> n = 21"
  by (simp add: exit_table_def code_defs)

lemma exit_table_21: "(c, 21) \<in> set exit_table \<Longrightarrow> c \<in> {EPipeTaken, ENameTaken}"
  by (simp add: exit_table_def)

lemma exit_table_unique:
  assumes "(c, n) \<in> set exit_table" and "(d, n) \<in> set exit_table"
  shows "c = d \<or> {c, d} = {EPipeTaken, ENameTaken}"
proof (cases "c = ENameTaken \<or> d = ENameTaken")
  case True
  with assms have "n = 21" by (auto simp: exit_table_name_taken)
  with assms exit_table_21 have "c \<in> {EPipeTaken, ENameTaken}" "d \<in> {EPipeTaken, ENameTaken}" by blast+
  then show ?thesis by blast
next
  case False
  let ?t = "filter (\<lambda>(c, n). c \<noteq> ENameTaken) exit_table"
  from False assms have "(c, n) \<in> set ?t" "(d, n) \<in> set ?t" by auto
  then show ?thesis using exit_table_distinct unfolding distinct_map inj_on_def by force
qed

text \<open>The exit code a script sees identifies the error: two codes with the same exit code other
  than the generic 1 are equal, apart from the pair of "taken" codes that share 21 on purpose.\<close>

theorem ExitCode_identifies:
  assumes "ExitCode c = ExitCode d" and "ExitCode c \<noteq> 1"
  shows "c = d \<or> {c, d} = {EPipeTaken, ENameTaken}"
proof -
  obtain n where c: "map_of exit_table c = Some n" and n: "ExitCode c = n"
    using assms(2) by (cases "map_of exit_table c") (auto simp: ExitCode_table)
  moreover have "map_of exit_table d = Some n"
    using assms n by (cases "map_of exit_table d") (auto simp: ExitCode_table)
  ultimately show ?thesis using exit_table_unique by (blast dest: map_of_SomeD)
qed

theorem ExitCode_identifies_witness:
  "EPipeTaken = ENameTaken \<or> {EPipeTaken, ENameTaken} = {EPipeTaken, ENameTaken}"
  by (rule ExitCode_identifies) (simp_all add: ExitCode_def code_defs)

end
