(* ===== verification/PipeOps.thy ===== *)
theory PipeOps
  imports AclServer StreamsProps Errors
begin

text \<open>
  Pipe and source lifecycle: \<open>internal/server/pipe_ops.go\<close>, the operations the bearer API and the
  web surface share. An operation returns the error value or its result, and the server's world;
  it can stop after having changed part of the world, exactly where the code can. The calls that
  leave the process are sites of the fault oracle; fresh identifiers and the clock are in the
  environment of the operation.
\<close>

datatype op_site =
    O_Pool pool_site | O_Acl string acl_site | O_Uncollared | O_AtManifold | O_SourceAt string string | O_Insert
  | O_Audit | O_GetSource | O_GetPipe | O_DeletePipe | O_List | O_DeleteSource | O_Update | O_Reread | O_Kind
  | O_Stream | O_Purge | O_Org | O_Role1 | O_Role2

record op_env =
  oe_faults :: "op_site faults"
  oe_mint :: minting
  oe_newID :: uuid
  oe_auditID :: uuid
  oe_now :: instant
  oe_info :: "nat option"

abbreviation pool_faults :: "op_env \<Rightarrow> pool_site faults" where
  "pool_faults E \<equiv> \<lambda>p. oe_faults E (O_Pool p)"

text \<open>Running a change of the streams of one NATS account.\<close>

definition on_streams :: "string \<Rightarrow> (streams \<Rightarrow> string option \<times> streams) \<Rightarrow> server_world \<Rightarrow> string option \<times> server_world" where
  "on_streams pub f W =
     (let (e, js') = f (aw_streams W pub) in (e, W\<lparr>aw_streams := (aw_streams W)(pub := js')\<rparr>))"

section \<open>Validation\<close>

definition internalErr :: "string \<Rightarrow> cerror" where
  "internalErr msg = \<lparr>Code = ''E_INTERNAL'', Message = msg\<rparr>"

definition validateManifold :: "string \<Rightarrow> cerror option" where
  "validateManifold manifold =
     (if manifold = '''' then None
      else map_option (\<lambda>seg. \<lparr>Code = EInvalidManifold, Message = ''manifold segment invalid: '' @ seg\<rparr>)
             (find (\<lambda>seg. ValidateHandle seg \<noteq> None) (split_dots manifold)))"

definition validateUserPipe :: "string \<Rightarrow> cerror option" where
  "validateUserPipe name =
     (case ValidateUserPipeName name of None \<Rightarrow> None
      | Some t \<Rightarrow> Some (if t = ''name is reserved'' then NewInvalidPipeReserved name else NewInvalidPipeName name))"

definition FormatPipePath :: "string \<Rightarrow> string \<Rightarrow> string \<Rightarrow> string" where
  "FormatPipePath manifold source name =
     join_dots ((if manifold \<noteq> '''' then [manifold] else []) @ (if source \<noteq> '''' then [source] else []) @ [name])"

record pipecreated =
  pc_pipe :: pipe
  pc_maxAge :: duration
  pc_maxMsgs :: int
  pc_maxBytes :: int

abbreviation snapshot_of :: "duration \<times> int \<times> int \<Rightarrow> audit_payload" where
  "snapshot_of ret \<equiv> snapshotRetention (fst ret) (fst (snd ret)) (snd (snd ret))"

definition sourceSnapshot :: "source \<Rightarrow> pipe list \<Rightarrow> audit_payload" where
  "sourceSnapshot src userPipes = SourceSnapshot (src_Kind src) (source_Pipes src @ map pp_Name userPipes)"

section \<open>Creation\<close>

definition createSource ::
  "op_env \<Rightarrow> api_key \<Rightarrow> string \<Rightarrow> string \<Rightarrow> string \<Rightarrow> server_world \<Rightarrow> (cerror + source) \<times> server_world"
where
  "createSource E key manifold handle kind0 W =
     (let D = aw_db W; acc = ak_AccountID key;
          kind = (if kind0 = '''' then SourceKindMessage else kind0);
          reservedPath = (if manifold \<noteq> '''' then manifold @ ''.'' @ handle else handle)
      in if ValidateHandle handle \<noteq> None then (Inl (NewInvalidHandle handle), W)
         else
     (case validateManifold manifold of Some e \<Rightarrow> (Inl e, W)
      | None \<Rightarrow>
         if kind \<noteq> SourceKindMessage \<and> kind \<noteq> SourceKindPTY
         then (Inl \<lparr>Code = ''E_INVALID_KIND'', Message = ''kind must be '' @ quoted ''message'' @ '' or '' @ quoted ''pty''\<rparr>, W)
         else
     (case UncollaredPipeExists (oe_faults E O_Uncollared) acc manifold handle D of
        Inl e \<Rightarrow> (Inl (internalErr (dberr_text e)), W)
      | Inr taken \<Rightarrow>
         if taken then (Inl (NewNameTakenByUncollaredPipe handle manifold), W)
         else
     (case PipesExistAtManifold (oe_faults E O_AtManifold) acc reservedPath D of
        Inl e \<Rightarrow> (Inl (internalErr (dberr_text e)), W)
      | Inr anyPipe \<Rightarrow>
         if anyPipe then (Inl (NewManifoldReservedBySource reservedPath handle manifold), W)
         else
     (case InsertSource (oe_faults E O_Insert) (oe_newID E) (oe_now E) acc (Actor key) manifold handle kind D of
        (Inl e, D1) \<Rightarrow>
          (Inl (if e = ErrHandleTaken then NewSourceTaken handle else internalErr (dberr_text e)), W\<lparr>aw_db := D1\<rparr>)
      | (Inr src, D1) \<Rightarrow>
     (case JSFor (pool_faults E) (oe_mint E) acc (W\<lparr>aw_db := D1\<rparr>) of
        (Inl e, W1) \<Rightarrow> (Inl (internalErr (''account: '' @ e)), W1)
      | (Inr pub, W1) \<Rightarrow>
     (case on_streams pub (ensureSourceStreams (pool_faults E) acc src (aw_db W1)) W1 of
        (Some e, W2) \<Rightarrow> (Inl (internalErr e), W2)
      | (None, W2) \<Rightarrow>
          (Inr src, notifyACLChanged (pool_faults E) (oe_mint E) acc
             (W2\<lparr>aw_db := auditSource (oe_faults E O_Audit) (oe_auditID E) (oe_now E) key AuditActionSourceCreate src
                             None (Some (sourceSnapshot src [])) (aw_db W2)\<rparr>)))))))))"

text \<open>The stream, the audit row and the nudge of a freshly inserted pipe row.\<close>

definition provisionPipe ::
  "op_env \<Rightarrow> api_key \<Rightarrow> pipe \<Rightarrow> string \<Rightarrow> string \<Rightarrow> server_world \<Rightarrow> (cerror + pipecreated) \<times> server_world"
where
  "provisionPipe E key pipe manifold handle W =
     (let ret = resolveRetention [pipeLayer pipe]; acc = ak_AccountID key
      in case JSFor (pool_faults E) (oe_mint E) acc W of
           (Inl e, W1) \<Rightarrow> (Inl (internalErr (''account: '' @ e)), W1)
         | (Inr pub, W1) \<Rightarrow>
             (case on_streams pub (ensurePipeStreamWithRetention (pool_faults E) acc manifold handle (pp_Name pipe) ret) W1 of
                (Some e, W2) \<Rightarrow> (Inl (internalErr e), W2)
              | (None, W2) \<Rightarrow>
                  (Inr \<lparr>pc_pipe = pipe, pc_maxAge = fst ret, pc_maxMsgs = fst (snd ret), pc_maxBytes = snd (snd ret)\<rparr>,
                   notifyACLChanged (pool_faults E) (oe_mint E) acc
                     (W2\<lparr>aw_db := auditPipe (oe_faults E O_Audit) (oe_auditID E) (oe_now E) key AuditActionPipeCreate
                                     (FormatPipePath manifold handle (pp_Name pipe)) None (Some (snapshot_of ret)) (aw_db W2)\<rparr>))))"

definition createCollaredPipe ::
  "op_env \<Rightarrow> api_key \<Rightarrow> source \<Rightarrow> string \<Rightarrow> int option \<Rightarrow> int option \<Rightarrow> int option \<Rightarrow> server_world
   \<Rightarrow> (cerror + pipecreated) \<times> server_world"
where
  "createCollaredPipe E key src name ttl maxMsgs maxBytes W =
     (case validateUserPipe name of Some e \<Rightarrow> (Inl e, W)
      | None \<Rightarrow>
     (case InsertPipe (oe_faults E O_Insert) (oe_newID E) (oe_now E) (ak_AccountID key) (src_Manifold src) (Some (src_ID src))
             (Actor key) name ttl maxMsgs maxBytes (aw_db W) of
        (Inl e, D1) \<Rightarrow>
          (Inl (if e = ErrPipeNameTaken then NewPipeTaken name (src_Handle src) else internalErr (dberr_text e)), W\<lparr>aw_db := D1\<rparr>)
      | (Inr pipe, D1) \<Rightarrow> provisionPipe E key pipe (src_Manifold src) (src_Handle src) (W\<lparr>aw_db := D1\<rparr>)))"

text \<open>The walk over the prefixes of a manifold, to a failed lookup or to a prefix a source reserves.\<close>

fun reserved_prefix :: "op_env \<Rightarrow> uuid \<Rightarrow> database \<Rightarrow> string list \<Rightarrow> string list \<Rightarrow> cerror option" where
  "reserved_prefix E acc D before [] = None"
| "reserved_prefix E acc D before (seg # segs) =
     (let parent = join_dots before
      in case SourceExistsAtManifold (oe_faults E (O_SourceAt parent seg)) acc parent seg D of
           Inl e \<Rightarrow> Some (internalErr (dberr_text e))
         | Inr reserved \<Rightarrow>
             if reserved then Some (NewManifoldReservedBySource (join_dots (before @ [seg])) seg parent)
             else reserved_prefix E acc D (before @ [seg]) segs)"

definition createUncollaredPipe ::
  "op_env \<Rightarrow> api_key \<Rightarrow> string \<Rightarrow> string \<Rightarrow> int option \<Rightarrow> int option \<Rightarrow> int option \<Rightarrow> server_world
   \<Rightarrow> (cerror + pipecreated) \<times> server_world"
where
  "createUncollaredPipe E key manifold name ttl maxMsgs maxBytes W =
     (let D = aw_db W; acc = ak_AccountID key
      in case validateManifold manifold of Some e \<Rightarrow> (Inl e, W)
         | None \<Rightarrow>
     (case validateUserPipe name of Some e \<Rightarrow> (Inl e, W)
      | None \<Rightarrow>
     (case SourceExistsAtManifold (oe_faults E (O_SourceAt manifold name)) acc manifold name D of
        Inl e \<Rightarrow> (Inl (internalErr (dberr_text e)), W)
      | Inr exists \<Rightarrow>
          if exists then (Inl (NewNameTakenBySource name manifold), W)
          else
     (case (if manifold \<noteq> '''' then reserved_prefix E acc D [] (split_dots manifold) else None) of
        Some e \<Rightarrow> (Inl e, W)
      | None \<Rightarrow>
     (case InsertPipe (oe_faults E O_Insert) (oe_newID E) (oe_now E) acc manifold None (Actor key) name ttl maxMsgs maxBytes D of
        (Inl e, D1) \<Rightarrow>
          (Inl (if e = ErrPipeNameTaken then NewUncollaredPipeTaken name manifold else internalErr (dberr_text e)), W\<lparr>aw_db := D1\<rparr>)
      | (Inr pipe, D1) \<Rightarrow> provisionPipe E key pipe manifold '''' (W\<lparr>aw_db := D1\<rparr>))))))"

section \<open>Destruction\<close>

definition zero_pipe :: pipe where
  "zero_pipe = \<lparr>pp_ID = uuid_nil, pp_AccountID = uuid_nil, pp_Manifold = '''', pp_SourceID = None,
     pp_CreatedByUserID = uuid_nil, pp_Name = '''', pp_TTLSeconds = None, pp_MaxMsgs = None, pp_MaxBytes = None,
     pp_CreatedAt = 0\<rparr>"

definition or_zero :: "dberror + pipe \<Rightarrow> pipe" where
  "or_zero r = (case r of Inl _ \<Rightarrow> zero_pipe | Inr p \<Rightarrow> p)"

definition destroyCollaredPipe ::
  "op_env \<Rightarrow> api_key \<Rightarrow> source \<Rightarrow> string \<Rightarrow> server_world \<Rightarrow> cerror option \<times> server_world"
where
  "destroyCollaredPipe E key src name W =
     (let acc = ak_AccountID key;
          prev = or_zero (GetPipeByName (oe_faults E O_GetPipe) (src_ID src) name (aw_db W));
          (err, D1) = DeletePipe (oe_faults E O_DeletePipe) (src_ID src) name (aw_db W);
          W1 = W\<lparr>aw_db := D1\<rparr>
      in if err \<noteq> None \<and> err \<noteq> Some ErrNotFound then (Some (internalErr (dberr_text (the err))), W1)
         else if err = Some ErrNotFound \<and> \<not> IsAutoPipe src name then (Some (NewPipeNotFound name (src_Handle src)), W1)
         else
     (case JSFor (pool_faults E) (oe_mint E) acc W1 of
        (Inl e, W2) \<Rightarrow> (Some (internalErr (''org account: '' @ e)), W2)
      | (Inr pub, W2) \<Rightarrow>
     (case on_streams pub (deletePipeStream (pool_faults E) acc (src_Manifold src) (src_Handle src) name) W2 of
        (Some e, W3) \<Rightarrow> (Some (internalErr e), W3)
      | (None, W3) \<Rightarrow>
          (None, notifyACLChanged (pool_faults E) (oe_mint E) acc
             (W3\<lparr>aw_db := auditPipe (oe_faults E O_Audit) (oe_auditID E) (oe_now E) key AuditActionPipeDestroy
                             (FormatPipePath (src_Manifold src) (src_Handle src) name)
                             (Some (snapshot_of (pipeRetention prev))) None (aw_db W3)\<rparr>)))))"

definition destroyUncollaredPipe ::
  "op_env \<Rightarrow> api_key \<Rightarrow> string \<Rightarrow> string \<Rightarrow> server_world \<Rightarrow> cerror option \<times> server_world"
where
  "destroyUncollaredPipe E key manifold name W =
     (let acc = ak_AccountID key
      in if name = '''' then (Some (New_err EInvalidPipe), W)
         else if ValidateUserPipeName name \<noteq> None then (Some (NewInvalidPipeName name), W)
         else
     (case validateManifold manifold of Some e \<Rightarrow> (Some e, W)
      | None \<Rightarrow>
     (let prev = or_zero (GetUncollaredPipeByName (oe_faults E O_GetPipe) acc manifold name (aw_db W))
      in case DeleteUncollaredPipe (oe_faults E O_DeletePipe) acc manifold name (aw_db W) of
        (Some e, D1) \<Rightarrow>
          (Some (if e = ErrNotFound then NewUncollaredPipeNotFound name manifold else internalErr (dberr_text e)), W\<lparr>aw_db := D1\<rparr>)
      | (None, D1) \<Rightarrow>
     (case JSFor (pool_faults E) (oe_mint E) acc (W\<lparr>aw_db := D1\<rparr>) of
        (Inl e, W2) \<Rightarrow> (Some (internalErr (''account: '' @ e)), W2)
      | (Inr pub, W2) \<Rightarrow>
     (case on_streams pub (deleteUncollaredPipeStream (pool_faults E) acc manifold name) W2 of
        (Some e, W3) \<Rightarrow> (Some (internalErr e), W3)
      | (None, W3) \<Rightarrow>
          (None, notifyACLChanged (pool_faults E) (oe_mint E) acc
             (W3\<lparr>aw_db := auditPipe (oe_faults E O_Audit) (oe_auditID E) (oe_now E) key AuditActionPipeDestroy
                             (FormatPipePath manifold '''' name) (Some (snapshot_of (pipeRetention prev))) None (aw_db W3)\<rparr>)))))))"

text \<open>Best-effort deletion of a list of streams, given as (manifold, name): an error is ignored.\<close>

definition delete_streams :: "op_env \<Rightarrow> uuid \<Rightarrow> string \<Rightarrow> (string \<times> string) list \<Rightarrow> streams \<Rightarrow> streams" where
  "delete_streams E acc handle names js =
     foldl (\<lambda>js (m, n). snd (deletePipeStream (pool_faults E) acc m handle n js)) js names"

definition destroySource :: "op_env \<Rightarrow> api_key \<Rightarrow> source \<Rightarrow> server_world \<Rightarrow> cerror option \<times> server_world" where
  "destroySource E key src W =
     (let acc = ak_AccountID key
      in case ListPipesForSource (oe_faults E O_List) (src_ID src) (aw_db W) of
           Inl e \<Rightarrow> (Some (internalErr (dberr_text e)), W)
         | Inr userPipes \<Rightarrow>
     (case DeleteSourceByID (oe_faults E O_DeleteSource) acc (src_ID src) (aw_db W) of
        (Some e, D1) \<Rightarrow>
          (Some (if e = ErrNotFound then NewSourceNotFound (src_Handle src) else internalErr (dberr_text e)), W\<lparr>aw_db := D1\<rparr>)
      | (None, D1) \<Rightarrow>
          (let W2 = (case JSFor (pool_faults E) (oe_mint E) acc (W\<lparr>aw_db := D1\<rparr>) of
                       (Inl _, W1) \<Rightarrow> W1
                     | (Inr pub, W1) \<Rightarrow>
                         W1\<lparr>aw_streams := (aw_streams W1)(pub :=
                             delete_streams E acc (src_Handle src)
                               (map (\<lambda>p. (pp_Manifold p, pp_Name p)) userPipes @
                                map (\<lambda>p. (src_Manifold src, p)) (source_Pipes src)) (aw_streams W1 pub))\<rparr>)
           in (None, notifyACLChanged (pool_faults E) (oe_mint E) acc
                (W2\<lparr>aw_db := auditSource (oe_faults E O_Audit) (oe_auditID E) (oe_now E) key AuditActionSourceDestroy src
                                (Some (sourceSnapshot src userPipes)) None (aw_db W2)\<rparr>)))))"

section \<open>Purging\<close>

text \<open>\<open>oe_info\<close> is what \<open>stream.Info\<close> answers, \<open>None\<close> when it fails; a purge is recorded in the world.\<close>

definition purgeStream ::
  "op_env \<Rightarrow> api_key \<Rightarrow> string \<Rightarrow> string \<Rightarrow> string \<Rightarrow> server_world \<Rightarrow> (cerror + nat) \<times> server_world"
where
  "purgeStream E key manifold handle name W =
     (let acc = ak_AccountID key; stream = BuildStreamName acc manifold handle name
      in case JSFor (pool_faults E) (oe_mint E) acc W of
           (Inl e, W1) \<Rightarrow> (Inl (internalErr (''account: '' @ e)), W1)
         | (Inr pub, W1) \<Rightarrow>
     (case oe_faults E O_Stream of Some t \<Rightarrow> (Inl (internalErr t), W1)
      | None \<Rightarrow>
          if aw_streams W1 pub stream = None then (Inr 0, W1)
          else
     (let n = (case oe_info E of Some k \<Rightarrow> k | None \<Rightarrow> 0)
      in case oe_faults E O_Purge of Some t \<Rightarrow> (Inl (internalErr t), W1)
         | None \<Rightarrow>
             (Inr n, W1\<lparr>aw_purged := aw_purged W1 @ [(pub, stream)],
                        aw_db := auditPipe (oe_faults E O_Audit) (oe_auditID E) (oe_now E) key AuditActionPipePurge
                                   (FormatPipePath manifold handle name) (Some (PurgeSnapshot n)) None (aw_db W1)\<rparr>))))"

definition purgeCollaredPipe ::
  "op_env \<Rightarrow> api_key \<Rightarrow> source \<Rightarrow> string \<Rightarrow> server_world \<Rightarrow> (cerror + nat) \<times> server_world"
where
  "purgeCollaredPipe E key src name W =
     (if \<not> IsAutoPipe src name
      then case GetPipeByName (oe_faults E O_GetPipe) (src_ID src) name (aw_db W) of
             Inl e \<Rightarrow> (Inl (if e = ErrNotFound then NewPipeNotFound name (src_Handle src) else internalErr (dberr_text e)), W)
           | Inr _ \<Rightarrow> purgeStream E key (src_Manifold src) (src_Handle src) name W
      else purgeStream E key (src_Manifold src) (src_Handle src) name W)"

definition purgeUncollaredPipe ::
  "op_env \<Rightarrow> api_key \<Rightarrow> string \<Rightarrow> string \<Rightarrow> server_world \<Rightarrow> (cerror + nat) \<times> server_world"
where
  "purgeUncollaredPipe E key manifold name W =
     (case validateManifold manifold of Some e \<Rightarrow> (Inl e, W)
      | None \<Rightarrow>
     (case UncollaredPipeExists (oe_faults E O_Uncollared) (ak_AccountID key) manifold name (aw_db W) of
        Inl e \<Rightarrow> (Inl (internalErr (dberr_text e)), W)
      | Inr exists \<Rightarrow>
          if \<not> exists then (Inl (NewUncollaredPipeNotFound name manifold), W)
          else purgeStream E key manifold '''' name W))"

end
