(* ===== verification/PipeHandlers.thy ===== *)
theory PipeHandlers
  imports PipeOps
begin

text \<open>
  The requests that manage pipes: \<open>handlers_pipe_set.go\<close>, the source and pipe endpoints of
  \<open>handlers_api.go\<close>, the web surface's \<open>handlers_gui_pipes.go\<close> and the organisation gate of
  \<open>handlers_owner_gates.go\<close>, all under \<open>internal/server\<close>. A bearer endpoint returns the error it
  writes or the value it encodes; a body is given decoded, with \<open>None\<close> for one that does not
  parse. A web endpoint returns a status with a text, or the redirect of \<open>browserSubmit\<close>.
\<close>

abbreviation admin_check :: "op_env \<Rightarrow> api_key \<Rightarrow> string \<Rightarrow> database \<Rightarrow> dberror option" where
  "admin_check E key path D \<equiv> requirePipeAdmin (\<lambda>s. oe_faults E (O_Acl path s)) True key path D"

section \<open>handlers\_pipe\_set.go\<close>

record pipesetrequest =
  pq_Handle :: string
  pq_Manifold :: string
  pq_SourceHandle :: "string option"
  pq_Name :: string
  pq_TTLSeconds :: "int option"
  pq_MaxMsgs :: "int option"
  pq_MaxBytes :: "int option"

record pipesetreply =
  py_Handle :: string
  py_Manifold :: string
  py_Name :: string
  py_StreamName :: string
  py_TTLSeconds :: int
  py_MaxMsgs :: int
  py_MaxBytes :: int

definition mergeRetention ::
  "pipe \<Rightarrow> int option \<Rightarrow> int option \<Rightarrow> int option \<Rightarrow> int option \<times> int option \<times> int option"
where
  "mergeRetention stored ttl maxMsgs maxBytes =
     (if ttl \<noteq> None then ttl else pp_TTLSeconds stored,
      if maxMsgs \<noteq> None then maxMsgs else pp_MaxMsgs stored,
      if maxBytes \<noteq> None then maxBytes else pp_MaxBytes stored)"

definition namesNoRetention :: "pipesetrequest \<Rightarrow> bool" where
  "namesNoRetention req \<longleftrightarrow> pq_TTLSeconds req = None \<and> pq_MaxMsgs req = None \<and> pq_MaxBytes req = None"

definition validateSettablePipeName :: "string \<Rightarrow> bool" where
  "validateSettablePipeName name \<longleftrightarrow> name \<noteq> '''' \<and> ValidatePipe name = None"

definition no_retention_error :: cerror where
  "no_retention_error =
     \<lparr>Code = EInvalidPipe, Message = ''pipe set: name at least one of --ttl, --max-msgs, --max-bytes''\<rparr>"

text \<open>The audit row and the reply of both forms.\<close>

definition set_done ::
  "op_env \<Rightarrow> api_key \<Rightarrow> string \<Rightarrow> string \<Rightarrow> string \<Rightarrow> duration \<times> int \<times> int \<Rightarrow> duration \<times> int \<times> int \<Rightarrow> server_world
   \<Rightarrow> (cerror + pipesetreply) \<times> server_world"
where
  "set_done E key manifold handle name before ret W =
     (Inr \<lparr>py_Handle = handle, py_Manifold = manifold, py_Name = name,
           py_StreamName = BuildStreamName (ak_AccountID key) manifold handle name,
           py_TTLSeconds = go_div (fst ret) second, py_MaxMsgs = fst (snd ret), py_MaxBytes = snd (snd ret)\<rparr>,
      W\<lparr>aw_db := auditPipe (oe_faults E O_Audit) (oe_auditID E) (oe_now E) key AuditActionPipeSet
                   (FormatPipePath manifold handle name) (Some (snapshot_of before)) (Some (snapshot_of ret)) (aw_db W)\<rparr>)"

definition handleSetPipe ::
  "op_env \<Rightarrow> api_key \<Rightarrow> string \<Rightarrow> string \<Rightarrow> pipesetrequest option \<Rightarrow> server_world \<Rightarrow> (cerror + pipesetreply) \<times> server_world"
where
  "handleSetPipe E key handle name decoded W =
     (let D = aw_db W; acc = ak_AccountID key
      in case decoded of None \<Rightarrow> (Inl (New_err EInvalidPipe), W)
         | Some req \<Rightarrow>
          if ValidateHandle handle \<noteq> None then (Inl (NewInvalidHandle handle), W)
          else if \<not> validateSettablePipeName name then (Inl (NewInvalidPipeName name), W)
          else if admin_check E key (handle @ ''.'' @ name) D \<noteq> None then (Inl (New_err EPipeForbidden), W)
          else if namesNoRetention req then (Inl no_retention_error, W)
          else
     (case GetSourceByHandle (oe_faults E O_GetSource) acc handle D of
        Inl e \<Rightarrow> (Inl (if e = ErrNotFound then NewSourceNotFound handle else internalErr (dberr_text e)), W)
      | Inr src \<Rightarrow>
     (case (case GetPipeByName (oe_faults E O_GetPipe) (src_ID src) name D of
              Inr p \<Rightarrow> Inr p
            | Inl e \<Rightarrow> if e \<noteq> ErrNotFound then Inl (internalErr (dberr_text e))
                       else if \<not> IsAutoPipe src name then Inl (NewPipeNotFound name handle)
                       else Inr zero_pipe) of
        Inl e \<Rightarrow> (Inl e, W)
      | Inr stored \<Rightarrow>
     (let (ttl, maxMsgs, maxBytes) = mergeRetention stored (pq_TTLSeconds req) (pq_MaxMsgs req) (pq_MaxBytes req)
      in case UpsertPipeRetention (oe_faults E O_Update) (oe_faults E O_Reread) (oe_faults E O_Insert) (oe_newID E) (oe_now E)
                acc (src_Manifold src) (Some (src_ID src)) (src_CreatedByUserID src) name ttl maxMsgs maxBytes D of
           (Inl e, D1) \<Rightarrow> (Inl (internalErr (dberr_text e)), W\<lparr>aw_db := D1\<rparr>)
         | (Inr updated, D1) \<Rightarrow>
     (case JSFor (pool_faults E) (oe_mint E) acc (W\<lparr>aw_db := D1\<rparr>) of
        (Inl e, W1) \<Rightarrow> (Inl (internalErr (''org account: '' @ e)), W1)
      | (Inr pub, W1) \<Rightarrow>
     (case on_streams pub (ensurePipeStreamWithRetention (pool_faults E) acc (src_Manifold src) (src_Handle src) name
                             (pipeRetention updated)) W1 of
        (Some e, W2) \<Rightarrow> (Inl (internalErr e), W2)
      | (None, W2) \<Rightarrow>
          set_done E key (src_Manifold src) (src_Handle src) name (pipeRetention stored) (pipeRetention updated) W2))))))"

definition handleSetPipeFullPath ::
  "op_env \<Rightarrow> api_key \<Rightarrow> pipesetrequest option \<Rightarrow> server_world \<Rightarrow> (cerror + pipesetreply) \<times> server_world"
where
  "handleSetPipeFullPath E key decoded W =
     (let D = aw_db W; acc = ak_AccountID key
      in case decoded of None \<Rightarrow> (Inl (New_err EInvalidPipe), W)
         | Some req \<Rightarrow>
     (let manifold = pq_Manifold req; name = pq_Name req;
          path = (if manifold \<noteq> '''' then manifold @ ''.'' @ name else name)
      in if pq_Handle req \<noteq> '''' \<or> (pq_SourceHandle req \<noteq> None \<and> pq_SourceHandle req \<noteq> Some '''')
         then (Inl \<lparr>Code = EInvalidPipe, Message = ''PATCH /api/v1/pipes is the uncollared (sourceless) endpoint; for collared pipes use PATCH /api/v1/sources/{handle}/pipes/{name}''\<rparr>, W)
         else if \<not> validateSettablePipeName name then (Inl (NewInvalidPipeName name), W)
         else
     (case validateManifold manifold of Some e \<Rightarrow> (Inl e, W)
      | None \<Rightarrow>
         if admin_check E key path D \<noteq> None then (Inl (New_err EPipeForbidden), W)
         else if namesNoRetention req then (Inl no_retention_error, W)
         else
     (case GetUncollaredPipeByName (oe_faults E O_GetPipe) acc manifold name D of
        Inl e \<Rightarrow> (Inl (if e = ErrNotFound then NewUncollaredPipeNotFound name manifold else internalErr (dberr_text e)), W)
      | Inr stored \<Rightarrow>
     (let (ttl, maxMsgs, maxBytes) = mergeRetention stored (pq_TTLSeconds req) (pq_MaxMsgs req) (pq_MaxBytes req);
          ret = pipeRetention (set_retention ttl maxMsgs maxBytes stored)
      in case UpdatePipeRetention (oe_faults E O_Update) (pp_ID stored) ttl maxMsgs maxBytes D of
           (Some e, D1) \<Rightarrow>
             (Inl (if e = ErrNotFound then NewUncollaredPipeNotFound name manifold else internalErr (dberr_text e)), W\<lparr>aw_db := D1\<rparr>)
         | (None, D1) \<Rightarrow>
     (case JSFor (pool_faults E) (oe_mint E) acc (W\<lparr>aw_db := D1\<rparr>) of
        (Inl e, W1) \<Rightarrow> (Inl (internalErr (''account: '' @ e)), W1)
      | (Inr pub, W1) \<Rightarrow>
     (case on_streams pub (ensurePipeStreamWithRetention (pool_faults E) acc manifold '''' name ret) W1 of
        (Some e, W2) \<Rightarrow> (Inl (internalErr e), W2)
      | (None, W2) \<Rightarrow> set_done E key manifold '''' name (pipeRetention stored) ret W2)))))))"

section \<open>handlers\_api.go\<close>

record createsourcereply =
  cs_ID :: uuid
  cs_Handle :: string
  cs_Manifold :: string
  cs_Kind :: string
  cs_Subject :: string
  cs_CreatedAt :: instant

definition source_reply :: "api_key \<Rightarrow> source \<Rightarrow> instant \<Rightarrow> createsourcereply" where
  "source_reply key src at =
     \<lparr>cs_ID = src_ID src, cs_Handle = src_Handle src, cs_Manifold = src_Manifold src, cs_Kind = src_Kind src,
      cs_Subject = BuildSubject (ak_AccountID key) (src_Manifold src) (src_Handle src) ''inbox'', cs_CreatedAt = at\<rparr>"

text \<open>The body of a source creation: manifold, handle and kind.\<close>

definition handleCreateSource ::
  "op_env \<Rightarrow> api_key \<Rightarrow> (string \<times> string \<times> string) option \<Rightarrow> server_world \<Rightarrow> (cerror + createsourcereply) \<times> server_world"
where
  "handleCreateSource E key decoded W =
     (case decoded of None \<Rightarrow> (Inl (New_err EInvalidHandle), W)
      | Some (manifold, handle, kind) \<Rightarrow>
          (case createSource E key manifold handle kind W of
             (Inl e, W') \<Rightarrow> (Inl e, W')
           | (Inr src, W') \<Rightarrow> (Inr (source_reply key src (src_CreatedAt src)), W')))"

text \<open>\<open>GetSourceByHandle\<close> with the errors the endpoints write for it.\<close>

definition lookup_source :: "op_env \<Rightarrow> uuid \<Rightarrow> string \<Rightarrow> database \<Rightarrow> cerror + source" where
  "lookup_source E acc handle D =
     (case GetSourceByHandle (oe_faults E O_GetSource) acc handle D of
        Inl e \<Rightarrow> Inl (if e = ErrNotFound then NewSourceNotFound handle else internalErr (dberr_text e))
      | Inr src \<Rightarrow> Inr src)"

definition handleEnsurePTY ::
  "op_env \<Rightarrow> api_key \<Rightarrow> string \<Rightarrow> server_world \<Rightarrow> (cerror + createsourcereply) \<times> server_world"
where
  "handleEnsurePTY E key handle W =
     (let acc = ak_AccountID key
      in if ValidateHandle handle \<noteq> None then (Inl (NewInvalidHandle handle), W)
         else
     (case lookup_source E acc handle (aw_db W) of Inl e \<Rightarrow> (Inl e, W)
      | Inr src0 \<Rightarrow>
     (case (if src_Kind src0 \<noteq> SourceKindPTY then UpdateSourceKind (oe_faults E O_Kind) acc handle SourceKindPTY (aw_db W)
            else (None, aw_db W)) of
        (Some e, D1) \<Rightarrow> (Inl (internalErr (dberr_text e)), W\<lparr>aw_db := D1\<rparr>)
      | (None, D1) \<Rightarrow>
     (let src = src0\<lparr>src_Kind := SourceKindPTY\<rparr>
      in case JSFor (pool_faults E) (oe_mint E) acc (W\<lparr>aw_db := D1\<rparr>) of
           (Inl e, W1) \<Rightarrow> (Inl (internalErr (''org account: '' @ e)), W1)
         | (Inr pub, W1) \<Rightarrow>
             (case on_streams pub (ensureSourceStreams (pool_faults E) acc src (aw_db W1)) W1 of
                (Some e, W2) \<Rightarrow> (Inl (internalErr e), W2)
              | (None, W2) \<Rightarrow>
                  (Inr (source_reply key src 0), notifyACLChanged (pool_faults E) (oe_mint E) acc W2))))))"

record pipecreaterequest =
  cq_Handle :: string
  cq_Manifold :: string
  cq_SourceHandle :: "string option"
  cq_Name :: string
  cq_TTLSeconds :: "int option"
  cq_MaxMsgs :: "int option"
  cq_MaxBytes :: "int option"

definition pipeCreateReply :: "api_key \<Rightarrow> string \<Rightarrow> string \<Rightarrow> pipecreated \<Rightarrow> pipesetreply" where
  "pipeCreateReply key manifold handle c =
     \<lparr>py_Handle = handle, py_Manifold = manifold, py_Name = pp_Name (pc_pipe c),
      py_StreamName = BuildStreamName (ak_AccountID key) manifold handle (pp_Name (pc_pipe c)),
      py_TTLSeconds = go_div (pc_maxAge c) second, py_MaxMsgs = pc_maxMsgs c, py_MaxBytes = pc_maxBytes c\<rparr>"

definition handleCreatePipe ::
  "op_env \<Rightarrow> api_key \<Rightarrow> string \<Rightarrow> pipecreaterequest option \<Rightarrow> server_world \<Rightarrow> (cerror + pipesetreply) \<times> server_world"
where
  "handleCreatePipe E key handle decoded W =
     (case decoded of None \<Rightarrow> (Inl (New_err EInvalidPipe), W)
      | Some req \<Rightarrow>
          if ValidateHandle handle \<noteq> None then (Inl (NewInvalidHandle handle), W)
          else
     (case validateUserPipe (cq_Name req) of Some e \<Rightarrow> (Inl e, W)
      | None \<Rightarrow>
     (case lookup_source E (ak_AccountID key) handle (aw_db W) of Inl e \<Rightarrow> (Inl e, W)
      | Inr src \<Rightarrow>
     (case createCollaredPipe E key src (cq_Name req) (cq_TTLSeconds req) (cq_MaxMsgs req) (cq_MaxBytes req) W of
        (Inl e, W') \<Rightarrow> (Inl e, W')
      | (Inr created, W') \<Rightarrow> (Inr (pipeCreateReply key (src_Manifold src) (src_Handle src) created), W')))))"

definition handleCreatePipeFullPath ::
  "op_env \<Rightarrow> api_key \<Rightarrow> pipecreaterequest option \<Rightarrow> server_world \<Rightarrow> (cerror + pipesetreply) \<times> server_world"
where
  "handleCreatePipeFullPath E key decoded W =
     (case decoded of None \<Rightarrow> (Inl (New_err EInvalidPipe), W)
      | Some req \<Rightarrow>
          if cq_Handle req \<noteq> '''' \<or> (cq_SourceHandle req \<noteq> None \<and> cq_SourceHandle req \<noteq> Some '''')
          then (Inl \<lparr>Code = EInvalidPipe, Message = ''POST /api/v1/pipes is the uncollared (sourceless) endpoint; for collared pipes use POST /api/v1/sources/{handle}/pipes''\<rparr>, W)
          else
     (case createUncollaredPipe E key (cq_Manifold req) (cq_Name req) (cq_TTLSeconds req) (cq_MaxMsgs req) (cq_MaxBytes req) W of
        (Inl e, W') \<Rightarrow> (Inl e, W')
      | (Inr created, W') \<Rightarrow> (Inr (pipeCreateReply key (cq_Manifold req) '''' created), W')))"

text \<open>An operation without a value answers 204.\<close>

definition no_content :: "cerror option \<times> server_world \<Rightarrow> (cerror + unit) \<times> server_world" where
  "no_content r = (case r of (Some e, W) \<Rightarrow> (Inl e, W) | (None, W) \<Rightarrow> (Inr (), W))"

definition handleDestroyUncollaredPipe ::
  "op_env \<Rightarrow> api_key \<Rightarrow> string \<Rightarrow> string \<Rightarrow> server_world \<Rightarrow> (cerror + unit) \<times> server_world"
where
  "handleDestroyUncollaredPipe E key manifold name W = no_content (destroyUncollaredPipe E key manifold name W)"

definition handleDestroySource :: "op_env \<Rightarrow> api_key \<Rightarrow> string \<Rightarrow> server_world \<Rightarrow> (cerror + unit) \<times> server_world" where
  "handleDestroySource E key handle W =
     (if ValidateHandle handle \<noteq> None then (Inl (NewInvalidHandle handle), W)
      else case lookup_source E (ak_AccountID key) handle (aw_db W) of Inl e \<Rightarrow> (Inl e, W)
        | Inr src \<Rightarrow> no_content (destroySource E key src W))"

definition handleDestroyPipe :: "op_env \<Rightarrow> api_key \<Rightarrow> string \<Rightarrow> string \<Rightarrow> server_world \<Rightarrow> (cerror + unit) \<times> server_world" where
  "handleDestroyPipe E key handle name W =
     (if ValidateHandle handle \<noteq> None then (Inl (NewInvalidHandle handle), W)
      else case lookup_source E (ak_AccountID key) handle (aw_db W) of Inl e \<Rightarrow> (Inl e, W)
        | Inr src \<Rightarrow> no_content (destroyCollaredPipe E key src name W))"

record pipepurgereply =
  pg_Handle :: string
  pg_Manifold :: string
  pg_Name :: string
  pg_Purged :: nat

definition handlePurgePipe ::
  "op_env \<Rightarrow> api_key \<Rightarrow> string \<Rightarrow> string \<Rightarrow> server_world \<Rightarrow> (cerror + pipepurgereply) \<times> server_world"
where
  "handlePurgePipe E key handle name W =
     (if ValidateHandle handle \<noteq> None then (Inl (NewInvalidHandle handle), W)
      else
     (case lookup_source E (ak_AccountID key) handle (aw_db W) of Inl e \<Rightarrow> (Inl e, W)
      | Inr src \<Rightarrow>
          if admin_check E key (handle @ ''.'' @ name) (aw_db W) \<noteq> None then (Inl (New_err EPipeForbidden), W)
          else
     (case purgeCollaredPipe E key src name W of
        (Inl e, W') \<Rightarrow> (Inl e, W')
      | (Inr n, W') \<Rightarrow>
          (Inr \<lparr>pg_Handle = src_Handle src, pg_Manifold = src_Manifold src, pg_Name = name, pg_Purged = n\<rparr>, W'))))"

definition handlePurgeUncollaredPipe ::
  "op_env \<Rightarrow> api_key \<Rightarrow> string \<Rightarrow> string \<Rightarrow> server_world \<Rightarrow> (cerror + pipepurgereply) \<times> server_world"
where
  "handlePurgeUncollaredPipe E key manifold name W =
     (let path = (if manifold \<noteq> '''' then manifold @ ''.'' @ name else name)
      in if admin_check E key path (aw_db W) \<noteq> None then (Inl (New_err EPipeForbidden), W)
         else case purgeUncollaredPipe E key manifold name W of
                (Inl e, W') \<Rightarrow> (Inl e, W')
              | (Inr n, W') \<Rightarrow> (Inr \<lparr>pg_Handle = '''', pg_Manifold = manifold, pg_Name = name, pg_Purged = n\<rparr>, W'))"

section \<open>handlers\_owner\_gates.go\<close>

definition resolveOrg :: "string option \<Rightarrow> (string \<Rightarrow> uuid option) \<Rightarrow> string \<Rightarrow> database \<Rightarrow> dberror + account" where
  "resolveOrg flt parse idOrSlug D =
     (case parse idOrSlug of Some i \<Rightarrow> GetAccount flt i D | None \<Rightarrow> GetAccountByName flt idOrSlug D)"

text \<open>A missing organisation and a non-member look the same.\<close>

definition lookupOrgAccess ::
  "op_env \<Rightarrow> (string \<Rightarrow> uuid option) \<Rightarrow> uuid \<Rightarrow> string \<Rightarrow> database \<Rightarrow> (int \<times> string) + account \<times> orgrole"
where
  "lookupOrgAccess E parse uid idOrSlug D =
     (case resolveOrg (oe_faults E O_Org) parse idOrSlug D of
        Inl e \<Rightarrow> Inl (if e = ErrNoRows then (404, ''org not found'') else (500, ''org lookup: '' @ dberr_text e))
      | Inr org \<Rightarrow>
          (case RoleInOrg (oe_faults E O_Role1) (oe_faults E O_Role2) uid (acct_ID org) D of
             Inl e \<Rightarrow> Inl (500, ''role check: '' @ dberr_text e)
           | Inr role \<Rightarrow> if role = OrgNone then Inl (404, ''org not found'') else Inr (org, role)))"

definition resolveMemberOrg ::
  "op_env \<Rightarrow> (string \<Rightarrow> uuid option) \<Rightarrow> uuid \<Rightarrow> string \<Rightarrow> database \<Rightarrow> (int \<times> string) + account"
where
  "resolveMemberOrg E parse uid idOrSlug D =
     (case lookupOrgAccess E parse uid idOrSlug D of Inl e \<Rightarrow> Inl e | Inr (org, role) \<Rightarrow> Inr org)"

definition resolveAdminOrg ::
  "op_env \<Rightarrow> (string \<Rightarrow> uuid option) \<Rightarrow> uuid \<Rightarrow> string \<Rightarrow> database \<Rightarrow> (int \<times> string) + account"
where
  "resolveAdminOrg E parse uid idOrSlug D =
     (case lookupOrgAccess E parse uid idOrSlug D of Inl e \<Rightarrow> Inl e
      | Inr (org, role) \<Rightarrow> if CanAdministerOrg role then Inr org else Inl (403, ''org admin only''))"

section \<open>handlers\_gui\_pipes.go\<close>

definition sessionKey :: "account \<Rightarrow> uuid \<Rightarrow> api_key" where
  "sessionKey org uid =
     \<lparr>ak_ID = uuid_nil, ak_AccountID = acct_ID org, ak_CreatedByUserID = uid, ak_PrincipalUserID = uid, ak_KeyHash = '''',
      ak_KeyPrefix = '''', ak_Label = '''', ak_CreatedAt = 0, ak_RevokedAt = None\<rparr>"

definition writeOpErr :: "cerror \<Rightarrow> 'a reply" where
  "writeOpErr e = Refused (HTTPStatus (Code e)) (Message e)"

text \<open>The part before and the part after the last dot.\<close>

definition splitManifoldName :: "string \<Rightarrow> string \<times> string" where
  "splitManifoldName pipePath =
     (let parts = split_dots pipePath in (join_dots (butlast parts), last parts))"

definition sourceAt :: "op_env \<Rightarrow> uuid \<Rightarrow> string \<Rightarrow> database \<Rightarrow> cerror + source" where
  "sourceAt E orgID path D =
     (let (manifold, handle) = splitManifoldName path
      in case validateManifold manifold of Some e \<Rightarrow> Inl e
         | None \<Rightarrow>
             (case GetSourceAt (oe_faults E O_GetSource) orgID manifold handle D of
                Inl e \<Rightarrow> Inl (if e = ErrNotFound then NewSourceNotFound path else internalErr (dberr_text e))
              | Inr src \<Rightarrow> Inr src))"

fun requireAdminOn :: "op_env \<Rightarrow> api_key \<Rightarrow> database \<Rightarrow> string list \<Rightarrow> cerror option" where
  "requireAdminOn E key D [] = None"
| "requireAdminOn E key D (p # ps) =
     (case admin_check E key p D of
        Some e \<Rightarrow> Some (if e = errPipeForbidden then \<lparr>Code = EPipeForbidden, Message = ''admin required on '' @ p\<rparr>
                        else internalErr (dberr_text e))
      | None \<Rightarrow> requireAdminOn E key D ps)"

text \<open>The fields of the forms; all but \<open>kind\<close> are the values after \<open>strings.TrimSpace\<close>.\<close>

record gui_form =
  fm_kind :: string
  fm_namespace :: string
  fm_name :: string
  fm_source :: string

text \<open>The web session: the signed-in user and the organisation named in the path.\<close>

record gui_session =
  gs_parse :: "string \<Rightarrow> uuid option"
  gs_user :: uuid
  gs_org :: string

definition browserSubmit :: "cerror option \<times> server_world \<Rightarrow> unit reply \<times> server_world" where
  "browserSubmit r = (case r of (Some e, W) \<Rightarrow> (writeOpErr e, W) | (None, W) \<Rightarrow> (Replied 303 (), W))"

definition drop_value :: "(cerror + 'a) \<times> server_world \<Rightarrow> cerror option \<times> server_world" where
  "drop_value r = (case r of (Inl e, W) \<Rightarrow> (Some e, W) | (Inr _, W) \<Rightarrow> (None, W))"

definition with_member_org ::
  "op_env \<Rightarrow> gui_session \<Rightarrow> server_world \<Rightarrow> (account \<Rightarrow> api_key \<Rightarrow> unit reply \<times> server_world) \<Rightarrow> unit reply \<times> server_world"
where
  "with_member_org E S W f =
     (case resolveMemberOrg E (gs_parse S) (gs_user S) (gs_org S) (aw_db W) of
        Inl (st, t) \<Rightarrow> (Refused st t, W) | Inr org \<Rightarrow> f org (sessionKey org (gs_user S)))"

definition handleGUICreatePipe :: "op_env \<Rightarrow> gui_session \<Rightarrow> gui_form \<Rightarrow> server_world \<Rightarrow> unit reply \<times> server_world" where
  "handleGUICreatePipe E S F W =
     with_member_org E S W (\<lambda>org key.
       if fm_kind F = ''source''
       then browserSubmit (drop_value (createSource E key (fm_namespace F) (fm_name F) SourceKindMessage W))
       else if fm_kind F = ''pipe''
       then browserSubmit
              (if fm_source F = ''''
               then drop_value (createUncollaredPipe E key (fm_namespace F) (fm_name F) None None None W)
               else case sourceAt E (acct_ID org) (fm_source F) (aw_db W) of
                      Inl e \<Rightarrow> (Some e, W)
                    | Inr src \<Rightarrow> drop_value (createCollaredPipe E key src (fm_name F) None None None W))
       else (Refused 400 (''kind must be '' @ quoted ''pipe'' @ '' or '' @ quoted ''source''), W))"

definition form_path :: "gui_form \<Rightarrow> string" where
  "form_path F = (if fm_namespace F \<noteq> '''' then fm_namespace F @ ''.'' @ fm_name F else fm_name F)"

text \<open>Only a lookup that answers "not found" stops the collared branch; another error falls through.\<close>

definition handleGUIDeletePipe :: "op_env \<Rightarrow> gui_session \<Rightarrow> gui_form \<Rightarrow> server_world \<Rightarrow> unit reply \<times> server_world" where
  "handleGUIDeletePipe E S F W =
     with_member_org E S W (\<lambda>org key.
       if fm_source F = ''''
       then (case requireAdminOn E key (aw_db W) [form_path F] of
               Some e \<Rightarrow> (writeOpErr e, W)
             | None \<Rightarrow> browserSubmit (destroyUncollaredPipe E key (fm_namespace F) (fm_name F) W))
       else case sourceAt E (acct_ID org) (fm_source F) (aw_db W) of
              Inl e \<Rightarrow> (writeOpErr e, W)
            | Inr src \<Rightarrow>
                if IsAutoPipe src (fm_name F)
                then (Refused 409 (fm_name F @ '' is provisioned by source '' @ fm_source F @ ''; delete the source instead''), W)
                else if GetPipeByName (oe_faults E O_GetPipe) (src_ID src) (fm_name F) (aw_db W) = Inl ErrNotFound
                then (writeOpErr (NewPipeNotFound (fm_name F) (src_Handle src)), W)
                else case requireAdminOn E key (aw_db W) [src_Handle src @ ''.'' @ fm_name F] of
                       Some e \<Rightarrow> (writeOpErr e, W)
                     | None \<Rightarrow> browserSubmit (destroyCollaredPipe E key src (fm_name F) W))"

definition handleGUIDeleteSource :: "op_env \<Rightarrow> gui_session \<Rightarrow> gui_form \<Rightarrow> server_world \<Rightarrow> unit reply \<times> server_world" where
  "handleGUIDeleteSource E S F W =
     with_member_org E S W (\<lambda>org key.
       case sourceAt E (acct_ID org) (fm_source F) (aw_db W) of
         Inl e \<Rightarrow> (writeOpErr e, W)
       | Inr src \<Rightarrow>
           (case ListPipesForSource (oe_faults E O_GetPipe) (src_ID src) (aw_db W) of
              Inl e \<Rightarrow> (writeOpErr (internalErr (dberr_text e)), W)
            | Inr userPipes \<Rightarrow>
                (case requireAdminOn E key (aw_db W)
                        (map (\<lambda>p. src_Handle src @ ''.'' @ p) (source_Pipes src) @
                         map (\<lambda>p. src_Handle src @ ''.'' @ pp_Name p) userPipes) of
                   Some e \<Rightarrow> (writeOpErr e, W)
                 | None \<Rightarrow> browserSubmit (destroySource E key src W))))"

definition handleGUIPurgePipe :: "op_env \<Rightarrow> gui_session \<Rightarrow> gui_form \<Rightarrow> server_world \<Rightarrow> unit reply \<times> server_world" where
  "handleGUIPurgePipe E S F W =
     with_member_org E S W (\<lambda>org key.
       if fm_source F = ''''
       then (case requireAdminOn E key (aw_db W) [form_path F] of
               Some e \<Rightarrow> (writeOpErr e, W)
             | None \<Rightarrow> browserSubmit (drop_value (purgeUncollaredPipe E key (fm_namespace F) (fm_name F) W)))
       else case sourceAt E (acct_ID org) (fm_source F) (aw_db W) of
              Inl e \<Rightarrow> (writeOpErr e, W)
            | Inr src \<Rightarrow>
                (case requireAdminOn E key (aw_db W) [src_Handle src @ ''.'' @ fm_name F] of
                   Some e \<Rightarrow> (writeOpErr e, W)
                 | None \<Rightarrow> browserSubmit (drop_value (purgeCollaredPipe E key src (fm_name F) W))))"

end
