(* ===== verification/DaemonStore.thy ===== *)
theory DaemonStore
  imports Subjects "HOL-Library.List_Lexorder" "HOL-Library.Char_ord"
begin

text \<open>
  What the daemon keeps on disk per session: the read cursors (\<open>internal/daemon/cursors.go\<close>) and the
  session part of its state (\<open>internal/daemon/state.go\<close>). A directory of JSON files is a map from file names to decoded
  contents; the operations take the failures of the file system as arguments. Sequence numbers are
  \<open>nat\<close>: the broker counts them up from 1 and does not reach \<open>2 ^ 64\<close>.
\<close>

section \<open>cursors.go\<close>

record cursor_entry =
  ce_Seq :: nat
  ce_StreamCreated :: int

definition zero_entry :: cursor_entry where
  "zero_entry = \<lparr>ce_Seq = 0, ce_StreamCreated = 0\<rparr>"

text \<open>An entry as JSON holds it: the object, or the bare integer of older files.\<close>

datatype stored_entry = LegacyEntry nat | ObjectEntry nat int

definition UnmarshalJSON_entry :: "stored_entry \<Rightarrow> cursor_entry" where
  "UnmarshalJSON_entry j =
     (case j of LegacyEntry n \<Rightarrow> \<lparr>ce_Seq = n, ce_StreamCreated = 0\<rparr>
      | ObjectEntry n t \<Rightarrow> \<lparr>ce_Seq = n, ce_StreamCreated = t\<rparr>)"

definition MarshalJSON_entry :: "cursor_entry \<Rightarrow> stored_entry" where
  "MarshalJSON_entry e = ObjectEntry (ce_Seq e) (ce_StreamCreated e)"

type_synonym cursors = "string \<Rightarrow> (string \<rightharpoonup> stored_entry)"

definition session :: "string \<Rightarrow> string" where
  "session s = (if s = '''' then ''default'' else s)"

definition loadLocked :: "string option \<Rightarrow> string \<Rightarrow> cursors \<Rightarrow> string + (string \<rightharpoonup> cursor_entry)" where
  "loadLocked flt s C =
     (case flt of Some t \<Rightarrow> Inl t | None \<Rightarrow> Inr (\<lambda>k. map_option UnmarshalJSON_entry (C s k)))"

definition saveLocked :: "string option \<Rightarrow> string \<Rightarrow> (string \<rightharpoonup> cursor_entry) \<Rightarrow> cursors \<Rightarrow> string option \<times> cursors" where
  "saveLocked flt s m C =
     (case flt of Some t \<Rightarrow> (Some t, C) | None \<Rightarrow> (None, C(s := (\<lambda>k. map_option MarshalJSON_entry (m k)))))"

definition or_zero_entry :: "cursor_entry option \<Rightarrow> cursor_entry" where
  "or_zero_entry e = (case e of None \<Rightarrow> zero_entry | Some x \<Rightarrow> x)"

definition GetEntry :: "string option \<Rightarrow> string \<Rightarrow> string \<Rightarrow> cursors \<Rightarrow> cursor_entry" where
  "GetEntry flt s key C =
     (case loadLocked flt (session s) C of Inl _ \<Rightarrow> zero_entry | Inr m \<Rightarrow> or_zero_entry (m key))"

definition Advance ::
  "string option \<Rightarrow> string option \<Rightarrow> string \<Rightarrow> string \<Rightarrow> nat \<Rightarrow> int \<Rightarrow> cursors \<Rightarrow> string option \<times> cursors"
where
  "Advance flt1 flt2 s key seq streamCreated C =
     (if seq = 0 then (None, C)
      else case loadLocked flt1 (session s) C of
        Inl e \<Rightarrow> (Some e, C)
      | Inr m \<Rightarrow>
          (let cur = or_zero_entry (m key)
           in if streamCreated = ce_StreamCreated cur \<and> seq \<le> ce_Seq cur then (None, C)
              else saveLocked flt2 (session s) (m(key \<mapsto> \<lparr>ce_Seq = seq, ce_StreamCreated = streamCreated\<rparr>)) C))"

definition effectiveCursor :: "cursor_entry \<Rightarrow> int \<Rightarrow> nat \<Rightarrow> nat" where
  "effectiveCursor e streamCreated lastSeq =
     (if ce_Seq e = 0 then 0
      else if ce_StreamCreated e \<noteq> 0 \<and> streamCreated \<noteq> 0 \<and> ce_StreamCreated e \<noteq> streamCreated then 0
      else if lastSeq < ce_Seq e then 0
      else ce_Seq e)"

definition CursorKey :: "string \<Rightarrow> string \<Rightarrow> string \<Rightarrow> string" where
  "CursorKey accountID handle channel = accountID @ ''.'' @ handle @ ''.'' @ channel"

definition uncollaredCursorKey :: "string \<Rightarrow> string" where
  "uncollaredCursorKey filterSubject = ''uncollared:'' @ filterSubject"

lemma entry_roundtrip [simp]: "UnmarshalJSON_entry (MarshalJSON_entry e) = e"
  by (simp add: UnmarshalJSON_entry_def MarshalJSON_entry_def)

lemma GetEntry_Advance:
  assumes "0 < seq"
  shows "GetEntry None s' key' (snd (Advance None None s key seq created C)) =
    (let e = GetEntry None s key C
     in if session s' = session s \<and> key' = key \<and> \<not> (created = ce_StreamCreated e \<and> seq \<le> ce_Seq e)
        then \<lparr>ce_Seq = seq, ce_StreamCreated = created\<rparr>
        else GetEntry None s' key' C)"
  using assms
  by (auto simp: Advance_def GetEntry_def loadLocked_def saveLocked_def or_zero_entry_def Let_def
      option.map_comp comp_def split: option.splits)

section \<open>The session part of state.go\<close>

text \<open>The maps from sessions to current handle and namespace, and the cache of handles and manifolds.\<close>

record daemon_state =
  st_creds :: bool
  st_accountID :: string
  st_current :: "string \<rightharpoonup> string"
  st_currentNamespace :: "string \<rightharpoonup> string"
  st_knownPipes :: "string set"
  st_handleManifold :: "string \<rightharpoonup> string"

definition or_empty :: "string option \<Rightarrow> string" where
  "or_empty x = (case x of None \<Rightarrow> '''' | Some s \<Rightarrow> s)"

definition Current :: "string \<Rightarrow> daemon_state \<Rightarrow> string" where
  "Current sess S = or_empty (st_current S (session sess))"

definition CurrentNamespace :: "string \<Rightarrow> daemon_state \<Rightarrow> string" where
  "CurrentNamespace sess S = or_empty (st_currentNamespace S (session sess))"

definition HandleManifold :: "string \<Rightarrow> daemon_state \<Rightarrow> string" where
  "HandleManifold handle S = or_empty (st_handleManifold S handle)"

definition SetCurrent :: "string \<Rightarrow> string \<Rightarrow> daemon_state \<Rightarrow> daemon_state" where
  "SetCurrent sess handle S = S\<lparr>st_current := (st_current S)(session sess \<mapsto> handle)\<rparr>"

definition ClearCurrent :: "string \<Rightarrow> daemon_state \<Rightarrow> daemon_state" where
  "ClearCurrent sess S =
     (if session sess \<notin> dom (st_current S) then S else S\<lparr>st_current := (st_current S)(session sess := None)\<rparr>)"

definition ClearCurrentForHandle :: "string \<Rightarrow> daemon_state \<Rightarrow> daemon_state" where
  "ClearCurrentForHandle handle S =
     S\<lparr>st_current := (\<lambda>s. if st_current S s = Some handle then None else st_current S s)\<rparr>"

definition SetNamespace :: "string \<Rightarrow> string \<Rightarrow> daemon_state \<Rightarrow> daemon_state" where
  "SetNamespace sess namespace S =
     S\<lparr>st_currentNamespace := (st_currentNamespace S)(session sess := (if namespace = '''' then None else Some namespace))\<rparr>"

definition ClearNamespace :: "string \<Rightarrow> daemon_state \<Rightarrow> daemon_state" where
  "ClearNamespace sess S =
     (if session sess \<notin> dom (st_currentNamespace S) then S
      else S\<lparr>st_currentNamespace := (st_currentNamespace S)(session sess := None)\<rparr>)"

definition RememberSource :: "string \<Rightarrow> string \<Rightarrow> daemon_state \<Rightarrow> daemon_state" where
  "RememberSource handle manifold S =
     S\<lparr>st_knownPipes := insert handle (st_knownPipes S), st_handleManifold := (st_handleManifold S)(handle \<mapsto> manifold)\<rparr>"

definition ForgetPipe :: "string \<Rightarrow> daemon_state \<Rightarrow> daemon_state" where
  "ForgetPipe handle S = S\<lparr>st_knownPipes := st_knownPipes S - {handle}\<rparr>"

definition ResetSources :: "string list \<Rightarrow> (string \<rightharpoonup> string) \<Rightarrow> daemon_state \<Rightarrow> daemon_state" where
  "ResetSources handles manifolds S = S\<lparr>st_knownPipes := set handles, st_handleManifold := manifolds\<rparr>"

text \<open>
  \<open>LoadFromDisk\<close>: a failed or corrupt read leaves everything as it was; else the sessions and the
  credentials are those of the files and the caches are empty. The single handle of older installations
  becomes the default session's when that has none.
\<close>

definition LoadFromDisk ::
  "string + (string option) \<Rightarrow> string + (string \<rightharpoonup> string) \<Rightarrow> string + (string \<rightharpoonup> string) \<Rightarrow> string
   \<Rightarrow> daemon_state \<Rightarrow> string option \<times> daemon_state"
where
  "LoadFromDisk creds_file current_file namespace_file legacy S =
     (case creds_file of Inl e \<Rightarrow> (Some e, S)
      | Inr creds \<Rightarrow>
     (case current_file of Inl e \<Rightarrow> (Some e, S)
      | Inr current \<Rightarrow>
     (case namespace_file of Inl e \<Rightarrow> (Some e, S)
      | Inr namespace \<Rightarrow>
          (let current' = (if legacy \<noteq> '''' \<and> current ''default'' = None then current(''default'' \<mapsto> legacy) else current)
           in (None, S\<lparr>st_creds := creds \<noteq> None, st_accountID := or_empty creds, st_current := current',
                       st_currentNamespace := namespace, st_knownPipes := {}, st_handleManifold := Map.empty\<rparr>)))))"

end
