(* ===== verification/GoText.thy ===== *)
theory GoText
  imports Prelude
begin

text \<open>
  More of Go's library on strings, as far as the daemon uses it: \<open>utf8.DecodeRuneInString\<close>,
  \<open>strings.TrimSpace\<close> and the shell patterns of \<open>filepath.Match\<close>.
\<close>

section \<open>Runes\<close>

definition in_range :: "nat \<Rightarrow> nat \<Rightarrow> nat \<Rightarrow> bool" where
  "in_range lo hi b \<longleftrightarrow> lo \<le> b \<and> b \<le> hi"

definition zero_byte :: char where "zero_byte = CHR 0x00"

definition RuneError :: nat where "RuneError = 0xFFFD"

text \<open>The range the second byte must lie in, and the number of bytes, by the first byte.\<close>

definition rune_shape :: "nat \<Rightarrow> (nat \<times> nat \<times> nat) option" where
  "rune_shape b =
     (if in_range 0xC2 0xDF b then Some (2, 0x80, 0xBF)
      else if b = 0xE0 then Some (3, 0xA0, 0xBF)
      else if b = 0xED then Some (3, 0x80, 0x9F)
      else if in_range 0xE1 0xEF b then Some (3, 0x80, 0xBF)
      else if b = 0xF0 then Some (4, 0x90, 0xBF)
      else if in_range 0xF1 0xF3 b then Some (4, 0x80, 0xBF)
      else if b = 0xF4 then Some (4, 0x80, 0x8F)
      else None)"

definition rune_value :: "nat list \<Rightarrow> nat" where
  "rune_value bs = foldl (\<lambda>v b. v * 64 + b mod 64) (hd bs mod 2 ^ (7 - length bs)) (tl bs)"

text \<open>The first rune and its width; an invalid encoding is \<open>RuneError\<close> of width 1.\<close>

definition DecodeRune :: "string \<Rightarrow> nat \<times> nat" where
  "DecodeRune s =
     (case map of_char s of
        [] \<Rightarrow> (RuneError, 0)
      | b # bs \<Rightarrow>
          if b < 0x80 then (b, 1)
          else (case rune_shape b of
              None \<Rightarrow> (RuneError, 1)
            | Some (n, lo, hi) \<Rightarrow>
                if length (b # bs) < n \<or> \<not> in_range lo hi (bs ! 0) \<or> \<not> list_all (in_range 0x80 0xBF) (take (n - 1) bs)
                then (RuneError, 1) else (rune_value (take n (b # bs)), n)))"

lemma rune_shape_pos: "rune_shape b = Some (n, lo, hi) \<Longrightarrow> 0 < n"
  by (auto simp: rune_shape_def split: if_splits)

lemma DecodeRune_width: "s \<noteq> [] \<Longrightarrow> 0 < snd (DecodeRune s)"
  using rune_shape_pos by (cases s) (auto simp: DecodeRune_def split: option.split)

text \<open>\<open>utf8.ValidString\<close>.\<close>

function ValidString :: "string \<Rightarrow> bool" where
  "ValidString s =
     (s = [] \<or> (DecodeRune s \<noteq> (RuneError, 1) \<and> (if s = [] then True else ValidString (drop (snd (DecodeRune s)) s))))"
  by pat_completeness auto
termination
  by (relation "measure length") (use DecodeRune_width in \<open>auto intro: diff_less\<close>)

declare ValidString.simps [simp del]

lemma ValidString_Nil [simp]: "ValidString []"
  by (simp add: ValidString.simps)

lemma ValidString_ascii: "of_char c < (0x80 :: nat) \<Longrightarrow> ValidString (c # s) = ValidString s"
  by (subst ValidString.simps) (simp add: DecodeRune_def RuneError_def)

lemma ValidString_ascii_prefix:
  "list_all (\<lambda>c. of_char c < (0x80 :: nat)) p \<Longrightarrow> ValidString (p @ s) = ValidString s"
  by (induction p) (auto simp: ValidString_ascii)

section \<open>Trimming\<close>

text \<open>The encodings of the characters with Unicode's White\_Space property.\<close>

definition space_codes :: "string list" where
  "space_codes =
     [[CHR 0x09], [CHR 0x0A], [CHR 0x0B], [CHR 0x0C], [CHR 0x0D], [CHR 0x20], [CHR 0xC2, CHR 0x85],
      [CHR 0xC2, CHR 0xA0], [CHR 0xE1, CHR 0x9A, CHR 0x80], [CHR 0xE2, CHR 0x80, CHR 0x80],
      [CHR 0xE2, CHR 0x80, CHR 0x81], [CHR 0xE2, CHR 0x80, CHR 0x82], [CHR 0xE2, CHR 0x80, CHR 0x83],
      [CHR 0xE2, CHR 0x80, CHR 0x84], [CHR 0xE2, CHR 0x80, CHR 0x85], [CHR 0xE2, CHR 0x80, CHR 0x86],
      [CHR 0xE2, CHR 0x80, CHR 0x87], [CHR 0xE2, CHR 0x80, CHR 0x88], [CHR 0xE2, CHR 0x80, CHR 0x89],
      [CHR 0xE2, CHR 0x80, CHR 0x8A], [CHR 0xE2, CHR 0x80, CHR 0xA8], [CHR 0xE2, CHR 0x80, CHR 0xA9],
      [CHR 0xE2, CHR 0x80, CHR 0xAF], [CHR 0xE2, CHR 0x81, CHR 0x9F], [CHR 0xE3, CHR 0x80, CHR 0x80]]"

definition leading :: "string list \<Rightarrow> string \<Rightarrow> string option" where
  "leading codes s = find (\<lambda>p. p \<noteq> [] \<and> has_prefix s p) codes"

lemma leading_None: "leading codes s = None \<longleftrightarrow> (\<forall>p \<in> set codes. p = [] \<or> \<not> has_prefix s p)"
  by (auto simp: leading_def find_None_all)

lemma leading_shorter: "leading codes s = Some p \<Longrightarrow> length (drop (length p) s) < length s"
  by (auto simp: leading_def has_prefix_iff dest!: find_SomeD)

function strip :: "string list \<Rightarrow> string \<Rightarrow> string" where
  "strip codes s = (case leading codes s of None \<Rightarrow> s | Some p \<Rightarrow> strip codes (drop (length p) s))"
  by pat_completeness auto
termination
  by (relation "measure (\<lambda>(codes, s). length s)") (simp_all, metis leading_shorter length_drop)

declare strip.simps [simp del]

definition trim_right :: "string \<Rightarrow> string" where
  "trim_right s = rev (strip (map rev space_codes) (rev s))"

definition TrimSpace :: "string \<Rightarrow> string" where
  "TrimSpace s = trim_right (strip space_codes s)"

lemma leading_strip: "leading codes (strip codes s) = None"
proof (induction codes s rule: strip.induct)
  case (1 codes s)
  then show ?case by (cases "leading codes s") (simp_all add: strip.simps [of codes s])
qed

lemma strip_none: "leading codes s = None \<Longrightarrow> strip codes s = s"
  by (simp add: strip.simps)

lemma strip_suffix: "\<exists>p. s = p @ strip codes s"
proof (induction codes s rule: strip.induct)
  case (1 codes s)
  show ?case
  proof (cases "leading codes s")
    case None
    then show ?thesis by (simp add: strip_none)
  next
    case (Some p)
    with 1 obtain q where "drop (length p) s = q @ strip codes (drop (length p) s)" by blast
    moreover have "strip codes s = strip codes (drop (length p) s)" using Some by (simp add: strip.simps [of codes s])
    ultimately have "s = (take (length p) s @ q) @ strip codes s" by (metis append_assoc append_take_drop_id)
    then show ?thesis by blast
  qed
qed

lemma trim_right_prefix: "\<exists>q. s = trim_right s @ q"
proof -
  obtain p where "rev s = p @ strip (map rev space_codes) (rev s)" using strip_suffix by blast
  then have "s = rev (strip (map rev space_codes) (rev s)) @ rev p" by (metis rev_append rev_rev_ident)
  then show ?thesis by (auto simp: trim_right_def)
qed

lemma leading_prefix: "leading codes (s @ t) = None \<Longrightarrow> leading codes s = None"
  by (auto simp: leading_None has_prefix_iff)

lemma TrimSpace_idem [simp]: "TrimSpace (TrimSpace s) = TrimSpace s"
proof -
  obtain q where "strip space_codes s = TrimSpace s @ q" using trim_right_prefix by (auto simp: TrimSpace_def)
  then have "leading space_codes (TrimSpace s) = None" using leading_prefix leading_strip by metis
  then have "strip space_codes (TrimSpace s) = TrimSpace s" by (rule strip_none)
  moreover have "strip (map rev space_codes) (rev (TrimSpace s)) = rev (TrimSpace s)"
    by (simp add: TrimSpace_def trim_right_def strip_none leading_strip)
  ultimately show ?thesis by (simp add: TrimSpace_def [of "TrimSpace s"] trim_right_def)
qed

lemma TrimSpace_id:
  assumes "leading space_codes s = None" "leading (map rev space_codes) (rev s) = None"
  shows "TrimSpace s = s"
  using assms by (simp add: TrimSpace_def trim_right_def strip_none)

section \<open>Shell patterns\<close>

datatype glob_tok = GStar | GAny | GLit char | GClass bool "(nat \<times> nat) list"

text \<open>
  One bound of a character class: an escaped or plain rune other than \<open>-\<close> and \<open>]\<close>, with something after it.
\<close>

definition get_esc :: "string \<Rightarrow> (nat \<times> string) option" where
  "get_esc s =
     (if s = [] \<or> hd s = CHR ''-'' \<or> hd s = CHR '']'' then None
      else (let t = (if hd s = CHR 0x5C then tl s else s)
            in if t = [] then None
               else (let (r, n) = DecodeRune t
                     in if r = RuneError \<and> n = 1 then None
                        else if drop n t = [] then None
                        else Some (r, drop n t))))"

text \<open>The ranges of a class up to its closing bracket; \<open>k\<close> bounds their number by the length of the text.\<close>

fun class_ranges :: "nat \<Rightarrow> (nat \<times> nat) list \<Rightarrow> string \<Rightarrow> ((nat \<times> nat) list \<times> string) option" where
  "class_ranges 0 rs s = None"
| "class_ranges (Suc k) rs s =
     (if s \<noteq> [] \<and> hd s = CHR '']'' \<and> rs \<noteq> [] then Some (rs, tl s)
      else case get_esc s of None \<Rightarrow> None
        | Some (lo, t) \<Rightarrow>
            if hd t = CHR ''-'' then
              (case get_esc (tl t) of None \<Rightarrow> None | Some (hi, u) \<Rightarrow> class_ranges k (rs @ [(lo, hi)]) u)
            else class_ranges k (rs @ [(lo, lo)]) t)"

fun glob_tokens :: "nat \<Rightarrow> string \<Rightarrow> glob_tok list option" where
  "glob_tokens k [] = Some []"
| "glob_tokens 0 (c # s) = None"
| "glob_tokens (Suc k) (c # s) =
     (if c = CHR ''*'' then map_option ((#) GStar) (glob_tokens k s)
      else if c = CHR ''?'' then map_option ((#) GAny) (glob_tokens k s)
      else if c = CHR ''['' then
        (let negated = (s \<noteq> [] \<and> hd s = CHR ''^'')
         in case class_ranges (Suc k) [] (if negated then tl s else s) of
              None \<Rightarrow> None
            | Some (rs, t) \<Rightarrow> map_option ((#) (GClass negated rs)) (glob_tokens k t))
      else if c = CHR 0x5C then
        (case s of [] \<Rightarrow> None | d # t \<Rightarrow> map_option ((#) (GLit d)) (glob_tokens k t))
      else map_option ((#) (GLit c)) (glob_tokens k s))"

function glob_match :: "glob_tok list \<Rightarrow> string \<Rightarrow> bool" where
  "glob_match [] s = (s = [])"
| "glob_match (GStar # ts) s =
     (if glob_match ts s then True else
      case s of [] \<Rightarrow> False | c # s' \<Rightarrow> if c = CHR ''/'' then False else glob_match (GStar # ts) s')"
| "glob_match (GAny # ts) s =
     (s \<noteq> [] \<and> hd s \<noteq> CHR ''/'' \<and> glob_match ts (drop (snd (DecodeRune s)) s))"
| "glob_match (GLit c # ts) s = (s \<noteq> [] \<and> hd s = c \<and> glob_match ts (tl s))"
| "glob_match (GClass negated rs # ts) s =
     (s \<noteq> [] \<and> (let (r, n) = DecodeRune s
        in list_ex (\<lambda>(lo, hi). in_range lo hi r) rs \<noteq> negated \<and> glob_match ts (drop n s)))"
  by pat_completeness auto
termination
  by (relation "measures [\<lambda>(ts, s). length ts, \<lambda>(ts, s). length s]") auto

text \<open>
  \<open>filepath.Match\<close> with its error dropped: a malformed pattern matches nothing. The name is covered by the
  tokens of the pattern; \<open>*\<close> and \<open>?\<close> do not match the separator.
\<close>

definition Match_glob :: "string \<Rightarrow> string \<Rightarrow> bool" where
  "Match_glob pattern name =
     (case glob_tokens (length pattern) pattern of None \<Rightarrow> False | Some ts \<Rightarrow> glob_match ts name)"

definition plain_char :: "char \<Rightarrow> bool" where
  "plain_char c \<longleftrightarrow> c \<notin> set ''*?['' \<and> c \<noteq> CHR 0x5C"

lemma glob_tokens_plain:
  "list_all plain_char s \<Longrightarrow> length s \<le> k \<Longrightarrow> glob_tokens k s = Some (map GLit s)"
proof (induction s arbitrary: k)
  case (Cons c s)
  from Cons.prems obtain j where k: "k = Suc j" "length s \<le> j" by (cases k) auto
  from Cons.prems have c: "c \<noteq> CHR ''*''" "c \<noteq> CHR ''?''" "c \<noteq> CHR ''[''" "c \<noteq> CHR 0x5C"
    by (simp_all add: plain_char_def)
  from Cons.prems have s: "list_all plain_char s" by simp
  have "glob_tokens k (c # s) = map_option ((#) (GLit c)) (glob_tokens j s)"
    unfolding k(1) glob_tokens.simps if_not_P [OF c(1)] if_not_P [OF c(2)] if_not_P [OF c(3)] if_not_P [OF c(4)] by (rule refl)
  then show ?case using Cons.IH [OF s k(2)] by simp
qed simp

lemma glob_match_literal: "glob_match (map GLit s) t \<longleftrightarrow> t = s"
proof (induction s arbitrary: t)
  case (Cons c s)
  then show ?case by (cases t) auto
qed simp

text \<open>A pattern without special characters matches itself and nothing else.\<close>

lemma Match_glob_plain: "list_all plain_char s \<Longrightarrow> Match_glob s t \<longleftrightarrow> t = s"
  by (simp add: Match_glob_def glob_tokens_plain glob_match_literal)

text \<open>A literal prefix followed by a star matches what starts with it and holds no separator after it.\<close>

lemma glob_match_star: "glob_match [GStar] t \<longleftrightarrow> CHR ''/'' \<notin> set t"
  by (induction t) auto

lemma glob_match_prefix: "glob_match (map GLit s @ ts) t \<longleftrightarrow> (\<exists>u. t = s @ u \<and> glob_match ts u)"
proof (induction s arbitrary: t)
  case (Cons c s)
  then show ?case by (cases t) auto
qed simp

end
