(* ===== verification/DaemonSubs.thy ===== *)
theory DaemonSubs
  imports DaemonStore GoText Errors "HOL-Library.AList"
begin

text \<open>
  The subscriptions of a session (\<open>internal/daemon/subs.go\<close>) and the handlers that change them
  (\<open>handleSubsAdd\<close>, \<open>handleSubsRemove\<close> of \<open>internal/daemon/handlers_subs.go\<close>).

  The directory of subscription files is a map from account ids, with the empty text for the flat layout of
  older daemons, to the files in it: \<open>Some subjects\<close> is a file that parses, \<open>None\<close> one that does
  not. Session names hold no path separator. The calls of the file system are numbered by \<open>subs_site\<close>.
\<close>

section \<open>The files\<close>

type_synonym subs_fs = "string \<Rightarrow> (string \<times> string list option) list"

datatype subs_site = SubsStat | SubsStatLegacy | SubsAdoptDir | SubsAdoptRename | SubsReadFile | SubsSaveDir
  | SubsSaveWrite | SubsReadDir string | SubsSweepRead string string | SubsSweepWrite string string

definition file_at :: "subs_fs \<Rightarrow> string \<Rightarrow> string \<Rightarrow> string list option option" where
  "file_at fs dir name = map_of (fs dir) name"

definition put_file :: "string \<Rightarrow> string \<Rightarrow> string list option option \<Rightarrow> subs_fs \<Rightarrow> subs_fs" where
  "put_file dir name v fs =
     fs(dir := (case v of None \<Rightarrow> AList.delete name (fs dir) | Some x \<Rightarrow> AList.update name x (fs dir)))"

lemma file_at_put [simp]:
  "file_at (put_file dir name v fs) d n = (if d = dir \<and> n = name then v else file_at fs d n)"
  by (auto simp: file_at_def put_file_def update_conv' delete_conv' split: option.split)

text \<open>The files of a directory in the order of their names.\<close>

definition ReadDir :: "subs_fs \<Rightarrow> string \<Rightarrow> string list" where
  "ReadDir fs dir = sort_key (\<lambda>n. n @ ''.json'') (remdups (map fst (fs dir)))"

lemma ReadDir_set: "n \<in> set (ReadDir fs dir) \<longleftrightarrow> file_at fs dir n \<noteq> None"
  by (auto simp: ReadDir_def file_at_def map_of_eq_None_iff)

lemma ReadDir_distinct: "distinct (ReadDir fs dir)"
  by (simp add: ReadDir_def)

text \<open>\<open>readSubsFile\<close>: missing, unreadable and unparseable files are empty; the subjects come sorted.\<close>

definition readSubsFile :: "string option \<Rightarrow> string list option option \<Rightarrow> string list" where
  "readSubsFile flt file =
     (case flt of Some _ \<Rightarrow> [] | None \<Rightarrow> (case file of Some (Some subs) \<Rightarrow> sort subs | _ \<Rightarrow> []))"

text \<open>
  \<open>loadLocked\<close>: a missing file of an account is first taken over from the flat layout. A failure of
  \<open>Stat\<close> is not a missing file.
\<close>

definition adopts :: "subs_site faults \<Rightarrow> string \<Rightarrow> string \<Rightarrow> subs_fs \<Rightarrow> bool" where
  "adopts flt account sess fs \<longleftrightarrow>
     account \<noteq> '''' \<and> flt SubsStat = None \<and> file_at fs account sess = None
     \<and> flt SubsStatLegacy = None \<and> file_at fs '''' sess \<noteq> None \<and> flt SubsAdoptDir = None \<and> flt SubsAdoptRename = None"

definition adopt :: "subs_site faults \<Rightarrow> string \<Rightarrow> string \<Rightarrow> subs_fs \<Rightarrow> subs_fs" where
  "adopt flt account sess fs =
     (if adopts flt account sess fs then put_file '''' sess None (put_file account sess (file_at fs '''' sess) fs) else fs)"

definition subs_loadLocked :: "subs_site faults \<Rightarrow> string \<Rightarrow> string \<Rightarrow> subs_fs \<Rightarrow> string list \<times> subs_fs" where
  "subs_loadLocked flt account sess fs =
     (let fs' = adopt flt account sess fs in (readSubsFile (flt SubsReadFile) (file_at fs' account sess), fs'))"

definition subs_saveLocked ::
  "subs_site faults \<Rightarrow> string \<Rightarrow> string \<Rightarrow> string list \<Rightarrow> subs_fs \<Rightarrow> string option \<times> subs_fs"
where
  "subs_saveLocked flt account sess subs fs =
     (case flt SubsSaveDir of Some e \<Rightarrow> (Some e, fs)
      | None \<Rightarrow> (case flt SubsSaveWrite of Some e \<Rightarrow> (Some e, fs)
          | None \<Rightarrow> (None, put_file account sess (Some (Some (sort subs))) fs)))"

definition List_subs :: "subs_site faults \<Rightarrow> string \<Rightarrow> string \<Rightarrow> subs_fs \<Rightarrow> string list \<times> subs_fs" where
  "List_subs flt account sess fs = subs_loadLocked flt account (session sess) fs"

text \<open>The loop of \<open>Add\<close>: trimmed, non-empty subjects that are not there yet are appended.\<close>

fun add_subjects :: "string list \<Rightarrow> string list \<Rightarrow> string list" where
  "add_subjects cur [] = cur"
| "add_subjects cur (subj # subjects) =
     (let t = TrimSpace subj
      in if t = '''' \<or> t \<in> set cur then add_subjects cur subjects else add_subjects (cur @ [t]) subjects)"

definition Add_subs ::
  "subs_site faults \<Rightarrow> string \<Rightarrow> string \<Rightarrow> string list \<Rightarrow> subs_fs \<Rightarrow> string option \<times> subs_fs"
where
  "Add_subs flt account sess subjects fs =
     (let (cur, fs1) = subs_loadLocked flt account (session sess) fs;
          new = add_subjects cur subjects
      in if length new = length cur then (None, fs1) else subs_saveLocked flt account (session sess) new fs1)"

definition Remove_subs ::
  "subs_site faults \<Rightarrow> string \<Rightarrow> string \<Rightarrow> string list \<Rightarrow> subs_fs \<Rightarrow> string option \<times> subs_fs"
where
  "Remove_subs flt account sess subjects fs =
     (let (cur, fs1) = subs_loadLocked flt account (session sess) fs;
          kept = filter (\<lambda>subj. subj \<notin> set subjects) cur
      in if length kept = length cur then (None, fs1) else subs_saveLocked flt account (session sess) kept fs1)"

text \<open>
  \<open>SweepHandle\<close>: the files of the account and of the flat layout, in the order of their names; a failed
  write ends the sweep.
\<close>

definition targets_handle :: "string \<Rightarrow> string \<Rightarrow> bool" where
  "targets_handle handle subj \<longleftrightarrow> subj = handle \<or> has_prefix subj (handle @ ''.'')"

fun sweep_files ::
  "subs_site faults \<Rightarrow> string \<Rightarrow> string \<Rightarrow> string list \<Rightarrow> subs_fs \<Rightarrow> string option \<times> subs_fs"
where
  "sweep_files flt handle dir [] fs = (None, fs)"
| "sweep_files flt handle dir (name # names) fs =
     (let cur = readSubsFile (flt (SubsSweepRead dir name)) (file_at fs dir name);
          kept = filter (\<lambda>subj. \<not> targets_handle handle subj) cur
      in if length kept \<noteq> length cur then
           (case flt (SubsSweepWrite dir name) of Some e \<Rightarrow> (Some e, fs)
            | None \<Rightarrow> sweep_files flt handle dir names (put_file dir name (Some (Some kept)) fs))
         else sweep_files flt handle dir names fs)"

fun sweep_dirs ::
  "subs_site faults \<Rightarrow> string \<Rightarrow> string list \<Rightarrow> subs_fs \<Rightarrow> string option \<times> subs_fs"
where
  "sweep_dirs flt handle [] fs = (None, fs)"
| "sweep_dirs flt handle (dir # dirs) fs =
     (case flt (SubsReadDir dir) of Some e \<Rightarrow> (Some e, fs)
      | None \<Rightarrow> (case sweep_files flt handle dir (ReadDir fs dir) fs of
            (Some e, fs1) \<Rightarrow> (Some e, fs1)
          | (None, fs1) \<Rightarrow> sweep_dirs flt handle dirs fs1))"

definition SweepHandle ::
  "subs_site faults \<Rightarrow> string \<Rightarrow> string \<Rightarrow> subs_fs \<Rightarrow> string option \<times> subs_fs"
where
  "SweepHandle flt account handle fs =
     (if handle = '''' then (None, fs)
      else sweep_dirs flt handle (if account \<noteq> '''' then [account, ''''] else ['''']) fs)"

section \<open>Adding and removing\<close>

definition IsGlobPattern :: "string \<Rightarrow> bool" where
  "IsGlobPattern s \<longleftrightarrow> list_ex (\<lambda>c. c \<in> set ''*?[%'') s"

text \<open>\<open>%\<close> is read as \<open>*\<close>.\<close>

definition sub_matches :: "string \<Rightarrow> string \<Rightarrow> bool" where
  "sub_matches raw target = Match_glob (replace_char CHR ''%'' CHR ''*'' raw) target"

definition firstCoveringPattern :: "string \<Rightarrow> string list \<Rightarrow> string" where
  "firstCoveringPattern target patterns =
     (case find (\<lambda>p. sub_matches p target) patterns of Some p \<Rightarrow> p | None \<Rightarrow> '''')"

record subsremoveoutcome =
  so_Target :: string
  so_Removed :: bool
  so_CoveredByPattern :: string

definition handleSubsAdd ::
  "subs_site faults \<Rightarrow> string \<Rightarrow> string \<Rightarrow> string list \<Rightarrow> subs_fs \<Rightarrow> (cerror + string list) \<times> subs_fs"
where
  "handleSubsAdd flt account sess targets fs =
     (case Add_subs flt account sess targets fs of
        (Some e, fs1) \<Rightarrow> (Inl \<lparr>Code = ''E_INTERNAL'', Message = e\<rparr>, fs1)
      | (None, fs1) \<Rightarrow> map_prod Inr id (List_subs flt account sess fs1))"

definition handleSubsRemove ::
  "subs_site faults \<Rightarrow> string \<Rightarrow> string \<Rightarrow> string list \<Rightarrow> bool \<Rightarrow> subs_fs
   \<Rightarrow> (cerror + string list \<times> subsremoveoutcome list) \<times> subs_fs"
where
  "handleSubsRemove flt account sess targets force fs =
     (let ownInbox = session sess @ ''.inbox''
      in if \<not> force \<and> list_ex (\<lambda>t. TrimSpace t = ownInbox) targets then
           (Inl \<lparr>Code = ''E_OWN_INBOX'',
                 Message = ''refusing to remove own inbox '' @ ownInbox @ '' (use --force to override)''\<rparr>, fs)
         else
           (let (before, fs1) = List_subs flt account sess fs
            in case Remove_subs flt account sess targets fs1 of
                 (Some e, fs2) \<Rightarrow> (Inl \<lparr>Code = ''E_INTERNAL'', Message = e\<rparr>, fs2)
               | (None, fs2) \<Rightarrow>
                   (let (after, fs3) = List_subs flt account sess fs2;
                        remaining = filter IsGlobPattern after
                    in (Inr (after, map (\<lambda>t. \<lparr>so_Target = t, so_Removed = t \<in> set before,
                                              so_CoveredByPattern = firstCoveringPattern t remaining\<rparr>)
                              (filter (\<lambda>t. t \<noteq> '''') (map TrimSpace targets))), fs3))))"

section \<open>What a session is subscribed to\<close>

text \<open>The file a session of an account reads: its own, or the flat one it would take over.\<close>

definition visible_file :: "string \<Rightarrow> subs_fs \<Rightarrow> string \<Rightarrow> string list option option" where
  "visible_file account fs sess =
     (if account \<noteq> '''' \<and> file_at fs account sess = None then file_at fs '''' sess else file_at fs account sess)"

definition subscribed :: "string \<Rightarrow> subs_fs \<Rightarrow> string \<Rightarrow> string set" where
  "subscribed account fs sess = set (readSubsFile None (visible_file account fs sess))"

text \<open>No call that reads fails.\<close>

definition reads_work :: "subs_site faults \<Rightarrow> bool" where
  "reads_work flt \<longleftrightarrow> flt SubsStat = None \<and> flt SubsStatLegacy = None \<and> flt SubsAdoptDir = None
     \<and> flt SubsAdoptRename = None \<and> flt SubsReadFile = None \<and> (\<forall>d n. flt (SubsSweepRead d n) = None)"

lemma adopt_file:
  assumes "reads_work flt"
  shows "file_at (adopt flt account sess fs) account sess = visible_file account fs sess"
    "visible_file account (adopt flt account sess fs) s = visible_file account fs s"
  using assms by (auto simp: adopt_def adopts_def visible_file_def reads_work_def)

lemma subs_load:
  assumes "reads_work flt"
  shows "fst (subs_loadLocked flt account sess fs) = readSubsFile None (visible_file account fs sess)"
    "visible_file account (snd (subs_loadLocked flt account sess fs)) = visible_file account fs"
    "file_at (snd (subs_loadLocked flt account sess fs)) account sess = visible_file account fs sess"
  using assms adopt_file [OF assms]
  by (auto simp: subs_loadLocked_def Let_def reads_work_def)

lemma visible_put: "visible_file account (put_file account sess (Some x) fs) = (visible_file account fs)(sess := Some x)"
  by (rule ext) (auto simp: visible_file_def)

lemma subscribed_put:
  "subscribed account (put_file account sess (Some (Some subs)) fs) = (subscribed account fs)(sess := set subs)"
  by (rule ext) (simp add: subscribed_def visible_put readSubsFile_def)

lemma add_subjects_set: "set (add_subjects cur subjects) = set cur \<union> (TrimSpace ` set subjects - {''''})"
  by (induction subjects arbitrary: cur) (auto simp: Let_def)

lemma add_subjects_grows: "length cur \<le> length (add_subjects cur subjects)"
proof (induction subjects arbitrary: cur)
  case (Cons subj subjects)
  show ?case using Cons [of cur] Cons [of "cur @ [TrimSpace subj]"] by (simp add: Let_def)
qed simp

lemma add_subjects_same:
  assumes "length (add_subjects cur subjects) = length cur"
  shows "add_subjects cur subjects = cur"
  using assms
proof (induction subjects arbitrary: cur)
  case (Cons subj subjects)
  then show ?case using add_subjects_grows [of "cur @ [TrimSpace subj]" subjects] by (auto simp: Let_def split: if_splits)
qed simp

lemma subscribed_load:
  assumes "reads_work flt" "subs_loadLocked flt account sess fs = (cur, fs1)"
  shows "set cur = subscribed account fs sess" "subscribed account fs1 = subscribed account fs"
  using subs_load [OF assms(1), of account sess fs] assms(2) by (auto simp: subscribed_def)

lemma subscribed_Add:
  assumes "reads_work flt" "Add_subs flt account sess subjects fs = (err, fs')"
  shows "subscribed account fs' = (if err = None
    then (subscribed account fs)(session sess := subscribed account fs (session sess) \<union> (TrimSpace ` set subjects - {''''}))
    else subscribed account fs)"
proof -
  obtain cur fs1 where l: "subs_loadLocked flt account (session sess) fs = (cur, fs1)" by fastforce
  note f = subscribed_load [OF assms(1) l]
  show ?thesis
  proof (cases "length (add_subjects cur subjects) = length cur")
    case True
    then have "set cur = set cur \<union> (TrimSpace ` set subjects - {''''})"
      using add_subjects_same add_subjects_set by metis
    moreover have "err = None" "fs' = fs1" using assms(2) True by (simp_all add: Add_subs_def l Let_def)
    ultimately show ?thesis using f by (metis fun_upd_triv)
  next
    case False
    with assms(2) f show ?thesis
      by (auto simp: Add_subs_def l Let_def subs_saveLocked_def subscribed_put add_subjects_set split: option.splits)
  qed
qed

lemma subscribed_Remove:
  assumes "reads_work flt" "Remove_subs flt account sess subjects fs = (err, fs')"
  shows "subscribed account fs' = (if err = None
    then (subscribed account fs)(session sess := subscribed account fs (session sess) - set subjects)
    else subscribed account fs)"
proof -
  obtain cur fs1 where l: "subs_loadLocked flt account (session sess) fs = (cur, fs1)" by fastforce
  note f = subscribed_load [OF assms(1) l]
  let ?kept = "filter (\<lambda>subj. subj \<notin> set subjects) cur"
  have s: "set ?kept = set cur - set subjects" by auto
  show ?thesis
  proof (cases "length ?kept = length cur")
    case True
    then have "?kept = cur" by (metis filter_id_conv length_filter_less less_irrefl)
    with s have "set cur = set cur - set subjects" by metis
    moreover have "err = None" "fs' = fs1" using assms(2) True by (simp_all add: Remove_subs_def l Let_def)
    ultimately show ?thesis using f by (metis fun_upd_triv)
  next
    case False
    with assms(2) f s show ?thesis
      by (auto simp: Remove_subs_def l Let_def subs_saveLocked_def subscribed_put split: option.splits)
  qed
qed

section \<open>Sweeping\<close>

definition subjects_at :: "subs_fs \<Rightarrow> string \<Rightarrow> string \<Rightarrow> string set" where
  "subjects_at fs dir name = set (readSubsFile None (file_at fs dir name))"

abbreviation without_handle :: "string \<Rightarrow> string set \<Rightarrow> string set" where
  "without_handle handle X \<equiv> {x \<in> X. \<not> targets_handle handle x}"

lemma subjects_at_put [simp]:
  "subjects_at (put_file dir name (Some (Some subs)) fs) d n = (if d = dir \<and> n = name then set subs else subjects_at fs d n)"
  by (simp add: subjects_at_def readSubsFile_def)

text \<open>Each file is as before or swept, and files stay where they are.\<close>

definition partly_swept :: "string \<Rightarrow> subs_fs \<Rightarrow> subs_fs \<Rightarrow> bool" where
  "partly_swept handle fs fs' \<longleftrightarrow> (\<forall>d n. (file_at fs' d n = None \<longleftrightarrow> file_at fs d n = None) \<and>
     (subjects_at fs' d n = subjects_at fs d n \<or> subjects_at fs' d n = without_handle handle (subjects_at fs d n)))"

lemma partly_swept_refl: "partly_swept handle fs fs"
  by (simp add: partly_swept_def)

lemma partly_swept_trans:
  assumes "partly_swept handle fs fs1" "partly_swept handle fs1 fs2"
  shows "partly_swept handle fs fs2"
  unfolding partly_swept_def
proof (intro allI conjI)
  fix d n
  show "(file_at fs2 d n = None) = (file_at fs d n = None)" using assms by (simp add: partly_swept_def)
  have "subjects_at fs1 d n \<in> {subjects_at fs d n, without_handle handle (subjects_at fs d n)}"
    "subjects_at fs2 d n \<in> {subjects_at fs1 d n, without_handle handle (subjects_at fs1 d n)}"
    using assms by (auto simp: partly_swept_def)
  then show "subjects_at fs2 d n = subjects_at fs d n \<or> subjects_at fs2 d n = without_handle handle (subjects_at fs d n)"
    by auto
qed

lemma partly_swept_once:
  assumes "partly_swept handle fs fs'" "subjects_at fs d n = without_handle handle X"
  shows "subjects_at fs' d n = without_handle handle X"
proof -
  have "subjects_at fs' d n \<in> {subjects_at fs d n, without_handle handle (subjects_at fs d n)}"
    using assms(1) by (auto simp: partly_swept_def)
  then show ?thesis by (auto simp: assms(2))
qed

lemma sweep_one:
  assumes "reads_work flt"
  shows "sweep_files flt handle dir (name # names) fs =
    (if list_all (\<lambda>s. \<not> targets_handle handle s) (readSubsFile None (file_at fs dir name)) then sweep_files flt handle dir names fs
     else case flt (SubsSweepWrite dir name) of Some e \<Rightarrow> (Some e, fs)
       | None \<Rightarrow> sweep_files flt handle dir names
           (put_file dir name (Some (Some (filter (\<lambda>s. \<not> targets_handle handle s) (readSubsFile None (file_at fs dir name))))) fs))"
proof -
  define cur where "cur = readSubsFile None (file_at fs dir name)"
  have c: "length (filter (\<lambda>s. \<not> targets_handle handle s) cur) = length cur \<longleftrightarrow> list_all (\<lambda>s. \<not> targets_handle handle s) cur"
    unfolding list_all_iff by (metis filter_True length_filter_less less_irrefl)
  have flt: "flt (SubsSweepRead dir name) = None" using assms by (simp add: reads_work_def)
  show ?thesis
    using c [unfolded cur_def]
    by (cases "list_all (\<lambda>s. \<not> targets_handle handle s) (readSubsFile None (file_at fs dir name))") (simp_all add: Let_def flt)
qed

lemma sweep_files_rule:
  assumes "reads_work flt" "sweep_files flt handle dir names fs = (err, fs')"
  shows "partly_swept handle fs fs'
    \<and> (err = None \<longrightarrow> n \<in> set names \<longrightarrow> subjects_at fs' dir n = without_handle handle (subjects_at fs dir n))"
  using assms(2)
proof (induction names arbitrary: fs)
  case Nil
  then show ?case by (simp add: partly_swept_refl)
next
  case (Cons name names)
  let ?X = "without_handle handle (subjects_at fs dir name)"
  show ?case
  proof (cases "list_all (\<lambda>s. \<not> targets_handle handle s) (readSubsFile None (file_at fs dir name))")
    case True
    note r = Cons.prems [unfolded sweep_one [OF assms(1)] if_P [OF True]]
    note IH = Cons.IH [OF r]
    have "subjects_at fs dir name = ?X" using True by (auto simp: subjects_at_def list_all_iff)
    then have "subjects_at fs' dir name = ?X" using partly_swept_once [of handle fs fs' dir name] IH by blast
    with IH show ?thesis by (cases "n = name") auto
  next
    case False
    note one = Cons.prems [unfolded sweep_one [OF assms(1)] if_not_P [OF False]]
    show ?thesis
    proof (cases "flt (SubsSweepWrite dir name)")
      case (Some e)
      with one show ?thesis by (auto simp: partly_swept_refl)
    next
      case None
      define fs1 where "fs1 = put_file dir name
        (Some (Some (filter (\<lambda>s. \<not> targets_handle handle s) (readSubsFile None (file_at fs dir name))))) fs"
      have "file_at fs dir name \<noteq> None" using False by (cases "file_at fs dir name") (auto simp: readSubsFile_def)
      then have first: "partly_swept handle fs fs1" by (auto simp: partly_swept_def fs1_def) (auto simp: subjects_at_def)
      have at: "subjects_at fs1 dir name = ?X" by (auto simp: fs1_def subjects_at_def readSubsFile_def)
      have r: "sweep_files flt handle dir names fs1 = (err, fs')" using one by (simp add: None fs1_def)
      note IH = Cons.IH [OF r]
      have keep: "subjects_at fs' dir name = ?X" using partly_swept_once [of handle fs1 fs' dir name] IH at by blast
      have "n \<noteq> name \<Longrightarrow> subjects_at fs1 dir n = subjects_at fs dir n" by (simp add: fs1_def)
      with IH keep partly_swept_trans [OF first] show ?thesis by (cases "n = name") auto
    qed
  qed
qed

lemma sweep_dirs_rule:
  assumes "reads_work flt" "sweep_dirs flt handle dirs fs = (err, fs')"
  shows "partly_swept handle fs fs'
    \<and> (err = None \<longrightarrow> dir \<in> set dirs \<longrightarrow> subjects_at fs' dir n = without_handle handle (subjects_at fs dir n))"
  using assms(2)
proof (induction dirs arbitrary: fs)
  case Nil
  then show ?case by (simp add: partly_swept_refl)
next
  case (Cons d dirs)
  show ?case
  proof (cases "flt (SubsReadDir d)")
    case (Some e)
    with Cons.prems show ?thesis by (auto simp: partly_swept_refl)
  next
    case None
    obtain err1 fs1 where f: "sweep_files flt handle d (ReadDir fs d) fs = (err1, fs1)" by fastforce
    note files = sweep_files_rule [OF assms(1) f, of n]
    show ?thesis
    proof (cases err1)
      case (Some e)
      with Cons.prems None f files show ?thesis by auto
    next
      case e: None
      with Cons.prems None f have r: "sweep_dirs flt handle dirs fs1 = (err, fs')" by simp
      note IH = Cons.IH [OF r]
      have "subjects_at fs1 d n = without_handle handle (subjects_at fs d n)"
      proof (cases "file_at fs d n")
        case None
        then have "file_at fs1 d n = None" using files by (simp add: partly_swept_def)
        with None show ?thesis by (simp add: subjects_at_def readSubsFile_def)
      next
        case (Some contents)
        then have "n \<in> set (ReadDir fs d)" by (simp add: ReadDir_set)
        with files e show ?thesis by blast
      qed
      then have "subjects_at fs' d n = without_handle handle (subjects_at fs d n)"
        using IH partly_swept_once by blast
      moreover have "partly_swept handle fs fs'" using files IH partly_swept_trans by blast
      moreover have "subjects_at fs' dir n = without_handle handle (subjects_at fs dir n)"
        if "err = None" "dir \<in> set dirs"
      proof -
        have "subjects_at fs' dir n = without_handle handle (subjects_at fs1 dir n)" using IH that by blast
        moreover have "subjects_at fs1 dir n \<in> {subjects_at fs dir n, without_handle handle (subjects_at fs dir n)}"
          using files by (auto simp: partly_swept_def)
        ultimately show ?thesis by auto
      qed
      ultimately show ?thesis by auto
    qed
  qed
qed

lemma subscribed_subjects_at:
  "subscribed account fs sess = subjects_at fs (if account \<noteq> '''' \<and> file_at fs account sess = None then '''' else account) sess"
  by (simp add: subscribed_def visible_file_def subjects_at_def)

lemma subscribed_partly_swept:
  "partly_swept handle fs fs' \<Longrightarrow>
   subscribed account fs' s = subscribed account fs s \<or> subscribed account fs' s = without_handle handle (subscribed account fs s)"
  by (simp add: subscribed_subjects_at partly_swept_def)

lemma subscribed_Sweep:
  assumes "reads_work flt" "SweepHandle flt account handle fs = (err, fs')"
  shows "subscribed account fs' s = subscribed account fs s
      \<or> handle \<noteq> '''' \<and> subscribed account fs' s = without_handle handle (subscribed account fs s)"
    "err = None \<Longrightarrow> handle \<noteq> '''' \<Longrightarrow> subscribed account fs' s = without_handle handle (subscribed account fs s)"
proof -
  consider "handle = ''''" "fs' = fs"
    | "handle \<noteq> ''''" "sweep_dirs flt handle (if account \<noteq> '''' then [account, ''''] else ['''']) fs = (err, fs')"
    using assms(2) by (auto simp: SweepHandle_def split: if_splits)
  then have "(subscribed account fs' s = subscribed account fs s
      \<or> handle \<noteq> '''' \<and> subscribed account fs' s = without_handle handle (subscribed account fs s))
    \<and> (err = None \<longrightarrow> handle \<noteq> '''' \<longrightarrow> subscribed account fs' s = without_handle handle (subscribed account fs s))"
  proof cases
    case 2
    note r = sweep_dirs_rule [OF assms(1) 2(2)]
    then have p: "partly_swept handle fs fs'" by blast
    then have "file_at fs' account s = None \<longleftrightarrow> file_at fs account s = None" by (simp add: partly_swept_def)
    then have "err = None \<Longrightarrow> subscribed account fs' s = without_handle handle (subscribed account fs s)"
      using r [of "if account \<noteq> '''' \<and> file_at fs account s = None then '''' else account" s]
      by (simp add: subscribed_subjects_at split: if_splits)
    with subscribed_partly_swept [OF p] 2(1) show ?thesis by blast
  qed simp
  then show "subscribed account fs' s = subscribed account fs s
      \<or> handle \<noteq> '''' \<and> subscribed account fs' s = without_handle handle (subscribed account fs s)"
    and "err = None \<Longrightarrow> handle \<noteq> '''' \<Longrightarrow> subscribed account fs' s = without_handle handle (subscribed account fs s)"
    by blast+
qed

section \<open>Runs of commands\<close>

text \<open>
  A store whose operations either succeed with their effect on what it holds or fail with a smaller, allowed
  one: what a run makes of it follows from which of its operations succeeded.
\<close>

fun run_all :: "('c \<Rightarrow> 's \<Rightarrow> string option \<times> 's) \<Rightarrow> 'c list \<Rightarrow> 's \<Rightarrow> bool list \<times> 's" where
  "run_all exec [] s = ([], s)"
| "run_all exec (c # cs) s =
     (let (err, s1) = exec c s; (oks, s2) = run_all exec cs s1 in ((err = None) # oks, s2))"

fun effects :: "('c \<Rightarrow> bool \<Rightarrow> 'v \<Rightarrow> 'v \<Rightarrow> bool) \<Rightarrow> 'c list \<Rightarrow> bool list \<Rightarrow> 'v \<Rightarrow> 'v \<Rightarrow> bool" where
  "effects eff [] [] v w = (v = w)"
| "effects eff (c # cs) (ok # oks) v w = (\<exists>u. eff c ok v u \<and> effects eff cs oks u w)"
| "effects eff _ _ v w = False"

locale effect_store =
  fixes look :: "'s \<Rightarrow> 'v" and exec :: "'c \<Rightarrow> 's \<Rightarrow> string option \<times> 's" and usable :: "'c \<Rightarrow> bool"
    and eff :: "'c \<Rightarrow> bool \<Rightarrow> 'v \<Rightarrow> 'v \<Rightarrow> bool"
  assumes exec_eff: "usable c \<Longrightarrow> exec c s = (err, s') \<Longrightarrow> eff c (err = None) (look s) (look s')"
begin

lemma run_traces: "list_all usable cs \<Longrightarrow> run_all exec cs s = (oks, s') \<Longrightarrow> effects eff cs oks (look s) (look s')"
proof (induction cs arbitrary: s oks)
  case (Cons c cs)
  obtain err s1 oks1 s2 where e: "exec c s = (err, s1)" and r: "run_all exec cs s1 = (oks1, s')"
    using Cons.prems(2) by (auto split: prod.splits)
  with Cons.prems have o: "oks = (err = None) # oks1" by simp
  have "eff c (err = None) (look s) (look s1)" using exec_eff [OF _ e] Cons.prems(1) by simp
  moreover have "effects eff cs oks1 (look s1) (look s')" using Cons.IH [OF _ r] Cons.prems(1) by simp
  ultimately show ?case by (auto simp: o)
qed simp

end

datatype subs_cmd = CmdAdd string "string list" | CmdRemove string "string list" | CmdList string | CmdSweep string

fun subs_exec :: "string \<Rightarrow> subs_site faults \<times> subs_cmd \<Rightarrow> subs_fs \<Rightarrow> string option \<times> subs_fs" where
  "subs_exec account (flt, CmdAdd sess subjects) fs = Add_subs flt account sess subjects fs"
| "subs_exec account (flt, CmdRemove sess subjects) fs = Remove_subs flt account sess subjects fs"
| "subs_exec account (flt, CmdList sess) fs = (None, snd (List_subs flt account sess fs))"
| "subs_exec account (flt, CmdSweep handle) fs = SweepHandle flt account handle fs"

text \<open>The abstract commands on sets of subjects per session; a failed sweep may have done some sessions.\<close>

fun subs_eff :: "subs_cmd \<Rightarrow> bool \<Rightarrow> (string \<Rightarrow> string set) \<Rightarrow> (string \<Rightarrow> string set) \<Rightarrow> bool" where
  "subs_eff (CmdAdd sess subjects) ok X Y =
     (Y = (if ok then X(session sess := X (session sess) \<union> (TrimSpace ` set subjects - {''''})) else X))"
| "subs_eff (CmdRemove sess subjects) ok X Y =
     (Y = (if ok then X(session sess := X (session sess) - set subjects) else X))"
| "subs_eff (CmdList sess) ok X Y = (Y = X)"
| "subs_eff (CmdSweep handle) ok X Y =
     (if handle = '''' then Y = X
      else if ok then Y = (\<lambda>s. without_handle handle (X s))
      else \<forall>s. Y s = X s \<or> Y s = without_handle handle (X s))"

lemma subs_exec_eff:
  assumes "reads_work (fst c)" "subs_exec account c fs = (err, fs')"
  shows "subs_eff (snd c) (err = None) (subscribed account fs) (subscribed account fs')"
proof -
  obtain flt cmd where c: "c = (flt, cmd)" by fastforce
  with assms(1) have flt: "reads_work flt" by simp
  show ?thesis
  proof (cases cmd)
    case (CmdAdd sess subjects)
    with assms(2) subscribed_Add [OF flt] show ?thesis by (simp add: c)
  next
    case (CmdRemove sess subjects)
    with assms(2) subscribed_Remove [OF flt] show ?thesis by (simp add: c)
  next
    case (CmdList sess)
    with assms(2) subs_load [OF flt] show ?thesis
      by (auto simp: c List_subs_def subscribed_def intro!: ext)
  next
    case (CmdSweep handle)
    with assms(2) have "SweepHandle flt account handle fs = (err, fs')" by (simp add: c)
    note s = subscribed_Sweep [OF flt this]
    show ?thesis
    proof (cases "handle = ''''")
      case True
      then have "subscribed account fs' = subscribed account fs" using s(1) by auto
      with True CmdSweep show ?thesis by (simp add: c)
    next
      case False
      with s CmdSweep show ?thesis by (auto simp: c)
    qed
  qed
qed

interpretation subs: effect_store "subscribed account" "subs_exec account" "\<lambda>c. reads_work (fst c)" "\<lambda>c. subs_eff (snd c)"
  by unfold_locales (rule subs_exec_eff)

text \<open>The lists in the files hold trimmed subjects, each once.\<close>

definition tidy_list :: "string list \<Rightarrow> bool" where
  "tidy_list l \<longleftrightarrow> distinct l \<and> list_all (\<lambda>x. x \<noteq> '''' \<and> TrimSpace x = x) l"

definition tidy :: "subs_fs \<Rightarrow> bool" where
  "tidy fs \<longleftrightarrow> (\<forall>d n l. file_at fs d n = Some (Some l) \<longrightarrow> tidy_list l)"

lemma tidy_sort [simp]: "tidy_list (sort l) = tidy_list l"
  by (auto simp: tidy_list_def list_all_iff)

lemma tidy_filter: "tidy_list l \<Longrightarrow> tidy_list (filter P l)"
  by (auto simp: tidy_list_def list_all_iff)

lemma tidy_put: "tidy fs \<Longrightarrow> tidy_list l \<Longrightarrow> tidy (put_file d n (Some (Some l)) fs)"
  by (simp add: tidy_def)

lemma tidy_read: "tidy fs \<Longrightarrow> tidy_list (readSubsFile flt (file_at fs d n))"
  by (auto simp: readSubsFile_def tidy_def tidy_list_def list_all_iff split: option.splits)

lemma tidy_adopt: "tidy fs \<Longrightarrow> tidy (adopt flt account sess fs)"
  by (auto simp: adopt_def tidy_def)

lemma tidy_load: "tidy fs \<Longrightarrow> subs_loadLocked flt account sess fs = (cur, fs1) \<Longrightarrow> tidy_list cur \<and> tidy fs1"
  by (auto simp: subs_loadLocked_def Let_def tidy_adopt tidy_read)

lemma tidy_save: "tidy fs \<Longrightarrow> tidy_list l \<Longrightarrow> tidy (snd (subs_saveLocked flt account sess l fs))"
  by (auto simp: subs_saveLocked_def tidy_put split: option.split)

lemma tidy_add_subjects: "tidy_list cur \<Longrightarrow> tidy_list (add_subjects cur subjects)"
proof (induction subjects arbitrary: cur)
  case (Cons subj subjects)
  then show ?case using Cons.IH [of "cur @ [TrimSpace subj]"] by (simp add: Let_def) (simp add: tidy_list_def)
qed simp

lemma tidy_sweep_files: "tidy fs \<Longrightarrow> tidy (snd (sweep_files flt handle dir names fs))"
proof (induction names arbitrary: fs)
  case (Cons name names)
  then show ?case by (simp add: Let_def tidy_put tidy_filter tidy_read split: option.split)
qed simp

lemma tidy_sweep_dirs: "tidy fs \<Longrightarrow> tidy (snd (sweep_dirs flt handle dirs fs))"
proof (induction dirs arbitrary: fs)
  case (Cons dir dirs)
  obtain err fs1 where f: "sweep_files flt handle dir (ReadDir fs dir) fs = (err, fs1)" by fastforce
  with tidy_sweep_files [OF Cons.prems] have "tidy fs1" by (metis snd_conv)
  with Cons f show ?case by (simp split: option.split)
qed simp

lemma tidy_exec:
  assumes "tidy fs"
  shows "tidy (snd (subs_exec account c fs))"
proof -
  obtain flt cmd where c: "c = (flt, cmd)" by fastforce
  have t: "tidy_list (fst (subs_loadLocked flt account sess fs))" "tidy (snd (subs_loadLocked flt account sess fs))" for sess
    using tidy_load [OF assms prod.collapse [symmetric]] by blast+
  show ?thesis
    by (cases cmd)
      (simp_all add: c Add_subs_def Remove_subs_def List_subs_def Let_def case_prod_unfold SweepHandle_def tidy_save
        tidy_add_subjects tidy_filter tidy_sweep_dirs t assms)
qed

lemma tidy_run: "tidy fs \<Longrightarrow> tidy (snd (run_all (subs_exec account) cs fs))"
proof (induction cs arbitrary: fs)
  case (Cons c cs)
  obtain err fs1 where e: "subs_exec account c fs = (err, fs1)" by fastforce
  with tidy_exec [OF Cons.prems] have "tidy fs1" by (metis snd_conv)
  from Cons.IH [OF this] e show ?case by (simp add: Let_def case_prod_unfold)
qed simp

section \<open>Properties\<close>

lemma List_subs_view:
  assumes "reads_work flt"
  shows "set (fst (List_subs flt account sess fs)) = subscribed account fs (session sess)"
    "sorted (fst (List_subs flt account sess fs))"
  using subs_load [OF assms, of account "session sess" fs]
  by (simp_all add: List_subs_def subscribed_def readSubsFile_def split: option.split)


definition ex_subs :: "(subs_site faults \<times> subs_cmd) list" where
  "ex_subs =
     [(no_faults, CmdAdd ''a'' ['' room'', ''bob.inbox'', ''room'']),
      ((\<lambda>x. if x = SubsSaveWrite then Some ''disk full'' else None), CmdAdd ''a'' [''lost'']),
      (no_faults, CmdSweep ''bob'')]"

lemma reads_work_no_faults [simp]: "reads_work no_faults"
  by (simp add: reads_work_def)


text \<open>Adding a subject while the file of the session cannot be read succeeds and replaces the whole list:
  a failed read counts as an empty file, and the new list is written over the old one.\<close>

theorem failed_read_wipes_subs:
  assumes "TrimSpace subj \<noteq> ''''" and "flt = (\<lambda>x. if x = SubsReadFile then Some e else None)"
  shows "fst (Add_subs flt account sess [subj] fs) = None
    \<and> subscribed account (snd (Add_subs flt account sess [subj] fs)) (session sess) = {TrimSpace subj}"
  using assms by (simp add: Add_subs_def subs_loadLocked_def readSubsFile_def Let_def subs_saveLocked_def subscribed_put)

theorem failed_read_wipes_subs_witness:
  "fst (Add_subs (\<lambda>x. if x = SubsReadFile then Some ''EMFILE'' else None) ''A'' ''a'' [''new'']
      (\<lambda>d. if d = ''A'' then [(''a'', Some [''old'', ''room''])] else [])) = None
   \<and> subscribed ''A'' (\<lambda>d. if d = ''A'' then [(''a'', Some [''old'', ''room''])] else []) ''a'' = {''old'', ''room''}
   \<and> subscribed ''A'' (snd (Add_subs (\<lambda>x. if x = SubsReadFile then Some ''EMFILE'' else None) ''A'' ''a'' [''new'']
      (\<lambda>d. if d = ''A'' then [(''a'', Some [''old'', ''room''])] else []))) ''a'' = {''new''}"
proof -
  have "TrimSpace ''new'' = ''new''" by code_simp
  moreover have "subscribed ''A'' (\<lambda>d. if d = ''A'' then [(''a'', Some [''old'', ''room''])] else []) ''a'' = {''old'', ''room''}"
    by (simp add: subscribed_def visible_file_def file_at_def readSubsFile_def)
  ultimately show ?thesis
    using failed_read_wipes_subs [of "''new''" "\<lambda>x. if x = SubsReadFile then Some ''EMFILE'' else None" "''EMFILE''" "''A''" "''a''"
      "\<lambda>d. if d = ''A'' then [(''a'', Some [''old'', ''room''])] else []"] by (simp add: session_def)
qed

text \<open>\<open>subs rm\<close> of a subscribed subject with a blank around it reports that the subject was removed and
  keeps it: the report looks at the trimmed text, the removal at the text as given.\<close>

theorem rm_untrimmed_reports_removed:
  assumes "TrimSpace raw = subj" and "raw \<noteq> subj" and "subj \<noteq> ''''" and "subj \<in> subscribed account fs (session sess)"
    and "force \<or> subj \<noteq> session sess @ ''.inbox''"
  shows "\<exists>after covered. fst (handleSubsRemove no_faults account sess [raw] force fs) =
      Inr (after, [\<lparr>so_Target = subj, so_Removed = True, so_CoveredByPattern = covered\<rparr>]) \<and> subj \<in> set after"
proof -
  obtain before fs1 where l1: "List_subs no_faults account sess fs = (before, fs1)" by fastforce
  have b: "set before = subscribed account fs (session sess)" "subscribed account fs1 = subscribed account fs"
    using subscribed_load [OF reads_work_no_faults l1 [unfolded List_subs_def]] by simp_all
  obtain err fs2 where r: "Remove_subs no_faults account sess [raw] fs1 = (err, fs2)" by fastforce
  then have e: "err = None" by (auto simp: Remove_subs_def Let_def subs_saveLocked_def split: prod.splits if_splits)
  obtain after fs3 where l3: "List_subs no_faults account sess fs2 = (after, fs3)" by fastforce
  have "set after = subscribed account fs2 (session sess)"
    using subscribed_load [OF reads_work_no_faults l3 [unfolded List_subs_def]] by simp
  then have "subj \<in> set after"
    using subscribed_Remove [OF reads_work_no_faults r] e b assms(2,4) by auto
  with assms b(1) show ?thesis
    by (auto simp: handleSubsRemove_def Let_def l1 r l3 e)
qed

theorem rm_untrimmed_reports_removed_witness:
  "fst (handleSubsRemove no_faults ''A'' ''a'' [''room ''] False (\<lambda>d. if d = ''A'' then [(''a'', Some [''room''])] else [])) =
     Inr ([''room''], [\<lparr>so_Target = ''room'', so_Removed = True, so_CoveredByPattern = ''''\<rparr>])"
proof -
  let ?fs = "\<lambda>d. if d = ''A'' then [(''a'', Some [''room''])] else []"
  have t: "TrimSpace ''room '' = ''room''" by code_simp
  have "fst (handleSubsRemove no_faults ''A'' ''a'' [''room ''] False ?fs) =
      Inr ([''room''], [\<lparr>so_Target = ''room'', so_Removed = True, so_CoveredByPattern = ''''\<rparr>])" by code_simp
  with rm_untrimmed_reports_removed [of "''room ''" "''room''" "''A''" ?fs "''a''" False] t
  show ?thesis by (simp add: subscribed_def visible_file_def file_at_def readSubsFile_def session_def)
qed

end
