(* ===== verification/Preview.thy ===== *)
theory Preview
  imports GoText
begin

text \<open>
  The previews of payloads in listings: \<open>TruncatePayload\<close>, \<open>stripANSI\<close> and \<open>stripControlBytes\<close> of
  \<open>internal/cliproto/format.go\<close>, on the bytes of the payload.
\<close>

definition byte_in :: "nat \<Rightarrow> nat \<Rightarrow> char \<Rightarrow> bool" where
  "byte_in lo hi c \<longleftrightarrow> lo \<le> of_char c \<and> of_char c \<le> hi"

text \<open>A CSI sequence is dropped: its parameter bytes and the final byte, if there is one.\<close>

function stripANSI :: "string \<Rightarrow> string" where
  "stripANSI [] = []"
| "stripANSI (c # s) =
     (if c = CHR 0x1B \<and> (case s of [] \<Rightarrow> False | d # _ \<Rightarrow> d = CHR ''['') then
        (let t = dropWhile (byte_in 0x20 0x3F) (tl s)
         in stripANSI (case t of [] \<Rightarrow> [] | f # u \<Rightarrow> if byte_in 0x40 0x7E f then u else t))
      else c # stripANSI s)"
  by pat_completeness auto
termination
proof (relation "measure length")
  fix c :: char and s t :: string
  assume "t = dropWhile (byte_in 0x20 0x3F) (tl s)"
  then have "length t \<le> length s" using length_dropWhile_le [of "byte_in 0x20 0x3F" "tl s"] by simp
  then show "(case t of [] \<Rightarrow> [] | f # u \<Rightarrow> if byte_in 0x40 0x7E f then u else t, c # s) \<in> measure length"
    by (auto split: list.split)
qed auto

definition kept_byte :: "char \<Rightarrow> bool" where
  "kept_byte c \<longleftrightarrow> c = CHR 0x0A \<or> c = CHR 0x0D \<or> c = CHR 0x09 \<or> (0x20 \<le> (of_char c :: nat) \<and> c \<noteq> CHR 0x7F)"

definition stripControlBytes :: "string \<Rightarrow> string" where
  "stripControlBytes s = filter kept_byte s"

definition ellipsis :: string where
  "ellipsis = [CHR 0xE2, CHR 0x80, CHR 0xA6]"

text \<open>The loop that looks for the cut: it goes back over the continuation bytes before \<open>end\<close>.\<close>

fun cut_end :: "string \<Rightarrow> nat \<Rightarrow> nat" where
  "cut_end s 0 = 0"
| "cut_end s (Suc e) = (if byte_in 0x80 0xBF (s ! e) then cut_end s e else Suc e)"

definition trim_blank_right :: "string \<Rightarrow> string" where
  "trim_blank_right s = rev (dropWhile (\<lambda>c. c = CHR '' '' \<or> c = CHR 0x09) (rev s))"

definition preview_text :: "string \<Rightarrow> string" where
  "preview_text s =
     trim_blank_right (replace_char CHR 0x0D CHR '' '' (replace_char CHR 0x0A CHR '' '' (stripControlBytes (stripANSI s))))"

definition TruncatePayload :: "string \<Rightarrow> string" where
  "TruncatePayload s =
     (let t = preview_text s in if 60 < length t then take (cut_end t 60) t @ ellipsis else t)"

lemma cut_end_le: "cut_end s e \<le> e"
  by (induction e) auto

text \<open>A byte of a preview that is part of the text: no control byte but the tab.\<close>

definition shown_byte :: "char \<Rightarrow> bool" where
  "shown_byte c \<longleftrightarrow> c = CHR 0x09 \<or> (0x20 \<le> (of_char c :: nat) \<and> c \<noteq> CHR 0x7F)"

lemma shown_replaced:
  "list_all shown_byte (replace_char CHR 0x0D CHR '' '' (replace_char CHR 0x0A CHR '' '' (stripControlBytes s)))"
  by (auto simp: list_all_iff replace_char_def stripControlBytes_def kept_byte_def shown_byte_def)

lemma list_all_trim: "list_all P s \<Longrightarrow> list_all P (trim_blank_right s)"
  by (auto simp: trim_blank_right_def list_all_iff dest: set_dropWhileD)

lemma list_all_take: "list_all P s \<Longrightarrow> list_all P (take n s)"
  by (auto simp: list_all_iff dest: in_set_takeD)

lemma preview_bytes: "list_all shown_byte (TruncatePayload s) \<and> length (TruncatePayload s) \<le> 63"
proof -
  have t: "list_all shown_byte (preview_text s)" unfolding preview_text_def by (intro list_all_trim shown_replaced)
  have e: "list_all shown_byte ellipsis" "length ellipsis = 3" by (simp_all add: ellipsis_def shown_byte_def)
  show ?thesis
  proof (cases "60 < length (preview_text s)")
    case True
    then have "TruncatePayload s = take (cut_end (preview_text s) 60) (preview_text s) @ ellipsis"
      by (simp add: TruncatePayload_def Let_def)
    with cut_end_le [of "preview_text s" 60] list_all_take [OF t] e show ?thesis by simp
  next
    case False
    with t show ?thesis by (simp add: TruncatePayload_def Let_def)
  qed
qed

text \<open>Printable text without blanks at the end passes the filters unchanged.\<close>

definition printable :: "char \<Rightarrow> bool" where
  "printable c \<longleftrightarrow> 0x20 \<le> (of_char c :: nat) \<and> c \<noteq> CHR 0x7F"

lemma stripANSI_printable: "list_all printable s \<Longrightarrow> stripANSI s = s"
proof (induction s)
  case (Cons c s)
  then have "c \<noteq> CHR 0x1B" by (auto simp: printable_def)
  with Cons show ?case by simp
qed simp

lemma printable_kept: "printable c \<Longrightarrow> kept_byte c"
  by (simp add: printable_def kept_byte_def)

lemma printable_not: "\<not> printable CHR 0x0A" "\<not> printable CHR 0x0D"
  by (simp_all add: printable_def)

lemma preview_text_printable:
  assumes "list_all printable s"
  shows "preview_text s = trim_blank_right s"
proof -
  have "filter kept_byte s = s" using assms by (simp add: filter_id_conv list_all_iff printable_kept)
  moreover have "CHR 0x0A \<notin> set s" "CHR 0x0D \<notin> set s" using assms printable_not by (auto simp only: list_all_iff)
  ultimately show ?thesis using assms by (simp add: preview_text_def stripANSI_printable stripControlBytes_def replace_char_id)
qed

lemma trim_nonblank: "c \<noteq> CHR '' '' \<Longrightarrow> c \<noteq> CHR 0x09 \<Longrightarrow> trim_blank_right (s @ [c]) = s @ [c]"
  by (simp add: trim_blank_right_def)

definition e_acute :: string where "e_acute = [CHR 0xC3, CHR 0xA9]"

lemma e_acute_bytes: "list_all printable e_acute" "DecodeRune (e_acute @ r) = (0xE9, 2)"
  by (simp_all add: e_acute_def printable_def DecodeRune_def rune_shape_def in_range_def rune_value_def)

lemma cut_rune: "\<not> ValidString (CHR 0xC3 # ellipsis)"
proof -
  have "DecodeRune (CHR 0xC3 # ellipsis) = (RuneError, 1)"
    by (simp add: DecodeRune_def rune_shape_def in_range_def ellipsis_def)
  then show ?thesis by (subst ValidString.simps) simp
qed

lemma ValidString_e_acute: "ValidString (e_acute @ s) = ValidString s"
  using e_acute_bytes(2) [of s]
  by (subst ValidString.simps) (simp add: RuneError_def, simp add: e_acute_def)

lemma trim_e_acute: "rest = [] \<or> rest = ''x'' \<Longrightarrow> trim_blank_right (p @ e_acute @ rest) = p @ e_acute @ rest"
  using trim_nonblank [of "CHR 0xA9" "p @ [CHR 0xC3]"] trim_nonblank [of "CHR ''x''" "p @ e_acute"]
  by (auto simp: e_acute_def)

lemma cut_end_e_acute:
  assumes "length p = 59 \<or> length p = 58"
  shows "cut_end (p @ e_acute @ rest) 60 = Suc (length p)"
proof -
  have n: "(60 :: nat) = Suc 59" "(59 :: nat) = Suc 58" by simp_all
  have at: "(p @ e_acute @ rest) ! length p = CHR 0xC3" "(p @ e_acute @ rest) ! Suc (length p) = CHR 0xA9"
    by (simp_all add: nth_append e_acute_def)
  have b: "byte_in 0x80 0xBF (CHR 0xA9)" "\<not> byte_in 0x80 0xBF (CHR 0xC3)" by (simp_all add: byte_in_def)
  from assms show ?thesis
  proof
    assume "length p = 59"
    with at b show ?thesis by (metis n(1) cut_end.simps(2))
  next
    assume "length p = 58"
    with at b show ?thesis by (metis n cut_end.simps(2))
  qed
qed

lemma preview_of_straddling:
  assumes "list_all printable p" "length p = 59 \<or> length p = 58" "rest = (if length p = 59 then [] else ''x'')"
  shows "TruncatePayload (p @ e_acute @ rest) = p @ CHR 0xC3 # ellipsis"
proof -
  have "list_all printable rest" using assms(3) by (simp add: printable_def)
  then have "list_all printable (p @ e_acute @ rest)" using assms(1) e_acute_bytes(1) by simp
  then have same: "preview_text (p @ e_acute @ rest) = p @ e_acute @ rest"
    using assms(3) trim_e_acute preview_text_printable by metis
  have "60 < length (p @ e_acute @ rest)" using assms(2,3) by (auto simp: e_acute_def)
  then have "TruncatePayload (p @ e_acute @ rest) = take (Suc (length p)) (p @ e_acute @ rest) @ ellipsis"
    unfolding TruncatePayload_def same Let_def cut_end_e_acute [OF assms(2)] by (rule if_P)
  then show ?thesis by (simp add: e_acute_def)
qed

text \<open>A preview holds no control byte but the tab and at most 63 bytes, whatever the payload; but the cut
  at 60 bytes does not respect characters: of a character that straddles the limit its first byte stays, so
  the preview of well-formed text is not well-formed text.\<close>

theorem preview_cuts_characters:
  assumes "list_all (\<lambda>c. printable c \<and> of_char c < (0x80 :: nat)) p" and "length p = 59 \<or> length p = 58"
    and "rest = (if length p = 59 then [] else ''x'')"
  shows "list_all shown_byte (TruncatePayload s) \<and> length (TruncatePayload s) \<le> 63
    \<and> ValidString (p @ e_acute @ rest) \<and> \<not> ValidString (TruncatePayload (p @ e_acute @ rest))"
proof -
  have ascii: "list_all (\<lambda>c. of_char c < (0x80 :: nat)) p" and pr: "list_all printable p"
    using assms(1) by (auto simp: list_all_iff)
  have "ValidString rest" by (simp add: assms(3) ValidString_ascii)
  then have "ValidString (p @ e_acute @ rest)" by (simp only: ValidString_ascii_prefix [OF ascii] ValidString_e_acute)
  moreover have "\<not> ValidString (TruncatePayload (p @ e_acute @ rest))"
    by (simp only: preview_of_straddling [OF pr assms(2,3)] ValidString_ascii_prefix [OF ascii] cut_rune simp_thms)
  ultimately show ?thesis using preview_bytes by simp
qed

theorem preview_cuts_characters_witness:
  "ValidString (replicate 59 CHR ''a'' @ [CHR 0xC3, CHR 0xA9])
   \<and> \<not> ValidString (TruncatePayload (replicate 59 CHR ''a'' @ [CHR 0xC3, CHR 0xA9]))"
  using preview_cuts_characters [of "replicate 59 CHR ''a''" "[]" "[]"]
  by (simp add: printable_def list_all_iff e_acute_def del: replicate.simps)

end
