(* ===== verification/Schedules.thy ===== *)
theory Schedules
  imports DbAcl
begin

text \<open>
  Scheduled sends: the pure core \<open>internal/schedule/schedule.go\<close> and the repository
  \<open>internal/db/schedules.go\<close>. Reading durations, timestamps and time zones (\<open>time.ParseDuration\<close>, which
  computes fractions in floating point, \<open>time.Parse\<close>, \<open>time.LoadLocation\<close>) and cron expressions
  (\<open>robfig/cron\<close>) are functions of a \<open>time_lib\<close>; a location is its name. \<open>tl_CronNext\<close> is
  \<open>ParseStandard(expr).Next(t.In(loc))\<close>, with 0 for Go's zero instant. Columns of type
  \<open>timestamptz\<close> keep the instants as they are given; Postgres rounds them to microseconds.
\<close>

record time_lib =
  tl_ParseDuration :: "string \<Rightarrow> string + duration"
  tl_ParseRFC3339 :: "string \<Rightarrow> string + instant"
  tl_ParseLocal :: "string \<Rightarrow> string \<Rightarrow> string + instant"
  tl_LoadLocation :: "string \<Rightarrow> string + string"
  tl_CronError :: "string \<Rightarrow> string option"
  tl_CronNext :: "string \<Rightarrow> string \<Rightarrow> instant \<Rightarrow> instant"

section \<open>schedule.go\<close>

definition MissfireGrace :: duration where "MissfireGrace = 60 * second"
definition MinEvery :: duration where "MinEvery = second"

definition KindAt :: string where "KindAt = ''at''"
definition KindEvery :: string where "KindEvery = ''every''"
definition KindCron :: string where "KindCron = ''cron''"

lemmas kind_defs = KindAt_def KindEvery_def KindCron_def

record spec =
  sp_Kind :: string
  sp_At :: instant
  sp_Every :: duration
  sp_Cron :: string
  sp_Loc :: "string option"

definition zero_spec :: spec where
  "zero_spec = \<lparr>sp_Kind = '''', sp_At = 0, sp_Every = 0, sp_Cron = '''', sp_Loc = None\<rparr>"

text \<open>The errors of \<open>ParseAt\<close>, by their constructor; \<open>ErrPast\<close> is the sentinel callers test for.\<close>

datatype at_error = EmptyAt | RelativeOffset string string | Unrecognised string | ErrPast

definition ParseAt :: "time_lib \<Rightarrow> string \<Rightarrow> instant \<Rightarrow> string \<Rightarrow> at_error + instant" where
  "ParseAt L arg now loc =
     (if arg = '''' then Inl EmptyAt
      else
        let parsed =
              (if has_prefix arg ''+''
               then case tl_ParseDuration L (drop 1 arg) of
                      Inl e \<Rightarrow> Inl (RelativeOffset arg e) | Inr d \<Rightarrow> Inr (now + d)
               else case tl_ParseRFC3339 L arg of
                      Inr t \<Rightarrow> Inr t
                    | Inl _ \<Rightarrow> (case tl_ParseLocal L arg loc of Inl _ \<Rightarrow> Inl (Unrecognised arg) | Inr t \<Rightarrow> Inr t))
        in case parsed of Inl e \<Rightarrow> Inl e
           | Inr t \<Rightarrow> if \<not> now < t then Inl ErrPast else Inr t)"

definition ParseEvery :: "time_lib \<Rightarrow> string \<Rightarrow> string + duration" where
  "ParseEvery L arg =
     (case tl_ParseDuration L arg of
        Inl e \<Rightarrow> Inl e
      | Inr d \<Rightarrow> if d < MinEvery then Inl (''interval \"'' @ arg @ ''\" below the 1s minimum'') else Inr d)"

definition ParseCron :: "time_lib \<Rightarrow> string \<Rightarrow> string option" where
  "ParseCron L expr = tl_CronError L expr"

text \<open>
  The slot computation keeps the width of Go's arithmetic: \<open>Sub\<close> saturates, the product of the slot
  number and the interval wraps.
\<close>

definition NextAfter :: "time_lib \<Rightarrow> spec \<Rightarrow> instant \<Rightarrow> instant option" where
  "NextAfter L s after =
     (if sp_Kind s = KindAt then (if after < sp_At s then Some (sp_At s) else None)
      else if sp_Kind s = KindEvery then
        (if sp_Every s \<le> 0 then None
         else
           let diff = time_sub after (sp_At s);
               n = (if 0 < diff then wrap64 (go_div diff (sp_Every s) + 1) else 1)
           in Some (sp_At s + wrap64 (n * sp_Every s)))
      else if sp_Kind s = KindCron then
        (case tl_CronError L (sp_Cron s) of
           Some _ \<Rightarrow> None
         | None \<Rightarrow>
             let loc = (case sp_Loc s of None \<Rightarrow> ''UTC'' | Some l \<Rightarrow> l);
                 nxt = tl_CronNext L (sp_Cron s) loc after
             in if nxt = 0 then None else Some nxt)
      else None)"

record decision_sched =
  ds_Fire :: bool
  ds_Done :: bool
  ds_Next :: instant

definition Decide :: "time_lib \<Rightarrow> spec \<Rightarrow> instant \<Rightarrow> instant \<Rightarrow> decision_sched" where
  "Decide L s nxt now =
     (if now < nxt then \<lparr>ds_Fire = False, ds_Done = False, ds_Next = nxt\<rparr>
      else if sp_Kind s = KindAt then \<lparr>ds_Fire = True, ds_Done = True, ds_Next = nxt\<rparr>
      else case NextAfter L s now of
        None \<Rightarrow> \<lparr>ds_Fire = False, ds_Done = True, ds_Next = nxt\<rparr>
      | Some nn \<Rightarrow> \<lparr>ds_Fire = time_sub now nxt \<le> MissfireGrace, ds_Done = False, ds_Next = nn\<rparr>)"

section \<open>schedules.go\<close>

text \<open>\<open>ShortID\<close> and its SQL twin \<open>RIGHT(REPLACE(id::text, '-', ''), 8)\<close>.\<close>

definition short_of :: "uuid \<Rightarrow> string" where
  "short_of u = (let stripped = remove_char CHR ''-'' u in drop (length stripped - 8) stripped)"

definition ShortID :: "schedule \<Rightarrow> string" where
  "ShortID s = short_of (sd_ID s)"

text \<open>\<open>strings.ToLower\<close> on ASCII text.\<close>

definition ToLower :: "string \<Rightarrow> string" where
  "ToLower s = map (\<lambda>c. if CHR ''A'' \<le> c \<and> c \<le> CHR ''Z'' then char_of (of_char c + 32 :: nat) else c) s"

datatype sched_site = S_Taken nat | S_Insert

text \<open>
  The minting loop of \<open>InsertSchedule\<close>: \<open>left\<close> further attempts are allowed after this one, the
  identifiers drawn by \<open>uuid.New\<close> are \<open>fresh 0, fresh 1, \<dots>\<close>.
\<close>

fun mint_schedule_id ::
  "sched_site faults \<Rightarrow> (nat \<Rightarrow> uuid) \<Rightarrow> uuid \<Rightarrow> database \<Rightarrow> nat \<Rightarrow> nat \<Rightarrow> dberror + uuid"
where
  "mint_schedule_id flt fresh acc D attempt left =
     (case flt (S_Taken attempt) of
        Some t \<Rightarrow> Inl (ErrText t)
      | None \<Rightarrow>
          if list_ex (\<lambda>r. sd_AccountID r = acc \<and> short_of (sd_ID r) = short_of (fresh attempt)) (schedules D)
          then (case left of
                  0 \<Rightarrow> Inl (ErrText ''could not mint a unique schedule short id'')
                | Suc left' \<Rightarrow> mint_schedule_id flt fresh acc D (Suc attempt) left')
          else Inr (fresh attempt))"

text \<open>The constraints of the table: primary key, the two references and the check on \<open>kind\<close>.\<close>

definition insert_schedule_row :: "schedule \<Rightarrow> database \<Rightarrow> dberror option \<times> database" where
  "insert_schedule_row s D =
     (if sd_Kind s \<notin> {KindAt, KindEvery, KindCron} then (Some (SQLState ''23514''), D)
      else if sd_ID s \<in> sd_ID ` set (schedules D) then (Some unique_violation, D)
      else if \<not> has_account D (sd_AccountID s) \<or> \<not> has_user D (sd_CreatedByUserID s)
      then (Some foreign_key_violation, D)
      else (None, D\<lparr>schedules := schedules D @ [s\<lparr>sd_CreatorUsername := ''''\<rparr>]\<rparr>))"

definition InsertSchedule ::
  "sched_site faults \<Rightarrow> (nat \<Rightarrow> uuid) \<Rightarrow> instant \<Rightarrow> schedule \<Rightarrow> database \<Rightarrow> (dberror + schedule) \<times> database"
where
  "InsertSchedule flt fresh now s0 D =
     (let s1 = (if sd_CreatedAt s0 = 0 then s0\<lparr>sd_CreatedAt := now\<rparr> else s0)
      in case mint_schedule_id flt fresh (sd_AccountID s1) D 0 4 of
           Inl e \<Rightarrow> (Inl e, D)
         | Inr newID \<Rightarrow>
             (let s = s1\<lparr>sd_ID := newID\<rparr>
              in case flt S_Insert of
                   Some t \<Rightarrow> (Inl (ErrText t), D)
                 | None \<Rightarrow>
                     (case insert_schedule_row s D of
                        (Some e, D') \<Rightarrow> (Inl e, D')
                      | (None, D') \<Rightarrow> (Inr s, D'))))"

definition ListSchedules :: "string option \<Rightarrow> uuid \<Rightarrow> database \<Rightarrow> dberror + schedule list" where
  "ListSchedules flt accountID D =
     query flt
       (map (\<lambda>s. s\<lparr>sd_CreatorUsername :=
                     (case find (\<lambda>u. us_ID u = sd_CreatedByUserID s) (users D) of
                        Some u \<Rightarrow> us_Username u | None \<Rightarrow> '''')\<rparr>)
         (sort_key (\<lambda>s. (sd_NextFireAt s, sd_ID s))
           (filter (\<lambda>s. sd_AccountID s = accountID) (schedules D))))"

definition delete_schedule :: "uuid \<Rightarrow> database \<Rightarrow> database" where
  "delete_schedule u D = D\<lparr>schedules := filter (\<lambda>s. sd_ID s \<noteq> u) (schedules D)\<rparr>"

definition DeleteScheduleByShortID ::
  "string option \<Rightarrow> string option \<Rightarrow> uuid \<Rightarrow> string \<Rightarrow> database \<Rightarrow> (dberror + bool) \<times> database"
where
  "DeleteScheduleByShortID flt flt_del accountID shortID D =
     (case query flt
             (map sd_ID (take 2 (filter (\<lambda>s. sd_AccountID s = accountID \<and> short_of (sd_ID s) = ToLower shortID)
                                   (schedules D)))) of
        Inl e \<Rightarrow> (Inl e, D)
      | Inr ids \<Rightarrow>
          (case ids of
             [] \<Rightarrow> (Inr False, D)
           | [u] \<Rightarrow> (case flt_del of Some t \<Rightarrow> (Inl (ErrText t), D) | None \<Rightarrow> (Inr True, delete_schedule u D))
           | _ \<Rightarrow> (Inl ErrScheduleIDAmbiguous, D)))"

definition update_schedule :: "uuid \<Rightarrow> (schedule \<Rightarrow> schedule) \<Rightarrow> database \<Rightarrow> database" where
  "update_schedule u f D = D\<lparr>schedules := map (\<lambda>s. if sd_ID s = u then f s else s) (schedules D)\<rparr>"

definition BumpScheduleFailCount :: "string option \<Rightarrow> uuid \<Rightarrow> database \<Rightarrow> (dberror + int) \<times> database" where
  "BumpScheduleFailCount flt u D =
     (case flt of Some t \<Rightarrow> (Inl (ErrText t), D)
      | None \<Rightarrow>
          let D' = update_schedule u (\<lambda>s. s\<lparr>sd_FailCount := sd_FailCount s + 1\<rparr>) D
          in (query_row None (map_option sd_FailCount (find (\<lambda>s. sd_ID s = u) (schedules D'))), D'))"

definition scheduleClaimLease :: duration where "scheduleClaimLease = 30 * second"

text \<open>
  The due rows in claim order; \<open>locked\<close> are the rows a concurrent claim holds at that moment, which
  \<open>SKIP LOCKED\<close> passes over.
\<close>

definition due_rows :: "uuid list \<Rightarrow> instant \<Rightarrow> database \<Rightarrow> schedule list" where
  "due_rows locked now D =
     sort_key sd_NextFireAt (filter (\<lambda>s. sd_NextFireAt s \<le> now \<and> sd_ID s \<notin> set locked) (schedules D))"

definition ClaimDueSchedules ::
  "string option \<Rightarrow> uuid list \<Rightarrow> instant \<Rightarrow> nat \<Rightarrow> database \<Rightarrow> (dberror + schedule list) \<times> database"
where
  "ClaimDueSchedules flt locked now limit D =
     (case flt of Some t \<Rightarrow> (Inl (ErrText t), D)
      | None \<Rightarrow>
          let due = take limit (due_rows locked now D)
          in (Inr due,
              D\<lparr>schedules := map (\<lambda>s. if sd_ID s \<in> sd_ID ` set due
                                       then s\<lparr>sd_NextFireAt := now + scheduleClaimLease\<rparr> else s) (schedules D)\<rparr>))"

definition CompleteFire ::
  "string option \<Rightarrow> uuid \<Rightarrow> instant option \<Rightarrow> instant \<Rightarrow> database \<Rightarrow> dberror option \<times> database"
where
  "CompleteFire flt u nxt firedAt D =
     (case flt of Some t \<Rightarrow> (Some (ErrText t), D)
      | None \<Rightarrow>
          (None,
           case nxt of
             None \<Rightarrow> delete_schedule u D
           | Some t \<Rightarrow>
               if firedAt = 0 then update_schedule u (\<lambda>s. s\<lparr>sd_NextFireAt := t\<rparr>) D
               else update_schedule u
                      (\<lambda>s. s\<lparr>sd_NextFireAt := t, sd_LastFiredAt := Some firedAt, sd_FailCount := 0\<rparr>) D))"

section \<open>The grid of an interval schedule\<close>

text \<open>The slots of an interval schedule are the anchor plus a positive multiple of the interval.\<close>

definition slot :: "spec \<Rightarrow> int \<Rightarrow> instant" where
  "slot s k = sp_At s + k * sp_Every s"

lemma slot_number:
  assumes "0 < e" "0 < (d :: int)"
  shows "d < (d div e + 1) * e" "d < j * e \<Longrightarrow> d div e + 1 \<le> j" "(d div e + 1) * e \<le> d + e"
proof -
  have eq: "d div e * e + d mod e = d" by (rule div_mult_mod_eq)
  moreover have "0 \<le> d mod e" "d mod e < e" using assms by simp_all
  moreover have "(d div e + 1) * e = d div e * e + e" by (simp add: algebra_simps)
  ultimately show "d < (d div e + 1) * e" "(d div e + 1) * e \<le> d + e" by linarith+
  assume "d < j * e"
  with eq have "d div e * e < j * e" using assms(1) pos_mod_sign [of e d] by linarith
  then have "d div e < j" using assms(1) by simp
  then show "d div e + 1 \<le> j" by simp
qed

lemma NextAfter_every:
  assumes "sp_Kind s = KindEvery" "0 < sp_Every s" "sp_Every s \<le> max_i64"
    and "after - sp_At s + sp_Every s \<le> max_i64"
  shows "NextAfter L s after =
    Some (slot s (if sp_At s < after then (after - sp_At s) div sp_Every s + 1 else 1))"
proof (cases "sp_At s < after")
  case False
  then have "\<not> 0 < time_sub after (sp_At s)" by (simp add: time_sub_pos_iff)
  with False assms show ?thesis
    by (simp add: NextAfter_def kind_defs slot_def Let_def wrap64_id min_i64_def)
next
  case True
  let ?d = "after - sp_At s" and ?e = "sp_Every s"
  have d: "0 < ?d" "time_sub after (sp_At s) = ?d"
    using True assms by (simp_all add: time_sub_exact min_i64_def)
  have "?d div ?e \<le> ?d" using zdiv_mono2 [of ?d 1 ?e] d assms(2) by simp
  moreover have "0 \<le> ?d div ?e" using d assms(2) by (simp add: pos_imp_zdiv_nonneg_iff)
  ultimately
  have n: "wrap64 (go_div ?d ?e + 1) = ?d div ?e + 1"
    using d assms by (subst go_div_nonneg) (auto intro!: wrap64_id simp: min_i64_def)
  have "wrap64 ((?d div ?e + 1) * ?e) = (?d div ?e + 1) * ?e"
    using slot_number [OF assms(2) d(1)] assms d(1) by (intro wrap64_id) (auto simp: min_i64_def)
  with True assms d n show ?thesis
    by (simp add: NextAfter_def kind_defs slot_def Let_def)
qed

text \<open>C25: An interval schedule stays on the grid of its anchor. As long as the time since the anchor
  plus one interval fits a signed 64-bit number of nanoseconds (292 years), \<open>NextAfter\<close> returns a
  slot \<open>anchor + k * every\<close> with \<open>k \<ge> 1\<close> that is strictly later and no slot lies between; and a due
  occurrence is published exactly when it is at most 60 seconds late, missed slots are never
  replayed, and the stored next fire is that first slot after now.\<close>
theorem interval_schedule_grid:
  assumes "sp_Kind s = KindEvery" "0 < sp_Every s" "sp_Every s \<le> max_i64"
    and "now - sp_At s + sp_Every s \<le> max_i64"
  shows "\<exists>k \<ge> 1. NextAfter L s now = Some (slot s k) \<and> now < slot s k
      \<and> (\<forall>j \<ge> 1. now < slot s j \<longrightarrow> slot s k \<le> slot s j)
      \<and> (\<forall>nxt. nxt \<le> now \<and> now - nxt \<le> max_i64 \<longrightarrow>
           Decide L s nxt now = \<lparr>ds_Fire = now - nxt \<le> 60 * second, ds_Done = False, ds_Next = slot s k\<rparr>)"
proof -
  define k where "k = (if sp_At s < now then (now - sp_At s) div sp_Every s + 1 else 1)"
  have nxt: "NextAfter L s now = Some (slot s k)" using NextAfter_every [OF assms] by (simp add: k_def)
  have "1 \<le> k" using assms(2) by (simp add: k_def pos_imp_zdiv_nonneg_iff)
  moreover have "now < slot s k \<and> (\<forall>j \<ge> 1. now < slot s j \<longrightarrow> slot s k \<le> slot s j)"
  proof (cases "sp_At s < now")
    case True
    note num = slot_number [OF assms(2), of "now - sp_At s"]
    have "k \<le> j" if "now < slot s j" for j
      using num(2) [of j] that True by (simp add: k_def slot_def)
    then show ?thesis
      using num(1) True assms(2) by (auto simp: k_def slot_def intro: mult_right_mono)
  next
    case False
    then show ?thesis using assms(2) mult_right_mono [of 1 _ "sp_Every s"] by (auto simp: k_def slot_def)
  qed
  moreover have "Decide L s t now =
      \<lparr>ds_Fire = now - t \<le> 60 * second, ds_Done = False, ds_Next = slot s k\<rparr>"
    if "t \<le> now" "now - t \<le> max_i64" for t
    using that assms(1) nxt
    by (simp add: Decide_def kind_defs MissfireGrace_def time_sub_exact min_i64_def)
  ultimately show ?thesis using nxt by blast
qed

definition ex_every :: spec where
  "ex_every = \<lparr>sp_Kind = KindEvery, sp_At = 0, sp_Every = 15 * minute, sp_Cron = '''', sp_Loc = None\<rparr>"

definition ex_lib :: time_lib where
  "ex_lib = \<lparr>tl_ParseDuration = (\<lambda>s. if s = ''15m'' then Inr (15 * minute) else Inl ''invalid duration''),
     tl_ParseRFC3339 = (\<lambda>s. if s = ''2026-07-08T09:55:00Z'' then Inr (63919101300 * second) else Inl ''cannot parse''), tl_ParseLocal = (\<lambda>s l. Inl ''cannot parse''),
     tl_LoadLocation = (\<lambda>s. if s = ''UTC'' then Inr s else Inl ''unknown time zone''),
     tl_CronError = (\<lambda>s. if s = ''* * * * *'' then None else Some ''expected exactly 5 fields''),
     tl_CronNext = (\<lambda>s l t. (t div minute + 1) * minute)\<rparr>"

theorem interval_schedule_grid_witness:
  "\<exists>k \<ge> 1. NextAfter ex_lib ex_every (61 * minute) = Some (slot ex_every k)
     \<and> 61 * minute < slot ex_every k"
  using interval_schedule_grid [of ex_every "61 * minute" ex_lib]
  by (auto simp: ex_every_def duration_units max_i64_def)

section \<open>Short ids\<close>

text \<open>What the command line relies on: within an account a short id names one schedule.\<close>

definition sched_key :: "schedule \<Rightarrow> uuid \<times> string" where
  "sched_key s = (sd_AccountID s, ShortID s)"

definition sched_ok :: "database \<Rightarrow> bool" where
  "sched_ok D \<longleftrightarrow> distinct (map sched_key (schedules D)) \<and> distinct (map sd_ID (schedules D))"

text \<open>The operations on the table, under every fault and every choice of fresh identifiers.\<close>

inductive sched_op :: "database \<Rightarrow> database \<Rightarrow> bool" where
  Insert: "sched_op D (snd (InsertSchedule flt fresh now s D))"
| Delete: "sched_op D (snd (DeleteScheduleByShortID f g acc short D))"
| Bump: "sched_op D (snd (BumpScheduleFailCount f u D))"
| Claim: "sched_op D (snd (ClaimDueSchedules f locked now limit D))"
| Complete: "sched_op D (snd (CompleteFire f u nxt fired D))"

lemma mint_schedule_id_fresh:
  "mint_schedule_id flt fresh acc D attempt left = Inr u \<Longrightarrow>
   r \<in> set (schedules D) \<Longrightarrow> sd_AccountID r = acc \<Longrightarrow> short_of (sd_ID r) \<noteq> short_of u"
  by (induction flt fresh acc D attempt left rule: mint_schedule_id.induct)
     (auto simp: list_ex_iff split: option.splits if_splits nat.splits simp del: mint_schedule_id.simps
       elim!: mint_schedule_id.elims)

lemma map_keeps_keys:
  assumes "\<And>s. sd_ID (f s) = sd_ID s" "\<And>s. sd_AccountID (f s) = sd_AccountID s" "sched_ok D"
  shows "sched_ok (D\<lparr>schedules := map f (schedules D)\<rparr>)"
proof -
  have "sched_key \<circ> f = sched_key" "sd_ID \<circ> f = sd_ID"
    using assms(1,2) by (auto simp: sched_key_def ShortID_def)
  with assms(3) show ?thesis by (simp add: sched_ok_def)
qed

lemma delete_schedule_ok: "sched_ok D \<Longrightarrow> sched_ok (delete_schedule u D)"
  by (simp add: sched_ok_def delete_schedule_def distinct_map_filter)

lemma update_schedule_ok:
  assumes "\<And>s. sd_ID (f s) = sd_ID s" "\<And>s. sd_AccountID (f s) = sd_AccountID s" "sched_ok D"
  shows "sched_ok (update_schedule u f D)"
  unfolding update_schedule_def by (rule map_keeps_keys) (use assms in auto)

lemma InsertSchedule_row:
  assumes "InsertSchedule flt fresh now s D = (Inr r, D')"
  shows "\<exists>r'. schedules D' = schedules D @ [r'] \<and> sd_ID r' = sd_ID r \<and> sd_AccountID r' = sd_AccountID r
     \<and> sched_key r \<notin> sched_key ` set (schedules D) \<and> sd_ID r \<notin> sd_ID ` set (schedules D)"
proof -
  from assms obtain u where u: "mint_schedule_id flt fresh (sd_AccountID s) D 0 4 = Inr u"
    by (cases "mint_schedule_id flt fresh (sd_AccountID s) D 0 4")
      (auto simp: InsertSchedule_def Let_def simp del: mint_schedule_id.simps split: if_splits)
  then have new: "\<forall>r \<in> set (schedules D). sd_AccountID r = sd_AccountID s \<longrightarrow> short_of u \<noteq> short_of (sd_ID r)"
    using mint_schedule_id_fresh by metis
  from assms u show ?thesis
    by (auto simp: InsertSchedule_def Let_def insert_schedule_row_def sched_key_def ShortID_def new
        split: option.splits if_splits simp del: mint_schedule_id.simps)
qed

lemma InsertSchedule_error: "InsertSchedule flt fresh now s D = (Inl e, D') \<Longrightarrow> D' = D"
  by (auto simp: InsertSchedule_def Let_def insert_schedule_row_def
      split: sum.splits option.splits if_splits simp del: mint_schedule_id.simps)


lemma sched_op_ok:
  assumes "sched_op D D'" "sched_ok D"
  shows "sched_ok D'"
  using assms
proof cases
  case (Insert flt fresh now s)
  show ?thesis
  proof (cases "InsertSchedule flt fresh now s D")
    case (Pair r D1)
    show ?thesis
    proof (cases r)
      case (Inl e)
      with Pair InsertSchedule_error Insert assms(2) show ?thesis by fastforce
    next
      case (Inr row)
      with Pair have "InsertSchedule flt fresh now s D = (Inr row, D1)" by simp
      from InsertSchedule_row [OF this] obtain r' where "schedules D1 = schedules D @ [r']"
        "sd_ID r' = sd_ID row" "sd_AccountID r' = sd_AccountID row"
        "sched_key row \<notin> sched_key ` set (schedules D)" "sd_ID row \<notin> sd_ID ` set (schedules D)"
        by blast
      with Pair Insert assms(2) show ?thesis
        by (simp add: sched_ok_def sched_key_def ShortID_def)
    qed
  qed
next
  case (Delete f g acc short)
  with assms(2) show ?thesis
    by (auto simp: DeleteScheduleByShortID_def delete_schedule_ok split: sum.split list.split option.split)
next
  case (Bump f u)
  with assms(2) show ?thesis
    by (auto simp: BumpScheduleFailCount_def Let_def update_schedule_ok split: option.split)
next
  case (Claim f locked now limit)
  with assms(2) show ?thesis
    by (auto simp: ClaimDueSchedules_def Let_def intro!: map_keeps_keys split: option.split)
next
  case (Complete f u nxt fired)
  with assms(2) show ?thesis
    by (auto simp: CompleteFire_def update_schedule_ok delete_schedule_ok split: option.split)
qed

lemma sched_ops_ok: "sched_op\<^sup>*\<^sup>* D D' \<Longrightarrow> sched_ok D \<Longrightarrow> sched_ok D'"
  by (induction rule: rtranclp_induct) (auto intro: sched_op_ok)

lemma ToLower_short:
  assumes "uuid_text u"
  shows "ToLower (short_of u) = short_of u"
proof -
  have "set (short_of u) \<subseteq> set u"
    by (auto simp: short_of_def remove_char_def Let_def dest: in_set_dropD)
  then have "\<forall>c \<in> set (short_of u). \<not> (CHR ''A'' \<le> c \<and> c \<le> CHR ''Z'')"
    using assms by (auto simp: uuid_text_def less_eq_char_def)
  then show ?thesis by (auto simp: ToLower_def intro!: map_idI)
qed

lemma unique_filter:
  "distinct (map f xs) \<Longrightarrow> r \<in> set xs \<Longrightarrow> filter (\<lambda>x. f x = f r) xs = [r]"
  by (induction xs) (auto simp: filter_empty_conv image_iff)

text \<open>A short id names one schedule. From a table in which identifiers are unique, every sequence of
  creations, deletions, claims, failure counts and settlements, under every failure and every draw
  of identifiers, leads to a table in which identifiers and the short ids within an account are
  unique; so removing a listed schedule by its short id removes exactly that row and is never
  refused as ambiguous.\<close>
theorem short_ids_name_one_schedule:
  assumes "sched_op\<^sup>*\<^sup>* D D'" "sched_ok D"
  shows "sched_ok D' \<and>
    (\<forall>r \<in> set (schedules D'). uuid_text (sd_ID r) \<longrightarrow>
       DeleteScheduleByShortID None None (sd_AccountID r) (ShortID r) D' = (Inr True, delete_schedule (sd_ID r) D')
       \<and> (\<forall>s \<in> set (schedules D'). s \<in> set (schedules (delete_schedule (sd_ID r) D')) \<longleftrightarrow> s \<noteq> r))"
proof -
  have ok: "sched_ok D'" by (rule sched_ops_ok [OF assms])
  moreover have "DeleteScheduleByShortID None None (sd_AccountID r) (ShortID r) D' =
      (Inr True, delete_schedule (sd_ID r) D')"
    if "r \<in> set (schedules D')" "uuid_text (sd_ID r)" for r
  proof -
    have "filter (\<lambda>s. sd_AccountID s = sd_AccountID r \<and> short_of (sd_ID s) = ToLower (ShortID r)) (schedules D')
        = [r]"
      using unique_filter [of sched_key "schedules D'" r] ok that ToLower_short [of "sd_ID r"]
      by (simp add: sched_ok_def sched_key_def ShortID_def)
    then show ?thesis by (simp add: DeleteScheduleByShortID_def)
  qed
  moreover have "s \<in> set (schedules (delete_schedule (sd_ID r) D')) \<longleftrightarrow> s \<noteq> r"
    if "r \<in> set (schedules D')" "s \<in> set (schedules D')" for r s
    using ok that by (auto simp: delete_schedule_def sched_ok_def distinct_map inj_on_eq_iff)
  ultimately show ?thesis by blast
qed


definition ex_sched :: schedule where
  "ex_sched = \<lparr>sd_ID = '''', sd_AccountID = ''a1'', sd_Manifold = '''', sd_SourceHandle = ''alice'', sd_Pipe = ''inbox'',
     sd_Payload = ''standup'', sd_Sender = ''ada'', sd_Kind = KindEvery, sd_Spec = ''15m'', sd_TZ = '''',
     sd_NextFireAt = 15 * minute + 1, sd_LastFiredAt = None, sd_FailCount = 0, sd_CreatedByUserID = ''u1'',
     sd_CreatedAt = 1, sd_CreatorUsername = ''''\<rparr>"

definition ex_sched_id :: uuid where "ex_sched_id = ''00000000-0000-4000-8000-00000a1b2c3d''"

definition ex_sched_db :: database where
  "ex_sched_db = ex_pipes\<lparr>schedules := [ex_sched\<lparr>sd_ID := ex_sched_id\<rparr>]\<rparr>"

lemma ex_sched_db_insert: "snd (InsertSchedule no_faults (\<lambda>_. ex_sched_id) 5 ex_sched ex_pipes) = ex_sched_db"
  by (simp add: InsertSchedule_def Let_def ex_sched_def ex_pipes_def ex_sched_db_def insert_schedule_row_def kind_defs
      has_account_def has_user_def)

lemma ex_sched_facts: "sched_ok ex_pipes" "uuid_text ex_sched_id" "short_of ex_sched_id = ''0a1b2c3d''"
  by (simp_all add: sched_ok_def ex_pipes_def uuid_text_def ex_sched_id_def short_of_def remove_char_def)

theorem short_ids_name_one_schedule_witness:
  "DeleteScheduleByShortID None None ''a1'' ''0a1b2c3d'' ex_sched_db = (Inr True, delete_schedule ex_sched_id ex_sched_db)"
proof -
  have "sched_op\<^sup>*\<^sup>* ex_pipes ex_sched_db"
    using sched_op.Insert [of ex_pipes no_faults "\<lambda>_. ex_sched_id" 5 ex_sched] ex_sched_db_insert by simp
  from short_ids_name_one_schedule [OF this ex_sched_facts(1)] show ?thesis
    by (simp add: ex_sched_db_def ShortID_def ex_sched_facts) (simp add: ex_sched_def)
qed

end
