(* ===== verification/Scheduler.thy ===== *)
theory Scheduler
  imports Schedules PipeOps
begin

text \<open>
  The firing loop and the endpoints of scheduled sends: \<open>internal/server/scheduler.go\<close> and
  \<open>handlers_schedules.go\<close>, with the message of \<open>internal/envelope\<close>. A tick runs over the rows it
  claimed one after the other; what the broker and the database answer for each row is in the
  row's \<open>fire_env\<close>. A Go error is its text and the sentinels that \<open>errors.Is\<close> finds in it. The
  result of a tick carries the messages the broker acknowledged. JSON encoding is an argument.
\<close>

section \<open>envelope.go\<close>

definition MaxBytes :: nat where "MaxBytes = 65536"

record envelope =
  en_ID :: string
  en_Sender :: string
  en_Subject :: string
  en_Payload :: string
  en_CreatedAt :: instant
  en_InReplyTo :: string
  en_AckRequested :: bool
  en_ScheduleID :: string

definition New_envelope :: "uuid \<Rightarrow> string \<Rightarrow> string \<Rightarrow> string \<Rightarrow> instant \<Rightarrow> envelope" where
  "New_envelope newID sender subject payload now =
     \<lparr>en_ID = newID, en_Sender = sender, en_Subject = subject, en_Payload = payload, en_CreatedAt = now,
      en_InReplyTo = '''', en_AckRequested = False, en_ScheduleID = ''''\<rparr>"

section \<open>scheduler.go\<close>

definition schedulerBatch :: nat where "schedulerBatch = 100"
definition maxScheduleFailures :: int where "maxScheduleFailures = 5"

datatype sentinel = ErrConnectionClosed | ErrNoServers | ErrTimeout | DeadlineExceeded | ErrNoStreamResponse

record go_error =
  ge_Text :: string
  ge_Is :: "sentinel list"

definition isInfraTransient :: "go_error \<Rightarrow> bool" where
  "isInfraTransient err \<longleftrightarrow>
     ErrConnectionClosed \<in> set (ge_Is err) \<or> ErrNoServers \<in> set (ge_Is err) \<or>
     ErrTimeout \<in> set (ge_Is err) \<or> DeadlineExceeded \<in> set (ge_Is err)"

definition dropAfterFailure :: "go_error \<Rightarrow> int \<Rightarrow> bool" where
  "dropAfterFailure err failCount =
     (if isInfraTransient err then False
      else if ErrNoStreamResponse \<in> set (ge_Is err) then True
      else maxScheduleFailures \<le> failCount)"

text \<open>
  What one row meets: the faults and key material of opening the account and the sentinels a
  failure there wraps, the clock and the identifier at the time of publishing, the answer of the
  broker, and the faults of counting and settling.
\<close>

record fire_env =
  fe_Pool :: "pool_site faults"
  fe_Mint :: minting
  fe_PoolIs :: "sentinel list"
  fe_MsgID :: uuid
  fe_Clock :: instant
  fe_Marshal :: "envelope \<Rightarrow> string + string"
  fe_Publish :: "go_error option"
  fe_Bump :: "string option"
  fe_Settle :: "string option"

definition rowSpec :: "time_lib \<Rightarrow> schedule \<Rightarrow> string + spec" where
  "rowSpec L row =
     (let sp = zero_spec\<lparr>sp_Kind := sd_Kind row\<rparr>
      in if sd_Kind row = KindAt then
           (case tl_ParseRFC3339 L (sd_Spec row) of Inl e \<Rightarrow> Inl e | Inr t \<Rightarrow> Inr (sp\<lparr>sp_At := t\<rparr>))
         else if sd_Kind row = KindEvery then
           (case tl_ParseDuration L (sd_Spec row) of
              Inl e \<Rightarrow> Inl e | Inr d \<Rightarrow> Inr (sp\<lparr>sp_At := sd_CreatedAt row, sp_Every := d\<rparr>))
         else if sd_Kind row = KindCron then
           (case ParseCron L (sd_Spec row) of
              Some e \<Rightarrow> Inl e
            | None \<Rightarrow>
                (let loc = (case tl_LoadLocation L (sd_TZ row) of Inl _ \<Rightarrow> ''UTC'' | Inr l \<Rightarrow> l)
                 in Inr (sp\<lparr>sp_Cron := sd_Spec row, sp_Loc := Some loc\<rparr>)))
         else Inl (''unknown kind '' @ sd_Kind row))"

definition publishScheduled ::
  "fire_env \<Rightarrow> schedule \<Rightarrow> server_world \<Rightarrow> (go_error + string \<times> envelope) \<times> server_world"
where
  "publishScheduled E row W =
     (case JSFor (fe_Pool E) (fe_Mint E) (sd_AccountID row) W of
        (Inl t, W') \<Rightarrow> (Inl \<lparr>ge_Text = t, ge_Is = fe_PoolIs E\<rparr>, W')
      | (Inr _, W') \<Rightarrow>
          (let env = (New_envelope (fe_MsgID E) (sd_Sender row) '''' (sd_Payload row) (fe_Clock E))
                       \<lparr>en_ScheduleID := ShortID row\<rparr>
           in case fe_Marshal E env of
                Inl t \<Rightarrow> (Inl \<lparr>ge_Text = t, ge_Is = []\<rparr>, W')
              | Inr _ \<Rightarrow>
                  (let subject = BuildSubject (sd_AccountID row) (sd_Manifold row) (sd_SourceHandle row) (sd_Pipe row)
                   in case fe_Publish E of Some e \<Rightarrow> (Inl e, W') | None \<Rightarrow> (Inr (subject, env), W'))))"

text \<open>Settling a row: an error is only logged.\<close>

abbreviation settle ::
  "fire_env \<Rightarrow> schedule \<Rightarrow> instant option \<Rightarrow> instant \<Rightarrow> server_world \<Rightarrow> server_world"
where
  "settle E row nxt firedAt W \<equiv> W\<lparr>aw_db := snd (CompleteFire (fe_Settle E) (sd_ID row) nxt firedAt (aw_db W))\<rparr>"

text \<open>The body of the loop in \<open>fireDueSchedules\<close>.\<close>

definition fire_row ::
  "time_lib \<Rightarrow> fire_env \<Rightarrow> instant \<Rightarrow> schedule \<Rightarrow> server_world \<Rightarrow> (string \<times> envelope) list \<times> server_world"
where
  "fire_row L E now row W =
     (case rowSpec L row of
        Inl _ \<Rightarrow> ([], settle E row None 0 W)
      | Inr sp \<Rightarrow>
          (let d = Decide L sp (sd_NextFireAt row) now;
               nxt = (if ds_Done d then None else Some (ds_Next d))
           in if \<not> ds_Fire d then ([], settle E row nxt 0 W)
              else
     (case publishScheduled E row W of
        (Inl err, W1) \<Rightarrow>
          if isInfraTransient err then ([], W1)
          else
            (case BumpScheduleFailCount (fe_Bump E) (sd_ID row) (aw_db W1) of (cnt, D2) \<Rightarrow>
               let failCount = (case cnt of Inr n \<Rightarrow> n | Inl _ \<Rightarrow> sd_FailCount row + 1);
                   W2 = W1\<lparr>aw_db := D2\<rparr>
               in if dropAfterFailure err failCount then ([], settle E row None 0 W2) else ([], W2))
      | (Inr msg, W1) \<Rightarrow> ([msg], settle E row nxt now W1))))"

fun fire_rows ::
  "time_lib \<Rightarrow> (uuid \<Rightarrow> fire_env) \<Rightarrow> instant \<Rightarrow> schedule list \<Rightarrow> server_world \<Rightarrow> (string \<times> envelope) list \<times> server_world"
where
  "fire_rows L E now [] W = ([], W)"
| "fire_rows L E now (row # rows) W =
     (let (msgs, W1) = fire_row L (E (sd_ID row)) now row W;
          (msgs', W2) = fire_rows L E now rows W1
      in (msgs @ msgs', W2))"

definition fireDueSchedules ::
  "time_lib \<Rightarrow> string option \<Rightarrow> uuid list \<Rightarrow> (uuid \<Rightarrow> fire_env) \<Rightarrow> instant \<Rightarrow> server_world
   \<Rightarrow> (string \<times> envelope) list \<times> server_world"
where
  "fireDueSchedules L flt locked E now W =
     (case ClaimDueSchedules flt locked now schedulerBatch (aw_db W) of
        (Inl _, D') \<Rightarrow> ([], W\<lparr>aw_db := D'\<rparr>)
      | (Inr claimed, D') \<Rightarrow> fire_rows L E now claimed (W\<lparr>aw_db := D'\<rparr>))"

section \<open>handlers\_schedules.go\<close>

definition atSkewGrace :: duration where "atSkewGrace = 30 * second"

record schedulecreaterequest =
  sq_Manifold :: string
  sq_Handle :: string
  sq_Pipe :: string
  sq_Payload :: string
  sq_Sender :: string
  sq_Kind :: string
  sq_At :: string
  sq_Every :: string
  sq_Cron :: string
  sq_TZ :: string

record schedulecreatereply =
  sy_ID :: string
  sy_Target :: string
  sy_NextAt :: instant

abbreviation invalid_schedule :: "string \<Rightarrow> cerror" where
  "invalid_schedule t \<equiv> \<lparr>Code = EInvalidSchedule, Message = t\<rparr>"

definition resolveScheduleRow ::
  "time_lib \<Rightarrow> (envelope \<Rightarrow> string + string) \<Rightarrow> uuid \<Rightarrow> schedulecreaterequest \<Rightarrow> api_key \<Rightarrow> instant \<Rightarrow> cerror + schedule"
where
  "resolveScheduleRow L Marshal probeID req key now =
     (if sq_Handle req \<noteq> '''' \<and> ValidateHandle (sq_Handle req) \<noteq> None then Inl (New_err EInvalidHandle)
      else case validateManifold (sq_Manifold req) of Some e \<Rightarrow> Inl e
      | None \<Rightarrow>
      if ValidatePipe (sq_Pipe req) \<noteq> None then Inl (New_err EInvalidPipe)
      else
        let probe = (New_envelope probeID (sq_Sender req) '''' (sq_Payload req) now)\<lparr>en_ScheduleID := ''aaaaaaaa''\<rparr>
        in if (case Marshal probe of Inl _ \<Rightarrow> True | Inr data \<Rightarrow> MaxBytes < length data)
           then Inl (New_err EPayloadTooLarge)
           else
             let row = \<lparr>sd_ID = uuid_nil, sd_AccountID = ak_AccountID key, sd_Manifold = sq_Manifold req,
                        sd_SourceHandle = sq_Handle req, sd_Pipe = sq_Pipe req, sd_Payload = sq_Payload req,
                        sd_Sender = sq_Sender req, sd_Kind = sq_Kind req, sd_Spec = '''', sd_TZ = sq_TZ req,
                        sd_NextFireAt = 0, sd_LastFiredAt = None, sd_FailCount = 0,
                        sd_CreatedByUserID = Actor key, sd_CreatedAt = now, sd_CreatorUsername = ''''\<rparr>
             in if sq_Kind req = KindAt then
                  (case tl_ParseRFC3339 L (sq_At req) of
                     Inl e \<Rightarrow> Inl (invalid_schedule (''invalid at: '' @ e))
                   | Inr t \<Rightarrow>
                       if t < now - atSkewGrace then Inl (invalid_schedule ''at is in the past'')
                       else Inr (row\<lparr>sd_Spec := sq_At req, sd_NextFireAt := t\<rparr>))
                else if sq_Kind req = KindEvery then
                  (case ParseEvery L (sq_Every req) of
                     Inl e \<Rightarrow> Inl (invalid_schedule (''invalid every: '' @ e))
                   | Inr d \<Rightarrow> Inr (row\<lparr>sd_Spec := sq_Every req, sd_NextFireAt := now + d\<rparr>))
                else if sq_Kind req = KindCron then
                  (case ParseCron L (sq_Cron req) of
                     Some e \<Rightarrow> Inl (invalid_schedule (''invalid cron: '' @ e))
                   | None \<Rightarrow>
                       (case tl_LoadLocation L (sq_TZ req) of
                          Inl _ \<Rightarrow> Inl (invalid_schedule (''invalid tz: '' @ sq_TZ req))
                        | Inr loc \<Rightarrow>
                            (case NextAfter L (zero_spec\<lparr>sp_Kind := KindCron, sp_Cron := sq_Cron req, sp_Loc := Some loc\<rparr>) now of
                               None \<Rightarrow> Inl (invalid_schedule ''cron expression never fires'')
                             | Some t \<Rightarrow> Inr (row\<lparr>sd_Spec := sq_Cron req, sd_NextFireAt := t\<rparr>))))
                else Inl (invalid_schedule ''kind must be at, every, or cron''))"

definition handleCreateSchedule ::
  "time_lib \<Rightarrow> (envelope \<Rightarrow> string + string) \<Rightarrow> uuid \<Rightarrow> sched_site faults \<Rightarrow> (nat \<Rightarrow> uuid) \<Rightarrow> instant \<Rightarrow> api_key
   \<Rightarrow> schedulecreaterequest option \<Rightarrow> database \<Rightarrow> (cerror + schedulecreatereply) \<times> database"
where
  "handleCreateSchedule L Marshal probeID flt fresh now key decoded D =
     (case decoded of
        None \<Rightarrow> (Inl (invalid_schedule ''malformed json''), D)
      | Some req \<Rightarrow>
          (case resolveScheduleRow L Marshal probeID req key now of
             Inl e \<Rightarrow> (Inl e, D)
           | Inr row \<Rightarrow>
               (case InsertSchedule flt fresh now row D of
                  (Inl e, D') \<Rightarrow> (Inl (internalErr (dberr_text e)), D')
                | (Inr ins, D') \<Rightarrow>
                    (Inr \<lparr>sy_ID = ShortID ins,
                          sy_Target = FormatPipePath (sd_Manifold ins) (sd_SourceHandle ins) (sd_Pipe ins),
                          sy_NextAt = sd_NextFireAt ins\<rparr>, D'))))"

record scheduleinfo =
  si_ID :: string
  si_Namespace :: string
  si_Handle :: string
  si_Pipe :: string
  si_Kind :: string
  si_Spec :: string
  si_TZ :: string
  si_NextAt :: instant
  si_LastAt :: "instant option"
  si_Payload :: string
  si_Creator :: string

definition handleListSchedules :: "string option \<Rightarrow> api_key \<Rightarrow> database \<Rightarrow> cerror + scheduleinfo list" where
  "handleListSchedules flt key D =
     (case ListSchedules flt (ak_AccountID key) D of
        Inl e \<Rightarrow> Inl (internalErr (dberr_text e))
      | Inr rows \<Rightarrow>
          Inr (map (\<lambda>row. \<lparr>si_ID = ShortID row, si_Namespace = sd_Manifold row, si_Handle = sd_SourceHandle row,
                           si_Pipe = sd_Pipe row, si_Kind = sd_Kind row, si_Spec = sd_Spec row, si_TZ = sd_TZ row,
                           si_NextAt = sd_NextFireAt row, si_LastAt = sd_LastFiredAt row, si_Payload = sd_Payload row,
                           si_Creator = sd_CreatorUsername row\<rparr>) rows))"

definition handleDeleteSchedule ::
  "string option \<Rightarrow> string option \<Rightarrow> api_key \<Rightarrow> string \<Rightarrow> database \<Rightarrow> (cerror + string) \<times> database"
where
  "handleDeleteSchedule flt flt_del key pathID D =
     (let sid = ToLower pathID
      in case DeleteScheduleByShortID flt flt_del (ak_AccountID key) sid D of
           (Inl ErrScheduleIDAmbiguous, D') \<Rightarrow>
             (Inl (invalid_schedule (''short id '' @ [CHR 0x27] @ sid @ [CHR 0x27]
                @ '' matches multiple schedules (rare id collision); nothing was removed'')), D')
         | (Inl e, D') \<Rightarrow> (Inl (internalErr (dberr_text e)), D')
         | (Inr found, D') \<Rightarrow> (if \<not> found then (Inl (NewScheduleNotFound sid), D') else (Inr sid, D')))"

end
