(* ===== verification/DaemonRead.thy ===== *)
theory DaemonRead
  imports DaemonStore Scheduler
begin

text \<open>
  Reading a pipe through the daemon (\<open>internal/daemon/read.go\<close>, \<open>ack_emit.go\<close>, \<open>sender_resolve.go\<close>):
  checking the request, finding the stream, draining what the session has not seen, advancing its cursor,
  acknowledging, and following the live stream.

  A stream is its creation time (0 when unknown), its retained messages and its last sequence number. The
  messages a consumer sees are an argument, because others publish and the broker trims while a read
  runs; so are the outcomes of the fetches, of the writes to the caller's socket and of the cursor file.
\<close>

section \<open>Streams and requests\<close>

record jmsg =
  jm_seq :: nat
  jm_meta :: bool
  jm_env :: "envelope option"

record jstream =
  js_Created :: int
  js_Msgs :: "jmsg list"
  js_LastSeq :: nat

definition FirstSeq :: "jstream \<Rightarrow> nat" where
  "FirstSeq S = (case js_Msgs S of [] \<Rightarrow> js_LastSeq S + 1 | m # ms \<Rightarrow> jm_seq m)"

record readrequest =
  rr_Handle :: string
  rr_Channel :: string
  rr_Limit :: int
  rr_HeadLimit :: int
  rr_Skip :: int
  rr_SinceMS :: int
  rr_Follow :: bool
  rr_Session :: string
  rr_NoAdvance :: bool
  rr_All :: bool
  rr_SeedSinceUnixMS :: int
  rr_Sender :: string
  rr_BareTarget :: string

text \<open>A message as the caller gets it: the time is cut to seconds.\<close>

record readmessage =
  rm_ID :: string
  rm_Sender :: string
  rm_Subject :: string
  rm_Payload :: string
  rm_CreatedAt :: instant
  rm_InReplyTo :: string
  rm_AckRequested :: bool
  rm_ScheduleID :: string

definition read_message :: "envelope \<Rightarrow> readmessage" where
  "read_message env =
     \<lparr>rm_ID = en_ID env, rm_Sender = en_Sender env, rm_Subject = en_Subject env, rm_Payload = en_Payload env,
      rm_CreatedAt = en_CreatedAt env div second * second, rm_InReplyTo = en_InReplyTo env,
      rm_AckRequested = en_AckRequested env, rm_ScheduleID = en_ScheduleID env\<rparr>"

datatype readevent = MessageEvent readmessage | ErrorEvent cerror | MetaEvent int int | MoreUnreadEvent nat

definition message_events :: "jmsg list \<Rightarrow> readevent list" where
  "message_events ms = map MessageEvent (map read_message (map (the \<circ> jm_env) ms))"

section \<open>Acknowledgements\<close>

definition shouldEmitAck :: "readmessage \<Rightarrow> bool" where
  "shouldEmitAck m \<longleftrightarrow>
     (if \<not> rm_AckRequested m then False else if rm_Sender m = '''' then False
      else if has_prefix (rm_Subject m) ''ack:'' then False else True)"

definition buildAckEnvelope :: "uuid \<Rightarrow> readmessage \<Rightarrow> string \<Rightarrow> instant \<Rightarrow> envelope" where
  "buildAckEnvelope newID original self now =
     (New_envelope newID self ''ack:read'' '''' now)\<lparr>en_InReplyTo := rm_ID original, en_AckRequested := False\<rparr>"

text \<open>The acknowledgements handed to the publisher, with their destinations; its errors are dropped.\<close>

fun emitAcks :: "(nat \<Rightarrow> uuid) \<Rightarrow> nat \<Rightarrow> string \<Rightarrow> instant \<Rightarrow> readmessage list \<Rightarrow> (string \<times> string \<times> envelope) list" where
  "emitAcks newID k self now [] = []"
| "emitAcks newID k self now (m # ms) =
     (if \<not> shouldEmitAck m then emitAcks newID (Suc k) self now ms
      else (rm_Sender m, ''inbox'', buildAckEnvelope (newID k) m self now) # emitAcks newID (Suc k) self now ms)"

definition senderForRequest :: "string \<Rightarrow> string \<Rightarrow> string" where
  "senderForRequest reqSender stateCurrent = (if reqSender \<noteq> '''' then reqSender else stateCurrent)"

section \<open>Opening the stream\<close>

text \<open>Errors of the JetStream client, as far as the code distinguishes them.\<close>

datatype js_error = StreamNotFound | Timeout | Deadline | ConnectionClosed | NoServers | PermissionViolation | OtherError string

definition isJSTransportErr :: "js_error \<Rightarrow> bool" where
  "isJSTransportErr err \<longleftrightarrow> err = Deadline \<or> err = Timeout \<or> err = ConnectionClosed \<or> err = NoServers"

text \<open>
  What the daemon gets from outside while it opens the stream: the list of source handles, the account
  id as parsed, the two attempts at a connection, a JetStream context and the stream, and the answer of
  the access check. \<open>or_Stream1\<close> and \<open>or_Stream2\<close> look the stream name up.
\<close>

record open_env =
  or_Sources :: "cerror + string list"
  or_Account :: "uuid option"
  or_NATS1 :: bool
  or_NATS2 :: bool
  or_JS1 :: "cerror option"
  or_JS2 :: "cerror option"
  or_Stream1 :: "string \<Rightarrow> js_error + jstream"
  or_Stream2 :: "string \<Rightarrow> js_error + jstream"
  or_Enforced :: bool
  or_Denied :: "string \<Rightarrow> bool"

definition readTargetPath :: "readrequest \<Rightarrow> bool \<Rightarrow> string" where
  "readTargetPath req uncollared =
     (if uncollared then rr_BareTarget req
      else if rr_Handle req = '''' then rr_Channel req
      else rr_Handle req @ ''.'' @ rr_Channel req)"

definition read_stream_name :: "uuid \<Rightarrow> readrequest \<Rightarrow> daemon_state \<Rightarrow> string" where
  "read_stream_name accountID req st =
     (if rr_BareTarget req \<noteq> ''''
      then BuildStreamName accountID (CurrentNamespace (rr_Session req) st) '''' (rr_BareTarget req)
      else BuildStreamName accountID (HandleManifold (rr_Handle req) st) (rr_Handle req) (rr_Channel req))"

definition read_subject :: "uuid \<Rightarrow> readrequest \<Rightarrow> daemon_state \<Rightarrow> string" where
  "read_subject accountID req st =
     (if rr_BareTarget req \<noteq> ''''
      then BuildSubject accountID (CurrentNamespace (rr_Session req) st) '''' (rr_BareTarget req)
      else BuildSubject accountID (HandleManifold (rr_Handle req) st) (rr_Handle req) (rr_Channel req))"

definition stream_error :: "open_env \<Rightarrow> readrequest \<Rightarrow> daemon_state \<Rightarrow> js_error \<Rightarrow> cerror" where
  "stream_error Q req st err =
     (let uncollared = (rr_BareTarget req \<noteq> '''')
      in if err = StreamNotFound then
           (if uncollared then NewUncollaredPipeNotFound (rr_BareTarget req) (CurrentNamespace (rr_Session req) st)
            else NewPipeNotFound (rr_Channel req) (rr_Handle req))
         else if err = PermissionViolation then New_err EPipeForbidden
         else if or_Enforced Q \<and> isJSTransportErr err then
           (if or_Denied Q (readTargetPath req uncollared) then New_err EPipeForbidden else New_err ENATSUnreachable)
         else if isJSTransportErr err then New_err ENATSUnreachable
         else New_err EInvalidPipe)"

definition retry_stream :: "open_env \<Rightarrow> string \<Rightarrow> js_error + jstream" where
  "retry_stream Q name =
     (case or_Stream1 Q name of
        Inr S \<Rightarrow> Inr S
      | Inl err \<Rightarrow>
          if \<not> isJSTransportErr err then Inl err
          else if \<not> or_NATS2 Q then Inl err
          else if or_JS2 Q \<noteq> None then Inl err
          else or_Stream2 Q name)"

definition read_check :: "open_env \<Rightarrow> readrequest \<Rightarrow> daemon_state \<Rightarrow> cerror option" where
  "read_check Q req st =
     (if \<not> st_creds st then Some (New_err ENotLoggedIn)
      else if rr_BareTarget req \<noteq> '''' then
        (if ValidatePipe (rr_BareTarget req) = None then None else Some (New_err EInvalidPipe))
      else if ValidatePipe (rr_Channel req) \<noteq> None then Some (New_err EInvalidPipe)
      else if ValidateHandle (rr_Handle req) \<noteq> None then Some (NewInvalidHandle (rr_Handle req))
      else case or_Sources Q of
             Inl e \<Rightarrow> Some e
           | Inr handles \<Rightarrow>
               if rr_Handle req \<in> set handles then None else Some (NewSourceNotFound (rr_Handle req)))"

definition read_open :: "open_env \<Rightarrow> readrequest \<Rightarrow> daemon_state \<Rightarrow> cerror + (uuid \<times> jstream)" where
  "read_open Q req st =
     (case read_check Q req st of Some e \<Rightarrow> Inl e
      | None \<Rightarrow>
          if \<not> or_NATS1 Q then Inl (New_err ENATSUnreachable)
          else
     (case or_Account Q of None \<Rightarrow> Inl \<lparr>Code = ''E_INTERNAL'', Message = ''bad account id''\<rparr>
      | Some accountID \<Rightarrow>
     (case or_JS1 Q of Some e \<Rightarrow> Inl e
      | None \<Rightarrow>
     (case retry_stream Q (read_stream_name accountID req st) of
        Inl err \<Rightarrow> Inl (stream_error Q req st err)
      | Inr S \<Rightarrow> Inr (accountID, S)))))"


section \<open>Draining what is new\<close>

text \<open>Where to start, and from what time when the session has no cursor and the caller gave a floor.\<close>

definition read_start :: "readrequest \<Rightarrow> cursor_entry \<Rightarrow> jstream \<Rightarrow> nat \<times> instant option" where
  "read_start req entry S =
     (if \<not> rr_All req \<and> 0 < length (js_Msgs S) then
        (let cursor = effectiveCursor entry (js_Created S) (js_LastSeq S)
         in if cursor = 0 \<and> 0 < rr_SeedSinceUnixMS req
            then (js_LastSeq S + 1, Some (rr_SeedSinceUnixMS req * 1000000))
            else if FirstSeq S < cursor + 1 then (cursor + 1, None)
            else (FirstSeq S, None))
      else (FirstSeq S, None))"

definition since_cutoff :: "readrequest \<Rightarrow> instant \<Rightarrow> instant option" where
  "since_cutoff req now = (if 0 < rr_SinceMS req then Some (now + wrap64 (- wrap64 (rr_SinceMS req * 1000000))) else None)"

record drain =
  dr_retained :: "jmsg list"
  dr_lastSeqSeen :: nat
  dr_drained :: nat

definition wanted :: "instant option \<Rightarrow> jmsg \<Rightarrow> bool" where
  "wanted cutoff m \<longleftrightarrow>
     jm_meta m \<and> (case jm_env m of None \<Rightarrow> False
       | Some env \<Rightarrow> (case cutoff of None \<Rightarrow> True | Some t \<Rightarrow> \<not> en_CreatedAt env < t))"

text \<open>The inner loop over a batch; the first component tells that the head limit ended the drain.\<close>

fun drain_batch :: "instant option \<Rightarrow> int \<Rightarrow> jmsg list \<Rightarrow> drain \<Rightarrow> bool \<times> drain" where
  "drain_batch cutoff head [] d = (False, d)"
| "drain_batch cutoff head (m # ms) d =
     (if wanted cutoff m then
        let d' = \<lparr>dr_retained = dr_retained d @ [m], dr_lastSeqSeen = jm_seq m, dr_drained = dr_drained d + 1\<rparr>
        in if 0 < head \<and> head \<le> int (length (dr_retained d')) then (True, d')
           else drain_batch cutoff head ms d'
      else drain_batch cutoff head ms (d\<lparr>dr_drained := dr_drained d + 1\<rparr>))"

text \<open>The outcome of a fetch: an error, or at most so many messages, with or without an error at the end.\<close>

datatype fetch = FetchError | Fetched nat bool

function drain_loop :: "(nat \<Rightarrow> fetch) \<Rightarrow> nat \<Rightarrow> nat \<Rightarrow> instant option \<Rightarrow> int \<Rightarrow> jmsg list \<Rightarrow> drain \<Rightarrow> drain" where
  "drain_loop fetch k expected cutoff head rest d =
     (if \<not> dr_drained d < expected then d
      else
        let left = expected - dr_drained d;
            room = nat (head - int (length (dr_retained d)));
            want = (if 0 < head \<and> room < left then room else left)
        in if want = 0 then d
           else case fetch k of
             FetchError \<Rightarrow> d
           | Fetched n err \<Rightarrow>
               let batch = take (min n want) rest
               in case drain_batch cutoff head batch d of
                    (True, d') \<Rightarrow> d'
                  | (False, d') \<Rightarrow>
                      if err \<or> batch = [] then d'
                      else drain_loop fetch (Suc k) expected cutoff head (drop (length batch) rest) d')"
  by pat_completeness auto
termination
  by (relation "measure (\<lambda>(fetch, k, expected, cutoff, head, rest, d). length rest)") (auto split: if_splits)

declare drain_loop.simps [simp del]

definition no_drain :: drain where
  "no_drain = \<lparr>dr_retained = [], dr_lastSeqSeen = 0, dr_drained = 0\<rparr>"

definition read_drain :: "(nat \<Rightarrow> fetch) \<Rightarrow> readrequest \<Rightarrow> instant \<Rightarrow> nat \<Rightarrow> jstream \<Rightarrow> jmsg list \<Rightarrow> drain" where
  "read_drain fetch req now startSeq S view =
     (if 0 < length (js_Msgs S) \<and> startSeq \<le> js_LastSeq S
      then drain_loop fetch 0 (js_LastSeq S - startSeq + 1) (since_cutoff req now) (rr_HeadLimit req) view no_drain
      else no_drain)"

definition more_unread :: "readrequest \<Rightarrow> jstream \<Rightarrow> drain \<Rightarrow> nat" where
  "more_unread req S d =
     (if 0 < rr_HeadLimit req \<and> rr_HeadLimit req \<le> int (length (dr_retained d)) \<and> dr_lastSeqSeen d < js_LastSeq S
      then js_LastSeq S - dr_lastSeqSeen d else 0)"

definition read_slice :: "readrequest \<Rightarrow> 'a list \<Rightarrow> 'a list" where
  "read_slice req xs =
     (let xs' = (if 0 < rr_Skip req \<and> rr_Skip req < int (length xs) then drop (nat (rr_Skip req)) xs
                 else if int (length xs) \<le> rr_Skip req then [] else xs)
      in if 0 < rr_Limit req \<and> rr_Limit req < int (length xs') then drop (nat (int (length xs') - rr_Limit req)) xs' else xs')"

section \<open>Delivering and following\<close>

text \<open>Writing to the caller's socket: the encoder stops for good at its first error.\<close>

fun encode_all :: "(nat \<Rightarrow> bool) \<Rightarrow> nat \<Rightarrow> 'a list \<Rightarrow> 'a list \<times> bool" where
  "encode_all sock k [] = ([], True)"
| "encode_all sock k (x # xs) =
     (if sock k then (case encode_all sock (Suc k) xs of (ys, ok) \<Rightarrow> (x # ys, ok)) else ([], False))"

record read_env =
  re_now :: instant
  re_get :: "string option"
  re_load :: "nat \<Rightarrow> string option"
  re_save :: "nat \<Rightarrow> string option"
  re_info :: bool
  re_consumer :: bool
  re_fetch :: "nat \<Rightarrow> fetch"
  re_sock :: "nat \<Rightarrow> bool"
  re_follow :: bool
  re_ackID :: "nat \<Rightarrow> uuid"

record read_out =
  ro_events :: "readevent list"
  ro_sent :: "jmsg list"
  ro_cursors :: cursors
  ro_acks :: "(string \<times> string \<times> envelope) list"

definition advances :: "readrequest \<Rightarrow> bool" where
  "advances req \<longleftrightarrow> \<not> rr_NoAdvance req \<and> \<not> rr_All req"

definition acks_for :: "read_env \<Rightarrow> readrequest \<Rightarrow> daemon_state \<Rightarrow> jmsg list \<Rightarrow> (string \<times> string \<times> envelope) list" where
  "acks_for E req st ms =
     emitAcks (re_ackID E) 0 (senderForRequest (rr_Sender req) (Current (rr_Session req) st)) (re_now E)
       (map read_message (map (the \<circ> jm_env) ms))"

text \<open>The callback of the live consumer, message by message, until the socket fails.\<close>

fun follow_loop ::
  "read_env \<Rightarrow> readrequest \<Rightarrow> daemon_state \<Rightarrow> string \<Rightarrow> int \<Rightarrow> nat \<Rightarrow> jmsg list \<Rightarrow> read_out \<Rightarrow> read_out"
where
  "follow_loop E req st key created k [] out = out"
| "follow_loop E req st key created k (m # ms) out =
     (case jm_env m of None \<Rightarrow> follow_loop E req st key created (Suc k) ms out
      | Some env \<Rightarrow>
          if \<not> re_sock E (length (ro_events out)) then out
          else
            follow_loop E req st key created (Suc k) ms
              \<lparr>ro_events = ro_events out @ [MessageEvent (read_message env)],
               ro_sent = ro_sent out @ [m],
               ro_cursors = (if advances req \<and> jm_meta m
                 then snd (Advance (re_load E k) (re_save E k) (rr_Session req) key (jm_seq m) created (ro_cursors out))
                 else ro_cursors out),
               ro_acks = (if advances req then ro_acks out @ acks_for E req st [m] else ro_acks out)\<rparr>)"

definition follow_from :: "nat \<times> instant option \<Rightarrow> nat \<Rightarrow> (nat \<Rightarrow> instant) \<Rightarrow> jmsg \<Rightarrow> bool" where
  "follow_from start lastSeqSeen stored m \<longleftrightarrow>
     (case snd start of None \<Rightarrow> max (lastSeqSeen + 1) (fst start) \<le> jm_seq m
      | Some t \<Rightarrow> t \<le> stored (jm_seq m))"

text \<open>Draining and sending: the events written, the messages among them, and whether all were written.\<close>

record history =
  hi_drain :: drain
  hi_kept :: "jmsg list"
  hi_sent :: "jmsg list"
  hi_ok :: bool
  hi_events :: "readevent list"

definition read_history :: "read_env \<Rightarrow> readrequest \<Rightarrow> readevent list \<Rightarrow> nat \<Rightarrow> jstream \<Rightarrow> jmsg list \<Rightarrow> history" where
  "read_history E req meta startSeq S view =
     (let d = read_drain (re_fetch E) req (re_now E) startSeq S (filter (\<lambda>m. startSeq \<le> jm_seq m) view);
          kept = read_slice req (dr_retained d);
          more = more_unread req S d;
          (sent, ok) = encode_all (re_sock E) (length meta) kept;
          ok2 = (ok \<and> (0 < more \<longrightarrow> re_sock E (length meta + length kept)))
      in \<lparr>hi_drain = d, hi_kept = kept, hi_sent = sent, hi_ok = ok2,
          hi_events = meta @ message_events sent @ (if 0 < more \<and> ok2 then [MoreUnreadEvent more] else [])\<rparr>)"

text \<open>Advancing the cursor past what was delivered, then acknowledging it.\<close>

definition read_advance :: "read_env \<Rightarrow> readrequest \<Rightarrow> daemon_state \<Rightarrow> string \<Rightarrow> int \<Rightarrow> history \<Rightarrow> cursors \<Rightarrow> read_out" where
  "read_advance E req st key created h C =
     (let adv = (advances req \<and> 0 < dr_lastSeqSeen (hi_drain h))
      in \<lparr>ro_events = hi_events h, ro_sent = hi_sent h,
          ro_cursors = (if adv
            then snd (Advance (re_load E 0) (re_save E 0) (rr_Session req) key (dr_lastSeqSeen (hi_drain h)) created C) else C),
          ro_acks = (if adv then acks_for E req st (hi_kept h) else [])\<rparr>)"

definition meta_events :: "readrequest \<Rightarrow> (int \<times> int) option \<Rightarrow> readevent list" where
  "meta_events req resize =
     (case resize of None \<Rightarrow> []
      | Some (cols, rows) \<Rightarrow> if rr_BareTarget req = '''' \<and> rr_Channel req = ''stdout'' then [MetaEvent cols rows] else [])"

text \<open>
  A read on a stream: \<open>view\<close> and \<open>live\<close> are the messages of the stream while it is drained and while
  it is followed, \<open>stored\<close> the time the broker stored a message.
\<close>

definition read_serve ::
  "read_env \<Rightarrow> readrequest \<Rightarrow> daemon_state \<Rightarrow> string \<Rightarrow> (int \<times> int) option \<Rightarrow> jstream \<Rightarrow> jmsg list \<Rightarrow> jmsg list
   \<Rightarrow> (nat \<Rightarrow> instant) \<Rightarrow> cursors \<Rightarrow> read_out"
where
  "read_serve E req st key resize S view live stored C =
     (let idle = \<lparr>ro_events = [], ro_sent = [], ro_cursors = C, ro_acks = []\<rparr>;
          meta = meta_events req resize;
          start = read_start req (GetEntry (re_get E) (rr_Session req) key C) S
      in if \<not> re_info E then idle\<lparr>ro_events := [ErrorEvent (New_err ENATSUnreachable)]\<rparr>
         else if 0 < length (js_Msgs S) \<and> fst start \<le> js_LastSeq S \<and> \<not> re_consumer E
         then idle\<lparr>ro_events := meta @ [ErrorEvent (New_err ENATSUnreachable)]\<rparr>
         else
     (let h = read_history E req meta (fst start) S view
      in if \<not> hi_ok h then idle\<lparr>ro_events := hi_events h, ro_sent := hi_sent h\<rparr>
         else
     (let out = read_advance E req st key (js_Created S) h C
      in if \<not> rr_Follow req \<or> \<not> re_follow E then out
         else follow_loop E req st key (js_Created S) 1
                (filter (follow_from start (dr_lastSeqSeen (hi_drain h)) stored) live) out)))"

text \<open>The cursor key of a request, and the whole of \<open>handleRead\<close>.\<close>

definition read_key :: "uuid \<Rightarrow> readrequest \<Rightarrow> daemon_state \<Rightarrow> string" where
  "read_key accountID req st =
     (if rr_BareTarget req \<noteq> '''' then uncollaredCursorKey (read_subject accountID req st)
      else CursorKey accountID (rr_Handle req) (rr_Channel req))"

definition handleRead ::
  "open_env \<Rightarrow> read_env \<Rightarrow> string + readrequest \<Rightarrow> daemon_state \<Rightarrow> (int \<times> int) option \<Rightarrow> jmsg list \<Rightarrow> jmsg list
   \<Rightarrow> (nat \<Rightarrow> instant) \<Rightarrow> cursors \<Rightarrow> read_out"
where
  "handleRead Q E params st resize view live stored C =
     (case params of
        Inl t \<Rightarrow> \<lparr>ro_events = [ErrorEvent \<lparr>Code = ''E_PROTOCOL'', Message = t\<rparr>], ro_sent = [], ro_cursors = C, ro_acks = []\<rparr>
      | Inr req \<Rightarrow>
          case read_open Q req st of
            Inl e \<Rightarrow> \<lparr>ro_events = [ErrorEvent e], ro_sent = [], ro_cursors = C, ro_acks = []\<rparr>
          | Inr (accountID, S) \<Rightarrow>
              read_serve E req st (read_key accountID req st) resize S view live stored C)"


section \<open>The size of a shared terminal\<close>

text \<open>\<open>decode\<close> reads the JSON of a resize: its type, columns and rows.\<close>

definition latestStdctrlResize ::
  "(string \<Rightarrow> (string \<times> int \<times> int) option) \<Rightarrow> js_error + jstream \<Rightarrow> bool \<Rightarrow> bool \<Rightarrow> (int \<times> int) option"
where
  "latestStdctrlResize decode stream info_ok get_ok =
     (case stream of Inl _ \<Rightarrow> None
      | Inr S \<Rightarrow>
          if \<not> info_ok \<or> length (js_Msgs S) = 0 then None
          else if \<not> get_ok then None
          else
     (case find (\<lambda>m. jm_seq m = js_LastSeq S) (js_Msgs S) of None \<Rightarrow> None
      | Some m \<Rightarrow>
     (case jm_env m of None \<Rightarrow> None
      | Some env \<Rightarrow>
     (case decode (en_Payload env) of None \<Rightarrow> None
      | Some (typ, cols, rows) \<Rightarrow>
          if typ \<noteq> ''resize'' \<or> cols \<le> 0 \<or> rows \<le> 0 then None
          else Some (if 1000 < cols then 1000 else cols, if 1000 < rows then 1000 else rows)))))"

section \<open>What a listing counts as unread\<close>

definition pipe_unread :: "cursor_entry \<Rightarrow> jstream \<Rightarrow> nat" where
  "pipe_unread entry S =
     (let cursor = effectiveCursor entry (js_Created S) (js_LastSeq S)
      in if cursor < js_LastSeq S then min (js_LastSeq S - cursor) (length (js_Msgs S)) else 0)"

end
