(* ===== verification/DaemonList.thy ===== *)
theory DaemonList
  imports DaemonSubs Preview DaemonRead
begin

text \<open>
  Listings and waiting: \<open>internal/daemon/list_snapshot.go\<close>, \<open>list_watch.go\<close>, the subscription snapshot
  and \<open>handleSubsWait\<close> of \<open>handlers_subs.go\<close>, and \<open>handleList\<close>, \<open>handleComplete\<close> and their helpers of
  \<open>handlers.go\<close>.

  What a listing asks for while it runs is the record \<open>list_env\<close>: the answers of the server, the outcome
  of opening JetStream, its stream listing, the information on single streams and the last messages.
  Previews are fetched concurrently; each goes to the row that asked for it, so they are applied there.
\<close>

section \<open>Rows\<close>

record pipeinfo =
  pi_Pipe :: string
  pi_Total :: nat
  pi_Unread :: nat
  pi_LastSeq :: nat
  pi_LastAt :: "instant option"
  pi_Preview :: string
  pi_Payload :: string
  pi_CreatedBy :: string
  pi_TTLSeconds :: int
  pi_MaxMsgs :: int
  pi_MaxBytes :: int
  pi_MatchedBy :: "string list"

record list_source =
  ls_Handle :: string
  ls_Manifold :: string
  ls_Kind :: string
  ls_Pipes :: "string list"
  ls_PipeInfos :: "pipeinfo list"
  ls_CreatedBy :: string
  ls_LastBroadcastAt :: "instant option"
  ls_LastBroadcastPayload :: "string option"

record uncollaredpipe =
  up_Manifold :: string
  up_Name :: string
  up_Info :: pipeinfo

record listreply =
  lr_Sources :: "list_source list"
  lr_UncollaredPipes :: "uncollaredpipe list"
  lr_Subscriptions :: "string list"

definition empty_reply :: listreply where
  "empty_reply = \<lparr>lr_Sources = [], lr_UncollaredPipes = [], lr_Subscriptions = []\<rparr>"

definition bare_info :: "string \<Rightarrow> pipeinfo" where
  "bare_info pipe =
     \<lparr>pi_Pipe = pipe, pi_Total = 0, pi_Unread = 0, pi_LastSeq = 0, pi_LastAt = None, pi_Preview = '''', pi_Payload = '''',
      pi_CreatedBy = '''', pi_TTLSeconds = 0, pi_MaxMsgs = 0, pi_MaxBytes = 0, pi_MatchedBy = []\<rparr>"

definition pipesForKind :: "string \<Rightarrow> string list" where
  "pipesForKind kind =
     (if kind = ''pty'' then [''heartbeat'', ''inbox'', ''stdctrl'', ''stdin'', ''stdout'', ''system''] else [''inbox''])"

definition pipesForSource :: "list_source \<Rightarrow> string list" where
  "pipesForSource s = sort (remdups (pipesForKind (ls_Kind s) @ ls_Pipes s))"

section \<open>Matching\<close>

definition matchAnyTarget :: "string \<Rightarrow> string \<Rightarrow> string list \<Rightarrow> bool" where
  "matchAnyTarget handle pipe patterns =
     (if patterns = [] then True
      else (let target = (if handle \<noteq> '''' then handle @ ''.'' @ pipe else pipe)
            in list_ex (\<lambda>raw. sub_matches raw target) patterns))"

definition matchedSubjects :: "string \<Rightarrow> string \<Rightarrow> string list \<Rightarrow> string list" where
  "matchedSubjects handle pipe subjects = sort (filter (\<lambda>s. matchAnyTarget handle pipe [s]) subjects)"

text \<open>The splits of a wire subject into handle and pipe that a watch tries.\<close>

definition parseSubjectInterpretations :: "string \<Rightarrow> (string \<times> string) list" where
  "parseSubjectInterpretations subject =
     (let parts = split_dots subject
      in if length parts < 2 then []
         else (let rest = tl parts
               in if length rest = 1 then [('''', rest ! 0)]
                  else if length rest = 2 then [(rest ! 0, rest ! 1), ('''', join_dots rest)]
                  else [(rest ! (length rest - 2), last rest), ('''', join_dots rest), (join_dots (butlast rest), last rest)]))"

text \<open>The callback of a watch: does a message on the subject wake it?\<close>

definition watch_wakes :: "string list \<Rightarrow> string \<Rightarrow> bool" where
  "watch_wakes patterns subject = list_ex (\<lambda>(h, p). matchAnyTarget h p patterns) (parseSubjectInterpretations subject)"

text \<open>The subject both waits subscribe to.\<close>

definition watch_subject :: "uuid \<Rightarrow> string" where
  "watch_subject accountID = accountID @ ''.>''"

definition hasUnread :: "listreply \<Rightarrow> bool" where
  "hasUnread reply \<longleftrightarrow>
     list_ex (\<lambda>s. list_ex (\<lambda>p. 0 < pi_Unread p) (ls_PipeInfos s)) (lr_Sources reply)
     \<or> list_ex (\<lambda>u. 0 < pi_Unread (up_Info u)) (lr_UncollaredPipes reply)"

section \<open>Stream information\<close>

record streaminfo =
  si_Created :: int
  si_Msgs :: nat
  si_LastSeq :: nat
  si_LastTime :: instant
  si_MaxAge :: duration
  si_MaxMsgs :: int
  si_MaxBytes :: int

record list_env =
  lq_Sources :: "cerror + list_source list"
  lq_JS :: "cerror option"
  lq_Listed :: "(string \<times> streaminfo) list"
  lq_ListErr :: "js_error option"
  lq_Stream :: "string \<Rightarrow> streaminfo option"
  lq_GetMsg :: "string \<Rightarrow> nat \<Rightarrow> (envelope option \<times> instant) option"
  lq_Pipes :: "cerror + (string \<times> string \<times> string) list"
  lq_Enforced :: bool
  lq_CursorFault :: "string option"

definition js_error_text :: "js_error \<Rightarrow> string" where
  "js_error_text e =
     (case e of StreamNotFound \<Rightarrow> ''nats: API error: code=404 err_code=10059 description=stream not found''
      | Timeout \<Rightarrow> ''nats: timeout'' | Deadline \<Rightarrow> ''context deadline exceeded''
      | ConnectionClosed \<Rightarrow> ''nats: connection closed'' | NoServers \<Rightarrow> ''nats: no servers available for connection''
      | PermissionViolation \<Rightarrow> ''nats: permissions violation'' | OtherError t \<Rightarrow> t)"

definition lower_ascii :: "string \<Rightarrow> string" where
  "lower_ascii s = map (\<lambda>c. if 65 \<le> (of_char c :: nat) \<and> (of_char c :: nat) \<le> 90 then char_of (of_char c + 32 :: nat) else c) s"

definition isEnumerationDenied :: "js_error \<Rightarrow> bool" where
  "isEnumerationDenied err \<longleftrightarrow>
     (if err = PermissionViolation \<or> err = Timeout \<or> err = Deadline then True
      else contains_text (lower_ascii (js_error_text err)) ''permission'')"

definition streamInfoByName :: "list_env \<Rightarrow> js_error + (string \<rightharpoonup> streaminfo)" where
  "streamInfoByName Q =
     (case lq_ListErr Q of
        None \<Rightarrow> Inr (map_of (rev (lq_Listed Q)))
      | Some err \<Rightarrow> if lq_Enforced Q \<and> isEnumerationDenied err then Inr Map.empty else Inl err)"

text \<open>The streams of all pipes, asked for one by one; what is refused, gone or too slow is missing.\<close>

definition perStreamInfo :: "list_env \<Rightarrow> uuid \<Rightarrow> list_source list \<Rightarrow> (string \<rightharpoonup> streaminfo)" where
  "perStreamInfo Q accountID srcs =
     (let names = concat (map (\<lambda>s. map (BuildStreamName accountID (ls_Manifold s) (ls_Handle s)) (pipesForSource s)) srcs)
      in (\<lambda>name. if name \<in> set names then lq_Stream Q name else None))"

definition applyRetention :: "streaminfo \<Rightarrow> pipeinfo \<Rightarrow> pipeinfo" where
  "applyRetention si info =
     info\<lparr>pi_TTLSeconds := go_div (si_MaxAge si) second, pi_MaxMsgs := si_MaxMsgs si, pi_MaxBytes := si_MaxBytes si\<rparr>"

definition daemonCursorKey :: "uuid \<Rightarrow> string \<Rightarrow> string \<Rightarrow> string" where
  "daemonCursorKey accountID handle pipe = CursorKey accountID handle pipe"

definition cursorSnapshot :: "string option \<Rightarrow> string \<Rightarrow> cursors \<Rightarrow> (string \<rightharpoonup> cursor_entry)" where
  "cursorSnapshot flt sess C = (case loadLocked flt (session sess) C of Inl _ \<Rightarrow> Map.empty | Inr m \<Rightarrow> m)"

text \<open>The unread count: what lies behind the cursor, at most what is buffered.\<close>

definition unread_count :: "cursor_entry \<Rightarrow> streaminfo \<Rightarrow> nat" where
  "unread_count entry si =
     (let cursor = effectiveCursor entry (si_Created si) (si_LastSeq si)
      in if cursor < si_LastSeq si then min (si_LastSeq si - cursor) (si_Msgs si) else 0)"

definition with_preview :: "(envelope option \<times> instant) option \<Rightarrow> pipeinfo \<Rightarrow> pipeinfo" where
  "with_preview msg info =
     (case msg of Some (Some env, _) \<Rightarrow> info\<lparr>pi_Preview := TruncatePayload (en_Payload env), pi_Payload := en_Payload env\<rparr>
      | _ \<Rightarrow> info)"

definition enrich_pipe ::
  "list_env \<Rightarrow> uuid \<Rightarrow> (string \<rightharpoonup> streaminfo) \<Rightarrow> (string \<rightharpoonup> cursor_entry) \<Rightarrow> bool \<Rightarrow> list_source \<Rightarrow> string \<Rightarrow> pipeinfo"
where
  "enrich_pipe Q accountID infos cursors long s p =
     (let creators = map_of (rev (map (\<lambda>i. (pi_Pipe i, pi_CreatedBy i)) (filter (\<lambda>i. pi_CreatedBy i \<noteq> '''') (ls_PipeInfos s))));
          info = (bare_info p)\<lparr>pi_CreatedBy := or_empty (creators p)\<rparr>;
          streamName = BuildStreamName accountID (ls_Manifold s) (ls_Handle s) p
      in case infos streamName of
           None \<Rightarrow> info
         | Some si \<Rightarrow>
             (let info1 = (if long then applyRetention si info else info);
                  info2 = info1\<lparr>pi_Total := si_Msgs si, pi_LastSeq := si_LastSeq si,
                                pi_LastAt := (if si_LastTime si \<noteq> 0 then Some (si_LastTime si) else None),
                                pi_Unread := unread_count (or_zero_entry (cursors (daemonCursorKey accountID (ls_Handle s) p))) si\<rparr>
              in if 0 < si_LastSeq si then with_preview (lq_GetMsg Q streamName (si_LastSeq si)) info2 else info2))"

definition enrichSourcesWithPipeInfo ::
  "list_env \<Rightarrow> uuid \<Rightarrow> string list \<Rightarrow> (string \<rightharpoonup> cursor_entry) \<Rightarrow> bool \<Rightarrow> list_source list \<Rightarrow> js_error + list_source list"
where
  "enrichSourcesWithPipeInfo Q accountID patterns cursors long srcs =
     (case (if lq_Enforced Q then Inr (perStreamInfo Q accountID srcs) else streamInfoByName Q) of
        Inl err \<Rightarrow> Inl err
      | Inr infos \<Rightarrow>
          Inr (filter (\<lambda>s. \<not> (0 < length patterns \<and> length (ls_PipeInfos s) = 0))
            (map (\<lambda>s. s\<lparr>ls_PipeInfos := map (enrich_pipe Q accountID infos cursors long s)
                        (filter (\<lambda>p. matchAnyTarget (ls_Handle s) p patterns) (pipesForSource s))\<rparr>) srcs)))"

definition uncollaredPipeInfo ::
  "list_env \<Rightarrow> uuid \<Rightarrow> string \<Rightarrow> string \<Rightarrow> string \<Rightarrow> cursors \<Rightarrow> bool \<Rightarrow> pipeinfo"
where
  "uncollaredPipeInfo Q accountID manifold name sess C long =
     (let info = bare_info (FormatPipePath manifold '''' name);
          streamName = BuildStreamName accountID manifold '''' name
      in case lq_Stream Q streamName of
           None \<Rightarrow> info
         | Some si \<Rightarrow>
             (let info1 = (if long then applyRetention si info else info);
                  cursorKey = uncollaredCursorKey (BuildSubject accountID manifold '''' name);
                  info2 = info1\<lparr>pi_Total := si_Msgs si, pi_LastSeq := si_LastSeq si,
                                pi_Unread := unread_count (GetEntry (lq_CursorFault Q) sess cursorKey C) si\<rparr>
              in if si_LastSeq si = 0 then info2
                 else case lq_GetMsg Q streamName (si_LastSeq si) of
                   Some (Some env, t) \<Rightarrow>
                     (let info3 = with_preview (Some (Some env, t)) info2
                      in if t \<noteq> 0 then info3\<lparr>pi_LastAt := Some t\<rparr> else info3)
                 | _ \<Rightarrow> info2))"

section \<open>Caches filled from the list of sources\<close>

type_synonym completion = "(string \<times> string list) list option"

text \<open>The pipes of a source for tab completion: those of its kind, then the rest, each once.\<close>

fun dedupe :: "string list \<Rightarrow> string list \<Rightarrow> string list" where
  "dedupe seen [] = []"
| "dedupe seen (p # ps) = (if p \<in> set seen then dedupe seen ps else p # dedupe (p # seen) ps)"

definition refreshSourceCache :: "list_source list \<Rightarrow> daemon_state \<Rightarrow> daemon_state \<times> completion" where
  "refreshSourceCache srcs st =
     (ResetSources (map ls_Handle srcs) (map_of (rev (map (\<lambda>s. (ls_Handle s, ls_Manifold s)) srcs))) st,
      Some (map (\<lambda>s. (ls_Handle s, dedupe [] (pipesForKind (ls_Kind s) @ ls_Pipes s))) srcs))"

text \<open>The state a listing may change: the session state and the completion cache.\<close>

type_synonym list_state = "daemon_state \<times> completion"

section \<open>Listings\<close>

definition buildFilteredList ::
  "list_env \<Rightarrow> uuid \<Rightarrow> string \<Rightarrow> string list \<Rightarrow> bool \<Rightarrow> cursors \<Rightarrow> list_state \<Rightarrow> (cerror + listreply) \<times> list_state"
where
  "buildFilteredList Q accountID sess patterns long C st =
     (case lq_Sources Q of Inl e \<Rightarrow> (Inl e, st)
      | Inr srcs \<Rightarrow>
          (let st1 = refreshSourceCache srcs (fst st)
           in case lq_JS Q of Some e \<Rightarrow> (Inl e, st1)
            | None \<Rightarrow>
           (case enrichSourcesWithPipeInfo Q accountID patterns (cursorSnapshot (lq_CursorFault Q) sess C) long srcs of
              Inl err \<Rightarrow> (Inl (New_err ENATSUnreachable), st1)
            | Inr enriched \<Rightarrow>
           (case lq_Pipes Q of Inl e \<Rightarrow> (Inl e, st1)
            | Inr ucs \<Rightarrow>
               (Inr \<lparr>lr_Sources = enriched,
                  lr_UncollaredPipes =
                    map (\<lambda>(manifold, name, creator).
                        \<lparr>up_Manifold = manifold, up_Name = name,
                         up_Info = (uncollaredPipeInfo Q accountID manifold name sess C long)\<lparr>pi_CreatedBy := creator\<rparr>\<rparr>)
                      (filter (\<lambda>(manifold, name, creator). matchAnyTarget '''' (FormatPipePath manifold '''' name) patterns) ucs),
                  lr_Subscriptions = []\<rparr>, st1)))))"

text \<open>What the daemon needs before it lists: credentials, an account id and a connection.\<close>

record conn_env =
  cn_Creds :: bool
  cn_Account :: "uuid option"
  cn_NATS :: "cerror option"

definition bad_org :: cerror where
  "bad_org = \<lparr>Code = ''E_INTERNAL'', Message = ''bad org id''\<rparr>"

definition handleList ::
  "conn_env \<Rightarrow> list_env \<Rightarrow> string \<Rightarrow> string list \<Rightarrow> bool \<Rightarrow> cursors \<Rightarrow> list_state \<Rightarrow> (cerror + listreply) \<times> list_state"
where
  "handleList K Q sess patterns long C st =
     (if \<not> cn_Creds K then (Inl (New_err ENotLoggedIn), st)
      else if patterns \<noteq> [] then
        (case cn_NATS K of Some e \<Rightarrow> (Inl e, st)
         | None \<Rightarrow> (case cn_Account K of None \<Rightarrow> (Inl bad_org, st)
            | Some accountID \<Rightarrow> buildFilteredList Q accountID sess patterns long C st))
      else
        (case lq_Sources Q of Inl e \<Rightarrow> (Inl e, st)
         | Inr srcs \<Rightarrow>
             (let st1 = refreshSourceCache srcs (fst st)
              in case cn_NATS K of Some e \<Rightarrow> (Inl e, st1)
               | None \<Rightarrow>
              (case lq_JS Q of Some e \<Rightarrow> (Inl e, st1)
               | None \<Rightarrow>
              (case cn_Account K of None \<Rightarrow> (Inl bad_org, st1)
               | Some accountID \<Rightarrow>
              (case enrichSourcesWithPipeInfo Q accountID [] (cursorSnapshot (lq_CursorFault Q) sess C) long srcs of
                 Inl err \<Rightarrow> (Inl (New_err ENATSUnreachable), st1)
               | Inr enriched \<Rightarrow>
              (case lq_Pipes Q of Inl e \<Rightarrow> (Inl e, st1)
               | Inr ucs \<Rightarrow>
                  (Inr \<lparr>lr_Sources = enriched,
                     lr_UncollaredPipes =
                       map (\<lambda>(manifold, name, creator).
                           \<lparr>up_Manifold = manifold, up_Name = name,
                            up_Info = (uncollaredPipeInfo Q accountID manifold name sess C long)\<lparr>pi_CreatedBy := creator\<rparr>\<rparr>) ucs,
                     lr_Subscriptions = []\<rparr>, st1))))))))"

text \<open>\<open>handleComplete\<close>: sources with their pipes, and whether the cache is still cold.\<close>

definition handleComplete :: "bool \<Rightarrow> cerror + list_source list \<Rightarrow> list_state \<Rightarrow> ((string \<times> string list) list \<times> bool) \<times> list_state" where
  "handleComplete creds srcs st =
     (if \<not> creds then (([], True), st)
      else
        (let st1 = (if snd st \<noteq> None then st else case srcs of Inl e \<Rightarrow> st | Inr l \<Rightarrow> refreshSourceCache l (fst st))
         in ((case snd st1 of None \<Rightarrow> [] | Some l \<Rightarrow> l, snd st1 = None), st1)))"

section \<open>The snapshot of the subscriptions\<close>

text \<open>\<open>splitCollared\<close>: at the last dot, unless it is the first or the last character.\<close>

definition splitCollared :: "string \<Rightarrow> (string \<times> string) option" where
  "splitCollared subject =
     (let parts = split_dots subject; handle = join_dots (butlast parts); pipe = last parts
      in if length parts < 2 \<or> handle = '''' \<or> pipe = '''' then None else Some (handle, pipe))"

fun appendSyntheticPipe :: "list_source list \<Rightarrow> string \<Rightarrow> string \<Rightarrow> list_source list" where
  "appendSyntheticPipe [] handle pipe =
     [\<lparr>ls_Handle = handle, ls_Manifold = '''', ls_Kind = '''', ls_Pipes = [], ls_PipeInfos = [bare_info pipe],
       ls_CreatedBy = '''', ls_LastBroadcastAt = None, ls_LastBroadcastPayload = None\<rparr>]"
| "appendSyntheticPipe (s # ss) handle pipe =
     (if ls_Handle s = handle then s\<lparr>ls_PipeInfos := ls_PipeInfos s @ [bare_info pipe]\<rparr> # ss
      else s # appendSyntheticPipe ss handle pipe)"

text \<open>The subjects the listing already shows.\<close>

definition covered_subjects :: "listreply \<Rightarrow> string list" where
  "covered_subjects reply =
     concat (map (\<lambda>s. map (\<lambda>p. ls_Handle s @ ''.'' @ pi_Pipe p) (ls_PipeInfos s)) (lr_Sources reply))
     @ map (\<lambda>u. FormatPipePath (up_Manifold u) '''' (up_Name u)) (lr_UncollaredPipes reply)"

definition add_synthetic :: "string \<Rightarrow> listreply \<Rightarrow> listreply" where
  "add_synthetic subj reply =
     (case splitCollared subj of
        Some (handle, pipe) \<Rightarrow> reply\<lparr>lr_Sources := appendSyntheticPipe (lr_Sources reply) handle pipe\<rparr>
      | None \<Rightarrow> reply\<lparr>lr_UncollaredPipes :=
          lr_UncollaredPipes reply @ [\<lparr>up_Manifold = '''', up_Name = subj, up_Info = bare_info subj\<rparr>]\<rparr>)"

text \<open>\<open>sort.Slice\<close> leaves the order of equal keys open; here it is kept.\<close>

definition sortListReply :: "listreply \<Rightarrow> listreply" where
  "sortListReply r =
     r\<lparr>lr_Sources := map (\<lambda>s. s\<lparr>ls_PipeInfos := sort_key pi_Pipe (ls_PipeInfos s)\<rparr>) (sort_key ls_Handle (lr_Sources r)),
       lr_UncollaredPipes := sort_key (\<lambda>u. FormatPipePath (up_Manifold u) '''' (up_Name u)) (lr_UncollaredPipes r)\<rparr>"

definition attribute_rows :: "string list \<Rightarrow> listreply \<Rightarrow> listreply" where
  "attribute_rows subjects r =
     r\<lparr>lr_Sources := map (\<lambda>s. s\<lparr>ls_PipeInfos :=
            map (\<lambda>p. p\<lparr>pi_MatchedBy := matchedSubjects (ls_Handle s) (pi_Pipe p) subjects\<rparr>) (ls_PipeInfos s)\<rparr>) (lr_Sources r),
       lr_UncollaredPipes := map (\<lambda>u. u\<lparr>up_Info := (up_Info u)\<lparr>pi_MatchedBy := matchedSubjects '''' (up_Name u) subjects\<rparr>\<rparr>)
            (lr_UncollaredPipes r),
       lr_Subscriptions := subjects\<rparr>"

definition subs_rows :: "string list \<Rightarrow> listreply \<Rightarrow> listreply" where
  "subs_rows subjects reply =
     attribute_rows subjects (sortListReply
       (fold add_synthetic
         (filter (\<lambda>subj. \<not> (subj \<in> set (covered_subjects reply) \<or> IsGlobPattern subj)) subjects) reply))"

definition subsSnapshot ::
  "conn_env \<Rightarrow> list_env \<Rightarrow> string list \<Rightarrow> string \<Rightarrow> cursors \<Rightarrow> list_state \<Rightarrow> (cerror + listreply) \<times> list_state"
where
  "subsSnapshot K Q subjects sess C st =
     (if subjects = [] then (Inr empty_reply, st)
      else if \<not> cn_Creds K then (Inl (New_err ENotLoggedIn), st)
      else case cn_Account K of None \<Rightarrow> (Inl bad_org, st)
       | Some accountID \<Rightarrow>
      (case cn_NATS K of Some e \<Rightarrow> (Inl e, st)
       | None \<Rightarrow> map_prod (map_sum id (subs_rows subjects)) id (buildFilteredList Q accountID sess subjects False C st)))"

definition unreadOnly :: "listreply \<Rightarrow> listreply" where
  "unreadOnly r =
     \<lparr>lr_Sources = filter (\<lambda>s. ls_PipeInfos s \<noteq> [])
        (map (\<lambda>s. s\<lparr>ls_PipeInfos := filter (\<lambda>p. 0 < pi_Unread p) (ls_PipeInfos s)\<rparr>) (lr_Sources r)),
      lr_UncollaredPipes = filter (\<lambda>u. 0 < pi_Unread (up_Info u)) (lr_UncollaredPipes r), lr_Subscriptions = []\<rparr>"

section \<open>Waiting\<close>

text \<open>What ends the wait after a snapshot without unread rows.\<close>

datatype wait_end = Wakeup | ClientGone | CtxDone

text \<open>
  \<open>handleSubsWait\<close> and \<open>handleListWatch\<close>: \<open>arm\<close> is the outcome of the subscription, \<open>Q1\<close> and \<open>Q2\<close> the
  worlds of the two snapshots (with their connection outcomes and cursor files), and a caller that goes away
  gets no answer. In \<open>handleSubsWait\<close> every snapshot reads the subscriptions again.
\<close>

definition handleSubsWait ::
  "cerror option \<Rightarrow> wait_end \<Rightarrow> conn_env \<Rightarrow> conn_env \<times> list_env \<times> string list \<times> cursors \<Rightarrow> conn_env \<times> list_env \<times> string list \<times> cursors
   \<Rightarrow> string list \<Rightarrow> string \<Rightarrow> list_state \<Rightarrow> (cerror + listreply) option \<times> list_state"
where
  "handleSubsWait arm finish K W1 W2 subjects sess st =
     (if \<not> cn_Creds K then (Some (Inl (New_err ENotLoggedIn)), st)
      else if subjects = [] then (Some (Inr empty_reply), st)
      else case cn_Account K of None \<Rightarrow> (Some (Inl bad_org), st)
       | Some accountID \<Rightarrow>
      (case cn_NATS K of Some e \<Rightarrow> (Some (Inl e), st)
       | None \<Rightarrow>
      (case arm of Some e \<Rightarrow> (Some (Inl e), st)
       | None \<Rightarrow>
      (case W1 of (K1, Q1, subjects1, C1) \<Rightarrow>
      (case subsSnapshot K1 Q1 subjects1 sess C1 st of
         (Inl e, st1) \<Rightarrow> (Some (Inl e), st1)
       | (Inr reply, st1) \<Rightarrow>
           if hasUnread (unreadOnly reply) then (Some (Inr (unreadOnly reply)), st1)
           else if finish \<noteq> Wakeup then (None, st1)
           else (case W2 of (K2, Q2, subjects2, C2) \<Rightarrow>
             (case subsSnapshot K2 Q2 subjects2 sess C2 st1 of
                (Inl e, st2) \<Rightarrow> (Some (Inl e), st2)
              | (Inr reply2, st2) \<Rightarrow> (Some (Inr (unreadOnly reply2)), st2))))))))"

definition handleListWatch ::
  "cerror option \<Rightarrow> wait_end \<Rightarrow> conn_env \<Rightarrow> list_env \<times> cursors \<Rightarrow> list_env \<times> cursors
   \<Rightarrow> string list \<Rightarrow> bool \<Rightarrow> string \<Rightarrow> list_state \<Rightarrow> (cerror + listreply) option \<times> list_state"
where
  "handleListWatch arm finish K W1 W2 patterns long sess st =
     (if \<not> cn_Creds K then (Some (Inl (New_err ENotLoggedIn)), st)
      else case cn_Account K of None \<Rightarrow> (Some (Inl bad_org), st)
       | Some accountID \<Rightarrow>
      (case cn_NATS K of Some e \<Rightarrow> (Some (Inl e), st)
       | None \<Rightarrow>
      (case arm of Some e \<Rightarrow> (Some (Inl e), st)
       | None \<Rightarrow>
      (case W1 of (Q1, C1) \<Rightarrow>
      (case buildFilteredList Q1 accountID sess patterns long C1 st of
         (Inl e, st1) \<Rightarrow> (Some (Inl e), st1)
       | (Inr reply, st1) \<Rightarrow>
           if hasUnread reply then (Some (Inr reply), st1)
           else if finish \<noteq> Wakeup then (None, st1)
           else (case W2 of (Q2, C2) \<Rightarrow>
             (case buildFilteredList Q2 accountID sess patterns long C2 st1 of
                (Inl e, st2) \<Rightarrow> (Some (Inl e), st2)
              | (Inr reply2, st2) \<Rightarrow> (Some (Inr reply2), st2))))))))"

end
