(* ===== verification/DaemonEvents.thy ===== *)
theory DaemonEvents
  imports Streams
begin

text \<open>
  The daemon's record of its broker connection: the ring of recent events (\<open>nats_events.go\<close>), the rotated
  log on disk (\<open>nats_events_persistence.go\<close>), the lifecycle log (\<open>lifecycle.go\<close>), the pattern detectors
  (\<open>nats_event_patterns.go\<close>) and what \<open>ppz status\<close> and \<open>ppz diagnostics\<close> read from them
  (\<open>handlers_diag.go\<close>).

  Files are lists of decoded lines; lines that do not parse are not in the lists. How many bytes a line takes
  is the argument \<open>nb\<close>; renaming may fail, which the argument \<open>ren\<close> says per generation.
\<close>

section \<open>Events and the ring\<close>

record natsevent =
  ev_V :: int
  ev_Type :: string
  ev_At :: instant
  ev_Caller :: string
  ev_NCID :: string
  ev_JWTExp :: int
  ev_Reason :: string

definition natsEventRingCap :: nat where "natsEventRingCap = 256"
definition NATSEventSchemaVersion :: int where "NATSEventSchemaVersion = 1"

record nats_ring =
  rg_events :: "natsevent list"
  rg_cap :: nat

definition newNATSEventRing :: "int \<Rightarrow> nats_ring" where
  "newNATSEventRing cap = \<lparr>rg_events = [], rg_cap = (if cap \<le> 0 then natsEventRingCap else nat cap)\<rparr>"

definition stamp_version :: "natsevent \<Rightarrow> natsevent" where
  "stamp_version ev = (if ev_V ev = 0 then ev\<lparr>ev_V := NATSEventSchemaVersion\<rparr> else ev)"

text \<open>\<open>Append\<close>: a full ring moves its events one place down and overwrites the last.\<close>

definition ring_Append :: "natsevent \<Rightarrow> nats_ring \<Rightarrow> nats_ring" where
  "ring_Append e r =
     (let ev = stamp_version e
      in if length (rg_events r) < rg_cap r then r\<lparr>rg_events := rg_events r @ [ev]\<rparr>
         else r\<lparr>rg_events := (tl (rg_events r) @ [last (rg_events r)])[length (rg_events r) - 1 := ev]\<rparr>)"

definition Snapshot_ring :: "nats_ring \<Rightarrow> natsevent list" where
  "Snapshot_ring r = rg_events r"

section \<open>The state line of ppz status\<close>

datatype nats_status = CONNECTED | CONNECTING | RECONNECTING | DISCONNECTED | CLOSED | OTHER_STATUS

definition natsStateString :: "nats_status option \<Rightarrow> string" where
  "natsStateString nc =
     (case nc of None \<Rightarrow> ''''
      | Some s \<Rightarrow> if s = CONNECTED then ''connected''
                  else if s = CONNECTING \<or> s = RECONNECTING then ''connecting''
                  else ''disconnected'')"

definition swapDropAttributionWindow :: duration where
  "swapDropAttributionWindow = 5 * second"

definition swapReason :: "string \<Rightarrow> string \<Rightarrow> string" where
  "swapReason oldID newID = ''old='' @ oldID @ '' new='' @ newID"

definition swapReasonRetired :: "string \<Rightarrow> string \<Rightarrow> bool" where
  "swapReasonRetired reason ncid = contains_text reason (''old='' @ ncid @ '' '')"

text \<open>The backward scan of \<open>swapAttributedDisconnect\<close>, over the events before the disconnect, last first.\<close>

fun attributed_scan :: "natsevent \<Rightarrow> natsevent list \<Rightarrow> bool" where
  "attributed_scan ev [] = False"
| "attributed_scan ev (e # es) =
     (if swapDropAttributionWindow < time_sub (ev_At ev) (ev_At e) then False
      else if ev_Type e = ''swap'' \<and> swapReasonRetired (ev_Reason e) (ev_NCID ev) then True
      else attributed_scan ev es)"

definition swapAttributedDisconnect :: "natsevent list \<Rightarrow> nat \<Rightarrow> bool" where
  "swapAttributedDisconnect events i =
     (if ev_NCID (events ! i) = '''' then False else attributed_scan (events ! i) (rev (take i events)))"

definition natsStatusSnapshot :: "nats_status option \<Rightarrow> nats_ring option \<Rightarrow> instant \<Rightarrow> string \<times> nat \<times> instant option" where
  "natsStatusSnapshot nc ring now =
     (case ring of None \<Rightarrow> (natsStateString nc, 0, None)
      | Some r \<Rightarrow>
          (let events = Snapshot_ring r; cutoff = now - hour
           in (natsStateString nc,
               length (filter (\<lambda>i. ev_Type (events ! i) = ''disconnect'' \<and> \<not> ev_At (events ! i) < cutoff
                                   \<and> \<not> swapAttributedDisconnect events i) [0..<length events]),
               if events = [] then None else Some (ev_At (last events)))))"

section \<open>Patterns\<close>

record patternhit =
  ph_Name :: string
  ph_At :: instant
  ph_Detail :: string

definition burstSwapWindow :: duration where "burstSwapWindow = 2 * second"
definition burstSwapMin :: nat where "burstSwapMin = 3"
definition authViolationProximity :: duration where "authViolationProximity = 60 * second"

fun uniqueCallers :: "string list \<Rightarrow> natsevent list \<Rightarrow> string list" where
  "uniqueCallers seen [] = []"
| "uniqueCallers seen (e # es) =
     (let c = (if ev_Caller e = '''' then ''?'' else ev_Caller e)
      in if c \<in> set seen then uniqueCallers seen es else c # uniqueCallers (c # seen) es)"

text \<open>
  The forward scan from the first swap of a cluster: how many swaps follow within the window, and how many
  events the cluster spans after the first. \<open>k\<close> counts the events passed.
\<close>

fun burst_scan :: "instant \<Rightarrow> nat \<Rightarrow> natsevent list \<Rightarrow> nat \<times> nat" where
  "burst_scan start k [] = (0, 0)"
| "burst_scan start k (e # es) =
     (if burstSwapWindow < time_sub (ev_At e) start then (0, 0)
      else let (count, span) = burst_scan start (Suc k) es
           in if ev_Type e = ''swap'' then (Suc count, max (Suc k) span) else (count, span))"

text \<open>The text of a hit is formatted by \<open>detail\<close> from the count, the window and the callers.\<close>

function detectBurstSwapStorm :: "(nat \<Rightarrow> duration \<Rightarrow> string list \<Rightarrow> string) \<Rightarrow> natsevent list \<Rightarrow> patternhit list" where
  "detectBurstSwapStorm detail [] = []"
| "detectBurstSwapStorm detail (e # es) =
     (if ev_Type e \<noteq> ''swap'' then detectBurstSwapStorm detail es
      else let (count, span) = burst_scan (ev_At e) 0 es
           in if burstSwapMin \<le> Suc count
              then \<lparr>ph_Name = ''burst-swap-storm'', ph_At = ev_At e,
                    ph_Detail = detail (Suc count) (time_sub (ev_At ((e # es) ! span)) (ev_At e)) (uniqueCallers [] (take (Suc span) (e # es)))\<rparr>
                   # detectBurstSwapStorm detail (drop span es)
              else detectBurstSwapStorm detail es)"
  by pat_completeness auto
termination
  by (relation "measure (\<lambda>(detail, es). length es)") auto

definition unix_time :: "int \<Rightarrow> instant" where
  "unix_time s = 62135596800000000000 + s * second"

definition lower_text :: "string \<Rightarrow> string" where
  "lower_text s = map (\<lambda>c. if 65 \<le> (of_char c :: nat) \<and> (of_char c :: nat) \<le> 90 then char_of (of_char c + 32 :: nat) else c) s"

text \<open>The violations, each with the disconnect before it; \<open>before\<close> holds the earlier events, last first.\<close>

fun detectPostRotationAuthViolation :: "(duration \<Rightarrow> string) \<Rightarrow> natsevent list \<Rightarrow> natsevent list \<Rightarrow> patternhit list" where
  "detectPostRotationAuthViolation detail before [] = []"
| "detectPostRotationAuthViolation detail before (ev # es) =
     (let rest = detectPostRotationAuthViolation detail (ev # before) es
      in if ev_Type ev \<noteq> ''closed'' then rest
         else if \<not> contains_text (lower_text (ev_Reason ev)) ''authorization violation'' then rest
         else case find (\<lambda>p. ev_Type p = ''disconnect'') before of
             None \<Rightarrow> rest
           | Some prior \<Rightarrow>
               if ev_JWTExp prior = 0 then rest
               else (let delta = time_sub (ev_At prior) (unix_time (ev_JWTExp prior))
                     in if delta < - authViolationProximity \<or> authViolationProximity < delta then rest
                        else \<lparr>ph_Name = ''post-rotation-auth-violation'', ph_At = ev_At prior, ph_Detail = detail delta\<rparr> # rest))"

text \<open>The insertion sort of \<open>detectPatterns\<close>: an element moves left past later ones.\<close>

fun insert_hit :: "patternhit \<Rightarrow> patternhit list \<Rightarrow> patternhit list" where
  "insert_hit h [] = [h]"
| "insert_hit h (x # xs) = (if ph_At h < ph_At x then x # insert_hit h xs else h # x # xs)"

definition sort_hits :: "patternhit list \<Rightarrow> patternhit list" where
  "sort_hits hits = rev (foldl (\<lambda>done h. insert_hit h done) [] hits)"

definition detectPatterns ::
  "(nat \<Rightarrow> duration \<Rightarrow> string list \<Rightarrow> string) \<Rightarrow> (duration \<Rightarrow> string) \<Rightarrow> natsevent list \<Rightarrow> patternhit list"
where
  "detectPatterns detail1 detail2 events =
     sort_hits (detectBurstSwapStorm detail1 events @ detectPostRotationAuthViolation detail2 [] events)"

section \<open>The log on disk\<close>

text \<open>The active file, then the rotated ones, newest first; an absent file is \<open>None\<close>.\<close>

record event_log =
  lg_active :: "natsevent list option"
  lg_gen1 :: "natsevent list option"
  lg_gen2 :: "natsevent list option"

definition natsEventLogMaxBytes :: nat where "natsEventLogMaxBytes = 10 * 1024 * 1024"
definition natsEventLogTailEntries :: nat where "natsEventLogTailEntries = 1024"
definition lifecycleLogCap :: nat where "lifecycleLogCap = 32"

definition file_bytes :: "(natsevent \<Rightarrow> nat) \<Rightarrow> natsevent list \<Rightarrow> nat" where
  "file_bytes nb evs = sum_list (map nb evs)"

text \<open>\<open>rotateIfTooBigLocked\<close>: the destination is removed before the rename, which may fail.\<close>

definition rotate_step2 :: "bool \<Rightarrow> event_log \<Rightarrow> event_log" where
  "rotate_step2 ok L =
     (case lg_gen1 L of None \<Rightarrow> L
      | Some f \<Rightarrow> if ok then L\<lparr>lg_gen2 := Some f, lg_gen1 := None\<rparr> else L\<lparr>lg_gen2 := None\<rparr>)"

definition rotate_step1 :: "bool \<Rightarrow> event_log \<Rightarrow> event_log" where
  "rotate_step1 ok L =
     (case lg_active L of None \<Rightarrow> L
      | Some f \<Rightarrow> if ok then L\<lparr>lg_gen1 := Some f, lg_active := None\<rparr> else L\<lparr>lg_gen1 := None\<rparr>)"

definition rotateIfTooBigLocked :: "(natsevent \<Rightarrow> nat) \<Rightarrow> bool \<times> bool \<Rightarrow> event_log \<Rightarrow> event_log" where
  "rotateIfTooBigLocked nb ren L =
     (case lg_active L of None \<Rightarrow> L
      | Some f \<Rightarrow> if file_bytes nb f < natsEventLogMaxBytes then L
                  else rotate_step1 (snd ren) (rotate_step2 (fst ren) L))"

definition appendNATSEventLog ::
  "(natsevent \<Rightarrow> nat) \<Rightarrow> bool \<times> bool \<Rightarrow> string option \<Rightarrow> natsevent \<Rightarrow> event_log \<Rightarrow> string option \<times> event_log"
where
  "appendNATSEventLog nb ren write e L =
     (let L1 = rotateIfTooBigLocked nb ren L
      in case write of Some err \<Rightarrow> (Some err, L1)
       | None \<Rightarrow> (None, L1\<lparr>lg_active := Some ((case lg_active L1 of None \<Rightarrow> [] | Some f \<Rightarrow> f) @ [stamp_version e])\<rparr>))"

definition file_events :: "natsevent list option \<Rightarrow> natsevent list" where
  "file_events f = (case f of None \<Rightarrow> [] | Some evs \<Rightarrow> evs)"

definition tailNATSEventLog :: "nat \<Rightarrow> event_log \<Rightarrow> natsevent list" where
  "tailNATSEventLog n L =
     (let evs = file_events (lg_active L) in if n < length evs then drop (length evs - n) evs else evs)"

definition scanNATSEventLog :: "instant \<Rightarrow> event_log \<Rightarrow> natsevent list" where
  "scanNATSEventLog since L =
     filter (\<lambda>ev. \<not> ev_At ev < since) (file_events (lg_gen2 L))
     @ filter (\<lambda>ev. \<not> ev_At ev < since) (file_events (lg_gen1 L))
     @ filter (\<lambda>ev. \<not> ev_At ev < since) (file_events (lg_active L))"

definition appendLifecycleLog :: "string option \<Rightarrow> natsevent \<Rightarrow> natsevent list \<Rightarrow> string option \<times> natsevent list" where
  "appendLifecycleLog flt ev prev =
     (let p = prev @ [ev]; q = (if lifecycleLogCap < length p then drop (length p - lifecycleLogCap) p else p)
      in case flt of Some e \<Rightarrow> (Some e, prev) | None \<Rightarrow> (None, q))"

text \<open>\<open>reseedRingFromDisk\<close>: both logs in the order of their times, each event once by type, time and reason.\<close>

fun reseed :: "(string \<times> instant \<times> string) list \<Rightarrow> natsevent list \<Rightarrow> nats_ring \<Rightarrow> nats_ring" where
  "reseed seen [] r = r"
| "reseed seen (ev # evs) r =
     (let key = (ev_Type ev, ev_At ev, ev_Reason ev)
      in if key \<in> set seen then reseed seen evs r else reseed (key # seen) evs (ring_Append ev r))"

definition reseedRingFromDisk :: "natsevent list \<Rightarrow> event_log \<Rightarrow> nats_ring \<Rightarrow> nats_ring" where
  "reseedRingFromDisk lifecycle L r =
     reseed [] (sort_key ev_At (lifecycle @ tailNATSEventLog natsEventLogTailEntries L)) r"

section \<open>Diagnostics\<close>

definition stateEntryTypes :: "string \<Rightarrow> string list" where
  "stateEntryTypes state =
     (if state = ''connected'' then [''connect'', ''reconnect'']
      else if state = ''disconnected'' then [''disconnect'', ''closed'', ''daemon_start'']
      else [])"

definition stateSinceFrom :: "string \<Rightarrow> natsevent list \<Rightarrow> instant \<times> string" where
  "stateSinceFrom state events =
     (case find (\<lambda>e. ev_Type e \<in> set (stateEntryTypes state)) (rev events) of
        None \<Rightarrow> (0, '''') | Some e \<Rightarrow> (ev_At e, ev_Type e))"

definition diagEventWindow :: "int \<Rightarrow> event_log \<Rightarrow> nats_ring option \<Rightarrow> natsevent list" where
  "diagEventWindow sinceUnix L ring =
     (if 0 < sinceUnix then scanNATSEventLog (unix_time sinceUnix) L
      else case ring of None \<Rightarrow> [] | Some r \<Rightarrow> Snapshot_ring r)"

definition countNATSEventLog :: "event_log \<Rightarrow> nat" where
  "countNATSEventLog L = length (file_events (lg_active L))"

section \<open>The ring keeps the youngest events\<close>

lemma ring_Append_tail:
  assumes "0 < rg_cap r" "length (rg_events r) \<le> rg_cap r"
  shows "rg_events (ring_Append e r) =
    drop (length (rg_events r @ [stamp_version e]) - rg_cap r) (rg_events r @ [stamp_version e])"
proof (cases "length (rg_events r) < rg_cap r")
  case True
  then show ?thesis by (simp add: ring_Append_def Let_def)
next
  case False
  then have l: "length (rg_events r) = rg_cap r" using assms(2) by simp
  then obtain x xs where x: "rg_events r = x # xs" using assms(1) by (cases "rg_events r") auto
  have u: "(xs @ [y])[length xs := z] = xs @ [z]" for y z :: natsevent by (simp add: list_update_append)
  have c: "rg_cap r = Suc (length xs)" using l x by simp
  show ?thesis unfolding ring_Append_def Let_def using c by (simp only: x list.sel length_Cons) (simp add: u x c)
qed

lemma ring_Append_cap [simp]: "rg_cap (ring_Append e r) = rg_cap r"
  by (simp add: ring_Append_def Let_def)

lemma drop_tail_append:
  "drop (length (drop (length xs - c) xs @ [y]) - c) (drop (length xs - c) xs @ [y]) = drop (length (xs @ [y]) - c) (xs @ [y])"
proof (cases "length xs < c")
  case False
  then obtain ys zs where "xs = ys @ zs" "length zs = c" by (metis append_take_drop_id diff_diff_cancel length_drop not_less)
  then show ?thesis by simp
qed simp

lemma ring_run:
  assumes "0 < c" "rg_cap r = c" "rg_events r = drop (length past - c) past"
  shows "rg_events (fold ring_Append es r) = drop (length (past @ map stamp_version es) - c) (past @ map stamp_version es)"
  using assms
proof (induction es arbitrary: r past)
  case (Cons e es)
  have "rg_events (ring_Append e r) = drop (length (past @ [stamp_version e]) - c) (past @ [stamp_version e])"
    using ring_Append_tail [of r e] Cons.prems drop_tail_append [of past c "stamp_version e"] by simp
  with Cons.IH [of "ring_Append e r" "past @ [stamp_version e]"] Cons.prems show ?case by simp
qed simp

lemma ring_keeps_tail:
  assumes "c = (if cap \<le> 0 then natsEventRingCap else nat cap)"
  shows "Snapshot_ring (fold ring_Append es (newNATSEventRing cap)) = drop (length es - c) (map stamp_version es)"
  using ring_run [of c "newNATSEventRing cap" "[]" es] assms
  by (auto simp: Snapshot_ring_def newNATSEventRing_def natsEventRingCap_def)

section \<open>The log keeps the youngest events\<close>

definition retained :: "event_log \<Rightarrow> natsevent list" where
  "retained L = file_events (lg_gen2 L) @ file_events (lg_gen1 L) @ file_events (lg_active L)"

lemma retained_rotate: "suffix (retained (rotateIfTooBigLocked nb ren L)) (retained L)"
proof (cases "lg_active L")
  case None
  then show ?thesis by (simp add: rotateIfTooBigLocked_def)
next
  case (Some f)
  show ?thesis
    by (cases "lg_gen1 L"; cases "fst ren"; cases "snd ren")
      (auto simp: rotateIfTooBigLocked_def Some rotate_step1_def rotate_step2_def retained_def file_events_def suffix_def)
qed

lemma retained_append:
  "retained (snd (appendNATSEventLog nb ren write e L)) =
     retained (rotateIfTooBigLocked nb ren L) @ (if write = None then [stamp_version e] else [])"
  by (auto simp: appendNATSEventLog_def Let_def retained_def file_events_def split: option.split)

fun log_run :: "(natsevent \<Rightarrow> nat) \<Rightarrow> ((bool \<times> bool) \<times> string option \<times> natsevent) list \<Rightarrow> event_log \<Rightarrow> event_log" where
  "log_run nb [] L = L"
| "log_run nb ((ren, write, e) # rs) L = log_run nb rs (snd (appendNATSEventLog nb ren write e L))"

definition written :: "((bool \<times> bool) \<times> string option \<times> natsevent) list \<Rightarrow> natsevent list" where
  "written rs = map (\<lambda>(_, _, e). stamp_version e) (filter (\<lambda>(_, w, _). w = None) rs)"

lemma suffix_append_right: "suffix xs ys \<Longrightarrow> suffix (xs @ zs) (ys @ zs)"
  by (auto simp: suffix_def)

lemma log_run_suffix: "suffix (retained L) past \<Longrightarrow> suffix (retained (log_run nb rs L)) (past @ written rs)"
proof (induction rs arbitrary: L past)
  case (Cons x rs)
  obtain ren w e where x: "x = (ren, w, e)" by (cases x) auto
  let ?new = "if w = None then [stamp_version e] else []"
  have "suffix (retained (rotateIfTooBigLocked nb ren L)) past"
    using retained_rotate Cons.prems suffix_order.trans by blast
  then have "suffix (retained (snd (appendNATSEventLog nb ren w e L))) (past @ ?new)"
    unfolding retained_append by (rule suffix_append_right)
  from Cons.IH [OF this] show ?case by (cases w) (simp_all add: x written_def)
qed (simp add: written_def)

text \<open>Sizes while renaming works: a file never grows past the limit by more than a line.\<close>

definition bounded_file :: "(natsevent \<Rightarrow> nat) \<Rightarrow> nat \<Rightarrow> natsevent list option \<Rightarrow> bool" where
  "bounded_file nb line f \<longleftrightarrow> file_bytes nb (file_events f) < natsEventLogMaxBytes + line"

definition bounded_log :: "(natsevent \<Rightarrow> nat) \<Rightarrow> nat \<Rightarrow> event_log \<Rightarrow> bool" where
  "bounded_log nb line L \<longleftrightarrow> bounded_file nb line (lg_active L) \<and> bounded_file nb line (lg_gen1 L) \<and> bounded_file nb line (lg_gen2 L)"

lemma bounded_empty: "bounded_file nb line None"
  by (simp add: bounded_file_def file_events_def file_bytes_def natsEventLogMaxBytes_def)

lemma bounded_append:
  assumes L: "bounded_log nb line L" and e: "nb (stamp_version e) \<le> line"
  shows "bounded_log nb line (snd (appendNATSEventLog nb (True, True) write e L))"
proof -
  let ?R = "rotateIfTooBigLocked nb (True, True) L"
  have R: "bounded_log nb line ?R" using L bounded_empty
    by (auto simp: rotateIfTooBigLocked_def rotate_step1_def rotate_step2_def bounded_log_def split: option.split)
  have small: "file_bytes nb (file_events (lg_active ?R)) < natsEventLogMaxBytes"
  proof (cases "lg_active L")
    case None
    then show ?thesis by (simp add: rotateIfTooBigLocked_def file_events_def file_bytes_def natsEventLogMaxBytes_def)
  next
    case (Some f)
    show ?thesis
    proof (cases "file_bytes nb f < natsEventLogMaxBytes")
      case True
      then show ?thesis by (simp add: rotateIfTooBigLocked_def Some file_events_def)
    next
      case False
      then have "lg_active ?R = None"
        by (simp add: rotateIfTooBigLocked_def Some rotate_step1_def rotate_step2_def split: option.split)
      then show ?thesis by (simp add: file_events_def file_bytes_def natsEventLogMaxBytes_def)
    qed
  qed
  have act: "bounded_file nb line (Some (file_events (lg_active ?R) @ [stamp_version e]))"
    using small e by (simp add: bounded_file_def file_events_def file_bytes_def)
  then show ?thesis using R
    by (auto simp: appendNATSEventLog_def Let_def bounded_log_def file_events_def split: option.splits)
qed

lemma bounded_run:
  assumes "bounded_log nb line L" "list_all (\<lambda>(ren, w, e). ren = (True, True) \<and> nb (stamp_version e) \<le> line) rs"
  shows "bounded_log nb line (log_run nb rs L)"
  using assms
proof (induction rs arbitrary: L)
  case (Cons x rs)
  obtain ren w e where x: "x = (ren, w, e)" by (cases x) auto
  with Cons.prems have "ren = (True, True)" "nb (stamp_version e) \<le> line" by simp_all
  with bounded_append [OF Cons.prems(1)] Cons x show ?case by simp
qed simp

definition no_log :: event_log where
  "no_log = \<lparr>lg_active = None, lg_gen1 = None, lg_gen2 = None\<rparr>"

text \<open>Whatever renames and writes fail, the three generations of the event log read oldest first are the end
  of the sequence of events written, without holes and in order, so a scan since a time shows exactly the
  retained events from then on; while renames work no file exceeds the limit by a whole line; and the ring in
  memory holds exactly the youngest events.\<close>

theorem event_log_keeps_tail:
  assumes "list_all (\<lambda>(ren, w, e). nb (stamp_version e) \<le> line) rs"
    and "c = (if cap \<le> 0 then natsEventRingCap else nat cap)"
  shows "suffix (retained (log_run nb rs no_log)) (written rs)
    \<and> scanNATSEventLog since (log_run nb rs no_log) = filter (\<lambda>ev. since \<le> ev_At ev) (retained (log_run nb rs no_log))
    \<and> (list_all (\<lambda>(ren, w, e). ren = (True, True)) rs \<longrightarrow> bounded_log nb line (log_run nb rs no_log))
    \<and> Snapshot_ring (fold ring_Append es (newNATSEventRing cap)) = drop (length es - c) (map stamp_version es)"
proof -
  have "retained no_log = []" by (simp add: retained_def no_log_def file_events_def)
  then have "suffix (retained (log_run nb rs no_log)) (written rs)"
    using log_run_suffix [of no_log "[]" nb rs] by simp
  moreover have "scanNATSEventLog since L = filter (\<lambda>ev. since \<le> ev_At ev) (retained L)" for L
    by (simp add: scanNATSEventLog_def retained_def not_less)
  moreover have "bounded_log nb line no_log" using bounded_empty by (simp add: bounded_log_def no_log_def)
  then have "list_all (\<lambda>(ren, w, e). ren = (True, True)) rs \<Longrightarrow> bounded_log nb line (log_run nb rs no_log)"
    using assms(1) by (intro bounded_run) (auto simp: list_all_iff)
  ultimately show ?thesis using ring_keeps_tail [OF assms(2), of es] by simp
qed

definition ex_event :: "string \<Rightarrow> string \<Rightarrow> string \<Rightarrow> instant \<Rightarrow> natsevent" where
  "ex_event typ ncid reason t =
     \<lparr>ev_V = 1, ev_Type = typ, ev_At = t, ev_Caller = ''nats.go'', ev_NCID = ncid, ev_JWTExp = 0, ev_Reason = reason\<rparr>"

theorem event_log_keeps_tail_witness:
  "suffix (retained (log_run (\<lambda>_. 8000000)
      [((True, True), None, ex_event ''connect'' ''a'' '''' 1), ((True, True), None, ex_event ''warn'' ''a'' '''' 2),
       ((True, False), None, ex_event ''closed'' ''a'' '''' 3)] no_log))
    [ex_event ''connect'' ''a'' '''' 1, ex_event ''warn'' ''a'' '''' 2, ex_event ''closed'' ''a'' '''' 3]
   \<and> Snapshot_ring (fold ring_Append [ex_event ''connect'' ''a'' '''' 1, ex_event ''warn'' ''a'' '''' 2] (newNATSEventRing 1))
     = [ex_event ''warn'' ''a'' '''' 2]"
  using event_log_keeps_tail [of "\<lambda>_. 8000000" 8000000
      "[((True, True), None, ex_event ''connect'' ''a'' '''' 1), ((True, True), None, ex_event ''warn'' ''a'' '''' 2),
        ((True, False), None, ex_event ''closed'' ''a'' '''' 3)]" 1 1 0
      "[ex_event ''connect'' ''a'' '''' 1, ex_event ''warn'' ''a'' '''' 2]"]
  by (simp add: written_def stamp_version_def ex_event_def)

section \<open>Counting drops\<close>

text \<open>Connection ids as the daemon renders them hold no blank and no equals sign.\<close>

definition plain_id :: "string \<Rightarrow> bool" where
  "plain_id s \<longleftrightarrow> CHR '' '' \<notin> set s \<and> CHR ''='' \<notin> set s"

lemma contains_text_iff: "contains_text s t \<longleftrightarrow> (\<exists>u v. s = u @ t @ v)"
proof
  assume "contains_text s t"
  then obtain n where n: "has_prefix (drop n s) t" unfolding contains_text_def list_ex_iff by blast
  then obtain v where "drop n s = t @ v" by (auto simp: has_prefix_iff)
  then have "s = take n s @ t @ v" by (metis append_take_drop_id)
  then show "\<exists>u v. s = u @ t @ v" by blast
next
  assume "\<exists>u v. s = u @ t @ v"
  then obtain u v where s: "s = u @ t @ v" by blast
  then have "has_prefix (drop (length u) s) t" "length u < Suc (length s)" by (auto simp: has_prefix_iff)
  then show "contains_text s t" unfolding contains_text_def list_ex_iff by (metis atLeastLessThan_iff set_upt zero_le)
qed

text \<open>The two halves of the contract on the text of a swap: it names the connection it retired, and no other.\<close>

lemma swapReason_retired:
  assumes "plain_id old" "plain_id new" "plain_id ncid"
  shows "swapReasonRetired (swapReason old new) ncid \<longleftrightarrow> ncid = old"
proof
  assume "ncid = old"
  then show "swapReasonRetired (swapReason old new) ncid"
    unfolding swapReasonRetired_def contains_text_iff swapReason_def
    by (intro exI [of _ "[]"] exI [of _ "''new='' @ new"]) simp
next
  assume "swapReasonRetired (swapReason old new) ncid"
  then obtain u v where uv: "''old='' @ old @ '' new='' @ new = u @ (''old='' @ ncid @ '' '') @ v"
    by (auto simp: swapReasonRetired_def contains_text_iff swapReason_def)
  have "split_on CHR ''='' (''old'' @ CHR ''='' # (old @ '' new'') @ CHR ''='' # new) = [''old'', old @ '' new'', new]"
    using assms split_on_append_sep [of "CHR ''=''" "old @ '' new''" new]
    by (simp add: split_on_no_sep plain_id_def)
  moreover have "''old'' @ CHR ''='' # (old @ '' new'') @ CHR ''='' # new = (u @ ''old'') @ CHR ''='' # (ncid @ '' '' @ v)"
    using uv by simp
  ultimately have sp: "split_on CHR ''='' (u @ ''old'') @ split_on CHR ''='' (ncid @ '' '' @ v) = [''old'', old @ '' new'', new]"
    by (metis split_on_append)
  have old_end: "\<exists>w. last (split_on CHR ''='' (x @ ''old'')) = w @ ''old''" for x
    by (induction x) (auto split: list.splits)
  obtain q qs where q: "split_on CHR ''='' (ncid @ '' '' @ v) = q # qs" by (cases "split_on CHR ''='' (ncid @ '' '' @ v)") auto
  show "ncid = old"
  proof (cases "split_on CHR ''='' (u @ ''old'')" rule: rev_cases)
    case (snoc ps p)
    consider "ps = []" "p = ''old''" "q = old @ '' new''" | "p = old @ '' new''"
      using sp unfolding snoc q by (cases ps; cases "tl ps") auto
    then show ?thesis
    proof cases
      case 1
      have "\<exists>w. q = ncid @ '' '' @ w"
      proof (cases "CHR ''='' \<in> set v")
        case False
        then have "CHR ''='' \<notin> set (ncid @ '' '' @ v)" using assms(3) by (simp add: plain_id_def)
        then have "split_on CHR ''='' (ncid @ '' '' @ v) = [ncid @ '' '' @ v]" by (rule split_on_no_sep)
        with q show ?thesis by auto
      next
        case True
        then obtain v1 v2 where v: "v = v1 @ CHR ''='' # v2" "CHR ''='' \<notin> set v1" by (meson split_list_first)
        then have "CHR ''='' \<notin> set (ncid @ '' '' @ v1)" using assms(3) by (simp add: plain_id_def)
        from split_on_append_sep [OF this, of v2] q show ?thesis by (auto simp: v)
      qed
      then obtain w where "old @ CHR '' '' # ''new'' = ncid @ CHR '' '' # w" using 1(3) by auto
      then have "split_on CHR '' '' (old @ CHR '' '' # ''new'') = split_on CHR '' '' (ncid @ CHR '' '' # w)" by simp
      then show ?thesis using assms by (simp add: split_on_append_sep plain_id_def)
    next
      case 2
      with old_end [of u] snoc obtain w where "old @ '' new'' = w @ ''old''" by auto
      then have "last (old @ '' new'') = last (w @ ''old'')" by simp
      then show ?thesis by simp
    qed
  qed simp
qed

text \<open>In a log in the order of its times the backward scan finds any retiring swap in the window.\<close>

lemma attributed_scan_sorted:
  assumes "sorted_wrt (\<lambda>x y. ev_At y \<le> ev_At x) es"
  shows "attributed_scan ev es \<longleftrightarrow>
    (\<exists>e \<in> set es. ev_Type e = ''swap'' \<and> swapReasonRetired (ev_Reason e) (ev_NCID ev)
       \<and> time_sub (ev_At ev) (ev_At e) \<le> swapDropAttributionWindow)"
  using assms
proof (induction es)
  case (Cons e es)
  have mono: "time_sub (ev_At ev) (ev_At e) \<le> time_sub (ev_At ev) (ev_At x)" if "x \<in> set es" for x
    using Cons.prems that by (auto simp: time_sub_def max_i64_def min_i64_def)
  show ?case
  proof (cases "swapDropAttributionWindow < time_sub (ev_At ev) (ev_At e)")
    case True
    with mono show ?thesis by fastforce
  next
    case False
    with Cons show ?thesis by auto
  qed
qed simp

definition retired_by :: "natsevent list \<Rightarrow> nat \<Rightarrow> natsevent \<Rightarrow> bool" where
  "retired_by events i e \<longleftrightarrow> e \<in> set (take i events) \<and> ev_Type e = ''swap''
     \<and> swapReasonRetired (ev_Reason e) (ev_NCID (events ! i))
     \<and> time_sub (ev_At (events ! i)) (ev_At e) \<le> swapDropAttributionWindow"

lemma sorted_rev_take:
  "sorted (map ev_At events) \<Longrightarrow> sorted_wrt (\<lambda>x y. ev_At y \<le> ev_At x) (rev (take i events))"
proof -
  assume "sorted (map ev_At events)"
  then have "sorted (map ev_At (take i events))" by (metis sorted_wrt_take take_map)
  then show ?thesis by (simp add: sorted_map sorted_wrt_rev)
qed

text \<open>The drops of the last hour that \<open>ppz status\<close> shows are exactly the disconnects in the ring since then
  whose connection no swap of the five seconds before had retired; a swap retires the one connection it
  replaced, so the disconnect that follows a routine rotation is not counted and every other one is.\<close>

theorem drops_count_genuine:
  assumes "sorted (map ev_At (rg_events r))" and "plain_id old" and "plain_id new" and "plain_id ncid"
  shows "fst (snd (natsStatusSnapshot nc (Some r) now)) =
      card {i. i < length (rg_events r) \<and> ev_Type (rg_events r ! i) = ''disconnect'' \<and> now - hour \<le> ev_At (rg_events r ! i)
        \<and> (ev_NCID (rg_events r ! i) = '''' \<or> (\<forall>e. \<not> retired_by (rg_events r) i e))}
    \<and> (swapReasonRetired (swapReason old new) ncid \<longleftrightarrow> ncid = old)"
proof -
  let ?es = "rg_events r"
  have att: "swapAttributedDisconnect ?es i \<longleftrightarrow> ev_NCID (?es ! i) \<noteq> '''' \<and> (\<exists>e. retired_by ?es i e)" for i
    using attributed_scan_sorted [OF sorted_rev_take [OF assms(1)], of "?es ! i" i]
    by (auto simp: swapAttributedDisconnect_def retired_by_def)
  have "fst (snd (natsStatusSnapshot nc (Some r) now)) =
    length (filter (\<lambda>i. ev_Type (?es ! i) = ''disconnect'' \<and> \<not> ev_At (?es ! i) < now - hour \<and> \<not> swapAttributedDisconnect ?es i)
      [0..<length ?es])"
    by (simp add: natsStatusSnapshot_def Snapshot_ring_def Let_def)
  also have "\<dots> = card (set (filter (\<lambda>i. ev_Type (?es ! i) = ''disconnect'' \<and> \<not> ev_At (?es ! i) < now - hour
      \<and> \<not> swapAttributedDisconnect ?es i) [0..<length ?es]))"
    by (rule distinct_card [symmetric]) simp
  also have "\<dots> = card {i. i < length ?es \<and> ev_Type (?es ! i) = ''disconnect'' \<and> now - hour \<le> ev_At (?es ! i)
        \<and> (ev_NCID (?es ! i) = '''' \<or> (\<forall>e. \<not> retired_by ?es i e))}"
    by (rule arg_cong [of _ _ card]) (auto simp: att not_less)
  finally show ?thesis using swapReason_retired [OF assms(2-4)] by simp
qed

theorem drops_count_genuine_witness:
  "fst (snd (natsStatusSnapshot (Some CONNECTED) (Some \<lparr>rg_events =
      [ex_event ''swap'' ''0xb'' (swapReason ''0xa'' ''0xb'') 10, ex_event ''disconnect'' ''0xa'' '''' 20,
       ex_event ''disconnect'' ''0xb'' ''EOF'' 30], rg_cap = 256\<rparr>) 40)) = 1
   \<and> swapReasonRetired (swapReason ''0xa'' ''0xb'') ''0xa''"
proof -
  let ?r = "\<lparr>rg_events = [ex_event ''swap'' ''0xb'' (swapReason ''0xa'' ''0xb'') 10, ex_event ''disconnect'' ''0xa'' '''' 20,
       ex_event ''disconnect'' ''0xb'' ''EOF'' 30], rg_cap = 256\<rparr>"
  have "sorted (map ev_At (rg_events ?r))" by (simp add: ex_event_def)
  from drops_count_genuine [OF this, of "''0xa''" "''0xb''" "''0xa''"]
  have "swapReasonRetired (swapReason ''0xa'' ''0xb'') ''0xa''" by (simp add: plain_id_def)
  moreover have "fst (snd (natsStatusSnapshot (Some CONNECTED) (Some ?r) 40)) = 1" by code_simp
  ultimately show ?thesis by simp
qed

section \<open>Bursts\<close>

lemma burst_scan_count:
  assumes "sorted (map ev_At es)"
  shows "fst (burst_scan start k es) = length (filter (\<lambda>f. ev_Type f = ''swap'' \<and> time_sub (ev_At f) start \<le> burstSwapWindow) es)"
  using assms
proof (induction es arbitrary: k)
  case (Cons e es)
  have mono: "time_sub (ev_At e) start \<le> time_sub (ev_At x) start" if "x \<in> set es" for x
    using Cons.prems that by (auto simp: time_sub_def max_i64_def min_i64_def)
  show ?case
  proof (cases "burstSwapWindow < time_sub (ev_At e) start")
    case True
    then have "\<not> time_sub (ev_At x) start \<le> burstSwapWindow" if "x \<in> set es" for x using mono [OF that] by linarith
    then have "filter (\<lambda>f. ev_Type f = ''swap'' \<and> time_sub (ev_At f) start \<le> burstSwapWindow) es = []"
      by (auto simp: filter_empty_conv)
    with True show ?thesis by simp
  next
    case False
    with Cons show ?thesis by (simp add: Let_def case_prod_unfold)
  qed
qed simp

lemma both_true: "P \<Longrightarrow> A \<Longrightarrow> P \<longleftrightarrow> A \<or> B"
  by simp

lemma disj_not_left: "\<not> A \<Longrightarrow> B \<longleftrightarrow> A \<or> B"
  by simp

text \<open>On a log in the order of its times the burst detector reports a storm exactly when three swaps lie
  within two seconds, wherever they are and whatever lies between them.\<close>

theorem burst_detector_exact:
  assumes "sorted (map ev_At events)"
  shows "detectBurstSwapStorm detail events \<noteq> [] \<longleftrightarrow>
    (\<exists>p e s. events = p @ e # s \<and> ev_Type e = ''swap''
       \<and> 2 \<le> length (filter (\<lambda>f. ev_Type f = ''swap'' \<and> time_sub (ev_At f) (ev_At e) \<le> burstSwapWindow) s))"
    (is "_ \<longleftrightarrow> ?storm events")
  using assms
proof (induction events)
  case (Cons e es)
  have count: "fst (burst_scan (ev_At e) 0 es) =
      length (filter (\<lambda>f. ev_Type f = ''swap'' \<and> time_sub (ev_At f) (ev_At e) \<le> burstSwapWindow) es)"
    using burst_scan_count Cons.prems by simp
  let ?here = "ev_Type e = ''swap''
     \<and> 2 \<le> length (filter (\<lambda>f. ev_Type f = ''swap'' \<and> time_sub (ev_At f) (ev_At e) \<le> burstSwapWindow) es)"
  have split: "?storm (e # es) \<longleftrightarrow> ?here \<or> ?storm es"
    by (auto simp: Cons_eq_append_conv)
  have m: "burstSwapMin \<le> Suc (fst (burst_scan (ev_At e) 0 es)) \<longleftrightarrow> 2 \<le> fst (burst_scan (ev_At e) 0 es)"
    by (simp add: burstSwapMin_def)
  show ?case
  proof (cases ?here)
    case True
    then have "detectBurstSwapStorm detail (e # es) \<noteq> []"
      using count m by (simp add: Let_def case_prod_unfold)
    then show ?thesis unfolding split using True by (rule both_true)
  next
    case False
    have tail: "detectBurstSwapStorm detail (e # es) = detectBurstSwapStorm detail es"
      using False count m by (auto simp: Let_def case_prod_unfold)
    have "sorted (map ev_At es)" using Cons.prems by simp
    note IH = Cons.IH [OF this]
    show ?thesis unfolding tail IH split using False by (rule disj_not_left)
  qed
qed simp

theorem burst_detector_exact_witness:
  "detectBurstSwapStorm (\<lambda>_ _ _. ''storm'') [ex_event ''swap'' ''a'' '''' 0, ex_event ''closed'' ''a'' '''' 5,
      ex_event ''swap'' ''b'' '''' 1000000000, ex_event ''swap'' ''c'' '''' 2000000000] \<noteq> []"
proof -
  let ?es = "[ex_event ''swap'' ''a'' '''' 0, ex_event ''closed'' ''a'' '''' 5,
      ex_event ''swap'' ''b'' '''' 1000000000, ex_event ''swap'' ''c'' '''' 2000000000]"
  have s: "sorted (map ev_At ?es)" by (simp add: ex_event_def)
  have "?es = [] @ hd ?es # tl ?es" by simp
  moreover have "ev_Type (hd ?es) = ''swap''
    \<and> 2 \<le> length (filter (\<lambda>f. ev_Type f = ''swap'' \<and> time_sub (ev_At f) (ev_At (hd ?es)) \<le> burstSwapWindow) (tl ?es))"
    by (simp add: ex_event_def time_sub_def max_i64_def min_i64_def burstSwapWindow_def second_def)
  ultimately show ?thesis using burst_detector_exact [OF s] by blast
qed

end
