(* ===== verification/DaemonConn.thy ===== *)
theory DaemonConn
  imports DaemonEvents Errors
begin

text \<open>
  The daemon's broker connection: the refresh loop of its credential (\<open>internal/daemon/refresh.go\<close>), the
  classification of failed dials (\<open>nats_dial_error.go\<close>), replacing the connection and reacting to failures
  (\<open>rebuildNC\<close>, \<open>swapNC\<close>, \<open>reportNATSFailure\<close>, \<open>kickConnect\<close> of \<open>daemon.go\<close>), the follow registry
  (\<open>follow_registry.go\<close>) and the sleep watchdog (\<open>wake_watchdog.go\<close>).

  A connection is a number; \<open>cx_cred\<close> tells with which credential it was dialled. Exchanges with the
  server, dials, probes and the clock are arguments.
\<close>

section \<open>refresh.go\<close>

definition skewSeconds :: int where "skewSeconds = 30"
definition retryAfter :: duration where "retryAfter = 5 * second"

record refreshloop =
  rl_jwt :: string
  rl_seed :: string
  rl_expUnix :: int
  rl_gen :: nat
  rl_lastAt :: instant

datatype refresh_err = ErrUnauthorized | RefreshFailed string

type_synonym exchange = "refresh_err + string \<times> string \<times> int"

text \<open>\<open>Start\<close>, on a fresh loop.\<close>

definition refresh_Start :: "string \<Rightarrow> string \<Rightarrow> int \<Rightarrow> instant \<Rightarrow> refreshloop" where
  "refresh_Start jwt seed expUnix now = \<lparr>rl_jwt = jwt, rl_seed = seed, rl_expUnix = expUnix, rl_gen = 0, rl_lastAt = now\<rparr>"

definition Current_cred :: "refreshloop \<Rightarrow> string \<times> string" where
  "Current_cred r = (rl_jwt r, rl_seed r)"

text \<open>\<open>JWTExp\<close> and \<open>Generation\<close> of a loop that may be nil.\<close>

definition JWTExp :: "refreshloop option \<Rightarrow> int" where
  "JWTExp r = (case r of None \<Rightarrow> 0 | Some l \<Rightarrow> rl_expUnix l)"

definition Generation :: "refreshloop option \<Rightarrow> nat" where
  "Generation r = (case r of None \<Rightarrow> 0 | Some l \<Rightarrow> rl_gen l)"

text \<open>\<open>refreshNow\<close> up to the callback: the error it returns and the loop with the new credential.\<close>

definition refreshNow :: "exchange \<Rightarrow> instant \<Rightarrow> refreshloop \<Rightarrow> refresh_err option \<times> refreshloop" where
  "refreshNow ex now r =
     (case ex of Inl e \<Rightarrow> (Some e, r)
      | Inr (jwt, seed, expUnix) \<Rightarrow>
          (None, r\<lparr>rl_jwt := jwt, rl_seed := seed, rl_expUnix := expUnix, rl_gen := rl_gen r + 1, rl_lastAt := now\<rparr>))"

definition fire_at :: "refreshloop \<Rightarrow> instant" where
  "fire_at r = unix_time (rl_expUnix r) + wrap64 (- wrap64 (skewSeconds * second))"

text \<open>Whether a refresh happened, or its error.\<close>

definition RefreshNowIfDue :: "exchange \<Rightarrow> instant \<Rightarrow> refreshloop \<Rightarrow> (refresh_err + bool) \<times> refreshloop" where
  "RefreshNowIfDue ex now r =
     (if now < fire_at r then (Inr False, r)
      else case refreshNow ex now r of (Some e, r') \<Rightarrow> (Inl e, r') | (None, r') \<Rightarrow> (Inr True, r'))"

text \<open>How long \<open>run\<close> sleeps before its next refresh.\<close>

definition run_delay :: "instant \<Rightarrow> refreshloop \<Rightarrow> duration" where
  "run_delay now r = (let d = time_sub (fire_at r) now in if d < 100000000 then 100000000 else d)"

text \<open>One round of \<open>run\<close> after the sleep: the loop ends, or goes on after a pause.\<close>

definition run_round :: "exchange \<Rightarrow> instant \<Rightarrow> refreshloop \<Rightarrow> (duration option) \<times> refreshloop" where
  "run_round ex now r =
     (case refreshNow ex now r of
        (None, r') \<Rightarrow> (Some 0, r')
      | (Some ErrUnauthorized, r') \<Rightarrow> (None, r')
      | (Some (RefreshFailed t), r') \<Rightarrow> (Some retryAfter, r'))"

section \<open>nats_dial_error.go\<close>

definition controlLineRejection :: string where
  "controlLineRejection = ''maximum control line exceeded''"

definition natsDialError :: "string option \<Rightarrow> cerror" where
  "natsDialError err =
     (case err of
        Some t \<Rightarrow> if contains_text (lower_text t) controlLineRejection then New_err ECredentialTooLarge else New_err ENATSUnreachable
      | None \<Rightarrow> New_err ENATSUnreachable)"

definition noConnErrLocked :: "cerror option \<Rightarrow> cerror" where
  "noConnErrLocked lastDialErr = (case lastDialErr of Some e \<Rightarrow> e | None \<Rightarrow> New_err ENATSUnreachable)"

text \<open>An error of \<open>ensureNATS\<close> that is no \<open>cliproto.Error\<close> is the text on the left.\<close>

definition ensureNATSError :: "string + cerror \<Rightarrow> cerror" where
  "ensureNATSError err = (case err of Inr e \<Rightarrow> e | Inl t \<Rightarrow> New_err ENATSUnreachable)"

section \<open>The connection\<close>

record conn_state =
  cx_NATSURL :: string
  cx_NC :: "nat option"
  cx_status :: "nat \<Rightarrow> nats_status"
  cx_cred :: "nat \<Rightarrow> string"
  cx_ncExp :: int
  cx_ncGen :: nat
  cx_lastDialErr :: "cerror option"
  cx_Refresh :: "refreshloop option"
  cx_Follows :: "nat list"
  cx_closed_follows :: "nat list"
  cx_Events :: "natsevent list"

definition IsConnected :: "conn_state \<Rightarrow> nat \<Rightarrow> bool" where
  "IsConnected st c \<longleftrightarrow> cx_status st c = CONNECTED"

definition Close_conn :: "nat \<Rightarrow> conn_state \<Rightarrow> conn_state" where
  "Close_conn c st = st\<lparr>cx_status := (cx_status st)(c := CLOSED)\<rparr>"

definition record_event :: "natsevent \<Rightarrow> conn_state \<Rightarrow> conn_state" where
  "record_event e st = st\<lparr>cx_Events := cx_Events st @ [stamp_version e]\<rparr>"

definition mk_event :: "string \<Rightarrow> string \<Rightarrow> string \<Rightarrow> string \<Rightarrow> instant \<Rightarrow> conn_state \<Rightarrow> natsevent" where
  "mk_event typ caller ncid reason now st =
     \<lparr>ev_V = 0, ev_Type = typ, ev_At = now, ev_Caller = caller, ev_NCID = ncid, ev_JWTExp = JWTExp (cx_Refresh st), ev_Reason = reason\<rparr>"

text \<open>\<open>followRegistry.closeAll\<close>.\<close>

definition closeAll :: "conn_state \<Rightarrow> conn_state" where
  "closeAll st = st\<lparr>cx_Follows := [], cx_closed_follows := cx_closed_follows st @ cx_Follows st\<rparr>"

text \<open>
  \<open>swapNCLocked\<close>, with \<open>id_text\<close> the rendering of a connection; the watches it re-arms are in \<open>DaemonWatch\<close>.
\<close>

definition ncID :: "(nat \<Rightarrow> string) \<Rightarrow> nat option \<Rightarrow> string" where
  "ncID id_text nc = (case nc of None \<Rightarrow> '''' | Some c \<Rightarrow> id_text c)"

definition swapNCLocked :: "(nat \<Rightarrow> string) \<Rightarrow> instant \<Rightarrow> string \<Rightarrow> nat option \<Rightarrow> conn_state \<Rightarrow> conn_state" where
  "swapNCLocked id_text now caller newNC st =
     (let oldNC = cx_NC st; newID = ncID id_text newNC;
          oldWasConnected = (case oldNC of None \<Rightarrow> False | Some c \<Rightarrow> IsConnected st c);
          st1 = record_event (mk_event ''swap'' caller newID (swapReason (ncID id_text oldNC) newID) now st) st;
          st2 = (closeAll st1)\<lparr>cx_NC := newNC\<rparr>;
          st3 = (case oldNC of Some c \<Rightarrow> if newNC \<noteq> Some c then Close_conn c st2 else st2 | None \<Rightarrow> st2);
          st4 = (if newNC \<noteq> None then st3\<lparr>cx_ncExp := JWTExp (cx_Refresh st3), cx_ncGen := Generation (cx_Refresh st3)\<rparr>
                 else st3\<lparr>cx_ncExp := 0, cx_ncGen := 0\<rparr>)
      in if newNC = None then st4
         else if oldNC = None then record_event (mk_event ''connect'' caller newID ''initial connection'' now st4) st4
         else if \<not> oldWasConnected then record_event (mk_event ''reconnect'' caller newID ''rebuilt connection'' now st4) st4
         else st4)"

text \<open>
  \<open>rebuildNC\<close>. A dial reads the credential of the loop as it is then; other goroutines may refresh the loop
  while the dial runs (\<open>during\<close>), because only the connection is under the lock.
\<close>

definition dial_with :: "nat \<Rightarrow> conn_state \<Rightarrow> conn_state" where
  "dial_with c st =
     st\<lparr>cx_status := (cx_status st)(c := CONNECTED),
        cx_cred := (cx_cred st)(c := (case cx_Refresh st of None \<Rightarrow> '''' | Some r \<Rightarrow> rl_jwt r))\<rparr>"

definition up_to_date :: "conn_state \<Rightarrow> bool" where
  "up_to_date st \<longleftrightarrow> (case cx_NC st of None \<Rightarrow> False
     | Some c \<Rightarrow> IsConnected st c \<and> cx_ncExp st = JWTExp (cx_Refresh st) \<and> cx_ncGen st = Generation (cx_Refresh st))"

definition rebuildNC ::
  "(nat \<Rightarrow> string) \<Rightarrow> instant \<Rightarrow> string \<Rightarrow> string option + nat \<Rightarrow> (refreshloop option \<Rightarrow> refreshloop option) \<Rightarrow> conn_state \<Rightarrow> cerror option \<times> conn_state"
where
  "rebuildNC id_text now caller dial during st =
     (if cx_NATSURL st = '''' then (None, st)
      else if up_to_date st then (None, st)
      else case dial of
        Inl t \<Rightarrow> (let e = natsDialError t; st1 = st\<lparr>cx_Refresh := during (cx_Refresh st)\<rparr>
                   in (Some e, st1\<lparr>cx_lastDialErr := Some e\<rparr>))
      | Inr c \<Rightarrow> (let st1 = dial_with c st; st2 = st1\<lparr>cx_Refresh := during (cx_Refresh st1)\<rparr>
                   in (None, swapNCLocked id_text now caller (Some c) (st2\<lparr>cx_lastDialErr := None\<rparr>))))"

text \<open>\<open>jetStream\<close>: the connection to use, or why there is none.\<close>

definition jetStream_conn :: "conn_state \<Rightarrow> cerror + nat" where
  "jetStream_conn st = (case cx_NC st of None \<Rightarrow> Inl (noConnErrLocked (cx_lastDialErr st)) | Some c \<Rightarrow> Inr c)"

text \<open>
  \<open>reportNATSFailure\<close>: nothing without a live connection or while a report is under way; a passing probe
  keeps the connection. \<open>swapped\<close> is what other goroutines do to the state while the probe runs; the last
  component tells that recovery is kicked off.
\<close>

definition reportNATSFailure ::
  "(nat \<Rightarrow> string) \<Rightarrow> instant \<Rightarrow> bool \<Rightarrow> string option \<Rightarrow> string option \<Rightarrow> (conn_state \<Rightarrow> conn_state) \<Rightarrow> conn_state \<Rightarrow> conn_state \<times> bool"
where
  "reportNATSFailure id_text now reporting cause probe swapped st =
     (case cx_NC st of None \<Rightarrow> (st, False)
      | Some nc \<Rightarrow>
          if \<not> IsConnected st nc then (st, False)
          else if reporting then (st, False)
          else (let reason = (case cause of None \<Rightarrow> ''unknown'' | Some t \<Rightarrow> t); st1 = swapped st
                in case probe of
                     None \<Rightarrow> (record_event (mk_event ''warn'' ''reportNATSFailure'' (id_text nc)
                                 (''kept connection: probe passed after '' @ reason) now st1) st1, False)
                   | Some pe \<Rightarrow>
                       (let st2 = record_event (mk_event ''force_close'' ''reportNATSFailure'' (id_text nc)
                                    (reason @ ''; probe: '' @ pe) now st1) st1
                        in if cx_NC st2 \<noteq> Some nc then (st2, False) else (Close_conn nc st2, True))))"

section \<open>Recovery in the background\<close>

definition reconnectInitialBackoff :: duration where "reconnectInitialBackoff = 2 * second"
definition reconnectMaxBackoff :: duration where "reconnectMaxBackoff = 15 * second"

text \<open>What one iteration of the loop of \<open>kickConnect\<close> finds.\<close>

record attempt =
  at_creds :: bool
  at_err :: "(string + cerror) option"
  at_connected :: bool
  at_ctx_done :: bool

datatype loop_end = LoggedOut | Connected | Refused | Cancelled

definition attempt_end :: "attempt \<Rightarrow> loop_end option" where
  "attempt_end a =
     (if \<not> at_creds a then Some LoggedOut
      else if at_err a = None \<and> at_connected a then Some Connected
      else if (case at_err a of Some (Inr e) \<Rightarrow> Code e = EInvalidAPIKey \<or> Code e = ENotLoggedIn | _ \<Rightarrow> False) then Some Refused
      else if at_ctx_done a then Some Cancelled
      else None)"

definition next_backoff :: "duration \<Rightarrow> duration" where
  "next_backoff b = (if reconnectMaxBackoff < b * 2 then reconnectMaxBackoff else b * 2)"

text \<open>
  The loop may run for ever: \<open>None\<close> is a loop that never ends. A result is how it ended, at which iteration,
  and how long it waited between the iterations before.
\<close>

partial_function (option) connect_loop :: "(nat \<Rightarrow> attempt) \<Rightarrow> nat \<Rightarrow> duration \<Rightarrow> (loop_end \<times> nat \<times> duration list) option" where
  "connect_loop out k backoff =
     (case attempt_end (out k) of
        Some e \<Rightarrow> Some (e, k, [])
      | None \<Rightarrow> Option.bind (connect_loop out (Suc k) (next_backoff backoff)) (\<lambda>(e, n, waits). Some (e, n, backoff # waits)))"

text \<open>\<open>kickConnect\<close>: logged out or already recovering, nothing starts.\<close>

definition kickConnect :: "bool \<Rightarrow> bool \<Rightarrow> duration \<Rightarrow> (nat \<Rightarrow> attempt) \<Rightarrow> (loop_end \<times> nat \<times> duration list) option option" where
  "kickConnect creds reconnecting override out =
     (if \<not> creds then None else if reconnecting then None
      else Some (connect_loop out 0 (if 0 < override then override else reconnectInitialBackoff)))"

section \<open>wake_watchdog.go\<close>

definition wakeTickInterval :: duration where "wakeTickInterval = 30 * second"
definition wakeGapThreshold :: duration where "wakeGapThreshold = minute"

record wakewatchdog =
  wd_interval :: duration
  wd_threshold :: duration
  wd_last :: instant

text \<open>One tick on the wall clock: the gap that counts as a sleep, if it is one.\<close>

definition wake_tick :: "instant \<Rightarrow> wakewatchdog \<Rightarrow> duration option \<times> wakewatchdog" where
  "wake_tick now w =
     (let gap = time_sub now (wd_last w)
      in (if wd_interval w + wd_threshold w < gap then Some gap else None, w\<lparr>wd_last := now\<rparr>))"

text \<open>The refresh loop of \<open>onWake\<close>: credentials, outcome of the refresh and cancellation per iteration.\<close>

datatype wake_end = WakeLoggedOut | WakeRebuild | WakeUnauthorized | WakeCancelled

partial_function (option) wake_loop :: "(nat \<Rightarrow> bool \<times> refresh_err option \<times> bool) \<Rightarrow> nat \<Rightarrow> (wake_end \<times> nat) option" where
  "wake_loop out k =
     (case out k of (creds, err, done) \<Rightarrow>
        if \<not> creds then Some (WakeLoggedOut, k)
        else if err = None then Some (WakeRebuild, k)
        else if err = Some ErrUnauthorized then Some (WakeUnauthorized, k)
        else if done then Some (WakeCancelled, k)
        else wake_loop out (Suc k))"

section \<open>Rotation\<close>

lemma rebuild_current: "up_to_date st \<Longrightarrow> rebuildNC id_text now caller dial during st = (None, st)"
  by (simp add: rebuildNC_def)

lemma swap_fields:
  "cx_NC (swapNCLocked id_text now caller nc st) = nc"
  "cx_cred (swapNCLocked id_text now caller nc st) = cx_cred st"
  "cx_Refresh (swapNCLocked id_text now caller nc st) = cx_Refresh st"
  "cx_status (swapNCLocked id_text now caller nc st) =
     (case cx_NC st of Some c \<Rightarrow> if nc \<noteq> Some c then (cx_status st)(c := CLOSED) else cx_status st | None \<Rightarrow> cx_status st)"
  "nc \<noteq> None \<Longrightarrow> cx_ncExp (swapNCLocked id_text now caller nc st) = JWTExp (cx_Refresh st)
     \<and> cx_ncGen (swapNCLocked id_text now caller nc st) = Generation (cx_Refresh st)"
  by (auto simp: swapNCLocked_def Let_def record_event_def closeAll_def Close_conn_def split: option.splits)

text \<open>What a successful rebuild leaves: the new connection, stamped with the loop as it is after the dial.\<close>

lemma rebuild_dialled:
  assumes "cx_NATSURL st \<noteq> ''''" "\<not> up_to_date st" "cx_Refresh st = Some r"
  shows "fst (rebuildNC id_text now caller (Inr d) during st) = None
    \<and> cx_NC (snd (rebuildNC id_text now caller (Inr d) during st)) = Some d
    \<and> cx_cred (snd (rebuildNC id_text now caller (Inr d) during st)) d = rl_jwt r
    \<and> cx_Refresh (snd (rebuildNC id_text now caller (Inr d) during st)) = during (Some r)
    \<and> up_to_date (snd (rebuildNC id_text now caller (Inr d) during st))"
  using assms
  by (auto simp: rebuildNC_def Let_def swap_fields dial_with_def up_to_date_def [of "swapNCLocked _ _ _ _ _"] IsConnected_def
      split: option.splits)

definition rebuild_all ::
  "(nat \<Rightarrow> string) \<Rightarrow> instant \<Rightarrow> (string \<times> (string option + nat)) list \<Rightarrow> conn_state \<Rightarrow> conn_state"
where
  "rebuild_all id_text now calls st = foldl (\<lambda>s (caller, dial). snd (rebuildNC id_text now caller dial id s)) st calls"

lemma rebuild_all_current: "up_to_date st \<Longrightarrow> rebuild_all id_text now calls st = st"
  by (induction calls) (auto simp: rebuild_all_def rebuild_current)

definition swaps :: "conn_state \<Rightarrow> nat" where
  "swaps st = length (filter (\<lambda>e. ev_Type e = ''swap'') (cx_Events st))"

lemma swaps_swapNCLocked: "swaps (swapNCLocked id_text now caller nc st) = Suc (swaps st)"
  by (simp add: swaps_def swapNCLocked_def Let_def record_event_def closeAll_def Close_conn_def mk_event_def stamp_version_def
      split: option.split)

lemma swaps_rebuild:
  assumes "cx_NATSURL st \<noteq> ''''" "\<not> up_to_date st"
  shows "swaps (snd (rebuildNC id_text now caller (Inr d) id st)) = Suc (swaps st)"
  using assms by (simp add: rebuildNC_def Let_def swaps_swapNCLocked) (simp add: swaps_def dial_with_def)

text \<open>The connection of the first call whose dial succeeds.\<close>

fun first_dialled :: "(string \<times> (string option + nat)) list \<Rightarrow> nat option" where
  "first_dialled [] = None"
| "first_dialled ((caller, Inl t) # calls) = first_dialled calls"
| "first_dialled ((caller, Inr d) # calls) = Some d"

lemma rebuild_failed:
  assumes "cx_NATSURL st \<noteq> ''''" "\<not> up_to_date st"
  shows "snd (rebuildNC id_text now caller (Inl t) id st) = st\<lparr>cx_lastDialErr := Some (natsDialError t)\<rparr>"
  using assms by (simp add: rebuildNC_def Let_def)

lemma rebuild_all_outdated:
  assumes "cx_NATSURL st \<noteq> ''''" "\<not> up_to_date st" "cx_Refresh st = Some r"
  shows "case first_dialled calls of
      None \<Rightarrow> swaps (rebuild_all id_text now calls st) = swaps st \<and> cx_NC (rebuild_all id_text now calls st) = cx_NC st
        \<and> cx_cred (rebuild_all id_text now calls st) = cx_cred st \<and> \<not> up_to_date (rebuild_all id_text now calls st)
    | Some d \<Rightarrow> swaps (rebuild_all id_text now calls st) = Suc (swaps st) \<and> cx_NC (rebuild_all id_text now calls st) = Some d
        \<and> cx_cred (rebuild_all id_text now calls st) d = rl_jwt r \<and> up_to_date (rebuild_all id_text now calls st)"
  using assms
proof (induction calls arbitrary: st rule: first_dialled.induct)
  case 1
  then show ?case by (simp add: rebuild_all_def)
next
  case (2 caller t calls)
  let ?s = "st\<lparr>cx_lastDialErr := Some (natsDialError t)\<rparr>"
  have "rebuild_all id_text now ((caller, Inl t) # calls) st = rebuild_all id_text now calls ?s"
    using rebuild_failed [OF 2(2,3)] by (simp add: rebuild_all_def)
  moreover have "up_to_date ?s = up_to_date st" "swaps ?s = swaps st"
    by (simp_all add: up_to_date_def IsConnected_def swaps_def split: option.split)
  moreover have "cx_NATSURL ?s \<noteq> ''''" "cx_Refresh ?s = Some r" "cx_NC ?s = cx_NC st" "cx_cred ?s = cx_cred st"
    using 2 by simp_all
  ultimately show ?case using 2(1) [of ?s] 2(3) by (simp cong: option.case_cong)
next
  case (3 caller d calls)
  let ?t = "snd (rebuildNC id_text now caller (Inr d) id st)"
  note d = rebuild_dialled [OF 3, of id_text now caller d id]
  have "rebuild_all id_text now ((caller, Inr d) # calls) st = ?t"
    using d rebuild_all_current by (simp add: rebuild_all_def)
  with d swaps_rebuild [OF 3(1,2), of id_text now caller d] show ?case by simp
qed

text \<open>C30: After a rotation of the credential any number of callers of \<open>rebuildNC\<close>, one after the other
  under its lock and with whatever outcome of their dials, replace the connection exactly once, by the
  first whose dial succeeds, dialled with the new credential and left alone by all later ones, even
  when the new credential expires in the same second as the old; while every dial fails the connection
  stays as it was and counts as outdated. Without a rotation nothing is changed. The connection may be
  up, down or missing at the rotation, as long as its stamp is not ahead of the refresh loop, and no
  further refresh lands while a dial is under way (the case of \<open>refresh_during_dial_is_lost\<close>).\<close>

theorem rotation_redials_once:
  assumes "cx_NATSURL st \<noteq> ''''" and "cx_Refresh st = Some r" and "cx_ncGen st \<le> rl_gen r"
    and "refreshNow (Inr (jwt, seed, expUnix)) now r = (None, r')"
    and "st' = rebuild_all id_text now calls (st\<lparr>cx_Refresh := Some r'\<rparr>)"
  shows "(case first_dialled calls of
      None \<Rightarrow> swaps st' = swaps st \<and> cx_NC st' = cx_NC st \<and> cx_cred st' = cx_cred st \<and> \<not> up_to_date st'
    | Some d \<Rightarrow> swaps st' = Suc (swaps st) \<and> cx_NC st' = Some d \<and> cx_cred st' d = jwt \<and> up_to_date st')
    \<and> (up_to_date st \<longrightarrow> rebuild_all id_text now calls st = st)"
proof -
  let ?s = "st\<lparr>cx_Refresh := Some r'\<rparr>"
  have r': "rl_jwt r' = jwt" "rl_gen r' = rl_gen r + 1" using assms(4) by (auto simp: refreshNow_def)
  then have old: "\<not> up_to_date ?s" using assms(3) by (auto simp: up_to_date_def Generation_def split: option.splits)
  have "swaps ?s = swaps st" "cx_NATSURL ?s \<noteq> ''''" "cx_Refresh ?s = Some r'"
    using assms(1) by (simp_all add: swaps_def)
  with rebuild_all_outdated [OF _ old, of r' id_text now calls] r'(1) rebuild_all_current [of st] show ?thesis
    by (simp add: assms(5) cong: option.case_cong)
qed

definition ex_conn_state :: conn_state where
  "ex_conn_state =
     \<lparr>cx_NATSURL = ''nats://h'', cx_NC = Some 0, cx_status = (\<lambda>_. CONNECTED), cx_cred = (\<lambda>_. ''old''), cx_ncExp = 100, cx_ncGen = 4,
      cx_lastDialErr = None, cx_Refresh = Some \<lparr>rl_jwt = ''old'', rl_seed = ''s'', rl_expUnix = 100, rl_gen = 4, rl_lastAt = 0\<rparr>,
      cx_Follows = [], cx_closed_follows = [], cx_Events = []\<rparr>"

theorem rotation_redials_once_witness:
  "let st' = rebuild_all (\<lambda>_. ''0x1'') 7 [(''OnRefreshed-callback'', Inl None), (''ensureNATS'', Inr 2), (''ensureNATS'', Inr 3)]
     (ex_conn_state\<lparr>cx_Refresh := Some \<lparr>rl_jwt = ''new'', rl_seed = ''t'', rl_expUnix = 100, rl_gen = 5, rl_lastAt = 7\<rparr>\<rparr>)
   in swaps st' = 1 \<and> cx_NC st' = Some 2 \<and> cx_cred st' 2 = ''new''"
proof -
  let ?r = "\<lparr>rl_jwt = ''old'', rl_seed = ''s'', rl_expUnix = 100, rl_gen = 4, rl_lastAt = 0\<rparr>"
  have "cx_NATSURL ex_conn_state \<noteq> ''''" "cx_Refresh ex_conn_state = Some ?r" "cx_ncGen ex_conn_state \<le> rl_gen ?r"
    by (simp_all add: ex_conn_state_def)
  moreover have "refreshNow (Inr (''new'', ''t'', 100)) 7 ?r
    = (None, \<lparr>rl_jwt = ''new'', rl_seed = ''t'', rl_expUnix = 100, rl_gen = 5, rl_lastAt = 7\<rparr>)"
    by (simp add: refreshNow_def)
  moreover have "swaps ex_conn_state = 0" by (simp add: swaps_def ex_conn_state_def)
  ultimately show ?thesis
    unfolding Let_def
    using rotation_redials_once [OF _ _ _ _ refl, of ex_conn_state ?r
        "''new''" "''t''" 100 7 "\<lparr>rl_jwt = ''new'', rl_seed = ''t'', rl_expUnix = 100, rl_gen = 5, rl_lastAt = 7\<rparr>"
        "\<lambda>_. ''0x1''" "[(''OnRefreshed-callback'', Inl None), (''ensureNATS'', Inr 2), (''ensureNATS'', Inr 3)]"] by simp
qed

text \<open>A refresh that lands while a dial is under way is lost on the connection: the connection was dialled
  with the old credential but is stamped with the new generation, so it counts as up to date and no later
  rebuild replaces it; after a narrowing of access the old rights stay in use.\<close>

theorem refresh_during_dial_is_lost:
  assumes "\<not> up_to_date st" and "cx_NATSURL st \<noteq> ''''" and "cx_Refresh st = Some r"
    and "refreshNow (Inr (jwt, seed, expUnix)) now r = (None, r')" and "jwt \<noteq> rl_jwt r"
    and "st' = snd (rebuildNC id_text now caller (Inr d) (\<lambda>_. Some r') st)"
  shows "cx_NC st' = Some d \<and> cx_cred st' d = rl_jwt r \<and> map_option rl_jwt (cx_Refresh st') = Some jwt \<and> jwt \<noteq> cx_cred st' d
    \<and> rebuild_all id_text now calls st' = st'"
proof -
  note d = rebuild_dialled [OF assms(2,1,3), of id_text now caller d "\<lambda>_. Some r'"]
  have "rl_jwt r' = jwt" using assms(4) by (auto simp: refreshNow_def)
  with d assms(5) rebuild_all_current show ?thesis by (simp add: assms(6))
qed

theorem refresh_during_dial_is_lost_witness:
  "let st = ex_conn_state\<lparr>cx_ncGen := 3\<rparr>;
       st' = snd (rebuildNC (\<lambda>_. ''0x1'') 7 ''ensureNATS'' (Inr 1)
         (\<lambda>_. Some \<lparr>rl_jwt = ''new'', rl_seed = ''t'', rl_expUnix = 100, rl_gen = 5, rl_lastAt = 7\<rparr>) st)
   in cx_cred st' 1 = ''old'' \<and> rebuild_all (\<lambda>_. ''0x1'') 7 [(''OnRefreshed-callback'', Inr 2)] st' = st'"
proof -
  let ?st = "ex_conn_state\<lparr>cx_ncGen := 3\<rparr>" and ?r = "\<lparr>rl_jwt = ''old'', rl_seed = ''s'', rl_expUnix = 100, rl_gen = 4, rl_lastAt = 0\<rparr>"
  have "\<not> up_to_date ?st" "cx_NATSURL ?st \<noteq> ''''" "cx_Refresh ?st = Some ?r"
    by (simp_all add: ex_conn_state_def up_to_date_def IsConnected_def JWTExp_def Generation_def)
  from refresh_during_dial_is_lost [OF this, of "''new''" "''t''" 100 7, OF _ _ refl]
  show ?thesis by (simp add: Let_def refreshNow_def)
qed

section \<open>The recovery loop\<close>

fun backoffs :: "nat \<Rightarrow> duration \<Rightarrow> duration list" where
  "backoffs 0 b = []"
| "backoffs (Suc n) b = b # backoffs n (next_backoff b)"

lemma connect_loop_ends:
  assumes "attempt_end (out (k + n)) = Some e" "\<And>i. i < n \<Longrightarrow> attempt_end (out (k + i)) = None"
  shows "connect_loop out k b = Some (e, k + n, backoffs n b)"
  using assms
proof (induction n arbitrary: k b)
  case 0
  then show ?case by (simp add: connect_loop.simps)
next
  case (Suc n)
  have "attempt_end (out k) = None" using Suc.prems(2) [of 0] by simp
  moreover have "connect_loop out (Suc k) (next_backoff b) = Some (e, Suc k + n, backoffs n (next_backoff b))"
    using Suc.prems by (intro Suc.IH) (simp, metis Suc_less_eq add_Suc add_Suc_right)
  ultimately show ?case by (simp add: connect_loop.simps [of out k b])
qed

lemma connect_loop_result:
  assumes "connect_loop out k b = Some r"
  shows "attempt_end (out (fst (snd r))) = Some (fst r)"
proof (rule connect_loop.raw_induct [where P = "\<lambda>out k b r. attempt_end (out (fst (snd r))) = Some (fst r)", OF _ assms])
  fix rec :: "(nat \<Rightarrow> attempt) \<Rightarrow> nat \<Rightarrow> duration \<Rightarrow> (loop_end \<times> nat \<times> duration list) option" and out k b r
  assume IH: "\<And>out k b r. rec out k b = Some r \<Longrightarrow> attempt_end (out (fst (snd r))) = Some (fst r)"
    and step: "(case attempt_end (out k) of
        Some e \<Rightarrow> Some (e, k, [])
      | None \<Rightarrow> Option.bind (rec out (Suc k) (next_backoff b)) (\<lambda>(e, n, waits). Some (e, n, b # waits))) = Some r"
  show "attempt_end (out (fst (snd r))) = Some (fst r)"
  proof (cases "attempt_end (out k)")
    case None
    with step obtain q where "rec out (Suc k) (next_backoff b) = Some q" "r = (fst q, fst (snd q), b # snd (snd q))"
      by (auto simp: bind_eq_Some_conv)
    with IH show ?thesis by fastforce
  qed (use step in auto)
qed

lemma next_backoff_iterate: "0 \<le> b \<Longrightarrow> b \<le> reconnectMaxBackoff \<Longrightarrow> i < n \<Longrightarrow> backoffs n b ! i = min (b * 2 ^ i) reconnectMaxBackoff"
proof (induction n arbitrary: b i)
  case (Suc n)
  show ?case
  proof (cases i)
    case (Suc j)
    with Suc.prems have j: "j < n" by simp
    have nb: "0 \<le> next_backoff b" "next_backoff b \<le> reconnectMaxBackoff" using Suc.prems by (auto simp: next_backoff_def)
    have p: "(1 :: int) \<le> 2 ^ j" by simp
    show ?thesis
    proof (cases "reconnectMaxBackoff < b * 2")
      case True
      then have "reconnectMaxBackoff * 1 \<le> b * 2 * 2 ^ j" using p Suc.prems(1) by (intro mult_mono) auto
      moreover have "reconnectMaxBackoff * 1 \<le> reconnectMaxBackoff * 2 ^ j"
        using p by (intro mult_left_mono) (simp_all add: reconnectMaxBackoff_def second_def)
      ultimately show ?thesis using True Suc.IH [OF nb j] \<open>i = Suc j\<close> by (simp add: next_backoff_def)
    next
      case False
      then show ?thesis using Suc.IH [OF nb j] \<open>i = Suc j\<close> by (simp add: next_backoff_def mult.assoc)
    qed
  qed (use Suc.prems in simp)
qed simp

lemma backoffs_length [simp]: "length (backoffs n b) = n"
  by (induction n arbitrary: b) auto

text \<open>How an iteration ends the loop, as the comment at \<open>kickConnect\<close> lists it, and the shutdown of the daemon.\<close>

fun ends_with :: "loop_end \<Rightarrow> attempt \<Rightarrow> bool" where
  "ends_with LoggedOut a \<longleftrightarrow> \<not> at_creds a"
| "ends_with Connected a \<longleftrightarrow> at_creds a \<and> at_err a = None \<and> at_connected a"
| "ends_with Refused a \<longleftrightarrow>
     at_creds a \<and> (\<exists>e. at_err a = Some (Inr e) \<and> Code e \<in> {''E_INVALID_API_KEY'', ''E_NOT_LOGGED_IN''})"
| "ends_with Cancelled a \<longleftrightarrow>
     at_ctx_done a \<and> at_creds a \<and> \<not> (at_err a = None \<and> at_connected a)
     \<and> \<not> (\<exists>e. at_err a = Some (Inr e) \<and> Code e \<in> {''E_INVALID_API_KEY'', ''E_NOT_LOGGED_IN''})"

lemma attempt_end_spec: "attempt_end a = Some e \<longleftrightarrow> ends_with e a"
  by (cases e) (auto simp: attempt_end_def EInvalidAPIKey_def ENotLoggedIn_def split: option.splits sum.splits)

lemma attempt_goes_on: "attempt_end a = None \<longleftrightarrow> (\<forall>e. \<not> ends_with e a)"
  using attempt_end_spec [of a] by (cases "attempt_end a") auto

lemma first_end:
  fixes out :: "nat \<Rightarrow> attempt" and n :: nat
  assumes "attempt_end (out n) \<noteq> None"
  shows "\<exists>m e. attempt_end (out m) = Some e \<and> (\<forall>i<m. attempt_end (out i) = None)"
proof -
  define m where "m = (LEAST m. attempt_end (out m) \<noteq> None)"
  have "attempt_end (out m) \<noteq> None" unfolding m_def by (rule LeastI [of "\<lambda>m. attempt_end (out m) \<noteq> None", OF assms])
  moreover have "\<forall>i<m. attempt_end (out i) = None" unfolding m_def using not_less_Least by blast
  ultimately show ?thesis by blast
qed

lemma connect_loop_at:
  "connect_loop out 0 b = Some (e, n, waits) \<longleftrightarrow>
     attempt_end (out n) = Some e \<and> (\<forall>i<n. attempt_end (out i) = None) \<and> waits = backoffs n b"
proof
  assume r: "connect_loop out 0 b = Some (e, n, waits)"
  have "attempt_end (out n) \<noteq> None" using connect_loop_result [OF r] by simp
  from first_end [of out n, OF this] obtain m e' where m: "attempt_end (out m) = Some e'" "\<forall>i<m. attempt_end (out i) = None" by blast
  with connect_loop_ends [of out 0 m e' b] r
  show "attempt_end (out n) = Some e \<and> (\<forall>i<n. attempt_end (out i) = None) \<and> waits = backoffs n b" by simp
qed (use connect_loop_ends [of out 0 n e b] in simp)

lemma connect_loop_for_ever: "connect_loop out 0 b = None \<longleftrightarrow> (\<forall>n. attempt_end (out n) = None)"
proof
  assume none: "connect_loop out 0 b = None"
  show "\<forall>n. attempt_end (out n) = None"
  proof (rule ccontr)
    assume "\<not> (\<forall>n. attempt_end (out n) = None)"
    then obtain n where "attempt_end (out n) \<noteq> None" by blast
    from first_end [of out n, OF this] none connect_loop_at [of out b] show False by fastforce
  qed
next
  assume "\<forall>n. attempt_end (out n) = None"
  then show "connect_loop out 0 b = None" using connect_loop_result [of out 0 b] by (cases "connect_loop out 0 b") auto
qed

text \<open>C31: Recovery starts only while logged in and not already under way. Its loop then ends exactly when some
  iteration finds the login gone, the daemon connected, the credentials refused (\<open>E_INVALID_API_KEY\<close> or
  \<open>E_NOT_LOGGED_IN\<close>) or the daemon shut down; it ends at the first such iteration, and goes on for ever on
  every other error. Before the iteration after the \<open>i\<close>-th it waits two seconds doubled \<open>i\<close> times, at most
  fifteen seconds.\<close>

theorem recovery_loop_terminates:
  "(kickConnect creds reconnecting 0 out \<noteq> None \<longleftrightarrow> creds \<and> \<not> reconnecting)
   \<and> (kickConnect True False 0 out = Some None \<longleftrightarrow> (\<forall>n e. \<not> ends_with e (out n)))
   \<and> (\<forall>e n waits. kickConnect True False 0 out = Some (Some (e, n, waits)) \<longleftrightarrow>
       ends_with e (out n) \<and> (\<forall>i<n. \<forall>f. \<not> ends_with f (out i))
       \<and> waits = map (\<lambda>i. min (2000000000 * 2 ^ i) 15000000000) [0..<n])"
proof -
  have waits: "backoffs n reconnectInitialBackoff = map (\<lambda>i. min (2000000000 * 2 ^ i) 15000000000) [0..<n]" for n
    by (rule nth_equalityI) (simp_all add: next_backoff_iterate reconnectInitialBackoff_def reconnectMaxBackoff_def second_def)
  show ?thesis
    by (simp add: kickConnect_def connect_loop_for_ever connect_loop_at attempt_end_spec attempt_goes_on waits)
qed

text \<open>A server that is down for three attempts and then accepts the connection.\<close>

theorem recovery_loop_terminates_witness:
  "kickConnect True False 0 (\<lambda>i. \<lparr>at_creds = True, at_err = (if i < 3 then Some (Inr (New_err ENATSUnreachable)) else None),
       at_connected = True, at_ctx_done = False\<rparr>)
   = Some (Some (Connected, 3, [2000000000, 4000000000, 8000000000]))"
proof -
  let ?out = "\<lambda>i :: nat. \<lparr>at_creds = True, at_err = (if i < 3 then Some (Inr (New_err ENATSUnreachable)) else None),
       at_connected = True, at_ctx_done = False\<rparr>"
  have "\<not> ends_with f (?out i)" if "i < 3" for f i
    using that by (cases f) (simp_all add: New_err_def ENATSUnreachable_def)
  moreover have "ends_with Connected (?out 3)" by simp
  moreover have "map (\<lambda>i. min (2000000000 * 2 ^ i) 15000000000) [0..<3] = [2000000000, 4000000000, 8000000000 :: int]"
    by (simp add: upt_rec)
  ultimately show ?thesis using recovery_loop_terminates [of True False ?out] by simp
qed

end
