(* ===== verification/DaemonSend.thy ===== *)
theory DaemonSend
  imports DaemonList DaemonConn AclCompileProps
begin

text \<open>
  Sending through the daemon: resolving the target (\<open>resolveSendTarget\<close> in \<open>internal/daemon/handlers.go\<close>),
  publishing with an acknowledgement (\<open>publish.go\<close>), the single and the batched send, scheduled sends
  (\<open>schedule.go\<close>), and the heartbeat cache the sends stamp (\<open>heartbeat_cache.go\<close>, \<open>heartbeat_status.go\<close>,
  \<open>heartbeat_owners.go\<close>, \<open>handlers_who.go\<close>).

  What a send asks for on its way is the record \<open>send_env\<close>: the account id as parsed, the answers of the
  server, the state of the connection before each use, and the answers of the broker on streams.
\<close>

section \<open>Heartbeats\<close>

record heartbeatentry =
  hb_Handle :: string
  hb_AccountID :: string
  hb_Payload :: string
  hb_ArrivedAt :: instant

type_synonym heartbeatcache = "string \<rightharpoonup> heartbeatentry"

definition NewHeartbeatCache :: heartbeatcache where
  "NewHeartbeatCache = Map.empty"

definition Stamp :: "string \<Rightarrow> string \<Rightarrow> string \<Rightarrow> instant \<Rightarrow> heartbeatcache \<Rightarrow> heartbeatcache" where
  "Stamp handle accountID payload arrivedAt c =
     c(handle \<mapsto> \<lparr>hb_Handle = handle, hb_AccountID = accountID, hb_Payload = payload, hb_ArrivedAt = arrivedAt\<rparr>)"

definition Clear_heartbeats :: "heartbeatcache \<Rightarrow> heartbeatcache" where
  "Clear_heartbeats c = Map.empty"

definition DropOtherAccounts :: "string \<Rightarrow> heartbeatcache \<Rightarrow> heartbeatcache" where
  "DropOtherAccounts accountID c =
     (\<lambda>h. case c h of None \<Rightarrow> None | Some e \<Rightarrow> if hb_AccountID e \<noteq> accountID then None else Some e)"

text \<open>A snapshot lists the entries by handle; \<open>handles\<close> are the keys of the map in any order.\<close>

definition Snapshot_heartbeats :: "string list \<Rightarrow> heartbeatcache \<Rightarrow> heartbeatentry list" where
  "Snapshot_heartbeats handles c = sort_key hb_Handle (List.map_filter c handles)"

definition SnapshotAccount :: "string list \<Rightarrow> string \<Rightarrow> heartbeatcache \<Rightarrow> heartbeatentry list" where
  "SnapshotAccount handles accountID c =
     (if accountID = '''' then []
      else sort_key hb_Handle (filter (\<lambda>e. hb_AccountID e = accountID) (List.map_filter c handles)))"

definition applyHeartbeatStamp :: "string \<Rightarrow> string \<Rightarrow> string \<Rightarrow> string \<Rightarrow> instant \<Rightarrow> heartbeatcache \<Rightarrow> heartbeatcache" where
  "applyHeartbeatStamp channel handle accountID payload arrivedAt c =
     (if channel \<noteq> ''heartbeat'' then c else Stamp handle accountID payload arrivedAt c)"

text \<open>\<open>stampPresence\<close>: \<open>env\<close> is the message as decoded, \<open>uuid_ok\<close> the parser of account ids.\<close>

definition stampPresence ::
  "(string \<Rightarrow> bool) \<Rightarrow> uuid \<Rightarrow> string \<Rightarrow> envelope option \<Rightarrow> instant \<Rightarrow> heartbeatcache \<Rightarrow> heartbeatcache"
where
  "stampPresence uuid_ok accountID subject env now c =
     (case ParsePresenceSubject uuid_ok subject of None \<Rightarrow> c
      | Some handle \<Rightarrow> (case env of None \<Rightarrow> c | Some e \<Rightarrow> Stamp handle accountID (en_Payload e) now c))"

definition classifyHeartbeatStatus :: "instant \<Rightarrow> instant \<Rightarrow> int \<Rightarrow> string" where
  "classifyHeartbeatStatus latest now intervalSec =
     (if latest = 0 then ''offline''
      else
        (let interval = wrap64 ((if intervalSec \<le> 0 then 60 else intervalSec) * second); age = time_sub now latest
         in if age < 0 then ''online''
            else if wrap64 (2 * age) < wrap64 (3 * interval) then ''online''
            else if age < wrap64 (3 * interval) then ''stale''
            else ''offline''))"

definition CombineHeartbeatStatus :: "string \<Rightarrow> string \<Rightarrow> string" where
  "CombineHeartbeatStatus liveness agentState =
     (if agentState = '''' \<or> liveness = ''offline'' then liveness else liveness @ ''|'' @ agentState)"

record whoentry =
  we_Handle :: string
  we_Owner :: string
  we_Payload :: string
  we_ArrivedAt :: instant

definition enrichEntriesWithOwners :: "heartbeatentry list \<Rightarrow> list_source list \<Rightarrow> whoentry list" where
  "enrichEntriesWithOwners cache srcs =
     (let owners = map_of (rev (map (\<lambda>s. (ls_Handle s, ls_CreatedBy s)) srcs))
      in map (\<lambda>e. \<lparr>we_Handle = hb_Handle e, we_Owner = or_empty (owners (hb_Handle e)), we_Payload = hb_Payload e,
                   we_ArrivedAt = hb_ArrivedAt e\<rparr>) cache)"

definition handleWho :: "string list \<Rightarrow> cerror + list_source list \<Rightarrow> daemon_state \<Rightarrow> heartbeatcache \<Rightarrow> whoentry list" where
  "handleWho handles srcs st c =
     enrichEntriesWithOwners (SnapshotAccount handles (st_accountID st) c) (case srcs of Inl _ \<Rightarrow> [] | Inr l \<Rightarrow> l)"

section \<open>Publishing\<close>

definition isNATSConnErr :: "js_error \<Rightarrow> bool" where
  "isNATSConnErr err \<longleftrightarrow> err = ConnectionClosed \<or> err = NoServers"

definition isPermissionErr :: "js_error \<Rightarrow> bool" where
  "isPermissionErr err \<longleftrightarrow>
     (if err = PermissionViolation then True else contains_text (lower_ascii (js_error_text err)) ''permissions violation'')"

definition classifyPublishErr :: "js_error \<Rightarrow> cerror" where
  "classifyPublishErr err =
     (if err = ConnectionClosed \<or> err = NoServers then New_err ENATSUnreachable else New_err EDeliveryUnconfirmed)"

text \<open>\<open>publishWithAck\<close>: \<open>js\<close> is the outcome of opening JetStream, \<open>ack\<close> that of the publish. The second
  component is what is handed to \<open>reportNATSFailure\<close>.\<close>

definition publishWithAck :: "cerror option \<Rightarrow> js_error option \<Rightarrow> cerror option \<times> js_error list" where
  "publishWithAck js ack =
     (case js of Some e \<Rightarrow> (Some e, [])
      | None \<Rightarrow>
          (case ack of None \<Rightarrow> (None, [])
           | Some err \<Rightarrow>
               if isPermissionErr err then (Some (New_err EPipeForbidden), [])
               else (Some (classifyPublishErr err), if isNATSConnErr err then [] else [err])))"

text \<open>\<open>publishBatchWithAck\<close>: \<open>async\<close> is the immediate outcome of each publish, \<open>complete\<close> whether all
  acknowledgements came in time, \<open>acks\<close> the acknowledgement of each. The first component is the number of
  publishes begun.\<close>

fun publish_async :: "(nat \<Rightarrow> js_error option) \<Rightarrow> nat \<Rightarrow> nat \<Rightarrow> nat \<times> js_error option" where
  "publish_async async k 0 = (k, None)"
| "publish_async async k (Suc n) = (case async k of Some err \<Rightarrow> (k, Some err) | None \<Rightarrow> publish_async async (k + 1) n)"

fun await_acks :: "(nat \<Rightarrow> js_error option) \<Rightarrow> nat \<Rightarrow> nat \<Rightarrow> js_error option" where
  "await_acks acks k 0 = None"
| "await_acks acks k (Suc n) = (case acks k of Some err \<Rightarrow> Some err | None \<Rightarrow> await_acks acks (k + 1) n)"

definition publishBatchWithAck ::
  "cerror option \<Rightarrow> (nat \<Rightarrow> js_error option) \<Rightarrow> bool \<Rightarrow> (nat \<Rightarrow> js_error option) \<Rightarrow> nat \<Rightarrow> nat \<times> cerror option \<times> js_error list"
where
  "publishBatchWithAck js async complete acks n =
     (case js of Some e \<Rightarrow> (0, Some e, [])
      | None \<Rightarrow>
          (case publish_async async 0 n of
             (k, Some err) \<Rightarrow> (k, Some (classifyPublishErr err), [])
           | (k, None) \<Rightarrow>
               if \<not> complete
               then (k, Some (New_err EDeliveryUnconfirmed), [OtherError ''jetstream batch publish: no PubAck within 5s''])
               else (case await_acks acks 0 n of
                       Some err \<Rightarrow> (k, Some (classifyPublishErr err), if isNATSConnErr err then [] else [err])
                     | None \<Rightarrow> (k, None, []))))"

section \<open>Resolving the target\<close>

definition shouldTryUncollaredFirst :: "string \<Rightarrow> bool" where
  "shouldTryUncollaredFirst bareTarget \<longleftrightarrow> bareTarget \<noteq> ''''"

record sendtarget =
  sg_subject :: string
  sg_sender :: string
  sg_manifold :: string
  sg_source :: string
  sg_pipe :: string

record send_env =
  sv_Account :: "uuid option"
  sv_EnvCurrent :: string
  sv_Sources :: "cerror + list_source list"
  sv_Connected1 :: bool
  sv_NATS1 :: "(string + cerror) option"
  sv_JS1 :: "cerror option"
  sv_Stream1 :: "string \<Rightarrow> js_error option"
  sv_Connected2 :: bool
  sv_NATS2 :: "(string + cerror) option"
  sv_JS2 :: "cerror option"
  sv_Stream2 :: "string \<Rightarrow> js_error option"

definition connect_error :: "bool \<Rightarrow> (string + cerror) option \<Rightarrow> cerror option" where
  "connect_error connected nats = (if connected then None else map_option ensureNATSError nats)"

text \<open>How an error of the stream lookup is answered, and what is reported about the connection.\<close>

definition lookup_error :: "cerror \<Rightarrow> js_error \<Rightarrow> cerror \<times> js_error list" where
  "lookup_error not_found err =
     (if err = StreamNotFound then (not_found, [])
      else if isJSTransportErr err then
        (New_err ENATSUnreachable, if err \<noteq> ConnectionClosed \<and> err \<noteq> NoServers then [err] else [])
      else (New_err EInvalidPipe, []))"

text \<open>The first attempt of a bare name, as an uncollared pipe of the session's namespace: decided, or \<open>None\<close>
  when the collared reading is next.\<close>

definition try_uncollared ::
  "send_env \<Rightarrow> uuid \<Rightarrow> string \<Rightarrow> string \<Rightarrow> string \<Rightarrow> daemon_state \<Rightarrow> ((cerror + sendtarget) \<times> js_error list) option"
where
  "try_uncollared Q accountID bareTarget sess reqSender st =
     (if ValidatePipe bareTarget \<noteq> None then Some (Inl (New_err EInvalidPipe), [])
      else
        (let manifold = CurrentNamespace sess st
         in case connect_error (sv_Connected1 Q) (sv_NATS1 Q) of Some e \<Rightarrow> Some (Inl e, [])
            | None \<Rightarrow>
                if sv_JS1 Q \<noteq> None then None
                else (case sv_Stream1 Q (BuildStreamName accountID manifold '''' bareTarget) of
                        None \<Rightarrow> Some (Inr \<lparr>sg_subject = BuildSubject accountID manifold '''' bareTarget,
                                   sg_sender = senderForRequest reqSender (Current sess st), sg_manifold = manifold,
                                   sg_source = '''', sg_pipe = bareTarget\<rparr>, [])
                      | Some err \<Rightarrow>
                          if err = StreamNotFound then None
                          else (case lookup_error (New_err EInvalidPipe) err of (e, rep) \<Rightarrow> Some (Inl e, rep)))))"

text \<open>The collared reading, once the handle is known: connection and stream are checked.\<close>

definition collared_target ::
  "send_env \<Rightarrow> uuid \<Rightarrow> string \<Rightarrow> string \<Rightarrow> string \<Rightarrow> string \<Rightarrow> daemon_state \<Rightarrow> (cerror + sendtarget) \<times> js_error list"
where
  "collared_target Q accountID current pipe sess reqSender st =
     (case connect_error (sv_Connected2 Q) (sv_NATS2 Q) of Some e \<Rightarrow> (Inl e, [])
      | None \<Rightarrow>
          (let manifold = HandleManifold current st;
               found = Inr \<lparr>sg_subject = BuildSubject accountID manifold current pipe,
                  sg_sender = senderForRequest reqSender (Current sess st), sg_manifold = manifold, sg_source = current, sg_pipe = pipe\<rparr>
           in if sv_JS2 Q \<noteq> None then (found, [])
              else (case sv_Stream2 Q (BuildStreamName accountID manifold current pipe) of
                      None \<Rightarrow> (found, [])
                    | Some err \<Rightarrow> (case lookup_error (NewPipeNotFound pipe current) err of (e, rep) \<Rightarrow> (Inl e, rep)))))"

definition resolveSendTarget ::
  "send_env \<Rightarrow> string \<Rightarrow> string \<Rightarrow> string \<Rightarrow> string \<Rightarrow> string \<Rightarrow> list_state \<Rightarrow> (cerror + sendtarget) \<times> list_state \<times> js_error list"
where
  "resolveSendTarget Q reqHandle reqChannel bareTarget sess reqSender st =
     (if \<not> st_creds (fst st) then (Inl (New_err ENotLoggedIn), st, [])
      else case sv_Account Q of
        None \<Rightarrow> (Inl \<lparr>Code = ''E_INTERNAL'', Message = ''bad account id''\<rparr>, st, [])
      | Some accountID \<Rightarrow>
     (case (if shouldTryUncollaredFirst bareTarget then try_uncollared Q accountID bareTarget sess reqSender (fst st) else None) of
        Some (r, rep) \<Rightarrow> (r, st, rep)
      | None \<Rightarrow>
          (let fromCurrent = (reqHandle = '''' \<and> sv_EnvCurrent Q = '''');
               current = (if reqHandle = '''' then Current sess (fst st) else reqHandle);
               pipe = (if reqChannel = '''' then ''broadcast'' else reqChannel)
           in if current = '''' then (Inl (New_err ENoCurrentSource), st, [])
              else if ValidatePipe pipe \<noteq> None then (Inl (New_err EInvalidPipe), st, [])
              else
                (case (if current \<notin> st_knownPipes (fst st) \<or> fromCurrent
                       then (case sv_Sources Q of Inl e \<Rightarrow> (Some e, st)
                             | Inr srcs \<Rightarrow>
                                 (let st1 = refreshSourceCache srcs (fst st)
                                  in if current \<in> st_knownPipes (fst st1) then (None, st1)
                                     else if fromCurrent then (Some (New_err ENoCurrentSource), (ClearCurrent sess (fst st1), snd st1))
                                     else (Some (NewSourceNotFound current), st1)))
                       else (None, st)) of
                   (Some e, st1) \<Rightarrow> (Inl e, st1, [])
                 | (None, st1) \<Rightarrow>
                     (case collared_target Q accountID current pipe sess reqSender (fst st1) of (r, rep) \<Rightarrow> (r, st1, rep))))))"


section \<open>Sending\<close>

record sendrequest =
  sr_Handle :: string
  sr_Channel :: string
  sr_Payload :: string
  sr_MsgSubject :: string
  sr_InReplyTo :: string
  sr_AckRequested :: bool
  sr_Session :: string
  sr_Sender :: string
  sr_BareTarget :: string

record sendreply =
  sl_ID :: string
  sl_Subject :: string
  sl_Bytes :: nat

record sendbatchrequest =
  sb_Handle :: string
  sb_Channel :: string
  sb_BareTarget :: string
  sb_Payloads :: "string list"
  sb_Session :: string

record sendbatchreply =
  sz_IDs :: "string list"
  sz_Subject :: string
  sz_Bytes :: "nat list"

text \<open>What a send leaves behind: messages handed to the broker, errors reported, the session state and the
  heartbeat cache.\<close>

record send_out =
  so_published :: "(string \<times> envelope) list"
  so_reported :: "js_error list"
  so_state :: list_state
  so_heartbeats :: heartbeatcache

definition nothing_sent :: "list_state \<Rightarrow> heartbeatcache \<Rightarrow> js_error list \<Rightarrow> send_out" where
  "nothing_sent st hb rep = \<lparr>so_published = [], so_reported = rep, so_state = st, so_heartbeats = hb\<rparr>"

definition buildBroadcastEnvelope :: "uuid \<Rightarrow> sendrequest \<Rightarrow> string \<Rightarrow> instant \<Rightarrow> envelope" where
  "buildBroadcastEnvelope newID req sender now =
     (New_envelope newID sender (sr_MsgSubject req) (sr_Payload req) now)
       \<lparr>en_InReplyTo := sr_InReplyTo req, en_AckRequested := sr_AckRequested req\<rparr>"

text \<open>\<open>handleSend\<close>: \<open>Marshal\<close> is the JSON encoder, \<open>js\<close> and \<open>ack\<close> the outcome of the publish, \<open>now\<close> the clock
  at the envelope and \<open>now2\<close> at the heartbeat stamp.\<close>

definition handleSend ::
  "send_env \<Rightarrow> (envelope \<Rightarrow> string + string) \<Rightarrow> cerror option \<Rightarrow> js_error option \<Rightarrow> uuid \<Rightarrow> instant \<Rightarrow> instant
   \<Rightarrow> string + sendrequest \<Rightarrow> list_state \<Rightarrow> heartbeatcache \<Rightarrow> (cerror + sendreply) \<times> send_out"
where
  "handleSend Q Marshal js ack newID now now2 params st hb =
     (case params of
        Inl t \<Rightarrow> (Inl \<lparr>Code = ''E_PROTOCOL'', Message = t\<rparr>, nothing_sent st hb [])
      | Inr req \<Rightarrow>
          if has_prefix (sr_MsgSubject req) ''ack:'' then (Inl (New_err EInvalidSubject), nothing_sent st hb [])
          else
     (case resolveSendTarget Q (sr_Handle req) (sr_Channel req) (sr_BareTarget req) (sr_Session req) (sr_Sender req) st of
        (Inl e, st1, rep) \<Rightarrow> (Inl e, nothing_sent st1 hb rep)
      | (Inr target, st1, rep) \<Rightarrow>
          (let env = buildBroadcastEnvelope newID req (sg_sender target) now
           in case Marshal env of
                Inl t \<Rightarrow> (Inl \<lparr>Code = ''E_INTERNAL'', Message = t\<rparr>, nothing_sent st1 hb rep)
              | Inr data \<Rightarrow>
                  if MaxBytes < length data then (Inl (New_err EPayloadTooLarge), nothing_sent st1 hb rep)
                  else
          (case publishWithAck js ack of
             (Some e, rep2) \<Rightarrow>
               (Inl e, (nothing_sent st1 hb (rep @ rep2))\<lparr>so_published := (if js = None then [(sg_subject target, env)] else [])\<rparr>)
           | (None, rep2) \<Rightarrow>
               (Inr \<lparr>sl_ID = newID, sl_Subject = sg_subject target, sl_Bytes = length (sr_Payload req)\<rparr>,
                \<lparr>so_published = [(sg_subject target, env)], so_reported = rep @ rep2, so_state = st1,
                 so_heartbeats = applyHeartbeatStamp (sr_Channel req) (sr_Handle req) (st_accountID (fst st1)) (sr_Payload req) now2 hb\<rparr>)))))"

text \<open>The batch is checked as a whole before anything is published.\<close>

fun encode_batch ::
  "(envelope \<Rightarrow> string + string) \<Rightarrow> (nat \<Rightarrow> uuid) \<Rightarrow> nat \<Rightarrow> string \<Rightarrow> instant \<Rightarrow> string list \<Rightarrow> cerror + envelope list"
where
  "encode_batch Marshal newID k sender now [] = Inr []"
| "encode_batch Marshal newID k sender now (payload # ps) =
     (let env = New_envelope (newID k) sender '''' payload now
      in case Marshal env of
           Inl t \<Rightarrow> Inl \<lparr>Code = ''E_INTERNAL'', Message = t\<rparr>
         | Inr data \<Rightarrow>
             if MaxBytes < length data then Inl (New_err EPayloadTooLarge)
             else (case encode_batch Marshal newID (Suc k) sender now ps of Inl e \<Rightarrow> Inl e | Inr envs \<Rightarrow> Inr (env # envs)))"

definition handleSendBatch ::
  "send_env \<Rightarrow> (envelope \<Rightarrow> string + string) \<Rightarrow> cerror option \<Rightarrow> (nat \<Rightarrow> js_error option) \<Rightarrow> bool \<Rightarrow> (nat \<Rightarrow> js_error option)
   \<Rightarrow> (nat \<Rightarrow> uuid) \<Rightarrow> instant \<Rightarrow> instant \<Rightarrow> string + sendbatchrequest \<Rightarrow> list_state \<Rightarrow> heartbeatcache
   \<Rightarrow> (cerror + sendbatchreply) \<times> send_out"
where
  "handleSendBatch Q Marshal js async complete acks newID now now2 params st hb =
     (case params of
        Inl t \<Rightarrow> (Inl \<lparr>Code = ''E_PROTOCOL'', Message = t\<rparr>, nothing_sent st hb [])
      | Inr req \<Rightarrow>
          if sb_Payloads req = [] then (Inr \<lparr>sz_IDs = [], sz_Subject = '''', sz_Bytes = []\<rparr>, nothing_sent st hb [])
          else
     (case resolveSendTarget Q (sb_Handle req) (sb_Channel req) (sb_BareTarget req) (sb_Session req) '''' st of
        (Inl e, st1, rep) \<Rightarrow> (Inl e, nothing_sent st1 hb rep)
      | (Inr target, st1, rep) \<Rightarrow>
     (case encode_batch Marshal newID 0 (sg_sender target) now (sb_Payloads req) of
        Inl e \<Rightarrow> (Inl e, nothing_sent st1 hb rep)
      | Inr envs \<Rightarrow>
     (case publishBatchWithAck js async complete acks (length envs) of
        (k, Some e, rep2) \<Rightarrow>
          (Inl e, (nothing_sent st1 hb (rep @ rep2))\<lparr>so_published := map (\<lambda>env. (sg_subject target, env)) (take k envs)\<rparr>)
      | (k, None, rep2) \<Rightarrow>
          (Inr \<lparr>sz_IDs = map en_ID envs, sz_Subject = sg_subject target, sz_Bytes = map length (sb_Payloads req)\<rparr>,
           \<lparr>so_published = map (\<lambda>env. (sg_subject target, env)) (take k envs), so_reported = rep @ rep2, so_state = st1,
            so_heartbeats = applyHeartbeatStamp (sb_Channel req) (sb_Handle req) (st_accountID (fst st1)) (last (sb_Payloads req)) now2 hb\<rparr>)))))"

text \<open>\<open>publishEnvelope\<close>: the daemon's own messages, the acknowledgements.\<close>

definition publishEnvelope ::
  "(envelope \<Rightarrow> string + string) \<Rightarrow> cerror option \<Rightarrow> js_error option \<Rightarrow> uuid \<Rightarrow> string \<Rightarrow> string \<Rightarrow> envelope \<Rightarrow> daemon_state
   \<Rightarrow> (string + cerror) option \<times> (string \<times> envelope) list"
where
  "publishEnvelope Marshal js ack accountID dest pipe env st =
     (case Marshal env of Inl t \<Rightarrow> (Some (Inl t), [])
      | Inr data \<Rightarrow>
          (let subject = BuildSubject accountID (HandleManifold dest st) dest pipe
           in (map_option Inr (fst (publishWithAck js ack)), if js = None then [(subject, env)] else [])))"

section \<open>Scheduled sends\<close>

record schedulecreaterequest_ipc =
  sci_Session :: string
  sci_Sender :: string
  sci_Handle :: string
  sci_Channel :: string
  sci_BareTarget :: string
  sci_Payload :: string
  sci_Kind :: string
  sci_At :: string
  sci_Every :: string
  sci_Cron :: string
  sci_TZ :: string

text \<open>\<open>handleScheduleCreate\<close>: the body for the server; \<open>post\<close> is its answer.\<close>

definition schedule_body :: "schedulecreaterequest_ipc \<Rightarrow> sendtarget \<Rightarrow> schedulecreaterequest" where
  "schedule_body req target =
     \<lparr>sq_Manifold = sg_manifold target, sq_Handle = sg_source target, sq_Pipe = sg_pipe target, sq_Payload = sci_Payload req,
      sq_Sender = sg_sender target, sq_Kind = sci_Kind req, sq_At = sci_At req, sq_Every = sci_Every req, sq_Cron = sci_Cron req,
      sq_TZ = sci_TZ req\<rparr>"

definition handleScheduleCreate ::
  "send_env \<Rightarrow> (schedulecreaterequest \<Rightarrow> cerror + schedulecreatereply) \<Rightarrow> string + schedulecreaterequest_ipc \<Rightarrow> list_state
   \<Rightarrow> (cerror + schedulecreatereply) \<times> list_state"
where
  "handleScheduleCreate Q post params st =
     (case params of Inl t \<Rightarrow> (Inl \<lparr>Code = ''E_PROTOCOL'', Message = t\<rparr>, st)
      | Inr req \<Rightarrow>
     (case resolveSendTarget Q (sci_Handle req) (sci_Channel req) (sci_BareTarget req) (sci_Session req) (sci_Sender req) st of
        (Inl e, st1, rep) \<Rightarrow> (Inl e, st1)
      | (Inr target, st1, rep) \<Rightarrow> (post (schedule_body req target), st1)))"

definition handleScheduleList :: "cerror + scheduleinfo list \<Rightarrow> string + unit \<Rightarrow> cerror + scheduleinfo list" where
  "handleScheduleList get params =
     (case params of Inl t \<Rightarrow> Inl \<lparr>Code = ''E_PROTOCOL'', Message = t\<rparr> | Inr _ \<Rightarrow> get)"

definition handleScheduleRemove :: "(string \<Rightarrow> cerror + 'r) \<Rightarrow> string + string \<Rightarrow> cerror + 'r" where
  "handleScheduleRemove del params =
     (case params of Inl t \<Rightarrow> Inl \<lparr>Code = ''E_PROTOCOL'', Message = t\<rparr>
      | Inr ID \<Rightarrow> if ID = '''' then Inl (NewScheduleNotFound ID) else del (''/api/v1/schedules/'' @ ID))"


section \<open>What a resolved target is\<close>

lemma lookup_error_not_None: "fst (lookup_error nf err) = e \<Longrightarrow> lookup_error nf err = (e, snd (lookup_error nf err))"
  by (cases "lookup_error nf err") simp

text \<open>A target is made of its parts, and its stream was found unless JetStream could not be opened.\<close>

definition target_ok :: "send_env \<Rightarrow> uuid \<Rightarrow> string \<Rightarrow> sendtarget \<Rightarrow> bool" where
  "target_ok Q account sender t \<longleftrightarrow>
     sg_subject t = BuildSubject account (sg_manifold t) (sg_source t) (sg_pipe t) \<and> sg_sender t = sender
     \<and> (let name = BuildStreamName account (sg_manifold t) (sg_source t) (sg_pipe t)
        in if sg_source t = '''' then sv_JS1 Q = None \<and> sv_Stream1 Q name = None
           else sv_JS2 Q = None \<longrightarrow> sv_Stream2 Q name = None)"

lemma try_uncollared_ok:
  assumes "try_uncollared Q account bare sess reqSender st = Some (Inr t, rep)"
  shows "target_ok Q account (senderForRequest reqSender (Current sess st)) t \<and> sg_source t = '''' \<and> sg_pipe t = bare \<and> rep = []"
  using assms
  by (auto simp: try_uncollared_def target_ok_def Let_def split: if_splits option.splits prod.splits)

lemma collared_target_ok:
  assumes "collared_target Q account current pipe sess reqSender st = (Inr t, rep)" "current \<noteq> ''''"
  shows "target_ok Q account (senderForRequest reqSender (Current sess st)) t \<and> sg_source t = current \<and> sg_pipe t = pipe \<and> rep = []"
  using assms
  by (auto simp: collared_target_def target_ok_def Let_def split: if_splits option.splits prod.splits)

lemma refresh_keeps:
  "refreshSourceCache srcs st = (st', compl) \<Longrightarrow>
   st_accountID st' = st_accountID st \<and> (\<forall>sess. Current sess st' = Current sess st)"
  by (auto simp: refreshSourceCache_def ResetSources_def Current_def)


lemma resolve_ok:
  assumes "resolveSendTarget Q h ch bare sess reqSender st = (Inr t, st1, rep)"
  shows "\<exists>account. sv_Account Q = Some account \<and> target_ok Q account (senderForRequest reqSender (Current sess (fst st))) t
    \<and> st_creds (fst st) \<and> rep = [] \<and> st_accountID (fst st1) = st_accountID (fst st)
    \<and> (if sg_source t = '''' then bare \<noteq> '''' \<and> sg_pipe t = bare
       else sg_source t = (if h = '''' then Current sess (fst st) else h) \<and> sg_pipe t = (if ch = '''' then ''broadcast'' else ch))"
  using assms
  by (auto simp: resolveSendTarget_def Let_def shouldTryUncollaredFirst_def
      split: if_splits option.splits prod.splits sum.splits
      dest!: try_uncollared_ok collared_target_ok refresh_keeps)

text \<open>
  Where a request goes, from its own fields: a bare name is the uncollared pipe of that name in the
  session's namespace when its stream exists; otherwise the handle of the request, or else the current
  one of the session, and the channel, or else \<open>broadcast\<close>, in the namespace of the handle. \<open>st1\<close> is the
  state after the look-up, which may have refreshed the handles' namespaces.
\<close>

definition send_addressed :: "send_env \<Rightarrow> uuid \<Rightarrow> sendrequest \<Rightarrow> daemon_state \<Rightarrow> daemon_state \<Rightarrow> string \<Rightarrow> bool" where
  "send_addressed Q account req st st1 subject \<longleftrightarrow>
     (let bare = sr_BareTarget req;
          ns = CurrentNamespace (sr_Session req) st;
          handle = (if sr_Handle req = '''' then Current (sr_Session req) st else sr_Handle req);
          pipe = (if sr_Channel req = '''' then ''broadcast'' else sr_Channel req);
          manifold = HandleManifold handle st1
      in bare \<noteq> '''' \<and> sv_JS1 Q = None \<and> sv_Stream1 Q (BuildStreamName account ns '''' bare) = None
           \<and> subject = BuildSubject account ns '''' bare
         \<or> (bare = '''' \<or> sv_JS1 Q \<noteq> None \<or> sv_Stream1 Q (BuildStreamName account ns '''' bare) = Some StreamNotFound)
           \<and> handle \<noteq> '''' \<and> (sv_JS2 Q = None \<longrightarrow> sv_Stream2 Q (BuildStreamName account manifold handle pipe) = None)
           \<and> subject = BuildSubject account manifold handle pipe)"

lemma uncollared_found:
  assumes "try_uncollared Q account bare sess reqSender st = Some (Inr t, rep)"
  shows "sv_JS1 Q = None \<and> sv_Stream1 Q (BuildStreamName account (CurrentNamespace sess st) '''' bare) = None
    \<and> sg_subject t = BuildSubject account (CurrentNamespace sess st) '''' bare"
  using assms by (auto simp: try_uncollared_def Let_def split: if_splits option.splits prod.splits)

lemma uncollared_not_found:
  assumes "try_uncollared Q account bare sess reqSender st = None"
  shows "sv_JS1 Q \<noteq> None \<or> sv_Stream1 Q (BuildStreamName account (CurrentNamespace sess st) '''' bare) = Some StreamNotFound"
  using assms by (auto simp: try_uncollared_def Let_def split: if_splits option.splits prod.splits)

lemma collared_found:
  assumes "collared_target Q account current pipe sess reqSender st = (Inr t, rep)"
  shows "(sv_JS2 Q = None \<longrightarrow> sv_Stream2 Q (BuildStreamName account (HandleManifold current st) current pipe) = None)
    \<and> sg_subject t = BuildSubject account (HandleManifold current st) current pipe"
  using assms by (auto simp: collared_target_def Let_def split: if_splits option.splits prod.splits)

lemma resolve_addressed:
  assumes "resolveSendTarget Q (sr_Handle req) (sr_Channel req) (sr_BareTarget req) (sr_Session req) reqSender st = (Inr t, st1, rep)"
    and "sv_Account Q = Some account"
  shows "send_addressed Q account req (fst st) (fst st1) (sg_subject t)"
proof (cases "sr_BareTarget req \<noteq> '''' \<and> try_uncollared Q account (sr_BareTarget req) (sr_Session req) reqSender (fst st) \<noteq> None")
  case True
  then obtain r rp where u: "try_uncollared Q account (sr_BareTarget req) (sr_Session req) reqSender (fst st) = Some (r, rp)" by auto
  with assms True have "r = Inr t"
    by (auto simp: resolveSendTarget_def shouldTryUncollaredFirst_def split: if_splits)
  with u have "try_uncollared Q account (sr_BareTarget req) (sr_Session req) reqSender (fst st) = Some (Inr t, rp)" by simp
  from uncollared_found [OF this] True show ?thesis by (simp add: send_addressed_def Let_def)
next
  case False
  then have first: "sr_BareTarget req = '''' \<or> sv_JS1 Q \<noteq> None
      \<or> sv_Stream1 Q (BuildStreamName account (CurrentNamespace (sr_Session req) (fst st)) '''' (sr_BareTarget req)) = Some StreamNotFound"
    using uncollared_not_found by blast
  let ?h = "if sr_Handle req = '''' then Current (sr_Session req) (fst st) else sr_Handle req"
  let ?p = "if sr_Channel req = '''' then ''broadcast'' else sr_Channel req"
  have none: "(if shouldTryUncollaredFirst (sr_BareTarget req) then try_uncollared Q account (sr_BareTarget req) (sr_Session req) reqSender (fst st) else None) = None"
    using False unfolding shouldTryUncollaredFirst_def by (simp del: not_None_eq) blast
  from assms(1) have "?h \<noteq> '''' \<and> (\<exists>rp. collared_target Q account ?h ?p (sr_Session req) reqSender (fst st1) = (Inr t, rp))"
    unfolding resolveSendTarget_def assms(2) option.case none Let_def
    by (auto split: if_splits option.splits prod.splits sum.splits)
  with first collared_found [of Q account ?h ?p "sr_Session req" reqSender "fst st1" t]
  show ?thesis unfolding send_addressed_def Let_def by blast
qed

text \<open>C15: A send answers success only for a message the broker has acknowledged. Exactly one message went out, on the
  subject the request addresses: a bare name goes to the uncollared pipe of the session's namespace if its
  stream is there, everything else to the request's handle or the session's current one and the
  request's channel or \<open>broadcast\<close>, in the namespace of that handle. Its stream was looked up and found, unless
  JetStream could not be opened for the look-up of a handle's pipe (the acknowledgement alone vouches for
  it then). The message carries the text, the subject line and the reply reference of the request and
  the sender it names or else the session's current handle, is within the size limit and has no reserved
  subject. A send that fails after handing a message over says that delivery failed, is unconfirmed or forbidden.\<close>

theorem send_success_is_stored:
  assumes "handleSend Q Marshal js ack newID now now2 (Inr req) st hb = (res, out)"
  shows "(\<forall>r. res = Inr r \<longrightarrow> js = None \<and> ack = None
      \<and> (\<exists>account subject env data. sv_Account Q = Some account \<and> send_addressed Q account req (fst st) (fst (so_state out)) subject
          \<and> env = \<lparr>en_ID = newID, en_Sender = senderForRequest (sr_Sender req) (Current (sr_Session req) (fst st)),
                   en_Subject = sr_MsgSubject req, en_Payload = sr_Payload req, en_CreatedAt = now,
                   en_InReplyTo = sr_InReplyTo req, en_AckRequested = sr_AckRequested req, en_ScheduleID = ''''\<rparr>
          \<and> so_published out = [(subject, env)]
          \<and> Marshal env = Inr data \<and> length data \<le> 65536
          \<and> r = \<lparr>sl_ID = newID, sl_Subject = subject, sl_Bytes = length (sr_Payload req)\<rparr>)
      \<and> \<not> has_prefix (sr_MsgSubject req) ''ack:'')
    \<and> (\<forall>e. res = Inl e \<longrightarrow> so_heartbeats out = hb
      \<and> (so_published out \<noteq> [] \<longrightarrow> js = None \<and> ack \<noteq> None \<and> Code e \<in> {EPipeForbidden, ENATSUnreachable, EDeliveryUnconfirmed}))"
proof (cases "has_prefix (sr_MsgSubject req) ''ack:''")
  case True
  with assms show ?thesis by (auto simp: handleSend_def nothing_sent_def)
next
  case noack: False
  obtain r st1 rep where R: "resolveSendTarget Q (sr_Handle req) (sr_Channel req) (sr_BareTarget req) (sr_Session req) (sr_Sender req) st = (r, st1, rep)"
    by (metis prod_cases3)
  show ?thesis
  proof (cases r)
    case (Inl e)
    with assms noack R show ?thesis by (auto simp: handleSend_def nothing_sent_def)
  next
    case (Inr t)
    with resolve_ok [of Q] R obtain account where acct: "sv_Account Q = Some account"
      "sg_sender t = senderForRequest (sr_Sender req) (Current (sr_Session req) (fst st))"
      unfolding target_ok_def by blast
    from resolve_addressed [of Q req "sr_Sender req" st t st1 rep] R Inr acct(1)
    have "send_addressed Q account req (fst st) (fst st1) (sg_subject t)" by simp
    with assms noack R Inr acct show ?thesis
      by (auto simp: handleSend_def nothing_sent_def Let_def publishWithAck_def classifyPublishErr_def New_err_def
          buildBroadcastEnvelope_def New_envelope_def MaxBytes_def split: sum.splits if_splits option.splits)
  qed
qed


definition ex_send_env :: send_env where
  "ex_send_env =
     \<lparr>sv_Account = Some ''acct'', sv_EnvCurrent = '''', sv_Sources = Inr [], sv_Connected1 = True, sv_NATS1 = None, sv_JS1 = None,
      sv_Stream1 = (\<lambda>_. Some StreamNotFound), sv_Connected2 = True, sv_NATS2 = None, sv_JS2 = None, sv_Stream2 = (\<lambda>_. None)\<rparr>"

definition ex_send :: sendrequest where
  "ex_send =
     \<lparr>sr_Handle = ''alice'', sr_Channel = ''inbox'', sr_Payload = ''hi'', sr_MsgSubject = '''', sr_InReplyTo = '''',
      sr_AckRequested = False, sr_Session = '''', sr_Sender = ''bob'', sr_BareTarget = ''alice''\<rparr>"

definition ex_send_state :: list_state where
  "ex_send_state =
     (\<lparr>st_creds = True, st_accountID = ''acct'', st_current = Map.empty, st_currentNamespace = Map.empty,
       st_knownPipes = {''alice''}, st_handleManifold = Map.empty\<rparr>, None)"

lemma ex_send_fields:
  "sr_Handle ex_send = ''alice''" "sr_Channel ex_send = ''inbox''" "sr_BareTarget ex_send = ''alice''" "sr_Session ex_send = ''''"
  "sr_Sender ex_send = ''bob''" "sr_MsgSubject ex_send = ''''" "sr_Payload ex_send = ''hi''"
  by (simp_all add: ex_send_def)

lemma ex_valid_pipes: "ValidatePipe ''alice'' = None" "ValidatePipe ''inbox'' = None"
  by code_simp+

lemma ex_subject: "BuildSubject ''acct'' '''' ''alice'' ''inbox'' = ''acct.alice.inbox''"
  by code_simp

lemma ex_send_resolved:
  "resolveSendTarget ex_send_env ''alice'' ''inbox'' ''alice'' '''' ''bob'' ex_send_state =
   (Inr \<lparr>sg_subject = ''acct.alice.inbox'', sg_sender = ''bob'', sg_manifold = '''', sg_source = ''alice'', sg_pipe = ''inbox''\<rparr>,
    ex_send_state, [])"
  by (simp add: resolveSendTarget_def ex_send_state_def ex_send_env_def shouldTryUncollaredFirst_def try_uncollared_def
      ex_valid_pipes connect_error_def collared_target_def HandleManifold_def or_empty_def Let_def senderForRequest_def ex_subject)

theorem send_success_is_stored_witness:
  "\<exists>r out. handleSend ex_send_env (\<lambda>_. Inr '''') None None ''m1'' 1 2 (Inr ex_send) ex_send_state Map.empty = (Inr r, out)
     \<and> map fst (so_published out) = [''acct.alice.inbox'']"
proof -
  obtain r out where R: "handleSend ex_send_env (\<lambda>_. Inr '''') None None ''m1'' 1 2 (Inr ex_send) ex_send_state Map.empty = (Inr r, out)"
      "sl_Subject r = ''acct.alice.inbox''"
    by (simp add: handleSend_def ex_send_fields ex_send_resolved Let_def publishWithAck_def MaxBytes_def has_prefix_def)
  with send_success_is_stored [OF R(1)] show ?thesis by auto
qed

section \<open>Sending without read access\<close>

lemma stream_info_tokens:
  assumes "literal_token S"
  shows "split_dots (''$JS.API.STREAM.INFO.'' @ S) = [''$JS'', ''API'', ''STREAM'', ''INFO''] @ S # []"
proof -
  have "split_dots (join_dots [''$JS'', ''API'', ''STREAM'', ''INFO'', S]) = [''$JS'', ''API'', ''STREAM'', ''INFO'', S]"
    using assms by (intro split_join) (simp_all add: literal_token_def)
  then show ?thesis by simp
qed


text \<open>C34: Under enforcement whoever may write a pipe but not read it cannot send to it: before publishing, the
  daemon looks the stream up with a request only readers are permitted, and a refused request is never
  answered; the send reports that the broker is unreachable and publishes nothing, although the credential
  permits the publish. Writing without reading is the default for everyone else's inbox.\<close>

theorem write_only_senders_cannot_send:
  assumes "nats_authz nm permits" and "wf_access account access" and "a \<in> set access" and "can_write a" and "\<not> can_read a"
    and "pf_Stream (ac_Pipe a) = BuildStreamName account manifold handle pipe"
    and "wireSubject account (ac_Pipe a) = BuildSubject account manifold handle pipe"
    and "\<forall>name. \<not> permits (PubAllow (Compile account access)) (PubDeny (Compile account access)) (''$JS.API.STREAM.INFO.'' @ name) \<longrightarrow>
      sv_Stream2 Q name \<in> {Some Timeout, Some Deadline}"
    and "st_creds (fst st)" and "sv_Account Q = Some account" and "sv_JS2 Q = None" and "sv_Connected2 Q \<or> sv_NATS2 Q = None"
    and "sr_Handle req = handle" and "sr_Channel req = pipe" and "sr_BareTarget req = ''''"
    and "handle \<noteq> ''''" and "handle \<in> st_knownPipes (fst st)" and "HandleManifold handle (fst st) = manifold"
    and "ValidatePipe pipe = None" and "\<not> has_prefix (sr_MsgSubject req) ''ack:''"
  shows "permits (PubAllow (Compile account access)) (PubDeny (Compile account access)) (BuildSubject account manifold handle pipe)
    \<and> fst (handleSend Q Marshal js ack newID now now2 (Inr req) st hb) = Inl (New_err ENATSUnreachable)
    \<and> so_published (snd (handleSend Q Marshal js ack newID now now2 (Inr req) st hb)) = []"
proof -
  let ?S = "BuildStreamName account manifold handle pipe"
  have "literal_token ?S" using wf_access_stream [OF assms(2,3)] assms(6) by simp
  from nats_authz.read_stream_iff [OF assms(1-3), of "[''$JS'', ''API'', ''STREAM'', ''INFO'']" False "''$JS.API.STREAM.INFO.'' @ ?S" "[]"]
    stream_info_tokens [OF this] assms(5,6)
  have "\<not> permits (PubAllow (Compile account access)) (PubDeny (Compile account access)) (''$JS.API.STREAM.INFO.'' @ ?S)"
    by (simp add: read_api_def)
  with assms(8) have st: "sv_Stream2 Q ?S = Some Timeout \<or> sv_Stream2 Q ?S = Some Deadline" by auto
  have "ValidatePipe '''' \<noteq> None" by code_simp
  then have pipe: "pipe \<noteq> ''''" using assms(19) by auto
  have "fst (resolveSendTarget Q (sr_Handle req) (sr_Channel req) (sr_BareTarget req) (sr_Session req) (sr_Sender req) st) =
      Inl (New_err ENATSUnreachable)"
    using st assms(9-19) pipe
    by (auto simp: resolveSendTarget_def shouldTryUncollaredFirst_def collared_target_def connect_error_def Let_def
        lookup_error_def isJSTransportErr_def)
  moreover have "permits (PubAllow (Compile account access)) (PubDeny (Compile account access)) (BuildSubject account manifold handle pipe)"
    using nats_authz.publish_iff [OF assms(1-3)] assms(4,7) by simp
  ultimately show ?thesis
    using assms(20) by (auto simp: handleSend_def nothing_sent_def split: prod.splits)
qed

definition drop_box_access :: "access list" where
  "drop_box_access =
     [\<lparr>ac_Pipe = \<lparr>pf_Path = ''alice.inbox'', pf_Subject = ''acct.alice.inbox'', pf_Stream = ''pipe_acct_alice_inbox''\<rparr>, ac_Perm = Write\<rparr>]"

lemma drop_box: "wf_access ''acct'' drop_box_access" "can_write (drop_box_access ! 0)" "\<not> can_read (drop_box_access ! 0)"
  by (simp_all add: drop_box_access_def wf_access_def literal_token_def wireSubject_def can_write_def can_read_def Effective_def
      Read_def Write_def Admin_def)

theorem write_only_senders_cannot_send_witness:
  "fst (handleSend (ex_send_env\<lparr>sv_Stream2 := \<lambda>_. Some Timeout\<rparr>) (\<lambda>_. Inr '''') None None ''m1'' 1 2
     (Inr (ex_send\<lparr>sr_BareTarget := ''''\<rparr>)) ex_send_state Map.empty) = Inl (New_err ENATSUnreachable)"
proof -
  have N: "BuildStreamName ''acct'' '''' ''alice'' ''inbox'' = ''pipe_acct_alice_inbox''" by code_simp
  show ?thesis
    by (rule write_only_senders_cannot_send [OF nats_permits_authz drop_box(1), where a = "drop_box_access ! 0" and manifold = "''''"
          and handle = "''alice''" and pipe = "''inbox''", THEN conjunct2, THEN conjunct1])
      (simp_all only: drop_box ex_valid_pipes N ex_subject,
       simp_all add: drop_box_access_def wireSubject_def ex_send_env_def ex_send_state_def ex_send_def HandleManifold_def or_empty_def has_prefix_def)
qed

text \<open>Of two ways to learn that a publish was refused, the batch knows neither: it reports a failure of the
  connection and an unconfirmed delivery where the single send reports the refusal.\<close>

lemma batch_hides_refusal:
  assumes "publish_async async 0 n = (n, None)" and "await_acks acks 0 n = Some PermissionViolation"
  shows "publishWithAck None (Some PermissionViolation) = (Some (New_err EPipeForbidden), [])
    \<and> publishBatchWithAck None async True acks n = (n, Some (New_err EDeliveryUnconfirmed), [PermissionViolation])"
  using assms by (simp add: publishWithAck_def isPermissionErr_def publishBatchWithAck_def classifyPublishErr_def isNATSConnErr_def)

section \<open>Batches\<close>

lemma all_from_Suc: "(\<forall>i. k \<le> i \<and> i < k + Suc n \<longrightarrow> P i) \<longleftrightarrow> P k \<and> (\<forall>i. Suc k \<le> i \<and> i < Suc k + n \<longrightarrow> P i)" for k n :: nat
proof (intro iffI conjI allI impI)
  fix i assume P: "P k \<and> (\<forall>i. Suc k \<le> i \<and> i < Suc k + n \<longrightarrow> P i)" and i: "k \<le> i \<and> i < k + Suc n"
  show "P i" using P i by (cases "i = k") auto
qed auto

lemma publish_async_all:
  "publish_async async k n = (m, None) \<longleftrightarrow> m = k + n \<and> (\<forall>i. k \<le> i \<and> i < k + n \<longrightarrow> async i = None)"
proof (induction n arbitrary: k)
  case (Suc n)
  show ?case unfolding all_from_Suc using Suc.IH [of "Suc k"] by (auto split: option.splits)
qed auto

lemma await_acks_all: "await_acks acks k n = None \<longleftrightarrow> (\<forall>i. k \<le> i \<and> i < k + n \<longrightarrow> acks i = None)"
proof (induction n arbitrary: k)
  case (Suc n)
  show ?case unfolding all_from_Suc using Suc.IH [of "Suc k"] by (auto split: option.splits)
qed auto

lemma encode_batch_ok:
  assumes "encode_batch Marshal newID k sender now ps = Inr envs"
  shows "length envs = length ps \<and> map en_Payload envs = ps \<and> map en_ID envs = map newID [k..<k + length ps]
    \<and> list_all (\<lambda>e. en_Sender e = sender \<and> (\<exists>data. Marshal e = Inr data \<and> length data \<le> MaxBytes)) envs"
  using assms
proof (induction ps arbitrary: k envs)
  case (Cons p ps)
  then obtain es data where es: "encode_batch Marshal newID (Suc k) sender now ps = Inr es"
      "Marshal (New_envelope (newID k) sender '''' p now) = Inr data" "length data \<le> MaxBytes"
      "envs = New_envelope (newID k) sender '''' p now # es"
    by (auto simp: Let_def split: sum.splits if_splits)
  have "[k..<k + length (p # ps)] = k # [Suc k..<Suc k + length ps]" by (simp add: upt_conv_Cons del: upt_Suc)
  with Cons.IH [OF es(1)] es show ?case by (simp add: New_envelope_def del: upt_Suc)
qed simp


lemma batch_success_is_stored:
  assumes "handleSendBatch Q Marshal js async complete acks newID now now2 (Inr req) st hb = (Inr r, out)" and "sb_Payloads req \<noteq> []"
  shows "\<exists>t :: sendtarget. map en_Payload (map snd (so_published out)) = sb_Payloads req
    \<and> (\<forall>p \<in> set (so_published out). fst p = sg_subject t \<and> en_Sender (snd p) = sg_sender t)
    \<and> js = None \<and> complete \<and> (\<forall>i < length (sb_Payloads req). async i = None \<and> acks i = None)
    \<and> sz_IDs r = map newID [0..<length (sb_Payloads req)] \<and> sz_Subject r = sg_subject t"
proof -
  obtain res st1 rep where R: "resolveSendTarget Q (sb_Handle req) (sb_Channel req) (sb_BareTarget req) (sb_Session req) '''' st = (res, st1, rep)"
    by (metis prod_cases3)
  obtain t where t: "res = Inr t" using assms R by (cases res) (auto simp: handleSendBatch_def)
  obtain envs where E: "encode_batch Marshal newID 0 (sg_sender t) now (sb_Payloads req) = Inr envs"
    using assms R t by (cases "encode_batch Marshal newID 0 (sg_sender t) now (sb_Payloads req)") (auto simp: handleSendBatch_def)
  note ok = encode_batch_ok [OF E]
  obtain k e rep2 where P: "publishBatchWithAck js async complete acks (length envs) = (k, e, rep2)"
    by (metis prod_cases3)
  have e: "e = None" using assms R t E P by (cases e) (auto simp: handleSendBatch_def)
  have js: "js = None" using P e by (cases js) (auto simp: publishBatchWithAck_def)
  have k: "publish_async async 0 (length envs) = (k, None)" "complete" "await_acks acks 0 (length envs) = None"
    using P e js by (auto simp: publishBatchWithAck_def split: prod.splits option.splits if_splits)
  have out: "so_published out = map (Pair (sg_subject t)) (take k envs)" "r = \<lparr>sz_IDs = map en_ID envs, sz_Subject = sg_subject t, sz_Bytes = map length (sb_Payloads req)\<rparr>"
    using assms R t E P e by (auto simp: handleSendBatch_def)
  have n: "k = length envs" "length envs = length (sb_Payloads req)" using k(1) ok by (simp_all add: publish_async_all)
  show ?thesis
    using out n ok k js by (intro exI [of _ t]) (auto simp: publish_async_all await_acks_all list_all_iff comp_def)
qed

section \<open>Scheduled sends go where live sends go\<close>

lemma row_parts:
  assumes "resolveScheduleRow L Marshal probeID b key now = Inr row"
  shows "sd_AccountID row = ak_AccountID key \<and> sd_Manifold row = sq_Manifold b \<and> sd_SourceHandle row = sq_Handle b
    \<and> sd_Pipe row = sq_Pipe b \<and> sd_Payload row = sq_Payload b \<and> sd_Sender row = sq_Sender b"
  using assms
  by (auto simp: resolveScheduleRow_def Let_def split: if_splits option.splits sum.splits)

text \<open>A scheduled send goes where the same send would have gone live: the row the server stores from what the
  daemon resolved is published, when it fires, on the subject, with the text and in the name of the live send
  with the same target.\<close>

theorem scheduled_send_like_live:
  assumes "resolveSendTarget Q h ch bare sess reqSender st = (Inr t, st1, rep)" and "sv_Account Q = Some (ak_AccountID key)"
    and "sci_Payload req = sr_Payload live"
    and "resolveScheduleRow L Marshal probeID (schedule_body req t) key now = Inr row"
    and "publishScheduled E row W = (Inr (subject, env), W')"
  shows "subject = sg_subject t
    \<and> en_Payload env = en_Payload (buildBroadcastEnvelope newID live (sg_sender t) now')
    \<and> en_Sender env = en_Sender (buildBroadcastEnvelope newID live (sg_sender t) now')"
proof -
  have "target_ok Q (ak_AccountID key) (senderForRequest reqSender (Current sess (fst st))) t"
    using resolve_ok [OF assms(1)] assms(2) by auto
  then have "sg_subject t = BuildSubject (ak_AccountID key) (sg_manifold t) (sg_source t) (sg_pipe t)"
    by (simp add: target_ok_def)
  with row_parts [OF assms(4)] assms(3,5) show ?thesis
    by (auto simp: publishScheduled_def schedule_body_def buildBroadcastEnvelope_def New_envelope_def Let_def
        split: prod.splits sum.splits option.splits)
qed

section \<open>Who is online\<close>

datatype heartbeat_event = Beat string string string instant | Logout | LoginAs string

fun heartbeat_step :: "heartbeatcache \<Rightarrow> heartbeat_event \<Rightarrow> heartbeatcache" where
  "heartbeat_step c (Beat handle account payload now) = Stamp handle account payload now c"
| "heartbeat_step c Logout = Clear_heartbeats c"
| "heartbeat_step c (LoginAs account) = DropOtherAccounts account c"

definition cache_typed :: "heartbeatcache \<Rightarrow> bool" where
  "cache_typed c \<longleftrightarrow> (\<forall>h e. c h = Some e \<longrightarrow> hb_Handle e = h)"

lemma cache_typed_step: "cache_typed c \<Longrightarrow> cache_typed (heartbeat_step c ev)"
  by (cases ev) (auto simp: cache_typed_def Stamp_def Clear_heartbeats_def DropOtherAccounts_def split: option.splits if_splits)

lemma cache_typed_run: "cache_typed c \<Longrightarrow> cache_typed (foldl heartbeat_step c evs)"
  by (induction evs arbitrary: c) (simp_all add: cache_typed_step)

lemma typed_handles:
  assumes "cache_typed c"
  shows "map hb_Handle (filter P (List.map_filter c hs)) = filter (\<lambda>h. case c h of None \<Rightarrow> False | Some e \<Rightarrow> P e) hs"
  using assms by (induction hs) (auto simp: cache_typed_def List.map_filter_def split: option.splits)

lemma map_sort_key: "map f (sort_key f xs) = sort (map f xs)" for f :: "'b \<Rightarrow> 'c::linorder"
proof -
  have "map f (insort_key f x ys) = insort (f x) (map f ys)" for x ys by (induction ys) simp_all
  then show ?thesis by (induction xs) simp_all
qed

lemma who_handles: "map we_Handle (enrichEntriesWithOwners cache srcs) = map hb_Handle cache"
  by (simp add: enrichEntriesWithOwners_def Let_def)

text \<open>
  The row of a handle against the history: its last beat, with which account, text and time, and
  nothing after it that takes the row away - another beat of the handle, a logout, a login to another
  account.
\<close>

fun keeps_row :: "string \<Rightarrow> string \<Rightarrow> heartbeat_event \<Rightarrow> bool" where
  "keeps_row h a (Beat h' account payload now) \<longleftrightarrow> h' \<noteq> h"
| "keeps_row h a Logout \<longleftrightarrow> False"
| "keeps_row h a (LoginAs account) \<longleftrightarrow> account = a"

definition last_beat :: "heartbeat_event list \<Rightarrow> string \<Rightarrow> string \<Rightarrow> string \<Rightarrow> instant \<Rightarrow> bool" where
  "last_beat evs h a payload now \<longleftrightarrow>
     (\<exists>before after. evs = before @ Beat h a payload now # after \<and> (\<forall>ev \<in> set after. keeps_row h a ev))"

lemma last_beat_Nil: "\<not> last_beat [] h a payload now"
  by (simp add: last_beat_def)

lemma last_beat_snoc:
  "last_beat (evs @ [ev]) h a payload now \<longleftrightarrow>
     ev = Beat h a payload now \<or> (last_beat evs h a payload now \<and> keeps_row h a ev)"
proof
  assume "last_beat (evs @ [ev]) h a payload now"
  then obtain before after where
    *: "evs @ [ev] = before @ Beat h a payload now # after" "\<forall>ev \<in> set after. keeps_row h a ev"
    by (auto simp: last_beat_def)
  show "ev = Beat h a payload now \<or> (last_beat evs h a payload now \<and> keeps_row h a ev)"
  proof (cases after rule: rev_cases)
    case (snoc r x)
    with * show ?thesis by (auto simp: last_beat_def)
  qed (use * in simp)
next
  assume "ev = Beat h a payload now \<or> (last_beat evs h a payload now \<and> keeps_row h a ev)"
  then show "last_beat (evs @ [ev]) h a payload now"
  proof
    assume "last_beat evs h a payload now \<and> keeps_row h a ev"
    then obtain before after where "evs = before @ Beat h a payload now # after" "\<forall>ev \<in> set after. keeps_row h a ev" "keeps_row h a ev"
      by (auto simp: last_beat_def)
    then show ?thesis unfolding last_beat_def by (intro exI [of _ before] exI [of _ "after @ [ev]"]) auto
  next
    assume "ev = Beat h a payload now"
    then show ?thesis unfolding last_beat_def by (intro exI [of _ evs] exI [of _ "[]"]) simp
  qed
qed

lemma cache_history:
  "foldl heartbeat_step NewHeartbeatCache evs h = Some e \<longleftrightarrow>
     hb_Handle e = h \<and> last_beat evs h (hb_AccountID e) (hb_Payload e) (hb_ArrivedAt e)"
proof (induction evs rule: rev_induct)
  case Nil
  then show ?case by (simp add: NewHeartbeatCache_def last_beat_Nil)
next
  case (snoc ev evs)
  show ?case
  proof (cases ev)
    case (Beat h' account payload now)
    with snoc show ?thesis by (cases e) (auto simp: Stamp_def last_beat_snoc)
  next
    case Logout
    then show ?thesis by (simp add: Clear_heartbeats_def last_beat_snoc)
  next
    case (LoginAs account)
    with snoc show ?thesis by (auto simp: DropOtherAccounts_def last_beat_snoc split: option.split)
  qed
qed

lemma map_filter_set: "set (List.map_filter f xs) = {y. \<exists>x \<in> set xs. f x = Some y}"
  by (induction xs) (auto simp: List.map_filter_def split: option.splits)

lemma who_set:
  "set (handleWho handles srcs st c) = (if st_accountID st = '''' then {}
     else (\<lambda>e. \<lparr>we_Handle = hb_Handle e,
         we_Owner = or_empty (map_of (rev (map (\<lambda>s. (ls_Handle s, ls_CreatedBy s)) (case srcs of Inl _ \<Rightarrow> [] | Inr l \<Rightarrow> l))) (hb_Handle e)),
         we_Payload = hb_Payload e, we_ArrivedAt = hb_ArrivedAt e\<rparr>) ` {e. hb_AccountID e = st_accountID st \<and> (\<exists>h \<in> set handles. c h = Some e)})"
  by (auto simp: handleWho_def enrichEntriesWithOwners_def SnapshotAccount_def Let_def map_filter_set)

lemma owner_of_last:
  "or_empty (map_of (rev (map (\<lambda>s. (ls_Handle s, ls_CreatedBy s)) l)) h) =
     (case rev (filter (\<lambda>s. ls_Handle s = h) l) of [] \<Rightarrow> '''' | s # _ \<Rightarrow> ls_CreatedBy s)"
  by (induction l rule: rev_induct) (auto simp: or_empty_def)

text \<open>C32: \<open>ppz who\<close> against the history. After any sequence of beats, logouts and logins since the daemon started,
  and for any current account, it shows a handle with a payload and an arrival time exactly when the handle's
  last beat of all accounts had that payload and time, came under the current account, and was followed by
  no logout and no login to another account; one row per handle, in order, with the creator of the last
  source of that name the server listed, or none. So a late beat of another account with the same handle
  does not stay inert, it takes the row away.\<close>

theorem who_rows:
  assumes "distinct handles" and "set handles = dom c" and "c = foldl heartbeat_step NewHeartbeatCache evs"
  shows "sorted (map we_Handle (handleWho handles srcs st c)) \<and> distinct (map we_Handle (handleWho handles srcs st c))
    \<and> (\<forall>h owner payload t. \<lparr>we_Handle = h, we_Owner = owner, we_Payload = payload, we_ArrivedAt = t\<rparr> \<in> set (handleWho handles srcs st c)
         \<longleftrightarrow> st_accountID st \<noteq> '''' \<and> last_beat evs h (st_accountID st) payload t
           \<and> owner = (case rev (filter (\<lambda>s. ls_Handle s = h) (case srcs of Inl e \<Rightarrow> [] | Inr l \<Rightarrow> l)) of [] \<Rightarrow> '''' | s # older \<Rightarrow> ls_CreatedBy s))"
proof (intro conjI allI)
  have typed: "cache_typed c" using cache_typed_run [of NewHeartbeatCache evs] assms(3) by (simp add: cache_typed_def NewHeartbeatCache_def)
  let ?P = "\<lambda>e. hb_AccountID e = st_accountID st"
  have rows: "map we_Handle (handleWho handles srcs st c) =
      (if st_accountID st = '''' then [] else sort (filter (\<lambda>h. case c h of None \<Rightarrow> False | Some e \<Rightarrow> ?P e) handles))"
    by (simp add: handleWho_def who_handles SnapshotAccount_def map_sort_key typed_handles [OF typed])
  show "sorted (map we_Handle (handleWho handles srcs st c))" "distinct (map we_Handle (handleWho handles srcs st c))"
    using assms(1) by (simp_all add: rows)
next
  fix h owner payload t
  let ?row = "\<lparr>we_Handle = h, we_Owner = owner, we_Payload = payload, we_ArrivedAt = t\<rparr>"
  let ?o = "case rev (filter (\<lambda>s. ls_Handle s = h) (case srcs of Inl e \<Rightarrow> [] | Inr l \<Rightarrow> l)) of [] \<Rightarrow> '''' | s # older \<Rightarrow> ls_CreatedBy s"
  have "?row \<in> set (handleWho handles srcs st c) \<longleftrightarrow> st_accountID st \<noteq> '''' \<and> owner = ?o
      \<and> (\<exists>e. hb_AccountID e = st_accountID st \<and> hb_Handle e = h \<and> hb_Payload e = payload \<and> hb_ArrivedAt e = t \<and> (\<exists>k. c k = Some e))"
    using assms(2) by (auto simp: who_set image_iff owner_of_last)
  also have "\<dots> \<longleftrightarrow> st_accountID st \<noteq> '''' \<and> last_beat evs h (st_accountID st) payload t \<and> owner = ?o"
  proof -
    have "(\<exists>e. hb_AccountID e = st_accountID st \<and> hb_Handle e = h \<and> hb_Payload e = payload \<and> hb_ArrivedAt e = t \<and> (\<exists>k. c k = Some e))
        \<longleftrightarrow> last_beat evs h (st_accountID st) payload t"
    proof
      assume "last_beat evs h (st_accountID st) payload t"
      then have "c h = Some \<lparr>hb_Handle = h, hb_AccountID = st_accountID st, hb_Payload = payload, hb_ArrivedAt = t\<rparr>"
        unfolding assms(3) cache_history by simp
      then show "\<exists>e. hb_AccountID e = st_accountID st \<and> hb_Handle e = h \<and> hb_Payload e = payload \<and> hb_ArrivedAt e = t \<and> (\<exists>k. c k = Some e)"
        by (intro exI [of _ "\<lparr>hb_Handle = h, hb_AccountID = st_accountID st, hb_Payload = payload, hb_ArrivedAt = t\<rparr>"]) auto
    qed (use cache_history assms(3) in auto)
    then show ?thesis by blast
  qed
  finally show "?row \<in> set (handleWho handles srcs st c) \<longleftrightarrow>
      st_accountID st \<noteq> '''' \<and> last_beat evs h (st_accountID st) payload t \<and> owner = ?o" .
qed

theorem who_rows_witness:
  "(let c = foldl heartbeat_step NewHeartbeatCache [Beat ''bob'' ''acct'' ''p'' 1, Beat ''bob'' ''acct'' ''q'' 2]
    in \<lparr>we_Handle = ''bob'', we_Owner = '''', we_Payload = ''q'', we_ArrivedAt = 2\<rparr> \<in> set (handleWho [''bob''] (Inr []) (fst ex_send_state) c))
   \<and> (let c = foldl heartbeat_step NewHeartbeatCache [Beat ''bob'' ''acct'' ''p'' 1, Beat ''bob'' ''old'' ''r'' 3]
      in set (handleWho [''bob''] (Inr []) (fst ex_send_state) c) = {})"
proof
  have acct: "st_accountID (fst ex_send_state) = ''acct''" by (simp add: ex_send_state_def)
  let ?evs = "[Beat ''bob'' ''acct'' ''p'' 1, Beat ''bob'' ''acct'' ''q'' 2]"
  have "set [''bob''] = dom (foldl heartbeat_step NewHeartbeatCache ?evs)" by (simp add: Stamp_def NewHeartbeatCache_def)
  moreover have "last_beat ?evs ''bob'' ''acct'' ''q'' 2"
    using last_beat_snoc [of "[Beat ''bob'' ''acct'' ''p'' 1]"] by simp
  ultimately show "let c = foldl heartbeat_step NewHeartbeatCache ?evs
    in \<lparr>we_Handle = ''bob'', we_Owner = '''', we_Payload = ''q'', we_ArrivedAt = 2\<rparr> \<in> set (handleWho [''bob''] (Inr []) (fst ex_send_state) c)"
    using who_rows [OF _ _ refl, of "[''bob'']" ?evs "Inr []" "fst ex_send_state"] acct by (simp add: Let_def)
  show "let c = foldl heartbeat_step NewHeartbeatCache [Beat ''bob'' ''acct'' ''p'' 1, Beat ''bob'' ''old'' ''r'' 3]
      in set (handleWho [''bob''] (Inr []) (fst ex_send_state) c) = {}"
    by (auto simp: who_set acct Let_def Stamp_def NewHeartbeatCache_def)
qed

end
