(* ===== verification/WebChat.thy ===== *)
theory WebChat
  imports DaemonSend PipeHandlers
begin

text \<open>
  The web chat: \<open>internal/server/chat.go\<close>, \<open>handlers_chat.go\<close> and the read cursors of
  \<open>internal/db/chat_cursors.go\<close>.

  To the server's world it adds the messages a stream holds and the table of read cursors. A stream exists when the
  account's JetStream has a configuration under its name; what it holds is \<open>cw_content\<close>, and a stream that is created is
  empty. What the broker acknowledges it appends to the streams that list the subject; its limits are not modelled.
  The clock, fresh identifiers, JSON, the beats' arrival times and the outages of single calls are in the environment.
\<close>

section \<open>chat.go: the roster\<close>

datatype chatkind = ChatAgent | ChatInbox | ChatPipe

record chatentry =
  ce_Kind :: chatkind
  ce_Target :: string
  ce_Label :: string
  ce_Namespace :: string
  ce_Status :: string
  ce_State :: string
  ce_HasStatus :: bool
  ce_Title :: string
  ce_Unread :: int

record chatroster =
  cr_Agents :: "chatentry list"
  cr_Inboxes :: "chatentry list"
  cr_Pipes :: "chatentry list"

definition unreadCount :: "int \<Rightarrow> int \<Rightarrow> int" where
  "unreadCount lastSeq cursorSeq = (if lastSeq \<le> cursorSeq then 0 else lastSeq - cursorSeq)"

text \<open>The middle dot with its spaces.\<close>

definition dot_sep :: string where
  "dot_sep = [CHR '' '', CHR 0xC2, CHR 0xB7, CHR '' '']"

fun chatTitle :: "chatkind \<Rightarrow> string \<Rightarrow> string \<Rightarrow> string \<Rightarrow> string" where
  "chatTitle ChatAgent label st state =
     label @ dot_sep @ ''dm'' @ dot_sep @ (if st = '''' then em_dash else st) @ (if state \<noteq> '''' then ''|'' @ state else '''')"
| "chatTitle ChatInbox label st state = label @ dot_sep @ ''dm'' @ dot_sep @ ''inbox''"
| "chatTitle ChatPipe label st state = ''#'' @ label @ dot_sep @ ''pipe (uncollared)''"

definition messageHandleOwnedBy :: "source \<Rightarrow> uuid \<Rightarrow> bool" where
  "messageHandleOwnedBy src userID \<longleftrightarrow> src_Kind src = SourceKindMessage \<and> src_CreatedByUserID src = userID"

definition ownedMessageHandles :: "source list \<Rightarrow> uuid \<Rightarrow> string list" where
  "ownedMessageHandles srcs userID = sort (map src_Handle (filter (\<lambda>s. messageHandleOwnedBy s userID) srcs))"

definition pickActingHandle :: "string \<Rightarrow> string list \<Rightarrow> string" where
  "pickActingHandle requested owned =
     (if requested \<in> set owned then requested else case owned of [] \<Rightarrow> '''' | h # _ \<Rightarrow> h)"

definition excludeHandle :: "string \<Rightarrow> chatroster \<Rightarrow> chatroster" where
  "excludeHandle handle r =
     (if handle = '''' then r
      else r\<lparr>cr_Agents := filter (\<lambda>e. ce_Target e \<noteq> handle) (cr_Agents r),
             cr_Inboxes := filter (\<lambda>e. ce_Target e \<noteq> handle) (cr_Inboxes r)\<rparr>)"

definition OnlineCount :: "chatroster \<Rightarrow> nat" where
  "OnlineCount r = length (filter (\<lambda>a. ce_Status a = ''online'') (cr_Agents r))"

record chatsourceinput =
  ci_Source :: source
  ci_HeartbeatAt :: instant
  ci_IntervalSec :: int
  ci_AgentState :: string

record chatpipeinput =
  cp_Manifold :: string
  cp_Name :: string

definition classifyAgentStatus :: "instant \<Rightarrow> instant \<Rightarrow> int \<Rightarrow> string" where
  "classifyAgentStatus latest now intervalSec =
     (if latest = 0 then ''offline''
      else
        (let interval = wrap64 ((if intervalSec \<le> 0 then 60 else intervalSec) * second); age = time_sub now latest
         in if age < 0 then ''online''
            else if wrap64 (2 * age) < wrap64 (3 * interval) then ''online''
            else if age < wrap64 (3 * interval) then ''stale''
            else ''offline''))"

definition agent_entry :: "instant \<Rightarrow> chatsourceinput \<Rightarrow> chatentry" where
  "agent_entry now s =
     (let h = src_Handle (ci_Source s); st = classifyAgentStatus (ci_HeartbeatAt s) now (ci_IntervalSec s)
      in \<lparr>ce_Kind = ChatAgent, ce_Target = h, ce_Label = h, ce_Namespace = src_Manifold (ci_Source s), ce_Status = st,
          ce_State = ci_AgentState s, ce_HasStatus = True, ce_Title = chatTitle ChatAgent h st (ci_AgentState s), ce_Unread = 0\<rparr>)"

definition inbox_entry :: "chatsourceinput \<Rightarrow> chatentry" where
  "inbox_entry s =
     (let h = src_Handle (ci_Source s)
      in \<lparr>ce_Kind = ChatInbox, ce_Target = h, ce_Label = h, ce_Namespace = src_Manifold (ci_Source s), ce_Status = '''',
          ce_State = '''', ce_HasStatus = False, ce_Title = chatTitle ChatInbox h '''' '''', ce_Unread = 0\<rparr>)"

definition pipe_target :: "string \<Rightarrow> string \<Rightarrow> string" where
  "pipe_target manifold name = (if manifold \<noteq> '''' then manifold @ ''.'' @ name else name)"

definition pipe_entry :: "chatpipeinput \<Rightarrow> chatentry" where
  "pipe_entry p =
     \<lparr>ce_Kind = ChatPipe, ce_Target = pipe_target (cp_Manifold p) (cp_Name p), ce_Label = cp_Name p,
      ce_Namespace = cp_Manifold p, ce_Status = '''', ce_State = '''', ce_HasStatus = False,
      ce_Title = chatTitle ChatPipe (cp_Name p) '''' '''', ce_Unread = 0\<rparr>"

text \<open>Rows with the same sort key keep the order of the input.\<close>

definition buildChatRoster :: "chatsourceinput list \<Rightarrow> chatpipeinput list \<Rightarrow> instant \<Rightarrow> chatroster" where
  "buildChatRoster srcs ps now =
     \<lparr>cr_Agents = sort_key ce_Target
        (map (agent_entry now) (filter (\<lambda>s. src_Kind (ci_Source s) = SourceKindPTY) srcs)),
      cr_Inboxes = sort_key ce_Target
        (map inbox_entry (filter (\<lambda>s. src_Kind (ci_Source s) \<noteq> SourceKindPTY) srcs)),
      cr_Pipes = sort_key (\<lambda>e. (ce_Namespace e, ce_Label e)) (map pipe_entry ps)\<rparr>"

definition Empty_roster :: "chatroster \<Rightarrow> bool" where
  "Empty_roster r \<longleftrightarrow> length (cr_Agents r) + length (cr_Inboxes r) + length (cr_Pipes r) = 0"

section \<open>chat.go: windows\<close>

record chatwindow =
  wn_Kind :: string
  wn_Manifold :: string
  wn_Handle :: string
  wn_Name :: string
  wn_Subject :: string
  wn_StreamName :: string

text \<open>\<open>strings.Split\<close> of the manifold, every segment a handle.\<close>

definition manifold_ok :: "string \<Rightarrow> bool" where
  "manifold_ok manifold \<longleftrightarrow> manifold = '''' \<or> list_all (\<lambda>seg. ValidateHandle seg = None) (split_dots manifold)"

definition resolveChatWindow :: "uuid \<Rightarrow> string \<Rightarrow> string \<Rightarrow> string + chatwindow" where
  "resolveChatWindow acct kind target =
     (if kind = ''source'' then
        (if ValidateHandle target \<noteq> None then Inl ''invalid source handle''
         else Inr \<lparr>wn_Kind = ''source'', wn_Manifold = '''', wn_Handle = target, wn_Name = ''inbox'', wn_Subject = '''',
                   wn_StreamName = ''''\<rparr>)
      else if kind = ''pipe'' then
        (let (manifold, name) = splitManifoldName target
         in if ValidatePipe name \<noteq> None then Inl ''invalid pipe name''
            else if \<not> manifold_ok manifold then Inl ''invalid pipe manifold''
            else Inr \<lparr>wn_Kind = ''pipe'', wn_Manifold = manifold, wn_Handle = '''', wn_Name = name,
                      wn_Subject = BuildSubject acct manifold '''' name,
                      wn_StreamName = BuildStreamName acct manifold '''' name\<rparr>)
      else Inl ''unknown chat window kind'')"

section \<open>The world of the chat\<close>

record chat_cursor =
  cc_AccountID :: uuid
  cc_UserID :: uuid
  cc_Kind :: string
  cc_Acting :: string
  cc_Target :: string
  cc_LastReadSeq :: int
  cc_UpdatedAt :: instant

record chat_world =
  cw_srv :: server_world
  cw_content :: "string \<Rightarrow> string \<Rightarrow> jstream"
  cw_cursors :: "chat_cursor list"

datatype chat_site =
    CS_User | CS_Sources | CS_Owned | CS_Pipes | CS_Cursors | CS_Acting | CS_Target | CS_Exists | CS_SourceAt | CS_Insert
  | CS_Delete | CS_Upsert | CS_Clear

text \<open>
  The environment of one request: its session, the clock and fresh identifiers, the encoder, the answer to a publish,
  which streams and messages the broker fails to hand out, when the newest message of a stream arrived, and the fields
  the decoder finds in a beat (\<open>agent_state\<close>, \<open>interval_sec\<close>).
\<close>

record chat_env =
  ch_op :: op_env
  ch_faults :: "chat_site faults"
  ch_session :: gui_session
  ch_now :: instant
  ch_msgID :: uuid
  ch_marshal :: "envelope \<Rightarrow> string option"
  ch_publish :: "string option"
  ch_down :: "string \<Rightarrow> bool"
  ch_lost :: "string \<Rightarrow> nat \<Rightarrow> bool"
  ch_lastTime :: "string \<Rightarrow> instant"
  ch_beat :: "string \<Rightarrow> string \<times> int"

abbreviation chat_db :: "chat_world \<Rightarrow> database" where "chat_db C \<equiv> aw_db (cw_srv C)"

abbreviation session_user :: "chat_env \<Rightarrow> uuid" where "session_user E \<equiv> gs_user (ch_session E)"

definition empty_stream :: jstream where
  "empty_stream = \<lparr>js_Created = 0, js_Msgs = [], js_LastSeq = 0\<rparr>"

text \<open>A step of the server's world; a stream that did not exist before it is empty.\<close>

definition with_server :: "chat_world \<Rightarrow> server_world \<Rightarrow> chat_world" where
  "with_server C W =
     C\<lparr>cw_srv := W, cw_content := \<lambda>pub name. if aw_streams (cw_srv C) pub name = None then empty_stream else cw_content C pub name\<rparr>"

definition chat_JSFor :: "chat_env \<Rightarrow> uuid \<Rightarrow> chat_world \<Rightarrow> (string + string) \<times> chat_world" where
  "chat_JSFor E acct C =
     (case JSFor (pool_faults (ch_op E)) (oe_mint (ch_op E)) acct (cw_srv C) of (r, W) \<Rightarrow> (r, with_server C W))"

text \<open>\<open>js.Stream\<close> and \<open>stream.Info\<close>; \<open>js\<close> is the account's public key.\<close>

definition js_Stream :: "chat_env \<Rightarrow> chat_world \<Rightarrow> string \<Rightarrow> string \<Rightarrow> jstream option" where
  "js_Stream E C js name =
     (if ch_down E name \<or> aw_streams (cw_srv C) js name = None then None else Some (cw_content C js name))"

definition GetMsg :: "chat_env \<Rightarrow> string \<Rightarrow> jstream \<Rightarrow> nat \<Rightarrow> jmsg option" where
  "GetMsg E name S seq = (if ch_lost E name seq then None else find (\<lambda>m. jm_seq m = seq) (js_Msgs S))"

text \<open>What the broker does with a message it acknowledges.\<close>

definition append_msg :: "envelope \<Rightarrow> jstream \<Rightarrow> jstream" where
  "append_msg env S =
     S\<lparr>js_Msgs := js_Msgs S @ [\<lparr>jm_seq = js_LastSeq S + 1, jm_meta = True, jm_env = Some env\<rparr>], js_LastSeq := js_LastSeq S + 1\<rparr>"

definition deliver :: "string \<Rightarrow> string \<Rightarrow> envelope \<Rightarrow> chat_world \<Rightarrow> chat_world" where
  "deliver js subject env C =
     C\<lparr>cw_content := \<lambda>pub name.
         if pub = js \<and> (case aw_streams (cw_srv C) pub name of None \<Rightarrow> False | Some cfg \<Rightarrow> subject \<in> set (cf_Subjects cfg))
         then append_msg env (cw_content C pub name) else cw_content C pub name\<rparr>"

section \<open>chat\_cursors.go\<close>

definition ChatCursorKey :: "string \<Rightarrow> string \<Rightarrow> string \<Rightarrow> string" where
  "ChatCursorKey kind acting target = kind @ [zero_byte] @ acting @ [zero_byte] @ target"

definition ListChatReadCursors :: "string option \<Rightarrow> uuid \<Rightarrow> uuid \<Rightarrow> chat_world \<Rightarrow> dberror + (string \<rightharpoonup> int)" where
  "ListChatReadCursors flt accountID userID C =
     query flt (map_of (rev (map (\<lambda>r. (ChatCursorKey (cc_Kind r) (cc_Acting r) (cc_Target r), cc_LastReadSeq r))
       (filter (\<lambda>r. cc_AccountID r = accountID \<and> cc_UserID r = userID) (cw_cursors C)))))"

definition DeleteChatReadCursorsForTarget ::
  "string option \<Rightarrow> uuid \<Rightarrow> string \<Rightarrow> string \<Rightarrow> chat_world \<Rightarrow> dberror option \<times> chat_world"
where
  "DeleteChatReadCursorsForTarget flt accountID kind target C =
     (case flt of Some t \<Rightarrow> (Some (ErrText t), C)
      | None \<Rightarrow> (None, C\<lparr>cw_cursors := filter (\<lambda>r. \<not> (cc_AccountID r = accountID \<and> cc_Kind r = kind \<and> cc_Target r = target))
                        (cw_cursors C)\<rparr>))"

definition cursor_key :: "chat_cursor \<Rightarrow> uuid \<times> uuid \<times> string \<times> string \<times> string" where
  "cursor_key r = (cc_AccountID r, cc_UserID r, cc_Kind r, cc_Acting r, cc_Target r)"

text \<open>Postgres refuses a text with a zero byte; the account and the user are foreign keys.\<close>

definition UpsertChatReadCursor ::
  "string option \<Rightarrow> instant \<Rightarrow> uuid \<Rightarrow> uuid \<Rightarrow> string \<Rightarrow> string \<Rightarrow> string \<Rightarrow> int \<Rightarrow> chat_world \<Rightarrow> dberror option \<times> chat_world"
where
  "UpsertChatReadCursor flt now accountID userID kind acting target seq C =
     (let k = (accountID, userID, kind, acting, target)
      in case flt of Some t \<Rightarrow> (Some (ErrText t), C)
         | None \<Rightarrow>
             if zero_byte \<in> set (kind @ acting @ target) then (Some (SQLState ''22021''), C)
             else if list_ex (\<lambda>r. cursor_key r = k) (cw_cursors C)
             then (None, C\<lparr>cw_cursors := map (\<lambda>r. if cursor_key r = k
                      then r\<lparr>cc_LastReadSeq := max (cc_LastReadSeq r) seq, cc_UpdatedAt := now\<rparr> else r) (cw_cursors C)\<rparr>)
             else if \<not> has_account (chat_db C) accountID \<or> \<not> has_user (chat_db C) userID then (Some foreign_key_violation, C)
             else (None, C\<lparr>cw_cursors := cw_cursors C @
                    [\<lparr>cc_AccountID = accountID, cc_UserID = userID, cc_Kind = kind, cc_Acting = acting, cc_Target = target,
                      cc_LastReadSeq = seq, cc_UpdatedAt = now\<rparr>]\<rparr>))"

section \<open>handlers\_chat.go: the roster\<close>

text \<open>A message as the browser gets it; the time is cut to seconds.\<close>

record chatmessageview =
  cv_ID :: string
  cv_Sender :: string
  cv_Payload :: string
  cv_CreatedAt :: instant
  cv_You :: bool

definition chatView :: "envelope \<Rightarrow> string \<Rightarrow> chatmessageview" where
  "chatView env me =
     \<lparr>cv_ID = en_ID env, cv_Sender = en_Sender env, cv_Payload = en_Payload env,
      cv_CreatedAt = en_CreatedAt env div second * second, cv_You = (me \<noteq> '''' \<and> en_Sender env = me)\<rparr>"

definition meFromCtx :: "chat_env \<Rightarrow> chat_world \<Rightarrow> string" where
  "meFromCtx E C =
     (if session_user E = uuid_nil then ''''
      else case GetUser (ch_faults E CS_User) (session_user E) (chat_db C) of Inl _ \<Rightarrow> '''' | Inr u \<Rightarrow> us_Username u)"

definition chat_org :: "chat_env \<Rightarrow> chat_world \<Rightarrow> (int \<times> string) + account" where
  "chat_org E C = resolveMemberOrg (ch_op E) (gs_parse (ch_session E)) (session_user E) (gs_org (ch_session E)) (chat_db C)"

text \<open>The value of \<open>js\<close> where the error is dropped: \<open>None\<close> is \<open>nil\<close>.\<close>

definition chat_js :: "chat_env \<Rightarrow> uuid \<Rightarrow> chat_world \<Rightarrow> string option \<times> chat_world" where
  "chat_js E acct C =
     (case chat_JSFor E acct C of (Inl _, C') \<Rightarrow> (None, C') | (Inr js, C') \<Rightarrow> (Some js, C'))"

definition stream_of :: "chat_env \<Rightarrow> chat_world \<Rightarrow> string option \<Rightarrow> string \<Rightarrow> jstream option" where
  "stream_of E C js name = (case js of None \<Rightarrow> None | Some pub \<Rightarrow> js_Stream E C pub name)"

definition readAgentLiveness :: "chat_env \<Rightarrow> chat_world \<Rightarrow> string option \<Rightarrow> string \<Rightarrow> (instant \<times> int \<times> string) option" where
  "readAgentLiveness E C js streamName =
     (case stream_of E C js streamName of None \<Rightarrow> None
      | Some S \<Rightarrow>
          if js_Msgs S = [] then None
          else case GetMsg E streamName S (js_LastSeq S) of None \<Rightarrow> None
               | Some m \<Rightarrow>
                   (case jm_env m of None \<Rightarrow> None
                    | Some env \<Rightarrow>
                        (let (state, interval) = ch_beat E (en_Payload env);
                             arrived = ch_lastTime E streamName
                         in Some (if arrived = 0 then en_CreatedAt env else arrived, interval, state))))"

definition source_input :: "chat_env \<Rightarrow> chat_world \<Rightarrow> uuid \<Rightarrow> string option \<Rightarrow> source \<Rightarrow> chatsourceinput" where
  "source_input E C acct js src =
     (let bare = \<lparr>ci_Source = src, ci_HeartbeatAt = 0, ci_IntervalSec = 0, ci_AgentState = ''''\<rparr>
      in if src_Kind src \<noteq> SourceKindPTY then bare
         else case readAgentLiveness E C js (BuildStreamName acct (src_Manifold src) (src_Handle src) ''heartbeat'') of
                None \<Rightarrow> bare
              | Some (arrived, iv, state) \<Rightarrow>
                  bare\<lparr>ci_HeartbeatAt := arrived, ci_IntervalSec := iv, ci_AgentState := state\<rparr>)"

definition gatherChatRoster :: "chat_env \<Rightarrow> account \<Rightarrow> chat_world \<Rightarrow> (dberror + chatroster) \<times> chat_world" where
  "gatherChatRoster E org C =
     (let acct = acct_ID org
      in case ListSourcesForOrg (ch_faults E CS_Sources) acct (chat_db C) of Inl e \<Rightarrow> (Inl e, C)
         | Inr srcs \<Rightarrow>
     (case ListUncollaredPipesForAccount (ch_faults E CS_Pipes) acct (chat_db C) of Inl e \<Rightarrow> (Inl e, C)
      | Inr ps \<Rightarrow>
          (let (js, C1) = chat_js E acct C
           in (Inr (buildChatRoster (map (source_input E C1 acct js) srcs)
                      (map (\<lambda>p. \<lparr>cp_Manifold = pp_Manifold p, cp_Name = pp_Name p\<rparr>) ps) (ch_now E)), C1))))"

definition streamLastSeq :: "chat_env \<Rightarrow> chat_world \<Rightarrow> string option \<Rightarrow> string \<Rightarrow> int" where
  "streamLastSeq E C js name = (case stream_of E C js name of None \<Rightarrow> 0 | Some S \<Rightarrow> int (js_LastSeq S))"

definition countAfter :: "nat list \<Rightarrow> int \<Rightarrow> int" where
  "countAfter seqs cursor = int (length (filter (\<lambda>s. cursor < int s) seqs))"

section \<open>handlers\_chat.go: replaying a stream\<close>

definition chatHistoryLimit :: int where "chatHistoryLimit = 200"
definition maxChatPayload :: nat where "maxChatPayload = 2000"

text \<open>Sequence numbers are far below 2^64.\<close>

definition chatReplayStart :: "nat \<Rightarrow> nat \<Rightarrow> int \<Rightarrow> nat" where
  "chatReplayStart firstSeq lastSeq limit =
     (if limit \<le> 0 \<or> lastSeq < firstSeq then firstSeq
      else if lastSeq - firstSeq + 1 \<le> nat limit then firstSeq
      else lastSeq - nat limit + 1)"

text \<open>The messages the loop over the sequence numbers decodes; the callbacks of both callers return \<open>nil\<close>.\<close>

definition decoded_at :: "chat_env \<Rightarrow> string \<Rightarrow> jstream \<Rightarrow> nat \<Rightarrow> (nat \<times> envelope) option" where
  "decoded_at E name S seq =
     (case GetMsg E name S seq of None \<Rightarrow> None | Some m \<Rightarrow> map_option (Pair seq) (jm_env m))"

definition replay_seqs :: "chat_env \<Rightarrow> string \<Rightarrow> int \<Rightarrow> jstream \<Rightarrow> (nat \<times> envelope) list" where
  "replay_seqs E name limit S =
     (if js_Msgs S = [] then []
      else List.map_filter (decoded_at E name S) [chatReplayStart (FirstSeq S) (js_LastSeq S) limit ..< Suc (js_LastSeq S)])"

definition replayStream :: "chat_env \<Rightarrow> string \<Rightarrow> int \<Rightarrow> jstream \<Rightarrow> envelope list \<times> nat" where
  "replayStream E name limit S =
     (if js_Msgs S = [] then ([], js_LastSeq S)
      else let got = replay_seqs E name limit S in (map snd got, if got = [] then 0 else fst (last got)))"

definition drainInboxBySender :: "chat_env \<Rightarrow> chat_world \<Rightarrow> string option \<Rightarrow> string \<Rightarrow> string \<Rightarrow> nat list" where
  "drainInboxBySender E C js streamName =
     (case stream_of E C js streamName of None \<Rightarrow> (\<lambda>_. [])
      | Some S \<Rightarrow> (let got = replay_seqs E streamName chatHistoryLimit S
                   in (\<lambda>sender. map fst (filter (\<lambda>(q, env). en_Sender env = sender) got))))"

text \<open>The manifold of a handle, the root when the lookup fails.\<close>

definition handle_manifold :: "string option \<Rightarrow> uuid \<Rightarrow> string \<Rightarrow> chat_world \<Rightarrow> string" where
  "handle_manifold flt acct h C = (case GetSourceByHandle flt acct h (chat_db C) of Inl _ \<Rightarrow> '''' | Inr src \<Rightarrow> src_Manifold src)"

definition or_zero_seq :: "int option \<Rightarrow> int" where
  "or_zero_seq x = (case x of None \<Rightarrow> 0 | Some n \<Rightarrow> n)"

definition stampUnread :: "chat_env \<Rightarrow> account \<Rightarrow> uuid \<Rightarrow> string \<Rightarrow> chatroster \<Rightarrow> chat_world \<Rightarrow> chatroster \<times> chat_world" where
  "stampUnread E org userID acting roster C =
     (if userID = uuid_nil then (roster, C)
      else case ListChatReadCursors (ch_faults E CS_Cursors) (acct_ID org) userID C of
             Inl _ \<Rightarrow> (roster, C)
           | Inr cursors \<Rightarrow>
               (case chat_js E (acct_ID org) C of
                  (None, C1) \<Rightarrow> (roster, C1)
                | (Some js, C1) \<Rightarrow>
                    (let cursor = (\<lambda>kind target. or_zero_seq (cursors (ChatCursorKey kind acting target)));
                         grown = (\<lambda>kind handle pipe e.
                           e\<lparr>ce_Unread := unreadCount
                               (streamLastSeq E C1 (Some js) (BuildStreamName (acct_ID org) (ce_Namespace e) (handle e) (pipe e)))
                               (cursor kind (ce_Target e))\<rparr>);
                         hManifold = handle_manifold (ch_faults E CS_Acting) (acct_ID org) acting C1;
                         bySender = drainInboxBySender E C1 (Some js) (BuildStreamName (acct_ID org) hManifold acting ''inbox'');
                         dm = (if acting \<noteq> ''''
                               then (\<lambda>e. e\<lparr>ce_Unread := countAfter (bySender (ce_Target e)) (cursor ''source'' (ce_Target e))\<rparr>)
                               else grown ''source'' ce_Target (\<lambda>_. ''inbox''))
                     in (roster\<lparr>cr_Pipes := map (grown ''pipe'' (\<lambda>_. '''') ce_Label) (cr_Pipes roster),
                               cr_Agents := map dm (cr_Agents roster), cr_Inboxes := map dm (cr_Inboxes roster)\<rparr>, C1))))"

record chat_page =
  pgc_Org :: account
  pgc_Roster :: chatroster
  pgc_Me :: string
  pgc_Handles :: "string list"
  pgc_Acting :: string

text \<open>\<open>as\<close> is the query parameter; what is rendered is the page's data.\<close>

definition handleGUIChatPage :: "chat_env \<Rightarrow> string \<Rightarrow> chat_world \<Rightarrow> chat_page reply \<times> chat_world" where
  "handleGUIChatPage E as C =
     (case chat_org E C of Inl (st, t) \<Rightarrow> (reply.Refused st t, C)
      | Inr org \<Rightarrow>
     (case gatherChatRoster E org C of (Inl e, C1) \<Rightarrow> (reply.Refused 500 (dberr_text e), C1)
      | (Inr roster, C1) \<Rightarrow>
          (let handles = (case ListSourcesForOrg (ch_faults E CS_Owned) (acct_ID org) (chat_db C1) of
                            Inl _ \<Rightarrow> [] | Inr srcs \<Rightarrow> ownedMessageHandles srcs (session_user E));
               acting = pickActingHandle as handles;
               (roster', C2) = stampUnread E org (session_user E) acting (excludeHandle acting roster) C1
           in (Replied 200 \<lparr>pgc_Org = org, pgc_Roster = roster', pgc_Me = meFromCtx E C2, pgc_Handles = handles,
                            pgc_Acting = acting\<rparr>, C2))))"

definition handleGUIChatRoster :: "chat_env \<Rightarrow> string \<Rightarrow> chat_world \<Rightarrow> (chatroster \<times> nat) reply \<times> chat_world" where
  "handleGUIChatRoster E as C =
     (case chat_org E C of Inl (st, t) \<Rightarrow> (reply.Refused st t, C)
      | Inr org \<Rightarrow>
     (case gatherChatRoster E org C of (Inl e, C1) \<Rightarrow> (reply.Refused 500 (dberr_text e), C1)
      | (Inr roster, C1) \<Rightarrow>
          (let (roster', C2) = stampUnread E org (session_user E) as (excludeHandle as roster) C1
           in (Replied 200 (roster', OnlineCount roster'), C2))))"

section \<open>handlers\_chat.go: reading a window\<close>

definition resolveChatWindowDB :: "chat_env \<Rightarrow> account \<Rightarrow> string \<Rightarrow> string \<Rightarrow> chat_world \<Rightarrow> (int \<times> string) + string \<times> string" where
  "resolveChatWindowDB E org kind target C =
     (case resolveChatWindow (acct_ID org) kind target of Inl t \<Rightarrow> Inl (400, t)
      | Inr win \<Rightarrow>
          if wn_Kind win = ''source'' then
            (case GetSourceByHandle (ch_faults E CS_Target) (acct_ID org) (wn_Handle win) (chat_db C) of
               Inl e \<Rightarrow> Inl (if e = ErrNotFound then (404, ''source not found'') else (500, dberr_text e))
             | Inr src \<Rightarrow>
                 Inr (BuildSubject (acct_ID org) (src_Manifold src) (src_Handle src) ''inbox'',
                      BuildStreamName (acct_ID org) (src_Manifold src) (src_Handle src) ''inbox''))
          else
            (case UncollaredPipeExists (ch_faults E CS_Exists) (acct_ID org) (wn_Manifold win) (wn_Name win) (chat_db C) of
               Inl e \<Rightarrow> Inl (500, dberr_text e)
             | Inr exists \<Rightarrow>
                 if \<not> exists then Inl (404, ''pipe not found'') else Inr (wn_Subject win, wn_StreamName win)))"

record chatreadleg =
  rl_StreamName :: string
  rl_WantSender :: string

definition resolveChatReadLegs ::
  "chat_env \<Rightarrow> account \<Rightarrow> string \<Rightarrow> string \<Rightarrow> string \<Rightarrow> chat_world \<Rightarrow> (int \<times> string) + chatreadleg list"
where
  "resolveChatReadLegs E org kind target as C =
     (case resolveChatWindow (acct_ID org) kind target of Inl t \<Rightarrow> Inl (400, t)
      | Inr win \<Rightarrow>
          if wn_Kind win = ''pipe'' then
            (case UncollaredPipeExists (ch_faults E CS_Exists) (acct_ID org) (wn_Manifold win) (wn_Name win) (chat_db C) of
               Inl e \<Rightarrow> Inl (500, dberr_text e)
             | Inr exists \<Rightarrow>
                 if \<not> exists then Inl (404, ''pipe not found'')
                 else Inr [\<lparr>rl_StreamName = wn_StreamName win, rl_WantSender = ''''\<rparr>])
          else
            (case GetSourceByHandle (ch_faults E CS_Target) (acct_ID org) (wn_Handle win) (chat_db C) of
               Inl e \<Rightarrow> Inl (if e = ErrNotFound then (404, ''source not found'') else (500, dberr_text e))
             | Inr x \<Rightarrow>
                 (let xStream = BuildStreamName (acct_ID org) (src_Manifold x) (src_Handle x) ''inbox''
                  in if as = '''' \<or> as = src_Handle x then Inr [\<lparr>rl_StreamName = xStream, rl_WantSender = ''''\<rparr>]
                     else Inr [\<lparr>rl_StreamName = xStream, rl_WantSender = as\<rparr>,
                               \<lparr>rl_StreamName = BuildStreamName (acct_ID org)
                                   (handle_manifold (ch_faults E CS_Acting) (acct_ID org) as C) as ''inbox'',
                                rl_WantSender = src_Handle x\<rparr>])))"

text \<open>The callback of \<open>drainChatThread\<close>: what was seen and what is to be sent.\<close>

definition drain_msg ::
  "string \<Rightarrow> string \<Rightarrow> envelope \<Rightarrow> string list \<times> chatmessageview list \<Rightarrow> string list \<times> chatmessageview list"
where
  "drain_msg me wantSender env acc =
     (case acc of (seen, out) \<Rightarrow>
        if wantSender \<noteq> '''' \<and> en_Sender env \<noteq> wantSender then (seen, out)
        else if en_ID env \<noteq> '''' then
          (if en_ID env \<in> set seen then (seen, out) else (en_ID env # seen, out @ [chatView env me]))
        else (seen, out @ [chatView env me]))"

definition drain_leg ::
  "chat_env \<Rightarrow> chat_world \<Rightarrow> string \<Rightarrow> string \<Rightarrow> chatreadleg \<Rightarrow> string list \<times> chatmessageview list
   \<Rightarrow> string list \<times> chatmessageview list"
where
  "drain_leg E C js me leg acc =
     (case js_Stream E C js (rl_StreamName leg) of None \<Rightarrow> acc
      | Some S \<Rightarrow> fold (drain_msg me (rl_WantSender leg)) (fst (replayStream E (rl_StreamName leg) chatHistoryLimit S)) acc)"

definition drainChatThread :: "chat_env \<Rightarrow> chat_world \<Rightarrow> string option \<Rightarrow> chatreadleg list \<Rightarrow> string \<Rightarrow> chatmessageview list" where
  "drainChatThread E C js legs me =
     (case js of None \<Rightarrow> []
      | Some pub \<Rightarrow> sort_key cv_CreatedAt (snd (fold (drain_leg E C pub me) legs ([], []))))"

definition handleGUIChatMessages ::
  "chat_env \<Rightarrow> string \<Rightarrow> string \<Rightarrow> string \<Rightarrow> chat_world \<Rightarrow> chatmessageview list reply \<times> chat_world"
where
  "handleGUIChatMessages E kind target as C =
     (case chat_org E C of Inl (st, t) \<Rightarrow> (reply.Refused st t, C)
      | Inr org \<Rightarrow>
     (case resolveChatReadLegs E org kind target as C of Inl (st, t) \<Rightarrow> (reply.Refused st t, C)
      | Inr legs \<Rightarrow>
          (let (js, C1) = chat_js E (acct_ID org) C in (Replied 200 (drainChatThread E C1 js legs as), C1))))"

section \<open>handlers\_chat.go: the socket\<close>

record leg_state =
  lg_StreamName :: string
  lg_wantSender :: string
  lg_lastSeq :: nat

text \<open>
  What the socket gets: the history, sent at once, and for each stream that exists the point the live follow starts from.
  The handshake is the websocket library's. A message of the follow becomes a frame or nothing.
\<close>

definition leg_wants :: "string \<Rightarrow> envelope \<Rightarrow> bool" where
  "leg_wants wantSender env \<longleftrightarrow> wantSender = '''' \<or> en_Sender env = wantSender"

definition ws_history :: "chat_env \<Rightarrow> chat_world \<Rightarrow> string \<Rightarrow> string \<Rightarrow> chatreadleg list \<Rightarrow> chatmessageview list \<times> leg_state list" where
  "ws_history E C js me legs =
     (let open_legs = List.map_filter (\<lambda>leg. map_option (Pair leg) (js_Stream E C js (rl_StreamName leg))) legs;
          drained = (\<lambda>(leg, S). replayStream E (rl_StreamName leg) chatHistoryLimit S)
      in (sort_key cv_CreatedAt (concat (map (\<lambda>(leg, S). map (\<lambda>env. chatView env me)
            (filter (leg_wants (rl_WantSender leg)) (fst (drained (leg, S))))) open_legs)),
          map (\<lambda>(leg, S). \<lparr>lg_StreamName = rl_StreamName leg, lg_wantSender = rl_WantSender leg,
                           lg_lastSeq = snd (drained (leg, S))\<rparr>) open_legs))"

definition ws_frame :: "string \<Rightarrow> leg_state \<Rightarrow> jmsg \<Rightarrow> chatmessageview option" where
  "ws_frame me st m =
     (case jm_env m of None \<Rightarrow> None
      | Some env \<Rightarrow> if leg_wants (lg_wantSender st) env then Some (chatView env me) else None)"

text \<open>The frames of one leg while the stream grows to \<open>msgs\<close>.\<close>

definition ws_follow :: "string \<Rightarrow> leg_state \<Rightarrow> jmsg list \<Rightarrow> chatmessageview list" where
  "ws_follow me st msgs = List.map_filter (ws_frame me st) (filter (\<lambda>m. lg_lastSeq st + 1 \<le> jm_seq m) msgs)"

definition handleGUIChatWS ::
  "chat_env \<Rightarrow> bool \<Rightarrow> string \<Rightarrow> string \<Rightarrow> string \<Rightarrow> chat_world
   \<Rightarrow> (chatmessageview list \<times> leg_state list) option reply \<times> chat_world"
where
  "handleGUIChatWS E accepted kind target as C =
     (case chat_org E C of Inl (st, t) \<Rightarrow> (reply.Refused st t, C)
      | Inr org \<Rightarrow>
     (case resolveChatReadLegs E org kind target as C of Inl (st, t) \<Rightarrow> (reply.Refused st t, C)
      | Inr legs \<Rightarrow>
     (case chat_JSFor E (acct_ID org) C of (Inl e, C1) \<Rightarrow> (reply.Refused 500 (''org account: '' @ e), C1)
      | (Inr js, C1) \<Rightarrow> (Replied 101 (if accepted then Some (ws_history E C1 js as legs) else None), C1))))"

section \<open>handlers\_chat.go: sending and marking as read\<close>

record chatsendrequest =
  sq_Kind :: string
  sq_Target :: string
  sq_Payload :: string
  sq_As :: string

fun rune_count_fuel :: "nat \<Rightarrow> string \<Rightarrow> nat" where
  "rune_count_fuel 0 s = 0"
| "rune_count_fuel (Suc k) s = (if s = [] then 0 else Suc (rune_count_fuel k (drop (snd (DecodeRune s)) s)))"

text \<open>\<open>utf8.RuneCountInString\<close>; a rune has at least one byte.\<close>

definition RuneCount :: "string \<Rightarrow> nat" where
  "RuneCount s = rune_count_fuel (length s) s"

definition handleGUIChatSend ::
  "chat_env \<Rightarrow> string + chatsendrequest \<Rightarrow> chat_world \<Rightarrow> chatmessageview reply \<times> chat_world"
where
  "handleGUIChatSend E r C =
     (case chat_org E C of Inl (st, t) \<Rightarrow> (reply.Refused st t, C)
      | Inr org \<Rightarrow>
     (case r of Inl t \<Rightarrow> (reply.Refused 400 t, C)
      | Inr req \<Rightarrow>
          if sq_Payload req = '''' then (reply.Refused 400 ''empty payload'', C)
          else if maxChatPayload < RuneCount (sq_Payload req) then (reply.Refused 400 ''payload too long'', C)
          else if sq_As req = '''' then (reply.Refused 400 ''missing sending handle'', C)
          else
     (case GetSourceByHandle (ch_faults E CS_Acting) (acct_ID org) (sq_As req) (chat_db C) of
        Inl e \<Rightarrow> (if e = ErrNotFound then reply.Refused 403 ''not your handle'' else reply.Refused 500 (dberr_text e), C)
      | Inr src \<Rightarrow>
          if \<not> messageHandleOwnedBy src (session_user E) then (reply.Refused 403 ''not your handle'', C)
          else
     (case resolveChatWindowDB E org (sq_Kind req) (sq_Target req) C of Inl (st, t) \<Rightarrow> (reply.Refused st t, C)
      | Inr (subject, streamName) \<Rightarrow>
     (case chat_JSFor E (acct_ID org) C of (Inl e, C1) \<Rightarrow> (reply.Refused 500 (''org account: '' @ e), C1)
      | (Inr js, C1) \<Rightarrow>
          (let env = New_envelope (ch_msgID E) (sq_As req) '''' (sq_Payload req) (ch_now E)
           in case ch_marshal E env of Some t \<Rightarrow> (reply.Refused 500 t, C1)
              | None \<Rightarrow>
                  (case ch_publish E of Some t \<Rightarrow> (reply.Refused 502 (''publish: '' @ t), C1)
                   | None \<Rightarrow> (Replied 200 (chatView env (sq_As req)), deliver js subject env C1))))))))"

record chatreadrequest =
  mr_Kind :: string
  mr_Target :: string
  mr_As :: string

text \<open>The stream whose newest message the cursor is moved to.\<close>

definition mark_stream :: "chat_env \<Rightarrow> account \<Rightarrow> chatwindow \<Rightarrow> string \<Rightarrow> chat_world \<Rightarrow> string" where
  "mark_stream E org win as C =
     (if wn_Kind win = ''pipe'' then wn_StreamName win
      else let h = (if as = '''' then wn_Handle win else as)
           in BuildStreamName (acct_ID org) (handle_manifold (ch_faults E CS_Acting) (acct_ID org) h C) h ''inbox'')"

definition handleGUIChatMarkRead ::
  "chat_env \<Rightarrow> string + chatreadrequest \<Rightarrow> chat_world \<Rightarrow> (int \<times> int) reply \<times> chat_world"
where
  "handleGUIChatMarkRead E r C =
     (case chat_org E C of Inl (st, t) \<Rightarrow> (reply.Refused st t, C)
      | Inr org \<Rightarrow>
     (case r of Inl t \<Rightarrow> (reply.Refused 400 t, C)
      | Inr req \<Rightarrow>
     (case resolveChatWindow (acct_ID org) (mr_Kind req) (mr_Target req) of Inl t \<Rightarrow> (reply.Refused 400 t, C)
      | Inr win \<Rightarrow>
          (let (js, C1) = chat_js E (acct_ID org) C;
               newest = streamLastSeq E C1 js (mark_stream E org win (mr_As req) C1)
           in case UpsertChatReadCursor (ch_faults E CS_Upsert) (ch_now E) (acct_ID org) (session_user E) (mr_Kind req)
                     (mr_As req) (mr_Target req) newest C1 of
                (Some e, C2) \<Rightarrow> (reply.Refused 500 (dberr_text e), C2)
              | (None, C2) \<Rightarrow> (Replied 200 (0, newest), C2)))))"

section \<open>handlers\_chat.go: adding and removing pipes\<close>

definition set_streams :: "string \<Rightarrow> streams \<Rightarrow> chat_world \<Rightarrow> chat_world" where
  "set_streams js ss C = with_server C ((cw_srv C)\<lparr>aw_streams := (aw_streams (cw_srv C))(js := ss)\<rparr>)"

definition handleGUIChatAddPipe :: "chat_env \<Rightarrow> string + string \<Rightarrow> chat_world \<Rightarrow> (string \<times> string) reply \<times> chat_world" where
  "handleGUIChatAddPipe E r C =
     (case chat_org E C of Inl (st, t) \<Rightarrow> (reply.Refused st t, C)
      | Inr org \<Rightarrow>
     (case r of Inl t \<Rightarrow> (reply.Refused 400 t, C)
      | Inr name \<Rightarrow>
          if ValidateUserPipeName name \<noteq> None then (reply.Refused 400 ''invalid pipe name'', C)
          else
     (case SourceExistsAtManifold (ch_faults E CS_SourceAt) (acct_ID org) '''' name (chat_db C) of
        Inl e \<Rightarrow> (reply.Refused 500 (dberr_text e), C)
      | Inr exists \<Rightarrow>
          if exists then (reply.Refused 409 ''name taken by a source'', C)
          else
     (case InsertPipe (ch_faults E CS_Insert) (oe_newID (ch_op E)) (oe_now (ch_op E)) (acct_ID org) '''' None (session_user E) name
             None None None (chat_db C) of
        (Inl e, D1) \<Rightarrow>
          (if e = ErrPipeNameTaken then reply.Refused 409 ''pipe already exists'' else reply.Refused 500 (dberr_text e),
           with_server C ((cw_srv C)\<lparr>aw_db := D1\<rparr>))
      | (Inr pipe, D1) \<Rightarrow>
     (case chat_JSFor E (acct_ID org) (with_server C ((cw_srv C)\<lparr>aw_db := D1\<rparr>)) of
        (Inl e, C1) \<Rightarrow> (reply.Refused 500 (''org account: '' @ e), C1)
      | (Inr js, C1) \<Rightarrow>
     (case ensurePipeStreamWithRetention (pool_faults (ch_op E)) (acct_ID org) '''' '''' (pp_Name pipe)
             (defaultStreamMaxAge, defaultStreamMaxMsgs, defaultStreamMaxBytes) (aw_streams (cw_srv C1) js) of
        (Some t, ss) \<Rightarrow> (reply.Refused 500 t, set_streams js ss C1)
      | (None, ss) \<Rightarrow> (Replied 201 (pp_Name pipe, pp_Name pipe), set_streams js ss C1)))))))"

definition handleGUIChatRemovePipe :: "chat_env \<Rightarrow> string \<Rightarrow> chat_world \<Rightarrow> unit reply \<times> chat_world" where
  "handleGUIChatRemovePipe E target C =
     (case chat_org E C of Inl (st, t) \<Rightarrow> (reply.Refused st t, C)
      | Inr org \<Rightarrow>
          (let (manifold, name) = splitManifoldName target
           in if ValidatePipe name \<noteq> None then (reply.Refused 400 ''invalid pipe name'', C)
              else if \<not> manifold_ok manifold then (reply.Refused 400 ''invalid pipe manifold'', C)
              else
     (case DeleteUncollaredPipe (ch_faults E CS_Delete) (acct_ID org) manifold name (chat_db C) of
        (Some e, D1) \<Rightarrow>
          (if e = ErrNotFound then reply.Refused 404 ''pipe not found'' else reply.Refused 500 (dberr_text e),
           with_server C ((cw_srv C)\<lparr>aw_db := D1\<rparr>))
      | (None, D1) \<Rightarrow>
     (case chat_JSFor E (acct_ID org) (with_server C ((cw_srv C)\<lparr>aw_db := D1\<rparr>)) of
        (Inl e, C1) \<Rightarrow> (reply.Refused 500 (''org account: '' @ e), C1)
      | (Inr js, C1) \<Rightarrow>
     (case deleteUncollaredPipeStream (pool_faults (ch_op E)) (acct_ID org) manifold name (aw_streams (cw_srv C1) js) of
        (Some t, ss) \<Rightarrow> (reply.Refused 500 t, set_streams js ss C1)
      | (None, ss) \<Rightarrow>
          (Replied 204 (), snd (DeleteChatReadCursorsForTarget (ch_faults E CS_Clear) (acct_ID org) ''pipe'' target
             (set_streams js ss C1))))))))"

end
