(* ===== verification/PipeInvariant.thy ===== *)
theory PipeInvariant
  imports PipeProps WebChat
begin

text \<open>
  The state every pipe request keeps, whatever fails: the constraints of the schema, rows of a
  source that agree with it, validated names, and no uncollared pipe in the name space a source
  reserves. From it follows that no two pipes of an account share a JetStream stream. The requests
  are the bearer API's, the organisation page's and the chat's own two (\<open>handleGUIChatAddPipe\<close>,
  \<open>handleGUIChatRemovePipe\<close>), which have their own checks. A request is one step; the reads and
  writes of concurrent requests are not interleaved here.
\<close>

section \<open>The invariant\<close>

definition full_path :: "source \<Rightarrow> string" where
  "full_path s = (if src_Manifold s \<noteq> '''' then src_Manifold s @ ''.'' @ src_Handle s else src_Handle s)"

definition separate :: "database \<Rightarrow> bool" where
  "separate D \<longleftrightarrow>
     (\<forall>p \<in> set (pipes D). \<forall>s \<in> set (sources D).
        pp_SourceID p = None \<and> pp_AccountID p = src_AccountID s \<longrightarrow> pp_Manifold p \<noteq> full_path s)"

definition stored_valid :: "database \<Rightarrow> bool" where
  "stored_valid D \<longleftrightarrow>
     (\<forall>s \<in> set (sources D). valid_manifold (src_Manifold s) \<and> HandleRegex (src_Handle s)) \<and>
     (\<forall>p \<in> set (pipes D). HandleRegex (pp_Name p) \<and>
        (pp_SourceID p = None \<longrightarrow> valid_manifold (pp_Manifold p) \<and> pp_Name p \<noteq> PresencePipe))"

definition kept :: "database \<Rightarrow> bool" where
  "kept D \<longleftrightarrow> schema_ok D \<and> collared_ok D \<and> separate D \<and> stored_valid D"

lemma kept_cong:
  assumes "kept D" and "sources D' = sources D" and "pipes D' = pipes D" and "users D' = users D"
    and "map acct_ID (accounts D') = map acct_ID (accounts D)"
  shows "kept D'"
proof -
  have "acct_ID ` set (accounts D') = acct_ID ` set (accounts D)" using assms(5) by (metis set_map)
  then have "schema_ok D' = schema_ok D"
    by (simp add: schema_ok_def assms(2-4) has_source_def has_account_def has_user_def)
  then show ?thesis using assms(1-3) by (simp add: kept_def collared_ok_def separate_def stored_valid_def)
qed

lemma kept_nats: "kept D \<Longrightarrow> nats_only D D' \<Longrightarrow> kept D'"
  using nats_only_tables [of D D'] nats_only_accounts [of D D' acct_ID]
  by (auto intro: kept_cong simp: sans_nats_def)

lemma kept_audit [simp]:
  "kept (auditPipe f i now key act tgt b a D) \<longleftrightarrow> kept D" "kept (auditSource f i now key act s b a D) \<longleftrightarrow> kept D"
  by (auto elim!: kept_cong)

lemma kept_JSFor:
  assumes "JSFor flt mint acc W = (r, W')" and "kept (aw_db W)"
  shows "kept (aw_db W')"
  using assms Get_nats_only [of W flt mint acc] kept_nats
  by (auto simp: JSFor_def split: prod.splits sum.splits)

lemma kept_notify [simp]: "kept (aw_db (notifyACLChanged flt mint acc W)) \<longleftrightarrow> kept (aw_db W)"
proof
  assume k: "kept (aw_db (notifyACLChanged flt mint acc W))"
  have n: "nats_only (aw_db W) (aw_db (notifyACLChanged flt mint acc W))" by (rule notify_nats_only)
  from k show "kept (aw_db W)"
    by (rule kept_cong) (use nats_only_tables [OF n] nats_only_accounts [OF n, of acct_ID] in \<open>auto simp: sans_nats_def\<close>)
next
  assume "kept (aw_db W)"
  then show "kept (aw_db (notifyACLChanged flt mint acc W))" by (rule kept_nats [OF _ notify_nats_only])
qed

lemma on_streams_db: "on_streams pub f W = (e, W') \<Longrightarrow> aw_db W' = aw_db W"
  by (auto simp: on_streams_def split: prod.splits)

section \<open>Database statements\<close>

lemma validateManifold_valid: "validateManifold m = None \<Longrightarrow> valid_manifold m"
  by (auto simp: validateManifold_def valid_manifold_def manifold_tokens_def list_all_iff find_None_all split: if_splits)

lemma validateUserPipe_valid: "validateUserPipe n = None \<Longrightarrow> HandleRegex n \<and> n \<notin> set ReservedPipeNames"
  by (auto simp: validateUserPipe_def split: option.splits)

lemma add_source_kept:
  assumes "kept D" and "schema_ok (D\<lparr>sources := sources D @ [s]\<rparr>)" and "\<not> has_source D (src_ID s)"
    and "HandleRegex (src_Handle s)" and "valid_manifold (src_Manifold s)"
    and "\<forall>p \<in> set (pipes D). pp_AccountID p = src_AccountID s \<longrightarrow> pp_Manifold p \<noteq> full_path s"
  shows "kept (D\<lparr>sources := sources D @ [s]\<rparr>)"
proof -
  have "pp_SourceID p \<noteq> Some (src_ID s)" if "p \<in> set (pipes D)" for p
    using assms(1,3) that by (auto simp: kept_def schema_ok_def)
  then have "collared_ok (D\<lparr>sources := sources D @ [s]\<rparr>)"
    using assms(1) by (auto simp: kept_def collared_ok_def)
  moreover have "separate (D\<lparr>sources := sources D @ [s]\<rparr>)"
    using assms(1,6) by (auto simp: kept_def separate_def)
  moreover have "stored_valid (D\<lparr>sources := sources D @ [s]\<rparr>)"
    using assms(1,4,5) by (auto simp: kept_def stored_valid_def)
  ultimately show ?thesis using assms(2) by (simp add: kept_def)
qed

lemma InsertSource_kept:
  assumes "kept D" and "HandleRegex h" and "valid_manifold m"
    and "\<forall>p \<in> set (pipes D). pp_AccountID p = a \<longrightarrow> pp_Manifold p \<noteq> (if m \<noteq> '''' then m @ ''.'' @ h else h)"
    and "InsertSource flt i now a c m h k D = (r, D')"
  shows "kept D'"
proof (cases r)
  case (Inr s)
  then have s: "D' = D\<lparr>sources := sources D @ [s]\<rparr>" "\<not> has_source D (src_ID s)" "src_Handle s = h" "src_Manifold s = m"
      "src_AccountID s = a"
    using assms(5) by (auto simp: InsertSource_def Let_def split: option.splits if_splits)
  have "schema_ok D'" using schema_ok_InsertSource [of D flt i now a c m h k] assms(1,5) by (simp add: kept_def)
  with s show ?thesis using assms(1-4) unfolding s(1) by (intro add_source_kept) (auto simp: full_path_def)
next
  case (Inl e)
  then have "D' = D" using assms(5) by (auto simp: InsertSource_def Let_def split: option.splits if_splits)
  then show ?thesis using assms(1) by simp
qed

lemma insert_row_kept:
  assumes "kept D" and "HandleRegex (pp_Name p)" and "insert_pipe_row p D = (e, D')"
    and "\<And>i. pp_SourceID p = Some i \<Longrightarrow> \<exists>s \<in> set (sources D). src_ID s = i \<and> pp_Manifold p = src_Manifold s \<and> pp_AccountID p = src_AccountID s"
    and "pp_SourceID p = None \<Longrightarrow> valid_manifold (pp_Manifold p) \<and> pp_Name p \<noteq> PresencePipe \<and>
           (\<forall>s \<in> set (sources D). pp_AccountID p = src_AccountID s \<longrightarrow> pp_Manifold p \<noteq> full_path s)"
  shows "kept D'"
proof -
  have sch: "schema_ok D'" using schema_ok_insert_pipe_row [of D p] assms(1,3) by (simp add: kept_def)
  have "pp_Manifold p = src_Manifold t \<and> pp_AccountID p = src_AccountID t"
    if t: "pp_SourceID p = Some (src_ID t)" "t \<in> set (sources D)" for t
  proof -
    obtain s where s: "s \<in> set (sources D)" "src_ID s = src_ID t" "pp_Manifold p = src_Manifold s" "pp_AccountID p = src_AccountID s"
      using assms(4) [OF t(1)] by auto
    then have "s = t" using assms(1) t(2) by (auto simp: kept_def schema_ok_def distinct_map inj_on_def)
    with s show ?thesis by simp
  qed
  then have "collared_ok (D\<lparr>pipes := pipes D @ [p]\<rparr>)" using assms(1) by (auto simp: kept_def collared_ok_def)
  moreover have "separate (D\<lparr>pipes := pipes D @ [p]\<rparr>)" using assms(1,5) unfolding kept_def separate_def by simp
  moreover have "stored_valid (D\<lparr>pipes := pipes D @ [p]\<rparr>)" using assms(1,2,5) by (auto simp: kept_def stored_valid_def)
  moreover have "D' = D \<or> D' = D\<lparr>pipes := pipes D @ [p]\<rparr>" using assms(3) by (auto simp: insert_pipe_row_def split: if_splits)
  ultimately show ?thesis using assms(1) sch by (auto simp: kept_def)
qed

text \<open>Statements that only remove rows or change columns the invariant does not read.\<close>

lemma kept_smaller:
  assumes "kept D" and "schema_ok D'"
    and src: "\<And>s. s \<in> set (sources D') \<Longrightarrow> \<exists>t \<in> set (sources D). src_ID t = src_ID s \<and> source_key t = source_key s"
    and pip: "\<And>p. p \<in> set (pipes D') \<Longrightarrow> \<exists>q \<in> set (pipes D). pipe_key q = pipe_key p"
  shows "kept D'"
proof -

  have "collared_ok D'"
    unfolding collared_ok_def
  proof (intro ballI impI)
    fix p s assume p: "p \<in> set (pipes D')" and s: "s \<in> set (sources D')" and ps: "pp_SourceID p = Some (src_ID s)"
    obtain q where "q \<in> set (pipes D)" "pipe_key q = pipe_key p" using pip [OF p] by blast
    moreover obtain t where "t \<in> set (sources D)" "src_ID t = src_ID s" "source_key t = source_key s" using src [OF s] by blast
    ultimately show "pp_Manifold p = src_Manifold s \<and> pp_AccountID p = src_AccountID s"
      using assms(1) ps by (auto simp: kept_def collared_ok_def pipe_key_def source_key_def)
  qed
  moreover have "separate D'"
    unfolding separate_def
  proof (intro ballI impI)
    fix p s assume p: "p \<in> set (pipes D')" and s: "s \<in> set (sources D')" and ps: "pp_SourceID p = None \<and> pp_AccountID p = src_AccountID s"
    obtain q where q: "q \<in> set (pipes D)" "pipe_key q = pipe_key p" using pip [OF p] by blast
    obtain t where t: "t \<in> set (sources D)" "source_key t = source_key s" using src [OF s] by blast
    have "pp_Manifold q \<noteq> full_path t"
      using assms(1) q t ps unfolding kept_def separate_def pipe_key_def source_key_def by auto
    moreover have "full_path t = full_path s" using t(2) by (simp add: full_path_def source_key_def)
    ultimately show "pp_Manifold p \<noteq> full_path s" using q(2) by (simp add: pipe_key_def)
  qed
  moreover have "valid_manifold (src_Manifold s) \<and> HandleRegex (src_Handle s)" if "s \<in> set (sources D')" for s
    using assms(1) src [OF that] by (auto simp: kept_def stored_valid_def source_key_def)
  moreover have "HandleRegex (pp_Name p) \<and> (pp_SourceID p = None \<longrightarrow> valid_manifold (pp_Manifold p) \<and> pp_Name p \<noteq> PresencePipe)"
    if "p \<in> set (pipes D')" for p
    using assms(1) pip [OF that] by (auto simp: kept_def stored_valid_def pipe_key_def)
  ultimately have "collared_ok D' \<and> separate D' \<and> stored_valid D'" unfolding stored_valid_def by blast
  then show ?thesis using assms(2) by (simp add: kept_def)
qed

lemma update_pipes_kept:
  assumes "kept D"
  shows "kept (update_pipes P (set_retention t mm b) D)"
proof (rule kept_smaller [OF assms])
  show "schema_ok (update_pipes P (set_retention t mm b) D)" using assms by (simp add: kept_def schema_ok_pipes_update)
qed (auto simp: update_pipes_def)

lemma filter_pipes_kept:
  assumes "kept D"
  shows "kept (D\<lparr>pipes := filter P (pipes D)\<rparr>)"
proof (rule kept_smaller [OF assms])
  show "schema_ok (D\<lparr>pipes := filter P (pipes D)\<rparr>)" using assms by (simp add: kept_def schema_ok_pipes_filter)
qed auto

lemma delete_sources_kept:
  assumes "kept D"
  shows "kept (delete_sources P D)"
proof (rule kept_smaller [OF assms])
  show "schema_ok (delete_sources P D)" using assms by (simp add: kept_def schema_ok_delete_sources)
qed (auto simp: delete_sources_def)

lemma UpdateSourceKind_kept:
  assumes "kept D"
  shows "kept (snd (UpdateSourceKind flt a h k D))"
proof (rule kept_smaller [OF assms])
  show "schema_ok (snd (UpdateSourceKind flt a h k D))"
    using assms pipe_step_schema_ok [OF pipe_step.intros(2)] by (auto simp: kept_def)
next
  fix s assume "s \<in> set (sources (snd (UpdateSourceKind flt a h k D)))"
  then show "\<exists>t \<in> set (sources D). src_ID t = src_ID s \<and> source_key t = source_key s"
    by (auto simp: UpdateSourceKind_def Let_def source_key_def split: option.splits if_splits)
next
  fix p assume "p \<in> set (pipes (snd (UpdateSourceKind flt a h k D)))"
  then show "\<exists>q \<in> set (pipes D). pipe_key q = pipe_key p"
    by (auto simp: UpdateSourceKind_def Let_def split: option.splits if_splits)
qed

section \<open>Operations\<close>

text \<open>An outcome whose world keeps the invariant, and how it follows the cases of an operation.\<close>

definition keeps :: "'a \<times> server_world \<Rightarrow> bool" where
  "keeps r \<longleftrightarrow> kept (aw_db (snd r))"

lemma keeps_pair [simp]: "keeps (r, W) \<longleftrightarrow> kept (aw_db W)"
  by (simp add: keeps_def)

lemma keeps_prod: "(\<And>a b. X = (a, b) \<Longrightarrow> keeps (f a b)) \<Longrightarrow> keeps (case_prod f X)"
  by (cases X) simp

lemma keeps_sum:
  "(\<And>a. s = Inl a \<Longrightarrow> keeps (f a)) \<Longrightarrow> (\<And>b. s = Inr b \<Longrightarrow> keeps (g b)) \<Longrightarrow> keeps (case_sum f g s)"
  by (cases s) simp_all

lemma keeps_option:
  "(v = None \<Longrightarrow> keeps r) \<Longrightarrow> (\<And>x. v = Some x \<Longrightarrow> keeps (f x)) \<Longrightarrow> keeps (case_option r f v)"
  by (cases v) simp_all

lemma keeps_if: "(c \<Longrightarrow> keeps r) \<Longrightarrow> (\<not> c \<Longrightarrow> keeps r') \<Longrightarrow> keeps (if c then r else r')"
  by simp

lemmas keeps_intros = keeps_prod keeps_sum keeps_option keeps_if keeps_pair [THEN iffD2]

lemma kept_streams:
  assumes "JSFor flt mint acc W = (r, W1)" and "on_streams pub f W1 = (e, W2)" and "kept (aw_db W)"
  shows "kept (aw_db W2)"
  using kept_JSFor [OF assms(1,3)] on_streams_db [OF assms(2)] by simp

lemma kept_after:
  "JSFor flt mint acc (W\<lparr>aw_db := D\<rparr>) = (r, W1) \<Longrightarrow> kept D \<Longrightarrow> kept (aw_db W1)"
  "on_streams pub f W1 = (e, W2) \<Longrightarrow> kept (aw_db W1) \<Longrightarrow> kept (aw_db W2)"
  using kept_JSFor [of flt mint acc "W\<lparr>aw_db := D\<rparr>" r W1] on_streams_db [of pub f W1 e W2] by auto

lemma provisionPipe_kept: "kept (aw_db W) \<Longrightarrow> keeps (provisionPipe E key p m h W)"
  unfolding provisionPipe_def Let_def
  by (intro keeps_intros) (auto dest: kept_JSFor kept_streams)

lemma createSource_kept:
  assumes k: "kept (aw_db W)"
  shows "keeps (createSource E key m h kind W)"
proof -
  let ?D = "aw_db W" and ?path = "if m \<noteq> '''' then m @ ''.'' @ h else h"
  have ins: "kept D1"
    if h: "HandleRegex h" and m: "validateManifold m = None"
      and none: "PipesExistAtManifold (oe_faults E O_AtManifold) (ak_AccountID key) ?path ?D = Inr False"
      and i: "InsertSource (oe_faults E O_Insert) (oe_newID E) (oe_now E) (ak_AccountID key) (Actor key) m h kd ?D = (r, D1)" for kd r D1
  proof (rule InsertSource_kept [OF k h validateManifold_valid [OF m] _ i])
    show "\<forall>p \<in> set (pipes ?D). pp_AccountID p = ak_AccountID key \<longrightarrow> pp_Manifold p \<noteq> ?path"
      using none unfolding PipesExistAtManifold_def query_def by (auto simp: list_ex_iff split: option.splits)
  qed
  show ?thesis
    unfolding createSource_def Let_def
    by (intro keeps_intros) (auto intro: k dest: ins kept_after)
qed

lemma insert_row_kept':
  assumes "kept D" and "HandleRegex (pp_Name p)"
    and "\<And>i. pp_SourceID p = Some i \<Longrightarrow> \<exists>s \<in> set (sources D). src_ID s = i \<and> pp_Manifold p = src_Manifold s \<and> pp_AccountID p = src_AccountID s"
    and "pp_SourceID p = None \<Longrightarrow> valid_manifold (pp_Manifold p) \<and> pp_Name p \<noteq> PresencePipe \<and>
           (\<forall>s \<in> set (sources D). pp_AccountID p = src_AccountID s \<longrightarrow> pp_Manifold p \<noteq> full_path s)"
  shows "kept (snd (insert_pipe_row p D))"
  using insert_row_kept [OF assms(1,2) _ assms(3,4), of "fst (insert_pipe_row p D)" "snd (insert_pipe_row p D)"] by simp

lemma InsertPipe_row:
  assumes "InsertPipe flt i now a m s c n t mm b D = (r, D1)"
  shows "D1 = D \<or> D1 = snd (insert_pipe_row \<lparr>pp_ID = i, pp_AccountID = a, pp_Manifold = m, pp_SourceID = s,
      pp_CreatedByUserID = c, pp_Name = n, pp_TTLSeconds = t, pp_MaxMsgs = mm, pp_MaxBytes = b, pp_CreatedAt = now\<rparr> D)"
  using assms by (auto simp: InsertPipe_def Let_def split: prod.splits option.splits)

lemma createCollaredPipe_kept:
  assumes k: "kept (aw_db W)" and s: "src \<in> set (sources (aw_db W))" "src_AccountID src = ak_AccountID key"
  shows "keeps (createCollaredPipe E key src n t mm b W)"
proof -
  have ins: "kept D1" if "validateUserPipe n = None"
    "InsertPipe flt i now (ak_AccountID key) (src_Manifold src) (Some (src_ID src)) c n t mm b (aw_db W) = (r, D1)" for flt i now c r D1
    using InsertPipe_row [OF that(2)] k s validateUserPipe_valid [OF that(1)]
    by (auto intro!: insert_row_kept' bexI [of _ src])
  show ?thesis
    unfolding createCollaredPipe_def
    by (intro keeps_intros provisionPipe_kept) (auto intro: k dest: ins)
qed

lemma reserved_prefix_None:
  assumes "reserved_prefix E acc D before segs = None" and "segs = pre @ seg # post"
    and "s \<in> set (sources D)" "src_AccountID s = acc"
  shows "\<not> (src_Manifold s = join_dots (before @ pre) \<and> src_Handle s = seg)"
  using assms
proof (induction E acc D before segs arbitrary: pre rule: reserved_prefix.induct)
  case (2 E acc D before sg segs)
  have step: "SourceExistsAtManifold (oe_faults E (O_SourceAt (join_dots before) sg)) acc (join_dots before) sg D = Inr False"
      "reserved_prefix E acc D (before @ [sg]) segs = None"
    using "2.prems"(1) by (auto simp: Let_def split: sum.splits if_splits)
  show ?case
  proof (cases pre)
    case Nil
    have "\<not> (src_AccountID s = acc \<and> src_Manifold s = join_dots before \<and> src_Handle s = sg)"
      using step(1) "2.prems"(3) by (auto simp: SourceExistsAtManifold_def query_def list_ex_iff split: option.splits)
    with Nil "2.prems" show ?thesis by simp
  next
    case (Cons a pre')
    with "2.prems"(2) have "segs = pre' @ seg # post" "a = sg" by auto
    with "2.IH" [OF refl step(1), of pre'] step "2.prems"(3,4) Cons show ?thesis by simp
  qed
qed simp

lemma full_path_not_reserved:
  assumes "reserved_prefix E acc D [] (split_dots m) = None" and "m \<noteq> ''''"
    and "s \<in> set (sources D)" "src_AccountID s = acc" "HandleRegex (src_Handle s)"
  shows "m \<noteq> full_path s"
proof
  assume m: "m = full_path s"
  have h: "CHR ''.'' \<notin> set (src_Handle s)" by (rule HandleRegex_no_special(1) [OF assms(5)])
  show False
  proof (cases "src_Manifold s = ''''")
    case True
    then have "split_dots m = [src_Handle s]" using m h by (simp add: full_path_def split_on_no_sep)
    then show False using reserved_prefix_None [OF assms(1) _ assms(3,4), of "[]" "src_Handle s" "[]"] True by simp
  next
    case False
    then have "split_dots m = split_dots (src_Manifold s) @ [src_Handle s]"
      using m h split_on_append [of "CHR ''.''" "src_Manifold s" "src_Handle s"] by (simp add: full_path_def split_on_no_sep)
    then show False using reserved_prefix_None [OF assms(1) _ assms(3,4), of "split_dots (src_Manifold s)" "src_Handle s" "[]"] by simp
  qed
qed

lemma createUncollaredPipe_kept:
  assumes k: "kept (aw_db W)"
  shows "keeps (createUncollaredPipe E key m n t mm b W)"
proof -
  let ?D = "aw_db W"
  have presence: "n \<noteq> PresencePipe" if "validateUserPipe n = None"
    using validateUserPipe_valid [OF that] by (auto simp: ReservedPipeNames_def PresencePipe_def)
  have valid: "HandleRegex (src_Handle s)" if "s \<in> set (sources ?D)" for s using k that by (simp add: kept_def stored_valid_def)
  have ins: "kept D1" if v: "validateManifold m = None" "validateUserPipe n = None"
      and r: "(if m \<noteq> '''' then reserved_prefix E (ak_AccountID key) ?D [] (split_dots m) else None) = None"
      and i: "InsertPipe flt i now (ak_AccountID key) m None c n t mm b ?D = (r, D1)" for flt i now c r D1
  proof -
    have "m \<noteq> full_path s" if "s \<in> set (sources ?D)" "src_AccountID s = ak_AccountID key" for s
    proof (cases "m = ''''")
      case True
      then show ?thesis using HandleRegex_nonempty [OF valid [OF that(1)]] by (auto simp: full_path_def)
    next
      case False
      then show ?thesis using full_path_not_reserved [of E "ak_AccountID key" ?D m s] r that valid by simp
    qed
    then show ?thesis
      using InsertPipe_row [OF i] k validateManifold_valid [OF v(1)] validateUserPipe_valid [OF v(2)] presence [OF v(2)]
      by (auto intro!: insert_row_kept')
  qed
  show ?thesis
    unfolding createUncollaredPipe_def Let_def
    by (intro keeps_intros provisionPipe_kept) (auto simp: k simp del: if_split dest: ins)
qed

lemma delete_kept:
  "kept D \<Longrightarrow> DeletePipe flt i n D = (e, D1) \<Longrightarrow> kept D1"
  "kept D \<Longrightarrow> DeleteUncollaredPipe flt a m n D = (e, D1) \<Longrightarrow> kept D1"
  "kept D \<Longrightarrow> DeleteSourceByID flt a i D = (e, D1) \<Longrightarrow> kept D1"
  "kept D \<Longrightarrow> UpdatePipeRetention flt i t mm b D = (e, D1) \<Longrightarrow> kept D1"
  "kept D \<Longrightarrow> UpdateSourceKind flt a h k D = (e, D1) \<Longrightarrow> kept D1"
  using UpdateSourceKind_kept [of D flt a h k]
  by (auto simp: DeletePipe_def DeleteUncollaredPipe_def DeleteSourceByID_def UpdatePipeRetention_def Let_def
      filter_pipes_kept delete_sources_kept update_pipes_kept split: option.splits if_splits)

lemma destroyCollaredPipe_kept: "kept (aw_db W) \<Longrightarrow> keeps (destroyCollaredPipe E key src n W)"
  unfolding destroyCollaredPipe_def Let_def
  by (intro keeps_intros) (auto dest: delete_kept kept_after)

lemma destroyUncollaredPipe_kept: "kept (aw_db W) \<Longrightarrow> keeps (destroyUncollaredPipe E key m n W)"
  unfolding destroyUncollaredPipe_def Let_def
  by (intro keeps_intros) (auto dest: delete_kept kept_after)

lemma destroySource_kept: "kept (aw_db W) \<Longrightarrow> keeps (destroySource E key src W)"
  unfolding destroySource_def Let_def
  by (intro keeps_intros) (auto dest: delete_kept kept_after split: prod.split sum.split)

lemma purgeStream_kept: "kept (aw_db W) \<Longrightarrow> keeps (purgeStream E key m h n W)"
  unfolding purgeStream_def Let_def
  by (intro keeps_intros) (auto dest: kept_JSFor)

lemma purge_kept:
  "kept (aw_db W) \<Longrightarrow> keeps (purgeCollaredPipe E key src n W)"
  "kept (aw_db W) \<Longrightarrow> keeps (purgeUncollaredPipe E key m n W)"
  unfolding purgeCollaredPipe_def purgeUncollaredPipe_def
  by (intro keeps_intros purgeStream_kept; simp)+

lemma Upsert_kept:
  assumes "kept D" and "src \<in> set (sources D)" "src_AccountID src = a" and "HandleRegex n"
    and "UpsertPipeRetention f1 f2 f3 i now a (src_Manifold src) (Some (src_ID src)) c n t mm b D = (r, D1)"
  shows "kept D1"
proof -
  let ?p = "\<lparr>pp_ID = i, pp_AccountID = a, pp_Manifold = src_Manifold src, pp_SourceID = Some (src_ID src), pp_CreatedByUserID = c,
      pp_Name = n, pp_TTLSeconds = t, pp_MaxMsgs = mm, pp_MaxBytes = b, pp_CreatedAt = now\<rparr>"
  have "D1 = D \<or> (\<exists>P. D1 = update_pipes P (set_retention t mm b) D) \<or> D1 = snd (insert_pipe_row ?p D)"
    using assms(5) by (auto simp: UpsertPipeRetention_def Let_def split: option.splits prod.splits if_splits)
  moreover have "kept (snd (insert_pipe_row ?p D))"
    by (rule insert_row_kept' [OF assms(1)]) (use assms(2-4) in auto)
  ultimately show ?thesis using assms(1) update_pipes_kept by blast
qed

lemma find_source:
  "GetSourceByHandle flt a h D = Inr src \<Longrightarrow> src \<in> set (sources D) \<and> src_AccountID src = a"
  "GetSourceAt flt a m h D = Inr src \<Longrightarrow> src \<in> set (sources D) \<and> src_AccountID src = a"
  by (auto simp: GetSourceByHandle_def GetSourceAt_def query_row_def no_rows_not_found_def split: option.splits dest: find_SomeD)

lemma lookup_source_row: "lookup_source E a h D = Inr src \<Longrightarrow> src \<in> set (sources D) \<and> src_AccountID src = a"
  by (auto simp: lookup_source_def split: sum.splits dest: find_source)

lemma sourceAt_row: "sourceAt E a path D = Inr src \<Longrightarrow> src \<in> set (sources D) \<and> src_AccountID src = a"
  by (auto simp: sourceAt_def split: prod.splits option.splits sum.splits dest: find_source)

lemma set_done_kept: "kept (aw_db W) \<Longrightarrow> keeps (set_done E key m h n before ret W)"
  by (simp add: set_done_def)

lemma handleSetPipe_kept:
  assumes k: "kept (aw_db W)"
  shows "keeps (handleSetPipe E key h n req W)"
proof -
  have ups: "kept D1" if "validateSettablePipeName n" "GetSourceByHandle flt (ak_AccountID key) h (aw_db W) = Inr src"
      "UpsertPipeRetention f1 f2 f3 i now (ak_AccountID key) (src_Manifold src) (Some (src_ID src)) c n t mm b (aw_db W) = (r, D1)"
    for flt src f1 f2 f3 i now c t mm b r D1
    using Upsert_kept [OF k _ _ _ that(3)] find_source(1) [OF that(2)] that(1) by (simp add: validateSettablePipeName_def)
  show ?thesis
    unfolding handleSetPipe_def Let_def
    by (intro keeps_intros set_done_kept) (auto simp: k dest: ups kept_after)
qed

lemma handleSetPipeFullPath_kept:
  assumes k: "kept (aw_db W)"
  shows "keeps (handleSetPipeFullPath E key req W)"
  unfolding handleSetPipeFullPath_def Let_def
  by (intro keeps_intros set_done_kept) (auto simp: k dest: delete_kept(4) [OF k] kept_after)

lemma handleEnsurePTY_kept:
  assumes k: "kept (aw_db W)"
  shows "keeps (handleEnsurePTY E key h W)"
proof -
  have kind: "kept D1" if "(if c then UpdateSourceKind flt a h' kd (aw_db W) else (None, aw_db W)) = (e, D1)" for c flt a h' kd e D1
    using that k delete_kept(5) [OF k] by (auto split: if_splits)
  show ?thesis
    unfolding handleEnsurePTY_def Let_def
    by (intro keeps_intros) (auto simp: k dest: kind kept_after simp del: if_split)
qed

section \<open>The chat's pipes\<close>

lemma set_streams_db [simp]: "cw_srv (set_streams js ss C) = (cw_srv C)\<lparr>aw_streams := (aw_streams (cw_srv C))(js := ss)\<rparr>"
  by (simp add: set_streams_def with_server_def)

lemma clear_cursors_server: "cw_srv (snd (DeleteChatReadCursorsForTarget flt acc kind target C)) = cw_srv C"
  by (simp add: DeleteChatReadCursorsForTarget_def split: option.split)

lemma with_server_server [simp]: "cw_srv (with_server C W) = W"
  by (simp add: with_server_def)

lemma chat_JSFor_kept:
  assumes "chat_JSFor E acc C = (r, C1)" and "kept (chat_db C)"
  shows "kept (chat_db C1)"
  using assms kept_JSFor [of "pool_faults (ch_op E)" "oe_mint (ch_op E)" acc "cw_srv C"]
  by (auto simp: chat_JSFor_def split: prod.splits)

lemma user_pipe_name: "ValidateUserPipeName n = None \<Longrightarrow> HandleRegex n \<and> n \<noteq> PresencePipe"
  by (auto simp: ValidateUserPipeName_def ReservedPipeNames_def PresencePipe_def split: if_splits)

lemma root_pipe_kept:
  assumes k: "kept D" and v: "ValidateUserPipeName n = None"
    and i: "InsertPipe flt i now a '''' None c n t mm b D = (r, D1)"
  shows "kept D1"
proof -
  have "full_path s \<noteq> ''''" if "s \<in> set (sources D)" for s
    using k that HandleRegex_nonempty by (auto simp: kept_def stored_valid_def full_path_def)
  then have "\<forall>s \<in> set (sources D). '''' \<noteq> full_path s" by metis
  then show ?thesis
    using InsertPipe_row [OF i] k user_pipe_name [OF v]
    by (auto intro!: insert_row_kept' simp: valid_manifold_def manifold_tokens_def)
qed

definition chat_keeps :: "'a \<times> chat_world \<Rightarrow> bool" where
  "chat_keeps r \<longleftrightarrow> kept (chat_db (snd r))"

lemma chat_keeps_pair [simp]: "chat_keeps (r, C) \<longleftrightarrow> kept (chat_db C)"
  by (simp add: chat_keeps_def)

lemma chat_keeps_cases:
  "(\<And>a b. X = (a, b) \<Longrightarrow> chat_keeps (f a b)) \<Longrightarrow> chat_keeps (case_prod f X)"
  "(\<And>a. s = Inl a \<Longrightarrow> chat_keeps (f1 a)) \<Longrightarrow> (\<And>b. s = Inr b \<Longrightarrow> chat_keeps (g b)) \<Longrightarrow> chat_keeps (case_sum f1 g s)"
  "(v = None \<Longrightarrow> chat_keeps r) \<Longrightarrow> (\<And>x. v = Some x \<Longrightarrow> chat_keeps (f2 x)) \<Longrightarrow> chat_keeps (case_option r f2 v)"
  "(c \<Longrightarrow> chat_keeps r) \<Longrightarrow> (\<not> c \<Longrightarrow> chat_keeps r') \<Longrightarrow> chat_keeps (if c then r else r')"
  by (cases X, simp) (cases s, simp_all, cases v, simp_all)

lemmas chat_keeps_intros = chat_keeps_cases chat_keeps_pair [THEN iffD2]

lemma chat_JSFor_after:
  "chat_JSFor E acc (with_server C ((cw_srv C)\<lparr>aw_db := D1\<rparr>)) = (r, C1) \<Longrightarrow> kept D1 \<Longrightarrow> kept (chat_db C1)"
  using chat_JSFor_kept [of E acc "with_server C ((cw_srv C)\<lparr>aw_db := D1\<rparr>)" r C1] by simp

lemma add_pipe_kept:
  assumes k: "kept (chat_db C)"
  shows "chat_keeps (handleGUIChatAddPipe E r C)"
  unfolding handleGUIChatAddPipe_def
  by (intro chat_keeps_intros) (use k in \<open>auto dest: root_pipe_kept chat_JSFor_after\<close>)

lemma remove_pipe_kept:
  assumes k: "kept (chat_db C)"
  shows "chat_keeps (handleGUIChatRemovePipe E target C)"
  unfolding handleGUIChatRemovePipe_def Let_def
  by (intro chat_keeps_intros) (use k in \<open>auto simp: clear_cursors_server dest: delete_kept(2) chat_JSFor_after\<close>)

section \<open>Requests\<close>

text \<open>Any request that manages pipes, with any arguments, failures and outcome, and the pool's own operations.\<close>

inductive pipe_request :: "server_world \<Rightarrow> server_world \<Rightarrow> bool" where
  "pipe_request W (snd (handleCreateSource E key b1 W))"
| "pipe_request W (snd (handleEnsurePTY E key h W))"
| "pipe_request W (snd (handleCreatePipe E key h b2 W))"
| "pipe_request W (snd (handleCreatePipeFullPath E key b2 W))"
| "pipe_request W (snd (handleSetPipe E key h n b3 W))"
| "pipe_request W (snd (handleSetPipeFullPath E key b3 W))"
| "pipe_request W (snd (handleDestroyPipe E key h n W))"
| "pipe_request W (snd (handleDestroyUncollaredPipe E key m n W))"
| "pipe_request W (snd (handleDestroySource E key h W))"
| "pipe_request W (snd (handlePurgePipe E key h n W))"
| "pipe_request W (snd (handlePurgeUncollaredPipe E key m n W))"
| "pipe_request W (snd (handleGUICreatePipe E S F W))"
| "pipe_request W (snd (handleGUIDeletePipe E S F W))"
| "pipe_request W (snd (handleGUIDeleteSource E S F W))"
| "pipe_request W (snd (handleGUIPurgePipe E S F W))"
| "pipe_request (cw_srv C) (cw_srv (snd (handleGUIChatAddPipe CE r C)))"
| "pipe_request (cw_srv C) (cw_srv (snd (handleGUIChatRemovePipe CE target C)))"
| "pipe_request W (snd (Get flt mint acc W))"
| "pipe_request W (Drop acc W)"

lemma keeps_result:
  "keeps r \<Longrightarrow> keeps (drop_value r)" "keeps r' \<Longrightarrow> keeps (no_content r')" "keeps r' \<Longrightarrow> keeps (browserSubmit r')"
  unfolding drop_value_def no_content_def browserSubmit_def
  by (intro keeps_intros; simp add: keeps_def)+

lemmas operation_kept =
  createSource_kept createUncollaredPipe_kept destroyCollaredPipe_kept destroyUncollaredPipe_kept
  destroySource_kept purge_kept keeps_result

lemma keeps_after: "X = (a, b) \<Longrightarrow> keeps X \<Longrightarrow> kept (aw_db b)"
  by simp

lemma api_kept:
  assumes k: "kept (aw_db W)"
  shows "keeps (handleCreateSource E key b1 W)" "keeps (handleCreatePipe E key h b2 W)" "keeps (handleCreatePipeFullPath E key b2 W)"
    "keeps (handleDestroyPipe E key h n W)" "keeps (handleDestroyUncollaredPipe E key m n W)" "keeps (handleDestroySource E key h W)"
    "keeps (handlePurgePipe E key h n W)" "keeps (handlePurgeUncollaredPipe E key m n W)"
  unfolding handleCreateSource_def handleCreatePipe_def handleCreatePipeFullPath_def handleDestroyPipe_def
    handleDestroyUncollaredPipe_def handleDestroySource_def handlePurgePipe_def handlePurgeUncollaredPipe_def Let_def
  by (intro keeps_intros operation_kept k;
      use k in \<open>auto dest!: lookup_source_row dest: keeps_after
        intro: keeps_after createSource_kept createUncollaredPipe_kept createCollaredPipe_kept purge_kept\<close>)+

lemma with_member_kept: "kept (aw_db W) \<Longrightarrow> (\<And>org key. ak_AccountID key = acct_ID org \<Longrightarrow> keeps (f org key)) \<Longrightarrow> keeps (with_member_org E S W f)"
  unfolding with_member_org_def by (intro keeps_intros) (auto simp: sessionKey_def)

lemma gui_kept:
  assumes k: "kept (aw_db W)"
  shows "keeps (handleGUICreatePipe E S F W)" "keeps (handleGUIDeletePipe E S F W)" "keeps (handleGUIDeleteSource E S F W)"
    "keeps (handleGUIPurgePipe E S F W)"
  unfolding handleGUICreatePipe_def handleGUIDeletePipe_def handleGUIDeleteSource_def handleGUIPurgePipe_def
  by (intro with_member_kept keeps_intros operation_kept k; use k in \<open>auto dest!: sourceAt_row intro: createCollaredPipe_kept\<close>)+

lemma pipe_request_kept: "pipe_request W W' \<Longrightarrow> kept (aw_db W) \<Longrightarrow> kept (aw_db W')"
  by (induction rule: pipe_request.induct)
    (simp_all add: add_pipe_kept [unfolded chat_keeps_def] remove_pipe_kept [unfolded chat_keeps_def] api_kept [unfolded keeps_def] gui_kept [unfolded keeps_def] handleSetPipe_kept [unfolded keeps_def]
      handleSetPipeFullPath_kept [unfolded keeps_def] handleEnsurePTY_kept [unfolded keeps_def]
      kept_nats [OF _ Get_nats_only] Drop_def)

lemma pipe_requests_kept: "pipe_request\<^sup>*\<^sup>* W W' \<Longrightarrow> kept (aw_db W) \<Longrightarrow> kept (aw_db W')"
  by (induction rule: rtranclp_induct) (auto intro: pipe_request_kept)

section \<open>No two pipes share a stream\<close>

definition pipe_addr :: "database \<Rightarrow> uuid \<Rightarrow> string \<Rightarrow> string \<Rightarrow> string \<Rightarrow> bool" where
  "pipe_addr D acc m h n \<longleftrightarrow>
     (\<exists>s \<in> set (sources D). src_AccountID s = acc \<and> src_Manifold s = m \<and> src_Handle s = h \<and>
        (n \<in> set (source_Pipes s) \<or> (\<exists>p \<in> set (pipes D). pp_SourceID p = Some (src_ID s) \<and> pp_Name p = n))) \<or>
     (h = '''' \<and> (\<exists>p \<in> set (pipes D). pp_AccountID p = acc \<and> pp_SourceID p = None \<and> pp_Manifold p = m \<and> pp_Name p = n))"

lemma pipe_addr_valid: "kept D \<Longrightarrow> pipe_addr D acc m h n \<Longrightarrow> valid_addr m h n"
  using source_Pipes_valid HandleRegex_nonempty
  by (fastforce simp: kept_def stored_valid_def pipe_addr_def valid_addr_def)

lemma tokens_full_path:
  assumes "manifold_tokens m' = manifold_tokens m @ [h]" and "h \<noteq> ''''"
  shows "m' = (if m \<noteq> '''' then m @ ''.'' @ h else h)"
proof -
  have "m' \<noteq> ''''" using assms(1) by (auto simp: manifold_tokens_def)
  then have "m' = join_dots (manifold_tokens m @ [h])"
    using assms(1) by (metis join_split manifold_tokens_def)
  then show ?thesis by (simp add: manifold_tokens_def join_with_append)
qed

lemma stream_tokens:
  assumes "uuid_text acc" and "valid_addr m h n" and "valid_addr m' h' n'" and "BuildStreamName acc m h n = BuildStreamName acc m' h' n'"
  shows "n = PresencePipe \<and> n' = PresencePipe \<and> manifold_tokens m @ [h] = manifold_tokens m' @ [h'] \<or>
         n \<noteq> PresencePipe \<and> n' \<noteq> PresencePipe \<and> addr_tokens m h n = addr_tokens m' h' n'"
proof -
  have "split_on CHR ''_'' (BuildStreamName acc m h n) = split_on CHR ''_'' (BuildStreamName acc m' h' n')"
    using assms(4) by simp
  then show ?thesis
    unfolding split_BuildStreamName [OF assms(1,2)] split_BuildStreamName [OF assms(1,3)] by (auto split: if_splits)
qed

lemma mixed_streams_differ:
  assumes "kept D" and "uuid_text acc" and "pipe_addr D acc m h n" and "h \<noteq> ''''" and "pipe_addr D acc m' '''' n'"
  shows "BuildStreamName acc m h n \<noteq> BuildStreamName acc m' '''' n'"
proof
  assume eq: "BuildStreamName acc m h n = BuildStreamName acc m' '''' n'"
  have valid: "valid_addr m h n" "valid_addr m' '''' n'" using pipe_addr_valid [OF assms(1)] assms(3,5) by auto
  then have "addr_tokens m h n = addr_tokens m' '''' n'"
    using stream_tokens [OF assms(2) valid eq] by (auto simp: valid_addr_def)
  then have "manifold_tokens m' = manifold_tokens m @ [h]" using assms(4) by (simp add: addr_tokens_def)
  then have path: "m' = (if m \<noteq> '''' then m @ ''.'' @ h else h)" by (rule tokens_full_path [OF _ assms(4)])
  obtain s where s: "s \<in> set (sources D)" "src_AccountID s = acc" "full_path s = m'"
    using assms(3,4) path by (auto simp: pipe_addr_def full_path_def)
  have "src_Handle t \<noteq> ''''" if "t \<in> set (sources D)" for t
    using assms(1) that HandleRegex_nonempty by (auto simp: kept_def stored_valid_def)
  then obtain p where "p \<in> set (pipes D)" "pp_AccountID p = acc" "pp_SourceID p = None" "pp_Manifold p = m'"
    using assms(5) by (auto simp: pipe_addr_def)
  with s assms(1) show False by (auto simp: kept_def separate_def)
qed

text \<open>C6: No two pipes share a stream. Starting from tables that satisfy the invariant (the empty
  ones do), after any sequence of requests that create, set, purge or delete pipes and sources,
  those of the bearer API, of the organisation page and of the chat, one after the other, whatever
  failed in between, two pipes of an account with the same stream name are the same pipe: same
  manifold, same source, same name. So no pipe can be written, read, purged or deleted through the
  address of another.\<close>

theorem pipes_keep_apart:
  assumes "pipe_request\<^sup>*\<^sup>* W W'" and "kept (aw_db W)" and "uuid_text acc"
    and "pipe_addr (aw_db W') acc m h n" and "pipe_addr (aw_db W') acc m' h' n'"
    and "BuildStreamName acc m h n = BuildStreamName acc m' h' n'"
  shows "m = m' \<and> h = h' \<and> n = n'"
proof -
  let ?D = "aw_db W'"
  have k: "kept ?D" by (rule pipe_requests_kept [OF assms(1,2)])
  note valid = pipe_addr_valid [OF k assms(4)] pipe_addr_valid [OF k assms(5)]
  consider "h \<noteq> ''''" "h' \<noteq> ''''" | "h = ''''" "h' = ''''" | "h \<noteq> ''''" "h' = ''''" | "h = ''''" "h' \<noteq> ''''" by blast
  then show ?thesis
  proof cases
    case 1
    then show ?thesis using collared_stream_inj [OF assms(3) valid _ _ assms(6)] by blast
  next
    case 2
    then have "addr_tokens m h n = addr_tokens m' h' n'"
      using stream_tokens [OF assms(3) valid assms(6)] valid by (auto simp: valid_addr_def)
    then show ?thesis using 2 manifold_tokens_inj by (auto simp: addr_tokens_def)
  next
    case 3
    then show ?thesis using mixed_streams_differ [OF k assms(3,4)] assms(5,6) by blast
  next
    case 4
    then show ?thesis using mixed_streams_differ [OF k assms(3,5)] assms(4) assms(6)[symmetric] by blast
  qed
qed

theorem pipes_keep_apart_witness:
  "pipe_addr (aw_db (Drop ''a1'' ex_member)) ''a1'' '''' ''alice'' ''inbox'' \<and>
   pipe_addr (aw_db (Drop ''a1'' ex_member)) ''a1'' '''' ''alice'' ''log'' \<and>
   BuildStreamName ''a1'' '''' ''alice'' ''inbox'' \<noteq> BuildStreamName ''a1'' '''' ''alice'' ''log''"
proof -
  let ?W = "Drop ''a1'' ex_member"
  have k: "kept (aw_db ex_member)"
    by (simp add: kept_def ex_member_def ex_pipes_def schema_ok_def collared_ok_def separate_def stored_valid_def source_key_def
        pipe_key_def has_source_def has_account_def has_user_def full_path_def valid_manifold_def manifold_tokens_def name_char_def
        name_char_hyphen_def)
  have step: "pipe_request\<^sup>*\<^sup>* ex_member ?W" by (rule r_into_rtranclp) (rule pipe_request.intros)
  have addr: "pipe_addr (aw_db ?W) ''a1'' '''' ''alice'' ''inbox''" "pipe_addr (aw_db ?W) ''a1'' '''' ''alice'' ''log''"
    by (simp_all add: pipe_addr_def Drop_def ex_member_def ex_pipes_def source_Pipes_def SourceKindPTY_def)
  have "uuid_text ''a1''" by (simp add: uuid_text_def)
  from pipes_keep_apart [OF step k this addr] addr show ?thesis by auto
qed

end
