(* ===== verification/SchedulerProps.thy ===== *)
theory SchedulerProps
  imports Scheduler PipeProps
begin

text \<open>
  What a tick of the firing loop does to the table: it publishes every claimed row at most once and
  leaves nothing of what it claimed due, whatever the broker and the database answer; a backlog is
  drained in order. Also where the lease does not protect: a batch that takes longer than the lease
  is fired again by another replica, a retried occurrence escapes the missfire policy, and the
  creation endpoint does not consult the access rules.
\<close>

section \<open>One row\<close>

text \<open>The assumption on the cron library (its documented contract) and on the clock.\<close>

definition cron_advances :: "time_lib \<Rightarrow> bool" where
  "cron_advances L \<longleftrightarrow>
     (\<forall>expr loc t. tl_CronError L expr = None \<longrightarrow> tl_CronNext L expr loc t = 0 \<or> t < tl_CronNext L expr loc t)"

definition clock_sane :: "time_lib \<Rightarrow> instant \<Rightarrow> schedule \<Rightarrow> bool" where
  "clock_sane L now row \<longleftrightarrow>
     (\<forall>d. sd_Kind row = KindEvery \<longrightarrow> tl_ParseDuration L (sd_Spec row) = Inr d \<longrightarrow>
        d \<le> max_i64 \<and> now - sd_CreatedAt row + d \<le> max_i64)"

lemma NextAfter_later:
  assumes "cron_advances L" "sp_Kind s = KindEvery \<longrightarrow> sp_Every s \<le> max_i64 \<and> now - sp_At s + sp_Every s \<le> max_i64"
    and "NextAfter L s now = Some t"
  shows "now < t"
proof (cases "sp_Kind s = KindEvery")
  case True
  with assms(3) have "0 < sp_Every s" by (auto simp: NextAfter_def kind_defs split: if_splits)
  with NextAfter_every [OF True] assms True slot_number(1) [of "sp_Every s" "now - sp_At s"] show ?thesis
    by (auto simp: slot_def split: if_splits)
next
  case False
  with assms(1,3) show ?thesis
    by (auto simp: NextAfter_def Let_def cron_advances_def split: if_splits option.splits)
qed

lemma Decide_next:
  assumes "cron_advances L" "clock_sane L now row" "rowSpec L row = Inr sp" "\<not> ds_Done (Decide L sp nxt now)"
  shows "now < ds_Next (Decide L sp nxt now)"
proof -
  have "sp_Kind sp = KindEvery \<longrightarrow> sp_Every sp \<le> max_i64 \<and> now - sp_At sp + sp_Every sp \<le> max_i64"
    using assms(2,3)
    by (auto simp: rowSpec_def clock_sane_def Let_def zero_spec_def kind_defs split: if_splits sum.splits option.splits)
  with NextAfter_later [OF assms(1), of sp now] assms(4) show ?thesis
    by (auto simp: Decide_def split: if_splits option.splits)
qed

lemma JSFor_schedules: "JSFor flt mint acc W = (r, W') \<Longrightarrow> schedules (aw_db W') = schedules (aw_db W)"
  using Get_tables(8) [where W = W and flt = flt and mint = mint and acc = acc] by (auto simp: JSFor_def split: prod.splits sum.splits)

lemma publishScheduled_schedules:
  "publishScheduled E row W = (r, W') \<Longrightarrow> schedules (aw_db W') = schedules (aw_db W)"
  by (auto simp: publishScheduled_def Let_def dest: JSFor_schedules split: prod.splits sum.splits option.splits)

text \<open>
  A change of the table that concerns the rows \<open>U\<close> only: the others stay as they are, and if the
  rows of \<open>U\<close> were not due then those still there are not due.
\<close>

definition settles :: "uuid set \<Rightarrow> instant \<Rightarrow> schedule list \<Rightarrow> schedule list \<Rightarrow> bool" where
  "settles U now S S' \<longleftrightarrow>
     filter (\<lambda>s. sd_ID s \<notin> U) S' = filter (\<lambda>s. sd_ID s \<notin> U) S \<and>
     ((\<forall>s \<in> set S. sd_ID s \<in> U \<longrightarrow> now < sd_NextFireAt s) \<longrightarrow>
      (\<forall>s \<in> set S'. sd_ID s \<in> U \<longrightarrow> now < sd_NextFireAt s))"

lemma settles_refl [simp]: "settles U now S S"
  by (simp add: settles_def)

lemma settles_trans: "settles U now S S' \<Longrightarrow> settles U now S' S'' \<Longrightarrow> settles U now S S''"
  by (simp add: settles_def)

lemma settles_delete: "settles {u} now (schedules D) (schedules (delete_schedule u D))"
  by (simp add: settles_def delete_schedule_def)

lemma filter_map_other: "filter (\<lambda>s. sd_ID s \<noteq> u) (map (\<lambda>s. if sd_ID s = u then f s else s) S) =
    filter (\<lambda>s. sd_ID s \<noteq> u) S" if "\<And>s. sd_ID (f s) = sd_ID s"
  using that by (induction S) auto

lemma settles_update:
  assumes "\<And>s. sd_ID (f s) = sd_ID s" "\<And>s. now < sd_NextFireAt s \<Longrightarrow> now < sd_NextFireAt (f s)"
  shows "settles {u} now (schedules D) (schedules (update_schedule u f D))"
  using assms by (auto simp: settles_def update_schedule_def filter_map_other)

lemma CompleteFire_settles:
  assumes "\<forall>t. nxt = Some t \<longrightarrow> now < t"
  shows "settles {u} now (schedules D) (schedules (snd (CompleteFire flt u nxt fired D)))"
  using assms
  by (auto simp: CompleteFire_def intro!: settles_update settles_delete split: option.split)

lemma Bump_settles: "settles {u} now (schedules D) (schedules (snd (BumpScheduleFailCount flt u D)))"
  by (auto simp: BumpScheduleFailCount_def Let_def intro!: settles_update split: option.split)

lemma fire_row_settles:
  assumes "cron_advances L" "clock_sane L now row"
  shows "settles {sd_ID row} now (schedules (aw_db W)) (schedules (aw_db (snd (fire_row L E now row W))))"
proof (cases "rowSpec L row")
  case (Inl e)
  then show ?thesis by (simp add: fire_row_def CompleteFire_settles)
next
  case (Inr sp)
  define d where "d = Decide L sp (sd_NextFireAt row) now"
  have nxt: "(if ds_Done d then None else Some (ds_Next d)) = Some t \<Longrightarrow> now < t" for t
    using Decide_next [OF assms Inr] by (auto simp: d_def split: if_splits)
  obtain r W1 where pub: "publishScheduled E row W = (r, W1)" by (cases "publishScheduled E row W")
  note same = publishScheduled_schedules [OF pub]
  have settle: "settles {sd_ID row} now (schedules D)
      (schedules (snd (CompleteFire flt (sd_ID row) (if ds_Done d then None else Some (ds_Next d)) f D)))" for D flt f
    by (rule CompleteFire_settles) (use nxt in blast)
  have drop: "settles {sd_ID row} now (schedules D) (schedules (snd (CompleteFire flt (sd_ID row) None f D)))" for D flt f
    by (rule CompleteFire_settles) simp
  show ?thesis
  proof (cases r)
    case (Inr msg)
    with settle [of "aw_db W1"] settle [of "aw_db W"] show ?thesis
      by (simp add: fire_row_def \<open>rowSpec L row = Inr sp\<close> Let_def d_def [symmetric] pub same [symmetric])
  next
    case (Inl err)
    obtain cnt D2 where bump: "BumpScheduleFailCount (fe_Bump E) (sd_ID row) (aw_db W1) = (cnt, D2)"
      by (cases "BumpScheduleFailCount (fe_Bump E) (sd_ID row) (aw_db W1)")
    have b: "settles {sd_ID row} now (schedules (aw_db W)) (schedules D2)"
      using Bump_settles [of "sd_ID row" now "aw_db W1" "fe_Bump E"] bump same by simp
    show ?thesis
      using settle [of "aw_db W"] b settles_trans [OF b drop [of D2]]
      by (simp add: fire_row_def Inr Inl Let_def d_def [symmetric] pub bump same)
  qed
qed

section \<open>A tick\<close>

lemma settles_mono:
  assumes "settles U now S S'" "U \<subseteq> V"
  shows "settles V now S S'"
proof -
  have same: "filter (\<lambda>s. sd_ID s \<notin> U) S' = filter (\<lambda>s. sd_ID s \<notin> U) S"
    using assms(1) by (simp add: settles_def)
  have "filter (\<lambda>s. sd_ID s \<notin> V) X = filter (\<lambda>s. sd_ID s \<notin> V) (filter (\<lambda>s. sd_ID s \<notin> U) X)" for X
    using assms(2) by (auto intro!: filter_cong)
  with same have "filter (\<lambda>s. sd_ID s \<notin> V) S' = filter (\<lambda>s. sd_ID s \<notin> V) S" by metis
  moreover have "s \<in> set S" if "s \<in> set S'" "sd_ID s \<notin> U" for s
    using arg_cong [OF same, of set] that by auto
  ultimately show ?thesis using assms by (auto simp: settles_def subset_iff)
qed

lemma fire_rows_settles:
  assumes "cron_advances L" "\<forall>row \<in> set rows. clock_sane L now row"
  shows "settles (sd_ID ` set rows) now (schedules (aw_db W)) (schedules (aw_db (snd (fire_rows L E now rows W))))"
  using assms(2)
proof (induction rows arbitrary: W)
  case (Cons row rows)
  let ?U = "sd_ID ` set (row # rows)"
  define W1 where "W1 = snd (fire_row L (E (sd_ID row)) now row W)"
  define W2 where "W2 = snd (fire_rows L E now rows W1)"
  have "settles {sd_ID row} now (schedules (aw_db W)) (schedules (aw_db W1))"
    unfolding W1_def using fire_row_settles [OF assms(1)] Cons.prems by simp
  then have first: "settles ?U now (schedules (aw_db W)) (schedules (aw_db W1))"
    by (rule settles_mono) simp
  have "settles (sd_ID ` set rows) now (schedules (aw_db W1)) (schedules (aw_db W2))"
    unfolding W2_def by (rule Cons.IH) (use Cons.prems in simp)
  then have rest: "settles ?U now (schedules (aw_db W1)) (schedules (aw_db W2))"
    by (rule settles_mono) auto
  have "snd (fire_rows L E now (row # rows) W) = W2"
    by (simp add: W1_def W2_def split_beta)
  with settles_trans [OF first rest] show ?case by simp
qed simp

text \<open>The message a row gives rise to.\<close>

definition message_of :: "string \<times> envelope \<Rightarrow> schedule \<Rightarrow> bool" where
  "message_of m row \<longleftrightarrow>
     fst m = BuildSubject (sd_AccountID row) (sd_Manifold row) (sd_SourceHandle row) (sd_Pipe row)
     \<and> en_Sender (snd m) = sd_Sender row \<and> en_Payload (snd m) = sd_Payload row
     \<and> en_ScheduleID (snd m) = ShortID row"

lemma publishScheduled_message: "publishScheduled E row W = (Inr m, W') \<Longrightarrow> message_of m row"
  by (auto simp: publishScheduled_def Let_def message_of_def New_envelope_def split: prod.splits sum.splits option.splits)

lemma fire_row_messages: "\<exists>ps. subseq ps [row] \<and> list_all2 message_of (fst (fire_row L E now row W)) ps"
proof -
  have "fst (fire_row L E now row W) = [] \<or> (\<exists>m. fst (fire_row L E now row W) = [m] \<and> message_of m row)"
    by (auto simp: fire_row_def Let_def dest: publishScheduled_message split: sum.split prod.split)
  then show ?thesis
    by (metis list.rel_intros(1) list_all2_Cons list_all2_Nil list_emb_Nil subseq_order.order_refl)
qed

lemma fire_rows_messages:
  "\<exists>ps. subseq ps rows \<and> list_all2 message_of (fst (fire_rows L E now rows W)) ps"
proof (induction rows arbitrary: W)
  case (Cons row rows)
  define W1 where "W1 = snd (fire_row L (E (sd_ID row)) now row W)"
  obtain ps where ps: "subseq ps [row]" "list_all2 message_of (fst (fire_row L (E (sd_ID row)) now row W)) ps"
    using fire_row_messages by blast
  obtain qs where qs: "subseq qs rows" "list_all2 message_of (fst (fire_rows L E now rows W1)) qs"
    using Cons by blast
  have "subseq (ps @ qs) (row # rows)"
    using list_emb_append_mono [OF ps(1) qs(1)] by simp
  moreover have "list_all2 message_of (fst (fire_rows L E now (row # rows) W)) (ps @ qs)"
    using ps qs by (simp add: W1_def split_beta list_all2_appendI)
  ultimately show ?case by blast
qed auto

lemma filter_not_taken:
  "distinct (map f ys) \<Longrightarrow> filter (\<lambda>s. f s \<notin> f ` set (take n ys)) ys = drop n ys"
proof -
  assume d: "distinct (map f ys)"
  have "filter P ys = filter P (take n ys) @ filter P (drop n ys)" for P
    by (metis append_take_drop_id filter_append)
  moreover have "f s \<notin> f ` set (take n ys)" if "s \<in> set (drop n ys)" for s
  proof -
    have "set (map f (take n ys)) \<inter> set (map f (drop n ys)) = {}"
      using d by (metis append_take_drop_id distinct_append map_append)
    with that show ?thesis by auto
  qed
  ultimately show ?thesis by (simp add: filter_empty_conv filter_id_conv)
qed

lemma due_after_settle:
  assumes "settles U now S (schedules D')" "\<forall>s \<in> set S. sd_ID s \<in> U \<longrightarrow> now < sd_NextFireAt s"
    and "filter (\<lambda>s. sd_ID s \<notin> U) S = filter (\<lambda>s. sd_ID s \<notin> U) (schedules D)"
  shows "due_rows locked now D' = filter (\<lambda>s. sd_ID s \<notin> U) (due_rows locked now D)"
proof -
  let ?P = "\<lambda>s. sd_NextFireAt s \<le> now \<and> sd_ID s \<notin> set locked" and ?Q = "\<lambda>s. sd_ID s \<notin> U"
  have "\<forall>s \<in> set (schedules D'). ?P s \<longrightarrow> ?Q s" using assms(1,2) by (auto simp: settles_def)
  then have "filter ?P (schedules D') = filter ?P (filter ?Q (schedules D'))"
    unfolding filter_filter by (intro filter_cong) auto
  also have "filter ?Q (schedules D') = filter ?Q (schedules D)"
    using assms(1,3) by (simp add: settles_def)
  finally have "filter ?P (schedules D') = filter ?Q (filter ?P (schedules D))"
    by (simp add: conj_commute)
  then show ?thesis by (simp add: due_rows_def filter_sort)
qed


lemma claim_shape:
  fixes D :: database and limit :: nat and locked :: "uuid list" and now :: instant
  assumes "sched_ok D"
  defines "U \<equiv> sd_ID ` set (take limit (due_rows locked now D))"
  defines "D1 \<equiv> snd (ClaimDueSchedules None locked now limit D)"
  shows "filter (\<lambda>s. sd_ID s \<notin> U) (schedules D1) = filter (\<lambda>s. sd_ID s \<notin> U) (schedules D)"
    and "\<forall>s \<in> set (schedules D1). sd_ID s \<in> U \<longrightarrow> now < sd_NextFireAt s"
    and "filter (\<lambda>s. sd_ID s \<notin> U) (due_rows locked now D) = drop limit (due_rows locked now D)"
proof -
  have S: "schedules D1 = map (\<lambda>s. if sd_ID s \<in> U then s\<lparr>sd_NextFireAt := now + scheduleClaimLease\<rparr> else s) (schedules D)"
    by (simp add: D1_def U_def ClaimDueSchedules_def Let_def)
  have "filter (\<lambda>s. sd_ID s \<notin> U) (map (\<lambda>s. if sd_ID s \<in> U then f s else s) xs) = filter (\<lambda>s. sd_ID s \<notin> U) xs"
    if "\<And>s. sd_ID (f s) = sd_ID s" for f and xs :: "schedule list"
    using that by (induction xs) auto
  then show "filter (\<lambda>s. sd_ID s \<notin> U) (schedules D1) = filter (\<lambda>s. sd_ID s \<notin> U) (schedules D)"
    by (simp add: S)
  show "\<forall>s \<in> set (schedules D1). sd_ID s \<in> U \<longrightarrow> now < sd_NextFireAt s"
    by (auto simp: S scheduleClaimLease_def second_def)
  have "distinct (map sd_ID (due_rows locked now D))"
    using assms(1) by (simp add: sched_ok_def due_rows_def distinct_map inj_on_def)
  then show "filter (\<lambda>s. sd_ID s \<notin> U) (due_rows locked now D) = drop limit (due_rows locked now D)"
    unfolding U_def by (rule filter_not_taken)
qed

lemma tick_facts:
  fixes W :: server_world and locked :: "uuid list" and now :: instant
  assumes "sched_ok (aw_db W)" "cron_advances L" "\<forall>row \<in> set (schedules (aw_db W)). clock_sane L now row"
    and "fireDueSchedules L None locked E now W = (msgs, W')"
  defines "due \<equiv> due_rows locked now (aw_db W)"
  shows "due_rows locked now (aw_db W') = drop schedulerBatch due
    \<and> (\<exists>ps. subseq ps (take schedulerBatch due) \<and> list_all2 message_of msgs ps)
    \<and> (\<forall>s \<in> set (schedules (aw_db W)). sd_ID s \<notin> sd_ID ` set (take schedulerBatch due) \<longrightarrow> s \<in> set (schedules (aw_db W')))"
proof -
  define D1 where "D1 = snd (ClaimDueSchedules None locked now schedulerBatch (aw_db W))"
  let ?U = "sd_ID ` set (take schedulerBatch due)"
  note shape = claim_shape [OF assms(1), where limit = schedulerBatch and locked = locked and now = now,
      folded due_def D1_def]
  have run: "fire_rows L E now (take schedulerBatch due) (W\<lparr>aw_db := D1\<rparr>) = (msgs, W')"
    using assms(4) by (simp add: fireDueSchedules_def ClaimDueSchedules_def Let_def D1_def due_def)
  have "set due \<subseteq> set (schedules (aw_db W))" by (auto simp: due_def due_rows_def)
  then have "\<forall>row \<in> set (take schedulerBatch due). clock_sane L now row"
    using assms(3) by (meson in_set_takeD subsetD)
  from fire_rows_settles [OF assms(2) this, of "W\<lparr>aw_db := D1\<rparr>" E]
  have settled: "settles ?U now (schedules D1) (schedules (aw_db W'))" by (simp add: run)
  from due_after_settle [OF settled shape(2,1), of locked] shape(3)
  have "due_rows locked now (aw_db W') = drop schedulerBatch due" by (simp add: due_def)
  moreover have "\<exists>ps. subseq ps (take schedulerBatch due) \<and> list_all2 message_of msgs ps"
    using fire_rows_messages [of "take schedulerBatch due" L E now "W\<lparr>aw_db := D1\<rparr>"] by (simp add: run)
  moreover have "s \<in> set (schedules (aw_db W'))" if "s \<in> set (schedules (aw_db W))" "sd_ID s \<notin> ?U" for s
  proof -
    have "s \<in> set (filter (\<lambda>s. sd_ID s \<notin> ?U) (schedules (aw_db W)))" using that by simp
    also have "filter (\<lambda>s. sd_ID s \<notin> ?U) (schedules (aw_db W)) = filter (\<lambda>s. sd_ID s \<notin> ?U) (schedules (aw_db W'))"
      using settled shape(1) by (simp add: settles_def)
    finally show ?thesis by simp
  qed
  ultimately show ?thesis by blast
qed

text \<open>C7: A tick fires what is due, once, and leaves none of it due. Whatever the broker, the account
  pool and the database answer, for the claim and for the individual rows: if the claim fails, the tick
  publishes nothing and changes nothing. If it succeeds, the tick takes the 100 earliest of the due rows
  that no concurrent claim has locked at that moment; afterwards the due rows that were not locked are
  exactly the remaining ones in the same order, so neither this nor another replica can claim any of the
  100 again at that instant; every acknowledged message comes from a different claimed row and carries its
  target, sender, payload and short id; and rows that were not claimed, the locked ones included, are not
  touched.\<close>
theorem tick_fires_once:
  fixes W :: server_world and locked :: "uuid list" and now :: instant
  assumes "sched_ok (aw_db W)" "cron_advances L" "\<forall>row \<in> set (schedules (aw_db W)). clock_sane L now row"
    and "fireDueSchedules L claim locked E now W = (msgs, W')"
  defines "due \<equiv> due_rows locked now (aw_db W)"
  shows "case claim of
      Some fault \<Rightarrow> msgs = [] \<and> W' = W
    | None \<Rightarrow> due_rows locked now (aw_db W') = drop 100 due
        \<and> (\<exists>ps. subseq ps (take 100 due) \<and> list_all2 message_of msgs ps)
        \<and> (\<forall>s \<in> set (schedules (aw_db W)). sd_ID s \<notin> sd_ID ` set (take 100 due) \<longrightarrow> s \<in> set (schedules (aw_db W')))"
proof (cases claim)
  case None
  with tick_facts [OF assms(1-3), of locked E msgs W'] assms(4) show ?thesis
    unfolding due_def schedulerBatch_def by simp
next
  case (Some fault)
  with assms(4) show ?thesis by (simp add: fireDueSchedules_def ClaimDueSchedules_def)
qed

section \<open>A backlog\<close>

text \<open>The columns a tick never changes; a row only changes its times and its counter, or goes.\<close>

definition core :: "schedule \<Rightarrow> uuid \<times> uuid \<times> string \<times> string \<times> instant" where
  "core s = (sd_ID s, sd_AccountID s, sd_Kind s, sd_Spec s, sd_CreatedAt s)"

definition derived :: "schedule list \<Rightarrow> schedule list \<Rightarrow> bool" where
  "derived S S' \<longleftrightarrow> subseq (map core S') (map core S)"

lemma derived_refl [simp]: "derived S S"
  by (simp add: derived_def)

lemma derived_trans: "derived S S' \<Longrightarrow> derived S' S'' \<Longrightarrow> derived S S''"
  by (auto simp: derived_def intro: subseq_order.trans)

lemma derived_map: "(\<And>s. core (f s) = core s) \<Longrightarrow> derived S (map f S)"
  by (simp add: derived_def comp_def)

lemma derived_filter: "derived S (filter P S)"
  by (simp add: derived_def subseq_map)

lemma derived_CompleteFire: "derived (schedules D) (schedules (snd (CompleteFire flt u nxt fired D)))"
  by (auto simp: CompleteFire_def delete_schedule_def update_schedule_def core_def
      intro!: derived_filter derived_map split: option.split)

lemma derived_Bump: "derived (schedules D) (schedules (snd (BumpScheduleFailCount flt u D)))"
  by (auto simp: BumpScheduleFailCount_def update_schedule_def core_def Let_def intro!: derived_map split: option.split)

lemma derived_Claim: "derived (schedules D) (schedules (snd (ClaimDueSchedules flt locked now limit D)))"
  by (auto simp: ClaimDueSchedules_def core_def Let_def intro!: derived_map split: option.split)

lemma fire_row_derived: "derived (schedules (aw_db W)) (schedules (aw_db (snd (fire_row L E now row W))))"
proof -
  obtain r W1 where pub: "publishScheduled E row W = (r, W1)" by (cases "publishScheduled E row W")
  obtain cnt D2 where bump: "BumpScheduleFailCount (fe_Bump E) (sd_ID row) (aw_db W1) = (cnt, D2)"
    by (cases "BumpScheduleFailCount (fe_Bump E) (sd_ID row) (aw_db W1)")
  note same = publishScheduled_schedules [OF pub]
  have b: "derived (schedules (aw_db W)) (schedules D2)"
    using derived_Bump [of "aw_db W1" "fe_Bump E" "sd_ID row"] bump same by simp
  have s: "derived (schedules (aw_db W)) (schedules (snd (CompleteFire flt u nxt fired (aw_db W1))))" for flt u nxt fired
    using derived_CompleteFire [of "aw_db W1" flt u nxt fired] same by simp
  show ?thesis
    using b s same
    by (auto simp: fire_row_def Let_def pub bump intro: derived_CompleteFire derived_trans [OF b] split: sum.split)
qed

lemma fire_rows_derived: "derived (schedules (aw_db W)) (schedules (aw_db (snd (fire_rows L E now rows W))))"
proof (induction rows arbitrary: W)
  case (Cons row rows)
  from derived_trans [OF fire_row_derived Cons] show ?case by (simp add: split_beta)
qed simp

lemma tick_derived: "derived (schedules (aw_db W)) (schedules (aw_db (snd (fireDueSchedules L flt locked E now W))))"
proof -
  obtain r D1 where claim: "ClaimDueSchedules flt locked now schedulerBatch (aw_db W) = (r, D1)"
    by (cases "ClaimDueSchedules flt locked now schedulerBatch (aw_db W)")
  have "derived (schedules (aw_db W)) (schedules D1)"
    using derived_Claim [of "aw_db W" flt locked now schedulerBatch] claim by simp
  then show ?thesis
    using fire_rows_derived [of "W\<lparr>aw_db := D1\<rparr>" L E now]
    by (auto simp: fireDueSchedules_def claim intro: derived_trans split: sum.split)
qed

lemma subseq_keeps: "subseq xs ys \<Longrightarrow> set xs \<subseteq> set ys \<and> (distinct ys \<longrightarrow> distinct xs)"
  by (auto simp: subseq_conv_nths dest: in_set_nthsD)

lemma derived_sched_ok:
  assumes "sched_ok D" "derived (schedules D) (schedules D')"
  shows "sched_ok D'"
proof -
  have sub: "subseq (map g (map core (schedules D'))) (map g (map core (schedules D)))" for g :: "_ \<Rightarrow> 'a"
    using assms(2) by (simp only: derived_def subseq_map)
  have "sched_key = (\<lambda>(u, a, _). (a, short_of u)) \<circ> core" "sd_ID = fst \<circ> core"
    by (auto simp: sched_key_def ShortID_def core_def)
  with sub [of "\<lambda>(u, a, _). (a, short_of u)"] sub [of fst] assms(1) show ?thesis
    by (auto simp: sched_ok_def dest: subseq_keeps)
qed

lemma derived_clock_sane:
  assumes "derived (schedules D) (schedules D')" "\<forall>row \<in> set (schedules D). clock_sane L now row"
  shows "\<forall>row \<in> set (schedules D'). clock_sane L now row"
proof
  fix row assume "row \<in> set (schedules D')"
  then have "core row \<in> set (map core (schedules D))"
    using subseq_keeps [OF assms(1) [unfolded derived_def]] by auto
  then obtain row' where "row' \<in> set (schedules D)" "core row' = core row" by auto
  with assms(2) show "clock_sane L now row" by (auto simp: clock_sane_def core_def)
qed

fun run_ticks :: "time_lib \<Rightarrow> instant \<Rightarrow> (uuid \<Rightarrow> fire_env) list \<Rightarrow> server_world \<Rightarrow> server_world" where
  "run_ticks L now [] W = W"
| "run_ticks L now (E # Es) W = run_ticks L now Es (snd (fireDueSchedules L None [] E now W))"


text \<open>A backlog drains. However many schedules are due after a stall, and whatever fails while they
  are fired, \<open>k\<close> ticks at an instant leave due exactly the rows behind the first \<open>100 * k\<close> in fire
  order; so after enough ticks nothing is due.\<close>
theorem schedule_backlog_drains:
  assumes "sched_ok (aw_db W)" "cron_advances L" "\<forall>row \<in> set (schedules (aw_db W)). clock_sane L now row"
  shows "due_rows [] now (aw_db (run_ticks L now Es W)) = drop (100 * length Es) (due_rows [] now (aw_db W))
    \<and> (length (due_rows [] now (aw_db W)) \<le> 100 * length Es \<longrightarrow> due_rows [] now (aw_db (run_ticks L now Es W)) = [])"
proof -
  have "due_rows [] now (aw_db (run_ticks L now Es W)) = drop (100 * length Es) (due_rows [] now (aw_db W))"
    using assms
  proof (induction Es arbitrary: W)
    case (Cons E Es)
    obtain msgs W' where tick: "fireDueSchedules L None [] E now W = (msgs, W')"
      by (cases "fireDueSchedules L None [] E now W")
    have d: "derived (schedules (aw_db W)) (schedules (aw_db W'))"
      using tick_derived [of W L None "[]" E now] tick by simp
    have "due_rows [] now (aw_db W') = drop schedulerBatch (due_rows [] now (aw_db W))"
      using tick_facts [OF Cons.prems(1-3) tick] by simp
    with Cons.IH [OF derived_sched_ok [OF Cons.prems(1) d] assms(2) derived_clock_sane [OF d Cons.prems(3)]]
    show ?case by (simp add: tick schedulerBatch_def add.commute)
  qed simp
  then show ?thesis by simp
qed

section \<open>Where the lease does not protect\<close>

lemma claimed_again:
  assumes "sched_ok D" "ClaimDueSchedules None [] now limit D = (Inr rows, D1)" "row \<in> set rows"
    and "now + scheduleClaimLease \<le> now'" "ClaimDueSchedules None [] now' limit' D1 = (Inr rows', D2)"
    and "length (due_rows [] now' D1) \<le> limit'"
  shows "row\<lparr>sd_NextFireAt := now + scheduleClaimLease\<rparr> \<in> set rows'"
proof -
  have rows: "rows = take limit (due_rows [] now D)"
    and D1: "schedules D1 = map (\<lambda>s. if sd_ID s \<in> sd_ID ` set rows then s\<lparr>sd_NextFireAt := now + scheduleClaimLease\<rparr> else s)
        (schedules D)"
    using assms(2) by (auto simp: ClaimDueSchedules_def Let_def)
  have "row \<in> set (schedules D)"
    using assms(3) rows by (auto simp: due_rows_def dest!: in_set_takeD)
  then have "row\<lparr>sd_NextFireAt := now + scheduleClaimLease\<rparr> \<in> set (schedules D1)"
    using assms(3) unfolding D1 by (auto intro!: rev_image_eqI [of row])
  moreover have "rows' = due_rows [] now' D1"
    using assms(5,6) by (auto simp: ClaimDueSchedules_def Let_def)
  ultimately show ?thesis using assms(4) by (simp add: due_rows_def)
qed


text \<open>An open account stays open through ticks.\<close>

lemma Get_pool: "aw_pool W acc = Some oa \<Longrightarrow> aw_pool (snd (Get flt mint acc' W)) acc = Some oa"
proof -
  assume oa: "aw_pool W acc = Some oa"
  have prov: "aw_pool V' = aw_pool V" if "provisionAccount flt mint org V = (r, V')" for org V r V'
    using that by (auto simp: provisionAccount_def split: if_splits sum.splits prod.splits option.splits)
  show ?thesis
  proof (cases "aw_pool W acc'")
    case None
    with oa have "acc \<noteq> acc'" by auto
    then show ?thesis
      using None oa
      by (auto simp: Get_def Let_def pool_enter_def split: option.split sum.split prod.split if_splits dest: prov)
  qed (simp add: Get_def oa)
qed

lemma publishScheduled_pool:
  "aw_pool W acc = Some oa \<Longrightarrow> aw_pool (snd (publishScheduled E row W)) acc = Some oa"
  using Get_pool [of W acc oa "fe_Pool E" "fe_Mint E" "sd_AccountID row"]
  by (auto simp: publishScheduled_def JSFor_def Let_def split: prod.split sum.split option.split)

lemma fire_row_pool: "aw_pool W acc = Some oa \<Longrightarrow> aw_pool (snd (fire_row L E now row W)) acc = Some oa"
  using publishScheduled_pool [of W acc oa E row]
  by (auto simp: fire_row_def Let_def split: prod.split sum.split)

lemma fire_rows_pool: "aw_pool W acc = Some oa \<Longrightarrow> aw_pool (snd (fire_rows L E now rows W)) acc = Some oa"
  by (induction rows arbitrary: W) (auto simp: split_beta fire_row_pool)

text \<open>A broker that takes every message.\<close>

definition broker_up :: "fire_env \<Rightarrow> bool" where
  "broker_up E \<longleftrightarrow> fe_Publish E = None \<and> (\<forall>env. \<exists>text. fe_Marshal E env = Inr text)"

lemma fire_row_publishes:
  assumes "rowSpec L row = Inr sp" "ds_Fire (Decide L sp (sd_NextFireAt row) now)"
    and "aw_pool W (sd_AccountID row) = Some oa" "broker_up E"
  shows "\<exists>m. fst (fire_row L E now row W) = [m] \<and> message_of m row"
proof -
  define env where "env = (New_envelope (fe_MsgID E) (sd_Sender row) '''' (sd_Payload row) (fe_Clock E))
    \<lparr>en_ScheduleID := ShortID row\<rparr>"
  obtain data where "fe_Marshal E env = Inr data" using assms(4) by (auto simp: broker_up_def)
  then obtain m W' where pub: "publishScheduled E row W = (Inr m, W')"
    using assms(3,4) by (simp add: publishScheduled_def JSFor_def Get_def broker_up_def Let_def env_def)
  with publishScheduled_message [OF pub] assms(1,2) show ?thesis by (simp add: fire_row_def Let_def)
qed

lemma fire_rows_publishes:
  assumes "row \<in> set rows" "rowSpec L row = Inr sp" "ds_Fire (Decide L sp (sd_NextFireAt row) now)"
    and "aw_pool W (sd_AccountID row) = Some oa" "broker_up (E (sd_ID row))"
  shows "\<exists>m \<in> set (fst (fire_rows L E now rows W)). message_of m row"
  using assms(1,4)
proof (induction rows arbitrary: W)
  case (Cons r rows)
  show ?case
  proof (cases "r = row")
    case True
    with fire_row_publishes [OF assms(2,3) Cons.prems(2) assms(5)] show ?thesis by (auto simp: split_beta)
  next
    case False
    with Cons.prems Cons.IH [of "snd (fire_row L (E (sd_ID r)) now r W)"] show ?thesis
      by (auto simp: split_beta fire_row_pool)
  qed
qed simp

lemma one_off_fires:
  assumes "sd_Kind row = KindAt" "tl_ParseRFC3339 L (sd_Spec row) = Inr t"
  obtains sp where "rowSpec L row = Inr sp" "\<And>nxt now. nxt \<le> now \<Longrightarrow> ds_Fire (Decide L sp nxt now)"
  using assms that by (auto simp: rowSpec_def Let_def Decide_def)

text \<open>A slow batch is delivered twice. The claim of a row lasts 30 seconds, but a batch of up to 100
  rows is published one row at a time, each with a timeout of 5 seconds. When a replica has claimed
  a one-off at \<open>now\<close> and has not come to it by \<open>now + 30s\<close>, the tick of another replica claims it
  again and publishes it, and the first replica then publishes it as well.\<close>
theorem lease_expiry_fires_twice:
  assumes "sched_ok (aw_db W)" "ClaimDueSchedules None [] now schedulerBatch (aw_db W) = (Inr rows, D1)" "row \<in> set rows"
    and "sd_Kind row = KindAt" "tl_ParseRFC3339 L (sd_Spec row) = Inr t"
    and "now + scheduleClaimLease \<le> now'" "length (due_rows [] now' D1) \<le> schedulerBatch"
    and "aw_pool W (sd_AccountID row) = Some oa" "broker_up E" "broker_up (E' (sd_ID row))"
  defines "other \<equiv> fireDueSchedules L None [] E' now' (W\<lparr>aw_db := D1\<rparr>)"
  shows "(\<exists>m \<in> set (fst other). message_of m row)
    \<and> (\<exists>m. fst (fire_row L E now row (snd other)) = [m] \<and> message_of m row)"
proof -
  obtain rows' D2 where claim': "ClaimDueSchedules None [] now' schedulerBatch D1 = (Inr rows', D2)"
    by (simp add: ClaimDueSchedules_def Let_def)
  define row' where "row' = row\<lparr>sd_NextFireAt := now + scheduleClaimLease\<rparr>"
  have again: "row' \<in> set rows'"
    unfolding row'_def by (rule claimed_again [OF assms(1-3,6) claim' assms(7)])
  have other: "other = fire_rows L E' now' rows' (W\<lparr>aw_db := D2\<rparr>)"
    by (simp add: other_def fireDueSchedules_def claim')
  have "sd_NextFireAt row \<le> now"
    using assms(2,3) by (auto simp: ClaimDueSchedules_def Let_def due_rows_def dest!: in_set_takeD)
  moreover obtain sp where sp: "rowSpec L row = Inr sp" "\<And>nxt now. nxt \<le> now \<Longrightarrow> ds_Fire (Decide L sp nxt now)"
    using one_off_fires [OF assms(4,5)] by blast
  moreover have "rowSpec L row' = Inr sp" using sp(1) assms(4,5) by (simp add: row'_def rowSpec_def Let_def)
  moreover have "message_of m row' \<longleftrightarrow> message_of m row" for m
    by (simp add: message_of_def row'_def ShortID_def)
  ultimately show ?thesis
    using fire_rows_publishes [OF again, of L sp now' "W\<lparr>aw_db := D2\<rparr>" oa E'] assms(6,8-10)
      fire_row_publishes [of L row sp now "snd other" oa E]
      fire_rows_pool [of "W\<lparr>aw_db := D2\<rparr>" "sd_AccountID row" oa L E' now' rows']
    by (simp add: other row'_def)
qed


text \<open>A broker that cannot be reached.\<close>

definition broker_down :: "fire_env \<Rightarrow> bool" where
  "broker_down E \<longleftrightarrow> (\<exists>err. fe_Publish E = Some err \<and> isInfraTransient err) \<and> (\<forall>env. \<exists>text. fe_Marshal E env = Inr text)"

lemma fire_row_outage:
  assumes "rowSpec L row = Inr sp" "ds_Fire (Decide L sp (sd_NextFireAt row) now)"
    and "aw_pool W (sd_AccountID row) = Some oa" "broker_down E"
  shows "fire_row L E now row W = ([], W)"
proof -
  define env where "env = (New_envelope (fe_MsgID E) (sd_Sender row) '''' (sd_Payload row) (fe_Clock E))
    \<lparr>en_ScheduleID := ShortID row\<rparr>"
  obtain data where "fe_Marshal E env = Inr data" using assms(4) by (auto simp: broker_down_def)
  then obtain err where "publishScheduled E row W = (Inl err, W)" "isInfraTransient err"
    using assms(3,4) by (auto simp: publishScheduled_def JSFor_def Get_def broker_down_def Let_def env_def)
  with assms(1,2) show ?thesis by (simp add: fire_row_def Let_def)
qed

lemma due_single: "schedules D = [row] \<Longrightarrow> sd_NextFireAt row \<le> now \<Longrightarrow> due_rows [] now D = [row]"
  by (simp add: due_rows_def)

lemma tick_single:
  assumes "schedules (aw_db W) = [row]" "sd_NextFireAt row \<le> now"
  shows "fireDueSchedules L None [] E now W = fire_row L (E (sd_ID row)) now row
    (W\<lparr>aw_db := (aw_db W)\<lparr>schedules := [row\<lparr>sd_NextFireAt := now + scheduleClaimLease\<rparr>]\<rparr>\<rparr>)"
proof -
  have "take schedulerBatch [row] = [row]" by (simp add: schedulerBatch_def)
  then have claim: "ClaimDueSchedules None [] now schedulerBatch (aw_db W) =
      (Inr [row], (aw_db W)\<lparr>schedules := [row\<lparr>sd_NextFireAt := now + scheduleClaimLease\<rparr>]\<rparr>)"
    using due_single [OF assms] by (simp add: ClaimDueSchedules_def assms(1))
  show ?thesis by (simp add: fireDueSchedules_def claim split_beta)
qed

lemma every_fires:
  assumes "sd_Kind row = KindEvery" "tl_ParseDuration L (sd_Spec row) = Inr d" "0 < d"
  obtains sp where "\<forall>t. rowSpec L (row\<lparr>sd_NextFireAt := t\<rparr>) = Inr sp"
    "\<forall>nxt now. nxt \<le> now \<longrightarrow> now - nxt \<le> MissfireGrace \<longrightarrow> ds_Fire (Decide L sp nxt now)"
proof -
  define sp where "sp = zero_spec\<lparr>sp_Kind := KindEvery, sp_At := sd_CreatedAt row, sp_Every := d\<rparr>"
  have "ds_Fire (Decide L sp nxt now)" if "nxt \<le> now" "now - nxt \<le> MissfireGrace" for nxt now
    using that assms(3)
    by (simp add: Decide_def NextAfter_def kind_defs sp_def zero_spec_def Let_def time_sub_exact MissfireGrace_def
        second_def max_i64_def min_i64_def)
  then show thesis
    using that [of sp] assms by (simp add: rowSpec_def Let_def sp_def kind_defs)
qed

text \<open>The ticks of an outage: one every 31 seconds, just after each lease has run out.\<close>

fun outage :: "time_lib \<Rightarrow> (uuid \<Rightarrow> fire_env) \<Rightarrow> instant \<Rightarrow> nat \<Rightarrow> server_world \<Rightarrow> server_world" where
  "outage L E now 0 W = W"
| "outage L E now (Suc k) W = snd (fireDueSchedules L None [] E (now + int k * (31 * second)) (outage L E now k W))"

lemma outage_row:
  assumes "schedules (aw_db W) = [row]" "sd_Kind row = KindEvery" "tl_ParseDuration L (sd_Spec row) = Inr d" "0 < d"
    and "sd_NextFireAt row \<le> now" "now - sd_NextFireAt row \<le> MissfireGrace"
    and "aw_pool W (sd_AccountID row) = Some oa" "broker_down (E (sd_ID row))"
  shows "\<exists>nxt. schedules (aw_db (outage L E now k W)) = [row\<lparr>sd_NextFireAt := nxt\<rparr>]
     \<and> nxt \<le> now + int k * (31 * second) \<and> now + int k * (31 * second) - nxt \<le> MissfireGrace
     \<and> aw_pool (outage L E now k W) (sd_AccountID row) = Some oa"
proof (induction k)
  case 0
  have "row\<lparr>sd_NextFireAt := sd_NextFireAt row\<rparr> = row" by simp
  with assms(1,5-7) show ?case by (intro exI [of _ "sd_NextFireAt row"]) simp
next
  case (Suc k)
  let ?t = "now + int k * (31 * second)" and ?V = "outage L E now k W"
  from Suc obtain nxt where IH: "schedules (aw_db ?V) = [row\<lparr>sd_NextFireAt := nxt\<rparr>]" "nxt \<le> ?t"
    "?t - nxt \<le> MissfireGrace" "aw_pool ?V (sd_AccountID row) = Some oa" by blast
  obtain sp where sp: "\<forall>t. rowSpec L (row\<lparr>sd_NextFireAt := t\<rparr>) = Inr sp"
    "\<forall>nxt now. nxt \<le> now \<longrightarrow> now - nxt \<le> MissfireGrace \<longrightarrow> ds_Fire (Decide L sp nxt now)"
    by (rule every_fires [OF assms(2-4)])
  define V1 where "V1 = ?V\<lparr>aw_db := (aw_db ?V)\<lparr>schedules := [row\<lparr>sd_NextFireAt := ?t + scheduleClaimLease\<rparr>]\<rparr>\<rparr>"
  have fire: "ds_Fire (Decide L sp nxt ?t)" using sp(2) IH(2,3) by blast
  have "fire_row L (E (sd_ID row)) ?t (row\<lparr>sd_NextFireAt := nxt\<rparr>) V1 = ([], V1)"
    by (rule fire_row_outage [OF spec [OF sp(1)]]) (simp_all add: fire V1_def IH(4) assms(8))
  then have "outage L E now (Suc k) W = V1"
    using tick_single [OF IH(1), of ?t L E] IH(2) by (simp add: V1_def)
  then have step: "outage L E now (Suc k) W = V1" .
  moreover have "schedules (aw_db V1) = [row\<lparr>sd_NextFireAt := ?t + scheduleClaimLease\<rparr>]"
    "aw_pool V1 (sd_AccountID row) = Some oa"
    using IH(4) by (simp_all add: V1_def)
  moreover have "?t + scheduleClaimLease \<le> now + int (Suc k) * (31 * second)"
    "now + int (Suc k) * (31 * second) - (?t + scheduleClaimLease) \<le> MissfireGrace"
    by (simp_all add: scheduleClaimLease_def MissfireGrace_def second_def)
  ultimately show ?case unfolding step by blast
qed

text \<open>Retried occurrences escape the missfire policy. While the broker cannot be reached, every retry
  renews the lease, and lateness is judged against the end of the lease instead of the occurrence; so
  an interval schedule whose fire failed at \<open>now\<close> is published on the first attempt after the
  outage, however many attempts, 31 seconds apart, have failed.\<close>
theorem retried_fire_escapes_grace:
  assumes "schedules (aw_db W) = [row]" "sd_Kind row = KindEvery" "tl_ParseDuration L (sd_Spec row) = Inr d" "0 < d"
    and "sd_NextFireAt row \<le> now" "now - sd_NextFireAt row \<le> MissfireGrace"
    and "aw_pool W (sd_AccountID row) = Some oa" "broker_down (E (sd_ID row))" "broker_up (E' (sd_ID row))"
  shows "\<exists>m. fst (fireDueSchedules L None [] E' (now + int k * (31 * second)) (outage L E now k W)) = [m]
     \<and> message_of m row"
proof -
  let ?t = "now + int k * (31 * second)" and ?V = "outage L E now k W"
  from outage_row [where E = E and k = k, OF assms(1-7)] assms(8) obtain nxt where V: "schedules (aw_db ?V) = [row\<lparr>sd_NextFireAt := nxt\<rparr>]" "nxt \<le> ?t"
    "?t - nxt \<le> MissfireGrace" "aw_pool ?V (sd_AccountID row) = Some oa" by blast
  obtain sp where sp: "\<forall>t. rowSpec L (row\<lparr>sd_NextFireAt := t\<rparr>) = Inr sp"
    "\<forall>nxt now. nxt \<le> now \<longrightarrow> now - nxt \<le> MissfireGrace \<longrightarrow> ds_Fire (Decide L sp nxt now)"
    by (rule every_fires [OF assms(2-4)])
  have fire: "ds_Fire (Decide L sp nxt ?t)" using sp(2) V(2,3) by blast
  define V1 where "V1 = ?V\<lparr>aw_db := (aw_db ?V)\<lparr>schedules := [row\<lparr>sd_NextFireAt := ?t + scheduleClaimLease\<rparr>]\<rparr>\<rparr>"
  have pool: "aw_pool V1 (sd_AccountID (row\<lparr>sd_NextFireAt := nxt\<rparr>)) = Some oa" using V(4) by (simp add: V1_def)
  obtain m where "fst (fire_row L (E' (sd_ID row)) ?t (row\<lparr>sd_NextFireAt := nxt\<rparr>) V1) = [m]"
    "message_of m (row\<lparr>sd_NextFireAt := nxt\<rparr>)"
    using fire_row_publishes [OF spec [OF sp(1)] _ pool, of ?t "E' (sd_ID row)"] fire assms(9) by auto
  moreover have "fireDueSchedules L None [] E' ?t ?V = fire_row L (E' (sd_ID row)) ?t (row\<lparr>sd_NextFireAt := nxt\<rparr>) V1"
    using tick_single [OF V(1), of ?t L E'] V(2) by (simp add: V1_def)
  ultimately show ?thesis by (simp add: message_of_def ShortID_def)
qed


section \<open>Creating a schedule is not subject to the access rules\<close>

definition ordinary_request :: "time_lib \<Rightarrow> (envelope \<Rightarrow> string + string) \<Rightarrow> schedulecreaterequest \<Rightarrow> duration \<Rightarrow> bool" where
  "ordinary_request L Marshal req d \<longleftrightarrow>
     (sq_Handle req = '''' \<or> ValidateHandle (sq_Handle req) = None) \<and> validateManifold (sq_Manifold req) = None
     \<and> ValidatePipe (sq_Pipe req) = None \<and> sq_Kind req = KindEvery \<and> tl_ParseDuration L (sq_Every req) = Inr d
     \<and> MinEvery \<le> d
     \<and> (\<forall>env. en_Payload env = sq_Payload req \<longrightarrow> (\<exists>data. Marshal env = Inr data \<and> length data \<le> MaxBytes))"

definition created_row :: "uuid \<Rightarrow> schedulecreaterequest \<Rightarrow> api_key \<Rightarrow> instant \<Rightarrow> duration \<Rightarrow> schedule" where
  "created_row u req key now d =
     \<lparr>sd_ID = u, sd_AccountID = ak_AccountID key, sd_Manifold = sq_Manifold req,
      sd_SourceHandle = sq_Handle req, sd_Pipe = sq_Pipe req, sd_Payload = sq_Payload req,
      sd_Sender = sq_Sender req, sd_Kind = KindEvery, sd_Spec = sq_Every req, sd_TZ = sq_TZ req,
      sd_NextFireAt = now + d, sd_LastFiredAt = None, sd_FailCount = 0,
      sd_CreatedByUserID = Actor key, sd_CreatedAt = now, sd_CreatorUsername = ''''\<rparr>"

lemma resolve_ordinary:
  assumes "ordinary_request L Marshal req d"
  shows "resolveScheduleRow L Marshal pid req key now = Inr (created_row uuid_nil req key now d)"
proof -
  define probe where "probe = (New_envelope pid (sq_Sender req) '''' (sq_Payload req) now)\<lparr>en_ScheduleID := ''aaaaaaaa''\<rparr>"
  have "en_Payload probe = sq_Payload req" by (simp add: probe_def New_envelope_def)
  with assms obtain data where "Marshal probe = Inr data" "length data \<le> MaxBytes"
    by (auto simp: ordinary_request_def)
  with assms show ?thesis
    by (simp add: resolveScheduleRow_def Let_def probe_def [symmetric] ordinary_request_def ParseEvery_def
        created_row_def kind_defs)
qed

lemma create_ordinary:
  assumes "ordinary_request L Marshal req d" "now \<noteq> 0" "schedules D = []"
    and "has_account D (ak_AccountID key)" "has_user D (Actor key)"
  shows "\<exists>reply. handleCreateSchedule L Marshal pid no_faults fresh now key (Some req) D =
    (Inr reply, D\<lparr>schedules := [created_row (fresh 0) req key now d]\<rparr>)"
proof -
  have "mint_schedule_id no_faults fresh acc D 0 4 = Inr (fresh 0)" for acc
    by (simp add: assms(3))
  then have "InsertSchedule no_faults fresh now (created_row uuid_nil req key now d) D =
      (Inr (created_row (fresh 0) req key now d), D\<lparr>schedules := [created_row (fresh 0) req key now d]\<rparr>)"
    using assms(2-5)
    by (simp add: InsertSchedule_def Let_def insert_schedule_row_def created_row_def kind_defs
        del: mint_schedule_id.simps)
  then show ?thesis
    by (simp add: handleCreateSchedule_def resolve_ordinary [OF assms(1)])
qed

text \<open>Scheduling bypasses the write permission. In an enforcing account, a caller whom the access
  rules refuse write on a pipe can create a schedule for that pipe through the bearer API: the
  request is accepted, and the server, whose own connection is not restricted, publishes the
  caller's payload on the pipe's subject at the first fire.\<close>
theorem schedule_bypasses_acl:
  assumes "sessionCan no_faults True (ak_AccountID key) (Actor key)
      (FormatPipePath (sq_Manifold req) (sq_Handle req) (sq_Pipe req)) Write D = Inr False"
    and "ordinary_request L Marshal req d" "now \<noteq> 0" "schedules D = []"
    and "has_account D (ak_AccountID key)" "has_user D (Actor key)"
  shows "\<exists>reply D'. handleCreateSchedule L Marshal pid no_faults fresh now key (Some req) D = (Inr reply, D')
    \<and> (\<forall>W E oa. aw_db W = D' \<and> aw_pool W (ak_AccountID key) = Some oa \<and> broker_up (E (fresh 0)) \<longrightarrow>
        (\<exists>m. fst (fireDueSchedules L None [] E (now + d) W) = [m]
           \<and> fst m = BuildSubject (ak_AccountID key) (sq_Manifold req) (sq_Handle req) (sq_Pipe req)
           \<and> en_Payload (snd m) = sq_Payload req))"
proof -
  define row where "row = created_row (fresh 0) req key now d"
  obtain reply where created: "handleCreateSchedule L Marshal pid no_faults fresh now key (Some req) D =
      (Inr reply, D\<lparr>schedules := [row]\<rparr>)"
    using create_ordinary [OF assms(2-6)] by (auto simp: row_def)
  have kind: "sd_Kind row = KindEvery" "tl_ParseDuration L (sd_Spec row) = Inr d" "0 < d"
    using assms(2) by (simp_all add: row_def created_row_def ordinary_request_def MinEvery_def second_def)
  obtain sp where sp: "\<forall>t. rowSpec L (row\<lparr>sd_NextFireAt := t\<rparr>) = Inr sp"
    "\<forall>nxt now. nxt \<le> now \<longrightarrow> now - nxt \<le> MissfireGrace \<longrightarrow> ds_Fire (Decide L sp nxt now)"
    by (rule every_fires [OF kind])
  have row: "rowSpec L row = Inr sp" "ds_Fire (Decide L sp (sd_NextFireAt row) (now + d))"
    using spec [OF sp(1), of "sd_NextFireAt row"] sp(2)
    by (simp_all add: row_def created_row_def MissfireGrace_def second_def)
  have "\<exists>m. fst (fireDueSchedules L None [] E (now + d) W) = [m] \<and> message_of m row"
    if "aw_db W = D\<lparr>schedules := [row]\<rparr>" "aw_pool W (ak_AccountID key) = Some oa" "broker_up (E (fresh 0))" for W E oa
  proof -
    have "fireDueSchedules L None [] E (now + d) W = fire_row L (E (sd_ID row)) (now + d) row
        (W\<lparr>aw_db := (aw_db W)\<lparr>schedules := [row\<lparr>sd_NextFireAt := now + d + scheduleClaimLease\<rparr>]\<rparr>\<rparr>)"
      by (rule tick_single) (simp_all add: that(1) row_def created_row_def)
    moreover have "\<exists>m. fst (fire_row L (E (sd_ID row)) (now + d) row
        (W\<lparr>aw_db := (aw_db W)\<lparr>schedules := [row\<lparr>sd_NextFireAt := now + d + scheduleClaimLease\<rparr>]\<rparr>\<rparr>)) = [m] \<and> message_of m row"
      by (rule fire_row_publishes [OF row]) (use that(2,3) in \<open>simp_all add: row_def created_row_def\<close>)
    ultimately show ?thesis by simp
  qed
  then have fires: "\<forall>W E oa. aw_db W = D\<lparr>schedules := [row]\<rparr> \<and> aw_pool W (ak_AccountID key) = Some oa
      \<and> broker_up (E (fresh 0)) \<longrightarrow> (\<exists>m. fst (fireDueSchedules L None [] E (now + d) W) = [m] \<and> message_of m row)"
    by blast
  have "fst m = BuildSubject (ak_AccountID key) (sq_Manifold req) (sq_Handle req) (sq_Pipe req)
      \<and> en_Payload (snd m) = sq_Payload req" if "message_of m row" for m
    using that by (simp add: message_of_def row_def created_row_def)
  with created fires show ?thesis by blast
qed


section \<open>Instances\<close>

definition ex_fire :: fire_env where
  "ex_fire = \<lparr>fe_Pool = no_faults, fe_Mint = ex_mint, fe_PoolIs = [], fe_MsgID = ''m1'', fe_Clock = 1,
     fe_Marshal = (\<lambda>env. Inr (en_Payload env)), fe_Publish = None, fe_Bump = None, fe_Settle = None\<rparr>"

definition ex_down :: fire_env where
  "ex_down = ex_fire\<lparr>fe_Publish := Some \<lparr>ge_Text = ''nats: timeout'', ge_Is = [ErrTimeout]\<rparr>\<rparr>"

definition ex_row :: schedule where "ex_row = ex_sched\<lparr>sd_ID := ex_sched_id\<rparr>"

definition ex_once :: schedule where
  "ex_once = ex_row\<lparr>sd_Kind := KindAt, sd_Spec := ''2026-07-08T09:55:00Z'', sd_NextFireAt := 63919101300 * second\<rparr>"

definition ex_tick_world :: "schedule list \<Rightarrow> server_world" where
  "ex_tick_world rows = ex_warm\<lparr>aw_db := ex_pipes\<lparr>schedules := rows\<rparr>\<rparr>"

lemma ex_row_facts: "sd_ID ex_row = ex_sched_id" "sd_Kind ex_row = KindEvery" "sd_Spec ex_row = ''15m''"
  "sd_NextFireAt ex_row = 15 * minute + 1" "sd_CreatedAt ex_row = 1" "sd_AccountID ex_row = ''a1''"
  by (simp_all add: ex_row_def ex_sched_def)

lemma ex_once_facts: "sd_ID ex_once = ex_sched_id" "sd_Kind ex_once = KindAt" "sd_Spec ex_once = ''2026-07-08T09:55:00Z''"
  "sd_NextFireAt ex_once = 63919101300 * second" "sd_AccountID ex_once = ''a1''"
  by (simp_all add: ex_once_def ex_row_facts)

lemma ex_tick_facts: "schedules (aw_db (ex_tick_world rows)) = rows"
  "aw_pool (ex_tick_world rows) ''a1'' = Some \<lparr>oa_AccountID = ''a1'', oa_AccountName = ''acme'', oa_AccountPub = ''ACC''\<rparr>"
  "sched_ok (aw_db (ex_tick_world [row]))" "cron_advances ex_lib" "clock_sane ex_lib (15 * minute + 1) ex_row"
  "broker_up ex_fire" "broker_down ex_down"
proof -
  have "t < (t div minute + 1) * minute" for t :: int
    using slot_number(1) [of minute t] by (cases "0 < t") (auto simp: duration_units)
  then show "cron_advances ex_lib" by (simp add: cron_advances_def ex_lib_def)
qed (simp_all add: ex_tick_world_def ex_warm_def sched_ok_def clock_sane_def ex_row_facts ex_lib_def duration_units max_i64_def
      broker_up_def broker_down_def ex_fire_def ex_down_def isInfraTransient_def)

theorem tick_fires_once_witness:
  "due_rows [] (15 * minute + 1) (aw_db (ex_tick_world [ex_row])) = [ex_row]
   \<and> due_rows [] (15 * minute + 1)
       (aw_db (snd (fireDueSchedules ex_lib None [] (\<lambda>_. ex_fire) (15 * minute + 1) (ex_tick_world [ex_row])))) = []"
proof -
  let ?W = "ex_tick_world [ex_row]" and ?now = "15 * minute + 1 :: int"
  have due: "due_rows [] ?now (aw_db ?W) = [ex_row]"
    by (rule due_single) (simp_all add: ex_tick_facts ex_row_facts)
  show ?thesis
    using tick_fires_once [of ?W ex_lib ?now None "[]" "\<lambda>_. ex_fire" "fst (fireDueSchedules ex_lib None [] (\<lambda>_. ex_fire) ?now ?W)"]
      ex_tick_facts(3) [of ex_row] ex_tick_facts(4,5)
    by (simp add: due ex_tick_facts(1))
qed

theorem schedule_backlog_drains_witness:
  "due_rows [] (15 * minute + 1) (aw_db (run_ticks ex_lib (15 * minute + 1) [\<lambda>_. ex_down] (ex_tick_world [ex_row]))) = []"
proof -
  let ?W = "ex_tick_world [ex_row]" and ?now = "15 * minute + 1 :: int"
  have due: "due_rows [] ?now (aw_db ?W) = [ex_row]"
    by (rule due_single) (simp_all add: ex_tick_facts ex_row_facts)
  show ?thesis
    using schedule_backlog_drains [of ?W ex_lib ?now "[\<lambda>_. ex_down]"] ex_tick_facts(3) [of ex_row] ex_tick_facts(4,5)
    by (simp add: due ex_tick_facts(1))
qed

theorem lease_expiry_fires_twice_witness:
  "let W = ex_tick_world [ex_once]; now = 63919101300 * second;
       D1 = snd (ClaimDueSchedules None [] now schedulerBatch (aw_db W));
       other = fireDueSchedules ex_lib None [] (\<lambda>_. ex_fire) (now + 31 * second) (W\<lparr>aw_db := D1\<rparr>)
   in (\<exists>m \<in> set (fst other). message_of m ex_once)
    \<and> (\<exists>m. fst (fire_row ex_lib ex_fire now ex_once (snd other)) = [m] \<and> message_of m ex_once)"
proof -
  let ?W = "ex_tick_world [ex_once]" and ?now = "63919101300 * second :: int"
  define D1 where "D1 = snd (ClaimDueSchedules None [] ?now schedulerBatch (aw_db ?W))"
  have "due_rows [] ?now (aw_db ?W) = [ex_once]"
    by (rule due_single) (simp_all add: ex_tick_facts ex_once_facts)
  moreover have "take schedulerBatch [ex_once] = [ex_once]" by (simp add: schedulerBatch_def)
  ultimately have claim: "ClaimDueSchedules None [] ?now schedulerBatch (aw_db ?W) = (Inr [ex_once], D1)"
    by (simp add: D1_def ClaimDueSchedules_def Let_def)
  have "length (due_rows [] t D1) \<le> length (schedules D1)" for t
    by (simp add: due_rows_def)
  moreover have "length (schedules D1) = 1"
    by (simp add: D1_def ClaimDueSchedules_def Let_def ex_tick_facts)
  ultimately have small: "length (due_rows [] t D1) \<le> schedulerBatch" for t
    by (metis (no_types) le_trans numeral_One one_le_numeral schedulerBatch_def)
  have parse: "tl_ParseRFC3339 ex_lib (sd_Spec ex_once) = Inr (63919101300 * second)"
    by (simp add: ex_once_facts ex_lib_def)
  show ?thesis
    unfolding Let_def D1_def [symmetric]
    by (rule lease_expiry_fires_twice [OF ex_tick_facts(3) claim _ _ parse _ small])
      (simp_all add: ex_once_facts ex_tick_facts scheduleClaimLease_def second_def)
qed

theorem retried_fire_escapes_grace_witness:
  "\<exists>m. fst (fireDueSchedules ex_lib None [] (\<lambda>_. ex_fire) (15 * minute + 1 + int 20 * (31 * second))
       (outage ex_lib (\<lambda>_. ex_down) (15 * minute + 1) 20 (ex_tick_world [ex_row]))) = [m] \<and> message_of m ex_row"
  by (rule retried_fire_escapes_grace [where d = "15 * minute" and oa = "\<lparr>oa_AccountID = ''a1'', oa_AccountName = ''acme'', oa_AccountPub = ''ACC''\<rparr>"])
    (simp_all add: ex_tick_facts ex_row_facts ex_lib_def duration_units MissfireGrace_def)


definition ex_sched_request :: schedulecreaterequest where
  "ex_sched_request = \<lparr>sq_Manifold = '''', sq_Handle = ''alice'', sq_Pipe = ''log'', sq_Payload = ''spoofed'',
     sq_Sender = ''alice'', sq_Kind = KindEvery, sq_At = '''', sq_Every = ''15m'', sq_Cron = '''', sq_TZ = ''''\<rparr>"

lemma ex_sched_refused: "sessionCan no_faults True ''a1'' ''u2'' ''alice.log'' Write (aw_db ex_member) = Inr False"
proof -
  let ?D = "aw_db ex_member"
  have "ACLEnforced None ''a1'' ?D = Inr True" "\<exists>u. GetUser None ''u2'' ?D = Inr u"
      "RoleInOrg None None ''u2'' ''a1'' ?D = Inr OrgMember" "ListSourcesForOrg None ''a1'' ?D = Inr (sources ?D)"
      "ListACLGrantsForPrincipal None ''a1'' ''u2'' ?D = Inr []"
    by (simp_all add: ex_member_def ex_pipes_def ACLEnforced_def GetUser_def RoleInOrg_def uuid_nil_def OrgAdmin_def OrgOwner_def
        ListSourcesForOrg_def ListACLGrantsForPrincipal_def)
  moreover have "\<not> Has (Evaluate (principal_of ''u2'' u OrgMember) (subjectFor ''alice.log'' (handle_map (sources ?D))) []) Write" for u
    by (subst Evaluate_Has_rule)
      (simp_all add: all_perms_def principal_of_def OrgMember_def OrgAdmin_def OrgOwner_def CanAdministerOrg_def AtLeast_def
        role_rank_def is_handle_owner_def subjectFor_def splitPath_def handle_map_def ex_member_def ex_pipes_def perm_defs
        defaultsFor_def)
  ultimately show ?thesis by (auto simp: sessionCan_def pipeDecision_def)
qed

theorem schedule_bypasses_acl_witness:
  "\<exists>reply D'. handleCreateSchedule ex_lib (\<lambda>env. Inr (en_Payload env)) ''p1'' no_faults (\<lambda>_. ex_sched_id) 5 (ex_key ''u2'')
      (Some ex_sched_request) (aw_db ex_member) = (Inr reply, D')
    \<and> (\<exists>m. fst (fireDueSchedules ex_lib None [] (\<lambda>_. ex_fire) (5 + 15 * minute) (ex_member\<lparr>aw_db := D'\<rparr>)) = [m]
         \<and> fst m = BuildSubject ''a1'' '''' ''alice'' ''log'' \<and> en_Payload (snd m) = ''spoofed'')"
proof -
  have key: "Actor (ex_key ''u2'') = ''u2''" "ak_AccountID (ex_key ''u2'') = ''a1''"
    by (simp_all add: Actor_def ex_key_def uuid_nil_def)
  have "ValidateHandle ''alice'' = None" "ValidatePipe ''log'' = None"
    by (simp_all add: ValidateHandle_def ValidatePipe_def Reserved_def name_char_def name_char_hyphen_def)
  then have "ordinary_request ex_lib (\<lambda>env. Inr (en_Payload env)) ex_sched_request (15 * minute)"
    by (simp add: ordinary_request_def ex_sched_request_def validateManifold_def ex_lib_def MinEvery_def duration_units MaxBytes_def)
  moreover have "FormatPipePath '''' ''alice'' ''log'' = ''alice.log''" by (simp add: FormatPipePath_def)
  moreover have "schedules (aw_db ex_member) = []" "has_account (aw_db ex_member) ''a1''" "has_user (aw_db ex_member) ''u2''"
    "aw_pool ex_member ''a1'' = Some \<lparr>oa_AccountID = ''a1'', oa_AccountName = ''acme'', oa_AccountPub = ''ACC''\<rparr>"
    by (simp_all add: ex_member_def ex_warm_def ex_pipes_def has_account_def has_user_def)
  moreover have "sq_Manifold ex_sched_request = ''''" "sq_Handle ex_sched_request = ''alice''"
    "sq_Pipe ex_sched_request = ''log''" "sq_Payload ex_sched_request = ''spoofed''"
    by (simp_all add: ex_sched_request_def)
  ultimately show ?thesis
    using schedule_bypasses_acl [where key = "ex_key ''u2''" and req = ex_sched_request and D = "aw_db ex_member"
        and L = ex_lib and Marshal = "\<lambda>env. Inr (en_Payload env)" and d = "15 * minute" and now = 5
        and pid = "''p1''" and fresh = "\<lambda>_. ex_sched_id"] ex_sched_refused ex_tick_facts(6)
    by (fastforce simp: key)
qed

end
