(* ===== verification/TermBytes.thy ===== *)
theory TermBytes
  imports Prelude
begin

text \<open>
  The byte paths of \<open>ppz terminal share\<close> (\<open>internal/cli/terminal.go\<close>, \<open>terminal_filter.go\<close>,
  \<open>terminal_utf8.go\<close>).

  \<^item> Keyboard to child: every read of the local terminal is filtered for the replies a terminal
    emits by itself, and a sequence that a read cuts in two is carried over to the next read.
  \<^item> Child to subscribers: every read of the pseudo terminal is shown verbatim and published in
    pieces that end at a character boundary, through a bounded channel and a batching worker.

  A Go byte slice is a list of 8-bit words. The number of bytes a read returns is up to the
  operating system, so the theorems quantify over every way of cutting the stream.
\<close>

unbundle bit_operations_syntax

type_synonym byte = "8 word"
type_synonym bytes = "byte list"

section \<open>terminal\_filter.go\<close>

definition isControlResponse :: "bytes \<Rightarrow> bool" where
  "isControlResponse seq =
     (if length seq < 3 \<or> seq ! 0 \<noteq> 0x1b \<or> seq ! 1 \<noteq> 0x5b then False
      else
        let final = last seq;
            middle = butlast (drop 2 seq)
        in if final = 0x63 then 0 < length middle \<and> (middle ! 0 = 0x3f \<or> middle ! 0 = 0x3e)
           else if final = 0x52 then True
           else if final = 0x49 \<or> final = 0x4f then length middle = 0
           else False)"

text \<open>
  The inner loop from \<open>end := i + 2\<close>: the bytes up to and including the first final byte, and what
  follows it; \<open>None\<close> when the input ends first.
\<close>

fun csi_end :: "bytes \<Rightarrow> (bytes \<times> bytes) option" where
  "csi_end [] = None"
| "csi_end (c # cs) =
     (if 0x40 \<le> c \<and> c \<le> 0x7e then Some ([c], cs)
      else case csi_end cs of None \<Rightarrow> None | Some (s, rest) \<Rightarrow> Some (c # s, rest))"

lemma csi_end_split: "csi_end xs = Some (s, rest) \<Longrightarrow> xs = s @ rest"
  by (induction xs arbitrary: s) (auto split: if_splits option.splits)

lemma csi_end_length: "csi_end xs = Some (s, rest) \<Longrightarrow> length rest < length xs"
  by (induction xs arbitrary: s) (auto split: if_splits option.splits)

text \<open>The outer loop: \<open>out\<close> so far and the input from position \<open>i\<close> on.\<close>

function filter_loop :: "bytes \<Rightarrow> bytes \<Rightarrow> bytes \<times> bytes" where
  "filter_loop out [] = (out, [])"
| "filter_loop out (b # rest) =
     (if b \<noteq> 0x1b then filter_loop (out @ [b]) rest
      else case rest of
        [] \<Rightarrow> (out, b # rest)
      | n # rest' \<Rightarrow>
          if n \<noteq> 0x5b then filter_loop (out @ [b, n]) rest'
          else case csi_end rest' of
            None \<Rightarrow> (out, b # rest)
          | Some (s, after) \<Rightarrow>
              filter_loop (if \<not> isControlResponse (b # n # s) then out @ b # n # s else out) after)"
  by pat_completeness auto
termination
  by (relation "measure (\<lambda>(out, input). length input)") (auto dest: csi_end_length)

definition filterControlResponses :: "bytes \<Rightarrow> bytes \<times> bytes" where
  "filterControlResponses input = filter_loop [] input"

text \<open>
  The stdin bridge of \<open>terminal.go\<close>: the reads up to the first error, the sequence carried over,
  and the byte strings handed to \<open>ForwardUserInput\<close>, in order.
\<close>

fun stdin_bridge :: "bytes \<Rightarrow> (bytes \<times> bool) list \<Rightarrow> bytes list" where
  "stdin_bridge pending [] = []"
| "stdin_bridge pending ((chunk, err) # reads) =
     (let (filtered, pending) =
            (if 0 < length chunk
             then filterControlResponses (if 0 < length pending then pending @ chunk else chunk)
             else ([], pending));
          forwarded = (if 0 < length filtered then [filtered] else [])
      in if err then forwarded @ (if 0 < length pending then [pending] else [])
         else forwarded @ stdin_bridge pending reads)"

subsection \<open>The filter works on the stream, not on the reads\<close>

text \<open>The stream is read token by token; this is its induction rule.\<close>

lemma token_induct [case_names Nil Plain Esc Pair Cut Csi]:
  assumes "P []"
    and "\<And>b r. b \<noteq> 0x1b \<Longrightarrow> P r \<Longrightarrow> P (b # r)"
    and "P [0x1b]"
    and "\<And>n r. n \<noteq> 0x5b \<Longrightarrow> P r \<Longrightarrow> P (0x1b # n # r)"
    and "\<And>r. csi_end r = None \<Longrightarrow> P (0x1b # 0x5b # r)"
    and "\<And>r s a. csi_end r = Some (s, a) \<Longrightarrow> P a \<Longrightarrow> P (0x1b # 0x5b # r)"
  shows "P xs"
proof (induction xs rule: length_induct)
  case (1 xs)
  show ?case
  proof (cases xs)
    case (Cons b r)
    show ?thesis
    proof (cases "b = 0x1b")
      case True
      with Cons 1 assms show ?thesis
        by (cases r; cases "csi_end (tl r)"; cases "hd r = 0x5b")
          (auto intro!: assms(6) dest: csi_end_length)
    qed (use Cons 1 assms in auto)
  qed (use assms in simp)
qed

lemma filter_loop_tokens [simp]:
  "b \<noteq> 0x1b \<Longrightarrow> filter_loop out (b # r) = filter_loop (out @ [b]) r"
  "filter_loop out [0x1b] = (out, [0x1b])"
  "n \<noteq> 0x5b \<Longrightarrow> filter_loop out (0x1b # n # r) = filter_loop (out @ [0x1b, n]) r"
  "csi_end r = None \<Longrightarrow> filter_loop out (0x1b # 0x5b # r) = (out, 0x1b # 0x5b # r)"
  "csi_end r = Some (s, a) \<Longrightarrow> filter_loop out (0x1b # 0x5b # r) =
     filter_loop (if isControlResponse (0x1b # 0x5b # s) then out else out @ 0x1b # 0x5b # s) a"
  by simp_all

declare filter_loop.simps(2) [simp del]

lemma csi_end_append: "csi_end xs = Some (s, rest) \<Longrightarrow> csi_end (xs @ ys) = Some (s, rest @ ys)"
  by (induction xs arbitrary: s) (auto split: if_splits option.splits)

lemma csi_end_self: "csi_end xs = Some (s, rest) \<Longrightarrow> csi_end s = Some (s, [])"
  by (induction xs arbitrary: s) (auto split: if_splits option.splits)

lemma filter_loop_append:
  "filter_loop out (xs @ ys) = (case filter_loop out xs of (out', p) \<Rightarrow> filter_loop out' (p @ ys))"
  by (induction xs arbitrary: out rule: token_induct) (simp_all add: csi_end_append)

lemma filter_loop_out:
  "filter_loop out xs = (out @ fst (filter_loop [] xs), snd (filter_loop [] xs))"
proof (induction xs arbitrary: out rule: token_induct)
  case (Plain b r)
  show ?case using Plain(1) Plain(2) [of "out @ [b]"] Plain(2) [of "[b]"] by simp
next
  case (Pair n r)
  show ?case using Pair(1) Pair(2) [of "out @ [0x1b, n]"] Pair(2) [of "[0x1b, n]"] by simp
next
  case (Csi r s a)
  show ?case
    using Csi(1) Csi(2) [of out] Csi(2) [of "out @ 0x1b # 0x5b # s"] Csi(2) [of "0x1b # 0x5b # s"]
    by simp
qed simp_all

lemma filter_again: "filter_loop out (fst (filter_loop [] xs)) = (out @ fst (filter_loop [] xs), [])"
proof (induction xs arbitrary: out rule: token_induct)
  case (Plain b r)
  then show ?case by (simp add: filter_loop_out [of "[b]"])
next
  case (Pair n r)
  then show ?case by (simp add: filter_loop_out [of "[0x1b, n]"])
next
  case (Csi r s a)
  then show ?case
    by (simp add: filter_loop_out [of "0x1b # 0x5b # s"] csi_end_append [OF csi_end_self [OF Csi(1)]])
qed simp_all

lemma pending_again: "filter_loop out (snd (filter_loop [] xs)) = (out, snd (filter_loop [] xs))"
  by (induction xs rule: token_induct) (simp_all add: filter_loop_out [of "_ # _"])

lemma stdin_bridge_stream:
  assumes "filter_loop [] pending = ([], pending)"
  shows "concat (stdin_bridge pending (map (\<lambda>c. (c, False)) cs @ [(c, True)])) =
         (case filter_loop [] (pending @ concat cs @ c) of (out, p) \<Rightarrow> out @ p)"
  using assms
proof (induction cs arbitrary: pending)
  case Nil
  then show ?case by (auto simp: filterControlResponses_def Let_def split: prod.splits)
next
  case (Cons d cs)
  define out p where "out = fst (filter_loop [] (pending @ d))"
    and "p = snd (filter_loop [] (pending @ d))"
  then have step: "filter_loop [] (pending @ d) = (out, p)" by simp
  have rest: "filter_loop [] (pending @ d @ concat cs @ c) =
    (out @ fst (filter_loop [] (p @ concat cs @ c)), snd (filter_loop [] (p @ concat cs @ c)))"
    using filter_loop_append [of "[]" "pending @ d" "concat cs @ c"] step filter_loop_out [of out]
    by simp
  have ih: "concat (stdin_bridge p (map (\<lambda>c. (c, False)) cs @ [(c, True)])) =
      fst (filter_loop [] (p @ concat cs @ c)) @ snd (filter_loop [] (p @ concat cs @ c))"
    using Cons.IH [of p] pending_again [of "[]" "pending @ d"] by (simp add: p_def split_beta)
  show ?case
  proof (cases "d = []")
    case True
    with Cons.prems step have "out = []" "p = pending" by auto
    with ih rest True show ?thesis by (simp add: Let_def split_beta)
  next
    case False
    with ih rest step show ?thesis
      by (cases "pending = []") (simp_all add: filterControlResponses_def Let_def)
  qed
qed

text \<open>The control-response filter does not depend on how the terminal's input is cut into reads.
  For every sequence of reads up to the one that reports the error, the bytes forwarded to the
  child are what one pass over the whole stream lets through, followed by the unfinished sequence
  the stream ends with; and filtering what was let through changes nothing, so removing a reply
  never splices its neighbours into a new one.\<close>
theorem stdin_filter_chunk_independent:
  "concat (stdin_bridge [] (map (\<lambda>c. (c, False)) cs @ [(c, True)])) =
     (case filterControlResponses (concat cs @ c) of (out, pending) \<Rightarrow> out @ pending)
   \<and> filterControlResponses (fst (filterControlResponses input)) =
       (fst (filterControlResponses input), [])"
  using stdin_bridge_stream [of "[]" cs c] filter_again [of "[]" input]
  by (simp add: filterControlResponses_def)

section \<open>terminal\_utf8.go\<close>

text \<open>
  The loop from \<open>start\<close> down to \<open>minScan\<close>: \<open>n\<close> positions are left, the next one is \<open>i\<close>. Slices of
  the input are copied, so there is no aliasing with the read buffer.
\<close>

definition expected_len :: "byte \<Rightarrow> nat" where
  "expected_len c = (if c < 0xe0 then 2 else if c < 0xf0 then 3 else 4)"

primrec utf8_scan :: "bytes \<Rightarrow> nat \<Rightarrow> nat \<Rightarrow> bytes \<times> bytes" where
  "utf8_scan b 0 i = (b, [])"
| "utf8_scan b (Suc n) i =
     (let c = b ! i in
      if c < 0x80 then (b, [])
      else if 0xc0 \<le> c then
        (if length b - i < expected_len c then (take i b, drop i b) else (b, []))
      else utf8_scan b n (i - 1))"

definition splitOnUTF8Boundary :: "bytes \<Rightarrow> bytes \<times> bytes" where
  "splitOnUTF8Boundary b =
     (if length b = 0 then ([], [])
      else let start = length b - 1; minScan = length b - 4
           in utf8_scan b (start + 1 - minScan) start)"

text \<open>
  One round of the reader in \<open>publishAndDisplayStdout\<close>: what it sends to the publisher and the
  bytes it carries over.
\<close>

definition publish_read :: "bytes \<Rightarrow> bytes \<times> bool \<Rightarrow> bytes list \<times> bytes" where
  "publish_read pending rd =
     (let (chunk, err) = rd;
          (msgs, pending) =
            (if 0 < length chunk then
               let (complete, partial) =
                     splitOnUTF8Boundary (if 0 < length pending then pending @ chunk else chunk)
               in (if 0 < length complete then [complete] else [], partial)
             else ([], pending))
      in if err \<and> 0 < length pending then (msgs @ [pending], []) else (msgs, pending))"

subsection \<open>Well-formed UTF-8\<close>

text \<open>The encodings \<open>unicode/utf8\<close> accepts, which are the ones JSON marshalling leaves alone.\<close>

definition cont_byte :: "byte \<Rightarrow> bool" where
  "cont_byte c \<longleftrightarrow> 0x80 \<le> c \<and> c < 0xc0"

fun is_rune :: "bytes \<Rightarrow> bool" where
  "is_rune [a] = (a < 0x80)"
| "is_rune [a, b] = (0xc2 \<le> a \<and> a \<le> 0xdf \<and> cont_byte b)"
| "is_rune [a, b, c] = (0xe0 \<le> a \<and> a \<le> 0xef \<and> cont_byte b \<and> cont_byte c
     \<and> (a = 0xe0 \<longrightarrow> 0xa0 \<le> b) \<and> (a = 0xed \<longrightarrow> b \<le> 0x9f))"
| "is_rune [a, b, c, d] = (0xf0 \<le> a \<and> a \<le> 0xf4 \<and> cont_byte b \<and> cont_byte c \<and> cont_byte d
     \<and> (a = 0xf0 \<longrightarrow> 0x90 \<le> b) \<and> (a = 0xf4 \<longrightarrow> b \<le> 0x8f))"
| "is_rune _ = False"

inductive utf8 :: "bytes \<Rightarrow> bool" where
  utf8_Nil [intro]: "utf8 []"
| utf8_rune: "is_rune r \<Longrightarrow> utf8 s \<Longrightarrow> utf8 (r @ s)"

lemma utf8_append: "utf8 s \<Longrightarrow> utf8 t \<Longrightarrow> utf8 (s @ t)"
  by (induction rule: utf8.induct) (auto intro: utf8_rune)

lemma utf8_snoc: "utf8 s \<Longrightarrow> is_rune r \<Longrightarrow> utf8 (s @ r)"
  using utf8_append utf8_rune [of r "[]"] by auto

text \<open>The shape of a rune: a lead byte that announces its length, then continuation bytes.\<close>

lemma rune_shape:
  assumes "is_rune r"
  obtains c t where "r = c # t" "\<forall>x \<in> set t. cont_byte x" "\<not> cont_byte c" "length t \<le> 3"
    "c < 0x80 \<longleftrightarrow> t = []" "t \<noteq> [] \<longrightarrow> 0xc0 \<le> c \<and> expected_len c = length r"
proof -

  consider a where "r = [a]" "a < 0x80"
    | a b where "r = [a, b]" "0xc2 \<le> a" "a \<le> 0xdf" "cont_byte b"
    | a b c where "r = [a, b, c]" "0xe0 \<le> a" "a \<le> 0xef" "cont_byte b" "cont_byte c"
    | a b c d where "r = [a, b, c, d]" "0xf0 \<le> a" "a \<le> 0xf4" "cont_byte b" "cont_byte c" "cont_byte d"
    using assms by (cases r rule: is_rune.cases) auto
  then show thesis
    by cases (rule that, assumption, auto simp: cont_byte_def expected_len_def word_less_nat_alt word_le_nat_alt)+
qed


subsection \<open>Every published piece is well formed\<close>

lemma utf8_scan_lead:
  assumes "\<forall>x \<in> set t. cont_byte x" "\<not> cont_byte c" "length t < n" "b = p @ c # t @ u"
  shows "utf8_scan b n (length p + length t) =
    (if c < 0x80 then (b, [])
     else if length (c # t @ u) < expected_len c then (p, c # t @ u) else (b, []))"
  using assms
proof (induction t arbitrary: n u rule: rev_induct)
  case Nil
  then obtain m where "n = Suc m" by (cases n) auto
  with Nil show ?case by (auto simp: cont_byte_def)
next
  case (snoc x t)
  then obtain m where m: "n = Suc m" by (cases n) auto
  have "b ! (length p + length (t @ [x])) = x"
    using snoc.prems(4) by (simp add: nth_append)
  moreover have "\<not> x < 0x80" "\<not> 0xc0 \<le> x"
    using snoc.prems(1) by (auto simp: cont_byte_def)
  ultimately have "utf8_scan b n (length p + length (t @ [x])) = utf8_scan b m (length p + length t)"
    by (simp add: m)
  also have "\<dots> = (if c < 0x80 then (b, [])
     else if length (c # t @ (x # u)) < expected_len c then (p, c # t @ (x # u)) else (b, []))"
    by (rule snoc.IH) (use snoc.prems m in auto)
  finally show ?case by simp
qed

lemma split_lead:
  assumes "\<forall>x \<in> set t. cont_byte x" "\<not> cont_byte c" "length t \<le> 3"
  shows "splitOnUTF8Boundary (p @ c # t) =
    (if c < 0x80 then (p @ c # t, [])
     else if length (c # t) < expected_len c then (p, c # t) else (p @ c # t, []))"
  using utf8_scan_lead [of t c "length p + length t + 1 - (length p + length t + 1 - 4)"
      "p @ c # t" p "[]"] assms
  by (auto simp: splitOnUTF8Boundary_def Let_def)

text \<open>A proper beginning of a rune.\<close>

definition rune_begun :: "bytes \<Rightarrow> bool" where
  "rune_begun q \<longleftrightarrow> (\<exists>u. u \<noteq> [] \<and> is_rune (q @ u))"

lemma rune_begun_shape:
  assumes "rune_begun q" "q \<noteq> []"
  obtains c t where "q = c # t" "\<forall>x \<in> set t. cont_byte x" "\<not> cont_byte c" "length q \<le> 3"
    "\<not> c < 0x80" "length q < expected_len c"
proof -
  from assms(2) obtain c t where q: "q = c # t" by (cases q) auto
  with assms(1) obtain u where u: "u \<noteq> []" "is_rune (c # t @ u)"
    by (auto simp: rune_begun_def)
  from u(2) obtain c' t' where r: "c # t @ u = c' # t'" "\<forall>x \<in> set t'. cont_byte x"
    "\<not> cont_byte c'" "length t' \<le> 3" "c' < 0x80 \<longleftrightarrow> t' = []"
    "t' \<noteq> [] \<longrightarrow> 0xc0 \<le> c' \<and> expected_len c' = length (c # t @ u)"
    by (rule rune_shape)
  then have "c' = c" "t' = t @ u" by simp_all
  moreover have "1 \<le> length u" using u(1) by (cases u) auto
  ultimately show thesis using r q u(1) by (intro that [of c t]) auto
qed

lemma rune_begun_length: "rune_begun q \<Longrightarrow> length q \<le> 3"
  by (cases "q = []") (auto elim: rune_begun_shape)

lemma utf8_last:
  "utf8 s \<Longrightarrow> s = [] \<or> (\<exists>s' r. s = s' @ r \<and> utf8 s' \<and> is_rune r)"
proof (induction rule: utf8.induct)
  case (utf8_rune r s)
  show ?case
  proof (cases "s = []")
    case True
    with utf8_rune(1) have "r @ s = [] @ r \<and> utf8 [] \<and> is_rune r" by auto
    then show ?thesis by blast
  next
    case False
    with utf8_rune.IH obtain s' r' where "s = s' @ r'" "utf8 s'" "is_rune r'" by blast
    with utf8_rune(1) have "r @ s = (r @ s') @ r' \<and> utf8 (r @ s') \<and> is_rune r'"
      by (simp add: utf8.utf8_rune)
    then show ?thesis by blast
  qed
qed simp

lemma split_utf8_whole:
  assumes "utf8 s"
  shows "splitOnUTF8Boundary s = (s, [])"
proof (cases "s = []")
  case False
  with utf8_last [OF assms] obtain s' r where s: "s = s' @ r" and "is_rune r" by auto
  from \<open>is_rune r\<close> obtain c t where r: "r = c # t" "\<forall>x \<in> set t. cont_byte x" "\<not> cont_byte c"
    "length t \<le> 3" "c < 0x80 \<longleftrightarrow> t = []" "t \<noteq> [] \<longrightarrow> 0xc0 \<le> c \<and> expected_len c = length r"
    by (rule rune_shape)
  show ?thesis
    using split_lead [OF r(2,3,4), of s'] r(1,5,6) by (cases "t = []") (simp_all add: s)
qed (simp add: splitOnUTF8Boundary_def)

lemma split_utf8:
  assumes "utf8 s" "rune_begun q"
  shows "splitOnUTF8Boundary (s @ q) = (s, q)"
proof (cases "q = []")
  case True
  with assms(1) show ?thesis by (simp add: split_utf8_whole)
next
  case False
  with assms(2) obtain c t where q: "q = c # t" "\<forall>x \<in> set t. cont_byte x" "\<not> cont_byte c"
    "length q \<le> 3" "\<not> c < 0x80" "length q < expected_len c"
    by (rule rune_begun_shape)
  show ?thesis
    using split_lead [OF q(2,3), of s] q(1,4,5,6) by simp
qed

text \<open>Every beginning of a well-formed stream is well formed up to a begun rune.\<close>

lemma utf8_prefix:
  "utf8 (s @ u) \<Longrightarrow> \<exists>s' q. s = s' @ q \<and> utf8 s' \<and> rune_begun q"
proof (induction "s @ u" arbitrary: s rule: utf8.induct)
  case utf8_Nil
  moreover have "rune_begun []" by (auto simp: rune_begun_def intro!: exI [of _ "[0]"])
  ultimately show ?case by auto
next
  case (utf8_rune r w)
  from \<open>r @ w = s @ u\<close> consider v where "s = r @ v" "w = v @ u" | v where "r = s @ v" "v \<noteq> []"
    by (auto simp: append_eq_append_conv2) blast
  then show ?case
  proof cases
    case 1
    with utf8_rune obtain s' q where "v = s' @ q" "utf8 s'" "rune_begun q" by blast
    with 1 utf8_rune(1) show ?thesis by (metis append_assoc utf8.utf8_rune)
  next
    case 2
    with utf8_rune(1) show ?thesis by (auto simp: rune_begun_def intro: exI [of _ "[]"])
  qed
qed


section \<open>publishAndDisplayStdout\<close>

text \<open>
  The reader and the publishing worker run concurrently and share the channel \<open>publishCh\<close>. A state
  holds what the pseudo terminal will still return, what was displayed, the reader's carry-over,
  the messages of the current round that are not in the channel yet, whether the reader saw the
  error, whether it closed the channel, the channel, the worker's current batch, the batches
  handed to \<open>sendStreamBatch\<close> and whether the worker returned.
\<close>

definition maxChan :: nat where "maxChan = 512"
definition maxBatch :: nat where "maxBatch = 128"

record pump =
  pm_reads :: "(bytes \<times> bool) list"
  pm_display :: bytes
  pm_pending :: bytes
  pm_outbox :: "bytes list"
  pm_eof :: bool
  pm_closed :: bool
  pm_chan :: "bytes list"
  pm_batch :: "bytes list"
  pm_sent :: "bytes list list"
  pm_done :: bool

definition pump_init :: "(bytes \<times> bool) list \<Rightarrow> pump" where
  "pump_init reads = \<lparr>pm_reads = reads, pm_display = [], pm_pending = [], pm_outbox = [], pm_eof = False,
     pm_closed = False, pm_chan = [], pm_batch = [], pm_sent = [], pm_done = False\<rparr>"

text \<open>
  The steps: one round of the reader, which may block on a full channel; closing the channel on
  return; the worker's blocking receive, its sweep of what is already buffered, the send of a
  batch that is full or found the channel empty, and its return when the channel is closed and
  drained. A send that found the channel closed is also the worker's last.
\<close>

inductive pump_step :: "pump \<Rightarrow> pump \<Rightarrow> bool" where
  Read: "pm_outbox s = [] \<Longrightarrow> \<not> pm_eof s \<Longrightarrow> pm_reads s = rd # reads \<Longrightarrow>
    publish_read (pm_pending s) rd = (msgs, pending) \<Longrightarrow>
    pump_step s (s\<lparr>pm_reads := reads, pm_display := pm_display s @ fst rd, pm_pending := pending,
      pm_outbox := msgs, pm_eof := snd rd\<rparr>)"
| Push: "pm_outbox s = p # ps \<Longrightarrow> length (pm_chan s) < maxChan \<Longrightarrow>
    pump_step s (s\<lparr>pm_outbox := ps, pm_chan := pm_chan s @ [p]\<rparr>)"
| Close: "pm_eof s \<Longrightarrow> pm_outbox s = [] \<Longrightarrow> \<not> pm_closed s \<Longrightarrow> pump_step s (s\<lparr>pm_closed := True\<rparr>)"
| First: "\<not> pm_done s \<Longrightarrow> pm_batch s = [] \<Longrightarrow> pm_chan s = p # ps \<Longrightarrow>
    pump_step s (s\<lparr>pm_chan := ps, pm_batch := [p]\<rparr>)"
| Sweep: "\<not> pm_done s \<Longrightarrow> pm_batch s \<noteq> [] \<Longrightarrow> length (pm_batch s) < maxBatch \<Longrightarrow> pm_chan s = p # ps \<Longrightarrow>
    pump_step s (s\<lparr>pm_chan := ps, pm_batch := pm_batch s @ [p]\<rparr>)"
| Send: "\<not> pm_done s \<Longrightarrow> pm_batch s \<noteq> [] \<Longrightarrow> maxBatch \<le> length (pm_batch s) \<or> pm_chan s = [] \<Longrightarrow>
    pump_step s (s\<lparr>pm_sent := pm_sent s @ [pm_batch s], pm_batch := [],
      pm_done := pm_closed s \<and> pm_chan s = [] \<and> length (pm_batch s) < maxBatch\<rparr>)"
| Return: "\<not> pm_done s \<Longrightarrow> pm_batch s = [] \<Longrightarrow> pm_chan s = [] \<Longrightarrow> pm_closed s \<Longrightarrow>
    pump_step s (s\<lparr>pm_done := True\<rparr>)"

subsection \<open>What is published is what was displayed\<close>

lemma utf8_scan_split: "utf8_scan b n i = (complete, partial) \<Longrightarrow> complete @ partial = b"
  by (induction n arbitrary: i) (auto simp: Let_def split: if_splits)

lemma split_concat: "splitOnUTF8Boundary b = (complete, partial) \<Longrightarrow> complete @ partial = b"
  by (auto simp: splitOnUTF8Boundary_def Let_def dest: utf8_scan_split split: if_splits)

lemma publish_read_facts:
  assumes "publish_read pending (chunk, err) = (msgs, p)"
  shows "concat msgs @ p = pending @ chunk" "err \<Longrightarrow> p = []" "length msgs \<le> 2" "[] \<notin> set msgs"
  using assms
  by (auto simp: publish_read_def Let_def dest: split_concat split: if_splits prod.splits)

definition reads_left :: "(bytes \<times> bool) list \<Rightarrow> bool" where
  "reads_left rs \<longleftrightarrow> rs \<noteq> [] \<and> snd (last rs) \<and> (\<forall>rd \<in> set (butlast rs). \<not> snd rd)"

text \<open>What every reachable state satisfies, for a terminal whose whole output is \<open>whole\<close>.\<close>

definition pump_ok :: "bytes \<Rightarrow> pump \<Rightarrow> bool" where
  "pump_ok whole s \<longleftrightarrow>
     pm_display s @ concat (map fst (pm_reads s)) = whole
     \<and> concat (concat (pm_sent s)) @ concat (pm_batch s) @ concat (pm_chan s) @ concat (pm_outbox s)
         @ pm_pending s = pm_display s
     \<and> (if pm_eof s then pm_reads s = [] \<and> pm_pending s = [] else reads_left (pm_reads s))
     \<and> (pm_closed s \<longrightarrow> pm_eof s \<and> pm_outbox s = [])
     \<and> (pm_done s \<longrightarrow> pm_closed s \<and> pm_chan s = [] \<and> pm_batch s = [])
     \<and> length (pm_chan s) \<le> maxChan \<and> length (pm_batch s) \<le> maxBatch
     \<and> (\<forall>b \<in> set (pm_sent s). b \<noteq> [] \<and> length b \<le> maxBatch)"

lemma reads_left_Cons:
  "reads_left ((c, e) # rs) \<longleftrightarrow> (if e then rs = [] else reads_left rs)"
  by (cases rs) (auto simp: reads_left_def)

lemma pump_ok_init: "reads_left reads \<Longrightarrow> pump_ok (concat (map fst reads)) (pump_init reads)"
  by (simp add: pump_ok_def pump_init_def)

lemma pump_ok_step: "pump_step s t \<Longrightarrow> pump_ok whole s \<Longrightarrow> pump_ok whole t"
proof (induction rule: pump_step.induct)
  case (Read s rd reads msgs pending)
  obtain chunk err where rd: "rd = (chunk, err)" by (cases rd)
  note facts = publish_read_facts [OF Read(4) [unfolded rd]]
  from Read have left: "reads_left ((chunk, err) # reads)" by (simp add: pump_ok_def rd)
  from Read have "pm_display s = (concat (concat (pm_sent s)) @ concat (pm_batch s) @ concat (pm_chan s))
      @ pm_pending s"
    by (simp add: pump_ok_def)
  then have "concat (concat (pm_sent s)) @ concat (pm_batch s) @ concat (pm_chan s) @ concat msgs @ pending
      = pm_display s @ chunk"
    by (simp add: facts(1))
  with Read left facts(2) show ?case
    by (cases err; simp add: pump_ok_def rd reads_left_Cons; blast)
next
  case (Push s p ps)
  then show ?case by (simp add: pump_ok_def) metis
next
  case (Sweep s p ps)
  then show ?case by (simp add: pump_ok_def)
next
  case (Send s)
  then show ?case by (simp add: pump_ok_def)
next
  case (First s p ps)
  then show ?case by (simp add: pump_ok_def maxBatch_def)
qed (clarsimp simp: pump_ok_def)+

text \<open>No state is stuck before the worker has returned, and every step uses up some of the work.\<close>

definition pump_work :: "pump \<Rightarrow> nat" where
  "pump_work s = 8 * length (pm_reads s) + 3 * length (pm_outbox s) + 2 * length (pm_chan s)
     + length (pm_batch s) + (if pm_closed s then 0 else 1) + (if pm_done s then 0 else 1)"

lemma pump_step_work: "pump_step s t \<Longrightarrow> pump_work t < pump_work s"
proof (induction rule: pump_step.induct)
  case (Read s rd reads msgs pending)
  obtain chunk err where "rd = (chunk, err)" by (cases rd)
  with publish_read_facts(3) [of "pm_pending s" chunk err msgs pending] Read show ?case
    by (simp add: pump_work_def)
qed (auto simp: pump_work_def neq_Nil_conv)

lemma pump_progress:
  assumes "pump_ok whole s" "\<not> pm_done s"
  shows "\<exists>t. pump_step s t"
proof (cases "pm_batch s = []")
  case batch: True
  show ?thesis
  proof (cases "pm_chan s")
    case Nil
    show ?thesis
    proof (cases "pm_outbox s")
      case outbox: Nil
      show ?thesis
      proof (cases "pm_eof s")
        case True
        with Nil outbox batch assms(2) show ?thesis
          by (cases "pm_closed s") (auto intro: Close Return)
      next
        case False
        with assms(1) obtain rd reads where "pm_reads s = rd # reads"
          by (auto simp: pump_ok_def reads_left_def neq_Nil_conv)
        with outbox False show ?thesis
          by (metis Read prod.collapse)
      qed
    next
      case (Cons p ps)
      from Nil have "length (pm_chan s) < maxChan" by (simp add: maxChan_def)
      from Push [OF Cons this] show ?thesis by blast
    qed
  qed (use assms(2) batch in \<open>auto intro: First\<close>)
next
  case False
  with assms(2) show ?thesis
    by (cases "pm_chan s"; cases "length (pm_batch s) < maxBatch")
      (auto simp: not_less intro: exI [of "pump_step s", OF Sweep] exI [of "pump_step s", OF Send])
qed

lemma pump_reachable_ok:
  assumes "pump_step\<^sup>*\<^sup>* (pump_init reads) s" "reads_left reads"
  shows "pump_ok (concat (map fst reads)) s"
  using assms by (induction rule: rtranclp_induct) (auto intro: pump_ok_init pump_ok_step)

lemma pump_run_length: "(pump_step ^^ n) s t \<Longrightarrow> n + pump_work t \<le> pump_work s"
proof (induction n arbitrary: t)
  case (Suc n)
  then obtain u where "(pump_step ^^ n) s u" "pump_step u t" by auto
  with Suc.IH [of u] pump_step_work [of u t] show ?case by simp
qed simp

lemma reads_left_snoc: "reads_left (map (\<lambda>c. (c, False)) cs @ [(c, True)])"
  by (simp add: reads_left_def butlast_append)

text \<open>C10: Liveness of the output path of a shared terminal, under every interleaving of the reader and
  the publishing worker. A run over \<open>n\<close> reads that end with the error takes at most \<open>8 * n + 2\<close>
  steps; a state that can make no further step is one where the worker has returned, and there the
  payloads of the batches sent are, in order, exactly the bytes that were displayed, which are all
  the bytes the terminal produced. No batch is empty or has more than 128 messages, and the channel
  never holds more than 512.\<close>
theorem stdout_pump_delivers:
  fixes cs :: "bytes list" and c :: bytes
  defines "reads \<equiv> map (\<lambda>c. (c, False)) cs @ [(c, True)]"
  assumes "(pump_step ^^ n) (pump_init reads) s"
  shows "n \<le> 8 * length reads + 2
    \<and> length (pm_chan s) \<le> 512 \<and> (\<forall>b \<in> set (pm_sent s). b \<noteq> [] \<and> length b \<le> 128)
    \<and> ((\<nexists>t. pump_step s t) \<longrightarrow>
        pm_done s \<and> concat (concat (pm_sent s)) = concat cs @ c \<and> pm_display s = concat cs @ c)"
proof -
  have left: "reads_left reads" by (simp add: reads_def reads_left_snoc)
  have reach: "pump_step\<^sup>*\<^sup>* (pump_init reads) s" using assms(2) by (metis rtranclp_power)
  from pump_reachable_ok [OF reach left] have ok: "pump_ok (concat cs @ c) s"
    by (simp add: reads_def comp_def)
  have "pm_done s" if "\<nexists>t. pump_step s t" using pump_progress [OF ok] that by blast
  with ok pump_run_length [OF assms(2)] show ?thesis
    by (auto simp: pump_ok_def maxChan_def maxBatch_def pump_work_def pump_init_def split: if_splits)
qed

definition euro_run :: pump where
  "euro_run = \<lparr>pm_reads = [], pm_display = [0xe2, 0x82, 0xac], pm_pending = [], pm_outbox = [],
     pm_eof = True, pm_closed = True, pm_chan = [], pm_batch = [], pm_sent = [[[0xe2, 0x82, 0xac]]],
     pm_done = True\<rparr>"

definition euro_reads :: "(bytes \<times> bool) list" where
  "euro_reads = map (\<lambda>c. (c, False)) [[0xe2], [0x82]] @ [([0xac], True)]"

lemma euro_pieces:
  "splitOnUTF8Boundary [0xe2] = ([], [0xe2])"
  "splitOnUTF8Boundary [0xe2, 0x82] = ([], [0xe2, 0x82])"
  "splitOnUTF8Boundary [0xe2, 0x82, 0xac] = ([0xe2, 0x82, 0xac], [])"
  by code_simp+

lemma euro_runs: "(pump_step ^^ 7) (pump_init euro_reads) euro_run"
proof -
  let ?s1 = "(pump_init euro_reads)\<lparr>pm_reads := [([0x82], False), ([0xac], True)], pm_display := [0xe2],
    pm_pending := [0xe2]\<rparr>"
  let ?s2 = "?s1\<lparr>pm_reads := [([0xac], True)], pm_display := [0xe2, 0x82], pm_pending := [0xe2, 0x82]\<rparr>"
  let ?s3 = "?s2\<lparr>pm_reads := [], pm_display := [0xe2, 0x82, 0xac], pm_pending := [],
    pm_outbox := [[0xe2, 0x82, 0xac]], pm_eof := True\<rparr>"
  let ?s4 = "?s3\<lparr>pm_outbox := [], pm_chan := [[0xe2, 0x82, 0xac]]\<rparr>"
  let ?s5 = "?s4\<lparr>pm_closed := True\<rparr>"
  let ?s6 = "?s5\<lparr>pm_chan := [], pm_batch := [[0xe2, 0x82, 0xac]]\<rparr>"
  note ev = pump_init_def euro_reads_def euro_run_def publish_read_def euro_pieces
    maxChan_def maxBatch_def
  have s1: "pump_step (pump_init euro_reads) ?s1" by (subst pump_step.simps) (auto simp: ev)
  have s2: "pump_step ?s1 ?s2" by (subst pump_step.simps) (auto simp: ev)
  have s3: "pump_step ?s2 ?s3" by (subst pump_step.simps) (auto simp: ev)
  have s4: "pump_step ?s3 ?s4" by (subst pump_step.simps) (auto simp: ev)
  have s5: "pump_step ?s4 ?s5" by (subst pump_step.simps) (auto simp: ev)
  have s6: "pump_step ?s5 ?s6" by (subst pump_step.simps) (auto simp: ev)
  have s7: "pump_step ?s6 euro_run" by (subst pump_step.simps) (auto simp: ev)
  note run = relpowp_0_I [of pump_step euro_run]
  note run = relpowp_Suc_I2 [OF s5 relpowp_Suc_I2 [OF s6 relpowp_Suc_I2 [OF s7 run]]]
  note run = relpowp_Suc_I2 [OF s1 relpowp_Suc_I2 [OF s2 relpowp_Suc_I2 [OF s3 relpowp_Suc_I2 [OF s4 run]]]]
  then show ?thesis by (simp only: eval_nat_numeral BitM.simps)
qed

theorem stdout_pump_delivers_witness:
  "concat (concat (pm_sent euro_run)) = [0xe2, 0x82, 0xac]"
  using stdout_pump_delivers [where cs = "[[0xe2], [0x82]]" and c = "[0xac]" and n = 7 and s = euro_run]
    euro_runs
  by (simp add: euro_run_def euro_reads_def)

subsection \<open>What is published is well-formed text\<close>

text \<open>
  Everything the reader has taken in is well formed up to the carry-over, which is the beginning of
  one character, and so is every message on its way.
\<close>

definition pump_text :: "pump \<Rightarrow> bool" where
  "pump_text s \<longleftrightarrow>
     rune_begun (pm_pending s)
     \<and> (\<forall>m \<in> set (concat (pm_sent s) @ pm_batch s @ pm_chan s @ pm_outbox s). utf8 m)"

lemma rune_begun_Nil [simp]: "rune_begun []"
  by (auto simp: rune_begun_def intro!: exI [of _ "[0]"])

lemma rune_prefix_free:
  assumes "is_rune r" "is_rune r'" "r @ w = r' @ w'"
  shows "r = r'"
proof -
  from assms(1) obtain c t where r: "r = c # t" "c < 0x80 \<longleftrightarrow> t = []"
    "t \<noteq> [] \<longrightarrow> 0xc0 \<le> c \<and> expected_len c = length r" by (rule rune_shape)
  from assms(2) obtain c' t' where r': "r' = c' # t'" "c' < 0x80 \<longleftrightarrow> t' = []"
    "t' \<noteq> [] \<longrightarrow> 0xc0 \<le> c' \<and> expected_len c' = length r'" by (rule rune_shape)
  from assms(3) r(1) r'(1) have "c = c'" by simp
  with r r' have "length r = length r'" by (cases "t = []") auto
  with assms(3) show ?thesis by simp
qed

lemma utf8_sandwich: "utf8 s \<Longrightarrow> utf8 (s @ t) \<Longrightarrow> utf8 t"
proof (induction rule: utf8.induct)
  case (utf8_rune r s)
  from utf8_rune.prems show ?case
  proof (cases rule: utf8.cases)
    case utf8_Nil
    with utf8_rune show ?thesis by auto
  next
    case inner: (utf8_rune r' s')
    then have "r = r'" using rune_prefix_free [of r r' "s @ t" s'] utf8_rune(1) by simp
    with inner utf8_rune.IH show ?thesis by simp
  qed
qed simp

lemma publish_read_text:
  assumes "publish_read pending (chunk, err) = (msgs, p)" "rune_begun pending"
    and "utf8 (pending @ chunk @ rest)" "err \<longrightarrow> rest = []"
  shows "(\<forall>m \<in> set msgs. utf8 m) \<and> rune_begun p \<and> utf8 (p @ rest)"
proof -
  from utf8_prefix [of "pending @ chunk" rest] assms(3) obtain s q where
    sq: "pending @ chunk = s @ q" "utf8 s" "rune_begun q" by auto
  have split: "splitOnUTF8Boundary (pending @ chunk) = (s, q)"
    by (simp add: sq split_utf8)
  have tail: "utf8 (q @ rest)" using assms(3) sq by (metis append_assoc utf8_sandwich)
  show ?thesis
  proof (cases "chunk = []")
    case True
    with assms show ?thesis by (auto simp: publish_read_def Let_def split: if_splits)
  next
    case False
    with assms split sq tail show ?thesis
      by (cases "pending = []") (auto simp: publish_read_def Let_def split: if_splits)
  qed
qed

lemma pump_text_step:
  assumes "pump_step s t" "pump_ok whole s" "pump_text s"
    and "utf8 (pm_pending s @ concat (map fst (pm_reads s)))"
  shows "pump_text t \<and> utf8 (pm_pending t @ concat (map fst (pm_reads t)))"
  using assms
proof (induction rule: pump_step.induct)
  case (Read s rd reads msgs pending)
  obtain chunk err where rd: "rd = (chunk, err)" by (cases rd)
  from Read have "reads_left ((chunk, err) # reads)" by (simp add: pump_ok_def rd)
  then have "err \<longrightarrow> concat (map fst reads) = []" by (simp add: reads_left_Cons)
  with publish_read_text [OF Read(4) [unfolded rd], of "concat (map fst reads)"] Read
  have "(\<forall>m \<in> set msgs. utf8 m) \<and> rune_begun pending \<and> utf8 (pending @ concat (map fst reads))"
    by (simp add: pump_text_def rd)
  with Read show ?case by (auto simp: pump_text_def)
qed (auto simp: pump_text_def)

lemma pump_reachable_text:
  assumes "pump_step\<^sup>*\<^sup>* (pump_init reads) s" "reads_left reads" "utf8 (concat (map fst reads))"
  shows "pump_text s \<and> utf8 (pm_pending s @ concat (map fst (pm_reads s)))"
  using assms
proof (induction rule: rtranclp_induct)
  case base
  then show ?case by (simp add: pump_text_def pump_init_def)
next
  case (step s t)
  with pump_text_step [OF step(2) pump_reachable_ok [OF step(1)]] show ?case by blast
qed

text \<open>C11: When the output of the wrapped program is well-formed UTF-8, every message of the output path,
  in every state of every interleaving and however the reads cut the characters, is itself
  well-formed UTF-8 (so that marshalling it to JSON rewrites nothing), and at most three bytes are
  held back between reads.\<close>
theorem stdout_messages_are_text:
  fixes cs :: "bytes list" and c :: bytes
  defines "reads \<equiv> map (\<lambda>c. (c, False)) cs @ [(c, True)]"
  assumes "pump_step\<^sup>*\<^sup>* (pump_init reads) s" and "utf8 (concat cs @ c)"
  shows "(\<forall>m \<in> set (concat (pm_sent s) @ pm_batch s @ pm_chan s @ pm_outbox s). utf8 m)
    \<and> length (pm_pending s) \<le> 3"
proof -
  have "reads_left reads" "concat (map fst reads) = concat cs @ c"
    by (simp_all add: reads_def reads_left_snoc comp_def)
  with pump_reachable_text [OF assms(2)] assms(3) show ?thesis
    by (simp add: pump_text_def rune_begun_length)
qed

theorem stdout_messages_are_text_witness:
  "utf8 [0xe2, 0x82, 0xac] \<and> pm_sent euro_run = [[[0xe2, 0x82, 0xac]]]
   \<and> list_all utf8 (concat (pm_sent euro_run))"
proof -
  have "pump_step\<^sup>*\<^sup>* (pump_init (map (\<lambda>c. (c, False)) [[0xe2], [0x82]] @ [([0xac], True)])) euro_run"
    using euro_runs unfolding euro_reads_def by (rule relpowp_imp_rtranclp)
  moreover have "utf8 [0xe2, 0x82, 0xac]"
    using utf8_rune [of "[0xe2, 0x82, 0xac]" "[]"] by (simp add: cont_byte_def utf8_Nil)
  ultimately show ?thesis
    using stdout_messages_are_text [where cs = "[[0xe2], [0x82]]" and c = "[0xac]" and s = euro_run]
    by (simp add: euro_run_def)
qed

end
