(* ===== verification/TermLease.thy ===== *)
theory TermLease
  imports AclServer TermBytes Errors "HOL-Library.Sublist"
begin

text \<open>
  The advisory write-lease of a shared terminal. The pty host (\<open>internal/cli/terminal.go\<close>) arbitrates
  it: \<open>handleLeaseMessage\<close> and the expiry timer change it, \<open>forwardStdin\<close> drops the input of anyone
  but the holder. The browser's controller (\<open>internal/server/terminal_control.go\<close>) acquires, renews
  and releases it like the command line does.

  A message of \<open><handle>.system\<close> is its sender, its parsed timestamp and its decoded payload, each
  \<open>None\<close> when it does not parse. The two goroutines of the host share the lease under its mutex, which
  covers the check of the holder and not the write to the pseudo terminal after it: one round of
  \<open>forwardStdin\<close> is two events, and requests and timer ticks may fall between them. A browser's session
  runs its reader, the consumer of the system pipe, its renewal loops and its close side by side; a
  step of it is one critical section or one call to the broker or the database.
\<close>

section \<open>leaseState\<close>

record lease_state =
  ls_holder :: string
  ls_expires :: instant

definition newLeaseState :: lease_state where
  "newLeaseState = \<lparr>ls_holder = '''', ls_expires = 0\<rparr>"

definition holderAt :: "lease_state \<Rightarrow> instant \<Rightarrow> string" where
  "holderAt l now = (if ls_holder l = '''' \<or> \<not> now < ls_expires l then '''' else ls_holder l)"

definition grant_lease :: "string \<Rightarrow> instant \<Rightarrow> lease_state \<Rightarrow> lease_state" where
  "grant_lease holder expires l = l\<lparr>ls_holder := holder, ls_expires := expires\<rparr>"

definition clear_lease :: "lease_state \<Rightarrow> lease_state" where
  "clear_lease l = l\<lparr>ls_holder := '''', ls_expires := 0\<rparr>"

definition expireIfDue :: "instant \<Rightarrow> lease_state \<Rightarrow> bool \<times> lease_state" where
  "expireIfDue now l =
     (if ls_holder l \<noteq> '''' \<and> \<not> now < ls_expires l then (True, l\<lparr>ls_holder := '''', ls_expires := 0\<rparr>)
      else (False, l))"

section \<open>The lease manager\<close>

definition defaultLeaseTTL :: duration where "defaultLeaseTTL = 60 * second"
definition leaseStaleGrace :: duration where "leaseStaleGrace = 3 * second"
definition controlLeaseTTL :: duration where "controlLeaseTTL = 30 * second"

definition millisecond :: duration where "millisecond = 1000000"

text \<open>The fields of a \<open>leaseMsg\<close> that requests carry, and the published \<open>lease-state\<close>.\<close>

record leasemsg =
  lm_Type :: string
  lm_TTLMs :: int
  lm_Nonce :: string

record lease_reply =
  lr_Holder :: string
  lr_Until :: instant
  lr_ReplyNonce :: string

record system_message =
  sm_Sender :: string
  sm_CreatedAt :: "instant option"
  sm_Payload :: "leasemsg option"

text \<open>
  The host: the lease, the time the expiry timer fires (\<open>None\<close> when stopped), the published states,
  the ring of seen message ids, what was written to the pseudo terminal (the message's id, sender
  and payload), and the message that passed the check of the holder and is not written yet.
\<close>

record seen_ring =
  rg_order :: "string list"
  rg_idx :: nat
  rg_set :: "string set"
  rg_cap :: nat

record stdin_message =
  sn_ID :: string
  sn_Sender :: string
  sn_Payload :: string

record pty_host =
  ph_lease :: lease_state
  ph_expiry :: "instant option"
  ph_published :: "lease_reply list"
  ph_seen :: seen_ring
  ph_written :: "stdin_message list"
  ph_passed :: "stdin_message option"

definition publishLeaseState :: "string \<Rightarrow> instant \<Rightarrow> string \<Rightarrow> pty_host \<Rightarrow> pty_host" where
  "publishLeaseState holder until replyNonce H =
     H\<lparr>ph_published := ph_published H @ [\<lparr>lr_Holder = holder, lr_Until = until, lr_ReplyNonce = replyNonce\<rparr>]\<rparr>"

definition lease_ttl :: "leasemsg \<Rightarrow> duration" where
  "lease_ttl p = (let ttl = wrap64 (lm_TTLMs p * millisecond) in if ttl \<le> 0 then defaultLeaseTTL else ttl)"

definition stale_acquire :: "instant \<Rightarrow> system_message \<Rightarrow> duration \<Rightarrow> bool" where
  "stale_acquire now msg ttl \<longleftrightarrow>
     (case sm_CreatedAt msg of None \<Rightarrow> False | Some created \<Rightarrow> wrap64 (ttl + leaseStaleGrace) < time_sub now created)"

definition handleLeaseMessage :: "instant \<Rightarrow> system_message \<Rightarrow> pty_host \<Rightarrow> pty_host" where
  "handleLeaseMessage now msg H =
     (case sm_Payload msg of None \<Rightarrow> H
      | Some p \<Rightarrow>
          if lm_Type p = ''lease-acquire'' then
            (let ttl = lease_ttl p;
                 cur = holderAt (ph_lease H) now
             in if stale_acquire now msg ttl then H
                else if cur = '''' \<or> cur = sm_Sender msg then
                  publishLeaseState (sm_Sender msg) (now + ttl) (lm_Nonce p)
                    (H\<lparr>ph_lease := grant_lease (sm_Sender msg) (now + ttl) (ph_lease H), ph_expiry := Some (now + ttl)\<rparr>)
                else publishLeaseState cur (ls_expires (ph_lease H)) (lm_Nonce p) H)
          else if lm_Type p = ''lease-release'' then
            (if holderAt (ph_lease H) now = sm_Sender msg
             then publishLeaseState '''' 0 (lm_Nonce p) (H\<lparr>ph_lease := clear_lease (ph_lease H), ph_expiry := None\<rparr>)
             else H)
          else H)"

text \<open>The timer case of the loop in \<open>streamLeaseManagerOnce\<close>.\<close>

definition handleExpiry :: "instant \<Rightarrow> pty_host \<Rightarrow> pty_host" where
  "handleExpiry now H =
     (case expireIfDue now (ph_lease H) of
        (due, l') \<Rightarrow>
          (let H' = H\<lparr>ph_lease := l', ph_expiry := None\<rparr>
           in if due then publishLeaseState '''' 0 '''' H' else H'))"

section \<open>forwardStdin\<close>

definition newSeenIDRing :: "nat \<Rightarrow> seen_ring" where
  "newSeenIDRing capacity = \<lparr>rg_order = replicate capacity '''', rg_idx = 0, rg_set = {}, rg_cap = capacity\<rparr>"

definition ring_has :: "seen_ring \<Rightarrow> string \<Rightarrow> bool" where
  "ring_has r i \<longleftrightarrow> i \<in> rg_set r"

definition ring_add :: "string \<Rightarrow> seen_ring \<Rightarrow> seen_ring" where
  "ring_add i r =
     (if i \<in> rg_set r then r
      else
        let old = rg_order r ! rg_idx r;
            kept = (if old \<noteq> '''' then rg_set r - {old} else rg_set r)
        in r\<lparr>rg_order := (rg_order r)[rg_idx r := i], rg_set := insert i kept, rg_idx := (rg_idx r + 1) mod rg_cap r\<rparr>)"

text \<open>
  One message of \<open><handle>.stdin\<close> in the loop of \<open>streamForwardStdinOnce\<close>: \<open>stdin_check\<close> is the body up
  to the write, \<open>stdin_write\<close> the write and the mark after it. The loop takes the next message only
  when the one before is written. The ring is the loop's own.
\<close>

definition stdin_write :: "pty_host \<Rightarrow> pty_host" where
  "stdin_write H =
     (case ph_passed H of None \<Rightarrow> H
      | Some msg \<Rightarrow> H\<lparr>ph_written := ph_written H @ [msg], ph_seen := ring_add (sn_ID msg) (ph_seen H), ph_passed := None\<rparr>)"

definition stdin_check :: "instant \<Rightarrow> stdin_message \<Rightarrow> pty_host \<Rightarrow> pty_host" where
  "stdin_check now msg H =
     (if ring_has (ph_seen H) (sn_ID msg) then H
      else
        let holder = holderAt (ph_lease H) now
        in if holder \<noteq> '''' \<and> sn_Sender msg \<noteq> holder
           then H\<lparr>ph_seen := ring_add (sn_ID msg) (ph_seen H)\<rparr>
           else H\<lparr>ph_passed := Some msg\<rparr>)"

definition forwardStdin :: "instant \<Rightarrow> stdin_message \<Rightarrow> pty_host \<Rightarrow> pty_host" where
  "forwardStdin now msg H = stdin_write (stdin_check now msg (stdin_write H))"

text \<open>A share starts free, with a ring of 1024 ids.\<close>

definition new_host :: pty_host where
  "new_host = \<lparr>ph_lease = newLeaseState, ph_expiry = None, ph_published = [], ph_seen = newSeenIDRing 1024, ph_written = [],
     ph_passed = None\<rparr>"

datatype host_event =
    SystemMessage instant system_message | TimerFired instant | StdinMessage instant stdin_message | PtyWrite

fun host_step :: "host_event \<Rightarrow> pty_host \<Rightarrow> pty_host" where
  "host_step (SystemMessage now msg) H = handleLeaseMessage now msg H"
| "host_step (TimerFired now) H = handleExpiry now H"
| "host_step (StdinMessage now msg) H = stdin_check now msg (stdin_write H)"
| "host_step PtyWrite H = stdin_write H"

definition run_host :: "host_event list \<Rightarrow> pty_host \<Rightarrow> pty_host" where
  "run_host evs H = fold host_step evs H"

section \<open>terminal\_control.go\<close>

text \<open>
  A browser's controller: whether it holds the lease, the acquires it waits for (by nonce) and the
  answers they got, its renewal loops and which of them \<open>stopRenew\<close> would cancel, and what it has
  published on the source's pipes and sent to the browser; then where its reader, its renewal loops
  (each with whether its context is still live) and its close are in their code. Whether the viewer
  may write is what \<open>sessionCan\<close> answers at that moment; \<open>deliver\<close> is whether the broker takes a message.
\<close>

definition guiLeaseTTL :: duration where "guiLeaseTTL = 30 * second"
definition guiInputChunk :: nat where "guiInputChunk = 4096"
definition maxTermDim :: int where "maxTermDim = 1000"

datatype web_payload = Request leasemsg | SetSize int int | Keys bytes

datatype web_frame =
    ControlFrame bool bool string | LeaseFrame string instant | ControlError string

datatype reader_at =
    AtRead | Sending bytes | MayTake | Registered string | Waiting string | Granted | Leaving | Resizing int int

datatype renewer_at = AtTick | Renewing | Revoked | Dropping | Telling | Ended

datatype closer_at = NotClosing | Closing | Closed

record web_ctl =
  wc_handle :: string
  wc_sender :: string
  wc_holding :: bool
  wc_pending :: "string list"
  wc_answers :: "string \<rightharpoonup> string"
  wc_stopRenew :: "nat option"
  wc_loops :: "(bool \<times> renewer_at) list"
  wc_reader :: reader_at
  wc_closer :: closer_at
  wc_published :: "(string \<times> web_payload) list"
  wc_frames :: "web_frame list"

definition newTerminalController :: "string \<Rightarrow> string \<Rightarrow> web_ctl" where
  "newTerminalController handle username =
     \<lparr>wc_handle = handle, wc_sender = username @ ''@web'', wc_holding = False, wc_pending = [], wc_answers = (\<lambda>n. None),
      wc_stopRenew = None, wc_loops = [], wc_reader = AtRead, wc_closer = NotClosing, wc_published = [], wc_frames = []\<rparr>"

definition canWrite :: "acl_faults \<Rightarrow> uuid \<Rightarrow> uuid \<Rightarrow> string \<Rightarrow> database \<Rightarrow> bool" where
  "canWrite flt orgID userID handle D \<longleftrightarrow> sessionCan flt True orgID userID (handle @ ''.stdin'') Write D = Inr True"

definition canResize :: "acl_faults \<Rightarrow> uuid \<Rightarrow> uuid \<Rightarrow> string \<Rightarrow> database \<Rightarrow> bool" where
  "canResize flt orgID userID handle D \<longleftrightarrow> sessionCan flt True orgID userID (handle @ ''.stdctrl'') Write D = Inr True"

definition sendError :: "string \<Rightarrow> web_ctl \<Rightarrow> web_ctl" where
  "sendError msg c = c\<lparr>wc_frames := wc_frames c @ [ControlError msg]\<rparr>"

definition web_publish :: "string option \<Rightarrow> string \<Rightarrow> web_payload \<Rightarrow> web_ctl \<Rightarrow> string option \<times> web_ctl" where
  "web_publish deliver pipe payload c =
     (case deliver of Some e \<Rightarrow> (Some e, c) | None \<Rightarrow> (None, c\<lparr>wc_published := wc_published c @ [(pipe, payload)]\<rparr>))"

definition no_write_text :: "string \<Rightarrow> string \<Rightarrow> string" where
  "no_write_text handle pipe = ''you don'' @ [CHR 0x27] @ ''t have write access to '' @ handle @ ''.'' @ pipe"

definition at_reader :: "reader_at \<Rightarrow> web_ctl \<Rightarrow> web_ctl" where
  "at_reader r c = c\<lparr>wc_reader := r\<rparr>"

text \<open>\<open>setsize\<close>: the checks, and the message.\<close>

definition setsize_check :: "bool \<Rightarrow> int \<Rightarrow> int \<Rightarrow> web_ctl \<Rightarrow> web_ctl" where
  "setsize_check may_resize cols rows c =
     (if cols < 1 \<or> rows < 1 \<or> maxTermDim < cols \<or> maxTermDim < rows then sendError ''invalid size'' c
      else if \<not> may_resize then sendError (no_write_text (wc_handle c) ''stdctrl'') c
      else at_reader (Resizing cols rows) c)"

definition setsize_publish :: "string option \<Rightarrow> int \<Rightarrow> int \<Rightarrow> web_ctl \<Rightarrow> web_ctl" where
  "setsize_publish deliver cols rows c =
     at_reader AtRead
       (case web_publish deliver ''stdctrl'' (SetSize cols rows) c of
          (Some e, c') \<Rightarrow> sendError (''resize not delivered: '' @ e) c'
        | (None, c') \<Rightarrow> c')"

definition lease_request :: "string \<Rightarrow> string \<Rightarrow> web_payload" where
  "lease_request typ nonce =
     Request \<lparr>lm_Type = typ, lm_TTLMs = (if typ = ''lease-acquire'' then go_div guiLeaseTTL millisecond else 0),
              lm_Nonce = nonce\<rparr>"

definition publishLease :: "string option \<Rightarrow> string \<Rightarrow> string \<Rightarrow> web_ctl \<Rightarrow> web_ctl" where
  "publishLease deliver typ nonce c = snd (web_publish deliver ''system'' (lease_request typ nonce) c)"

text \<open>\<open>stopRenewLocked\<close> cancels the context of the loop that runs; the loop sees it when it waits.\<close>

definition stopRenewLocked :: "web_ctl \<Rightarrow> web_ctl" where
  "stopRenewLocked c =
     (case wc_stopRenew c of None \<Rightarrow> c
      | Some i \<Rightarrow> c\<lparr>wc_loops := (wc_loops c)[i := (False, snd (wc_loops c ! i))], wc_stopRenew := None\<rparr>)"

text \<open>The critical section of \<open>release\<close>: whether the lease was held, so that it is to be released.\<close>

definition release_section :: "web_ctl \<Rightarrow> bool \<times> web_ctl" where
  "release_section c = (wc_holding c, stopRenewLocked (c\<lparr>wc_holding := False\<rparr>))"

text \<open>A \<open>lease-state\<close> on the system pipe: the waiting acquire it answers, and the loss of the lease.\<close>

definition onLeaseState :: "lease_reply \<Rightarrow> web_ctl \<Rightarrow> web_ctl" where
  "onLeaseState m c =
     (let c1 = (if lr_ReplyNonce m \<in> set (wc_pending c) \<and> lr_ReplyNonce m \<noteq> ''''
                then c\<lparr>wc_answers := (wc_answers c)(lr_ReplyNonce m \<mapsto> lr_Holder m),
                       wc_pending := filter (\<lambda>n. n \<noteq> lr_ReplyNonce m) (wc_pending c)\<rparr>
                else c);
          lost = (wc_holding c1 \<and> lr_Holder m \<noteq> wc_sender c1);
          c2 = (if lost then stopRenewLocked (c1\<lparr>wc_holding := False\<rparr>) else c1)
      in c2\<lparr>wc_frames := wc_frames c2 @ [LeaseFrame (lr_Holder m) (lr_Until m)]\<rparr>)"

text \<open>
  \<open>take\<close>: the access check, the registration of the nonce, the acquire, the end of the wait with the
  host's verdict (\<open>None\<close> when it did not answer in time), and the section that starts a renewal loop.
\<close>

definition no_answer :: string where
  "no_answer = ''the terminal'' @ [CHR 0x27] @ ''s host didn'' @ [CHR 0x27] @ ''t answer '' @ em_dash
     @ '' is the share still running?''"

definition take_check :: "bool \<Rightarrow> web_ctl \<Rightarrow> web_ctl" where
  "take_check may_write c =
     (if \<not> may_write then sendError (no_write_text (wc_handle c) ''stdin'') c else at_reader MayTake c)"

definition acquire_register :: "string \<Rightarrow> web_ctl \<Rightarrow> web_ctl" where
  "acquire_register nonce c = at_reader (Registered nonce) (c\<lparr>wc_pending := nonce # wc_pending c\<rparr>)"

definition acquire_publish :: "string option \<Rightarrow> string \<Rightarrow> web_ctl \<Rightarrow> web_ctl" where
  "acquire_publish deliver nonce c =
     (case web_publish deliver ''system'' (lease_request ''lease-acquire'' nonce) c of
        (Some _, c') \<Rightarrow> at_reader AtRead (sendError no_answer (c'\<lparr>wc_pending := filter (\<lambda>n. n \<noteq> nonce) (wc_pending c')\<rparr>))
      | (None, c') \<Rightarrow> at_reader (Waiting nonce) c')"

definition take_verdict :: "string \<Rightarrow> string option \<Rightarrow> web_ctl \<Rightarrow> web_ctl" where
  "take_verdict nonce verdict c0 =
     (let c = c0\<lparr>wc_pending := filter (\<lambda>n. n \<noteq> nonce) (wc_pending c0)\<rparr>
      in case verdict of
           None \<Rightarrow> at_reader AtRead (sendError no_answer c)
         | Some holder \<Rightarrow>
             if holder \<noteq> wc_sender c then at_reader AtRead (sendError (''controlled by '' @ holder) c)
             else at_reader Granted c)"

definition take_section :: "web_ctl \<Rightarrow> web_ctl" where
  "take_section c =
     at_reader AtRead
       (if wc_holding c then c
        else c\<lparr>wc_holding := True, wc_stopRenew := Some (length (wc_loops c)), wc_loops := wc_loops c @ [(True, AtTick)]\<rparr>)"

text \<open>The body of the loop of \<open>input\<close>: a chunk of at most 4096 bytes; an undelivered one ends it.\<close>

definition send_chunk :: "string option \<Rightarrow> bytes \<Rightarrow> web_ctl \<Rightarrow> bytes \<times> web_ctl" where
  "send_chunk deliver b c =
     (let n = (if guiInputChunk < length b then guiInputChunk else length b)
      in case web_publish deliver ''stdin'' (Keys (take n b)) c of
           (Some e, c') \<Rightarrow> ([], sendError (''input not delivered: '' @ e) c')
         | (None, c') \<Rightarrow> (drop n b, c'))"

text \<open>
  \<open>handleFrame\<close>: a binary frame, or a text frame with the fields that matter (\<open>None\<close> when it is no
  JSON object of that shape), up to the end of its first critical section or access check. \<open>W\<close> and
  \<open>R\<close> are what \<open>canWrite\<close> and \<open>canResize\<close> answer. \<open>reader_goes\<close> is what follows, one call at a time;
  \<open>verdict\<close> is how the wait of a \<open>take\<close> ends.
\<close>

datatype browser_frame = BinaryFrame bytes | TextFrame "(string \<times> int \<times> int) option"

definition handleFrame :: "bool \<Rightarrow> bool \<Rightarrow> browser_frame \<Rightarrow> web_ctl \<Rightarrow> web_ctl" where
  "handleFrame W R f c =
     (case f of
        BinaryFrame b \<Rightarrow> if \<not> wc_holding c then c else at_reader (Sending b) c
      | TextFrame None \<Rightarrow> c
      | TextFrame (Some (typ, cols, rows)) \<Rightarrow>
          if typ = ''take'' then take_check W c
          else if typ = ''release'' then
            (case release_section c of (was, c') \<Rightarrow> if was then at_reader Leaving c' else c')
          else if typ = ''setsize'' then setsize_check R cols rows c
          else c)"

definition reader_goes :: "string option \<Rightarrow> string \<Rightarrow> string option \<Rightarrow> web_ctl \<Rightarrow> web_ctl" where
  "reader_goes deliver nonce verdict c =
     (case wc_reader c of
        AtRead \<Rightarrow> c
      | Sending b \<Rightarrow>
          if b = [] then at_reader AtRead c
          else (case send_chunk deliver b c of (b', c') \<Rightarrow> at_reader (Sending b') c')
      | MayTake \<Rightarrow> acquire_register nonce c
      | Registered n \<Rightarrow> acquire_publish deliver n c
      | Waiting n \<Rightarrow> take_verdict n verdict c
      | Granted \<Rightarrow> take_section c
      | Leaving \<Rightarrow> at_reader AtRead (publishLease deliver ''lease-release'' nonce c)
      | Resizing cols rows \<Rightarrow> setsize_publish deliver cols rows c)"

text \<open>
  The renewal loop \<open>i\<close>: the access check of a tick, and what follows it. The check runs under the
  loop's context, so a cancelled loop may find write refused although it is not.
\<close>

definition at_loop :: "nat \<Rightarrow> renewer_at \<Rightarrow> web_ctl \<Rightarrow> web_ctl" where
  "at_loop i r c = c\<lparr>wc_loops := (wc_loops c)[i := (fst (wc_loops c ! i), r)]\<rparr>"

definition renew_check :: "bool \<Rightarrow> nat \<Rightarrow> web_ctl \<Rightarrow> web_ctl" where
  "renew_check may_write i c = (if \<not> may_write then at_loop i Revoked c else at_loop i Renewing c)"

definition renew_goes :: "string option \<Rightarrow> string \<Rightarrow> nat \<Rightarrow> web_ctl \<Rightarrow> web_ctl" where
  "renew_goes deliver nonce i c =
     (case snd (wc_loops c ! i) of
        AtTick \<Rightarrow> c
      | Renewing \<Rightarrow> at_loop i AtTick (publishLease deliver ''lease-acquire'' nonce c)
      | Revoked \<Rightarrow> (case release_section c of (was, c') \<Rightarrow> at_loop i (if was then Dropping else Telling) c')
      | Dropping \<Rightarrow> at_loop i Telling (publishLease deliver ''lease-release'' nonce c)
      | Telling \<Rightarrow> at_loop i Ended (sendError (''write access to '' @ wc_handle c @ ''.stdin was revoked'') c)
      | Ended \<Rightarrow> c)"

definition close_section :: "web_ctl \<Rightarrow> web_ctl" where
  "close_section c = (case release_section c of (was, c') \<Rightarrow> c'\<lparr>wc_closer := (if was then Closing else Closed)\<rparr>)"

text \<open>
  The goroutines of a session: the reader, which takes no further frame before it is done with one,
  the consumer of the system pipe, the renewal loops and the close at the end of the connection. \<open>W\<close>
  is whether the viewer may write at that step; a look-up that fails counts as no.
\<close>

inductive web_step :: "bool \<Rightarrow> web_ctl \<Rightarrow> web_ctl \<Rightarrow> bool" where
  ws_frame: "wc_reader c = AtRead \<Longrightarrow> (may_write \<Longrightarrow> W) \<Longrightarrow> web_step W c (handleFrame may_write R f c)"
| ws_reader: "(\<And>n h. wc_reader c = Waiting n \<Longrightarrow> verdict = Some h \<Longrightarrow> wc_answers c n = Some h) \<Longrightarrow>
    web_step W c (reader_goes deliver nonce verdict c)"
| ws_state: "web_step W c (onLeaseState m c)"
| ws_tick: "i < length (wc_loops c) \<Longrightarrow> snd (wc_loops c ! i) = AtTick \<Longrightarrow> (may_write \<Longrightarrow> W) \<Longrightarrow>
    web_step W c (renew_check may_write i c)"
| ws_stopped: "i < length (wc_loops c) \<Longrightarrow> wc_loops c ! i = (False, AtTick) \<Longrightarrow> web_step W c (at_loop i Ended c)"
| ws_loop: "i < length (wc_loops c) \<Longrightarrow> web_step W c (renew_goes deliver nonce i c)"
| ws_close: "wc_closer c = NotClosing \<Longrightarrow> web_step W c (close_section c)"
| ws_closed: "wc_closer c = Closing \<Longrightarrow> web_step W c (publishLease deliver ''lease-release'' nonce (c\<lparr>wc_closer := Closed\<rparr>))"

inductive_cases web_stepE: "web_step W c c'"

text \<open>A whole binary frame, when the lease is held: the chunks one after the other.\<close>

function input_loop :: "(nat \<Rightarrow> string option) \<Rightarrow> nat \<Rightarrow> bytes \<Rightarrow> web_ctl \<Rightarrow> web_ctl" where
  "input_loop deliver k b c =
     (if b = [] then c else input_loop deliver (Suc k) (fst (send_chunk (deliver k) b c)) (snd (send_chunk (deliver k) b c)))"
  by pat_completeness auto
termination
proof (relation "measure (\<lambda>(d, k, b, c). length b)", simp)
  fix deliver :: "nat \<Rightarrow> string option" and k :: nat and b :: bytes and c :: web_ctl
  assume "b \<noteq> []"
  then show "((deliver, Suc k, fst (send_chunk (deliver k) b c), snd (send_chunk (deliver k) b c)), deliver, k, b, c)
      \<in> measure (\<lambda>(d, k, b, c). length b)"
    by (cases b) (auto simp: send_chunk_def web_publish_def guiInputChunk_def Let_def split: option.split)
qed

declare input_loop.simps [simp del]

definition web_input :: "(nat \<Rightarrow> string option) \<Rightarrow> bytes \<Rightarrow> web_ctl \<Rightarrow> web_ctl" where
  "web_input deliver b c = (if \<not> wc_holding c then c else input_loop deliver 0 b c)"

section \<open>The lease excludes\<close>

fun event_time :: "host_event \<Rightarrow> instant option" where
  "event_time (SystemMessage now msg) = Some now"
| "event_time (TimerFired now) = Some now"
| "event_time (StdinMessage now msg) = Some now"
| "event_time PtyWrite = None"

text \<open>The holder keeps its lease until \<open>e\<close>: it does not release it and renews it at least that far.\<close>

definition keeps_until :: "string \<Rightarrow> instant \<Rightarrow> host_event \<Rightarrow> bool" where
  "keeps_until A e ev \<longleftrightarrow>
     (\<forall>now. event_time ev = Some now \<longrightarrow> now < e) \<and>
     (\<forall>now msg p. ev = SystemMessage now msg \<and> sm_Sender msg = A \<and> sm_Payload msg = Some p \<longrightarrow>
        lm_Type p \<noteq> ''lease-release'' \<and> (lm_Type p = ''lease-acquire'' \<longrightarrow> e \<le> now + lease_ttl p))"

definition held_by :: "string \<Rightarrow> instant \<Rightarrow> pty_host \<Rightarrow> bool" where
  "held_by A e H \<longleftrightarrow> ls_holder (ph_lease H) = A \<and> A \<noteq> '''' \<and> e \<le> ls_expires (ph_lease H)"

lemma held_holderAt: "held_by A e H \<Longrightarrow> now < e \<Longrightarrow> holderAt (ph_lease H) now = A"
  by (auto simp: held_by_def holderAt_def)

text \<open>What is written, the message on its way to the write included.\<close>

definition destined :: "pty_host \<Rightarrow> stdin_message list" where
  "destined H = ph_written H @ (case ph_passed H of None \<Rightarrow> [] | Some m \<Rightarrow> [m])"

lemma stdin_write_simps [simp]:
  "ph_lease (stdin_write H) = ph_lease H" "ph_published (stdin_write H) = ph_published H"
  "ph_passed (stdin_write H) = None" "ph_expiry (stdin_write H) = ph_expiry H"
  "destined (stdin_write H) = destined H" "ph_written (stdin_write H) = destined H"
  by (auto simp: stdin_write_def destined_def split: option.split)

lemma handleLeaseMessage_stdin [simp]:
  "destined (handleLeaseMessage now msg H) = destined H"
  "ph_seen (handleLeaseMessage now msg H) = ph_seen H" "ph_passed (handleLeaseMessage now msg H) = ph_passed H"
  by (auto simp: handleLeaseMessage_def publishLeaseState_def destined_def Let_def split: option.split)

lemma handleExpiry_stdin [simp]:
  "destined (handleExpiry now H) = destined H"
  "ph_seen (handleExpiry now H) = ph_seen H" "ph_passed (handleExpiry now H) = ph_passed H"
  by (auto simp: handleExpiry_def publishLeaseState_def destined_def Let_def split: prod.split)

text \<open>What one event adds to the output and to the published states.\<close>

lemma lease_step:
  assumes "held_by A e H" "keeps_until A e ev"
  shows "held_by A e (host_step ev H)
    \<and> (\<exists>ws. destined (host_step ev H) = destined H @ ws \<and> (\<forall>w \<in> set ws. sn_Sender w = A))
    \<and> (\<exists>rs. ph_published (host_step ev H) = ph_published H @ rs \<and> (\<forall>r \<in> set rs. lr_Holder r = A))"
proof (cases ev)
  case (SystemMessage now msg)
  with assms(2) have "now < e" by (simp add: keeps_until_def)
  with assms(1) have cur: "holderAt (ph_lease H) now = A" "A \<noteq> ''''"
    by (simp_all add: held_holderAt) (simp add: held_by_def)
  have "held_by A e (handleLeaseMessage now msg H)
      \<and> (\<exists>rs. ph_published (handleLeaseMessage now msg H) = ph_published H @ rs \<and> (\<forall>r \<in> set rs. lr_Holder r = A))"
  proof (cases "sm_Payload msg")
    case (Some p)
    with assms SystemMessage have own: "sm_Sender msg = A \<Longrightarrow> lm_Type p \<noteq> ''lease-release''"
      "sm_Sender msg = A \<Longrightarrow> lm_Type p = ''lease-acquire'' \<Longrightarrow> e \<le> now + lease_ttl p"
      by (auto simp: keeps_until_def)
    with assms(1) cur Some SystemMessage show ?thesis
      by (auto simp: handleLeaseMessage_def Let_def publishLeaseState_def grant_lease_def held_by_def)
  qed (use assms(1) SystemMessage in \<open>simp add: handleLeaseMessage_def\<close>)
  with SystemMessage show ?thesis by simp
next
  case (TimerFired now)
  with assms show ?thesis
    by (auto simp: handleExpiry_def expireIfDue_def held_by_def keeps_until_def destined_def)
next
  case (StdinMessage now msg)
  with assms(2) have "now < e" by (simp add: keeps_until_def)
  with assms(1) have cur: "holderAt (ph_lease H) now = A" "A \<noteq> ''''"
    by (simp_all add: held_holderAt) (simp add: held_by_def)
  let ?K = "stdin_write H"
  have "held_by A e (stdin_check now msg ?K) \<and> ph_published (stdin_check now msg ?K) = ph_published H
      \<and> (\<exists>ws. destined (stdin_check now msg ?K) = destined ?K @ ws \<and> (\<forall>w \<in> set ws. sn_Sender w = A))"
    using assms(1) cur by (auto simp: stdin_check_def Let_def held_by_def) (auto simp: destined_def)
  with StdinMessage show ?thesis by simp
next
  case PtyWrite
  with assms(1) show ?thesis by (simp add: held_by_def)
qed

lemma lease_run:
  assumes "held_by A e H" "\<forall>ev \<in> set evs. keeps_until A e ev"
  shows "held_by A e (run_host evs H)
    \<and> (\<exists>ws. destined (run_host evs H) = destined H @ ws \<and> (\<forall>w \<in> set ws. sn_Sender w = A))
    \<and> (\<exists>rs. ph_published (run_host evs H) = ph_published H @ rs \<and> (\<forall>r \<in> set rs. lr_Holder r = A))"
  using assms unfolding run_host_def
proof (induction evs arbitrary: H)
  case (Cons ev evs)
  from lease_step [of A e H ev] Cons.prems obtain ws rs where step: "held_by A e (host_step ev H)"
    "destined (host_step ev H) = destined H @ ws" "\<forall>w \<in> set ws. sn_Sender w = A"
    "ph_published (host_step ev H) = ph_published H @ rs" "\<forall>r \<in> set rs. lr_Holder r = A"
    by auto
  from Cons.IH [OF step(1)] Cons.prems(2) obtain ws' rs' where
    "held_by A e (fold host_step evs (host_step ev H))"
    "destined (fold host_step evs (host_step ev H)) = destined (host_step ev H) @ ws'" "\<forall>w \<in> set ws'. sn_Sender w = A"
    "ph_published (fold host_step evs (host_step ev H)) = ph_published (host_step ev H) @ rs'" "\<forall>r \<in> set rs'. lr_Holder r = A"
    by auto
  with step(2-5) show ?case
    by (auto intro!: exI [of _ "ws @ ws'"] exI [of _ "rs @ rs'"])
qed simp

lemma written_grows: "prefix (ph_written H) (ph_written (run_host evs H))"
  unfolding run_host_def
proof (induction evs arbitrary: H)
  case (Cons ev evs)
  have "prefix (ph_written H) (ph_written (host_step ev H))"
  proof (cases ev)
    case (SystemMessage now msg)
    then show ?thesis by (auto simp: handleLeaseMessage_def publishLeaseState_def Let_def split: option.split)
  next
    case (TimerFired now)
    then show ?thesis by (auto simp: handleExpiry_def publishLeaseState_def Let_def split: prod.split)
  next
    case (StdinMessage now msg)
    have "ph_written (stdin_check now msg K) = ph_written K" for K by (simp add: stdin_check_def Let_def)
    with StdinMessage show ?thesis by (simp add: destined_def)
  qed (simp add: destined_def)
  with Cons.IH [of "host_step ev H"] show ?case by (simp add: prefix_order.trans)
qed simp

lemma written_split:
  assumes "destined H' = destined H @ ws" "prefix (ph_written H) (ph_written H')"
  shows "\<exists>late vs. (late = [] \<or> ph_passed H \<noteq> None \<and> late = [the (ph_passed H)])
    \<and> ph_written H' = ph_written H @ late @ vs \<and> set vs \<subseteq> set ws"
proof (cases "ph_passed H")
  case None
  show ?thesis
  proof (cases "ph_passed H'")
    case (Some m)
    with None assms show ?thesis by (cases ws rule: rev_cases) (auto simp: destined_def prefix_def)
  qed (use None assms(1) in \<open>auto simp: destined_def\<close>)
next
  case (Some n)
  show ?thesis
  proof (cases "ph_passed H'")
    case None
    with Some assms(1) have "ph_written H' = ph_written H @ [n] @ ws" by (simp add: destined_def)
    with Some show ?thesis by (intro exI [of _ "[n]"] exI [of _ ws]) simp
  next
    case m: (Some m)
    show ?thesis
    proof (cases ws rule: rev_cases)
      case Nil
      with Some m assms(1) have "ph_written H' = ph_written H" by (simp add: destined_def)
      then show ?thesis by (intro exI [of _ "[]"]) simp
    next
      case (snoc vs v)
      with Some m assms(1) have "ph_written H' = ph_written H @ [n] @ vs" by (simp add: destined_def)
      with Some snoc show ?thesis by (intro exI [of _ "[n]"] exI [of _ vs]) auto
    qed
  qed
qed

text \<open>C12: The write-lease excludes, from the check of the holder on. While \<open>A\<close> holds the lease at least
  until \<open>e\<close> - it does not release it and every renewal reaches \<open>e\<close> - then for every sequence of
  requests, timer ticks, input before \<open>e\<close> and writes to the pseudo terminal, in any order and from
  anyone: \<open>A\<close> still holds the lease afterwards, every answer the host gave names \<open>A\<close> as the holder, and
  what is written to the program is what \<open>A\<close> sent, after at most one message of anyone: the one that
  had passed the check before \<open>A\<close> held the lease and was not written yet (the lease's mutex does not
  cover the write).\<close>
theorem lease_excludes:
  assumes "ls_holder (ph_lease H) = A" "A \<noteq> ''''" "e \<le> ls_expires (ph_lease H)"
    and "\<forall>ev \<in> set evs. keeps_until A e ev"
  shows "ls_holder (ph_lease (run_host evs H)) = A
    \<and> (\<exists>rs. ph_published (run_host evs H) = ph_published H @ rs \<and> (\<forall>r \<in> set rs. lr_Holder r = A))
    \<and> (\<exists>late ws. (late = [] \<or> ph_passed H \<noteq> None \<and> late = [the (ph_passed H)])
        \<and> ph_written (run_host evs H) = ph_written H @ late @ ws \<and> (\<forall>w \<in> set ws. sn_Sender w = A))"
proof -
  have "held_by A e H" using assms(1-3) by (simp add: held_by_def)
  from lease_run [OF this assms(4)] obtain ws where run: "held_by A e (run_host evs H)"
    "\<exists>rs. ph_published (run_host evs H) = ph_published H @ rs \<and> (\<forall>r \<in> set rs. lr_Holder r = A)"
    and ws: "destined (run_host evs H) = destined H @ ws" "\<forall>w \<in> set ws. sn_Sender w = A"
    by auto
  have "\<exists>late vs. (late = [] \<or> ph_passed H \<noteq> None \<and> late = [the (ph_passed H)])
      \<and> ph_written (run_host evs H) = ph_written H @ late @ vs \<and> set vs \<subseteq> set ws"
    by (rule written_split [OF ws(1) written_grows])
  then obtain late vs where "late = [] \<or> ph_passed H \<noteq> None \<and> late = [the (ph_passed H)]"
    "ph_written (run_host evs H) = ph_written H @ late @ vs" "\<forall>w \<in> set vs. sn_Sender w = A"
    using ws(2) by blast
  with run show ?thesis unfolding held_by_def by blast
qed

definition ex_request :: "string \<Rightarrow> string \<Rightarrow> int \<Rightarrow> system_message" where
  "ex_request sender typ ttl = \<lparr>sm_Sender = sender, sm_CreatedAt = None,
     sm_Payload = Some \<lparr>lm_Type = typ, lm_TTLMs = ttl, lm_Nonce = ''n''\<rparr>\<rparr>"

definition ex_keys :: "string \<Rightarrow> string \<Rightarrow> stdin_message" where
  "ex_keys i sender = \<lparr>sn_ID = i, sn_Sender = sender, sn_Payload = ''ls''\<rparr>"

text \<open>Bob's input passes the check while the terminal is free; ada gets the lease; it is written after that.\<close>

definition ex_granted :: pty_host where
  "ex_granted = run_host [StdinMessage 1 (ex_keys ''m0'' ''bob''), SystemMessage 2 (ex_request ''ada'' ''lease-acquire'' 1000)] new_host"

definition ex_events :: "host_event list" where
  "ex_events = [PtyWrite, StdinMessage 3 (ex_keys ''m1'' ''bob''), SystemMessage 4 (ex_request ''bob'' ''lease-acquire'' 1000),
     StdinMessage 5 (ex_keys ''m2'' ''ada''), PtyWrite, SystemMessage 6 (ex_request ''bob'' ''lease-release'' 0)]"

lemmas host_run_simps = run_host_def stdin_check_def stdin_write_def handleLeaseMessage_def ring_has_def new_host_def newSeenIDRing_def
  holderAt_def newLeaseState_def ex_keys_def ring_add_def ex_request_def stale_acquire_def publishLeaseState_def
  grant_lease_def lease_ttl_def millisecond_def wrap64_def Let_def

lemma ex_granted_lease:
  "ph_lease ex_granted = \<lparr>ls_holder = ''ada'', ls_expires = 1000000002\<rparr>"
  "ph_written ex_granted = []" "ph_passed ex_granted = Some (ex_keys ''m0'' ''bob'')"
  by (simp_all add: ex_granted_def host_run_simps)

theorem lease_excludes_witness:
  "let H = run_host ex_events ex_granted
   in ls_holder (ph_lease H) = ''ada'' \<and> ph_written H = [ex_keys ''m0'' ''bob'', ex_keys ''m2'' ''ada'']"
proof -
  have "\<forall>ev \<in> set ex_events. keeps_until ''ada'' 100 ev"
    by (simp add: ex_events_def keeps_until_def ex_request_def)
  then have "ls_holder (ph_lease (run_host ex_events ex_granted)) = ''ada''"
    using lease_excludes [of ex_granted "''ada''" 100 ex_events] by (simp add: ex_granted_lease)
  moreover have "ph_written (run_host ex_events ex_granted) = [ex_keys ''m0'' ''bob'', ex_keys ''m2'' ''ada'']"
    by (simp add: ex_events_def ex_granted_def host_run_simps)
  ultimately show ?thesis by (simp add: Let_def)
qed

section \<open>Redelivered input\<close>

text \<open>
  The ring as a queue of the last ids, oldest first: the array read from the write index. Empty slots
  are empty ids.
\<close>

definition ring_queue :: "seen_ring \<Rightarrow> string list" where
  "ring_queue r = rotate (rg_idx r) (rg_order r)"

definition ring_ok :: "seen_ring \<Rightarrow> bool" where
  "ring_ok r \<longleftrightarrow>
     0 < rg_cap r \<and> length (rg_order r) = rg_cap r \<and> rg_idx r < rg_cap r
     \<and> rg_set r = set (ring_queue r) - {''''} \<and> distinct (filter (\<lambda>i. i \<noteq> '''') (ring_queue r))"

lemma rotate_write:
  assumes "k < length xs"
  shows "rotate (Suc k mod length xs) (xs[k := x]) = tl (rotate k xs) @ [x]" "hd (rotate k xs) = xs ! k"
proof -
  define a b where "a = take k xs" and "b = drop (Suc k) xs"
  have xs: "xs = a @ xs ! k # b" "length a = k"
    using assms by (simp_all add: a_def b_def id_take_nth_drop [symmetric])
  have upd: "xs[k := x] = a @ x # b"
    using assms by (simp add: a_def b_def upd_conv_take_nth_drop)
  have "rotate (Suc k mod length xs) (xs[k := x]) = rotate (Suc k) (a @ x # b)"
    using rotate_conv_mod [of "Suc k" "xs[k := x]"] unfolding upd [symmetric] by simp
  also have "\<dots> = b @ a @ [x]"
    using xs(2) rotate_append [of "a @ [x]" b] by simp
  finally have "rotate (Suc k mod length xs) (xs[k := x]) = b @ a @ [x]" .
  moreover have "rotate k xs = xs ! k # b @ a"
    using xs rotate_append [of a "xs ! k # b"] by simp
  ultimately show "rotate (Suc k mod length xs) (xs[k := x]) = tl (rotate k xs) @ [x]" "hd (rotate k xs) = xs ! k"
    by simp_all
qed

lemma ring_add_queue:
  assumes "ring_ok r" "i \<notin> rg_set r" "i \<noteq> ''''"
  shows "ring_queue (ring_add i r) = tl (ring_queue r) @ [i]" "ring_ok (ring_add i r)"
proof -
  let ?q = "ring_queue r"
  have len: "length (rg_order r) = rg_cap r" "rg_idx r < rg_cap r" "length ?q = rg_cap r"
    using assms(1) by (simp_all add: ring_ok_def ring_queue_def)
  have old: "rg_order r ! rg_idx r = hd ?q"
    using rotate_write(2) [of "rg_idx r" "rg_order r"] len by (simp add: ring_queue_def)
  show queue: "ring_queue (ring_add i r) = tl ?q @ [i]"
    using rotate_write(1) [of "rg_idx r" "rg_order r" i] len assms(2)
    by (simp add: ring_queue_def ring_add_def Let_def)
  obtain h q where q: "?q = h # q" using len by (cases ?q) auto
  have set: "rg_set r = set ?q - {''''}" and d: "distinct (filter (\<lambda>i. i \<noteq> '''') ?q)"
    using assms(1) by (simp_all add: ring_ok_def)
  have "h \<noteq> '''' \<Longrightarrow> h \<notin> set q" using d by (simp add: q)
  moreover have "rg_set (ring_add i r) = insert i (if h \<noteq> '''' then rg_set r - {h} else rg_set r)"
    using assms(2) old by (simp add: ring_add_def Let_def q)
  ultimately have "rg_set (ring_add i r) = set (tl ?q @ [i]) - {''''}"
    using set assms(3) by (auto simp: q)
  moreover have "distinct (filter (\<lambda>i. i \<noteq> '''') (tl ?q @ [i]))"
    using d assms(2,3) set by (auto simp: q split: if_splits)
  moreover have "rg_cap (ring_add i r) = rg_cap r" "length (rg_order (ring_add i r)) = rg_cap r"
    "rg_idx (ring_add i r) < rg_cap r"
    using assms(1,2) len by (auto simp: ring_add_def Let_def ring_ok_def)
  ultimately show "ring_ok (ring_add i r)"
    using assms(1) queue by (simp add: ring_ok_def)
qed

lemma new_ring_ok: "0 < n \<Longrightarrow> ring_ok (newSeenIDRing n)"
  by (auto simp: ring_ok_def newSeenIDRing_def ring_queue_def)

definition input_id :: "host_event \<Rightarrow> string option" where
  "input_id ev = (case ev of StdinMessage now msg \<Rightarrow> Some (sn_ID msg) | _ \<Rightarrow> None)"

text \<open>
  The ring belongs to the loop, so its contents may be read with the pending write done: \<open>host_settle\<close>
  is an event and the write it may have left to do.
\<close>

definition host_settle :: "host_event \<Rightarrow> pty_host \<Rightarrow> pty_host" where
  "host_settle ev H = stdin_write (host_step ev H)"

definition run_settle :: "host_event list \<Rightarrow> pty_host \<Rightarrow> pty_host" where
  "run_settle evs H = fold host_settle evs H"

lemma stdin_write_idem [simp]: "stdin_write (stdin_write H) = stdin_write H"
  by (simp add: stdin_write_def split: option.split)

lemma settle_request: "stdin_write (handleLeaseMessage now msg H) = handleLeaseMessage now msg (stdin_write H)"
proof (cases "ph_passed H")
  case (Some m)
  then have "stdin_write (handleLeaseMessage now msg H) = (handleLeaseMessage now msg H)
      \<lparr>ph_written := ph_written H @ [m], ph_seen := ring_add (sn_ID m) (ph_seen H), ph_passed := None\<rparr>"
    using handleLeaseMessage_stdin(1) [of now msg H]
    by (simp add: stdin_write_def destined_def)
  also have "\<dots> = handleLeaseMessage now msg (stdin_write H)"
    by (cases "sm_Payload msg") (simp_all add: Some handleLeaseMessage_def publishLeaseState_def stdin_write_def Let_def)
  finally show ?thesis .
qed (simp add: stdin_write_def)

lemma settle_expiry: "stdin_write (handleExpiry now H) = handleExpiry now (stdin_write H)"
proof (cases "ph_passed H")
  case (Some m)
  then have "stdin_write (handleExpiry now H) = (handleExpiry now H)
      \<lparr>ph_written := ph_written H @ [m], ph_seen := ring_add (sn_ID m) (ph_seen H), ph_passed := None\<rparr>"
    using handleExpiry_stdin(1) [of now H]
    by (simp add: stdin_write_def destined_def)
  also have "\<dots> = handleExpiry now (stdin_write H)"
    by (simp add: Some handleExpiry_def publishLeaseState_def stdin_write_def Let_def split: prod.split)
  finally show ?thesis .
qed (simp add: stdin_write_def)

lemma settle_step: "stdin_write (host_step ev H) = host_settle ev (stdin_write H)"
  by (cases ev) (simp_all add: host_settle_def settle_request settle_expiry)

lemma settle_run: "stdin_write (run_host evs H) = run_settle evs (stdin_write H)"
  unfolding run_host_def run_settle_def
  by (induction evs arbitrary: H) (simp_all add: settle_step)

lemma host_settle_ring:
  assumes "ph_passed H = None"
  shows "ph_passed (host_settle ev H) = None" "ph_seen (host_settle ev H) = (case input_id ev of None \<Rightarrow> ph_seen H
     | Some i \<Rightarrow> if ring_has (ph_seen H) i then ph_seen H else ring_add i (ph_seen H))"
proof -
  have "stdin_write H = H" using assms by (simp add: stdin_write_def)
  moreover have "ph_seen (stdin_write K) = ph_seen K" if "ph_passed K = None" for K
    using that by (simp add: stdin_write_def)
  ultimately show "ph_seen (host_settle ev H) = (case input_id ev of None \<Rightarrow> ph_seen H
     | Some i \<Rightarrow> if ring_has (ph_seen H) i then ph_seen H else ring_add i (ph_seen H))"
    using assms by (cases ev) (simp_all add: host_settle_def input_id_def stdin_check_def stdin_write_def Let_def)
qed (simp add: host_settle_def)

lemma run_settle_ring_ok:
  assumes "ph_passed H = None" "ring_ok (ph_seen H)" "\<forall>ev \<in> set evs. input_id ev \<noteq> Some ''''"
  shows "ph_passed (run_settle evs H) = None \<and> ring_ok (ph_seen (run_settle evs H))
    \<and> rg_cap (ph_seen (run_settle evs H)) = rg_cap (ph_seen H)"
  using assms unfolding run_settle_def
proof (induction evs arbitrary: H)
  case (Cons ev evs)
  have "ring_ok (ph_seen (host_settle ev H)) \<and> rg_cap (ph_seen (host_settle ev H)) = rg_cap (ph_seen H)"
    using Cons.prems ring_add_queue(2) [of "ph_seen H"]
    by (auto simp: host_settle_ring ring_has_def ring_add_def Let_def split: option.split)
  with Cons.IH [of "host_settle ev H"] Cons.prems show ?case by (simp add: host_settle_ring)
qed simp

lemma remembered:
  assumes "ph_passed H = None" "ring_ok (ph_seen H)" "ring_queue (ph_seen H) ! (rg_cap (ph_seen H) - 1 - k) = i" "i \<noteq> ''''"
    and "\<forall>ev \<in> set evs. input_id ev \<noteq> Some ''''" "k + length (filter (\<lambda>ev. input_id ev \<noteq> None) evs) < rg_cap (ph_seen H)"
  shows "ring_has (ph_seen (run_settle evs H)) i"
  using assms unfolding run_settle_def
proof (induction evs arbitrary: H k)
  case Nil
  have "rg_cap (ph_seen H) - 1 - k < length (ring_queue (ph_seen H))"
    using Nil.prems(2,6) by (simp add: ring_ok_def ring_queue_def)
  then have "i \<in> set (ring_queue (ph_seen H))" using Nil.prems(3) nth_mem by fastforce
  with Nil.prems(2,4) show ?case by (simp add: ring_has_def ring_ok_def)
next
  case (Cons ev evs)
  note settle = host_settle_ring [OF Cons.prems(1), of ev]
  show ?case
  proof (cases "ph_seen (host_settle ev H) = ph_seen H")
    case True
    with Cons.IH [of "host_settle ev H" k] Cons.prems settle(1) show ?thesis by (simp split: if_splits)
  next
    case False
    then obtain j where j: "input_id ev = Some j" "\<not> ring_has (ph_seen H) j"
      "ph_seen (host_settle ev H) = ring_add j (ph_seen H)"
      by (auto simp: settle(2) split: option.splits if_splits)
    with Cons.prems(5) have "j \<noteq> ''''" by auto
    note add = ring_add_queue [OF Cons.prems(2) j(2) [unfolded ring_has_def] this]
    have cap: "rg_cap (ring_add j (ph_seen H)) = rg_cap (ph_seen H)" by (simp add: ring_add_def Let_def)
    have len: "length (ring_queue (ph_seen H)) = rg_cap (ph_seen H)"
      using Cons.prems(2) by (simp add: ring_ok_def ring_queue_def)
    have "Suc k < rg_cap (ph_seen H)" using Cons.prems(6) j(1) by simp
    moreover from this have "rg_cap (ph_seen H) - Suc (Suc k) < rg_cap (ph_seen H) - Suc 0"
      "Suc (rg_cap (ph_seen H) - Suc (Suc k)) = rg_cap (ph_seen H) - Suc k" by simp_all
    ultimately have "ring_queue (ring_add j (ph_seen H)) ! (rg_cap (ph_seen H) - 1 - Suc k) = i"
      using Cons.prems(3) len by (simp add: add(1) nth_append nth_tl)
    with Cons.IH [of "host_settle ev H" "Suc k"] Cons.prems add(2) j cap settle(1) show ?thesis by simp
  qed
qed

lemma ring_ids:
  assumes "ph_passed H = None"
  shows "rg_set (ph_seen (run_settle evs H)) \<subseteq> rg_set (ph_seen H) \<union> {i. \<exists>ev \<in> set evs. input_id ev = Some i}"
  using assms unfolding run_settle_def
proof (induction evs arbitrary: H)
  case (Cons ev evs)
  have "rg_set (ph_seen (host_settle ev H)) \<subseteq> rg_set (ph_seen H) \<union> {i. input_id ev = Some i}"
    by (auto simp: host_settle_ring [OF Cons.prems] ring_add_def Let_def split: option.splits if_splits)
  with Cons.IH [of "host_settle ev H"] host_settle_ring(1) [OF Cons.prems] show ?case by auto
qed simp

lemma run_settle_append: "run_settle (xs @ ys) H = run_settle ys (run_settle xs H)"
  by (simp add: run_settle_def)

text \<open>C13: Redelivered input reaches the program once. In a share whose messages all have an id, let a
  message arrive whose id was not seen before. After fewer than 1024 further messages of input, with
  requests, timer ticks and the writes to the pseudo terminal in between, a message with that id
  changes nothing: it is not written again, nor written late if it was dropped because another held
  the lease then. (A message whose check was passed before is still written, as it is without the
  redelivery.)\<close>
theorem redelivery_suppressed:
  assumes "\<forall>ev \<in> set (before @ StdinMessage now msg # between). input_id ev \<noteq> Some ''''"
    and "\<forall>ev \<in> set before. input_id ev \<noteq> Some (sn_ID msg)"
    and "length (filter (\<lambda>ev. input_id ev \<noteq> None) between) < 1024"
    and "sn_ID again = sn_ID msg"
  shows "forwardStdin later again (run_host (before @ StdinMessage now msg # between) new_host)
    = stdin_write (run_host (before @ StdinMessage now msg # between) new_host)"
proof -
  let ?i = "sn_ID msg"
  define H where "H = run_settle before new_host"
  have new: "ring_ok (ph_seen new_host)" "rg_cap (ph_seen new_host) = 1024" "rg_set (ph_seen new_host) = {}"
    "ph_passed new_host = None" "stdin_write new_host = new_host"
    by (simp_all add: new_host_def new_ring_ok stdin_write_def) (simp_all add: newSeenIDRing_def)
  have ok: "ph_passed H = None" "ring_ok (ph_seen H)" "rg_cap (ph_seen H) = 1024"
    using run_settle_ring_ok [of new_host before] new assms(1) by (auto simp: H_def)
  have fresh: "?i \<notin> rg_set (ph_seen H)" and id: "?i \<noteq> ''''"
    using ring_ids [of new_host before] new(3,4) assms(1,2) by (auto simp: H_def input_id_def)
  define H' where "H' = host_settle (StdinMessage now msg) H"
  have seen: "ph_seen H' = ring_add ?i (ph_seen H)" "ph_passed H' = None"
    using host_settle_ring [OF ok(1), of "StdinMessage now msg"] fresh by (simp_all add: H'_def input_id_def ring_has_def)
  note add = ring_add_queue [OF ok(2) fresh id]
  have cap: "rg_cap (ph_seen H') = 1024" using ok(3) by (simp add: seen ring_add_def Let_def)
  have "length (tl (ring_queue (ph_seen H))) = 1023" using ok by (simp add: ring_ok_def ring_queue_def)
  then have "ring_queue (ph_seen H') ! (rg_cap (ph_seen H') - 1 - 0) = ?i"
    by (simp add: seen add(1) cap [unfolded seen] nth_append)
  then have has: "ring_has (ph_seen (run_settle between H')) ?i"
    using remembered [of H' 0 ?i between] add(2) id assms(1,3) cap seen by simp
  have "stdin_write (run_host (before @ StdinMessage now msg # between) new_host) = run_settle between H'"
    unfolding settle_run new(5) by (simp add: run_settle_append H_def H'_def run_settle_def)
  then show ?thesis
    using assms(4) has by (simp add: forwardStdin_def stdin_check_def) (metis stdin_write_idem)
qed

theorem redelivery_suppressed_witness:
  "let H = run_host ([] @ StdinMessage 1 (ex_keys ''m1'' ''ada'') # [StdinMessage 2 (ex_keys ''m2'' ''ada''), PtyWrite]) new_host
   in ph_written (forwardStdin 3 (ex_keys ''m1'' ''ada'') H) = [ex_keys ''m1'' ''ada'', ex_keys ''m2'' ''ada'']"
  unfolding Let_def
  by (subst redelivery_suppressed)
    (simp_all add: input_id_def destined_def host_run_simps del: stdin_write_simps)

section \<open>The browser's controller\<close>

fun chunks :: "bytes \<Rightarrow> nat \<Rightarrow> bytes list" where
  "chunks b 0 = []"
| "chunks b (Suc m) = (if b = [] then [] else take guiInputChunk b # chunks (drop guiInputChunk b) m)"

lemma chunks_facts:
  "length b \<le> m \<Longrightarrow> concat (chunks b m) = b \<and> (\<forall>x \<in> set (chunks b m). 0 < length x \<and> length x \<le> guiInputChunk)"
proof (induction b m rule: chunks.induct)
  case (2 b m)
  have pos: "0 < guiInputChunk" by (simp add: guiInputChunk_def)
  show ?case
  proof (cases "b = []")
    case False
    then have "length (drop guiInputChunk b) \<le> m" using 2(2) pos by (cases b) (auto simp del: length_greater_0_conv)
    with 2(1) False pos show ?thesis by simp
  qed simp
qed simp

lemma first_chunk: "b \<noteq> [] \<Longrightarrow> take guiInputChunk b \<in> set (chunks b (length b))"
  by (cases b) simp_all

lemma send_chunk_sent:
  "send_chunk None b c = (drop guiInputChunk b, c\<lparr>wc_published := wc_published c @ [(''stdin'', Keys (take guiInputChunk b))]\<rparr>)"
  by (simp add: send_chunk_def web_publish_def)

lemma input_loop_chunks:
  "length b \<le> m \<Longrightarrow> input_loop (\<lambda>k. None) k b c =
     c\<lparr>wc_published := wc_published c @ map (\<lambda>x. (''stdin'', Keys x)) (chunks b m)\<rparr>"
proof (induction b m arbitrary: k c rule: chunks.induct)
  case (2 b m)
  have "length (drop guiInputChunk b) \<le> m" if "b \<noteq> []"
    using that 2(2) by (cases b) (simp_all add: guiInputChunk_def)
  with 2(1) show ?case by (subst input_loop.simps) (simp add: send_chunk_sent)
qed (simp add: input_loop.simps)

text \<open>\<open>input_loop\<close> is the reader left alone: as many steps as there are chunks, and the end of the loop.\<close>

lemma reader_runs_input_loop:
  assumes "length b \<le> m" "wc_reader c = AtRead"
  shows "fold (\<lambda>d. reader_goes d nonce verdict) (replicate (Suc (length (chunks b m))) None) (at_reader (Sending b) c)
    = input_loop (\<lambda>k. None) k b c"
  using assms
proof (induction b m arbitrary: k c rule: chunks.induct)
  case (2 b m)
  show ?case
  proof (cases "b = []")
    case False
    with 2(2) have "length (drop guiInputChunk b) \<le> m" by (cases b) (simp_all add: guiInputChunk_def)
    let ?c = "c\<lparr>wc_published := wc_published c @ [(''stdin'', Keys (take guiInputChunk b))]\<rparr>"
    have "input_loop (\<lambda>k. None) k b c = input_loop (\<lambda>k. None) (Suc k) (drop guiInputChunk b) ?c"
      using False by (subst input_loop.simps) (simp add: send_chunk_sent)
    with 2(1) [OF False \<open>length (drop guiInputChunk b) \<le> m\<close>, of ?c "Suc k"] 2(3)
    have "fold (\<lambda>d. reader_goes d nonce verdict) (replicate (Suc (length (chunks (drop guiInputChunk b) m))) None)
        (at_reader (Sending (drop guiInputChunk b)) ?c) = input_loop (\<lambda>k. None) k b c"
      by simp
    moreover have "replicate (Suc (length (chunks b (Suc m)))) (None :: string option) = None # replicate (Suc (length (chunks (drop guiInputChunk b) m))) None"
      using False by simp
    moreover have "reader_goes None nonce verdict (at_reader (Sending b) c) = at_reader (Sending (drop guiInputChunk b)) ?c"
      using False by (simp add: reader_goes_def at_reader_def send_chunk_sent)
    ultimately show ?thesis by (simp only: fold_simps)
  qed (use 2(3) in \<open>simp add: reader_goes_def at_reader_def input_loop.simps\<close>)
qed (simp add: reader_goes_def at_reader_def input_loop.simps)

lemma utf8_replicate: "utf8 (replicate k 0x61)"
proof (induction k)
  case (Suc k)
  have "is_rune [0x61]" by simp
  from utf8_rune [OF this Suc] show ?case by simp
qed auto


lemma cut_not_utf8: "\<not> utf8 (replicate k 0x61 @ [0xC3])"
proof
  assume "utf8 (replicate k 0x61 @ [0xC3])"
  then have "utf8 [0xC3]" using utf8_sandwich [OF utf8_replicate] by blast
  then show False
  proof (cases rule: utf8.cases)
    case (utf8_rune r s)
    then have "r = [] \<or> r = [0xC3]" by (auto simp: Cons_eq_append_conv)
    with utf8_rune show False by auto
  qed
qed

text \<open>A browser's keystrokes are forwarded whole and in order, in messages of at most 4096 bytes; but the
  cut ignores character boundaries: there is well-formed input of which a message is not well-formed
  text, so that its JSON encoding replaces the halves of the character by \<open>U+FFFD\<close>.\<close>
theorem web_input_splits_characters:
  "(\<exists>xs. wc_published (web_input (\<lambda>k. None) b (c\<lparr>wc_holding := True\<rparr>)) = wc_published c @ map (\<lambda>x. (''stdin'', Keys x)) xs
      \<and> concat xs = b \<and> list_all (\<lambda>x. 0 < length x \<and> length x \<le> 4096) xs)
   \<and> (\<exists>t x. utf8 t \<and> \<not> utf8 x \<and> (''stdin'', Keys x) \<in>
        set (wc_published (web_input (\<lambda>k. None) t ((newTerminalController handle username)\<lparr>wc_holding := True\<rparr>))))"
proof (intro conjI exI)
  let ?xs = "chunks b (length b)"
  show "wc_published (web_input (\<lambda>k. None) b (c\<lparr>wc_holding := True\<rparr>)) = wc_published c @ map (\<lambda>x. (''stdin'', Keys x)) ?xs"
    by (simp add: web_input_def input_loop_chunks [of b "length b"])
  show "concat ?xs = b" "list_all (\<lambda>x. 0 < length x \<and> length x \<le> 4096) ?xs"
    using chunks_facts [of b "length b"] by (auto simp: guiInputChunk_def list_all_iff)
  let ?t = "replicate 4095 0x61 @ [0xC3, 0xA9] :: bytes"
  have "is_rune [0xC3, 0xA9]" by (simp add: cont_byte_def)
  from utf8_snoc [OF utf8_replicate this] show "utf8 ?t" .
  show "\<not> utf8 (replicate 4095 0x61 @ [0xC3])" by (rule cut_not_utf8)
  have "take guiInputChunk ?t = replicate 4095 0x61 @ [0xC3]"
    by (simp add: guiInputChunk_def)
  moreover have "take guiInputChunk ?t \<in> set (chunks ?t (length ?t))" by (rule first_chunk) simp
  ultimately have "replicate 4095 0x61 @ [0xC3] \<in> set (chunks ?t (length ?t))" by (rule subst)
  then show "(''stdin'', Keys (replicate 4095 0x61 @ [0xC3])) \<in>
      set (wc_published (web_input (\<lambda>k. None) ?t ((newTerminalController handle username)\<lparr>wc_holding := True\<rparr>)))"
    unfolding web_input_def input_loop_chunks [OF order_refl] by (simp del: length_append length_replicate)
qed

text \<open>
  While write is refused no \<open>take\<close> gets past its check, so a controller that does not hold the lease
  and has no \<open>take\<close> under way does not get it, and only the frame that was being sent goes on.
\<close>

definition taking :: "web_ctl \<Rightarrow> bool" where
  "taking c \<longleftrightarrow> (case wc_reader c of MayTake \<Rightarrow> True | Registered n \<Rightarrow> True | Waiting n \<Rightarrow> True | Granted \<Rightarrow> True | _ \<Rightarrow> False)"

definition being_sent :: "web_ctl \<Rightarrow> bytes" where
  "being_sent c = (case wc_reader c of Sending b \<Rightarrow> b | _ \<Rightarrow> [])"

text \<open>What was published on stdin, of a list of published messages.\<close>

fun stdin_bytes :: "(string \<times> web_payload) list \<Rightarrow> bytes" where
  "stdin_bytes [] = []"
| "stdin_bytes ((pipe, w) # ps) =
     (case w of Keys b \<Rightarrow> if pipe = ''stdin'' then b @ stdin_bytes ps else stdin_bytes ps | _ \<Rightarrow> stdin_bytes ps)"

lemma stdin_bytes_append: "stdin_bytes (ps @ qs) = stdin_bytes ps @ stdin_bytes qs"
  by (induction ps rule: stdin_bytes.induct) (auto split: web_payload.split)

definition sends_rest :: "bytes \<Rightarrow> (string \<times> web_payload) list \<Rightarrow> web_ctl \<Rightarrow> bool" where
  "sends_rest b ps c \<longleftrightarrow>
     (\<exists>qs. wc_published c = ps @ qs \<and> (\<forall>p \<in> set qs. fst p = ''stdin'' \<longrightarrow> (\<exists>x. snd p = Keys x)) \<and>
       (\<exists>rest. b = stdin_bytes qs @ rest \<and> (being_sent c = [] \<or> being_sent c = rest)))"

lemmas web_ops = handleFrame_def take_check_def acquire_register_def acquire_publish_def take_verdict_def take_section_def
  release_section_def close_section_def stopRenewLocked_def renew_check_def renew_goes_def publishLease_def onLeaseState_def
  setsize_check_def setsize_publish_def web_publish_def sendError_def at_reader_def at_loop_def lease_request_def

text \<open>A step that publishes nothing, or one message that is not for stdin, and leaves the frame being sent.\<close>

lemma sends_rest_quiet:
  assumes "sends_rest b ps c" "being_sent c' = [] \<or> being_sent c' = being_sent c"
    and "wc_published c' = wc_published c \<or> (\<exists>p w. wc_published c' = wc_published c @ [(p, w)] \<and> p \<noteq> ''stdin'')"
  shows "sends_rest b ps c'"
proof -
  from assms(1) obtain qs rest where qs: "wc_published c = ps @ qs" "\<forall>p \<in> set qs. fst p = ''stdin'' \<longrightarrow> (\<exists>x. snd p = Keys x)"
    "b = stdin_bytes qs @ rest" "being_sent c = [] \<or> being_sent c = rest"
    by (auto simp: sends_rest_def)
  from assms(3) show ?thesis
  proof
    assume "wc_published c' = wc_published c"
    with qs assms(2) show ?thesis unfolding sends_rest_def by (metis append_Nil2)
  next
    assume "\<exists>p w. wc_published c' = wc_published c @ [(p, w)] \<and> p \<noteq> ''stdin''"
    then obtain p w where pw: "wc_published c' = ps @ qs @ [(p, w)]" "p \<noteq> ''stdin''" using qs(1) by auto
    then have "stdin_bytes (qs @ [(p, w)]) = stdin_bytes qs"
      by (simp add: stdin_bytes_append split: web_payload.split)
    with pw qs assms(2) show ?thesis
      unfolding sends_rest_def
      by (intro exI [of _ "qs @ [(p, w)]"] conjI exI [of _ rest]) auto
  qed
qed

lemma sends_rest_chunk:
  assumes "sends_rest b ps c" "wc_reader c = Sending x" "x \<noteq> []"
  shows "sends_rest b ps (reader_goes deliver nonce verdict c)"
proof -
  from assms obtain qs where qs: "wc_published c = ps @ qs" "\<forall>p \<in> set qs. fst p = ''stdin'' \<longrightarrow> (\<exists>x. snd p = Keys x)"
    "b = stdin_bytes qs @ x"
    by (auto simp: sends_rest_def being_sent_def)
  show ?thesis
  proof (cases deliver)
    case None
    with assms(2,3) have "reader_goes deliver nonce verdict c
      = c\<lparr>wc_published := wc_published c @ [(''stdin'', Keys (take guiInputChunk x))], wc_reader := Sending (drop guiInputChunk x)\<rparr>"
      by (simp add: reader_goes_def send_chunk_sent at_reader_def)
    with qs show ?thesis
      unfolding sends_rest_def
      by (intro exI [of _ "qs @ [(''stdin'', Keys (take guiInputChunk x))]"] conjI exI [of _ "drop guiInputChunk x"])
        (auto simp: stdin_bytes_append being_sent_def)
  next
    case (Some e)
    with assms(2,3) have "being_sent (reader_goes deliver nonce verdict c) = []"
      "wc_published (reader_goes deliver nonce verdict c) = wc_published c"
      by (simp_all add: reader_goes_def send_chunk_def web_publish_def at_reader_def sendError_def being_sent_def Let_def)
    with sends_rest_quiet [OF assms(1)] show ?thesis by simp
  qed
qed

lemma stopRenewLocked_keeps [simp]:
  "wc_holding (stopRenewLocked c) = wc_holding c" "wc_reader (stopRenewLocked c) = wc_reader c"
  "wc_published (stopRenewLocked c) = wc_published c"
  by (simp_all add: stopRenewLocked_def split: option.split)

lemma at_loop_keeps [simp]:
  "wc_holding (at_loop i r c) = wc_holding c" "wc_reader (at_loop i r c) = wc_reader c"
  "wc_published (at_loop i r c) = wc_published c"
  by (simp_all add: at_loop_def)

lemma at_reader_keeps [simp]:
  "wc_holding (at_reader r c) = wc_holding c" "wc_reader (at_reader r c) = r" "wc_published (at_reader r c) = wc_published c"
  by (simp_all add: at_reader_def)

lemma sendError_keeps [simp]:
  "wc_holding (sendError m c) = wc_holding c" "wc_reader (sendError m c) = wc_reader c"
  "wc_published (sendError m c) = wc_published c"
  by (simp_all add: sendError_def)

text \<open>At most one message, and not for stdin.\<close>

definition publishes_other :: "web_ctl \<Rightarrow> web_ctl \<Rightarrow> bool" where
  "publishes_other c c' \<longleftrightarrow>
     wc_published c' = wc_published c \<or> (\<exists>p w. wc_published c' = wc_published c @ [(p, w)] \<and> p \<noteq> ''stdin'')"

lemma publishLease_keeps [simp]:
  "wc_holding (publishLease deliver typ nonce c) = wc_holding c" "wc_reader (publishLease deliver typ nonce c) = wc_reader c"
  "publishes_other c (publishLease deliver typ nonce c)"
  by (simp_all add: publishLease_def web_publish_def publishes_other_def split: option.split)

lemma setsize_publish_keeps [simp]:
  "wc_holding (setsize_publish deliver cols rows c) = wc_holding c" "wc_reader (setsize_publish deliver cols rows c) = AtRead"
  "publishes_other c (setsize_publish deliver cols rows c)"
  by (simp_all add: setsize_publish_def web_publish_def publishes_other_def split: option.split)

lemma publishes_other_same [simp]: "wc_published c' = wc_published c \<Longrightarrow> publishes_other c c'"
  by (simp add: publishes_other_def)

lemma publishes_other_eq:
  "publishes_other c d \<Longrightarrow> wc_published c = wc_published b \<Longrightarrow> wc_published e = wc_published d \<Longrightarrow> publishes_other b e"
  by (simp add: publishes_other_def)

text \<open>A step that leaves the lease unheld, the reader where it was or at no \<open>take\<close>, and stdin alone.\<close>

definition harmless :: "web_ctl \<Rightarrow> web_ctl \<Rightarrow> bool" where
  "harmless c c' \<longleftrightarrow> (\<not> wc_holding c \<longrightarrow> \<not> wc_holding c') \<and> publishes_other c c' \<and>
     (wc_reader c' = wc_reader c \<or> wc_reader c' = AtRead \<or> wc_reader c' = Leaving \<or> (\<exists>x y. wc_reader c' = Resizing x y))"

lemma harmlessI:
  assumes "wc_holding c' \<longrightarrow> wc_holding c" "publishes_other c c'"
    and "wc_reader c' = wc_reader c \<or> wc_reader c' = AtRead \<or> wc_reader c' = Leaving \<or> (\<exists>x y. wc_reader c' = Resizing x y)"
  shows "harmless c c'"
  using assms by (auto simp: harmless_def)

lemma harmless_frame: "wc_reader c = AtRead \<Longrightarrow> \<not> wc_holding c \<Longrightarrow> harmless c (handleFrame False R f c)"
  by (rule harmlessI)
    (simp_all add: handleFrame_def take_check_def release_section_def setsize_check_def split: browser_frame.split option.split prod.split)

lemma harmless_state: "harmless c (onLeaseState m c)"
  by (rule harmlessI) (simp_all add: onLeaseState_def Let_def)

lemma harmless_check: "harmless c (renew_check may_write i c)"
  by (rule harmlessI) (simp_all add: renew_check_def)

lemma harmless_loop: "harmless c (renew_goes deliver nonce i c)"
proof (rule harmlessI)
  show "publishes_other c (renew_goes deliver nonce i c)"
    by (simp add: renew_goes_def release_section_def split: renewer_at.split)
      (auto intro: publishes_other_eq [OF publishLease_keeps(3)])
qed (simp_all add: renew_goes_def release_section_def split: renewer_at.splits)

lemma harmless_close: "harmless c (close_section c)"
  by (rule harmlessI) (simp_all add: close_section_def release_section_def)

lemma harmless_closed: "harmless c (publishLease deliver typ nonce (c\<lparr>wc_closer := r\<rparr>))"
  by (rule harmlessI) (simp_all, simp add: publishLease_def web_publish_def publishes_other_def split: option.split)

lemma harmless_reader:
  assumes "\<not> taking c" "\<And>x. wc_reader c = Sending x \<Longrightarrow> x = []"
  shows "harmless c (reader_goes deliver nonce verdict c)"
proof (cases "wc_reader c")
  case Leaving
  then show ?thesis
    by (intro harmlessI) (auto simp: reader_goes_def intro: publishes_other_eq [OF publishLease_keeps(3)])
next
  case (Resizing x y)
  then show ?thesis by (intro harmlessI) (simp_all add: reader_goes_def)
qed (use assms in \<open>auto simp: taking_def reader_goes_def intro!: harmlessI\<close>)

text \<open>The state after a step with write refused.\<close>

definition denied :: "bytes \<Rightarrow> (string \<times> web_payload) list \<Rightarrow> web_ctl \<Rightarrow> bool" where
  "denied b ps c \<longleftrightarrow> \<not> wc_holding c \<and> \<not> taking c \<and> sends_rest b ps c"

lemma denied_harmless:
  assumes "denied b ps c" "harmless c c'"
  shows "denied b ps c'"
proof -
  have "being_sent c' = [] \<or> being_sent c' = being_sent c"
    using assms(2) by (auto simp: harmless_def being_sent_def)
  moreover have "\<not> taking c'" using assms by (auto simp: harmless_def taking_def denied_def)
  ultimately show ?thesis
    using assms sends_rest_quiet [of b ps c c'] by (auto simp: denied_def harmless_def publishes_other_def)
qed

lemma denied_chunk:
  assumes "denied b ps c" "wc_reader c = Sending x" "x \<noteq> []"
  shows "denied b ps (reader_goes deliver nonce verdict c)"
proof -
  have "sends_rest b ps (reader_goes deliver nonce verdict c)"
    using assms by (intro sends_rest_chunk) (simp_all add: denied_def)
  moreover have "\<not> wc_holding (reader_goes deliver nonce verdict c) \<and> \<not> taking (reader_goes deliver nonce verdict c)"
    using assms by (cases deliver)
      (simp_all add: reader_goes_def send_chunk_sent send_chunk_def web_publish_def denied_def taking_def)
  ultimately show ?thesis by (simp add: denied_def)
qed

lemma web_step_denied:
  assumes "web_step False c c'" "denied b ps c"
  shows "denied b ps c'"
  using assms
proof (induction False c c' rule: web_step.induct)
  case (ws_frame c may_write R f)
  then have "harmless c (handleFrame may_write R f c)"
    by (cases may_write) (auto intro: harmless_frame simp: denied_def)
  with ws_frame(3) show ?case by (rule denied_harmless)
next
  case (ws_reader c verdict deliver nonce)
  show ?case
  proof (cases "\<exists>x. wc_reader c = Sending x \<and> x \<noteq> []")
    case True
    with ws_reader(2) show ?thesis by (auto intro: denied_chunk)
  next
    case False
    with ws_reader(2) have "harmless c (reader_goes deliver nonce verdict c)"
      by (intro harmless_reader) (auto simp: denied_def)
    with ws_reader(2) show ?thesis by (rule denied_harmless)
  qed
next
  case (ws_stopped i c)
  have "harmless c (at_loop i Ended c)" by (rule harmlessI) simp_all
  with ws_stopped(3) show ?case by (rule denied_harmless)
qed (auto intro: denied_harmless harmless_state harmless_check harmless_loop harmless_close harmless_closed)

lemma web_denied_run: "(web_step False)\<^sup>*\<^sup>* c c' \<Longrightarrow> denied b ps c \<Longrightarrow> denied b ps c'"
  by (induction rule: rtranclp_induct) (auto dest: web_step_denied)

text \<open>No \<open>take\<close> starts while write is refused.\<close>

lemma harmless_not_taking: "harmless c c' \<Longrightarrow> \<not> taking c \<Longrightarrow> \<not> taking c'"
  by (auto simp: harmless_def taking_def)

lemma web_step_not_taking: "web_step False c c' \<Longrightarrow> \<not> taking c \<Longrightarrow> \<not> taking c'"
proof (induction False c c' rule: web_step.induct)
  case (ws_frame c may_write R f)
  then have "\<not> may_write" by blast
  with ws_frame(1,3) show ?case
    by (auto simp: handleFrame_def take_check_def release_section_def setsize_check_def taking_def
        split: browser_frame.splits option.splits prod.splits)
next
  case (ws_reader c verdict deliver nonce)
  show ?case
  proof (cases "\<exists>x. wc_reader c = Sending x \<and> x \<noteq> []")
    case True
    then show ?thesis by (cases deliver)
      (auto simp add: reader_goes_def send_chunk_def web_publish_def taking_def Let_def)
  next
    case False
    with ws_reader(2) have "harmless c (reader_goes deliver nonce verdict c)" by (intro harmless_reader) auto
    with ws_reader(2) show ?thesis by (rule harmless_not_taking [rotated])
  qed
next
  case (ws_stopped i c)
  then show ?case by (simp add: taking_def)
qed (auto dest: harmless_not_taking [OF harmless_state] harmless_not_taking [OF harmless_check]
    harmless_not_taking [OF harmless_loop] harmless_not_taking [OF harmless_close] harmless_not_taking [OF harmless_closed])

lemma web_run_not_taking: "(web_step False)\<^sup>*\<^sup>* c c' \<Longrightarrow> \<not> taking c \<Longrightarrow> \<not> taking c'"
  by (induction rule: rtranclp_induct) (auto dest: web_step_not_taking)


definition ex_ctl :: web_ctl where
  "ex_ctl = take_section (take_verdict ''n1'' (Some ''ada@web'') (onLeaseState \<lparr>lr_Holder = ''ada@web'', lr_Until = 0, lr_ReplyNonce = ''n1''\<rparr>
     (acquire_publish None ''n1'' (acquire_register ''n1'' (take_check True (newTerminalController ''web'' ''ada''))))))"

lemma web_then:
  "(\<lambda>a b. \<exists>W. web_step W a b)\<^sup>*\<^sup>* a b \<Longrightarrow> web_step W b c \<Longrightarrow> (\<lambda>a b. \<exists>W. web_step W a b)\<^sup>*\<^sup>* a c"
  by (rule rtranclp.rtrancl_into_rtrancl) blast+

lemma ex_ctl_reached: "(\<lambda>a b. \<exists>W. web_step W a b)\<^sup>*\<^sup>* (newTerminalController ''web'' ''ada'') ex_ctl"
proof -
  let ?c0 = "newTerminalController ''web'' ''ada''"
  let ?c1 = "take_check True ?c0"
  let ?c2 = "acquire_register ''n1'' ?c1"
  let ?c3 = "acquire_publish None ''n1'' ?c2"
  let ?c4 = "onLeaseState \<lparr>lr_Holder = ''ada@web'', lr_Until = 0, lr_ReplyNonce = ''n1''\<rparr> ?c3"
  let ?c5 = "take_verdict ''n1'' (Some ''ada@web'') ?c4"
  have at: "wc_reader ?c0 = AtRead" "wc_reader ?c1 = MayTake" "wc_reader ?c2 = Registered ''n1''" "wc_reader ?c3 = Waiting ''n1''"
    "wc_reader ?c4 = Waiting ''n1''" "wc_answers ?c4 ''n1'' = Some ''ada@web''" "wc_reader ?c5 = Granted"
    by (simp_all add: web_ops newTerminalController_def)
  have "web_step True ?c0 (handleFrame True True (TextFrame (Some (''take'', 0, 0))) ?c0)"
    by (rule ws_frame) (simp_all add: at)
  then have s1: "web_step True ?c0 ?c1" by (simp add: handleFrame_def)
  from ws_reader [of ?c1 None True None "''n1''"] have s2: "web_step True ?c1 ?c2" by (simp add: at reader_goes_def)
  from ws_reader [of ?c2 None True None "''n1''"] have s3: "web_step True ?c2 ?c3" by (simp add: at reader_goes_def)
  have s4: "web_step True ?c3 ?c4" by (rule ws_state)
  have s5: "web_step True ?c4 ?c5"
  proof -
    have "web_step True ?c4 (reader_goes None ''n1'' (Some ''ada@web'') ?c4)"
      by (rule ws_reader) (use at(5,6) in force)
    then show ?thesis unfolding reader_goes_def at(5) by simp
  qed
  from ws_reader [of ?c5 None True None "''n1''"] have s6: "web_step True ?c5 ex_ctl" by (simp add: at reader_goes_def ex_ctl_def)
  show ?thesis
    by (rule web_then [OF web_then [OF web_then [OF web_then [OF web_then [OF web_then [OF rtranclp.rtrancl_refl s1] s2] s3] s4] s5] s6])
qed

text \<open>A frame of two chunks is being forwarded when the loop finds the access gone and releases.\<close>

definition ex_frame :: bytes where "ex_frame = replicate 4097 0x6c"


end
