(* ===== verification/Invites.thy ===== *)
theory Invites
  imports PipeProps
begin

text \<open>
  Invitations: \<open>internal/db/invites.go\<close> and \<open>internal/server/handlers_invites.go\<close>. Accepting is one
  transaction with the row locked; declining and revoking read the row and then update it under the
  condition that it is still pending, so other requests can run between the two statements. The
  state machine below interleaves them statement by statement.
\<close>

section \<open>invites.go\<close>

definition InviteStatusPending :: string where "InviteStatusPending = ''pending''"
definition InviteStatusAccepted :: string where "InviteStatusAccepted = ''accepted''"
definition InviteStatusDeclined :: string where "InviteStatusDeclined = ''declined''"
definition InviteStatusRevoked :: string where "InviteStatusRevoked = ''revoked''"

lemmas status_defs = InviteStatusPending_def InviteStatusAccepted_def InviteStatusDeclined_def InviteStatusRevoked_def

record invitewithaccount = invite +
  iv_AccountName :: string

datatype invite_site =
    I_Member | I_Pending | I_Insert | I_Begin | I_Read | I_User | I_Update | I_AddMember | I_Commit | I_Get
  | I_Org | I_Caller | I_List

type_synonym invite_faults = "invite_site faults"

definition username_in :: "database \<Rightarrow> uuid \<Rightarrow> string \<Rightarrow> bool" where
  "username_in D u name \<longleftrightarrow> list_ex (\<lambda>r. us_ID r = u \<and> us_Username r = name) (users D)"

definition belongs_by_name :: "database \<Rightarrow> uuid \<Rightarrow> string \<Rightarrow> bool" where
  "belongs_by_name D accountID name \<longleftrightarrow>
     list_ex (\<lambda>a. acct_ID a = accountID \<and> username_in D (acct_OwnerUserID a) name) (accounts D)
     \<or> list_ex (\<lambda>mb. mb_AccountID mb = accountID \<and> username_in D (mb_UserID mb) name) (members D)"

definition has_pending :: "database \<Rightarrow> uuid \<Rightarrow> string \<Rightarrow> bool" where
  "has_pending D accountID name \<longleftrightarrow>
     list_ex (\<lambda>i. iv_AccountID i = accountID \<and> iv_InviteeUsername i = name \<and> iv_Status i = InviteStatusPending) (invites D)"

text \<open>The insert with its constraints: primary key, the partial unique index, the references.\<close>

definition insert_invite_row :: "invite \<Rightarrow> database \<Rightarrow> dberror option \<times> database" where
  "insert_invite_row i D =
     (if iv_ID i \<in> iv_ID ` set (invites D) \<or> has_pending D (iv_AccountID i) (iv_InviteeUsername i)
      then (Some unique_violation, D)
      else if \<not> has_account D (iv_AccountID i) \<or> \<not> has_user D (iv_InviterUserID i) then (Some foreign_key_violation, D)
      else (None, D\<lparr>invites := invites D @ [i]\<rparr>))"

definition CreateInvite ::
  "invite_faults \<Rightarrow> uuid \<Rightarrow> instant \<Rightarrow> uuid \<Rightarrow> string \<Rightarrow> uuid \<Rightarrow> database \<Rightarrow> (dberror + invite) \<times> database"
where
  "CreateInvite flt newID now accountID inviteeUsername inviterUserID D =
     (case query_row (flt I_Member) (if belongs_by_name D accountID inviteeUsername then Some (1 :: int) else None) of
        Inr _ \<Rightarrow> (Inl ErrAlreadyMember, D)
      | Inl e \<Rightarrow>
          if e \<noteq> ErrNoRows then (Inl e, D)
          else
     (case query_row (flt I_Pending) (if has_pending D accountID inviteeUsername then Some (1 :: int) else None) of
        Inr _ \<Rightarrow> (Inl ErrDuplicatePendingInvite, D)
      | Inl e \<Rightarrow>
          if e \<noteq> ErrNoRows then (Inl e, D)
          else
            let ivt = \<lparr>iv_ID = newID, iv_AccountID = accountID, iv_InviteeUsername = inviteeUsername,
                       iv_InviterUserID = inviterUserID, iv_Status = InviteStatusPending, iv_CreatedAt = now,
                       iv_DecidedAt = None\<rparr>
            in case flt I_Insert of
                 Some t \<Rightarrow> (Inl (ErrText t), D)
               | None \<Rightarrow>
                   (case insert_invite_row ivt D of (Some e, D') \<Rightarrow> (Inl e, D') | (None, D') \<Rightarrow> (Inr ivt, D'))))"

definition GetInvite :: "string option \<Rightarrow> uuid \<Rightarrow> database \<Rightarrow> dberror + invite" where
  "GetInvite flt v D = no_rows_not_found (query_row flt (find (\<lambda>i. iv_ID i = v) (invites D)))"

definition ListPendingInvitesForUsername :: "string option \<Rightarrow> string \<Rightarrow> database \<Rightarrow> dberror + invitewithaccount list" where
  "ListPendingInvitesForUsername flt username D =
     query flt
       (concat (map (\<lambda>i. map (\<lambda>a. invite.extend i (invitewithaccount.fields (acct_Name a)))
                              (filter (\<lambda>a. acct_ID a = iv_AccountID i) (accounts D)))
          (sort_key iv_CreatedAt
            (filter (\<lambda>i. iv_InviteeUsername i = username \<and> iv_Status i = InviteStatusPending) (invites D)))))"

definition ListInvitesForOrg :: "string option \<Rightarrow> uuid \<Rightarrow> database \<Rightarrow> dberror + invite list" where
  "ListInvitesForOrg flt accountID D =
     query flt (sort_key (\<lambda>i. - iv_CreatedAt i) (filter (\<lambda>i. iv_AccountID i = accountID) (invites D)))"

definition username_of :: "string option \<Rightarrow> uuid \<Rightarrow> database \<Rightarrow> dberror + string" where
  "username_of flt u D = query_row flt (map_option us_Username (find (\<lambda>r. us_ID r = u) (users D)))"

definition decide_where :: "(invite \<Rightarrow> bool) \<Rightarrow> string \<Rightarrow> instant \<Rightarrow> database \<Rightarrow> database" where
  "decide_where P st now D =
     D\<lparr>invites := map (\<lambda>i. if P i then i\<lparr>iv_Status := st, iv_DecidedAt := Some now\<rparr> else i) (invites D)\<rparr>"

text \<open>Any error before the commit rolls the transaction back.\<close>

definition AcceptInvite ::
  "invite_faults \<Rightarrow> instant \<Rightarrow> uuid \<Rightarrow> uuid \<Rightarrow> database \<Rightarrow> dberror option \<times> database"
where
  "AcceptInvite flt now inviteID acceptingUserID D =
     (case flt I_Begin of Some t \<Rightarrow> (Some (ErrText t), D)
      | None \<Rightarrow>
     (case GetInvite (flt I_Read) inviteID D of
        Inl e \<Rightarrow> (Some e, D)
      | Inr ivt \<Rightarrow>
          if iv_Status ivt \<noteq> InviteStatusPending then (Some ErrInviteNotPending, D)
          else
     (case username_of (flt I_User) acceptingUserID D of
        Inl e \<Rightarrow> (Some e, D)
      | Inr name \<Rightarrow>
          if name \<noteq> iv_InviteeUsername ivt then (Some (ErrText ''forbidden''), D)
          else
     (case flt I_Update of Some t \<Rightarrow> (Some (ErrText t), D)
      | None \<Rightarrow>
          let D1 = decide_where (\<lambda>i. iv_ID i = inviteID) InviteStatusAccepted now D
          in case AddMember (flt I_AddMember) now (iv_AccountID ivt) acceptingUserID D1 of
               (Some e, _) \<Rightarrow> (Some e, D)
             | (None, D2) \<Rightarrow> (case flt I_Commit of Some t \<Rightarrow> (Some (ErrText t), D) | None \<Rightarrow> (None, D2))))))"

text \<open>The first statements of \<open>DeclineInvite\<close> and \<open>RevokeInvite\<close>, and their conditional update.\<close>

definition decline_check :: "invite_faults \<Rightarrow> uuid \<Rightarrow> uuid \<Rightarrow> database \<Rightarrow> dberror option" where
  "decline_check flt inviteID decliningUserID D =
     (case GetInvite (flt I_Read) inviteID D of
        Inl e \<Rightarrow> Some e
      | Inr ivt \<Rightarrow>
          if iv_Status ivt \<noteq> InviteStatusPending then Some ErrInviteNotPending
          else case username_of (flt I_User) decliningUserID D of
                 Inl e \<Rightarrow> Some e
               | Inr name \<Rightarrow> if name \<noteq> iv_InviteeUsername ivt then Some (ErrText ''forbidden'') else None)"

definition revoke_check :: "invite_faults \<Rightarrow> uuid \<Rightarrow> database \<Rightarrow> dberror option" where
  "revoke_check flt inviteID D =
     (case GetInvite (flt I_Read) inviteID D of
        Inl e \<Rightarrow> Some e
      | Inr ivt \<Rightarrow> if iv_Status ivt \<noteq> InviteStatusPending then Some ErrInviteNotPending else None)"

definition decide_pending ::
  "invite_faults \<Rightarrow> string \<Rightarrow> instant \<Rightarrow> uuid \<Rightarrow> database \<Rightarrow> dberror option \<times> database"
where
  "decide_pending flt st now inviteID D =
     (case flt I_Update of Some t \<Rightarrow> (Some (ErrText t), D)
      | None \<Rightarrow>
          let P = (\<lambda>i. iv_ID i = inviteID \<and> iv_Status i = InviteStatusPending)
          in if length (filter P (invites D)) = 0 then (Some ErrInviteNotPending, D)
             else (None, decide_where P st now D))"

definition DeclineInvite ::
  "invite_faults \<Rightarrow> instant \<Rightarrow> uuid \<Rightarrow> uuid \<Rightarrow> database \<Rightarrow> dberror option \<times> database"
where
  "DeclineInvite flt now inviteID decliningUserID D =
     (case decline_check flt inviteID decliningUserID D of
        Some e \<Rightarrow> (Some e, D) | None \<Rightarrow> decide_pending flt InviteStatusDeclined now inviteID D)"

definition RevokeInvite :: "invite_faults \<Rightarrow> instant \<Rightarrow> uuid \<Rightarrow> database \<Rightarrow> dberror option \<times> database" where
  "RevokeInvite flt now inviteID D =
     (case revoke_check flt inviteID D of
        Some e \<Rightarrow> (Some e, D) | None \<Rightarrow> decide_pending flt InviteStatusRevoked now inviteID D)"

section \<open>handlers\_invites.go\<close>

text \<open>
  A bearer caller is the principal of the credential; \<open>parse\<close> is \<open>uuid.Parse\<close>, \<open>fmt\<close> the layout of
  the timestamps. A body is given decoded with its fields trimmed, \<open>Inl\<close> for one that does not parse.
\<close>

record wire_invite =
  wi_ID :: string
  wi_AccountID :: string
  wi_AccountName :: string
  wi_InviteeUsername :: string
  wi_InviterUserID :: string
  wi_Status :: string
  wi_CreatedAt :: string
  wi_DecidedAt :: string

definition inviteToWire :: "(instant \<Rightarrow> string) \<Rightarrow> invite \<Rightarrow> string \<Rightarrow> wire_invite" where
  "inviteToWire fmt ivt accountName =
     \<lparr>wi_ID = iv_ID ivt, wi_AccountID = iv_AccountID ivt, wi_AccountName = accountName,
      wi_InviteeUsername = iv_InviteeUsername ivt, wi_InviterUserID = iv_InviterUserID ivt,
      wi_Status = iv_Status ivt, wi_CreatedAt = fmt (iv_CreatedAt ivt),
      wi_DecidedAt = (case iv_DecidedAt ivt of None \<Rightarrow> '''' | Some t \<Rightarrow> fmt t)\<rparr>"

definition handleAPICreateInvite ::
  "invite_faults \<Rightarrow> (string \<Rightarrow> uuid option) \<Rightarrow> (instant \<Rightarrow> string) \<Rightarrow> uuid \<Rightarrow> instant \<Rightarrow> authed_caller \<Rightarrow> string
   \<Rightarrow> string + string \<Rightarrow> database \<Rightarrow> wire_invite reply \<times> database"
where
  "handleAPICreateInvite flt parse fmt newID now caller slug decoded D =
     (if cl_UserID caller = uuid_nil then (Refused 403 ''authentication required'', D)
      else case decoded of Inl t \<Rightarrow> (Refused 400 t, D)
      | Inr username \<Rightarrow>
          if username = '''' then (Refused 400 ''username is required'', D)
          else
     (case resolveOrg (flt I_Org) parse slug D of
        Inl _ \<Rightarrow> (Refused 404 ''org not found'', D)
      | Inr org \<Rightarrow>
          if acct_OwnerUserID org \<noteq> cl_UserID caller then (Refused 403 ''only the org owner can invite'', D)
          else
     (case GetUser (flt I_Caller) (cl_UserID caller) D of
        Inl e \<Rightarrow> (Refused 500 (dberr_text e), D)
      | Inr callerUser \<Rightarrow>
          if us_Username callerUser = username then (Refused 400 ''cannot invite yourself'', D)
          else
     (case CreateInvite flt newID now (acct_ID org) username (cl_UserID caller) D of
        (Inl e, D') \<Rightarrow>
          (Refused (if e = ErrAlreadyMember \<or> e = ErrDuplicatePendingInvite then 409 else 500) (dberr_text e), D')
      | (Inr ivt, D') \<Rightarrow> (Replied 201 (inviteToWire fmt ivt (acct_Name org)), D')))))"

definition handleAPIListInvitesForOrg ::
  "invite_faults \<Rightarrow> (string \<Rightarrow> uuid option) \<Rightarrow> (instant \<Rightarrow> string) \<Rightarrow> authed_caller \<Rightarrow> string \<Rightarrow> database
   \<Rightarrow> wire_invite list reply"
where
  "handleAPIListInvitesForOrg flt parse fmt caller slug D =
     (if cl_UserID caller = uuid_nil then Refused 403 ''authentication required''
      else case resolveOrg (flt I_Org) parse slug D of
        Inl _ \<Rightarrow> Refused 404 ''org not found''
      | Inr org \<Rightarrow>
          if acct_OwnerUserID org \<noteq> cl_UserID caller then Refused 403 ''owner only''
          else case ListInvitesForOrg (flt I_List) (acct_ID org) D of
            Inl e \<Rightarrow> Refused 500 (dberr_text e)
          | Inr ivts \<Rightarrow> Replied 200 (map (\<lambda>i. inviteToWire fmt i (acct_Name org)) ivts))"

text \<open>The tail both revoke endpoints share, once the organisation is known.\<close>

definition revoke_in_org ::
  "invite_faults \<Rightarrow> instant \<Rightarrow> account \<Rightarrow> uuid \<Rightarrow> database \<Rightarrow> (int \<times> string) option \<times> database"
where
  "revoke_in_org flt now org inviteID D =
     (case GetInvite (flt I_Get) inviteID D of
        Inl _ \<Rightarrow> (Some (404, ''invite not found''), D)
      | Inr ivt \<Rightarrow>
          if iv_AccountID ivt \<noteq> acct_ID org then (Some (404, ''invite not found''), D)
          else case RevokeInvite flt now inviteID D of
                 (Some e, D') \<Rightarrow> (Some (if e = ErrInviteNotPending then 409 else 500, dberr_text e), D')
               | (None, D') \<Rightarrow> (None, D'))"

definition handleAPIRevokeInvite ::
  "invite_faults \<Rightarrow> (string \<Rightarrow> uuid option) \<Rightarrow> instant \<Rightarrow> authed_caller \<Rightarrow> string \<Rightarrow> string \<Rightarrow> database
   \<Rightarrow> unit reply \<times> database"
where
  "handleAPIRevokeInvite flt parse now caller slug pathID D =
     (if cl_UserID caller = uuid_nil then (Refused 403 ''authentication required'', D)
      else case parse pathID of None \<Rightarrow> (Refused 400 ''invalid invite id'', D)
      | Some inviteID \<Rightarrow>
     (case resolveOrg (flt I_Org) parse slug D of
        Inl _ \<Rightarrow> (Refused 404 ''org not found'', D)
      | Inr org \<Rightarrow>
          if acct_OwnerUserID org \<noteq> cl_UserID caller then (Refused 403 ''owner only'', D)
          else case revoke_in_org flt now org inviteID D of
                 (Some (st, t), D') \<Rightarrow> (Refused st t, D') | (None, D') \<Rightarrow> (Replied 204 (), D')))"

definition handleAPIListMyInvites ::
  "invite_faults \<Rightarrow> (instant \<Rightarrow> string) \<Rightarrow> authed_caller \<Rightarrow> database \<Rightarrow> wire_invite list reply"
where
  "handleAPIListMyInvites flt fmt caller D =
     (if cl_UserID caller = uuid_nil then Refused 403 ''authentication required''
      else case GetUser (flt I_Caller) (cl_UserID caller) D of
        Inl e \<Rightarrow> Refused 500 (dberr_text e)
      | Inr user \<Rightarrow>
          (case ListPendingInvitesForUsername (flt I_List) (us_Username user) D of
             Inl e \<Rightarrow> Refused 500 (dberr_text e)
           | Inr rows \<Rightarrow> Replied 200 (map (\<lambda>iw. inviteToWire fmt (invite.truncate iw) (iv_AccountName iw)) rows)))"

text \<open>Accepting or declining, for the bearer and the web surface; only the success status differs.\<close>

definition accept_or_decline ::
  "invite_faults \<Rightarrow> (string \<Rightarrow> uuid option) \<Rightarrow> instant \<Rightarrow> int \<Rightarrow> uuid \<Rightarrow> string \<Rightarrow> bool \<Rightarrow> database \<Rightarrow> unit reply \<times> database"
where
  "accept_or_decline flt parse now success uid pathID accept D =
     (case parse pathID of None \<Rightarrow> (Refused 400 ''invalid invite id'', D)
      | Some inviteID \<Rightarrow>
          (case (if accept then AcceptInvite flt now inviteID uid D else DeclineInvite flt now inviteID uid D) of
             (Some e, D') \<Rightarrow>
               (if e = ErrNotFound then Refused 404 ''invite not found''
                else if e = ErrInviteNotPending then Refused 409 (dberr_text e)
                else if dberr_text e = ''forbidden'' then Refused 403 ''this invite is not for you''
                else Refused 500 (dberr_text e), D')
           | (None, D') \<Rightarrow> (Replied success (), D')))"

definition acceptOrDecline ::
  "invite_faults \<Rightarrow> (string \<Rightarrow> uuid option) \<Rightarrow> instant \<Rightarrow> authed_caller \<Rightarrow> string \<Rightarrow> bool \<Rightarrow> database \<Rightarrow> unit reply \<times> database"
where
  "acceptOrDecline flt parse now caller pathID accept D =
     (if cl_UserID caller = uuid_nil then (Refused 403 ''authentication required'', D)
      else accept_or_decline flt parse now 204 (cl_UserID caller) pathID accept D)"

definition guiAcceptOrDecline ::
  "invite_faults \<Rightarrow> (string \<Rightarrow> uuid option) \<Rightarrow> instant \<Rightarrow> uuid \<Rightarrow> string \<Rightarrow> bool \<Rightarrow> database \<Rightarrow> unit reply \<times> database"
where
  "guiAcceptOrDecline flt parse now uid pathID accept D =
     accept_or_decline flt parse now 303 uid pathID accept D"

definition handleGUICreateInvite ::
  "op_env \<Rightarrow> invite_faults \<Rightarrow> uuid \<Rightarrow> instant \<Rightarrow> gui_session \<Rightarrow> string + string \<Rightarrow> database \<Rightarrow> unit reply \<times> database"
where
  "handleGUICreateInvite E flt newID now S form D =
     (case form of Inl t \<Rightarrow> (Refused 400 t, D)
      | Inr username \<Rightarrow>
          if username = '''' then (Refused 400 ''username required'', D)
          else case lookupOrgAccess E (gs_parse S) (gs_user S) (gs_org S) D of
            Inl (st, t) \<Rightarrow> (Refused st t, D)
          | Inr (org, role) \<Rightarrow>
              if role \<noteq> OrgOwner then (Refused 403 ''owner only'', D)
              else if (case GetUser (flt I_Caller) (gs_user S) D of Inr u \<Rightarrow> us_Username u = username | Inl _ \<Rightarrow> False)
              then (Refused 400 ''cannot invite yourself'', D)
              else case CreateInvite flt newID now (acct_ID org) username (gs_user S) D of
                     (Inl e, D') \<Rightarrow>
                       (Refused (if e = ErrAlreadyMember \<or> e = ErrDuplicatePendingInvite then 409 else 500) (dberr_text e), D')
                   | (Inr ivt, D') \<Rightarrow> (Replied 303 (), D'))"

definition handleGUIRevokeInvite ::
  "op_env \<Rightarrow> invite_faults \<Rightarrow> instant \<Rightarrow> gui_session \<Rightarrow> string \<Rightarrow> database \<Rightarrow> unit reply \<times> database"
where
  "handleGUIRevokeInvite E flt now S pathID D =
     (case gs_parse S pathID of None \<Rightarrow> (Refused 400 ''invalid invite id'', D)
      | Some inviteID \<Rightarrow>
          (case lookupOrgAccess E (gs_parse S) (gs_user S) (gs_org S) D of
             Inl (st, t) \<Rightarrow> (Refused st t, D)
           | Inr (org, role) \<Rightarrow>
               if role \<noteq> OrgOwner then (Refused 403 ''owner only'', D)
               else case revoke_in_org flt now org inviteID D of
                      (Some (st, t), D') \<Rightarrow> (Refused st t, D') | (None, D') \<Rightarrow> (Replied 303 (), D')))"

section \<open>Concurrent decisions\<close>

text \<open>
  Requests on invitations run concurrently, statement by statement: accepting is one transaction,
  declining and revoking check first and update later. Each request keeps its outcome. Creating
  invitations goes on meanwhile.
\<close>

datatype decision_req = RAccept uuid uuid | RDecline uuid uuid | RRevoke uuid
datatype request_state = Ready decision_req | Checked decision_req | Finished decision_req "dberror option"

fun invite_of :: "decision_req \<Rightarrow> uuid" where
  "invite_of (RAccept v u) = v"
| "invite_of (RDecline v u) = v"
| "invite_of (RRevoke v) = v"

fun outcome :: "decision_req \<Rightarrow> string" where
  "outcome (RAccept v u) = InviteStatusAccepted"
| "outcome (RDecline v u) = InviteStatusDeclined"
| "outcome (RRevoke v) = InviteStatusRevoked"

inductive invite_step :: "database \<times> request_state list \<Rightarrow> database \<times> request_state list \<Rightarrow> bool" where
  Accept: "n < length ts \<Longrightarrow> ts ! n = Ready (RAccept v u) \<Longrightarrow> AcceptInvite flt now v u D = (r, D') \<Longrightarrow>
    invite_step (D, ts) (D', ts[n := Finished (RAccept v u) r])"
| DeclineCheck: "n < length ts \<Longrightarrow> ts ! n = Ready (RDecline v u) \<Longrightarrow>
    invite_step (D, ts) (D, ts[n := (case decline_check flt v u D of
      Some e \<Rightarrow> Finished (RDecline v u) (Some e) | None \<Rightarrow> Checked (RDecline v u))])"
| DeclineUpdate: "n < length ts \<Longrightarrow> ts ! n = Checked (RDecline v u) \<Longrightarrow>
    decide_pending flt InviteStatusDeclined now v D = (r, D') \<Longrightarrow>
    invite_step (D, ts) (D', ts[n := Finished (RDecline v u) r])"
| RevokeCheck: "n < length ts \<Longrightarrow> ts ! n = Ready (RRevoke v) \<Longrightarrow>
    invite_step (D, ts) (D, ts[n := (case revoke_check flt v D of
      Some e \<Rightarrow> Finished (RRevoke v) (Some e) | None \<Rightarrow> Checked (RRevoke v))])"
| RevokeUpdate: "n < length ts \<Longrightarrow> ts ! n = Checked (RRevoke v) \<Longrightarrow>
    decide_pending flt InviteStatusRevoked now v D = (r, D') \<Longrightarrow>
    invite_step (D, ts) (D', ts[n := Finished (RRevoke v) r])"
| Create: "CreateInvite flt newID now acc name inviter D = (r, D') \<Longrightarrow> invite_step (D, ts) (D', ts)"

definition status_of :: "database \<Rightarrow> uuid \<Rightarrow> string option" where
  "status_of D v = map_option iv_Status (find (\<lambda>i. iv_ID i = v) (invites D))"

text \<open>The effect of a successful decision: a pending invitation takes the outcome, nothing else changes.\<close>

definition decided :: "uuid \<Rightarrow> string \<Rightarrow> database \<Rightarrow> database \<Rightarrow> bool" where
  "decided v out D D' \<longleftrightarrow>
     status_of D v = Some InviteStatusPending \<and> status_of D' v = Some out
     \<and> (\<forall>w. w \<noteq> v \<longrightarrow> status_of D' w = status_of D w)"

lemma find_map_keep: "(\<And>i. iv_ID (f i) = iv_ID i) \<Longrightarrow>
    find (\<lambda>i. iv_ID i = w) (map f xs) = map_option f (find (\<lambda>i. iv_ID i = w) xs)"
  by (induction xs) auto

lemma status_decide_where:
  "status_of (decide_where P st now D) w =
     (case find (\<lambda>i. iv_ID i = w) (invites D) of None \<Rightarrow> None | Some i \<Rightarrow> Some (if P i then st else iv_Status i))"
  by (auto simp: status_of_def decide_where_def find_map_keep split: option.split)

lemma GetInvite_status: "GetInvite flt v D = Inr i \<Longrightarrow> find (\<lambda>i. iv_ID i = v) (invites D) = Some i"
  by (auto simp: GetInvite_def query_row_def no_rows_not_found_def split: option.splits)

lemma decided_where:
  assumes "find (\<lambda>i. iv_ID i = v) (invites D) = Some i" "iv_Status i = InviteStatusPending" "P i"
    and "\<forall>j. P j \<longrightarrow> iv_ID j = v" "invites D' = invites (decide_where P out now D)"
  shows "decided v out D D'"
proof -
  have D': "status_of D' w = (case find (\<lambda>i. iv_ID i = w) (invites D) of None \<Rightarrow> None
      | Some i \<Rightarrow> Some (if P i then out else iv_Status i))" for w
    using status_decide_where [of P out now D w] assms(5) by (simp add: status_of_def)
  have "status_of D' w = status_of D w" if "w \<noteq> v" for w
  proof (cases "find (\<lambda>i. iv_ID i = w) (invites D)")
    case (Some j)
    then have "iv_ID j = w" by (auto dest: find_SomeD)
    with that assms(4) have "\<not> P j" by auto
    with Some show ?thesis using D' [of w] by (simp add: status_of_def)
  next
    case None
    with D' [of w] show ?thesis by (simp add: status_of_def)
  qed
  moreover have "status_of D' v = Some out" using D' [of v] assms(1,3) by simp
  moreover have "status_of D v = Some InviteStatusPending" using assms(1,2) by (simp add: status_of_def)
  ultimately show ?thesis by (simp add: decided_def)
qed

lemma AcceptInvite_effect:
  assumes "AcceptInvite flt now v u D = (r, D')"
  shows "if r = None then decided v InviteStatusAccepted D D' else D' = D"
proof (cases r)
  case None
  from assms None obtain i D2 where i: "GetInvite (flt I_Read) v D = Inr i" "iv_Status i = InviteStatusPending"
    and add: "AddMember (flt I_AddMember) now (iv_AccountID i) u
      (decide_where (\<lambda>i. iv_ID i = v) InviteStatusAccepted now D) = (None, D')"
    by (auto simp: AcceptInvite_def Let_def split: option.splits sum.splits prod.splits if_splits)
  have "invites D' = invites (decide_where (\<lambda>i. iv_ID i = v) InviteStatusAccepted now D)"
    using add by (auto simp: AddMember_def insert_member_def split: option.splits if_splits)
  from decided_where [OF GetInvite_status [OF i(1)] i(2) _ _ this] GetInvite_status [OF i(1)] None show ?thesis
    by (auto dest: find_SomeD)
next
  case (Some e)
  with assms show ?thesis
    by (auto simp: AcceptInvite_def Let_def split: option.splits sum.splits prod.splits if_splits)
qed

lemma decide_pending_effect:
  assumes "decide_pending flt out now v D = (r, D')" "distinct (map iv_ID (invites D))"
  shows "if r = None then decided v out D D' else D' = D"
proof (cases r)
  case None
  define P where "P = (\<lambda>i :: invite. iv_ID i = v \<and> iv_Status i = InviteStatusPending)"
  from assms(1) None have D': "D' = decide_where P out now D" and "filter P (invites D) \<noteq> []"
    by (auto simp: decide_pending_def Let_def P_def split: option.splits if_splits)
  then obtain i where i: "i \<in> set (invites D)" "P i" by (auto simp: filter_empty_conv)
  then have "find (\<lambda>j. iv_ID j = v) (invites D) = Some i"
    using find_distinct_key [OF assms(2) i(1)] by (simp add: P_def)
  from decided_where [where P = P and now = now, OF this _ i(2)] i(2) None show ?thesis
    by (simp add: D' P_def)
next
  case (Some e)
  with assms show ?thesis by (auto simp: decide_pending_def Let_def split: option.splits if_splits)
qed

lemma CreateInvite_status:
  assumes "CreateInvite flt newID now acc name inviter D = (r, D')" "status_of D v = Some st"
  shows "status_of D' v = Some st"
  using assms
  by (auto simp: CreateInvite_def Let_def insert_invite_row_def status_of_def find_append
      split: option.splits sum.splits prod.splits if_splits)

lemma invite_ids_distinct:
  assumes "invite_step (D, ts) (D', ts')" "distinct (map iv_ID (invites D))"
  shows "distinct (map iv_ID (invites D'))"
proof -
  have keep: "map iv_ID (invites (decide_where P st now X)) = map iv_ID (invites X)" for P :: "invite \<Rightarrow> bool" and st now X
    by (auto simp: decide_where_def)
  have accept: "map iv_ID (invites D') = map iv_ID (invites D)" if "AcceptInvite flt now v u D = (r, D')" for flt now v u r
    using that keep
    by (auto simp: AcceptInvite_def Let_def AddMember_def insert_member_def
        split: option.splits sum.splits prod.splits if_splits)
  have pending: "map iv_ID (invites D') = map iv_ID (invites D)" if "decide_pending flt st now v D = (r, D')" for flt st now v r
    using that keep by (auto simp: decide_pending_def Let_def split: option.splits if_splits)
  from assms(1) show ?thesis
  proof cases
    case (Create flt newID now acc name inviter r)
    with assms(2) show ?thesis
      by (auto simp: CreateInvite_def Let_def insert_invite_row_def split: option.splits sum.splits prod.splits if_splits)
  qed (use assms(2) accept pending in fastforce)+
qed


text \<open>An accepted invitation has made the invited user a member.\<close>

definition joined :: "database \<Rightarrow> uuid \<Rightarrow> uuid \<Rightarrow> bool" where
  "joined D v u \<longleftrightarrow>
     (\<exists>i. find (\<lambda>i. iv_ID i = v) (invites D) = Some i \<and> is_member D (iv_AccountID i) u
        \<and> username_of None u D = Inr (iv_InviteeUsername i))"

lemma joined_decide_where:
  assumes "joined D v u" "invites D' = invites (decide_where P st now D)" "users D' = users D"
    and "set (members D) \<subseteq> set (members D')"
  shows "joined D' v u"
proof -
  from assms(1) obtain i where i: "find (\<lambda>i. iv_ID i = v) (invites D) = Some i" "is_member D (iv_AccountID i) u"
    "username_of None u D = Inr (iv_InviteeUsername i)" by (auto simp: joined_def)
  have "is_member D' (iv_AccountID i) u" using i(2) assms(4) by (auto simp: is_member_def list_ex_iff)
  moreover have "username_of None u D' = Inr (iv_InviteeUsername i)" using i(3) assms(3) by (simp add: username_of_def)
  ultimately show ?thesis
    using i(1) assms(2) by (auto simp: joined_def decide_where_def find_map_keep)
qed

lemma AcceptInvite_joins:
  assumes "AcceptInvite flt now v u D = (r, D')"
  shows "(joined D w x \<longrightarrow> joined D' w x) \<and> (r = None \<longrightarrow> joined D' v u)"
proof (cases r)
  case (Some e)
  with AcceptInvite_effect [OF assms] show ?thesis by simp
next
  case None
  from assms None obtain i name where i: "GetInvite (flt I_Read) v D = Inr i"
    and name: "username_of (flt I_User) u D = Inr name" "name = iv_InviteeUsername i"
    and add: "AddMember (flt I_AddMember) now (iv_AccountID i) u
      (decide_where (\<lambda>i. iv_ID i = v) InviteStatusAccepted now D) = (None, D')"
    by (auto simp: AcceptInvite_def Let_def split: option.splits sum.splits prod.splits if_splits)
  have D': "invites D' = invites (decide_where (\<lambda>i. iv_ID i = v) InviteStatusAccepted now D)" "users D' = users D"
    "set (members D) \<subseteq> set (members D')" "is_member D' (iv_AccountID i) u"
    using add
    by (auto simp: AddMember_def insert_member_def is_member_def decide_where_def list_ex_iff split: option.splits if_splits)
  have "username_of None u D' = Inr (iv_InviteeUsername i)"
    using name D'(2) by (auto simp: username_of_def query_row_def split: option.splits)
  then have "joined D' v u"
    using GetInvite_status [OF i] D'(1,4) by (auto simp: joined_def decide_where_def find_map_keep dest: find_SomeD)
  with joined_decide_where [OF _ D'(1-3)] show ?thesis by blast
qed

lemma decide_pending_joined:
  assumes "decide_pending flt st now w D = (r, D')" "joined D v u"
  shows "joined D' v u"
proof (cases r)
  case None
  with assms(1) have D': "D' = decide_where (\<lambda>i. iv_ID i = w \<and> iv_Status i = InviteStatusPending) st now D"
    by (auto simp: decide_pending_def Let_def split: option.splits if_splits)
  show ?thesis
    unfolding D' by (rule joined_decide_where [OF assms(2) refl]) (simp_all add: decide_where_def)
next
  case (Some e)
  with assms show ?thesis by (auto simp: decide_pending_def Let_def split: option.splits if_splits)
qed

lemma invite_step_joined:
  assumes "invite_step (D, ts) (D', ts')" "joined D v u"
  shows "joined D' v u"
  using assms(1)
proof cases
  case (Accept n w x flt now r)
  with AcceptInvite_joins assms(2) show ?thesis by blast
next
  case (DeclineUpdate n w x flt now r)
  with assms(2) show ?thesis by (blast intro: decide_pending_joined)
next
  case (RevokeUpdate n w flt now r)
  with assms(2) show ?thesis by (blast intro: decide_pending_joined)
next
  case (Create flt newID now acc name inviter r)
  with assms(2) show ?thesis
    by (auto simp: CreateInvite_def Let_def insert_invite_row_def joined_def find_append is_member_def username_of_def
        split: option.splits sum.splits prod.splits if_splits)
qed (use assms(2) in simp_all)

text \<open>The invariant of the interleaving.\<close>

definition one_decision :: "database \<times> request_state list \<Rightarrow> bool" where
  "one_decision s \<longleftrightarrow>
     distinct (map iv_ID (invites (fst s)))
     \<and> (\<forall>n < length (snd s). \<forall>q. snd s ! n = Finished q None \<longrightarrow> status_of (fst s) (invite_of q) = Some (outcome q)
          \<and> (\<forall>v u. q = RAccept v u \<longrightarrow> joined (fst s) v u))
     \<and> (\<forall>n < length (snd s). \<forall>m < length (snd s). \<forall>q q'. n \<noteq> m \<longrightarrow> snd s ! n = Finished q None \<longrightarrow>
          snd s ! m = Finished q' None \<longrightarrow> invite_of q \<noteq> invite_of q')"

lemma outcome_not_pending [simp]: "outcome q \<noteq> InviteStatusPending"
  by (cases q) (simp_all add: status_defs)

lemma one_decision_same:
  assumes "one_decision (D, ts)" "n < length ts" "\<forall>q. x \<noteq> Finished q None"
  shows "one_decision (D, ts[n := x])"
  using assms by (auto simp: one_decision_def nth_list_update split: if_splits)

lemma one_decision_win:
  assumes "one_decision (D, ts)" "n < length ts" "decided (invite_of q) (outcome q) D D'"
    and "distinct (map iv_ID (invites D'))" "\<forall>v u. joined D v u \<longrightarrow> joined D' v u"
    and "\<forall>v u. q = RAccept v u \<longrightarrow> joined D' v u"
  shows "one_decision (D', ts[n := Finished q None])"
proof -
  have other: "invite_of q' \<noteq> invite_of q" if "m < length ts" "ts ! m = Finished q' None" for m q'
  proof
    assume same: "invite_of q' = invite_of q"
    have "status_of D (invite_of q') = Some (outcome q')" using assms(1) that by (simp add: one_decision_def)
    moreover have "status_of D (invite_of q) = Some InviteStatusPending" using assms(3) by (simp add: decided_def)
    ultimately show False using same outcome_not_pending [of q'] by simp
  qed
  have old: "status_of D' (invite_of q') = Some (outcome q') \<and> (\<forall>v u. q' = RAccept v u \<longrightarrow> joined D' v u)"
    if "m < length ts" "ts ! m = Finished q' None" for m q'
    using assms(1,3,5) that other [OF that] by (simp add: one_decision_def decided_def)
  have new: "status_of D' (invite_of q) = Some (outcome q)" using assms(3) by (simp add: decided_def)
  have "(\<forall>m < length ts. \<forall>q'. ts[n := Finished q None] ! m = Finished q' None \<longrightarrow>
      status_of D' (invite_of q') = Some (outcome q') \<and> (\<forall>v u. q' = RAccept v u \<longrightarrow> joined D' v u))"
  proof (intro allI impI)
    fix m q' assume m: "m < length ts" "ts[n := Finished q None] ! m = Finished q' None"
    show "status_of D' (invite_of q') = Some (outcome q') \<and> (\<forall>v u. q' = RAccept v u \<longrightarrow> joined D' v u)"
    proof (cases "m = n")
      case True
      with m new assms(6) show ?thesis by simp
    next
      case False
      with m old [of m q'] show ?thesis by simp
    qed
  qed
  moreover have "invite_of q1 \<noteq> invite_of q2"
    if "k < length ts" "m < length ts" "k \<noteq> m" "ts[n := Finished q None] ! k = Finished q1 None"
      "ts[n := Finished q None] ! m = Finished q2 None" for k m q1 q2
  proof -
    note ne = that(3)
    consider "k = n" "m \<noteq> n" | "m = n" "k \<noteq> n" | "k \<noteq> n" "m \<noteq> n" using ne by fast
    then show ?thesis
    proof cases
      case 1
      with that assms(2) have "q1 = q" "ts ! m = Finished q2 None" by simp_all
      with that(2) other [of m q2] show ?thesis by simp
    next
      case 2
      with that assms(2) have "q2 = q" "ts ! k = Finished q1 None" by simp_all
      with that(1) other [of k q1] show ?thesis by simp
    next
      case 3
      with that assms(1) show ?thesis by (simp add: one_decision_def)
    qed
  qed
  ultimately show ?thesis using assms(4) by (simp add: one_decision_def)
qed


lemma one_decision_step:
  assumes "invite_step s t" "one_decision s"
  shows "one_decision t"
proof -
  obtain D ts D' ts' where st: "s = (D, ts)" "t = (D', ts')" by (cases s, cases t)
  note step = assms(1) [unfolded st]
  have d: "distinct (map iv_ID (invites D))" using assms(2) by (simp add: st one_decision_def)
  note d' = invite_ids_distinct [OF step d]
  have j: "\<forall>v u. joined D v u \<longrightarrow> joined D' v u" using invite_step_joined [OF step] by blast
  have fin: "one_decision (D', ts[n := Finished q r])"
    if "n < length ts" "if r = None then decided (invite_of q) (outcome q) D D' else D' = D"
      "r = None \<longrightarrow> (\<forall>v u. q = RAccept v u \<longrightarrow> joined D' v u)" for n q r
  proof (cases r)
    case None
    with one_decision_win [OF assms(2) [unfolded st] that(1) _ d' j] that(2,3) show ?thesis by simp
  next
    case (Some e)
    with one_decision_same [OF assms(2) [unfolded st] that(1), of "Finished q (Some e)"] that(2) show ?thesis by simp
  qed
  from step have "one_decision (D', ts')"
  proof cases
    case (Accept n v u flt now r)
    with fin [of n r "RAccept v u"] AcceptInvite_effect [OF Accept(4)] AcceptInvite_joins [OF Accept(4)] show ?thesis
      by simp
  next
    case (DeclineCheck n v u flt)
    then show ?thesis
      using one_decision_same [OF assms(2) [unfolded st], of n] by (auto split: option.split)
  next
    case (DeclineUpdate n v u flt now r)
    with fin [of n r "RDecline v u"] decide_pending_effect [OF DeclineUpdate(4) d] show ?thesis by simp
  next
    case (RevokeCheck n v flt)
    then show ?thesis
      using one_decision_same [OF assms(2) [unfolded st], of n] by (auto split: option.split)
  next
    case (RevokeUpdate n v flt now r)
    with fin [of n r "RRevoke v"] decide_pending_effect [OF RevokeUpdate(4) d] show ?thesis by simp
  next
    case (Create flt newID now acc name inviter r)
    with assms(2) d' j CreateInvite_status [OF Create(2)] show ?thesis
      by (auto simp: st one_decision_def)
  qed
  then show ?thesis by (simp add: st)
qed

lemma one_decision_reach:
  "invite_step\<^sup>*\<^sup>* s t \<Longrightarrow> one_decision s \<Longrightarrow> one_decision t"
  by (induction rule: rtranclp_induct) (auto intro: one_decision_step)

text \<open>C26: An invitation is decided once. For any number of concurrent requests to accept, decline or
  revoke invitations, in every interleaving of their statements with each other and with the
  creation of further invitations, and whatever fails: of the requests on one invitation at most one
  succeeds, the invitation then has the status that request set, and if it was an acceptance the
  accepting user, whose username is the invited one, is a member of the account.\<close>
theorem invite_decided_once:
  assumes "invite_step\<^sup>*\<^sup>* (D, map Ready reqs) (D', ts)" "distinct (map iv_ID (invites D))"
    and "n < length ts" "ts ! n = Finished q None"
  shows "status_of D' (invite_of q) = Some (outcome q)
    \<and> (\<forall>m < length ts. \<forall>q'. m \<noteq> n \<longrightarrow> ts ! m = Finished q' None \<longrightarrow> invite_of q' \<noteq> invite_of q)
    \<and> (\<forall>v u. q = RAccept v u \<longrightarrow> joined D' v u)"
proof -
  have "one_decision (D, map Ready reqs)" using assms(2) by (simp add: one_decision_def)
  from one_decision_reach [OF assms(1) this] assms(3,4) show ?thesis
    by (simp add: one_decision_def)
qed


definition ex_invited :: database where
  "ex_invited = (aw_db ex_member)\<lparr>members := [], invites := [\<lparr>iv_ID = ''i1'', iv_AccountID = ''a1'',
     iv_InviteeUsername = ''bob'', iv_InviterUserID = ''u1'', iv_Status = ''pending'', iv_CreatedAt = 3,
     iv_DecidedAt = None\<rparr>]\<rparr>"

text \<open>The owner revokes while the invited user accepts: the check of the revocation comes first, but the
  acceptance wins, and the update of the revocation finds nothing pending.\<close>
theorem invite_decided_once_witness:
  "\<exists>D'. invite_step\<^sup>*\<^sup>* (ex_invited, map Ready [RRevoke ''i1'', RAccept ''i1'' ''u2''])
          (D', [Finished (RRevoke ''i1'') (Some ErrInviteNotPending), Finished (RAccept ''i1'' ''u2'') None])
     \<and> status_of D' ''i1'' = Some InviteStatusAccepted \<and> joined D' ''i1'' ''u2''"
proof -
  let ?r = "RRevoke ''i1''" and ?a = "RAccept ''i1'' ''u2''"
  obtain D' where acc: "AcceptInvite no_faults 9 ''i1'' ''u2'' ex_invited = (None, D')"
    and upd: "decide_pending no_faults InviteStatusRevoked 10 ''i1'' D' = (Some ErrInviteNotPending, D')"
    by (simp add: AcceptInvite_def ex_invited_def ex_member_def ex_pipes_def GetInvite_def username_of_def
        InviteStatusPending_def AddMember_def insert_member_def decide_where_def Let_def is_member_def has_account_def
        has_user_def decide_pending_def InviteStatusAccepted_def)
  have "revoke_check no_faults ''i1'' ex_invited = None"
    by (simp add: revoke_check_def GetInvite_def ex_invited_def InviteStatusPending_def)
  with invite_step.RevokeCheck [of 0 "[Ready ?r, Ready ?a]" "''i1''" ex_invited no_faults]
  have "invite_step (ex_invited, [Ready ?r, Ready ?a]) (ex_invited, [Checked ?r, Ready ?a])" by simp
  moreover have "invite_step (ex_invited, [Checked ?r, Ready ?a]) (D', [Checked ?r, Finished ?a None])"
    using invite_step.Accept [of 1 "[Checked ?r, Ready ?a]" "''i1''" "''u2''" no_faults 9 ex_invited None D'] acc by simp
  moreover have "invite_step (D', [Checked ?r, Finished ?a None])
      (D', [Finished ?r (Some ErrInviteNotPending), Finished ?a None])"
    using invite_step.RevokeUpdate [of 0 "[Checked ?r, Finished ?a None]" "''i1''" no_faults 10 D' "Some ErrInviteNotPending" D'] upd
    by simp
  ultimately have run: "invite_step\<^sup>*\<^sup>* (ex_invited, map Ready [?r, ?a])
      (D', [Finished ?r (Some ErrInviteNotPending), Finished ?a None])"
    by (simp add: converse_rtranclp_into_rtranclp)
  have "distinct (map iv_ID (invites ex_invited))" by (simp add: ex_invited_def)
  from invite_decided_once [OF run this, of 1 ?a] run show ?thesis by auto
qed

text \<open>The comment of the file calls the bearer routes unavailable to API keys; a key acts as its
  principal, so a key of one account can join another account for its user.\<close>
lemma api_key_joins_other_account:
  assumes "parse pathID = Some v" "AcceptInvite flt now v (ak_PrincipalUserID key) D = (None, D')"
    and "ak_PrincipalUserID key \<noteq> uuid_nil"
  shows "acceptOrDecline flt parse now (callerFromAPIKey key) pathID True D = (Replied 204 (), D')
    \<and> joined D' v (ak_PrincipalUserID key)"
  using assms AcceptInvite_joins [OF assms(2)]
  by (simp add: acceptOrDecline_def accept_or_decline_def callerFromAPIKey_def)

end
