(* ===== verification/DaemonReadProps.thy ===== *)
theory DaemonReadProps
  imports DaemonRead
begin

text \<open>
  What a session gets from the pipe it reads: every message once and in order, whatever others publish,
  trim or re-create in between, and nothing lost when the connection or the cursor file fails.
\<close>

section \<open>What the drain keeps\<close>

abbreviation readable :: "jmsg \<Rightarrow> bool" where
  "readable \<equiv> wanted None"

definition seen_last :: "nat \<Rightarrow> jmsg list \<Rightarrow> nat" where
  "seen_last n ms = (if ms = [] then n else jm_seq (last ms))"

lemma seen_last_append: "seen_last n (xs @ ys) = seen_last (seen_last n xs) ys"
  by (simp add: seen_last_def)

lemma drain_batch_prefix:
  "drain_batch cutoff head ms d = (b, d') \<Longrightarrow>
    \<exists>p q. ms = p @ q \<and> dr_retained d' = dr_retained d @ filter (wanted cutoff) p
      \<and> dr_lastSeqSeen d' = seen_last (dr_lastSeqSeen d) (filter (wanted cutoff) p) \<and> (\<not> b \<longrightarrow> q = [])"
proof (induction cutoff head ms d rule: drain_batch.induct)
  case (1 cutoff head d)
  then show ?case by (auto simp: seen_last_def)
next
  case (2 cutoff head m ms d)
  let ?d = "\<lparr>dr_retained = dr_retained d @ [m], dr_lastSeqSeen = jm_seq m, dr_drained = dr_drained d + 1\<rparr>"
  show ?case
  proof (cases "wanted cutoff m \<and> 0 < head \<and> head \<le> int (length (dr_retained ?d))")
    case True
    with 2(3) have "d' = ?d" by (auto simp: Let_def)
    with True show ?thesis by (intro exI [of _ "[m]"] exI [of _ ms]) (use 2(3) in \<open>auto simp: seen_last_def Let_def\<close>)
  next
    case False
    define e where "e = (if wanted cutoff m then ?d else d\<lparr>dr_drained := dr_drained d + 1\<rparr>)"
    from False 2(3) have rec: "drain_batch cutoff head ms e = (b, d')" by (auto simp: Let_def e_def split: if_splits)
    have "\<exists>p q. ms = p @ q \<and> dr_retained d' = dr_retained e @ filter (wanted cutoff) p
      \<and> dr_lastSeqSeen d' = seen_last (dr_lastSeqSeen e) (filter (wanted cutoff) p) \<and> (\<not> b \<longrightarrow> q = [])"
    proof (cases "wanted cutoff m")
      case True
      with False rec show ?thesis using 2(1) [OF True refl] by (simp add: e_def)
    next
      case F: False
      with rec show ?thesis using 2(2) by (simp add: e_def)
    qed
    then obtain p q where "ms = p @ q" "dr_retained d' = dr_retained e @ filter (wanted cutoff) p"
      "dr_lastSeqSeen d' = seen_last (dr_lastSeqSeen e) (filter (wanted cutoff) p)" "\<not> b \<longrightarrow> q = []" by blast
    then show ?thesis by (intro exI [of _ "m # p"] exI [of _ q]) (auto simp: e_def seen_last_def)
  qed
qed

definition drain_want :: "nat \<Rightarrow> int \<Rightarrow> drain \<Rightarrow> nat" where
  "drain_want expected head d =
     (let left = expected - dr_drained d; room = nat (head - int (length (dr_retained d)))
      in if 0 < head \<and> room < left then room else left)"

lemma drain_loop_eq:
  "drain_loop fetch k expected cutoff head rest d =
     (if \<not> dr_drained d < expected \<or> drain_want expected head d = 0 then d
      else case fetch k of FetchError \<Rightarrow> d
        | Fetched n err \<Rightarrow> case drain_batch cutoff head (take (min n (drain_want expected head d)) rest) d of
            (True, d') \<Rightarrow> d'
          | (False, d') \<Rightarrow> if err \<or> take (min n (drain_want expected head d)) rest = [] then d'
              else drain_loop fetch (Suc k) expected cutoff head
                (drop (length (take (min n (drain_want expected head d)) rest)) rest) d')"
  unfolding drain_want_def Let_def by (subst drain_loop.simps) (simp add: Let_def split: fetch.split)

lemma drain_loop_unfold:
  "drain_loop fetch k expected cutoff head rest d = d
   \<or> (\<exists>n b d'. drain_batch cutoff head (take n rest) d = (b, d') \<and> drain_loop fetch k expected cutoff head rest d = d')
   \<or> (\<exists>n d'. drain_batch cutoff head (take n rest) d = (False, d') \<and> 0 < n \<and> rest \<noteq> []
        \<and> drain_loop fetch k expected cutoff head rest d
          = drain_loop fetch (Suc k) expected cutoff head (drop (length (take n rest)) rest) d')"
proof -
  define want where "want = drain_want expected head d"
  note unfold = drain_loop_eq [of fetch k expected cutoff head rest d, folded want_def]
  show ?thesis
  proof (cases "\<not> dr_drained d < expected \<or> want = 0 \<or> fetch k = FetchError")
    case True
    then show ?thesis by (auto simp: unfold)
  next
    case False
    then obtain n err where f: "fetch k = Fetched n err" by (cases "fetch k") auto
    obtain b d' where b: "drain_batch cutoff head (take (min n want) rest) d = (b, d')" by force
    show ?thesis
    proof (cases "b \<or> err \<or> take (min n want) rest = []")
      case True
      with False f b have "drain_loop fetch k expected cutoff head rest d = d'" by (auto simp: unfold split: bool.split)
      with b show ?thesis by blast
    next
      case go: False
      with False f b have "drain_loop fetch k expected cutoff head rest d
          = drain_loop fetch (Suc k) expected cutoff head (drop (length (take (min n want) rest)) rest) d'"
        by (auto simp: unfold)
      with go b show ?thesis by (intro disjI2 exI [of _ "min n want"] exI [of _ d']) auto
    qed
  qed
qed

lemma drain_loop_prefix:
  "\<exists>p q. rest = p @ q \<and> dr_retained (drain_loop fetch k expected cutoff head rest d) = dr_retained d @ filter (wanted cutoff) p
     \<and> dr_lastSeqSeen (drain_loop fetch k expected cutoff head rest d)
       = seen_last (dr_lastSeqSeen d) (filter (wanted cutoff) p)"
proof (induction "length rest" arbitrary: k rest d rule: less_induct)
  case less
  let ?D = "drain_loop fetch k expected cutoff head rest d"
  from drain_loop_unfold [of fetch k expected cutoff head rest d] show ?case
  proof (elim disjE exE conjE)
    assume "?D = d"
    then show ?thesis by (intro exI [of _ "[]"] exI [of _ rest]) (simp add: seen_last_def)
  next
    fix n b d'
    assume 2: "drain_batch cutoff head (take n rest) d = (b, d')" "?D = d'"
    from drain_batch_prefix [OF 2(1)] obtain p q where pq: "take n rest = p @ q"
      "dr_retained d' = dr_retained d @ filter (wanted cutoff) p"
      "dr_lastSeqSeen d' = seen_last (dr_lastSeqSeen d) (filter (wanted cutoff) p)" by blast
    moreover have "rest = p @ q @ drop n rest" using pq append_take_drop_id [of n rest] by simp
    ultimately show ?thesis using 2(2) by blast
  next
    fix n d'
    assume 3: "drain_batch cutoff head (take n rest) d = (False, d')" "0 < n" "rest \<noteq> []"
      "?D = drain_loop fetch (Suc k) expected cutoff head (drop (length (take n rest)) rest) d'"
    from drain_batch_prefix [OF 3(1)] have batch: "dr_retained d' = dr_retained d @ filter (wanted cutoff) (take n rest)"
      "dr_lastSeqSeen d' = seen_last (dr_lastSeqSeen d) (filter (wanted cutoff) (take n rest))" by auto
    let ?r = "drop (length (take n rest)) rest"
    have "length ?r < length rest" using 3(2,3) by simp
    from less [OF this, of "Suc k" d'] obtain p q where "?r = p @ q"
      "dr_retained ?D = dr_retained d' @ filter (wanted cutoff) p"
      "dr_lastSeqSeen ?D = seen_last (dr_lastSeqSeen d') (filter (wanted cutoff) p)" unfolding 3(4) by blast
    moreover have "rest = take n rest @ ?r" by (cases "n \<le> length rest") simp_all
    ultimately show ?thesis
      by (intro exI [of _ "take n rest @ p"] exI [of _ q]) (auto simp: batch seen_last_append)
  qed
qed


section \<open>The cursor after a read\<close>

text \<open>How a run of advances can leave an entry: as it was, or stamped with one of the messages sent.\<close>

definition stamped :: "int \<Rightarrow> jmsg list \<Rightarrow> cursor_entry \<Rightarrow> cursor_entry \<Rightarrow> bool" where
  "stamped c ms e e' \<longleftrightarrow> e' = e \<or> (\<exists>m \<in> set ms. e' = \<lparr>ce_Seq = jm_seq m, ce_StreamCreated = c\<rparr>)"

lemma stamped_append: "stamped c xs e e' \<Longrightarrow> stamped c ys e' e'' \<Longrightarrow> stamped c (xs @ ys) e e''"
  by (auto simp: stamped_def)

lemma Advance_entry:
  "GetEntry None s key (snd (Advance f g s key n c C)) \<in> {GetEntry None s key C, \<lparr>ce_Seq = n, ce_StreamCreated = c\<rparr>}"
proof (cases "0 < n \<and> f = None \<and> g = None")
  case True
  then show ?thesis using GetEntry_Advance [of n s key s key c C] by (auto simp: Let_def)
next
  case False
  then show ?thesis
    by (auto simp: Advance_def loadLocked_def saveLocked_def Let_def split: option.splits)
qed

text \<open>With a working cursor file an advance past the entry is recorded.\<close>

lemma Advance_ahead:
  assumes "0 < n" "ce_StreamCreated (GetEntry None s key C) = c \<longrightarrow> ce_Seq (GetEntry None s key C) < n"
  shows "GetEntry None s key (snd (Advance None None s key n c C)) = \<lparr>ce_Seq = n, ce_StreamCreated = c\<rparr>"
  using assms GetEntry_Advance [of n s key s key c C] by (auto simp: Let_def)

lemma follow_loop_facts:
  "\<exists>p q. ms = p @ q
     \<and> ro_sent (follow_loop E req st key c k ms out) = ro_sent out @ filter (\<lambda>m. jm_env m \<noteq> None) p
     \<and> stamped c (filter (\<lambda>m. jm_env m \<noteq> None) p) (GetEntry None (rr_Session req) key (ro_cursors out))
         (GetEntry None (rr_Session req) key (ro_cursors (follow_loop E req st key c k ms out)))"
proof (induction ms arbitrary: k out)
  case Nil
  then show ?case by (simp add: stamped_def)
next
  case (Cons m ms)
  show ?case
  proof (cases "jm_env m")
    case None
    from Cons [of "Suc k" out] obtain p q where "ms = p @ q"
      "ro_sent (follow_loop E req st key c (Suc k) ms out) = ro_sent out @ filter (\<lambda>m. jm_env m \<noteq> None) p"
      "stamped c (filter (\<lambda>m. jm_env m \<noteq> None) p) (GetEntry None (rr_Session req) key (ro_cursors out))
         (GetEntry None (rr_Session req) key (ro_cursors (follow_loop E req st key c (Suc k) ms out)))" by blast
    with None show ?thesis by (intro exI [of _ "m # p"] exI [of _ q]) simp
  next
    case (Some env)
    show ?thesis
    proof (cases "re_sock E (length (ro_events out))")
      case False
      with Some show ?thesis by (intro exI [of _ "[]"] exI [of _ "m # ms"]) (simp add: stamped_def)
    next
      case True
      define out' where "out' =
        \<lparr>ro_events = ro_events out @ [MessageEvent (read_message env)],
         ro_sent = ro_sent out @ [m],
         ro_cursors = (if advances req \<and> jm_meta m
           then snd (Advance (re_load E k) (re_save E k) (rr_Session req) key (jm_seq m) c (ro_cursors out))
           else ro_cursors out),
         ro_acks = (if advances req then ro_acks out @ acks_for E req st [m] else ro_acks out)\<rparr>"
      from Some True have rec: "follow_loop E req st key c k (m # ms) out = follow_loop E req st key c (Suc k) ms out'"
        by (simp add: out'_def)
      have "stamped c [m] (GetEntry None (rr_Session req) key (ro_cursors out)) (GetEntry None (rr_Session req) key (ro_cursors out'))"
        using Advance_entry [of "rr_Session req" key "re_load E k" "re_save E k" "jm_seq m" c "ro_cursors out"]
        by (auto simp: stamped_def out'_def)
      note one = stamped_append [OF this]
      from Cons [of "Suc k" out'] obtain p q where "ms = p @ q"
        "ro_sent (follow_loop E req st key c (Suc k) ms out') = ro_sent out' @ filter (\<lambda>m. jm_env m \<noteq> None) p"
        "stamped c (filter (\<lambda>m. jm_env m \<noteq> None) p) (GetEntry None (rr_Session req) key (ro_cursors out'))
           (GetEntry None (rr_Session req) key (ro_cursors (follow_loop E req st key c (Suc k) ms out')))" by blast
      moreover have "ro_sent out' = ro_sent out @ [m]" by (simp add: out'_def)
      ultimately show ?thesis
        using Some one unfolding rec by (intro exI [of _ "m # p"] exI [of _ q]) simp
    qed
  qed
qed

lemma encode_all_prefix: "encode_all sock k xs = (ys, ok) \<Longrightarrow> \<exists>zs. xs = ys @ zs \<and> (ok \<longrightarrow> zs = [])"
  by (induction sock k xs arbitrary: ys rule: encode_all.induct) (auto split: if_splits prod.splits)


text \<open>The plain reads: \<open>ppz read\<close> with or without a head limit, \<open>--tail\<close>, and every follower.\<close>

definition plain_read :: "readrequest \<Rightarrow> bool" where
  "plain_read req \<longleftrightarrow>
     advances req \<and> rr_SinceMS req \<le> 0 \<and> rr_Skip req \<le> 0 \<and> rr_Limit req \<le> 0 \<and> rr_SeedSinceUnixMS req \<le> 0"

lemma plain_slice [simp]: "plain_read req \<Longrightarrow> read_slice req xs = xs"
  by (cases xs) (auto simp: plain_read_def read_slice_def Let_def)

lemma plain_start: "plain_read req \<Longrightarrow> snd (read_start req e S) = None"
  by (simp add: plain_read_def read_start_def Let_def)

lemma read_drain_prefix:
  assumes "plain_read req"
  shows "\<exists>p q. view = p @ q \<and> dr_retained (read_drain fetch req now start S view) = filter readable p
     \<and> dr_lastSeqSeen (read_drain fetch req now start S view) = seen_last 0 (filter readable p)"
proof (cases "0 < length (js_Msgs S) \<and> start \<le> js_LastSeq S")
  case True
  have "since_cutoff req now = None" using assms by (simp add: plain_read_def since_cutoff_def)
  with True drain_loop_prefix [of view fetch 0 "js_LastSeq S - start + 1" None "rr_HeadLimit req" no_drain]
  show ?thesis by (simp add: read_drain_def no_drain_def)
next
  case False
  then show ?thesis
    by (intro exI [of _ "[]"] exI [of _ view]) (auto simp: read_drain_def no_drain_def seen_last_def)
qed

text \<open>
  A plain read: the messages sent are the readable ones of a prefix of what is new in the stream, then of a
  prefix of what comes after; either the sending broke off and the cursor stands, or it is stamped with one
  of them.
\<close>

definition read_shape ::
  "nat \<Rightarrow> int \<Rightarrow> jmsg list \<Rightarrow> jmsg list \<Rightarrow> jmsg list \<Rightarrow> cursor_entry \<Rightarrow> cursor_entry
   \<Rightarrow> jmsg list \<Rightarrow> jmsg list \<Rightarrow> jmsg list \<Rightarrow> jmsg list \<Rightarrow> bool"
where
  "read_shape start c view live sent e e' p1 q1 p2 q2 \<longleftrightarrow>
     filter (\<lambda>m. start \<le> jm_seq m) view = p1 @ q1
     \<and> filter (\<lambda>m. max (seen_last 0 (filter readable p1) + 1) start \<le> jm_seq m) live = p2 @ q2
     \<and> ((\<exists>zs. filter readable p1 = sent @ zs) \<and> e' = e
        \<or> sent = filter readable p1 @ filter (\<lambda>m. jm_env m \<noteq> None) p2 \<and> stamped c sent e e')"

lemma nothing_sent: "\<exists>p1 q1 p2 q2. read_shape start c view live [] e e p1 q1 p2 q2"
  by (intro exI [of _ "[]"] exI [of _ "filter (\<lambda>m. start \<le> jm_seq m) view"]
      exI [of _ "filter (\<lambda>m. max 1 start \<le> jm_seq m) live"]) (simp add: read_shape_def seen_last_def)

lemma seen_last_stamp: "0 < seen_last 0 xs \<Longrightarrow> \<exists>m \<in> set xs. seen_last 0 xs = jm_seq m"
  by (auto simp: seen_last_def split: if_splits intro: bexI [of _ "last xs"])

lemma read_history_prefix:
  assumes "plain_read req"
  shows "\<exists>p q. filter (\<lambda>m. start \<le> jm_seq m) view = p @ q
    \<and> dr_lastSeqSeen (hi_drain (read_history E req meta start S view)) = seen_last 0 (filter readable p)
    \<and> (\<exists>zs. filter readable p = hi_sent (read_history E req meta start S view) @ zs
         \<and> (hi_ok (read_history E req meta start S view) \<longrightarrow> zs = []))"
proof -
  let ?v = "filter (\<lambda>m. start \<le> jm_seq m) view"
  define d where "d = read_drain (re_fetch E) req (re_now E) start S ?v"
  obtain p q where pq: "?v = p @ q" "dr_retained d = filter readable p"
    "dr_lastSeqSeen d = seen_last 0 (filter readable p)"
    using read_drain_prefix [OF assms, of ?v "re_fetch E" "re_now E" start S] unfolding d_def by blast
  obtain sent ok where enc: "encode_all (re_sock E) (length meta) (dr_retained d) = (sent, ok)" by force
  have "hi_drain (read_history E req meta start S view) = d" "hi_sent (read_history E req meta start S view) = sent"
    "hi_ok (read_history E req meta start S view) \<longrightarrow> ok"
    using assms enc by (simp_all add: read_history_def d_def [symmetric] Let_def)
  with pq encode_all_prefix [OF enc] show ?thesis by auto
qed

lemma read_serve_shape:
  assumes plain: "plain_read req"
  shows "\<exists>p1 q1 p2 q2. read_shape (fst (read_start req (GetEntry (re_get E) (rr_Session req) key C) S)) (js_Created S) view live
      (ro_sent (read_serve E req st key resize S view live stored C))
      (GetEntry None (rr_Session req) key C)
      (GetEntry None (rr_Session req) key (ro_cursors (read_serve E req st key resize S view live stored C))) p1 q1 p2 q2"
proof -
  let ?e = "GetEntry None (rr_Session req) key" and ?c = "js_Created S"
  define start where "start = read_start req (GetEntry (re_get E) (rr_Session req) key C) S"
  define h where "h = read_history E req (meta_events req resize) (fst start) S view"
  define out where "out = read_advance E req st key ?c h C"
  define l where "l = filter (follow_from start (dr_lastSeqSeen (hi_drain h)) stored) live"
  define R where "R = read_serve E req st key resize S view live stored C"
  obtain p q zs where pq: "filter (\<lambda>m. fst start \<le> jm_seq m) view = p @ q"
    "dr_lastSeqSeen (hi_drain h) = seen_last 0 (filter readable p)" "filter readable p = hi_sent h @ zs" "hi_ok h \<longrightarrow> zs = []"
    using read_history_prefix [OF plain, of "fst start" view E "meta_events req resize" S, folded h_def] by blast
  have l: "l = filter (\<lambda>m. max (seen_last 0 (filter readable p) + 1) (fst start) \<le> jm_seq m) live"
    unfolding l_def pq(2) using plain_start [OF plain] by (intro filter_cong refl) (simp add: follow_from_def start_def)
  have first: "ro_sent out = hi_sent h" "hi_ok h \<Longrightarrow> stamped ?c (filter readable p) (?e C) (?e (ro_cursors out))"
    using Advance_entry [of "rr_Session req" key "re_load E 0" "re_save E 0" "dr_lastSeqSeen (hi_drain h)" ?c C]
      seen_last_stamp [of "filter readable p"]
    by (auto simp: out_def read_advance_def stamped_def Let_def pq(2))
  have "ro_sent R = [] \<and> ?e (ro_cursors R) = ?e C
      \<or> ro_sent R = hi_sent h \<and> ?e (ro_cursors R) = ?e C
      \<or> hi_ok h \<and> (R = out \<or> R = follow_loop E req st key ?c 1 l out)"
    by (simp add: R_def read_serve_def Let_def start_def [symmetric] h_def [symmetric] out_def [symmetric] l_def [symmetric])
  then have "\<exists>p1 q1 p2 q2. read_shape (fst start) ?c view live (ro_sent R) (?e C) (?e (ro_cursors R)) p1 q1 p2 q2"
  proof (elim disjE conjE)
    assume ok: "hi_ok h" and R: "R = follow_loop E req st key ?c 1 l out"
    obtain p2 q2 where "l = p2 @ q2" "ro_sent R = ro_sent out @ filter (\<lambda>m. jm_env m \<noteq> None) p2"
      "stamped ?c (filter (\<lambda>m. jm_env m \<noteq> None) p2) (?e (ro_cursors out)) (?e (ro_cursors R))"
      using follow_loop_facts [of l E req st key ?c 1 out] unfolding R by blast
    with first(1) stamped_append [OF first(2) [OF ok], of "filter (\<lambda>m. jm_env m \<noteq> None) p2"] pq(3,4) ok show ?thesis
      unfolding read_shape_def pq(1) l by (intro exI [of _ p] exI [of _ q] exI [of _ p2] exI [of _ q2]) auto
  next
    assume "hi_ok h" "R = out"
    with first pq(3,4) show ?thesis
      unfolding read_shape_def pq(1) by (intro exI [of _ p] exI [of _ q] exI [of _ "[]"] exI [of _ l]) (auto simp: l)
  next
    assume "ro_sent R = []" "?e (ro_cursors R) = ?e C"
    then show ?thesis using nothing_sent [of "fst start" ?c view live "?e C"] by simp
  next
    assume "ro_sent R = hi_sent h" "?e (ro_cursors R) = ?e C"
    with pq(3) show ?thesis
      unfolding read_shape_def pq(1) by (intro exI [of _ p] exI [of _ q] exI [of _ "[]"] exI [of _ l]) (auto simp: l)
  qed
  then show ?thesis by (simp add: R_def start_def)
qed


section \<open>Reading with a cold cache\<close>

lemma root_stream_differs:
  assumes "uuid_text a" "valid_addr M h p" "M \<noteq> ''''" "h \<noteq> ''''"
  shows "BuildStreamName a '''' h p \<noteq> BuildStreamName a M h p"
proof
  assume same: "BuildStreamName a '''' h p = BuildStreamName a M h p"
  have "valid_addr '''' h p" using assms(2) by (auto simp: valid_addr_def valid_manifold_def manifold_tokens_def)
  from split_BuildStreamName [OF assms(1) this] split_BuildStreamName [OF assms(1,2)]
  have "length (manifold_tokens M) = 0" unfolding same by (auto simp: addr_tokens_def manifold_tokens_def split: if_splits)
  then show False using assms(3) by (simp add: manifold_tokens_def)
qed

text \<open>A daemon that has just started or reloaded its files reads the wrong stream. For a source the server
  lists in a namespace, the first read looks for the stream of a source of that name at the root, because the
  listing the read fetches does not fill the cache of namespaces: it fails with \<open>E_PIPE_NOT_FOUND\<close>, although the
  pipe exists, and the same read succeeds once the cache knows the source.\<close>
theorem cold_read_misses_source:
  assumes "uuid_text a" "valid_addr M h p" "M \<noteq> ''''" "h \<noteq> ''''"
    and "LoadFromDisk creds current namespace legacy st0 = (None, st)"
    and "rr_BareTarget req = ''''" "rr_Handle req = h" "rr_Channel req = p"
    and "read_check Q req st = None" "or_NATS1 Q" "or_Account Q = Some a" "or_JS1 Q = None"
    and "or_Stream1 Q = (\<lambda>n. if n = BuildStreamName a M h p then Inr S else Inl StreamNotFound)"
  shows "read_open Q req st = Inl (NewPipeNotFound p h) \<and> read_open Q req (RememberSource h M st) = Inr (a, S)"
proof -
  have "HandleManifold h st = ''''"
    using assms(5) by (auto simp: LoadFromDisk_def HandleManifold_def or_empty_def Let_def split: sum.splits)
  then have "read_stream_name a req st = BuildStreamName a '''' h p"
    "read_stream_name a req (RememberSource h M st) = BuildStreamName a M h p"
    using assms(6-8) by (simp_all add: read_stream_name_def RememberSource_def HandleManifold_def or_empty_def)
  moreover have "read_check Q req (RememberSource h M st) = None"
    using assms(9) by (simp add: read_check_def RememberSource_def)
  ultimately show ?thesis
    using assms root_stream_differs [OF assms(1-4)]
    by (simp add: read_open_def retry_stream_def stream_error_def isJSTransportErr_def)
qed


definition cold_files :: "daemon_state" where
  "cold_files = snd (LoadFromDisk (Inr (Some ''ab-12'')) (Inr Map.empty) (Inr Map.empty) ''''
     \<lparr>st_creds = False, st_accountID = '''', st_current = Map.empty, st_currentNamespace = Map.empty, st_knownPipes = {},
      st_handleManifold = Map.empty\<rparr>)"

definition cold_request :: readrequest where
  "cold_request = \<lparr>rr_Handle = ''bob'', rr_Channel = ''inbox'', rr_Limit = 0, rr_HeadLimit = 10, rr_Skip = 0, rr_SinceMS = 0,
     rr_Follow = False, rr_Session = ''s'', rr_NoAdvance = False, rr_All = False, rr_SeedSinceUnixMS = 0,
     rr_Sender = '''', rr_BareTarget = ''''\<rparr>"

definition cold_world :: open_env where
  "cold_world = \<lparr>or_Sources = Inr [''bob''], or_Account = Some ''ab-12'', or_NATS1 = True, or_NATS2 = True,
     or_JS1 = None, or_JS2 = None,
     or_Stream1 = (\<lambda>n. if n = BuildStreamName ''ab-12'' ''team'' ''bob'' ''inbox''
       then Inr \<lparr>js_Created = 7, js_Msgs = [], js_LastSeq = 0\<rparr> else Inl StreamNotFound),
     or_Stream2 = (\<lambda>n. Inl StreamNotFound), or_Enforced = False, or_Denied = (\<lambda>p. False)\<rparr>"

theorem cold_read_misses_source_witness:
  "read_open cold_world cold_request cold_files = Inl (NewPipeNotFound ''inbox'' ''bob'')"
proof (rule conjunct1 [OF cold_read_misses_source])
  show "uuid_text ''ab-12''" "valid_addr ''team'' ''bob'' ''inbox''"
    by (simp_all add: uuid_text_def valid_addr_def valid_manifold_def manifold_tokens_def name_char_def name_char_hyphen_def
        PresencePipe_def)
  show "LoadFromDisk (Inr (Some ''ab-12'')) (Inr Map.empty) (Inr Map.empty) ''''
     \<lparr>st_creds = False, st_accountID = '''', st_current = Map.empty, st_currentNamespace = Map.empty, st_knownPipes = {},
      st_handleManifold = Map.empty\<rparr> = (None, cold_files)"
    by (simp add: cold_files_def LoadFromDisk_def Let_def)
  show "read_check cold_world cold_request cold_files = None"
    by (simp add: read_check_def cold_world_def cold_request_def cold_files_def LoadFromDisk_def ValidatePipe_def ValidateHandle_def
        Reserved_def name_char_def name_char_hyphen_def Let_def)
qed (simp_all add: cold_world_def cold_request_def)

end
