(* ===== verification/DaemonOnce.thy ===== *)
theory DaemonOnce
  imports DaemonReadProps
begin

text \<open>
  A session that reads one pipe again and again, while others publish to it, the broker trims it, and its
  source is destroyed and created again: what it receives over the whole run.
\<close>

section \<open>Streams over time\<close>

definition wf_stream :: "jstream \<Rightarrow> bool" where
  "wf_stream S \<longleftrightarrow> sorted_wrt (<) (map jm_seq (js_Msgs S))
     \<and> list_all (\<lambda>m. 0 < jm_seq m \<and> jm_seq m \<le> js_LastSeq S \<and> jm_meta m) (js_Msgs S)"

text \<open>Publishing appends behind the last sequence number; retention, purging and deletion remove messages.\<close>

definition evolves :: "jstream \<Rightarrow> jstream \<Rightarrow> bool" where
  "evolves S S' \<longleftrightarrow> wf_stream S' \<and> js_Created S' = js_Created S \<and> js_LastSeq S \<le> js_LastSeq S'
     \<and> list_all (\<lambda>m. jm_seq m \<le> js_LastSeq S \<longrightarrow> m \<in> set (js_Msgs S)) (js_Msgs S')"

lemma evolves_old: "evolves S S' \<Longrightarrow> m \<in> set (js_Msgs S') \<Longrightarrow> jm_seq m \<le> js_LastSeq S \<Longrightarrow> m \<in> set (js_Msgs S)"
  by (auto simp: evolves_def list_all_iff)

lemma evolves_trans: "evolves S T \<Longrightarrow> evolves T U \<Longrightarrow> evolves S U"
  by (fastforce simp: evolves_def list_all_iff)

lemma wf_member: "wf_stream S \<Longrightarrow> m \<in> set (js_Msgs S) \<Longrightarrow> 0 < jm_seq m \<and> jm_seq m \<le> js_LastSeq S \<and> jm_meta m"
  by (simp add: wf_stream_def list_all_iff)

lemma sorted_filter_seq: "sorted_wrt (<) (map jm_seq ms) \<Longrightarrow> sorted_wrt (<) (map jm_seq (filter P ms))"
  by (induction ms) auto

lemma wf_filter_sorted: "wf_stream S \<Longrightarrow> sorted_wrt (<) (map jm_seq (filter P (js_Msgs S)))"
  by (simp add: wf_stream_def sorted_filter_seq)

lemma sorted_prefix_closed:
  assumes "sorted_wrt (<) (map jm_seq (p @ q))" "m \<in> set p" "x \<in> set (p @ q)" "jm_seq x \<le> jm_seq m"
  shows "x \<in> set p"
  using assms by (fastforce simp: sorted_wrt_append)

lemma sorted_last: "sorted_wrt (<) (map jm_seq ms) \<Longrightarrow> m \<in> set ms \<Longrightarrow> jm_seq m \<le> seen_last n ms"
  by (induction ms rule: rev_induct) (auto simp: sorted_wrt_append seen_last_def dest: less_imp_le)

lemma FirstSeq_least: "wf_stream S \<Longrightarrow> m \<in> set (js_Msgs S) \<Longrightarrow> FirstSeq S \<le> jm_seq m"
  by (cases "js_Msgs S") (auto simp: FirstSeq_def wf_stream_def dest: less_imp_le)

section \<open>One read\<close>

text \<open>The sequence number below which a read has nothing to do: the stored cursor, when it counts.\<close>

definition cursor_of :: "cursor_entry \<Rightarrow> jstream \<Rightarrow> nat" where
  "cursor_of e S = effectiveCursor e (js_Created S) (js_LastSeq S)"

lemma start_after_cursor:
  assumes "plain_read req" "wf_stream S" "m \<in> set (js_Msgs S)"
  shows "fst (read_start req e S) \<le> jm_seq m \<longleftrightarrow> cursor_of e S < jm_seq m"
  using assms FirstSeq_least [OF assms(2,3)]
  by (auto simp: read_start_def plain_read_def advances_def cursor_of_def Let_def)

lemma start_bound:
  assumes "plain_read req" "wf_stream S"
  shows "cursor_of e S < fst (read_start req e S)"
proof (cases "js_Msgs S")
  case Nil
  then show ?thesis by (simp add: read_start_def FirstSeq_def cursor_of_def effectiveCursor_def)
next
  case (Cons m ms)
  with assms show ?thesis
    by (auto simp: read_start_def plain_read_def advances_def cursor_of_def Let_def)
qed

lemma start_upper:
  assumes "plain_read req" "wf_stream S"
  shows "fst (read_start req e S) \<le> js_LastSeq S + 1"
proof (cases "js_Msgs S")
  case Nil
  then show ?thesis by (simp add: read_start_def FirstSeq_def)
next
  case (Cons m ms)
  then have "FirstSeq S \<le> js_LastSeq S" using assms(2) by (simp add: FirstSeq_def wf_stream_def)
  with Cons assms(1) show ?thesis
    by (auto simp: read_start_def plain_read_def Let_def effectiveCursor_def)
qed

text \<open>What lies between the start and a message of a drained prefix was drained.\<close>

lemma drained_complete:
  assumes v: "filter (\<lambda>m. start \<le> jm_seq m) (js_Msgs S1) = p @ q" and wf: "wf_stream S1" "evolves S1 S2"
    and y: "y \<in> set (filter readable p)" and x: "x \<in> set (js_Msgs S2)" "readable x" "start \<le> jm_seq x" "jm_seq x \<le> jm_seq y"
  shows "x \<in> set (filter readable p)"
proof -
  have mem: "set (p @ q) \<subseteq> set (js_Msgs S1)" by (subst v [symmetric]) auto
  have "jm_seq x \<le> js_LastSeq S1" using wf_member [OF wf(1), of y] mem y x(4) by auto
  then have "x \<in> set (js_Msgs S1)" using evolves_old [OF wf(2) x(1)] by simp
  then have "x \<in> set (p @ q)" using x(3) by (simp add: v [symmetric])
  moreover have "sorted_wrt (<) (map jm_seq (p @ q))"
    by (subst v [symmetric]) (rule wf_filter_sorted [OF wf(1)])
  ultimately show ?thesis using sorted_prefix_closed [of p q y x] x(2,4) y by auto
qed

text \<open>
  Nothing is lost: a message that is still in the stream after the read, is readable and lies at or below a
  message that was sent, was below the cursor before or has been sent.
\<close>

lemma shape_complete:
  assumes shape: "read_shape (fst (read_start req e0 S)) c (js_Msgs S1) (js_Msgs S2) sent e e' p1 q1 p2 q2"
    and plain: "plain_read req" and S: "wf_stream S" "evolves S S1" "evolves S1 S2"
    and sent: "sent = filter readable p1 @ filter (\<lambda>m. jm_env m \<noteq> None) p2" and m: "m \<in> set sent"
    and x: "x \<in> set (js_Msgs S2)" "readable x" "jm_seq x \<le> jm_seq m" "cursor_of e0 S < jm_seq x"
  shows "x \<in> set sent"
proof -
  define start where "start = fst (read_start req e0 S)"
  define L where "L = seen_last 0 (filter readable p1)"
  have wf: "wf_stream S1" "wf_stream S2" using S by (simp_all add: evolves_def)
  have v: "filter (\<lambda>m. start \<le> jm_seq m) (js_Msgs S1) = p1 @ q1"
    and l: "filter (\<lambda>m. max (L + 1) start \<le> jm_seq m) (js_Msgs S2) = p2 @ q2"
    using shape by (simp_all add: read_shape_def start_def L_def)
  have "jm_seq x \<le> js_LastSeq S \<Longrightarrow> start \<le> jm_seq x"
    using evolves_old [OF evolves_trans [OF S(2,3)] x(1)] start_after_cursor [OF plain S(1)] x(4) by (simp add: start_def)
  then have start: "start \<le> jm_seq x" using start_upper [OF plain S(1), of e0] by (simp add: start_def) linarith
  note old = drained_complete [OF v wf(1) S(3) _ x(1,2) start]
  consider "m \<in> set (filter readable p1)" | "m \<in> set p2" "jm_seq x \<le> L" | "m \<in> set p2" "max (L + 1) start \<le> jm_seq x"
    using m start unfolding sent by fastforce
  then show ?thesis
  proof cases
    case 1
    with old x(3) show ?thesis by (simp add: sent)
  next
    case 2
    then have "0 < L" using x(4) by linarith
    then obtain y where "y \<in> set (filter readable p1)" "L = jm_seq y" using seen_last_stamp by (metis L_def)
    with 2 old show ?thesis by (simp add: sent)
  next
    case 3
    then have "x \<in> set (p2 @ q2)" using x(1) by (simp add: l [symmetric])
    moreover have "sorted_wrt (<) (map jm_seq (p2 @ q2))"
      by (subst l [symmetric]) (rule wf_filter_sorted [OF wf(2)])
    ultimately have "x \<in> set p2" using sorted_prefix_closed [of p2 q2 m x] 3(1) x(3) by blast
    then show ?thesis using x(2) by (auto simp: sent wanted_def split: option.splits)
  qed
qed

text \<open>What is sent comes in order and after the cursor.\<close>

lemma shape_ordered:
  assumes shape: "read_shape (fst (read_start req e0 S)) c (js_Msgs S1) (js_Msgs S2) sent e e' p1 q1 p2 q2"
    and plain: "plain_read req" and S: "wf_stream S" "evolves S S1" "evolves S1 S2"
    and sent: "sent = filter readable p1 @ filter (\<lambda>m. jm_env m \<noteq> None) p2"
  shows "sorted_wrt (<) (map jm_seq sent) \<and> (\<forall>m \<in> set sent. cursor_of e0 S < jm_seq m \<and> jm_seq m \<le> js_LastSeq S2)"
proof -
  define start where "start = fst (read_start req e0 S)"
  define L where "L = seen_last 0 (filter readable p1)"
  have wf: "wf_stream S1" "wf_stream S2" and last: "js_LastSeq S1 \<le> js_LastSeq S2" using S by (simp_all add: evolves_def)
  have v: "filter (\<lambda>m. start \<le> jm_seq m) (js_Msgs S1) = p1 @ q1"
    and l: "filter (\<lambda>m. max (L + 1) start \<le> jm_seq m) (js_Msgs S2) = p2 @ q2"
    using shape by (simp_all add: read_shape_def start_def L_def)
  have mem: "set (p1 @ q1) \<subseteq> {m \<in> set (js_Msgs S1). start \<le> jm_seq m}"
    "set (p2 @ q2) \<subseteq> {m \<in> set (js_Msgs S2). max (L + 1) start \<le> jm_seq m}"
    unfolding v [symmetric] l [symmetric] by auto
  have sorted: "sorted_wrt (<) (map jm_seq (p1 @ q1))" "sorted_wrt (<) (map jm_seq (p2 @ q2))"
    unfolding v [symmetric] l [symmetric] using wf by (simp_all only: wf_filter_sorted)
  then have parts: "sorted_wrt (<) (map jm_seq (filter readable p1))" "sorted_wrt (<) (map jm_seq (filter (\<lambda>m. jm_env m \<noteq> None) p2))"
    using sorted_filter_seq [of p1 readable] sorted_filter_seq [of p2 "\<lambda>m. jm_env m \<noteq> None"]
    by (simp_all only: map_append sorted_wrt_append)
  have "jm_seq a < jm_seq b" if "a \<in> set (filter readable p1)" "b \<in> set p2" for a b
    using sorted_last [OF parts(1) that(1), of 0] mem(2) that(2) by (auto simp: L_def)
  then have "sorted_wrt (<) (map jm_seq sent)"
    using parts by (auto simp: sent sorted_wrt_append)
  moreover have "\<forall>m \<in> set sent. start \<le> jm_seq m \<and> jm_seq m \<le> js_LastSeq S2"
    using mem wf_member [OF wf(1)] wf_member [OF wf(2)] last by (fastforce simp: sent)
  ultimately show ?thesis
    using start_bound [OF plain S(1), of e0] by (fastforce simp: start_def)
qed


section \<open>Reads without failures\<close>

text \<open>The caller's socket and the cursor file work; the broker may still fail in any way.\<close>

definition sound_env :: "read_env \<Rightarrow> bool" where
  "sound_env E \<longleftrightarrow> re_get E = None \<and> re_load E = (\<lambda>k. None) \<and> re_save E = (\<lambda>k. None) \<and> re_sock E = (\<lambda>k. True)"

definition stamp_of :: "int \<Rightarrow> jmsg list \<Rightarrow> cursor_entry \<Rightarrow> cursor_entry" where
  "stamp_of c ms e = (if ms = [] then e else \<lparr>ce_Seq = jm_seq (last ms), ce_StreamCreated = c\<rparr>)"

lemma stamp_of_append: "stamp_of c (xs @ ys) e = stamp_of c ys (stamp_of c xs e)"
  by (simp add: stamp_of_def)

lemma follow_loop_sound:
  assumes "sound_env E" "advances req"
    and "sorted_wrt (<) (map jm_seq ms)" "\<forall>m \<in> set ms. jm_meta m \<and> 0 < jm_seq m"
    and "ce_StreamCreated (GetEntry None (rr_Session req) key (ro_cursors out)) = c \<longrightarrow>
      (\<forall>m \<in> set ms. ce_Seq (GetEntry None (rr_Session req) key (ro_cursors out)) < jm_seq m)"
  shows "ro_sent (follow_loop E req st key c k ms out) = ro_sent out @ filter (\<lambda>m. jm_env m \<noteq> None) ms
    \<and> GetEntry None (rr_Session req) key (ro_cursors (follow_loop E req st key c k ms out))
      = stamp_of c (filter (\<lambda>m. jm_env m \<noteq> None) ms) (GetEntry None (rr_Session req) key (ro_cursors out))"
  using assms(3-5)
proof (induction ms arbitrary: k out)
  case Nil
  then show ?case by (simp add: stamp_of_def)
next
  case (Cons m ms)
  note env = assms(1) [unfolded sound_env_def]
  show ?case
  proof (cases "jm_env m")
    case None
    with Cons show ?thesis by simp
  next
    case (Some env')
    define out' where "out' =
      \<lparr>ro_events = ro_events out @ [MessageEvent (read_message env')], ro_sent = ro_sent out @ [m],
       ro_cursors = snd (Advance None None (rr_Session req) key (jm_seq m) c (ro_cursors out)),
       ro_acks = ro_acks out @ acks_for E req st [m]\<rparr>"
    have rec: "follow_loop E req st key c k (m # ms) out = follow_loop E req st key c (Suc k) ms out'"
      using Some env assms(2) Cons.prems by (simp add: out'_def)
    have entry: "GetEntry None (rr_Session req) key (ro_cursors out') = \<lparr>ce_Seq = jm_seq m, ce_StreamCreated = c\<rparr>"
      using Advance_ahead [of "jm_seq m" "rr_Session req" key "ro_cursors out" c] Cons.prems by (auto simp: out'_def)
    have "ro_sent out' = ro_sent out @ [m]" by (simp add: out'_def)
    with Cons.IH [of out' "Suc k"] Cons.prems Some entry show ?thesis
      unfolding rec by (auto simp: stamp_of_def)
  qed
qed

lemma encode_all_ok: "encode_all (\<lambda>k. True) k xs = (xs, True)"
  by (induction xs arbitrary: k) simp_all

lemma sound_history_ok: "sound_env E \<Longrightarrow> hi_ok (read_history E req meta start S view)"
  by (simp add: read_history_def sound_env_def Let_def encode_all_ok)

lemma read_advance_sound:
  assumes "sound_env E" "advances req" "dr_lastSeqSeen (hi_drain h) = seen_last 0 ms"
    and "\<forall>m \<in> set ms. 0 < jm_seq m"
    and "ce_StreamCreated (GetEntry None (rr_Session req) key C) = c \<longrightarrow>
      (\<forall>m \<in> set ms. ce_Seq (GetEntry None (rr_Session req) key C) < jm_seq m)"
  shows "GetEntry None (rr_Session req) key (ro_cursors (read_advance E req st key c h C))
    = stamp_of c ms (GetEntry None (rr_Session req) key C)"
proof (cases "ms = []")
  case True
  with assms(3) show ?thesis by (simp add: read_advance_def seen_last_def stamp_of_def)
next
  case False
  then have "last ms \<in> set ms" by simp
  with assms False show ?thesis
    using Advance_ahead [of "jm_seq (last ms)" "rr_Session req" key C c]
    by (simp add: read_advance_def seen_last_def stamp_of_def sound_env_def)
qed

text \<open>
  A sound read sends what it drained and what it followed, and stamps the last message it sent. The stored
  cursor must not run ahead of the stream.
\<close>

definition read_sound ::
  "nat \<Rightarrow> int \<Rightarrow> jmsg list \<Rightarrow> jmsg list \<Rightarrow> jmsg list \<Rightarrow> cursor_entry \<Rightarrow> cursor_entry \<Rightarrow> bool"
where
  "read_sound start c view live sent e e' \<longleftrightarrow>
     e' = stamp_of c sent e
     \<and> (\<exists>p1 q1 p2 q2. read_shape start c view live sent e e' p1 q1 p2 q2
          \<and> sent = filter readable p1 @ filter (\<lambda>m. jm_env m \<noteq> None) p2)"

lemma read_soundI:
  assumes "filter (\<lambda>m. start \<le> jm_seq m) view = p1 @ q1"
    and "filter (\<lambda>m. max (seen_last 0 (filter readable p1) + 1) start \<le> jm_seq m) live = p2 @ q2"
    and "sent = filter readable p1 @ filter (\<lambda>m. jm_env m \<noteq> None) p2" "e' = stamp_of c sent e"
  shows "read_sound start c view live sent e e'"
proof -
  have "stamped c sent e e'" using assms(4) by (auto simp: stamped_def stamp_of_def)
  with assms show ?thesis unfolding read_sound_def read_shape_def by blast
qed

lemma read_serve_sound:
  assumes plain: "plain_read req" and E: "sound_env E" and S: "wf_stream S" "wf_stream S1" "wf_stream S2"
    and ahead: "ce_StreamCreated (GetEntry None (rr_Session req) key C) = js_Created S \<longrightarrow>
      ce_Seq (GetEntry None (rr_Session req) key C) \<le> cursor_of (GetEntry None (rr_Session req) key C) S"
  shows "read_sound (fst (read_start req (GetEntry None (rr_Session req) key C) S)) (js_Created S) (js_Msgs S1) (js_Msgs S2)
      (ro_sent (read_serve E req st key resize S (js_Msgs S1) (js_Msgs S2) stored C))
      (GetEntry None (rr_Session req) key C)
      (GetEntry None (rr_Session req) key (ro_cursors (read_serve E req st key resize S (js_Msgs S1) (js_Msgs S2) stored C)))"
proof -
  let ?e = "GetEntry None (rr_Session req) key" and ?c = "js_Created S" and ?M1 = "js_Msgs S1" and ?M2 = "js_Msgs S2"
  define start where "start = read_start req (?e C) S"
  define h where "h = read_history E req (meta_events req resize) (fst start) S ?M1"
  define out where "out = read_advance E req st key ?c h C"
  define R where "R = read_serve E req st key resize S ?M1 ?M2 stored C"
  obtain p q where pq: "filter (\<lambda>m. fst start \<le> jm_seq m) ?M1 = p @ q"
    "dr_lastSeqSeen (hi_drain h) = seen_last 0 (filter readable p)" "filter readable p = hi_sent h"
    using read_history_prefix [OF plain, of "fst start" ?M1 E "meta_events req resize" S, folded h_def]
      sound_history_ok [OF E, of req "meta_events req resize" "fst start" S ?M1, folded h_def] by auto
  define l where "l = filter (\<lambda>m. max (seen_last 0 (filter readable p) + 1) (fst start) \<le> jm_seq m) ?M2"
  have l: "filter (follow_from start (dr_lastSeqSeen (hi_drain h)) stored) ?M2 = l"
    unfolding l_def pq(2) using plain_start [OF plain] by (intro filter_cong refl) (simp add: follow_from_def start_def)
  have adv: "advances req" using plain by (simp add: plain_read_def)
  have low: "?c = ce_StreamCreated (?e C) \<Longrightarrow> ce_Seq (?e C) < fst start"
    using ahead start_bound [OF plain S(1), of "?e C"] by (simp add: start_def)
  have p: "\<forall>m \<in> set (p @ q). 0 < jm_seq m \<and> fst start \<le> jm_seq m"
    unfolding pq(1) [symmetric] using wf_member [OF S(2)] by auto
  have "?e (ro_cursors out) = stamp_of ?c (filter readable p) (?e C)"
    unfolding out_def
  proof (rule read_advance_sound [OF E adv pq(2)])
    show "\<forall>m \<in> set (filter readable p). 0 < jm_seq m" using p by simp
    show "ce_StreamCreated (?e C) = ?c \<longrightarrow> (\<forall>m \<in> set (filter readable p). ce_Seq (?e C) < jm_seq m)"
    proof (intro impI ballI)
      fix m assume "ce_StreamCreated (?e C) = ?c" "m \<in> set (filter readable p)"
      then have "ce_Seq (?e C) < fst start" "fst start \<le> jm_seq m" using p low by simp_all
      then show "ce_Seq (?e C) < jm_seq m" by (rule less_le_trans)
    qed
  qed
  moreover have "ro_sent out = filter readable p" by (simp add: out_def read_advance_def pq(3) Let_def)
  ultimately have out: "?e (ro_cursors out) = stamp_of ?c (filter readable p) (?e C)" "ro_sent out = filter readable p" .
  have "sorted_wrt (<) (map jm_seq l)" "\<forall>m \<in> set l. jm_meta m \<and> 0 < jm_seq m"
    using wf_filter_sorted [OF S(3)] wf_member [OF S(3)] by (auto simp: l_def)
  moreover have "ce_StreamCreated (?e (ro_cursors out)) = ?c \<longrightarrow> (\<forall>m \<in> set l. ce_Seq (?e (ro_cursors out)) < jm_seq m)"
    using low by (auto simp: out l_def stamp_of_def seen_last_def)
  ultimately have follow: "ro_sent (follow_loop E req st key ?c 1 l out) = filter readable p @ filter (\<lambda>m. jm_env m \<noteq> None) l"
    "?e (ro_cursors (follow_loop E req st key ?c 1 l out)) = stamp_of ?c (filter readable p @ filter (\<lambda>m. jm_env m \<noteq> None) l) (?e C)"
    using follow_loop_sound [OF E adv, of l key out ?c st 1] out by (simp_all add: stamp_of_append)
  have "ro_sent R = [] \<and> ?e (ro_cursors R) = ?e C \<or> R = out \<or> R = follow_loop E req st key ?c 1 l out"
    using sound_history_ok [OF E, of req "meta_events req resize" "fst start" S ?M1] E
    by (simp add: R_def read_serve_def sound_env_def Let_def start_def [symmetric] h_def [symmetric] out_def [symmetric] l)
  then have "read_sound (fst start) ?c ?M1 ?M2 (ro_sent R) (?e C) (?e (ro_cursors R))"
  proof (elim disjE conjE)
    assume "ro_sent R = []" "?e (ro_cursors R) = ?e C"
    then show ?thesis
      by (intro read_soundI [of _ _ "[]" _ _ "[]"]) (simp_all add: stamp_of_def)
  next
    assume "R = out"
    then show ?thesis
      using out pq(1) by (intro read_soundI [of _ _ p q _ "[]"]) (simp_all add: l_def)
  next
    assume "R = follow_loop E req st key ?c 1 l out"
    then show ?thesis
      using follow pq(1) by (intro read_soundI [of _ _ p q _ l "[]"]) (simp_all add: l_def)
  qed
  then show ?thesis by (simp add: R_def start_def)
qed


section \<open>A session over time\<close>

text \<open>
  The pipe's stream, the cursor files, and what the session has received: for every message its stream's
  creation time and sequence number. \<open>rd_used\<close> holds the creation times there have been.
\<close>

record reader =
  rd_stream :: jstream
  rd_cursors :: cursors
  rd_got :: "(int \<times> nat) list"
  rd_used :: "int set"

definition received :: "jstream \<Rightarrow> read_out \<Rightarrow> (int \<times> nat) list" where
  "received S out = map (\<lambda>m. (js_Created S, jm_seq m)) (ro_sent out)"

text \<open>
  One step: the stream changes, the source is destroyed and created again, some other reader of any
  session or pipe moves its cursor, or this session reads - with any head limit, following or not - while the
  stream changes under it. \<open>ok\<close> restricts the environment of the reads.
\<close>

inductive reader_step :: "(read_env \<Rightarrow> bool) \<Rightarrow> string \<Rightarrow> string \<Rightarrow> reader \<Rightarrow> reader \<Rightarrow> bool" for ok sess key where
  rs_stream: "evolves (rd_stream w) S' \<Longrightarrow> reader_step ok sess key w (w\<lparr>rd_stream := S'\<rparr>)"
| rs_recreate: "c \<notin> rd_used w \<Longrightarrow> c \<noteq> 0 \<Longrightarrow>
    reader_step ok sess key w
      (w\<lparr>rd_stream := \<lparr>js_Created = c, js_Msgs = [], js_LastSeq = 0\<rparr>, rd_used := insert c (rd_used w)\<rparr>)"
| rs_other: "GetEntry None sess key C' = GetEntry None sess key (rd_cursors w) \<Longrightarrow>
    reader_step ok sess key w (w\<lparr>rd_cursors := C'\<rparr>)"
| rs_read: "plain_read req \<Longrightarrow> rr_Session req = sess \<Longrightarrow> ok E \<Longrightarrow>
    evolves (rd_stream w) T \<Longrightarrow> evolves T U \<Longrightarrow>
    out = read_serve E req st key resize (rd_stream w) (js_Msgs T) (js_Msgs U) stored (rd_cursors w) \<Longrightarrow>
    reader_step ok sess key w
      (w\<lparr>rd_stream := U, rd_cursors := ro_cursors out, rd_got := rd_got w @ received U out\<rparr>)"

definition new_reader :: "jstream \<Rightarrow> cursors \<Rightarrow> reader" where
  "new_reader S C = \<lparr>rd_stream = S, rd_cursors = C, rd_got = [], rd_used = {js_Created S}\<rparr>"

text \<open>What holds all the time.\<close>

definition reader_ok :: "string \<Rightarrow> string \<Rightarrow> reader \<Rightarrow> bool" where
  "reader_ok sess key w \<longleftrightarrow>
     (let S = rd_stream w; e = GetEntry None sess key (rd_cursors w)
      in wf_stream S \<and> js_Created S \<noteq> 0 \<and> js_Created S \<in> rd_used w
         \<and> (ce_Seq e \<noteq> 0 \<longrightarrow> ce_StreamCreated e \<noteq> 0) \<and> (ce_StreamCreated e \<noteq> 0 \<longrightarrow> ce_StreamCreated e \<in> rd_used w)
         \<and> (ce_StreamCreated e = js_Created S \<longrightarrow> ce_Seq e \<le> js_LastSeq S)
         \<and> fst ` set (rd_got w) \<subseteq> rd_used w
         \<and> (\<forall>m \<in> set (js_Msgs S). readable m \<and> jm_seq m \<le> cursor_of e S \<longrightarrow> (js_Created S, jm_seq m) \<in> set (rd_got w)))"

lemma cursor_of_ok:
  assumes "reader_ok sess key w" "js_Created S = js_Created (rd_stream w)" "js_LastSeq (rd_stream w) \<le> js_LastSeq S"
  shows "cursor_of (GetEntry None sess key (rd_cursors w)) S =
    (if ce_StreamCreated (GetEntry None sess key (rd_cursors w)) = js_Created S
     then ce_Seq (GetEntry None sess key (rd_cursors w)) else 0)"
  using assms by (auto simp: reader_ok_def cursor_of_def effectiveCursor_def Let_def)

lemma cursor_of_stamp:
  assumes "js_Created S = c" "n \<le> js_LastSeq S"
  shows "cursor_of \<lparr>ce_Seq = n, ce_StreamCreated = c\<rparr> S = n"
  using assms by (auto simp: cursor_of_def effectiveCursor_def)

text \<open>Where a read may start: at the cursor, or lower when the cursor file could not be read.\<close>

lemma GetEntry_fault: "GetEntry f s key C \<in> {GetEntry None s key C, zero_entry}"
  by (cases f) (simp_all add: GetEntry_def loadLocked_def)

lemma cursor_of_zero [simp]: "cursor_of zero_entry S = 0"
  by (simp add: cursor_of_def effectiveCursor_def zero_entry_def)


lemma evolves_ok:
  assumes "reader_ok sess key w" "evolves (rd_stream w) S'"
  shows "reader_ok sess key (w\<lparr>rd_stream := S'\<rparr>)"
proof -
  let ?e = "GetEntry None sess key (rd_cursors w)"
  have S': "wf_stream S'" "js_Created S' = js_Created (rd_stream w)" "js_LastSeq (rd_stream w) \<le> js_LastSeq S'"
    using assms(2) by (simp_all add: evolves_def)
  have "cursor_of ?e S' = cursor_of ?e (rd_stream w)" "cursor_of ?e S' \<le> js_LastSeq (rd_stream w)"
    using cursor_of_ok [OF assms(1) S'(2,3)] cursor_of_ok [OF assms(1) refl order_refl] assms(1) S'(2)
    by (auto simp: reader_ok_def Let_def)
  then show ?thesis
    using assms(1) S' evolves_old [OF assms(2)] unfolding reader_ok_def Let_def
    by simp (metis order_trans)
qed

lemma read_ok:
  assumes w: "reader_ok sess key w" and plain: "plain_read req" "rr_Session req = sess"
    and S: "evolves (rd_stream w) S1" "evolves S1 S2"
    and out: "out = read_serve E req st key resize (rd_stream w) (js_Msgs S1) (js_Msgs S2) stored (rd_cursors w)"
  shows "reader_ok sess key (w\<lparr>rd_stream := S2, rd_cursors := ro_cursors out, rd_got := rd_got w @ received S2 out\<rparr>)"
proof -
  define S0 where "S0 = rd_stream w"
  define e where "e = GetEntry None sess key (rd_cursors w)"
  define e' where "e' = GetEntry None sess key (ro_cursors out)"
  define e0 where "e0 = GetEntry (re_get E) sess key (rd_cursors w)"
  let ?w2 = "w\<lparr>rd_stream := S2\<rparr>"
  have S02: "wf_stream S0" "evolves S0 S1" "evolves S1 S2" "evolves S0 S2"
    using w S evolves_trans [OF S] by (simp_all add: S0_def reader_ok_def Let_def)
  note w2 = evolves_ok [OF w S02(4) [unfolded S0_def]]
  have created: "js_Created S2 = js_Created S0" using S02(4) by (simp add: evolves_def)
  obtain p1 q1 p2 q2 where shape: "read_shape (fst (read_start req e0 S0)) (js_Created S0) (js_Msgs S1) (js_Msgs S2) (ro_sent out) e e' p1 q1 p2 q2"
    using read_serve_shape [OF plain(1), of E key "rd_cursors w" "rd_stream w" "js_Msgs S1" "js_Msgs S2" st resize stored,
        unfolded plain(2), folded out]
    unfolding e_def e'_def e0_def S0_def by blast
  consider "e' = e" | m where "ro_sent out = filter readable p1 @ filter (\<lambda>m. jm_env m \<noteq> None) p2"
      "m \<in> set (ro_sent out)" "e' = \<lparr>ce_Seq = jm_seq m, ce_StreamCreated = js_Created S2\<rparr>"
    using shape unfolding read_shape_def stamped_def created by blast
  then show ?thesis
  proof cases
    case 1
    with w2 show ?thesis by (auto simp: reader_ok_def Let_def e_def e'_def received_def)
  next
    case 2
    note ordered = shape_ordered [OF shape plain(1) S02(1-3) 2(1)]
    have low: "cursor_of e0 S0 \<le> cursor_of e S0"
      using GetEntry_fault [of "re_get E" sess key "rd_cursors w"] by (auto simp: e0_def e_def)
    have same: "cursor_of e S2 = cursor_of e S0"
      using cursor_of_ok [OF w created [unfolded S0_def]] cursor_of_ok [OF w refl order_refl] S02(4) created
      by (simp add: e_def S0_def evolves_def)
    have bound: "jm_seq m \<le> js_LastSeq S2" using ordered 2(2) by blast
    have "(js_Created S2, jm_seq x) \<in> set (rd_got w @ received S2 out)"
      if x: "x \<in> set (js_Msgs S2)" "readable x" "jm_seq x \<le> jm_seq m" for x
    proof (cases "jm_seq x \<le> cursor_of e S2")
      case True
      with w2 x show ?thesis by (simp add: reader_ok_def Let_def e_def)
    next
      case False
      then have "cursor_of e0 S0 < jm_seq x" using low same by simp
      from shape_complete [OF shape plain(1) S02(1-3) 2(1,2) x this] show ?thesis by (simp add: received_def)
    qed
    moreover have "cursor_of e' S2 = jm_seq m" using cursor_of_stamp bound 2(3) by simp
    ultimately show ?thesis
      using w2 bound 2(3) by (auto simp: reader_ok_def Let_def e'_def [symmetric] received_def)
  qed
qed

lemma reader_step_ok: "reader_step ok sess key w w' \<Longrightarrow> reader_ok sess key w \<Longrightarrow> reader_ok sess key w'"
proof (induction rule: reader_step.induct)
  case (rs_stream w S')
  then show ?case by (intro evolves_ok)
next
  case (rs_recreate c w)
  then show ?case
    by (auto simp: reader_ok_def Let_def wf_stream_def cursor_of_def effectiveCursor_def)
next
  case (rs_other C' w)
  then show ?case by (simp add: reader_ok_def Let_def)
next
  case (rs_read req E w S1 S2 out st resize stored)
  then show ?case by (intro read_ok)
qed

lemma new_reader_ok:
  "wf_stream S \<Longrightarrow> js_Created S \<noteq> 0 \<Longrightarrow> GetEntry None sess key C = zero_entry \<Longrightarrow> reader_ok sess key (new_reader S C)"
  using wf_member [of S] by (fastforce simp: reader_ok_def new_reader_def zero_entry_def cursor_of_def effectiveCursor_def Let_def)

lemma reader_run_ok:
  "(reader_step ok sess key)\<^sup>*\<^sup>* w w' \<Longrightarrow> reader_ok sess key w \<Longrightarrow> reader_ok sess key w'"
  by (induction rule: rtranclp_induct) (auto intro: reader_step_ok)


section \<open>In order and once\<close>

definition from_stream :: "int \<Rightarrow> (int \<times> nat) list \<Rightarrow> nat list" where
  "from_stream c got = map snd (filter (\<lambda>x. fst x = c) got)"

lemma from_stream_received: "from_stream c (received S out) = (if js_Created S = c then map jm_seq (ro_sent out) else [])"
  by (simp add: from_stream_def received_def filter_map comp_def)

lemma from_stream_append: "from_stream c (xs @ ys) = from_stream c xs @ from_stream c ys"
  by (simp add: from_stream_def)

lemma from_stream_distinct: "\<forall>c. distinct (from_stream c got) \<Longrightarrow> distinct got"
proof (induction got)
  case (Cons x got)
  obtain a b where x: "x = (a, b)" by force
  have "distinct (from_stream a (x # got))" using Cons.prems by blast
  then have "b \<notin> snd ` {x \<in> set got. fst x = a}" by (simp add: from_stream_def x)
  then have "x \<notin> set got" by (force simp: x)
  moreover have "\<forall>c. distinct (from_stream c got)"
  proof
    fix c from Cons.prems have "distinct (from_stream c (x # got))" by blast
    then show "distinct (from_stream c got)" by (simp add: from_stream_def split: if_splits)
  qed
  ultimately show ?case using Cons.IH by simp
qed simp

definition got_ordered :: "string \<Rightarrow> string \<Rightarrow> reader \<Rightarrow> bool" where
  "got_ordered sess key w \<longleftrightarrow>
     (\<forall>c. sorted_wrt (<) (from_stream c (rd_got w)))
     \<and> (\<forall>n \<in> set (from_stream (js_Created (rd_stream w)) (rd_got w)).
          n \<le> cursor_of (GetEntry None sess key (rd_cursors w)) (rd_stream w))"

lemma read_ordered:
  assumes w: "reader_ok sess key w" "got_ordered sess key w" and plain: "plain_read req" "rr_Session req = sess"
    and E: "sound_env E" and S: "evolves (rd_stream w) S1" "evolves S1 S2"
    and out: "out = read_serve E req st key resize (rd_stream w) (js_Msgs S1) (js_Msgs S2) stored (rd_cursors w)"
  shows "got_ordered sess key (w\<lparr>rd_stream := S2, rd_cursors := ro_cursors out, rd_got := rd_got w @ received S2 out\<rparr>)"
proof -
  define S0 where "S0 = rd_stream w"
  define e where "e = GetEntry None sess key (rd_cursors w)"
  define e' where "e' = GetEntry None sess key (ro_cursors out)"
  have S02: "wf_stream S0" "evolves S0 S1" "evolves S1 S2" "evolves S0 S2" and wf: "wf_stream S1" "wf_stream S2"
    using w S evolves_trans [OF S] by (simp_all add: S0_def reader_ok_def Let_def evolves_def)
  have created: "js_Created S2 = js_Created S0" "js_LastSeq S0 \<le> js_LastSeq S2" using S02(4) by (simp_all add: evolves_def)
  have cursor: "cursor_of e S0 = (if ce_StreamCreated e = js_Created S0 then ce_Seq e else 0)"
    "cursor_of e S2 = cursor_of e S0"
    using cursor_of_ok [OF w(1) created [unfolded S0_def]] cursor_of_ok [OF w(1) refl order_refl] created
    by (simp_all add: e_def S0_def)
  then have ahead: "ce_StreamCreated e = js_Created S0 \<longrightarrow> ce_Seq e \<le> cursor_of e S0" by simp
  have sound: "read_sound (fst (read_start req e S0)) (js_Created S0) (js_Msgs S1) (js_Msgs S2) (ro_sent out) e e'"
    using read_serve_sound [OF plain(1) E S02(1) wf, of key "rd_cursors w" st resize stored, unfolded plain(2), folded e_def, OF ahead]
    unfolding out e_def e'_def S0_def .
  then obtain p1 q1 p2 q2 where "read_shape (fst (read_start req e S0)) (js_Created S0) (js_Msgs S1) (js_Msgs S2) (ro_sent out) e e' p1 q1 p2 q2"
    "ro_sent out = filter readable p1 @ filter (\<lambda>m. jm_env m \<noteq> None) p2"
    unfolding read_sound_def by blast
  from shape_ordered [OF this(1) plain(1) S02(1-3) this(2)]
  have sent: "sorted_wrt (<) (map jm_seq (ro_sent out))"
    "\<forall>m \<in> set (ro_sent out). cursor_of e S0 < jm_seq m \<and> jm_seq m \<le> js_LastSeq S2" by blast+
  have old: "\<forall>c. sorted_wrt (<) (from_stream c (rd_got w))"
    "\<forall>n \<in> set (from_stream (js_Created S0) (rd_got w)). n \<le> cursor_of e S0"
    using w(2) by (simp_all add: got_ordered_def e_def S0_def)
  have e': "cursor_of e' S2 = seen_last (cursor_of e S0) (ro_sent out)"
  proof (cases "ro_sent out = []")
    case False
    then have "jm_seq (last (ro_sent out)) \<le> js_LastSeq S2" using sent(2) by simp
    with False sound show ?thesis
      by (simp add: read_sound_def stamp_of_def seen_last_def cursor_of_stamp created)
  qed (use sound cursor in \<open>simp add: read_sound_def stamp_of_def seen_last_def\<close>)
  have "sorted_wrt (<) (from_stream c (rd_got w @ received S2 out))" for c
    using old sent by (fastforce simp: from_stream_append from_stream_received sorted_wrt_append created)
  moreover have "n \<le> cursor_of e' S2" if "n \<in> set (from_stream (js_Created S2) (rd_got w @ received S2 out))" for n
  proof (cases "n \<in> jm_seq ` set (ro_sent out)")
    case True
    with sorted_last [OF sent(1)] show ?thesis by (auto simp: e')
  next
    case False
    with that have "n \<le> cursor_of e S0" using old(2) by (simp add: from_stream_append from_stream_received created)
    moreover have "cursor_of e S0 \<le> seen_last (cursor_of e S0) (ro_sent out)"
      using sent(2) by (simp add: seen_last_def less_imp_le)
    ultimately show ?thesis by (simp add: e')
  qed
  ultimately show ?thesis by (simp add: got_ordered_def e'_def)
qed

lemma reader_step_ordered:
  "reader_step sound_env sess key w w' \<Longrightarrow> reader_ok sess key w \<Longrightarrow> got_ordered sess key w \<Longrightarrow> got_ordered sess key w'"
proof (induction rule: reader_step.induct)
  case (rs_stream w S')
  have "js_Created S' = js_Created (rd_stream w)" "js_LastSeq (rd_stream w) \<le> js_LastSeq S'"
    using rs_stream(1) by (simp_all add: evolves_def)
  with rs_stream show ?case
    using cursor_of_ok [OF rs_stream(2), of S'] cursor_of_ok [OF rs_stream(2) refl order_refl]
    by (simp add: got_ordered_def)
next
  case (rs_recreate c w)
  then have "from_stream c (rd_got w) = []" by (auto simp: from_stream_def reader_ok_def Let_def filter_empty_conv)
  with rs_recreate show ?case by (simp add: got_ordered_def)
next
  case (rs_other C' w)
  then show ?case by (simp add: got_ordered_def)
next
  case (rs_read req E w S1 S2 out st resize stored)
  then show ?case by (intro read_ordered)
qed

lemma new_reader_ordered: "got_ordered sess key (new_reader S C)"
  by (simp add: got_ordered_def new_reader_def from_stream_def)

lemma reader_run_ordered:
  "(reader_step sound_env sess key)\<^sup>*\<^sup>* w w' \<Longrightarrow> reader_ok sess key w \<Longrightarrow> got_ordered sess key w \<Longrightarrow> got_ordered sess key w'"
  by (induction rule: rtranclp_induct) (auto intro: reader_step_ordered reader_run_ok)


section \<open>Paging through a backlog\<close>

lemma drain_batch_all:
  assumes "head \<le> 0"
  shows "drain_batch cutoff head ms d =
    (False, \<lparr>dr_retained = dr_retained d @ filter (wanted cutoff) ms,
             dr_lastSeqSeen = seen_last (dr_lastSeqSeen d) (filter (wanted cutoff) ms), dr_drained = dr_drained d + length ms\<rparr>)"
  using assms by (induction cutoff head ms d rule: drain_batch.induct) (auto simp: seen_last_def)

lemma drain_batch_head:
  assumes "drain_batch cutoff (int h) ms d = (b, d')" "length (dr_retained d) < h"
  shows "dr_retained d' = dr_retained d @ take (h - length (dr_retained d)) (filter (wanted cutoff) ms)
    \<and> (b \<longleftrightarrow> h \<le> length (dr_retained d')) \<and> (\<not> b \<longrightarrow> dr_drained d' = dr_drained d + length ms)"
  using assms
proof (induction cutoff "int h" ms d rule: drain_batch.induct)
  case (1 cutoff d)
  then show ?case by auto
next
  case (2 cutoff m ms d)
  let ?d = "\<lparr>dr_retained = dr_retained d @ [m], dr_lastSeqSeen = jm_seq m, dr_drained = dr_drained d + 1\<rparr>"
  consider "wanted cutoff m" "h = Suc (length (dr_retained d))" | "wanted cutoff m" "Suc (length (dr_retained d)) < h"
    | "\<not> wanted cutoff m"
    using 2(4) by linarith
  then show ?case
  proof cases
    case 2
    then have "take (h - length (dr_retained d)) (m # filter (wanted cutoff) ms)
        = m # take (h - length (dr_retained ?d)) (filter (wanted cutoff) ms)"
      by (simp add: take_Cons')
    with 2 "2.prems" "2.hyps"(1) [OF 2(1) refl] show ?thesis by (auto simp: Let_def)
  next
    case 3
    with "2.prems" "2.hyps"(2) show ?thesis by auto
  qed (use "2.prems" in auto)
qed

lemma take_drop_length: "take k xs @ drop (length (take k xs)) xs = xs"
  by (cases "k \<le> length xs") simp_all

lemma drain_loop_full:
  assumes "fetch = (\<lambda>k. Fetched n False)" "length rest \<le> n" "dr_drained d + length rest \<le> expected"
    and "0 < h" "length (dr_retained d) < h"
  shows "dr_retained (drain_loop fetch k expected cutoff (int h) rest d)
    = dr_retained d @ take (h - length (dr_retained d)) (filter (wanted cutoff) rest)"
  using assms(2-)
proof (induction "length rest" arbitrary: k rest d rule: less_induct)
  case less
  show ?case
  proof (cases "rest = []")
    case True
    then show ?thesis using assms(1) by (subst drain_loop.simps) (auto simp: Let_def)
  next
    case False
    define want where "want = drain_want expected (int h) d"
    have want: "0 < want" "0 < expected - dr_drained d"
    proof -
      have "0 < length rest" using False by simp
      then have "0 < expected - dr_drained d" "0 < h - length (dr_retained d)" using less.prems(2,4) by linarith+
      then show "0 < want" "0 < expected - dr_drained d"
        by (simp_all add: want_def drain_want_def nat_diff_distrib Let_def)
    qed
    define t where "t = take (min n want) rest"
    define r where "r = drop (length t) rest"
    have split: "rest = t @ r" by (simp only: t_def r_def take_drop_length)
    have t: "t \<noteq> []" "min n want \<noteq> 0" using False less.prems(1) want(1) by (cases n; simp add: t_def)+
    obtain b d' where b: "drain_batch cutoff (int h) t d = (b, d')" by force
    have step: "drain_loop fetch k expected cutoff (int h) rest d =
      (if b then d' else drain_loop fetch (Suc k) expected cutoff (int h) r d')"
      using want b t
      by (subst drain_loop_eq) (simp add: want_def [symmetric] t_def [symmetric] r_def [symmetric] assms(1) split: bool.split)
    note batch = drain_batch_head [OF b less.prems(4)]
    show ?thesis
    proof (cases b)
      case True
      then have "h - length (dr_retained d) \<le> length (filter (wanted cutoff) t)"
        using batch less.prems(4) by (simp add: min_def split: if_splits)
      with True batch show ?thesis by (simp add: step) (simp add: split)
    next
      case nb: False
      have "length r < length rest" "length r + length t = length rest" using t(1) by (simp_all add: split)
      then have "dr_retained (drain_loop fetch (Suc k) expected cutoff (int h) r d')
          = dr_retained d' @ take (h - length (dr_retained d')) (filter (wanted cutoff) r)"
        using less.prems batch nb by (intro less.hyps) auto
      moreover have "length (filter (wanted cutoff) t) < h - length (dr_retained d)"
      proof -
        have "length (dr_retained d') = length (dr_retained d) + min (length (filter (wanted cutoff) t)) (h - length (dr_retained d))"
          using batch by simp
        then show ?thesis using batch nb less.prems(4) by linarith
      qed
      ultimately show ?thesis using batch nb by (simp add: step) (simp add: split)
    qed
  qed
qed


text \<open>A read with a head limit that does not follow, while nothing fails and nothing changes.\<close>

definition calm_read :: "nat \<Rightarrow> nat \<Rightarrow> readrequest \<Rightarrow> read_env \<Rightarrow> bool" where
  "calm_read h n req E \<longleftrightarrow> plain_read req \<and> \<not> rr_Follow req \<and> rr_HeadLimit req = int h \<and> 0 < h
     \<and> sound_env E \<and> re_info E \<and> re_consumer E \<and> re_fetch E = (\<lambda>k. Fetched n False)"

definition backlog :: "cursor_entry \<Rightarrow> jstream \<Rightarrow> jmsg list" where
  "backlog e S = filter readable (filter (\<lambda>m. cursor_of e S < jm_seq m) (js_Msgs S))"

lemma sorted_interval_length:
  assumes "sorted_wrt (<) (map jm_seq ms)" "\<forall>m \<in> set ms. a \<le> jm_seq m \<and> jm_seq m \<le> b"
  shows "length ms \<le> b - a + 1"
proof -
  have "distinct (map jm_seq ms)" using assms(1) strict_sorted_iff [of "map jm_seq ms"] by simp
  then have "length ms = card (jm_seq ` set ms)" using distinct_card [of "map jm_seq ms"] by simp
  also have "\<dots> \<le> card {a..b}" using assms(2) by (intro card_mono) auto
  finally show ?thesis by simp
qed

lemma drained_page:
  assumes calm: "calm_read h n req E" and S: "wf_stream S" "length (js_Msgs S) \<le> n"
  shows "dr_retained (read_drain (re_fetch E) req (re_now E) (fst (read_start req e S)) S
      (filter (\<lambda>m. fst (read_start req e S) \<le> jm_seq m) (js_Msgs S))) = take h (backlog e S)"
proof -
  define start where "start = fst (read_start req e S)"
  define view where "view = filter (\<lambda>m. start \<le> jm_seq m) (js_Msgs S)"
  have plain: "plain_read req" using calm by (simp add: calm_read_def)
  have view: "filter readable view = backlog e S"
    unfolding view_def backlog_def start_def
    using start_after_cursor [OF plain S(1)] by (auto intro!: filter_cong simp: filter_filter)
  have "dr_retained (read_drain (re_fetch E) req (re_now E) start S view) = take h (filter readable view)"
  proof (cases "0 < length (js_Msgs S) \<and> start \<le> js_LastSeq S")
    case True
    have "since_cutoff req (re_now E) = None" using plain by (simp add: plain_read_def since_cutoff_def)
    moreover have "length view \<le> n" using S(2) by (simp add: view_def) (meson length_filter_le order_trans)
    moreover have "length view \<le> js_LastSeq S - start + 1"
      using wf_member [OF S(1)] unfolding view_def
      by (intro sorted_interval_length wf_filter_sorted [OF S(1)]) auto
    ultimately show ?thesis
      using True calm drain_loop_full [of "re_fetch E" n view no_drain "js_LastSeq S - start + 1" h 0 None]
      by (simp add: read_drain_def calm_read_def no_drain_def)
  next
    case False
    then have "view = []" using wf_member [OF S(1)] by (fastforce simp: view_def filter_empty_conv)
    with False show ?thesis by (auto simp: read_drain_def no_drain_def)
  qed
  then show ?thesis by (simp add: view) (simp add: view_def start_def)
qed

lemma read_page:
  assumes calm: "calm_read h n req E" and S: "wf_stream S" "length (js_Msgs S) \<le> n"
    and ahead: "ce_StreamCreated (GetEntry None (rr_Session req) key C) = js_Created S \<longrightarrow>
      ce_Seq (GetEntry None (rr_Session req) key C) \<le> cursor_of (GetEntry None (rr_Session req) key C) S"
  shows "let out = read_serve E req st key resize S (js_Msgs S) (js_Msgs S) stored C; e = GetEntry None (rr_Session req) key C
    in ro_sent out = take h (backlog e S)
       \<and> GetEntry None (rr_Session req) key (ro_cursors out) = stamp_of (js_Created S) (take h (backlog e S)) e"
proof -
  let ?e = "GetEntry None (rr_Session req) key C" and ?M = "js_Msgs S"
  define start where "start = fst (read_start req ?e S)"
  define h' where "h' = read_history E req (meta_events req resize) start S ?M"
  define out where "out = read_serve E req st key resize S ?M ?M stored C"
  have E: "plain_read req" "sound_env E" "\<not> rr_Follow req" "re_info E" "re_consumer E" "re_get E = None" "re_sock E = (\<lambda>k. True)"
    using calm by (simp_all add: calm_read_def sound_env_def)
  have "out = read_advance E req st key (js_Created S) h' C"
    using E sound_history_ok [OF E(2)]
    by (simp add: out_def read_serve_def Let_def start_def h'_def)
  moreover have "hi_sent h' = take h (backlog ?e S)"
    using E drained_page [OF calm S, of ?e]
    by (simp add: h'_def read_history_def start_def Let_def encode_all_ok)
  ultimately have sent: "ro_sent out = take h (backlog ?e S)" by (simp add: read_advance_def Let_def)
  moreover have "GetEntry None (rr_Session req) key (ro_cursors out) = stamp_of (js_Created S) (ro_sent out) ?e"
    using read_serve_sound [OF E(1,2) S(1) S(1) S(1) ahead, of st resize stored] by (simp add: out_def read_sound_def)
  ultimately show ?thesis by (simp add: out_def Let_def)
qed

text \<open>After a page the backlog is what the page left.\<close>

lemma sorted_after_take:
  fixes xs :: "jmsg list"
  assumes "sorted_wrt (<) (map jm_seq xs)" "take h xs \<noteq> []"
  shows "filter (\<lambda>m. jm_seq (last (take h xs)) < jm_seq m) xs = drop h xs"
proof -
  have "sorted_wrt (<) (map jm_seq (take h xs @ drop h xs))" using assms(1) by simp
  then have parts: "sorted_wrt (<) (map jm_seq (take h xs))"
    "\<forall>x \<in> set (map jm_seq (take h xs)). \<forall>y \<in> set (map jm_seq (drop h xs)). x < y"
    unfolding map_append sorted_wrt_append by blast+
  have "\<forall>m \<in> set (take h xs). jm_seq m \<le> jm_seq (last (take h xs))"
    using sorted_last [OF parts(1), of _ 0] assms(2) by (simp add: seen_last_def)
  moreover have "\<forall>m \<in> set (drop h xs). jm_seq (last (take h xs)) < jm_seq m"
    using parts(2) last_in_set [OF assms(2)] by simp
  ultimately have "filter (\<lambda>m. jm_seq (last (take h xs)) < jm_seq m) (take h xs @ drop h xs) = drop h xs"
    unfolding filter_append by (auto simp: filter_empty_conv filter_id_conv not_less)
  then show ?thesis by simp
qed

lemma backlog_after:
  assumes "wf_stream S"
  shows "backlog (stamp_of (js_Created S) (take h (backlog e S)) e) S = (if take h (backlog e S) = [] then backlog e S else drop h (backlog e S))"
proof (cases "take h (backlog e S) = []")
  case False
  let ?B = "backlog e S" and ?n = "jm_seq (last (take h (backlog e S)))"
  have sorted: "sorted_wrt (<) (map jm_seq ?B)"
    unfolding backlog_def filter_filter by (rule wf_filter_sorted [OF assms])
  have "last (take h ?B) \<in> set ?B" using False by (metis in_set_takeD last_in_set)
  then have n: "?n \<le> js_LastSeq S" "cursor_of e S < ?n" using wf_member [OF assms] by (auto simp: backlog_def)
  then have "cursor_of (stamp_of (js_Created S) (take h ?B) e) S = ?n"
    using False by (simp add: stamp_of_def cursor_of_stamp)
  then have "backlog (stamp_of (js_Created S) (take h ?B) e) S = filter (\<lambda>m. ?n < jm_seq m) ?B"
    using n(2) by (auto simp: backlog_def filter_filter intro!: filter_cong)
  with sorted_after_take [OF sorted False] False show ?thesis by simp
qed (simp add: stamp_of_def)


text \<open>Reading a pipe \<open>k\<close> times in a row, what is received in all and the cursor files after.\<close>

primrec read_again ::
  "nat \<Rightarrow> read_env \<Rightarrow> readrequest \<Rightarrow> daemon_state \<Rightarrow> string \<Rightarrow> jstream \<Rightarrow> cursors \<Rightarrow> jmsg list \<times> cursors"
where
  "read_again 0 E req st key S C = ([], C)"
| "read_again (Suc k) E req st key S C =
     (let out = read_serve E req st key None S (js_Msgs S) (js_Msgs S) (\<lambda>k. 0) C;
          rest = read_again k E req st key S (ro_cursors out)
      in (ro_sent out @ fst rest, snd rest))"

lemma read_again_pages:
  assumes "calm_read h n req E" "wf_stream S" "length (js_Msgs S) \<le> n"
    and "ce_StreamCreated (GetEntry None (rr_Session req) key C) = js_Created S \<longrightarrow>
      ce_Seq (GetEntry None (rr_Session req) key C) \<le> cursor_of (GetEntry None (rr_Session req) key C) S"
  shows "fst (read_again k E req st key S C) = take (k * h) (backlog (GetEntry None (rr_Session req) key C) S)
    \<and> backlog (GetEntry None (rr_Session req) key (snd (read_again k E req st key S C))) S
      = drop (k * h) (backlog (GetEntry None (rr_Session req) key C) S)"
  using assms(4)
proof (induction k arbitrary: C)
  case (Suc k)
  let ?e = "GetEntry None (rr_Session req) key C" and ?B = "backlog (GetEntry None (rr_Session req) key C) S"
  define out where "out = read_serve E req st key None S (js_Msgs S) (js_Msgs S) (\<lambda>k. 0) C"
  have page: "ro_sent out = take h ?B" "GetEntry None (rr_Session req) key (ro_cursors out) = stamp_of (js_Created S) (take h ?B) ?e"
    using read_page [OF assms(1-3) Suc.prems, of st None "\<lambda>k. 0"] by (simp_all add: out_def Let_def)
  have "0 < h" using assms(1) by (simp add: calm_read_def)
  then have left: "backlog (GetEntry None (rr_Session req) key (ro_cursors out)) S = drop h ?B"
    using backlog_after [OF assms(2), of h ?e] by (simp add: page(2) split: if_splits)
  have "jm_seq (last (take h ?B)) \<le> js_LastSeq S" if "take h ?B \<noteq> []"
  proof -
    have "last (take h ?B) \<in> set ?B" using that by (metis in_set_takeD last_in_set)
    then show ?thesis using wf_member [OF assms(2)] by (auto simp: backlog_def)
  qed
  with Suc.prems have "ce_StreamCreated (GetEntry None (rr_Session req) key (ro_cursors out)) = js_Created S \<longrightarrow>
      ce_Seq (GetEntry None (rr_Session req) key (ro_cursors out))
      \<le> cursor_of (GetEntry None (rr_Session req) key (ro_cursors out)) S"
    by (auto simp: page(2) stamp_of_def cursor_of_stamp)
  from Suc.IH [OF this] show ?case
    by (simp add: out_def [symmetric] Let_def left page(1) take_add add.commute)
qed simp

section \<open>The properties\<close>



text \<open>A backlog pages out. Reading with head limit \<open>h\<close>, while nothing fails and nothing changes, delivers
  the next \<open>h\<close> unread messages: after \<open>k\<close> reads exactly the first \<open>k * h\<close> of the backlog have come, in
  order, and the rest is still to come; so enough reads deliver all of it.\<close>
theorem backlog_pages_out:
  assumes "calm_read h n req E" "wf_stream S" "length (js_Msgs S) \<le> n"
    and "ce_StreamCreated (GetEntry None (rr_Session req) key C) = js_Created S \<longrightarrow>
      ce_Seq (GetEntry None (rr_Session req) key C) \<le> cursor_of (GetEntry None (rr_Session req) key C) S"
  shows "fst (read_again k E req st key S C) = take (k * h) (backlog (GetEntry None (rr_Session req) key C) S)"
  using read_again_pages [OF assms, of k st] by simp

text \<open>A message that is no envelope and that nothing readable follows is never read and never leaves the
  count of unread messages: a read delivers nothing and leaves the cursor, while the listing reports the pipe
  unread, so that a monitor waiting for unread messages wakes at once, forever.\<close>
theorem undecodable_tail_stays_unread:
  assumes "calm_read h n req E" "wf_stream S" "length (js_Msgs S) \<le> n"
    and "ce_StreamCreated (GetEntry None (rr_Session req) key C) = js_Created S \<longrightarrow>
      ce_Seq (GetEntry None (rr_Session req) key C) \<le> cursor_of (GetEntry None (rr_Session req) key C) S"
    and "backlog (GetEntry None (rr_Session req) key C) S = []"
    and "m \<in> set (js_Msgs S)" "jm_env m = None" "cursor_of (GetEntry None (rr_Session req) key C) S < jm_seq m"
  shows "fst (read_again k E req st key S C) = []
    \<and> 0 < pipe_unread (GetEntry None (rr_Session req) key (snd (read_again k E req st key S C))) S"
proof -
  have "GetEntry None (rr_Session req) key (snd (read_again k E req st key S C)) = GetEntry None (rr_Session req) key C
      \<and> fst (read_again k E req st key S C) = []"
    using assms(4,5)
  proof (induction k arbitrary: C)
    case (Suc k)
    define out where "out = read_serve E req st key None S (js_Msgs S) (js_Msgs S) (\<lambda>k. 0) C"
    have "ro_sent out = []" "GetEntry None (rr_Session req) key (ro_cursors out) = GetEntry None (rr_Session req) key C"
      using read_page [OF assms(1-3) Suc.prems(1), of st None "\<lambda>k. 0"] Suc.prems(2)
      by (simp_all add: out_def Let_def stamp_of_def)
    with Suc.IH [of "ro_cursors out"] Suc.prems show ?case by (simp add: out_def [symmetric] Let_def)
  qed simp
  moreover have "0 < length (js_Msgs S)" "cursor_of (GetEntry None (rr_Session req) key C) S < js_LastSeq S"
    using assms(6,8) wf_member [OF assms(2,6)] by auto
  ultimately show ?thesis by (simp add: pipe_unread_def cursor_of_def Let_def)
qed


section \<open>Concrete runs\<close>

definition ex_msg :: "nat \<Rightarrow> string \<Rightarrow> jmsg" where
  "ex_msg k s = \<lparr>jm_seq = k, jm_meta = True, jm_env = Some (New_envelope ''id'' ''ada'' '''' s 0)\<rparr>"

definition ex_noise :: jmsg where
  "ex_noise = \<lparr>jm_seq = 3, jm_meta = True, jm_env = None\<rparr>"

definition ex_pipe :: jstream where
  "ex_pipe = \<lparr>js_Created = 7, js_Msgs = [ex_msg 1 ''a'', ex_msg 2 ''b'', ex_noise], js_LastSeq = 3\<rparr>"

definition ex_read :: "readrequest" where
  "ex_read = \<lparr>rr_Handle = ''bob'', rr_Channel = ''inbox'', rr_Limit = 0, rr_HeadLimit = 1, rr_Skip = 0, rr_SinceMS = 0,
     rr_Follow = False, rr_Session = ''s'', rr_NoAdvance = False, rr_All = False, rr_SeedSinceUnixMS = 0,
     rr_Sender = '''', rr_BareTarget = ''''\<rparr>"

definition ex_calm :: read_env where
  "ex_calm = \<lparr>re_now = 0, re_get = None, re_load = (\<lambda>k. None), re_save = (\<lambda>k. None), re_info = True, re_consumer = True,
     re_fetch = (\<lambda>k. Fetched 3 False), re_sock = (\<lambda>k. True), re_follow = True, re_ackID = (\<lambda>k. ''ack'')\<rparr>"

definition ex_state :: daemon_state where
  "ex_state = \<lparr>st_creds = True, st_accountID = ''a'', st_current = Map.empty, st_currentNamespace = Map.empty,
     st_knownPipes = {''bob''}, st_handleManifold = Map.empty\<rparr>"

definition no_cursors :: cursors where
  "no_cursors = (\<lambda>s k. None)"

lemma ex_read_facts:
  "calm_read 1 3 ex_read ex_calm" "wf_stream ex_pipe" "js_Created ex_pipe = 7" "length (js_Msgs ex_pipe) \<le> 3"
  "rr_Session ex_read = ''s''" "GetEntry None ''s'' ''k'' no_cursors = zero_entry"
  "backlog zero_entry ex_pipe = [ex_msg 1 ''a'', ex_msg 2 ''b'']"
  by (simp_all add: calm_read_def plain_read_def advances_def ex_read_def sound_env_def ex_calm_def wf_stream_def ex_pipe_def
      ex_msg_def ex_noise_def GetEntry_def loadLocked_def or_zero_entry_def no_cursors_def backlog_def wanted_def)

lemma zero_entry_facts: "ce_StreamCreated zero_entry = 0" "ce_Seq zero_entry = 0"
  by (simp_all add: zero_entry_def)

theorem backlog_pages_out_witness:
  "fst (read_again 2 ex_calm ex_read ex_state ''k'' ex_pipe no_cursors) = [ex_msg 1 ''a'', ex_msg 2 ''b'']"
  using backlog_pages_out [of 1 3 ex_read ex_calm ex_pipe "''k''" no_cursors 2 ex_state] ex_read_facts zero_entry_facts
  by simp

definition ex_first :: read_out where
  "ex_first = read_serve ex_calm ex_read ex_state ''k'' None ex_pipe (js_Msgs ex_pipe) (js_Msgs ex_pipe) (\<lambda>k. 0) no_cursors"

lemma ex_first_facts:
  "ro_sent ex_first = [ex_msg 1 ''a'']"
  "GetEntry None ''s'' ''k'' (ro_cursors ex_first) = \<lparr>ce_Seq = 1, ce_StreamCreated = 7\<rparr>"
proof -
  have "ce_StreamCreated (GetEntry None (rr_Session ex_read) ''k'' no_cursors) = js_Created ex_pipe \<longrightarrow>
      ce_Seq (GetEntry None (rr_Session ex_read) ''k'' no_cursors)
        \<le> cursor_of (GetEntry None (rr_Session ex_read) ''k'' no_cursors) ex_pipe"
    by (simp add: ex_read_facts zero_entry_facts)
  from read_page [OF ex_read_facts(1,2,4) this, of ex_state None "\<lambda>k. 0"]
  show "ro_sent ex_first = [ex_msg 1 ''a'']"
    "GetEntry None ''s'' ''k'' (ro_cursors ex_first) = \<lparr>ce_Seq = 1, ce_StreamCreated = 7\<rparr>"
    by (simp_all add: ex_first_def ex_read_facts Let_def stamp_of_def) (simp add: ex_msg_def)
qed

definition ex_run :: reader where
  "ex_run = (new_reader ex_pipe no_cursors)\<lparr>rd_stream := ex_pipe, rd_cursors := ro_cursors ex_first,
     rd_got := rd_got (new_reader ex_pipe no_cursors) @ received ex_pipe ex_first\<rparr>"

lemma ex_run_reached: "ok ex_calm \<Longrightarrow> (reader_step ok ''s'' ''k'')\<^sup>*\<^sup>* (new_reader ex_pipe no_cursors) ex_run"
  unfolding ex_run_def
  by (rule r_into_rtranclp, rule rs_read [where req = ex_read and T = ex_pipe])
    (use ex_read_facts in \<open>auto simp: evolves_def list_all_iff new_reader_def ex_first_def calm_read_def\<close>)

lemma ex_run_facts: "rd_stream ex_run = ex_pipe" "rd_got ex_run = [(7, 1)]"
  "cursor_of (GetEntry None ''s'' ''k'' (rd_cursors ex_run)) ex_pipe = 1"
  by (simp_all add: ex_run_def new_reader_def received_def ex_first_facts ex_read_facts cursor_of_stamp)
    (simp_all add: ex_msg_def cursor_of_stamp ex_pipe_def)



theorem undecodable_tail_stays_unread_witness:
  "let S = ex_pipe\<lparr>js_Msgs := [ex_noise]\<rparr>; after = read_again 5 ex_calm ex_read ex_state ''k'' S no_cursors
   in fst after = [] \<and> 0 < pipe_unread (GetEntry None ''s'' ''k'' (snd after)) S"
  unfolding Let_def ex_read_facts(5) [symmetric]
proof (rule undecodable_tail_stays_unread [where h = 1 and n = 3 and m = ex_noise])
  show "calm_read 1 3 ex_read ex_calm" by (rule ex_read_facts)
qed (simp_all add: ex_read_facts zero_entry_facts ex_pipe_def ex_noise_def wf_stream_def backlog_def wanted_def)

end
