(* ===== verification/DaemonListProps.thy ===== *)
theory DaemonListProps
  imports DaemonOnce DaemonList AclCompileProps
begin

text \<open>
  What listings and waits promise: a watch wakes for every message on a pipe its snapshot would show, the
  snapshot of the subscriptions shows every subject, unread counts tell whether a read delivers something.
\<close>

section \<open>Waking\<close>

lemma matchAnyTarget_target:
  "matchAnyTarget h p pats =
   (pats = [] \<or> list_ex (\<lambda>raw. sub_matches raw (if h \<noteq> '''' then h @ ''.'' @ p else p)) pats)"
  by (auto simp: matchAnyTarget_def)

text \<open>A watch tries all tokens after the account as one path, and the last two as handle and pipe.\<close>

lemma wakes_path:
  assumes "split_dots subject = a # rest" "rest \<noteq> []" "matchAnyTarget '''' (join_dots rest) pats"
  shows "watch_wakes pats subject"
  using assms by (cases rest) (auto simp: watch_wakes_def parseSubjectInterpretations_def Let_def)

lemma wakes_pair:
  assumes "split_dots subject = a # pre @ [h, p]" "matchAnyTarget h p pats"
  shows "watch_wakes pats subject"
proof (cases pre)
  case Nil
  with assms show ?thesis by (simp add: watch_wakes_def parseSubjectInterpretations_def Let_def)
next
  case (Cons x xs)
  have "(x # xs @ [h, p]) ! (length (x # xs @ [h, p]) - 2) = h" by (simp add: nth_append)
  with Cons assms show ?thesis by (simp add: watch_wakes_def parseSubjectInterpretations_def Let_def)
qed

lemma path_of_tokens: "FormatPipePath manifold '''' name = join_dots (addr_tokens manifold '''' name)"
  by (auto simp: FormatPipePath_def addr_tokens_def manifold_tokens_def join_with_append join_with_Cons)

text \<open>A watch misses no pipe but heartbeats: a message on any other pipe of the account, with or without
  a handle and at any namespace, wakes every watch in whose snapshot the pipe would appear.\<close>

theorem watch_misses_no_pipe:
  assumes "uuid_text account" and "valid_addr manifold source name" and "name \<noteq> PresencePipe"
    and "matchAnyTarget source (if source = '''' then FormatPipePath manifold '''' name else name) patterns"
  shows "watch_wakes patterns (BuildSubject account manifold source name)"
proof -
  have sp: "split_dots (BuildSubject account manifold source name) = account # addr_tokens manifold source name"
    using split_BuildSubject [OF assms(1,2)] assms(3) by simp
  show ?thesis
  proof (cases "source = ''''")
    case True
    with assms(4) sp show ?thesis
      by (intro wakes_path [OF sp]) (simp_all add: path_of_tokens)
  next
    case False
    then have "split_dots (BuildSubject account manifold source name) = account # manifold_tokens manifold @ [source, name]"
      using sp by (simp add: addr_tokens_def)
    with assms(4) False show ?thesis by (intro wakes_pair) simp_all
  qed
qed

theorem watch_misses_no_pipe_witness:
  "watch_wakes [''bob.%''] (BuildSubject ''acc-0'' ''eu.west'' ''bob'' ''inbox'')"
proof (rule watch_misses_no_pipe)
  show "uuid_text ''acc-0''" by (simp add: uuid_text_def)
  show "valid_addr ''eu.west'' ''bob'' ''inbox''" by code_simp
  show "''inbox'' \<noteq> PresencePipe" by (simp add: PresencePipe_def)
  show "matchAnyTarget ''bob'' (if ''bob'' = '''' then FormatPipePath ''eu.west'' '''' ''inbox'' else ''inbox'') [''bob.%'']"
    by code_simp
qed

text \<open>Heartbeats wake nobody who subscribed to them: a beat of a source is published on the presence
  subject, which no split reads as the heartbeat pipe of the source, although the snapshot shows that pipe.\<close>

theorem heartbeat_wakes_nobody:
  assumes "uuid_text account" and "valid_addr manifold handle PresencePipe" and "handle \<noteq> ''heartbeat''"
  shows "matchAnyTarget handle PresencePipe [handle @ ''.heartbeat'']
    \<and> \<not> watch_wakes [handle @ ''.heartbeat''] (BuildSubject account manifold handle PresencePipe)"
proof -
  have h: "HandleRegex handle" and ne: "handle \<noteq> ''''"
    using assms(2) by (auto simp: valid_addr_def)
  have "list_all plain_char handle" "CHR ''%'' \<notin> set handle"
    using HandleRegex_chars [OF h] by (auto simp: list_all_iff plain_char_def name_char_hyphen_def name_char_def)
  then have lit: "sub_matches (handle @ ''.heartbeat'') t \<longleftrightarrow> t = handle @ ''.heartbeat''" for t
    by (simp add: sub_matches_def replace_char_id Match_glob_plain plain_char_def)
  have no: "t @ ''.'' @ handle \<noteq> handle @ ''.heartbeat''" for t
  proof
    assume "t @ ''.'' @ handle = handle @ ''.heartbeat''"
    then have "split_dots (t @ CHR ''.'' # handle) = split_dots (handle @ CHR ''.'' # ''heartbeat'')" by simp
    then have "split_dots t @ [handle] = [handle, ''heartbeat'']"
      using HandleRegex_no_special(1) [OF h] by (simp add: split_on_append split_on_no_sep)
    then show False using assms(3) by (cases "split_dots t") auto
  qed
  have sp: "split_dots (BuildSubject account manifold handle PresencePipe)
    = account # PresenceSegment # manifold_tokens manifold @ [handle]"
    using split_BuildSubject [OF assms(1,2)] by simp
  let ?rest = "PresenceSegment # manifold_tokens manifold @ [handle]"
  have path: "join_dots ?rest = join_dots (butlast ?rest) @ ''.'' @ handle"
    using join_with_append [of "butlast ?rest" "[handle]" "''.''"] by (simp add: butlast_append)
  have "\<not> watch_wakes [handle @ ''.heartbeat''] (BuildSubject account manifold handle PresencePipe)"
    unfolding watch_wakes_def parseSubjectInterpretations_def sp Let_def matchAnyTarget_target
    using no path lit by (auto simp: nth_append)
  moreover have "matchAnyTarget handle PresencePipe [handle @ ''.heartbeat'']"
    using ne lit by (simp add: matchAnyTarget_target PresencePipe_def)
  ultimately show ?thesis by simp
qed

theorem heartbeat_wakes_nobody_witness:
  "\<not> watch_wakes [''bob.heartbeat''] (BuildSubject ''acc-0'' '''' ''bob'' PresencePipe)"
proof -
  have "valid_addr '''' ''bob'' PresencePipe" by code_simp
  then show ?thesis using heartbeat_wakes_nobody [of "''acc-0''" "''''" "''bob''"] by (simp add: uuid_text_def)
qed

section \<open>Waiting under enforcement\<close>

context nats_authz
begin

lemma org_subscription_denied:
  assumes wf: "wf_access acc access"
  shows "\<not> permits (SubAllow (Compile acc access)) (SubDeny (Compile acc access)) (acc @ ''.>'')"
proof -
  have acc: "acc \<noteq> ''_INBOX''" "CHR ''.'' \<notin> set acc" "acc \<noteq> ''>''" "acc \<noteq> ''*''"
    using wf by (simp_all add: wf_access_def literal_token_def)
  have sp: "split_dots (acc @ ''.>'') = [acc, ''>'']" "split_dots (acc @ ''._presence.>'') = [acc, ''_presence'', ''>'']"
    "split_dots (acc @ ''._system.>'') = [acc, ''_system'', ''>'']"
    using split_on_append_sep [OF acc(2)] by simp_all
  then have fixed: "\<not> (\<exists>e \<in> set [''_INBOX.>'', acc @ ''._presence.>'', acc @ ''._system.>'']. m (split_dots e) [acc, ''>''])"
    using acc by (auto simp: step)
  have "\<not> m (split_dots (wireSubject acc (ac_Pipe a))) [acc, ''>'']" if a: "a \<in> set access" for a
  proof
    assume "m (split_dots (wireSubject acc (ac_Pipe a))) [acc, ''>'']"
    then have "acc @ ''.>'' = wireSubject acc (ac_Pipe a)" using wire_match_iff [OF wf a, of "acc @ ''.>''"] sp(1) by simp
    then have "''>'' \<in> set (split_dots (wireSubject acc (ac_Pipe a)))" using sp(1) by (metis list.set_intros)
    with wf_access_subject(3) [OF wf a] show False by simp
  qed
  with fixed show ?thesis by (auto simp: permits_iff Compile_Sub sp)
qed

end

text \<open>Under enforcement no compiled credential, the owner's included, permits the subscription both waits
  rest on, while it permits reading every pipe the principal may read: what arrives after the snapshot wakes
  nobody.\<close>

theorem watch_refused_under_enforcement:
  assumes "nats_authz nm permits" and "wf_access account access"
  shows "\<not> permits (SubAllow (Compile account access)) (SubDeny (Compile account access)) (watch_subject account)"
  unfolding watch_subject_def by (rule nats_authz.org_subscription_denied [OF assms])

theorem watch_refused_under_enforcement_witness:
  "\<not> nats_permits (SubAllow (Compile ''acct'' ex_access)) (SubDeny (Compile ''acct'' ex_access)) ''acct.>''
   \<and> nats_permits (SubAllow Unrestricted) (SubDeny Unrestricted) (watch_subject ''acct'')"
proof -
  have "nats_permits (SubAllow Unrestricted) (SubDeny Unrestricted) (watch_subject ''acct'')"
    by (simp add: nats_permits_def Unrestricted_def watch_subject_def)
  with watch_refused_under_enforcement [OF nats_permits_authz ex_access_wf] show ?thesis
    by (simp add: watch_subject_def)
qed

section \<open>Unread counts\<close>

definition info_of :: "jstream \<Rightarrow> streaminfo" where
  "info_of S = \<lparr>si_Created = js_Created S, si_Msgs = length (js_Msgs S), si_LastSeq = js_LastSeq S, si_LastTime = 0,
     si_MaxAge = 0, si_MaxMsgs = 0, si_MaxBytes = 0\<rparr>"

lemma unread_count_pipe_unread: "unread_count e (info_of S) = pipe_unread e S"
  by (simp add: unread_count_def info_of_def pipe_unread_def Let_def)

abbreviation beyond :: "cursor_entry \<Rightarrow> jstream \<Rightarrow> jmsg list" where
  "beyond e S \<equiv> filter (\<lambda>m. cursor_of e S < jm_seq m) (js_Msgs S)"

lemma sorted_seqs_length:
  assumes "sorted_wrt (<) (map jm_seq ms)" "list_all (\<lambda>m. c < jm_seq m \<and> jm_seq m \<le> l) ms"
  shows "length ms \<le> l - c"
proof -
  have "distinct (map jm_seq ms)" using assms(1) strict_sorted_iff by blast
  then have "length ms = card (set (map jm_seq ms))" by (metis distinct_card length_map)
  also have "\<dots> \<le> card {c<..l}" using assms(2) by (intro card_mono) (auto simp: list_all_iff)
  finally show ?thesis by simp
qed

lemma filter_upt_above: "filter (\<lambda>n. c < n) [a..<b] = [max (Suc c) a..<b]"
  by (induction b) (auto simp: max_def)

text \<open>The unread count of a listing is an upper bound of the retained messages beyond the session's
  cursor, and exact while the stream has no holes; in particular a listing never shows a pipe as read when a
  read could deliver something.\<close>

theorem unread_count_bounds:
  assumes "wf_stream S"
  shows "length (beyond e S) \<le> unread_count e (info_of S)
    \<and> unread_count e (info_of S) \<le> length (js_Msgs S)
    \<and> (map jm_seq (js_Msgs S) = [FirstSeq S..<js_LastSeq S + 1] \<longrightarrow> unread_count e (info_of S) = length (beyond e S))"
proof -
  let ?c = "cursor_of e S" and ?l = "js_LastSeq S"
  have u: "unread_count e (info_of S) = (if ?c < ?l then min (?l - ?c) (length (js_Msgs S)) else 0)"
    by (simp add: unread_count_def info_of_def cursor_of_def Let_def)
  have mem: "list_all (\<lambda>m. ?c < jm_seq m \<and> jm_seq m \<le> ?l) (beyond e S)"
    using wf_member [OF assms] by (auto simp: list_all_iff)
  have le: "length (beyond e S) \<le> ?l - ?c" by (rule sorted_seqs_length [OF wf_filter_sorted [OF assms] mem])
  moreover have "length (beyond e S) \<le> length (js_Msgs S)" by simp
  ultimately have 1: "length (beyond e S) \<le> unread_count e (info_of S)" unfolding u by auto
  have 2: "unread_count e (info_of S) \<le> length (js_Msgs S)" unfolding u by simp
  have "unread_count e (info_of S) = length (beyond e S)" if full: "map jm_seq (js_Msgs S) = [FirstSeq S..<?l + 1]"
  proof -
    have "map jm_seq (beyond e S) = filter (\<lambda>n. ?c < n) (map jm_seq (js_Msgs S))" by (simp add: filter_map comp_def)
    also have "\<dots> = [max (Suc ?c) (FirstSeq S)..<?l + 1]" by (simp only: full filter_upt_above)
    finally have "length (beyond e S) = ?l + 1 - max (Suc ?c) (FirstSeq S)" by (metis length_map length_upt)
    moreover have "length (js_Msgs S) = ?l + 1 - FirstSeq S" using full by (metis length_map length_upt)
    ultimately show ?thesis unfolding u by (auto simp: min_def max_def)
  qed
  with 1 2 show ?thesis by blast
qed

theorem unread_count_bounds_witness:
  "length (beyond \<lparr>ce_Seq = 3, ce_StreamCreated = 7\<rparr>
      \<lparr>js_Created = 7, js_Msgs = [\<lparr>jm_seq = 2, jm_meta = True, jm_env = None\<rparr>, \<lparr>jm_seq = 5, jm_meta = True, jm_env = None\<rparr>], js_LastSeq = 6\<rparr>)
   \<le> unread_count \<lparr>ce_Seq = 3, ce_StreamCreated = 7\<rparr> (info_of
      \<lparr>js_Created = 7, js_Msgs = [\<lparr>jm_seq = 2, jm_meta = True, jm_env = None\<rparr>, \<lparr>jm_seq = 5, jm_meta = True, jm_env = None\<rparr>], js_LastSeq = 6\<rparr>)"
  using unread_count_bounds [of "\<lparr>js_Created = 7, js_Msgs = [\<lparr>jm_seq = 2, jm_meta = True, jm_env = None\<rparr>,
      \<lparr>jm_seq = 5, jm_meta = True, jm_env = None\<rparr>], js_LastSeq = 6\<rparr>" "\<lparr>ce_Seq = 3, ce_StreamCreated = 7\<rparr>"]
  by (simp add: wf_stream_def)

section \<open>The snapshot of the subscriptions\<close>

lemma splitCollared_join: "splitCollared subj = Some (h, p) \<Longrightarrow> h @ ''.'' @ p = subj"
proof -
  assume s: "splitCollared subj = Some (h, p)"
  then have l: "2 \<le> length (split_dots subj)" and hp: "h = join_dots (butlast (split_dots subj))" "p = last (split_dots subj)"
    by (auto simp: splitCollared_def Let_def split: if_splits)
  have "butlast (split_dots subj) \<noteq> []" using l by (cases "split_dots subj" rule: rev_cases) auto
  then have "join_dots (butlast (split_dots subj) @ [last (split_dots subj)]) = h @ ''.'' @ p"
    unfolding hp by (subst join_with_append) simp_all
  then show ?thesis unfolding append_butlast_last_id [OF split_on_nonempty] join_split by (rule sym)
qed

abbreviation source_rows :: "list_source list \<Rightarrow> string set" where
  "source_rows ss \<equiv> \<Union>s \<in> set ss. (\<lambda>p. ls_Handle s @ ''.'' @ pi_Pipe p) ` set (ls_PipeInfos s)"

lemma covered_set:
  "set (covered_subjects r) = source_rows (lr_Sources r)
     \<union> (\<lambda>u. FormatPipePath (up_Manifold u) '''' (up_Name u)) ` set (lr_UncollaredPipes r)"
  by (simp add: covered_subjects_def)

lemma rows_synthetic: "source_rows (appendSyntheticPipe ss h p) = insert (h @ CHR ''.'' # p) (source_rows ss)"
  by (induction ss) (auto simp: bare_info_def)

lemma covered_synthetic: "set (covered_subjects (add_synthetic subj r)) = insert subj (set (covered_subjects r))"
proof (cases "splitCollared subj")
  case None
  then show ?thesis by (simp add: add_synthetic_def covered_set FormatPipePath_def)
next
  case (Some hp)
  obtain h p where hp: "hp = (h, p)" by fastforce
  with splitCollared_join Some have s: "h @ CHR ''.'' # p = subj" by simp
  have r: "add_synthetic subj r = r\<lparr>lr_Sources := appendSyntheticPipe (lr_Sources r) h p\<rparr>"
    by (simp add: add_synthetic_def Some hp)
  have "source_rows (appendSyntheticPipe (lr_Sources r) h p) = insert subj (source_rows (lr_Sources r))"
    using rows_synthetic [of "lr_Sources r" h p] s by simp
  then show ?thesis unfolding r covered_set by auto
qed

lemma covered_fold: "set (covered_subjects (fold add_synthetic subjs r)) = set subjs \<union> set (covered_subjects r)"
  by (induction subjs arbitrary: r) (auto simp: covered_synthetic)

lemma covered_sort: "set (covered_subjects (sortListReply r)) = set (covered_subjects r)"
  by (simp add: covered_set sortListReply_def)

lemma covered_attribute: "set (covered_subjects (attribute_rows subjects r)) = set (covered_subjects r)"
  by (simp add: covered_set attribute_rows_def image_image)

lemma unread_synthetic:
  "list_ex (\<lambda>s. list_ex (\<lambda>p. 0 < pi_Unread p) (ls_PipeInfos s)) (appendSyntheticPipe ss h p)
   = list_ex (\<lambda>s. list_ex (\<lambda>p. 0 < pi_Unread p) (ls_PipeInfos s)) ss"
  by (induction ss) (auto simp: bare_info_def)

lemma hasUnread_fold: "hasUnread (fold add_synthetic subjs r) = hasUnread r"
proof (induction subjs arbitrary: r)
  case (Cons subj subjs)
  have "hasUnread (add_synthetic subj r) = hasUnread r"
    by (simp add: hasUnread_def add_synthetic_def unread_synthetic split: option.split) (simp add: bare_info_def)
  with Cons show ?case by simp
qed simp

lemma hasUnread_rows: "hasUnread (attribute_rows subjects (sortListReply r)) = hasUnread r"
  by (simp add: hasUnread_def attribute_rows_def sortListReply_def list_ex_iff)

lemma hasUnread_unreadOnly: "hasUnread (unreadOnly r) = hasUnread r"
  by (auto simp: hasUnread_def unreadOnly_def list_ex_iff filter_empty_conv)

definition well_attributed :: "string list \<Rightarrow> listreply \<Rightarrow> bool" where
  "well_attributed subjects r \<longleftrightarrow>
     list_all (\<lambda>s. list_all (\<lambda>p. pi_MatchedBy p = matchedSubjects (ls_Handle s) (pi_Pipe p) subjects) (ls_PipeInfos s)) (lr_Sources r)
     \<and> list_all (\<lambda>u. pi_MatchedBy (up_Info u) = matchedSubjects '''' (up_Name u) subjects) (lr_UncollaredPipes r)"

lemma attribute_rows_attributed: "well_attributed subjects (attribute_rows subjects r)"
  by (simp add: well_attributed_def attribute_rows_def list_all_iff)

text \<open>The snapshot of the subscriptions shows exactly the pipes of the listing and every subscribed subject
  that is no pattern, whether its pipe exists or not; it has unread rows exactly when the listing has, so the
  rows it adds never end a wait; and each row names the subjects that match it.\<close>

theorem subs_snapshot_complete:
  assumes "fst (subsSnapshot K Q subjects sess C st) = Inr reply" and "subjects \<noteq> []"
  shows "\<exists>account listing. cn_Account K = Some account
    \<and> fst (buildFilteredList Q account sess subjects False C st) = Inr listing
    \<and> set (covered_subjects reply) = set (covered_subjects listing) \<union> {s \<in> set subjects. \<not> IsGlobPattern s}
    \<and> hasUnread (unreadOnly reply) = hasUnread listing \<and> well_attributed subjects reply \<and> lr_Subscriptions reply = subjects"
proof -
  obtain account where a: "cn_Account K = Some account" and b:
      "map_sum id (subs_rows subjects) (fst (buildFilteredList Q account sess subjects False C st)) = Inr reply"
    using assms by (auto simp: subsSnapshot_def split: if_splits option.splits)
  then obtain listing where l: "fst (buildFilteredList Q account sess subjects False C st) = Inr listing"
      "reply = subs_rows subjects listing"
    by (cases "fst (buildFilteredList Q account sess subjects False C st)") auto
  then have "set (covered_subjects reply) = set (covered_subjects listing) \<union> {s \<in> set subjects. \<not> IsGlobPattern s}"
    by (auto simp: subs_rows_def covered_attribute covered_sort covered_fold)
  moreover have "hasUnread (unreadOnly reply) = hasUnread listing"
    by (simp add: l(2) subs_rows_def hasUnread_unreadOnly hasUnread_rows hasUnread_fold)
  moreover have "well_attributed subjects reply" "lr_Subscriptions reply = subjects"
    by (simp_all add: l(2) subs_rows_def attribute_rows_attributed, simp add: attribute_rows_def)
  ultimately show ?thesis using a l(1) by blast
qed

definition ex_list_env :: list_env where
  "ex_list_env =
     \<lparr>lq_Sources = Inr [\<lparr>ls_Handle = ''bob'', ls_Manifold = '''', ls_Kind = ''cli'', ls_Pipes = [], ls_PipeInfos = [],
        ls_CreatedBy = ''u'', ls_LastBroadcastAt = None, ls_LastBroadcastPayload = None\<rparr>],
      lq_JS = None, lq_Listed = [(BuildStreamName ''acc-0'' '''' ''bob'' ''inbox'',
        \<lparr>si_Created = 7, si_Msgs = 2, si_LastSeq = 2, si_LastTime = 9, si_MaxAge = 0, si_MaxMsgs = 0, si_MaxBytes = 0\<rparr>)],
      lq_ListErr = None, lq_Stream = (\<lambda>_. None), lq_GetMsg = (\<lambda>_ _. None), lq_Pipes = Inr [], lq_Enforced = False,
      lq_CursorFault = None\<rparr>"

definition ex_conn :: conn_env where
  "ex_conn = \<lparr>cn_Creds = True, cn_Account = Some ''acc-0'', cn_NATS = None\<rparr>"

definition ex_state :: daemon_state where
  "ex_state = \<lparr>st_creds = True, st_accountID = ''acc-0'', st_current = Map.empty, st_currentNamespace = Map.empty,
     st_knownPipes = {}, st_handleManifold = Map.empty\<rparr>"

theorem subs_snapshot_complete_witness:
  "\<exists>reply. fst (subsSnapshot ex_conn ex_list_env [''bob.%'', ''eve.inbox'', ''room''] ''s'' (\<lambda>_ _. None) (ex_state, None)) = Inr reply
    \<and> set (covered_subjects reply) \<supseteq> {''eve.inbox'', ''room''}"
proof -
  obtain reply where r: "fst (subsSnapshot ex_conn ex_list_env [''bob.%'', ''eve.inbox'', ''room''] ''s'' (\<lambda>_ _. None) (ex_state, None)) = Inr reply"
    by (simp add: subsSnapshot_def ex_conn_def buildFilteredList_def ex_list_env_def enrichSourcesWithPipeInfo_def
        streamInfoByName_def Let_def)
  from subs_snapshot_complete [OF this] have "{s \<in> set [''bob.%'', ''eve.inbox'', ''room'']. \<not> IsGlobPattern s} \<subseteq> set (covered_subjects reply)"
    by auto
  moreover have "\<not> IsGlobPattern ''eve.inbox''" "\<not> IsGlobPattern ''room''" by (simp_all add: IsGlobPattern_def)
  ultimately have "set (covered_subjects reply) \<supseteq> {''eve.inbox'', ''room''}" by auto
  with r show ?thesis by blast
qed

end
