(* ===== verification/DaemonWatch.thy ===== *)
theory DaemonWatch
  imports DaemonList DaemonConn
begin

text \<open>
  The registry of waiting commands (\<open>internal/daemon/watch_registry.go\<close>) and its part in a connection swap
  (\<open>swapNCLocked\<close> in \<open>daemon.go\<close>), with the subscriptions of every connection on both sides: what the client
  library knows, what is on its way to the broker, what the broker serves, and what is on its way back. The
  handlers, the swap, the broker and the readers of the connections are interleaved step by step.
\<close>

section \<open>State\<close>

text \<open>What a connection sends: a subscription, its removal, and the ping of a flush.\<close>

datatype wire_op = SUB nat | UNSUB nat | PING

text \<open>Where \<open>rearmAll\<close> stands within its loop: between two entries, with a new subscription for an entry in
  hand, or with a subscription to end in hand.\<close>

datatype rearm_hand = Free | Subscribed nat nat | Swapped nat

datatype swap_phase = NoSwap | Rearm "nat option" nat "nat list" rearm_hand | Flushing "nat option" nat

text \<open>Entries, subscriptions and connections are numbered as they are made. \<open>wt_entries\<close> is the registry with
  the subscription of each entry, \<open>wt_permitted\<close> tells whether the credential a connection was dialled with
  permits the subscription of the waits, which is to the whole account (\<open><account>.>\<close>); \<open>wt_subs\<close> gives the connection and the entry of a subscription the client
  library holds, \<open>wt_pending\<close> the subscriptions \<open>remove\<close> has taken from the registry and not yet ended.\<close>

record watch_state =
  wt_NC :: "nat option"
  wt_lastDialErr :: "cerror option"
  wt_entries :: "nat \<Rightarrow> nat option"
  wt_patterns :: "nat \<Rightarrow> string list"
  wt_subs :: "nat \<Rightarrow> (nat \<times> nat) option"
  wt_pending :: "nat list"
  wt_phase :: swap_phase
  wt_wire :: "nat \<Rightarrow> wire_op list"
  wt_served :: "nat \<Rightarrow> nat list"
  wt_inbox :: "nat \<Rightarrow> (nat \<times> string) list"
  wt_closed :: "nat \<Rightarrow> bool"
  wt_woken :: "nat \<Rightarrow> bool"
  wt_warned :: "nat list"
  wt_nentries :: nat
  wt_nsubs :: nat
  wt_nconns :: nat
  wt_permitted :: "nat \<Rightarrow> bool"

definition newWatchRegistry :: "(nat \<Rightarrow> bool) \<Rightarrow> watch_state" where
  "newWatchRegistry permitted =
     \<lparr>wt_NC = None, wt_lastDialErr = None, wt_entries = (\<lambda>_. None), wt_patterns = (\<lambda>_. []), wt_subs = (\<lambda>_. None),
      wt_pending = [], wt_phase = NoSwap, wt_wire = (\<lambda>_. []), wt_served = (\<lambda>_. []), wt_inbox = (\<lambda>_. []),
      wt_closed = (\<lambda>_. False), wt_woken = (\<lambda>_. False), wt_warned = [], wt_nentries = 0, wt_nsubs = 0, wt_nconns = 0,
      wt_permitted = permitted\<rparr>"

section \<open>The client library\<close>

definition Subscribe_core :: "nat \<Rightarrow> nat \<Rightarrow> watch_state \<Rightarrow> nat \<times> watch_state" where
  "Subscribe_core c e st =
     (wt_nsubs st, st\<lparr>wt_subs := (wt_subs st)(wt_nsubs st := Some (c, e)), wt_nsubs := wt_nsubs st + 1,
                      wt_wire := (wt_wire st)(c := wt_wire st c @ [SUB (wt_nsubs st)])\<rparr>)"

definition Unsubscribe_core :: "nat \<Rightarrow> watch_state \<Rightarrow> watch_state" where
  "Unsubscribe_core s st =
     (case wt_subs st s of
        None \<Rightarrow> st
      | Some (c, e) \<Rightarrow> st\<lparr>wt_subs := (wt_subs st)(s := None), wt_wire := (wt_wire st)(c := wt_wire st c @ [UNSUB s])\<rparr>)"

definition Close_core :: "nat option \<Rightarrow> watch_state \<Rightarrow> watch_state" where
  "Close_core nc st =
     (case nc of None \<Rightarrow> st
      | Some c \<Rightarrow> st\<lparr>wt_closed := (wt_closed st)(c := True), wt_wire := (wt_wire st)(c := []), wt_served := (wt_served st)(c := []),
                     wt_inbox := (wt_inbox st)(c := []),
                     wt_subs := (\<lambda>s. case wt_subs st s of None \<Rightarrow> None | Some (c', e) \<Rightarrow> if c' = c then None else Some (c', e))\<rparr>)"

section \<open>The registry\<close>

text \<open>\<open>armWatch\<close>: one critical section, so no swap is under way. The library may refuse the subscription.\<close>

definition add_entry :: "nat \<Rightarrow> string list \<Rightarrow> nat \<Rightarrow> watch_state \<Rightarrow> watch_state" where
  "add_entry e patterns s st =
     st\<lparr>wt_entries := (wt_entries st)(e \<mapsto> s), wt_patterns := (wt_patterns st)(e := patterns), wt_nentries := wt_nentries st + 1\<rparr>"

definition armWatch :: "bool \<Rightarrow> string list \<Rightarrow> watch_state \<Rightarrow> (cerror + nat) \<times> watch_state" where
  "armWatch ok patterns st =
     (case wt_NC st of
        None \<Rightarrow> (Inl (noConnErrLocked (wt_lastDialErr st)), st)
      | Some c \<Rightarrow>
          (if \<not> ok then (Inl (New_err ENATSUnreachable), st)
           else let e = wt_nentries st; (s, st1) = Subscribe_core c e st in (Inr e, add_entry e patterns s st1)))"

text \<open>\<open>remove\<close>: the entry leaves the registry under its lock; the subscription is ended after it is released.\<close>

definition remove_locked :: "nat \<Rightarrow> watch_state \<Rightarrow> watch_state" where
  "remove_locked e st =
     (case wt_entries st e of None \<Rightarrow> st
      | Some s \<Rightarrow> st\<lparr>wt_entries := (wt_entries st)(e := None), wt_pending := wt_pending st @ [s]\<rparr>)"

definition remove_end :: "nat \<Rightarrow> watch_state \<Rightarrow> watch_state" where
  "remove_end s st = (Unsubscribe_core s st)\<lparr>wt_pending := removeAll s (wt_pending st)\<rparr>"

definition swapSub :: "nat \<Rightarrow> nat \<Rightarrow> watch_state \<Rightarrow> nat option \<times> watch_state" where
  "swapSub e newSub st =
     (case wt_entries st e of None \<Rightarrow> (None, st) | Some old \<Rightarrow> (Some old, st\<lparr>wt_entries := (wt_entries st)(e \<mapsto> newSub)\<rparr>))"

section \<open>A swap\<close>

text \<open>\<open>swapNCLocked\<close> installs the new connection, re-arms the entries the registry holds at that moment, one
  after the other, flushes the new connection and closes the old one. Without a new connection it only closes.\<close>

definition swap_begin :: "bool \<Rightarrow> nat list \<Rightarrow> watch_state \<Rightarrow> watch_state" where
  "swap_begin dialled entries st =
     (if dialled
      then st\<lparr>wt_NC := Some (wt_nconns st), wt_nconns := wt_nconns st + 1, wt_phase := Rearm (wt_NC st) (wt_nconns st) entries Free\<rparr>
      else Close_core (wt_NC st) (st\<lparr>wt_NC := None\<rparr>))"

definition rearm_step :: "bool \<Rightarrow> watch_state \<Rightarrow> watch_state" where
  "rearm_step ok st =
     (case wt_phase st of
        Rearm old new es hand \<Rightarrow>
          (case hand of
             Free \<Rightarrow>
               (case es of
                  [] \<Rightarrow> st\<lparr>wt_wire := (wt_wire st)(new := wt_wire st new @ [PING]), wt_phase := Flushing old new\<rparr>
                | e # es' \<Rightarrow>
                    (if ok then let (s, st1) = Subscribe_core new e st in st1\<lparr>wt_phase := Rearm old new es' (Subscribed e s)\<rparr>
                     else st\<lparr>wt_warned := wt_warned st @ [e], wt_phase := Rearm old new es' Free\<rparr>))
           | Subscribed e s \<Rightarrow>
               (case swapSub e s st of
                  (Some o', st1) \<Rightarrow> st1\<lparr>wt_phase := Rearm old new es (Swapped o')\<rparr>
                | (None, st1) \<Rightarrow> st1\<lparr>wt_phase := Rearm old new es (Swapped s)\<rparr>)
           | Swapped s \<Rightarrow> (Unsubscribe_core s st)\<lparr>wt_phase := Rearm old new es Free\<rparr>)
      | _ \<Rightarrow> st)"

definition flush_end :: "watch_state \<Rightarrow> watch_state" where
  "flush_end st = (case wt_phase st of Flushing old new \<Rightarrow> (Close_core old st)\<lparr>wt_phase := NoSwap\<rparr> | _ \<Rightarrow> st)"

section \<open>The broker and the readers\<close>

text \<open>A subscription the credential does not permit is refused; the library only hears of it asynchronously.\<close>

definition broker_step :: "nat \<Rightarrow> watch_state \<Rightarrow> watch_state" where
  "broker_step c st =
     (case wt_wire st c of
        [] \<Rightarrow> st
      | w # ws \<Rightarrow> st\<lparr>wt_wire := (wt_wire st)(c := ws),
                     wt_served := (wt_served st)(c := (case w of SUB s \<Rightarrow> if wt_permitted st c then wt_served st c @ [s] else wt_served st c
                                                        | UNSUB s \<Rightarrow> removeAll s (wt_served st c) | PING \<Rightarrow> wt_served st c))\<rparr>)"

definition broker_publish :: "string \<Rightarrow> watch_state \<Rightarrow> watch_state" where
  "broker_publish subject st = st\<lparr>wt_inbox := (\<lambda>c. wt_inbox st c @ map (\<lambda>s. (s, subject)) (wt_served st c))\<rparr>"

text \<open>The callback of both waits: a token in the wake-up channel, which holds one.\<close>

definition deliver :: "nat \<Rightarrow> watch_state \<Rightarrow> watch_state" where
  "deliver c st =
     (case wt_inbox st c of
        [] \<Rightarrow> st
      | (s, subject) # ms \<Rightarrow>
          (let st1 = st\<lparr>wt_inbox := (wt_inbox st)(c := ms)\<rparr>
           in (case wt_subs st s of
                 None \<Rightarrow> st1
               | Some (c', e) \<Rightarrow> if watch_wakes (wt_patterns st e) subject then st1\<lparr>wt_woken := (wt_woken st)(e := True)\<rparr> else st1)))"

section \<open>Steps\<close>

datatype watch_event =
    ArmWatch bool "string list" | RemoveLocked nat | RemoveEnd nat | SwapBegin bool "nat list" | RearmStep bool
  | FlushEnd bool | BrokerStep nat | Publish string | Deliver nat

text \<open>Arming and swapping exclude each other by \<open>ncMu\<close>; a flush ends with the answer to its ping or in a timeout.\<close>

fun watch_enabled :: "watch_event \<Rightarrow> watch_state \<Rightarrow> bool" where
  "watch_enabled (ArmWatch ok patterns) st = (wt_phase st = NoSwap)"
| "watch_enabled (RemoveLocked e) st = True"
| "watch_enabled (RemoveEnd s) st = (s \<in> set (wt_pending st))"
| "watch_enabled (SwapBegin dialled es) st =
     (wt_phase st = NoSwap \<and> distinct es \<and> (\<forall>e < wt_nentries st. e \<in> set es \<longleftrightarrow> wt_entries st e \<noteq> None) \<and> list_all (\<lambda>e. e < wt_nentries st) es)"
| "watch_enabled (RearmStep ok) st = (case wt_phase st of Rearm old new es hand \<Rightarrow> True | _ \<Rightarrow> False)"
| "watch_enabled (FlushEnd timeout) st = (case wt_phase st of Flushing old new \<Rightarrow> timeout \<or> PING \<notin> set (wt_wire st new) | _ \<Rightarrow> False)"
| "watch_enabled (BrokerStep c) st = True"
| "watch_enabled (Publish subject) st = True"
| "watch_enabled (Deliver c) st = True"

fun watch_step :: "watch_event \<Rightarrow> watch_state \<Rightarrow> watch_state" where
  "watch_step (ArmWatch ok patterns) st = snd (armWatch ok patterns st)"
| "watch_step (RemoveLocked e) st = remove_locked e st"
| "watch_step (RemoveEnd s) st = remove_end s st"
| "watch_step (SwapBegin dialled es) st = swap_begin dialled es st"
| "watch_step (RearmStep ok) st = rearm_step ok st"
| "watch_step (FlushEnd timeout) st = flush_end st"
| "watch_step (BrokerStep c) st = broker_step c st"
| "watch_step (Publish subject) st = broker_publish subject st"
| "watch_step (Deliver c) st = deliver c st"

inductive watch_reach :: "watch_state \<Rightarrow> bool" where
  start: "watch_reach (newWatchRegistry permitted)"
| step: "watch_reach st \<Longrightarrow> watch_enabled ev st \<Longrightarrow> watch_reach (watch_step ev st)"


section \<open>The invariant\<close>

fun in_hand :: "swap_phase \<Rightarrow> nat set" where
  "in_hand (Rearm old new es (Subscribed e s)) = {s}"
| "in_hand (Rearm old new es (Swapped s)) = {s}"
| "in_hand _ = {}"

definition armed :: "watch_state \<Rightarrow> nat \<Rightarrow> nat \<Rightarrow> nat \<Rightarrow> bool" where
  "armed st c e s \<longleftrightarrow> wt_subs st s = Some (c, e) \<or> e \<in> set (wt_warned st)"

text \<open>Numbers are fresh, and the subscription of an entry is its own and nobody is about to end it.\<close>

definition registry_ok :: "watch_state \<Rightarrow> bool" where
  "registry_ok st \<longleftrightarrow>
     (\<forall>e s. wt_entries st e = Some s \<longrightarrow> e < wt_nentries st \<and> s < wt_nsubs st \<and> s \<notin> set (wt_pending st) \<and> s \<notin> in_hand (wt_phase st)
        \<and> (\<forall>e'. wt_entries st e' = Some s \<longrightarrow> e' = e))
   \<and> (\<forall>s. s \<in> set (wt_pending st) \<union> in_hand (wt_phase st) \<longrightarrow> s < wt_nsubs st)
   \<and> set (wt_pending st) \<inter> in_hand (wt_phase st) = {}"

text \<open>The broker serves or will serve every live subscription it permits, and no live subscription leaks.\<close>

definition subs_ok :: "watch_state \<Rightarrow> bool" where
  "subs_ok st \<longleftrightarrow>
     (\<forall>s c e. wt_subs st s = Some (c, e) \<longrightarrow> s < wt_nsubs st \<and> c < wt_nconns st \<and> \<not> wt_closed st c
        \<and> (wt_permitted st c \<longrightarrow> s \<in> set (wt_served st c) \<or> SUB s \<in> set (wt_wire st c)) \<and> UNSUB s \<notin> set (wt_wire st c)
        \<and> (wt_entries st e = Some s \<or> s \<in> set (wt_pending st) \<or> s \<in> in_hand (wt_phase st)))
   \<and> (\<forall>c s. UNSUB s \<in> set (wt_wire st c) \<longrightarrow> s < wt_nsubs st)
   \<and> (\<forall>c. wt_closed st c \<longrightarrow> c < wt_nconns st)
   \<and> (\<forall>c. wt_NC st = Some c \<longrightarrow> c < wt_nconns st \<and> \<not> wt_closed st c)"

text \<open>Outside a swap, and from its flush on, every entry has its subscription on the current connection.\<close>

definition phase_ok :: "watch_state \<Rightarrow> bool" where
  "phase_ok st \<longleftrightarrow>
     (case wt_phase st of
        NoSwap \<Rightarrow> \<forall>c e s. wt_NC st = Some c \<longrightarrow> wt_entries st e = Some s \<longrightarrow> armed st c e s
      | Rearm old new es hand \<Rightarrow> wt_NC st = Some new \<and> (\<forall>c. old = Some c \<longrightarrow> c < wt_nconns st \<and> c \<noteq> new)
          \<and> (\<forall>e s. wt_entries st e = Some s \<longrightarrow> e \<in> set es \<or> (\<exists>s'. hand = Subscribed e s') \<or> armed st new e s)
          \<and> (\<forall>e s. hand = Subscribed e s \<longrightarrow> wt_subs st s = Some (new, e))
      | Flushing old new \<Rightarrow> wt_NC st = Some new \<and> (\<forall>c. old = Some c \<longrightarrow> c < wt_nconns st \<and> c \<noteq> new)
          \<and> (\<forall>e s. wt_entries st e = Some s \<longrightarrow> armed st new e s))"

definition watch_ok :: "watch_state \<Rightarrow> bool" where
  "watch_ok st \<longleftrightarrow> registry_ok st \<and> subs_ok st \<and> phase_ok st"

lemma watch_ok_start: "watch_ok (newWatchRegistry permitted)"
  by (simp add: watch_ok_def registry_ok_def subs_ok_def phase_ok_def newWatchRegistry_def)

lemma watch_ok_arm:
  assumes "watch_ok st" "wt_phase st = NoSwap"
  shows "watch_ok (snd (armWatch ok pats st))"
proof (cases "wt_NC st")
  case None
  with assms show ?thesis by (simp add: armWatch_def)
next
  case (Some c)
  have "wt_entries st (wt_nentries st) = None"
    using assms by (cases "wt_entries st (wt_nentries st)") (auto simp: watch_ok_def registry_ok_def)
  with assms Some show ?thesis
    unfolding watch_ok_def
    apply (intro conjI)
    subgoal by (auto simp: armWatch_def Let_def registry_ok_def Subscribe_core_def add_entry_def less_Suc_eq)
    subgoal by (fastforce simp: armWatch_def Let_def subs_ok_def Subscribe_core_def add_entry_def)
    subgoal by (force simp: armWatch_def Let_def phase_ok_def Subscribe_core_def add_entry_def armed_def registry_ok_def)
    done
qed

lemma watch_ok_lock:
  assumes "watch_ok st"
  shows "watch_ok (remove_locked e st)"
proof (cases "wt_entries st e")
  case None
  with assms show ?thesis by (simp add: remove_locked_def)
next
  case (Some s)
  with assms show ?thesis
    unfolding watch_ok_def
    apply (intro conjI)
    subgoal by (auto simp: remove_locked_def registry_ok_def)
    subgoal by (fastforce simp: remove_locked_def subs_ok_def)
    subgoal by (auto simp: remove_locked_def phase_ok_def armed_def split: swap_phase.splits if_splits)
    done
qed

text \<open>Ending a subscription touches no other one.\<close>

lemma Unsubscribe_core_fields [simp]:
  "wt_entries (Unsubscribe_core s st) = wt_entries st" "wt_pending (Unsubscribe_core s st) = wt_pending st"
  "wt_phase (Unsubscribe_core s st) = wt_phase st" "wt_warned (Unsubscribe_core s st) = wt_warned st"
  "wt_NC (Unsubscribe_core s st) = wt_NC st" "wt_nentries (Unsubscribe_core s st) = wt_nentries st"
  "wt_nsubs (Unsubscribe_core s st) = wt_nsubs st" "wt_nconns (Unsubscribe_core s st) = wt_nconns st"
  "wt_closed (Unsubscribe_core s st) = wt_closed st" "wt_served (Unsubscribe_core s st) = wt_served st"
  "wt_patterns (Unsubscribe_core s st) = wt_patterns st" "wt_woken (Unsubscribe_core s st) = wt_woken st"
  "wt_inbox (Unsubscribe_core s st) = wt_inbox st"
  by (simp_all add: Unsubscribe_core_def split: option.splits)

lemma Unsubscribe_core_subs: "wt_subs (Unsubscribe_core s st) = (wt_subs st)(s := None)"
  by (auto simp: Unsubscribe_core_def fun_eq_iff split: option.splits)

lemma subs_ok_unsubscribe:
  assumes "subs_ok st" "s < wt_nsubs st"
  shows "subs_ok (Unsubscribe_core s st)"
proof (cases "wt_subs st s")
  case None
  with assms show ?thesis by (simp add: Unsubscribe_core_def)
next
  case (Some p)
  with assms show ?thesis by (cases p) (auto simp: subs_ok_def Unsubscribe_core_def)
qed

lemma watch_ok_end:
  assumes "watch_ok st" "s \<in> set (wt_pending st)"
  shows "watch_ok (remove_end s st)"
proof -
  have R: "registry_ok st" "subs_ok st" "phase_ok st" using assms by (auto simp: watch_ok_def)
  then have s: "s < wt_nsubs st" "\<forall>e. wt_entries st e \<noteq> Some s" "s \<notin> in_hand (wt_phase st)"
    using assms by (auto simp: registry_ok_def)
  have "registry_ok (remove_end s st)" using R s by (auto simp: remove_end_def registry_ok_def)
  moreover have "subs_ok (remove_end s st)"
    using subs_ok_unsubscribe [OF R(2) s(1)] s by (fastforce simp: remove_end_def subs_ok_def Unsubscribe_core_subs split: if_splits)
  moreover have "phase_ok (remove_end s st)"
    using R(3) s by (auto simp: remove_end_def phase_ok_def armed_def Unsubscribe_core_subs split: swap_phase.splits)
  ultimately show ?thesis by (simp add: watch_ok_def)
qed

lemma watch_ok_close:
  assumes "registry_ok st" "subs_ok st" "wt_NC st \<noteq> Some c" "c < wt_nconns st"
  shows "registry_ok (Close_core (Some c) st)" "subs_ok (Close_core (Some c) st)"
  using assms by (auto simp: registry_ok_def subs_ok_def Close_core_def split: option.splits if_splits)

lemma watch_ok_begin:
  assumes "watch_ok st" "watch_enabled (SwapBegin dialled es) st"
  shows "watch_ok (swap_begin dialled es st)"
proof (cases dialled)
  case True
  with assms show ?thesis
    unfolding watch_ok_def
    apply (intro conjI)
    subgoal by (auto simp: swap_begin_def registry_ok_def)
    subgoal by (fastforce simp: swap_begin_def subs_ok_def)
    subgoal by (auto simp: swap_begin_def phase_ok_def registry_ok_def subs_ok_def)
    done
next
  case False
  show ?thesis
  proof (cases "wt_NC st")
    case None
    with False assms show ?thesis
      by (auto simp: swap_begin_def Close_core_def watch_ok_def registry_ok_def subs_ok_def phase_ok_def)
  next
    case (Some c)
    let ?st = "st\<lparr>wt_NC := None\<rparr>"
    have 1: "registry_ok ?st" "subs_ok ?st" "c < wt_nconns ?st"
      using assms Some by (auto simp: watch_ok_def registry_ok_def subs_ok_def)
    from watch_ok_close [OF 1(1,2) _ 1(3)] Some False assms show ?thesis
      by (auto simp: swap_begin_def watch_ok_def phase_ok_def Close_core_def)
  qed
qed


lemma subs_ok_handover:
  assumes "subs_ok st" "wt_subs st s = None" "in_hand (wt_phase st) \<subseteq> {s}"
  shows "subs_ok (st\<lparr>wt_phase := ph\<rparr>)"
  using assms unfolding subs_ok_def by (fastforce dest: subsetD)

lemma watch_ok_rearm_next:
  assumes "watch_ok st" "wt_phase st = Rearm old new (e # es) Free"
  shows "watch_ok (rearm_step ok st)"
proof -
  have "new < wt_nconns st" "\<not> wt_closed st new" using assms by (auto simp: watch_ok_def phase_ok_def subs_ok_def)
  with assms show ?thesis
    unfolding watch_ok_def
    apply (intro conjI)
    subgoal by (auto simp: rearm_step_def Let_def registry_ok_def Subscribe_core_def less_Suc_eq)
    subgoal by (cases ok) (fastforce simp: rearm_step_def Let_def subs_ok_def Subscribe_core_def)+
    subgoal by (auto simp: rearm_step_def Let_def phase_ok_def Subscribe_core_def armed_def registry_ok_def)
    done
qed

lemma watch_ok_rearm_swap:
  assumes "watch_ok st" "wt_phase st = Rearm old new es (Subscribed e s)"
  shows "watch_ok (rearm_step ok st)"
proof (cases "wt_entries st e")
  case None
  with assms show ?thesis
    unfolding watch_ok_def
    apply (intro conjI)
    subgoal by (auto simp: rearm_step_def swapSub_def registry_ok_def)
    subgoal by (fastforce simp: rearm_step_def swapSub_def subs_ok_def)
    subgoal by (fastforce simp: rearm_step_def swapSub_def phase_ok_def armed_def)
    done
next
  case (Some s')
  with assms show ?thesis
    unfolding watch_ok_def
    apply (intro conjI)
    subgoal by (auto simp: rearm_step_def swapSub_def registry_ok_def)
    subgoal by (fastforce simp: rearm_step_def swapSub_def subs_ok_def phase_ok_def)
    subgoal by (fastforce simp: rearm_step_def swapSub_def phase_ok_def armed_def)
    done
qed

lemma watch_ok_rearm_unsub:
  assumes "watch_ok st" "wt_phase st = Rearm old new es (Swapped s)"
  shows "watch_ok (rearm_step ok st)"
proof -
  have R: "registry_ok st" "subs_ok st" "phase_ok st" using assms by (auto simp: watch_ok_def)
  then have s: "s < wt_nsubs st" "\<forall>e. wt_entries st e \<noteq> Some s"
    using assms(2) by (auto simp: registry_ok_def)
  have "registry_ok (rearm_step ok st)" using R s assms(2) by (auto simp: rearm_step_def registry_ok_def)
  moreover have "subs_ok (rearm_step ok st)"
    using subs_ok_handover [OF subs_ok_unsubscribe [OF R(2) s(1)], of s] assms(2) by (simp add: rearm_step_def Unsubscribe_core_subs)
  moreover have "phase_ok (rearm_step ok st)"
    using R(3) s assms(2) by (auto simp: rearm_step_def phase_ok_def armed_def Unsubscribe_core_subs)
  ultimately show ?thesis by (simp add: watch_ok_def)
qed

lemma watch_ok_rearm_done:
  assumes "watch_ok st" "wt_phase st = Rearm old new [] Free"
  shows "watch_ok (rearm_step ok st)"
  using assms unfolding watch_ok_def
  apply (intro conjI)
  subgoal by (auto simp: rearm_step_def registry_ok_def)
  subgoal by (fastforce simp: rearm_step_def subs_ok_def)
  subgoal by (auto simp: rearm_step_def phase_ok_def armed_def)
  done

lemma watch_ok_rearm:
  assumes "watch_ok st" "watch_enabled (RearmStep ok) st"
  shows "watch_ok (rearm_step ok st)"
proof -
  obtain old new es hand where p: "wt_phase st = Rearm old new es hand"
    using assms(2) by (auto split: swap_phase.splits)
  show ?thesis
  proof (cases hand)
    case Free
    with p assms(1) show ?thesis by (cases es) (auto intro: watch_ok_rearm_next watch_ok_rearm_done)
  next
    case (Subscribed e s)
    with p assms(1) show ?thesis by (auto intro: watch_ok_rearm_swap)
  next
    case (Swapped s)
    with p assms(1) show ?thesis by (auto intro: watch_ok_rearm_unsub)
  qed
qed


lemma Close_core_phase [simp]: "wt_phase (Close_core nc st) = wt_phase st"
  by (simp add: Close_core_def split: option.splits)

lemma watch_ok_flushed:
  assumes "watch_ok st" "watch_enabled (FlushEnd timeout) st"
  shows "watch_ok (flush_end st)"
proof -
  obtain old new where p: "wt_phase st = Flushing old new" using assms(2) by (auto split: swap_phase.splits)
  show ?thesis
  proof (cases old)
    case None
    with assms p show ?thesis
      by (auto simp: flush_end_def Close_core_def watch_ok_def registry_ok_def subs_ok_def phase_ok_def armed_def)
  next
    case (Some c)
    have R: "registry_ok st" "subs_ok st" "phase_ok st" "wt_NC st \<noteq> Some c" "c < wt_nconns st"
      using assms Some p by (auto simp: watch_ok_def phase_ok_def)
    from watch_ok_close [OF R(1,2,4,5)] have "registry_ok (flush_end st)" "subs_ok (flush_end st)"
      using p Some by (auto simp: flush_end_def registry_ok_def subs_ok_def)
    moreover have "phase_ok (flush_end st)"
      using R(3,4) p Some by (fastforce simp: flush_end_def phase_ok_def armed_def Close_core_def)
    ultimately show ?thesis by (simp add: watch_ok_def)
  qed
qed

lemma broker_fields [simp]:
  "wt_entries (broker_step c st) = wt_entries st" "wt_pending (broker_step c st) = wt_pending st"
  "wt_phase (broker_step c st) = wt_phase st" "wt_warned (broker_step c st) = wt_warned st"
  "wt_NC (broker_step c st) = wt_NC st" "wt_nentries (broker_step c st) = wt_nentries st"
  "wt_nsubs (broker_step c st) = wt_nsubs st" "wt_nconns (broker_step c st) = wt_nconns st"
  "wt_closed (broker_step c st) = wt_closed st" "wt_subs (broker_step c st) = wt_subs st"
  "wt_patterns (broker_step c st) = wt_patterns st" "wt_woken (broker_step c st) = wt_woken st"
  "wt_inbox (broker_step c st) = wt_inbox st" "wt_permitted (broker_step c st) = wt_permitted st"
  by (simp_all add: broker_step_def split: list.splits)

lemma broker_wire: "set (wt_wire (broker_step c st) c') \<subseteq> set (wt_wire st c')"
  by (auto simp: broker_step_def split: list.splits if_splits)

lemma broker_keeps:
  assumes "wt_permitted st c'" "UNSUB s \<notin> set (wt_wire st c')" "s \<in> set (wt_served st c') \<or> SUB s \<in> set (wt_wire st c')"
  shows "s \<in> set (wt_served (broker_step c st) c') \<or> SUB s \<in> set (wt_wire (broker_step c st) c')"
  using assms by (auto simp: broker_step_def split: list.splits wire_op.splits)

lemma watch_ok_broker:
  assumes "watch_ok st"
  shows "watch_ok (broker_step c st)"
proof -
  have R: "registry_ok st" "subs_ok st" "phase_ok st" using assms by (auto simp: watch_ok_def)
  have "registry_ok (broker_step c st)" using R(1) by (simp add: registry_ok_def)
  moreover have "phase_ok (broker_step c st)"
    using R(3) by (simp add: phase_ok_def armed_def cong: swap_phase.case_cong)
  moreover have "subs_ok (broker_step c st)"
    using R(2) broker_wire [of c st] unfolding subs_ok_def broker_fields by (meson broker_keeps subset_iff)
  ultimately show ?thesis by (simp add: watch_ok_def)
qed

lemma watch_ok_frame:
  assumes "watch_ok st" "wt_entries st' = wt_entries st" "wt_pending st' = wt_pending st" "wt_phase st' = wt_phase st"
    "wt_subs st' = wt_subs st" "wt_wire st' = wt_wire st" "wt_served st' = wt_served st" "wt_closed st' = wt_closed st"
    "wt_warned st' = wt_warned st" "wt_NC st' = wt_NC st" "wt_nentries st' = wt_nentries st" "wt_nsubs st' = wt_nsubs st"
    "wt_nconns st' = wt_nconns st" "wt_permitted st' = wt_permitted st"
  shows "watch_ok st'"
  using assms by (simp add: watch_ok_def registry_ok_def subs_ok_def phase_ok_def armed_def cong: swap_phase.case_cong)

lemma watch_ok_deliver:
  assumes "watch_ok st"
  shows "watch_ok (deliver c st)"
  by (rule watch_ok_frame [OF assms]) (auto simp: deliver_def Let_def split: list.splits prod.splits option.splits)

theorem watch_ok_step:
  assumes "watch_ok st" "watch_enabled ev st"
  shows "watch_ok (watch_step ev st)"
proof (cases ev)
  case (ArmWatch ok patterns)
  with assms show ?thesis by (simp add: watch_ok_arm)
next
  case (RemoveLocked e)
  with assms show ?thesis by (simp add: watch_ok_lock)
next
  case (RemoveEnd s)
  with assms show ?thesis by (simp add: watch_ok_end)
next
  case (SwapBegin dialled es)
  with watch_ok_begin [of st dialled es] assms show ?thesis by simp
next
  case (RearmStep ok)
  with watch_ok_rearm [of st ok] assms show ?thesis by simp
next
  case (FlushEnd timeout)
  with watch_ok_flushed [of st timeout] assms show ?thesis by simp
next
  case (BrokerStep c)
  with assms show ?thesis by (simp add: watch_ok_broker)
next
  case (Publish subject)
  have "watch_ok (broker_publish subject st)"
    by (rule watch_ok_frame [OF assms(1)]) (simp_all add: broker_publish_def)
  with Publish show ?thesis by simp
next
  case (Deliver c)
  with assms show ?thesis by (simp add: watch_ok_deliver)
qed

lemma reach_ok: "watch_reach st \<Longrightarrow> watch_ok st"
  by (induction rule: watch_reach.induct) (auto intro: watch_ok_start watch_ok_step)


section \<open>Between swaps no message is missed\<close>

definition broker_drain :: "nat \<Rightarrow> watch_state \<Rightarrow> watch_state" where
  "broker_drain c st = (broker_step c ^^ length (wt_wire st c)) st"

definition read_all :: "nat \<Rightarrow> watch_state \<Rightarrow> watch_state" where
  "read_all c st = (deliver c ^^ length (wt_inbox st c)) st"

lemma broker_step_wire: "wt_wire (broker_step c st) c = tl (wt_wire st c)"
  by (simp add: broker_step_def split: list.splits)

lemma broker_steps_wire: "wt_wire ((broker_step c ^^ n) st) c = drop n (wt_wire st c)"
  by (induction n) (simp_all add: broker_step_wire drop_Suc tl_drop)

lemma broker_steps_ok: "watch_ok st \<Longrightarrow> watch_ok ((broker_step c ^^ n) st)"
  by (induction n) (simp_all add: watch_ok_broker)

lemma broker_steps_fields [simp]:
  "wt_subs ((broker_step c ^^ n) st) = wt_subs st" "wt_permitted ((broker_step c ^^ n) st) = wt_permitted st" "wt_patterns ((broker_step c ^^ n) st) = wt_patterns st"
  by (induction n) simp_all

lemma drained_serves:
  assumes "watch_ok st" "wt_subs st s = Some (c, e)" "wt_permitted st c"
  shows "s \<in> set (wt_served (broker_drain c st) c)"
proof -
  have "subs_ok (broker_drain c st)"
    using broker_steps_ok [OF assms(1)] by (simp add: broker_drain_def watch_ok_def)
  moreover have "wt_subs (broker_drain c st) s = Some (c, e)" "wt_wire (broker_drain c st) c = []" "wt_permitted (broker_drain c st) c"
    using assms(2,3) by (simp_all add: broker_drain_def broker_steps_wire)
  ultimately show ?thesis by (fastforce simp: subs_ok_def)
qed

lemma deliver_fields [simp]:
  "wt_subs (deliver c st) = wt_subs st" "wt_patterns (deliver c st) = wt_patterns st" "wt_inbox (deliver c st) c = tl (wt_inbox st c)"
  by (auto simp: deliver_def Let_def split: list.splits prod.splits option.splits)

lemma deliver_woken: "wt_woken st e \<Longrightarrow> wt_woken (deliver c st) e"
  by (auto simp: deliver_def Let_def split: list.splits prod.splits option.splits)

lemma deliver_wakes:
  assumes "wt_subs st s = Some (c', e)" "watch_wakes (wt_patterns st e) subject" "(s, subject) \<in> set (take n (wt_inbox st c))"
  shows "wt_woken ((deliver c ^^ n) st) e"
  using assms
proof (induction n arbitrary: st)
  case (Suc n)
  have keep: "wt_woken ((deliver c ^^ k) st') e" if "wt_woken st' e" for k st'
    using that by (induction k) (simp_all add: deliver_woken)
  show ?case
  proof (cases "wt_inbox st c")
    case (Cons m ms)
    show ?thesis
    proof (cases "m = (s, subject)")
      case True
      with Cons Suc.prems have "wt_woken (deliver c st) e" by (simp add: deliver_def Let_def)
      from keep [OF this] show ?thesis by (simp add: funpow_swap1)
    next
      case False
      with Cons Suc.prems have "wt_woken ((deliver c ^^ n) (deliver c st)) e" by (intro Suc.IH) auto
      then show ?thesis by (simp add: funpow_swap1)
    qed
  qed (use Suc.prems in simp)
qed simp

text \<open>On a connection that does not permit the subscription nothing is ever served.\<close>

lemma unpermitted_step:
  assumes "\<forall>c. \<not> wt_permitted st c \<longrightarrow> wt_served st c = [] \<and> wt_inbox st c = []"
  shows "wt_permitted (watch_step ev st) = wt_permitted st
    \<and> (\<forall>c. \<not> wt_permitted st c \<longrightarrow> wt_served (watch_step ev st) c = [] \<and> wt_inbox (watch_step ev st) c = [])"
proof (cases ev)
  case (ArmWatch ok patterns)
  with assms show ?thesis by (auto simp: armWatch_def Subscribe_core_def add_entry_def Let_def split: option.split)
next
  case (RemoveLocked e)
  with assms show ?thesis by (auto simp: remove_locked_def split: option.split)
next
  case (RemoveEnd s)
  with assms show ?thesis by (auto simp: remove_end_def Unsubscribe_core_def split: option.split)
next
  case (SwapBegin dialled es)
  with assms show ?thesis by (auto simp: swap_begin_def Close_core_def split: option.split)
next
  case (RearmStep ok)
  with assms show ?thesis
    by (auto simp: rearm_step_def Subscribe_core_def swapSub_def Unsubscribe_core_def Let_def
        split: swap_phase.split rearm_hand.split list.split option.split)
next
  case (FlushEnd timeout)
  with assms show ?thesis by (auto simp: flush_end_def Close_core_def split: swap_phase.split option.split)
next
  case (BrokerStep c)
  with assms show ?thesis by (auto simp: broker_step_def split: list.split wire_op.split)
next
  case (Publish subject)
  with assms show ?thesis by (simp add: broker_publish_def)
next
  case (Deliver c)
  with assms show ?thesis by (auto simp: deliver_def Let_def split: list.split option.split)
qed

lemma unpermitted_silent: "watch_reach st \<Longrightarrow> \<forall>c. \<not> wt_permitted st c \<longrightarrow> wt_served st c = [] \<and> wt_inbox st c = []"
proof (induction rule: watch_reach.induct)
  case (start permitted)
  show ?case by (simp add: newWatchRegistry_def)
next
  case (step st ev)
  with unpermitted_step [of st ev] show ?case by simp
qed

text \<open>C16: Between swaps a waiting command is woken. In every reachable state outside a swap, whatever commands came
  and went and whatever swaps there were: on a connection whose credential permits the account-wide
  subscription, once the broker has handled what the connection has sent, a publish that matches the
  command's patterns wakes the command, unless a warning was recorded that its subscription could not be
  renewed; and on a connection whose credential does not permit it - the compiled ones list the readable subjects
  one by one - the broker serves no subscription and no message ever arrives. Every subscription the
  client holds belongs to a waiting command or to one that is just leaving.\<close>

theorem watch_wakes_between_swaps:
  assumes "watch_reach st" and "wt_phase st = NoSwap" and "wt_NC st = Some c"
    and "wt_entries st e = Some s" and "e \<notin> set (wt_warned st)" and "watch_wakes (wt_patterns st e) subject"
  shows "(wt_permitted st c \<longrightarrow> wt_woken (read_all c (broker_publish subject (broker_drain c st))) e)
    \<and> (\<not> wt_permitted st c \<longrightarrow> wt_served st c = [] \<and> wt_inbox st c = [])
    \<and> (\<forall>s' c' e'. wt_subs st s' = Some (c', e') \<longrightarrow> wt_entries st e' = Some s' \<or> s' \<in> set (wt_pending st))"
proof (intro conjI impI)
  have ok: "watch_ok st" using assms(1) by (rule reach_ok)
  then have live: "wt_subs st s = Some (c, e)"
    using assms by (auto simp: watch_ok_def phase_ok_def armed_def)
  let ?st = "broker_publish subject (broker_drain c st)"
  show "wt_woken (read_all c ?st) e" if "wt_permitted st c"
  proof -
    have "(s, subject) \<in> set (wt_inbox ?st c)" using drained_serves [OF ok live that] by (simp add: broker_publish_def)
    then show ?thesis
      unfolding read_all_def
      using live assms(6) by (intro deliver_wakes [of _ s c e subject]) (simp_all add: broker_publish_def broker_drain_def)
  qed
  show "\<forall>s' c' e'. wt_subs st s' = Some (c', e') \<longrightarrow> wt_entries st e' = Some s' \<or> s' \<in> set (wt_pending st)"
    using ok assms(2) by (fastforce simp: watch_ok_def subs_ok_def)
qed (use unpermitted_silent [OF assms(1)] in blast)+

section \<open>A swap loses what arrives while it re-arms\<close>

fun watch_run :: "watch_event list \<Rightarrow> watch_state \<Rightarrow> watch_state option" where
  "watch_run [] st = Some st"
| "watch_run (ev # evs) st = (if watch_enabled ev st then watch_run evs (watch_step ev st) else None)"

definition fresh_ok :: "watch_state \<Rightarrow> bool" where
  "fresh_ok st \<longleftrightarrow> (\<forall>c \<ge> wt_nconns st. wt_wire st c = [] \<and> wt_served st c = [] \<and> wt_inbox st c = [])"

lemma fresh_unsubscribe: "fresh_ok st \<Longrightarrow> subs_ok st \<Longrightarrow> fresh_ok (Unsubscribe_core s st)"
  by (fastforce simp: fresh_ok_def subs_ok_def Unsubscribe_core_def split: option.splits)

lemma fresh_close: "fresh_ok st \<Longrightarrow> fresh_ok (Close_core nc st)"
  by (auto simp: fresh_ok_def Close_core_def split: option.splits)

lemma fresh_frame:
  assumes "fresh_ok st" "wt_wire st' = wt_wire st" "wt_served st' = wt_served st" "wt_inbox st' = wt_inbox st"
    "wt_nconns st \<le> wt_nconns st'"
  shows "fresh_ok st'"
  using assms by (auto simp: fresh_ok_def)

lemma fresh_step:
  assumes "fresh_ok st" "watch_ok st" "watch_enabled ev st"
  shows "fresh_ok (watch_step ev st)"
proof (cases ev)
  case (ArmWatch ok patterns)
  with assms show ?thesis
    by (auto simp: armWatch_def Subscribe_core_def add_entry_def Let_def fresh_ok_def watch_ok_def subs_ok_def split: option.splits)
next
  case (RemoveLocked e)
  with assms show ?thesis by (auto simp: remove_locked_def fresh_ok_def split: option.splits)
next
  case (RemoveEnd s)
  have "fresh_ok (Unsubscribe_core s st)" using assms by (intro fresh_unsubscribe) (simp_all add: watch_ok_def)
  with RemoveEnd show ?thesis by (auto simp: remove_end_def intro: fresh_frame)
next
  case (SwapBegin dialled es)
  have "fresh_ok (st\<lparr>wt_NC := None\<rparr>)" using assms(1) by (rule fresh_frame) simp_all
  with SwapBegin assms(1) show ?thesis
    by (auto simp: swap_begin_def intro!: fresh_close intro: fresh_frame)
next
  case (RearmStep ok)
  then obtain old new es hand where p: "wt_phase st = Rearm old new es hand"
    using assms(3) by (auto split: swap_phase.splits)
  then have new: "new < wt_nconns st" using assms(2) by (auto simp: watch_ok_def phase_ok_def subs_ok_def)
  have un: "fresh_ok (Unsubscribe_core s st)" for s using assms by (intro fresh_unsubscribe) (simp_all add: watch_ok_def)
  show ?thesis
    using assms(1) p new RearmStep un
    by (auto simp: rearm_step_def Subscribe_core_def swapSub_def Let_def fresh_ok_def split: rearm_hand.splits list.splits option.splits)
next
  case (FlushEnd timeout)
  then obtain old new where "wt_phase st = Flushing old new" using assms(3) by (auto split: swap_phase.splits)
  with FlushEnd fresh_frame [OF fresh_close [OF assms(1)], of "flush_end st" old] show ?thesis by (simp add: flush_end_def)
next
  case (BrokerStep c)
  with assms(1) show ?thesis by (auto simp: broker_step_def fresh_ok_def split: list.splits)
next
  case (Publish subject)
  with assms(1) show ?thesis by (auto simp: broker_publish_def fresh_ok_def)
next
  case (Deliver c)
  with assms(1) show ?thesis
    by (auto simp: deliver_def fresh_ok_def Let_def split: list.splits prod.splits option.splits)
qed

lemma reach_fresh: "watch_reach st \<Longrightarrow> fresh_ok st"
proof (induction rule: watch_reach.induct)
  case start
  show ?case by (simp add: fresh_ok_def newWatchRegistry_def)
next
  case (step st ev)
  then show ?case by (intro fresh_step reach_ok)
qed

text \<open>A swap in which nothing fails, with one message at the moment the old subscription has been ended and the
  new one is still on its way; at the end everything has been flushed, handled and read.\<close>

definition gap_run :: "nat \<Rightarrow> nat \<Rightarrow> string \<Rightarrow> watch_event list" where
  "gap_run e new subject =
     [SwapBegin True [e], RearmStep True, RearmStep True, RearmStep True, Publish subject, RearmStep True,
      BrokerStep new, BrokerStep new, FlushEnd False]"

text \<open>C35: A message that arrives while a swap re-arms a waiting command is lost: the old subscription is ended
  before the broker knows the new one, so in a swap in which nothing fails and nothing times out a matching
  publish wakes nobody, and the command goes on waiting with everything read.\<close>

theorem swap_gap_loses_wakeup:
  assumes "watch_reach st" and "wt_phase st = NoSwap" and "wt_NC st = Some c"
    and "\<forall>e'. wt_entries st e' \<noteq> None \<longleftrightarrow> e' = e" and "e \<notin> set (wt_warned st)" and "\<not> wt_woken st e"
    and "watch_wakes (wt_patterns st e) subject"
  shows "\<exists>st' s'. watch_run (gap_run e (wt_nconns st) subject) st = Some st' \<and> wt_phase st' = NoSwap
    \<and> wt_NC st' = Some (wt_nconns st) \<and> wt_entries st' e = Some s' \<and> (wt_permitted st (wt_nconns st) \<longrightarrow> s' \<in> set (wt_served st' (wt_nconns st)))
    \<and> wt_wire st' (wt_nconns st) = [] \<and> wt_inbox st' (wt_nconns st) = [] \<and> wt_inbox st' c = []
    \<and> wt_warned st' = wt_warned st \<and> \<not> wt_woken st' e"
proof -
  have ok: "watch_ok st" using assms(1) by (rule reach_ok)
  obtain s where s: "wt_entries st e = Some s" using assms(4) by auto
  then have live: "wt_subs st s = Some (c, e)" "e < wt_nentries st" "s < wt_nsubs st" "c < wt_nconns st"
    using ok assms by (auto simp: watch_ok_def phase_ok_def armed_def registry_ok_def subs_ok_def)
  have fresh: "wt_wire st (wt_nconns st) = []" "wt_served st (wt_nconns st) = []" "wt_inbox st (wt_nconns st) = []"
    using reach_fresh [OF assms(1)] by (auto simp: fresh_ok_def)
  have en: "watch_enabled (SwapBegin True [e]) st" using assms(2,4) live by auto
  show ?thesis
    using en s live fresh assms(2,3,6)
    by (simp add: gap_run_def swap_begin_def rearm_step_def Subscribe_core_def swapSub_def Unsubscribe_core_def
        broker_publish_def broker_step_def flush_end_def Close_core_def Let_def del: watch_enabled.simps(4))
qed


section \<open>A run: dial, arm, rotate\<close>

definition ex_watch_events :: "watch_event list" where
  "ex_watch_events =
     [SwapBegin True [], RearmStep True, BrokerStep 0, FlushEnd False, ArmWatch True [''bob.%''], SwapBegin True [0], RearmStep True,
      RearmStep True, RearmStep True, RearmStep True, BrokerStep 1, BrokerStep 1, FlushEnd False]"

definition ex_watch :: watch_state where
  "ex_watch = the (watch_run ex_watch_events (newWatchRegistry (\<lambda>c. True)))"

lemma run_reach: "watch_reach st \<Longrightarrow> watch_run evs st = Some st' \<Longrightarrow> watch_reach st'"
  by (induction evs arbitrary: st) (auto split: if_splits intro: watch_reach.step)

lemmas watch_steps = swap_begin_def rearm_step_def Subscribe_core_def swapSub_def Unsubscribe_core_def armWatch_def add_entry_def
  broker_publish_def broker_step_def flush_end_def Close_core_def

lemma ex_watch_run:
  "\<exists>st. watch_run ex_watch_events (newWatchRegistry (\<lambda>c. True)) = Some st \<and> wt_phase st = NoSwap \<and> wt_NC st = Some 1
    \<and> wt_entries st = (\<lambda>_. None)(0 \<mapsto> 1) \<and> wt_warned st = [] \<and> wt_patterns st = (\<lambda>_. [])(0 := [''bob.%'']) \<and> wt_woken st = (\<lambda>_. False)
    \<and> wt_permitted st = (\<lambda>c. True)"
  by (simp add: ex_watch_events_def newWatchRegistry_def watch_steps Let_def fun_eq_iff)

lemma ex_watch_facts:
  "watch_reach ex_watch" "wt_phase ex_watch = NoSwap" "wt_NC ex_watch = Some 1" "wt_entries ex_watch = (\<lambda>_. None)(0 \<mapsto> 1)"
  "wt_warned ex_watch = []" "wt_patterns ex_watch = (\<lambda>_. [])(0 := [''bob.%''])" "wt_woken ex_watch = (\<lambda>_. False)"
  "wt_permitted ex_watch = (\<lambda>c. True)"
  using ex_watch_run run_reach [OF watch_reach.start] by (auto simp: ex_watch_def)

lemma ex_watch_wakes: "watch_wakes [''bob.%''] ''acc.bob.inbox''"
  by code_simp

theorem watch_wakes_between_swaps_witness:
  "wt_woken (read_all 1 (broker_publish ''acc.bob.inbox'' (broker_drain 1 ex_watch))) 0"
proof -
  have "wt_permitted ex_watch 1 \<longrightarrow> wt_woken (read_all 1 (broker_publish ''acc.bob.inbox'' (broker_drain 1 ex_watch))) 0"
    by (rule watch_wakes_between_swaps [where s = 1, THEN conjunct1]) (simp_all add: ex_watch_facts ex_watch_wakes)
  then show ?thesis by (simp add: ex_watch_facts)
qed

theorem swap_gap_loses_wakeup_witness:
  "\<exists>st'. watch_run (gap_run 0 (wt_nconns ex_watch) ''acc.bob.inbox'') ex_watch = Some st' \<and> \<not> wt_woken st' 0"
proof -
  have "\<exists>st' s'. watch_run (gap_run 0 (wt_nconns ex_watch) ''acc.bob.inbox'') ex_watch = Some st' \<and> wt_phase st' = NoSwap
    \<and> wt_NC st' = Some (wt_nconns ex_watch) \<and> wt_entries st' 0 = Some s' \<and> (wt_permitted ex_watch (wt_nconns ex_watch) \<longrightarrow> s' \<in> set (wt_served st' (wt_nconns ex_watch)))
    \<and> wt_wire st' (wt_nconns ex_watch) = [] \<and> wt_inbox st' (wt_nconns ex_watch) = [] \<and> wt_inbox st' 1 = []
    \<and> wt_warned st' = wt_warned ex_watch \<and> \<not> wt_woken st' 0"
    by (rule swap_gap_loses_wakeup) (simp_all add: ex_watch_facts ex_watch_wakes)
  then show ?thesis by blast
qed

end
