(* ===== verification/WebSession.thy ===== *)
theory WebSession
  imports DbPrincipals GoText
begin

text \<open>
  Signed tokens of the web surface: the session cookie (\<open>internal/server/session.go\<close>, \<open>auth_session.go\<close>), the
  state parameter of the GitHub login with its store of consumed nonces (\<open>oauth_state.go\<close>), and the login
  handlers (\<open>handlers_auth.go\<close>).

  URL-safe base64 is defined here; JSON, HMAC-SHA256, the parser of account ids and GitHub are
  arguments. Every call of the clock is an argument of its own.
\<close>

section \<open>Base64\<close>

definition b64_char :: "nat \<Rightarrow> char" where
  "b64_char n = (if n < 26 then char_of (65 + n) else if n < 52 then char_of (71 + n)
     else if n < 62 then char_of (n - 4) else if n = 62 then CHR ''-'' else CHR ''_'')"

definition b64_value :: "char \<Rightarrow> nat option" where
  "b64_value c = (let n = of_char c in
     if 65 \<le> n \<and> n \<le> 90 then Some (n - 65) else if 97 \<le> n \<and> n \<le> 122 then Some (n - 71)
     else if 48 \<le> n \<and> n \<le> 57 then Some (n + 4) else if n = 45 then Some 62 else if n = 95 then Some 63 else None)"

text \<open>\<open>base64.RawURLEncoding\<close>: no padding; decoding skips line breaks and ignores the unused bits of the end.\<close>

fun RawURL_encode :: "string \<Rightarrow> string" where
  "RawURL_encode [] = []"
| "RawURL_encode [a] = [b64_char (of_char a div 4), b64_char (of_char a mod 4 * 16)]"
| "RawURL_encode [a, b] =
     [b64_char (of_char a div 4), b64_char (of_char a mod 4 * 16 + of_char b div 16), b64_char (of_char b mod 16 * 4)]"
| "RawURL_encode (a # b # c # s) =
     b64_char (of_char a div 4) # b64_char (of_char a mod 4 * 16 + of_char b div 16)
     # b64_char (of_char b mod 16 * 4 + of_char c div 64) # b64_char (of_char c mod 64) # RawURL_encode s"

fun b64_bytes :: "nat list \<Rightarrow> string option" where
  "b64_bytes [] = Some []"
| "b64_bytes [x] = None"
| "b64_bytes [x, y] = Some [char_of (x * 4 + y div 16)]"
| "b64_bytes [x, y, z] = Some [char_of (x * 4 + y div 16), char_of (y mod 16 * 16 + z div 4)]"
| "b64_bytes (x # y # z # w # s) =
     map_option (\<lambda>r. char_of (x * 4 + y div 16) # char_of (y mod 16 * 16 + z div 4) # char_of (z mod 4 * 64 + w) # r)
       (b64_bytes s)"

definition RawURL_decode :: "string \<Rightarrow> string option" where
  "RawURL_decode s =
     (let vs = map b64_value (filter (\<lambda>c. c \<noteq> CHR 0x0A \<and> c \<noteq> CHR 0x0D) s)
      in if None \<in> set vs then None else b64_bytes (map the vs))"

lemma b64_value_char [simp]: "n < 64 \<Longrightarrow> b64_value (b64_char n) = Some n"
  by (auto simp: b64_char_def b64_value_def Let_def)

lemma b64_char_plain: "n < 64 \<Longrightarrow> b64_char n \<noteq> CHR 0x0A \<and> b64_char n \<noteq> CHR 0x0D \<and> b64_char n \<noteq> CHR ''.''"
proof -
  assume "n < 64"
  then have "of_char (b64_char n) \<in> {45::nat, 95} \<union> {48..57} \<union> {65..90} \<union> {97..122}"
    by (auto simp: b64_char_def)
  then show ?thesis by auto
qed

lemma of_char_less [simp]: "of_char c < (256::nat)"
  by (metis of_char_mod_256 mod_less_divisor zero_less_numeral)

lemma b64_first [simp]: "of_char (a :: char) div 4 < (64::nat)"
  using of_char_less [of a] by linarith

lemma b64_second [simp]: "of_char (a :: char) mod 4 * 16 + of_char (b :: char) div 16 < (64::nat)"
  using of_char_less [of b] by linarith

lemma b64_third [simp]: "of_char (b :: char) mod 16 * 4 + of_char (c :: char) div 64 < (64::nat)"
  using of_char_less [of c] by linarith

lemma b64_ends [simp]: "of_char (a :: char) mod 4 * 16 < (64::nat)" "of_char (b :: char) mod 16 * 4 < (64::nat)"
  by linarith+

definition sextets :: "string \<Rightarrow> nat list" where
  "sextets s = map (the \<circ> b64_value) (RawURL_encode s)"

lemma b64_char_in: "n < 64 \<Longrightarrow> b64_char n \<in> b64_char ` {..<64}"
  by (rule imageI) simp

lemma encode_set: "set (RawURL_encode s) \<subseteq> b64_char ` {..<64}"
  by (induction s rule: RawURL_encode.induct)
    (simp_all only: RawURL_encode.simps list.set insert_subset empty_subsetI simp_thms b64_char_in b64_first b64_second
      b64_third b64_ends mod_less_divisor zero_less_numeral)

lemma encode_plain: "c \<in> set (RawURL_encode s) \<Longrightarrow> c \<noteq> CHR 0x0A \<and> c \<noteq> CHR 0x0D \<and> c \<noteq> CHR ''.''"
proof -
  assume "c \<in> set (RawURL_encode s)"
  with encode_set [of s] have "c \<in> b64_char ` {..<64}" by (rule subsetD)
  then obtain n where "c = b64_char n" "n < 64" by (elim imageE) simp
  then show ?thesis using b64_char_plain [of n] by simp
qed

lemma encode_no_dot [simp]: "CHR ''.'' \<notin> set (RawURL_encode s)"
  using encode_plain by blast

lemma encode_nonempty [simp]: "RawURL_encode s = [] \<longleftrightarrow> s = []"
  by (cases s rule: RawURL_encode.cases) auto

lemma sextet_first: "(a::nat) div 4 * 4 + (a mod 4 * 16 + b div 16) div 16 = a" if "b < 256"
proof -
  have "(a mod 4 * 16 + b div 16) div 16 = a mod 4" using that by (simp add: div_add1_eq)
  then show ?thesis by simp
qed

lemma sextet_second: "(a mod 4 * 16 + b div 16) mod 16 * 16 + (b mod 16 * 4 + c div 64) div 4 = (b::nat)"
  if "b < 256" "c < 256"
proof -
  have "(b mod 16 * 4 + c div 64) div 4 = b mod 16" using that by (simp add: div_add1_eq)
  moreover have "(a mod 4 * 16 + b div 16) mod 16 = b div 16" using that by simp
  ultimately show ?thesis by simp
qed

lemma sextet_third: "(b mod 16 * 4 + c div 64) mod 4 * 64 + c mod 64 = (c::nat)" if "c < 256"
proof -
  have "(b mod 16 * 4 + c div 64) mod 4 = c div 64" using that by simp
  then show ?thesis by simp
qed

lemma b64_bytes_sextets: "b64_bytes (sextets s) = Some s"
proof (induction s rule: RawURL_encode.induct)
  case (2 a)
  then show ?case using sextet_first [of 0 "of_char a"] by (simp add: sextets_def)
next
  case (3 a b)
  then show ?case using sextet_first [of "of_char b" "of_char a"] sextet_second [of "of_char b" 0 "of_char a"]
    by (simp add: sextets_def)
next
  case (4 a b c s)
  have "sextets (a # b # c # s) = of_char a div 4 # (of_char a mod 4 * 16 + of_char b div 16)
      # (of_char b mod 16 * 4 + of_char c div 64) # of_char c mod 64 # sextets s"
    by (simp add: sextets_def)
  then show ?case
    by (simp only: b64_bytes.simps 4 option.map sextet_first [OF of_char_less] sextet_second [OF of_char_less of_char_less]
        sextet_third [OF of_char_less] char_of_char)
qed (simp add: sextets_def)

lemma RawURL_roundtrip [simp]: "RawURL_decode (RawURL_encode s) = Some s"
proof -
  have f: "filter (\<lambda>c. c \<noteq> CHR 0x0A \<and> c \<noteq> CHR 0x0D) (RawURL_encode s) = RawURL_encode s"
    by (rule filter_True) (simp add: encode_plain)
  have "b64_value c \<noteq> None" if "c \<in> set (RawURL_encode s)" for c
    using subsetD [OF encode_set that] by auto
  then have "None \<notin> set (map b64_value (RawURL_encode s))" by (metis (no_types, lifting) image_iff set_map)
  then show ?thesis using b64_bytes_sextets [of s] by (simp add: RawURL_decode_def f sextets_def comp_def)
qed

section \<open>Signed tokens\<close>

type_synonym session_key = string

text \<open>
  The library functions: HMAC-SHA256 of a key and a body, \<open>json.Marshal\<close> and \<open>json.Unmarshal\<close> for the two
  wire shapes, \<open>uuid.Parse\<close>.
\<close>

record token_lib =
  tl_HMAC :: "session_key \<Rightarrow> string \<Rightarrow> string"
  tl_SessionJSON :: "string \<times> int \<Rightarrow> string"
  tl_SessionWire :: "string \<Rightarrow> (string \<times> int) option"
  tl_StateJSON :: "string \<times> string \<times> int \<Rightarrow> string"
  tl_StateWire :: "string \<Rightarrow> (string \<times> string \<times> int) option"
  tl_ParseUUID :: "string \<Rightarrow> uuid option"

definition unix_offset :: int where "unix_offset = 62135596800"

definition Unix :: "instant \<Rightarrow> int" where "Unix t = t div second - unix_offset"
definition time_Unix :: "int \<Rightarrow> instant" where "time_Unix s = (s + unix_offset) * second"

definition sign_body :: "token_lib \<Rightarrow> session_key \<Rightarrow> string \<Rightarrow> string" where
  "sign_body L key b = RawURL_encode b @ ''.'' @ RawURL_encode (tl_HMAC L key b)"

text \<open>The first half of both verifiers: cut at the first dot, decode both sides, compare the signature.\<close>

definition signed_body :: "token_lib \<Rightarrow> session_key \<Rightarrow> string \<Rightarrow> string option" where
  "signed_body L key token =
     (if token = '''' \<or> key = '''' then None
      else case cut_at CHR ''.'' token of None \<Rightarrow> None
      | Some (a, b) \<Rightarrow>
          if a = '''' \<or> b = '''' then None
          else case RawURL_decode a of None \<Rightarrow> None
          | Some bd \<Rightarrow>
              (case RawURL_decode b of None \<Rightarrow> None
               | Some sig \<Rightarrow> if sig = tl_HMAC L key bd then Some bd else None))"

section \<open>session.go\<close>

record sessionpayload =
  sp_UserID :: uuid
  sp_ExpiresAt :: instant

definition SignSessionCookie :: "token_lib \<Rightarrow> session_key \<Rightarrow> sessionpayload \<Rightarrow> string + string" where
  "SignSessionCookie L key p =
     (if key = '''' then Inl ''session key is empty''
      else Inr (sign_body L key (tl_SessionJSON L (sp_UserID p, Unix (sp_ExpiresAt p)))))"

text \<open>\<open>None\<close> is \<open>ErrInvalidSession\<close>, whatever is wrong.\<close>

definition VerifySessionCookie :: "token_lib \<Rightarrow> session_key \<Rightarrow> string \<Rightarrow> instant \<Rightarrow> sessionpayload option" where
  "VerifySessionCookie L key cookieValue now =
     (case signed_body L key cookieValue of None \<Rightarrow> None
      | Some bd \<Rightarrow>
          (case tl_SessionWire L bd of None \<Rightarrow> None
           | Some (u, e) \<Rightarrow>
               (case tl_ParseUUID L u of None \<Rightarrow> None
                | Some uid \<Rightarrow>
                    if now > time_Unix e then None else Some \<lparr>sp_UserID = uid, sp_ExpiresAt = time_Unix e\<rparr>)))"

section \<open>auth\_session.go\<close>

text \<open>\<open>cookie\<close> is the session cookie of the request; the user must still exist when there is a pool.\<close>

definition verifyRequestSession ::
  "token_lib \<Rightarrow> session_key \<Rightarrow> bool \<Rightarrow> string option \<Rightarrow> string option \<Rightarrow> instant \<Rightarrow> database \<Rightarrow> uuid option"
where
  "verifyRequestSession L key have_pool flt cookie now D =
     (case cookie of None \<Rightarrow> None
      | Some c \<Rightarrow>
          if c = '''' then None
          else case VerifySessionCookie L key c now of None \<Rightarrow> None
          | Some p \<Rightarrow>
              if have_pool \<and> (case GetUser flt (sp_UserID p) D of Inl _ \<Rightarrow> True | Inr _ \<Rightarrow> False) then None
              else Some (sp_UserID p))"

section \<open>oauth\_state.go\<close>

definition stateTTL :: duration where "stateTTL = 10 * minute"

text \<open>\<open>strings.Contains\<close> of a one-byte text, \<open>strings.ContainsAny\<close>.\<close>

definition isSafeNextPath :: "string \<Rightarrow> bool" where
  "isSafeNextPath nxt =
     (if nxt = '''' then True
      else if \<not> has_prefix nxt ''/'' then False
      else if has_prefix nxt ''//'' then False
      else if CHR 0x5C \<in> set nxt then False
      else if list_ex (\<lambda>c. c \<in> {CHR '' '', CHR 0x09, CHR 0x0A, CHR 0x0D}) nxt then False
      else True)"

text \<open>The random bytes of the nonce, or the error of reading them, are \<open>rnd\<close>.\<close>

definition MintOAuthState ::
  "token_lib \<Rightarrow> session_key \<Rightarrow> string + string \<Rightarrow> instant \<Rightarrow> string \<Rightarrow> string + string"
where
  "MintOAuthState L key rnd now nxt =
     (if \<not> isSafeNextPath nxt then Inl ''unsafe next path''
      else if key = '''' then Inl ''session key is empty''
      else case rnd of Inl e \<Rightarrow> Inl e
      | Inr nonceBytes \<Rightarrow> Inr (sign_body L key (tl_StateJSON L (RawURL_encode nonceBytes, nxt, Unix (now + stateTTL)))))"

type_synonym nonces = "string \<rightharpoonup> instant"

text \<open>Under the mutex: drop what was consumed before the cutoff, then look the nonce up. The clock is read twice.\<close>

definition tryConsume :: "instant \<Rightarrow> instant \<Rightarrow> string \<Rightarrow> nonces \<Rightarrow> bool \<times> nonces" where
  "tryConsume now1 now2 nonce m =
     (let cutoff = now1 - 2 * stateTTL;
          m' = (\<lambda>k. case m k of None \<Rightarrow> None | Some t \<Rightarrow> if t < cutoff then None else Some t)
      in if m' nonce \<noteq> None then (False, m') else (True, m'(nonce \<mapsto> now2)))"

record oauthstate =
  os_Nonce :: string
  os_Next :: string

text \<open>What \<open>VerifyOAuthState\<close> does before it touches the store.\<close>

definition state_check :: "token_lib \<Rightarrow> session_key \<Rightarrow> string \<Rightarrow> instant \<Rightarrow> oauthstate option" where
  "state_check L key token now =
     (case signed_body L key token of None \<Rightarrow> None
      | Some bd \<Rightarrow>
          (case tl_StateWire L bd of None \<Rightarrow> None
           | Some (n, r, e) \<Rightarrow> if now > time_Unix e then None else Some \<lparr>os_Nonce = n, os_Next = r\<rparr>))"

record verify_clock =
  vc_check :: instant
  vc_cutoff :: instant
  vc_stored :: instant

definition VerifyOAuthState ::
  "token_lib \<Rightarrow> session_key \<Rightarrow> string \<Rightarrow> verify_clock \<Rightarrow> nonces \<Rightarrow> oauthstate option \<times> nonces"
where
  "VerifyOAuthState L key token t m =
     (case state_check L key token (vc_check t) of None \<Rightarrow> (None, m)
      | Some st \<Rightarrow>
          (case tryConsume (vc_cutoff t) (vc_stored t) (os_Nonce st) m of
             (ok, m') \<Rightarrow> (if ok then Some st else None, m')))"

section \<open>handlers\_auth.go\<close>

definition sessionTTL :: duration where "sessionTTL = 7 * 24 * hour"

definition safeNext :: "string \<Rightarrow> string" where
  "safeNext nxt = (if nxt = '''' \<or> \<not> isSafeNextPath nxt then ''/dashboard'' else nxt)"

text \<open>An answer: an error text, a redirect (with query parameters and with the session cookie it sets), a page.\<close>

datatype web_answer =
    Web_Error int string
  | Web_Redirect int string "(string \<times> string) list" "string option"
  | Web_Text string "string option"
  | Web_Page string

text \<open>The part of the server's configuration these handlers read.\<close>

record web_config =
  wc_SessionKey :: session_key
  wc_BaseURL :: string
  wc_GitHubClientID :: string
  wc_GitHubAuthorizeURL :: string
  wc_DevLogin :: bool

definition handleGUILogin ::
  "token_lib \<Rightarrow> web_config \<Rightarrow> string option \<Rightarrow> string option \<Rightarrow> instant \<Rightarrow> string \<Rightarrow> database \<Rightarrow> web_answer"
where
  "handleGUILogin L C flt cookie now nxt D =
     (case verifyRequestSession L (wc_SessionKey C) True flt cookie now D of
        Some uid \<Rightarrow> if uid \<noteq> uuid_nil then Web_Redirect 302 (safeNext nxt) [] None else Web_Page nxt
      | None \<Rightarrow> Web_Page nxt)"

definition handleAuthGitHubStart ::
  "token_lib \<Rightarrow> web_config \<Rightarrow> string + string \<Rightarrow> instant \<Rightarrow> string \<Rightarrow> web_answer"
where
  "handleAuthGitHubStart L C rnd now nxt =
     (if wc_GitHubClientID C = '''' then Web_Error 500 ''github oauth not configured (PPZ_GITHUB_CLIENT_ID)''
      else case MintOAuthState L (wc_SessionKey C) rnd now (safeNext nxt) of
        Inl e \<Rightarrow> Web_Error 500 (''mint state: '' @ e)
      | Inr st \<Rightarrow>
          Web_Redirect 302 (wc_GitHubAuthorizeURL C)
            [(''client_id'', wc_GitHubClientID C), (''redirect_uri'', wc_BaseURL C @ ''/auth/github/callback''),
             (''scope'', ''read:user user:email''), (''state'', st)] None)"

record gh_user =
  gh_ID :: int
  gh_Login :: string
  gh_Email :: string
  gh_AvatarURL :: string

text \<open>What GitHub answers to the two requests: an error of the transport, or the decoded body if it decodes.\<close>

record gh_answers =
  ga_Token :: "string + string option"
  ga_User :: "string + gh_user option"

definition github_user :: "gh_answers \<Rightarrow> (int \<times> string) + gh_user" where
  "github_user G =
     (case ga_Token G of Inl e \<Rightarrow> Inl (502, ''token exchange: '' @ e)
      | Inr None \<Rightarrow> Inl (502, ''no access_token from github'')
      | Inr (Some tok) \<Rightarrow>
          if tok = '''' then Inl (502, ''no access_token from github'')
          else case ga_User G of Inl e \<Rightarrow> Inl (502, ''user fetch: '' @ e)
          | Inr None \<Rightarrow> Inl (502, ''github user payload malformed'')
          | Inr (Some u) \<Rightarrow> if gh_ID u = 0 then Inl (502, ''github user payload malformed'') else Inr u)"

datatype login_site = L_Select | L_Write | L_Account | L_Fallback | L_Insert | L_User

text \<open>\<open>i1\<close> and \<open>i2\<close> are the fresh identifiers of the user and of the organisation.\<close>

definition sign_in ::
  "login_site faults \<Rightarrow> uuid \<Rightarrow> uuid \<Rightarrow> instant \<Rightarrow> gh_user \<Rightarrow> database \<Rightarrow> (string + uuid) \<times> database"
where
  "sign_in flt i1 i2 now g D =
     (case UpsertUserByGitHubID (flt L_Select) (flt L_Write) i1 now (gh_ID g) (gh_Login g) (gh_Email g) (gh_AvatarURL g) D of
        (Inl e, D1) \<Rightarrow> (Inl (''upsert user: '' @ dberr_text e), D1)
      | (Inr (u, isNew), D1) \<Rightarrow>
          if isNew \<and> (case GetAccountByName (flt L_Account) (us_Username u) D1 of Inl _ \<Rightarrow> True | Inr _ \<Rightarrow> False)
          then (case InsertAccount (flt L_Fallback) (flt L_Insert) i2 now (us_Username u) (us_ID u) D1 of
                  (Inl e, D2) \<Rightarrow> (Inl (''create org: '' @ dberr_text e), D2)
                | (Inr _, D2) \<Rightarrow> (Inr (us_ID u), D2))
          else (Inr (us_ID u), D1))"

definition handleAuthGitHubCallback ::
  "token_lib \<Rightarrow> web_config \<Rightarrow> login_site faults \<Rightarrow> gh_answers \<Rightarrow> uuid \<Rightarrow> uuid \<Rightarrow> instant \<Rightarrow> verify_clock \<Rightarrow> string \<Rightarrow> string
   \<Rightarrow> nonces \<times> database \<Rightarrow> web_answer \<times> nonces \<times> database"
where
  "handleAuthGitHubCallback L C flt G i1 i2 now t code stateTok = (\<lambda>(m, D).
     (if code = '''' \<or> stateTok = '''' then (Web_Error 400 ''missing code or state'', m, D)
      else case VerifyOAuthState L (wc_SessionKey C) stateTok t m of
        (None, m') \<Rightarrow> (Web_Error 400 ''invalid state'', m', D)
      | (Some st, m') \<Rightarrow>
          (case github_user G of
             Inl (code, e) \<Rightarrow> (Web_Error code e, m', D)
           | Inr g \<Rightarrow>
               (case sign_in flt i1 i2 now g D of
                  (Inl e, D') \<Rightarrow> (Web_Error 500 e, m', D')
                | (Inr uid, D') \<Rightarrow>
                    (case SignSessionCookie L (wc_SessionKey C) \<lparr>sp_UserID = uid, sp_ExpiresAt = now + sessionTTL\<rparr> of
                       Inl e \<Rightarrow> (Web_Error 500 (''sign cookie: '' @ e), m', D')
                     | Inr c \<Rightarrow> (Web_Redirect 303 (safeNext (os_Next st)) [] (Some c), m', D'))))))"

text \<open>The cookie that logging out sets is empty. The verb \<open>%q\<close> is written out for names it does not escape.\<close>

definition handleAuthLogout :: web_answer where
  "handleAuthLogout = Web_Redirect 303 ''/'' [] (Some '''')"

definition handleDevLogin ::
  "token_lib \<Rightarrow> web_config \<Rightarrow> login_site faults \<Rightarrow> instant \<Rightarrow> string \<Rightarrow> string \<Rightarrow> database \<Rightarrow> web_answer"
where
  "handleDevLogin L C flt now username nxt D =
     (if \<not> wc_DevLogin C then Web_Error 404 ''404 page not found''
      else if username = '''' then Web_Error 400 ''missing ?user=<seed-username>''
      else case GetUserByUsername (flt L_User) username D of
        Inl _ \<Rightarrow> Web_Error 404 (''user '' @ [CHR 0x22] @ username @ [CHR 0x22] @ '' not found'')
      | Inr u \<Rightarrow>
          (case SignSessionCookie L (wc_SessionKey C) \<lparr>sp_UserID = us_ID u, sp_ExpiresAt = now + sessionTTL\<rparr> of
             Inl e \<Rightarrow> Web_Error 500 (''sign cookie: '' @ e)
           | Inr c \<Rightarrow>
               if nxt \<noteq> '''' \<and> isSafeNextPath nxt then Web_Redirect 302 nxt [] (Some c)
               else Web_Text ''ok'' (Some c)))"

section \<open>Properties\<close>

lemma signed_body_sign:
  assumes "key \<noteq> ''''" "b \<noteq> ''''" "tl_HMAC L key b \<noteq> ''''"
  shows "signed_body L key (sign_body L key b) = Some b"
  using assms by (simp add: signed_body_def sign_body_def cut_at_append)

text \<open>Documented behaviour of the libraries: values survive JSON, a body and a signature are not empty, and the
canonical text of an account or user id parses to it.\<close>

definition lib_laws :: "token_lib \<Rightarrow> bool" where
  "lib_laws L \<longleftrightarrow>
     (\<forall>u e. tl_ParseUUID L u = Some u \<longrightarrow> tl_SessionWire L (tl_SessionJSON L (u, e)) = Some (u, e))
     \<and> (\<forall>n r e. ValidString r \<longrightarrow> tl_StateWire L (tl_StateJSON L (RawURL_encode n, r, e)) = Some (RawURL_encode n, r, e))
     \<and> (\<forall>w. tl_SessionJSON L w \<noteq> '''') \<and> (\<forall>w. tl_StateJSON L w \<noteq> '''') \<and> (\<forall>k b. tl_HMAC L k b \<noteq> '''')"

lemma time_Unix_Unix: "time_Unix (Unix t) \<le> t" "t < time_Unix (Unix t) + second"
proof -
  have "0 < second" by (simp add: second_def)
  then have "t div second * second \<le> t \<and> t < t div second * second + second"
    by (metis add.commute add_le_cancel_left add_strict_left_mono div_mult_mod_eq le_add_same_cancel1 pos_mod_bound pos_mod_sign)
  then show "time_Unix (Unix t) \<le> t" "t < time_Unix (Unix t) + second" by (simp_all add: time_Unix_def Unix_def)
qed

text \<open>A session cookie carries its user: the cookie signed for a user is accepted with exactly that user up to its
  expiry, to the second, and never after it, and a request that carries it is authenticated as that
  user as long as the user exists.\<close>

theorem session_cookie_roundtrip:
  assumes "lib_laws L" "key \<noteq> ''''" "tl_ParseUUID L (sp_UserID p) = Some (sp_UserID p)" "has_user D (sp_UserID p)"
  shows "\<exists>c. SignSessionCookie L key p = Inr c
    \<and> (now \<le> sp_ExpiresAt p - second \<longrightarrow> verifyRequestSession L key True None (Some c) now D = Some (sp_UserID p))
    \<and> (now > sp_ExpiresAt p \<longrightarrow> verifyRequestSession L key True None (Some c) now D = None)"
proof -
  define b where "b = tl_SessionJSON L (sp_UserID p, Unix (sp_ExpiresAt p))"
  have s: "signed_body L key (sign_body L key b) = Some b"
    by (rule signed_body_sign) (use assms(1,2) in \<open>auto simp: lib_laws_def b_def\<close>)
  have w: "tl_SessionWire L b = Some (sp_UserID p, Unix (sp_ExpiresAt p))"
    using assms(1,3) by (simp add: lib_laws_def b_def)
  have "find (\<lambda>r. us_ID r = sp_UserID p) (users D) \<noteq> None"
    using assms(4) by (auto simp: has_user_def find_None_iff)
  then obtain u where u: "GetUser None (sp_UserID p) D = Inr u" by (auto simp: GetUser_def)
  have "sign_body L key b \<noteq> ''''" by (simp add: sign_body_def)
  then have "verifyRequestSession L key True None (Some (sign_body L key b)) now D =
      (if now > time_Unix (Unix (sp_ExpiresAt p)) then None else Some (sp_UserID p))"
    using s w u assms(3) by (simp add: verifyRequestSession_def VerifySessionCookie_def)
  moreover have "SignSessionCookie L key p = Inr (sign_body L key b)"
    using assms(2) by (simp add: SignSessionCookie_def b_def)
  ultimately show ?thesis using time_Unix_Unix [of "sp_ExpiresAt p"] by (intro exI conjI) auto
qed

subsection \<open>Every state is accepted once\<close>

text \<open>The calls of the callback in the order in which they get the lock of the store.\<close>

fun verify_all :: "token_lib \<Rightarrow> session_key \<Rightarrow> (string \<times> verify_clock) list \<Rightarrow> nonces \<Rightarrow> oauthstate option list" where
  "verify_all L key [] m = []"
| "verify_all L key ((token, t) # cs) m =
     (case VerifyOAuthState L key token t m of (r, m') \<Rightarrow> r # verify_all L key cs m')"

text \<open>The reference: a verifier that never forgets a nonce.\<close>

fun verify_ref :: "token_lib \<Rightarrow> session_key \<Rightarrow> (string \<times> verify_clock) list \<Rightarrow> string set \<Rightarrow> oauthstate option list" where
  "verify_ref L key [] seen = []"
| "verify_ref L key ((token, t) # cs) seen =
     (case state_check L key token (vc_check t) of
        None \<Rightarrow> None # verify_ref L key cs seen
      | Some st \<Rightarrow>
          if os_Nonce st \<in> seen then None # verify_ref L key cs seen
          else Some st # verify_ref L key cs (insert (os_Nonce st) seen))"

text \<open>A call looks the nonce up at most ten minutes after it checked the expiry; the clock does not run backwards.\<close>

fun clock_ok :: "(string \<times> verify_clock) list \<Rightarrow> bool" where
  "clock_ok [] = True"
| "clock_ok ((_, t) # cs) =
     (vc_check t \<le> vc_cutoff t \<and> vc_cutoff t \<le> vc_check t + stateTTL \<and> vc_cutoff t \<le> vc_stored t
      \<and> (\<forall>(_, t') \<in> set cs. vc_cutoff t \<le> vc_cutoff t') \<and> clock_ok cs)"

text \<open>Signatures are not forged: what verifies was minted before, with a nonce of its own; \<open>minted\<close> tells when.\<close>

definition all_minted :: "token_lib \<Rightarrow> session_key \<Rightarrow> (string \<rightharpoonup> instant) \<Rightarrow> (string \<times> verify_clock) list \<Rightarrow> bool" where
  "all_minted L key minted cs \<longleftrightarrow>
     (\<forall>(token, t) \<in> set cs. \<forall>b n r e. signed_body L key token = Some b \<longrightarrow> tl_StateWire L b = Some (n, r, e) \<longrightarrow>
        (\<exists>m0. minted n = Some m0 \<and> m0 \<le> vc_check t \<and> e = Unix (m0 + stateTTL)))"

definition remembers :: "(string \<rightharpoonup> instant) \<Rightarrow> instant \<Rightarrow> nonces \<Rightarrow> string set \<Rightarrow> bool" where
  "remembers minted now m seen \<longleftrightarrow>
     (\<forall>n t. m n = Some t \<longrightarrow> n \<in> seen) \<and>
     (\<forall>n \<in> seen. \<exists>m0. minted n = Some m0 \<and> (case m n of Some t \<Rightarrow> m0 \<le> t | None \<Rightarrow> m0 + 2 * stateTTL < now))"

lemma state_check_minted:
  assumes "all_minted L key minted ((token, t) # cs)" "state_check L key token (vc_check t) = Some st"
  shows "\<exists>m0. minted (os_Nonce st) = Some m0 \<and> m0 \<le> vc_check t \<and> vc_check t \<le> m0 + stateTTL"
proof -
  obtain b n r e where b: "signed_body L key token = Some b" "tl_StateWire L b = Some (n, r, e)"
    "vc_check t \<le> time_Unix e" "os_Nonce st = n"
    using assms(2) by (auto simp: state_check_def split: option.splits if_splits)
  then obtain m0 where "minted n = Some m0" "m0 \<le> vc_check t" "e = Unix (m0 + stateTTL)"
    using assms(1) by (fastforce simp: all_minted_def)
  then show ?thesis using b time_Unix_Unix(1) [of "m0 + stateTTL"] by (intro exI [of _ m0]) auto
qed

lemma remembers_sweep:
  assumes "remembers minted now m seen" "now \<le> c"
  shows "remembers minted c (\<lambda>k. case m k of None \<Rightarrow> None | Some t \<Rightarrow> if t < c - 2 * stateTTL then None else Some t) seen"
  using assms by (fastforce simp: remembers_def split: option.splits)

lemma VerifyOAuthState_step:
  assumes "remembers minted now m seen" "now \<le> vc_cutoff t" "vc_check t \<le> vc_cutoff t"
    "vc_cutoff t \<le> vc_check t + stateTTL" "vc_cutoff t \<le> vc_stored t"
    "state_check L key token (vc_check t) = Some st" "minted (os_Nonce st) = Some m0" "m0 \<le> vc_check t"
    "vc_check t \<le> m0 + stateTTL"
  shows "\<exists>m'. VerifyOAuthState L key token t m = (if os_Nonce st \<in> seen then None else Some st, m')
    \<and> remembers minted (vc_cutoff t) m' (insert (os_Nonce st) seen)"
proof -
  define m1 where "m1 = (\<lambda>k. case m k of None \<Rightarrow> None | Some u \<Rightarrow> if u < vc_cutoff t - 2 * stateTTL then None else Some u)"
  have r1: "remembers minted (vc_cutoff t) m1 seen"
    unfolding m1_def by (rule remembers_sweep [OF assms(1,2)])
  have ref_eq: "m1 (os_Nonce st) = None \<longleftrightarrow> os_Nonce st \<notin> seen"
    using r1 assms(4,7,9) by (fastforce simp: remembers_def split: option.splits)
  have V: "VerifyOAuthState L key token t m =
      (if m1 (os_Nonce st) \<noteq> None then (None, m1) else (Some st, m1(os_Nonce st \<mapsto> vc_stored t)))"
    using assms(6) by (simp add: VerifyOAuthState_def tryConsume_def Let_def m1_def)
  show ?thesis
  proof (cases "os_Nonce st \<in> seen")
    case True
    then show ?thesis using V ref_eq r1 by (intro exI [of _ m1]) (simp add: insert_absorb)
  next
    case False
    then have "remembers minted (vc_cutoff t) (m1(os_Nonce st \<mapsto> vc_stored t)) (insert (os_Nonce st) seen)"
      using r1 assms(3,5,7,8) by (auto simp: remembers_def split: if_splits)
    then show ?thesis using V ref_eq False by simp
  qed
qed

lemma verify_agrees:
  assumes "all_minted L key minted cs" "clock_ok cs" "remembers minted now m seen" "\<forall>(_, t) \<in> set cs. now \<le> vc_cutoff t"
  shows "verify_all L key cs m = verify_ref L key cs seen"
  using assms
proof (induction cs arbitrary: now m seen)
  case (Cons c cs)
  obtain token t where c: "c = (token, t)" by (cases c)
  have tl: "all_minted L key minted cs" "clock_ok cs" using Cons.prems c by (auto simp: all_minted_def)
  have nx: "\<forall>(_, t') \<in> set cs. vc_cutoff t \<le> vc_cutoff t'" using Cons.prems(2) c by simp
  show ?case
  proof (cases "state_check L key token (vc_check t)")
    case None
    have "verify_all L key cs m = verify_ref L key cs seen"
      by (rule Cons.IH [OF tl Cons.prems(3)]) (use Cons.prems(4) in auto)
    then show ?thesis using None c by (simp add: VerifyOAuthState_def)
  next
    case (Some st)
    obtain m0 where m0: "minted (os_Nonce st) = Some m0" "m0 \<le> vc_check t" "vc_check t \<le> m0 + stateTTL"
      using state_check_minted Cons.prems(1) Some c by blast
    obtain m' where m': "VerifyOAuthState L key token t m = (if os_Nonce st \<in> seen then None else Some st, m')"
      "remembers minted (vc_cutoff t) m' (insert (os_Nonce st) seen)"
      using VerifyOAuthState_step [OF Cons.prems(3) _ _ _ _ Some m0] Cons.prems(2,4) c by auto
    have "verify_all L key cs m' = verify_ref L key cs (insert (os_Nonce st) seen)"
      by (rule Cons.IH [OF tl m'(2) nx])
    then show ?thesis using m'(1) Some c by (auto simp: insert_absorb)
  qed
qed simp

lemma ref_fresh: "Some st \<in> set (verify_ref L key cs seen) \<Longrightarrow> os_Nonce st \<notin> seen"
  by (induction cs arbitrary: seen) (fastforce split: option.splits if_splits)+

definition accepted :: "oauthstate option list \<Rightarrow> string list" where
  "accepted rs = concat (map (\<lambda>r. case r of None \<Rightarrow> [] | Some st \<Rightarrow> [os_Nonce st]) rs)"

lemma accepted_simps [simp]:
  "accepted [] = []" "accepted (None # rs) = accepted rs" "accepted (Some st # rs) = os_Nonce st # accepted rs"
  by (simp_all add: accepted_def)

lemma accepted_fresh: "n \<in> set (accepted (verify_ref L key cs seen)) \<Longrightarrow> n \<notin> seen"
  by (auto simp: accepted_def dest: ref_fresh split: option.splits)

lemma ref_accepted: "distinct (accepted (verify_ref L key cs seen))"
proof (induction cs arbitrary: seen)
  case (Cons c cs)
  obtain token t where "c = (token, t)" by (cases c)
  then show ?case using Cons by (auto dest: accepted_fresh split: option.split)
qed simp

text \<open>C23: Replay protection of the login state holds although consumed nonces are forgotten after twenty minutes: if the
  clock does not run backwards and no call waits more than ten minutes between its expiry check and the lock, the
  verifier answers every sequence of calls, with whatever tokens, like one that never forgets, so no state is
  accepted twice, and the first use of a state before its expiry is accepted.\<close>

theorem oauth_states_accepted_once:
  assumes "all_minted L key minted cs" "clock_ok cs"
  shows "verify_all L key cs Map.empty = verify_ref L key cs {} \<and> distinct (accepted (verify_all L key cs Map.empty))"
proof -
  have "\<exists>now. \<forall>(_, t) \<in> set cs. now \<le> vc_cutoff t"
  proof (cases cs)
    case (Cons c cs')
    then show ?thesis using assms(2) by (cases c) (auto intro!: exI [of _ "vc_cutoff (snd c)"])
  qed simp
  then obtain now where now: "\<forall>(_, t) \<in> set cs. now \<le> vc_cutoff t" ..
  have "remembers minted now Map.empty {}" by (simp add: remembers_def)
  from verify_agrees [OF assms this now] show ?thesis using ref_accepted by simp
qed

subsection \<open>Concrete libraries\<close>

definition ex_unary :: "int \<Rightarrow> string" where
  "ex_unary e = replicate (nat (if 0 \<le> e then 2 * e else -2 * e - 1)) CHR ''1''"

definition ex_of_unary :: "string \<Rightarrow> int" where
  "ex_of_unary s = (if even (length s) then int (length s) div 2 else - ((int (length s) + 1) div 2))"

lemma ex_of_unary [simp]: "ex_of_unary (ex_unary e) = e"
  by (auto simp: ex_unary_def ex_of_unary_def even_nat_iff)

lemma ex_unary_dot [simp]: "CHR ''.'' \<notin> set (ex_unary e)"
  by (simp add: ex_unary_def)

definition ex_lib :: token_lib where
  "ex_lib = \<lparr>tl_HMAC = (\<lambda>k b. ''m''),
     tl_SessionJSON = (\<lambda>(u, e). ex_unary e @ ''.'' @ u),
     tl_SessionWire = (\<lambda>b. map_option (\<lambda>(x, u). (u, ex_of_unary x)) (cut_at CHR ''.'' b)),
     tl_StateJSON = (\<lambda>(n, r, e). n @ ''.'' @ ex_unary e @ ''.'' @ r),
     tl_StateWire = (\<lambda>b. case cut_at CHR ''.'' b of None \<Rightarrow> None
        | Some (n, b') \<Rightarrow> map_option (\<lambda>(x, r). (n, r, ex_of_unary x)) (cut_at CHR ''.'' b')),
     tl_ParseUUID = Some\<rparr>"

lemma ex_lib_laws: "lib_laws ex_lib"
  by (simp add: lib_laws_def ex_lib_def cut_at_append)

lemma session_cookie_roundtrip_witness:
  "\<exists>c. SignSessionCookie ex_lib ''k'' \<lparr>sp_UserID = ''u1'', sp_ExpiresAt = 5 * second\<rparr> = Inr c
    \<and> (4 * second \<le> 5 * second - second \<longrightarrow> verifyRequestSession ex_lib ''k'' True None (Some c) (4 * second)
          (ex_principals\<lparr>users := [\<lparr>us_ID = ''u1'', us_Username = ''a'', us_Email = '''', us_Mode = ''github'',
             us_GitHubID = None, us_AvatarURL = '''', us_CreatedAt = 0, us_ServiceAccountID = None,
             us_LastSelectedAccount = None\<rparr>]\<rparr>) = Some ''u1'')"
  using session_cookie_roundtrip [of ex_lib "''k''" "\<lparr>sp_UserID = ''u1'', sp_ExpiresAt = 5 * second\<rparr>"
      "ex_principals\<lparr>users := [\<lparr>us_ID = ''u1'', us_Username = ''a'', us_Email = '''', us_Mode = ''github'',
             us_GitHubID = None, us_AvatarURL = '''', us_CreatedAt = 0, us_ServiceAccountID = None,
             us_LastSelectedAccount = None\<rparr>]\<rparr>" "4 * second"] ex_lib_laws
  by (auto simp: has_user_def ex_lib_def)

text \<open>Two callbacks with one state and a third, forged, token.\<close>

definition ex_nonce :: string where "ex_nonce = RawURL_encode ''n''"

definition ex_body :: string where
  "ex_body = tl_StateJSON ex_lib (ex_nonce, ''/x'', Unix (unix_offset * second))"

definition ex_state :: string where "ex_state = sign_body ex_lib ''k'' ex_body"

definition ex_calls :: "(string \<times> verify_clock) list" where
  "ex_calls = (let t0 = unix_offset * second - stateTTL in
     [(ex_state, \<lparr>vc_check = t0 + 1, vc_cutoff = t0 + 2, vc_stored = t0 + 3\<rparr>),
      (ex_state, \<lparr>vc_check = t0 + 1, vc_cutoff = t0 + 4, vc_stored = t0 + 5\<rparr>),
      (''forged'', \<lparr>vc_check = t0 + 6, vc_cutoff = t0 + 7, vc_stored = t0 + 8\<rparr>)])"

lemma ex_state_body: "signed_body ex_lib ''k'' ex_state = Some ex_body"
  unfolding ex_state_def by (rule signed_body_sign) (simp_all add: ex_lib_def ex_body_def)

lemma ex_forged: "signed_body ex_lib ''k'' ''forged'' = None"
  by (simp add: signed_body_def)

lemma ex_wire: "tl_StateWire ex_lib ex_body = Some (ex_nonce, ''/x'', Unix (unix_offset * second))"
proof -
  have "CHR ''.'' \<notin> set ex_nonce" unfolding ex_nonce_def by (rule encode_no_dot)
  then show ?thesis by (simp add: ex_lib_def ex_body_def cut_at_append)
qed

lemma ex_state_check: "state_check ex_lib ''k'' ex_state t =
    (if t > unix_offset * second then None else Some \<lparr>os_Nonce = ex_nonce, os_Next = ''/x''\<rparr>)"
  by (simp add: state_check_def ex_state_body ex_wire time_Unix_def Unix_def second_def)

lemma ex_forged_check: "state_check ex_lib ''k'' ''forged'' t = None"
  by (simp add: state_check_def ex_forged)

lemma ex_minted: "all_minted ex_lib ''k'' [ex_nonce \<mapsto> unix_offset * second - stateTTL] ex_calls"
  by (auto simp: all_minted_def ex_calls_def Let_def ex_state_body ex_forged ex_wire)

lemma oauth_states_accepted_once_witness:
  "verify_all ex_lib ''k'' ex_calls Map.empty = verify_ref ex_lib ''k'' ex_calls {}
   \<and> length ex_calls = 3 \<and> accepted (verify_all ex_lib ''k'' ex_calls Map.empty) = [ex_nonce]"
proof -
  have c: "clock_ok ex_calls" by (simp add: ex_calls_def Let_def stateTTL_def minute_def second_def)
  have r: "accepted (verify_ref ex_lib ''k'' ex_calls {}) = [ex_nonce]"
    by (simp add: ex_calls_def Let_def ex_state_check ex_forged_check stateTTL_def minute_def second_def)
  show ?thesis using oauth_states_accepted_once [OF ex_minted c] r by (simp add: ex_calls_def Let_def)
qed

subsection \<open>Signing up\<close>

lemma find_github_new:
  "find (\<lambda>r. us_GitHubID r = Some i) us = None \<Longrightarrow>
   find (\<lambda>r. us_GitHubID r = Some i) (us @ [u]) = (if us_GitHubID u = Some i then Some u else None)"
  by (simp add: find_append)

text \<open>C39: A first login that creates the user but fails to create the organisation is not made good: the answer is an
  error, every later login of the same GitHub account succeeds without creating an organisation, and the user has
  no account a token could be exchanged in.\<close>

theorem signup_loses_organisation:
  assumes "find (\<lambda>r. us_GitHubID r = Some (gh_ID g)) (users D) = None" "\<not> has_user D i1" "\<not> username_taken D (gh_Login g)"
    "flt L_Select = None" "flt L_Write = None" "flt L_Insert = Some e" "gh_Login g \<notin> acct_Name ` set (accounts D)" "i1 \<noteq> uuid_nil"
    "\<forall>a \<in> set (accounts D). \<not> belongs_to D i1 a"
  shows "\<exists>D1. sign_in flt i1 i2 now g D = (Inl (''create org: '' @ e), D1)
    \<and> (\<forall>i i' now'. fst (sign_in no_faults i i' now' g D1) = Inr i1
         \<and> accounts (snd (sign_in no_faults i i' now' g D1)) = accounts D
         \<and> DefaultAccountFor None i1 (snd (sign_in no_faults i i' now' g D1)) = Inl ErrNotFound)"
proof -
  define u where "u = \<lparr>us_ID = i1, us_Username = gh_Login g, us_Email = gh_Email g, us_Mode = UserModeGithub,
     us_GitHubID = Some (gh_ID g), us_AvatarURL = gh_AvatarURL g, us_CreatedAt = now, us_ServiceAccountID = None\<rparr>"
  define D1 where "D1 = D\<lparr>users := users D @ [user.extend u \<lparr>us_LastSelectedAccount = None\<rparr>]\<rparr>"
  have up: "UpsertUserByGitHubID (flt L_Select) (flt L_Write) i1 now (gh_ID g) (gh_Login g) (gh_Email g) (gh_AvatarURL g) D
      = (Inr (u, True), D1)"
    using assms(1-5) by (simp add: UpsertUserByGitHubID_def u_def D1_def Let_def)
  have na: "GetAccountByName (flt L_Account) (gh_Login g) D1 \<noteq> Inr a" for a
  proof -
    have "find (\<lambda>a. acct_Name a = gh_Login g) (accounts D1) = None"
      using assms(7) by (force simp: find_None_iff D1_def)
    then show ?thesis by (cases "flt L_Account") (simp_all add: GetAccountByName_def)
  qed
  have first: "sign_in flt i1 i2 now g D = (Inl (''create org: '' @ e), D1)"
    using assms(6,8) na by (auto simp: sign_in_def up InsertAccount_def Let_def u_def dberr_text_def split: sum.split)
  have old: "find (\<lambda>r. us_GitHubID r = Some (gh_ID g)) (users D1) = Some (user.extend u \<lparr>us_LastSelectedAccount = None\<rparr>)"
    using assms(1) by (simp add: D1_def find_append u_def user.defs)
  have acc: "accounts D1 = accounts D" "members D1 = members D" by (simp_all add: D1_def)
  have later: "\<exists>us. sign_in no_faults i i' now' g D1 = (Inr i1, D1\<lparr>users := us\<rparr>)" for i i' now'
    by (simp add: sign_in_def UpsertUserByGitHubID_def old) (auto simp: user.defs u_def)
  have none: "DefaultAccountFor None i1 (D1\<lparr>users := us\<rparr>) = Inl ErrNotFound" for us
  proof -
    have "filter (belongs_to (D1\<lparr>users := us\<rparr>) i1) (accounts D) = []"
      using assms(9) acc by (auto simp: filter_empty_conv belongs_to_def)
    then show ?thesis by (simp add: DefaultAccountFor_def acc)
  qed
  have "fst (sign_in no_faults i i' now' g D1) = Inr i1 \<and> accounts (snd (sign_in no_faults i i' now' g D1)) = accounts D
      \<and> DefaultAccountFor None i1 (snd (sign_in no_faults i i' now' g D1)) = Inl ErrNotFound" for i i' now'
    using later [of i i' now'] none acc by (elim exE) simp
  with first show ?thesis by blast
qed

lemma signup_loses_organisation_witness:
  "\<exists>D1. sign_in (\<lambda>s. if s = L_Insert then Some ''x'' else None) ''u9'' ''a9'' 0 \<lparr>gh_ID = 7, gh_Login = ''new'', gh_Email = '''', gh_AvatarURL = ''''\<rparr>
      (ex_principals\<lparr>users := [], accounts := [], members := []\<rparr>) = (Inl (''create org: '' @ ''x''), D1)"
  using signup_loses_organisation [of "\<lparr>gh_ID = 7, gh_Login = ''new'', gh_Email = '''', gh_AvatarURL = ''''\<rparr>"
      "ex_principals\<lparr>users := [], accounts := [], members := []\<rparr>" "''u9''" "\<lambda>s. if s = L_Insert then Some ''x'' else None" "''x''" "''a9''" 0]
  by (force simp: has_user_def username_taken_def uuid_nil_def)

end
