(* ===== verification/DeviceFlow.thy ===== *)
theory DeviceFlow
  imports WebSession AclServer
begin

text \<open>
  Logging in from the command line with a browser: device codes and bearer tokens
  (\<open>internal/db/oauth_tokens.go\<close>) and the endpoints of the device flow
  (\<open>internal/server/handlers_device_flow.go\<close>). Approvals and polls are interleaved statement by statement.

  Random bytes, the clock of the server and the clock of the database are arguments; SHA-256 in
  hexadecimal is the argument \<open>hash\<close>.
\<close>

section \<open>oauth\_tokens.go\<close>

record devicecode =
  dc_DeviceCode :: string
  dc_UserCode :: string
  dc_ClientName :: string
  dc_UserID :: "uuid option"
  dc_AccountID :: "uuid option"
  dc_ExpiresAt :: instant
  dc_VerifiedAt :: "instant option"
  dc_ConsumedAt :: "instant option"
  dc_CreatedAt :: instant

record oauthtoken =
  ot_ID :: uuid
  ot_UserID :: uuid
  ot_TokenHash :: string
  ot_Prefix :: string
  ot_ExpiresAt :: instant
  ot_RevokedAt :: "instant option"
  ot_CreatedAt :: instant
  ot_LastUsedAt :: "instant option"

definition userCodeAlphabet :: string where
  "userCodeAlphabet = ''ABCDEFGHJKLMNPQRSTUVWXYZ23456789''"

definition generateUserCode :: "8 word list \<Rightarrow> string" where
  "generateUserCode rb =
     (let cs = map (\<lambda>b. userCodeAlphabet ! (unat b mod length userCodeAlphabet)) rb
      in take 4 cs @ ''-'' @ drop 4 cs)"

definition generateDeviceCode :: "string \<Rightarrow> string" where
  "generateDeviceCode rb = RawURL_encode rb"

definition generateBearerToken :: "string \<Rightarrow> string" where
  "generateBearerToken rb = ''ppz_oauth_'' @ RawURL_encode rb"

text \<open>The two random values are those of the generators; the clock is read twice.\<close>

definition CreateDeviceCode ::
  "string option \<Rightarrow> string \<Rightarrow> 8 word list \<Rightarrow> instant \<Rightarrow> instant \<Rightarrow> duration \<Rightarrow> string \<Rightarrow> devicecode list
   \<Rightarrow> (dberror + devicecode) \<times> devicecode list"
where
  "CreateDeviceCode flt r1 r2 now1 now2 ttl clientName codes =
     (let dc = \<lparr>dc_DeviceCode = generateDeviceCode r1, dc_UserCode = generateUserCode r2, dc_ClientName = clientName,
                dc_UserID = None, dc_AccountID = None, dc_ExpiresAt = now1 + ttl, dc_VerifiedAt = None,
                dc_ConsumedAt = None, dc_CreatedAt = now2\<rparr>
      in case flt of Some t \<Rightarrow> (Inl (ErrText t), codes)
         | None \<Rightarrow>
             if list_ex (\<lambda>c. dc_DeviceCode c = dc_DeviceCode dc \<or> dc_UserCode c = dc_UserCode dc) codes
             then (Inl unique_violation, codes)
             else (Inr dc, codes @ [dc]))"

definition LookupDeviceCode :: "string option \<Rightarrow> string \<Rightarrow> devicecode list \<Rightarrow> dberror + devicecode" where
  "LookupDeviceCode flt d codes = no_rows_not_found (query_row flt (find (\<lambda>c. dc_DeviceCode c = d) codes))"

definition LookupDeviceCodeByUserCode :: "string option \<Rightarrow> string \<Rightarrow> devicecode list \<Rightarrow> dberror + devicecode" where
  "LookupDeviceCodeByUserCode flt u codes = no_rows_not_found (query_row flt (find (\<lambda>c. dc_UserCode c = u) codes))"

text \<open>The rows the update of \<open>ApproveDeviceCode\<close> selects. The foreign keys are checked when there is one.\<close>

definition approvable :: "instant \<Rightarrow> string \<Rightarrow> devicecode \<Rightarrow> bool" where
  "approvable now u c \<longleftrightarrow> dc_UserCode c = u \<and> dc_ExpiresAt c > now"

definition ApproveDeviceCode ::
  "string option \<Rightarrow> instant \<Rightarrow> string \<Rightarrow> uuid \<Rightarrow> uuid \<Rightarrow> database \<Rightarrow> devicecode list \<Rightarrow> dberror option \<times> devicecode list"
where
  "ApproveDeviceCode flt now u userID accountID D codes =
     (case flt of Some t \<Rightarrow> (Some (ErrText t), codes)
      | None \<Rightarrow>
          if \<not> list_ex (approvable now u) codes then (Some ErrNotFound, codes)
          else if \<not> has_user D userID \<or> \<not> has_account D accountID then (Some foreign_key_violation, codes)
          else (None, map (\<lambda>c. if approvable now u c
                  then c\<lparr>dc_UserID := Some userID, dc_AccountID := Some accountID,
                         dc_VerifiedAt := Some (case dc_VerifiedAt c of Some t \<Rightarrow> t | None \<Rightarrow> now)\<rparr> else c) codes))"

datatype device_error = ErrDeviceCodePending | ErrDeviceCodeExpired | DeviceDB dberror

text \<open>The first half of \<open>ConsumeDeviceCode\<close>: the lookup and the checks on the row it returned.\<close>

definition device_check :: "string option \<Rightarrow> instant \<Rightarrow> string \<Rightarrow> devicecode list \<Rightarrow> device_error + uuid \<times> uuid option" where
  "device_check flt now d codes =
     (case LookupDeviceCode flt d codes of Inl e \<Rightarrow> Inl (DeviceDB e)
      | Inr dc \<Rightarrow>
          if dc_ConsumedAt dc \<noteq> None then Inl (DeviceDB ErrNotFound)
          else if now > dc_ExpiresAt dc then Inl ErrDeviceCodeExpired
          else case dc_VerifiedAt dc of None \<Rightarrow> Inl ErrDeviceCodePending
          | Some _ \<Rightarrow> (case dc_UserID dc of None \<Rightarrow> Inl ErrDeviceCodePending | Some u \<Rightarrow> Inr (u, dc_AccountID dc)))"

text \<open>The second half: an update whose row count is not looked at.\<close>

definition device_mark :: "string option \<Rightarrow> instant \<Rightarrow> string \<Rightarrow> devicecode list \<Rightarrow> dberror option \<times> devicecode list" where
  "device_mark flt now d codes =
     (case flt of Some t \<Rightarrow> (Some (ErrText t), codes)
      | None \<Rightarrow> (None, map (\<lambda>c. if dc_DeviceCode c = d \<and> dc_ConsumedAt c = None
                               then c\<lparr>dc_ConsumedAt := Some now\<rparr> else c) codes))"

definition ConsumeDeviceCode ::
  "string option \<Rightarrow> string option \<Rightarrow> instant \<Rightarrow> instant \<Rightarrow> string \<Rightarrow> devicecode list
   \<Rightarrow> (device_error + uuid \<times> uuid option) \<times> devicecode list"
where
  "ConsumeDeviceCode flt1 flt2 now dbnow d codes =
     (case device_check flt1 now d codes of Inl e \<Rightarrow> (Inl e, codes)
      | Inr r \<Rightarrow>
          (case device_mark flt2 dbnow d codes of
             (Some e, codes') \<Rightarrow> (Inl (DeviceDB e), codes') | (None, codes') \<Rightarrow> (Inr r, codes')))"

definition IssueBearerToken ::
  "(string \<Rightarrow> string) \<Rightarrow> string option \<Rightarrow> uuid \<Rightarrow> string \<Rightarrow> instant \<Rightarrow> instant \<Rightarrow> uuid \<Rightarrow> duration \<Rightarrow> database
   \<Rightarrow> oauthtoken list \<Rightarrow> (dberror + string \<times> oauthtoken) \<times> oauthtoken list"
where
  "IssueBearerToken hash flt newID rb now1 now2 userID ttl D tokens =
     (let plaintext = generateBearerToken rb;
          row = \<lparr>ot_ID = newID, ot_UserID = userID, ot_TokenHash = hash plaintext,
                 ot_Prefix = take (min (length plaintext) (length ''ppz_oauth_'' + 8)) plaintext,
                 ot_ExpiresAt = now1 + ttl, ot_RevokedAt = None, ot_CreatedAt = now2, ot_LastUsedAt = None\<rparr>
      in case flt of Some t \<Rightarrow> (Inl (ErrText t), tokens)
         | None \<Rightarrow>
             if list_ex (\<lambda>t. ot_ID t = newID \<or> ot_TokenHash t = hash plaintext) tokens then (Inl unique_violation, tokens)
             else if \<not> has_user D userID then (Inl foreign_key_violation, tokens)
             else (Inr (plaintext, row), tokens @ [row]))"

text \<open>The update of \<open>last_used_at\<close> is best effort; \<open>flt2\<close> is its failure.\<close>

definition LookupBearerToken ::
  "(string \<Rightarrow> string) \<Rightarrow> string option \<Rightarrow> string option \<Rightarrow> instant \<Rightarrow> instant \<Rightarrow> string \<Rightarrow> oauthtoken list
   \<Rightarrow> (dberror + oauthtoken) \<times> oauthtoken list"
where
  "LookupBearerToken hash flt flt2 now dbnow plaintext tokens =
     (case no_rows_not_found (query_row flt (find (\<lambda>t. ot_TokenHash t = hash plaintext) tokens)) of
        Inl e \<Rightarrow> (Inl e, tokens)
      | Inr t \<Rightarrow>
          if ot_RevokedAt t \<noteq> None then (Inl ErrNotFound, tokens)
          else if now > ot_ExpiresAt t then (Inl ErrNotFound, tokens)
          else (Inr t, if flt2 \<noteq> None then tokens
                       else map (\<lambda>q. if ot_ID q = ot_ID t then q\<lparr>ot_LastUsedAt := Some dbnow\<rparr> else q) tokens))"

section \<open>handlers\_device\_flow.go\<close>

datatype device_site =
    DF_Last | DF_Default | DF_Member | DF_Accounts | DF_Lookup | DF_Approve | DF_SetLast | DF_Create | DF_Mark | DF_Issue

type_synonym device_faults = "device_site faults"

definition resolveDefaultOrg :: "device_faults \<Rightarrow> uuid \<Rightarrow> account list \<Rightarrow> database \<Rightarrow> string" where
  "resolveDefaultOrg flt userID accs D =
     (let dflt = (case DefaultAccountFor (flt DF_Default) userID D of Inr a \<Rightarrow> acct_ID a | Inl _ \<Rightarrow> '''')
      in case GetLastSelectedAccount (flt DF_Last) userID D of
           Inr (Some l) \<Rightarrow> if list_ex (\<lambda>a. acct_ID a = l) accs then l else dflt
         | _ \<Rightarrow> dflt)"

definition resolveSelectedOrg ::
  "device_faults \<Rightarrow> (string \<Rightarrow> uuid option) \<Rightarrow> uuid \<Rightarrow> string \<Rightarrow> database \<Rightarrow> string + uuid"
where
  "resolveSelectedOrg flt parse userID raw D =
     (if raw = ''''
      then (case DefaultAccountFor (flt DF_Default) userID D of
              Inl _ \<Rightarrow> Inl ''you do not belong to any org'' | Inr a \<Rightarrow> Inr (acct_ID a))
      else case parse raw of None \<Rightarrow> Inl ''org is not a valid id''
      | Some i \<Rightarrow>
          if \<not> IsMemberOrOwner (flt DF_Member) i userID D then Inl ''you are not a member of the selected org'' else Inr i)"

definition deviceCodeTTL :: duration where "deviceCodeTTL = 10 * minute"
definition bearerTTL :: duration where "bearerTTL = 30 * 24 * hour"
definition pollInterval :: int where "pollInterval = 5"

record devicecodereply =
  dr_DeviceCode :: string
  dr_UserCode :: string
  dr_VerificationURI :: string
  dr_VerificationURIComplete :: string
  dr_Interval :: int
  dr_ExpiresIn :: int

text \<open>The client name is empty when the body does not decode.\<close>

definition handleDeviceCode ::
  "device_faults \<Rightarrow> string \<Rightarrow> string \<Rightarrow> 8 word list \<Rightarrow> instant \<Rightarrow> instant \<Rightarrow> string \<Rightarrow> devicecode list
   \<Rightarrow> devicecodereply reply \<times> devicecode list"
where
  "handleDeviceCode flt baseURL r1 r2 now1 now2 clientName codes =
     (case CreateDeviceCode (flt DF_Create) r1 r2 now1 now2 deviceCodeTTL clientName codes of
        (Inl e, codes') \<Rightarrow> (Refused 500 (''create device code: '' @ dberr_text e), codes')
      | (Inr dc, codes') \<Rightarrow>
          (let verify = baseURL @ ''/oauth/device/verify''
           in (Replied 200 \<lparr>dr_DeviceCode = dc_DeviceCode dc, dr_UserCode = dc_UserCode dc, dr_VerificationURI = verify,
                  dr_VerificationURIComplete = verify @ ''?user_code='' @ dc_UserCode dc, dr_Interval = pollInterval,
                  dr_ExpiresIn = deviceCodeTTL div second\<rparr>, codes')))"

record orgoption =
  og_ID :: string
  og_Name :: string
  og_Selected :: bool

text \<open>The values the page is rendered with: the code, the client's name, the confirmation flag and the choices.\<close>

definition handleDeviceVerifyPage ::
  "device_faults \<Rightarrow> uuid \<Rightarrow> string \<Rightarrow> string \<Rightarrow> database \<Rightarrow> devicecode list \<Rightarrow> string \<times> string \<times> string \<times> orgoption list"
where
  "handleDeviceVerifyPage flt uid userCode approved D codes =
     (let clientName = (if userCode \<noteq> ''''
            then (case LookupDeviceCodeByUserCode (flt DF_Lookup) userCode codes of Inr dc \<Rightarrow> dc_ClientName dc | Inl _ \<Rightarrow> '''')
            else '''');
          accs = (case ListAccountsForUser (flt DF_Accounts) uid D of Inr as \<Rightarrow> as | Inl _ \<Rightarrow> []);
          defaultOrg = resolveDefaultOrg flt uid accs D
      in (userCode, clientName, approved,
          map (\<lambda>a. \<lparr>og_ID = acct_ID a, og_Name = acct_Name a, og_Selected = (acct_ID a = defaultOrg)\<rparr>) accs))"

text \<open>The form is \<open>None\<close> when it does not parse. The first half decides, the second writes.\<close>

definition submit_check ::
  "device_faults \<Rightarrow> (string \<Rightarrow> uuid option) \<Rightarrow> uuid \<Rightarrow> (string \<times> string) option \<Rightarrow> database \<Rightarrow> (int \<times> string) + string \<times> uuid"
where
  "submit_check flt parse uid form D =
     (case form of None \<Rightarrow> Inl (400, ''parse form'')
      | Some (userCode, raw) \<Rightarrow>
          if userCode = '''' then Inl (400, ''missing user_code'')
          else case resolveSelectedOrg flt parse uid raw D of
            Inl e \<Rightarrow> Inl (403, e) | Inr a \<Rightarrow> Inr (userCode, a))"

definition submit_write ::
  "device_faults \<Rightarrow> instant \<Rightarrow> uuid \<Rightarrow> string \<Rightarrow> uuid \<Rightarrow> database \<times> devicecode list \<Rightarrow> string reply \<times> database \<times> devicecode list"
where
  "submit_write flt dbnow uid userCode accountID = (\<lambda>(D, codes).
     (case ApproveDeviceCode (flt DF_Approve) dbnow userCode uid accountID D codes of
        (Some e, codes') \<Rightarrow>
          (if e = ErrNotFound then Refused 404 ''user_code not found or expired'' else Refused 500 (''approve: '' @ dberr_text e),
           D, codes')
      | (None, codes') \<Rightarrow>
          (Replied 303 (''/oauth/device/verify?user_code='' @ userCode @ ''&approved=1''),
           snd (SetLastSelectedAccount (flt DF_SetLast) uid accountID D), codes')))"

definition handleDeviceVerifySubmit ::
  "device_faults \<Rightarrow> (string \<Rightarrow> uuid option) \<Rightarrow> instant \<Rightarrow> uuid \<Rightarrow> (string \<times> string) option \<Rightarrow> database \<times> devicecode list
   \<Rightarrow> string reply \<times> database \<times> devicecode list"
where
  "handleDeviceVerifySubmit flt parse dbnow uid form s =
     (case submit_check flt parse uid form (fst s) of
        Inl (st, e) \<Rightarrow> (Refused st e, s)
      | Inr (userCode, a) \<Rightarrow> submit_write flt dbnow uid userCode a s)"

record devicetokenreply =
  tk_AccessToken :: string
  tk_TokenType :: string
  tk_ExpiresIn :: int
  tk_AccountID :: string

definition device_refusal :: "device_error \<Rightarrow> int \<times> string" where
  "device_refusal e =
     (case e of ErrDeviceCodePending \<Rightarrow> (400, ''authorization_pending'') | ErrDeviceCodeExpired \<Rightarrow> (400, ''expired_token'')
      | DeviceDB d \<Rightarrow> if d = ErrNotFound then (400, ''invalid_grant'') else (500, dberr_text d))"

definition token_reply :: "string \<Rightarrow> uuid option \<Rightarrow> devicetokenreply" where
  "token_reply plaintext a =
     \<lparr>tk_AccessToken = plaintext, tk_TokenType = ''bearer'', tk_ExpiresIn = bearerTTL div second,
      tk_AccountID = (case a of Some i \<Rightarrow> i | None \<Rightarrow> '''')\<rparr>"

text \<open>\<open>d\<close> is the device code of the JSON or form body, empty when there is none.\<close>

definition handleDeviceToken ::
  "(string \<Rightarrow> string) \<Rightarrow> device_faults \<Rightarrow> uuid \<Rightarrow> string \<Rightarrow> instant \<Rightarrow> instant \<Rightarrow> instant \<Rightarrow> instant \<Rightarrow> string \<Rightarrow> database
   \<Rightarrow> devicecode list \<times> oauthtoken list \<Rightarrow> devicetokenreply reply \<times> devicecode list \<times> oauthtoken list"
where
  "handleDeviceToken hash flt newID rb now dbnow now1 now2 d D = (\<lambda>(codes, tokens).
     (if d = '''' then (Refused 400 ''invalid_request'', codes, tokens)
      else case ConsumeDeviceCode (flt DF_Lookup) (flt DF_Mark) now dbnow d codes of
        (Inl e, codes') \<Rightarrow> (Refused (fst (device_refusal e)) (snd (device_refusal e)), codes', tokens)
      | (Inr (u, a), codes') \<Rightarrow>
          (case IssueBearerToken hash (flt DF_Issue) newID rb now1 now2 u bearerTTL D tokens of
             (Inl e, tokens') \<Rightarrow> (Refused 500 (''issue token: '' @ dberr_text e), codes', tokens')
           | (Inr (plaintext, _), tokens') \<Rightarrow> (Replied 200 (token_reply plaintext a), codes', tokens'))))"

section \<open>Requests interleaved statement by statement\<close>

text \<open>
  A request waits between two of its statements: an approval after the membership check, a poll after the
  lookup and after the update. The ghost fields record which codes were created, which memberships were checked,
  which approvals were written and which tokens were handed out.
\<close>

datatype flow_req =
    Approve uuid "(string \<times> string) option" | Approving uuid string uuid | Poll string
  | Passed string uuid "uuid option" | Marked string uuid "uuid option" | Answered

record flow_world =
  fw_db :: database
  fw_codes :: "devicecode list"
  fw_tokens :: "oauthtoken list"
  fw_reqs :: "flow_req list"
  fw_created :: "(string \<times> string \<times> instant) list"
  fw_checked :: "(uuid \<times> uuid \<times> database) list"
  fw_approved :: "(string \<times> uuid \<times> uuid \<times> instant) list"
  fw_issued :: "(string \<times> uuid \<times> uuid option \<times> string) list"

datatype flow_event =
    Created "string option" string "8 word list" instant instant string
  | Arrives flow_req
  | Runs nat device_faults uuid string instant instant
  | DatabaseBecomes database
  | AccountGone uuid
  | RowsGone "string set" "uuid set"

definition set_req :: "nat \<Rightarrow> flow_req \<Rightarrow> flow_world \<Rightarrow> flow_world" where
  "set_req i q w = w\<lparr>fw_reqs := (fw_reqs w)[i := q]\<rparr>"

text \<open>The next statement of request \<open>i\<close>.\<close>

definition run_request ::
  "(string \<Rightarrow> string) \<Rightarrow> (string \<Rightarrow> uuid option) \<Rightarrow> nat \<Rightarrow> device_faults \<Rightarrow> uuid \<Rightarrow> string \<Rightarrow> instant \<Rightarrow> instant \<Rightarrow> flow_world \<Rightarrow> flow_world"
where
  "run_request hash parse i flt newID rb now dbnow w =
     (case fw_reqs w ! i of
        Approve uid form \<Rightarrow>
          (case submit_check flt parse uid form (fw_db w) of Inl _ \<Rightarrow> set_req i Answered w
           | Inr (u, a) \<Rightarrow> set_req i (Approving uid u a) (w\<lparr>fw_checked := fw_checked w @ [(uid, a, fw_db w)]\<rparr>))
      | Approving uid u a \<Rightarrow>
          (case submit_write flt dbnow uid u a (fw_db w, fw_codes w) of
             (Refused _ _, D, codes) \<Rightarrow> set_req i Answered w
           | (Replied _ _, D, codes) \<Rightarrow>
               set_req i Answered (w\<lparr>fw_db := D, fw_codes := codes, fw_approved := fw_approved w @ [(u, uid, a, dbnow)]\<rparr>))
      | Poll d \<Rightarrow>
          (case device_check (flt DF_Lookup) now d (fw_codes w) of Inl _ \<Rightarrow> set_req i Answered w
           | Inr (u, a) \<Rightarrow> set_req i (Passed d u a) w)
      | Passed d u a \<Rightarrow>
          (case device_mark (flt DF_Mark) dbnow d (fw_codes w) of
             (Some _, codes) \<Rightarrow> set_req i Answered w
           | (None, codes) \<Rightarrow> set_req i (Marked d u a) (w\<lparr>fw_codes := codes\<rparr>))
      | Marked d u a \<Rightarrow>
          (case IssueBearerToken hash (flt DF_Issue) newID rb now now u bearerTTL (fw_db w) (fw_tokens w) of
             (Inl _, tokens) \<Rightarrow> set_req i Answered w
           | (Inr (plaintext, _), tokens) \<Rightarrow>
               set_req i Answered (w\<lparr>fw_tokens := tokens, fw_issued := fw_issued w @ [(d, u, a, plaintext)]\<rparr>))
      | Answered \<Rightarrow> w)"

text \<open>A request arrives at its beginning. Other requests change the database; rows go with their user or account.\<close>

definition flow_do ::
  "(string \<Rightarrow> string) \<Rightarrow> (string \<Rightarrow> uuid option) \<Rightarrow> flow_event \<Rightarrow> flow_world \<Rightarrow> flow_world"
where
  "flow_do hash parse ev w =
     (case ev of
        Created flt r1 r2 now1 now2 name \<Rightarrow>
          (case CreateDeviceCode flt r1 r2 now1 now2 deviceCodeTTL name (fw_codes w) of
             (Inl _, codes) \<Rightarrow> w
           | (Inr dc, codes) \<Rightarrow>
               w\<lparr>fw_codes := codes, fw_created := fw_created w @ [(dc_DeviceCode dc, dc_UserCode dc, dc_ExpiresAt dc)]\<rparr>)
      | Arrives q \<Rightarrow>
          (case q of Approve _ _ \<Rightarrow> w\<lparr>fw_reqs := fw_reqs w @ [q]\<rparr> | Poll _ \<Rightarrow> w\<lparr>fw_reqs := fw_reqs w @ [q]\<rparr> | _ \<Rightarrow> w)
      | Runs i flt newID rb now dbnow \<Rightarrow> if i < length (fw_reqs w) then run_request hash parse i flt newID rb now dbnow w else w
      | DatabaseBecomes D \<Rightarrow> w\<lparr>fw_db := D\<rparr>
      | AccountGone a \<Rightarrow>
          w\<lparr>fw_codes := map (\<lambda>c. if dc_AccountID c = Some a then c\<lparr>dc_AccountID := None\<rparr> else c) (fw_codes w)\<rparr>
      | RowsGone cs us \<Rightarrow>
          w\<lparr>fw_codes := filter (\<lambda>c. dc_DeviceCode c \<notin> cs) (fw_codes w), fw_tokens := filter (\<lambda>t. ot_UserID t \<notin> us) (fw_tokens w)\<rparr>)"

definition flow_run ::
  "(string \<Rightarrow> string) \<Rightarrow> (string \<Rightarrow> uuid option) \<Rightarrow> flow_event list \<Rightarrow> flow_world \<Rightarrow> flow_world"
where
  "flow_run hash parse evs w = foldl (\<lambda>w ev. flow_do hash parse ev w) w evs"

definition flow_start :: "database \<Rightarrow> flow_world" where
  "flow_start D = \<lparr>fw_db = D, fw_codes = [], fw_tokens = [], fw_reqs = [], fw_created = [], fw_checked = [],
     fw_approved = [], fw_issued = []\<rparr>"

section \<open>Properties\<close>

definition justified :: "flow_world \<Rightarrow> string \<Rightarrow> uuid \<Rightarrow> uuid option \<Rightarrow> bool" where
  "justified w d u a \<longleftrightarrow>
     (\<exists>uc ex a' t. (d, uc, ex) \<in> set (fw_created w) \<and> (uc, u, a', t) \<in> set (fw_approved w) \<and> t < ex \<and> a \<in> {None, Some a'})"

definition code_ok :: "flow_world \<Rightarrow> devicecode \<Rightarrow> bool" where
  "code_ok w c \<longleftrightarrow> (dc_DeviceCode c, dc_UserCode c, dc_ExpiresAt c) \<in> set (fw_created w) \<and>
     (\<forall>u. dc_UserID c = Some u \<longrightarrow>
        (\<exists>a t. (dc_UserCode c, u, a, t) \<in> set (fw_approved w) \<and> t < dc_ExpiresAt c \<and> dc_AccountID c \<in> {None, Some a}))"

fun req_ok :: "flow_world \<Rightarrow> flow_req \<Rightarrow> bool" where
  "req_ok w (Approving uid u a) = (\<exists>D. (uid, a, D) \<in> set (fw_checked w))"
| "req_ok w (Passed d u a) = justified w d u a"
| "req_ok w (Marked d u a) = justified w d u a"
| "req_ok w _ = True"

definition flow_inv :: "(string \<Rightarrow> string) \<Rightarrow> flow_world \<Rightarrow> bool" where
  "flow_inv hash w \<longleftrightarrow>
     (\<forall>c \<in> set (fw_codes w). code_ok w c) \<and> (\<forall>q \<in> set (fw_reqs w). req_ok w q)
     \<and> (\<forall>(uc, u, a, t) \<in> set (fw_approved w). \<exists>D. (u, a, D) \<in> set (fw_checked w))
     \<and> (\<forall>(u, a, D) \<in> set (fw_checked w). IsMemberOrOwner None a u D)
     \<and> (\<forall>(d, u, a, p) \<in> set (fw_issued w). justified w d u a)
     \<and> (\<forall>t \<in> set (fw_tokens w). \<exists>d a p. (d, ot_UserID t, a, p) \<in> set (fw_issued w) \<and> ot_TokenHash t = hash p)"

text \<open>The ghost fields only grow, and with them what they justify.\<close>

definition ghosts_grow :: "flow_world \<Rightarrow> flow_world \<Rightarrow> bool" where
  "ghosts_grow w w' \<longleftrightarrow> set (fw_created w) \<subseteq> set (fw_created w') \<and> set (fw_checked w) \<subseteq> set (fw_checked w')
     \<and> set (fw_approved w) \<subseteq> set (fw_approved w') \<and> set (fw_issued w) \<subseteq> set (fw_issued w')"

lemma justified_mono: "justified w d u a \<Longrightarrow> ghosts_grow w w' \<Longrightarrow> justified w' d u a"
  unfolding justified_def ghosts_grow_def by blast

lemma code_ok_mono: "code_ok w c \<Longrightarrow> ghosts_grow w w' \<Longrightarrow> code_ok w' c"
  unfolding code_ok_def ghosts_grow_def by blast

lemma req_ok_mono: "req_ok w q \<Longrightarrow> ghosts_grow w w' \<Longrightarrow> req_ok w' q"
  by (cases q) (auto intro: justified_mono simp: ghosts_grow_def)

text \<open>A step keeps the invariant when what it adds is in order.\<close>

lemma flow_invI:
  assumes "flow_inv hash w" "ghosts_grow w w'"
    and "\<And>c. c \<in> set (fw_codes w') \<Longrightarrow> c \<in> set (fw_codes w) \<or> code_ok w' c"
    and "\<And>q. q \<in> set (fw_reqs w') \<Longrightarrow> q \<in> set (fw_reqs w) \<or> req_ok w' q"
    and "\<And>x. x \<in> set (fw_approved w') \<Longrightarrow> x \<in> set (fw_approved w) \<or> (\<exists>D. (fst (snd x), fst (snd (snd x)), D) \<in> set (fw_checked w'))"
    and "\<And>x. x \<in> set (fw_checked w') \<Longrightarrow> x \<in> set (fw_checked w) \<or> IsMemberOrOwner None (fst (snd x)) (fst x) (snd (snd x))"
    and "\<And>x. x \<in> set (fw_issued w') \<Longrightarrow> x \<in> set (fw_issued w) \<or> justified w' (fst x) (fst (snd x)) (fst (snd (snd x)))"
    and "\<And>t. t \<in> set (fw_tokens w') \<Longrightarrow> t \<in> set (fw_tokens w) \<or>
           (\<exists>d a p. (d, ot_UserID t, a, p) \<in> set (fw_issued w') \<and> ot_TokenHash t = hash p)"
  shows "flow_inv hash w'"
proof -
  have old: "\<forall>c \<in> set (fw_codes w). code_ok w' c" "\<forall>q \<in> set (fw_reqs w). req_ok w' q"
    using assms(1,2) code_ok_mono req_ok_mono by (auto simp: flow_inv_def)
  have "\<exists>D. (u, a, D) \<in> set (fw_checked w')" if "(uc, u, a, t) \<in> set (fw_approved w')" for uc u a t
    using assms(5) [OF that] assms(1,2) by (fastforce simp: flow_inv_def ghosts_grow_def)
  moreover have "IsMemberOrOwner None a u D" if "(u, a, D) \<in> set (fw_checked w')" for u a D
    using assms(6) [OF that] assms(1) by (fastforce simp: flow_inv_def)
  moreover have "justified w' d u a" if "(d, u, a, p) \<in> set (fw_issued w')" for d u a p
    using assms(7) [OF that] assms(1,2) justified_mono by (fastforce simp: flow_inv_def)
  moreover have "\<exists>d a p. (d, ot_UserID t, a, p) \<in> set (fw_issued w') \<and> ot_TokenHash t = hash p" if "t \<in> set (fw_tokens w')" for t
    using assms(8) [OF that] assms(1,2) by (fastforce simp: flow_inv_def ghosts_grow_def)
  ultimately show ?thesis using assms(3,4) old by (fastforce simp: flow_inv_def)
qed

lemma set_req_simps [simp]:
  "fw_db (set_req i q w) = fw_db w" "fw_codes (set_req i q w) = fw_codes w" "fw_tokens (set_req i q w) = fw_tokens w"
  "fw_created (set_req i q w) = fw_created w" "fw_checked (set_req i q w) = fw_checked w"
  "fw_approved (set_req i q w) = fw_approved w" "fw_issued (set_req i q w) = fw_issued w"
  by (simp_all add: set_req_def)

lemma set_req_reqs: "q \<in> set (fw_reqs (set_req i q' w)) \<Longrightarrow> q \<in> set (fw_reqs w) \<or> q = q'"
  using set_update_subset_insert [of "fw_reqs w" i q'] by (auto simp: set_req_def)

lemma DefaultAccountFor_member: "DefaultAccountFor flt u D = Inr a \<Longrightarrow> IsMemberOrOwner None (acct_ID a) u D"
proof -
  assume d: "DefaultAccountFor flt u D = Inr a"
  let ?l = "sort_key (\<lambda>a. (acct_OwnerUserID a \<noteq> u, acct_CreatedAt a)) (filter (belongs_to D u) (accounts D))"
  have "flt = None" using d by (cases flt) (simp_all add: DefaultAccountFor_def)
  with d obtain r rs where r: "?l = r # rs" "a = account.truncate r"
    by (cases ?l) (auto simp: DefaultAccountFor_def)
  then have "r \<in> set ?l" by simp
  then have "belongs_to D u r" "r \<in> set (accounts D)" by auto
  then show ?thesis using r(2)
    by (auto simp: IsMemberOrOwner_def belongs_to_def list_ex_iff account.defs)
qed

lemma submit_check_member: "submit_check flt parse uid form D = Inr (u, a) \<Longrightarrow> IsMemberOrOwner None a uid D"
proof -
  assume s: "submit_check flt parse uid form D = Inr (u, a)"
  then obtain raw where "resolveSelectedOrg flt parse uid raw D = Inr a"
    by (auto simp: submit_check_def split: option.splits if_splits sum.splits)
  then have "(\<exists>b. DefaultAccountFor (flt DF_Default) uid D = Inr b \<and> a = acct_ID b) \<or> IsMemberOrOwner (flt DF_Member) a uid D"
    by (auto simp: resolveSelectedOrg_def split: option.splits if_splits sum.splits)
  then show ?thesis using DefaultAccountFor_member by (auto simp: IsMemberOrOwner_def)
qed

lemma answered_inv: "flow_inv hash w \<Longrightarrow> flow_inv hash (set_req i Answered w)"
  by (rule flow_invI [of hash w]) (auto simp: ghosts_grow_def dest: set_req_reqs)

lemma checked_inv:
  assumes "flow_inv hash w" "submit_check flt parse uid form (fw_db w) = Inr (u, a)"
  shows "flow_inv hash (set_req i (Approving uid u a) (w\<lparr>fw_checked := fw_checked w @ [(uid, a, fw_db w)]\<rparr>))"
  by (rule flow_invI [OF assms(1)]) (use submit_check_member [OF assms(2)] in \<open>auto simp: ghosts_grow_def dest!: set_req_reqs\<close>)

lemma submit_write_replied:
  assumes "submit_write flt t uid u a (D, codes) = (Replied st x, D', codes')"
  shows "codes' = map (\<lambda>c. if approvable t u c
            then c\<lparr>dc_UserID := Some uid, dc_AccountID := Some a,
                   dc_VerifiedAt := Some (case dc_VerifiedAt c of Some t \<Rightarrow> t | None \<Rightarrow> t)\<rparr> else c) codes"
  using assms by (auto simp: submit_write_def ApproveDeviceCode_def split: option.splits if_splits)

lemma approved_inv:
  assumes "flow_inv hash w" "Approving uid u a \<in> set (fw_reqs w)"
    "submit_write flt t uid u a (fw_db w, fw_codes w) = (Replied st x, D, codes)"
  shows "flow_inv hash (set_req i Answered (w\<lparr>fw_db := D, fw_codes := codes, fw_approved := fw_approved w @ [(u, uid, a, t)]\<rparr>))"
    (is "flow_inv hash ?w")
proof (rule flow_invI [OF assms(1)])
  fix c assume "c \<in> set (fw_codes ?w)"
  then have "c \<in> set codes" by simp
  then obtain c0 where c0: "c0 \<in> set (fw_codes w)" "c = (if approvable t u c0
            then c0\<lparr>dc_UserID := Some uid, dc_AccountID := Some a,
                   dc_VerifiedAt := Some (case dc_VerifiedAt c0 of Some t \<Rightarrow> t | None \<Rightarrow> t)\<rparr> else c0)"
    unfolding submit_write_replied [OF assms(3)] by auto
  have "code_ok w c0" using assms(1) c0(1) by (simp add: flow_inv_def)
  then show "c \<in> set (fw_codes w) \<or> code_ok ?w c"
    using c0 by (auto simp: code_ok_def approvable_def)
next
  fix x assume "x \<in> set (fw_approved ?w)"
  moreover have "\<exists>D. (uid, a, D) \<in> set (fw_checked w)" using assms(1,2) by (auto simp: flow_inv_def)
  ultimately show "x \<in> set (fw_approved w) \<or> (\<exists>D. (fst (snd x), fst (snd (snd x)), D) \<in> set (fw_checked ?w))" by auto
qed (auto simp: ghosts_grow_def dest: set_req_reqs)

lemma device_check_row:
  assumes "device_check flt now d codes = Inr (u, a)"
  shows "\<exists>c \<in> set codes. dc_DeviceCode c = d \<and> dc_UserID c = Some u \<and> a = dc_AccountID c \<and> dc_ConsumedAt c = None"
proof -
  obtain c where c: "LookupDeviceCode flt d codes = Inr c" "dc_UserID c = Some u" "a = dc_AccountID c" "dc_ConsumedAt c = None"
    using assms by (auto simp: device_check_def split: sum.splits if_splits option.splits)
  have "flt = None" using c(1) by (cases flt) (simp_all add: LookupDeviceCode_def)
  then have "find (\<lambda>c. dc_DeviceCode c = d) codes = Some c"
    using c(1) by (cases "find (\<lambda>c. dc_DeviceCode c = d) codes") (simp_all add: LookupDeviceCode_def)
  then show ?thesis using c(2-4) find_SomeD [of "\<lambda>c. dc_DeviceCode c = d" codes c] by auto
qed

lemma passed_inv:
  assumes "flow_inv hash w" "device_check flt now d (fw_codes w) = Inr (u, a)"
  shows "flow_inv hash (set_req i (Passed d u a) w)"
proof (rule flow_invI [OF assms(1)])
  obtain c where c: "c \<in> set (fw_codes w)" "dc_DeviceCode c = d" "dc_UserID c = Some u" "a = dc_AccountID c"
    using device_check_row [OF assms(2)] by blast
  then have "code_ok w c" using assms(1) by (simp add: flow_inv_def)
  then have "justified w d u a" using c by (auto simp: code_ok_def justified_def)
  then have j: "justified (set_req i (Passed d u a) w) d u a"
    by (rule justified_mono) (simp add: ghosts_grow_def)
  fix q assume "q \<in> set (fw_reqs (set_req i (Passed d u a) w))"
  with j show "q \<in> set (fw_reqs w) \<or> req_ok (set_req i (Passed d u a) w) q" by (auto dest!: set_req_reqs)
qed (auto simp: ghosts_grow_def)

lemma device_mark_done: "device_mark flt now d codes = (None, codes') \<Longrightarrow>
   codes' = map (\<lambda>c. if dc_DeviceCode c = d \<and> dc_ConsumedAt c = None then c\<lparr>dc_ConsumedAt := Some now\<rparr> else c) codes"
  by (auto simp: device_mark_def split: option.splits)

lemma marked_inv:
  assumes "flow_inv hash w" "Passed d u a \<in> set (fw_reqs w)" "device_mark flt now d (fw_codes w) = (None, codes)"
  shows "flow_inv hash (set_req i (Marked d u a) (w\<lparr>fw_codes := codes\<rparr>))" (is "flow_inv hash ?w")
proof (rule flow_invI [OF assms(1)])
  have g: "ghosts_grow w ?w" by (simp add: ghosts_grow_def)
  have "justified w d u a" using assms(1,2) by (auto simp: flow_inv_def)
  then have j: "justified ?w d u a" using g by (rule justified_mono)
  { fix q assume "q \<in> set (fw_reqs ?w)"
    with j show "q \<in> set (fw_reqs w) \<or> req_ok ?w q" by (auto dest!: set_req_reqs) }
  { fix c assume "c \<in> set (fw_codes ?w)"
    then obtain c0 where c0: "c0 \<in> set (fw_codes w)" "dc_DeviceCode c = dc_DeviceCode c0" "dc_UserCode c = dc_UserCode c0"
      "dc_ExpiresAt c = dc_ExpiresAt c0" "dc_UserID c = dc_UserID c0" "dc_AccountID c = dc_AccountID c0"
      using device_mark_done [OF assms(3)] by (auto split: if_splits)
    then have "code_ok w c" using assms(1) by (auto simp: flow_inv_def code_ok_def)
    then show "c \<in> set (fw_codes w) \<or> code_ok ?w c" using g code_ok_mono by blast }
qed (auto simp: ghosts_grow_def)

lemma IssueBearerToken_row:
  "IssueBearerToken hash flt i rb now1 now2 u ttl D tokens = (Inr (p, r), tokens') \<Longrightarrow>
   tokens' = tokens @ [r] \<and> ot_UserID r = u \<and> ot_TokenHash r = hash p \<and> p = generateBearerToken rb"
  by (auto simp: IssueBearerToken_def Let_def split: option.splits if_splits)

lemma issued_inv:
  assumes "flow_inv hash w" "Marked d u a \<in> set (fw_reqs w)"
    "IssueBearerToken hash flt n rb now1 now2 u ttl D (fw_tokens w) = (Inr (p, r), tokens)"
  shows "flow_inv hash (set_req i Answered (w\<lparr>fw_tokens := tokens, fw_issued := fw_issued w @ [(d, u, a, p)]\<rparr>))" (is "flow_inv hash ?w")
proof (rule flow_invI [OF assms(1)])
  have "justified w d u a" using assms(1,2) by (auto simp: flow_inv_def)
  then have j: "justified ?w d u a" by (rule justified_mono) (auto simp: ghosts_grow_def)
  { fix x assume "x \<in> set (fw_issued ?w)"
    with j show "x \<in> set (fw_issued w) \<or> justified ?w (fst x) (fst (snd x)) (fst (snd (snd x)))" by auto }
qed (use IssueBearerToken_row [OF assms(3)] in \<open>auto simp: ghosts_grow_def dest: set_req_reqs\<close>)

lemma run_request_inv:
  assumes "flow_inv hash w" "i < length (fw_reqs w)"
  shows "flow_inv hash (run_request hash parse i flt n rb now dbnow w)"
proof (cases "fw_reqs w ! i")
  case (Approve uid form)
  then show ?thesis using assms(1) answered_inv checked_inv
    by (auto simp: run_request_def split: sum.split)
next
  case (Approving uid u a)
  then have q: "Approving uid u a \<in> set (fw_reqs w)" using assms(2) nth_mem by metis
  show ?thesis using Approving answered_inv [OF assms(1)] approved_inv [OF assms(1) q]
    by (auto simp: run_request_def split: reply.split prod.split)
next
  case (Poll d)
  then show ?thesis using answered_inv [OF assms(1)] passed_inv [OF assms(1)]
    by (auto simp: run_request_def split: sum.split)
next
  case (Passed d u a)
  then have q: "Passed d u a \<in> set (fw_reqs w)" using assms(2) nth_mem by metis
  show ?thesis using Passed answered_inv [OF assms(1)] marked_inv [OF assms(1) q]
    by (auto simp: run_request_def split: option.split prod.split)
next
  case (Marked d u a)
  then have q: "Marked d u a \<in> set (fw_reqs w)" using assms(2) nth_mem by metis
  show ?thesis using Marked answered_inv [OF assms(1)] issued_inv [OF assms(1) q]
    by (auto simp: run_request_def split: sum.split prod.split)
qed (use assms(1) in \<open>simp add: run_request_def\<close>)

lemma CreateDeviceCode_row:
  "CreateDeviceCode flt r1 r2 now1 now2 ttl name codes = (Inr dc, codes') \<Longrightarrow> codes' = codes @ [dc] \<and> dc_UserID dc = None"
  by (auto simp: CreateDeviceCode_def Let_def split: option.splits if_splits)

lemma created_inv:
  assumes "flow_inv hash w" "CreateDeviceCode flt r1 r2 now1 now2 ttl name (fw_codes w) = (Inr dc, codes)"
  shows "flow_inv hash (w\<lparr>fw_codes := codes,
    fw_created := fw_created w @ [(dc_DeviceCode dc, dc_UserCode dc, dc_ExpiresAt dc)]\<rparr>)" (is "flow_inv hash ?w")
proof (rule flow_invI [OF assms(1)])
  fix c assume "c \<in> set (fw_codes ?w)"
  then show "c \<in> set (fw_codes w) \<or> code_ok ?w c"
    using CreateDeviceCode_row [OF assms(2)] by (auto simp: code_ok_def)
qed (auto simp: ghosts_grow_def)

lemma account_gone_inv:
  assumes "flow_inv hash w"
  shows "flow_inv hash (w\<lparr>fw_codes := map (\<lambda>c. if dc_AccountID c = Some a then c\<lparr>dc_AccountID := None\<rparr> else c) (fw_codes w)\<rparr>)"
    (is "flow_inv hash ?w")
proof (rule flow_invI [OF assms])
  fix c assume "c \<in> set (fw_codes ?w)"
  then obtain c0 where c0: "c0 \<in> set (fw_codes w)" "c = (if dc_AccountID c0 = Some a then c0\<lparr>dc_AccountID := None\<rparr> else c0)"
    by auto
  then have "code_ok w c0" using assms by (simp add: flow_inv_def)
  then show "c \<in> set (fw_codes w) \<or> code_ok ?w c" using c0 by (auto simp: code_ok_def)
qed (auto simp: ghosts_grow_def)

lemma flow_do_inv:
  assumes "flow_inv hash w"
  shows "flow_inv hash (flow_do hash parse ev w)"
proof (cases ev)
  case (Created flt r1 r2 now1 now2 name)
  then show ?thesis using assms created_inv [OF assms] by (auto simp: flow_do_def split: sum.split prod.split)
next
  case (Arrives q)
  have "flow_inv hash (w\<lparr>fw_reqs := fw_reqs w @ [q]\<rparr>)" if "\<And>w. req_ok w q"
    by (rule flow_invI [OF assms]) (use that in \<open>auto simp: ghosts_grow_def\<close>)
  then show ?thesis using Arrives assms by (cases q) (auto simp: flow_do_def)
next
  case (Runs i flt n rb now dbnow)
  then show ?thesis using assms run_request_inv by (simp add: flow_do_def)
next
  case (DatabaseBecomes D)
  then show ?thesis using flow_invI [OF assms, of "w\<lparr>fw_db := D\<rparr>"] by (simp add: flow_do_def ghosts_grow_def)
next
  case (AccountGone a)
  then show ?thesis using account_gone_inv [OF assms] by (simp add: flow_do_def)
next
  case (RowsGone cs us)
  have "flow_inv hash (w\<lparr>fw_codes := filter (\<lambda>c. dc_DeviceCode c \<notin> cs) (fw_codes w),
      fw_tokens := filter (\<lambda>t. ot_UserID t \<notin> us) (fw_tokens w)\<rparr>)"
    by (rule flow_invI [OF assms]) (auto simp: ghosts_grow_def)
  then show ?thesis using RowsGone by (simp add: flow_do_def)
qed

lemma flow_run_inv: "flow_inv hash w \<Longrightarrow> flow_inv hash (flow_run hash parse evs w)"
  by (induction evs arbitrary: w) (simp_all add: flow_run_def flow_do_inv)

lemma flow_start_inv: "flow_inv hash (flow_start D)"
  by (simp add: flow_inv_def flow_start_def)


subsection \<open>Overlapping polls\<close>

lemma mark_refuses_later:
  assumes "device_mark flt t d codes = (None, codes')"
  shows "device_check flt' now d codes' \<noteq> Inr (u, a)"
proof
  assume "device_check flt' now d codes' = Inr (u, a)"
  from device_check_row [OF this] obtain c where "c \<in> set codes'" "dc_DeviceCode c = d" "dc_ConsumedAt c = None" by blast
  moreover have "dc_ConsumedAt c \<noteq> None" if "c \<in> set codes'" "dc_DeviceCode c = d" for c
  proof -
    have "c \<in> (\<lambda>c. if dc_DeviceCode c = d \<and> dc_ConsumedAt c = None then c\<lparr>dc_ConsumedAt := Some t\<rparr> else c) ` set codes"
      using that(1) by (simp only: device_mark_done [OF assms] set_map)
    then obtain c0 where
      "c = (if dc_DeviceCode c0 = d \<and> dc_ConsumedAt c0 = None then c0\<lparr>dc_ConsumedAt := Some t\<rparr> else c0)"
      by (rule imageE)
    then show ?thesis using that(2) by (cases "dc_DeviceCode c0 = d \<and> dc_ConsumedAt c0 = None") simp_all
  qed
  ultimately show False by blast
qed

lemma run_passed:
  "i < length (fw_reqs w) \<Longrightarrow> fw_reqs w ! i = Passed d u a \<Longrightarrow>
   flow_do hash parse (Runs i no_faults n rb now dbnow) w =
     set_req i (Marked d u a) (w\<lparr>fw_codes := snd (device_mark None dbnow d (fw_codes w))\<rparr>)"
  by (simp add: flow_do_def run_request_def device_mark_def)

lemma run_marked:
  "i < length (fw_reqs w) \<Longrightarrow> fw_reqs w ! i = Marked d u a \<Longrightarrow> has_user (fw_db w) u \<Longrightarrow>
   \<forall>t \<in> set (fw_tokens w). ot_ID t \<noteq> n \<and> ot_TokenHash t \<noteq> hash (generateBearerToken rb) \<Longrightarrow>
   \<exists>r. ot_UserID r = u \<and> ot_ID r = n \<and> ot_TokenHash r = hash (generateBearerToken rb) \<and>
     flow_do hash parse (Runs i no_faults n rb now dbnow) w = set_req i Answered (w\<lparr>fw_tokens := fw_tokens w @ [r],
       fw_issued := fw_issued w @ [(d, u, a, generateBearerToken rb)]\<rparr>)"
  by (rule exI [of _ "\<lparr>ot_ID = n, ot_UserID = u, ot_TokenHash = hash (generateBearerToken rb),
        ot_Prefix = take (min (length (generateBearerToken rb)) 18) (generateBearerToken rb),
        ot_ExpiresAt = now + bearerTTL, ot_RevokedAt = None, ot_CreatedAt = now, ot_LastUsedAt = None\<rparr>"])
    (simp add: flow_do_def run_request_def IssueBearerToken_def Let_def list_ex_iff)

text \<open>C37: A device code is meant to be used once, and no poll that begins after its update has marked the code gets through.
  But the update is not looked at: two polls that both read the row before either marks it are both
  handed a token for the one approval.\<close>

theorem overlapping_polls_both_paid:
  fixes parse :: "string \<Rightarrow> uuid option" and t1 t2 t3 t4 :: instant
  assumes "i \<noteq> j" "i < length (fw_reqs w)" "j < length (fw_reqs w)"
    and "fw_reqs w ! i = Passed d u a" "fw_reqs w ! j = Passed d u b" "has_user (fw_db w) u"
    and "\<forall>t \<in> set (fw_tokens w). ot_ID t \<notin> {n1, n2} \<and> ot_TokenHash t \<notin> {hash (generateBearerToken r1), hash (generateBearerToken r2)}"
    and "n1 \<noteq> n2" "hash (generateBearerToken r1) \<noteq> hash (generateBearerToken r2)"
  defines "w' \<equiv> flow_run hash parse [Runs i no_faults n1 r1 t1 t1, Runs j no_faults n2 r2 t2 t2,
                                     Runs i no_faults n1 r1 t3 t3, Runs j no_faults n2 r2 t4 t4] w"
  shows "fw_issued w' = fw_issued w @ [(d, u, a, generateBearerToken r1), (d, u, b, generateBearerToken r2)]
    \<and> length (fw_tokens w') = length (fw_tokens w) + 2
    \<and> (\<forall>codes t codes' flt now x. device_mark None t d codes = (None, codes') \<longrightarrow> device_check flt now d codes' \<noteq> Inr x)"
proof -
  define w1 where "w1 = flow_do hash parse (Runs i no_faults n1 r1 t1 t1) w"
  define w2 where "w2 = flow_do hash parse (Runs j no_faults n2 r2 t2 t2) w1"
  define w3 where "w3 = flow_do hash parse (Runs i no_faults n1 r1 t3 t3) w2"
  have 1: "fw_reqs w1 = (fw_reqs w)[i := Marked d u a]" "fw_tokens w1 = fw_tokens w" "fw_issued w1 = fw_issued w" "fw_db w1 = fw_db w"
    using run_passed [OF assms(2,4)] by (simp_all add: w1_def set_req_def)
  have 2: "fw_reqs w2 = (fw_reqs w)[i := Marked d u a, j := Marked d u b]" "fw_tokens w2 = fw_tokens w" "fw_issued w2 = fw_issued w"
    "fw_db w2 = fw_db w"
    using run_passed [of j w1 d u b] assms(1,3,5) 1 by (simp_all add: w2_def set_req_def)
  obtain r where r: "ot_ID r = n1" "ot_TokenHash r = hash (generateBearerToken r1)"
    "w3 = set_req i Answered (w2\<lparr>fw_tokens := fw_tokens w2 @ [r], fw_issued := fw_issued w2 @ [(d, u, a, generateBearerToken r1)]\<rparr>)"
    using run_marked [of i w2 d u a n1 hash r1 parse t3 t3] assms(1-3,6,7) 2 unfolding w3_def by auto
  have 3: "fw_reqs w3 ! j = Marked d u b" "j < length (fw_reqs w3)" "fw_db w3 = fw_db w"
    using r(3) 2 assms(1-3) by (simp_all add: set_req_def)
  have w': "w' = flow_do hash parse (Runs j no_faults n2 r2 t4 t4) w3"
    by (simp add: w'_def flow_run_def w1_def w2_def w3_def)
  obtain s where "w' = set_req j Answered (w3\<lparr>fw_tokens := fw_tokens w3 @ [s],
      fw_issued := fw_issued w3 @ [(d, u, b, generateBearerToken r2)]\<rparr>)"
    using run_marked [OF 3(2,1), of n2 hash r2 parse t4 t4] r 2 3 assms(6-9) unfolding w' by auto
  then show ?thesis using r(3) 2 mark_refuses_later by auto
qed

subsection \<open>A run\<close>

definition ex_flow_db :: database where
  "ex_flow_db = \<lparr>users = [\<lparr>us_ID = ''u1'', us_Username = ''a'', us_Email = '''', us_Mode = ''github'', us_GitHubID = None,
        us_AvatarURL = '''', us_CreatedAt = 0, us_ServiceAccountID = None, us_LastSelectedAccount = None\<rparr>],
     accounts = [\<lparr>acct_ID = ''a1'', acct_Name = ''org'', acct_OwnerUserID = ''u1'', acct_CreatedAt = 0, acct_NATSAccountPub = '''',
        acct_NATSAccountJWT = '''', acct_NATSAccountSigningSeed = '''', acct_acl_generation = 0, acct_acl_enforced = False\<rparr>],
     members = [], sources = [], pipes = [], grants = [], api_keys = [], invites = [], schedules = [], audit_events = []\<rparr>"

text \<open>A code is created and approved, and two polls read its row.\<close>

definition ex_flow_events :: "flow_event list" where
  "ex_flow_events =
     [Created None ''dev'' [0, 1, 2, 3, 4, 5, 6, 7] 0 0 ''cli'', Arrives (Approve ''u1'' (Some (''ABCD-EFGH'', ''a1''))),
      Runs 0 no_faults '''' '''' 1 1, Runs 0 no_faults '''' '''' 2 2,
      Arrives (Poll (RawURL_encode ''dev'')), Arrives (Poll (RawURL_encode ''dev'')),
      Runs 1 no_faults '''' '''' 3 3, Runs 2 no_faults '''' '''' 3 3]"

definition ex_flow :: flow_world where
  "ex_flow = flow_run (\<lambda>s. s) Some ex_flow_events (flow_start ex_flow_db)"

lemma ex_flow_fields:
  "fw_reqs ex_flow = [Answered, Passed (RawURL_encode ''dev'') ''u1'' (Some ''a1''), Passed (RawURL_encode ''dev'') ''u1'' (Some ''a1'')]
   \<and> fw_tokens ex_flow = [] \<and> fw_issued ex_flow = [] \<and> has_user (fw_db ex_flow) ''u1''"
  by code_simp

lemma overlapping_polls_both_paid_witness:
  "length (fw_tokens (flow_run (\<lambda>s. s) Some [Runs 1 no_faults ''t1'' ''x'' 4 4, Runs 2 no_faults ''t2'' ''y'' 5 5,
      Runs 1 no_faults ''t1'' ''x'' 6 6, Runs 2 no_faults ''t2'' ''y'' 7 7] ex_flow)) = 2"
  using overlapping_polls_both_paid [of 1 2 ex_flow "RawURL_encode ''dev''" "''u1''" "Some ''a1''" "Some ''a1''" "''t1''" "''t2''"
      "\<lambda>s. s" "''x''" "''y''" Some 4 5 6 7] ex_flow_fields
  by (simp add: generateBearerToken_def b64_char_def)


end
