(* ===== verification/ServerAuth.thy ===== *)
theory ServerAuth
  imports DeviceFlow Streams Errors
begin

text \<open>
  Who a request comes from and which organisation it acts in: the bearer middleware
  (\<open>internal/server/auth_bearer.go\<close>) and the exchange of a key or token for a broker credential
  (\<open>handleAuthExchange\<close> in \<open>handlers_api.go\<close>).

  Hashing and verifying keys, parsing account ids, signing a broker credential and the two configured
  values (\<open>PPZ_NATS_JWT_TTL\<close> as parsed, the public NATS address) are fields of \<open>exchange_env\<close>. The clock is
  read once per request; a credential that expires is decided by the broker.
\<close>

section \<open>Splitting a host and a port\<close>

text \<open>\<open>net.SplitHostPort\<close>, \<open>None\<close> for its errors.\<close>

definition SplitHostPort :: "string \<Rightarrow> (string \<times> string) option" where
  "SplitHostPort hp =
     (let parts = split_on CHR '':'' hp in
      if length parts = 1 then None
      else if has_prefix hp ''['' then
        (case cut_at CHR '']'' (drop 1 hp) of None \<Rightarrow> None
         | Some (host, rest) \<Rightarrow>
             if \<not> has_prefix rest '':'' \<or> CHR '':'' \<in> set (drop 1 rest) then None
             else if CHR ''['' \<in> set (drop 1 hp) \<or> CHR '']'' \<in> set rest then None
             else Some (host, drop 1 rest))
      else if length parts > 2 then None
      else if CHR ''['' \<in> set hp \<or> CHR '']'' \<in> set hp then None
      else Some (hd parts, last parts))"

section \<open>The environment\<close>

datatype exchange_site = X_Token | X_Touch | X_Key | X_Member | X_Default | X_Org | X_Enforced

record exchange_env =
  xe_faults :: "exchange_site faults"
  xe_acl :: acl_faults
  xe_pool :: "pool_site faults"
  xe_minting :: minting
  xe_hash :: "string \<Rightarrow> string"
  xe_verify :: "string \<Rightarrow> string \<Rightarrow> bool"
  xe_parse :: "string \<Rightarrow> uuid option"
  xe_mint :: "string \<Rightarrow> string \<Rightarrow> permissions \<Rightarrow> int \<Rightarrow> string + string \<times> string"
  xe_now :: instant
  xe_dbnow :: instant
  xe_DevLogin :: bool
  xe_JWT_TTL :: "duration option"
  xe_NATSURL :: string
  xe_Host :: string

section \<open>auth\_bearer.go\<close>

definition bearerPrefixAPIKey :: string where "bearerPrefixAPIKey = ''ppz_''"
definition bearerPrefixOAuth :: string where "bearerPrefixOAuth = ''ppz_oauth_''"

definition callerFromOAuthToken :: "oauthtoken \<Rightarrow> authed_caller" where
  "callerFromOAuthToken tok = \<lparr>cl_UserID = ot_UserID tok, cl_APIKey = None, cl_TokenID = Some (ot_ID tok)\<rparr>"

definition Principal :: "authed_caller \<Rightarrow> uuid" where "Principal c = cl_UserID c"

text \<open>The argument is the value of the Authorization header, empty when there is none.\<close>

definition extractBearer :: "string \<Rightarrow> string option" where
  "extractBearer header =
     (if \<not> has_prefix header ''Bearer '' then None
      else let tok = TrimSpace (trim_prefix header ''Bearer '')
           in if tok = '''' then None
              else if \<not> has_prefix tok bearerPrefixAPIKey \<and> \<not> has_prefix tok bearerPrefixOAuth then None
              else Some tok)"

definition lookup_token :: "exchange_env \<Rightarrow> string \<Rightarrow> oauthtoken list \<Rightarrow> (dberror + oauthtoken) \<times> oauthtoken list" where
  "lookup_token E tok tokens =
     LookupBearerToken (xe_hash E) (xe_faults E X_Token) (xe_faults E X_Touch) (xe_now E) (xe_dbnow E) tok tokens"

definition lookup_key :: "exchange_env \<Rightarrow> string \<Rightarrow> database \<Rightarrow> dberror + api_key" where
  "lookup_key E tok D = LookupAPIKey (xe_faults E X_Key) (xe_verify E) tok D"

definition resolveBearer ::
  "exchange_env \<Rightarrow> string \<Rightarrow> database \<Rightarrow> oauthtoken list \<Rightarrow> authed_caller option \<times> oauthtoken list"
where
  "resolveBearer E tok D tokens =
     (if has_prefix tok bearerPrefixOAuth
      then (case lookup_token E tok tokens of
              (Inl _, tokens') \<Rightarrow> (None, tokens') | (Inr row, tokens') \<Rightarrow> (Some (callerFromOAuthToken row), tokens'))
      else if has_prefix tok bearerPrefixAPIKey
      then (case lookup_key E tok D of Inl _ \<Rightarrow> (None, tokens) | Inr key \<Rightarrow> (Some (callerFromAPIKey key), tokens))
      else (None, tokens))"

definition requireBearer ::
  "exchange_env \<Rightarrow> string \<Rightarrow> database \<Rightarrow> oauthtoken list \<Rightarrow> (cerror + authed_caller) \<times> oauthtoken list"
where
  "requireBearer E header D tokens =
     (case extractBearer header of None \<Rightarrow> (Inl (New_err EInvalidAPIKey), tokens)
      | Some tok \<Rightarrow>
          (case resolveBearer E tok D tokens of
             (None, tokens') \<Rightarrow> (Inl (New_err EInvalidAPIKey), tokens') | (Some c, tokens') \<Rightarrow> (Inr c, tokens')))"

text \<open>The key that stands for a caller with a token, with the fields the middleware fills.\<close>

definition caller_key :: "uuid \<Rightarrow> uuid \<Rightarrow> api_key" where
  "caller_key accountID uid =
     \<lparr>ak_ID = uuid_nil, ak_AccountID = accountID, ak_CreatedByUserID = uid, ak_PrincipalUserID = uid, ak_KeyHash = '''',
      ak_KeyPrefix = '''', ak_Label = '''', ak_CreatedAt = 0, ak_RevokedAt = None\<rparr>"

text \<open>The body of \<open>requireAPIKey\<close> behind \<open>requireBearer\<close>: the key the handler is given, or the refusal.\<close>

definition key_for_caller :: "exchange_env \<Rightarrow> authed_caller \<Rightarrow> string \<Rightarrow> database \<Rightarrow> (int \<times> string) + api_key" where
  "key_for_caller E caller org D =
     (case cl_APIKey caller of Some key \<Rightarrow> Inr key
      | None \<Rightarrow>
          if org \<noteq> ''''
          then (case xe_parse E org of None \<Rightarrow> Inl (400, ''org is not a valid uuid'')
                | Some accountID \<Rightarrow>
                    if \<not> IsMemberOrOwner (xe_faults E X_Member) accountID (cl_UserID caller) D
                    then Inl (403, ''not a member of org'')
                    else Inr (caller_key accountID (cl_UserID caller)))
          else case DefaultAccountFor (xe_faults E X_Default) (cl_UserID caller) D of
            Inl _ \<Rightarrow> Inl (403, ''user belongs to no org; create or join one on the GUI first'')
          | Inr a \<Rightarrow> Inr (caller_key (acct_ID a) (cl_UserID caller)))"

definition requireAPIKey ::
  "exchange_env \<Rightarrow> string \<Rightarrow> string \<Rightarrow> database \<Rightarrow> oauthtoken list \<Rightarrow> ((int \<times> string) + api_key) \<times> oauthtoken list"
where
  "requireAPIKey E header org D tokens =
     (case requireBearer E header D tokens of
        (Inl e, tokens') \<Rightarrow> (Inl (HTTPStatus (Code e), Message e), tokens')
      | (Inr caller, tokens') \<Rightarrow> (key_for_caller E caller org D, tokens'))"

section \<open>handleAuthExchange\<close>

record authexchangerequest =
  xq_APIKey :: string
  xq_AccountID :: string

record authexchangereply =
  xp_JWT :: string
  xp_NATSURL :: string
  xp_AccountID :: string
  xp_AccountName :: string
  xp_ExpiresAt :: instant
  xp_ACLEnforced :: bool
  xp_NATSUserJWT :: string
  xp_NATSUserSeed :: string

definition invalid_org :: "string \<Rightarrow> cerror" where
  "invalid_org m = \<lparr>Code = ''E_INVALID_ORG'', Message = m\<rparr>"

definition internal_error :: "string \<Rightarrow> cerror" where
  "internal_error m = \<lparr>Code = ''E_INTERNAL'', Message = m\<rparr>"

text \<open>The organisation and the principal of the credential in the request.\<close>

definition exchange_credential ::
  "exchange_env \<Rightarrow> authexchangerequest \<Rightarrow> database \<Rightarrow> oauthtoken list \<Rightarrow> (cerror + uuid \<times> uuid) \<times> oauthtoken list"
where
  "exchange_credential E req D tokens =
     (if has_prefix (xq_APIKey req) bearerPrefixOAuth
      then (case lookup_token E (xq_APIKey req) tokens of
              (Inl _, tokens') \<Rightarrow> (Inl (New_err EInvalidAPIKey), tokens')
            | (Inr tok, tokens') \<Rightarrow>
                (if xq_AccountID req \<noteq> ''''
                 then (case xe_parse E (xq_AccountID req) of None \<Rightarrow> Inl (invalid_org ''org_id is not a valid uuid'')
                       | Some i \<Rightarrow>
                           if \<not> IsMemberOrOwner (xe_faults E X_Member) i (ot_UserID tok) D
                           then Inl (invalid_org ''user is not a member of org'') else Inr (i, ot_UserID tok))
                 else case DefaultAccountFor (xe_faults E X_Default) (ot_UserID tok) D of
                        Inl _ \<Rightarrow> Inl (internal_error ''user belongs to no org'') | Inr a \<Rightarrow> Inr (acct_ID a, ot_UserID tok),
                 tokens'))
      else (case lookup_key E (xq_APIKey req) D of Inl _ \<Rightarrow> Inl (New_err EInvalidAPIKey)
            | Inr key \<Rightarrow>
                if xq_AccountID req \<noteq> '''' \<and> xq_AccountID req \<noteq> ak_AccountID key
                then Inl (invalid_org ''api key is not for this org'')
                else Inr (ak_AccountID key, Actor key), tokens))"

definition exchange_url :: "exchange_env \<Rightarrow> string" where
  "exchange_url E =
     (if xe_NATSURL E \<noteq> '''' then xe_NATSURL E
      else ''nats://'' @ (case SplitHostPort (xe_Host E) of Some (h, _) \<Rightarrow> h | None \<Rightarrow> xe_Host E) @ '':4222'')"

definition exchange_ttl :: "exchange_env \<Rightarrow> duration" where
  "exchange_ttl E = (case xe_JWT_TTL E of Some d \<Rightarrow> if xe_DevLogin E then d else 5 * minute | None \<Rightarrow> 5 * minute)"

text \<open>The request is \<open>None\<close> when the body does not decode. A failed read of the enforcement switch counts as off.\<close>

definition handleAuthExchange ::
  "exchange_env \<Rightarrow> authexchangerequest option \<Rightarrow> server_world \<Rightarrow> oauthtoken list
   \<Rightarrow> (cerror + authexchangereply) \<times> server_world \<times> oauthtoken list"
where
  "handleAuthExchange E request W tokens =
     (case request of None \<Rightarrow> (Inl (New_err EInvalidAPIKey), W, tokens)
      | Some req \<Rightarrow>
     (case exchange_credential E req (aw_db W) tokens of
        (Inl e, tokens') \<Rightarrow> (Inl e, W, tokens')
      | (Inr (accountID, prin), tokens') \<Rightarrow>
     (case GetAccount (xe_faults E X_Org) accountID (aw_db W) of
        Inl e \<Rightarrow> (Inl (internal_error (''org lookup: '' @ dberr_text e)), W, tokens')
      | Inr org \<Rightarrow>
     (case Get (xe_pool E) (xe_minting E) accountID W of
        (Inl e, W') \<Rightarrow> (Inl (internal_error (''provision org account: '' @ e)), W', tokens')
      | (Inr oa, W') \<Rightarrow>
          (let enforced = (case ACLEnforced (xe_faults E X_Enforced) accountID (aw_db W') of Inr b \<Rightarrow> b | Inl _ \<Rightarrow> False)
           in case natsPermissionsFor (xe_acl E) accountID prin enforced (aw_db W') of
                Inl e \<Rightarrow> (Inl (internal_error (''resolve acl: '' @ dberr_text e)), W', tokens')
              | Inr perms \<Rightarrow>
                  (case xe_mint E (oa_AccountPub oa) (''ppz-user-'' @ accountID) perms (Unix (xe_now E + exchange_ttl E)) of
                     Inl e \<Rightarrow> (Inl (internal_error (''mint nats user jwt: '' @ e)), W', tokens')
                   | Inr (jwt, seed) \<Rightarrow>
                       (Inr \<lparr>xp_JWT = ''stub-jwt-not-yet-issued'', xp_NATSURL = exchange_url E, xp_AccountID = accountID, xp_AccountName = acct_Name org,
                             xp_ExpiresAt = xe_now E + exchange_ttl E, xp_ACLEnforced = enforced, xp_NATSUserJWT = jwt,
                             xp_NATSUserSeed = seed\<rparr>, W', tokens')))))))"

section \<open>Properties\<close>

text \<open>The key or token \<open>tok\<close> stands for the principal \<open>p\<close> in the organisation \<open>a\<close>.\<close>

definition presents :: "exchange_env \<Rightarrow> string \<Rightarrow> database \<Rightarrow> oauthtoken list \<Rightarrow> uuid \<Rightarrow> uuid \<Rightarrow> bool" where
  "presents E tok D tokens p a \<longleftrightarrow>
     (if has_prefix tok bearerPrefixOAuth
      then IsMemberOrOwner None a p D \<and>
        list_ex (\<lambda>t. ot_TokenHash t = xe_hash E tok \<and> ot_RevokedAt t = None \<and> xe_now E \<le> ot_ExpiresAt t \<and> ot_UserID t = p) tokens
      else list_ex (\<lambda>k. xe_verify E tok (ak_KeyHash k) \<and> ak_RevokedAt k = None \<and> ak_AccountID k = a
                 \<and> (p = Actor k \<or> p = ak_PrincipalUserID k)) (api_keys D))"

lemma LookupBearerToken_row:
  assumes "LookupBearerToken hash flt flt2 now dbnow tok tokens = (Inr t, tokens')"
  shows "t \<in> set tokens \<and> ot_TokenHash t = hash tok \<and> ot_RevokedAt t = None \<and> now \<le> ot_ExpiresAt t"
proof -
  let ?f = "find (\<lambda>t. ot_TokenHash t = hash tok) tokens"
  have t: "no_rows_not_found (query_row flt ?f) = Inr t" "ot_RevokedAt t = None" "now \<le> ot_ExpiresAt t"
    using assms by (auto simp: LookupBearerToken_def split: sum.splits if_splits)
  have "flt = None" using t(1) by (cases flt) simp_all
  then have "?f = Some t" using t(1) by (cases ?f) simp_all
  then show ?thesis using t(2,3) find_SomeD [of "\<lambda>t. ot_TokenHash t = hash tok" tokens t] by auto
qed

lemma LookupAPIKey_row:
  assumes "LookupAPIKey flt verify tok D = Inr k"
  shows "k \<in> set (api_keys D) \<and> verify tok (ak_KeyHash k) \<and> ak_RevokedAt k = None"
proof -
  have "flt = None" using assms by (cases flt) (simp_all add: LookupAPIKey_def)
  then have "find (\<lambda>k. verify tok (ak_KeyHash k))
      (filter (\<lambda>k. ak_KeyPrefix k = KeyPrefix tok \<and> ak_RevokedAt k = None) (api_keys D)) = Some k"
    using assms by (auto simp: LookupAPIKey_def split: option.splits)
  from find_SomeD [OF this] show ?thesis by auto
qed

lemma IsMemberOrOwner_any: "IsMemberOrOwner flt a u D \<Longrightarrow> IsMemberOrOwner None a u D"
  by (simp add: IsMemberOrOwner_def)

lemma presents_token:
  assumes "lookup_token E tok tokens = (Inr t, tokens')" "has_prefix tok bearerPrefixOAuth" "IsMemberOrOwner None a (ot_UserID t) D"
  shows "presents E tok D tokens (ot_UserID t) a"
  using LookupBearerToken_row [OF assms(1) [unfolded lookup_token_def]] assms(2,3) by (auto simp: presents_def list_ex_iff)

lemma presents_key:
  assumes "lookup_key E tok D = Inr k" "\<not> has_prefix tok bearerPrefixOAuth" "p = Actor k \<or> p = ak_PrincipalUserID k"
  shows "presents E tok D tokens p (ak_AccountID k)"
  using LookupAPIKey_row [OF assms(1) [unfolded lookup_key_def]] assms(2,3) by (auto simp: presents_def list_ex_iff)

lemma exchange_credential_presents:
  assumes "exchange_credential E req D tokens = (Inr (a, p), tokens')"
  shows "presents E (xq_APIKey req) D tokens p a \<and>
    (xq_AccountID req \<noteq> '''' \<longrightarrow> xq_AccountID req = a \<or> xe_parse E (xq_AccountID req) = Some a)"
proof (cases "has_prefix (xq_APIKey req) bearerPrefixOAuth")
  case True
  then obtain t where t: "lookup_token E (xq_APIKey req) tokens = (Inr t, tokens')" "p = ot_UserID t"
    "(if xq_AccountID req \<noteq> '''' then xe_parse E (xq_AccountID req) = Some a \<and> IsMemberOrOwner (xe_faults E X_Member) a p D
      else \<exists>b. DefaultAccountFor (xe_faults E X_Default) p D = Inr b \<and> a = acct_ID b)"
    using assms by (auto simp: exchange_credential_def split: prod.splits sum.splits if_splits option.splits)
  then have "IsMemberOrOwner None a p D"
    using DefaultAccountFor_member IsMemberOrOwner_any by (auto split: if_splits)
  then show ?thesis using presents_token [OF t(1) True] t(2,3) by (auto split: if_splits)
next
  case False
  then obtain k where "lookup_key E (xq_APIKey req) D = Inr k" "a = ak_AccountID k" "p = Actor k"
    "xq_AccountID req \<noteq> '''' \<longrightarrow> xq_AccountID req = a"
    using assms by (auto simp: exchange_credential_def split: sum.splits if_splits)
  then show ?thesis using presents_key False by auto
qed

lemma pool_enter_pool: "pool_enter flt a oa W = (Inr oa', W') \<Longrightarrow> aw_pool W' a = Some oa' \<and> oa' = oa"
  by (auto simp: pool_enter_def Let_def)

lemma Get_enters_pool: "Get flt m a W = (Inr oa, W') \<Longrightarrow> aw_pool W' a = Some oa"
  by (auto simp: Get_def Let_def split: option.splits sum.splits prod.splits if_splits dest: pool_enter_pool)

lemma requireAPIKey_presents:
  assumes "requireAPIKey E header org D tokens = (Inr k, tokens')"
  shows "\<exists>tok p. extractBearer header = Some tok \<and> presents E tok D tokens p (ak_AccountID k) \<and> ak_PrincipalUserID k = p
    \<and> (org \<noteq> '''' \<and> has_prefix tok bearerPrefixOAuth \<longrightarrow> xe_parse E org = Some (ak_AccountID k))"
proof -
  obtain tok c where tok: "extractBearer header = Some tok" "resolveBearer E tok D tokens = (Some c, tokens')"
    "key_for_caller E c org D = Inr k"
    using assms by (auto simp: requireAPIKey_def requireBearer_def split: option.splits prod.splits sum.splits)
  show ?thesis
  proof (cases "has_prefix tok bearerPrefixOAuth")
    case True
    then obtain t where t: "lookup_token E tok tokens = (Inr t, tokens')" "c = callerFromOAuthToken t"
      using tok(2) by (auto simp: resolveBearer_def split: prod.splits sum.splits)
    let ?u = "ot_UserID t"
    have k: "k = caller_key (ak_AccountID k) ?u \<and> IsMemberOrOwner None (ak_AccountID k) ?u D
        \<and> (org \<noteq> '''' \<longrightarrow> xe_parse E org = Some (ak_AccountID k))"
      using tok(3) t(2) IsMemberOrOwner_any DefaultAccountFor_member
      by (auto simp: key_for_caller_def callerFromOAuthToken_def caller_key_def split: if_splits option.splits sum.splits)
    then have "ak_PrincipalUserID k = ?u" by (metis api_key.select_convs(4) caller_key_def)
    then show ?thesis using k tok(1) presents_token [OF t(1) True] by auto
  next
    case False
    then obtain key where "lookup_key E tok D = Inr key" "c = callerFromAPIKey key"
      using tok(2) by (auto simp: resolveBearer_def split: sum.splits if_splits)
    moreover then have "k = key" using tok(3) by (simp add: key_for_caller_def callerFromAPIKey_def)
    ultimately show ?thesis using tok(1) presents_key False by blast
  qed
qed

lemma exchange_steps:
  assumes "handleAuthExchange E (Some req) W tokens = (Inr r, W', tokens')"
  shows "\<exists>p oa perms. exchange_credential E req (aw_db W) tokens = (Inr (xp_AccountID r, p), tokens')
    \<and> Get (xe_pool E) (xe_minting E) (xp_AccountID r) W = (Inr oa, W')
    \<and> xp_ACLEnforced r = (case ACLEnforced (xe_faults E X_Enforced) (xp_AccountID r) (aw_db W') of Inr b \<Rightarrow> b | Inl _ \<Rightarrow> False)
    \<and> natsPermissionsFor (xe_acl E) (xp_AccountID r) p (xp_ACLEnforced r) (aw_db W') = Inr perms
    \<and> xe_mint E (oa_AccountPub oa) (''ppz-user-'' @ xp_AccountID r) perms (Unix (xe_now E + exchange_ttl E))
        = Inr (xp_NATSUserJWT r, xp_NATSUserSeed r)"
proof -
  obtain a p where c: "exchange_credential E req (aw_db W) tokens = (Inr (a, p), tokens')"
    using assms by (auto simp: handleAuthExchange_def split: prod.splits sum.splits)
  obtain oa where g: "Get (xe_pool E) (xe_minting E) a W = (Inr oa, W')"
    using assms c by (auto simp: handleAuthExchange_def Let_def split: prod.splits sum.splits)
  from assms c g show ?thesis
    by (intro exI [of _ p] exI [of _ oa]) (auto simp: handleAuthExchange_def Let_def split: sum.splits prod.splits)
qed


lemma exchange_switch_unread:
  assumes "handleAuthExchange E (Some req) W tokens = (Inr r, W', tokens')" "xe_faults E X_Enforced = Some e"
  shows "\<exists>p oa. xe_mint E (oa_AccountPub oa) (''ppz-user-'' @ xp_AccountID r) (credentialPermissions False (xp_AccountID r) [])
      (Unix (xe_now E + exchange_ttl E)) = Inr (xp_NATSUserJWT r, xp_NATSUserSeed r) \<and> aw_pool W' (xp_AccountID r) = Some oa
      \<and> presents E (xq_APIKey req) (aw_db W) tokens p (xp_AccountID r)"
  using exchange_steps [OF assms(1)] exchange_credential_presents Get_enters_pool assms(2)
  by (fastforce simp: ACLEnforced_def natsPermissionsFor_def)

lemma RemoveMember_row:
  assumes "RemoveMember None None a u D = (None, D')"
  shows "\<exists>owner. find (\<lambda>r. acct_ID r = a) (accounts D) \<noteq> None \<and>
     map_option acct_OwnerUserID (find (\<lambda>r. acct_ID r = a) (accounts D)) = Some owner \<and> owner \<noteq> u
     \<and> D' = D\<lparr>members := filter (\<lambda>m. \<not> (mb_AccountID m = a \<and> mb_UserID m = u)) (members D)\<rparr>"
  using assms by (cases "find (\<lambda>r. acct_ID r = a) (accounts D)") (auto simp: RemoveMember_def split: if_splits)

text \<open>C38: Removing a member does not end his access. The keys that act for him stay valid: with one of them the exchange
  answers, after the removal, with a credential for the account, unrestricted when the account does not enforce its
  access rules, although he has no role in it any more.\<close>

theorem removed_member_keeps_access:
  assumes "RemoveMember None None a u D = (None, D')"
    and "lookup_key E tok D = Inr k" "ak_AccountID k = a" "Actor k = u" "\<not> has_prefix tok bearerPrefixOAuth"
    and "ACLEnforced None a D = Inr False" "xe_faults E X_Org = None"
    and "aw_db W = D'" "aw_pool W a = Some oa"
    and "xe_mint E (oa_AccountPub oa) (''ppz-user-'' @ a) (credentialPermissions False a []) (Unix (xe_now E + exchange_ttl E)) = Inr (jwt, seed)"
  shows "RoleInOrg None None u a D' = Inr OrgNone \<and>
    (\<exists>r. handleAuthExchange E (Some \<lparr>xq_APIKey = tok, xq_AccountID = ''''\<rparr>) W tokens = (Inr r, W, tokens)
       \<and> xp_AccountID r = a \<and> xp_NATSUserJWT r = jwt)"
proof -
  obtain row where row: "find (\<lambda>r. acct_ID r = a) (accounts D) = Some row" "acct_OwnerUserID row \<noteq> u"
    "D' = D\<lparr>members := filter (\<lambda>m. \<not> (mb_AccountID m = a \<and> mb_UserID m = u)) (members D)\<rparr>"
    using RemoveMember_row [OF assms(1)] by auto
  have "find (\<lambda>m. mb_AccountID m = a \<and> mb_UserID m = u) (members D') = None" using row(3) by (auto simp: find_None_iff)
  then have role: "RoleInOrg None None u a D' = Inr OrgNone" using row by (simp add: RoleInOrg_def)
  have key: "lookup_key E tok D' = Inr k" using assms(2) row(3) by (simp add: lookup_key_def LookupAPIKey_def)
  have enf: "(case ACLEnforced (xe_faults E X_Enforced) a D' of Inr b \<Rightarrow> b | Inl _ \<Rightarrow> False) = False"
    using assms(6) row(1,3) by (cases "xe_faults E X_Enforced") (simp_all add: ACLEnforced_def)
  have cred: "exchange_credential E \<lparr>xq_APIKey = tok, xq_AccountID = ''''\<rparr> D' tokens = (Inr (a, u), tokens)"
    using assms(3-5) key by (simp add: exchange_credential_def)
  have org: "GetAccount (xe_faults E X_Org) a D' = Inr (account.truncate row)"
    using assms(7) row(1,3) by (simp add: GetAccount_def)
  have pool: "Get (xe_pool E) (xe_minting E) a W = (Inr oa, W)" using assms(9) by (simp add: Get_def)
  show ?thesis using role assms(8,10) cred org pool enf
    by (simp add: handleAuthExchange_def Let_def natsPermissionsFor_def)
qed

subsection \<open>Examples\<close>

definition ex_key :: api_key where
  "ex_key = \<lparr>ak_ID = ''k1'', ak_AccountID = ''a1'', ak_CreatedByUserID = ''u2'', ak_PrincipalUserID = ''u2'', ak_KeyHash = ''h'',
     ak_KeyPrefix = ''12345678'', ak_Label = '''', ak_CreatedAt = 0, ak_RevokedAt = None\<rparr>"

definition ex_auth_db :: database where
  "ex_auth_db = ex_flow_db\<lparr>members := [\<lparr>mb_AccountID = ''a1'', mb_UserID = ''u2'', mb_AddedAt = 0, mb_Role = ''member''\<rparr>],
     api_keys := [ex_key]\<rparr>"

definition ex_exchange :: exchange_env where
  "ex_exchange = \<lparr>xe_faults = no_faults, xe_acl = no_faults, xe_pool = no_faults,
     xe_minting = \<lparr>mt_Operator = True, mt_Material = Inl ''unused''\<rparr>, xe_hash = (\<lambda>s. s),
     xe_verify = (\<lambda>p h. p = ''ppz_12345678''), xe_parse = Some, xe_mint = (\<lambda>pub nm perms e. Inr (nm, ''seed'')), xe_now = 0,
     xe_dbnow = 0, xe_DevLogin = False, xe_JWT_TTL = None, xe_NATSURL = '''', xe_Host = ''h:8080''\<rparr>"

definition ex_server :: "database \<Rightarrow> server_world" where
  "ex_server D = \<lparr>aw_db = D, aw_pool = [''a1'' \<mapsto> \<lparr>oa_AccountID = ''a1'', oa_AccountName = ''org'', oa_AccountPub = ''P''\<rparr>],
     aw_resolver = Map.empty, aw_streams = (\<lambda>_. Map.empty), aw_purged = [], aw_nudged = []\<rparr>"

lemma ex_key_found: "lookup_key ex_exchange ''ppz_12345678'' ex_auth_db = Inr ex_key"
  by (simp add: lookup_key_def LookupAPIKey_def ex_exchange_def ex_auth_db_def ex_flow_db_def ex_key_def KeyPrefix_def
      trim_prefix_def has_prefix_def)

lemma removed_member_keeps_access_witness:
  "\<exists>r. handleAuthExchange ex_exchange (Some \<lparr>xq_APIKey = ''ppz_12345678'', xq_AccountID = ''''\<rparr>)
        (ex_server (snd (RemoveMember None None ''a1'' ''u2'' ex_auth_db))) [] =
      (Inr r, ex_server (snd (RemoveMember None None ''a1'' ''u2'' ex_auth_db)), []) \<and> xp_NATSUserJWT r = ''ppz-user-a1''"
proof -
  have r: "RemoveMember None None ''a1'' ''u2'' ex_auth_db = (None, ex_auth_db\<lparr>members := []\<rparr>)"
    by (simp add: RemoveMember_def ex_auth_db_def ex_flow_db_def is_member_def)
  have a: "ACLEnforced None ''a1'' ex_auth_db = Inr False" by (simp add: ACLEnforced_def ex_auth_db_def ex_flow_db_def)
  have k: "ak_AccountID ex_key = ''a1''" "Actor ex_key = ''u2''" "\<not> has_prefix ''ppz_12345678'' bearerPrefixOAuth"
    by (simp_all add: ex_key_def Actor_def uuid_nil_def bearerPrefixOAuth_def has_prefix_def)
  have "\<exists>r. handleAuthExchange ex_exchange (Some \<lparr>xq_APIKey = ''ppz_12345678'', xq_AccountID = ''''\<rparr>)
        (ex_server (ex_auth_db\<lparr>members := []\<rparr>)) [] = (Inr r, ex_server (ex_auth_db\<lparr>members := []\<rparr>), [])
      \<and> xp_NATSUserJWT r = ''ppz-user-a1''"
    using removed_member_keeps_access [OF r ex_key_found k a,
        of "ex_server (ex_auth_db\<lparr>members := []\<rparr>)" "\<lparr>oa_AccountID = ''a1'', oa_AccountName = ''org'', oa_AccountPub = ''P''\<rparr>"
          "''ppz-user-a1''" "''seed''" "[]"]
    by (auto simp: ex_server_def) (auto simp: ex_exchange_def)
  then show ?thesis using r by simp
qed


end
