(* ===== verification/DaemonHandlers.thy ===== *)
theory DaemonHandlers
  imports DaemonSend PipeHandlers
begin

text \<open>
  The daemon's requests to the server (\<open>callServer\<close> in \<open>internal/daemon/handlers.go\<close>) and the commands that
  are forwarded through it: creating, upgrading, connecting and destroying sources, creating, changing,
  destroying and purging pipes, the current source and the namespace of a session, and the access rules
  (\<open>handlers_acl.go\<close>).

  The server is a function from requests to answers. \<open>client\<close> holds what the commands change: the session
  state with the completion cache, the stored credentials, the subscription files and the requests sent so
  far. Faults of the disk are arguments.
\<close>

section \<open>Query strings\<close>

text \<open>\<open>url.QueryEscape\<close> and \<open>url.Values.Encode\<close> as the daemon uses them, and the reading of a query on the
  other side: the part of the address after the question mark and before the fragment, split at ampersands.\<close>

definition query_plain :: "char \<Rightarrow> bool" where
  "query_plain c \<longleftrightarrow>
     (let n = of_char c :: nat
      in in_range 48 57 n \<or> in_range 65 90 n \<or> in_range 97 122 n \<or> c \<in> set ''-_.~'')"

definition upper_hex :: "nat \<Rightarrow> char" where
  "upper_hex n = ''0123456789ABCDEF'' ! n"

definition escape_byte :: "char \<Rightarrow> string" where
  "escape_byte c =
     (if query_plain c then [c] else if c = CHR '' '' then ''+''
      else [CHR 0x25, upper_hex (of_char c div 16), upper_hex (of_char c mod 16)])"

definition QueryEscape :: "string \<Rightarrow> string" where
  "QueryEscape s = concat (map escape_byte s)"

definition hex_value :: "char \<Rightarrow> nat option" where
  "hex_value c =
     (let n = of_char c :: nat
      in if in_range 48 57 n then Some (n - 48) else if in_range 65 70 n then Some (n - 55)
         else if in_range 97 102 n then Some (n - 87) else None)"

fun QueryUnescape :: "string \<Rightarrow> string option" where
  "QueryUnescape [] = Some []"
| "QueryUnescape (c # s) =
     (if c = CHR 0x25 then
        (case s of a # b # t \<Rightarrow>
             (case (hex_value a, hex_value b) of
                (Some x, Some y) \<Rightarrow> map_option (Cons (char_of (16 * x + y))) (QueryUnescape t) | _ \<Rightarrow> None)
         | _ \<Rightarrow> None)
      else map_option (Cons (if c = CHR ''+'' then CHR '' '' else c)) (QueryUnescape s))"

definition query_pair :: "string \<Rightarrow> (string \<times> string) option" where
  "query_pair part =
     (if part = [] \<or> CHR '';'' \<in> set part then None
      else case (QueryUnescape (takeWhile (\<lambda>c. c \<noteq> CHR ''='') part), QueryUnescape (tl (dropWhile (\<lambda>c. c \<noteq> CHR ''='') part))) of
        (Some k, Some v) \<Rightarrow> Some (k, v) | _ \<Rightarrow> None)"

definition sent_target :: "string \<Rightarrow> string" where
  "sent_target url = takeWhile (\<lambda>c. c \<noteq> CHR 0x23) url"

definition url_path :: "string \<Rightarrow> string" where
  "url_path url = takeWhile (\<lambda>c. c \<noteq> CHR ''?'') (sent_target url)"

definition query_get :: "string \<Rightarrow> string \<Rightarrow> string" where
  "query_get key url =
     or_empty (map_of (List.map_filter query_pair (split_on CHR ''&'' (tl (dropWhile (\<lambda>c. c \<noteq> CHR ''?'') (sent_target url))))) key)"

section \<open>State\<close>

record credentials =
  cr_URL :: string
  cr_APIKey :: string
  cr_AccountID :: string
  cr_AccountName :: string
  cr_NATSUserJWT :: string
  cr_NATSUserSeed :: string

record aclmutation =
  am_Pipe :: string
  am_Principal :: string
  am_Perm :: string

datatype client_body =
    CreateSourceBody string string string
  | EmptyObject
  | PipeCreateBody pipecreaterequest
  | PipeSetBody pipesetrequest
  | MutationBody aclmutation
  | EnforceBody bool

record http_request =
  hr_Method :: string
  hr_URL :: string
  hr_Bearer :: string
  hr_Body :: "client_body option"

text \<open>The answer to a request: it cannot be built, no answer comes, an error status with the error of its body when
  that decodes, or a success with the decoded body.\<close>

datatype 'r http_answer = Unsendable string | NoAnswer | Failed string "cerror option" | Succeeded "string + 'r"

record client =
  cl_List :: list_state
  cl_Creds :: "credentials option"
  cl_accountName :: string
  cl_keyPrefix :: string
  cl_loginCheck :: string
  cl_Subs :: subs_fs
  cl_Sent :: "http_request list"

abbreviation cl_State :: "client \<Rightarrow> daemon_state" where
  "cl_State c \<equiv> fst (cl_List c)"

definition on_state :: "(daemon_state \<Rightarrow> daemon_state) \<Rightarrow> client \<Rightarrow> client" where
  "on_state f c = c\<lparr>cl_List := (f (cl_State c), snd (cl_List c))\<rparr>"

definition LoginCheckOK :: string where "LoginCheckOK = ''ok''"
definition LoginCheckInvalid :: string where "LoginCheckInvalid = ''invalid''"

definition SetLoginCheck :: "string \<Rightarrow> client \<Rightarrow> client" where
  "SetLoginCheck s c = c\<lparr>cl_loginCheck := s\<rparr>"

definition RememberPipe :: "string \<Rightarrow> daemon_state \<Rightarrow> daemon_state" where
  "RememberPipe handle S = S\<lparr>st_knownPipes := insert handle (st_knownPipes S)\<rparr>"

definition KnowsPipe :: "string \<Rightarrow> daemon_state \<Rightarrow> bool" where
  "KnowsPipe handle S \<longleftrightarrow> handle \<in> st_knownPipes S"

section \<open>callServer\<close>

definition request_url :: "string \<Rightarrow> string \<Rightarrow> string \<Rightarrow> string" where
  "request_url base path accountID =
     (if accountID \<noteq> ''''
      then base @ path @ (if CHR ''?'' \<in> set path then ''&'' else ''?'') @ ''org='' @ accountID
      else base @ path)"

text \<open>The common part: the body of a success is handed on undecoded.\<close>

definition server_call ::
  "string \<Rightarrow> string \<Rightarrow> client_body option \<Rightarrow> (http_request \<Rightarrow> 'r http_answer) \<Rightarrow> client \<Rightarrow> (cerror + (string + 'r)) \<times> client"
where
  "server_call verb path payload server c =
     (case cl_Creds c of None \<Rightarrow> (Inl (New_err ENotLoggedIn), c)
      | Some creds \<Rightarrow>
          (let r = \<lparr>hr_Method = verb, hr_URL = request_url (cr_URL creds) path (st_accountID (cl_State c)),
                    hr_Bearer = cr_APIKey creds, hr_Body = payload\<rparr>
           in case server r of
                Unsendable t \<Rightarrow> (Inl \<lparr>Code = ''E_INTERNAL'', Message = t\<rparr>, c)
              | NoAnswer \<Rightarrow> (Inl (New_err EServerUnreachable), c\<lparr>cl_Sent := cl_Sent c @ [r]\<rparr>)
              | Failed st_line e \<Rightarrow>
                  (let c1 = c\<lparr>cl_Sent := cl_Sent c @ [r]\<rparr>
                   in case e of
                        Some e' \<Rightarrow>
                          if Code e' \<noteq> '''' then (Inl e', if Code e' = EInvalidAPIKey then SetLoginCheck LoginCheckInvalid c1 else c1)
                          else (Inl \<lparr>Code = ''E_HTTP'', Message = st_line\<rparr>, c1)
                      | None \<Rightarrow> (Inl \<lparr>Code = ''E_HTTP'', Message = st_line\<rparr>, c1))
              | Succeeded b \<Rightarrow> (Inr b, SetLoginCheck LoginCheckOK (c\<lparr>cl_Sent := cl_Sent c @ [r]\<rparr>))))"

text \<open>With a place for the reply, and without one.\<close>

definition callServer ::
  "string \<Rightarrow> string \<Rightarrow> client_body option \<Rightarrow> (http_request \<Rightarrow> 'r http_answer) \<Rightarrow> client \<Rightarrow> (cerror + 'r) \<times> client"
where
  "callServer verb path payload server c =
     (case server_call verb path payload server c of
        (Inl e, c1) \<Rightarrow> (Inl e, c1)
      | (Inr (Inl t), c1) \<Rightarrow> (Inl \<lparr>Code = ''E_PROTOCOL'', Message = t\<rparr>, c1)
      | (Inr (Inr r), c1) \<Rightarrow> (Inr r, c1))"

definition callServer_nil ::
  "string \<Rightarrow> string \<Rightarrow> client_body option \<Rightarrow> (http_request \<Rightarrow> unit http_answer) \<Rightarrow> client \<Rightarrow> cerror option \<times> client"
where
  "callServer_nil verb path payload server c =
     (case server_call verb path payload server c of (Inl e, c1) \<Rightarrow> (Some e, c1) | (Inr _, c1) \<Rightarrow> (None, c1))"

section \<open>The session's own state\<close>

text \<open>The faults a command may meet: writing the session files, and the calls on the subscription files.\<close>

record disk_env =
  de_Persist :: "string option"
  de_Subs :: "subs_site faults"

definition persist_error :: "disk_env \<Rightarrow> cerror option" where
  "persist_error D = map_option (\<lambda>t. \<lparr>Code = ''E_INTERNAL'', Message = t\<rparr>) (de_Persist D)"

definition subscribe_to :: "disk_env \<Rightarrow> string \<Rightarrow> string \<Rightarrow> client \<Rightarrow> client" where
  "subscribe_to D sess subj c =
     c\<lparr>cl_Subs := snd (Add_subs (de_Subs D) (st_accountID (cl_State c)) sess [subj] (cl_Subs c))\<rparr>"

definition handleDisconnect :: "disk_env \<Rightarrow> string \<Rightarrow> client \<Rightarrow> (cerror + unit) \<times> client" where
  "handleDisconnect D sess c =
     (if cl_Creds c = None then (Inl (New_err ENotLoggedIn), c)
      else
        (let err = (if session sess \<in> dom (st_current (cl_State c)) then persist_error D else None);
             c1 = on_state (ClearCurrent sess) c
         in case err of Some e \<Rightarrow> (Inl e, c1) | None \<Rightarrow> (Inr (), c1)))"

definition handleSwitch ::
  "disk_env \<Rightarrow> (http_request \<Rightarrow> list_source list http_answer) \<Rightarrow> string \<Rightarrow> string \<Rightarrow> client \<Rightarrow> (cerror + string) \<times> client"
where
  "handleSwitch D server handle sess c =
     (if cl_Creds c = None then (Inl (New_err ENotLoggedIn), c)
      else case callServer ''GET'' ''/api/v1/sources'' None server c of
        (Inl e, c1) \<Rightarrow> (Inl e, c1)
      | (Inr srcs, c1) \<Rightarrow>
          (let c2 = c1\<lparr>cl_List := refreshSourceCache srcs (cl_State c1)\<rparr>
           in if \<not> KnowsPipe handle (cl_State c2) then (Inl (NewSourceNotFound handle), c2)
              else
                (let c3 = on_state (SetCurrent sess handle) c2
                 in case persist_error D of Some e \<Rightarrow> (Inl e, c3)
                    | None \<Rightarrow> (Inr handle, subscribe_to D sess (handle @ ''.inbox'') c3))))"

definition bad_segment :: "string \<Rightarrow> string option" where
  "bad_segment namespace = (if namespace = '''' then None else find (\<lambda>seg. ValidateHandle seg \<noteq> None) (split_dots namespace))"

definition handleSetNamespace :: "disk_env \<Rightarrow> string \<Rightarrow> string \<Rightarrow> client \<Rightarrow> (cerror + string) \<times> client" where
  "handleSetNamespace D namespace sess c =
     (if cl_Creds c = None then (Inl (New_err ENotLoggedIn), c)
      else case bad_segment namespace of
        Some seg \<Rightarrow> (Inl \<lparr>Code = EInvalidManifold, Message = ''namespace segment invalid: '' @ seg\<rparr>, c)
      | None \<Rightarrow>
          (let c1 = on_state (SetNamespace sess namespace) c
           in case persist_error D of Some e \<Rightarrow> (Inl e, c1) | None \<Rightarrow> (Inr namespace, c1)))"

definition handleUnsetNamespace :: "disk_env \<Rightarrow> string \<Rightarrow> client \<Rightarrow> (cerror + unit) \<times> client" where
  "handleUnsetNamespace D sess c =
     (if cl_Creds c = None then (Inl (New_err ENotLoggedIn), c)
      else
        (let err = (if session sess \<in> dom (st_currentNamespace (cl_State c)) then persist_error D else None);
             c1 = on_state (ClearNamespace sess) c
         in case err of Some e \<Rightarrow> (Inl e, c1) | None \<Rightarrow> (Inr (), c1)))"

section \<open>Sources\<close>

definition handleCreate ::
  "disk_env \<Rightarrow> (http_request \<Rightarrow> createsourcereply http_answer) \<Rightarrow> string \<Rightarrow> string \<Rightarrow> string \<Rightarrow> string \<Rightarrow> client
   \<Rightarrow> (cerror + string \<times> string \<times> string) \<times> client"
where
  "handleCreate D server handle kind reqManifold sess c =
     (if ValidateHandle handle \<noteq> None then (Inl (NewInvalidHandle handle), c)
      else
        (let manifold = (if reqManifold = '''' then CurrentNamespace sess (cl_State c) else reqManifold)
         in case callServer ''POST'' ''/api/v1/sources'' (Some (CreateSourceBody handle kind manifold)) server c of
              (Inl e, c1) \<Rightarrow> (Inl e, c1)
            | (Inr reply, c1) \<Rightarrow>
                (let c2 = subscribe_to D (cs_Handle reply) (cs_Handle reply @ ''.inbox'')
                            (on_state (RememberSource (cs_Handle reply) (cs_Manifold reply)) c1)
                 in if kind = ''pty'' then (Inr (cs_Handle reply, cs_Manifold reply, cs_Subject reply), c2)
                    else
                      (let c3 = on_state (SetCurrent sess (cs_Handle reply)) c2
                       in case persist_error D of Some e \<Rightarrow> (Inl e, c3)
                          | None \<Rightarrow> (Inr (cs_Handle reply, cs_Manifold reply, cs_Subject reply), subscribe_to D sess (cs_Handle reply @ ''.inbox'') c3)))))"

definition handleEnsurePTY_ipc ::
  "disk_env \<Rightarrow> (http_request \<Rightarrow> createsourcereply http_answer) \<Rightarrow> string \<Rightarrow> client
   \<Rightarrow> (cerror + string \<times> string \<times> string \<times> string) \<times> client"
where
  "handleEnsurePTY_ipc D server handle c =
     (if cl_Creds c = None then (Inl (New_err ENotLoggedIn), c)
      else if ValidateHandle handle \<noteq> None then (Inl (NewInvalidHandle handle), c)
      else case callServer ''POST'' (''/api/v1/sources/'' @ handle @ ''/ensure-pty'') (Some EmptyObject) server c of
        (Inl e, c1) \<Rightarrow> (Inl e, c1)
      | (Inr reply, c1) \<Rightarrow> (Inr (cs_Handle reply, cs_Manifold reply, cs_Kind reply, cs_Subject reply), subscribe_to D (cs_Handle reply) (cs_Handle reply @ ''.inbox'') c1))"

definition handleConnect ::
  "disk_env \<Rightarrow> (http_request \<Rightarrow> createsourcereply http_answer) \<Rightarrow> string \<Rightarrow> string \<Rightarrow> client \<Rightarrow> (cerror + string) \<times> client"
where
  "handleConnect D server handle sess c =
     (if cl_Creds c = None then (Inl (New_err ENotLoggedIn), c)
      else if ValidateHandle handle \<noteq> None then (Inl (New_err EInvalidHandle), c)
      else
        (let (r, c1) = callServer ''POST'' ''/api/v1/sources'' (Some (CreateSourceBody handle '''' '''')) server c
         in case (case r of Inl e \<Rightarrow> if Code e \<noteq> ESourceTaken then Some e else None | Inr _ \<Rightarrow> None) of
              Some e \<Rightarrow> (Inl e, c1)
            | None \<Rightarrow>
                (let c2 = on_state (SetCurrent sess handle) (on_state (RememberPipe handle) c1)
                 in case persist_error D of Some e \<Rightarrow> (Inl e, c2)
                    | None \<Rightarrow> (Inr handle, subscribe_to D sess (handle @ ''.inbox'') c2))))"

definition handleSourceDestroy ::
  "disk_env \<Rightarrow> (http_request \<Rightarrow> unit http_answer) \<Rightarrow> string \<Rightarrow> client \<Rightarrow> (cerror + (string \<times> string)) \<times> client"
where
  "handleSourceDestroy D server handle c =
     (if cl_Creds c = None then (Inl (New_err ENotLoggedIn), c)
      else if ValidateHandle handle \<noteq> None then (Inl (NewInvalidHandle handle), c)
      else
        (let manifold = HandleManifold handle (cl_State c)
         in case callServer_nil ''DELETE'' (''/api/v1/sources/'' @ handle) None server c of
              (Some e, c1) \<Rightarrow> (Inl e, c1)
            | (None, c1) \<Rightarrow>
                (let c2 = on_state (ClearCurrentForHandle handle) (on_state (ForgetPipe handle) c1)
                 in (Inr (handle, manifold),
                     c2\<lparr>cl_Subs := snd (SweepHandle (de_Subs D) (st_accountID (cl_State c2)) handle (cl_Subs c2))\<rparr>))))"

section \<open>Pipes\<close>

text \<open>\<open>url.Values\<close> with the name and, unless empty, the namespace, encoded with the keys in order.\<close>

definition pipe_query :: "string \<Rightarrow> string \<Rightarrow> string" where
  "pipe_query manifold name =
     (if manifold \<noteq> '''' then ''manifold='' @ QueryEscape manifold @ ''&'' else '''') @ ''name='' @ QueryEscape name"

definition named_source :: "string option \<Rightarrow> string" where
  "named_source h = or_empty h"

definition handlePipeCreate ::
  "(http_request \<Rightarrow> pipesetreply http_answer) \<Rightarrow> pipecreaterequest \<Rightarrow> string \<Rightarrow> client \<Rightarrow> (cerror + pipesetreply) \<times> client"
where
  "handlePipeCreate server req sess c =
     (if cl_Creds c = None then (Inl (New_err ENotLoggedIn), c)
      else case ValidateUserPipeName (cq_Name req) of
        Some t \<Rightarrow>
          (Inl (if t = ''name is reserved'' then NewInvalidPipeReserved (cq_Name req) else NewInvalidPipeName (cq_Name req)), c)
      | None \<Rightarrow>
          (let collared = (cq_Handle req \<noteq> '''' \<or> named_source (cq_SourceHandle req) \<noteq> '''');
               req1 = (if cq_Manifold req = '''' then req\<lparr>cq_Manifold := CurrentNamespace sess (cl_State c)\<rparr> else req)
           in if collared then
                (let handle = (if named_source (cq_SourceHandle req) \<noteq> '''' then named_source (cq_SourceHandle req) else cq_Handle req)
                 in if ValidateHandle handle \<noteq> None then (Inl (New_err EInvalidHandle), c)
                    else callServer ''POST'' (''/api/v1/sources/'' @ handle @ ''/pipes'')
                           (Some (PipeCreateBody (req1\<lparr>cq_Handle := handle\<rparr>))) server c)
              else callServer ''POST'' ''/api/v1/pipes'' (Some (PipeCreateBody req1)) server c))"

definition handlePipeSet ::
  "(http_request \<Rightarrow> pipesetreply http_answer) \<Rightarrow> pipesetrequest \<Rightarrow> string \<Rightarrow> client \<Rightarrow> (cerror + pipesetreply) \<times> client"
where
  "handlePipeSet server req sess c =
     (if cl_Creds c = None then (Inl (New_err ENotLoggedIn), c)
      else if ValidatePipe (pq_Name req) \<noteq> None then (Inl (NewInvalidPipeName (pq_Name req)), c)
      else
        (let collared = (pq_Handle req \<noteq> '''' \<or> named_source (pq_SourceHandle req) \<noteq> '''');
             req1 = (if pq_Manifold req = '''' then req\<lparr>pq_Manifold := CurrentNamespace sess (cl_State c)\<rparr> else req)
         in if collared then
              (let handle = (if named_source (pq_SourceHandle req) \<noteq> '''' then named_source (pq_SourceHandle req) else pq_Handle req)
               in if ValidateHandle handle \<noteq> None then (Inl (New_err EInvalidHandle), c)
                  else callServer ''PATCH'' (''/api/v1/sources/'' @ handle @ ''/pipes/'' @ pq_Name req)
                         (Some (PipeSetBody (req1\<lparr>pq_Handle := handle\<rparr>))) server c)
            else callServer ''PATCH'' ''/api/v1/pipes'' (Some (PipeSetBody req1)) server c))"

text \<open>What names a pipe to destroy or purge; the replies name the handle, the namespace and the pipe.\<close>

record pipeaddress =
  pa_Handle :: string
  pa_Name :: string
  pa_BareTarget :: string
  pa_Manifold :: string

definition handlePipeDestroy ::
  "(http_request \<Rightarrow> unit http_answer) \<Rightarrow> pipeaddress \<Rightarrow> string \<Rightarrow> client \<Rightarrow> (cerror + string \<times> string \<times> string) \<times> client"
where
  "handlePipeDestroy server req sess c =
     (if cl_Creds c = None then (Inl (New_err ENotLoggedIn), c)
      else if pa_Handle req = '''' \<and> pa_BareTarget req \<noteq> '''' then
        (if ValidatePipe (pa_BareTarget req) \<noteq> None then (Inl (New_err EInvalidPipe), c)
         else
           (let manifold = (if pa_Manifold req = '''' then CurrentNamespace sess (cl_State c) else pa_Manifold req)
            in case callServer_nil ''DELETE'' (''/api/v1/pipes?'' @ pipe_query manifold (pa_BareTarget req)) None server c of
                 (Some e, c1) \<Rightarrow> (Inl e, c1)
               | (None, c1) \<Rightarrow> (Inr ('''', manifold, pa_BareTarget req), c1)))
      else if ValidateHandle (pa_Handle req) \<noteq> None then (Inl (New_err EInvalidHandle), c)
      else case callServer_nil ''DELETE'' (''/api/v1/sources/'' @ pa_Handle req @ ''/pipes/'' @ pa_Name req) None server c of
        (Some e, c1) \<Rightarrow> (Inl e, c1)
      | (None, c1) \<Rightarrow> (Inr (pa_Handle req, '''', pa_Name req), c1))"

definition handlePipePurge ::
  "(http_request \<Rightarrow> pipepurgereply http_answer) \<Rightarrow> pipeaddress \<Rightarrow> string \<Rightarrow> client \<Rightarrow> (cerror + pipepurgereply) \<times> client"
where
  "handlePipePurge server req sess c =
     (if cl_Creds c = None then (Inl (New_err ENotLoggedIn), c)
      else if pa_Handle req = '''' \<and> pa_BareTarget req \<noteq> '''' then
        (if ValidatePipe (pa_BareTarget req) \<noteq> None then (Inl (New_err EInvalidPipe), c)
         else
           (let manifold = (if pa_Manifold req = '''' then CurrentNamespace sess (cl_State c) else pa_Manifold req)
            in callServer ''POST'' (''/api/v1/pipes/purge?'' @ pipe_query manifold (pa_BareTarget req)) None server c))
      else if ValidateHandle (pa_Handle req) \<noteq> None then (Inl (New_err EInvalidHandle), c)
      else if ValidatePipe (pa_Name req) \<noteq> None then (Inl (New_err EInvalidPipe), c)
      else callServer ''POST'' (''/api/v1/sources/'' @ pa_Handle req @ ''/pipes/'' @ pa_Name req @ ''/purge'') None server c)"

section \<open>handlers_acl.go\<close>

record aclrequest =
  aq_Action :: string
  aq_Pipe :: string
  aq_Principal :: string
  aq_Perm :: string

definition mutationBody :: "aclrequest \<Rightarrow> aclmutation" where
  "mutationBody req = \<lparr>am_Pipe = aq_Pipe req, am_Principal = aq_Principal req, am_Perm = aq_Perm req\<rparr>"

text \<open>The endpoint each action is forwarded to.\<close>

definition acl_endpoint :: "aclrequest \<Rightarrow> (string \<times> string \<times> client_body option) option" where
  "acl_endpoint req =
     (if aq_Action req = ''roster'' then Some (''GET'', ''/api/v1/acl?pipe='' @ QueryEscape (aq_Pipe req), None)
      else if aq_Action req = ''principal'' then Some (''GET'', ''/api/v1/acl?principal='' @ QueryEscape (aq_Principal req), None)
      else if aq_Action req = ''whoami'' then Some (''GET'', ''/api/v1/acl/whoami?pipe='' @ QueryEscape (aq_Pipe req), None)
      else if aq_Action req = ''grant'' then Some (''POST'', ''/api/v1/acl/grant'', Some (MutationBody (mutationBody req)))
      else if aq_Action req = ''revoke'' then Some (''POST'', ''/api/v1/acl/revoke'', Some (MutationBody (mutationBody req)))
      else if aq_Action req = ''enforce-get'' then Some (''GET'', ''/api/v1/acl/enforce'', None)
      else if aq_Action req = ''enforce-on'' then Some (''POST'', ''/api/v1/acl/enforce'', Some (EnforceBody True))
      else if aq_Action req = ''enforce-off'' then Some (''POST'', ''/api/v1/acl/enforce'', Some (EnforceBody False))
      else if aq_Action req = ''preview'' then Some (''GET'', ''/api/v1/acl/preview'', None)
      else None)"

definition handleACL :: "(http_request \<Rightarrow> string http_answer) \<Rightarrow> aclrequest \<Rightarrow> client \<Rightarrow> (cerror + string) \<times> client" where
  "handleACL server req c =
     (case acl_endpoint req of None \<Rightarrow> (Inl (New_err EInvalidPipe), c)
      | Some (verb, path, payload) \<Rightarrow> callServer verb path payload server c)"

section \<open>Sequences of commands\<close>

datatype session_cmd =
    CmdCreate string string string | CmdEnsurePTY string | CmdConnect string | CmdSourceDestroy string
  | CmdPipeCreate pipecreaterequest | CmdPipeSet pipesetrequest | CmdPipeDestroy pipeaddress | CmdPipePurge pipeaddress
  | CmdDisconnect | CmdSwitch string | CmdSetNamespace string | CmdUnsetNamespace | CmdACL aclrequest

text \<open>A server: its answers by the kind of reply.\<close>

record server_answers =
  sa_Source :: "http_request \<Rightarrow> createsourcereply http_answer"
  sa_Pipe :: "http_request \<Rightarrow> pipesetreply http_answer"
  sa_Purge :: "http_request \<Rightarrow> pipepurgereply http_answer"
  sa_Sources :: "http_request \<Rightarrow> list_source list http_answer"
  sa_Done :: "http_request \<Rightarrow> unit http_answer"
  sa_JSON :: "http_request \<Rightarrow> string http_answer"

fun run_cmd :: "disk_env \<Rightarrow> server_answers \<Rightarrow> string \<Rightarrow> session_cmd \<Rightarrow> client \<Rightarrow> client" where
  "run_cmd D A sess (CmdCreate handle kind manifold) c = snd (handleCreate D (sa_Source A) handle kind manifold sess c)"
| "run_cmd D A sess (CmdEnsurePTY handle) c = snd (handleEnsurePTY_ipc D (sa_Source A) handle c)"
| "run_cmd D A sess (CmdConnect handle) c = snd (handleConnect D (sa_Source A) handle sess c)"
| "run_cmd D A sess (CmdSourceDestroy handle) c = snd (handleSourceDestroy D (sa_Done A) handle c)"
| "run_cmd D A sess (CmdPipeCreate req) c = snd (handlePipeCreate (sa_Pipe A) req sess c)"
| "run_cmd D A sess (CmdPipeSet req) c = snd (handlePipeSet (sa_Pipe A) req sess c)"
| "run_cmd D A sess (CmdPipeDestroy req) c = snd (handlePipeDestroy (sa_Done A) req sess c)"
| "run_cmd D A sess (CmdPipePurge req) c = snd (handlePipePurge (sa_Purge A) req sess c)"
| "run_cmd D A sess CmdDisconnect c = snd (handleDisconnect D sess c)"
| "run_cmd D A sess (CmdSwitch handle) c = snd (handleSwitch D (sa_Sources A) handle sess c)"
| "run_cmd D A sess (CmdSetNamespace namespace) c = snd (handleSetNamespace D namespace sess c)"
| "run_cmd D A sess CmdUnsetNamespace c = snd (handleUnsetNamespace D sess c)"
| "run_cmd D A sess (CmdACL req) c = snd (handleACL (sa_JSON A) req c)"

section \<open>Queries are read as they were written\<close>

definition query_part :: "string \<times> string \<Rightarrow> string" where
  "query_part kv = fst kv @ CHR ''='' # QueryEscape (snd kv)"

definition encode_query :: "(string \<times> string) list \<Rightarrow> string" where
  "encode_query kvs = join_with ''&'' (map query_part kvs)"

lemma hex_digit_table: "list_all (\<lambda>n. query_plain (upper_hex n) \<and> hex_value (upper_hex n) = Some n) [0..<16]"
  by code_simp

lemma hex_digits:
  assumes "n < 16"
  shows "query_plain (upper_hex n)" "hex_value (upper_hex n) = Some n"
  using hex_digit_table assms by (auto simp: list_all_iff)

lemma query_plain_not:
  assumes "query_plain c"
  shows "c \<noteq> CHR 0x25" "c \<noteq> CHR ''+''" "c \<noteq> CHR ''&''" "c \<noteq> CHR ''=''" "c \<noteq> CHR '';''" "c \<noteq> CHR 0x23" "c \<noteq> CHR ''?''"
  using assms by (auto simp: query_plain_def in_range_def Let_def)

definition escaped_char :: "char \<Rightarrow> bool" where
  "escaped_char c \<longleftrightarrow> query_plain c \<or> c = CHR 0x25 \<or> c = CHR ''+''"

lemma char_nibbles: "(of_char c :: nat) div 16 < 16" "(of_char c :: nat) mod 16 < 16" for c :: char
  using nat_of_char_less_256 [of c] by (simp_all add: less_mult_imp_div_less)

lemma escape_chars: "list_all escaped_char (QueryEscape s)"
  by (auto simp: QueryEscape_def escape_byte_def list_all_iff escaped_char_def char_nibbles hex_digits split: if_splits)

lemma escaped_char_not: "escaped_char c \<Longrightarrow> c \<noteq> CHR ''&'' \<and> c \<noteq> CHR ''='' \<and> c \<noteq> CHR '';'' \<and> c \<noteq> CHR 0x23 \<and> c \<noteq> CHR ''?''"
  by (auto simp: escaped_char_def dest: query_plain_not)

lemma unescape_escape_append: "QueryUnescape (QueryEscape s @ t) = map_option (append s) (QueryUnescape t)"
proof (induction s)
  case (Cons c s)
  have "char_of (16 * (of_char c div 16) + of_char c mod 16 :: nat) = c" by simp
  with Cons show ?case
    by (auto simp: QueryEscape_def escape_byte_def query_plain_not char_nibbles hex_digits option.map_comp comp_def)
qed (simp add: QueryEscape_def option.map_ident)

lemma unescape_escape: "QueryUnescape (QueryEscape s) = Some s"
  using unescape_escape_append [of s "[]"] by simp

lemma escape_plain: "list_all query_plain s \<Longrightarrow> QueryEscape s = s"
  by (induction s) (auto simp: QueryEscape_def escape_byte_def)

definition good_key :: "string \<Rightarrow> bool" where
  "good_key k \<longleftrightarrow> k \<noteq> [] \<and> list_all query_plain k"

lemma cut_key:
  assumes "CHR ''='' \<notin> set k"
  shows "takeWhile (\<lambda>c. c \<noteq> CHR ''='') (k @ CHR ''='' # v) = k" "dropWhile (\<lambda>c. c \<noteq> CHR ''='') (k @ CHR ''='' # v) = CHR ''='' # v"
  using assms by (induction k) auto

lemma query_pair_encoded:
  assumes "good_key k"
  shows "query_pair (k @ CHR ''='' # QueryEscape v) = Some (k, v)"
proof -
  have k: "CHR ''='' \<notin> set k" "CHR '';'' \<notin> set k" using assms by (auto simp: good_key_def list_all_iff dest: query_plain_not)
  have v: "CHR '';'' \<notin> set (QueryEscape v)" using escape_chars [of v] by (auto simp: list_all_iff dest: escaped_char_not)
  have "QueryUnescape k = Some k" using unescape_escape [of k] escape_plain [of k] assms by (simp add: good_key_def)
  then show ?thesis using k v by (simp add: query_pair_def cut_key unescape_escape)
qed

lemma encoded_part_no:
  assumes "good_key k" and "x \<in> set (k @ CHR ''='' # QueryEscape v)"
  shows "x \<noteq> CHR ''&'' \<and> x \<noteq> CHR 0x23 \<and> x \<noteq> CHR ''?''"
proof -
  have "query_plain x \<or> x = CHR ''='' \<or> escaped_char x"
    using assms escape_chars [of v] unfolding good_key_def list_all_iff by auto
  then show ?thesis by (auto dest: query_plain_not escaped_char_not)
qed

lemma query_part_no:
  assumes "list_all (good_key \<circ> fst) kvs"
  shows "\<forall>p \<in> set (map query_part kvs). CHR ''&'' \<notin> set p \<and> CHR 0x23 \<notin> set p"
proof -
  have "CHR ''&'' \<notin> set (query_part kv) \<and> CHR 0x23 \<notin> set (query_part kv)" if "kv \<in> set kvs" for kv
    using encoded_part_no [of "fst kv" "CHR ''&''" "snd kv"] encoded_part_no [of "fst kv" "CHR 0x23" "snd kv"] that assms
    by (auto simp: query_part_def list_all_iff)
  then show ?thesis by simp
qed

lemma set_join_with: "set (join_with sep ps) \<subseteq> set sep \<union> \<Union> (set ` set ps)"
  by (induction sep ps rule: join_with.induct) auto

lemma encode_query_no_hash: "list_all (good_key \<circ> fst) kvs \<Longrightarrow> CHR 0x23 \<notin> set (encode_query kvs)"
  using query_part_no [of kvs] set_join_with [of "''&''" "map query_part kvs"] unfolding encode_query_def by fastforce

lemma split_encode_query:
  assumes "list_all (good_key \<circ> fst) kvs" "kvs \<noteq> []"
  shows "split_on CHR ''&'' (encode_query kvs) = map query_part kvs"
  unfolding encode_query_def using query_part_no [OF assms(1)] assms(2) by (intro split_join) auto

lemma query_pairs_read: "list_all (good_key \<circ> fst) kvs \<Longrightarrow> List.map_filter query_pair (map query_part kvs) = kvs"
  by (induction kvs) (auto simp: List.map_filter_def query_pair_encoded query_part_def)

lemma read_query:
  assumes "list_all (good_key \<circ> fst) kvs" "kvs \<noteq> []" "CHR 0x23 \<notin> set p" "CHR ''?'' \<notin> set p"
  shows "url_path (p @ CHR ''?'' # encode_query kvs) = p"
    and "query_get key (p @ CHR ''?'' # encode_query kvs) = or_empty (map_of kvs key)"
proof -
  let ?u = "p @ CHR ''?'' # encode_query kvs"
  have t: "sent_target ?u = ?u"
    using assms(3) encode_query_no_hash [OF assms(1)] by (auto simp: sent_target_def takeWhile_eq_all_conv)
  have "takeWhile (\<lambda>c. c \<noteq> CHR ''?'') ?u = p" using assms(4) by (subst takeWhile_append2) auto
  have d: "dropWhile (\<lambda>c. c \<noteq> CHR ''?'') ?u = CHR ''?'' # encode_query kvs" using assms(4) by (subst dropWhile_append2) auto
  note \<open>takeWhile (\<lambda>c. c \<noteq> CHR ''?'') ?u = p\<close>
  then show "url_path ?u = p" by (simp add: url_path_def t)
  show "query_get key ?u = or_empty (map_of kvs key)"
    by (simp add: query_get_def t d split_encode_query [OF assms(1,2)] query_pairs_read [OF assms(1)])
qed

section \<open>Every request names the account\<close>

definition path_shape :: "string \<Rightarrow> bool" where
  "path_shape path \<longleftrightarrow>
     (\<exists>p kvs. path = p @ (if kvs = [] then '''' else CHR ''?'' # encode_query kvs) \<and> CHR 0x23 \<notin> set p \<and> CHR ''?'' \<notin> set p
        \<and> has_prefix p ''/api/v1/'' \<and> list_all (good_key \<circ> fst) kvs \<and> ''org'' \<notin> fst ` set kvs)"

definition addressed :: "credentials \<Rightarrow> string \<Rightarrow> http_request \<Rightarrow> bool" where
  "addressed cr acc r \<longleftrightarrow>
     hr_Bearer r = cr_APIKey cr \<and> has_prefix (url_path (hr_URL r)) (cr_URL cr @ ''/api/v1/'') \<and> query_get ''org'' (hr_URL r) = acc"

lemma encode_query_snoc:
  "encode_query (kvs @ [kv]) = (if kvs = [] then query_part kv else encode_query kvs @ CHR ''&'' # query_part kv)"
proof -
  have "join_with [c] (xs @ [x]) = (if xs = [] then x else join_with [c] xs @ c # x)" for c x and xs :: "string list"
    by (induction xs) (auto simp: join_with_Cons)
  then show ?thesis by (simp add: encode_query_def)
qed

lemma request_url_query:
  assumes "acc \<noteq> ''''" "list_all query_plain acc" "CHR ''?'' \<notin> set p"
  shows "request_url base (p @ (if kvs = [] then '''' else CHR ''?'' # encode_query kvs)) acc
    = (base @ p) @ CHR ''?'' # encode_query (kvs @ [(''org'', acc)])"
  using assms by (simp add: request_url_def encode_query_snoc query_part_def escape_plain)

lemma good_keys [simp]: "good_key ''org''" "good_key ''name''" "good_key ''manifold''" "good_key ''pipe''" "good_key ''principal''"
  by (simp_all add: good_key_def query_plain_def in_range_def)

lemma addressed_request:
  assumes "path_shape path" "acc \<noteq> ''''" "list_all query_plain acc" "CHR ''?'' \<notin> set (cr_URL cr)" "CHR 0x23 \<notin> set (cr_URL cr)"
  shows "addressed cr acc \<lparr>hr_Method = verb, hr_URL = request_url (cr_URL cr) path acc, hr_Bearer = cr_APIKey cr, hr_Body = payload\<rparr>"
proof -
  obtain p kvs where path: "path = p @ (if kvs = [] then '''' else CHR ''?'' # encode_query kvs)" "CHR 0x23 \<notin> set p" "CHR ''?'' \<notin> set p"
      "has_prefix p ''/api/v1/''" "list_all (good_key \<circ> fst) kvs" "''org'' \<notin> fst ` set kvs"
    using assms(1) unfolding path_shape_def by blast
  have get: "map_of (kvs @ [(''org'', acc)]) ''org'' = Some acc"
    using path(6) by (simp add: map_of_eq_None_iff [symmetric] map_add_def)
  have keys: "list_all (good_key \<circ> fst) (kvs @ [(''org'', acc)])" using path(5) by simp
  have "CHR 0x23 \<notin> set (cr_URL cr @ p)" "CHR ''?'' \<notin> set (cr_URL cr @ p)" using path assms by auto
  note read = read_query [OF keys _ this, simplified]
  have "has_prefix (cr_URL cr @ p) (cr_URL cr @ ''/api/v1/'')" using path(4) by (auto simp: has_prefix_iff)
  moreover have "or_empty (Some acc) = acc" by (simp add: or_empty_def)
  ultimately show ?thesis
    using read get by (simp add: addressed_def path(1) request_url_query [OF assms(2,3) path(3)])
qed

definition sent_ok :: "credentials \<Rightarrow> string \<Rightarrow> client \<Rightarrow> bool" where
  "sent_ok cr acc c \<longleftrightarrow> cl_Creds c = Some cr \<and> st_accountID (cl_State c) = acc \<and> list_all (addressed cr acc) (cl_Sent c)"

definition plain_account :: "credentials \<Rightarrow> string \<Rightarrow> bool" where
  "plain_account cr acc \<longleftrightarrow> acc \<noteq> '''' \<and> list_all query_plain acc \<and> CHR ''?'' \<notin> set (cr_URL cr) \<and> CHR 0x23 \<notin> set (cr_URL cr)"

lemma server_call_facts:
  assumes "server_call verb path payload server c = (r, c1)"
  shows "cl_Creds c1 = cl_Creds c \<and> cl_List c1 = cl_List c \<and> cl_Subs c1 = cl_Subs c
    \<and> (plain_account cr acc \<longrightarrow> path_shape path \<longrightarrow> sent_ok cr acc c \<longrightarrow> sent_ok cr acc c1)"
  using assms
  by (auto simp: server_call_def Let_def SetLoginCheck_def sent_ok_def plain_account_def intro: addressed_request
      split: option.splits http_answer.splits if_splits)

lemma callServer_facts:
  assumes "callServer verb path payload server c = (r, c1)"
  shows "cl_Creds c1 = cl_Creds c \<and> cl_List c1 = cl_List c \<and> cl_Subs c1 = cl_Subs c
    \<and> (plain_account cr acc \<longrightarrow> path_shape path \<longrightarrow> sent_ok cr acc c \<longrightarrow> sent_ok cr acc c1)"
  using assms unfolding callServer_def
  by (auto split: prod.splits sum.splits dest: server_call_facts [where cr = cr and acc = acc])

lemma callServer_nil_facts:
  assumes "callServer_nil verb path payload server c = (r, c1)"
  shows "cl_Creds c1 = cl_Creds c \<and> cl_List c1 = cl_List c \<and> cl_Subs c1 = cl_Subs c
    \<and> (plain_account cr acc \<longrightarrow> path_shape path \<longrightarrow> sent_ok cr acc c \<longrightarrow> sent_ok cr acc c1)"
  using assms unfolding callServer_nil_def
  by (auto split: prod.splits sum.splits dest: server_call_facts [where cr = cr and acc = acc])

lemma sent_ok_subscribe [simp]: "sent_ok cr acc (subscribe_to D sess subj c) = sent_ok cr acc c"
  by (simp add: sent_ok_def subscribe_to_def)

lemma sent_ok_on_state: "st_accountID (f (cl_State c)) = st_accountID (cl_State c) \<Longrightarrow> sent_ok cr acc (on_state f c) = sent_ok cr acc c"
  by (simp add: sent_ok_def on_state_def)

lemma same_account [simp]:
  "st_accountID (SetCurrent sess h S) = st_accountID S" "st_accountID (ClearCurrent sess S) = st_accountID S"
  "st_accountID (SetNamespace sess ns S) = st_accountID S" "st_accountID (ClearNamespace sess S) = st_accountID S"
  "st_accountID (RememberSource h m S) = st_accountID S" "st_accountID (RememberPipe h S) = st_accountID S"
  "st_accountID (ForgetPipe h S) = st_accountID S" "st_accountID (ClearCurrentForHandle h S) = st_accountID S"
  "st_accountID (fst (refreshSourceCache srcs S)) = st_accountID S"
  by (simp_all add: SetCurrent_def ClearCurrent_def SetNamespace_def ClearNamespace_def RememberSource_def RememberPipe_def
      ForgetPipe_def ClearCurrentForHandle_def refreshSourceCache_def ResetSources_def)

text \<open>The paths the commands ask for.\<close>

lemma valid_name_plain:
  assumes "HandleRegex h"
  shows "CHR 0x23 \<notin> set h" "CHR ''?'' \<notin> set h" "CHR ''&'' \<notin> set h"
  using HandleRegex_chars [OF assms] by (fastforce simp: name_char_hyphen_def name_char_def)+

lemma path_plain:
  "CHR 0x23 \<notin> set path \<Longrightarrow> CHR ''?'' \<notin> set path \<Longrightarrow> has_prefix path ''/api/v1/'' \<Longrightarrow> path_shape path"
  unfolding path_shape_def by (intro exI [of _ path] exI [of _ "[]"]) simp

lemma path_query:
  "CHR 0x23 \<notin> set p \<Longrightarrow> CHR ''?'' \<notin> set p \<Longrightarrow> has_prefix p ''/api/v1/'' \<Longrightarrow> list_all (good_key \<circ> fst) kvs \<Longrightarrow> kvs \<noteq> []
   \<Longrightarrow> ''org'' \<notin> fst ` set kvs \<Longrightarrow> path_shape (p @ CHR ''?'' # encode_query kvs)"
  unfolding path_shape_def by (intro exI [of _ p] exI [of _ kvs]) simp

definition pipe_params :: "string \<Rightarrow> string \<Rightarrow> (string \<times> string) list" where
  "pipe_params manifold name = (if manifold \<noteq> '''' then [(''manifold'', manifold)] else []) @ [(''name'', name)]"

lemma pipe_query_params: "pipe_query manifold name = encode_query (pipe_params manifold name)"
  by (simp add: pipe_query_def pipe_params_def encode_query_def query_part_def)

lemma pipe_params_good: "list_all (good_key \<circ> fst) (pipe_params manifold name)" "pipe_params manifold name \<noteq> []"
  "''org'' \<notin> fst ` set (pipe_params manifold name)"
  by (auto simp: pipe_params_def)

lemma source_path: "HandleRegex h \<Longrightarrow> path_shape (''/api/v1/sources/'' @ h)"
  "HandleRegex h \<Longrightarrow> path_shape (''/api/v1/sources/'' @ h @ ''/ensure-pty'')"
  "HandleRegex h \<Longrightarrow> path_shape (''/api/v1/sources/'' @ h @ ''/pipes'')"
  "HandleRegex h \<Longrightarrow> HandleRegex n \<Longrightarrow> path_shape (''/api/v1/sources/'' @ h @ ''/pipes/'' @ n)"
  "HandleRegex h \<Longrightarrow> HandleRegex n \<Longrightarrow> path_shape (''/api/v1/sources/'' @ h @ ''/pipes/'' @ n @ ''/purge'')"
  by (rule path_plain; simp add: valid_name_plain has_prefix_def)+

lemma fixed_path: "path_shape ''/api/v1/sources''" "path_shape ''/api/v1/pipes''"
  by (rule path_plain; simp add: has_prefix_def)+

lemma pipes_path: "path_shape (''/api/v1/pipes?'' @ pipe_query manifold name)" "path_shape (''/api/v1/pipes/purge?'' @ pipe_query manifold name)"
  using path_query [of "''/api/v1/pipes''" "pipe_params manifold name"] path_query [of "''/api/v1/pipes/purge''" "pipe_params manifold name"]
  by (simp_all add: pipe_query_params pipe_params_good has_prefix_def)

lemma acl_path: "acl_endpoint req = Some (verb, path, payload) \<Longrightarrow> path_shape path"
proof -
  have q: "path_shape (''/api/v1/acl?pipe='' @ QueryEscape s)" "path_shape (''/api/v1/acl?principal='' @ QueryEscape s)"
    "path_shape (''/api/v1/acl/whoami?pipe='' @ QueryEscape s)" for s
    using path_query [of "''/api/v1/acl''" "[(''pipe'', s)]"] path_query [of "''/api/v1/acl''" "[(''principal'', s)]"]
      path_query [of "''/api/v1/acl/whoami''" "[(''pipe'', s)]"]
    by (simp_all add: encode_query_def query_part_def has_prefix_def)
  have p: "path_shape ''/api/v1/acl/grant''" "path_shape ''/api/v1/acl/revoke''" "path_shape ''/api/v1/acl/enforce''"
    "path_shape ''/api/v1/acl/preview''"
    by (rule path_plain; simp add: has_prefix_def)+
  assume "acl_endpoint req = Some (verb, path, payload)"
  then show ?thesis
    by (auto simp: acl_endpoint_def p simp del: append_Cons append_Nil split: if_splits intro: q)
qed

fun checked_names :: "session_cmd \<Rightarrow> bool" where
  "checked_names (CmdPipeDestroy req) \<longleftrightarrow> (pa_Handle req = '''' \<and> pa_BareTarget req \<noteq> '''') \<or> ValidatePipe (pa_Name req) = None"
| "checked_names _ \<longleftrightarrow> True"

lemmas valid_names = ValidateHandle_def ValidatePipe_def ValidateUserPipeName_def

lemma call_ok:
  "callServer verb path payload server c = (r, c1) \<Longrightarrow> path_shape path \<Longrightarrow> plain_account cr acc \<Longrightarrow> sent_ok cr acc c \<Longrightarrow> sent_ok cr acc c1"
  "callServer_nil verb path payload server2 c = (r2, c1) \<Longrightarrow> path_shape path \<Longrightarrow> plain_account cr acc \<Longrightarrow> sent_ok cr acc c \<Longrightarrow> sent_ok cr acc c1"
  using callServer_facts callServer_nil_facts by blast+

lemma sent_ok_update [simp]:
  "sent_ok cr acc (c\<lparr>cl_Subs := fs\<rparr>) = sent_ok cr acc c"
  "sent_ok cr acc (c\<lparr>cl_List := refreshSourceCache srcs (cl_State c)\<rparr>) = sent_ok cr acc c"
  by (simp_all add: sent_ok_def)

lemmas command_paths = source_path fixed_path pipes_path

lemma handler_ok:
  assumes "plain_account cr acc" "sent_ok cr acc c"
  shows "sent_ok cr acc (snd (handleCreate D s1 handle kind manifold sess c))"
    and "sent_ok cr acc (snd (handleEnsurePTY_ipc D s1 handle c))"
    and "sent_ok cr acc (snd (handleConnect D s1 handle sess c))"
    and "sent_ok cr acc (snd (handleSourceDestroy D s2 handle c))"
    and "sent_ok cr acc (snd (handleSwitch D s3 handle sess c))"
  using assms
  by (auto simp: handleCreate_def handleEnsurePTY_ipc_def handleConnect_def handleSourceDestroy_def handleSwitch_def
      ValidateHandle_def Let_def sent_ok_on_state simp del: append_Cons append_Nil
      intro: call_ok command_paths split: prod.splits sum.splits option.splits if_splits)

lemma pipe_handler_ok:
  assumes "plain_account cr acc" "sent_ok cr acc c"
  shows "sent_ok cr acc (snd (handlePipePurge s5 addr sess c))"
    and "checked_names (CmdPipeDestroy addr) \<Longrightarrow> sent_ok cr acc (snd (handlePipeDestroy s2 addr sess c))"
    and "sent_ok cr acc (snd (handleACL s6 areq c))"
proof -
  have sure: "sent_ok cr acc (snd (callServer verb path payload server c))" if "path_shape path"
    for verb path payload and server :: "http_request \<Rightarrow> pipepurgereply http_answer"
    using call_ok(1) [OF _ that assms] by (metis prod.collapse)
  show "sent_ok cr acc (snd (handlePipePurge s5 addr sess c))"
    using assms by (auto simp: handlePipePurge_def valid_names Let_def simp del: append_Cons append_Nil
      intro!: sure intro: command_paths split: option.splits if_splits)
  show "sent_ok cr acc (snd (handlePipeDestroy s2 addr sess c))" if "checked_names (CmdPipeDestroy addr)"
    using that assms by (auto simp: handlePipeDestroy_def valid_names Let_def simp del: append_Cons append_Nil
      intro: call_ok command_paths split: prod.splits option.splits if_splits)
  show "sent_ok cr acc (snd (handleACL s6 areq c))"
    using assms callServer_facts [where cr = cr and acc = acc]
    by (auto simp: handleACL_def dest: acl_path split: option.split intro: call_ok prod.collapse [symmetric])
qed

lemma pipe_change_ok:
  assumes "plain_account cr acc" "sent_ok cr acc c"
  shows "sent_ok cr acc (snd (handlePipeCreate server creq sess c))"
    and "sent_ok cr acc (snd (handlePipeSet server sreq sess c))"
proof -
  have sure: "sent_ok cr acc (snd (callServer verb path payload server c))" if "path_shape path" for verb path payload
    using call_ok(1) [OF _ that assms] by (metis prod.collapse)
  show "sent_ok cr acc (snd (handlePipeCreate server creq sess c))"
    using assms by (auto simp: handlePipeCreate_def valid_names Let_def simp del: append_Cons append_Nil
      intro!: sure intro: command_paths split: option.splits if_splits)
  show "sent_ok cr acc (snd (handlePipeSet server sreq sess c))"
    using assms by (auto simp: handlePipeSet_def valid_names Let_def simp del: append_Cons append_Nil
      intro!: sure intro: command_paths split: option.splits if_splits)
qed

lemma local_handler_ok:
  assumes "sent_ok cr acc c"
  shows "sent_ok cr acc (snd (handleDisconnect D sess c))" and "sent_ok cr acc (snd (handleSetNamespace D ns sess c))"
    and "sent_ok cr acc (snd (handleUnsetNamespace D sess c))"
  using assms
  by (auto simp: handleDisconnect_def handleSetNamespace_def handleUnsetNamespace_def Let_def sent_ok_on_state split: option.split)

lemma run_cmd_ok:
  assumes "plain_account cr acc" "sent_ok cr acc c" "checked_names cmd"
  shows "sent_ok cr acc (run_cmd D A sess cmd c)"
  using assms(3) handler_ok [OF assms(1,2)] pipe_handler_ok [OF assms(1,2)] pipe_change_ok [OF assms(1,2)] local_handler_ok [OF assms(2)]
  by (cases cmd) simp_all

definition run_cmds :: "(disk_env \<times> server_answers \<times> string \<times> session_cmd) list \<Rightarrow> client \<Rightarrow> client" where
  "run_cmds cmds c = foldl (\<lambda>c (D, A, sess, cmd). run_cmd D A sess cmd c) c cmds"

lemma run_cmds_ok:
  assumes "plain_account cr acc" "sent_ok cr acc c" "\<forall>(D, A, sess, cmd) \<in> set cmds. checked_names cmd"
  shows "sent_ok cr acc (run_cmds cmds c)"
  using assms(2,3)
proof (induction cmds arbitrary: c)
  case (Cons x cmds)
  then show ?case using run_cmd_ok [OF assms(1)] by (cases x) (auto simp: run_cmds_def)
qed (simp add: run_cmds_def)


lemma fragment_lost:
  assumes "CHR 0x23 \<notin> set p" "CHR ''?'' \<notin> set p"
  shows "url_path (p @ CHR 0x23 # u) = p \<and> query_get ''org'' (p @ CHR 0x23 # u) = ''''"
proof -
  have "sent_target (p @ CHR 0x23 # u) = p" using assms(1) by (induction p) (auto simp: sent_target_def)
  moreover have "takeWhile (\<lambda>c. c \<noteq> CHR ''?'') p = p" and d: "dropWhile (\<lambda>c. c \<noteq> CHR ''?'') p = []"
    using assms(2) by (induction p) auto
  moreover have "query_pair [] = None" by (simp add: query_pair_def)
  ultimately show ?thesis unfolding url_path_def query_get_def by (simp add: d List.map_filter_def or_empty_def)
qed

text \<open>The one name that is not checked: a collared destroy forwards the name of the pipe as it is. The part from
  a number sign on does not leave the daemon, the account with it, while the reply names the whole text.\<close>

lemma unchecked_name_loses_account:
  assumes "cl_Creds c = Some cr" and "plain_account cr (st_accountID (cl_State c))" and "HandleRegex h" "h \<notin> set Reserved" "HandleRegex n"
    and "pa_Handle req = h" "pa_Name req = n @ CHR 0x23 # t" and "\<And>r. server r = Succeeded (Inr ())"
  shows "\<exists>r. cl_Sent (snd (handlePipeDestroy server req sess c)) = cl_Sent c @ [r]
    \<and> fst (handlePipeDestroy server req sess c) = Inr (h, '''', n @ CHR 0x23 # t)
    \<and> url_path (hr_URL r) = cr_URL cr @ ''/api/v1/sources/'' @ h @ ''/pipes/'' @ n \<and> query_get ''org'' (hr_URL r) = ''''"
proof -
  let ?p = "cr_URL cr @ ''/api/v1/sources/'' @ h @ ''/pipes/'' @ n"
  have no: "CHR 0x23 \<notin> set ?p" "CHR ''?'' \<notin> set ?p"
    using assms(2-5) by (simp_all add: plain_account_def valid_name_plain)
  note seen = fragment_lost [OF no]
  have valid: "ValidateHandle h = None" "h \<noteq> ''''" using assms(3,4) HandleRegex_nonempty by (simp_all add: ValidateHandle_def)
  show ?thesis
    using assms(1,6-8) valid seen
    by (simp add: handlePipeDestroy_def callServer_nil_def server_call_def Let_def request_url_def SetLoginCheck_def)
qed

section \<open>What a purge or a destroy names is what the server reads\<close>

lemma pipes_query_read:
  assumes "plain_account cr acc" "CHR 0x23 \<notin> set p" "CHR ''?'' \<notin> set p"
  shows "url_path (request_url (cr_URL cr) (p @ CHR ''?'' # pipe_query manifold name) acc) = cr_URL cr @ p"
    and "query_get ''name'' (request_url (cr_URL cr) (p @ CHR ''?'' # pipe_query manifold name) acc) = name"
    and "query_get ''manifold'' (request_url (cr_URL cr) (p @ CHR ''?'' # pipe_query manifold name) acc) = manifold"
proof -
  let ?kvs = "pipe_params manifold name @ [(''org'', acc)]"
  have u: "request_url (cr_URL cr) (p @ CHR ''?'' # pipe_query manifold name) acc = (cr_URL cr @ p) @ CHR ''?'' # encode_query ?kvs"
    using request_url_query [of acc p "cr_URL cr" "pipe_params manifold name"] assms pipe_params_good(2)
    by (simp add: plain_account_def pipe_query_params)
  have k: "list_all (good_key \<circ> fst) ?kvs" "?kvs \<noteq> []" "CHR 0x23 \<notin> set (cr_URL cr @ p)" "CHR ''?'' \<notin> set (cr_URL cr @ p)"
    using assms pipe_params_good(1) by (auto simp: plain_account_def)
  show "url_path (request_url (cr_URL cr) (p @ CHR ''?'' # pipe_query manifold name) acc) = cr_URL cr @ p"
    and "query_get ''name'' (request_url (cr_URL cr) (p @ CHR ''?'' # pipe_query manifold name) acc) = name"
    and "query_get ''manifold'' (request_url (cr_URL cr) (p @ CHR ''?'' # pipe_query manifold name) acc) = manifold"
    unfolding u read_query [OF k] by (simp_all add: pipe_params_def or_empty_def)
qed

definition reads_as :: "credentials \<Rightarrow> string \<Rightarrow> string \<Rightarrow> string \<Rightarrow> string \<Rightarrow> http_request \<Rightarrow> bool" where
  "reads_as cr verb path name manifold r \<longleftrightarrow>
     hr_Method r = verb \<and> url_path (hr_URL r) = cr_URL cr @ path \<and> query_get ''name'' (hr_URL r) = name
     \<and> query_get ''manifold'' (hr_URL r) = manifold"

definition meant_manifold :: "pipeaddress \<Rightarrow> string \<Rightarrow> client \<Rightarrow> string" where
  "meant_manifold req sess c = (if pa_Manifold req = '''' then CurrentNamespace sess (cl_State c) else pa_Manifold req)"

text \<open>A purge or destroy of a pipe without a source reaches the server as it was meant: the one request sent
  is read there as the given name, and the given namespace or else that of the session, whatever characters
  they hold, in the account of the login.\<close>

theorem pipe_named_as_meant:
  assumes "cl_Creds c = Some cr" and "plain_account cr (st_accountID (cl_State c))"
    and "pa_Handle req = ''''" and "ValidatePipe (pa_BareTarget req) = None"
    and "\<And>r. purge r = Succeeded a" and "\<And>r. destroy r = Succeeded b"
  shows "(\<exists>r. cl_Sent (snd (handlePipePurge purge req sess c)) = cl_Sent c @ [r]
        \<and> reads_as cr ''POST'' ''/api/v1/pipes/purge'' (pa_BareTarget req) (meant_manifold req sess c) r)
    \<and> (\<exists>r. cl_Sent (snd (handlePipeDestroy destroy req sess c)) = cl_Sent c @ [r]
        \<and> reads_as cr ''DELETE'' ''/api/v1/pipes'' (pa_BareTarget req) (meant_manifold req sess c) r)"
proof -
  have bare: "pa_BareTarget req \<noteq> ''''" using assms(4) HandleRegex_nonempty by (auto simp: ValidatePipe_def split: if_splits)
  note read = pipes_query_read [OF assms(2), of "''/api/v1/pipes/purge''", simplified] pipes_query_read [OF assms(2), of "''/api/v1/pipes''", simplified]
  show ?thesis
    using assms(1,3-6) bare read
    by (simp add: handlePipePurge_def handlePipeDestroy_def callServer_def callServer_nil_def server_call_def SetLoginCheck_def Let_def
        reads_as_def meant_manifold_def split: sum.split)
qed

section \<open>Sessions do not touch each other\<close>

definition namespaces_valid :: "daemon_state \<Rightarrow> bool" where
  "namespaces_valid S \<longleftrightarrow>
     (\<forall>s ns. st_currentNamespace S s = Some ns \<longrightarrow> ns \<noteq> '''' \<and> list_all (\<lambda>seg. ValidateHandle seg = None) (split_dots ns))"

definition others_kept :: "string \<Rightarrow> session_cmd \<Rightarrow> daemon_state \<Rightarrow> daemon_state \<Rightarrow> bool" where
  "others_kept sess cmd S S' \<longleftrightarrow>
     (\<forall>s. s \<noteq> session sess \<longrightarrow> st_currentNamespace S' s = st_currentNamespace S s
        \<and> (st_current S' s = st_current S s \<or> (\<exists>h. cmd = CmdSourceDestroy h \<and> st_current S s = Some h \<and> st_current S' s = None)))"

lemma on_state_simps [simp]:
  "cl_List (on_state f c) = (f (cl_State c), snd (cl_List c))" "cl_Creds (on_state f c) = cl_Creds c"
  "cl_List (subscribe_to D sess subj c) = cl_List c"
  by (simp_all add: on_state_def subscribe_to_def)

lemma refreshed_sessions [simp]:
  "st_current (fst (refreshSourceCache srcs S)) = st_current S"
  "st_currentNamespace (fst (refreshSourceCache srcs S)) = st_currentNamespace S"
  by (simp_all add: refreshSourceCache_def ResetSources_def)

lemmas state_op_defs = SetCurrent_def ClearCurrent_def SetNamespace_def ClearNamespace_def RememberSource_def RememberPipe_def
  ForgetPipe_def ClearCurrentForHandle_def

lemma callServer_list: "cl_List (snd (callServer verb path payload server c)) = cl_List c"
  using callServer_facts [of verb path payload server c] by (metis prod.collapse)

lemma others_same: "cl_List c' = cl_List c \<Longrightarrow> others_kept sess cmd (cl_State c) (cl_State c')"
  by (simp add: others_kept_def)

lemma pipe_cmds_list:
  "cl_List (snd (handlePipeCreate server creq sess c)) = cl_List c" "cl_List (snd (handlePipeSet server sreq sess c)) = cl_List c"
  "cl_List (snd (handlePipePurge server5 addr sess c)) = cl_List c" "cl_List (snd (handlePipeDestroy server2 addr sess c)) = cl_List c"
  "cl_List (snd (handleACL server6 areq c)) = cl_List c" "cl_List (snd (handleEnsurePTY_ipc D server1 handle c)) = cl_List c"
  by (auto simp: handlePipeCreate_def handlePipeSet_def handlePipePurge_def handlePipeDestroy_def handleACL_def handleEnsurePTY_ipc_def
      Let_def callServer_list simp del: append_Cons append_Nil split: prod.split option.split sum.split
      dest: callServer_facts callServer_nil_facts)

lemma others_kept_step: "others_kept sess cmd (cl_State c) (cl_State (run_cmd D A sess cmd c))"
proof (cases cmd)
  case (CmdCreate h k m)
  then show ?thesis
    by (auto simp: handleCreate_def Let_def others_kept_def state_op_defs split: prod.split sum.split option.split dest: callServer_facts)
next
  case (CmdConnect h)
  then show ?thesis
    by (auto simp: handleConnect_def Let_def others_kept_def state_op_defs split: prod.split sum.split option.split dest: callServer_facts)
next
  case (CmdSourceDestroy h)
  then show ?thesis
    by (auto simp: handleSourceDestroy_def Let_def others_kept_def state_op_defs split: prod.split option.split dest: callServer_nil_facts)
next
  case (CmdSwitch h)
  then show ?thesis
    by (auto simp: handleSwitch_def Let_def others_kept_def SetCurrent_def split: prod.split sum.split option.split dest: callServer_facts)
qed (auto simp: others_same pipe_cmds_list handleDisconnect_def handleSetNamespace_def handleUnsetNamespace_def others_kept_def
      ClearCurrent_def SetNamespace_def ClearNamespace_def Let_def split: option.split)

lemma same_namespaces: "st_currentNamespace S' = st_currentNamespace S \<Longrightarrow> namespaces_valid S \<Longrightarrow> namespaces_valid S'"
  by (simp add: namespaces_valid_def)

lemma source_cmds_namespaces:
  "st_currentNamespace (cl_State (snd (handleCreate D server handle kind m sess c))) = st_currentNamespace (cl_State c)"
  "st_currentNamespace (cl_State (snd (handleConnect D server handle sess c))) = st_currentNamespace (cl_State c)"
  "st_currentNamespace (cl_State (snd (handleSourceDestroy D server2 handle c))) = st_currentNamespace (cl_State c)"
  "st_currentNamespace (cl_State (snd (handleSwitch D server3 handle sess c))) = st_currentNamespace (cl_State c)"
  by (auto simp: handleCreate_def handleConnect_def handleSourceDestroy_def handleSwitch_def Let_def state_op_defs
      simp del: append_Cons append_Nil split: prod.split sum.split option.split dest: callServer_facts callServer_nil_facts)

lemma namespaces_valid_step:
  assumes "namespaces_valid (cl_State c)"
  shows "namespaces_valid (cl_State (run_cmd D A sess cmd c))"
proof (cases cmd)
  case (CmdSetNamespace ns)
  have "namespaces_valid (SetNamespace sess ns S)" if "namespaces_valid S" "bad_segment ns = None" for S
    using that by (auto simp: namespaces_valid_def SetNamespace_def bad_segment_def find_None_all list_all_iff split: if_splits)
  with CmdSetNamespace assms show ?thesis by (auto simp: handleSetNamespace_def Let_def split: option.split)
next
  case CmdUnsetNamespace
  have "namespaces_valid (ClearNamespace sess S)" if "namespaces_valid S" for S
    using that by (auto simp: namespaces_valid_def ClearNamespace_def)
  with CmdUnsetNamespace assms show ?thesis by (auto simp: handleUnsetNamespace_def Let_def split: option.split)
next
  case CmdDisconnect
  have "namespaces_valid (ClearCurrent sess S) = namespaces_valid S" for S
    by (simp add: namespaces_valid_def ClearCurrent_def)
  with CmdDisconnect assms show ?thesis by (auto simp: handleDisconnect_def Let_def split: option.split)
qed (use assms in \<open>simp_all add: pipe_cmds_list same_namespaces [OF source_cmds_namespaces(1)]
    same_namespaces [OF source_cmds_namespaces(2)] same_namespaces [OF source_cmds_namespaces(3)]
    same_namespaces [OF source_cmds_namespaces(4)]\<close>)

lemma run_cmds_Cons: "run_cmds ((D, A, sess, cmd) # cmds) c = run_cmds cmds (run_cmd D A sess cmd c)"
  by (simp add: run_cmds_def)

text \<open>Sessions do not touch each other: whatever commands the other sessions give, and whatever the server
  answers, a session keeps its namespace, and its current source unless another session destroys that source;
  and every namespace that a session has remains a path of valid names.\<close>

theorem sessions_apart:
  assumes "namespaces_valid (cl_State c)" and "\<forall>(D, A, other, cmd) \<in> set cmds. session other \<noteq> session sess"
  shows "namespaces_valid (cl_State (run_cmds cmds c))
    \<and> CurrentNamespace sess (cl_State (run_cmds cmds c)) = CurrentNamespace sess (cl_State c)
    \<and> (Current sess (cl_State (run_cmds cmds c)) = Current sess (cl_State c)
       \<or> Current sess (cl_State (run_cmds cmds c)) = ''''
         \<and> list_ex (\<lambda>(D, A, other, cmd). cmd = CmdSourceDestroy (Current sess (cl_State c))) cmds)"
  using assms
proof (induction cmds arbitrary: c)
  case (Cons x cmds)
  obtain D A other cmd where x: "x = (D, A, other, cmd)" by (cases x)
  let ?c = "run_cmd D A other cmd c"
  have kept: "CurrentNamespace sess (cl_State ?c) = CurrentNamespace sess (cl_State c)"
    "Current sess (cl_State ?c) = Current sess (cl_State c)
     \<or> Current sess (cl_State ?c) = '''' \<and> cmd = CmdSourceDestroy (Current sess (cl_State c))"
  proof -
    have "session sess \<noteq> session other" using Cons.prems(2) x by auto
    with others_kept_step [of other cmd c D A] show
        "CurrentNamespace sess (cl_State ?c) = CurrentNamespace sess (cl_State c)"
        "Current sess (cl_State ?c) = Current sess (cl_State c)
         \<or> Current sess (cl_State ?c) = '''' \<and> cmd = CmdSourceDestroy (Current sess (cl_State c))"
      by (force simp: others_kept_def CurrentNamespace_def Current_def or_empty_def)+
  qed
  have "namespaces_valid (cl_State ?c)" by (rule namespaces_valid_step [OF Cons.prems(1)])
  from Cons.IH [OF this] Cons.prems(2) x kept show ?case
    unfolding x run_cmds_Cons by auto
qed (simp add: run_cmds_def)

section \<open>A destroyed source leaves its namespace behind\<close>

text \<open>\<open>handleSourceDestroy\<close> forgets the handle but not the namespace it was known under, and \<open>handleConnect\<close>
  creates the source anew at the root and remembers the handle alone: a send to a pipe of the new source then
  looks in the old namespace and does not find it, although both commands succeeded.\<close>

lemma stale_namespace_after_connect:
  assumes "cl_Creds c = Some cr" and "st_creds (cl_State c)" and "ValidateHandle h = None" and "ValidatePipe pipe = None"
    and "HandleManifold h (cl_State c) = ns"
    and "\<And>r. destroy r = Succeeded (Inr ())" and "\<And>r. create r = Succeeded (Inr reply)" and "de_Persist D = None"
    and "sv_Account Q = Some acc" and "connect_error (sv_Connected2 Q) (sv_NATS2 Q) = None" and "sv_JS2 Q = None"
    and "sv_EnvCurrent Q = ''''" and "sv_Stream2 Q (BuildStreamName acc ns h pipe) = Some StreamNotFound"
  shows "let (r1, c1) = handleSourceDestroy D destroy h c; (r2, c2) = handleConnect D create h sess c1
    in r1 = Inr (h, ns) \<and> r2 = Inr h \<and> hr_Body (last (cl_Sent c2)) = Some (CreateSourceBody h '''' '''')
      \<and> fst (resolveSendTarget Q h pipe '''' sess '''' (cl_List c2)) = Inl (NewPipeNotFound pipe h)"
proof -
  obtain S comp where L: "cl_List c = (S, comp)" by (cases "cl_List c")
  have h: "h \<noteq> ''''" and p: "pipe \<noteq> ''''" using assms(3,4) HandleRegex_nonempty by (auto simp: ValidateHandle_def ValidatePipe_def split: if_splits)
  define c1 where "c1 = snd (handleSourceDestroy D destroy h c)"
  have 1: "handleSourceDestroy D destroy h c = (Inr (h, ns), c1)" "cl_Creds c1 = Some cr"
    "cl_List c1 = (ClearCurrentForHandle h (ForgetPipe h S), comp)"
    using assms(1,3,5,6) L
    by (simp_all add: c1_def handleSourceDestroy_def Let_def callServer_nil_def server_call_def SetLoginCheck_def on_state_def split: prod.split)
  define c2 where "c2 = snd (handleConnect D create h sess c1)"
  have 2: "handleConnect D create h sess c1 = (Inr h, c2)" "hr_Body (last (cl_Sent c2)) = Some (CreateSourceBody h '''' '''')"
    "cl_List c2 = (SetCurrent sess h (RememberPipe h (ClearCurrentForHandle h (ForgetPipe h S))), comp)"
    using assms(3,7,8) 1
    by (simp_all add: c2_def handleConnect_def Let_def callServer_def server_call_def SetLoginCheck_def on_state_def persist_error_def subscribe_to_def)
  have 3: "st_creds (cl_State c2)" "h \<in> st_knownPipes (cl_State c2)" "HandleManifold h (cl_State c2) = ns"
    using assms(2,5) L 2 by (simp_all add: state_op_defs HandleManifold_def)
  have "fst (resolveSendTarget Q h pipe '''' sess '''' (cl_List c2)) = Inl (NewPipeNotFound pipe h)"
    using 3 h p assms(4,9-13)
    by (simp add: resolveSendTarget_def shouldTryUncollaredFirst_def collared_target_def lookup_error_def Let_def split: prod.split)
  then show ?thesis using 1 2 by simp
qed

section \<open>Examples\<close>

definition ex_cred :: credentials where
  "ex_cred = \<lparr>cr_URL = ''http://h'', cr_APIKey = ''k'', cr_AccountID = ''acct'', cr_AccountName = ''a'', cr_NATSUserJWT = ''j'', cr_NATSUserSeed = ''s''\<rparr>"

definition ex_client :: client where
  "ex_client =
     \<lparr>cl_List = (\<lparr>st_creds = True, st_accountID = ''acct'', st_current = [''w'' \<mapsto> ''bob''], st_currentNamespace = [''w'' \<mapsto> ''team''],
        st_knownPipes = {''alice''}, st_handleManifold = [''alice'' \<mapsto> ''team'']\<rparr>, None),
      cl_Creds = Some ex_cred, cl_accountName = ''a'', cl_keyPrefix = ''k'', cl_loginCheck = '''', cl_Subs = (\<lambda>_. []), cl_Sent = []\<rparr>"

definition ex_answers :: server_answers where
  "ex_answers =
     \<lparr>sa_Source = (\<lambda>_. NoAnswer), sa_Pipe = (\<lambda>_. NoAnswer), sa_Purge = (\<lambda>_. NoAnswer), sa_Sources = (\<lambda>_. NoAnswer),
      sa_Done = (\<lambda>_. Succeeded (Inr ())), sa_JSON = (\<lambda>_. NoAnswer)\<rparr>"

definition ex_disk :: disk_env where
  "ex_disk = \<lparr>de_Persist = None, de_Subs = no_faults\<rparr>"

definition ex_address :: pipeaddress where
  "ex_address = \<lparr>pa_Handle = '''', pa_Name = '''', pa_BareTarget = ''log'', pa_Manifold = ''a&org=x#b''\<rparr>"

definition ex_source_reply :: createsourcereply where
  "ex_source_reply =
     \<lparr>cs_ID = ''1'', cs_Handle = ''alice'', cs_Manifold = [], cs_Kind = ''message'', cs_Subject = ''acct.alice.inbox'', cs_CreatedAt = 0\<rparr>"

lemma ex_client_fields [simp]:
  "cl_Creds ex_client = Some ex_cred" "cl_Sent ex_client = []" "st_accountID (cl_State ex_client) = ''acct''"
  "st_creds (cl_State ex_client)" "HandleManifold ''alice'' (cl_State ex_client) = ''team''"
  "Current ''w'' (cl_State ex_client) = ''bob''" "CurrentNamespace ''w'' (cl_State ex_client) = ''team''"
  by (simp_all add: ex_client_def HandleManifold_def Current_def CurrentNamespace_def session_def or_empty_def)

lemma ex_plain: "plain_account ex_cred ''acct''"
  by (simp add: plain_account_def ex_cred_def query_plain_def in_range_def)

lemma ex_valid: "ValidateHandle ''alice'' = None" "ValidateHandle ''bob'' = None" "ValidatePipe ''log'' = None" "ValidatePipe ''inbox'' = None"
  by code_simp+


theorem pipe_named_as_meant_witness:
  "\<exists>r. cl_Sent (snd (handlePipePurge (\<lambda>_. Succeeded (Inl ''eof'')) ex_address ''w'' ex_client)) = [r]
     \<and> query_get ''manifold'' (hr_URL r) = ''a&org=x#b''"
  using pipe_named_as_meant [of ex_client ex_cred ex_address "\<lambda>_. Succeeded (Inl ''eof'')" "Inl ''eof''"
      "\<lambda>_. Succeeded (Inr ())" "Inr ()" "''w''"] ex_plain
  by (auto simp: ex_address_def ex_valid reads_as_def meant_manifold_def)

theorem sessions_apart_witness:
  "CurrentNamespace ''w'' (cl_State (run_cmds
     [(ex_disk, ex_answers, ''v'', CmdSetNamespace ''ops''), (ex_disk, ex_answers, ''v'', CmdSourceDestroy ''bob'')] ex_client)) = ''team''"
proof -
  have "list_all (\<lambda>seg. ValidateHandle seg = None) (split_dots ''team'')" by code_simp
  then have "namespaces_valid (cl_State ex_client)" by (simp add: namespaces_valid_def ex_client_def)
  from sessions_apart [OF this, of "[(ex_disk, ex_answers, ''v'', CmdSetNamespace ''ops''), (ex_disk, ex_answers, ''v'', CmdSourceDestroy ''bob'')]" "''w''"]
  show ?thesis by (simp add: session_def)
qed

lemma stale_namespace_after_connect_example:
  "fst (resolveSendTarget (ex_send_env\<lparr>sv_Stream2 := \<lambda>_. Some StreamNotFound\<rparr>) ''alice'' ''inbox'' '''' ''w''  ''''
     (cl_List (snd (handleConnect ex_disk (\<lambda>_. Succeeded (Inr ex_source_reply)) ''alice'' ''w''
       (snd (handleSourceDestroy ex_disk (\<lambda>_. Succeeded (Inr ())) ''alice'' ex_client)))))) = Inl (NewPipeNotFound ''inbox'' ''alice'')"
  using stale_namespace_after_connect [of ex_client ex_cred "''alice''" "''inbox''" "''team''" "\<lambda>_. Succeeded (Inr ())"
      "\<lambda>_. Succeeded (Inr ex_source_reply)" ex_source_reply ex_disk
      "ex_send_env\<lparr>sv_Stream2 := \<lambda>_. Some StreamNotFound\<rparr>" "''acct''" "''w''"] ex_valid
  by (simp add: ex_disk_def ex_send_env_def connect_error_def case_prod_beta Let_def)

end
