(* ===== verification/DaemonLogin.thy ===== *)
theory DaemonLogin
  imports DaemonHandlers
begin

text \<open>
  Logging in and staying connected: \<open>handleLogin\<close>, \<open>authExchangeRefresh\<close>, \<open>startRefreshLoop\<close>, \<open>bootstrapNATS\<close>
  and \<open>ensureNATS\<close> of \<open>internal/daemon/handlers.go\<close>, the credentials in \<open>state.go\<close>, the watcher of the state
  files (\<open>watcher.go\<close>) and \<open>ipcStatus\<close> of \<open>ipc.go\<close>.

  The server's exchange of a key for a broker credential is a function of the address, the key and the account
  asked for. Write faults, dials, the clock and the parser of account ids are arguments.
\<close>

section \<open>State\<close>

record exchange_reply =
  xr_NATSURL :: string
  xr_AccountID :: string
  xr_AccountName :: string
  xr_ExpiresAt :: int
  xr_ACLEnforced :: bool
  xr_NATSUserJWT :: string
  xr_NATSUserSeed :: string

datatype auth_answer = AuthBadRequest string | AuthNoAnswer string | AuthStatus nat string | AuthBody "string + exchange_reply"

record login_daemon =
  ld_Client :: client
  ld_credsFile :: "credentials option"
  ld_Conn :: conn_state
  ld_aclEnforced :: bool
  ld_Heartbeats :: heartbeatcache
  ld_lastRefreshErr :: "string \<times> instant"

record auth_env =
  ae_Exchange :: "string \<Rightarrow> string \<Rightarrow> string \<Rightarrow> auth_answer"
  ae_UUID :: "string \<Rightarrow> bool"
  ae_Quote :: "string \<Rightarrow> string"
  ae_Override :: string
  ae_Persist :: "string option"
  ae_Dial1 :: "string option + nat"
  ae_Dial2 :: "string option + nat"
  ae_Now :: instant
  ae_ID :: "nat \<Rightarrow> string"

abbreviation ld_State :: "login_daemon \<Rightarrow> daemon_state" where
  "ld_State d \<equiv> fst (cl_List (ld_Client d))"

definition keyPrefix :: "string \<Rightarrow> string" where
  "keyPrefix plaintext =
     (let s = (if has_prefix plaintext ''ppz_'' then drop 4 plaintext else plaintext)
      in if length s < 8 then s else take 8 s)"

text \<open>\<open>SetLogin\<close>: the state is changed first, then the file is written.\<close>

definition SetLogin ::
  "string option \<Rightarrow> credentials \<Rightarrow> string \<Rightarrow> string \<Rightarrow> string \<Rightarrow> login_daemon \<Rightarrow> string option \<times> login_daemon"
where
  "SetLogin fault creds accountID accountName keyPfx d =
     (let cr = creds\<lparr>cr_AccountID := accountID, cr_AccountName := accountName\<rparr>;
          c = ld_Client d;
          c1 = c\<lparr>cl_Creds := Some cr, cl_accountName := accountName, cl_keyPrefix := keyPfx, cl_loginCheck := LoginCheckOK,
                 cl_List := ((cl_State c)\<lparr>st_creds := True, st_accountID := accountID, st_knownPipes := {},
                              st_handleManifold := Map.empty\<rparr>, None)\<rparr>;
          d1 = d\<lparr>ld_Client := c1\<rparr>
      in case fault of Some e \<Rightarrow> (Some e, d1) | None \<Rightarrow> (None, d1\<lparr>ld_credsFile := Some cr\<rparr>))"

definition on_client :: "(client \<Rightarrow> client) \<Rightarrow> login_daemon \<Rightarrow> login_daemon" where
  "on_client f d = d\<lparr>ld_Client := f (ld_Client d)\<rparr>"

definition on_conn :: "(conn_state \<Rightarrow> conn_state) \<Rightarrow> login_daemon \<Rightarrow> login_daemon" where
  "on_conn f d = d\<lparr>ld_Conn := f (ld_Conn d)\<rparr>"

section \<open>The refresh loop of the daemon\<close>

definition refreshErrorCoalesceWindow :: duration where "refreshErrorCoalesceWindow = minute"

definition refresh_err_text :: "refresh_err \<Rightarrow> string" where
  "refresh_err_text e = (case e of ErrUnauthorized \<Rightarrow> ''daemon.RefreshLoop: unauthorized'' | RefreshFailed t \<Rightarrow> t)"

text \<open>The hook on failed refreshes: an unchanged reason is recorded at most once a minute.\<close>

definition OnError_refresh :: "refresh_err \<Rightarrow> instant \<Rightarrow> login_daemon \<Rightarrow> login_daemon" where
  "OnError_refresh err now d =
     (let reason = refresh_err_text err; (lastReason, lastAt) = ld_lastRefreshErr d;
          dup = (reason = lastReason \<and> time_sub now lastAt < refreshErrorCoalesceWindow)
      in if dup then d
         else on_conn (\<lambda>st. record_event (mk_event ''refresh_error'' ''refresh-loop'' '''' reason now st) st)
                (d\<lparr>ld_lastRefreshErr := (reason, now)\<rparr>))"

definition startRefreshLoop :: "string \<Rightarrow> string \<Rightarrow> int \<Rightarrow> instant \<Rightarrow> login_daemon \<Rightarrow> login_daemon" where
  "startRefreshLoop jwt seed expUnix now d =
     on_conn (\<lambda>st. st\<lparr>cx_Refresh := Some (refresh_Start jwt seed expUnix now)\<rparr>) (d\<lparr>ld_lastRefreshErr := ('''', 0)\<rparr>)"

text \<open>\<open>time.Time.Unix\<close>, the inverse of \<open>unix_time\<close>.\<close>

definition unix_seconds :: "instant \<Rightarrow> int" where
  "unix_seconds t = (t - unix_time 0) div second"

definition ensureRefreshLoopFromCreds :: "credentials \<Rightarrow> instant \<Rightarrow> login_daemon \<Rightarrow> login_daemon" where
  "ensureRefreshLoopFromCreds creds now d =
     (if cx_Refresh (ld_Conn d) \<noteq> None \<or> cr_NATSUserJWT creds = '''' \<or> cr_NATSUserSeed creds = '''' then d
      else startRefreshLoop (cr_NATSUserJWT creds) (cr_NATSUserSeed creds) (unix_seconds (now - minute)) now d)"

text \<open>
  \<open>authExchangeRefresh\<close> in its two halves: the credentials are read and the request is made; when the answer
  is there, the credentials read before are stored with the new ones in them.
\<close>

definition refresh_begin :: "auth_env \<Rightarrow> login_daemon \<Rightarrow> refresh_err + credentials \<times> auth_answer" where
  "refresh_begin E d =
     (case cl_Creds (ld_Client d) of None \<Rightarrow> Inl ErrUnauthorized
      | Some creds \<Rightarrow> Inr (creds, ae_Exchange E (cr_URL creds) (cr_APIKey creds) (st_accountID (ld_State d))))"

definition refresh_end :: "auth_env \<Rightarrow> credentials \<Rightarrow> auth_answer \<Rightarrow> login_daemon \<Rightarrow> exchange \<times> login_daemon" where
  "refresh_end E creds ans d =
     (case ans of
        AuthBadRequest t \<Rightarrow> (Inl (RefreshFailed t), d)
      | AuthNoAnswer t \<Rightarrow> (Inl (RefreshFailed t), d)
      | AuthStatus code st_line \<Rightarrow> (Inl (if code = 401 then ErrUnauthorized else RefreshFailed (''auth/exchange: HTTP '' @ take 3 st_line)), d)
      | AuthBody (Inl t) \<Rightarrow> (Inl (RefreshFailed t), d)
      | AuthBody (Inr x) \<Rightarrow>
          (Inr (xr_NATSUserJWT x, xr_NATSUserSeed x, xr_ExpiresAt x),
           snd (SetLogin (ae_Persist E) (creds\<lparr>cr_NATSUserJWT := xr_NATSUserJWT x, cr_NATSUserSeed := xr_NATSUserSeed x\<rparr>)
                  (xr_AccountID x) (xr_AccountName x) (keyPrefix (cr_APIKey creds)) (d\<lparr>ld_aclEnforced := xr_ACLEnforced x\<rparr>))))"

definition authExchangeRefresh :: "auth_env \<Rightarrow> login_daemon \<Rightarrow> exchange \<times> login_daemon" where
  "authExchangeRefresh E d = (case refresh_begin E d of Inl e \<Rightarrow> (Inl e, d) | Inr (creds, ans) \<Rightarrow> refresh_end E creds ans d)"

text \<open>\<open>refreshNow\<close> with the daemon's hooks: what is done with the answer, by the loop \<open>r\<close>.\<close>

definition refresh_apply :: "auth_env \<Rightarrow> refreshloop \<Rightarrow> exchange \<Rightarrow> login_daemon \<Rightarrow> refresh_err option \<times> login_daemon" where
  "refresh_apply E r ex d =
     (case refreshNow ex (ae_Now E) r of
        (Some e, r') \<Rightarrow>
          (let d1 = OnError_refresh e (ae_Now E) d
           in (Some e, if e = ErrUnauthorized then on_client (SetLoginCheck LoginCheckInvalid) d1 else d1))
      | (None, r') \<Rightarrow>
          (let d1 = on_conn (\<lambda>st. st\<lparr>cx_Refresh := Some r'\<rparr>) d
           in (None, on_conn (\<lambda>st. snd (rebuildNC (ae_ID E) (ae_Now E) ''OnRefreshed-callback'' (ae_Dial1 E) id st)) d1)))"

definition refresh_daemon :: "auth_env \<Rightarrow> refreshloop \<Rightarrow> login_daemon \<Rightarrow> refresh_err option \<times> login_daemon" where
  "refresh_daemon E r d = (case authExchangeRefresh E d of (ex, d1) \<Rightarrow> refresh_apply E r ex d1)"

section \<open>Connecting on demand\<close>

definition refresh_if_due :: "auth_env \<Rightarrow> login_daemon \<Rightarrow> cerror option \<times> login_daemon" where
  "refresh_if_due E d =
     (case cx_Refresh (ld_Conn d) of None \<Rightarrow> (None, d)
      | Some r \<Rightarrow>
          if ae_Now E < fire_at r then (None, d)
          else (case refresh_daemon E r d of
                  (Some e, d1) \<Rightarrow> (Some (New_err (if e = ErrUnauthorized then EInvalidAPIKey else EServerUnreachable)), d1)
                | (None, d1) \<Rightarrow> (None, d1)))"

definition nats_url :: "auth_env \<Rightarrow> exchange_reply \<Rightarrow> string" where
  "nats_url E x = (if ae_Override E \<noteq> '''' then ae_Override E else xr_NATSURL x)"

text \<open>The one exchange of a daemon that does not know the broker's address yet.\<close>

definition cold_exchange :: "auth_env \<Rightarrow> credentials \<Rightarrow> login_daemon \<Rightarrow> (string + cerror) option \<times> login_daemon" where
  "cold_exchange E creds d =
     (case ae_Exchange E (cr_URL creds) (cr_APIKey creds) (cr_AccountID creds) of
        AuthBadRequest t \<Rightarrow> (Some (Inl t), d)
      | AuthNoAnswer t \<Rightarrow> (Some (Inr (New_err EServerUnreachable)), d)
      | AuthStatus code st_line \<Rightarrow> (Some (Inr (New_err (if code = 401 \<or> code = 403 then EInvalidAPIKey else EServerUnreachable))), d)
      | AuthBody (Inl t) \<Rightarrow> (Some (Inl t), d)
      | AuthBody (Inr x) \<Rightarrow>
          (let d1 = (on_conn (\<lambda>st. st\<lparr>cx_NATSURL := nats_url E x\<rparr>) d)\<lparr>ld_aclEnforced := xr_ACLEnforced x\<rparr>;
               d2 = snd (SetLogin (ae_Persist E) (creds\<lparr>cr_NATSUserJWT := xr_NATSUserJWT x, cr_NATSUserSeed := xr_NATSUserSeed x\<rparr>)
                           (xr_AccountID x) (xr_AccountName x) (keyPrefix (cr_APIKey creds)) d1)
           in (None, startRefreshLoop (xr_NATSUserJWT x) (xr_NATSUserSeed x) (xr_ExpiresAt x) (ae_Now E) d2)))"

definition bootstrapNATS :: "auth_env \<Rightarrow> credentials \<Rightarrow> login_daemon \<Rightarrow> (string + cerror) option \<times> login_daemon" where
  "bootstrapNATS E creds d =
     (case refresh_if_due E (ensureRefreshLoopFromCreds creds (ae_Now E) d) of
        (Some e, d1) \<Rightarrow> (Some (Inr e), d1)
      | (None, d1) \<Rightarrow>
          (case (if cx_NATSURL (ld_Conn d1) = '''' then cold_exchange E creds d1 else (None, d1)) of
             (Some e, d2) \<Rightarrow> (Some e, d2)
           | (None, d2) \<Rightarrow> (None, ensureRefreshLoopFromCreds creds (ae_Now E) d2)))"

definition ensureNATS :: "auth_env \<Rightarrow> login_daemon \<Rightarrow> (string + cerror) option \<times> login_daemon" where
  "ensureNATS E d =
     (case cl_Creds (ld_Client d) of None \<Rightarrow> (Some (Inr (New_err ENotLoggedIn)), d)
      | Some creds \<Rightarrow>
          (case bootstrapNATS E creds d of
             (Some e, d1) \<Rightarrow> (Some e, d1)
           | (None, d1) \<Rightarrow>
               (let (e, st) = rebuildNC (ae_ID E) (ae_Now E) ''ensureNATS'' (ae_Dial2 E) id (ld_Conn d1)
                in (map_option Inr e, d1\<lparr>ld_Conn := st\<rparr>))))"

section \<open>Login\<close>

definition internal_panic :: cerror where
  "internal_panic = \<lparr>Code = ''E_INTERNAL'', Message = ''daemon internal error''\<rparr>"

text \<open>\<open>handleLogin\<close>: the reply, the daemon, and whether recovery is kicked off because the dial failed. A request
  that cannot be built is a nil dereference, which the connection handler turns into an internal error.\<close>

definition handleLogin ::
  "auth_env \<Rightarrow> string \<Rightarrow> string \<Rightarrow> string \<Rightarrow> login_daemon \<Rightarrow> (cerror + string \<times> string \<times> string) \<times> login_daemon \<times> bool"
where
  "handleLogin E url key account d =
     (case ae_Exchange E url key account of
        AuthBadRequest t \<Rightarrow> (Inl internal_panic, d, False)
      | AuthNoAnswer t \<Rightarrow> (Inl (New_err EServerUnreachable), d, False)
      | AuthStatus code st_line \<Rightarrow>
          (Inl (if code = 401 then New_err EInvalidAPIKey else \<lparr>Code = ''E_HTTP'', Message = st_line\<rparr>), d, False)
      | AuthBody (Inl t) \<Rightarrow> (Inl \<lparr>Code = ''E_PROTOCOL'', Message = t\<rparr>, d, False)
      | AuthBody (Inr x) \<Rightarrow>
          (let d1 = d\<lparr>ld_aclEnforced := xr_ACLEnforced x\<rparr>
           in if \<not> ae_UUID E (xr_AccountID x) then
                (Inl \<lparr>Code = ''E_PROTOCOL'', Message = ''auth exchange returned invalid account id '' @ ae_Quote E (xr_AccountID x)\<rparr>, d1, False)
              else
                (case SetLogin (ae_Persist E)
                        \<lparr>cr_URL = url, cr_APIKey = key, cr_AccountID = '''', cr_AccountName = '''', cr_NATSUserJWT = xr_NATSUserJWT x,
                         cr_NATSUserSeed = xr_NATSUserSeed x\<rparr> (xr_AccountID x) (xr_AccountName x) (keyPrefix key) d1 of
                   (Some e, d2) \<Rightarrow> (Inl \<lparr>Code = ''E_INTERNAL'', Message = e\<rparr>, d2, False)
                 | (None, d2) \<Rightarrow>
                     (let d3 = startRefreshLoop (xr_NATSUserJWT x) (xr_NATSUserSeed x) (xr_ExpiresAt x) (ae_Now E)
                                 (on_conn (\<lambda>st. st\<lparr>cx_NATSURL := nats_url E x\<rparr>) d2);
                          d4 = on_conn (\<lambda>st. case ae_Dial2 E of
                                   Inl t \<Rightarrow> swapNCLocked (ae_ID E) (ae_Now E) ''handleLogin'' None st
                                 | Inr nc \<Rightarrow> swapNCLocked (ae_ID E) (ae_Now E) ''handleLogin'' (Some nc) (dial_with nc st)) d3;
                          d5 = d4\<lparr>ld_Heartbeats := DropOtherAccounts (xr_AccountID x) (ld_Heartbeats d4)\<rparr>
                      in (Inr (url, keyPrefix key, xr_AccountID x), d5, \<exists>t. ae_Dial2 E = Inl t)))))"

section \<open>watcher.go\<close>

text \<open>What the state files hold besides the credentials, or the error of reading them.\<close>

record state_files =
  sf_creds_err :: "string option"
  sf_current :: "string + (string \<rightharpoonup> string)"
  sf_namespace :: "string + (string \<rightharpoonup> string)"
  sf_legacy :: string

text \<open>\<open>LoadFromDisk\<close> with the credentials.\<close>

definition reload :: "state_files \<Rightarrow> login_daemon \<Rightarrow> string option \<times> login_daemon" where
  "reload F d =
     (let creds = (case sf_creds_err F of Some e \<Rightarrow> Inl e | None \<Rightarrow> Inr (ld_credsFile d)); c = ld_Client d
      in case LoadFromDisk (case creds of Inl e \<Rightarrow> Inl e | Inr cr \<Rightarrow> Inr (map_option cr_AccountID cr)) (sf_current F) (sf_namespace F)
             (sf_legacy F) (cl_State c) of
           (Some e, _) \<Rightarrow> (Some e, d)
         | (None, S) \<Rightarrow>
             (None, d\<lparr>ld_Client := c\<lparr>cl_Creds := ld_credsFile d, cl_List := (S, None), cl_loginCheck := '''',
                  cl_accountName := (case ld_credsFile d of None \<Rightarrow> '''' | Some cr \<Rightarrow> cr_AccountName cr),
                  cl_keyPrefix := (case ld_credsFile d of None \<Rightarrow> '''' | Some cr \<Rightarrow> keyPrefix (cr_APIKey cr))\<rparr>\<rparr>))"

text \<open>One round of \<open>watchState\<close> after a change or a signal; the result tells whether the next tick retries.\<close>

definition watchState_round :: "auth_env \<Rightarrow> state_files \<Rightarrow> login_daemon \<Rightarrow> bool \<times> login_daemon" where
  "watchState_round E F d =
     (case reload F d of
        (Some e, _) \<Rightarrow> (True, d)
      | (None, d1) \<Rightarrow>
          (False,
           if cl_Creds (ld_Client d1) \<noteq> None then d1
           else
             (let d2 = (if cx_NC (ld_Conn d1) \<noteq> None
                        then on_conn (swapNCLocked (ae_ID E) (ae_Now E) ''watchState-creds-gone'' None) d1 else d1)
              in d2\<lparr>ld_Heartbeats := Clear_heartbeats (ld_Heartbeats d2)\<rparr>)))"

section \<open>ipcStatus\<close>

record statusreply =
  sp_LoggedIn :: bool
  sp_URL :: string
  sp_KeyPrefix :: string
  sp_AccountID :: string
  sp_AccountName :: string
  sp_LastTokenRefreshAt :: "instant option"
  sp_LoginCheck :: string
  sp_Current :: string
  sp_CurrentNamespace :: string
  sp_NATSState :: string
  sp_NATSStateSince :: "(instant \<times> string) option"

definition ipcStatus ::
  "(http_request \<Rightarrow> list_source list http_answer) \<Rightarrow> nats_ring option \<Rightarrow> string \<Rightarrow> login_daemon \<Rightarrow> statusreply \<times> login_daemon"
where
  "ipcStatus server ring sess d =
     (let st = ld_Conn d; c = ld_Client d; S = cl_State c;
          nats = natsStateString (map_option (cx_status st) (cx_NC st));
          since = (case ring of None \<Rightarrow> None
                   | Some r \<Rightarrow> (case stateSinceFrom nats (Snapshot_ring r) of (at, entry) \<Rightarrow> if at = 0 then None else Some (at, entry)));
          probe = (cl_Creds c \<noteq> None \<and> cl_loginCheck c = '''');
          (res, c1) = (if probe then callServer ''GET'' ''/api/v1/sources'' None server c else (Inr [], c));
          check = (if \<not> probe then cl_loginCheck c
                   else case res of Inl e \<Rightarrow> if Code e = EInvalidAPIKey then LoginCheckInvalid else '''' | Inr _ \<Rightarrow> LoginCheckOK);
          loggedIn = (cl_Creds c \<noteq> None)
      in (\<lparr>sp_LoggedIn = loggedIn, sp_URL = (case cl_Creds c of None \<Rightarrow> '''' | Some cr \<Rightarrow> cr_URL cr),
           sp_KeyPrefix = (if loggedIn then cl_keyPrefix c else ''''), sp_AccountID = (if loggedIn then st_accountID S else ''''),
           sp_AccountName = (if loggedIn then cl_accountName c else ''''),
           sp_LastTokenRefreshAt =
             (if loggedIn then (case cx_Refresh st of None \<Rightarrow> None | Some r \<Rightarrow> if rl_lastAt r = 0 then None else Some (rl_lastAt r)) else None),
           sp_LoginCheck = (if loggedIn then check else ''''), sp_Current = Current sess S, sp_CurrentNamespace = CurrentNamespace sess S,
           sp_NATSState = nats, sp_NATSStateSince = since\<rparr>, d\<lparr>ld_Client := c1\<rparr>))"

section \<open>The connection belongs to the account of the login\<close>

text \<open>\<open>minted\<close> tells in which account a broker credential was issued. The server issues it in the account it
  names in the reply, and in the one it was asked for when it was asked for one in which it issues credentials.\<close>

definition server_mints :: "(string \<Rightarrow> string) \<Rightarrow> auth_env \<Rightarrow> bool" where
  "server_mints minted E \<longleftrightarrow>
     (\<forall>url key acc x. ae_Exchange E url key acc = AuthBody (Inr x) \<longrightarrow>
        minted (xr_NATSUserJWT x) = xr_AccountID x \<and> (acc \<noteq> '''' \<and> acc \<in> range minted \<longrightarrow> xr_AccountID x = acc))"

definition works :: "(string \<Rightarrow> string) \<Rightarrow> auth_env \<Rightarrow> bool" where
  "works minted E \<longleftrightarrow> server_mints minted E \<and> ae_Persist E = None \<and> \<not> ae_UUID E ''''"

definition conn_in :: "(string \<Rightarrow> string) \<Rightarrow> string \<Rightarrow> conn_state \<Rightarrow> bool" where
  "conn_in minted a st \<longleftrightarrow>
     (\<forall>r. cx_Refresh st = Some r \<longrightarrow> minted (rl_jwt r) = a) \<and> (\<forall>c. cx_NC st = Some c \<longrightarrow> minted (cx_cred st c) = a)
     \<and> (cx_NATSURL st \<noteq> '''' \<longrightarrow> cx_Refresh st \<noteq> None)"

definition creds_in :: "(string \<Rightarrow> string) \<Rightarrow> string \<Rightarrow> credentials \<Rightarrow> bool" where
  "creds_in minted a cr \<longleftrightarrow> cr_AccountID cr = a \<and> (cr_NATSUserJWT cr \<noteq> '''' \<longrightarrow> minted (cr_NATSUserJWT cr) = a)"

definition in_account :: "(string \<Rightarrow> string) \<Rightarrow> string \<Rightarrow> login_daemon \<Rightarrow> bool" where
  "in_account minted a d \<longleftrightarrow>
     a \<noteq> '''' \<and> a \<in> range minted \<and> (\<exists>cr. cl_Creds (ld_Client d) = Some cr \<and> creds_in minted a cr) \<and> st_accountID (ld_State d) = a
     \<and> conn_in minted a (ld_Conn d) \<and> (ld_credsFile d = None \<or> ld_credsFile d = cl_Creds (ld_Client d))"

definition logged_out :: "login_daemon \<Rightarrow> bool" where
  "logged_out d \<longleftrightarrow> cl_Creds (ld_Client d) = None \<and> cx_NC (ld_Conn d) = None \<and> ld_credsFile d = None
     \<and> (cx_NATSURL (ld_Conn d) \<noteq> '''' \<longrightarrow> cx_Refresh (ld_Conn d) \<noteq> None)"

definition login_inv :: "(string \<Rightarrow> string) \<Rightarrow> login_daemon \<Rightarrow> bool" where
  "login_inv minted d \<longleftrightarrow> logged_out d \<or> (\<exists>a. in_account minted a d)"

lemma login_swap_fields [simp]:
  "cx_NC (swapNCLocked id_text now caller nc st) = nc" "cx_cred (swapNCLocked id_text now caller nc st) = cx_cred st"
  "cx_Refresh (swapNCLocked id_text now caller nc st) = cx_Refresh st" "cx_NATSURL (swapNCLocked id_text now caller nc st) = cx_NATSURL st"
  by (auto simp: swapNCLocked_def Let_def record_event_def closeAll_def Close_conn_def split: option.split)

lemma dial_fields [simp]:
  "cx_Refresh (dial_with c st) = cx_Refresh st" "cx_NATSURL (dial_with c st) = cx_NATSURL st" "cx_NC (dial_with c st) = cx_NC st"
  "cx_Refresh st = Some r \<Longrightarrow> cx_cred (dial_with c st) c = rl_jwt r"
  by (simp_all add: dial_with_def)

lemma conn_in_swap:
  assumes "conn_in minted a st"
  shows "conn_in minted a (swapNCLocked id_text now caller None st)"
    and "cx_Refresh st \<noteq> None \<Longrightarrow> conn_in minted a (swapNCLocked id_text now caller (Some c) ((dial_with c st)\<lparr>cx_lastDialErr := e\<rparr>))"
    and "cx_Refresh st \<noteq> None \<Longrightarrow> conn_in minted a (swapNCLocked id_text now caller (Some c) (dial_with c st))"
  using assms by (auto simp: conn_in_def)

lemma conn_in_rebuild: "conn_in minted a st \<Longrightarrow> conn_in minted a (snd (rebuildNC id_text now caller dial id st))"
proof -
  assume c: "conn_in minted a st"
  have "conn_in minted a (st\<lparr>cx_Refresh := cx_Refresh st, cx_lastDialErr := e\<rparr>)" for e using c by (simp add: conn_in_def)
  moreover have "(dial_with n st)\<lparr>cx_Refresh := cx_Refresh st, cx_lastDialErr := None\<rparr> = (dial_with n st)\<lparr>cx_lastDialErr := None\<rparr>" for n
    by (simp add: dial_with_def)
  moreover have "cx_NATSURL st \<noteq> '''' \<Longrightarrow> cx_Refresh st \<noteq> None" using c by (simp add: conn_in_def)
  ultimately show ?thesis using c conn_in_swap(2) [OF c]
    by (auto simp: rebuildNC_def Let_def split: sum.split)
qed

lemma on_error_fields [simp]:
  "ld_Client (OnError_refresh e now d) = ld_Client d" "ld_credsFile (OnError_refresh e now d) = ld_credsFile d"
  "conn_in minted a (ld_Conn (OnError_refresh e now d)) = conn_in minted a (ld_Conn d)"
  "cx_NC (ld_Conn (OnError_refresh e now d)) = cx_NC (ld_Conn d)" "cx_Refresh (ld_Conn (OnError_refresh e now d)) = cx_Refresh (ld_Conn d)"
  "cx_NATSURL (ld_Conn (OnError_refresh e now d)) = cx_NATSURL (ld_Conn d)"
  by (auto simp: OnError_refresh_def Let_def on_conn_def record_event_def conn_in_def split: prod.split)

lemma in_account_error [simp]:
  "in_account minted a (OnError_refresh e now d) = in_account minted a d"
  "in_account minted a (on_client (SetLoginCheck s) d) = in_account minted a d"
  "in_account minted a (d\<lparr>ld_aclEnforced := b\<rparr>) = in_account minted a d"
  "in_account minted a (d\<lparr>ld_Heartbeats := h\<rparr>) = in_account minted a d"
  by (simp_all add: in_account_def on_client_def SetLoginCheck_def)

lemma set_login_in:
  assumes "conn_in minted a (ld_Conn d)" "a \<noteq> ''''" "a \<in> range minted" "cr_NATSUserJWT creds \<noteq> '''' \<Longrightarrow> minted (cr_NATSUserJWT creds) = a"
  shows "in_account minted a (snd (SetLogin None creds a name p d))"
  using assms by (auto simp: SetLogin_def Let_def in_account_def creds_in_def)

lemma refresh_in:
  assumes "works minted E" "in_account minted a d" "authExchangeRefresh E d = (ex, d1)"
  shows "in_account minted a d1 \<and> ld_Conn d1 = ld_Conn d \<and> (\<forall>jwt seed e. ex = Inr (jwt, seed, e) \<longrightarrow> minted jwt = a)"
proof -
  obtain cr where cr: "cl_Creds (ld_Client d) = Some cr" "creds_in minted a cr" and a: "st_accountID (ld_State d) = a" "a \<noteq> ''''" "a \<in> range minted"
      "conn_in minted a (ld_Conn d)"
    using assms(2) by (auto simp: in_account_def)
  define ans where "ans = ae_Exchange E (cr_URL cr) (cr_APIKey cr) a"
  have x: "minted (xr_NATSUserJWT x) = a \<and> xr_AccountID x = a" if "ans = AuthBody (Inr x)" for x
    using assms(1) that a(2,3) by (auto simp: works_def server_mints_def ans_def)
  have e: "refresh_end E cr ans d = (ex, d1)"
    using assms(3) cr a(1) by (simp add: authExchangeRefresh_def refresh_begin_def ans_def)
  show ?thesis
  proof (cases "\<exists>x. ans = AuthBody (Inr x)")
    case True
    then obtain x where X: "ans = AuthBody (Inr x)" by blast
    let ?creds = "cr\<lparr>cr_NATSUserJWT := xr_NATSUserJWT x, cr_NATSUserSeed := xr_NATSUserSeed x\<rparr>"
    have d1: "d1 = snd (SetLogin None ?creds a (xr_AccountName x) (keyPrefix (cr_APIKey cr)) (d\<lparr>ld_aclEnforced := xr_ACLEnforced x\<rparr>))"
      and ex: "ex = Inr (xr_NATSUserJWT x, xr_NATSUserSeed x, xr_ExpiresAt x)"
      using e X x [OF X] assms(1) by (simp_all add: refresh_end_def works_def)
    have "in_account minted a d1" unfolding d1 by (rule set_login_in) (use a x [OF X] in auto)
    moreover have "ld_Conn d1 = ld_Conn d" unfolding d1 by (simp add: SetLogin_def Let_def)
    ultimately show ?thesis using x [OF X] ex by simp
  next
    case False
    then have "d1 = d \<and> (\<exists>t. ex = Inl t)" using e by (auto simp: refresh_end_def split: auth_answer.splits sum.splits)
    then show ?thesis using assms(2) by auto
  qed
qed

lemma refresh_daemon_in:
  assumes "works minted E" "in_account minted a d"
  shows "in_account minted a (snd (refresh_daemon E r d))"
proof -
  obtain ex d1 where A: "authExchangeRefresh E d = (ex, d1)" by fastforce
  note f = refresh_in [OF assms A]
  show ?thesis
  proof (cases ex)
    case (Inl e)
    then show ?thesis using f A by (simp add: refresh_daemon_def refresh_apply_def refreshNow_def Let_def)
  next
    case (Inr p)
    obtain jwt seed e where p: "p = (jwt, seed, e)" by (cases p)
    have "conn_in minted a (ld_Conn d1)" using f unfolding in_account_def by metis
    then have "conn_in minted a ((ld_Conn d1)\<lparr>cx_Refresh := Some (r\<lparr>rl_jwt := jwt, rl_seed := seed, rl_expUnix := e, rl_gen := rl_gen r + 1, rl_lastAt := ae_Now E\<rparr>)\<rparr>)"
      using f Inr p by (simp add: conn_in_def)
    from conn_in_rebuild [OF this] f show ?thesis
      using A Inr p by (auto simp: refresh_daemon_def refresh_apply_def refreshNow_def Let_def on_conn_def in_account_def)
  qed
qed

lemma start_loop_in:
  assumes "in_account minted a d" "minted jwt = a"
  shows "in_account minted a (startRefreshLoop jwt seed e now d)"
  using assms by (auto simp: startRefreshLoop_def on_conn_def in_account_def conn_in_def refresh_Start_def)

lemma ensure_loop_in:
  assumes "in_account minted a d" "creds_in minted a cr"
  shows "in_account minted a (ensureRefreshLoopFromCreds cr now d)"
  using assms start_loop_in by (auto simp: ensureRefreshLoopFromCreds_def creds_in_def)

lemma refresh_due_in:
  assumes "works minted E" "in_account minted a d"
  shows "in_account minted a (snd (refresh_if_due E d))"
  using refresh_daemon_in [OF assms] assms(2)
  by (auto simp: refresh_if_due_def split: option.split prod.split) (metis snd_conv)+

lemma cold_in:
  assumes "works minted E" "in_account minted a d" "creds_in minted a cr" "cold_exchange E cr d = (e, d1)"
  shows "in_account minted a d1"
proof (cases "\<exists>x. ae_Exchange E (cr_URL cr) (cr_APIKey cr) (cr_AccountID cr) = AuthBody (Inr x)")
  case True
  then obtain x where X: "ae_Exchange E (cr_URL cr) (cr_APIKey cr) (cr_AccountID cr) = AuthBody (Inr x)" by blast
  have a: "a \<noteq> ''''" "a \<in> range minted" using assms(2) by (simp_all add: in_account_def)
  have x: "minted (xr_NATSUserJWT x) = a" "xr_AccountID x = a"
    using assms(1,3) X a by (auto simp: works_def server_mints_def creds_in_def)
  let ?creds = "cr\<lparr>cr_NATSUserJWT := xr_NATSUserJWT x, cr_NATSUserSeed := xr_NATSUserSeed x\<rparr>"
  let ?d1 = "(on_conn (\<lambda>st. st\<lparr>cx_NATSURL := nats_url E x\<rparr>) d)\<lparr>ld_aclEnforced := xr_ACLEnforced x\<rparr>"
  let ?d2 = "snd (SetLogin None ?creds a (xr_AccountName x) (keyPrefix (cr_APIKey cr)) ?d1)"
  have d1: "d1 = startRefreshLoop (xr_NATSUserJWT x) (xr_NATSUserSeed x) (xr_ExpiresAt x) (ae_Now E) ?d2"
    using assms(1,4) X x(2) by (simp add: cold_exchange_def works_def Let_def)
  have c: "ld_Conn d1 = (ld_Conn d)\<lparr>cx_NATSURL := nats_url E x,
      cx_Refresh := Some (refresh_Start (xr_NATSUserJWT x) (xr_NATSUserSeed x) (xr_ExpiresAt x) (ae_Now E))\<rparr>"
    unfolding d1 by (simp add: startRefreshLoop_def on_conn_def SetLogin_def Let_def)
  have "conn_in minted a (ld_Conn d1)" unfolding c using assms(2) x(1) by (auto simp: in_account_def conn_in_def refresh_Start_def)
  then show ?thesis using a x unfolding d1
    by (auto simp: in_account_def startRefreshLoop_def on_conn_def SetLogin_def Let_def creds_in_def)
next
  case False
  then have "d1 = d" using assms(4) by (auto simp: cold_exchange_def Let_def split: auth_answer.splits sum.splits)
  then show ?thesis using assms(2) by simp
qed

lemma bootstrap_in:
  assumes "works minted E" "in_account minted a d" "creds_in minted a cr"
  shows "in_account minted a (snd (bootstrapNATS E cr d))"
proof -
  have 1: "in_account minted a (snd (refresh_if_due E (ensureRefreshLoopFromCreds cr (ae_Now E) d)))"
    by (rule refresh_due_in [OF assms(1) ensure_loop_in [OF assms(2,3)]])
  obtain e1 d1 where R: "refresh_if_due E (ensureRefreshLoopFromCreds cr (ae_Now E) d) = (e1, d1)" by fastforce
  obtain e2 d2 where C: "(if cx_NATSURL (ld_Conn d1) = '''' then cold_exchange E cr d1 else (None, d1)) = (e2, d2)" by fastforce
  have d1: "in_account minted a d1" using 1 R by simp
  have d2: "in_account minted a d2" using C d1 cold_in [OF assms(1) d1 assms(3)] by (auto split: if_splits)
  show ?thesis using R C d1 d2 ensure_loop_in [OF d2 assms(3)] by (auto simp: bootstrapNATS_def split: option.split)
qed

lemma ensure_in:
  assumes "works minted E" "login_inv minted d"
  shows "login_inv minted (snd (ensureNATS E d))"
proof (cases "cl_Creds (ld_Client d)")
  case None
  then show ?thesis using assms(2) by (simp add: ensureNATS_def)
next
  case (Some cr)
  then obtain a where a: "in_account minted a d" "creds_in minted a cr"
    using assms(2) by (auto simp: login_inv_def logged_out_def in_account_def)
  obtain e1 d1 where B: "bootstrapNATS E cr d = (e1, d1)" by fastforce
  have d1: "in_account minted a d1" using bootstrap_in [OF assms(1) a] B by simp
  have "in_account minted a (d1\<lparr>ld_Conn := snd (rebuildNC id_text now caller dial id (ld_Conn d1))\<rparr>)" for id_text now caller dial
    using d1 conn_in_rebuild [of minted a "ld_Conn d1"] by (simp add: in_account_def)
  with d1 have "in_account minted a (snd (ensureNATS E d))"
    using Some B by (auto simp: ensureNATS_def split: option.split prod.split) (metis snd_conv)+
  then show ?thesis by (auto simp: login_inv_def)
qed

lemma login_in:
  assumes "works minted E" "login_inv minted d"
  shows "login_inv minted (fst (snd (handleLogin E url key account d)))"
proof (cases "\<exists>x. ae_Exchange E url key account = AuthBody (Inr x) \<and> ae_UUID E (xr_AccountID x)")
  case True
  then obtain x where x: "ae_Exchange E url key account = AuthBody (Inr x)" "ae_UUID E (xr_AccountID x)" by blast
  let ?a = "xr_AccountID x"
  have a: "?a \<noteq> ''''" "minted (xr_NATSUserJWT x) = ?a" "ae_Persist E = None"
    using assms(1) x by (auto simp: works_def server_mints_def)
  from a(2) have "?a \<in> range minted" by (metis rangeI)
  note a = a this
  have "conn_in minted ?a (ld_Conn (fst (snd (handleLogin E url key account d))))"
    using x a by (auto simp: handleLogin_def SetLogin_def startRefreshLoop_def on_conn_def Let_def conn_in_def refresh_Start_def split: sum.split)
  then have "in_account minted ?a (fst (snd (handleLogin E url key account d)))"
    using x a by (auto simp: in_account_def handleLogin_def SetLogin_def startRefreshLoop_def on_conn_def Let_def creds_in_def)
  then show ?thesis by (auto simp: login_inv_def)
next
  case False
  then have "fst (snd (handleLogin E url key account d)) = d \<or> (\<exists>b. fst (snd (handleLogin E url key account d)) = d\<lparr>ld_aclEnforced := b\<rparr>)"
    by (auto simp: handleLogin_def Let_def split: auth_answer.split sum.split)
  then show ?thesis using assms(2) by (auto simp: login_inv_def logged_out_def)
qed

definition Logout_files :: "login_daemon \<Rightarrow> login_daemon" where
  "Logout_files d = d\<lparr>ld_credsFile := None\<rparr>"

lemma watch_in:
  assumes "login_inv minted d"
  shows "login_inv minted (snd (watchState_round E F d))"
proof (cases "\<exists>c n. sf_creds_err F = None \<and> sf_current F = Inr c \<and> sf_namespace F = Inr n")
  case True
  then obtain c n where F: "sf_creds_err F = None" "sf_current F = Inr c" "sf_namespace F = Inr n" by blast
  show ?thesis
  proof (cases "ld_credsFile d")
    case None
    have u: "cx_NATSURL (ld_Conn d) \<noteq> '''' \<longrightarrow> cx_Refresh (ld_Conn d) \<noteq> None"
      using assms by (auto simp: login_inv_def logged_out_def in_account_def conn_in_def)
    then have "logged_out (snd (watchState_round E F d))"
      using F None by (auto simp: watchState_round_def reload_def LoadFromDisk_def Let_def on_conn_def logged_out_def)
    then show ?thesis by (simp add: login_inv_def)
  next
    case (Some cr)
    then obtain a where a: "in_account minted a d" "cl_Creds (ld_Client d) = Some cr" "creds_in minted a cr"
      using assms by (auto simp: login_inv_def logged_out_def in_account_def)
    then have "in_account minted a (snd (watchState_round E F d))"
      using F Some by (auto simp: watchState_round_def reload_def LoadFromDisk_def Let_def in_account_def creds_in_def or_empty_def)
    then show ?thesis by (auto simp: login_inv_def)
  qed
next
  case False
  then show ?thesis using assms
    by (auto simp: watchState_round_def reload_def LoadFromDisk_def Let_def split: option.split sum.split)
qed

datatype login_event =
    Login auth_env string string string | Rotate auth_env | Ensure auth_env | LogoutFiles | Watch auth_env state_files

fun login_step :: "login_daemon \<Rightarrow> login_event \<Rightarrow> login_daemon" where
  "login_step d (Login E url key account) = fst (snd (handleLogin E url key account d))"
| "login_step d (Rotate E) = (case cx_Refresh (ld_Conn d) of None \<Rightarrow> d | Some r \<Rightarrow> snd (refresh_daemon E r d))"
| "login_step d (Ensure E) = snd (ensureNATS E d)"
| "login_step d LogoutFiles = Logout_files d"
| "login_step d (Watch E F) = snd (watchState_round E F d)"

fun event_works :: "(string \<Rightarrow> string) \<Rightarrow> login_event \<Rightarrow> bool" where
  "event_works minted (Login E url key account) = works minted E"
| "event_works minted (Rotate E) = works minted E"
| "event_works minted (Ensure E) = works minted E"
| "event_works minted _ = True"

lemma refresh_logged_out:
  assumes "logged_out d"
  shows "logged_out (snd (refresh_daemon E r d))"
  using assms
  by (simp add: logged_out_def refresh_daemon_def authExchangeRefresh_def refresh_begin_def refresh_apply_def refreshNow_def Let_def
      on_client_def SetLoginCheck_def)

lemma login_inv_step:
  assumes "login_inv minted d" "event_works minted ev"
  shows "login_inv minted (login_step d ev)"
proof (cases ev)
  case (Rotate E)
  then have "login_inv minted (snd (refresh_daemon E r d))" for r
    using assms refresh_daemon_in [of minted E _ d r] refresh_logged_out [of d E r] by (auto simp: login_inv_def)
  then show ?thesis using assms(1) Rotate by (auto split: option.split)
next
  case LogoutFiles
  then show ?thesis using assms(1) by (auto simp: login_inv_def logged_out_def in_account_def Logout_files_def)
qed (use assms login_in ensure_in watch_in in auto)

lemma login_inv_run: "login_inv minted d \<Longrightarrow> list_all (event_works minted) evs \<Longrightarrow> login_inv minted (foldl login_step d evs)"
  by (induction evs arbitrary: d) (simp_all add: login_inv_step)

text \<open>As long as the credential file can be written and the server issues broker credentials in the account it is
  asked for, every sequence of completed logins, refreshes, reconnects, logouts and reloads of the state, with any
  failures of the server and the broker, leaves the daemon connected, if at all, in the account whose name its
  subjects bear: the credential of the connection and that of the refresh loop were issued there, and after a
  logout there is no connection.\<close>

theorem connection_in_account:
  assumes "login_inv minted d" and "list_all (event_works minted) evs" and "d' = foldl login_step d evs"
  shows "(\<forall>c. cx_NC (ld_Conn d') = Some c \<longrightarrow>
      cl_Creds (ld_Client d') \<noteq> None \<and> minted (cx_cred (ld_Conn d') c) = st_accountID (ld_State d'))
    \<and> (\<forall>cr. cl_Creds (ld_Client d') = Some cr \<longrightarrow> cr_AccountID cr = st_accountID (ld_State d')
      \<and> (\<forall>r. cx_Refresh (ld_Conn d') = Some r \<longrightarrow> minted (rl_jwt r) = cr_AccountID cr))"
  using login_inv_run [OF assms(1,2)] unfolding assms(3)
  by (auto simp: login_inv_def logged_out_def in_account_def conn_in_def creds_in_def)

section \<open>What a refresh under way overwrites\<close>

text \<open>C40: A refresh that is under way when the user logs out brings the login back, in memory and on disk, although
  the state has been reloaded and the connection dropped in between; and one that is under way during a login to
  another account puts the old account back in place while the connection and the refresh loop are the new one's.\<close>

theorem refresh_undoes_logout:
  assumes "refresh_begin E d = Inr (creds, AuthBody (Inr x))" and "ae_Persist E = None"
    and "sf_creds_err F = None" and "sf_current F = Inr cur" and "sf_namespace F = Inr ns"
    and "ae_Exchange E2 url key account = AuthBody (Inr y)" and "ae_UUID E2 (xr_AccountID y)" and "ae_Persist E2 = None"
    and "ae_Dial2 E2 = Inr c"
  shows "(let out = snd (watchState_round E F (Logout_files d)); d1 = snd (refresh_end E creds (AuthBody (Inr x)) out)
      in cl_Creds (ld_Client out) = None \<and> cx_NC (ld_Conn out) = None
        \<and> cl_Creds (ld_Client d1) \<noteq> None \<and> ld_credsFile d1 = cl_Creds (ld_Client d1) \<and> st_accountID (ld_State d1) = xr_AccountID x)
    \<and> (let new = fst (snd (handleLogin E2 url key account d)); d2 = snd (refresh_end E creds (AuthBody (Inr x)) new)
      in st_accountID (ld_State new) = xr_AccountID y \<and> st_accountID (ld_State d2) = xr_AccountID x
        \<and> cx_NC (ld_Conn d2) = Some c \<and> cx_cred (ld_Conn d2) c = xr_NATSUserJWT y)"
  using assms
  by (simp_all add: watchState_round_def reload_def LoadFromDisk_def Logout_files_def refresh_end_def SetLogin_def handleLogin_def
      startRefreshLoop_def on_conn_def refresh_Start_def Let_def dial_with_def)

section \<open>What a login leaves behind\<close>

text \<open>C33: After a login that succeeds nothing of the account before is left: the stored credentials, in memory and on
  disk, are those of the answer, the caches of sources, namespaces and completions are empty, the refresh loop
  starts with the new credential, an open connection was dialled with it and is up to date, and the heartbeats of
  other accounts are gone; without a connection recovery is under way. The sessions keep what they had set.\<close>

theorem login_switches_account:
  assumes "handleLogin E url key account d = (Inr reply, d', kicked)"
  shows "\<exists>x cr. ae_Exchange E url key account = AuthBody (Inr x) \<and> ae_UUID E (xr_AccountID x) \<and> reply = (url, keyPrefix key, xr_AccountID x)
    \<and> cl_Creds (ld_Client d') = Some cr \<and> ld_credsFile d' = Some cr \<and> cr_URL cr = url \<and> cr_APIKey cr = key
    \<and> cr_AccountID cr = xr_AccountID x \<and> cr_NATSUserJWT cr = xr_NATSUserJWT x \<and> cl_loginCheck (ld_Client d') = LoginCheckOK
    \<and> st_accountID (ld_State d') = xr_AccountID x \<and> st_knownPipes (ld_State d') = {} \<and> st_handleManifold (ld_State d') = Map.empty
    \<and> snd (cl_List (ld_Client d')) = None
    \<and> cx_Refresh (ld_Conn d') = Some (refresh_Start (xr_NATSUserJWT x) (xr_NATSUserSeed x) (xr_ExpiresAt x) (ae_Now E))
    \<and> (\<forall>h e. ld_Heartbeats d' h = Some e \<longrightarrow> hb_AccountID e = xr_AccountID x)
    \<and> (case cx_NC (ld_Conn d') of None \<Rightarrow> kicked
       | Some c \<Rightarrow> \<not> kicked \<and> cx_cred (ld_Conn d') c = xr_NATSUserJWT x \<and> cx_ncExp (ld_Conn d') = xr_ExpiresAt x)
    \<and> st_current (ld_State d') = st_current (ld_State d) \<and> st_currentNamespace (ld_State d') = st_currentNamespace (ld_State d)"
proof -
  obtain x where X: "ae_Exchange E url key account = AuthBody (Inr x)" "ae_UUID E (xr_AccountID x)" "ae_Persist E = None"
    using assms by (auto simp: handleLogin_def SetLogin_def Let_def split: auth_answer.splits sum.splits if_splits option.splits)
  have exp: "cx_ncExp (swapNCLocked id_text now caller (Some c) st) = JWTExp (cx_Refresh st)" for id_text now caller c st
    by (auto simp: swapNCLocked_def Let_def record_event_def closeAll_def Close_conn_def split: option.split)
  show ?thesis
    using assms X
    by (cases "ae_Dial2 E")
      (auto simp: handleLogin_def SetLogin_def startRefreshLoop_def on_conn_def Let_def exp JWTExp_def refresh_Start_def
        DropOtherAccounts_def dial_with_def split: option.splits if_splits)
qed

text \<open>A login whose credentials cannot be written reports a failure, but has switched the account already: the
  subjects bear the new account, and the connection and the refresh loop are still those of the old one.\<close>

lemma failed_login_switches_account:
  assumes "ae_Exchange E url key account = AuthBody (Inr x)" and "ae_UUID E (xr_AccountID x)" and "ae_Persist E = Some t"
  shows "let (r, d', _) = handleLogin E url key account d
    in r = Inl \<lparr>Code = ''E_INTERNAL'', Message = t\<rparr> \<and> st_accountID (ld_State d') = xr_AccountID x
      \<and> ld_Conn d' = ld_Conn d \<and> ld_credsFile d' = ld_credsFile d"
  using assms by (simp add: handleLogin_def SetLogin_def Let_def)

section \<open>Recovery gives up only when the server refuses\<close>

definition refused :: "auth_env \<Rightarrow> credentials \<Rightarrow> bool" where
  "refused E cr \<longleftrightarrow>
     (\<exists>acc code st_line. ae_Exchange E (cr_URL cr) (cr_APIKey cr) acc = AuthStatus code st_line \<and> (code = 401 \<or> code = 403))"

lemma refusedI:
  "ae_Exchange E (cr_URL cr) (cr_APIKey cr) acc = AuthStatus 401 st_line \<Longrightarrow> refused E cr"
  "ae_Exchange E (cr_URL cr) (cr_APIKey cr) acc = AuthStatus 403 st_line \<Longrightarrow> refused E cr"
  unfolding refused_def by blast+

lemma code_differs: "Code (New_err EServerUnreachable) \<noteq> EInvalidAPIKey" "Code (New_err ENATSUnreachable) \<noteq> EInvalidAPIKey"
  "Code (New_err ECredentialTooLarge) \<noteq> EInvalidAPIKey" "Code (New_err EServerUnreachable) \<noteq> ENotLoggedIn"
  "Code (New_err ENATSUnreachable) \<noteq> ENotLoggedIn" "Code (New_err ECredentialTooLarge) \<noteq> ENotLoggedIn"
  by code_simp+

lemma refresh_unauthorized:
  assumes "refresh_daemon E r d = (Some ErrUnauthorized, d1)" and cr: "cl_Creds (ld_Client d) = Some cr"
  shows "refused E cr"
proof -
  define ans where "ans = ae_Exchange E (cr_URL cr) (cr_APIKey cr) (st_accountID (ld_State d))"
  have "fst (refresh_end E cr ans d) = Inl ErrUnauthorized"
    using assms(1) cr
    by (auto simp: refresh_daemon_def authExchangeRefresh_def refresh_begin_def refresh_apply_def refreshNow_def ans_def Let_def
        split: prod.splits sum.splits)
  then have "\<exists>st_line. ans = AuthStatus 401 st_line"
    by (auto simp: refresh_end_def split: auth_answer.splits sum.splits if_splits)
  then show ?thesis unfolding ans_def by (auto intro: refusedI)
qed

lemma creds_kept_ensure_loop [simp]: "cl_Creds (ld_Client (ensureRefreshLoopFromCreds cr now d)) = cl_Creds (ld_Client d)"
  by (simp add: ensureRefreshLoopFromCreds_def startRefreshLoop_def on_conn_def)

lemma bootstrap_terminal:
  assumes "bootstrapNATS E cr d = (Some (Inr e), d1)" "Code e = EInvalidAPIKey \<or> Code e = ENotLoggedIn" "cl_Creds (ld_Client d) = Some cr"
  shows "refused E cr"
proof (cases "fst (refresh_if_due E (ensureRefreshLoopFromCreds cr (ae_Now E) d))")
  case None
  then show ?thesis
    using assms(1,2) code_differs
    by (auto simp: bootstrapNATS_def cold_exchange_def Let_def intro: refusedI split: prod.splits option.splits auth_answer.splits sum.splits if_splits)
next
  case (Some e')
  then have "e' = e" using assms(1) by (auto simp: bootstrapNATS_def split: prod.splits option.splits)
  let ?d = "ensureRefreshLoopFromCreds cr (ae_Now E) d"
  obtain r d2 where "refresh_daemon E r ?d = (Some ErrUnauthorized, d2)"
    using Some \<open>e' = e\<close> assms(2) code_differs
    by (auto simp: refresh_if_due_def split: option.splits if_splits prod.splits)
  from refresh_unauthorized [OF this] assms(3) show ?thesis by simp
qed

text \<open>The recovery loop gives up on a daemon with credentials only when the server has refused its key: whatever
  state the daemon restarts in, an attempt to connect reports an invalid key or a missing login only after an
  answer 401 or 403, while failures of the server, the broker, the disk or the reply are retried.\<close>

theorem recovery_gives_up_only_when_refused:
  assumes cr: "cl_Creds (ld_Client d) = Some cr"
    and "attempt_end \<lparr>at_creds = True, at_err = fst (ensureNATS E d), at_connected = connected, at_ctx_done = stop\<rparr> = Some Refused"
  shows "refused E cr"
proof -
  obtain e where e: "fst (ensureNATS E d) = Some (Inr e)" "Code e = EInvalidAPIKey \<or> Code e = ENotLoggedIn"
    using assms(2) by (auto simp: attempt_end_def split: if_splits option.splits sum.splits)
  have "natsDialError t \<noteq> e" for t using e(2) code_differs by (auto simp: natsDialError_def split: option.splits if_splits)
  then have "fst (rebuildNC id_text now caller dial id st) \<noteq> Some e" for id_text now caller dial st
    by (auto simp: rebuildNC_def Let_def split: sum.split)
  then obtain d1 where "bootstrapNATS E cr d = (Some (Inr e), d1)"
    using e(1) cr by (auto simp: ensureNATS_def split: prod.splits option.splits) (metis fst_conv)
  from bootstrap_terminal [OF this e(2) assms(1)] show ?thesis .
qed

section \<open>Examples\<close>

definition ex_reply :: "string \<Rightarrow> exchange_reply" where
  "ex_reply a =
     \<lparr>xr_NATSURL = ''nats://h'', xr_AccountID = a, xr_AccountName = ''a'', xr_ExpiresAt = 300, xr_ACLEnforced = False,
      xr_NATSUserJWT = ''j-'' @ a, xr_NATSUserSeed = ''s''\<rparr>"

definition ex_auth :: auth_env where
  "ex_auth =
     \<lparr>ae_Exchange = (\<lambda>url key acc. AuthBody (Inr (ex_reply (if acc = '''' then ''acct'' else acc)))), ae_UUID = (\<lambda>s. s \<noteq> ''''),
      ae_Quote = id, ae_Override = '''', ae_Persist = None, ae_Dial1 = Inr 1, ae_Dial2 = Inr 2, ae_Now = 0, ae_ID = (\<lambda>_. ''0x1'')\<rparr>"

definition ex_out :: login_daemon where
  "ex_out =
     \<lparr>ld_Client = \<lparr>cl_List = (\<lparr>st_creds = False, st_accountID = '''', st_current = Map.empty, st_currentNamespace = Map.empty,
          st_knownPipes = {}, st_handleManifold = Map.empty\<rparr>, None), cl_Creds = None, cl_accountName = '''', cl_keyPrefix = '''',
        cl_loginCheck = '''', cl_Subs = (\<lambda>_. []), cl_Sent = []\<rparr>,
      ld_credsFile = None, ld_Conn = ex_conn_state\<lparr>cx_NC := None, cx_NATSURL := '''', cx_Refresh := None\<rparr>, ld_aclEnforced = False,
      ld_Heartbeats = Map.empty, ld_lastRefreshErr = ('''', 0)\<rparr>"

definition ex_files :: state_files where
  "ex_files = \<lparr>sf_creds_err = None, sf_current = Inr Map.empty, sf_namespace = Inr Map.empty, sf_legacy = ''''\<rparr>"

lemma ex_works: "works (drop 2) ex_auth"
  by (auto simp: works_def server_mints_def ex_auth_def ex_reply_def)

lemma ex_logged_out: "login_inv (drop 2) ex_out"
  by (simp add: login_inv_def logged_out_def ex_out_def)

definition ex_in :: login_daemon where
  "ex_in = fst (snd (handleLogin ex_auth ''http://h'' ''k'' '''' ex_out))"

lemma ex_in_login: "handleLogin ex_auth ''http://h'' ''k'' '''' ex_out = (Inr (''http://h'', ''k'', ''acct''), ex_in, False)"
  by (simp add: ex_in_def handleLogin_def SetLogin_def ex_auth_def ex_reply_def keyPrefix_def has_prefix_def Let_def)

lemma ex_in_fields: "cl_Creds (ld_Client ex_in) =
    Some \<lparr>cr_URL = ''http://h'', cr_APIKey = ''k'', cr_AccountID = ''acct'', cr_AccountName = ''a'', cr_NATSUserJWT = ''j-acct'', cr_NATSUserSeed = ''s''\<rparr>"
  "cx_NC (ld_Conn ex_in) = Some 2"
  by (simp_all add: ex_in_def handleLogin_def SetLogin_def ex_auth_def ex_reply_def startRefreshLoop_def on_conn_def Let_def)

theorem connection_in_account_witness:
  "cx_NC (ld_Conn (foldl login_step ex_out [Login ex_auth ''http://h'' ''k'' ''''])) = Some 2
   \<and> drop 2 (cx_cred (ld_Conn (foldl login_step ex_out [Login ex_auth ''http://h'' ''k'' ''''])) 2)
     = st_accountID (ld_State (foldl login_step ex_out [Login ex_auth ''http://h'' ''k'' '''']))"
  using connection_in_account [OF ex_logged_out, of "[Login ex_auth ''http://h'' ''k'' '''']"] ex_works ex_in_fields(2)
  by (simp add: ex_in_def)

theorem login_switches_account_witness: "st_accountID (ld_State ex_in) = ''acct'' \<and> cx_ncExp (ld_Conn ex_in) = 300"
  using login_switches_account [OF ex_in_login] ex_in_fields(2) by (auto simp: ex_auth_def ex_reply_def)

theorem refresh_undoes_logout_witness:
  "let out = snd (watchState_round ex_auth ex_files (Logout_files ex_in));
       d1 = snd (refresh_end ex_auth (the (cl_Creds (ld_Client ex_in))) (AuthBody (Inr (ex_reply ''acct''))) out)
   in cl_Creds (ld_Client out) = None \<and> cl_Creds (ld_Client d1) \<noteq> None"
proof -
  have "st_accountID (ld_State ex_in) = ''acct''"
    by (simp add: ex_in_def handleLogin_def SetLogin_def ex_auth_def ex_reply_def startRefreshLoop_def on_conn_def Let_def)
  then have b: "refresh_begin ex_auth ex_in = Inr (the (cl_Creds (ld_Client ex_in)), AuthBody (Inr (ex_reply ''acct'')))"
    by (simp add: refresh_begin_def ex_in_fields ex_auth_def)
  show ?thesis
    using refresh_undoes_logout [OF b, of ex_files Map.empty Map.empty ex_auth "''http://h''" "''k2''" "''team''" "ex_reply ''team''" 2]
    by (simp add: ex_files_def Let_def) (simp add: ex_auth_def ex_reply_def)
qed

theorem recovery_gives_up_only_when_refused_witness:
  "refused (ex_auth\<lparr>ae_Exchange := \<lambda>url key acc. AuthStatus 401 ''401 Unauthorized''\<rparr>) (the (cl_Creds (ld_Client ex_in)))"
proof -
  let ?E = "ex_auth\<lparr>ae_Exchange := \<lambda>url key acc. AuthStatus 401 ''401 Unauthorized'', ae_Now := unix_time 300\<rparr>"
  have due: "\<not> unix_time 300 < fire_at (refresh_Start j s 300 0)" for j s by code_simp
  have r: "cx_Refresh (ld_Conn ex_in) = Some (refresh_Start ''j-acct'' ''s'' 300 0)"
    by (simp add: ex_in_def handleLogin_def SetLogin_def ex_auth_def ex_reply_def startRefreshLoop_def on_conn_def Let_def)
  have "fst (ensureNATS ?E ex_in) = Some (Inr (New_err EInvalidAPIKey))"
    using due r
    by (simp add: ensureNATS_def ex_in_fields bootstrapNATS_def ensureRefreshLoopFromCreds_def refresh_if_due_def refresh_daemon_def
        authExchangeRefresh_def refresh_begin_def refresh_end_def refresh_apply_def refreshNow_def Let_def)
  moreover have "Code (New_err EInvalidAPIKey) = EInvalidAPIKey" by code_simp
  ultimately have "refused ?E (the (cl_Creds (ld_Client ex_in)))"
    by (intro recovery_gives_up_only_when_refused [of ex_in _ ?E False False]) (simp_all add: attempt_end_def ex_in_fields)
  then show ?thesis by (simp add: refused_def)
qed

end
