(* ===== verification/AuthComposition.thy ===== *)
theory AuthComposition
  imports ServerAuth DaemonLogin
begin

text \<open>
  The daemon's logins against the server's exchange: \<open>DaemonLogin\<close> takes the answers of the server as a function, and
  here that function is \<open>handleAuthExchange\<close> of \<open>ServerAuth\<close> on whatever tables, tokens and streams the
  server has at that time.
\<close>

text \<open>What the daemon makes of the response: the decoded body of a success, the status and text of a refusal.\<close>

definition server_answer :: "exchange_env \<Rightarrow> server_world \<Rightarrow> oauthtoken list \<Rightarrow> string \<Rightarrow> string \<Rightarrow> auth_answer" where
  "server_answer X W tokens key acc =
     (case fst (handleAuthExchange X (Some \<lparr>xq_APIKey = key, xq_AccountID = acc\<rparr>) W tokens) of
        Inl e \<Rightarrow> AuthStatus (nat (HTTPStatus (Code e))) (Message e)
      | Inr r \<Rightarrow> AuthBody (Inr \<lparr>xr_NATSURL = xp_NATSURL r, xr_AccountID = xp_AccountID r, xr_AccountName = xp_AccountName r,
           xr_ExpiresAt = Unix (xp_ExpiresAt r), xr_ACLEnforced = xp_ACLEnforced r, xr_NATSUserJWT = xp_NATSUserJWT r,
           xr_NATSUserSeed = xp_NATSUserSeed r\<rparr>))"

text \<open>
  What is relied on: a credential bears the name it was minted with, so that \<open>minted\<close> can read the account off it; the
  canonical text of an account id parses to itself; the credential file can be written.
\<close>

definition served :: "(string \<Rightarrow> string) \<Rightarrow> auth_env \<Rightarrow> bool" where
  "served minted E \<longleftrightarrow> ae_Persist E = None \<and> \<not> ae_UUID E '''' \<and>
     (\<exists>X W tokens. ae_Exchange E = (\<lambda>url. server_answer X W tokens)
        \<and> (\<forall>pub a perms e j s. xe_mint X pub (''ppz-user-'' @ a) perms e = Inr (j, s) \<longrightarrow> minted j = a)
        \<and> (\<forall>j. xe_parse X (minted j) = Some (minted j)))"

lemma served_works:
  assumes "served minted E"
  shows "works minted E"
proof -
  obtain X W tokens where X: "ae_Exchange E = (\<lambda>url. server_answer X W tokens)"
    "\<And>pub a perms e j s. xe_mint X pub (''ppz-user-'' @ a) perms e = Inr (j, s) \<Longrightarrow> minted j = a"
    "\<And>j. xe_parse X (minted j) = Some (minted j)"
    using assms unfolding served_def by blast
  have "minted (xr_NATSUserJWT x) = xr_AccountID x \<and> (acc \<noteq> '''' \<and> acc \<in> range minted \<longrightarrow> xr_AccountID x = acc)"
    if q: "ae_Exchange E url key acc = AuthBody (Inr x)" for url key acc x
  proof -
    let ?req = "\<lparr>xq_APIKey = key, xq_AccountID = acc\<rparr>"
    obtain r where r: "fst (handleAuthExchange X (Some ?req) W tokens) = Inr r"
      "xr_NATSUserJWT x = xp_NATSUserJWT r" "xr_AccountID x = xp_AccountID r"
      using q X(1) by (auto simp: server_answer_def split: sum.splits)
    obtain W' tokens' where h: "handleAuthExchange X (Some ?req) W tokens = (Inr r, W', tokens')"
      using r(1) by (metis prod.collapse)
    obtain p and oa :: orgaccount and perms where s: "exchange_credential X ?req (aw_db W) tokens = (Inr (xp_AccountID r, p), tokens')"
      "xe_mint X (oa_AccountPub oa) (''ppz-user-'' @ xp_AccountID r) perms (Unix (xe_now X + exchange_ttl X))
        = Inr (xp_NATSUserJWT r, xp_NATSUserSeed r)"
      using exchange_steps [OF h] by blast
    have "acc \<noteq> '''' \<longrightarrow> acc = xp_AccountID r \<or> xe_parse X acc = Some (xp_AccountID r)"
      using exchange_credential_presents [OF s(1)] by simp
    then show ?thesis using X(2) [OF s(2)] X(3) r(2,3) by auto
  qed
  then show ?thesis using assms by (auto simp: works_def server_mints_def served_def)
qed

fun event_served :: "(string \<Rightarrow> string) \<Rightarrow> login_event \<Rightarrow> bool" where
  "event_served minted (Login E url key account) = served minted E"
| "event_served minted (Rotate E) = served minted E"
| "event_served minted (Ensure E) = served minted E"
| "event_served minted _ = True"

lemma event_served_works: "event_served minted ev \<Longrightarrow> event_works minted ev"
  by (cases ev) (auto intro: served_works)


definition ex_daemon_auth :: auth_env where
  "ex_daemon_auth =
     \<lparr>ae_Exchange = (\<lambda>url. server_answer ex_exchange (ex_server ex_auth_db) []), ae_UUID = (\<lambda>s. s \<noteq> ''''),
      ae_Quote = id, ae_Override = '''', ae_Persist = None, ae_Dial1 = Inr 1, ae_Dial2 = Inr 2, ae_Now = 0, ae_ID = (\<lambda>_. ''0x1'')\<rparr>"

lemma ex_served: "served (drop 9) ex_daemon_auth"
  unfolding served_def
  by (intro conjI exI [of _ ex_exchange] exI [of _ "ex_server ex_auth_db"] exI [of _ "[]"])
    (simp_all add: ex_daemon_auth_def ex_exchange_def)

lemma ex_minted_body:
  "\<exists>x. server_answer ex_exchange (ex_server ex_auth_db) [] ''ppz_12345678'' '''' = AuthBody (Inr x) \<and> xr_AccountID x = ''a1''
     \<and> xr_NATSUserJWT x = ''ppz-user-a1''"
proof -
  have c: "exchange_credential ex_exchange \<lparr>xq_APIKey = ''ppz_12345678'', xq_AccountID = ''''\<rparr> ex_auth_db [] = (Inr (''a1'', ''u2''), [])"
    using ex_key_found by (simp add: exchange_credential_def bearerPrefixOAuth_def has_prefix_def ex_key_def Actor_def uuid_nil_def)
  have e: "ACLEnforced None ''a1'' ex_auth_db = Inr False" by (simp add: ACLEnforced_def ex_auth_db_def ex_flow_db_def)
  show ?thesis using c e
    by (simp add: server_answer_def handleAuthExchange_def ex_server_def Get_def GetAccount_def ex_auth_db_def ex_flow_db_def
        natsPermissionsFor_def Let_def ex_exchange_def account.defs)
qed


end
