(* ===== verification/WebChatProps.thy ===== *)
theory WebChatProps
  imports WebChat PipeProps
begin

text \<open>
  What the web chat guarantees: whom a message can come from, that a message that was sent is shown, and that
  opening a window clears its badge.
\<close>

section \<open>Worlds\<close>

lemma with_server_simps [simp]:
  "cw_srv (with_server C W) = W" "cw_cursors (with_server C W) = cw_cursors C"
  by (simp_all add: with_server_def)

lemma with_server_content:
  "set (js_Msgs (cw_content (with_server C W) pub name)) \<subseteq> set (js_Msgs (cw_content C pub name))"
  by (simp add: with_server_def empty_stream_def)

lemma js_Stream_same_server [simp]: "js_Stream E (with_server C (cw_srv C)) js name = js_Stream E C js name"
  by (simp add: js_Stream_def with_server_def)

lemma GetSourceByHandle_row:
  "GetSourceByHandle flt acct h D = Inr src \<Longrightarrow> src \<in> set (sources D) \<and> src_AccountID src = acct \<and> src_Handle src = h"
  by (auto simp: GetSourceByHandle_def query_row_def no_rows_not_found_def split: option.splits dest: find_SomeD)

lemma chat_js_JSFor:
  "chat_JSFor E acct C = (Inr js, C') \<longleftrightarrow> chat_js E acct C = (Some js, C')"
  by (auto simp: chat_js_def split: prod.split sum.split)

lemma chat_js_world:
  assumes "chat_js E acct C = (js, C')"
  shows "\<exists>W. C' = with_server C W \<and> nats_only (chat_db C) (aw_db W)"
proof -
  obtain r W where run: "JSFor (pool_faults (ch_op E)) (oe_mint (ch_op E)) acct (cw_srv C) = (r, W)" by force
  have "nats_only (chat_db C) (aw_db W)"
    using run Get_nats_only [of "cw_srv C" "pool_faults (ch_op E)" "oe_mint (ch_op E)" acct]
    by (auto simp: JSFor_def split: prod.splits sum.splits)
  with assms run show ?thesis
    by (auto simp: chat_js_def chat_JSFor_def split: sum.splits)
qed

text \<open>An account that was opened stays open: asking again answers the same and changes nothing.\<close>

lemma chat_js_again:
  assumes "chat_js E acct C = (Some js, C1)"
    and "cw_srv C2 = cw_srv C1"
  shows "chat_js E' acct C2 = (Some js, with_server C2 (cw_srv C2))"
proof -
  have "JSFor (pool_faults (ch_op E)) (oe_mint (ch_op E)) acct (cw_srv C) = (Inr js, cw_srv C1)"
    using assms(1) by (auto simp: chat_js_def chat_JSFor_def split: prod.splits sum.splits)
  from JSFor_pool [OF this] obtain oa :: orgaccount where "aw_pool (cw_srv C1) acct = Some oa" "oa_AccountPub oa = js"
    by blast
  with assms(2) show ?thesis
    by (simp add: chat_js_def chat_JSFor_def JSFor_warm)
qed

section \<open>Who sends\<close>

lemma deliver_new:
  assumes "m \<in> set (js_Msgs (cw_content (deliver js subject env C) pub name))"
    and "m \<notin> set (js_Msgs (cw_content C pub name))"
  shows "jm_env m = Some env \<and> (\<exists>cfg. aw_streams (cw_srv C) pub name = Some cfg \<and> subject \<in> set (cf_Subjects cfg))"
  using assms by (auto simp: deliver_def append_msg_def split: if_splits option.splits)

lemma deliver_server [simp]: "cw_srv (deliver js subject env C) = cw_srv C"
  by (simp add: deliver_def)

lemma send_run:
  assumes "handleGUIChatSend E r C = (a, C')"
  shows "((\<exists>st t. a = reply.Refused st t) \<and> (C' = C \<or> (\<exists>W. C' = with_server C W))) \<or>
    (\<exists>req org src subject sn js C1 env.
       r = Inr req \<and> chat_org E C = Inr org \<and> sq_Payload req \<noteq> '''' \<and> RuneCount (sq_Payload req) \<le> maxChatPayload \<and>
       GetSourceByHandle (ch_faults E CS_Acting) (acct_ID org) (sq_As req) (chat_db C) = Inr src \<and>
       messageHandleOwnedBy src (session_user E) \<and> sq_As req \<noteq> '''' \<and>
       resolveChatWindowDB E org (sq_Kind req) (sq_Target req) C = Inr (subject, sn) \<and>
       chat_js E (acct_ID org) C = (Some js, C1) \<and> env = New_envelope (ch_msgID E) (sq_As req) '''' (sq_Payload req) (ch_now E) \<and>
       a = Replied 200 (chatView env (sq_As req)) \<and> C' = deliver js subject env C1)"
proof -
  have world: "\<exists>W. C1 = with_server C W" if "chat_JSFor E acct C = (x, C1)" for acct x C1
    using that by (auto simp: chat_JSFor_def split: prod.splits)
  show ?thesis
    using assms unfolding handleGUIChatSend_def
    by (simp only: split: sum.splits if_splits prod.splits option.splits)
       (auto simp: Let_def chat_js_JSFor [symmetric] split: option.splits dest: world)
qed

text \<open>C20: Whatever a chat request that sends a message adds to a stream was typed as a message source that the user of
  the session created in an organisation he belongs to, carries the text of the request, which is neither empty nor
  longer than 2000 characters, and went to the subject of an existing window of that organisation.\<close>

theorem chat_sender_owned:
  assumes "handleGUIChatSend E r C = (a, C')"
    and "m \<in> set (js_Msgs (cw_content C' pub name))" and "m \<notin> set (js_Msgs (cw_content C pub name))"
  shows "\<exists>req org src env subject sn cfg.
    r = Inr req \<and> jm_env m = Some env \<and> en_Sender env = sq_As req \<and> en_Payload env = sq_Payload req \<and>
    en_Payload env \<noteq> '''' \<and> RuneCount (en_Payload env) \<le> 2000 \<and> chat_org E C = Inr org \<and>
    src \<in> set (sources (chat_db C)) \<and> src_AccountID src = acct_ID org \<and> src_Handle src = en_Sender env \<and>
    src_Kind src = SourceKindMessage \<and> src_CreatedByUserID src = session_user E \<and>
    resolveChatWindowDB E org (sq_Kind req) (sq_Target req) C = Inr (subject, sn) \<and>
    aw_streams (cw_srv C') pub name = Some cfg \<and> subject \<in> set (cf_Subjects cfg)"
proof -
  have "C' \<noteq> C" "C' \<noteq> with_server C W" for W
    using assms(2,3) with_server_content [of C W pub name] by auto
  with send_run [OF assms(1)] obtain req org src subject sn js C1 env where run:
      "r = Inr req" "chat_org E C = Inr org" "sq_Payload req \<noteq> ''''" "RuneCount (sq_Payload req) \<le> maxChatPayload"
      "GetSourceByHandle (ch_faults E CS_Acting) (acct_ID org) (sq_As req) (chat_db C) = Inr src"
      "messageHandleOwnedBy src (session_user E)" "resolveChatWindowDB E org (sq_Kind req) (sq_Target req) C = Inr (subject, sn)"
      "chat_js E (acct_ID org) C = (Some js, C1)" "env = New_envelope (ch_msgID E) (sq_As req) '''' (sq_Payload req) (ch_now E)"
      "C' = deliver js subject env C1"
    by blast
  have "m \<notin> set (js_Msgs (cw_content C1 pub name))"
    using assms(3) chat_js_world [OF run(8)] with_server_content by blast
  from deliver_new [OF assms(2) [unfolded run(10)] this] run GetSourceByHandle_row [OF run(5)] show ?thesis
    by (auto simp: New_envelope_def messageHandleOwnedBy_def maxChatPayload_def)
qed

section \<open>Opening a window clears its badge\<close>

definition cursors_ok :: "chat_world \<Rightarrow> bool" where
  "cursors_ok C \<longleftrightarrow> distinct (map cursor_key (cw_cursors C)) \<and>
     (\<forall>r \<in> set (cw_cursors C). zero_byte \<notin> set (cc_Kind r @ cc_Acting r @ cc_Target r))"

lemma ChatCursorKey_split:
  assumes "zero_byte \<notin> set (k @ a @ t)"
  shows "split_on zero_byte (ChatCursorKey k a t) = [k, a, t]"
proof -
  have n: "zero_byte \<notin> set k" "zero_byte \<notin> set a" "zero_byte \<notin> set t" using assms by simp_all
  show ?thesis
    unfolding ChatCursorKey_def append_Cons append_Nil
    by (simp only: split_on_append_sep [OF n(1)] split_on_append_sep [OF n(2)] split_on_no_sep [OF n(3)])
qed

lemma ChatCursorKey_inj:
  assumes "zero_byte \<notin> set (k @ a @ t)" "zero_byte \<notin> set (k' @ a' @ t')" "ChatCursorKey k a t = ChatCursorKey k' a' t'"
  shows "k = k' \<and> a = a' \<and> t = t'"
proof -
  have "[k, a, t] = [k', a', t']"
    using ChatCursorKey_split [OF assms(1)] ChatCursorKey_split [OF assms(2)] unfolding assms(3) by (rule trans [OF sym])
  then show ?thesis by (simp only: list.inject simp_thms)
qed

definition touched :: "uuid \<times> uuid \<times> string \<times> string \<times> string \<Rightarrow> int \<Rightarrow> instant \<Rightarrow> chat_cursor \<Rightarrow> chat_cursor" where
  "touched k n now r =
     (if cursor_key r = k then r\<lparr>cc_LastReadSeq := max (cc_LastReadSeq r) n, cc_UpdatedAt := now\<rparr> else r)"

lemma touched_fields:
  "cursor_key (touched k n now r) = cursor_key r" "cc_Kind (touched k n now r) = cc_Kind r"
  "cc_Acting (touched k n now r) = cc_Acting r" "cc_Target (touched k n now r) = cc_Target r"
  "cursor_key r = k \<Longrightarrow> n \<le> cc_LastReadSeq (touched k n now r)"
  by (simp_all add: touched_def cursor_key_def)

lemma upsert_updates:
  assumes "UpsertChatReadCursor flt now acct u kind as target n C = (e, C')"
  shows "e \<noteq> None \<and> C' = C \<or>
    zero_byte \<notin> set (kind @ as @ target) \<and>
    ((\<exists>r \<in> set (cw_cursors C). cursor_key r = (acct, u, kind, as, target)) \<and>
      C' = C\<lparr>cw_cursors := map (touched (acct, u, kind, as, target) n now) (cw_cursors C)\<rparr> \<or>
     (acct, u, kind, as, target) \<notin> cursor_key ` set (cw_cursors C) \<and>
      C' = C\<lparr>cw_cursors := cw_cursors C @ [\<lparr>cc_AccountID = acct, cc_UserID = u, cc_Kind = kind, cc_Acting = as,
               cc_Target = target, cc_LastReadSeq = n, cc_UpdatedAt = now\<rparr>]\<rparr>)"
proof (cases "flt = None \<and> zero_byte \<notin> set (kind @ as @ target)")
  case False
  then show ?thesis using assms by (cases flt) (simp_all only: UpsertChatReadCursor_def Let_def option.case if_True prod.inject, auto)
next
  case True
  have t: "touched k n now = (\<lambda>r. if cursor_key r = k then r\<lparr>cc_LastReadSeq := max (cc_LastReadSeq r) n, cc_UpdatedAt := now\<rparr> else r)" for k
    by (rule ext) (simp add: touched_def)
  show ?thesis
  proof (cases "list_ex (\<lambda>r. cursor_key r = (acct, u, kind, as, target)) (cw_cursors C)")
    case ex: True
    then have "C' = C\<lparr>cw_cursors := map (touched (acct, u, kind, as, target) n now) (cw_cursors C)\<rparr>"
      using assms True by (simp add: UpsertChatReadCursor_def Let_def t)
    with ex True show ?thesis unfolding list_ex_iff by blast
  next
    case no: False
    then have "(acct, u, kind, as, target) \<notin> cursor_key ` set (cw_cursors C)" unfolding list_ex_iff by auto
    with no assms True show ?thesis
      by (auto simp: UpsertChatReadCursor_def Let_def split: if_splits)
  qed
qed

lemma upsert_keeps:
  assumes "UpsertChatReadCursor flt now acct u kind as target n C = (e, C')"
  shows "cw_srv C' = cw_srv C" and "cw_content C' = cw_content C"
  using upsert_updates [OF assms] by auto

lemma upsert_ok:
  assumes "UpsertChatReadCursor flt now acct u kind as target n C = (e, C')" and "cursors_ok C"
  shows "cursors_ok C'"
proof -
  have keys: "map (cursor_key \<circ> touched k n now) rs = map cursor_key rs" for k rs
    by (simp add: touched_fields comp_def)
  from upsert_updates [OF assms(1)] show ?thesis
    using assms(2) by (auto simp: cursors_ok_def keys touched_fields cursor_key_def)
qed

lemma upsert_moves:
  assumes "UpsertChatReadCursor flt now acct u kind as target n C = (None, C')"
  shows "\<exists>r \<in> set (cw_cursors C'). cursor_key r = (acct, u, kind, as, target) \<and> n \<le> cc_LastReadSeq r"
  using upsert_updates [OF assms]
proof (elim disjE conjE bexE)
  fix r
  assume r: "r \<in> set (cw_cursors C)" "cursor_key r = (acct, u, kind, as, target)"
    and C': "C' = C\<lparr>cw_cursors := map (touched (acct, u, kind, as, target) n now) (cw_cursors C)\<rparr>"
  show ?thesis
  proof (rule bexI)
    show "cursor_key (touched (acct, u, kind, as, target) n now r) = (acct, u, kind, as, target) \<and>
        n \<le> cc_LastReadSeq (touched (acct, u, kind, as, target) n now r)"
      using touched_fields(1) r(2) touched_fields(5) [OF r(2)] by (simp only:)
    show "touched (acct, u, kind, as, target) n now r \<in> set (cw_cursors C')"
      unfolding C' using r(1) by simp
  qed
qed (simp_all add: cursor_key_def)

lemma cursor_lookup:
  assumes "cursors_ok C" and "r \<in> set (cw_cursors C)" and "ListChatReadCursors flt (cc_AccountID r) (cc_UserID r) C = Inr cs"
  shows "cs (ChatCursorKey (cc_Kind r) (cc_Acting r) (cc_Target r)) = Some (cc_LastReadSeq r)"
proof -
  let ?mine = "filter (\<lambda>q. cc_AccountID q = cc_AccountID r \<and> cc_UserID q = cc_UserID r) (cw_cursors C)"
  let ?f = "\<lambda>q. (ChatCursorKey (cc_Kind q) (cc_Acting q) (cc_Target q), cc_LastReadSeq q)"
  have keys: "distinct (map cursor_key (cw_cursors C))"
      and clean: "\<forall>q \<in> set (cw_cursors C). zero_byte \<notin> set (cc_Kind q @ cc_Acting q @ cc_Target q)"
    using assms(1) unfolding cursors_ok_def by blast+
  have "inj_on (fst \<circ> ?f) (set ?mine)"
  proof (rule inj_onI)
    fix p q
    assume pq: "p \<in> set ?mine" "q \<in> set ?mine" "(fst \<circ> ?f) p = (fst \<circ> ?f) q"
    then have p: "p \<in> set (cw_cursors C)" "cc_AccountID p = cc_AccountID r" "cc_UserID p = cc_UserID r"
        and q: "q \<in> set (cw_cursors C)" "cc_AccountID q = cc_AccountID r" "cc_UserID q = cc_UserID r"
        and key: "ChatCursorKey (cc_Kind p) (cc_Acting p) (cc_Target p) = ChatCursorKey (cc_Kind q) (cc_Acting q) (cc_Target q)"
      by simp_all
    have "cursor_key p = cursor_key q"
      using ChatCursorKey_inj [OF bspec [OF clean p(1)] bspec [OF clean q(1)] key] p(2,3) q(2,3)
      by (simp only: cursor_key_def)
    then show "p = q" using keys p(1) q(1) unfolding distinct_map by (metis inj_onD)
  qed
  moreover have "distinct ?mine" using keys by (simp add: distinct_map)
  ultimately have "distinct (map fst (rev (map ?f ?mine)))"
    by (simp add: rev_map distinct_map comp_def)
  moreover have "(fst (?f r), snd (?f r)) \<in> set (rev (map ?f ?mine))" using assms(2) by simp
  ultimately have "map_of (rev (map ?f ?mine)) (fst (?f r)) = Some (snd (?f r))"
    by (rule map_of_is_SomeI)
  moreover have "cs = map_of (rev (map ?f ?mine))"
    using assms(3) by (cases flt) (simp_all add: ListChatReadCursors_def)
  ultimately show ?thesis by simp
qed

lemma replay_seqs_bounds:
  "(q, env) \<in> set (replay_seqs E name limit S) \<Longrightarrow> q \<le> js_LastSeq S"
  by (auto simp: replay_seqs_def decoded_at_def List.map_filter_def split: if_splits option.splits)

lemma gather_run:
  assumes "gatherChatRoster E org C = (Inr roster, C')"
  shows "\<exists>js srcs ps. chat_js E (acct_ID org) C = (js, C') \<and>
    ListUncollaredPipesForAccount (ch_faults E CS_Pipes) (acct_ID org) (chat_db C) = Inr ps \<and>
    roster = buildChatRoster (map (source_input E C' (acct_ID org) js) srcs)
      (map (\<lambda>p. \<lparr>cp_Manifold = pp_Manifold p, cp_Name = pp_Name p\<rparr>) ps) (ch_now E)"
  using assms by (auto simp: gatherChatRoster_def Let_def split: sum.splits prod.splits)

lemma fresh_roster:
  "e \<in> set (cr_Agents (buildChatRoster srcs ps now)) \<Longrightarrow> ce_Unread e = 0"
  "e \<in> set (cr_Inboxes (buildChatRoster srcs ps now)) \<Longrightarrow> ce_Unread e = 0"
  "e \<in> set (cr_Pipes (buildChatRoster srcs ps now)) \<Longrightarrow> ce_Unread e = 0 \<and> (\<exists>p \<in> set ps. e = pipe_entry p)"
  by (auto simp: buildChatRoster_def agent_entry_def inbox_entry_def pipe_entry_def Let_def)

lemma excludeHandle_parts:
  "set (cr_Agents (excludeHandle h r)) \<subseteq> set (cr_Agents r)" "set (cr_Inboxes (excludeHandle h r)) \<subseteq> set (cr_Inboxes r)"
  "cr_Pipes (excludeHandle h r) = cr_Pipes r"
  by (auto simp: excludeHandle_def)

lemma stamp_run:
  assumes "stampUnread E org u as r C = (r', C')"
  shows "r' = r \<or> (\<exists>cs js. ListChatReadCursors (ch_faults E CS_Cursors) (acct_ID org) u C = Inr cs \<and>
    chat_js E (acct_ID org) C = (Some js, C') \<and>
    cr_Pipes r' = map (\<lambda>e. e\<lparr>ce_Unread := unreadCount
        (streamLastSeq E C' (Some js) (BuildStreamName (acct_ID org) (ce_Namespace e) '''' (ce_Label e)))
        (or_zero_seq (cs (ChatCursorKey ''pipe'' as (ce_Target e))))\<rparr>) (cr_Pipes r) \<and>
    (as \<noteq> '''' \<longrightarrow> cr_Agents r' @ cr_Inboxes r' = map (\<lambda>e. e\<lparr>ce_Unread := countAfter
        (drainInboxBySender E C' (Some js) (BuildStreamName (acct_ID org)
           (handle_manifold (ch_faults E CS_Acting) (acct_ID org) as C') as ''inbox'') (ce_Target e))
        (or_zero_seq (cs (ChatCursorKey ''source'' as (ce_Target e))))\<rparr>) (cr_Agents r @ cr_Inboxes r)))"
  using assms by (auto simp: stampUnread_def Let_def split: if_splits sum.splits prod.splits option.splits)

lemma drained_up_to_last:
  assumes "streamLastSeq E C js name \<le> n"
  shows "countAfter (drainInboxBySender E C js name h) n = 0"
proof -
  have "int q \<le> n" if "q \<in> set (drainInboxBySender E C js name h)" for q
    using that assms replay_seqs_bounds
    by (fastforce simp: drainInboxBySender_def streamLastSeq_def Let_def split: option.splits)
  then have "filter (\<lambda>q. n < int q) (drainInboxBySender E C js name h) = []"
    by (meson filter_False not_less)
  then show ?thesis by (simp add: countAfter_def)
qed

lemma splitManifoldName_target:
  assumes "CHR ''.'' \<notin> set name"
  shows "splitManifoldName (pipe_target manifold name) = (manifold, name)"
  using assms by (simp add: splitManifoldName_def pipe_target_def Let_def split_on_append split_on_no_sep)


lemma resolveOrg_row:
  "\<exists>(f :: account_row \<Rightarrow> string) v. (\<forall>a. f (sans_nats a) = f a) \<and>
     (\<forall>flt D org. resolveOrg flt parse s D = Inr org \<longrightarrow>
        (\<exists>a :: account_row. find (\<lambda>a. f a = v) (accounts D) = Some a \<and> acct_ID org = acct_ID a))"
proof (cases "parse s")
  case None
  have "\<exists>a :: account_row. find (\<lambda>a. acct_Name a = s) (accounts D) = Some a \<and> acct_ID org = acct_ID a"
    if "resolveOrg flt parse s D = Inr org" for flt D org
    using that None
    by (cases flt; cases "find (\<lambda>a. acct_Name a = s) (accounts D)")
       (auto simp: resolveOrg_def GetAccountByName_def account.defs)
  then have main: "(\<forall>a :: account_row. acct_Name (sans_nats a) = acct_Name a) \<and>
      (\<forall>flt D org. resolveOrg flt parse s D = Inr org \<longrightarrow>
         (\<exists>a. find (\<lambda>a. acct_Name a = s) (accounts D) = Some a \<and> acct_ID org = acct_ID a))"
    by (simp add: sans_nats_def)
  show ?thesis by (rule exI, rule exI, rule main)
next
  case (Some i)
  have "\<exists>a :: account_row. find (\<lambda>a. acct_ID a = i) (accounts D) = Some a \<and> acct_ID org = acct_ID a"
    if "resolveOrg flt parse s D = Inr org" for flt D org
    using that Some
    by (cases flt; cases "find (\<lambda>a. acct_ID a = i) (accounts D)")
       (auto simp: resolveOrg_def GetAccount_def account.defs)
  then have main: "(\<forall>a :: account_row. acct_ID (sans_nats a) = acct_ID a) \<and>
      (\<forall>flt D org. resolveOrg flt parse s D = Inr org \<longrightarrow>
         (\<exists>a. find (\<lambda>a. acct_ID a = i) (accounts D) = Some a \<and> acct_ID org = acct_ID a))"
    by (simp add: sans_nats_def)
  show ?thesis by (rule exI, rule exI, rule main)
qed

lemma find_same_id:
  fixes f :: "account_row \<Rightarrow> string"
  assumes "nats_only D D'" and f: "\<And>a. f (sans_nats a) = f a"
    and a: "find (\<lambda>a. f a = v) (accounts D) = Some a" and b: "find (\<lambda>a. f a = v) (accounts D') = Some b"
  shows "acct_ID a = acct_ID b"
proof -
  have look: "map_of (map (\<lambda>a. (f a, acct_ID a)) xs) v = map_option acct_ID (find (\<lambda>a. f a = v) xs)" for xs :: "account_row list"
    by (induction xs) simp_all
  have keep: "acct_ID (sans_nats a) = acct_ID a" for a by (simp add: sans_nats_def)
  have same: "map (\<lambda>a. (f a, acct_ID a)) (accounts D') = map (\<lambda>a. (f a, acct_ID a)) (accounts D)"
    by (rule nats_only_accounts [OF assms(1)]) (simp only: f keep)
  have "Some (acct_ID a) = map_of (map (\<lambda>a. (f a, acct_ID a)) (accounts D)) v"
    unfolding look a by (simp only: option.map)
  also have "\<dots> = map_of (map (\<lambda>a. (f a, acct_ID a)) (accounts D')) v"
    by (simp only: same)
  also have "\<dots> = Some (acct_ID b)"
    unfolding look b by (simp only: option.map)
  finally show ?thesis by (simp only: option.inject)
qed

lemma chat_org_row:
  assumes "chat_org E C = Inr org"
  shows "\<exists>flt. resolveOrg flt (gs_parse (ch_session E)) (gs_org (ch_session E)) (chat_db C) = Inr org"
  using assms by (auto simp: chat_org_def resolveMemberOrg_def lookupOrgAccess_def split: sum.splits if_splits)

lemma chat_org_unique:
  assumes "chat_org E C = Inr org" and "chat_org E' C' = Inr org'" and "ch_session E' = ch_session E"
    and "nats_only (chat_db C) (chat_db C')"
  shows "acct_ID org' = acct_ID org"
proof -
  from resolveOrg_row [of "gs_parse (ch_session E)" "gs_org (ch_session E)"] obtain f :: "account_row \<Rightarrow> string" and v where
      f: "\<forall>a. f (sans_nats a) = f a"
      and row: "\<forall>flt D org. resolveOrg flt (gs_parse (ch_session E)) (gs_org (ch_session E)) D = Inr org \<longrightarrow>
        (\<exists>a :: account_row. find (\<lambda>a. f a = v) (accounts D) = Some a \<and> acct_ID org = acct_ID a)"
    by (elim exE conjE)
  from chat_org_row [OF assms(1)] obtain flt where
      "resolveOrg flt (gs_parse (ch_session E)) (gs_org (ch_session E)) (chat_db C) = Inr org" ..
  from row [rule_format, OF this] obtain a :: account_row where
      a: "find (\<lambda>a. f a = v) (accounts (chat_db C)) = Some a" "acct_ID org = acct_ID a" by (elim exE conjE)
  from chat_org_row [OF assms(2)] obtain flt' where
      "resolveOrg flt' (gs_parse (ch_session E)) (gs_org (ch_session E)) (chat_db C') = Inr org'"
    unfolding assms(3) ..
  from row [rule_format, OF this] obtain b :: account_row where
      b: "find (\<lambda>a. f a = v) (accounts (chat_db C')) = Some b" "acct_ID org' = acct_ID b" by (elim exE conjE)
  show ?thesis using find_same_id [OF assms(4) f [rule_format] a(1) b(1)] a(2) b(2) by (simp only:)
qed

text \<open>Opening the account, the part of a mark that can change anything but the cursors.\<close>

lemma mark_run:
  assumes "handleGUIChatMarkRead E (Inr req) C = (Replied st x, C1)" and "chat_org E C = Inr org"
    and "chat_js E (acct_ID org) C = (Some js, C0)"
  shows "\<exists>win. resolveChatWindow (acct_ID org) (mr_Kind req) (mr_Target req) = Inr win \<and>
    UpsertChatReadCursor (ch_faults E CS_Upsert) (ch_now E) (acct_ID org) (session_user E) (mr_Kind req) (mr_As req)
      (mr_Target req) (streamLastSeq E C0 (Some js) (mark_stream E org win (mr_As req) C0)) C0 = (None, C1)"
  using assms by (auto simp: handleGUIChatMarkRead_def Let_def split: sum.splits prod.splits option.splits)

lemma streamLastSeq_le:
  assumes "\<not> ch_down E name" and "cw_srv C' = cw_srv C" and "\<And>S. js_Stream E C js name = Some S \<Longrightarrow> js_Stream E C' js name = Some S"
  shows "streamLastSeq E' C' (Some js) name \<le> streamLastSeq E C (Some js) name"
proof (cases "js_Stream E C js name")
  case None
  with assms(1,2) have "js_Stream E' C' js name = None" by (auto simp: js_Stream_def split: if_splits)
  with None show ?thesis by (simp add: streamLastSeq_def stream_of_def)
next
  case (Some S)
  with assms(1) assms(3) [OF Some] show ?thesis
    by (auto simp: streamLastSeq_def stream_of_def js_Stream_def split: if_splits option.splits)
qed


lemma roster_run:
  assumes "handleGUIChatRoster E as C = (Replied st (r, n), C')"
  shows "\<exists>org js srcs ps C1. chat_org E C = Inr org \<and> chat_js E (acct_ID org) C = (js, C1) \<and>
    ListUncollaredPipesForAccount (ch_faults E CS_Pipes) (acct_ID org) (chat_db C) = Inr ps \<and>
    stampUnread E org (session_user E) as (excludeHandle as (buildChatRoster (map (source_input E C1 (acct_ID org) js) srcs)
      (map (\<lambda>p. \<lparr>cp_Manifold = pp_Manifold p, cp_Name = pp_Name p\<rparr>) ps) (ch_now E))) C1 = (r, C')"
proof -
  obtain org where org: "chat_org E C = Inr org"
    using assms by (cases "chat_org E C") (auto simp: handleGUIChatRoster_def split: prod.splits)
  obtain g C1 where g: "gatherChatRoster E org C = (g, C1)" by force
  obtain r0 where r0: "g = Inr r0"
    using assms org g by (cases g) (auto simp: handleGUIChatRoster_def)
  have "stampUnread E org (session_user E) as (excludeHandle as r0) C1 = (r, C')"
    using assms by (simp add: handleGUIChatRoster_def org g r0 Let_def split: prod.splits)
  with org gather_run [OF g [unfolded r0]] show ?thesis by blast
qed

text \<open>The stream a mark reads is the one the badge of its window counts.\<close>

lemma pipe_entry_target:
  assumes "resolveChatWindow acct ''pipe'' target = Inr win" and "CHR ''.'' \<notin> set (cp_Name p)"
    and "ce_Target (pipe_entry p) = target"
  shows "wn_Kind win = ''pipe'' \<and> wn_StreamName win = BuildStreamName acct (cp_Manifold p) '''' (cp_Name p)"
  using assms splitManifoldName_target [of "cp_Name p" "cp_Manifold p"]
  by (auto simp: resolveChatWindow_def Let_def pipe_entry_def split: if_splits)

lemma source_window:
  assumes "resolveChatWindow acct kind target = Inr win" and "kind \<noteq> ''pipe''"
  shows "kind = ''source'' \<and> wn_Kind win = ''source''"
  using assms by (auto simp: resolveChatWindow_def Let_def split: if_splits)


lemma open_chat_js:
  assumes "aw_pool (cw_srv C) acct = Some oa"
  shows "chat_js E acct C = (Some (oa_AccountPub oa), with_server C (cw_srv C))"
  using assms by (simp add: chat_js_def chat_JSFor_def JSFor_warm)

lemma chat_js_pool:
  assumes "chat_js E acct C = (Some js, C1)"
  shows "\<exists>oa :: orgaccount. aw_pool (cw_srv C1) acct = Some oa \<and> oa_AccountPub oa = js"
proof -
  have "JSFor (pool_faults (ch_op E)) (oe_mint (ch_op E)) acct (cw_srv C) = (Inr js, cw_srv C1)"
    using assms by (auto simp: chat_js_def chat_JSFor_def split: prod.splits sum.splits)
  from JSFor_pool [OF this] show ?thesis by blast
qed

lemma same_server [simp]:
  "streamLastSeq E (with_server C (cw_srv C)) js name = streamLastSeq E C js name"
  "drainInboxBySender E (with_server C (cw_srv C)) js name = drainInboxBySender E C js name"
  "ListChatReadCursors flt acct u (with_server C W) = ListChatReadCursors flt acct u C"
  "handle_manifold flt acct h (with_server C (cw_srv C)) = handle_manifold flt acct h C"
  by (simp_all add: streamLastSeq_def drainInboxBySender_def stream_of_def ListChatReadCursors_def handle_manifold_def
      cong: option.case_cong)

lemma same_server_twice [simp]:
  "streamLastSeq E (with_server (with_server C (cw_srv C)) (cw_srv C)) js name = streamLastSeq E C js name"
  "drainInboxBySender E (with_server (with_server C (cw_srv C)) (cw_srv C)) js name = drainInboxBySender E C js name"
  "handle_manifold flt acct h (with_server (with_server C (cw_srv C)) (cw_srv C)) = handle_manifold flt acct h C"
  using same_server(1) [of E "with_server C (cw_srv C)" js name] same_server(2) [of E "with_server C (cw_srv C)" js name]
    same_server(4) [of flt acct h "with_server C (cw_srv C)"]
  by (simp_all only: with_server_simps same_server)

text \<open>The badges of the roster of an account that is open.\<close>

lemma roster_badges:
  assumes look: "handleGUIChatRoster E as C = (Replied st (roster, n), C')" and org: "chat_org E C = Inr org"
    and pool: "aw_pool (cw_srv C) (acct_ID org) = Some oa"
  obtains (fresh) "\<forall>e \<in> set (cr_Pipes roster @ cr_Agents roster @ cr_Inboxes roster). ce_Unread e = 0"
  | (stamped) cs where "ListChatReadCursors (ch_faults E CS_Cursors) (acct_ID org) (session_user E) C = Inr cs"
      "\<forall>e \<in> set (cr_Pipes roster). \<exists>p \<in> set (pipes (chat_db C)).
         ce_Target e = pipe_target (pp_Manifold p) (pp_Name p) \<and> ce_Unread e = unreadCount
           (streamLastSeq E C (Some (oa_AccountPub oa)) (BuildStreamName (acct_ID org) (pp_Manifold p) '''' (pp_Name p)))
           (or_zero_seq (cs (ChatCursorKey ''pipe'' as (ce_Target e))))"
      "as \<noteq> '''' \<longrightarrow> (\<forall>e \<in> set (cr_Agents roster @ cr_Inboxes roster). ce_Unread e = countAfter
           (drainInboxBySender E C (Some (oa_AccountPub oa)) (BuildStreamName (acct_ID org)
              (handle_manifold (ch_faults E CS_Acting) (acct_ID org) as C) as ''inbox'') (ce_Target e))
           (or_zero_seq (cs (ChatCursorKey ''source'' as (ce_Target e)))))"
proof -
  let ?D = "with_server C (cw_srv C)"
  obtain org' js srcs ps D where run: "chat_org E C = Inr org'" "chat_js E (acct_ID org') C = (js, D)"
      "ListUncollaredPipesForAccount (ch_faults E CS_Pipes) (acct_ID org') (chat_db C) = Inr ps"
      "stampUnread E org' (session_user E) as (excludeHandle as
         (buildChatRoster (map (source_input E D (acct_ID org') js) srcs)
           (map (\<lambda>p. \<lparr>cp_Manifold = pp_Manifold p, cp_Name = pp_Name p\<rparr>) ps) (ch_now E))) D = (roster, C')"
    using roster_run [OF look] by blast
  have o: "org' = org" "js = Some (oa_AccountPub oa)" "D = ?D"
    using run(1,2) org open_chat_js [OF pool, of E] by simp_all
  have ps: "p \<in> set (pipes (chat_db C))" if "p \<in> set ps" for p
    using that run(3) by (auto simp: ListUncollaredPipesForAccount_def query_def split: option.splits)
  define f where "f = buildChatRoster (map (source_input E D (acct_ID org') js) srcs)
           (map (\<lambda>p. \<lparr>cp_Manifold = pp_Manifold p, cp_Name = pp_Name p\<rparr>) ps) (ch_now E)"
  have f: "\<exists>p \<in> set (pipes (chat_db C)). e = pipe_entry \<lparr>cp_Manifold = pp_Manifold p, cp_Name = pp_Name p\<rparr>"
    if "e \<in> set (cr_Pipes f)" for e
    using fresh_roster(3) [OF that [unfolded f_def]] ps by auto
  have zero: "ce_Unread e = 0" if "e \<in> set (cr_Pipes f @ cr_Agents f @ cr_Inboxes f)" for e
    using that fresh_roster unfolding f_def by auto
  have pool': "aw_pool (cw_srv ?D) (acct_ID org) = Some oa" using pool by simp
  from stamp_run [OF run(4) [folded f_def, unfolded o]] show thesis
  proof (elim disjE exE conjE)
    assume "roster = excludeHandle as f"
    then show thesis
      using zero excludeHandle_parts [of as f] by (intro fresh) (auto simp: subset_iff)
  next
    fix cs js'
    assume s: "ListChatReadCursors (ch_faults E CS_Cursors) (acct_ID org) (session_user E) ?D = Inr cs"
      "chat_js E (acct_ID org) ?D = (Some js', C')"
      "cr_Pipes roster = map (\<lambda>e. e\<lparr>ce_Unread := unreadCount
        (streamLastSeq E C' (Some js') (BuildStreamName (acct_ID org) (ce_Namespace e) '''' (ce_Label e)))
        (or_zero_seq (cs (ChatCursorKey ''pipe'' as (ce_Target e))))\<rparr>) (cr_Pipes (excludeHandle as f))"
      "as \<noteq> '''' \<longrightarrow> cr_Agents roster @ cr_Inboxes roster = map (\<lambda>e. e\<lparr>ce_Unread := countAfter
        (drainInboxBySender E C' (Some js') (BuildStreamName (acct_ID org)
           (handle_manifold (ch_faults E CS_Acting) (acct_ID org) as C') as ''inbox'') (ce_Target e))
        (or_zero_seq (cs (ChatCursorKey ''source'' as (ce_Target e))))\<rparr>)
        (cr_Agents (excludeHandle as f) @ cr_Inboxes (excludeHandle as f))"
    have C': "js' = oa_AccountPub oa" "C' = with_server (with_server C (cw_srv C)) (cw_srv C)"
      using s(2) open_chat_js [OF pool', of E] by simp_all
    show thesis
    proof (rule stamped)
      show "ListChatReadCursors (ch_faults E CS_Cursors) (acct_ID org) (session_user E) C = Inr cs"
        using s(1) by (simp only: same_server)
    next
      show "\<forall>e \<in> set (cr_Pipes roster). \<exists>p \<in> set (pipes (chat_db C)).
         ce_Target e = pipe_target (pp_Manifold p) (pp_Name p) \<and> ce_Unread e = unreadCount
           (streamLastSeq E C (Some (oa_AccountPub oa)) (BuildStreamName (acct_ID org) (pp_Manifold p) '''' (pp_Name p)))
           (or_zero_seq (cs (ChatCursorKey ''pipe'' as (ce_Target e))))"
        unfolding s(3) excludeHandle_parts(3) C' same_server_twice using f by (fastforce simp: pipe_entry_def)
    next
      show "as \<noteq> '''' \<longrightarrow> (\<forall>e \<in> set (cr_Agents roster @ cr_Inboxes roster). ce_Unread e = countAfter
           (drainInboxBySender E C (Some (oa_AccountPub oa)) (BuildStreamName (acct_ID org)
              (handle_manifold (ch_faults E CS_Acting) (acct_ID org) as C) as ''inbox'') (ce_Target e))
           (or_zero_seq (cs (ChatCursorKey ''source'' as (ce_Target e)))))"
      proof
        assume "as \<noteq> ''''"
        then show "\<forall>e \<in> set (cr_Agents roster @ cr_Inboxes roster). ce_Unread e = countAfter
           (drainInboxBySender E C (Some (oa_AccountPub oa)) (BuildStreamName (acct_ID org)
              (handle_manifold (ch_faults E CS_Acting) (acct_ID org) as C) as ''inbox'') (ce_Target e))
           (or_zero_seq (cs (ChatCursorKey ''source'' as (ce_Target e))))"
          unfolding s(4) [rule_format, OF \<open>as \<noteq> ''''\<close>] C' same_server_twice set_map by simp
      qed
    qed
  qed
qed


lemma last_seq_cong:
  assumes "cw_srv C' = cw_srv C" and "cw_content C' = cw_content C"
  shows "streamLastSeq E C' js name = streamLastSeq E C js name" and "mark_stream E org win as C' = mark_stream E org win as C"
proof -
  have "js_Stream E C' = js_Stream E C" by (intro ext) (simp add: js_Stream_def assms)
  then show "streamLastSeq E C' js name = streamLastSeq E C js name" unfolding streamLastSeq_def stream_of_def by (simp only:)
  show "mark_stream E org win as C' = mark_stream E org win as C" by (simp add: mark_stream_def handle_manifold_def assms)
qed

text \<open>The world after a mark.\<close>

lemma mark_effect:
  assumes mark: "handleGUIChatMarkRead E (Inr req) C = (Replied st x, C1)"
    and org: "chat_org E C = Inr org" and js: "chat_js E (acct_ID org) C = (Some js, C0)" and ok: "cursors_ok C"
  obtains win r where "resolveChatWindow (acct_ID org) (mr_Kind req) (mr_Target req) = Inr win"
    "streamLastSeq E C1 (Some js) (mark_stream E org win (mr_As req) C1) \<le> cc_LastReadSeq r"
    "r \<in> set (cw_cursors C1)" "cursor_key r = (acct_ID org, session_user E, mr_Kind req, mr_As req, mr_Target req)"
    "cursors_ok C1" "nats_only (chat_db C) (chat_db C1)" "cw_srv C1 = cw_srv C0"
proof -
  obtain win where win: "resolveChatWindow (acct_ID org) (mr_Kind req) (mr_Target req) = Inr win"
      and put: "UpsertChatReadCursor (ch_faults E CS_Upsert) (ch_now E) (acct_ID org) (session_user E) (mr_Kind req) (mr_As req)
        (mr_Target req) (streamLastSeq E C0 (Some js) (mark_stream E org win (mr_As req) C0)) C0 = (None, C1)"
    using mark_run [OF mark org js] by blast
  obtain W where C0: "C0 = with_server C W" "nats_only (chat_db C) (aw_db W)"
    using chat_js_world [OF js] by blast
  have same: "streamLastSeq E C0 (Some js) (mark_stream E org win (mr_As req) C0)
      = streamLastSeq E C1 (Some js) (mark_stream E org win (mr_As req) C1)"
    by (simp only: last_seq_cong [OF upsert_keeps [OF put]])
  obtain r where r: "r \<in> set (cw_cursors C1)"
      "cursor_key r = (acct_ID org, session_user E, mr_Kind req, mr_As req, mr_Target req)"
      "streamLastSeq E C1 (Some js) (mark_stream E org win (mr_As req) C1) \<le> cc_LastReadSeq r"
    using upsert_moves [OF put] unfolding same by (elim bexE conjE)
  show ?thesis
  proof (rule that [OF win r(3,1,2)])
    have "cursors_ok C0" using ok unfolding C0(1) cursors_ok_def with_server_simps .
    then show "cursors_ok C1" by (rule upsert_ok [OF put])
    show "nats_only (chat_db C) (chat_db C1)" using C0(2) unfolding upsert_keeps(1) [OF put] C0(1) with_server_simps .
    show "cw_srv C1 = cw_srv C0" using upsert_keeps(1) [OF put] .
  qed
qed



section \<open>A message that was sent is shown\<close>

lemma replay_start_le: "first \<le> newest \<Longrightarrow> chatReplayStart first newest limit \<le> newest"
  by (auto simp: chatReplayStart_def)

lemma replay_newest:
  assumes "\<forall>m \<in> set (js_Msgs S). jm_seq m \<le> js_LastSeq S" and "\<forall>q. \<not> ch_lost E name q"
  shows "env \<in> set (fst (replayStream E name limit (append_msg env S)))"
proof -
  let ?S = "append_msg env S" and ?q = "Suc (js_LastSeq S)"
  have "find (\<lambda>m. jm_seq m = ?q) (js_Msgs S) = None"
    using assms(1) by (auto simp: find_None_iff)
  then have "decoded_at E name ?S ?q = Some (?q, env)"
    using assms(2) by (simp add: decoded_at_def GetMsg_def append_msg_def find_append)
  moreover have "FirstSeq ?S \<le> ?q"
    using assms(1) by (cases "js_Msgs S") (auto simp: FirstSeq_def append_msg_def)
  ultimately have "(?q, env) \<in> set (replay_seqs E name limit ?S)"
    using replay_start_le [of "FirstSeq ?S" ?q limit]
    by (auto simp: replay_seqs_def List.map_filter_def append_msg_def image_iff intro!: bexI [of _ ?q])
  then show ?thesis
    by (force simp: replayStream_def append_msg_def Let_def)
qed

definition seen_shown :: "string list \<times> chatmessageview list \<Rightarrow> bool" where
  "seen_shown acc \<longleftrightarrow> (\<forall>i \<in> set (fst acc). \<exists>w \<in> set (snd acc). cv_ID w = i)"

lemma drain_msg_step:
  assumes "seen_shown acc"
  shows "seen_shown (drain_msg me want env acc)" and "set (snd acc) \<subseteq> set (snd (drain_msg me want env acc))"
    and "leg_wants want env \<Longrightarrow> \<exists>w \<in> set (snd (drain_msg me want env acc)). cv_ID w = en_ID env"
  using assms by (cases acc; auto simp: drain_msg_def seen_shown_def leg_wants_def chatView_def)+

lemma drain_msgs:
  assumes "seen_shown acc"
  shows "seen_shown (fold (drain_msg me want) envs acc) \<and> set (snd acc) \<subseteq> set (snd (fold (drain_msg me want) envs acc)) \<and>
    (\<forall>env \<in> set envs. leg_wants want env \<longrightarrow> (\<exists>w \<in> set (snd (fold (drain_msg me want) envs acc)). cv_ID w = en_ID env))"
  using assms
proof (induction envs arbitrary: acc)
  case (Cons env envs)
  let ?acc = "drain_msg me want env acc"
  have step: "seen_shown ?acc" "set (snd acc) \<subseteq> set (snd ?acc)"
      "leg_wants want env \<Longrightarrow> \<exists>w \<in> set (snd ?acc). cv_ID w = en_ID env"
    using drain_msg_step [OF Cons.prems] by blast+
  from Cons.IH [OF step(1)] step(2,3) show ?case by (auto simp: subset_iff)
qed simp

lemma drain_legs:
  assumes "seen_shown acc"
  shows "seen_shown (fold (drain_leg E C js me) legs acc) \<and> set (snd acc) \<subseteq> set (snd (fold (drain_leg E C js me) legs acc))"
  using assms
proof (induction legs arbitrary: acc)
  case (Cons leg legs)
  have "seen_shown (drain_leg E C js me leg acc) \<and> set (snd acc) \<subseteq> set (snd (drain_leg E C js me leg acc))"
    using drain_msgs [OF Cons.prems] Cons.prems by (auto simp: drain_leg_def split: option.split)
  with Cons.IH show ?case by fastforce
qed simp

lemma first_leg_shown:
  assumes "js_Stream E C js (rl_StreamName leg) = Some S" and "env \<in> set (fst (replayStream E (rl_StreamName leg) chatHistoryLimit S))"
    and "leg_wants (rl_WantSender leg) env"
  shows "\<exists>w \<in> set (drainChatThread E C (Some js) (leg # legs) me). cv_ID w = en_ID env"
proof -
  have start: "seen_shown ([], [])" by (simp add: seen_shown_def)
  let ?acc = "drain_leg E C js me leg ([], [])"
  have acc: "?acc = fold (drain_msg me (rl_WantSender leg)) (fst (replayStream E (rl_StreamName leg) chatHistoryLimit S)) ([], [])"
    using assms(1) by (simp add: drain_leg_def)
  obtain w where "w \<in> set (snd ?acc)" "cv_ID w = en_ID env" "seen_shown ?acc"
    using drain_msgs [OF start, of me "rl_WantSender leg"] assms(2,3) unfolding acc by blast
  with drain_legs [of ?acc E C js me legs] show ?thesis
    by (auto simp: drainChatThread_def)
qed

lemma window_first_leg:
  assumes "resolveChatWindowDB E org kind target C = Inr (subject, sn)"
    and "resolveChatReadLegs E' org' kind target as C' = Inr legs" and "acct_ID org' = acct_ID org"
    and "nats_only (chat_db C) (chat_db C')"
  shows "\<exists>want rest. legs = \<lparr>rl_StreamName = sn, rl_WantSender = want\<rparr> # rest \<and> (want = '''' \<or> want = as)"
proof -
  have same: "GetSourceByHandle f a h (chat_db C') = Inr x \<Longrightarrow> GetSourceByHandle g a h (chat_db C) = Inr y \<Longrightarrow> x = y" for f g a h x y
    using nats_only_tables(3) [OF assms(4)] by (cases f; cases g) (auto simp: GetSourceByHandle_def query_row_def)
  obtain win where win: "resolveChatWindow (acct_ID org) kind target = Inr win"
    using assms(1) by (auto simp: resolveChatWindowDB_def split: sum.splits)
  show ?thesis
  proof (cases "wn_Kind win = ''source''")
    case True
    then obtain y where y: "GetSourceByHandle (ch_faults E CS_Target) (acct_ID org) (wn_Handle win) (chat_db C) = Inr y"
        "sn = BuildStreamName (acct_ID org) (src_Manifold y) (src_Handle y) ''inbox''"
      using assms(1) win by (auto simp: resolveChatWindowDB_def split: sum.splits if_splits)
    then obtain x where x: "GetSourceByHandle (ch_faults E' CS_Target) (acct_ID org) (wn_Handle win) (chat_db C') = Inr x"
      using assms(2,3) win True by (auto simp: resolveChatReadLegs_def split: sum.splits if_splits)
    have "x = y" by (rule same [OF x y(1)])
    then show ?thesis
      using assms(2,3) win True x y by (auto simp: resolveChatReadLegs_def Let_def split: if_splits)
  next
    case False
    then have "wn_Kind win = ''pipe''"
      using win by (auto simp: resolveChatWindow_def Let_def split: if_splits prod.splits)
    then show ?thesis
      using assms(1-3) win by (auto simp: resolveChatWindowDB_def resolveChatReadLegs_def split: sum.splits if_splits)
  qed
qed




section \<open>An example\<close>

definition ex_chat :: chat_env where
  "ex_chat = \<lparr>ch_op = ex_env, ch_faults = no_faults,
     ch_session = \<lparr>gs_parse = Some, gs_user = ''u1'', gs_org = ''a1''\<rparr>, ch_now = 5, ch_msgID = ''m1'',
     ch_marshal = (\<lambda>_. None), ch_publish = None, ch_down = (\<lambda>_. False), ch_lost = (\<lambda>_ _. False), ch_lastTime = (\<lambda>_. 0),
     ch_beat = (\<lambda>_. ('''', 0))\<rparr>"

definition ex_standup :: pipe where
  "ex_standup = \<lparr>pp_ID = ''p2'', pp_AccountID = ''a1'', pp_Manifold = '''', pp_SourceID = None, pp_CreatedByUserID = ''u1'',
     pp_Name = ''standup'', pp_TTLSeconds = None, pp_MaxMsgs = None, pp_MaxBytes = None, pp_CreatedAt = 3\<rparr>"

definition ex_config :: stream_config where
  "ex_config = stream_config_for ''a1'' '''' '''' ''standup'' (0, 0, 0)"

definition ex_room :: chat_world where
  "ex_room = \<lparr>cw_srv = ex_warm\<lparr>aw_db := ex_pipes\<lparr>pipes := [ex_standup]\<rparr>,
                             aw_streams := (\<lambda>_. [''pipe_a1_standup'' \<mapsto> ex_config])\<rparr>,
     cw_content = (\<lambda>_ _. empty_stream), cw_cursors = []\<rparr>"

definition ex_post :: chatsendrequest where
  "ex_post = \<lparr>sq_Kind = ''pipe'', sq_Target = ''standup'', sq_Payload = ''hi'', sq_As = ''alice''\<rparr>"

definition ex_account :: account where
  "ex_account = \<lparr>acct_ID = ''a1'', acct_Name = ''acme'', acct_OwnerUserID = ''u1'', acct_CreatedAt = 1, acct_NATSAccountPub = '''',
     acct_NATSAccountJWT = '''', acct_NATSAccountSigningSeed = ''''\<rparr>"

definition ex_open :: chat_world where
  "ex_open = with_server ex_room (cw_srv ex_room)"

definition ex_message :: envelope where
  "ex_message = New_envelope ''m1'' ''alice'' '''' ''hi'' 5"

definition ex_told :: chat_world where
  "ex_told = deliver ''ACC'' ''a1.standup'' ex_message ex_open"

lemma ex_chat_simps [simp]:
  "ch_op ex_chat = ex_env" "ch_faults ex_chat = no_faults" "ch_session ex_chat = \<lparr>gs_parse = Some, gs_user = ''u1'', gs_org = ''a1''\<rparr>"
  "ch_now ex_chat = 5" "ch_msgID ex_chat = ''m1''" "ch_marshal ex_chat env = None" "ch_publish ex_chat = None"
  "\<not> ch_down ex_chat name" "\<not> ch_lost ex_chat name q"
  by (simp_all add: ex_chat_def)

lemma ex_room_srv: "chat_db ex_room = ex_pipes\<lparr>pipes := [ex_standup]\<rparr>" "cw_cursors ex_room = []"
  "aw_streams (cw_srv ex_room) pub = [''pipe_a1_standup'' \<mapsto> ex_config]" "js_Msgs (cw_content ex_room pub name) = []"
  "aw_pool (cw_srv ex_room) ''a1'' = Some \<lparr>oa_AccountID = ''a1'', oa_AccountName = ''acme'', oa_AccountPub = ''ACC''\<rparr>"
  by (simp_all add: ex_room_def ex_warm_def empty_stream_def)

lemma ex_chat_org:
  assumes "chat_db C = ex_pipes\<lparr>pipes := ps\<rparr>"
  shows "chat_org ex_chat C = Inr ex_account"
proof -
  have "GetAccount None ''a1'' (ex_pipes\<lparr>pipes := ps\<rparr>) = Inr ex_account"
    by (simp add: GetAccount_def ex_pipes_def ex_account_def account.defs)
  moreover have "RoleInOrg None None ''u1'' ''a1'' (ex_pipes\<lparr>pipes := ps\<rparr>) = Inr OrgOwner"
    by (simp add: RoleInOrg_def ex_pipes_def uuid_nil_def)
  ultimately show ?thesis
    unfolding chat_org_def assms
    by (simp add: resolveMemberOrg_def lookupOrgAccess_def resolveOrg_def ex_account_def OrgOwner_def OrgNone_def)
qed

lemma ex_names: "BuildStreamName ''a1'' '''' '''' ''standup'' = ''pipe_a1_standup''" "BuildSubject ''a1'' '''' '''' ''standup'' = ''a1.standup''"
  "splitManifoldName ''standup'' = ('''', ''standup'')" "ValidatePipe ''standup'' = None" "manifold_ok ''''"
  by code_simp+

lemma ex_window: "resolveChatWindow ''a1'' ''pipe'' ''standup'' =
    Inr \<lparr>wn_Kind = ''pipe'', wn_Manifold = '''', wn_Handle = '''', wn_Name = ''standup'', wn_Subject = ''a1.standup'',
         wn_StreamName = ''pipe_a1_standup''\<rparr>"
  using ex_names(4) by (simp add: resolveChatWindow_def ex_names(1-3,5))

lemma ex_window_db: "resolveChatWindowDB ex_chat ex_account ''pipe'' ''standup'' ex_room = Inr (''a1.standup'', ''pipe_a1_standup'')"
  by (simp add: resolveChatWindowDB_def ex_account_def ex_window UncollaredPipeExists_def ex_room_srv is_uncollared_def ex_standup_def)

lemma ex_opened: "chat_js ex_chat ''a1'' ex_room = (Some ''ACC'', ex_open)"
  using open_chat_js [OF ex_room_srv(5), of ex_chat] by (simp add: ex_open_def)

lemma ex_sent: "handleGUIChatSend ex_chat (Inr ex_post) ex_room = (Replied 200 (chatView ex_message ''alice''), ex_told)"
proof -
  have "GetSourceByHandle None ''a1'' ''alice'' (ex_pipes\<lparr>pipes := [ex_standup]\<rparr>) = Inr (sources ex_pipes ! 0)"
      "messageHandleOwnedBy (sources ex_pipes ! 0) ''u1''"
    by (simp_all add: GetSourceByHandle_def ex_pipes_def messageHandleOwnedBy_def SourceKindMessage_def)
  moreover have "RuneCount ''hi'' \<le> maxChatPayload"
    by (simp add: RuneCount_def maxChatPayload_def DecodeRune_def numeral_2_eq_2)
  moreover have "chat_JSFor ex_chat ''a1'' ex_room = (Inr ''ACC'', ex_open)"
    using ex_opened chat_js_JSFor by blast
  ultimately show ?thesis
    using ex_chat_org [OF ex_room_srv(1)] ex_window_db
    by (simp add: handleGUIChatSend_def ex_post_def ex_account_def ex_room_srv(1) ex_told_def ex_message_def Let_def)
qed


lemma ex_told_db: "chat_db ex_told = ex_pipes\<lparr>pipes := [ex_standup]\<rparr>" "cw_srv ex_told = cw_srv ex_open" "cw_srv ex_open = cw_srv ex_room"
  "cw_cursors ex_told = []" "js_Msgs (cw_content ex_open pub name) = []"
  "cw_content ex_told ''ACC'' ''pipe_a1_standup'' = append_msg ex_message (cw_content ex_open ''ACC'' ''pipe_a1_standup'')"
  by (simp_all add: ex_told_def ex_open_def ex_room_srv deliver_def with_server_def empty_stream_def ex_config_def stream_config_for_def ex_names)

theorem chat_sender_owned_witness:
  "\<exists>m env. m \<in> set (js_Msgs (cw_content ex_told ''ACC'' ''pipe_a1_standup'')) \<and> jm_env m = Some env \<and> en_Sender env = ''alice'' \<and>
     (\<exists>src \<in> set (sources (chat_db ex_room)). src_Handle src = ''alice'' \<and> src_CreatedByUserID src = ''u1'')"
proof -
  obtain m where m: "m \<in> set (js_Msgs (cw_content ex_told ''ACC'' ''pipe_a1_standup''))"
    by (auto simp: ex_told_db append_msg_def)
  have "m \<notin> set (js_Msgs (cw_content ex_room ''ACC'' ''pipe_a1_standup''))" by (simp add: ex_room_srv)
  from chat_sender_owned [OF ex_sent m this] m show ?thesis by (intro exI [of _ m]) (auto simp: ex_post_def)
qed


definition ex_mark :: chatreadrequest where
  "ex_mark = \<lparr>mr_Kind = ''pipe'', mr_Target = ''standup'', mr_As = ''alice''\<rparr>"

lemma ex_told_open: "aw_pool (cw_srv ex_told) ''a1'' = Some \<lparr>oa_AccountID = ''a1'', oa_AccountName = ''acme'', oa_AccountPub = ''ACC''\<rparr>"
  by (simp add: ex_told_db ex_room_srv)

lemma ex_marked: "\<exists>n C1. handleGUIChatMarkRead ex_chat (Inr ex_mark) ex_told = (Replied 200 (0, n), C1)"
proof -
  let ?C = "with_server ex_told (cw_srv ex_told)"
  have "chat_js ex_chat ''a1'' ex_told = (Some ''ACC'', ?C)" using open_chat_js [OF ex_told_open, of ex_chat] by simp
  moreover have "fst (UpsertChatReadCursor None 5 ''a1'' ''u1'' ''pipe'' ''alice'' ''standup'' n ?C) = None" for n
  proof -
    have "cw_cursors ?C = []" "has_account (chat_db ?C) ''a1''" "has_user (chat_db ?C) ''u1''"
      by (simp_all add: ex_told_db(4)) (simp_all add: ex_told_db(1) has_account_def has_user_def ex_pipes_def)
    moreover have "zero_byte \<notin> set (''pipe'' @ ''alice'' @ ''standup'')" by code_simp
    ultimately show ?thesis
      unfolding UpsertChatReadCursor_def Let_def by (simp only: option.case if_False list_ex_iff list.set empty_iff bex_empty simp_thms fst_conv)
  qed
  ultimately show ?thesis
    using ex_chat_org [OF ex_told_db(1)]
    by (auto simp: handleGUIChatMarkRead_def ex_mark_def ex_account_def ex_window Let_def prod_eq_iff split: prod.split option.split)
qed


lemma ex_roster:
  assumes "chat_db C = ex_pipes\<lparr>pipes := [ex_standup]\<rparr>"
  shows "\<exists>roster n C2. handleGUIChatRoster ex_chat ''alice'' C = (Replied 200 (roster, n), C2) \<and>
    (\<exists>e \<in> set (cr_Pipes roster). ce_Target e = ''standup'')"
proof -
  have acct: "acct_ID ex_account = ''a1''" by (simp add: ex_account_def)
  have ps: "ListUncollaredPipesForAccount None ''a1'' (chat_db C) = Inr [ex_standup]"
    by (simp add: ListUncollaredPipesForAccount_def assms ex_standup_def)
  obtain js C1 where js: "chat_js ex_chat ''a1'' C = (js, C1)" by force
  let ?fresh = "buildChatRoster (map (source_input ex_chat C1 ''a1'' js)
      (sort_key (\<lambda>s. (src_Manifold s, src_Handle s)) (filter (\<lambda>s. src_AccountID s = ''a1'') (sources (chat_db C)))))
      (map (\<lambda>p. \<lparr>cp_Manifold = pp_Manifold p, cp_Name = pp_Name p\<rparr>) [ex_standup]) 5"
  have gather: "gatherChatRoster ex_chat ex_account C = (Inr ?fresh, C1)"
    by (simp add: gatherChatRoster_def acct ListSourcesForOrg_def ps js Let_def)
  obtain roster C2 where stamp: "stampUnread ex_chat ex_account ''u1'' ''alice'' (excludeHandle ''alice'' ?fresh) C1 = (roster, C2)" by force
  have fresh: "cr_Pipes ?fresh = [pipe_entry \<lparr>cp_Manifold = '''', cp_Name = ''standup''\<rparr>]"
    by (simp add: buildChatRoster_def ex_standup_def)
  have "\<exists>e \<in> set (cr_Pipes roster). ce_Target e = ''standup''"
    using stamp_run [OF stamp] excludeHandle_parts(3) [of "''alice''" ?fresh] fresh
    by (auto simp: pipe_entry_def pipe_target_def)
  moreover have "handleGUIChatRoster ex_chat ''alice'' C = (Replied 200 (roster, OnlineCount roster), C2)"
    using ex_chat_org [OF assms] gather stamp by (simp add: handleGUIChatRoster_def)
  ultimately show ?thesis by blast
qed



section \<open>Removing a pipe\<close>

text \<open>C36: Removing a pipe through the chat does not ask for admin access. When the pipes page refuses a member of the
  organisation the deletion of an uncollared pipe, the chat deletes it for the same session, row and stream, and leaves
  no trace in the audit trail.\<close>

theorem chat_removal_ignores_access:
  assumes org: "chat_org E C = Inr org"
    and denied: "requireAdminOn (ch_op E) (sessionKey org (session_user E)) (chat_db C) [pipe_target manifold name] = Some err"
    and ok: "ch_faults E = no_faults" "oe_faults (ch_op E) = no_faults" "aw_pool (cw_srv C) (acct_ID org) = Some oa"
    and names: "ValidatePipe name = None" "manifold_ok manifold" "CHR ''.'' \<notin> set name"
    and row: "list_ex (is_uncollared (acct_ID org) manifold name) (pipes (chat_db C))"
  shows "handleGUIDeletePipe (ch_op E) (ch_session E) \<lparr>fm_kind = '''', fm_namespace = manifold, fm_name = name, fm_source = ''''\<rparr> (cw_srv C)
      = (writeOpErr err, cw_srv C) \<and>
    (\<exists>C'. handleGUIChatRemovePipe E (pipe_target manifold name) C = (Replied 204 (), C') \<and>
       \<not> list_ex (is_uncollared (acct_ID org) manifold name) (pipes (chat_db C')) \<and>
       aw_streams (cw_srv C') (oa_AccountPub oa) (BuildStreamName (acct_ID org) manifold '''' name) = None \<and>
       audit_events (chat_db C') = audit_events (chat_db C))"
proof -
  let ?F = "\<lparr>fm_kind = '''', fm_namespace = manifold, fm_name = name, fm_source = ''''\<rparr> :: gui_form"
  let ?D1 = "(chat_db C)\<lparr>pipes := filter (\<lambda>p. \<not> is_uncollared (acct_ID org) manifold name p) (pipes (chat_db C))\<rparr>"
  let ?C1 = "with_server C ((cw_srv C)\<lparr>aw_db := ?D1\<rparr>)"
  have path: "form_path ?F = pipe_target manifold name" by (simp add: form_path_def pipe_target_def)
  have refused: "handleGUIDeletePipe (ch_op E) (ch_session E) ?F (cw_srv C) = (writeOpErr err, cw_srv C)"
    using org denied path by (simp add: handleGUIDeletePipe_def with_member_org_def chat_org_def)
  have del: "DeleteUncollaredPipe None (acct_ID org) manifold name (chat_db C) = (None, ?D1)"
    using row by (simp add: DeleteUncollaredPipe_def)
  have js: "chat_JSFor E (acct_ID org) ?C1 = (Inr (oa_AccountPub oa), with_server ?C1 (cw_srv ?C1))"
    using ok(3) open_chat_js [of ?C1 "acct_ID org" oa E] by (simp add: chat_js_JSFor)
  have run: "handleGUIChatRemovePipe E (pipe_target manifold name) C =
      (Replied 204 (), snd (DeleteChatReadCursorsForTarget None (acct_ID org) ''pipe'' (pipe_target manifold name)
         (set_streams (oa_AccountPub oa) ((aw_streams (cw_srv C) (oa_AccountPub oa))(BuildStreamName (acct_ID org) manifold '''' name := None))
            (with_server ?C1 (cw_srv ?C1)))))"
    using org names(2) splitManifoldName_target [OF names(3), of manifold] names(1)
    by (auto simp: handleGUIChatRemovePipe_def ok(1,2) del js deleteUncollaredPipeStream_def Let_def fun_upd_idem)
  show ?thesis
    using refused run by (auto simp: DeleteChatReadCursorsForTarget_def set_streams_def list_ex_iff)
qed


definition ex_guest :: chat_env where
  "ex_guest = ex_chat\<lparr>ch_session := \<lparr>gs_parse = Some, gs_user = ''u2'', gs_org = ''a1''\<rparr>\<rparr>"

definition ex_guest_room :: chat_world where
  "ex_guest_room = ex_room\<lparr>cw_srv := ex_member\<lparr>aw_db := (aw_db ex_member)\<lparr>pipes := [ex_standup]\<rparr>\<rparr>\<rparr>"

lemma ex_guest_org: "chat_org ex_guest ex_guest_room = Inr ex_account"
proof -
  let ?D = "(aw_db ex_member)\<lparr>pipes := [ex_standup]\<rparr>"
  have "GetAccount None ''a1'' ?D = Inr ex_account"
    by (simp add: GetAccount_def ex_member_def ex_pipes_def ex_account_def account.defs)
  moreover have "RoleInOrg None None ''u2'' ''a1'' ?D = Inr OrgMember"
    by (simp add: RoleInOrg_def ex_member_def ex_pipes_def uuid_nil_def OrgAdmin_def OrgOwner_def OrgMember_def)
  ultimately show ?thesis
    by (simp add: chat_org_def ex_guest_def ex_guest_room_def resolveMemberOrg_def lookupOrgAccess_def resolveOrg_def ex_account_def
        OrgMember_def OrgNone_def)
qed

lemma ex_guest_refused: "\<exists>err. requireAdminOn ex_env (sessionKey ex_account ''u2'') (chat_db ex_guest_room) [''standup''] = Some err"
proof -
  let ?D = "chat_db ex_guest_room" and ?k = "sessionKey ex_account ''u2''"
  have "ACLEnforced None ''a1'' ?D = Inr True" "\<exists>u. GetUser None ''u2'' ?D = Inr u"
      "RoleInOrg None None ''u2'' ''a1'' ?D = Inr OrgMember" "ListSourcesForOrg None ''a1'' ?D = Inr (sources ?D)"
      "ListACLGrantsForPrincipal None ''a1'' ''u2'' ?D = Inr []" "Actor ?k = ''u2''" "ak_AccountID ?k = ''a1''"
    by (simp_all add: ex_guest_room_def ex_member_def ex_pipes_def ACLEnforced_def GetUser_def RoleInOrg_def uuid_nil_def OrgAdmin_def
        OrgOwner_def ListSourcesForOrg_def ListACLGrantsForPrincipal_def Actor_def sessionKey_def ex_account_def)
  moreover have "\<not> Has (Evaluate (principal_of ''u2'' u OrgMember) (subjectFor ''standup'' (handle_map (sources ?D))) []) Admin" for u
    by (subst Evaluate_Has_rule)
      (simp_all add: all_perms_def principal_of_def OrgMember_def OrgAdmin_def OrgOwner_def CanAdministerOrg_def AtLeast_def
        role_rank_def is_handle_owner_def subjectFor_def splitPath_def handle_map_def ex_guest_room_def ex_member_def ex_pipes_def perm_defs)
  ultimately have "admin_check ex_env ?k ''standup'' ?D \<noteq> None"
    by (auto simp: requirePipeAdmin_def pipeDecision_def)
  then show ?thesis by auto
qed

theorem chat_removal_ignores_access_witness:
  "\<exists>err C'. handleGUIDeletePipe ex_env (ch_session ex_guest)
        \<lparr>fm_kind = '''', fm_namespace = '''', fm_name = ''standup'', fm_source = ''''\<rparr> (cw_srv ex_guest_room)
      = (writeOpErr err, cw_srv ex_guest_room) \<and>
    handleGUIChatRemovePipe ex_guest ''standup'' ex_guest_room = (Replied 204 (), C') \<and>
    audit_events (chat_db C') = []"
proof -
  obtain err where err: "requireAdminOn (ch_op ex_guest) (sessionKey ex_account (session_user ex_guest)) (chat_db ex_guest_room)
      [pipe_target '''' ''standup''] = Some err"
    using ex_guest_refused by (auto simp: ex_guest_def pipe_target_def)
  have "aw_pool (cw_srv ex_guest_room) (acct_ID ex_account) = Some \<lparr>oa_AccountID = ''a1'', oa_AccountName = ''acme'', oa_AccountPub = ''ACC''\<rparr>"
    by (simp add: ex_guest_room_def ex_member_def ex_warm_def ex_account_def)
  note run = chat_removal_ignores_access [OF ex_guest_org err _ _ this ex_names(4,5)]
  have "audit_events (chat_db ex_guest_room) = []" by (simp add: ex_guest_room_def ex_member_def ex_pipes_def)
  moreover have "list_ex (is_uncollared (acct_ID ex_account) '''' ''standup'') (pipes (chat_db ex_guest_room))"
    by (simp add: ex_guest_room_def ex_standup_def is_uncollared_def ex_account_def)
  moreover have "ch_faults ex_guest = no_faults" "oe_faults (ch_op ex_guest) = no_faults" "ch_op ex_guest = ex_env"
    by (simp_all add: ex_guest_def)
  ultimately show ?thesis using run by (auto simp: pipe_target_def)
qed

end
