(* ===== verification/Spec2Isabelle.thy ===== *)
theory Spec2Isabelle
  imports AclServerProps PipeInvariant SchedulerProps TermLease Invites DaemonListProps DaemonConn DaemonWatch AuthComposition WebChatProps
begin

text \<open>
  A verification development for ppz: named message pipes over NATS, with a server that keeps accounts,
  sources, pipes and access rules in Postgres, a daemon on every user's machine that reads, sends and waits on
  behalf of the command line, and a command line that shares terminals over pipes.

  \<^bold>\<open>The program.\<close> The server (\<open>internal/server\<close>) authenticates callers, changes the tables through
  the repositories of \<open>internal/db\<close>, provisions one JetStream stream per pipe through its account pool, fires
  scheduled sends, and mints for every daemon a short-lived broker credential whose permissions
  \<open>internal/acl\<close> compiles from the stored grants. The daemon (\<open>internal/daemon\<close>) exchanges its key for that
  credential, holds one broker connection, and serves commands over a local socket: some it forwards to the
  server, sending, reading, listing and waiting it does itself on the broker. What both sides and the
  broker share is the subject grammar of \<open>internal/natsubj\<close>: the server names streams with it, the
  compiler writes permissions with it, the daemon parses the subjects of live messages with it. A shared
  terminal (\<open>internal/cli/terminal.go\<close>) is a source whose pipes carry its output, its input, and the
  messages that arbitrate who may type.

  \<^bold>\<open>How code is represented.\<close> A struct is a record, a Go string the list of its bytes, an error a value of
  \<open>dberror\<close>, \<open>cerror\<close> or a status with a text. Stateful code takes its state and returns it changed. Whatever
  can fail outside the process (a statement, a call to the broker, a write to disk) is named by a site of
  a fault oracle or takes its failure as an argument, so a theorem without assumptions on it covers every
  combination of failures, and an operation that stops half way returns the half-changed state. The clock, fresh
  identifiers and random bytes are arguments. Where goroutines or requests interleave, the theory has a step
  relation whose steps are as small as the critical sections of the code.

  \<^bold>\<open>Shared theories.\<close>
  \<^item> \<open>Prelude\<close>: Go's string functions, instants and durations with their saturation and wrap-around, the
    error value of \<open>cliproto\<close>, fault oracles, lemmas on splitting, joining and lists.
  \<^item> \<open>GoText\<close>: decoding UTF-8, trimming white space, shell patterns.
  \<^item> \<open>Wildcards\<close>: the locale \<open>token_matcher\<close>, the laws of token-wise wildcard matching. It is
    interpreted on the selectors of the access rules in \<open>Acl\<close>; the matcher of the NATS server, which is not in
    the repository, is an executable one here that satisfies the same laws.
  \<^item> \<open>Subjects\<close> (\<open>internal/natsubj\<close>): names, subjects, stream names. Stream names coincide exactly when
    subjects do.
  \<^item> \<open>Errors\<close> (\<open>cliproto/errors.go\<close>): codes, exit codes, statuses, constructors.
  \<^item> \<open>Tables\<close>: the rows of the database and the constraints of the migrations.

  \<^bold>\<open>Access control.\<close>
  \<^item> \<open>Acl\<close> (\<open>acl.go\<close>, \<open>selector.go\<close>, labels of \<open>render.go\<close>): evaluation of grants. It grants exactly what a
    declarative rule says, and the reason it reports is the most specific source of the capability.
  \<^item> \<open>AclCompile\<close>, \<open>AclCompileProps\<close> (\<open>compile.go\<close>): credentials. Under the broker's documented rule
    (locale \<open>nats_authz\<close>) a compiled credential permits publishing, subscribing and reading a pipe exactly when
    the evaluator does.
  \<^item> \<open>AclPreview\<close> (\<open>preview.go\<close>): the report before enforcement is switched on, against the evaluator.
  \<^item> \<open>AclServer\<close>, \<open>AclServerProps\<close> (\<open>acl_enforce.go\<close>, \<open>handlers_acl.go\<close>, \<open>handlers_svc.go\<close>): the
    surfaces that list, check and change grants. The credential and the check of the web surface agree.

  \<^bold>\<open>Server state.\<close>
  \<^item> \<open>DbPrincipals\<close>, \<open>DbPipes\<close>, \<open>DbAcl\<close>: the repositories. Constraints and references are invariant; sources and
    pipes refine a map from addresses (locale \<open>named_rows\<close>), the grant table refines a set of facts.
  \<^item> \<open>Streams\<close>, \<open>StreamsProps\<close> (\<open>streams.go\<close>, \<open>account_pool.go\<close>): the account pool re-creates the streams
    the rows ask for.
  \<^item> \<open>PipeOps\<close>, \<open>PipeHandlers\<close>, \<open>PipeProps\<close>, \<open>PipeInvariant\<close> (\<open>pipe_ops.go\<close>, \<open>handlers_api.go\<close>,
    \<open>handlers_pipe_set.go\<close>, \<open>handlers_gui_pipes.go\<close>, \<open>handlers_owner_gates.go\<close>): the requests that change pipes. No
    sequence of them, whatever fails, lets two pipes share a stream.
  \<^item> \<open>Invites\<close>: invitations, with concurrent decisions interleaved statement by statement.
  \<^item> \<open>Schedules\<close>, \<open>Scheduler\<close>, \<open>SchedulerProps\<close> (\<open>internal/schedule\<close>, \<open>db/schedules.go\<close>,
    \<open>server/scheduler.go\<close>, \<open>handlers_schedules.go\<close>, \<open>envelope.go\<close>): next-fire arithmetic in 64 bits, the
    claim and release of due rows, one tick of the firing loop under every answer of broker and database.

  \<^bold>\<open>Identity.\<close>
  \<^item> \<open>WebSession\<close> (\<open>session.go\<close>, \<open>auth_session.go\<close>, \<open>oauth_state.go\<close>, \<open>handlers_auth.go\<close>): signed cookies, with base64
    defined and shown to invert; the state of the GitHub login, whose store of nonces may forget and still answers like one
    that never forgets; the callback.
  \<^item> \<open>DeviceFlow\<close> (\<open>db/oauth_tokens.go\<close>, \<open>handlers_device_flow.go\<close>): device codes and bearer tokens, with approvals and
    polls interleaved statement by statement. Every token acts as a user who approved its code.
  \<^item> \<open>ServerAuth\<close> (\<open>auth_bearer.go\<close>, \<open>handleAuthExchange\<close> of \<open>handlers_api.go\<close>): the bearer middleware and the exchange
    of a key or token for a broker credential, which stays in the accounts the bearer stands for.
  \<^item> \<open>AuthComposition\<close>: the exchange of \<open>ServerAuth\<close> as the server of the daemon of \<open>DaemonLogin\<close>.

  \<^bold>\<open>Web chat.\<close>
  \<^item> \<open>WebChat\<close>, \<open>WebChatProps\<close> (\<open>chat.go\<close>, \<open>handlers_chat.go\<close>, \<open>db/chat_cursors.go\<close>): the roster, windows, history and
    socket, sending, read cursors, adding and removing pipes, on a world that also has the contents of the streams.
    Messages come from handles of the session's user, are shown once sent, and opening a window clears its badge.

  \<^bold>\<open>Shared terminals.\<close>
  \<^item> \<open>TermBytes\<close> (\<open>terminal.go\<close>, \<open>terminal_filter.go\<close>, \<open>terminal_utf8.go\<close>): the byte paths, the output
    path as an interleaving of reader and publishing worker that ends and delivers everything.
  \<^item> \<open>TermLease\<close> (\<open>terminal.go\<close>, \<open>server/terminal_control.go\<close>): who may type, on the host and in the browser.

  \<^bold>\<open>The daemon.\<close>
  \<^item> \<open>DaemonStore\<close> (\<open>cursors.go\<close>, \<open>state.go\<close>), \<open>DaemonRead\<close>, \<open>DaemonReadProps\<close>, \<open>DaemonOnce\<close> (\<open>read.go\<close>,
    \<open>ack_emit.go\<close>, \<open>sender_resolve.go\<close>): reading with a cursor per session, over whole runs in which others publish,
    the broker trims, and the stream is re-created.
  \<^item> \<open>DaemonSubs\<close> (\<open>subs.go\<close>): subscription files refine a set of subjects per session (locale
    \<open>effect_store\<close>). \<open>DaemonList\<close>, \<open>DaemonListProps\<close> (\<open>list_snapshot.go\<close>, \<open>list_watch.go\<close>,
    \<open>handlers_subs.go\<close>): listings, waits and completion. \<open>Preview\<close> (\<open>cliproto/format.go\<close>): payload previews.
  \<^item> \<open>DaemonConn\<close> (\<open>refresh.go\<close>, \<open>daemon.go\<close>, \<open>follow_registry.go\<close>, \<open>wake_watchdog.go\<close>,
    \<open>nats_dial_error.go\<close>), \<open>DaemonWatch\<close> (\<open>watch_registry.go\<close>) and \<open>DaemonEvents\<close> (\<open>nats_event*.go\<close>,
    \<open>lifecycle.go\<close>, \<open>handlers_diag.go\<close>): the connection, waits that survive its replacement, and its record.
  \<^item> \<open>DaemonSend\<close> (\<open>publish.go\<close>, \<open>schedule.go\<close>, \<open>heartbeat_*.go\<close>, \<open>handlers_who.go\<close>): sending; a send that answers
    success was stored by the pipe it names.
  \<^item> \<open>DaemonHandlers\<close> (\<open>handlers.go\<close>, \<open>handlers_acl.go\<close>): the commands that are requests to the server.
  \<^item> \<open>DaemonLogin\<close> (\<open>handlers.go\<close>, \<open>state.go\<close>, \<open>watcher.go\<close>, \<open>ipc.go\<close>): login, refresh, logout, cold start.

  \<^bold>\<open>How the parts are composed.\<close> \<open>AclServer\<close> evaluates and compiles over the rows of \<open>DbAcl\<close> and \<open>DbPipes\<close>;
  \<open>PipeHandlers\<close> asks \<open>AclServer\<close> before it changes rows and streams; \<open>DaemonSend\<close> sends under the credential
  that \<open>AclCompile\<close> produced, which shows what a principal with write access alone experiences;
  \<open>DaemonHandlers\<close> builds the requests whose query strings the server decodes; \<open>DaemonLogin\<close> runs the refresh
  loop of \<open>DaemonConn\<close> on the state of \<open>DaemonHandlers\<close>, and \<open>AuthComposition\<close> lets the exchange of \<open>ServerAuth\<close>, which
  asks \<open>AclServer\<close> for the permissions, answer it. \<open>WebChat\<close> runs on the world of \<open>PipeHandlers\<close>.

  \<^bold>\<open>Bounds, fuel and termination.\<close> Machine integers that matter are words (permission bits, bytes of a
  terminal) or integers with \<open>wrap64\<close> and saturation written out (durations). Loops that can run for ever
  carry their number of rounds or their event list as an argument: the drain of a read takes the outcomes of
  its fetches, the recovery loop takes its iterations and is shown to end at the first that can end it, the
  output path of a terminal has a measure that bounds every run. Functions with a non-structural recursion have
  termination proofs by the length of the text.

  \<^bold>\<open>Parameters.\<close> Reading durations, timestamps, time zones and cron expressions; JSON; key derivation and
  signatures; GitHub; the answers of NATS and of the server as the daemon sees it; the outcomes of file operations. Where a
  theorem needs a law of one of them, the law is a named hypothesis with a witness on a concrete function.

  \<^bold>\<open>Not modelled.\<close> The text interface, the printers and the argument parsing of \<open>internal/cli\<close> and
  \<open>cliproto\<close>, which render values modelled here; the terminal emulator \<open>internal/thirdparty/vt10x\<close> and the screen
  recognition over it; HTML pages; the terminal chat with its local store; token formats of \<open>internal/natsauth\<close> beyond the permissions put in
  them; starting and stopping processes, sockets and the embedded broker; test fixtures and seeding.
\<close>

end
